(* ===== verification/Prelude.thy ===== *)
theory Prelude
  imports Main "HOL-Library.AList" "HOL-Library.Char_ord" "HOL-Library.List_Lexorder"
    "HOL-Library.Product_Lexorder" "HOL-Library.Sublist"
begin

text \<open>
  Shared vocabulary of the development: Python exceptions as the left summand of a sum type with
  its sequencing operation, ordered dictionaries as association lists with Python's update order,
  the order-preserving deduplication idioms, and two locales every stateful component uses:
  a keyed table (what a database table or a dictionary promises its clients) and a guarded machine
  (a step function with an invariant, lifted to whole runs).
\<close>

named_theorems text_defs "definitions of the Python text operations"
named_theorems value_defs "definitions of the Python value operations"
named_theorems row_defs "definitions of the table operations"

section \<open>Results: a raise is Inl, a return is Inr\<close>

fun rbind :: "'e + 'a \<Rightarrow> ('a \<Rightarrow> 'e + 'b) \<Rightarrow> 'e + 'b" where
  "rbind (Inl e) f = Inl e"
| "rbind (Inr a) f = f a"

definition rcheck :: "bool \<Rightarrow> 'e \<Rightarrow> ('e + 'a) \<Rightarrow> 'e + 'a" where
  "rcheck bad e k = (if bad then Inl e else k)"

fun rmap :: "('a \<Rightarrow> 'e + 'b) \<Rightarrow> 'a list \<Rightarrow> 'e + 'b list" where
  "rmap f [] = Inr []"
| "rmap f (x # xs) = rbind (f x) (\<lambda>y. rbind (rmap f xs) (\<lambda>ys. Inr (y # ys)))"

definition is_ok :: "'e + 'a \<Rightarrow> bool" where
  "is_ok r = (case r of Inl _ \<Rightarrow> False | Inr _ \<Rightarrow> True)"

lemma rbind_Inr_iff [simp]: "rbind x f = Inr b \<longleftrightarrow> (\<exists>a. x = Inr a \<and> f a = Inr b)"
  by (cases x) auto

lemma rbind_Inl_iff: "rbind x f = Inl e \<longleftrightarrow> x = Inl e \<or> (\<exists>a. x = Inr a \<and> f a = Inl e)"
  by (cases x) auto

lemma rbind_cong [fundef_cong]:
  "x = y \<Longrightarrow> (\<And>a. y = Inr a \<Longrightarrow> f a = g a) \<Longrightarrow> rbind x f = rbind y g"
  by (cases y) auto

lemma rcheck_Inr_iff [simp]: "rcheck bad e k = Inr b \<longleftrightarrow> \<not> bad \<and> k = Inr b"
  by (simp add: rcheck_def)

lemma rcheck_simps [simp]: "rcheck True e k = Inl e" "rcheck False e k = k"
  by (simp_all add: rcheck_def)

lemma is_ok_simps [simp]: "\<not> is_ok (Inl e)" "is_ok (Inr a)"
  by (simp_all add: is_ok_def)

lemma is_ok_iff: "is_ok r \<longleftrightarrow> (\<exists>a. r = Inr a)"
  by (cases r) auto

lemma rmap_Inr_iff: "rmap f xs = Inr ys \<longleftrightarrow> list_all2 (\<lambda>x y. f x = Inr y) xs ys"
  by (induction xs arbitrary: ys) (auto simp: list_all2_Cons1)

lemma rmap_Inr_length: "rmap f xs = Inr ys \<Longrightarrow> length ys = length xs"
  by (simp add: rmap_Inr_iff list_all2_lengthD)

lemma rmap_Inr_set:
  assumes "rmap f xs = Inr ys" and "y \<in> set ys"
  shows "\<exists>x \<in> set xs. f x = Inr y"
  using assms by (induction xs arbitrary: ys) auto

lemma rmap_all_Inr: "(\<And>x. x \<in> set xs \<Longrightarrow> f x = Inr (g x)) \<Longrightarrow> rmap f xs = Inr (map g xs)"
  by (induction xs) auto

lemma rmap_cong [fundef_cong]:
  "xs = ys \<Longrightarrow> (\<And>x. x \<in> set ys \<Longrightarrow> f x = g x) \<Longrightarrow> rmap f xs = rmap g ys"
  by (induction ys arbitrary: xs) auto

section \<open>Selecting from a list\<close>

lemma set_map_filter: "set (List.map_filter f xs) = {y. \<exists>x \<in> set xs. f x = Some y}"
  by (induction xs) (auto simp: map_filter_simps split: option.splits)

lemma rmap_image: "rmap f xs = Inr ys \<Longrightarrow> x \<in> set xs \<Longrightarrow> \<exists>y \<in> set ys. f x = Inr y"
  by (induction xs arbitrary: ys) auto

lemma sort_key_snoc: "(\<And>y. y \<in> set xs \<Longrightarrow> f y \<le> f x) \<Longrightarrow> sort_key f (xs @ [x]) = sort_key f xs @ [x]"
proof (induction xs)
  case (Cons a xs)
  have "insort_key f a (zs @ [x]) = insort_key f a zs @ [x]" if "f a \<le> f x" for zs using that by (induction zs) auto
  then show ?case using Cons by simp
qed simp

lemma sort_key_later: "(\<And>y. y \<in> set xs \<Longrightarrow> f y \<le> c) \<Longrightarrow> (\<And>z. z \<in> set ys \<Longrightarrow> f z = c) \<Longrightarrow> sort_key f (xs @ ys) = sort_key f xs @ ys"
proof (induction ys arbitrary: xs)
  case (Cons y ys)
  have "f z \<le> c" if "z \<in> set (xs @ [y])" for z using that Cons.prems by (cases "z = y") simp_all
  moreover have "f z = c" if "z \<in> set ys" for z using that Cons.prems(2) by simp
  ultimately have "sort_key f ((xs @ [y]) @ ys) = sort_key f (xs @ [y]) @ ys" by (rule Cons.IH)
  then show ?case using sort_key_snoc [of xs f y] Cons.prems by simp
qed simp

section \<open>Dictionaries in insertion order\<close>

type_synonym ('k, 'v) dict = "('k \<times> 'v) list"

abbreviation dget :: "('k, 'v) dict \<Rightarrow> 'k \<Rightarrow> 'v option" where
  "dget d k \<equiv> map_of d k"

abbreviation dset :: "'k \<Rightarrow> 'v \<Rightarrow> ('k, 'v) dict \<Rightarrow> ('k, 'v) dict" where
  "dset \<equiv> AList.update"

abbreviation ddel :: "'k \<Rightarrow> ('k, 'v) dict \<Rightarrow> ('k, 'v) dict" where
  "ddel \<equiv> AList.delete"

definition keys :: "('k, 'v) dict \<Rightarrow> 'k list" where
  "keys d = map fst d"

definition has_key :: "('k, 'v) dict \<Rightarrow> 'k \<Rightarrow> bool" where
  "has_key d k = (k \<in> set (map fst d))"

definition get_or :: "('k, 'v) dict \<Rightarrow> 'k \<Rightarrow> 'v \<Rightarrow> 'v" where
  "get_or d k v = (case map_of d k of None \<Rightarrow> v | Some w \<Rightarrow> w)"

lemma has_key_iff: "has_key d k \<longleftrightarrow> map_of d k \<noteq> None"
  by (simp add: has_key_def map_of_eq_None_iff)

lemma get_or_set_same [simp]: "get_or (AList.update k v d) k w = v"
  by (simp add: get_or_def update_Some_unfold AList.update_conv)

lemma get_or_set_other [simp]: "k \<noteq> k' \<Longrightarrow> get_or (AList.update k v d) k' w = get_or d k' w"
  by (simp add: get_or_def AList.update_conv)

lemma set_dset: "set (dset k v d) \<subseteq> insert (k, v) (set d)"
  by (induction d) auto

lemma fold_dset_get: "dget (fold (\<lambda>r. dset (f r) r) rows d) m = Some r \<Longrightarrow> dget d m = Some r \<or> r \<in> set rows \<and> f r = m"
proof (induction rows arbitrary: d)
  case (Cons x xs)
  from Cons.IH [of "dset (f x) x d"] Cons.prems have "dget (dset (f x) x d) m = Some r \<or> r \<in> set xs \<and> f r = m" by simp
  then show ?case by (cases "m = f x") (auto simp: AList.update_conv)
qed simp

section \<open>Deduplication that keeps the first occurrence\<close>

fun dedup_from :: "'a list \<Rightarrow> 'a list \<Rightarrow> 'a list" where
  "dedup_from out [] = out"
| "dedup_from out (x # xs) = (if x \<in> set out then dedup_from out xs else dedup_from (out @ [x]) xs)"

definition dedup :: "'a list \<Rightarrow> 'a list" where
  "dedup xs = dedup_from [] xs"

lemma set_dedup_from [simp]: "set (dedup_from out xs) = set out \<union> set xs"
  by (induction xs arbitrary: out) auto

lemma distinct_dedup_from: "distinct out \<Longrightarrow> distinct (dedup_from out xs)"
  by (induction xs arbitrary: out) auto

lemma dedup_from_distinct: "distinct (out @ xs) \<Longrightarrow> dedup_from out xs = out @ xs"
  by (induction xs arbitrary: out) auto

lemma set_dedup [simp]: "set (dedup xs) = set xs"
  by (simp add: dedup_def)

lemma distinct_dedup [simp]: "distinct (dedup xs)"
  by (simp add: dedup_def distinct_dedup_from)

lemma dedup_distinct [simp]: "distinct xs \<Longrightarrow> dedup xs = xs"
  by (simp add: dedup_def dedup_from_distinct)

lemma dedup_Nil [simp]: "dedup [] = []"
  by (simp add: dedup_def)

lemma length_dedup_from: "length (dedup_from out xs) \<le> length out + length xs"
proof (induction xs arbitrary: out)
  case (Cons x xs)
  then show ?case
    using Cons.IH [of out] Cons.IH [of "out @ [x]"] by (auto intro: le_SucI)
qed simp

lemma length_dedup: "length (dedup xs) \<le> length xs"
  using length_dedup_from [of "[]" xs] by (simp add: dedup_def)

lemma dedup_Nil_iff [simp]: "dedup xs = [] \<longleftrightarrow> xs = []"
  by (metis set_dedup set_empty)

section \<open>Keyed tables\<close>

text \<open>
  What the components rely on from a table keyed by \<open>'k\<close>: a write is read back, no other key
  changes, a removal is complete, and both keep the representation's invariant.
\<close>

locale keyed_table =
  fixes lookup :: "'t \<Rightarrow> 'k \<Rightarrow> 'v option"
    and upsert :: "'k \<Rightarrow> 'v \<Rightarrow> 't \<Rightarrow> 't"
    and remove :: "'k \<Rightarrow> 't \<Rightarrow> 't"
    and invar :: "'t \<Rightarrow> bool"
  assumes lookup_upsert: "invar t \<Longrightarrow> lookup (upsert k v t) = (lookup t)(k \<mapsto> v)"
    and lookup_remove: "invar t \<Longrightarrow> lookup (remove k t) = (lookup t)(k := None)"
    and invar_upsert: "invar t \<Longrightarrow> invar (upsert k v t)"
    and invar_remove: "invar t \<Longrightarrow> invar (remove k t)"
begin

lemma read_back: "invar t \<Longrightarrow> lookup (upsert k v t) k = Some v"
  by (simp add: lookup_upsert)

lemma frame: "invar t \<Longrightarrow> k \<noteq> k' \<Longrightarrow> lookup (upsert k v t) k' = lookup t k'"
  by (simp add: lookup_upsert)

lemma removed: "invar t \<Longrightarrow> lookup (remove k t) k = None"
  by (simp add: lookup_remove)

lemma last_write_wins: "invar t \<Longrightarrow> lookup (upsert k w (upsert k v t)) = lookup (upsert k w t)"
  by (simp add: lookup_upsert invar_upsert)

lemma writes_commute:
  "invar t \<Longrightarrow> k \<noteq> k' \<Longrightarrow>
    lookup (upsert k v (upsert k' w t)) = lookup (upsert k' w (upsert k v t))"
  by (simp add: lookup_upsert invar_upsert fun_upd_twist)

lemma remove_upsert: "invar t \<Longrightarrow> lookup (remove k (upsert k v t)) = lookup (remove k t)"
  by (simp add: lookup_upsert lookup_remove invar_upsert)

end

definition dict_ok :: "('k, 'v) dict \<Rightarrow> bool" where
  "dict_ok d = distinct (map fst d)"

lemma dict_ok_update [simp]: "dict_ok d \<Longrightarrow> dict_ok (AList.update k v d)"
  by (simp add: dict_ok_def distinct_update)

lemma dict_ok_delete [simp]: "dict_ok d \<Longrightarrow> dict_ok (AList.delete k d)"
  by (simp add: dict_ok_def distinct_delete)

lemma dict_ok_Nil [simp]: "dict_ok []"
  by (simp add: dict_ok_def)

interpretation dict_table: keyed_table map_of AList.update AList.delete dict_ok
  by unfold_locales (simp_all add: AList.update_conv' AList.delete_conv')

section \<open>Guarded machines\<close>

text \<open>
  A component whose handlers either refuse (the exception leaves the state alone, because the code
  runs the change inside one database transaction or raises before writing) or commit a new state.
\<close>

locale guarded_machine =
  fixes step :: "'i \<Rightarrow> 's \<Rightarrow> 'e + 's"
    and inv :: "'s \<Rightarrow> bool"
  assumes step_inv: "inv s \<Longrightarrow> step i s = Inr s' \<Longrightarrow> inv s'"
begin

fun run :: "'i list \<Rightarrow> 's \<Rightarrow> 's" where
  "run [] s = s"
| "run (i # is) s = (case step i s of Inl _ \<Rightarrow> run is s | Inr s' \<Rightarrow> run is s')"

lemma run_inv: "inv s \<Longrightarrow> inv (run is s)"
  by (induction "is" arbitrary: s) (auto split: sum.splits intro: step_inv)

lemma run_append: "run (is @ js) s = run js (run is s)"
  by (induction "is" arbitrary: s) (auto split: sum.splits)

end

end
