(* ===== verification/Py_Dates.thy ===== *)
theory Py_Dates
  imports Prelude
begin

text \<open>
  Python's calendar and time zones, as far as the scheduler uses them. A date is its proleptic
  Gregorian ordinal (\<open>date.toordinal\<close>); a moment is the number of microseconds since ordinal 0, so the
  date of a wall-clock moment is its quotient by the length of a day. A \<open>ZoneInfo\<close> is the table the time
  zone database holds for it: an initial UTC offset and the list of changes (the UTC moment and the
  offset from then on); \<open>datetime\<close> ends with the year 9999, so a finite table is all of it. The database
  itself is a parameter of the model; \<open>regular_zone\<close> is the property of its tables the results rely on.
  The limits of \<open>datetime\<close> (years 1 to 9999, beyond them \<open>OverflowError\<close>) are not modelled.
\<close>

section \<open>The calendar\<close>

definition is_leap :: "int \<Rightarrow> bool" where
  "is_leap y = (y mod 4 = 0 \<and> (y mod 100 \<noteq> 0 \<or> y mod 400 = 0))"

definition days_before_year :: "int \<Rightarrow> int" where
  "days_before_year y = (let p = y - 1 in p * 365 + p div 4 - p div 100 + p div 400)"

definition month_lengths :: "int \<Rightarrow> int list" where
  "month_lengths y = [31, if is_leap y then 29 else 28, 31, 30, 31, 30, 31, 31, 30, 31, 30, 31]"

text \<open>\<open>calendar.monthrange(year, month)[1]\<close>, for a month from 1 to 12.\<close>

definition days_in_month :: "int \<Rightarrow> int \<Rightarrow> int" where
  "days_in_month y m = month_lengths y ! nat (m - 1)"

definition days_before_month :: "int \<Rightarrow> int \<Rightarrow> int" where
  "days_before_month y m = sum_list (take (nat (m - 1)) (month_lengths y))"

definition ordinal :: "int \<Rightarrow> int \<Rightarrow> int \<Rightarrow> int" where
  "ordinal y m d = days_before_year y + days_before_month y m + d"

text \<open>\<open>date.weekday()\<close>: Monday is 0.\<close>

definition weekday :: "int \<Rightarrow> int" where
  "weekday n = (n + 6) mod 7"

definition year_of :: "int \<Rightarrow> int" where
  "year_of n = (let y = (n - 1) * 400 div 146097 + 1 in
     if n \<le> days_before_year y then y - 1 else if days_before_year (y + 1) < n then y + 1 else y)"

fun month_scan :: "int \<Rightarrow> int list \<Rightarrow> int \<Rightarrow> int \<times> int" where
  "month_scan m (l # l' # ls) d = (if d \<le> l then (m, d) else month_scan (m + 1) (l' # ls) (d - l))"
| "month_scan m _ d = (m, d)"

definition of_ordinal :: "int \<Rightarrow> int \<times> int \<times> int" where
  "of_ordinal n = (let y = year_of n in (y, month_scan 1 (month_lengths y) (n - days_before_year y)))"

lemma div_pred: "0 < k \<Longrightarrow> y div k = (y - 1) div k + (if k dvd y then 1 else 0)" for k y :: int
proof (cases "k dvd y")
  case True
  assume k: "0 < k"
  obtain q where q: "y = k * q" using True by blast
  then have "(y - 1) div k = q - 1" using k by (intro int_div_pos_eq [where r = "k - 1"]) (auto simp: algebra_simps)
  then show ?thesis using k q by simp
next
  case False
  assume k: "0 < k"
  have "0 < y mod k" using k False by (metis dvd_eq_mod_eq_0 pos_mod_sign order_le_less)
  then have "(y - 1) div k = y div k"
    using k pos_mod_bound [OF k, of y]
    by (intro int_div_pos_eq [where r = "y mod k - 1"]) auto
  then show ?thesis using False by simp
qed

lemma div_bounds: "0 < k \<Longrightarrow> k * (q div k) \<le> q \<and> q \<le> k * (q div k) + (k - 1)" for k q :: int
  using pos_mod_sign [of k q] pos_mod_bound [of k q] mult_div_mod_eq [of k q] by linarith

lemma year_div_bounds:
  "4 * (q div 4) \<le> q" "q \<le> 4 * (q div 4) + 3" "100 * (q div 100) \<le> q" "q \<le> 100 * (q div 100) + 99"
  "400 * (q div 400) \<le> q" "q \<le> 400 * (q div 400) + 399" for q :: int
  using div_bounds [of 4 q] div_bounds [of 100 q] div_bounds [of 400 q] by simp_all

lemma is_leap_dvd: "is_leap y \<longleftrightarrow> 4 dvd y \<and> (\<not> 100 dvd y \<or> 400 dvd y)"
  by (simp add: is_leap_def dvd_eq_mod_eq_0)

lemma leap_count:
  "(if 4 dvd y then 1 else 0) - (if 100 dvd y then 1 else 0) + (if 400 dvd y then 1 else 0) =
     (if is_leap y then 1 else (0::int))"
proof -
  have "100 dvd y \<longrightarrow> 4 dvd y" "400 dvd y \<longrightarrow> 100 dvd y"
    using dvd_trans [of "4::int" 100 y] dvd_trans [of "100::int" 400 y] by simp_all
  then show ?thesis unfolding is_leap_dvd by (cases "4 dvd y"; cases "100 dvd y"; cases "400 dvd y"; simp only: if_True if_False; simp)
qed

lemma days_before_year_Suc: "days_before_year (y + 1) = days_before_year y + (if is_leap y then 366 else 365)"
proof -
  have d: "y div 4 = (y - 1) div 4 + (if 4 dvd y then 1 else 0)" "y div 100 = (y - 1) div 100 + (if 100 dvd y then 1 else 0)"
    "y div 400 = (y - 1) div 400 + (if 400 dvd y then 1 else 0)"
    by (rule div_pred, simp)+
  have "y + 1 - 1 = y" by simp
  then have "days_before_year (y + 1) = y * 365 + y div 4 - y div 100 + y div 400"
    unfolding days_before_year_def Let_def by metis
  also have "\<dots> = days_before_year y + 365 +
      ((if 4 dvd y then 1 else 0) - (if 100 dvd y then 1 else 0) + (if 400 dvd y then 1 else 0))"
    unfolding days_before_year_def Let_def d by (simp only: algebra_simps)
  finally show ?thesis unfolding leap_count by (simp only: if_distrib [of "(+) _"] split: if_split) simp
qed

lemma year_below:
  "4 * a \<le> q \<Longrightarrow> q \<le> 100 * b + 99 \<Longrightarrow> 400 * c \<le> q \<Longrightarrow> 146097 * q + 146097 \<le> 400 * n - 400 \<Longrightarrow> q * 365 + a - b + c < n"
  for a b c n q :: int
  by linarith

lemma year_above:
  "q \<le> 4 * a + 3 \<Longrightarrow> 100 * b \<le> q \<Longrightarrow> q \<le> 400 * c + 399 \<Longrightarrow> 400 * n - 400 < 146097 * q - 146097 \<Longrightarrow> n \<le> q * 365 + a - b + c"
  for a b c n q :: int
  by linarith

lemma year_of_bounds: "days_before_year (year_of n) < n" "n \<le> days_before_year (year_of n + 1)"
proof -
  define p where "p = (n - 1) * 400 div 146097"
  have p: "146097 * p \<le> 400 * (n - 1)" "400 * (n - 1) < 146097 * (p + 1)"
    using div_bounds [of 146097 "(n - 1) * 400"] unfolding p_def by auto
  have low: "days_before_year p < n"
    unfolding days_before_year_def Let_def
    by (rule year_below [OF year_div_bounds(1,4,5)]) (use p in simp)
  have high: "n \<le> days_before_year (p + 3)"
    unfolding days_before_year_def Let_def
    by (rule year_above [OF year_div_bounds(2,3,6)]) (use p in simp)
  show "days_before_year (year_of n) < n" "n \<le> days_before_year (year_of n + 1)"
    using low high unfolding year_of_def p_def [symmetric] Let_def by (auto simp: algebra_simps)
qed

lemma length_month_lengths [simp]: "length (month_lengths y) = 12"
  by (simp add: month_lengths_def)

lemma sum_month_lengths: "sum_list (month_lengths y) = (if is_leap y then 366 else 365)"
  by (simp add: month_lengths_def)

lemma month_scan_spec:
  assumes "month_scan m ls d = (m', d')" and "ls \<noteq> []" and "0 < d" and "d \<le> sum_list ls"
  shows "m \<le> m' \<and> m' < m + int (length ls) \<and> 0 < d' \<and> d' \<le> ls ! nat (m' - m) \<and> sum_list (take (nat (m' - m)) ls) + d' = d"
  using assms
proof (induction m ls d rule: month_scan.induct)
  case (1 m l l' ls d)
  show ?case
  proof (cases "d \<le> l")
    case False
    then have ih: "m + 1 \<le> m' \<and> m' < m + 1 + int (length (l' # ls)) \<and> 0 < d' \<and> d' \<le> (l' # ls) ! nat (m' - (m + 1)) \<and>
        sum_list (take (nat (m' - (m + 1))) (l' # ls)) + d' = d - l"
      using 1 by auto
    then have "nat (m' - m) = Suc (nat (m' - (m + 1)))" by linarith
    then show ?thesis using ih by auto
  qed (use 1 in auto)
qed auto

lemma of_ordinal_spec:
  assumes "of_ordinal n = (y, m, d)"
  shows "1 \<le> m" "m \<le> 12" "1 \<le> d" "d \<le> days_in_month y m" "ordinal y m d = n"
proof -
  have y: "y = year_of n" and scan: "month_scan 1 (month_lengths y) (n - days_before_year y) = (m, d)"
    using assms by (auto simp: of_ordinal_def Let_def)
  have "0 < n - days_before_year y" "n - days_before_year y \<le> sum_list (month_lengths y)"
    using year_of_bounds [of n] by (auto simp: y sum_month_lengths days_before_year_Suc)
  from month_scan_spec [OF scan _ this]
  have *: "1 \<le> m \<and> m < 1 + int (length (month_lengths y)) \<and> 0 < d \<and> d \<le> month_lengths y ! nat (m - 1) \<and>
      sum_list (take (nat (m - 1)) (month_lengths y)) + d = n - days_before_year y"
    by (auto simp: month_lengths_def)
  then show "1 \<le> m" "m \<le> 12" "1 \<le> d" "d \<le> days_in_month y m" "ordinal y m d = n"
    by (auto simp: days_in_month_def ordinal_def days_before_month_def)
qed

text \<open>Months in a row: the month with number \<open>k\<close> is month \<open>k mod 12 + 1\<close> of year \<open>k div 12\<close>.\<close>

definition month_start :: "int \<Rightarrow> int" where
  "month_start k = ordinal (k div 12) (k mod 12 + 1) 0"

definition month_number :: "int \<Rightarrow> int \<Rightarrow> int" where
  "month_number y m = y * 12 + (m - 1)"

lemma month_number_split: "1 \<le> m \<Longrightarrow> m \<le> 12 \<Longrightarrow> month_number y m div 12 = y \<and> month_number y m mod 12 + 1 = m"
  unfolding month_number_def by presburger

lemma month_cases: "1 \<le> (m::int) \<Longrightarrow> m \<le> 12 \<Longrightarrow> m \<in> {1, 2, 3, 4, 5, 6, 7, 8, 9, 10, 11, 12}"
  by simp presburger

lemma ordinal_month_start: "1 \<le> m \<Longrightarrow> m \<le> 12 \<Longrightarrow> ordinal y m d = month_start (month_number y m) + d"
  using month_number_split [of m y] by (simp add: month_start_def ordinal_def)

lemma days_before_month_step:
  "1 \<le> m \<Longrightarrow> m < 12 \<Longrightarrow> days_before_month y (m + 1) = days_before_month y m + days_in_month y m"
  using month_cases [of m] by (auto simp: days_before_month_def days_in_month_def month_lengths_def)

lemma month_start_Suc:
  assumes "1 \<le> m" and "m \<le> 12"
  shows "month_start (month_number y m + 1) = month_start (month_number y m) + days_in_month y m"
proof (cases "m = 12")
  case True
  have "(month_number y m + 1) div 12 = y + 1" "(month_number y m + 1) mod 12 = 0"
    using True unfolding month_number_def by presburger+
  moreover have "days_before_month y 12 + days_in_month y 12 = (if is_leap y then 366 else 365)"
    by (simp add: days_before_month_def days_in_month_def month_lengths_def)
  ultimately show ?thesis
    using True month_number_split [of m y]
    by (simp add: month_start_def ordinal_def days_before_year_Suc days_before_month_def [of _ 1])
next
  case False
  then have "month_number y m + 1 = month_number y (m + 1)" by (simp add: month_number_def)
  then show ?thesis
    using assms False month_number_split [of "m + 1" y] month_number_split [of m y] days_before_month_step [of m y]
    by (simp add: month_start_def ordinal_def)
qed

lemma days_in_month_bounds: "1 \<le> m \<Longrightarrow> m \<le> 12 \<Longrightarrow> 28 \<le> days_in_month y m \<and> days_in_month y m \<le> 31"
  using month_cases [of m] by (auto simp: days_in_month_def month_lengths_def)

lemma month_start_mono: "j \<le> k \<Longrightarrow> month_start j \<le> month_start k"
proof (induction k rule: int_ge_induct)
  case (step k)
  have m: "1 \<le> k mod 12 + 1" "k mod 12 + 1 \<le> 12" by presburger+
  have "month_number (k div 12) (k mod 12 + 1) = k" unfolding month_number_def by presburger
  then show ?case
    using step.IH month_start_Suc [OF m, of "k div 12"] days_in_month_bounds [OF m, of "k div 12"] by simp
qed simp

section \<open>Moments and time zones\<close>

type_synonym moment = int

definition sec :: int where "sec = 1000000"

definition day_us :: int where "day_us = 86400 * sec"

definition date_of :: "moment \<Rightarrow> int" where
  "date_of w = w div day_us"

record zone =
  z_first :: int
  z_changes :: "(moment \<times> int) list"

text \<open>The offset in force at a UTC moment (\<open>astimezone(tz)\<close>), and the offset \<open>zoneinfo\<close> gives to a wall-clock
  moment with \<open>fold=0\<close>: a change takes effect at the later of its two wall-clock readings, so a repeated
  time is read as its first pass and a skipped time with the offset before the change.\<close>

fun offset_at :: "int \<Rightarrow> (moment \<times> int) list \<Rightarrow> moment \<Rightarrow> int" where
  "offset_at o1 [] u = o1"
| "offset_at o1 ((t, o2) # cs) u = (if u < t then o1 else offset_at o2 cs u)"

fun wall_offset :: "int \<Rightarrow> (moment \<times> int) list \<Rightarrow> moment \<Rightarrow> int" where
  "wall_offset o1 [] w = o1"
| "wall_offset o1 ((t, o2) # cs) w = (if w < t + max o1 o2 then o1 else wall_offset o2 cs w)"

definition to_local :: "zone \<Rightarrow> moment \<Rightarrow> moment" where
  "to_local z u = u + offset_at (z_first z) (z_changes z) u"

definition to_utc :: "zone \<Rightarrow> moment \<Rightarrow> moment" where
  "to_utc z w = w - wall_offset (z_first z) (z_changes z) w"

text \<open>A table is regular when its changes are a day or more apart, no two of its offsets differ by more than
  a day, no repeated hour crosses midnight and no skipped hour reaches it.\<close>

definition change_ok :: "moment \<Rightarrow> int \<Rightarrow> int \<Rightarrow> bool" where
  "change_ok t o1 o2 =
     (if o2 < o1 then date_of (t + o2) = date_of (t + o1 - 1)
      else if o1 < o2 then date_of (t + o1) = date_of (t + o2 + (o2 - o1) - 1) else True)"

fun changes_ok :: "int \<Rightarrow> (moment \<times> int) list \<Rightarrow> bool" where
  "changes_ok o1 [] = True"
| "changes_ok o1 ((t, o2) # cs) =
     (change_ok t o1 o2 \<and> changes_ok o2 cs \<and> (case cs of [] \<Rightarrow> True | (t', _) # _ \<Rightarrow> t + day_us \<le> t'))"

definition offsets :: "int \<Rightarrow> (moment \<times> int) list \<Rightarrow> int list" where
  "offsets o1 cs = o1 # map snd cs"

definition narrow :: "int \<Rightarrow> (moment \<times> int) list \<Rightarrow> bool" where
  "narrow o1 cs = list_all (\<lambda>a. list_all (\<lambda>b. a - b \<le> day_us) (offsets o1 cs)) (offsets o1 cs)"

definition regular_zone :: "zone \<Rightarrow> bool" where
  "regular_zone z = (changes_ok (z_first z) (z_changes z) \<and> narrow (z_first z) (z_changes z))"

lemma narrow_iff: "narrow o1 cs \<longleftrightarrow> (\<forall>a \<in> set (offsets o1 cs). \<forall>b \<in> set (offsets o1 cs). a - b \<le> day_us)"
  by (simp add: narrow_def list_all_iff)

lemma narrow_Cons: "narrow o1 ((t, o2) # cs) \<Longrightarrow> narrow o2 cs \<and> o1 - o2 \<le> day_us \<and> o2 - o1 \<le> day_us"
  unfolding narrow_iff offsets_def by auto

lemma wall_offset_in: "wall_offset o1 cs w \<in> set (offsets o1 cs)"
  by (induction o1 cs w rule: wall_offset.induct) (auto simp: offsets_def)

lemma day_us_pos: "0 < day_us" by (simp add: day_us_def sec_def)

lemma date_less_le: "date_of a < date_of b \<Longrightarrow> a < b"
  unfolding date_of_def using day_us_pos by (metis linorder_not_le zdiv_mono1)

lemma date_mono: "a \<le> b \<Longrightarrow> date_of a \<le> date_of b"
  unfolding date_of_def using day_us_pos by (simp add: zdiv_mono1)

text \<open>A reading at or after a change is a moment at or after it, and the clock does not fall behind a change afterwards.\<close>

lemma after_change_utc:
  assumes "changes_ok o2 cs" and "t + o2 \<le> w" and "case cs of [] \<Rightarrow> True | (t', _) # _ \<Rightarrow> t \<le> t'"
  shows "t \<le> w - wall_offset o2 cs w"
  using assms
proof (induction cs arbitrary: t o2)
  case (Cons c cs)
  obtain t' o' where c: "c = (t', o')" by (cases c)
  have t': "t \<le> t'" using Cons.prems(3) c by simp
  show ?case
  proof (cases "w < t' + max o2 o'")
    case True then show ?thesis using Cons.prems c by simp
  next
    case False
    have "case cs of [] \<Rightarrow> True | (t'', _) # _ \<Rightarrow> t' \<le> t''"
      using Cons.prems(1) day_us_pos c by (auto split: list.splits)
    then have "t' \<le> w - wall_offset o' cs w" using Cons.IH [of o' t'] Cons.prems(1) False c by auto
    then show ?thesis using t' False c by simp
  qed
qed auto

lemma after_change_local:
  assumes "changes_ok o2 cs" and "narrow o2 cs" and "t \<le> u" and "case cs of [] \<Rightarrow> True | (t', _) # _ \<Rightarrow> t + day_us \<le> t'"
  shows "t + o2 \<le> u + offset_at o2 cs u"
  using assms
proof (induction cs arbitrary: t o2)
  case (Cons c cs)
  obtain t' o' where c: "c = (t', o')" by (cases c)
  note n = narrow_Cons [OF Cons.prems(2) [unfolded c]]
  show ?case
  proof (cases "u < t'")
    case False
    then have "t' + o' \<le> u + offset_at o' cs u"
      using Cons.IH [of o' t'] Cons.prems n c by auto
    then show ?thesis using n Cons.prems False c by simp
  qed (use Cons.prems c in simp)
qed simp

lemma later_date:
  assumes "changes_ok o1 cs" and "narrow o1 cs" and "date_of (u + offset_at o1 cs u) < date_of w"
  shows "u < w - wall_offset o1 cs w"
  using assms
proof (induction cs arbitrary: o1)
  case Nil
  then show ?case using date_less_le by fastforce
next
  case (Cons c cs)
  obtain t o2 where c: "c = (t, o2)" by (cases c)
  have n: "narrow o2 cs" using narrow_Cons Cons.prems(2) c by blast
  have ok: "change_ok t o1 o2" "changes_ok o2 cs" and next_change: "case cs of [] \<Rightarrow> True | (t', _) # _ \<Rightarrow> t + day_us \<le> t'"
    using Cons.prems(1) c by auto
  have lw: "u + offset_at o1 (c # cs) u < w" using Cons.prems(3) date_less_le by blast
  consider "u < t" "w < t + max o1 o2" | "u < t" "t + max o1 o2 \<le> w" | "t \<le> u" "w < t + max o1 o2" | "t \<le> u" "t + max o1 o2 \<le> w"
    by linarith
  then show ?case
  proof cases
    case 2
    have "case cs of [] \<Rightarrow> True | (t', _) # _ \<Rightarrow> t \<le> t'" using next_change day_us_pos by (auto split: list.splits)
    moreover have "t + o2 \<le> w" using 2 by linarith
    ultimately have "t \<le> w - wall_offset o2 cs w" using after_change_utc [OF ok(2)] by blast
    then show ?thesis using 2 c by simp
  next
    case 3
    have l: "t + o2 \<le> u + offset_at o2 cs u" by (rule after_change_local [OF ok(2) n 3(1) next_change])
    then have "o2 < o1" using 3 lw c by (simp add: max_def split: if_splits)
    then have "date_of w \<le> date_of (t + o2)" using 3 ok(1) date_mono [of w "t + o1 - 1"] by (simp add: change_ok_def)
    then show ?thesis using date_mono [OF l] Cons.prems(3) 3 c by simp
  qed (use lw c Cons.IH [OF ok(2) n] Cons.prems(3) in auto)
qed

lemma earlier_date:
  assumes "changes_ok o1 cs" and "narrow o1 cs" and "date_of w < date_of (u + offset_at o1 cs u)"
  shows "w - wall_offset o1 cs w < u"
  using assms
proof (induction cs arbitrary: o1)
  case Nil
  then show ?case using date_less_le by fastforce
next
  case (Cons c cs)
  obtain t o2 where c: "c = (t, o2)" by (cases c)
  have n: "narrow o2 cs" "o2 - o1 \<le> day_us" using narrow_Cons Cons.prems(2) c by blast+
  have ok: "change_ok t o1 o2" "changes_ok o2 cs" and next_change: "case cs of [] \<Rightarrow> True | (t', _) # _ \<Rightarrow> t + day_us \<le> t'"
    using Cons.prems(1) c by auto
  have wl: "w < u + offset_at o1 (c # cs) u" using Cons.prems(3) date_less_le by blast
  show ?case
  proof (cases "t \<le> u \<and> w < t + max o1 o2 \<and> o1 < o2")
    case gap: True
    then have same: "date_of (t + o1) = date_of (t + o2 + (o2 - o1) - 1)" using ok(1) by (simp add: change_ok_def)
    have d: "date_of w < date_of (u + offset_at o2 cs u)" using Cons.prems(3) gap c by simp
    have "w - o1 < u"
    proof (cases "u + offset_at o2 cs u = u + o2 \<and> t + o1 \<le> w")
      case True
      then have "date_of (t + o2 + (o2 - o1) - 1) < date_of (u + o2)"
        using d same date_mono [of "t + o1" w] by simp
      then have "t + (o2 - o1) \<le> u" using date_less_le by fastforce
      then show ?thesis using gap by linarith
    next
      case False
      show ?thesis
      proof (cases "t + o1 \<le> w")
        case inside: True
        then obtain t' o' cs' where cs: "cs = (t', o') # cs'" "t' \<le> u"
          using False by (cases cs; auto split: if_splits)
        then have "t + day_us \<le> u" using next_change by simp
        then show ?thesis using gap n by linarith
      qed (use gap in simp)
    qed
    then show ?thesis using gap c by (auto simp: max_def)
  next
    case False
    then show ?thesis using wl c Cons.IH [OF ok(2) n(1)] Cons.prems(3) by (auto simp: max_def split: if_splits)
  qed
qed

text \<open>The wall-clock moment of a time of day (microseconds after midnight) on a date.\<close>

definition at_time :: "int \<Rightarrow> int \<Rightarrow> moment" where
  "at_time tod day = day * day_us + tod"

lemma date_at_time: "0 \<le> tod \<Longrightarrow> tod < day_us \<Longrightarrow> date_of (at_time tod day) = day"
  unfolding date_of_def at_time_def using day_us_pos by simp

section \<open>What the scheduler relies on\<close>

text \<open>
  The interface between the calendar and the schedules: a wall clock reads moments in a zone and turns
  readings into moments. In a regular zone a reading on a later (earlier) date than the clock shows is
  after (before) the moment, and readings a day or more apart keep their order.
\<close>

locale wall_clock =
  fixes read_clock :: "'z \<Rightarrow> moment \<Rightarrow> moment"
    and moment_of :: "'z \<Rightarrow> moment \<Rightarrow> moment"
    and regular :: "'z \<Rightarrow> bool"
  assumes later: "regular z \<Longrightarrow> date_of (read_clock z u) < date_of w \<Longrightarrow> u < moment_of z w"
    and earlier: "regular z \<Longrightarrow> date_of w < date_of (read_clock z u) \<Longrightarrow> moment_of z w < u"
    and day_order: "regular z \<Longrightarrow> w + day_us \<le> w' \<Longrightarrow> moment_of z w \<le> moment_of z w'"
begin

lemma days_keep_order: "regular z \<Longrightarrow> d < e \<Longrightarrow> moment_of z (at_time tod d) \<le> moment_of z (at_time tod e)"
proof (rule day_order)
  assume "d < e"
  then have "(d + 1) * day_us \<le> e * day_us" using day_us_pos by (intro mult_right_mono) auto
  then show "at_time tod d + day_us \<le> at_time tod e" by (simp add: at_time_def algebra_simps)
qed

lemma later_day:
  "regular z \<Longrightarrow> 0 \<le> tod \<Longrightarrow> tod < day_us \<Longrightarrow> date_of (read_clock z u) < d \<Longrightarrow> u < moment_of z (at_time tod d)"
  by (rule later) (simp_all add: date_at_time)

lemma earlier_day:
  "regular z \<Longrightarrow> 0 \<le> tod \<Longrightarrow> tod < day_us \<Longrightarrow> d < date_of (read_clock z u) \<Longrightarrow> moment_of z (at_time tod d) < u"
  by (rule earlier) (simp_all add: date_at_time)

text \<open>Searching forward from the date the clock shows, the first chosen day whose moment is not past is the
  earliest such day of all; searching backward, the first whose moment is not ahead is the latest.\<close>

lemma forward_search:
  assumes "regular z" "0 \<le> tod" "tod < day_us" and "u \<le> moment_of z (at_time tod d)"
    and skipped: "\<And>e. date_of (read_clock z u) \<le> e \<Longrightarrow> e < d \<Longrightarrow> P e \<Longrightarrow> moment_of z (at_time tod e) < u"
    and e: "P e" "u \<le> moment_of z (at_time tod e)"
  shows "moment_of z (at_time tod d) \<le> moment_of z (at_time tod e)"
proof (cases "e < d")
  case True
  then have "e < date_of (read_clock z u)" using skipped [of e] e by fastforce
  then show ?thesis using earlier_day [of z tod e u] assms by simp
next
  case False
  then show ?thesis using days_keep_order [OF assms(1), of d e tod] by (cases "d = e") auto
qed

lemma backward_search:
  assumes "regular z" "0 \<le> tod" "tod < day_us" and "moment_of z (at_time tod d) \<le> u"
    and skipped: "\<And>e. d < e \<Longrightarrow> e \<le> date_of (read_clock z u) \<Longrightarrow> P e \<Longrightarrow> u < moment_of z (at_time tod e)"
    and e: "P e" "moment_of z (at_time tod e) \<le> u"
  shows "moment_of z (at_time tod e) \<le> moment_of z (at_time tod d)"
proof (cases "d < e")
  case True
  then have "date_of (read_clock z u) < e" using skipped [of e] e by fastforce
  then show ?thesis using later_day [of z tod u e] assms by simp
next
  case False
  then show ?thesis using days_keep_order [OF assms(1), of e d tod] by (cases "d = e") auto
qed

end

interpretation zoneinfo: wall_clock to_local to_utc regular_zone
proof
  fix z :: zone and u w w' :: moment
  assume z: "regular_zone z"
  then have ok: "changes_ok (z_first z) (z_changes z)" "narrow (z_first z) (z_changes z)" by (simp_all add: regular_zone_def)
  show "date_of (to_local z u) < date_of w \<Longrightarrow> u < to_utc z w"
    using later_date [OF ok] by (simp add: to_local_def to_utc_def)
  show "date_of w < date_of (to_local z u) \<Longrightarrow> to_utc z w < u"
    using earlier_date [OF ok] by (simp add: to_local_def to_utc_def)
  assume "w + day_us \<le> w'"
  moreover have "wall_offset (z_first z) (z_changes z) w' - wall_offset (z_first z) (z_changes z) w \<le> day_us"
    using ok(2) wall_offset_in unfolding narrow_iff by blast
  ultimately show "to_utc z w \<le> to_utc z w'" by (simp add: to_utc_def)
qed

end
