(* ===== verification/Py_Text.thy ===== *)
theory Py_Text
  imports Prelude
begin

text \<open>
  The fragment of Python's text type the framework uses. A Python string is a list of characters;
  the model covers the code points 0 to 255 (Latin-1), on which \<open>isspace\<close>, \<open>lower\<close>, \<open>isalnum\<close>,
  \<open>\d\<close> and \<open>\s\<close> are written out exactly as Python's Unicode tables give them. Strings are compared by
  code point, as Python does (the lexicographic order of the library theories).
\<close>

section \<open>Character classes\<close>

definition code :: "char \<Rightarrow> nat" where
  "code c = of_char c"

definition is_space :: "char \<Rightarrow> bool" where
  "is_space c = (let n = code c in
     (9 \<le> n \<and> n \<le> 13) \<or> (28 \<le> n \<and> n \<le> 32) \<or> n = 133 \<or> n = 160)"

definition is_digit :: "char \<Rightarrow> bool" where
  "is_digit c = (let n = code c in 48 \<le> n \<and> n \<le> 57)"

definition is_lower_ascii :: "char \<Rightarrow> bool" where
  "is_lower_ascii c = (let n = code c in 97 \<le> n \<and> n \<le> 122)"

definition is_upper_ascii :: "char \<Rightarrow> bool" where
  "is_upper_ascii c = (let n = code c in 65 \<le> n \<and> n \<le> 90)"

definition is_alpha_ascii :: "char \<Rightarrow> bool" where
  "is_alpha_ascii c = (is_lower_ascii c \<or> is_upper_ascii c)"

definition is_alnum_ascii :: "char \<Rightarrow> bool" where
  "is_alnum_ascii c = (is_alpha_ascii c \<or> is_digit c)"

text \<open>\<open>str.isalnum\<close>: letters, the ordinal indicators, the micro sign, decimal digits, the
  superscripts and the vulgar fractions of Latin-1.\<close>

definition is_alnum :: "char \<Rightarrow> bool" where
  "is_alnum c = (is_alnum_ascii c \<or>
     (let n = code c in n \<in> {170, 178, 179, 181, 185, 186, 188, 189, 190} \<or>
        (192 \<le> n \<and> n \<noteq> 215 \<and> n \<noteq> 247)))"

definition lower_char :: "char \<Rightarrow> char" where
  "lower_char c = (let n = code c in
     if (65 \<le> n \<and> n \<le> 90) \<or> (192 \<le> n \<and> n \<le> 222 \<and> n \<noteq> 215) then char_of (n + 32) else c)"

text \<open>\<open>str.upper\<close> on one character: the sharp s gives two letters. The two characters whose capital is
  outside Latin-1 (the micro sign and y with diaeresis) are left as they are.\<close>

definition upper_char :: "char \<Rightarrow> string" where
  "upper_char c = (let n = code c in
     if n = 223 then ''SS''
     else if (97 \<le> n \<and> n \<le> 122) \<or> (224 \<le> n \<and> n \<le> 254 \<and> n \<noteq> 247) then [char_of (n - 32)]
     else [c])"

section \<open>String methods\<close>

definition lower :: "string \<Rightarrow> string" where
  "lower s = map lower_char s"

definition upper :: "string \<Rightarrow> string" where
  "upper s = concat (map upper_char s)"

definition rstrip_by :: "(char \<Rightarrow> bool) \<Rightarrow> string \<Rightarrow> string" where
  "rstrip_by p s = rev (dropWhile p (rev s))"

definition strip_by :: "(char \<Rightarrow> bool) \<Rightarrow> string \<Rightarrow> string" where
  "strip_by p s = rstrip_by p (dropWhile p s)"

definition strip :: "string \<Rightarrow> string" where
  "strip s = strip_by is_space s"

definition startswith :: "string \<Rightarrow> string \<Rightarrow> bool" where
  "startswith s p = (take (length p) s = p)"

definition endswith :: "string \<Rightarrow> string \<Rightarrow> bool" where
  "endswith s p = (length p \<le> length s \<and> drop (length s - length p) s = p)"

text \<open>\<open>s.split(c)\<close> for a one-character separator.\<close>

fun split_on :: "char \<Rightarrow> string \<Rightarrow> string list" where
  "split_on c [] = [[]]"
| "split_on c (x # xs) =
     (if x = c then [] # split_on c xs
      else (case split_on c xs of [] \<Rightarrow> [[x]] | p # ps \<Rightarrow> (x # p) # ps))"

text \<open>\<open>c in s\<close> and \<open>s.split(c, 1)\<close>: the text before and after the first occurrence.\<close>

definition partition_on :: "char \<Rightarrow> string \<Rightarrow> (string \<times> string) option" where
  "partition_on c s =
     (if c \<in> set s then Some (takeWhile (\<lambda>x. x \<noteq> c) s, tl (dropWhile (\<lambda>x. x \<noteq> c) s)) else None)"

fun join :: "string \<Rightarrow> string list \<Rightarrow> string" where
  "join sep [] = []"
| "join sep [s] = s"
| "join sep (s # t # ts) = s @ sep @ join sep (t # ts)"

definition replace_char :: "char \<Rightarrow> char \<Rightarrow> string \<Rightarrow> string" where
  "replace_char a b s = map (\<lambda>c. if c = a then b else c) s"

text \<open>\<open>str.splitlines\<close> on Latin-1 text: \<open>\r\n\<close> is one break, and \<open>\n\<close>, \<open>\r\<close>, \<open>\v\<close>, \<open>\f\<close>, 28, 29, 30 and 133
  are breaks of their own; no empty last line.\<close>

definition is_line_break :: "char \<Rightarrow> bool" where
  "is_line_break c = (let n = code c in (10 \<le> n \<and> n \<le> 13) \<or> (28 \<le> n \<and> n \<le> 30) \<or> n = 133)"

fun splitlines_from :: "string \<Rightarrow> string \<Rightarrow> string list" where
  "splitlines_from acc [] = (if acc = [] then [] else [rev acc])"
| "splitlines_from acc [c] = (if is_line_break c then [rev acc] else [rev (c # acc)])"
| "splitlines_from acc (c # d # cs) =
     (if code c = 13 \<and> code d = 10 then rev acc # splitlines_from [] cs
      else if is_line_break c then rev acc # splitlines_from [] (d # cs)
      else splitlines_from (c # acc) (d # cs))"

definition splitlines :: "string \<Rightarrow> string list" where
  "splitlines s = splitlines_from [] s"

section \<open>Integers as text\<close>

definition digit_char :: "nat \<Rightarrow> char" where
  "digit_char d = char_of (48 + d)"

definition digit_val :: "char \<Rightarrow> nat" where
  "digit_val c = code c - 48"

fun show_nat :: "nat \<Rightarrow> string" where
  "show_nat n = (if n < 10 then [digit_char n] else show_nat (n div 10) @ [digit_char (n mod 10)])"

declare show_nat.simps [simp del]

definition show_int :: "int \<Rightarrow> string" where
  "show_int i = (if i < 0 then ''-'' @ show_nat (nat (- i)) else show_nat (nat i))"

definition read_nat :: "string \<Rightarrow> nat" where
  "read_nat s = foldl (\<lambda>n c. 10 * n + digit_val c) 0 s"

text \<open>\<open>int(text)\<close>: surrounding white space, an optional sign, decimal digits with single underscores
  between digits, and at most 4300 digits. \<open>None\<close> is \<open>ValueError\<close>.\<close>

fun int_digits :: "bool \<Rightarrow> string \<Rightarrow> string option" where
  "int_digits after_digit [] = (if after_digit then Some [] else None)"
| "int_digits after_digit (c # cs) =
     (if is_digit c then map_option ((#) c) (int_digits True cs)
      else if c = CHR ''_'' \<and> after_digit then (case cs of [] \<Rightarrow> None | d # ds \<Rightarrow>
        if is_digit d then int_digits False cs else None)
      else None)"

definition parse_nat :: "string \<Rightarrow> nat option" where
  "parse_nat s = (case int_digits False s of None \<Rightarrow> None
     | Some ds \<Rightarrow> if length ds > 4300 then None else Some (read_nat ds))"

definition parse_int :: "string \<Rightarrow> int option" where
  "parse_int s = (case strip s of [] \<Rightarrow> None
     | c # cs \<Rightarrow>
        if c = CHR ''-'' then map_option (\<lambda>n. - int n) (parse_nat cs)
        else if c = CHR ''+'' then map_option int (parse_nat cs)
        else map_option int (parse_nat (c # cs)))"

lemmas text_core_defs [text_defs] =
  code_def is_space_def is_digit_def is_lower_ascii_def is_upper_ascii_def is_alpha_ascii_def
  is_alnum_ascii_def

section \<open>Facts\<close>

lemma code_less: "code c < 256"
  unfolding code_def by (metis of_char_mod_256 mod_less_divisor zero_less_numeral)

lemma code_char_of [simp]: "n < 256 \<Longrightarrow> code (char_of n) = n"
  by (simp add: code_def)

lemma code_inject [simp]: "code c = code d \<longleftrightarrow> c = d"
  by (simp add: code_def)

lemma code_lower_char:
  "code (lower_char c) = (if (65 \<le> code c \<and> code c \<le> 90) \<or>
      (192 \<le> code c \<and> code c \<le> 222 \<and> code c \<noteq> 215) then code c + 32 else code c)"
  by (auto simp: lower_char_def Let_def)

lemma lower_char_idem [simp]: "lower_char (lower_char c) = lower_char c"
proof -
  have "code (lower_char (lower_char c)) = code (lower_char c)"
    by (simp only: code_lower_char) (auto split: if_splits)
  then show ?thesis by simp
qed

lemma lower_idem [simp]: "lower (lower s) = lower s"
  by (simp add: lower_def)

lemma lower_Nil_iff [simp]: "lower s = [] \<longleftrightarrow> s = []"
  by (simp add: lower_def)

lemma is_space_lower [simp]: "is_space (lower_char c) = is_space c"
  by (auto simp: is_space_def Let_def code_lower_char)

lemma dropWhile_dropWhile [simp]: "dropWhile p (dropWhile p xs) = dropWhile p xs"
  by (induction xs) auto

lemma rstrip_by_idem [simp]: "rstrip_by p (rstrip_by p s) = rstrip_by p s"
  by (simp add: rstrip_by_def)

lemma rstrip_prefix: "prefix (rstrip_by p s) s"
  using suffix_dropWhile [of p "rev s"] by (simp add: rstrip_by_def suffix_to_prefix)

lemma hd_rstrip: "rstrip_by p s \<noteq> [] \<Longrightarrow> hd (rstrip_by p s) = hd s"
  using rstrip_prefix [of p s] by (metis hd_append2 prefix_def)

lemma strip_by_hd: "strip_by p s \<noteq> [] \<Longrightarrow> \<not> p (hd (strip_by p s))"
  unfolding strip_by_def
  by (metis hd_dropWhile hd_rstrip prefix_order.antisym rstrip_prefix Nil_prefix)

lemma dropWhile_strip_by: "dropWhile p (strip_by p s) = strip_by p s"
  by (cases "strip_by p s") (use strip_by_hd [of p s] in auto)

lemma strip_by_idem [simp]: "strip_by p (strip_by p s) = strip_by p s"
proof -
  have "strip_by p (strip_by p s) = rstrip_by p (strip_by p s)"
    by (simp add: strip_by_def [of p "strip_by p s"] dropWhile_strip_by)
  then show ?thesis by (simp add: strip_by_def)
qed

lemma strip_idem [simp]: "strip (strip s) = strip s"
  by (simp add: strip_def)

lemma strip_Nil [simp]: "strip [] = []"
  by (simp add: strip_def strip_by_def rstrip_by_def)

lemma dropWhile_lower: "dropWhile is_space (lower s) = lower (dropWhile is_space s)"
  by (simp add: lower_def dropWhile_map comp_def)

lemma strip_lower: "strip (lower s) = lower (strip s)"
  by (simp add: strip_def strip_by_def rstrip_by_def lower_def rev_map dropWhile_map comp_def)

lemma set_strip: "set (strip s) \<subseteq> set s"
  unfolding strip_def strip_by_def rstrip_by_def
  by (auto dest!: set_dropWhileD)

lemma length_strip: "length (strip s) \<le> length s"
  unfolding strip_def strip_by_def rstrip_by_def
  by (metis le_trans length_dropWhile_le length_rev)

lemma digit_val_char [simp]: "d < 10 \<Longrightarrow> digit_val (digit_char d) = d"
  by (simp add: digit_val_def digit_char_def)

lemma is_digit_char [simp]: "d < 10 \<Longrightarrow> is_digit (digit_char d)"
  by (simp add: is_digit_def digit_char_def Let_def)

lemma show_nat_digits: "c \<in> set (show_nat n) \<Longrightarrow> is_digit c"
proof (induction n rule: show_nat.induct)
  case (1 n)
  then show ?case
    by (simp add: show_nat.simps [of n] split: if_splits) auto
qed

lemma show_nat_nonempty [simp]: "show_nat n \<noteq> []"
  by (subst show_nat.simps) simp

lemma read_nat_snoc [simp]: "read_nat (s @ [c]) = 10 * read_nat s + digit_val c"
  by (simp add: read_nat_def)

lemma read_show_nat [simp]: "read_nat (show_nat n) = n"
proof (induction n rule: show_nat.induct)
  case (1 n)
  then show ?case
    by (subst show_nat.simps) (auto simp: read_nat_def)
qed

lemma int_digits_all: "(\<forall>c \<in> set s. is_digit c) \<Longrightarrow> s \<noteq> [] \<or> b \<Longrightarrow> int_digits b s = Some s"
  by (induction s arbitrary: b) auto

lemma parse_show_nat: "length (show_nat n) \<le> 4300 \<Longrightarrow> parse_nat (show_nat n) = Some n"
  by (simp add: parse_nat_def int_digits_all show_nat_digits)

lemma show_nat_inj: "show_nat m = show_nat n \<longleftrightarrow> m = n"
  by (metis read_show_nat)

end
