(* ===== verification/Py_Value.thy ===== *)
theory Py_Value
  imports Py_Text
begin

text \<open>
  The dynamically typed values the framework's validators receive: what \<open>json.loads\<close> can build.
  Truthiness, \<open>str\<close>, \<open>repr\<close>, \<open>int\<close>, \<open>float\<close> and compact \<open>json.dumps\<close> are written out on them. A finite
  float is given by the integer it truncates to and the text its \<open>repr\<close> prints (a finite double is
  determined by its \<open>repr\<close>); the infinities and the not-a-number value are constructors of their own.
\<close>

datatype pyfloat = Float_Fin int string | Float_Inf bool | Float_Nan

datatype pyval =
    PNone
  | PBool bool
  | PInt int
  | PFloat pyfloat
  | PStr string
  | PList "pyval list"
  | PDict "(string \<times> pyval) list"

type_synonym pydict = "(string \<times> pyval) list"

datatype py_exn = TypeError | ValueError | OverflowError | KeyError

section \<open>Type tests and truth\<close>

fun is_dict :: "pyval \<Rightarrow> bool" where
  "is_dict (PDict _) = True"
| "is_dict _ = False"

fun is_str :: "pyval \<Rightarrow> bool" where
  "is_str (PStr _) = True"
| "is_str _ = False"

fun is_bool :: "pyval \<Rightarrow> bool" where
  "is_bool (PBool _) = True"
| "is_bool _ = False"

fun is_list :: "pyval \<Rightarrow> bool" where
  "is_list (PList _) = True"
| "is_list _ = False"

text \<open>The object behind a value, or an exception of the caller's choice.\<close>

fun as_dict :: "'e \<Rightarrow> pyval \<Rightarrow> 'e + pydict" where
  "as_dict e (PDict d) = Inr d"
| "as_dict e _ = Inl e"

fun as_list :: "'e \<Rightarrow> pyval \<Rightarrow> 'e + pyval list" where
  "as_list e (PList xs) = Inr xs"
| "as_list e _ = Inl e"

fun truthy_float :: "pyfloat \<Rightarrow> bool" where
  "truthy_float (Float_Fin _ t) = (t \<noteq> ''0.0'' \<and> t \<noteq> ''-0.0'')"
| "truthy_float _ = True"

fun truthy :: "pyval \<Rightarrow> bool" where
  "truthy PNone = False"
| "truthy (PBool b) = b"
| "truthy (PInt i) = (i \<noteq> 0)"
| "truthy (PFloat f) = truthy_float f"
| "truthy (PStr s) = (s \<noteq> [])"
| "truthy (PList xs) = (xs \<noteq> [])"
| "truthy (PDict d) = (d \<noteq> [])"

definition py_or :: "pyval \<Rightarrow> pyval \<Rightarrow> pyval" where
  "py_or a b = (if truthy a then a else b)"

section \<open>Text of a value\<close>

definition hex_digit :: "nat \<Rightarrow> char" where
  "hex_digit n = (if n < 10 then char_of (48 + n) else char_of (87 + n))"

definition is_printable :: "char \<Rightarrow> bool" where
  "is_printable c = (let n = code c in (32 \<le> n \<and> n \<le> 126) \<or> (161 \<le> n \<and> n \<noteq> 173))"

definition repr_char :: "char \<Rightarrow> char \<Rightarrow> string" where
  "repr_char q c =
     (if c = q \<or> code c = 92 then [char_of (92::nat), c]
      else if code c = 9 then [char_of (92::nat), CHR ''t'']
      else if code c = 10 then [char_of (92::nat), CHR ''n'']
      else if code c = 13 then [char_of (92::nat), CHR ''r'']
      else if is_printable c then [c]
      else [char_of (92::nat), CHR ''x'', hex_digit (code c div 16), hex_digit (code c mod 16)])"

definition repr_str :: "string \<Rightarrow> string" where
  "repr_str s =
     (let q = (if char_of (39::nat) \<in> set s \<and> char_of (34::nat) \<notin> set s
               then char_of (34::nat) else char_of (39::nat))
      in [q] @ concat (map (repr_char q) s) @ [q])"

fun float_text :: "pyfloat \<Rightarrow> string" where
  "float_text (Float_Fin _ t) = t"
| "float_text (Float_Inf neg) = (if neg then ''-inf'' else ''inf'')"
| "float_text Float_Nan = ''nan''"

fun py_repr :: "pyval \<Rightarrow> string" where
  "py_repr PNone = ''None''"
| "py_repr (PBool b) = (if b then ''True'' else ''False'')"
| "py_repr (PInt i) = show_int i"
| "py_repr (PFloat f) = float_text f"
| "py_repr (PStr s) = repr_str s"
| "py_repr (PList xs) = ''['' @ join '', '' (map py_repr xs) @ '']''"
| "py_repr (PDict d) =
     ''{'' @ join '', '' (map (\<lambda>kv. repr_str (fst kv) @ '': '' @ py_repr (snd kv)) d) @ ''}''"

fun py_str :: "pyval \<Rightarrow> string" where
  "py_str (PStr s) = s"
| "py_str v = py_repr v"

text \<open>The idiom \<open>str(value or "").strip()\<close> and its lower-cased variant.\<close>

definition text_or_empty :: "pyval \<Rightarrow> string" where
  "text_or_empty v = py_str (py_or v (PStr []))"

definition clean_text :: "pyval \<Rightarrow> string" where
  "clean_text v = strip (text_or_empty v)"

definition clean_lower :: "pyval \<Rightarrow> string" where
  "clean_lower v = lower (clean_text v)"

section \<open>Numbers\<close>

fun py_int :: "pyval \<Rightarrow> py_exn + int" where
  "py_int (PInt i) = Inr i"
| "py_int (PBool b) = Inr (if b then 1 else 0)"
| "py_int (PStr s) = (case parse_int s of None \<Rightarrow> Inl ValueError | Some i \<Rightarrow> Inr i)"
| "py_int (PFloat (Float_Fin t _)) = Inr t"
| "py_int (PFloat (Float_Inf _)) = Inl OverflowError"
| "py_int (PFloat Float_Nan) = Inl ValueError"
| "py_int _ = Inl TypeError"

section \<open>Compact JSON text\<close>

text \<open>\<open>json.dumps(v, separators=(",", ":"), ensure_ascii=False)\<close> and the number of UTF-8 bytes of a text.\<close>

definition json_char :: "char \<Rightarrow> string" where
  "json_char c = (let n = code c; b = char_of (92::nat) in
     if n = 34 \<or> n = 92 then [b, c]
     else if n = 10 then [b, CHR ''n''] else if n = 13 then [b, CHR ''r'']
     else if n = 9 then [b, CHR ''t''] else if n = 12 then [b, CHR ''f'']
     else if n = 8 then [b, CHR ''b'']
     else if n < 32 then [b, CHR ''u'', CHR ''0'', CHR ''0'', hex_digit (n div 16), hex_digit (n mod 16)]
     else [c])"

definition json_str :: "string \<Rightarrow> string" where
  "json_str s = [char_of (34::nat)] @ concat (map json_char s) @ [char_of (34::nat)]"

fun json_float :: "pyfloat \<Rightarrow> string" where
  "json_float (Float_Fin _ t) = t"
| "json_float (Float_Inf neg) = (if neg then ''-Infinity'' else ''Infinity'')"
| "json_float Float_Nan = ''NaN''"

fun json_dumps :: "pyval \<Rightarrow> string" where
  "json_dumps PNone = ''null''"
| "json_dumps (PBool b) = (if b then ''true'' else ''false'')"
| "json_dumps (PInt i) = show_int i"
| "json_dumps (PFloat f) = json_float f"
| "json_dumps (PStr s) = json_str s"
| "json_dumps (PList xs) = ''['' @ join '','' (map json_dumps xs) @ '']''"
| "json_dumps (PDict d) =
     ''{'' @ join '','' (map (\<lambda>kv. json_str (fst kv) @ '':'' @ json_dumps (snd kv)) d) @ ''}''"

definition utf8_length :: "string \<Rightarrow> nat" where
  "utf8_length s = (\<Sum>c \<leftarrow> s. if code c < 128 then 1 else 2)"

text \<open>\<open>allow_nan=False\<close>: \<open>json.dumps\<close> raises \<open>ValueError\<close> when a float is not finite.\<close>

fun json_finite :: "pyval \<Rightarrow> bool" where
  "json_finite (PFloat (Float_Fin _ _)) = True"
| "json_finite (PFloat _) = False"
| "json_finite (PList xs) = list_all json_finite xs"
| "json_finite (PDict d) = list_all (\<lambda>kv. json_finite (snd kv)) d"
| "json_finite _ = True"

text \<open>Writing an integer of more than 4300 digits as text raises \<open>ValueError\<close>.\<close>

fun ints_printable :: "pyval \<Rightarrow> bool" where
  "ints_printable (PInt i) = (length (show_nat (nat \<bar>i\<bar>)) \<le> 4300)"
| "ints_printable (PList xs) = list_all ints_printable xs"
| "ints_printable (PDict d) = list_all (\<lambda>kv. ints_printable (snd kv)) d"
| "ints_printable _ = True"

section \<open>Well-formed dictionaries\<close>

fun wf_val :: "pyval \<Rightarrow> bool" where
  "wf_val (PList xs) = list_all wf_val xs"
| "wf_val (PDict d) = (distinct (map fst d) \<and> list_all (\<lambda>kv. wf_val (snd kv)) d)"
| "wf_val _ = True"

section \<open>Facts\<close>

lemma is_dict_iff: "is_dict v \<longleftrightarrow> (\<exists>d. v = PDict d)"
  by (cases v) auto

lemma is_str_iff: "is_str v \<longleftrightarrow> (\<exists>s. v = PStr s)"
  by (cases v) auto

lemma is_list_iff: "is_list v \<longleftrightarrow> (\<exists>xs. v = PList xs)"
  by (cases v) auto

lemma as_dict_Inr_iff [simp]: "as_dict e v = Inr d \<longleftrightarrow> v = PDict d"
  by (cases v) auto

lemma as_list_Inr_iff [simp]: "as_list e v = Inr xs \<longleftrightarrow> v = PList xs"
  by (cases v) auto

lemma text_or_empty_simps [simp]:
  "text_or_empty (PStr s) = s" "text_or_empty PNone = []"
  by (auto simp: text_or_empty_def py_or_def)

lemma clean_text_simps [simp]:
  "clean_text (PStr s) = strip s" "clean_text PNone = []"
  by (auto simp: clean_text_def)

lemma clean_lower_simps [simp]:
  "clean_lower (PStr s) = lower (strip s)" "clean_lower PNone = []"
  by (auto simp: clean_lower_def lower_def)

lemma clean_lower_idem [simp]: "clean_lower (PStr (clean_lower v)) = clean_lower v"
  by (simp add: clean_lower_def strip_lower clean_text_def)

lemma clean_text_idem [simp]: "clean_text (PStr (clean_text v)) = clean_text v"
  by (simp add: clean_text_def)

lemma utf8_length_append [simp]: "utf8_length (s @ t) = utf8_length s + utf8_length t"
  by (simp add: utf8_length_def)

lemma utf8_length_ge: "length s \<le> utf8_length s"
  by (induction s) (auto simp: utf8_length_def)

end
