(* ===== verification/Schedule_Times.thy ===== *)
theory Schedule_Times
  imports Py_Dates Py_Value
begin

text \<open>
  The schedule table and the timing half of \<open>scheduler.py\<close>: the latest and the next occurrence of a
  schedule, the due key, the lateness decision and the revision baseline. An abstract schedule is the set
  of moments it names (\<open>occurrences\<close>); the bounded searches of the code are shown to return the greatest
  moment of it that is not ahead and the least that is not past. The time zone database is the parameter
  \<open>tz\<close>. A due key is the text \<open>isoformat\<close> prints for a UTC moment, which determines the moment: the model
  keeps the moment, and \<open>None\<close> for the blank key.
\<close>

section \<open>Tables\<close>

datatype owner_type = Owner_User | Owner_Module

datatype schedule_type = Once | Daily | Weekly | Monthly | Interval

datatype missed_policy = Missed_Skip | Run_On_Recovery | Missed_Expire

datatype concurrency_policy = Overlap_Skip | Overlap_Queue | Overlap_Allow

datatype sched_exn = SchedulerError string | Sched_Uncaught py_exn

record schedule =
  sc_id :: nat
  sc_name :: string
  sc_module_id :: string
  sc_action_id :: string
  sc_target_mode :: string
  sc_targets :: pyval
  sc_target_state :: string
  sc_target_state_detail :: string
  sc_parameters :: pyval
  sc_type :: schedule_type
  sc_timezone :: string
  sc_run_at :: "moment option"
  sc_run_time :: "(int \<times> int) option"
  sc_weekdays :: "int list"
  sc_day_of_month :: "int option"
  sc_month_week :: "int option"
  sc_month_weekday :: "int option"
  sc_interval_seconds :: "int option"
  sc_interval_anchor_at :: "moment option"
  sc_owner_type :: owner_type
  sc_owner_module :: string
  sc_owner_key :: string
  sc_enabled :: bool
  sc_paused_reason :: string
  sc_missed_policy :: missed_policy
  sc_missed_grace_minutes :: int
  sc_concurrency_policy :: concurrency_policy
  sc_retry_count :: int
  sc_retry_delay_seconds :: int
  sc_last_due_key :: "moment option"
  sc_last_run_at :: "moment option"
  sc_created_by :: "nat option"
  sc_created_by_username :: string
  sc_updated_at :: moment

section \<open>Time zones by name\<close>

text \<open>\<open>ZoneInfo(key)\<close>: a zone, \<open>ZoneInfoNotFoundError\<close>, or \<open>ValueError\<close> for a key that is no relative path.\<close>

datatype zone_answer = Zone zone | Zone_Not_Found | Zone_Key_Invalid

type_synonym tzdb = "string \<Rightarrow> zone_answer"

definition zone_for :: "tzdb \<Rightarrow> string \<Rightarrow> sched_exn + zone" where
  "zone_for tz value = (case tz (if value = [] then ''UTC'' else value) of
     Zone z \<Rightarrow> Inr z
   | Zone_Not_Found \<Rightarrow> Inl (SchedulerError (''Unknown timezone: '' @ value))
   | Zone_Key_Invalid \<Rightarrow> Inl (Sched_Uncaught ValueError))"

definition min_interval_seconds :: int where "min_interval_seconds = 60"

definition minutes :: "int \<Rightarrow> int" where "minutes n = n * 60 * sec"

definition missed_late_tolerance :: int where "missed_late_tolerance = minutes 3"

section \<open>Days of a month\<close>

definition uses_nth_weekday :: "schedule \<Rightarrow> bool" where
  "uses_nth_weekday s = (sc_month_week s \<noteq> None \<and> sc_month_weekday s \<noteq> None)"

definition nth_weekday_date :: "int \<Rightarrow> int \<Rightarrow> int \<Rightarrow> int \<Rightarrow> int" where
  "nth_weekday_date year month week wd =
     (if week = -1
      then (let last = ordinal year month (days_in_month year month) in last - (weekday last - wd) mod 7)
      else (let first = ordinal year month 1 in first + ((wd - weekday first) mod 7 + 7 * (week - 1))))"

definition monthly_day :: "schedule \<Rightarrow> int \<Rightarrow> int \<Rightarrow> int" where
  "monthly_day s year month =
     (if uses_nth_weekday s
      then nth_weekday_date year month (the (sc_month_week s)) (the (sc_month_weekday s))
      else ordinal year month (min (case sc_day_of_month s of None \<Rightarrow> 0 | Some d \<Rightarrow> d) (days_in_month year month)))"

text \<open>\<open>not uses_nth_weekday(schedule) and not int(schedule.day_of_month or 0)\<close>: the monthly day is not set.\<close>

definition month_day_missing :: "schedule \<Rightarrow> bool" where
  "month_day_missing s = (\<not> uses_nth_weekday s \<and> (case sc_day_of_month s of None \<Rightarrow> True | Some d \<Rightarrow> d = 0))"

section \<open>Occurrences\<close>

definition time_of_day :: "int \<Rightarrow> int \<Rightarrow> int" where
  "time_of_day hour minute = (hour * 3600 + minute * 60) * sec"

definition local_occurrence :: "zone \<Rightarrow> int \<Rightarrow> int \<Rightarrow> int \<Rightarrow> moment" where
  "local_occurrence z day hour minute = to_utc z (at_time (time_of_day hour minute) day)"

definition interval_latest :: "schedule \<Rightarrow> moment \<Rightarrow> moment option" where
  "interval_latest s now = (case (sc_interval_anchor_at s, sc_interval_seconds s) of
     (Some anchor, Some seconds) \<Rightarrow>
       if seconds = 0 \<or> seconds < min_interval_seconds \<or> now < anchor then None
       else Some (anchor + (now - anchor) div (seconds * sec) * (seconds * sec))
   | _ \<Rightarrow> None)"

definition interval_next :: "schedule \<Rightarrow> moment \<Rightarrow> moment option" where
  "interval_next s now = (case (sc_interval_anchor_at s, sc_interval_seconds s) of
     (Some anchor, Some seconds) \<Rightarrow>
       if seconds = 0 \<or> seconds < min_interval_seconds then None
       else if now \<le> anchor then Some anchor
       else (let candidate = anchor + (now - anchor) div (seconds * sec) * (seconds * sec)
             in Some (if candidate < now then candidate + seconds * sec else candidate))
   | _ \<Rightarrow> None)"

definition prev_month :: "int \<times> int \<Rightarrow> int \<times> int" where
  "prev_month ym = (let month = snd ym - 1 in if month = 0 then (fst ym - 1, 12) else (fst ym, month))"

definition next_month :: "int \<times> int \<Rightarrow> int \<times> int" where
  "next_month ym = (let month = snd ym + 1 in if month = 13 then (fst ym + 1, 1) else (fst ym, month))"

text \<open>The month loop: try a month, move on, at most \<open>n\<close> times.\<close>

fun month_loop :: "nat \<Rightarrow> (int \<times> int \<Rightarrow> int \<times> int) \<Rightarrow> (int \<times> int \<Rightarrow> moment) \<Rightarrow> (moment \<Rightarrow> bool) \<Rightarrow> int \<times> int \<Rightarrow> moment option" where
  "month_loop 0 step candidate good ym = None"
| "month_loop (Suc n) step candidate good ym =
     (let c = candidate ym in if good c then Some c else month_loop n step candidate good (step ym))"

definition year_month :: "int \<Rightarrow> int \<times> int" where
  "year_month day = (let (y, m, _) = of_ordinal day in (y, m))"

definition latest_occurrence :: "tzdb \<Rightarrow> schedule \<Rightarrow> moment \<Rightarrow> sched_exn + moment option" where
  "latest_occurrence tz s now =
     rbind (zone_for tz (sc_timezone s)) (\<lambda>z.
       let today = date_of (to_local z now) in
       case sc_type s of
         Once \<Rightarrow> Inr (sc_run_at s)
       | Interval \<Rightarrow> Inr (interval_latest s now)
       | kind \<Rightarrow> (case sc_run_time s of None \<Rightarrow> Inr None | Some (hour, minute) \<Rightarrow>
           (case kind of
              Daily \<Rightarrow> (let candidate = local_occurrence z today hour minute
                         in Inr (Some (if candidate > now then candidate - day_us else candidate)))
            | Weekly \<Rightarrow> Inr (if sc_weekdays s = [] then None
                else find (\<lambda>c. c \<le> now)
                  (map (\<lambda>day. local_occurrence z day hour minute)
                    (filter (\<lambda>day. weekday day \<in> set (sc_weekdays s)) (map (\<lambda>offset. today - offset) [0..7]))))
            | _ \<Rightarrow> Inr (if month_day_missing s then None
                else month_loop 14 prev_month (\<lambda>(y, m). local_occurrence z (monthly_day s y m) hour minute)
                  (\<lambda>c. c \<le> now) (year_month today)))))"

definition next_occurrence :: "tzdb \<Rightarrow> schedule \<Rightarrow> moment \<Rightarrow> sched_exn + moment option" where
  "next_occurrence tz s now =
     rbind (zone_for tz (sc_timezone s)) (\<lambda>z.
       let today = date_of (to_local z now) in
       case sc_type s of
         Once \<Rightarrow> Inr (case sc_run_at s of None \<Rightarrow> None | Some w \<Rightarrow> if now \<le> w then Some w else None)
       | Interval \<Rightarrow> Inr (interval_next s now)
       | kind \<Rightarrow> (case sc_run_time s of None \<Rightarrow> Inr None | Some (hour, minute) \<Rightarrow>
           (case kind of
              Daily \<Rightarrow> Inr (find (\<lambda>c. now \<le> c)
                (map (\<lambda>day. local_occurrence z day hour minute) (map (\<lambda>offset. today + offset) [0..1])))
            | Weekly \<Rightarrow> Inr (find (\<lambda>c. now \<le> c)
                (map (\<lambda>day. local_occurrence z day hour minute)
                  (filter (\<lambda>day. weekday day \<in> set (sc_weekdays s)) (map (\<lambda>offset. today + offset) [0..7]))))
            | _ \<Rightarrow> Inr (if month_day_missing s then None
                else month_loop 14 next_month (\<lambda>(y, m). local_occurrence z (monthly_day s y m) hour minute)
                  (\<lambda>c. now \<le> c) (year_month today)))))"

section \<open>Due keys and lateness\<close>

definition to_minute :: "moment \<Rightarrow> moment" where
  "to_minute w = w - w mod minutes 1"

definition due_key :: "moment \<Rightarrow> bool \<Rightarrow> moment" where
  "due_key w exact = (if exact then w else to_minute w)"

definition within_grace :: "schedule \<Rightarrow> int \<Rightarrow> bool" where
  "within_grace s late = (sc_missed_policy s = Run_On_Recovery \<and>
     (sc_missed_grace_minutes s = 0 \<or> late \<le> minutes (sc_missed_grace_minutes s)))"

definition should_run_occurrence :: "schedule \<Rightarrow> moment \<Rightarrow> moment \<Rightarrow> bool" where
  "should_run_occurrence s occurrence now =
     (if sc_type s = Interval then
        occurrence \<le> now \<and> (now - occurrence \<le> missed_late_tolerance \<or> within_grace s (now - occurrence))
      else (let occurrence = to_minute occurrence; now_min = to_minute now in
        occurrence \<le> now_min \<and> (now_min - occurrence \<le> missed_late_tolerance \<or> within_grace s (now_min - occurrence))))"

definition occurrence_predates_revision :: "schedule \<Rightarrow> moment \<Rightarrow> bool" where
  "occurrence_predates_revision s occurrence = (sc_last_due_key s = None \<and> occurrence < sc_updated_at s)"

text \<open>\<open>_consume_revision_baseline\<close>: the schedule it saves, when the occurrence belongs to the baseline.
  \<open>updated_at\<close> is an \<open>auto_now\<close> column, so a save that lists it writes the clock.\<close>

definition consume_revision_baseline :: "moment \<Rightarrow> schedule \<Rightarrow> moment \<Rightarrow> moment \<Rightarrow> schedule option" where
  "consume_revision_baseline clock s occurrence key =
     (if \<not> occurrence_predates_revision s occurrence then None
      else Some (s\<lparr>sc_last_due_key := Some key,
                   sc_enabled := (if sc_type s = Once then False else sc_enabled s),
                   sc_updated_at := clock\<rparr>))"

section \<open>The abstract schedule\<close>

definition runs_on :: "schedule \<Rightarrow> int \<Rightarrow> bool" where
  "runs_on s day = (case sc_type s of
     Daily \<Rightarrow> True
   | Weekly \<Rightarrow> weekday day \<in> set (sc_weekdays s)
   | Monthly \<Rightarrow> (let (y, m) = year_month day in day = monthly_day s y m)
   | _ \<Rightarrow> False)"

definition occurrences :: "zone \<Rightarrow> schedule \<Rightarrow> moment set" where
  "occurrences z s = (case sc_run_time s of None \<Rightarrow> {} | Some (hour, minute) \<Rightarrow>
     {local_occurrence z day hour minute | day. runs_on s day})"

text \<open>What the payload checks leave of a daily, weekly or monthly schedule.\<close>

definition month_pair_ok :: "schedule \<Rightarrow> bool" where
  "month_pair_ok s = (the (sc_month_week s) \<in> {1, 2, 3, 4, -1} \<and> 0 \<le> the (sc_month_weekday s) \<and> the (sc_month_weekday s) \<le> 6)"

definition calendar_schedule :: "schedule \<Rightarrow> bool" where
  "calendar_schedule s =
     ((case sc_run_time s of None \<Rightarrow> False | Some (hour, minute) \<Rightarrow> 0 \<le> hour \<and> hour < 24 \<and> 0 \<le> minute \<and> minute < 60) \<and>
      (case sc_type s of
         Daily \<Rightarrow> True
       | Weekly \<Rightarrow> sc_weekdays s \<noteq> [] \<and> list_all (\<lambda>d. 0 \<le> d \<and> d \<le> 6) (sc_weekdays s)
       | Monthly \<Rightarrow> (if uses_nth_weekday s then month_pair_ok s
                     else (case sc_day_of_month s of None \<Rightarrow> False | Some d \<Rightarrow> 1 \<le> d))
       | _ \<Rightarrow> False))"

lemma time_of_day_bounds: "0 \<le> h \<Longrightarrow> h < 24 \<Longrightarrow> 0 \<le> mi \<Longrightarrow> mi < 60 \<Longrightarrow> 0 \<le> time_of_day h mi \<and> time_of_day h mi < day_us"
  by (simp add: time_of_day_def day_us_def sec_def)

lemma weekday_within:
  assumes "0 \<le> wd" "wd \<le> 6"
  shows "\<exists>k \<in> {1..7}. weekday (n + k) = wd"
proof
  show "(wd - (n + 7)) mod 7 + 1 \<in> {1..7}" by simp
  have "weekday (n + ((wd - (n + 7)) mod 7 + 1)) = ((n + 7) + (wd - (n + 7)) mod 7) mod 7"
    by (simp add: weekday_def algebra_simps)
  also have "\<dots> = wd" unfolding mod_add_right_eq using assms by simp
  finally show "weekday (n + ((wd - (n + 7)) mod 7 + 1)) = wd" .
qed

lemma weekday_within_back:
  assumes "0 \<le> wd" "wd \<le> 6"
  shows "\<exists>k \<in> {1..7}. weekday (n - k) = wd"
proof -
  obtain k where "k \<in> {1..7}" "weekday (n - 8 + k) = wd" using weekday_within [OF assms, of "n - 8"] by blast
  then show ?thesis by (intro bexI [of _ "8 - k"]) (auto simp: algebra_simps)
qed

section \<open>The monthly day lies in its month\<close>

lemma nth_weekday_in_month:
  assumes "1 \<le> m" "m \<le> 12" and "week \<in> {1, 2, 3, 4, -1}"
  shows "month_start (month_number y m) < nth_weekday_date y m week wd \<and>
    nth_weekday_date y m week wd \<le> month_start (month_number y m + 1)"
proof -
  have l: "28 \<le> days_in_month y m" using days_in_month_bounds assms by blast
  have r: "0 \<le> x mod 7 \<and> x mod 7 \<le> 6" for x :: int by simp
  show ?thesis
    using assms(3) l r [of "weekday (ordinal y m (days_in_month y m)) - wd"] r [of "wd - weekday (ordinal y m 1)"]
    unfolding nth_weekday_date_def Let_def ordinal_month_start [OF assms(1,2)] month_start_Suc [OF assms(1,2)]
    by auto
qed

lemma monthly_day_in_month:
  assumes "calendar_schedule s" and "sc_type s = Monthly" and "1 \<le> m" "m \<le> 12"
  shows "month_start (month_number y m) < monthly_day s y m \<and> monthly_day s y m \<le> month_start (month_number y m + 1)"
proof (cases "uses_nth_weekday s")
  case True
  then show ?thesis using assms nth_weekday_in_month [OF assms(3,4)]
    by (simp add: monthly_day_def calendar_schedule_def month_pair_ok_def)
next
  case False
  then obtain d where "sc_day_of_month s = Some d" "1 \<le> d"
    using assms by (auto simp: calendar_schedule_def split: option.splits)
  then show ?thesis using False days_in_month_bounds [OF assms(3,4), of y]
    by (simp add: monthly_day_def ordinal_month_start [OF assms(3,4)] month_start_Suc [OF assms(3,4)])
qed

lemma year_month_spec:
  assumes "year_month day = (y, m)"
  shows "1 \<le> m" "m \<le> 12" "month_start (month_number y m) < day" "day \<le> month_start (month_number y m + 1)"
proof -
  obtain d where "of_ordinal day = (y, m, d)"
    using assms by (auto simp: year_month_def split: prod.splits)
  note o = of_ordinal_spec [OF this]
  show m: "1 \<le> m" "m \<le> 12" using o by simp_all
  show "month_start (month_number y m) < day" "day \<le> month_start (month_number y m + 1)"
    using o by (simp_all add: ordinal_month_start [OF m] month_start_Suc [OF m] flip: o(5))
qed

lemma month_unique:
  assumes "month_start j < day" "day \<le> month_start (j + 1)" "month_start k < day" "day \<le> month_start (k + 1)"
  shows "j = k"
  using month_start_mono [of "j + 1" k] month_start_mono [of "k + 1" j] assms by linarith

lemma month_number_inj:
  "month_number y m = month_number y' m' \<Longrightarrow> 1 \<le> m \<Longrightarrow> m \<le> 12 \<Longrightarrow> 1 \<le> m' \<Longrightarrow> m' \<le> 12 \<Longrightarrow> y = y' \<and> m = m'"
  using month_number_split by metis

lemma runs_on_monthly:
  assumes "calendar_schedule s" and "sc_type s = Monthly"
  shows "runs_on s day \<longleftrightarrow> (\<exists>y m. 1 \<le> m \<and> m \<le> 12 \<and> day = monthly_day s y m)"
proof
  assume "runs_on s day"
  then show "\<exists>y m. 1 \<le> m \<and> m \<le> 12 \<and> day = monthly_day s y m"
    using year_month_spec(1,2) [of day] assms(2) by (cases "year_month day") (fastforce simp: runs_on_def)
next
  assume "\<exists>y m. 1 \<le> m \<and> m \<le> 12 \<and> day = monthly_day s y m"
  then obtain y m where m: "1 \<le> m" "m \<le> 12" "day = monthly_day s y m" by blast
  obtain y' m' where ym: "year_month day = (y', m')" by fastforce
  have "month_number y m = month_number y' m'"
    by (rule month_unique) (use monthly_day_in_month [OF assms m(1,2)] m(3) year_month_spec [OF ym] in auto)
  then have "y = y' \<and> m = m'" using month_number_inj m(1,2) year_month_spec(1,2) [OF ym] by blast
  then show "runs_on s day" unfolding runs_on_def using ym m(3) assms(2) by simp
qed

section \<open>The searches\<close>

lemma find_days:
  assumes "sorted_wrt R days" and "find P (map f (filter Q days)) = Some c"
  shows "\<exists>d \<in> set days. Q d \<and> P (f d) \<and> c = f d \<and> (\<forall>e \<in> set days. Q e \<longrightarrow> P (f e) \<longrightarrow> e = d \<or> R d e)"
  using assms by (induction days) (auto split: if_splits)

lemma find_days_exists: "d \<in> set days \<Longrightarrow> Q d \<Longrightarrow> P (f d) \<Longrightarrow> \<exists>c. find P (map f (filter Q days)) = Some c"
  by (induction days) auto

lemma month_loop_Some:
  assumes "month_loop n step candidate good ym = Some c"
  shows "\<exists>i < n. c = candidate ((step ^^ i) ym) \<and> good c \<and> (\<forall>j < i. \<not> good (candidate ((step ^^ j) ym)))"
  using assms
proof (induction n arbitrary: ym)
  case (Suc n)
  show ?case
  proof (cases "good (candidate ym)")
    case True
    then show ?thesis using Suc.prems by (intro exI [of _ 0]) (simp add: Let_def)
  next
    case False
    then obtain i where i: "i < n" "c = candidate ((step ^^ i) (step ym))" "good c" "\<forall>j < i. \<not> good (candidate ((step ^^ j) (step ym)))"
      using Suc.IH [of "step ym"] Suc.prems by (auto simp: Let_def)
    then show ?thesis using False
      by (intro exI [of _ "Suc i"]) (auto simp: less_Suc_eq_0_disj funpow_Suc_right simp del: funpow.simps(2))
  qed
qed simp

lemma month_loop_exists: "i < n \<Longrightarrow> good (candidate ((step ^^ i) ym)) \<Longrightarrow> \<exists>c. month_loop n step candidate good ym = Some c"
proof (induction n arbitrary: i ym)
  case (Suc n)
  show ?case
  proof (cases i)
    case (Suc k)
    then have "good (candidate ((step ^^ k) (step ym)))" using Suc.prems by (simp add: funpow_swap1)
    then show ?thesis using Suc.IH [of k "step ym"] Suc Suc.prems by (auto simp: Let_def)
  qed (use Suc.prems in \<open>auto simp: Let_def\<close>)
qed simp

definition valid_month :: "int \<times> int \<Rightarrow> bool" where
  "valid_month ym = (1 \<le> snd ym \<and> snd ym \<le> 12)"

abbreviation number :: "int \<times> int \<Rightarrow> int" where
  "number ym \<equiv> month_number (fst ym) (snd ym)"

lemma next_month_number: "valid_month ym \<Longrightarrow> valid_month ((next_month ^^ i) ym) \<and> number ((next_month ^^ i) ym) = number ym + int i"
  by (induction i) (auto simp: valid_month_def next_month_def month_number_def Let_def)

lemma prev_month_number: "valid_month ym \<Longrightarrow> valid_month ((prev_month ^^ i) ym) \<and> number ((prev_month ^^ i) ym) = number ym - int i"
  by (induction i) (auto simp: valid_month_def prev_month_def month_number_def Let_def)

text \<open>Every day of a monthly schedule is the day of one month, and months and days have the same order.\<close>

lemma monthly_day_order:
  assumes s: "calendar_schedule s" "sc_type s = Monthly" and v: "valid_month a" "valid_month b"
    and less: "monthly_day s (fst a) (snd a) < monthly_day s (fst b) (snd b)"
  shows "number a < number b"
proof (rule ccontr)
  assume "\<not> number a < number b"
  then consider "number a = number b" | "number b + 1 \<le> number a" by linarith
  then show False
  proof cases
    case 1
    then show ?thesis using month_number_inj v less by (metis valid_month_def order_less_irrefl)
  next
    case 2
    then show ?thesis
      using month_start_mono [OF 2] monthly_day_in_month [OF s, of "snd a" "fst a"] monthly_day_in_month [OF s, of "snd b" "fst b"] v less
      by (simp add: valid_month_def)
  qed
qed

lemma valid_month_eq: "valid_month a \<Longrightarrow> valid_month b \<Longrightarrow> number a = number b \<Longrightarrow> a = b"
  using month_number_inj by (metis prod.collapse valid_month_def)

lemma month_of_day:
  assumes "calendar_schedule s" "sc_type s = Monthly" "runs_on s e"
  obtains ym where "valid_month ym" "e = monthly_day s (fst ym) (snd ym)"
  using assms runs_on_monthly [OF assms(1,2)] by (metis fst_conv snd_conv valid_month_def)

lemma month_of_today:
  assumes "calendar_schedule s" "sc_type s = Monthly" and "year_month today = (y, m)"
  shows "valid_month (y, m)"
    and "valid_month ym \<Longrightarrow> today \<le> monthly_day s (fst ym) (snd ym) \<Longrightarrow> month_number y m \<le> number ym"
    and "valid_month ym \<Longrightarrow> monthly_day s (fst ym) (snd ym) \<le> today \<Longrightarrow> number ym \<le> month_number y m"
    and "valid_month ym \<Longrightarrow> month_number y m < number ym \<Longrightarrow> today < monthly_day s (fst ym) (snd ym)"
    and "valid_month ym \<Longrightarrow> number ym < month_number y m \<Longrightarrow> monthly_day s (fst ym) (snd ym) < today"
proof -
  note t = year_month_spec [OF assms(3)]
  show "valid_month (y, m)" using t by (simp add: valid_month_def)
  have d: "month_start (number ym) < monthly_day s (fst ym) (snd ym) \<and> monthly_day s (fst ym) (snd ym) \<le> month_start (number ym + 1)"
    if "valid_month ym" using monthly_day_in_month [OF assms(1,2)] that by (simp add: valid_month_def)
  show later: "today < monthly_day s (fst ym) (snd ym)" if "valid_month ym" "month_number y m < number ym"
    using month_start_mono [of "month_number y m + 1" "number ym"] d t that by force
  show earlier: "monthly_day s (fst ym) (snd ym) < today" if "valid_month ym" "number ym < month_number y m"
    using month_start_mono [of "number ym + 1" "month_number y m"] d t that by force
  show "month_number y m \<le> number ym" if "valid_month ym" "today \<le> monthly_day s (fst ym) (snd ym)"
    using earlier [OF that(1)] that by force
  show "number ym \<le> month_number y m" if "valid_month ym" "monthly_day s (fst ym) (snd ym) \<le> today"
    using later [OF that(1)] that by force
qed

lemma run_time_of:
  assumes "calendar_schedule s"
  obtains h mi where "sc_run_time s = Some (h, mi)" "0 \<le> time_of_day h mi" "time_of_day h mi < day_us"
  using assms time_of_day_bounds by (auto simp: calendar_schedule_def split: option.splits)

lemma month_present: "calendar_schedule s \<Longrightarrow> sc_type s = Monthly \<Longrightarrow> \<not> month_day_missing s"
  by (auto simp: calendar_schedule_def month_day_missing_def split: option.splits if_splits)

text \<open>The forward search of every kind of schedule finds a day, and passes over no day of the schedule.\<close>

lemma monthly_next_found:
  assumes s: "calendar_schedule s" "sc_type s = Monthly" and z: "regular_zone z"
    and tod: "0 \<le> time_of_day h mi" "time_of_day h mi < day_us"
    and today: "today = date_of (to_local z now)"
  shows "\<exists>d. month_loop 14 next_month (\<lambda>(y, m). local_occurrence z (monthly_day s y m) h mi) (\<lambda>c. now \<le> c) (year_month today) =
      Some (local_occurrence z d h mi) \<and> runs_on s d \<and> now \<le> local_occurrence z d h mi \<and>
      (\<forall>e. today \<le> e \<longrightarrow> e < d \<longrightarrow> runs_on s e \<longrightarrow> local_occurrence z e h mi < now)"
proof -
  let ?c = "\<lambda>(y, m). local_occurrence z (monthly_day s y m) h mi"
  obtain y m where ym: "year_month today = (y, m)" by fastforce
  note t = month_of_today [OF s ym]
  have n: "valid_month ((next_month ^^ i) (y, m)) \<and> number ((next_month ^^ i) (y, m)) = month_number y m + int i" for i
    using next_month_number [OF t(1), of i] by simp
  have c: "?c a = local_occurrence z (monthly_day s (fst a) (snd a)) h mi" for a by (simp add: case_prod_beta)
  define nm where "nm = (next_month ^^ 1) (y, m)"
  have "today < monthly_day s (fst nm) (snd nm)" using t(4) [of nm] n [of 1] by (simp add: nm_def)
  then have "now \<le> ?c nm"
    using zoneinfo.later_day [OF z tod, of now] unfolding case_prod_beta local_occurrence_def today by force
  then obtain w where w: "month_loop 14 next_month ?c (\<lambda>c. now \<le> c) (y, m) = Some w"
    using month_loop_exists [of 1 14 "\<lambda>c. now \<le> c" ?c next_month "(y, m)"] by (auto simp: nm_def)
  then obtain i where i: "w = ?c ((next_month ^^ i) (y, m))" "now \<le> w" "\<forall>j < i. \<not> now \<le> ?c ((next_month ^^ j) (y, m))"
    using month_loop_Some by blast
  define ym' where "ym' = (next_month ^^ i) (y, m)"
  have skipped: "local_occurrence z e h mi < now" if e: "today \<le> e" "e < monthly_day s (fst ym') (snd ym')" "runs_on s e" for e
  proof -
    obtain a where a: "valid_month a" "e = monthly_day s (fst a) (snd a)" using month_of_day [OF s e(3)] .
    have "month_number y m \<le> number a" "number a < month_number y m + int i"
      using t(2) [OF a(1)] monthly_day_order [OF s a(1), of ym'] n [of i] a e by (auto simp: ym'_def)
    then obtain j where j: "j < i" "number a = month_number y m + int j"
      using zle_iff_zadd by (metis add_less_cancel_left of_nat_less_iff)
    then have "a = (next_month ^^ j) (y, m)" using valid_month_eq a n [of j] by simp
    then show ?thesis using i(3) j a c by auto
  qed
  have "runs_on s (monthly_day s (fst ym') (snd ym'))"
    using runs_on_monthly [OF s] n [of i] by (auto simp: ym'_def valid_month_def)
  then show ?thesis using w i skipped c ym by (auto simp: ym'_def)
qed

lemma monthly_latest_found:
  assumes s: "calendar_schedule s" "sc_type s = Monthly" and z: "regular_zone z"
    and tod: "0 \<le> time_of_day h mi" "time_of_day h mi < day_us"
    and today: "today = date_of (to_local z now)"
  shows "\<exists>d. month_loop 14 prev_month (\<lambda>(y, m). local_occurrence z (monthly_day s y m) h mi) (\<lambda>c. c \<le> now) (year_month today) =
      Some (local_occurrence z d h mi) \<and> runs_on s d \<and> local_occurrence z d h mi \<le> now \<and>
      (\<forall>e. d < e \<longrightarrow> e \<le> today \<longrightarrow> runs_on s e \<longrightarrow> now < local_occurrence z e h mi)"
proof -
  let ?c = "\<lambda>(y, m). local_occurrence z (monthly_day s y m) h mi"
  obtain y m where ym: "year_month today = (y, m)" by fastforce
  note t = month_of_today [OF s ym]
  have n: "valid_month ((prev_month ^^ i) (y, m)) \<and> number ((prev_month ^^ i) (y, m)) = month_number y m - int i" for i
    using prev_month_number [OF t(1), of i] by simp
  have c: "?c a = local_occurrence z (monthly_day s (fst a) (snd a)) h mi" for a by (simp add: case_prod_beta)
  define pm where "pm = (prev_month ^^ 1) (y, m)"
  have "monthly_day s (fst pm) (snd pm) < today" using t(5) [of pm] n [of 1] by (simp add: pm_def)
  then have "?c pm \<le> now"
    using zoneinfo.earlier_day [OF z tod, of _ now] unfolding case_prod_beta local_occurrence_def today by force
  then obtain w where w: "month_loop 14 prev_month ?c (\<lambda>c. c \<le> now) (y, m) = Some w"
    using month_loop_exists [of 1 14 "\<lambda>c. c \<le> now" ?c prev_month "(y, m)"] by (auto simp: pm_def)
  then obtain i where i: "w = ?c ((prev_month ^^ i) (y, m))" "w \<le> now" "\<forall>j < i. \<not> ?c ((prev_month ^^ j) (y, m)) \<le> now"
    using month_loop_Some by blast
  define ym' where "ym' = (prev_month ^^ i) (y, m)"
  have skipped: "now < local_occurrence z e h mi" if e: "monthly_day s (fst ym') (snd ym') < e" "e \<le> today" "runs_on s e" for e
  proof -
    obtain a where a: "valid_month a" "e = monthly_day s (fst a) (snd a)" using month_of_day [OF s e(3)] .
    have "number a \<le> month_number y m" "month_number y m - int i < number a"
      using t(3) [OF a(1)] monthly_day_order [OF s _ a(1), of ym'] n [of i] a e by (auto simp: ym'_def)
    then obtain j where j: "j < i" "month_number y m = number a + int j"
      using zle_iff_zadd by (metis add_less_cancel_left diff_less_eq of_nat_less_iff)
    then have "a = (prev_month ^^ j) (y, m)" using valid_month_eq a n [of j] by simp
    then show ?thesis using i(3) j a c by auto
  qed
  have "runs_on s (monthly_day s (fst ym') (snd ym'))"
    using runs_on_monthly [OF s] n [of i] by (auto simp: ym'_def valid_month_def)
  then show ?thesis using w i skipped c ym by (auto simp: ym'_def)
qed

lemma days_ahead:
  "set (map (\<lambda>offset. today + offset) [0..n]) = {today..today + n}" "sorted_wrt (<) (map (\<lambda>offset. today + offset) [0..n])"
  by (auto simp: image_iff sorted_wrt_map intro!: bexI [of _ "_ - today"])

lemma days_back:
  "set (map (\<lambda>offset. today - offset) [0..n]) = {today - n..today}" "sorted_wrt (>) (map (\<lambda>offset. today - offset) [0..n])"
  by (auto simp: image_iff sorted_wrt_map intro!: bexI [of _ "today - _"])

lemma weekly_next_found:
  assumes s: "calendar_schedule s" "sc_type s = Weekly" and z: "regular_zone z"
    and tod: "0 \<le> time_of_day h mi" "time_of_day h mi < day_us"
    and today: "today = date_of (to_local z now)"
  shows "\<exists>d. find (\<lambda>c. now \<le> c) (map (\<lambda>day. local_occurrence z day h mi)
        (filter (\<lambda>day. weekday day \<in> set (sc_weekdays s)) (map (\<lambda>offset. today + offset) [0..7]))) =
      Some (local_occurrence z d h mi) \<and> runs_on s d \<and> now \<le> local_occurrence z d h mi \<and>
      (\<forall>e. today \<le> e \<longrightarrow> e < d \<longrightarrow> runs_on s e \<longrightarrow> local_occurrence z e h mi < now)"
proof -
  let ?days = "map (\<lambda>offset. today + offset) [0..7]"
  have r: "runs_on s day \<longleftrightarrow> weekday day \<in> set (sc_weekdays s)" for day using s by (simp add: runs_on_def)
  note days = days_ahead [of today 7]
  obtain wd where wd: "wd \<in> set (sc_weekdays s)" "0 \<le> wd" "wd \<le> 6"
    using s by (cases "sc_weekdays s") (auto simp: calendar_schedule_def)
  then obtain k where k: "k \<in> {1..7}" "weekday (today + k) = wd" using weekday_within by blast
  have "now \<le> local_occurrence z (today + k) h mi"
    using zoneinfo.later_day [OF z tod, of now "today + k"] k by (simp add: local_occurrence_def today)
  then obtain c where c: "find (\<lambda>c. now \<le> c) (map (\<lambda>day. local_occurrence z day h mi)
      (filter (\<lambda>day. weekday day \<in> set (sc_weekdays s)) ?days)) = Some c"
    using find_days_exists [of "today + k" ?days "\<lambda>day. weekday day \<in> set (sc_weekdays s)" "\<lambda>c. now \<le> c"
      "\<lambda>day. local_occurrence z day h mi"] k wd days(1) by auto
  from find_days [OF days(2) c] obtain d where "d \<in> set ?days" "weekday d \<in> set (sc_weekdays s)" "now \<le> local_occurrence z d h mi"
    "c = local_occurrence z d h mi" "\<forall>e \<in> set ?days. weekday e \<in> set (sc_weekdays s) \<longrightarrow> now \<le> local_occurrence z e h mi \<longrightarrow> e = d \<or> d < e"
    by blast
  then show ?thesis using c days(1) unfolding r by (intro exI [of _ d]) (auto simp: not_le [symmetric])
qed

lemma weekly_latest_found:
  assumes s: "calendar_schedule s" "sc_type s = Weekly" and z: "regular_zone z"
    and tod: "0 \<le> time_of_day h mi" "time_of_day h mi < day_us"
    and today: "today = date_of (to_local z now)"
  shows "\<exists>d. find (\<lambda>c. c \<le> now) (map (\<lambda>day. local_occurrence z day h mi)
        (filter (\<lambda>day. weekday day \<in> set (sc_weekdays s)) (map (\<lambda>offset. today - offset) [0..7]))) =
      Some (local_occurrence z d h mi) \<and> runs_on s d \<and> local_occurrence z d h mi \<le> now \<and>
      (\<forall>e. d < e \<longrightarrow> e \<le> today \<longrightarrow> runs_on s e \<longrightarrow> now < local_occurrence z e h mi)"
proof -
  let ?days = "map (\<lambda>offset. today - offset) [0..7]"
  have r: "runs_on s day \<longleftrightarrow> weekday day \<in> set (sc_weekdays s)" for day using s by (simp add: runs_on_def)
  note days = days_back [of today 7]
  obtain wd where wd: "wd \<in> set (sc_weekdays s)" "0 \<le> wd" "wd \<le> 6"
    using s by (cases "sc_weekdays s") (auto simp: calendar_schedule_def)
  then obtain k where k: "k \<in> {1..7}" "weekday (today - k) = wd" using weekday_within_back by blast
  have "local_occurrence z (today - k) h mi \<le> now"
    using zoneinfo.earlier_day [OF z tod, of "today - k" now] k by (simp add: local_occurrence_def today)
  then obtain c where c: "find (\<lambda>c. c \<le> now) (map (\<lambda>day. local_occurrence z day h mi)
      (filter (\<lambda>day. weekday day \<in> set (sc_weekdays s)) ?days)) = Some c"
    using find_days_exists [of "today - k" ?days "\<lambda>day. weekday day \<in> set (sc_weekdays s)" "\<lambda>c. c \<le> now"
      "\<lambda>day. local_occurrence z day h mi"] k wd days(1) by auto
  from find_days [OF days(2) c] obtain d where "d \<in> set ?days" "weekday d \<in> set (sc_weekdays s)" "local_occurrence z d h mi \<le> now"
    "c = local_occurrence z d h mi" "\<forall>e \<in> set ?days. weekday e \<in> set (sc_weekdays s) \<longrightarrow> local_occurrence z e h mi \<le> now \<longrightarrow> e = d \<or> e < d"
    by blast
  then show ?thesis using c days(1) unfolding r by (intro exI [of _ d]) (auto simp: not_le [symmetric])
qed

lemma daily_next_found:
  assumes s: "sc_type s = Daily" and z: "regular_zone z"
    and tod: "0 \<le> time_of_day h mi" "time_of_day h mi < day_us"
    and today: "today = date_of (to_local z now)"
  shows "\<exists>d. find (\<lambda>c. now \<le> c) (map (\<lambda>day. local_occurrence z day h mi) (map (\<lambda>offset. today + offset) [0..1])) =
      Some (local_occurrence z d h mi) \<and> runs_on s d \<and> now \<le> local_occurrence z d h mi \<and>
      (\<forall>e. today \<le> e \<longrightarrow> e < d \<longrightarrow> runs_on s e \<longrightarrow> local_occurrence z e h mi < now)"
proof -
  have "now \<le> local_occurrence z (today + 1) h mi"
    using zoneinfo.later_day [OF z tod, of now "today + 1"] by (simp add: local_occurrence_def today)
  moreover have "[0..1] = [0, 1::int]" by (simp add: upto.simps)
  moreover have "e = today" if "today \<le> e" "e < today + 1" for e using that by simp
  ultimately show ?thesis using s
    by (cases "now \<le> local_occurrence z today h mi") (fastforce simp: runs_on_def)+
qed

section \<open>Refinement of the abstract schedule\<close>

definition least_from :: "moment \<Rightarrow> moment set \<Rightarrow> moment \<Rightarrow> bool" where
  "least_from now M t = (t \<in> M \<and> now \<le> t \<and> (\<forall>t' \<in> M. now \<le> t' \<longrightarrow> t \<le> t'))"

definition greatest_until :: "moment \<Rightarrow> moment set \<Rightarrow> moment \<Rightarrow> bool" where
  "greatest_until now M t = (t \<in> M \<and> t \<le> now \<and> (\<forall>t' \<in> M. t' \<le> now \<longrightarrow> t' \<le> t))"

lemma forward_least:
  assumes z: "regular_zone z" and tod: "0 \<le> time_of_day h mi" "time_of_day h mi < day_us" and rt: "sc_run_time s = Some (h, mi)"
    and d: "runs_on s d" "now \<le> local_occurrence z d h mi"
    and skipped: "\<forall>e. date_of (to_local z now) \<le> e \<longrightarrow> e < d \<longrightarrow> runs_on s e \<longrightarrow> local_occurrence z e h mi < now"
  shows "least_from now (occurrences z s) (local_occurrence z d h mi)"
  using zoneinfo.forward_search [OF z tod, of now d "runs_on s"] d skipped rt
  by (auto simp: least_from_def occurrences_def local_occurrence_def)

lemma backward_greatest:
  assumes z: "regular_zone z" and tod: "0 \<le> time_of_day h mi" "time_of_day h mi < day_us" and rt: "sc_run_time s = Some (h, mi)"
    and d: "runs_on s d" "local_occurrence z d h mi \<le> now"
    and skipped: "\<forall>e. d < e \<longrightarrow> e \<le> date_of (to_local z now) \<longrightarrow> runs_on s e \<longrightarrow> now < local_occurrence z e h mi"
  shows "greatest_until now (occurrences z s) (local_occurrence z d h mi)"
  using zoneinfo.backward_search [OF z tod, of d now "runs_on s"] d skipped rt
  by (auto simp: greatest_until_def occurrences_def local_occurrence_def)

text \<open>(C10) The next occurrence of a well-formed daily, weekly or monthly schedule in a regular time zone: the bounded
  search (two days, eight days, fourteen months) always returns, and what it returns is the least moment
  of the schedule that is not before \<open>now\<close>, changes of the UTC offset included.\<close>

theorem next_occurrence_refines:
  assumes "calendar_schedule s" and "zone_for tz (sc_timezone s) = Inr z" and "regular_zone z"
  shows "\<exists>t. next_occurrence tz s now = Inr (Some t) \<and> least_from now (occurrences z s) t"
proof -
  obtain h mi where rt: "sc_run_time s = Some (h, mi)" and tod: "0 \<le> time_of_day h mi" "time_of_day h mi < day_us"
    using run_time_of [OF assms(1)] .
  note least = forward_least [OF assms(3) tod rt]
  have "sc_type s \<in> {Daily, Weekly, Monthly}"
    using assms(1) by (auto simp: calendar_schedule_def split: schedule_type.splits)
  then consider "sc_type s = Daily" | "sc_type s = Weekly" | "sc_type s = Monthly" by blast
  then show ?thesis
  proof cases
    case 1
    then show ?thesis
      using daily_next_found [OF 1 assms(3) tod refl, of now] least rt assms(2) by (auto simp: next_occurrence_def Let_def)
  next
    case 2
    then show ?thesis
      using weekly_next_found [OF assms(1) 2 assms(3) tod refl, of now] least rt assms(2) by (auto simp: next_occurrence_def Let_def)
  next
    case 3
    then show ?thesis
      using monthly_next_found [OF assms(1) 3 assms(3) tod refl, of now] least rt assms(2) month_present [OF assms(1) 3]
      by (auto simp: next_occurrence_def Let_def)
  qed
qed

text \<open>The latest occurrence of a weekly or monthly schedule: the bounded search backwards always returns, and what it
  returns is the greatest moment of the schedule that is not after \<open>now\<close>.\<close>

theorem latest_occurrence_refines:
  assumes "calendar_schedule s" and "sc_type s \<noteq> Daily" and "zone_for tz (sc_timezone s) = Inr z" and "regular_zone z"
  shows "\<exists>t. latest_occurrence tz s now = Inr (Some t) \<and> greatest_until now (occurrences z s) t"
proof -
  obtain h mi where rt: "sc_run_time s = Some (h, mi)" and tod: "0 \<le> time_of_day h mi" "time_of_day h mi < day_us"
    using run_time_of [OF assms(1)] .
  note greatest = backward_greatest [OF assms(4) tod rt]
  have "sc_type s \<in> {Weekly, Monthly}"
    using assms(1,2) by (auto simp: calendar_schedule_def split: schedule_type.splits)
  then consider "sc_type s = Weekly" | "sc_type s = Monthly" by blast
  then show ?thesis
  proof cases
    case 1
    moreover have "sc_weekdays s \<noteq> []" using assms(1) 1 by (auto simp: calendar_schedule_def)
    ultimately show ?thesis
      using weekly_latest_found [OF assms(1) 1 assms(4) tod refl, of now] greatest rt assms(3)
      by (auto simp: latest_occurrence_def Let_def)
  next
    case 2
    then show ?thesis
      using monthly_latest_found [OF assms(1) 2 assms(4) tod refl, of now] greatest rt assms(3) month_present [OF assms(1) 2]
      by (auto simp: latest_occurrence_def Let_def)
  qed
qed

section \<open>Daily and interval schedules\<close>

text \<open>The latest daily occurrence is exact when the wall clock did not change between yesterday's and today's run
  time; the code subtracts 24 hours of elapsed time, not a calendar day.\<close>

lemma daily_latest_exact:
  assumes "calendar_schedule s" and "sc_type s = Daily" and "zone_for tz (sc_timezone s) = Inr z" and "regular_zone z"
    and rt: "sc_run_time s = Some (h, mi)" and today: "today = date_of (to_local z now)"
    and steady: "local_occurrence z (today - 1) h mi = local_occurrence z today h mi - day_us"
  shows "\<exists>t. latest_occurrence tz s now = Inr (Some t) \<and> greatest_until now (occurrences z s) t"
proof -
  have tod: "0 \<le> time_of_day h mi" "time_of_day h mi < day_us" using run_time_of [OF assms(1)] rt by (metis option.inject prod.inject)+
  have r: "runs_on s day" for day using assms(2) by (simp add: runs_on_def)
  let ?d = "if local_occurrence z today h mi > now then today - 1 else today"
  have one: "\<And>e. today - 1 < e \<Longrightarrow> e \<le> today \<Longrightarrow> e = today" by simp
  have "local_occurrence z (today - 1) h mi \<le> now"
    using zoneinfo.earlier_day [OF assms(4) tod, of "today - 1" now] by (simp add: today local_occurrence_def)
  then have "local_occurrence z ?d h mi \<le> now" by (simp split: if_split)
  moreover have "\<forall>e. ?d < e \<longrightarrow> e \<le> date_of (to_local z now) \<longrightarrow> runs_on s e \<longrightarrow> now < local_occurrence z e h mi"
  proof (intro allI impI)
    fix e
    assume e: "?d < e" "e \<le> date_of (to_local z now)"
    then have "now < local_occurrence z today h mi" "e = today" using one [of e] by (auto simp: today split: if_splits)
    then show "now < local_occurrence z e h mi" by simp
  qed
  ultimately have "greatest_until now (occurrences z s) (local_occurrence z ?d h mi)"
    by (rule backward_greatest [OF assms(4) tod rt r])
  then show ?thesis using assms(2,3) rt steady by (auto simp: latest_occurrence_def Let_def today split: if_splits)
qed

definition interval_moments :: "moment \<Rightarrow> int \<Rightarrow> moment set" where
  "interval_moments anchor seconds = {anchor + int k * (seconds * sec) | k. True}"

text \<open>An interval schedule: its latest occurrence is the greatest, its next occurrence the least moment of the
  arithmetic progression from the anchor; before the anchor there is no latest one.\<close>

theorem interval_occurrences_refine:
  assumes "sc_type s = Interval" and "sc_interval_anchor_at s = Some anchor" and "sc_interval_seconds s = Some seconds"
    and "60 \<le> seconds" and "zone_for tz (sc_timezone s) = Inr z"
  shows "(\<exists>t. next_occurrence tz s now = Inr (Some t) \<and> least_from now (interval_moments anchor seconds) t) \<and>
    (if now < anchor then latest_occurrence tz s now = Inr None
     else (\<exists>t. latest_occurrence tz s now = Inr (Some t) \<and> greatest_until now (interval_moments anchor seconds) t))"
proof -
  define p where "p = seconds * sec"
  have p: "0 < p" using assms(4) by (simp add: p_def sec_def)
  define q where "q = (now - anchor) div p"
  have b: "p * q \<le> now - anchor" "now - anchor < p * q + p"
    using div_bounds [OF p, of "now - anchor"] by (auto simp: q_def)
  have pos: "0 \<le> q" if "anchor \<le> now" using that p by (simp add: q_def pos_imp_zdiv_nonneg_iff)
  have M: "t \<in> interval_moments anchor seconds \<longleftrightarrow> (\<exists>k \<ge> 0. t = anchor + k * p)" for t
    unfolding interval_moments_def p_def by simp (metis nonneg_int_cases of_nat_0_le_iff)
  have reach: "i \<le> k" if "anchor + (i - 1) * p < anchor + k * p" for i k
    using that p by (simp add: mult_less_cancel_right)
  have latest: "interval_latest s now = (if now < anchor then None else Some (anchor + q * p))"
    using assms(2-4) by (simp add: interval_latest_def min_interval_seconds_def q_def p_def)
  have nxt: "interval_next s now = Some (if now \<le> anchor then anchor
      else if anchor + q * p < now then anchor + (q + 1) * p else anchor + q * p)"
    using assms(2-4) by (simp add: interval_next_def min_interval_seconds_def q_def p_def Let_def algebra_simps)
  have "greatest_until now (interval_moments anchor seconds) (anchor + q * p)" if "anchor \<le> now"
  proof -
    have "k * p \<le> q * p" if "anchor + k * p \<le> now" for k
      using reach [of k q] that b p by (intro mult_right_mono) (auto simp: algebra_simps)
    then show ?thesis using pos [OF that] b by (auto simp: greatest_until_def M algebra_simps)
  qed
  then have "if now < anchor then latest_occurrence tz s now = Inr None
      else (\<exists>t. latest_occurrence tz s now = Inr (Some t) \<and> greatest_until now (interval_moments anchor seconds) t)"
    using assms(1,5) latest by (simp add: latest_occurrence_def)
  moreover
  have "least_from now (interval_moments anchor seconds) (the (interval_next s now))"
  proof (cases "now \<le> anchor")
    case True
    then show ?thesis using p by (auto simp: nxt least_from_def M intro: exI [of _ 0])
  next
    case False
    define i where "i = (if anchor + q * p < now then q + 1 else q)"
    have i: "0 \<le> i" "now \<le> anchor + i * p" "anchor + (i - 1) * p < now"
      using pos False b p by (auto simp: i_def algebra_simps)
    have "i * p \<le> k * p" if "now \<le> anchor + k * p" for k
      using reach [of i k] less_le_trans [OF i(3) that] p by (intro mult_right_mono) auto
    then show ?thesis using False i by (auto simp: nxt least_from_def M i_def)
  qed
  then have "\<exists>t. next_occurrence tz s now = Inr (Some t) \<and> least_from now (interval_moments anchor seconds) t"
    using assms(1,5) nxt by (simp add: next_occurrence_def)
  ultimately show ?thesis by blast
qed

section \<open>Examples\<close>

text \<open>Amsterdam in 2026: an hour ahead of UTC, two hours from 29 March to 25 October.\<close>

definition amsterdam :: zone where
  "amsterdam = \<lparr>z_first = 3600 * sec,
     z_changes = [(at_time (3600 * sec) (ordinal 2026 3 29), 7200 * sec), (at_time (3600 * sec) (ordinal 2026 10 25), 3600 * sec)]\<rparr>"

definition demo_tz :: tzdb where
  "demo_tz name = (if name = ''Europe/Amsterdam'' then Zone amsterdam
     else if name = ''UTC'' then Zone \<lparr>z_first = 0, z_changes = []\<rparr> else Zone_Not_Found)"

definition demo_schedule :: schedule where
  "demo_schedule = \<lparr>sc_id = 1, sc_name = ''Nightly'', sc_module_id = ''alerts'', sc_action_id = ''alerts.scan'',
     sc_target_mode = ''snapshot'', sc_targets = PDict [(''type'', PStr ''none'')], sc_target_state = ''valid'', sc_target_state_detail = [],
     sc_parameters = PDict [], sc_type = Daily, sc_timezone = ''Europe/Amsterdam'', sc_run_at = None, sc_run_time = Some (9, 0),
     sc_weekdays = [], sc_day_of_month = None, sc_month_week = None, sc_month_weekday = None, sc_interval_seconds = None,
     sc_interval_anchor_at = None, sc_owner_type = Owner_User, sc_owner_module = [], sc_owner_key = [], sc_enabled = True,
     sc_paused_reason = [], sc_missed_policy = Run_On_Recovery, sc_missed_grace_minutes = 0, sc_concurrency_policy = Overlap_Skip,
     sc_retry_count = 0, sc_retry_delay_seconds = 60, sc_last_due_key = None, sc_last_run_at = None, sc_created_by = Some 1,
     sc_created_by_username = ''jo'', sc_updated_at = 0\<rparr>"

definition last_friday :: schedule where
  "last_friday = demo_schedule\<lparr>sc_type := Monthly, sc_month_week := Some (-1), sc_month_weekday := Some 4\<rparr>"

definition every_ten_minutes :: schedule where
  "every_ten_minutes = demo_schedule\<lparr>sc_type := Interval, sc_timezone := ''UTC'', sc_interval_seconds := Some 600, sc_interval_anchor_at := Some 0\<rparr>"

lemma amsterdam_regular: "regular_zone amsterdam"
  by code_simp

lemma amsterdam_zone: "zone_for demo_tz ''Europe/Amsterdam'' = Inr amsterdam"
  by (simp add: zone_for_def demo_tz_def)

theorem next_occurrence_refines_witness:
  "\<exists>t. next_occurrence demo_tz last_friday (at_time 0 (ordinal 2026 3 1)) = Inr (Some t) \<and>
     least_from (at_time 0 (ordinal 2026 3 1)) (occurrences amsterdam last_friday) t \<and> t = at_time (8 * 3600 * sec) (ordinal 2026 3 27)"
proof -
  have "calendar_schedule last_friday" by code_simp
  moreover have "sc_timezone last_friday = ''Europe/Amsterdam''" by (simp add: last_friday_def demo_schedule_def)
  moreover have "next_occurrence demo_tz last_friday (at_time 0 (ordinal 2026 3 1)) = Inr (Some (at_time (8 * 3600 * sec) (ordinal 2026 3 27)))"
    by code_simp
  ultimately show ?thesis
    using next_occurrence_refines [of last_friday demo_tz amsterdam "at_time 0 (ordinal 2026 3 1)"] amsterdam_zone amsterdam_regular by simp
qed

theorem latest_occurrence_refines_witness:
  "\<exists>t. latest_occurrence demo_tz last_friday (at_time 0 (ordinal 2026 4 1)) = Inr (Some t) \<and>
     greatest_until (at_time 0 (ordinal 2026 4 1)) (occurrences amsterdam last_friday) t"
proof -
  have "calendar_schedule last_friday" "sc_type last_friday \<noteq> Daily" by code_simp+
  moreover have "sc_timezone last_friday = ''Europe/Amsterdam''" by (simp add: last_friday_def demo_schedule_def)
  ultimately show ?thesis
    using latest_occurrence_refines [of last_friday demo_tz amsterdam "at_time 0 (ordinal 2026 4 1)"] amsterdam_zone amsterdam_regular by simp
qed

theorem interval_occurrences_refine_witness:
  "\<exists>t. latest_occurrence demo_tz every_ten_minutes (1000 * sec) = Inr (Some t) \<and> greatest_until (1000 * sec) (interval_moments 0 600) t"
  using interval_occurrences_refine [of every_ten_minutes 0 600 demo_tz "\<lparr>z_first = 0, z_changes = []\<rparr>" "1000 * sec"]
  by (simp add: every_ten_minutes_def demo_schedule_def zone_for_def demo_tz_def sec_def)

lemma ten_is_no_occurrence: "at_time (8 * 3600 * sec) (ordinal 2026 10 24) \<notin> occurrences amsterdam demo_schedule"
proof
  assume "at_time (8 * 3600 * sec) (ordinal 2026 10 24) \<in> occurrences amsterdam demo_schedule"
  then obtain d where d: "at_time (8 * 3600 * sec) (ordinal 2026 10 24) = to_utc amsterdam (at_time (9 * 3600 * sec) d)"
    by (auto simp: occurrences_def demo_schedule_def local_occurrence_def time_of_day_def)
  define off where "off = wall_offset (z_first amsterdam) (z_changes amsterdam) (at_time (9 * 3600 * sec) d)"
  have "off \<in> {3600 * sec, 7200 * sec}"
    using wall_offset_in [of "z_first amsterdam" "z_changes amsterdam"] by (auto simp: off_def offsets_def amsterdam_def)
  moreover have "off = 3600 * sec + (d - ordinal 2026 10 24) * day_us"
    using d by (simp add: to_utc_def off_def at_time_def algebra_simps)
  ultimately have "d = ordinal 2026 10 24" "off = 3600 * sec" by (auto simp: day_us_def sec_def; presburger)+
  moreover have "wall_offset (z_first amsterdam) (z_changes amsterdam) (at_time (9 * 3600 * sec) (ordinal 2026 10 24)) = 7200 * sec"
    by code_simp
  ultimately show False by (simp add: off_def sec_def)
qed

text \<open>The daily occurrence of yesterday is looked up 24 hours before today's run time. On the day the clock goes back
  a daily 09:00 schedule in Amsterdam is given, at half past midnight, an occurrence at 10:00 of the day before:
  no moment of the schedule, and another one than the 09:00 run the day before was dispatched for.\<close>

theorem daily_latest_after_clock_change:
  "latest_occurrence demo_tz demo_schedule (at_time (12 * 3600 * sec) (ordinal 2026 10 24)) = Inr (Some (at_time (7 * 3600 * sec) (ordinal 2026 10 24))) \<and>
   latest_occurrence demo_tz demo_schedule (at_time (22 * 3600 * sec + 1800 * sec) (ordinal 2026 10 24)) = Inr (Some (at_time (8 * 3600 * sec) (ordinal 2026 10 24))) \<and>
   at_time (8 * 3600 * sec) (ordinal 2026 10 24) \<notin> occurrences amsterdam demo_schedule"
  by (intro conjI ten_is_no_occurrence) code_simp+

end
