(* ===== verification/Schedule_Payload.thy ===== *)
theory Schedule_Payload
  imports Schedule_Times
begin

text \<open>
  The scheduler's action registry and the payload checks of a schedule (\<open>scheduler.py\<close>): registration of
  actions with their permission entries, \<open>validate_schedule_payload\<close>, and the two rules that keep a monthly
  schedule on one of its two modes. A handler is identified by a number; \<open>None\<close> stands for an object that
  is not callable. The signed manifests are read by a function of the environment.
\<close>

section \<open>Registered actions\<close>

record scheduled_action =
  ac_id :: string
  ac_module_id :: string
  ac_label :: string
  ac_handler :: nat
  ac_description :: string
  ac_target_types :: "string list"
  ac_permission :: "string option"
  ac_dangerous :: bool
  ac_timeout_seconds :: int
  ac_permission_any :: "string list"
  ac_unattended :: bool

type_synonym action_registry = "(string, scheduled_action) dict"

definition permission_entries :: "scheduled_action \<Rightarrow> string list" where
  "permission_entries a = (if ac_permission_any a \<noteq> [] then ac_permission_any a
     else (case ac_permission a of None \<Rightarrow> [] | Some p \<Rightarrow> if p = [] then [] else [p]))"

definition tactical_permission_prefix :: string where "tactical_permission_prefix = ''tactical:''"

definition is_tactical_permission_entry :: "string \<Rightarrow> bool" where
  "is_tactical_permission_entry e = startswith e tactical_permission_prefix"

definition flag_char :: "char \<Rightarrow> bool" where
  "flag_char c = (is_lower_ascii c \<or> is_digit c \<or> c = CHR ''_'')"

definition tactical_entry_re :: "string \<Rightarrow> bool" where
  "tactical_entry_re e = (startswith e ''can_'' \<and> length e > 4 \<and> list_all flag_char (drop 4 e))"

fun check_entries :: "pyval list \<Rightarrow> sched_exn + string list" where
  "check_entries [] = Inr []"
| "check_entries (v # vs) = (case v of
     PStr e \<Rightarrow>
       if strip e = [] then Inl (SchedulerError ''Scheduled action permission entries must be non-empty text.'')
       else if is_tactical_permission_entry e \<and> \<not> tactical_entry_re (drop (length tactical_permission_prefix) e)
       then Inl (SchedulerError (''Scheduled action permission '' @ repr_str e @
              '' must be tactical: followed by a Tactical role flag such as can_manage_winupdates.''))
       else rbind (check_entries vs) (\<lambda>es. Inr (e # es))
   | _ \<Rightarrow> Inl (SchedulerError ''Scheduled action permission entries must be non-empty text.''))"

definition normalize_permission :: "pyval \<Rightarrow> sched_exn + (string option \<times> string list)" where
  "normalize_permission p =
     rbind (case p of
         PNone \<Rightarrow> Inr ([], False)
       | PStr s \<Rightarrow> Inr (if s = [] then [] else [p], False)
       | PList es \<Rightarrow>
           if es = [] then Inl (SchedulerError ''Scheduled action permission list may not be empty.'')
           else if length es > 8 then Inl (SchedulerError ''Scheduled action permission list has more than 8 entries.'')
           else Inr (es, True)
       | _ \<Rightarrow> Inl (SchedulerError ''Scheduled action permission must be text, a list of text entries or None.''))
     (\<lambda>(entries, many). rbind (check_entries entries) (\<lambda>es.
        if \<not> distinct es then Inl (SchedulerError ''Scheduled action permission list repeats an entry.'')
        else if many \<and> length es > 1 then Inr (Some (join '' | '' es), es)
        else Inr ((case es of [] \<Rightarrow> None | e # _ \<Rightarrow> Some e), [])))"

text \<open>What \<open>register_scheduled_action\<close> is called with. \<open>declared\<close> reads the \<open>system_actions\<close> list of the signed manifest of
  the module that declares the action; a failed read raises.\<close>

record action_args =
  aa_id :: pyval
  aa_module_id :: pyval
  aa_label :: pyval
  aa_handler :: "nat option"
  aa_description :: pyval
  aa_target_types :: "pyval list"
  aa_permission :: pyval
  aa_dangerous :: pyval
  aa_timeout_seconds :: pyval
  aa_unattended :: pyval

type_synonym manifest_reader = "string \<Rightarrow> string \<Rightarrow> string list option"

definition check_timeout :: "pyval \<Rightarrow> sched_exn + int" where
  "check_timeout v = (case py_int v of
     Inl OverflowError \<Rightarrow> Inl (Sched_Uncaught OverflowError)
   | Inl _ \<Rightarrow> Inl (SchedulerError ''Scheduled action timeout_seconds must be an integer.'')
   | Inr t \<Rightarrow> if t < 60 \<or> t > 7 * 24 * 60 * 60
             then Inl (SchedulerError ''Scheduled action timeout_seconds must be between 60 and 604800.'') else Inr t)"

definition check_unattended :: "manifest_reader \<Rightarrow> string \<Rightarrow> string \<Rightarrow> pyval \<Rightarrow> sched_exn + bool" where
  "check_unattended declared md a v = (case v of
     PBool False \<Rightarrow> Inr False
   | PBool True \<Rightarrow> (case declared md a of
       None \<Rightarrow> Inl (SchedulerError ''Core could not read the module's signed manifest, so the action cannot be marked unattended.'')
     | Some ids \<Rightarrow> if a \<in> set ids then Inr True
         else Inl (SchedulerError ''An unattended scheduled action's id must be listed in its module's signed manifest under system_actions.''))
   | _ \<Rightarrow> Inl (SchedulerError ''Scheduled action unattended must be true or false.''))"

definition target_types_of :: "pyval list \<Rightarrow> string list" where
  "target_types_of vs = (let ts = filter (\<lambda>t. t \<noteq> []) (map (\<lambda>v. strip (py_str v)) vs) in if ts = [] then [''none''] else ts)"

definition new_action :: "action_args \<Rightarrow> int \<Rightarrow> string option \<times> string list \<Rightarrow> bool \<Rightarrow> scheduled_action" where
  "new_action g t p un = (let a = clean_text (aa_id g) in
     \<lparr>ac_id = a, ac_module_id = clean_text (aa_module_id g), ac_label = py_str (py_or (aa_label g) (PStr a)),
      ac_handler = the (aa_handler g), ac_description = text_or_empty (aa_description g),
      ac_target_types = target_types_of (aa_target_types g), ac_permission = fst p, ac_dangerous = truthy (aa_dangerous g),
      ac_timeout_seconds = t, ac_permission_any = snd p, ac_unattended = un\<rparr>)"

definition file_action :: "scheduled_action \<Rightarrow> action_registry \<Rightarrow> sched_exn + (scheduled_action \<times> action_registry)" where
  "file_action act acts = (case dget acts (ac_id act) of
     Some old \<Rightarrow> if old \<noteq> act then Inl (SchedulerError (''Scheduled action '' @ repr_str (ac_id act) @ '' is already registered.''))
                 else Inr (act, dset (ac_id act) act acts)
   | None \<Rightarrow> Inr (act, dset (ac_id act) act acts))"

definition register_scheduled_action ::
    "manifest_reader \<Rightarrow> action_args \<Rightarrow> action_registry \<Rightarrow> sched_exn + (scheduled_action \<times> action_registry)" where
  "register_scheduled_action declared g acts =
     (let a = clean_text (aa_id g); md = clean_text (aa_module_id g) in
      rcheck (a = [] \<or> CHR ''.'' \<notin> set a) (SchedulerError ''Scheduled action id must be a namespaced value such as module.action.'')
      (rcheck (md = []) (SchedulerError ''Scheduled action module_id is required.'')
      (rcheck (aa_handler g = None) (SchedulerError ''Scheduled action handler must be callable.'')
      (rbind (check_timeout (aa_timeout_seconds g)) (\<lambda>t.
       rbind (normalize_permission (aa_permission g)) (\<lambda>p.
       rbind (check_unattended declared md a (aa_unattended g)) (\<lambda>un.
         file_action (new_action g t p un) acts)))))))"

definition get_scheduled_action :: "action_registry \<Rightarrow> string \<Rightarrow> sched_exn + scheduled_action" where
  "get_scheduled_action acts a = (case dget acts a of
     None \<Rightarrow> Inl (SchedulerError (''Scheduled action '' @ repr_str a @ '' is not registered in this runtime.''))
   | Some act \<Rightarrow> Inr act)"

text \<open>\<open>effective_retry_delay_seconds\<close> and the worker's time limits.\<close>

definition effective_retry_delay_seconds :: "int \<Rightarrow> int" where
  "effective_retry_delay_seconds v = (if v > 0 then v else 60)"

definition schedule_run_time_limits :: "int \<Rightarrow> int \<times> int" where
  "schedule_run_time_limits timeout_seconds =
     (let hard = min 604800 (max 1 timeout_seconds) + 300 in (hard, hard - 60))"

section \<open>The payload of a schedule\<close>

text \<open>One check per key: what it does to the value under the key, and the value a full payload without the key is checked with.\<close>

type_synonym payload_check = "string \<times> pyval option \<times> (pyval \<Rightarrow> sched_exn + pyval)"

fun apply_check :: "bool \<Rightarrow> payload_check \<Rightarrow> pydict \<Rightarrow> sched_exn + pydict" where
  "apply_check partial (k, required, f) out = (case dget out k of
     Some v \<Rightarrow> rbind (f v) (\<lambda>v'. Inr (dset k v' out))
   | None \<Rightarrow> (case required of
       Some v \<Rightarrow> if partial then Inr out else rbind (f v) (\<lambda>v'. Inr (dset k v' out))
     | None \<Rightarrow> Inr out))"

fun apply_checks :: "bool \<Rightarrow> payload_check list \<Rightarrow> pydict \<Rightarrow> sched_exn + pydict" where
  "apply_checks partial [] out = Inr out"
| "apply_checks partial (c # cs) out = rbind (apply_check partial c out) (apply_checks partial cs)"

definition check_name :: "pyval \<Rightarrow> sched_exn + pyval" where
  "check_name v = (let name = strip (py_str v) in
     if name = [] then Inl (SchedulerError ''Schedule name is required.'') else Inr (PStr name))"

definition check_action :: "action_registry \<Rightarrow> pyval \<Rightarrow> sched_exn + pyval" where
  "check_action acts v = rbind (get_scheduled_action acts (strip (py_str v))) (\<lambda>act. Inr (PStr (ac_id act)))"

definition check_timezone :: "tzdb \<Rightarrow> pyval \<Rightarrow> sched_exn + pyval" where
  "check_timezone tz v = (let name = strip (py_str (py_or v (PStr ''UTC''))) in
     rbind (zone_for tz name) (\<lambda>_. Inr (PStr name)))"

definition schedule_types :: "string list" where
  "schedule_types = [''once'', ''daily'', ''weekly'', ''monthly'', ''interval'']"

definition check_schedule_type :: "pyval \<Rightarrow> sched_exn + pyval" where
  "check_schedule_type v = (let t = py_str (py_or v (PStr ''once'')) in
     if t \<notin> set schedule_types then Inl (SchedulerError ''schedule_type must be once, daily, weekly, monthly, or interval.'')
     else Inr (PStr t))"

definition check_choice :: "string list \<Rightarrow> string \<Rightarrow> pyval \<Rightarrow> sched_exn + pyval" where
  "check_choice choices message v = (if v \<in> set (map PStr choices) then Inr v else Inl (SchedulerError message))"

definition check_object :: "string \<Rightarrow> pyval \<Rightarrow> sched_exn + pyval" where
  "check_object key v = (if is_dict v then Inr v else Inl (SchedulerError (key @ '' must be an object.'')))"

definition check_enabled :: "pyval \<Rightarrow> sched_exn + pyval" where
  "check_enabled v = (if is_bool v then Inr v else Inl (SchedulerError ''enabled must be true or false.''))"

text \<open>\<open>try: int(value)\<close> with \<open>except (TypeError, ValueError)\<close>.\<close>

definition int_or :: "string \<Rightarrow> pyval \<Rightarrow> sched_exn + int" where
  "int_or message v = (case py_int v of
     Inl OverflowError \<Rightarrow> Inl (Sched_Uncaught OverflowError)
   | Inl _ \<Rightarrow> Inl (SchedulerError message)
   | Inr i \<Rightarrow> Inr i)"

definition check_bounded :: "string \<Rightarrow> int \<Rightarrow> int \<Rightarrow> pyval \<Rightarrow> sched_exn + pyval" where
  "check_bounded key lo hi v = rbind (int_or (key @ '' must be an integer.'') v) (\<lambda>i.
     if i < lo \<or> i > hi then Inl (SchedulerError (key @ '' must be between '' @ show_int lo @ '' and '' @ show_int hi @ ''.''))
     else Inr (PInt i))"

definition check_interval :: "pyval \<Rightarrow> sched_exn + pyval" where
  "check_interval v = (if v = PNone \<or> v = PStr [] then Inr v
     else if is_bool v then Inl (SchedulerError ''interval_seconds must be an integer >= 60.'')
     else rbind (int_or ''interval_seconds must be an integer >= 60.'' v) (\<lambda>i.
       if i < min_interval_seconds then Inl (SchedulerError ''interval_seconds must be at least 60.'') else Inr (PInt i)))"

text \<open>Python's booleans are integers, so \<open>true\<close> passes for weekday 1; equal numbers are one element of a set, the first kept.\<close>

fun int_value :: "pyval \<Rightarrow> int option" where
  "int_value (PInt i) = Some i"
| "int_value (PBool b) = Some (if b then 1 else 0)"
| "int_value _ = None"

fun first_of_each :: "int list \<Rightarrow> pyval list \<Rightarrow> pyval list" where
  "first_of_each seen [] = []"
| "first_of_each seen (v # vs) = (let i = the (int_value v) in
     if i \<in> set seen then first_of_each seen vs else v # first_of_each (i # seen) vs)"

definition weekday_value :: "pyval \<Rightarrow> bool" where
  "weekday_value v = (case int_value v of None \<Rightarrow> False | Some i \<Rightarrow> 0 \<le> i \<and> i \<le> 6)"

definition check_weekdays :: "pyval \<Rightarrow> sched_exn + pyval" where
  "check_weekdays v = (case v of
     PList vs \<Rightarrow> if list_all weekday_value vs then Inr (PList (sort_key (\<lambda>v. the (int_value v)) (first_of_each [] vs)))
                 else Inl (SchedulerError ''weekdays must be an array of integers 0-6.'')
   | _ \<Rightarrow> Inl (SchedulerError ''weekdays must be an array of integers 0-6.''))"

definition check_day_of_month :: "pyval \<Rightarrow> sched_exn + pyval" where
  "check_day_of_month v = (if v = PNone \<or> v = PStr [] then Inr v
     else rbind (int_or ''day_of_month must be an integer 1-31.'' v) (\<lambda>i.
       if i < 1 \<or> i > 31 then Inl (SchedulerError ''day_of_month must be between 1 and 31.'') else Inr (PInt i)))"

definition check_month_week :: "pyval \<Rightarrow> sched_exn + pyval" where
  "check_month_week v = (if v = PNone \<or> v = PStr [] then Inr PNone
     else if v \<in> set (map PInt [1, 2, 3, 4, -1]) then Inr v
     else Inl (SchedulerError ''month_week must be 1, 2, 3, 4 (the first to the fourth) or -1 (the last).''))"

definition check_month_weekday :: "pyval \<Rightarrow> sched_exn + pyval" where
  "check_month_weekday v = (if v = PNone \<or> v = PStr [] then Inr PNone
     else (case v of
        PInt i \<Rightarrow> if i < 0 \<or> i > 6 then Inl (SchedulerError ''month_weekday must be an integer 0-6 (0 is Monday, 6 is Sunday).'') else Inr v
      | _ \<Rightarrow> Inl (SchedulerError ''month_weekday must be an integer 0-6 (0 is Monday, 6 is Sunday).'')))"

definition pair_mismatch :: "pydict \<Rightarrow> bool" where
  "pair_mismatch out = (has_key out ''month_week'' \<and> has_key out ''month_weekday'' \<and>
     (dget out ''month_week'' = Some PNone) \<noteq> (dget out ''month_weekday'' = Some PNone))"

definition head_checks :: "action_registry \<Rightarrow> payload_check list" where
  "head_checks acts = [(''name'', Some (PStr []), check_name), (''action_id'', Some (PStr []), check_action acts)]"

definition field_checks :: "tzdb \<Rightarrow> payload_check list" where
  "field_checks tz =
     [(''timezone'', Some PNone, check_timezone tz), (''schedule_type'', Some PNone, check_schedule_type),
      (''target_mode'', None, check_choice [''snapshot'', ''dynamic''] ''target_mode must be snapshot or dynamic.''),
      (''targets'', None, check_object ''targets''), (''parameters'', None, check_object ''parameters''),
      (''enabled'', None, check_enabled),
      (''missed_policy'', None, check_choice [''skip'', ''run_on_recovery'', ''expire''] ''Invalid missed_policy.''),
      (''concurrency_policy'', None, check_choice [''skip'', ''queue'', ''allow''] ''Invalid concurrency_policy.''),
      (''missed_grace_minutes'', None, check_bounded ''missed_grace_minutes'' 0 43200),
      (''retry_count'', None, check_bounded ''retry_count'' 0 10),
      (''retry_delay_seconds'', None, check_bounded ''retry_delay_seconds'' 1 86400),
      (''interval_seconds'', None, check_interval), (''weekdays'', None, check_weekdays),
      (''day_of_month'', None, check_day_of_month),
      (''month_week'', None, check_month_week), (''month_weekday'', None, check_month_weekday)]"

text \<open>The module of the action is written beside the action's id whenever that is checked.\<close>

definition set_module :: "action_registry \<Rightarrow> pydict \<Rightarrow> pydict" where
  "set_module acts out = (case dget out ''action_id'' of
     Some (PStr a) \<Rightarrow> (case dget acts a of Some act \<Rightarrow> dset ''module_id'' (PStr (ac_module_id act)) out | None \<Rightarrow> out)
   | _ \<Rightarrow> out)"

definition validate_schedule_payload :: "action_registry \<Rightarrow> tzdb \<Rightarrow> bool \<Rightarrow> pyval \<Rightarrow> sched_exn + pydict" where
  "validate_schedule_payload acts tz partial v =
     rbind (as_dict (SchedulerError ''Schedule payload must be an object.'') v) (\<lambda>data.
     rbind (apply_checks partial (head_checks acts) data) (\<lambda>out.
     rbind (apply_checks partial (field_checks tz) (set_module acts out)) (\<lambda>out.
       rcheck (pair_mismatch out) (SchedulerError ''month_week and month_weekday go together: send both or neither.'') (Inr out))))"

section \<open>Monthly modes\<close>

definition field_of :: "pydict \<Rightarrow> string \<Rightarrow> pyval" where
  "field_of d k = get_or d k PNone"

definition check_monthly_shape :: "pydict \<Rightarrow> sched_exn + unit" where
  "check_monthly_shape d = (if field_of d ''schedule_type'' \<noteq> PStr ''monthly'' then Inr () else
     (let has_day = truthy (field_of d ''day_of_month'');
          has_pair = (field_of d ''month_week'' \<noteq> PNone \<or> field_of d ''month_weekday'' \<noteq> PNone) in
      rcheck (has_pair \<and> (field_of d ''month_week'' = PNone \<or> field_of d ''month_weekday'' = PNone))
        (SchedulerError ''month_week and month_weekday go together: send both or neither.'')
      (rcheck (has_day \<and> has_pair) (SchedulerError ''A monthly schedule uses day_of_month or month_week with month_weekday, not both.'')
      (rcheck (\<not> has_day \<and> \<not> has_pair) (SchedulerError ''Monthly schedules require day_of_month, or month_week with month_weekday.'')
       (Inr ())))))"

definition sent :: "pydict \<Rightarrow> string \<Rightarrow> bool" where
  "sent d k = (field_of d k \<noteq> PNone \<and> field_of d k \<noteq> PStr [])"

definition switch_monthly_mode :: "pydict \<Rightarrow> pydict \<Rightarrow> pydict" where
  "switch_monthly_mode merged incoming =
     (if field_of merged ''schedule_type'' \<noteq> PStr ''monthly''
      then dset ''month_weekday'' PNone (dset ''month_week'' PNone (dset ''day_of_month'' PNone merged))
      else (let sent_day = sent incoming ''day_of_month''; sent_pair = (sent incoming ''month_week'' \<or> sent incoming ''month_weekday'') in
        if sent_pair \<and> \<not> sent_day then dset ''day_of_month'' PNone merged
        else if sent_day \<and> \<not> sent_pair then dset ''month_weekday'' PNone (dset ''month_week'' PNone merged)
        else merged))"

section \<open>What an accepted payload looks like\<close>

definition opt_field :: "pydict \<Rightarrow> string \<Rightarrow> (pyval \<Rightarrow> bool) \<Rightarrow> bool" where
  "opt_field d k good = (case dget d k of None \<Rightarrow> True | Some v \<Rightarrow> good v)"

definition int_between :: "int \<Rightarrow> int \<Rightarrow> pyval \<Rightarrow> bool" where
  "int_between lo hi v = (case v of PInt i \<Rightarrow> lo \<le> i \<and> i \<le> hi | _ \<Rightarrow> False)"

definition weekday_list :: "pyval \<Rightarrow> bool" where
  "weekday_list v = (case v of PList vs \<Rightarrow> list_all weekday_value vs \<and>
     sorted (map (\<lambda>v. the (int_value v)) vs) \<and> distinct (map (\<lambda>v. the (int_value v)) vs) | _ \<Rightarrow> False)"

text \<open>The types and ranges of the columns a checked payload is written to.\<close>

definition optional_fields_typed :: "pydict \<Rightarrow> bool" where
  "optional_fields_typed d =
     (opt_field d ''target_mode'' (\<lambda>v. v \<in> {PStr ''snapshot'', PStr ''dynamic''}) \<and>
      opt_field d ''targets'' is_dict \<and> opt_field d ''parameters'' is_dict \<and> opt_field d ''enabled'' is_bool \<and>
      opt_field d ''missed_policy'' (\<lambda>v. v \<in> {PStr ''skip'', PStr ''run_on_recovery'', PStr ''expire''}) \<and>
      opt_field d ''concurrency_policy'' (\<lambda>v. v \<in> {PStr ''skip'', PStr ''queue'', PStr ''allow''}) \<and>
      opt_field d ''missed_grace_minutes'' (int_between 0 43200) \<and> opt_field d ''retry_count'' (int_between 0 10) \<and>
      opt_field d ''retry_delay_seconds'' (int_between 1 86400) \<and>
      opt_field d ''interval_seconds'' (\<lambda>v. v = PNone \<or> v = PStr [] \<or> (\<exists>i \<ge> 60. v = PInt i)) \<and>
      opt_field d ''weekdays'' weekday_list \<and>
      opt_field d ''day_of_month'' (\<lambda>v. v = PNone \<or> v = PStr [] \<or> int_between 1 31 v) \<and>
      opt_field d ''month_week'' (\<lambda>v. v = PNone \<or> (\<exists>i. v = PInt i \<and> i \<in> {1, 2, 3, 4, -1})) \<and>
      opt_field d ''month_weekday'' (\<lambda>v. v = PNone \<or> int_between 0 6 v) \<and> \<not> pair_mismatch d)"

lemma apply_check_dget:
  assumes "apply_check partial (k, required, f) d = Inr d'"
  shows "(\<exists>v v'. f v = Inr v' \<and> d' = dset k v' d) \<or> (d' = d \<and> dget d k = None \<and> (required = None \<or> partial))"
  using assms by (auto split: option.splits if_splits)

lemma apply_checks_other: "apply_checks partial cs d = Inr d' \<Longrightarrow> k \<notin> fst ` set cs \<Longrightarrow> dget d' k = dget d k"
proof (induction cs arbitrary: d)
  case (Cons c cs)
  obtain k' required f where c: "c = (k', required, f)" by (cases c)
  obtain e where e: "apply_check partial c d = Inr e" "apply_checks partial cs e = Inr d'" using Cons.prems(1) by auto
  have "dget e k = dget d k" using apply_check_dget [OF e(1) [unfolded c]] Cons.prems(2) c by (auto simp: AList.update_conv')
  then show ?case using Cons.IH [OF e(2)] Cons.prems(2) by simp
qed simp

lemma apply_checks_field:
  assumes "apply_checks partial cs d = Inr d'" and "distinct (map fst cs)" and "(k, required, f) \<in> set cs"
  shows "(\<exists>v v'. f v = Inr v' \<and> dget d' k = Some v') \<or> (dget d' k = None \<and> (required = None \<or> partial))"
  using assms
proof (induction cs arbitrary: d)
  case (Cons c cs)
  obtain e where e: "apply_check partial c d = Inr e" "apply_checks partial cs e = Inr d'" using Cons.prems(1) by auto
  show ?case
  proof (cases "c = (k, required, f)")
    case True
    then have "dget d' k = dget e k" using Cons.prems(2) by (intro apply_checks_other [OF e(2)]) auto
    then show ?thesis using apply_check_dget [OF e(1) [unfolded True]] by (auto simp: AList.update_conv')
  qed (use Cons.IH [OF e(2)] Cons.prems(2,3) in auto)
qed simp

lemma opt_fieldI:
  assumes "apply_checks partial cs d = Inr d'" and "distinct (map fst cs)" and "(k, required, f) \<in> set cs"
    and "\<And>v v'. f v = Inr v' \<Longrightarrow> good v'"
  shows "opt_field d' k good"
  using apply_checks_field [OF assms(1-3)] assms(4) by (auto simp: opt_field_def)

lemma int_or_Inr: "int_or m v = Inr i \<Longrightarrow> py_int v = Inr i"
  by (auto simp: int_or_def split: sum.splits py_exn.splits)

lemma first_of_each_spec:
  "set (first_of_each seen vs) \<subseteq> set vs \<and> distinct (map (\<lambda>v. the (int_value v)) (first_of_each seen vs)) \<and>
   (\<forall>v \<in> set (first_of_each seen vs). the (int_value v) \<notin> set seen)"
proof (induction seen vs rule: first_of_each.induct)
  case (2 seen v vs)
  then show ?case by (cases "the (int_value v) \<in> set seen") (auto simp: Let_def)
qed simp

lemma check_weekdays_typed: "check_weekdays v = Inr v' \<Longrightarrow> weekday_list v'"
proof -
  assume "check_weekdays v = Inr v'"
  then obtain vs where vs: "list_all weekday_value vs" "v' = PList (sort_key (\<lambda>v. the (int_value v)) (first_of_each [] vs))"
    by (auto simp: check_weekdays_def split: pyval.splits if_splits)
  have "distinct (map (\<lambda>v. the (int_value v)) (sort_key (\<lambda>v. the (int_value v)) (first_of_each [] vs)))"
    using first_of_each_spec [of "[]" vs] by (metis distinct_map distinct_sort set_sort)
  then show ?thesis
    using vs first_of_each_spec [of "[]" vs] by (auto simp: weekday_list_def list_all_iff sorted_sort_key)
qed

lemma field_checks_distinct: "distinct (map fst (field_checks tz))"
  by (simp add: field_checks_def)

lemma check_bounded_typed: "check_bounded k lo hi v = Inr v' \<Longrightarrow> int_between lo hi v'"
  by (auto simp: check_bounded_def int_between_def split: if_splits)

lemma check_interval_typed: "check_interval v = Inr v' \<Longrightarrow> v' = PNone \<or> v' = PStr [] \<or> (\<exists>i \<ge> 60. v' = PInt i)"
  by (auto simp: check_interval_def min_interval_seconds_def split: if_splits)

lemma check_day_typed: "check_day_of_month v = Inr v' \<Longrightarrow> v' = PNone \<or> v' = PStr [] \<or> int_between 1 31 v'"
  by (auto simp: check_day_of_month_def int_between_def split: if_splits)

lemma check_month_week_typed: "check_month_week v = Inr v' \<Longrightarrow> v' = PNone \<or> (\<exists>i. v' = PInt i \<and> i \<in> {1, 2, 3, 4, -1})"
  by (auto simp: check_month_week_def split: if_splits)

lemma check_month_weekday_typed: "check_month_weekday v = Inr v' \<Longrightarrow> v' = PNone \<or> int_between 0 6 v'"
  by (auto simp: check_month_weekday_def int_between_def split: if_splits pyval.splits)

lemma field_checks_typed:
  assumes "apply_checks partial (field_checks tz) d = Inr d'" and "\<not> pair_mismatch d'"
  shows "optional_fields_typed d'"
proof -
  have field: "opt_field d' k good" if "(k, None, f) \<in> set (field_checks tz)" "\<And>v v'. f v = Inr v' \<Longrightarrow> good v'" for k f good
    using opt_fieldI [OF assms(1) field_checks_distinct that(1)] that(2) by blast
  show ?thesis
    unfolding optional_fields_typed_def
  proof (intro conjI assms(2))
    show "opt_field d' ''target_mode'' (\<lambda>v. v \<in> {PStr ''snapshot'', PStr ''dynamic''})"
      by (rule field [of _ "check_choice [''snapshot'', ''dynamic''] ''target_mode must be snapshot or dynamic.''"])
        (auto simp: field_checks_def check_choice_def split: if_splits)
    show "opt_field d' ''missed_policy'' (\<lambda>v. v \<in> {PStr ''skip'', PStr ''run_on_recovery'', PStr ''expire''})"
      by (rule field [of _ "check_choice [''skip'', ''run_on_recovery'', ''expire''] ''Invalid missed_policy.''"])
        (auto simp: field_checks_def check_choice_def split: if_splits)
    show "opt_field d' ''concurrency_policy'' (\<lambda>v. v \<in> {PStr ''skip'', PStr ''queue'', PStr ''allow''})"
      by (rule field [of _ "check_choice [''skip'', ''queue'', ''allow''] ''Invalid concurrency_policy.''"])
        (auto simp: field_checks_def check_choice_def split: if_splits)
    show "opt_field d' ''targets'' is_dict" "opt_field d' ''parameters'' is_dict"
      by (rule field [of _ "check_object ''targets''"], auto simp: field_checks_def check_object_def split: if_splits)
        (rule field [of _ "check_object ''parameters''"], auto simp: field_checks_def check_object_def split: if_splits)
    show "opt_field d' ''enabled'' is_bool"
      by (rule field [of _ check_enabled]) (auto simp: field_checks_def check_enabled_def split: if_splits)
    show "opt_field d' ''missed_grace_minutes'' (int_between 0 43200)"
      by (rule field [of _ "check_bounded ''missed_grace_minutes'' 0 43200"]) (simp_all add: field_checks_def check_bounded_typed)
    show "opt_field d' ''retry_count'' (int_between 0 10)"
      by (rule field [of _ "check_bounded ''retry_count'' 0 10"]) (simp_all add: field_checks_def check_bounded_typed)
    show "opt_field d' ''retry_delay_seconds'' (int_between 1 86400)"
      by (rule field [of _ "check_bounded ''retry_delay_seconds'' 1 86400"]) (simp_all add: field_checks_def check_bounded_typed)
    show "opt_field d' ''interval_seconds'' (\<lambda>v. v = PNone \<or> v = PStr [] \<or> (\<exists>i \<ge> 60. v = PInt i))"
      by (rule field [of _ check_interval]) (simp_all add: field_checks_def check_interval_typed)
    show "opt_field d' ''weekdays'' weekday_list"
      by (rule field [of _ check_weekdays]) (simp_all add: field_checks_def check_weekdays_typed)
    show "opt_field d' ''day_of_month'' (\<lambda>v. v = PNone \<or> v = PStr [] \<or> int_between 1 31 v)"
      by (rule field [of _ check_day_of_month]) (simp_all add: field_checks_def check_day_typed)
    show "opt_field d' ''month_week'' (\<lambda>v. v = PNone \<or> (\<exists>i. v = PInt i \<and> i \<in> {1, 2, 3, 4, -1}))"
      by (rule field [of _ check_month_week], simp add: field_checks_def) (rule check_month_week_typed)
    show "opt_field d' ''month_weekday'' (\<lambda>v. v = PNone \<or> int_between 0 6 v)"
      by (rule field [of _ check_month_weekday]) (simp_all add: field_checks_def check_month_weekday_typed)
  qed
qed

text \<open>The registry: every action is filed under its own stripped, namespaced id with a timeout inside the limits.\<close>

definition action_ok :: "string \<Rightarrow> scheduled_action \<Rightarrow> bool" where
  "action_ok a act = (ac_id act = a \<and> strip a = a \<and> CHR ''.'' \<in> set a \<and> ac_module_id act \<noteq> [] \<and>
     60 \<le> ac_timeout_seconds act \<and> ac_timeout_seconds act \<le> 604800 \<and> length (permission_entries act) \<le> 8 \<and>
     distinct (permission_entries act))"

definition registry_ok :: "action_registry \<Rightarrow> bool" where
  "registry_ok acts = (dict_ok acts \<and> (\<forall>a act. dget acts a = Some act \<longrightarrow> action_ok a act))"

lemma normalize_permission_entries:
  assumes "normalize_permission v = Inr p" and "ac_permission act = fst p" and "ac_permission_any act = snd p"
  shows "length (permission_entries act) \<le> 8 \<and> distinct (permission_entries act)"
proof -
  have len: "check_entries es = Inr ss \<Longrightarrow> length ss = length es" for es ss
    by (induction es arbitrary: ss) (auto split: pyval.splits if_splits)
  show ?thesis
    using assms len unfolding normalize_permission_def permission_entries_def
    by (auto split: pyval.splits if_splits option.splits list.splits)
qed

lemma file_action_Inr:
  "file_action act acts = Inr (act', acts') \<Longrightarrow> act' = act \<and> acts' = dset (ac_id act) act acts \<and> (\<forall>old. dget acts (ac_id act) = Some old \<longrightarrow> old = act)"
  by (auto simp: file_action_def split: option.splits if_splits)

lemma register_registry_ok:
  assumes "registry_ok acts" and "register_scheduled_action declared g acts = Inr (act, acts')"
  shows "registry_ok acts'" and "dget acts' (ac_id act) = Some act"
    and "dget acts a = Some old \<Longrightarrow> dget acts' a = Some old"
proof -
  obtain t p un where t: "check_timeout (aa_timeout_seconds g) = Inr t" and p: "normalize_permission (aa_permission g) = Inr p"
    and id: "CHR ''.'' \<in> set (clean_text (aa_id g))" "clean_text (aa_module_id g) \<noteq> []"
    and f: "file_action (new_action g t p un) acts = Inr (act, acts')"
    using assms(2) unfolding register_scheduled_action_def Let_def by auto
  note new = file_action_Inr [OF f]
  have "60 \<le> t \<and> t \<le> 604800" using t by (auto simp: check_timeout_def split: sum.splits py_exn.splits if_splits)
  then have "action_ok (ac_id act) act"
    using new id normalize_permission_entries [OF p, of act] by (simp add: action_ok_def new_action_def Let_def clean_text_def)
  then show "registry_ok acts'" using assms(1) new by (simp add: registry_ok_def AList.update_conv')
  show "dget acts' (ac_id act) = Some act" using new by (simp add: AList.update_conv')
  show "dget acts a = Some old \<Longrightarrow> dget acts' a = Some old" using new by (auto simp: AList.update_conv')
qed

definition register_step :: "manifest_reader \<times> action_args \<Rightarrow> action_registry \<Rightarrow> sched_exn + action_registry" where
  "register_step i acts = rbind (register_scheduled_action (fst i) (snd i) acts) (\<lambda>(_, acts'). Inr acts')"

interpretation action_machine: guarded_machine register_step registry_ok
  by unfold_locales (auto simp: register_step_def intro: register_registry_ok(1))

fun register_run :: "(manifest_reader \<times> action_args) list \<Rightarrow> action_registry \<Rightarrow> action_registry" where
  "register_run [] acts = acts"
| "register_run (i # is) acts = (case register_step i acts of Inl _ \<Rightarrow> register_run is acts | Inr acts' \<Rightarrow> register_run is acts')"

lemma register_run_machine: "register_run is acts = action_machine.run is acts"
  by (induction "is" arbitrary: acts) (auto split: sum.splits)


definition demo_args :: action_args where
  "demo_args = \<lparr>aa_id = PStr '' alerts.scan '', aa_module_id = PStr ''alerts'', aa_label = PStr ''Scan'', aa_handler = Some 7,
     aa_description = PNone, aa_target_types = [PStr ''endpoint''], aa_permission = PList [PStr ''alerts.run'', PStr ''tactical:can_run_scripts''],
     aa_dangerous = PBool False, aa_timeout_seconds = PInt 900, aa_unattended = PBool False\<rparr>"

definition demo_actions :: action_registry where
  "demo_actions = register_run [((\<lambda>_ _. None), demo_args)] []"

definition demo_payload :: pyval where
  "demo_payload = PDict [(''name'', PStr '' Nightly ''), (''action_id'', PStr ''alerts.scan''), (''schedule_type'', PStr ''weekly''),
     (''weekdays'', PList [PInt 4, PInt 1, PBool True]), (''retry_count'', PStr ''3''), (''month_week'', PStr [])]"

lemma demo_payload_accepted: "\<exists>d. validate_schedule_payload demo_actions demo_tz False demo_payload = Inr d"
proof -
  have "is_ok (validate_schedule_payload demo_actions demo_tz False demo_payload)" by code_simp
  then show ?thesis by (simp add: is_ok_iff)
qed


lemma demo_payload_result:
  "validate_schedule_payload demo_actions demo_tz True (PDict [(''weekdays'', PList [PInt 4, PInt 1, PBool True]), (''retry_count'', PStr ''3'')]) =
     Inr [(''weekdays'', PList [PInt 1, PInt 4]), (''retry_count'', PInt 3)]"
  by code_simp

text \<open>On an edit the two monthly modes exclude each other: whatever was stored, a payload that sends exactly one of the modes
  leaves the other one empty, and a schedule that is not monthly keeps neither.\<close>

lemma switch_monthly_mode_excludes:
  "field_of merged ''schedule_type'' \<noteq> PStr ''monthly'' \<Longrightarrow>
     \<forall>k \<in> {''day_of_month'', ''month_week'', ''month_weekday''}. field_of (switch_monthly_mode merged incoming) k = PNone"
  "field_of merged ''schedule_type'' = PStr ''monthly'' \<Longrightarrow> sent incoming ''day_of_month'' \<Longrightarrow>
     \<not> sent incoming ''month_week'' \<Longrightarrow> \<not> sent incoming ''month_weekday'' \<Longrightarrow>
     \<forall>k \<in> {''month_week'', ''month_weekday''}. field_of (switch_monthly_mode merged incoming) k = PNone"
  "field_of merged ''schedule_type'' = PStr ''monthly'' \<Longrightarrow> \<not> sent incoming ''day_of_month'' \<Longrightarrow>
     sent incoming ''month_week'' \<or> sent incoming ''month_weekday'' \<Longrightarrow>
     field_of (switch_monthly_mode merged incoming) ''day_of_month'' = PNone"
  by (auto simp: switch_monthly_mode_def field_of_def Let_def)

lemma monthly_shape_exclusive:
  assumes "check_monthly_shape d = Inr ()" and "field_of d ''schedule_type'' = PStr ''monthly''"
  shows "truthy (field_of d ''day_of_month'') \<noteq> (field_of d ''month_week'' \<noteq> PNone \<and> field_of d ''month_weekday'' \<noteq> PNone)"
  using assms by (auto simp: check_monthly_shape_def Let_def rcheck_def split: if_splits)

end
