(* ===== verification/Urls.thy ===== *)
theory Urls
  imports Py_Value
begin

text \<open>
  The part of \<open>urllib.parse.urlsplit\<close> the framework uses, on Latin-1 text (where the NFKC test of the
  network location can never fail), with the bracketed-host test of \<open>ipaddress\<close>, and the two URL
  normalisers built on it: \<open>strip_repository_url\<close> (\<open>module_state.py\<close>), which decides what of a repository
  address is written to the world-readable state file, and \<open>validate_licensing_server_url\<close> with its reader
  (\<open>licensing_server_url.py\<close>).
\<close>

section \<open>IPv6 literals\<close>

definition is_hex :: "char \<Rightarrow> bool" where
  "is_hex c = (is_digit c \<or> (let n = code c in (65 \<le> n \<and> n \<le> 70) \<or> (97 \<le> n \<and> n \<le> 102)))"

definition hextet_ok :: "string \<Rightarrow> bool" where
  "hextet_ok h = (h \<noteq> [] \<and> length h \<le> 4 \<and> list_all is_hex h)"

definition octet_ok :: "string \<Rightarrow> bool" where
  "octet_ok s = (s \<noteq> [] \<and> list_all is_digit s \<and> length s \<le> 3 \<and>
     (s = ''0'' \<or> hd s \<noteq> CHR ''0'') \<and> read_nat s \<le> 255)"

definition ipv4_ok :: "string \<Rightarrow> bool" where
  "ipv4_ok s = (let os = split_on (CHR ''.'') s in length os = 4 \<and> list_all octet_ok os)"

text \<open>The address without its scope: at least three groups, an IPv4 tail counts as two groups, at most
  one empty group inside, and the empty group stands for at least one group of zeros.\<close>

definition ipv6_groups_ok :: "string list \<Rightarrow> bool" where
  "ipv6_groups_ok ps =
     (let n = length ps; gaps = filter (\<lambda>i. ps ! i = []) [1..<n - 1]
      in if n > 9 then False
         else case gaps of
           [] \<Rightarrow> n = 8 \<and> list_all hextet_ok ps
         | [g] \<Rightarrow>
             (let hi0 = g; lo0 = n - g - 1;
                  hi = (if hd ps = [] then hi0 - 1 else hi0);
                  lo = (if last ps = [] then lo0 - 1 else lo0)
              in (hd ps \<noteq> [] \<or> hi = 0) \<and> (last ps \<noteq> [] \<or> lo = 0) \<and> hi + lo \<le> 7 \<and>
                 list_all hextet_ok (take hi ps) \<and> list_all hextet_ok (drop (n - lo) ps))
         | _ \<Rightarrow> False)"

definition ipv6_ok :: "string \<Rightarrow> bool" where
  "ipv6_ok s =
     (let (addr, scope) = (case partition_on (CHR ''%'') s of None \<Rightarrow> (s, None) | Some (a, z) \<Rightarrow> (a, Some z));
          ps = split_on (CHR '':'') addr
      in CHR ''/'' \<notin> set s \<and>
         (case scope of None \<Rightarrow> True | Some z \<Rightarrow> z \<noteq> [] \<and> CHR ''%'' \<notin> set z) \<and>
         length ps \<ge> 3 \<and>
         (if CHR ''.'' \<in> set (last ps)
          then ipv4_ok (last ps) \<and> ipv6_groups_ok (butlast ps @ [''0'', ''0''])
          else ipv6_groups_ok ps))"

text \<open>\<open>_check_bracketed_host\<close>: an IPvFuture form, or an address that is not IPv4.\<close>

definition bracket_host_ok :: "string \<Rightarrow> bool" where
  "bracket_host_ok h =
     (case h of
        c # cs \<Rightarrow>
          if c = CHR ''v'' then
            (let hx = takeWhile is_hex cs; r = dropWhile is_hex cs
             in hx \<noteq> [] \<and> (case r of d # ds \<Rightarrow> d = CHR ''.'' \<and> ds \<noteq> [] \<and> list_all (\<lambda>x. code x \<noteq> 10) ds
                                    | [] \<Rightarrow> False))
          else ipv6_ok h
      | [] \<Rightarrow> False)"

section \<open>Splitting a URL\<close>

record split_url =
  scheme :: string
  netloc :: string
  path :: string
  query :: string
  fragment :: string

definition scheme_char :: "char \<Rightarrow> bool" where
  "scheme_char c = (is_alnum_ascii c \<or> c = CHR ''+'' \<or> c = CHR ''-'' \<or> c = CHR ''.'')"

definition split_scheme :: "string \<Rightarrow> string \<times> string" where
  "split_scheme u =
     (case partition_on (CHR '':'') u of
        Some (s, r) \<Rightarrow> if s \<noteq> [] \<and> is_alpha_ascii (hd s) \<and> list_all scheme_char s then (lower s, r) else ([], u)
      | None \<Rightarrow> ([], u))"

definition netloc_delim :: "char \<Rightarrow> bool" where
  "netloc_delim c = (c = CHR ''/'' \<or> c = CHR ''?'' \<or> c = CHR ''#'')"

definition split_netloc :: "string \<Rightarrow> string \<times> string" where
  "split_netloc u =
     (if startswith u ''//''
      then (takeWhile (\<lambda>c. \<not> netloc_delim c) (drop 2 u), dropWhile (\<lambda>c. \<not> netloc_delim c) (drop 2 u))
      else ([], u))"

definition split_last :: "char \<Rightarrow> string \<Rightarrow> string \<times> string" where
  "split_last c s = (case partition_on c s of None \<Rightarrow> (s, []) | Some (a, b) \<Rightarrow> (a, b))"

text \<open>The bracket test of the network location: \<open>None\<close> is \<open>ValueError\<close>.\<close>

definition after_at :: "string \<Rightarrow> string" where
  "after_at n = rev (takeWhile (\<lambda>c. c \<noteq> CHR ''@'') (rev n))"

definition netloc_ok :: "string \<Rightarrow> bool" where
  "netloc_ok n =
     (if (CHR ''['' \<in> set n) \<noteq> (CHR '']'' \<in> set n) then False
      else if CHR ''['' \<in> set n
      then bracket_host_ok (fst (split_last (CHR '']'') (snd (split_last (CHR ''['') n))))
      else True)"

definition urlsplit :: "string \<Rightarrow> split_url option" where
  "urlsplit u0 =
     (let u = filter (\<lambda>c. code c \<noteq> 9 \<and> code c \<noteq> 10 \<and> code c \<noteq> 13) (dropWhile (\<lambda>c. code c \<le> 32) u0);
          (sc, r1) = split_scheme u;
          (nl, r2) = split_netloc r1;
          (r3, fr) = split_last (CHR ''#'') r2;
          (pa, qu) = split_last (CHR ''?'') r3
      in if netloc_ok nl
         then Some \<lparr>scheme = sc, netloc = nl, path = pa, query = qu, fragment = fr\<rparr> else None)"

text \<open>\<open>hostname\<close> and \<open>port\<close>: the host is lower-cased up to a zone; a port is 0 to 65535 or \<open>ValueError\<close>.\<close>

definition host_port :: "string \<Rightarrow> string \<times> string" where
  "host_port n =
     (let hostinfo = after_at n
      in case partition_on (CHR ''['') hostinfo of
           Some (_, br) \<Rightarrow> (let (h, p) = split_last (CHR '']'') br in (h, snd (split_last (CHR '':'') p)))
         | None \<Rightarrow> split_last (CHR '':'') hostinfo)"

definition hostname :: "string \<Rightarrow> string" where
  "hostname n =
     (let h = fst (host_port n)
      in case partition_on (CHR ''%'') h of None \<Rightarrow> lower h | Some (a, z) \<Rightarrow> lower a @ ''%'' @ z)"

definition port_of :: "string \<Rightarrow> nat option option" where
  "port_of n =
     (let p = snd (host_port n)
      in if p = [] then Some None
         else if list_all is_digit p \<and> length p \<le> 4300 \<and> read_nat p \<le> 65535 then Some (Some (read_nat p)) else None)"

definition has_userinfo :: "string \<Rightarrow> bool" where
  "has_userinfo n = (CHR ''@'' \<in> set n)"

section \<open>strip_repository_url\<close>

definition bracketed :: "string \<Rightarrow> string" where
  "bracketed h = (if CHR '':'' \<in> set h then ''['' @ h @ '']'' else h)"

definition strip_repository_url :: "pyval \<Rightarrow> string" where
  "strip_repository_url value =
     (case value of
        PStr s \<Rightarrow>
          (case urlsplit (strip s) of
             None \<Rightarrow> []
           | Some u \<Rightarrow>
               (case port_of (netloc u) of
                  None \<Rightarrow> []
                | Some port \<Rightarrow>
                    if (lower (scheme u) \<noteq> ''http'' \<and> lower (scheme u) \<noteq> ''https'') \<or> hostname (netloc u) = [] then []
                    else lower (scheme u) @ ''://'' @ bracketed (hostname (netloc u))
                      @ (case port of None \<Rightarrow> [] | Some p \<Rightarrow> '':'' @ show_nat p)
                      @ fst (split_last (CHR '';'') (path u))))
      | _ \<Rightarrow> [])"

section \<open>The Licensing Server address\<close>

definition host_char :: "char \<Rightarrow> bool" where
  "host_char c = (is_alnum_ascii c \<or> c = CHR ''.'' \<or> c = CHR ''-'')"

text \<open>\<open>_HOST_RE\<close>: one to 253 characters, the first and the last alphanumeric.\<close>

definition host_re :: "string \<Rightarrow> bool" where
  "host_re h = (h \<noteq> [] \<and> length h \<le> 253 \<and> is_alnum_ascii (hd h) \<and> is_alnum_ascii (last h) \<and> list_all host_char h)"

definition bad_character :: "char \<Rightarrow> bool" where
  "bad_character c = (let n = code c in n \<le> 32 \<or> (127 \<le> n \<and> n \<le> 159) \<or> n = 92)"

datatype url_reason = Url_Empty | Url_Too_Long | Url_Bad_Characters | Url_Invalid | Url_Not_Https
  | Url_User_Info | Url_Query | Url_Fragment | Url_No_Host | Url_Bad_Host | Url_Path_Parameters
  | Url_Dot_Segments

definition rstrip_slash :: "string \<Rightarrow> string" where
  "rstrip_slash s = rstrip_by (\<lambda>c. c = CHR ''/'') s"

definition validate_licensing_server_url :: "pyval \<Rightarrow> url_reason + string" where
  "validate_licensing_server_url value =
     (let t = clean_text value in
      rcheck (t = []) Url_Empty
      (rcheck (length t > 512) Url_Too_Long
      (rcheck (list_ex bad_character t) Url_Bad_Characters
      (case urlsplit t of
         None \<Rightarrow> Inl Url_Invalid
       | Some u \<Rightarrow>
         (case port_of (netloc u) of
            None \<Rightarrow> Inl Url_Invalid
          | Some port \<Rightarrow>
            (let host = hostname (netloc u) in
             rcheck (lower (scheme u) \<noteq> ''https'') Url_Not_Https
             (rcheck (has_userinfo (netloc u)) Url_User_Info
             (rcheck (query u \<noteq> [] \<or> CHR ''?'' \<in> set t) Url_Query
             (rcheck (fragment u \<noteq> [] \<or> CHR ''#'' \<in> set t) Url_Fragment
             (rcheck (host = []) Url_No_Host
             (rcheck (CHR '':'' \<notin> set host \<and> \<not> host_re host) Url_Bad_Host
             (rcheck (CHR '';'' \<in> set (path u)) Url_Path_Parameters
             (rcheck (list_ex (\<lambda>p. p = ''.'' \<or> p = ''..'') (split_on (CHR ''/'') (path u))) Url_Dot_Segments
             (Inr (''https://'' @
                (let rendered = (if CHR '':'' \<in> set host then ''['' @ host @ '']'' else lower host)
                 in if port = None \<or> port = Some 443 then rendered
                    else rendered @ '':'' @ show_nat (the port)) @ rstrip_slash (path u))))))))))))))))"

section \<open>Configuration lines\<close>

text \<open>The \<open>KEY=value\<close> reader every configuration consumer repeats; a later line for a key wins.\<close>

definition config_line :: "string \<Rightarrow> (string \<times> string) option" where
  "config_line raw =
     (let line = strip raw
      in if line = [] \<or> startswith line ''#'' then None
         else map_option (\<lambda>(k, v). (strip k, strip v)) (partition_on (CHR ''='') line))"

definition config_values :: "string \<Rightarrow> (string, string) dict" where
  "config_values contents =
     fold (\<lambda>raw d. case config_line raw of None \<Rightarrow> d | Some (k, v) \<Rightarrow> AList.update k v d) (splitlines contents) []"

definition read_configured_value :: "string option \<Rightarrow> string option" where
  "read_configured_value contents =
     (case contents of None \<Rightarrow> None
      | Some t \<Rightarrow> fold (\<lambda>raw found. case config_line raw of None \<Rightarrow> found
          | Some (k, v) \<Rightarrow> if k = ''TEC_TAC_LICENSING_SERVER_URL'' then Some v else found) (splitlines t) None)"

definition default_licensing_server_url :: string where
  "default_licensing_server_url = ''https://lic-service.tec-tac.techxflow.net.za''"

record licensing_address =
  la_url :: string
  la_source :: string
  la_configured :: bool
  la_reason :: "url_reason option"

definition get_licensing_server_url :: "string option \<Rightarrow> licensing_address" where
  "get_licensing_server_url contents =
     (let use_default = (\<lambda>r. \<lparr>la_url = default_licensing_server_url, la_source = ''default'',
                         la_configured = False, la_reason = r\<rparr>)
      in case read_configured_value contents of
           None \<Rightarrow> use_default None
         | Some raw \<Rightarrow>
             if raw = [] then use_default None
             else (case validate_licensing_server_url (PStr raw) of
                     Inl r \<Rightarrow> use_default (Some r)
                   | Inr url \<Rightarrow> \<lparr>la_url = url, la_source = ''config'', la_configured = True, la_reason = None\<rparr>))"


section \<open>Where the characters of a part come from\<close>

lemma lower_char_new: "lower_char c = d \<Longrightarrow> c \<noteq> d \<Longrightarrow> (97 \<le> code d \<and> code d \<le> 122) \<or> 224 \<le> code d"
proof -
  assume "lower_char c = d" "c \<noteq> d"
  then have "code (lower_char c) = code d" "code c \<noteq> code d" by simp_all
  then show ?thesis by (auto simp: code_lower_char split: if_splits)
qed

lemma in_lowerD: "d \<in> set (lower s) \<Longrightarrow> code d < 97 \<Longrightarrow> d \<in> set s"
proof -
  assume "d \<in> set (lower s)" and small: "code d < 97"
  then obtain c where c: "c \<in> set s" "lower_char c = d" by (auto simp: lower_def)
  have "c = d" using lower_char_new [OF c(2)] small by linarith
  with c(1) show ?thesis by simp
qed

lemma partition_on_set:
  assumes "partition_on c s = Some (a, b)"
  shows "set a \<subseteq> set s \<and> set b \<subseteq> set s \<and> c \<notin> set a"
proof -
  from assms have ab: "a = takeWhile (\<lambda>x. x \<noteq> c) s" "b = tl (dropWhile (\<lambda>x. x \<noteq> c) s)"
    by (auto simp: partition_on_def split: if_splits)
  have tl_set: "set (tl xs) \<subseteq> set xs" for xs :: string by (cases xs) auto
  have "set b \<subseteq> set (dropWhile (\<lambda>x. x \<noteq> c) s)" unfolding ab by (rule tl_set)
  then show ?thesis unfolding ab by (auto dest: set_takeWhileD set_dropWhileD)
qed

lemma split_last_set:
  "split_last c s = (a, b) \<Longrightarrow> set a \<subseteq> set s \<and> set b \<subseteq> set s \<and> c \<notin> set a"
  using partition_on_set [of c s]
  by (auto simp: split_last_def split: option.splits) (auto simp: partition_on_def split: if_splits)

lemma after_at_set: "set (after_at n) \<subseteq> set n" "CHR ''@'' \<notin> set (after_at n)"
  by (auto simp: after_at_def dest: set_takeWhileD)

lemma host_port_set:
  "set (fst (host_port n)) \<subseteq> set (after_at n) \<and> set (snd (host_port n)) \<subseteq> set (after_at n)"
proof (cases "partition_on (CHR ''['') (after_at n)")
  case None
  then show ?thesis
    using split_last_set [of "CHR '':''" "after_at n"] by (metis host_port_def option.case(1) prod.collapse)
next
  case (Some ab)
  obtain a br where br: "partition_on (CHR ''['') (after_at n) = Some (a, br)" using Some by (cases ab) auto
  obtain h p where hp: "split_last (CHR '']'') br = (h, p)" by fastforce
  obtain q r where qr: "split_last (CHR '':'') p = (q, r)" by fastforce
  show ?thesis
    using partition_on_set [OF br] split_last_set [OF hp] split_last_set [OF qr]
    by (auto simp: host_port_def Let_def br hp qr)
qed

lemma hostname_set:
  assumes "d \<in> set (hostname n)" "code d < 97" "d \<noteq> CHR ''%''"
  shows "d \<in> set (after_at n)"
proof -
  let ?h = "fst (host_port n)"
  have "d \<in> set ?h"
  proof (cases "partition_on (CHR ''%'') ?h")
    case None
    with assms show ?thesis by (auto simp: hostname_def Let_def dest: in_lowerD)
  next
    case (Some az)
    obtain a z where az: "partition_on (CHR ''%'') ?h = Some (a, z)" using Some by (cases az) auto
    with assms have "d \<in> set a \<union> set z" by (auto simp: hostname_def Let_def dest: in_lowerD)
    with partition_on_set [OF az] show ?thesis by auto
  qed
  with host_port_set show ?thesis by blast
qed

lemma split_scheme_set: "split_scheme u = (sc, r) \<Longrightarrow> set r \<subseteq> set u"
  using partition_on_set [of "CHR '':''" u]
  by (auto simp: split_scheme_def split: option.splits if_splits)

lemma split_netloc_set:
  "split_netloc u = (nl, r) \<Longrightarrow> set nl \<subseteq> set u \<and> set r \<subseteq> set u \<and> list_all (\<lambda>c. \<not> netloc_delim c) nl"
  by (auto simp: split_netloc_def list_all_iff split: if_splits
      dest: set_takeWhileD set_dropWhileD in_set_dropD)

text \<open>Every part but the scheme is made of characters of the input, the network location holds no delimiter
  and the path neither a question mark nor a hash.\<close>

lemma urlsplit_parts:
  assumes "urlsplit t = Some u"
  shows "set (path u) \<subseteq> set t" "set (netloc u) \<subseteq> set t"
    "CHR ''?'' \<notin> set (netloc u)" "CHR ''#'' \<notin> set (netloc u)"
    "CHR ''?'' \<notin> set (path u)" "CHR ''#'' \<notin> set (path u)"
proof -
  define v where "v = filter (\<lambda>c. code c \<noteq> 9 \<and> code c \<noteq> 10 \<and> code c \<noteq> 13) (dropWhile (\<lambda>c. code c \<le> 32) t)"
  obtain sc r1 where 1: "split_scheme v = (sc, r1)" by fastforce
  obtain nl r2 where 2: "split_netloc r1 = (nl, r2)" by fastforce
  obtain r3 fr where 3: "split_last (CHR ''#'') r2 = (r3, fr)" by fastforce
  obtain pa qu where 4: "split_last (CHR ''?'') r3 = (pa, qu)" by fastforce
  have u: "u = \<lparr>scheme = sc, netloc = nl, path = pa, query = qu, fragment = fr\<rparr>"
    using assms 1 2 3 4 by (simp add: urlsplit_def v_def [symmetric] Let_def split: if_splits)
  have v: "set v \<subseteq> set t" by (auto simp: v_def dest: set_dropWhileD)
  note facts = split_scheme_set [OF 1] split_netloc_set [OF 2] split_last_set [OF 3] split_last_set [OF 4]
  show "set (path u) \<subseteq> set t" "set (netloc u) \<subseteq> set t"
    unfolding u using facts v by (simp_all, meson order_trans)+
  show "CHR ''?'' \<notin> set (netloc u)" "CHR ''#'' \<notin> set (netloc u)"
    using facts by (auto simp: u list_all_iff netloc_delim_def)
  show "CHR ''?'' \<notin> set (path u)" "CHR ''#'' \<notin> set (path u)" using facts by (auto simp: u)
qed

lemma digit_not_punct: "is_digit c \<Longrightarrow> c \<noteq> CHR ''?'' \<and> c \<noteq> CHR ''#'' \<and> c \<noteq> CHR ''@''"
  by (auto simp: is_digit_def code_def)

lemma show_nat_no_punct [simp]: "CHR ''?'' \<notin> set (show_nat n)" "CHR ''#'' \<notin> set (show_nat n)" "CHR ''@'' \<notin> set (show_nat n)"
  using show_nat_digits digit_not_punct by blast+

lemma hostname_no_punct:
  assumes "CHR ''?'' \<notin> set n" "CHR ''#'' \<notin> set n"
  shows "CHR ''?'' \<notin> set (hostname n)" "CHR ''#'' \<notin> set (hostname n)" "CHR ''@'' \<notin> set (hostname n)"
  using hostname_set [of "CHR ''?''" n] hostname_set [of "CHR ''#''" n] hostname_set [of "CHR ''@''" n]
    after_at_set [of n] assms by (auto simp: code_def)

lemma set_rstrip_slash: "set (rstrip_slash s) \<subseteq> set s"
  by (auto simp: rstrip_slash_def rstrip_by_def dest: set_dropWhileD)

section \<open>Properties\<close>

text \<open>
  What \<open>strip_repository_url\<close> lets into the world-readable state file: either nothing, or an http or https
  address made of a scheme, an authority with no user information and a path with no parameters, and no
  query or fragment anywhere, whatever the input was.
\<close>

theorem strip_repository_url_safe:
  "strip_repository_url v = [] \<or>
   (\<exists>sc auth pa. strip_repository_url v = sc @ ''://'' @ auth @ pa
      \<and> sc \<in> {''http'', ''https''} \<and> CHR ''@'' \<notin> set auth \<and> CHR '';'' \<notin> set pa
      \<and> CHR ''?'' \<notin> set (auth @ pa) \<and> CHR ''#'' \<notin> set (auth @ pa))"
proof (cases "strip_repository_url v = []")
  case False
  then obtain s u port where s: "v = PStr s" "urlsplit (strip s) = Some u" "port_of (netloc u) = Some port"
    "lower (scheme u) = ''http'' \<or> lower (scheme u) = ''https''"
    by (auto simp: strip_repository_url_def split: pyval.splits option.splits if_splits)
  let ?auth = "bracketed (hostname (netloc u)) @ (case port of None \<Rightarrow> [] | Some p \<Rightarrow> '':'' @ show_nat p)"
  let ?pa = "fst (split_last (CHR '';'') (path u))"
  have "strip_repository_url v = lower (scheme u) @ ''://'' @ ?auth @ ?pa"
    using False s by (auto simp: strip_repository_url_def split: if_splits)
  moreover have "CHR ''@'' \<notin> set ?auth" "CHR ''?'' \<notin> set ?auth" "CHR ''#'' \<notin> set ?auth"
    using hostname_no_punct [OF urlsplit_parts(3,4) [OF s(2)]]
    by (auto simp: bracketed_def split: option.splits)
  moreover have "CHR '';'' \<notin> set ?pa" "CHR ''?'' \<notin> set ?pa" "CHR ''#'' \<notin> set ?pa"
    using split_last_set [of "CHR '';''" "path u"] urlsplit_parts(5,6) [OF s(2)] by (metis prod.collapse subsetD)+
  ultimately show ?thesis using s(4) by (metis Un_iff insertCI set_append)
qed simp

text \<open>
  The Licensing Server address Core hands out is always an https address without a query or a fragment:
  a configured value that is not usable gives the built-in default and the reason, and no value at all
  gives the default without one.
\<close>

theorem licensing_address_fail_closed:
  "startswith (la_url (get_licensing_server_url contents)) ''https://''
   \<and> CHR ''?'' \<notin> set (la_url (get_licensing_server_url contents))
   \<and> CHR ''#'' \<notin> set (la_url (get_licensing_server_url contents))
   \<and> la_configured (get_licensing_server_url contents)
       = (\<exists>raw url. read_configured_value contents = Some raw
            \<and> validate_licensing_server_url (PStr raw) = Inr url \<and> raw \<noteq> [])"
proof -
  have default: "startswith default_licensing_server_url ''https://''"
    "CHR ''?'' \<notin> set default_licensing_server_url" "CHR ''#'' \<notin> set default_licensing_server_url"
    by (simp_all add: default_licensing_server_url_def startswith_def)
  have ok: "startswith url ''https://'' \<and> CHR ''?'' \<notin> set url \<and> CHR ''#'' \<notin> set url"
    if v: "validate_licensing_server_url (PStr raw) = Inr url" for raw url
  proof -
    from v obtain u port auth where u: "urlsplit (clean_text (PStr raw)) = Some u" "port_of (netloc u) = Some port"
      and url: "url = ''https://'' @ auth @ rstrip_slash (path u)"
      and auth: "auth = (let rendered = (if CHR '':'' \<in> set (hostname (netloc u)) then ''['' @ hostname (netloc u) @ '']''
                   else lower (hostname (netloc u)))
                 in if port = None \<or> port = Some 443 then rendered else rendered @ '':'' @ show_nat (the port))"
      by (auto simp: validate_licensing_server_url_def Let_def split: option.splits)
    have "CHR ''?'' \<notin> set auth" "CHR ''#'' \<notin> set auth"
      using hostname_no_punct [OF urlsplit_parts(3,4) [OF u(1)]]
      by (auto simp: auth Let_def code_def dest!: in_lowerD)
    then show ?thesis
      using urlsplit_parts(5,6) [OF u(1)] set_rstrip_slash [of "path u"] by (auto simp: url startswith_def)
  qed
  show ?thesis
    using default ok by (auto simp: get_licensing_server_url_def Let_def split: option.splits sum.splits)
qed

end
