(* ===== verification/Versions.thy ===== *)
theory Versions
  imports Py_Value
begin

text \<open>
  Module versions (\<open>framwork/tec_tac/module_state.py\<close>): the grammar \<open>_VERSION_RE\<close>, \<open>Version.parse\<close>, the
  three-way comparison \<open>_compare\<close> in which a numeric \<open>-N\<close> rebuild sorts above the release and any other
  suffix below it, and \<open>version_satisfies\<close> over comma-separated constraints. The comparison is the
  provider of the locale \<open>three_way\<close>, which every client that picks or checks a version rests on.
\<close>

section \<open>Grammar\<close>

datatype version_error = Invalid_Version string | Invalid_Constraint string | Int_Too_Long

record version =
  major :: nat
  minor :: nat
  patch :: nat
  suffix :: string

definition suffix_head :: "char \<Rightarrow> bool" where
  "suffix_head c = (c = CHR ''-'' \<or> c = CHR ''+'' \<or> c = CHR ''.'')"

definition suffix_body :: "char \<Rightarrow> bool" where
  "suffix_body c = (is_alnum_ascii c \<or> c = CHR ''.'' \<or> c = CHR ''-'')"

text \<open>\<open>([-+.][0-9A-Za-z.-]+)?\s*$\<close>: the suffix text when the rest of the input matches.\<close>

definition match_suffix_end :: "string \<Rightarrow> string option" where
  "match_suffix_end r =
     (case r of
        c # cs \<Rightarrow>
          if suffix_head c \<and> takeWhile suffix_body cs \<noteq> []
          then (if list_all is_space (dropWhile suffix_body cs)
                then Some (c # takeWhile suffix_body cs) else None)
          else if list_all is_space r then Some [] else None
      | [] \<Rightarrow> Some [])"

text \<open>\<open>(?:\.(\d+))?\<close>: the digits after a dot and what follows them.\<close>

definition match_dot_digits :: "string \<Rightarrow> (string \<times> string) option" where
  "match_dot_digits r =
     (case r of
        c # cs \<Rightarrow> if c = CHR ''.'' \<and> takeWhile is_digit cs \<noteq> []
                  then Some (takeWhile is_digit cs, dropWhile is_digit cs) else None
      | [] \<Rightarrow> None)"

text \<open>The optional groups are tried greedily and given up from the right, as the matcher backtracks.\<close>

definition match_tail :: "string \<Rightarrow> (string \<times> string \<times> string) option" where
  "match_tail r =
     (case match_dot_digits r of
        None \<Rightarrow> map_option (\<lambda>s. ([], [], s)) (match_suffix_end r)
      | Some (mi, r1) \<Rightarrow>
          (case (case match_dot_digits r1 of
                   None \<Rightarrow> None
                 | Some (pa, r2) \<Rightarrow> map_option (\<lambda>s. (mi, pa, s)) (match_suffix_end r2)) of
             Some m \<Rightarrow> Some m
           | None \<Rightarrow>
               (case match_suffix_end r1 of
                  Some s \<Rightarrow> Some (mi, [], s)
                | None \<Rightarrow> map_option (\<lambda>s. ([], [], s)) (match_suffix_end r))))"

definition match_version :: "string \<Rightarrow> (string \<times> string \<times> string \<times> string) option" where
  "match_version s =
     (let s1 = dropWhile is_space s; ma = takeWhile is_digit s1
      in if ma = [] then None
         else map_option (\<lambda>(mi, pa, su). (ma, mi, pa, su)) (match_tail (dropWhile is_digit s1)))"

definition digits_int :: "string \<Rightarrow> version_error + nat" where
  "digits_int ds = (if ds = [] then Inr 0 else if length ds > 4300 then Inl Int_Too_Long else Inr (read_nat ds))"

definition parse_version :: "string \<Rightarrow> version_error + version" where
  "parse_version value =
     (case match_version value of
        None \<Rightarrow> Inl (Invalid_Version value)
      | Some (ma, mi, pa, su) \<Rightarrow>
          rbind (digits_int ma) (\<lambda>a. rbind (digits_int mi) (\<lambda>b. rbind (digits_int pa) (\<lambda>c.
            Inr \<lparr>major = a, minor = b, patch = c, suffix = su\<rparr>))))"

section \<open>Comparison\<close>

definition core :: "version \<Rightarrow> nat \<times> nat \<times> nat" where
  "core v = (major v, minor v, patch v)"

text \<open>\<open>re.fullmatch(r"-(\d+)", suffix)\<close>; the group is kept as the number \<open>int\<close> reads.\<close>

definition rebuild :: "string \<Rightarrow> nat option" where
  "rebuild su =
     (case su of
        c # cs \<Rightarrow> if c = CHR ''-'' \<and> cs \<noteq> [] \<and> list_all is_digit cs then Some (read_nat cs) else None
      | [] \<Rightarrow> None)"

definition compare_version :: "version \<Rightarrow> version \<Rightarrow> int" where
  "compare_version l r =
     (if core l < core r then -1
      else if core r < core l then 1
      else if suffix l = suffix r then 0
      else (case (rebuild (suffix l), rebuild (suffix r)) of
              (Some a, Some b) \<Rightarrow> of_bool (b < a) - of_bool (a < b)
            | (Some _, None) \<Rightarrow> 1
            | (None, Some _) \<Rightarrow> -1
            | (None, None) \<Rightarrow>
                if suffix l = [] then 1
                else if suffix r = [] then -1
                else if suffix l < suffix r then -1 else 1))"

section \<open>Constraints\<close>

datatype operator = Op_Eq | Op_Ne | Op_Ge | Op_Le | Op_Gt | Op_Lt

fun operator_text :: "operator \<Rightarrow> string" where
  "operator_text Op_Eq = ''==''"
| "operator_text Op_Ne = ''!=''"
| "operator_text Op_Ge = ''>=''"
| "operator_text Op_Le = ''<=''"
| "operator_text Op_Gt = ''>''"
| "operator_text Op_Lt = ''<''"

fun operator_holds :: "operator \<Rightarrow> int \<Rightarrow> bool" where
  "operator_holds Op_Eq c = (c = 0)"
| "operator_holds Op_Ne c = (c \<noteq> 0)"
| "operator_holds Op_Ge c = (c \<ge> 0)"
| "operator_holds Op_Le c = (c \<le> 0)"
| "operator_holds Op_Gt c = (c > 0)"
| "operator_holds Op_Lt c = (c < 0)"

text \<open>\<open>\s*([^\s,]+)\s*$\<close>\<close>

definition match_expected :: "string \<Rightarrow> string option" where
  "match_expected r =
     (let r1 = dropWhile is_space r; p = (\<lambda>c. \<not> is_space c \<and> c \<noteq> CHR '','')
      in if takeWhile p r1 \<noteq> [] \<and> list_all is_space (dropWhile p r1) then Some (takeWhile p r1) else None)"

text \<open>The alternatives of \<open>_CONSTRAINT_RE\<close> in the order the matcher tries them; no operator comes last.\<close>

fun match_operators :: "operator list \<Rightarrow> string \<Rightarrow> (operator \<times> string) option" where
  "match_operators [] s = map_option (\<lambda>e. (Op_Eq, e)) (match_expected s)"
| "match_operators (op # ops) s =
     (case (if startswith s (operator_text op)
            then match_expected (drop (length (operator_text op)) s) else None) of
        Some e \<Rightarrow> Some (op, e)
      | None \<Rightarrow> match_operators ops s)"

definition match_constraint :: "string \<Rightarrow> (operator \<times> string) option" where
  "match_constraint part =
     match_operators [Op_Eq, Op_Ne, Op_Ge, Op_Le, Op_Gt, Op_Lt] (dropWhile is_space part)"

fun satisfies_parts :: "version \<Rightarrow> string \<Rightarrow> string list \<Rightarrow> version_error + bool" where
  "satisfies_parts current constraint [] = Inr True"
| "satisfies_parts current constraint (part # parts) =
     (case match_constraint part of
        None \<Rightarrow> Inl (Invalid_Constraint constraint)
      | Some (op, expected_raw) \<Rightarrow>
          rbind (parse_version expected_raw) (\<lambda>expected.
            if operator_holds op (compare_version current expected)
            then satisfies_parts current constraint parts else Inr False))"

definition version_satisfies :: "string \<Rightarrow> string \<Rightarrow> version_error + bool" where
  "version_satisfies version constraint =
     (let raw = strip constraint
      in if raw = [] \<or> raw = ''*'' then Inr True
         else rbind (parse_version version) (\<lambda>current.
           satisfies_parts current constraint (split_on (CHR '','') raw)))"

section \<open>Three-way comparisons\<close>

locale three_way =
  fixes cmp :: "'a \<Rightarrow> 'a \<Rightarrow> int"
  assumes cmp_flip: "cmp b a = - cmp a b"
    and cmp_trans: "cmp a b \<le> 0 \<Longrightarrow> cmp b c \<le> 0 \<Longrightarrow> cmp a c \<le> 0"
begin

lemma cmp_refl: "cmp a a = 0"
  using cmp_flip [of a a] by simp

lemma cmp_total: "cmp a b \<le> 0 \<or> cmp b a \<le> 0"
  using cmp_flip [of b a] by linarith

lemma cmp_equiv_trans: "cmp a b = 0 \<Longrightarrow> cmp b c = 0 \<Longrightarrow> cmp a c = 0"
  using cmp_trans [of a b c] cmp_trans [of c b a] cmp_flip [of a b] cmp_flip [of b c] cmp_flip [of a c]
  by linarith

lemma cmp_strict_trans: "cmp a b < 0 \<Longrightarrow> cmp b c \<le> 0 \<Longrightarrow> cmp a c < 0"
  using cmp_trans [of a b c] cmp_trans [of b c a] cmp_flip [of a b] cmp_flip [of a c]
  by linarith

lemma cmp_strict_trans2: "cmp a b \<le> 0 \<Longrightarrow> cmp b c < 0 \<Longrightarrow> cmp a c < 0"
  using cmp_trans [of a b c] cmp_trans [of c a b] cmp_flip [of b c] cmp_flip [of a c]
  by linarith

lemma cmp_irrefl: "\<not> cmp a a < 0"
  by (simp add: cmp_refl)

lemma not_both_newer: "0 < cmp a b \<Longrightarrow> \<not> 0 < cmp b a"
  using cmp_flip [of b a] by linarith

end

lemma compare_flip: "compare_version r l = - compare_version l r"
  by (auto simp: compare_version_def split: option.splits)

text \<open>The comparison is the lexicographic order of a key: the release numbers, then the class of the
  suffix (other suffix, none, rebuild), then the rebuild number, then the suffix text.\<close>

definition version_key :: "version \<Rightarrow> (nat \<times> nat \<times> nat) \<times> nat \<times> nat \<times> string" where
  "version_key v =
     (core v,
      (case rebuild (suffix v) of
         Some n \<Rightarrow> (2, n, [])
       | None \<Rightarrow> if suffix v = [] then (1, 0, []) else (0, 0, suffix v)))"

lemma rebuild_Nil [simp]: "rebuild [] = None"
  by (simp add: rebuild_def)

lemma compare_key:
  "compare_version l r = (if version_key l < version_key r then -1
                          else if version_key r < version_key l then 1 else 0)"
  by (auto simp: compare_version_def version_key_def split: option.splits)

lemma compare_le: "compare_version l r \<le> 0 \<longleftrightarrow> version_key l \<le> version_key r"
  by (auto simp: compare_key not_less)

lemma compare_zero: "compare_version l r = 0 \<longleftrightarrow> version_key l = version_key r"
  by (auto simp: compare_key)

interpretation version_order: three_way compare_version
  by unfold_locales (rule compare_flip, simp add: compare_le)


section \<open>Reading back a printed version\<close>

definition valid_suffix :: "string \<Rightarrow> bool" where
  "valid_suffix su = (case su of [] \<Rightarrow> True
     | c # cs \<Rightarrow> suffix_head c \<and> cs \<noteq> [] \<and> list_all suffix_body cs)"

lemma takeWhile_digits_append:
  "\<forall>c \<in> set ds. is_digit c \<Longrightarrow> r = [] \<or> \<not> is_digit (hd r) \<Longrightarrow>
     takeWhile is_digit (ds @ r) = ds \<and> dropWhile is_digit (ds @ r) = r"
  by (cases r) (auto simp: takeWhile_append2 dropWhile_append2)

lemma suffix_head_not_digit: "suffix_head c \<Longrightarrow> \<not> is_digit c"
  by (auto simp: suffix_head_def is_digit_def code_def)

lemma digit_not_space: "is_digit c \<Longrightarrow> \<not> is_space c"
  by (auto simp: is_digit_def is_space_def Let_def)

lemma valid_suffix_hd: "valid_suffix su \<Longrightarrow> su = [] \<or> \<not> is_digit (hd su)"
  by (cases su) (auto simp: valid_suffix_def dest: suffix_head_not_digit)

lemma match_suffix_end_valid: "valid_suffix su \<Longrightarrow> match_suffix_end su = Some su"
proof (cases su)
  case (Cons c cs)
  assume "valid_suffix su"
  with Cons have ok: "suffix_head c" "cs \<noteq> []" "\<forall>x \<in> set cs. suffix_body x"
    by (auto simp: valid_suffix_def list_all_iff)
  have "takeWhile suffix_body cs = cs" "dropWhile suffix_body cs = []"
    using ok(3) by simp_all
  note this [simp]
  show ?thesis using ok(1,2) by (simp add: match_suffix_end_def Cons)
qed (simp add: match_suffix_end_def)

lemma match_dot_digits_show:
  assumes "r = [] \<or> \<not> is_digit (hd r)"
  shows "match_dot_digits (CHR ''.'' # show_nat n @ r) = Some (show_nat n, r)"
  using takeWhile_digits_append [of "show_nat n" r] assms show_nat_digits [of _ n]
  by (auto simp: match_dot_digits_def)

lemma match_version_show:
  assumes "valid_suffix su"
  shows "match_version (show_nat a @ ''.'' @ show_nat b @ ''.'' @ show_nat c @ su)
         = Some (show_nat a, show_nat b, show_nat c, su)"
proof -
  let ?r = "''.'' @ show_nat b @ ''.'' @ show_nat c @ su"
  obtain d ds where a: "show_nat a = d # ds" using show_nat_nonempty list.exhaust by metis
  then have "is_digit d" using show_nat_digits [of d a] by simp
  then have "dropWhile is_space (show_nat a @ ?r) = show_nat a @ ?r"
    by (simp add: a digit_not_space)
  moreover have "takeWhile is_digit (show_nat a @ ?r) = show_nat a \<and>
      dropWhile is_digit (show_nat a @ ?r) = ?r"
    using takeWhile_digits_append [of "show_nat a" ?r] show_nat_digits [of _ a]
    by (auto simp: is_digit_def code_def)
  moreover have "match_tail ?r = Some (show_nat b, show_nat c, su)"
    using match_dot_digits_show [of "''.'' @ show_nat c @ su" b]
      match_dot_digits_show [OF valid_suffix_hd [OF assms], of c]
      match_suffix_end_valid [OF assms]
    by (simp add: match_tail_def is_digit_def code_def)
  ultimately show ?thesis by (simp add: match_version_def)
qed

section \<open>Properties\<close>

text \<open>
  Module versions are totally preordered by the three-way comparison: swapping the operands negates
  it, it is transitive, and it is decided by the release numbers first, then by the class of the suffix,
  where a numeric rebuild is above the plain release and every other suffix below it.
\<close>

theorem compare_version_total_preorder:
  "compare_version b a = - compare_version a b
   \<and> (compare_version a b \<le> 0 \<and> compare_version b c \<le> 0 \<longrightarrow> compare_version a c \<le> 0)
   \<and> (compare_version a b = 0 \<longleftrightarrow> version_key a = version_key b)
   \<and> (core a < core b \<longrightarrow> compare_version a b = -1)
   \<and> (core a = core b \<and> rebuild (suffix a) = None \<and> suffix a \<noteq> [] \<and> suffix b = [] \<longrightarrow> compare_version a b = -1)
   \<and> (core a = core b \<and> suffix a = [] \<and> rebuild (suffix b) = Some n \<longrightarrow> compare_version a b = -1)"
proof (intro conjI impI)
  show "compare_version b a = - compare_version a b" by (rule compare_flip)
  show "compare_version a b \<le> 0 \<and> compare_version b c \<le> 0 \<Longrightarrow> compare_version a c \<le> 0"
    using version_order.cmp_trans [of a b c] by blast
  show "compare_version a b = 0 \<longleftrightarrow> version_key a = version_key b" by (rule compare_zero)
qed (auto simp: compare_version_def split: option.splits)

theorem compare_version_total_preorder_witness:
  "compare_version \<lparr>major = 1, minor = 2, patch = 0, suffix = ''-beta''\<rparr>
                   \<lparr>major = 1, minor = 2, patch = 0, suffix = []\<rparr> = -1"
  using compare_version_total_preorder
    [of "\<lparr>major = 1, minor = 2, patch = 0, suffix = []\<rparr>"
        "\<lparr>major = 1, minor = 2, patch = 0, suffix = ''-beta''\<rparr>"]
  by (simp add: core_def rebuild_def is_digit_def code_def)

text \<open>
  Reading back a written version gives the same numbers and the same suffix: the grammar accepts every
  release number triple with an empty or well-formed suffix and splits it at the right places.
\<close>

theorem parse_version_reads_back:
  assumes "valid_suffix su"
    and "length (show_nat a) \<le> 4300" "length (show_nat b) \<le> 4300" "length (show_nat c) \<le> 4300"
  shows "parse_version (show_nat a @ ''.'' @ show_nat b @ ''.'' @ show_nat c @ su)
         = Inr \<lparr>major = a, minor = b, patch = c, suffix = su\<rparr>"
  unfolding parse_version_def match_version_show [OF assms(1)]
  using assms(2-4) by (simp add: digits_int_def)

theorem parse_version_reads_back_witness:
  "parse_version (show_nat 1 @ ''.'' @ show_nat 17 @ ''.'' @ show_nat 110 @ ''-2'')
   = Inr \<lparr>major = 1, minor = 17, patch = 110, suffix = ''-2''\<rparr>"
  by (rule parse_version_reads_back) code_simp+

end
