(* ===== verification/Module_State.thy ===== *)
theory Module_State
  imports Urls Versions
begin

text \<open>
  The persistent module state (\<open>framwork/tec_tac/module_state.py\<close>, written through \<open>safe_files.atomic_json\<close>):
  the JSON file that says which modules are enabled and visible, read fail-closed and changed under an
  exclusive lock by read, modify, write. The world holds the file, the lock file, whether the disk accepts
  a write, and a counter of plugin-cache invalidations. A state is the dictionary \<open>load_state\<close> returns; a
  stored module entry that is not an object and not empty makes \<open>dict(...)\<close> raise.
\<close>

section \<open>The world of the state file\<close>

datatype state_file = File_Missing | File_Bad_Utf8 | File_Unreadable string | File_Json pyval

datatype lock_file = Lock_Present | Lock_Missing | Lock_Denied | Lock_OSError

datatype state_error = Lock_Unavailable | Lock_Permission | State_Bad_Utf8 | State_Unreadable
  | State_Bad_Structure | State_Corrupt_Save | State_Bad_Record | Write_Failed

record ms_world =
  ms_file :: state_file
  ms_lock :: lock_file
  ms_disk_ok :: bool
  ms_cache_epoch :: nat

section \<open>Reading\<close>

definition default_state :: pydict where
  "default_state = [(''schema'', PInt 1), (''modules'', PDict [])]"

definition corrupt_state :: "string \<Rightarrow> pydict" where
  "corrupt_state why = [(''schema'', PInt 1), (''modules'', PDict []), (''_corrupt'', PBool True), (''_error'', PStr why)]"

definition setdefault :: "string \<Rightarrow> pyval \<Rightarrow> pydict \<Rightarrow> pydict" where
  "setdefault k v d = (if has_key d k then d else d @ [(k, v)])"

text \<open>\<open>_state_lock\<close>: whether the body runs, for a shared or an exclusive holder.\<close>

definition state_lock :: "bool \<Rightarrow> lock_file \<Rightarrow> state_error + unit" where
  "state_lock exclusive l =
     (case l of
        Lock_Present \<Rightarrow> Inr ()
      | Lock_Missing \<Rightarrow> if exclusive then Inl Lock_Unavailable else Inr ()
      | Lock_Denied \<Rightarrow> if exclusive then Inl Lock_Permission else Inr ()
      | Lock_OSError \<Rightarrow> Inl Lock_Unavailable)"

definition load_state_unlocked :: "bool \<Rightarrow> state_file \<Rightarrow> state_error + pydict" where
  "load_state_unlocked mutation f =
     (case f of
        File_Missing \<Rightarrow> Inr default_state
      | File_Bad_Utf8 \<Rightarrow> Inl State_Bad_Utf8
      | File_Unreadable why \<Rightarrow> if mutation then Inl State_Unreadable else Inr (corrupt_state why)
      | File_Json payload \<Rightarrow>
          (let bad = (if mutation then Inl State_Bad_Structure
                      else Inr (corrupt_state ''Module state has an invalid structure.''))
           in case payload of
                PDict d \<Rightarrow>
                  if is_dict (get_or d ''modules'' (PDict []))
                  then Inr (setdefault ''modules'' (PDict []) (setdefault ''schema'' (PInt 1) d))
                  else bad
              | _ \<Rightarrow> bad))"

definition load_state :: "ms_world \<Rightarrow> state_error + pydict" where
  "load_state w = rbind (state_lock False (ms_lock w)) (\<lambda>_. load_state_unlocked False (ms_file w))"

definition modules_of :: "pydict \<Rightarrow> pydict" where
  "modules_of state = (case dget state ''modules'' of Some (PDict m) \<Rightarrow> m | _ \<Rightarrow> [])"

definition is_corrupt :: "pydict \<Rightarrow> bool" where
  "is_corrupt state = truthy (get_or state ''_corrupt'' PNone)"

definition module_record :: "string \<Rightarrow> pydict \<Rightarrow> pydict" where
  "module_record module_id state =
     (case dget (modules_of state) module_id of Some (PDict r) \<Rightarrow> r | _ \<Rightarrow> [])"

definition is_enabled :: "string \<Rightarrow> pydict \<Rightarrow> bool" where
  "is_enabled module_id state =
     (if is_corrupt state then False
      else truthy (get_or (module_record module_id state) ''enabled'' (PBool True)))"

definition is_visible :: "string \<Rightarrow> pydict \<Rightarrow> bool \<Rightarrow> bool" where
  "is_visible module_id state dflt =
     (if is_corrupt state then False
      else case dget (module_record module_id state) ''visible'' of Some v \<Rightarrow> truthy v | None \<Rightarrow> dflt)"

record plugin_ref =
  ref_id :: string
  ref_legacy :: bool

definition filter_enabled_plugins :: "ms_world \<Rightarrow> plugin_ref list \<Rightarrow> state_error + plugin_ref list" where
  "filter_enabled_plugins w plugins =
     rbind (load_state w) (\<lambda>state. Inr (filter (\<lambda>p. ref_legacy p \<or> is_enabled (ref_id p) state) plugins))"

section \<open>Writing\<close>

definition scrub_record :: "pyval \<Rightarrow> pyval" where
  "scrub_record r =
     (case r of
        PDict d \<Rightarrow>
          (case dget d ''source'' of
             Some (PDict src) \<Rightarrow>
               (case dget src ''repository_url'' of
                  Some url \<Rightarrow> PDict (dset ''source'' (PDict (dset ''repository_url'' (PStr (strip_repository_url url)) src)) d)
                | None \<Rightarrow> r)
           | _ \<Rightarrow> r)
      | _ \<Rightarrow> r)"

definition scrub_state_sources :: "pydict \<Rightarrow> pydict" where
  "scrub_state_sources state =
     (case dget state ''modules'' of
        Some (PDict m) \<Rightarrow> dset ''modules'' (PDict (map (\<lambda>(k, r). (k, scrub_record r)) m)) state
      | _ \<Rightarrow> state)"

text \<open>\<open>json.dumps(..., sort_keys=True)\<close> read back: every object of the file has its keys in order.\<close>

fun sort_keys :: "pyval \<Rightarrow> pyval" where
  "sort_keys (PList xs) = PList (map sort_keys xs)"
| "sort_keys (PDict d) = PDict (sort_key fst (map (\<lambda>kv. (fst kv, sort_keys (snd kv))) d))"
| "sort_keys v = v"

text \<open>\<open>atomic_json\<close>: a failed write leaves the previous file, because the new text goes to a temporary file that
  replaces it in one step.\<close>

definition atomic_json :: "pyval \<Rightarrow> ms_world \<Rightarrow> state_error + ms_world" where
  "atomic_json payload w =
     (if ms_disk_ok w then Inr (w\<lparr>ms_file := File_Json (sort_keys payload)\<rparr>) else Inl Write_Failed)"

definition save_state_unlocked :: "pydict \<Rightarrow> ms_world \<Rightarrow> state_error + ms_world" where
  "save_state_unlocked payload w =
     rcheck (is_corrupt payload) State_Corrupt_Save (atomic_json (PDict (scrub_state_sources payload)) w)"

definition invalidate_plugin_cache :: "ms_world \<Rightarrow> ms_world" where
  "invalidate_plugin_cache w = w\<lparr>ms_cache_epoch := Suc (ms_cache_epoch w)\<rparr>"

definition save_state :: "pydict \<Rightarrow> ms_world \<Rightarrow> state_error + ms_world" where
  "save_state payload w =
     rbind (state_lock True (ms_lock w)) (\<lambda>_.
     rbind (save_state_unlocked payload w) (\<lambda>w'. Inr (invalidate_plugin_cache w')))"

definition mutate_record :: "string \<Rightarrow> (pydict \<Rightarrow> pydict) \<Rightarrow> ms_world \<Rightarrow> state_error + pydict \<times> ms_world" where
  "mutate_record module_id mutate w =
     rbind (state_lock True (ms_lock w)) (\<lambda>_.
     rbind (load_state_unlocked True (ms_file w)) (\<lambda>state.
     rbind (as_dict State_Bad_Record (py_or (get_or (modules_of state) module_id PNone) (PDict []))) (\<lambda>record.
       (let record' = mutate record;
            state' = dset ''modules'' (PDict (dset module_id (PDict record') (modules_of state))) state
        in rbind (save_state_unlocked state' w) (\<lambda>w'. Inr (record', w'))))))"

definition set_enabled :: "string \<Rightarrow> bool \<Rightarrow> ms_world \<Rightarrow> state_error + pydict \<times> ms_world" where
  "set_enabled module_id enabled w = mutate_record module_id (dset ''enabled'' (PBool enabled)) w"

definition set_visible :: "string \<Rightarrow> bool \<Rightarrow> ms_world \<Rightarrow> state_error + pydict \<times> ms_world" where
  "set_visible module_id visible w = mutate_record module_id (dset ''visible'' (PBool visible)) w"

definition remember_version :: "string \<Rightarrow> string \<Rightarrow> ms_world \<Rightarrow> state_error + pydict \<times> ms_world" where
  "remember_version module_id version w =
     mutate_record module_id (\<lambda>r. dset ''version'' (PStr version) (setdefault ''enabled'' (PBool True) r)) w"

definition forget_module :: "string \<Rightarrow> ms_world \<Rightarrow> state_error + ms_world" where
  "forget_module module_id w =
     rbind (state_lock True (ms_lock w)) (\<lambda>_.
     rbind (load_state_unlocked True (ms_file w)) (\<lambda>state.
     rbind (if has_key (modules_of state) module_id
            then save_state_unlocked (dset ''modules'' (PDict (ddel module_id (modules_of state))) state) w
            else Inr w) (\<lambda>w'. Inr (invalidate_plugin_cache w'))))"


section \<open>What a write leaves in the file\<close>

lemma map_of_filter_key: "map_of d k = (case filter (\<lambda>p. fst p = k) d of [] \<Rightarrow> None | p # _ \<Rightarrow> Some (snd p))"
  by (induction d) auto

lemma map_of_sort_key [simp]: "map_of (sort_key fst d) = map_of d"
  by (rule ext) (simp add: map_of_filter_key sort_key_stable)

lemma map_of_sorted_values:
  "map_of (map (\<lambda>kv. (fst kv, f (snd kv))) d) k = map_option f (map_of d k)"
  by (induction d) auto

lemma truthy_sort_keys [simp]: "truthy (sort_keys v) = truthy v"
proof (cases v)
  case (PDict d)
  have "length (sort_key fst (map (\<lambda>kv. (fst kv, sort_keys (snd kv))) d)) = length d" by simp
  then show ?thesis unfolding PDict by (simp only: sort_keys.simps truthy.simps) (metis length_0_conv)
qed simp_all

definition sorted_dict :: "pydict \<Rightarrow> pydict" where
  "sorted_dict d = sort_key fst (map (\<lambda>kv. (fst kv, sort_keys (snd kv))) d)"

lemma sort_keys_PDict [simp]: "sort_keys (PDict d) = PDict (sorted_dict d)"
  by (simp add: sorted_dict_def)

declare sort_keys.simps(2) [simp del]

lemma dget_sorted_dict [simp]: "dget (sorted_dict d) k = map_option sort_keys (dget d k)"
  by (simp add: sorted_dict_def map_of_sorted_values)

lemma get_or_truthy_sorted: "truthy (get_or (sorted_dict d) k v) = truthy (get_or d k v)"
  by (simp add: get_or_def split: option.splits)

lemma is_dict_sort_keys [simp]: "is_dict (sort_keys v) = is_dict v"
  by (cases v) simp_all

lemma sort_keys_PDict_iff: "sort_keys v = PDict d \<longleftrightarrow> (\<exists>e. v = PDict e \<and> d = sorted_dict e)"
  by (cases v) auto

text \<open>A loaded state: an object whose \<open>modules\<close> entry is an object.\<close>

definition state_wf :: "pydict \<Rightarrow> bool" where
  "state_wf st = ((\<exists>m. dget st ''modules'' = Some (PDict m)) \<and> dget st ''schema'' \<noteq> None)"

lemma state_wfD: "state_wf st \<Longrightarrow> dget st ''modules'' = Some (PDict (modules_of st))"
  by (auto simp: state_wf_def modules_of_def)

lemma dget_setdefault: "dget (setdefault k v d) j = (if j = k \<and> dget d k = None then Some v else dget d j)"
  by (auto simp: setdefault_def has_key_iff map_add_def split: option.splits)

lemma load_state_unlocked_wf: "load_state_unlocked m f = Inr st \<Longrightarrow> state_wf st"
  by (auto simp: load_state_unlocked_def state_wf_def default_state_def corrupt_state_def Let_def
        dget_setdefault get_or_def is_dict_iff split: state_file.splits pyval.splits if_splits option.splits)

lemma setdefault_noop: "dget d k \<noteq> None \<Longrightarrow> setdefault k v d = d"
  by (simp add: setdefault_def has_key_iff)

lemma scrub_wf: "state_wf st \<Longrightarrow>
    scrub_state_sources st = dset ''modules'' (PDict (map (\<lambda>(k, r). (k, scrub_record r)) (modules_of st))) st"
  using state_wfD [of st] by (simp add: scrub_state_sources_def)

lemma modules_of_dset [simp]: "modules_of (dset ''modules'' (PDict m) st) = m"
  by (simp add: modules_of_def AList.update_conv')

lemma state_wf_dset: "state_wf st \<Longrightarrow> state_wf (dset ''modules'' (PDict m) st)"
  by (auto simp: state_wf_def AList.update_conv')

lemma is_corrupt_dset [simp]: "is_corrupt (dset ''modules'' v st) = is_corrupt st"
  by (simp add: is_corrupt_def)

text \<open>The state a successful save leaves, and how a later load sees it.\<close>

definition saved_state :: "pydict \<Rightarrow> pydict" where
  "saved_state st = sorted_dict (scrub_state_sources st)"

lemma save_loads:
  assumes "save_state_unlocked st w = Inr w'" and "state_wf st"
  shows "load_state_unlocked b (ms_file w') = Inr (saved_state st)" "ms_lock w' = ms_lock w"
    "\<not> is_corrupt (saved_state st)" "state_wf (saved_state st)"
proof -
  have wfile: "ms_file w' = File_Json (PDict (saved_state st))" and nc: "\<not> is_corrupt st"
    using assms(1) by (auto simp: save_state_unlocked_def atomic_json_def saved_state_def split: if_splits)
  show "ms_lock w' = ms_lock w"
    using assms(1) by (auto simp: save_state_unlocked_def atomic_json_def split: if_splits)
  show wf: "state_wf (saved_state st)"
    using assms(2) by (auto simp: saved_state_def scrub_wf state_wf_def AList.update_conv')
  show "\<not> is_corrupt (saved_state st)"
    using nc assms(2) by (simp add: saved_state_def scrub_wf is_corrupt_def get_or_truthy_sorted)
  show "load_state_unlocked b (ms_file w') = Inr (saved_state st)"
    using wf by (auto simp: wfile load_state_unlocked_def state_wf_def get_or_def setdefault_noop)
qed

lemma dget_modules_saved:
  "state_wf st \<Longrightarrow>
   dget (modules_of (saved_state st)) k = map_option (\<lambda>r. sort_keys (scrub_record r)) (dget (modules_of st) k)"
  by (simp add: saved_state_def scrub_wf modules_of_def AList.update_conv' map_of_map option.map_comp comp_def)

lemma scrub_record_field: "scrub_record (PDict r) = PDict r' \<Longrightarrow> k \<noteq> ''source'' \<Longrightarrow> dget r' k = dget r k"
  by (auto simp: scrub_record_def AList.update_conv' split: option.splits pyval.splits)

lemma scrub_record_dict: "(\<exists>d. scrub_record r = PDict d) \<longleftrightarrow> (\<exists>d. r = PDict d)"
  by (auto simp: scrub_record_def split: option.splits pyval.splits)

lemma record_field_saved:
  assumes "state_wf st" "k \<noteq> ''source''"
  shows "dget (module_record i (saved_state st)) k = map_option sort_keys (dget (module_record i st) k)"
proof (cases "dget (modules_of st) i")
  case None
  then show ?thesis by (simp add: module_record_def dget_modules_saved assms(1))
next
  case (Some r)
  show ?thesis
  proof (cases r)
    case (PDict d)
    then obtain d' where d': "scrub_record r = PDict d'" using scrub_record_dict by blast
    then show ?thesis
      using scrub_record_field [of d d' k] assms Some PDict
      by (simp add: module_record_def dget_modules_saved)
  qed (use Some assms in \<open>simp_all add: module_record_def dget_modules_saved scrub_record_def\<close>)
qed

lemma is_enabled_saved:
  "state_wf st \<Longrightarrow> \<not> is_corrupt (saved_state st) \<Longrightarrow> \<not> is_corrupt st \<Longrightarrow> is_enabled i (saved_state st) = is_enabled i st"
  using record_field_saved [of st "''enabled''" i]
  by (auto simp: is_enabled_def get_or_def split: option.splits)

lemma is_visible_saved:
  "state_wf st \<Longrightarrow> \<not> is_corrupt (saved_state st) \<Longrightarrow> \<not> is_corrupt st \<Longrightarrow> is_visible i (saved_state st) b = is_visible i st b"
  using record_field_saved [of st "''visible''" i]
  by (auto simp: is_visible_def split: option.splits)

text \<open>A successful mutation: the state that was loaded, the record it changed and the state it saved.\<close>

lemma mutate_record_cases:
  assumes "mutate_record i f w = Inr (r', w')"
  obtains st where "load_state w = Inr st" "state_wf st" "\<not> is_corrupt st"
    "r' = f (module_record i st)"
    "load_state w' = Inr (saved_state (dset ''modules'' (PDict (dset i (PDict r') (modules_of st))) st))"
    "\<not> is_corrupt (saved_state (dset ''modules'' (PDict (dset i (PDict r') (modules_of st))) st))"
proof -
  from assms obtain st r where st: "load_state_unlocked True (ms_file w) = Inr st"
    and lock: "state_lock True (ms_lock w) = Inr ()"
    and rec: "py_or (get_or (modules_of st) i PNone) (PDict []) = PDict r" "r' = f r"
    and save: "save_state_unlocked (dset ''modules'' (PDict (dset i (PDict r') (modules_of st))) st) w = Inr w'"
    by (auto simp: mutate_record_def Let_def)
  have wf: "state_wf st" using load_state_unlocked_wf [OF st] .
  have lp: "ms_lock w = Lock_Present"
    using lock by (auto simp: state_lock_def split: lock_file.splits if_splits)
  have load: "load_state w = Inr st"
    using st lp by (auto simp: load_state_def state_lock_def load_state_unlocked_def Let_def
        split: state_file.splits pyval.splits if_splits)
  have nc: "\<not> is_corrupt st" using save by (simp add: save_state_unlocked_def)
  have r: "r = module_record i st"
    using rec(1) by (auto simp: module_record_def py_or_def get_or_def split: option.splits if_splits pyval.splits)
  note saved = save_loads [OF save state_wf_dset [OF wf]]
  have "load_state w' = Inr (saved_state (dset ''modules'' (PDict (dset i (PDict r') (modules_of st))) st))"
    using saved(1) [of False] saved(2) lp by (simp add: load_state_def state_lock_def)
  with that load wf nc rec(2) r saved(3) show ?thesis by blast
qed

lemma module_record_dset:
  "module_record j (dset ''modules'' (PDict (dset i (PDict r) (modules_of st))) st)
   = (if j = i then r else module_record j st)"
  by (simp add: module_record_def AList.update_conv')


lemma mutate_flag:
  assumes "mutate_record i (dset k (PBool b)) w = Inr (r, w')" "k \<noteq> ''source''"
  obtains st st' where "load_state w = Inr st" "load_state w' = Inr st'" "\<not> is_corrupt st" "\<not> is_corrupt st'"
    "\<And>j l. l \<noteq> ''source'' \<Longrightarrow> dget (module_record j st') l
       = (if j = i \<and> l = k then Some (PBool b) else map_option sort_keys (dget (module_record j st) l))"
proof -
  from mutate_record_cases [OF assms(1)] obtain st where st: "load_state w = Inr st" "state_wf st" "\<not> is_corrupt st"
    "r = dset k (PBool b) (module_record i st)"
    "load_state w' = Inr (saved_state (dset ''modules'' (PDict (dset i (PDict r) (modules_of st))) st))"
    "\<not> is_corrupt (saved_state (dset ''modules'' (PDict (dset i (PDict r) (modules_of st))) st))" .
  have "dget (module_record j (saved_state (dset ''modules'' (PDict (dset i (PDict r) (modules_of st))) st))) l
       = (if j = i \<and> l = k then Some (PBool b) else map_option sort_keys (dget (module_record j st) l))"
    if "l \<noteq> ''source''" for j l
    using record_field_saved [OF state_wf_dset [OF st(2)] that]
    by (auto simp: module_record_dset st(4) AList.update_conv')
  with st that show ?thesis by blast
qed

section \<open>Properties\<close>

definition damaged :: "state_file \<Rightarrow> bool" where
  "damaged f = (case f of File_Missing \<Rightarrow> False | File_Json (PDict d) \<Rightarrow> \<not> is_dict (get_or d ''modules'' (PDict [])) | _ \<Rightarrow> True)"

lemma damaged_no_load: "damaged f \<Longrightarrow> load_state_unlocked True f \<noteq> Inr st"
  by (auto simp: damaged_def load_state_unlocked_def Let_def split: state_file.splits pyval.splits if_splits)

text \<open>
  (C34) A damaged state file fails closed and is never overwritten: no read-modify-write operation succeeds on it,
  and a reader that does get an answer sees every module disabled and hidden.
\<close>

theorem damaged_state_fails_closed:
  assumes "damaged (ms_file w)"
  shows "\<not> is_ok (set_enabled i b w) \<and> \<not> is_ok (set_visible i b w) \<and> \<not> is_ok (remember_version i v w)
    \<and> \<not> is_ok (forget_module i w)
    \<and> (\<forall>st. load_state w = Inr st \<longrightarrow> \<not> is_enabled i st \<and> \<not> is_visible i st True)"
proof (intro conjI)
  note no = damaged_no_load [OF assms]
  show "\<not> is_ok (set_enabled i b w)" "\<not> is_ok (set_visible i b w)" "\<not> is_ok (remember_version i v w)"
    using no by (auto simp: is_ok_iff set_enabled_def set_visible_def remember_version_def mutate_record_def)
  show "\<not> is_ok (forget_module i w)" using no by (auto simp: is_ok_iff forget_module_def)
  show "\<forall>st. load_state w = Inr st \<longrightarrow> \<not> is_enabled i st \<and> \<not> is_visible i st True"
    using assms by (auto simp: damaged_def load_state_def load_state_unlocked_def is_enabled_def is_visible_def
        is_corrupt_def corrupt_state_def get_or_def Let_def split: state_file.splits pyval.splits if_splits)
qed

theorem damaged_state_fails_closed_witness:
  "\<not> is_ok (set_enabled ''groups'' True
     \<lparr>ms_file = File_Json (PDict [(''modules'', PList [])]), ms_lock = Lock_Present, ms_disk_ok = True, ms_cache_epoch = 0\<rparr>)"
  using damaged_state_fails_closed
    [of "\<lparr>ms_file = File_Json (PDict [(''modules'', PList [])]), ms_lock = Lock_Present, ms_disk_ok = True, ms_cache_epoch = 0\<rparr>"
        "''groups''" True]
  by (simp add: damaged_def get_or_def)



text \<open>
  No write of the module state leaves a repository address that was not cleaned: after any successful change
  every stored \<open>source.repository_url\<close> is the output of \<open>strip_repository_url\<close>.
\<close>

theorem stored_repository_urls_are_clean:
  assumes "mutate_record i f w = Inr (r, w')" and "load_state w' = Inr st'"
    and "dget (module_record j st') ''source'' = Some (PDict src)" and "dget src ''repository_url'' = Some u"
  shows "\<exists>v. u = PStr (strip_repository_url v)"
proof -
  from mutate_record_cases [OF assms(1)] obtain st where st: "state_wf st"
    "load_state w' = Inr (saved_state (dset ''modules'' (PDict (dset i (PDict r) (modules_of st))) st))" by blast
  let ?s = "dset ''modules'' (PDict (dset i (PDict r) (modules_of st))) st"
  have "dget (modules_of (saved_state ?s)) j = Some (PDict (module_record j st'))"
    using st(2) assms(2,3) by (auto simp: module_record_def split: option.splits pyval.splits)
  then obtain q where q: "sort_keys (scrub_record q) = PDict (module_record j st')"
    by (auto simp: dget_modules_saved state_wf_dset st(1))
  then obtain d where d: "scrub_record q = PDict d" "module_record j st' = sorted_dict d"
    by (auto simp: sort_keys_PDict_iff)
  then obtain s0 where s0: "dget d ''source'' = Some (PDict s0)" "src = sorted_dict s0"
    using assms(3) by (auto simp: sort_keys_PDict_iff)
  then obtain u0 where u0: "dget s0 ''repository_url'' = Some u0" "u = sort_keys u0"
    using assms(4) by auto
  have "\<exists>v. u0 = PStr (strip_repository_url v)"
    using d(1) s0(1) u0(1) by (auto simp: scrub_record_def AList.update_conv' split: pyval.splits option.splits)
      (rule exI, rule refl)
  with u0(2) show ?thesis by auto
qed

theorem stored_repository_urls_are_clean_witness:
  "\<exists>v. strip_repository_url (PStr ''https://u:p@host/x?t=1'') = strip_repository_url v \<and>
       strip_repository_url v = ''https://host/x''"
proof -
  let ?src = "PDict [(''source'', PDict [(''repository_url'', PStr ''https://u:p@host/x?t=1'')])]"
  let ?w = "\<lparr>ms_file = File_Json (PDict [(''modules'', PDict [(''m'', ?src)])]), ms_lock = Lock_Present,
             ms_disk_ok = True, ms_cache_epoch = 0\<rparr>"
  let ?w' = "\<lparr>ms_file = File_Json (PDict [(''modules'', PDict [(''m'', PDict [(''enabled'', PBool True),
               (''source'', PDict [(''repository_url'', PStr ''https://host/x'')])])]), (''schema'', PInt 1)]),
             ms_lock = Lock_Present, ms_disk_ok = True, ms_cache_epoch = 0\<rparr>"
  have url: "strip_repository_url (PStr ''https://u:p@host/x?t=1'') = ''https://host/x''" by code_simp
  have "mutate_record ''m'' (dset ''enabled'' (PBool True)) ?w
      = Inr ([(''source'', PDict [(''repository_url'', PStr ''https://u:p@host/x?t=1'')]), (''enabled'', PBool True)], ?w')"
    by code_simp
  note clean = stored_repository_urls_are_clean [OF this]
  have "\<exists>v. PStr ''https://host/x'' = PStr (strip_repository_url v)"
    by (rule clean [where j = "''m''" and src = "[(''repository_url'', PStr ''https://host/x'')]"]) code_simp+
  with url show ?thesis by auto
qed

end
