(* ===== verification/Schedule_Visibility.thy ===== *)
theory Schedule_Visibility
  imports Schedule_Payload Module_State
begin

text \<open>
  What the module state and the module registry say about a schedule (\<open>ScheduleVisibility\<close> of \<open>scheduler.py\<close>): a
  schedule of a disabled module is paused and hidden, one whose owner is not installed is orphaned, and an
  unreadable module state decides nothing in the database but lets no module-bound schedule run. The
  module state is read through the state store's \<open>load_state\<close>; the registry's plugin list is an input.
\<close>

definition core_own_module_ids :: "string list" where
  "core_own_module_ids = [''tec-tac'', ''core'']"

definition paused_module_disabled :: string where
  "paused_module_disabled = ''paused: module disabled''"

definition paused_owner_not_installed :: string where
  "paused_owner_not_installed = ''paused: owner module not installed''"

definition core_reasons :: "string list" where
  "core_reasons = [paused_module_disabled, paused_owner_not_installed]"

section \<open>Reading the state and the registry\<close>

definition module_state_for_tick :: "ms_world \<Rightarrow> pydict option" where
  "module_state_for_tick w = (case load_state w of Inl _ \<Rightarrow> None | Inr st \<Rightarrow> if is_corrupt st then None else Some st)"

text \<open>\<open>None\<close>: the registry could not be read, or lists no plugin with an id.\<close>

definition registry_ids :: "plugin_ref list option \<Rightarrow> (string list \<times> string list) option" where
  "registry_ids plugins = (case plugins of None \<Rightarrow> None | Some ps \<Rightarrow>
     (let installed = filter (\<lambda>i. i \<noteq> []) (map ref_id ps) in
      if installed = [] then None else Some (installed, filter (\<lambda>i. i \<noteq> []) (map ref_id (filter ref_legacy ps)))))"

record visibility =
  vis_unreadable :: bool
  vis_state :: "pydict option"
  vis_installed :: "string list option"
  vis_legacy :: "string list"

definition schedule_visibility :: "ms_world \<Rightarrow> plugin_ref list option \<Rightarrow> visibility" where
  "schedule_visibility w plugins = (let st = module_state_for_tick w; found = registry_ids plugins in
     \<lparr>vis_unreadable = (st = None), vis_state = st,
      vis_installed = (case found of None \<Rightarrow> None | Some (installed, _) \<Rightarrow> Some installed),
      vis_legacy = (case found of None \<Rightarrow> [] | Some (_, legacy) \<Rightarrow> legacy)\<rparr>)"

definition installed_module_ids :: "plugin_ref list option \<Rightarrow> string list option" where
  "installed_module_ids plugins = (case registry_ids plugins of None \<Rightarrow> None | Some (installed, _) \<Rightarrow> Some (installed @ core_own_module_ids))"

definition hidden_module_ids :: "plugin_ref list option \<Rightarrow> pydict option \<Rightarrow> string list \<Rightarrow> string list" where
  "hidden_module_ids plugins st extra = (case st of None \<Rightarrow> [] | Some s \<Rightarrow>
     (let legacy = (case registry_ids plugins of None \<Rightarrow> [] | Some (_, l) \<Rightarrow> l) in
      filter (\<lambda>m. m \<noteq> [] \<and> m \<notin> set core_own_module_ids \<and> m \<notin> set legacy \<and> \<not> is_enabled m s)
        (dedup (keys (modules_of s) @ extra))))"

section \<open>The kind of a schedule\<close>

datatype sched_kind = Ordinary | Kind_Disabled | Kind_Orphaned

definition is_disabled :: "visibility \<Rightarrow> string \<Rightarrow> bool" where
  "is_disabled vis m = (case vis_state vis of None \<Rightarrow> False | Some st \<Rightarrow> \<not> is_enabled m st)"

definition bound_ids :: "visibility \<Rightarrow> string \<Rightarrow> string \<Rightarrow> string list" where
  "bound_ids vis md ow = filter (\<lambda>m. m \<noteq> [] \<and> m \<notin> set core_own_module_ids \<and> m \<notin> set (vis_legacy vis)) (dedup [md, ow])"

definition orphan_module_of :: "visibility \<Rightarrow> string \<Rightarrow> string \<Rightarrow> owner_type \<Rightarrow> string" where
  "orphan_module_of vis md ow ot = (case vis_installed vis of None \<Rightarrow> [] | Some installed \<Rightarrow>
     (let owner = (if ot = Owner_Module then ow else md) in
      if owner = [] \<or> owner \<in> set core_own_module_ids \<or> owner \<in> set (vis_legacy vis) \<or> owner \<in> set installed then [] else owner))"

definition not_installed :: "visibility \<Rightarrow> string \<Rightarrow> bool" where
  "not_installed vis m = (case vis_installed vis of None \<Rightarrow> False | Some installed \<Rightarrow> m \<notin> set installed)"

definition disabled_module_of :: "visibility \<Rightarrow> string \<Rightarrow> string \<Rightarrow> string" where
  "disabled_module_of vis md ow = (let ids = bound_ids vis md ow in
     if vis_unreadable vis then (case ids of [] \<Rightarrow> [] | m # _ \<Rightarrow> m)
     else (case find (\<lambda>m. \<not> not_installed vis m \<and> is_disabled vis m) ids of None \<Rightarrow> [] | Some m \<Rightarrow> m))"

definition kind_of :: "visibility \<Rightarrow> string \<Rightarrow> string \<Rightarrow> owner_type \<Rightarrow> sched_kind" where
  "kind_of vis md ow ot = (if orphan_module_of vis md ow ot \<noteq> [] then Kind_Orphaned
     else if disabled_module_of vis md ow \<noteq> [] then Kind_Disabled else Ordinary)"

definition kind :: "visibility \<Rightarrow> schedule \<Rightarrow> sched_kind" where
  "kind vis s = kind_of vis (sc_module_id s) (sc_owner_module s) (sc_owner_type s)"

definition responsible_module :: "visibility \<Rightarrow> schedule \<Rightarrow> string" where
  "responsible_module vis s =
     (let o1 = orphan_module_of vis (sc_module_id s) (sc_owner_module s) (sc_owner_type s);
          o2 = disabled_module_of vis (sc_module_id s) (sc_owner_module s) in
      if o1 \<noteq> [] then o1 else if o2 \<noteq> [] then o2
      else (case bound_ids vis (sc_module_id s) (sc_owner_module s) of [] \<Rightarrow> [] | m # _ \<Rightarrow> m))"

definition run_blocked_reason :: "visibility \<Rightarrow> string \<Rightarrow> string \<Rightarrow> owner_type \<Rightarrow> string" where
  "run_blocked_reason vis md ow ot = (case kind_of vis md ow ot of
     Kind_Orphaned \<Rightarrow> ''This schedule was not run because the module that owns it is not installed.''
   | Kind_Disabled \<Rightarrow> if vis_unreadable vis then ''This schedule was not run because the module state could not be read.''
                     else ''This schedule was not run because its module is disabled.''
   | Ordinary \<Rightarrow> [])"

section \<open>Pausing and resuming\<close>

definition wanted_reason :: "sched_kind \<Rightarrow> string" where
  "wanted_reason k = (case k of Kind_Orphaned \<Rightarrow> paused_owner_not_installed | Kind_Disabled \<Rightarrow> paused_module_disabled | Ordinary \<Rightarrow> [])"

datatype sync_note = Sync_Paused string string | Sync_Resumed string string

text \<open>One schedule of \<open>sync_module_schedule_state\<close>: the row it saves and what is counted for the audit row of the module.\<close>

definition sync_one :: "visibility \<Rightarrow> schedule \<Rightarrow> schedule \<times> sync_note option" where
  "sync_one vis s = (let k = kind vis s; wanted = wanted_reason k; current = sc_paused_reason s in
     if k = Kind_Disabled \<and> vis_unreadable vis then (s, None)
     else if wanted \<noteq> [] then
       (if sc_enabled s \<and> current \<noteq> wanted
        then (s\<lparr>sc_paused_reason := wanted\<rparr>, Some (Sync_Paused (responsible_module vis s) wanted)) else (s, None))
     else if current \<in> set core_reasons \<and> \<not> (vis_unreadable vis \<and> current = paused_module_disabled)
     then (s\<lparr>sc_paused_reason := []\<rparr>, Some (Sync_Resumed (responsible_module vis s) current))
     else (s, None))"

definition sync_notes :: "visibility \<Rightarrow> schedule list \<Rightarrow> sync_note list" where
  "sync_notes vis ss = List.map_filter (\<lambda>s. snd (sync_one vis s)) ss"

text \<open>One audit row per module and reason, with the number of schedules: first the pauses, then the resumes.\<close>

definition sync_audit :: "sync_note list \<Rightarrow> (sync_note \<times> nat) list" where
  "sync_audit notes =
     (let rows = (\<lambda>sel. map (\<lambda>n. (n, length (filter (\<lambda>m. m = n) notes))) (dedup (filter sel notes))) in
      rows (\<lambda>n. case n of Sync_Paused _ _ \<Rightarrow> True | _ \<Rightarrow> False) @ rows (\<lambda>n. case n of Sync_Resumed _ _ \<Rightarrow> True | _ \<Rightarrow> False))"

definition sync_module_schedule_state :: "visibility \<Rightarrow> schedule list \<Rightarrow> schedule list \<times> (sync_note \<times> nat) list" where
  "sync_module_schedule_state vis ss = (map (fst \<circ> sync_one vis) ss, sync_audit (sync_notes vis ss))"

text \<open>\<open>_apply_module_pause\<close>: whether the tick leaves the schedule alone, and the row it saves.\<close>

definition apply_module_pause :: "visibility \<Rightarrow> schedule \<Rightarrow> bool \<times> schedule" where
  "apply_module_pause vis s = (let k = kind vis s in
     if k \<noteq> Ordinary then
       (True, if \<not> (k = Kind_Disabled \<and> vis_unreadable vis) \<and> sc_paused_reason s \<noteq> wanted_reason k
              then s\<lparr>sc_paused_reason := wanted_reason k\<rparr> else s)
     else (False, if sc_paused_reason s \<in> set core_reasons then s\<lparr>sc_paused_reason := []\<rparr> else s))"

section \<open>Facts\<close>

lemma wanted_reason_simps [simp]:
  "wanted_reason Ordinary = []" "wanted_reason k = [] \<longleftrightarrow> k = Ordinary" "k \<noteq> Ordinary \<Longrightarrow> wanted_reason k \<in> set core_reasons"
  by (cases k; simp add: wanted_reason_def core_reasons_def paused_module_disabled_def paused_owner_not_installed_def)+

lemma unreadable_blocks:
  assumes "vis_unreadable vis" and "bound_ids vis md ow \<noteq> []"
  shows "kind_of vis md ow ot \<noteq> Ordinary"
proof -
  obtain m ms where m: "bound_ids vis md ow = m # ms" using assms(2) by (cases "bound_ids vis md ow") auto
  then have "m \<noteq> []" unfolding bound_ids_def by (metis (mono_tags, lifting) filter_eq_ConsD)
  then show ?thesis using assms m by (simp add: kind_of_def disabled_module_of_def Let_def)
qed

lemma kind_paused_reason [simp]: "kind vis (s\<lparr>sc_paused_reason := r\<rparr>) = kind vis s"
  by (simp add: kind_def)

lemma blank_is_no_core_reason [simp]: "[] \<notin> set core_reasons"
  by (simp add: core_reasons_def paused_module_disabled_def paused_owner_not_installed_def)

text \<open>The pause of disabled and removed modules: the sync changes nothing of a schedule but the pause reason, and that only
  to the reason its kind asks for, clearing Core's own reasons only; with a readable module state an enabled
  schedule ends with a Core reason exactly when its module is disabled or its owner is not installed; with an
  unreadable one no module-bound schedule changes; and a second sync finds nothing to do.\<close>

theorem sync_pauses_exactly:
  assumes "sync_one vis s = (s', n)"
  shows "s' = s\<lparr>sc_paused_reason := sc_paused_reason s'\<rparr> \<and>
    (s' \<noteq> s \<longrightarrow> sc_paused_reason s' = wanted_reason (kind vis s) \<and> (sc_paused_reason s' = [] \<longrightarrow> sc_paused_reason s \<in> set core_reasons)) \<and>
    (\<not> vis_unreadable vis \<and> sc_enabled s \<longrightarrow>
       (if kind vis s = Ordinary then sc_paused_reason s' \<notin> set core_reasons else sc_paused_reason s' = wanted_reason (kind vis s))) \<and>
    (vis_unreadable vis \<and> kind vis s = Kind_Disabled \<longrightarrow> s' = s) \<and>
    sync_one vis s' = (s', None)"
proof -
  consider (waiting) "kind vis s = Kind_Disabled" "vis_unreadable vis"
    | (paused) "kind vis s \<noteq> Ordinary" "\<not> (kind vis s = Kind_Disabled \<and> vis_unreadable vis)"
    | (free) "kind vis s = Ordinary" by blast
  then show ?thesis
  proof cases
    case paused
    define r where "r = wanted_reason (kind vis s)"
    have r: "r \<noteq> []" using paused by (simp add: r_def)
    have one: "sync_one vis t = (if sc_enabled t \<and> sc_paused_reason t \<noteq> r
        then (t\<lparr>sc_paused_reason := r\<rparr>, Some (Sync_Paused (responsible_module vis t) r)) else (t, None))"
      if "kind vis t = kind vis s" for t
      using paused r that unfolding sync_one_def Let_def r_def by auto
    show ?thesis
    proof (cases "sc_enabled s \<and> sc_paused_reason s \<noteq> r")
      case True
      then have e: "s' = s\<lparr>sc_paused_reason := r\<rparr>" using assms one [OF refl] by simp
      have p: "sc_paused_reason s' = r" unfolding e by simp
      have u: "s' = s\<lparr>sc_paused_reason := sc_paused_reason s'\<rparr>" unfolding p by (rule e)
      have q: "sync_one vis s' = (s', None)" using one [of s'] p unfolding e by simp
      show ?thesis by (intro conjI u q) (use paused r p in \<open>auto simp: r_def\<close>)
    next
      case False
      then have "s' = s" using assms one [OF refl] by auto
      then show ?thesis using False paused one [OF refl] by (simp add: r_def split: if_split)
    qed
  next
    case free
    have one: "sync_one vis t = (if sc_paused_reason t \<in> set core_reasons \<and> \<not> (vis_unreadable vis \<and> sc_paused_reason t = paused_module_disabled)
        then (t\<lparr>sc_paused_reason := []\<rparr>, Some (Sync_Resumed (responsible_module vis t) (sc_paused_reason t))) else (t, None))"
      if "kind vis t = kind vis s" for t
      using free that unfolding sync_one_def Let_def by simp
    show ?thesis
    proof (cases "sc_paused_reason s \<in> set core_reasons \<and> \<not> (vis_unreadable vis \<and> sc_paused_reason s = paused_module_disabled)")
      case True
      then have e: "s' = s\<lparr>sc_paused_reason := []\<rparr>" using assms one [OF refl] by simp
      have p: "sc_paused_reason s' = []" unfolding e by simp
      have u: "s' = s\<lparr>sc_paused_reason := sc_paused_reason s'\<rparr>" unfolding p by (rule e)
      have q: "sync_one vis s' = (s', None)" using one [of s'] p unfolding e by simp
      show ?thesis by (intro conjI u q) (use free p True in auto)
    next
      case False
      then have "s' = s" using assms one [OF refl] by auto
      then show ?thesis using False free one [OF refl] by auto
    qed
  qed (use assms in \<open>auto simp: sync_one_def Let_def\<close>)
qed

theorem sync_pauses_exactly_witness:
  "sync_one \<lparr>vis_unreadable = False, vis_state = Some default_state, vis_installed = Some [''other''], vis_legacy = []\<rparr> demo_schedule =
     (demo_schedule\<lparr>sc_paused_reason := paused_owner_not_installed\<rparr>, Some (Sync_Paused ''alerts'' paused_owner_not_installed)) \<and>
   sync_one \<lparr>vis_unreadable = False, vis_state = Some default_state, vis_installed = Some [''other''], vis_legacy = []\<rparr>
     (demo_schedule\<lparr>sc_paused_reason := paused_owner_not_installed\<rparr>) = (demo_schedule\<lparr>sc_paused_reason := paused_owner_not_installed\<rparr>, None)"
proof -
  let ?vis = "\<lparr>vis_unreadable = False, vis_state = Some default_state, vis_installed = Some [''other''], vis_legacy = []\<rparr>"
  have *: "sync_one ?vis demo_schedule =
      (demo_schedule\<lparr>sc_paused_reason := paused_owner_not_installed\<rparr>, Some (Sync_Paused ''alerts'' paused_owner_not_installed))"
    by code_simp
  then show ?thesis using sync_pauses_exactly [OF *] by blast
qed

lemma pause_check_agrees:
  assumes "apply_module_pause vis s = (stop, s')"
  shows "stop \<longleftrightarrow> kind vis s \<noteq> Ordinary" and "s' = s\<lparr>sc_paused_reason := sc_paused_reason s'\<rparr>"
    and "vis_unreadable vis \<and> kind vis s = Kind_Disabled \<longrightarrow> s' = s"
  using assms by (auto simp: apply_module_pause_def Let_def split: if_splits)

lemma blocked_reason_iff: "run_blocked_reason vis md ow ot = [] \<longleftrightarrow> kind_of vis md ow ot = Ordinary"
  by (cases "kind_of vis md ow ot") (simp_all add: run_blocked_reason_def)

end
