(* ===== verification/Scheduler_Targets.thy ===== *)
theory Scheduler_Targets
  imports Py_Value
begin

text \<open>
  The target shapes of a schedule (\<open>framwork/tec_tac/scheduler_targets.py\<close>): validation and canonical form of
  static Tactical-native targets (\<open>type\<close> and \<open>ids\<close>) and of dynamic targets (\<open>scope\<close> and \<open>filter\<close>), with the legacy
  aliases turned into the canonical scope before authorisation, persistence or a handler sees them. Each
  \<open>raise SchedulerTargetShapeError\<close> is a constructor of \<open>target_error\<close>; \<open>Uncaught\<close> is an exception the code does not
  catch.
\<close>

section \<open>Vocabulary\<close>

datatype target_error = Targets_Not_Object | Ids_Not_Array | Unknown_Keys | Id_Not_Integer | Id_Not_Positive
  | Endpoint_Id_Empty | Alias_Conflict string | Scope_Not_Object | Scope_Bad_Type | Ids_Without_Type
  | Ids_Alias_Conflict | Foreign_Ids | Scope_Without_Ids | Scope_Missing | Scope_Ambiguous | Root_Conflict
  | No_Scope | Native_Without_Ids | Filter_Not_Object | Filter_Scope_Key string | Filter_Scope_Value string
  | Uncaught py_exn

definition native_kind :: "string \<Rightarrow> string option" where
  "native_kind = map_of [
     (''client'', ''client''), (''clients'', ''client''), (''site'', ''site''), (''sites'', ''site''),
     (''endpoint'', ''endpoint''), (''endpoints'', ''endpoint''), (''agent'', ''endpoint''), (''agents'', ''endpoint'')]"

definition kinds :: "string list" where
  "kinds = [''client'', ''site'', ''endpoint'']"

definition aliases :: "string \<Rightarrow> string list" where
  "aliases kind =
     (if kind = ''client'' then [''client_id'', ''client_ids'', ''client'', ''clients'']
      else if kind = ''site'' then [''site_id'', ''site_ids'', ''site'', ''sites'']
      else [''agent_id'', ''agent_ids'', ''endpoint_id'', ''endpoint_ids'', ''agent'', ''agents'', ''endpoint'', ''endpoints''])"

definition all_aliases :: "string list" where
  "all_aliases = concat (map aliases kinds)"

definition reserved_filter_scope_keys :: "string list" where
  "reserved_filter_scope_keys = [''id'', ''ids''] @ all_aliases"

section \<open>Scope references hidden in filter values\<close>

fun camel_breaks :: "string \<Rightarrow> string" where
  "camel_breaks (a # b # cs) =
     (if (is_lower_ascii a \<or> is_digit a) \<and> is_upper_ascii b
      then a # CHR ''_'' # camel_breaks (b # cs) else a # camel_breaks (b # cs))"
| "camel_breaks s = s"

text \<open>\<open>re.sub(r"[^a-zA-Z0-9]+", "_", s)\<close>; the flag says whether the previous character was replaced.\<close>

fun squash_other :: "bool \<Rightarrow> string \<Rightarrow> string" where
  "squash_other r [] = []"
| "squash_other r (c # cs) =
     (if is_alnum_ascii c then c # squash_other False cs
      else if r then squash_other True cs else CHR ''_'' # squash_other True cs)"

fun collapse_underscores :: "string \<Rightarrow> string" where
  "collapse_underscores (a # b # cs) =
     (if a = CHR ''_'' \<and> b = CHR ''_'' then collapse_underscores (b # cs) else a # collapse_underscores (b # cs))"
| "collapse_underscores s = s"

definition normalize_token :: "string \<Rightarrow> string" where
  "normalize_token t =
     collapse_underscores (lower (strip_by (\<lambda>c. c = CHR ''_'') (squash_other False (camel_breaks t))))"

definition path_separator :: "char \<Rightarrow> bool" where
  "path_separator c = (c = CHR ''.'' \<or> c = CHR ''/'' \<or> c = CHR '':'' \<or> c = CHR ''['' \<or> c = CHR '']'')"

fun split_reference :: "string \<Rightarrow> string \<Rightarrow> string list" where
  "split_reference acc (a # b # cs) =
     (if a = CHR ''_'' \<and> b = CHR ''_'' then rev acc # split_reference [] cs
      else if path_separator a then rev acc # split_reference [] (b # cs)
      else split_reference (a # acc) (b # cs))"
| "split_reference acc [a] = (if path_separator a then [rev acc, []] else [rev (a # acc)])"
| "split_reference acc [] = [rev acc]"

definition lookup_suffixes :: "string list" where
  "lookup_suffixes = [
     ''exact'', ''iexact'', ''contains'', ''icontains'', ''in'', ''gt'', ''gte'',
     ''lt'', ''lte'', ''startswith'', ''istartswith'', ''endswith'', ''iendswith'',
     ''range'', ''date'', ''year'', ''iso_year'', ''month'', ''day'', ''week'',
     ''week_day'', ''iso_week_day'', ''quarter'', ''time'', ''hour'', ''minute'',
     ''second'', ''isnull'', ''regex'', ''iregex'']"

definition scope_nouns :: "string list" where
  "scope_nouns = [''client'', ''clients'', ''site'', ''sites'', ''agent'', ''agents'', ''endpoint'', ''endpoints'']"

definition specific_keys :: "string list" where
  "specific_keys = filter (\<lambda>k. k \<notin> set ([''id'', ''ids''] @ scope_nouns)) reserved_filter_scope_keys"

fun noun_pair :: "string list \<Rightarrow> string option" where
  "noun_pair (l # r # ps) =
     (let alias = rstrip_by (\<lambda>c. c = CHR ''s'') l @ ''_'' @ (if r = ''ids'' then ''ids'' else ''id'')
      in if l \<in> set scope_nouns \<and> r \<in> {''id'', ''ids'', ''pk''} \<and> alias \<in> set specific_keys then Some alias
         else noun_pair (r # ps))"
| "noun_pair _ = None"

definition scope_alias_token :: "string \<Rightarrow> string option" where
  "scope_alias_token value =
     (let raw = strip value in
      if raw = [] then None
      else if normalize_token raw \<in> set reserved_filter_scope_keys then Some (normalize_token raw)
      else
        (let parts0 = map normalize_token (filter (\<lambda>p. p \<noteq> []) (split_reference [] raw));
             parts = rev (dropWhile (\<lambda>p. p \<in> set lookup_suffixes) (rev parts0))
         in case find (\<lambda>t. t \<in> set specific_keys) parts of
              Some t \<Rightarrow> Some t
            | None \<Rightarrow> noun_pair parts))"

fun first_some :: "'a option list \<Rightarrow> 'a option" where
  "first_some [] = None"
| "first_some (None # xs) = first_some xs"
| "first_some (Some a # xs) = Some a"

fun reserved_filter_value :: "pyval \<Rightarrow> string option" where
  "reserved_filter_value (PStr s) = scope_alias_token s"
| "reserved_filter_value (PList xs) = first_some (map reserved_filter_value xs)"
| "reserved_filter_value (PDict d) = first_some (map (\<lambda>kv. reserved_filter_value (snd kv)) d)"
| "reserved_filter_value _ = None"

section \<open>Identifiers\<close>

fun type_name :: "pyval \<Rightarrow> string" where
  "type_name PNone = ''NoneType''"
| "type_name (PBool _) = ''bool''"
| "type_name (PInt _) = ''int''"
| "type_name (PFloat _) = ''float''"
| "type_name (PStr _) = ''str''"
| "type_name (PList _) = ''list''"
| "type_name (PDict _) = ''dict''"

fun dedupe_from :: "(string \<times> string) list \<Rightarrow> pyval list \<Rightarrow> pyval list" where
  "dedupe_from seen [] = []"
| "dedupe_from seen (v # vs) =
     (if (type_name v, py_str v) \<in> set seen then dedupe_from seen vs
      else v # dedupe_from ((type_name v, py_str v) # seen) vs)"

definition dedupe :: "pyval list \<Rightarrow> pyval list" where
  "dedupe values = dedupe_from [] values"

definition as_id_list :: "pyval \<Rightarrow> pyval list" where
  "as_id_list v = (case v of PList xs \<Rightarrow> xs | PNone \<Rightarrow> [] | PStr s \<Rightarrow> if s = [] then [] else [v] | _ \<Rightarrow> [v])"

definition canonical_number :: "pyval \<Rightarrow> target_error + pyval" where
  "canonical_number v =
     (if is_bool v then Inl Id_Not_Integer
      else case py_int v of
             Inl OverflowError \<Rightarrow> Inl (Uncaught OverflowError)
           | Inl _ \<Rightarrow> Inl Id_Not_Integer
           | Inr n \<Rightarrow> if n \<le> 0 then Inl Id_Not_Positive else Inr (PInt n))"

definition canonical_endpoint :: "pyval \<Rightarrow> target_error + pyval" where
  "canonical_endpoint v =
     (if is_bool v \<or> v = PNone \<or> v = PStr [] then Inl Endpoint_Id_Empty
      else if strip (py_str v) = [] then Inl Endpoint_Id_Empty
      else Inr (PStr (strip (py_str v))))"

definition canonical_ids :: "string \<Rightarrow> pyval \<Rightarrow> target_error + pyval list" where
  "canonical_ids kind values =
     rbind (as_list Ids_Not_Array values) (\<lambda>vs.
     rbind (rmap (if kind = ''client'' \<or> kind = ''site'' then canonical_number else canonical_endpoint) vs)
       (\<lambda>cleaned. Inr (dedupe cleaned)))"

definition reject_unknown_keys :: "pydict \<Rightarrow> string list \<Rightarrow> target_error + unit" where
  "reject_unknown_keys d allowed = (if list_all (\<lambda>kv. fst kv \<in> set allowed) d then Inr () else Inl Unknown_Keys)"

section \<open>Scopes\<close>

type_synonym scope = "string \<times> pyval list"

definition scope_val :: "scope \<Rightarrow> pyval" where
  "scope_val s = PDict [(''type'', PStr (fst s)), (''ids'', PList (snd s))]"

definition legacy_scope_candidate :: "pydict \<Rightarrow> string \<Rightarrow> target_error + pyval list option" where
  "legacy_scope_candidate d kind =
     (let present = filter (has_key d) (aliases kind)
      in if present = [] then Inr None
         else rbind (rmap (\<lambda>key. canonical_ids kind (PList (as_id_list (get_or d key PNone)))) present) (\<lambda>resolved.
           if list_ex (\<lambda>v. v \<noteq> hd resolved) (tl resolved) then Inl (Alias_Conflict kind)
           else Inr (Some (hd resolved))))"

text \<open>The loop over the kinds builds the ordered dictionary of candidates.\<close>

fun collect_candidates :: "pydict \<Rightarrow> string list \<Rightarrow> target_error + (string \<times> pyval list) list" where
  "collect_candidates d [] = Inr []"
| "collect_candidates d (k # ks) =
     rbind (legacy_scope_candidate d k) (\<lambda>c.
     rbind (collect_candidates d ks) (\<lambda>rest.
       Inr (case c of None \<Rightarrow> rest | Some vs \<Rightarrow> (k, vs) # rest)))"

definition canonical_dynamic_scope :: "pyval \<Rightarrow> target_error + scope" where
  "canonical_dynamic_scope value =
     rbind (as_dict Scope_Not_Object value) (\<lambda>scope.
     rbind (reject_unknown_keys scope ([''type'', ''ids''] @ all_aliases)) (\<lambda>_.
     (let explicit_type = clean_lower (get_or scope ''type'' PNone);
          explicit_kind = (if explicit_type = [] then None else native_kind explicit_type)
      in rcheck (explicit_type \<noteq> [] \<and> explicit_kind = None) Scope_Bad_Type
        (rbind (collect_candidates scope kinds) (\<lambda>candidates0.
         rbind
           (if has_key scope ''ids'' then
              (case explicit_kind of
                 None \<Rightarrow> Inl Ids_Without_Type
               | Some k \<Rightarrow>
                   rbind (canonical_ids k (get_or scope ''ids'' PNone)) (\<lambda>vs.
                     if dget candidates0 k \<noteq> None \<and> dget candidates0 k \<noteq> Some vs then Inl Ids_Alias_Conflict
                     else Inr (dset k vs candidates0)))
            else Inr candidates0) (\<lambda>candidates.
         case explicit_kind of
           Some k \<Rightarrow>
             rcheck (list_ex (\<lambda>c. fst c \<noteq> k) candidates) Foreign_Ids
             (case dget candidates k of None \<Rightarrow> Inl Scope_Without_Ids | Some vs \<Rightarrow> Inr (k, vs))
         | None \<Rightarrow>
             (case candidates of
                [] \<Rightarrow> Inl Scope_Missing
              | [c] \<Rightarrow> Inr c
              | _ \<Rightarrow> Inl Scope_Ambiguous)))))))"

definition dynamic_root_scope :: "pydict \<Rightarrow> target_error + scope" where
  "dynamic_root_scope targets =
     rbind (reject_unknown_keys targets ([''type'', ''scope'', ''filter''] @ all_aliases)) (\<lambda>_.
     rbind (case dget targets ''scope'' of
              None \<Rightarrow> Inr None
            | Some s \<Rightarrow> rbind (canonical_dynamic_scope s) (\<lambda>c. Inr (Some c))) (\<lambda>canonical.
     (let root = concat (map (\<lambda>k. case dget targets k of None \<Rightarrow> [] | Some v \<Rightarrow> [(k, v)]) all_aliases)
      in rbind (if root = [] then Inr canonical
                else rbind (canonical_dynamic_scope (PDict root)) (\<lambda>rc.
                  if canonical \<noteq> None \<and> canonical \<noteq> Some rc then Inl Root_Conflict else Inr (Some rc))) (\<lambda>c.
         case c of None \<Rightarrow> Inl No_Scope | Some s \<Rightarrow> Inr s))))"

section \<open>The entry points\<close>

definition normalize_scheduler_targets :: "pyval \<Rightarrow> target_error + pydict" where
  "normalize_scheduler_targets value =
     rbind (as_dict Targets_Not_Object (if value = PNone then PDict [(''type'', PStr ''none'')] else value)) (\<lambda>targets.
     (let target_type = lower (strip (py_str (py_or (get_or targets ''type'' PNone) (PStr ''none''))))
      in if target_type = [] \<or> target_type = ''none'' then
           rbind (reject_unknown_keys targets [''type'']) (\<lambda>_. Inr [(''type'', PStr ''none'')])
         else case native_kind target_type of
           Some kind \<Rightarrow>
             rbind (reject_unknown_keys targets [''type'', ''ids'']) (\<lambda>_.
             rcheck (\<not> has_key targets ''ids'') Native_Without_Ids
             (rbind (canonical_ids kind (get_or targets ''ids'' PNone)) (\<lambda>vs.
               Inr [(''type'', PStr target_type), (''ids'', PList vs)])))
         | None \<Rightarrow>
             if target_type \<noteq> ''dynamic'' then Inr targets
             else
               rbind (dynamic_root_scope targets) (\<lambda>scope.
               rbind (as_dict Filter_Not_Object (get_or targets ''filter'' (PDict []))) (\<lambda>filt.
               (case find (\<lambda>k. k \<in> set reserved_filter_scope_keys) (map (\<lambda>kv. lower (strip (fst kv))) filt) of
                  Some k \<Rightarrow> Inl (Filter_Scope_Key k)
                | None \<Rightarrow>
                    (case reserved_filter_value (PDict filt) of
                       Some a \<Rightarrow> Inl (Filter_Scope_Value a)
                     | None \<Rightarrow>
                         Inr ([(''type'', PStr ''dynamic''), (''scope'', scope_val scope)]
                              @ (if filt = [] then [] else [(''filter'', PDict filt)]))))))))"

definition dict_of :: "pyval \<Rightarrow> pydict" where
  "dict_of v = (case v of PDict d \<Rightarrow> d | _ \<Rightarrow> [])"

definition list_of :: "pyval \<Rightarrow> pyval list" where
  "list_of v = (case v of PList xs \<Rightarrow> xs | _ \<Rightarrow> [])"

text \<open>\<open>tactical_scope_ref\<close>; the lookups \<open>canonical["scope"]\<close>, \<open>_NATIVE_KIND[...]\<close> and \<open>["ids"]\<close> raise \<open>KeyError\<close> when the key
  is absent.\<close>

definition tactical_scope_ref :: "pyval \<Rightarrow> target_error + string \<times> pyval list" where
  "tactical_scope_ref targets =
     rbind (normalize_scheduler_targets targets) (\<lambda>canonical.
     (let target_type = get_or canonical ''type'' (PStr ''none'')
      in if target_type = PStr ''none'' then Inr (''none'', [])
         else if target_type = PStr ''dynamic'' then
           (case dget canonical ''scope'' of
              None \<Rightarrow> Inl (Uncaught KeyError)
            | Some scope \<Rightarrow>
                (case native_kind (py_str (get_or (dict_of scope) ''type'' PNone)) of
                   None \<Rightarrow> Inl (Uncaught KeyError)
                 | Some k \<Rightarrow> Inr (k, list_of (get_or (dict_of scope) ''ids'' PNone))))
         else if is_list target_type \<or> is_dict target_type then Inl (Uncaught TypeError)
         else case (case target_type of PStr t \<Rightarrow> native_kind t | _ \<Rightarrow> None) of
                None \<Rightarrow> Inr (''module'', [])
              | Some k \<Rightarrow>
                  (case dget canonical ''ids'' of
                     None \<Rightarrow> Inl (Uncaught KeyError)
                   | Some ids \<Rightarrow> Inr (k, list_of ids))))"

section \<open>Canonical identifiers\<close>

abbreviation marker :: "pyval \<Rightarrow> string \<times> string" where
  "marker v \<equiv> (type_name v, py_str v)"

lemma dedupe_from_markers: "distinct (map marker (dedupe_from seen vs)) \<and> marker ` set (dedupe_from seen vs) \<inter> set seen = {}"
  by (induction seen vs rule: dedupe_from.induct) auto

lemma dedupe_from_subset: "set (dedupe_from seen vs) \<subseteq> set vs"
  by (induction seen vs rule: dedupe_from.induct) auto

lemma dedupe_from_id: "distinct (map marker vs) \<Longrightarrow> marker ` set vs \<inter> set seen = {} \<Longrightarrow> dedupe_from seen vs = vs"
  by (induction seen vs rule: dedupe_from.induct) auto

definition canonical_id :: "string \<Rightarrow> pyval \<Rightarrow> bool" where
  "canonical_id kind v =
     (if kind = ''client'' \<or> kind = ''site'' then (\<exists>n > 0. v = PInt n)
      else (\<exists>s. v = PStr s \<and> s \<noteq> [] \<and> strip s = s))"

definition canonical_list :: "string \<Rightarrow> pyval list \<Rightarrow> bool" where
  "canonical_list kind vs = (distinct vs \<and> distinct (map marker vs) \<and> (\<forall>v \<in> set vs. canonical_id kind v))"

lemma canonical_number_ok: "canonical_number v = Inr w \<Longrightarrow> \<exists>n > 0. w = PInt n"
  by (auto simp: canonical_number_def split: if_splits sum.splits py_exn.splits)

lemma canonical_endpoint_ok: "canonical_endpoint v = Inr w \<Longrightarrow> \<exists>s. w = PStr s \<and> s \<noteq> [] \<and> strip s = s"
  by (auto simp: canonical_endpoint_def split: if_splits)

lemma canonical_ids_ok: "canonical_ids kind v = Inr vs \<Longrightarrow> canonical_list kind vs"
proof -
  assume "canonical_ids kind v = Inr vs"
  then obtain ws cleaned where c: "rmap (if kind = ''client'' \<or> kind = ''site'' then canonical_number else canonical_endpoint) ws = Inr cleaned"
      "vs = dedupe cleaned"
    by (auto simp: canonical_ids_def)
  have "canonical_id kind w" if "w \<in> set cleaned" for w
    using rmap_Inr_set [OF c(1) that] canonical_number_ok canonical_endpoint_ok
    by (auto simp: canonical_id_def split: if_splits)
  moreover have "distinct (map marker vs)" "set vs \<subseteq> set cleaned"
    using dedupe_from_markers [of "[]" cleaned] dedupe_from_subset [of "[]" cleaned] by (auto simp: c(2) dedupe_def)
  ultimately show ?thesis by (auto simp: canonical_list_def distinct_map)
qed

lemma canonical_ids_id: "canonical_list kind vs \<Longrightarrow> canonical_ids kind (PList vs) = Inr vs"
proof -
  assume c: "canonical_list kind vs"
  let ?f = "if kind = ''client'' \<or> kind = ''site'' then canonical_number else canonical_endpoint"
  have "?f v = Inr v" if "v \<in> set vs" for v
    using c that by (auto simp: canonical_list_def canonical_id_def canonical_number_def canonical_endpoint_def split: if_splits)
  then have "rmap ?f vs = Inr vs" using rmap_all_Inr [of vs ?f id] by simp
  moreover have "dedupe vs = vs" using c dedupe_from_id [of vs "[]"] by (simp add: canonical_list_def dedupe_def)
  ultimately show ?thesis by (simp add: canonical_ids_def)
qed

definition canonical_scope :: "scope \<Rightarrow> bool" where
  "canonical_scope s = (fst s \<in> set kinds \<and> canonical_list (fst s) (snd s))"

lemma legacy_scope_candidate_ok: "legacy_scope_candidate d k = Inr (Some vs) \<Longrightarrow> canonical_list k vs"
proof -
  assume *: "legacy_scope_candidate d k = Inr (Some vs)"
  let ?f = "\<lambda>key. canonical_ids k (PList (as_id_list (get_or d key PNone)))"
  obtain p ps where ps: "filter (has_key d) (aliases k) = p # ps"
    using * by (cases "filter (has_key d) (aliases k)") (auto simp: legacy_scope_candidate_def)
  have "\<exists>resolved. rmap ?f (p # ps) = Inr resolved \<and> vs = hd resolved"
    using * unfolding legacy_scope_candidate_def ps Let_def by (auto split: if_splits)
  then show ?thesis by (auto dest: canonical_ids_ok)
qed

lemma collect_candidates_ok:
  "collect_candidates d ks = Inr cs \<Longrightarrow> (k, vs) \<in> set cs \<Longrightarrow> k \<in> set ks \<and> canonical_list k vs"
  by (induction ks arbitrary: cs) (auto split: option.splits dest: legacy_scope_candidate_ok)

lemma native_kind_kinds: "native_kind t = Some k \<Longrightarrow> k \<in> set kinds"
  by (auto simp: native_kind_def kinds_def split: if_splits)

lemma native_kind_id: "k \<in> set kinds \<Longrightarrow> native_kind k = Some k \<and> k \<noteq> [] \<and> lower (strip k) = k"
proof -
  have "list_all (\<lambda>k. native_kind k = Some k \<and> k \<noteq> [] \<and> lower (strip k) = k) kinds" by code_simp
  then show "k \<in> set kinds \<Longrightarrow> native_kind k = Some k \<and> k \<noteq> [] \<and> lower (strip k) = k"
    by (simp add: list_all_iff)
qed

lemma canonical_dynamic_scope_ok:
  assumes "canonical_dynamic_scope v = Inr s"
  shows "canonical_scope s"
proof -
  have cand: "canonical_scope c" if "collect_candidates d kinds = Inr cs" "c \<in> set cs" for d cs c
    using collect_candidates_ok [OF that(1), of "fst c" "snd c"] that(2) by (simp add: canonical_scope_def)
  have looked: "canonical_scope (k, vs)" if "collect_candidates d kinds = Inr cs" "dget cs k = Some vs" for d cs k vs
    using cand [OF that(1) map_of_SomeD [OF that(2)]] .
  have ids: "canonical_scope (k, vs)" if "canonical_ids k w = Inr vs" "native_kind t = Some k" for k vs w t
    using canonical_ids_ok [OF that(1)] native_kind_kinds [OF that(2)] by (simp add: canonical_scope_def)
  show ?thesis
    using assms unfolding canonical_dynamic_scope_def Let_def
    by (auto split: option.splits if_splits list.splits simp: AList.update_conv'
        intro: cand looked ids)
qed

lemma no_candidates: "(\<And>k. k \<in> set all_aliases \<Longrightarrow> \<not> has_key d k) \<Longrightarrow> set ks \<subseteq> set kinds \<Longrightarrow> collect_candidates d ks = Inr []"
proof (induction ks)
  case (Cons k ks)
  have "set (aliases k) \<subseteq> set all_aliases" using Cons.prems(2) by (auto simp: all_aliases_def)
  then have "filter (has_key d) (aliases k) = []" using Cons.prems(1) by (auto simp: filter_empty_conv)
  then have "legacy_scope_candidate d k = Inr None" by (simp add: legacy_scope_candidate_def)
  then show ?case using Cons by simp
qed simp

lemma alias_names: "k \<in> set all_aliases \<Longrightarrow> k \<noteq> ''type'' \<and> k \<noteq> ''ids'' \<and> k \<noteq> ''scope'' \<and> k \<noteq> ''filter''"
  by (auto simp: all_aliases_def kinds_def aliases_def)

lemma canonical_dynamic_scope_id: "canonical_scope s \<Longrightarrow> canonical_dynamic_scope (scope_val s) = Inr s"
proof -
  assume c: "canonical_scope s"
  let ?d = "[(''type'', PStr (fst s)), (''ids'', PList (snd s))]"
  have "collect_candidates ?d kinds = Inr []"
    by (rule no_candidates) (auto simp: has_key_def dest: alias_names)
  moreover have "reject_unknown_keys ?d ([''type'', ''ids''] @ all_aliases) = Inr ()"
    by (simp add: reject_unknown_keys_def)
  ultimately show ?thesis
    using c native_kind_id [of "fst s"] canonical_ids_id [of "fst s" "snd s"]
    by (simp add: canonical_dynamic_scope_def scope_val_def canonical_scope_def Let_def get_or_def has_key_def)
qed

lemma dynamic_root_scope_ok: "dynamic_root_scope d = Inr s \<Longrightarrow> canonical_scope s"
  by (auto simp: dynamic_root_scope_def Let_def dest: canonical_dynamic_scope_ok split: option.splits if_splits)


section \<open>The canonical forms\<close>

lemma native_type_fixed:
  assumes "native_kind t = Some k"
  shows "lower (strip t) = t" "t \<noteq> []" "t \<noteq> ''none''" "t \<noteq> ''dynamic''" "strip t \<noteq> []"
proof -
  have "list_all (\<lambda>t. lower (strip t) = t \<and> t \<noteq> [] \<and> t \<noteq> ''none'' \<and> t \<noteq> ''dynamic'') scope_nouns" by code_simp
  moreover have "t \<in> set scope_nouns"
    using assms by (auto simp: native_kind_def scope_nouns_def split: if_splits)
  ultimately show t: "lower (strip t) = t" "t \<noteq> []" "t \<noteq> ''none''" "t \<noteq> ''dynamic''"
    by (simp_all add: list_all_iff)
  show "strip t \<noteq> []" using t(1,2) by (metis lower_Nil_iff)
qed

definition filter_clean :: "pydict \<Rightarrow> bool" where
  "filter_clean filt =
     (find (\<lambda>k. k \<in> set reserved_filter_scope_keys) (map (\<lambda>kv. lower (strip (fst kv))) filt) = None
      \<and> reserved_filter_value (PDict filt) = None)"

definition target_type :: "pydict \<Rightarrow> string" where
  "target_type d = lower (strip (py_str (py_or (get_or d ''type'' PNone) (PStr ''none''))))"

definition dynamic_targets :: "scope \<Rightarrow> pydict \<Rightarrow> pydict" where
  "dynamic_targets scope filt =
     [(''type'', PStr ''dynamic''), (''scope'', scope_val scope)] @ (if filt = [] then [] else [(''filter'', PDict filt)])"

text \<open>The four shapes a successful normalisation can have.\<close>

lemma normalize_cases:
  assumes "normalize_scheduler_targets v = Inr d"
  obtains (none) "d = [(''type'', PStr ''none'')]"
  | (native) t k vs where "native_kind t = Some k" "canonical_list k vs" "d = [(''type'', PStr t), (''ids'', PList vs)]"
  | (module) "v = PDict d" "native_kind (target_type d) = None" "target_type d \<notin> {[], ''none'', ''dynamic''}"
  | (dynamic) scope filt where "canonical_scope scope" "filter_clean filt" "d = dynamic_targets scope filt"
proof -
  from assms obtain ts where ts: "(if v = PNone then PDict [(''type'', PStr ''none'')] else v) = PDict ts"
    by (auto simp: normalize_scheduler_targets_def)
  note eq = assms [unfolded normalize_scheduler_targets_def ts as_dict.simps rbind.simps Let_def, folded target_type_def]
  consider "target_type ts = [] \<or> target_type ts = ''none''"
    | k where "native_kind (target_type ts) = Some k" "target_type ts \<noteq> []" "target_type ts \<noteq> ''none''"
    | "native_kind (target_type ts) = None" "target_type ts \<notin> {[], ''none'', ''dynamic''}"
    | "native_kind (target_type ts) = None" "target_type ts = ''dynamic''"
    by fastforce
  then show thesis
  proof cases
    case 1
    with eq show thesis by (auto intro: none)
  next
    case 2
    with eq show thesis by (auto intro: native dest: canonical_ids_ok)
  next
    case 3
    with eq have "ts = d" by auto
    moreover from this ts 3 have "v = PDict d"
      by (auto simp: target_type_def get_or_def py_or_def split: if_splits) code_simp
    ultimately show thesis using 3 module by simp
  next
    case 4
    with eq show thesis
      by (auto simp: dynamic_targets_def filter_clean_def intro!: dynamic dest: dynamic_root_scope_ok split: option.splits)
  qed
qed

lemma dynamic_root_scope_id:
  assumes "canonical_scope s"
  shows "dynamic_root_scope (dynamic_targets s filt) = Inr s"
proof -
  have "reject_unknown_keys (dynamic_targets s filt) ([''type'', ''scope'', ''filter''] @ all_aliases) = Inr ()"
    by (simp add: reject_unknown_keys_def dynamic_targets_def)
  moreover have "dget (dynamic_targets s filt) k = None" if "k \<in> set all_aliases" for k
    using alias_names [OF that] by (simp add: dynamic_targets_def)
  then have "concat (map (\<lambda>k. case dget (dynamic_targets s filt) k of None \<Rightarrow> [] | Some v \<Rightarrow> [(k, v)]) all_aliases) = []"
    by simp
  moreover have "dget (dynamic_targets s filt) ''scope'' = Some (scope_val s)" by (simp add: dynamic_targets_def)
  ultimately show ?thesis by (simp add: dynamic_root_scope_def canonical_dynamic_scope_id [OF assms])
qed

lemma type_texts: "strip ''none'' = ''none''" "strip ''dynamic'' = ''dynamic''" "lower ''none'' = ''none''" "lower ''dynamic'' = ''dynamic''"
  "lower (strip ''none'') = ''none''" "lower (strip ''dynamic'') = ''dynamic''" "native_kind ''dynamic'' = None"
  by code_simp+

lemma normalize_dynamic:
  assumes "canonical_scope s" "filter_clean filt"
  shows "normalize_scheduler_targets (PDict (dynamic_targets s filt)) = Inr (dynamic_targets s filt)"
proof -
  define d where "d = dynamic_targets s filt"
  have ty: "get_or d ''type'' PNone = PStr ''dynamic''" and fi: "get_or d ''filter'' (PDict []) = PDict filt"
    by (simp_all add: d_def dynamic_targets_def get_or_def)
  have "normalize_scheduler_targets (PDict d) = Inr ([(''type'', PStr ''dynamic''), (''scope'', scope_val s)]
      @ (if filt = [] then [] else [(''filter'', PDict filt)]))"
    using assms(2) dynamic_root_scope_id [OF assms(1), of filt]
    by (simp add: normalize_scheduler_targets_def ty fi py_or_def type_texts filter_clean_def d_def [symmetric] Let_def)
  then show ?thesis by (simp add: d_def dynamic_targets_def)
qed

section \<open>Properties\<close>

text \<open>
  The canonical form of schedule targets is stable: normalising an accepted value again returns it unchanged,
  so what was authorised and stored is what a later check or a handler sees.
\<close>

theorem normalize_scheduler_targets_idempotent:
  assumes "normalize_scheduler_targets v = Inr d"
  shows "normalize_scheduler_targets (PDict d) = Inr d"
  using assms
proof (cases rule: normalize_cases)
  case none
  then show ?thesis
    by (simp add: normalize_scheduler_targets_def get_or_def py_or_def type_texts reject_unknown_keys_def)
next
  case (native t k vs)
  then show ?thesis
    using native_type_fixed [OF native(1)] canonical_ids_id [OF native(2)]
    by (simp add: normalize_scheduler_targets_def get_or_def py_or_def reject_unknown_keys_def has_key_def)
next
  case module
  then show ?thesis
    by (simp add: normalize_scheduler_targets_def target_type_def Let_def)
next
  case (dynamic s filt)
  then show ?thesis by (simp add: normalize_dynamic)
qed

theorem normalize_scheduler_targets_idempotent_witness:
  "normalize_scheduler_targets (PDict [(''type'', PStr ''dynamic''),
      (''scope'', PDict [(''type'', PStr ''site''), (''ids'', PList [PInt 4, PInt 9])])])
   = Inr [(''type'', PStr ''dynamic''), (''scope'', PDict [(''type'', PStr ''site''), (''ids'', PList [PInt 4, PInt 9])])]"
proof -
  have "normalize_scheduler_targets (PDict [(''type'', PStr '' Dynamic''), (''site_ids'', PList [PStr ''4'', PInt 9, PInt 4])])
    = Inr [(''type'', PStr ''dynamic''), (''scope'', PDict [(''type'', PStr ''site''), (''ids'', PList [PInt 4, PInt 9])])]"
    by code_simp
  then show ?thesis by (rule normalize_scheduler_targets_idempotent)
qed

text \<open>
  An accepted dynamic target has exactly one Tactical scope and no second channel for one: the scope's kind is
  client, site or endpoint, its identifiers are distinct and well-formed for that kind, no top-level filter key
  is a scope alias and no value anywhere in the filter spells one.
\<close>

theorem dynamic_targets_single_scope_channel:
  assumes "normalize_scheduler_targets v = Inr d" and "dget d ''type'' = Some (PStr ''dynamic'')"
  shows "\<exists>k vs filt. dget d ''scope'' = Some (scope_val (k, vs)) \<and> k \<in> set kinds
    \<and> distinct vs \<and> (\<forall>x \<in> set vs. canonical_id k x)
    \<and> get_or d ''filter'' (PDict []) = PDict filt
    \<and> (\<forall>kv \<in> set filt. lower (strip (fst kv)) \<notin> set reserved_filter_scope_keys)
    \<and> reserved_filter_value (PDict filt) = None"
  using assms(1)
proof (cases rule: normalize_cases)
  case (native t k vs)
  then show ?thesis using assms(2) native_type_fixed [OF native(1)] by simp
next
  case module
  then show ?thesis using assms(2) by (simp add: target_type_def get_or_def py_or_def type_texts)
next
  case (dynamic s filt)
  obtain k vs where s: "s = (k, vs)" by (cases s)
  have "\<forall>kv \<in> set filt. lower (strip (fst kv)) \<notin> set reserved_filter_scope_keys"
    using dynamic(2) by (auto simp: filter_clean_def find_None_iff)
  moreover have "get_or d ''filter'' (PDict []) = PDict filt"
    unfolding dynamic(3) by (simp add: dynamic_targets_def get_or_def)
  moreover have "dget d ''scope'' = Some (scope_val (k, vs))"
    unfolding dynamic(3) s by (simp add: dynamic_targets_def)
  ultimately show ?thesis
    using dynamic(1,2) by (auto simp: s canonical_scope_def canonical_list_def filter_clean_def)
qed (use assms(2) in auto)

theorem dynamic_targets_single_scope_channel_witness:
  "\<exists>k vs filt. dget [(''type'', PStr ''dynamic''), (''scope'', scope_val (''client'', [PInt 7]))] ''scope'' = Some (scope_val (k, vs))
     \<and> k \<in> set kinds \<and> (\<forall>x \<in> set vs. canonical_id k x) \<and> reserved_filter_value (PDict filt) = None"
proof -
  have n: "normalize_scheduler_targets (PDict [(''type'', PStr ''dynamic''), (''client_id'', PInt 7)])
      = Inr [(''type'', PStr ''dynamic''), (''scope'', scope_val (''client'', [PInt 7]))]"
    by code_simp
  have t: "dget [(''type'', PStr ''dynamic''), (''scope'', scope_val (''client'', [PInt 7]))] ''type'' = Some (PStr ''dynamic'')"
    by simp
  from dynamic_targets_single_scope_channel [OF n t] show ?thesis by blast
qed

text \<open>
  \<open>tactical_scope_ref\<close> is total on accepted targets whose declared type is not a container: no key lookup in it can
  fail, and the reference names a Tactical kind with the canonical identifiers, or says none or module.
\<close>

theorem tactical_scope_ref_total:
  assumes "normalize_scheduler_targets v = Inr d"
    and "\<not> is_list (get_or d ''type'' PNone)" and "\<not> is_dict (get_or d ''type'' PNone)"
  shows "\<exists>k vs. tactical_scope_ref v = Inr (k, vs)
    \<and> (k \<in> set kinds \<longrightarrow> canonical_list k vs) \<and> k \<in> set kinds \<union> {''none'', ''module''}"
  using assms(1)
proof (cases rule: normalize_cases)
  case none
  then show ?thesis using assms(1) by (auto simp: tactical_scope_ref_def get_or_def kinds_def)
next
  case (native t k vs)
  then show ?thesis
    using assms(1) native_type_fixed [OF native(1)] native_kind_kinds [OF native(1)]
    by (auto simp: tactical_scope_ref_def get_or_def list_of_def)
next
  case (dynamic s filt)
  then show ?thesis
    using assms(1) native_kind_id [of "fst s"]
    by (cases s) (auto simp: tactical_scope_ref_def get_or_def dynamic_targets_def scope_val_def dict_of_def
        list_of_def canonical_scope_def)
next
  case module
  show ?thesis
  proof (cases "dget d ''type''")
    case None
    with module show ?thesis by (simp add: target_type_def get_or_def py_or_def type_texts)
  next
    case (Some ty)
    have "ty \<noteq> PStr ''none''" "ty \<noteq> PStr ''dynamic''" "ty = PStr t \<Longrightarrow> native_kind t = None" for t
      using module Some native_type_fixed(1) [of t]
      by (auto simp: target_type_def get_or_def py_or_def type_texts split: if_splits)
        (cases "native_kind t"; simp)
    then show ?thesis
      using assms Some by (auto simp: tactical_scope_ref_def get_or_def kinds_def split: pyval.splits)
  qed
qed

theorem tactical_scope_ref_total_witness:
  "\<exists>k vs. tactical_scope_ref (PDict [(''type'', PStr ''Agents''), (''ids'', PList [PStr '' a1 ''])]) = Inr (k, vs)
     \<and> k \<in> set kinds \<union> {''none'', ''module''}"
proof -
  have n: "normalize_scheduler_targets (PDict [(''type'', PStr ''Agents''), (''ids'', PList [PStr '' a1 ''])])
      = Inr [(''type'', PStr ''agents''), (''ids'', PList [PStr ''a1''])]" by code_simp
  from tactical_scope_ref_total [OF n] show ?thesis by (auto simp: get_or_def)
qed

end
