(* ===== verification/Schedule_Runs.thy ===== *)
theory Schedule_Runs
  imports Schedule_Visibility Scheduler_Targets
begin

text \<open>
  The scheduler's run table and every operation that writes it: the minute tick (\<open>dispatch_due_schedules\<close>
  with stale recovery, the module sync, one transaction per schedule and the two cleanups), Run now, the
  worker task \<open>execute_schedule_run\<close> (claim, authorization of one-off runs, the handler's return, pending
  completion and failure with retry) of \<open>tasks.py\<close>, and the late completions of
  \<open>scheduler_completion.py\<close>. Primary keys are numbers given out in order. What the tick asks of code
  outside the scheduler (the broker, Tactical's users and scope checks, manifests, the server job files)
  is a field of the environment. One step reads the clock once.
\<close>

section \<open>Tables and environment\<close>

datatype run_status = Run_Queued | Run_Running | Run_Succeeded | Run_Failed | Run_Skipped

datatype completion_state = Comp_None | Comp_Pending | Comp_Completed | Comp_Expired

datatype pending_kind = Kind_Module | Kind_Server_Job

datatype run_outcome = Out_Succeeded | Out_Failed | Out_Cancelled | Out_Timed_Out

record completion_ref =
  cr_kind :: pending_kind
  cr_job :: string
  cr_note :: "string option"
  cr_outcome :: "run_outcome option"

record sched_run =
  rn_id :: nat
  rn_schedule :: "nat option"
  rn_snapshot_id :: nat
  rn_name :: string
  rn_module_id :: string
  rn_action_id :: string
  rn_owner_type :: owner_type
  rn_owner_module :: string
  rn_owner_key :: string
  rn_status :: run_status
  rn_scheduled_for :: moment
  rn_manual :: bool
  rn_targets :: pyval
  rn_target_mode :: string
  rn_parameters :: pyval
  rn_retry_count :: int
  rn_retry_delay :: int
  rn_result :: pyval
  rn_error :: string
  rn_error_type :: string
  rn_task_id :: string
  rn_attempt :: int
  rn_created_at :: moment
  rn_last_queued_at :: "moment option"
  rn_started_at :: "moment option"
  rn_finished_at :: "moment option"
  rn_completion_state :: completion_state
  rn_completion_ref :: "completion_ref option"
  rn_completion_started_at :: "moment option"
  rn_started_by :: "nat option"

record tick_state =
  tk_last_tick_at :: "moment option"
  tk_last_tick_completed_at :: "moment option"
  tk_last_tick_error :: string
  tk_last_checked :: nat
  tk_last_queued :: nat
  tk_last_skipped :: nat
  tk_last_cleaned :: nat
  tk_last_dispatch_at :: "moment option"
  tk_last_dispatch_error :: string

record sched_config =
  cf_once_retention_hours :: int
  cf_run_retention_days :: int
  cf_queued_stale_minutes :: int

record sched_world =
  sw_schedules :: "schedule list"
  sw_runs :: "sched_run list"
  sw_next_run :: nat
  sw_state :: tick_state
  sw_config :: sched_config

record person =
  pe_active :: bool
  pe_installer :: bool
  pe_username :: string

text \<open>A question to other code that may raise is answered by an option; \<open>None\<close> is the exception.\<close>

datatype server_job = Job_Not_Found | Job_Unreadable | Job_Record pydict

record sched_env =
  en_now :: moment
  en_tz :: tzdb
  en_actions :: action_registry
  en_modules :: ms_world
  en_plugins :: "plugin_ref list option"
  en_person :: "nat \<Rightarrow> person option"
  en_can_use_action :: "nat \<Rightarrow> scheduled_action \<Rightarrow> bool option"
  en_resolver_scope :: "nat \<Rightarrow> string \<Rightarrow> pyval \<Rightarrow> bool option option"
  en_target_scope :: "nat \<Rightarrow> pyval \<Rightarrow> bool option"
  en_system_action :: "string \<Rightarrow> string \<Rightarrow> bool"
  en_person_actions :: "string \<Rightarrow> string list option"
  en_delegated :: "nat \<Rightarrow> bool"
  en_agent_ids :: "pyval list \<Rightarrow> string + pyval list"
  en_shape_text :: "target_error \<Rightarrow> string"
  en_broker :: "nat \<Rightarrow> string + string"
  en_revoke :: "string \<Rightarrow> bool"
  en_caller :: "string option"
  en_job :: "string \<Rightarrow> server_job"
  en_job_id_canonical :: "string \<Rightarrow> bool"

definition put_schedule :: "schedule \<Rightarrow> sched_world \<Rightarrow> sched_world" where
  "put_schedule s w = w\<lparr>sw_schedules := map (\<lambda>t. if sc_id t = sc_id s then s else t) (sw_schedules w)\<rparr>"

definition get_schedule :: "sched_world \<Rightarrow> nat \<Rightarrow> schedule option" where
  "get_schedule w i = find (\<lambda>s. sc_id s = i) (sw_schedules w)"

definition put_run :: "sched_run \<Rightarrow> sched_world \<Rightarrow> sched_world" where
  "put_run r w = w\<lparr>sw_runs := map (\<lambda>t. if rn_id t = rn_id r then r else t) (sw_runs w)\<rparr>"

definition get_run :: "sched_world \<Rightarrow> nat \<Rightarrow> sched_run option" where
  "get_run w i = find (\<lambda>r. rn_id r = i) (sw_runs w)"

definition active_run :: "sched_run \<Rightarrow> bool" where
  "active_run r = (rn_status r \<in> {Run_Queued, Run_Running})"

definition finished_run :: "sched_run \<Rightarrow> bool" where
  "finished_run r = (rn_status r \<in> {Run_Succeeded, Run_Failed, Run_Skipped})"

text \<open>\<open>_run_kwargs\<close> and the defaults of the columns it does not name.\<close>

definition new_run :: "moment \<Rightarrow> schedule \<Rightarrow> moment \<Rightarrow> nat \<Rightarrow> sched_run" where
  "new_run clock s scheduled_for i =
     \<lparr>rn_id = i, rn_schedule = Some (sc_id s), rn_snapshot_id = sc_id s, rn_name = sc_name s, rn_module_id = sc_module_id s,
      rn_action_id = sc_action_id s, rn_owner_type = sc_owner_type s, rn_owner_module = sc_owner_module s,
      rn_owner_key = sc_owner_key s, rn_status = Run_Queued, rn_scheduled_for = scheduled_for, rn_manual = False,
      rn_targets = py_or (sc_targets s) (PDict []), rn_target_mode = sc_target_mode s,
      rn_parameters = py_or (sc_parameters s) (PDict []), rn_retry_count = sc_retry_count s,
      rn_retry_delay = effective_retry_delay_seconds (sc_retry_delay_seconds s), rn_result = PDict [], rn_error = [],
      rn_error_type = [], rn_task_id = [], rn_attempt = 0, rn_created_at = clock, rn_last_queued_at = Some clock,
      rn_started_at = None, rn_finished_at = None, rn_completion_state = Comp_None, rn_completion_ref = None,
      rn_completion_started_at = None, rn_started_by = None\<rparr>"

definition add_run :: "sched_run \<Rightarrow> sched_world \<Rightarrow> sched_world" where
  "add_run r w = w\<lparr>sw_runs := sw_runs w @ [r\<lparr>rn_id := sw_next_run w\<rparr>], sw_next_run := Suc (sw_next_run w)\<rparr>"

definition skip_run :: "sched_env \<Rightarrow> schedule \<Rightarrow> moment \<Rightarrow> string \<Rightarrow> string \<Rightarrow> sched_world \<Rightarrow> sched_world" where
  "skip_run env s scheduled_for error_type error w =
     add_run ((new_run (en_now env) s scheduled_for 0)\<lparr>rn_status := Run_Skipped, rn_error := error, rn_error_type := error_type,
       rn_finished_at := Some (en_now env)\<rparr>) w"

section \<open>Equality of Python values\<close>

text \<open>\<open>==\<close>: dictionaries compare without order, and equal numbers of different types are equal. A float equals an integer when its text is
  that integer followed by \<open>.0\<close> (floats that print with an exponent equal no integer here).\<close>

function py_eq :: "pyval \<Rightarrow> pyval \<Rightarrow> bool" where
  "py_eq (PDict a) w = (case w of PDict b \<Rightarrow> length a = length b \<and>
      list_all (\<lambda>kv. case map_of b (fst kv) of None \<Rightarrow> False | Some u \<Rightarrow> py_eq (snd kv) u) a | _ \<Rightarrow> False)"
| "py_eq (PList xs) w = (case w of PList ys \<Rightarrow> length xs = length ys \<and> list_all (\<lambda>i. py_eq (xs ! i) (ys ! i)) [0..<length xs] | _ \<Rightarrow> False)"
| "py_eq (PStr s) w = (w = PStr s)"
| "py_eq PNone w = (w = PNone)"
| "py_eq (PInt i) w = (case w of PInt j \<Rightarrow> i = j | PBool b \<Rightarrow> i = (if b then 1 else 0) | PFloat f \<Rightarrow> float_text f = show_int i @ ''.0'' | _ \<Rightarrow> False)"
| "py_eq (PBool c) w = (let i = (if c then 1 else 0) in
     case w of PInt j \<Rightarrow> i = j | PBool b \<Rightarrow> c = b | PFloat f \<Rightarrow> float_text f = show_int i @ ''.0'' | _ \<Rightarrow> False)"
| "py_eq (PFloat f) w = (case w of
     PInt j \<Rightarrow> float_text f = show_int j @ ''.0'' | PBool b \<Rightarrow> float_text f = show_int (if b then 1 else 0) @ ''.0''
   | PFloat g \<Rightarrow> f \<noteq> Float_Nan \<and> (f = g \<or> {float_text f, float_text g} = {''0.0'', ''-0.0''}) | _ \<Rightarrow> False)"
  by pat_completeness auto
termination
proof (relation "measure (\<lambda>(a, _). size a)", goal_cases)
  case (2 a w b x u)
  have "size (snd x) \<le> size_list (size_prod (\<lambda>x. 0) size) a"
    using 2 by (intro size_list_estimation') (auto simp: size_prod_simp)
  then show ?case by simp
next
  case (3 xs w ys i)
  have "size (xs ! i) \<le> size_list size xs" using 3 by (intro size_list_estimation' [of "xs ! i"]) auto
  then show ?case by simp
qed simp

section \<open>The targets of a schedule\<close>

definition distinct_texts :: "pyval list \<Rightarrow> string list" where
  "distinct_texts vs = dedup (map (\<lambda>v. strip (py_str v)) vs)"

definition unresolved_text :: string where
  "unresolved_text = ''One or more persisted scheduler endpoints no longer resolve to a Tactical agent.''"

definition resolve_ids :: "sched_env \<Rightarrow> pyval list \<Rightarrow> string + pyval list" where
  "resolve_ids env vs = rbind (en_agent_ids env vs) (\<lambda>resolved.
     rcheck (length resolved \<noteq> length (distinct_texts vs)) unresolved_text (Inr resolved))"

definition canonicalize_persisted_endpoint_identity :: "sched_env \<Rightarrow> pydict \<Rightarrow> string + pydict" where
  "canonicalize_persisted_endpoint_identity env canonical =
     (let target_type = lower (strip (py_str (py_or (get_or canonical ''type'' PNone) (PStr ''none'')))) in
      if target_type \<in> {''endpoint'', ''endpoints'', ''agent'', ''agents''} then
        rbind (resolve_ids env (list_of (get_or canonical ''ids'' PNone))) (\<lambda>vs. Inr (dset ''ids'' (PList vs) canonical))
      else if target_type = ''dynamic'' then
        (let scope = dict_of (get_or canonical ''scope'' PNone) in
         if lower (strip (text_or_empty (get_or scope ''type'' PNone))) \<in> {''endpoint'', ''agent''} then
           rbind (resolve_ids env (list_of (get_or scope ''ids'' PNone))) (\<lambda>vs.
             Inr (dset ''scope'' (PDict (dset ''ids'' (PList vs) (dset ''type'' (PStr ''endpoint'') scope))) canonical))
         else Inr canonical)
      else Inr canonical)"

text \<open>The shape error is caught by the tick, any other exception is not.\<close>

definition canonical_targets :: "sched_env \<Rightarrow> schedule \<Rightarrow> sched_exn + (string + pydict)" where
  "canonical_targets env s = (case normalize_scheduler_targets (py_or (sc_targets s) (PDict [])) of
     Inl (Uncaught e) \<Rightarrow> Inl (Sched_Uncaught e)
   | Inl e \<Rightarrow> Inr (Inl (en_shape_text env e))
   | Inr t \<Rightarrow> Inr (canonicalize_persisted_endpoint_identity env t))"

section \<open>Whose authority a run needs\<close>

definition one_off_prefix :: string where "one_off_prefix = ''one-off:''"

definition is_one_off_key :: "string \<Rightarrow> bool" where
  "is_one_off_key k = startswith k one_off_prefix"

definition is_one_off_schedule :: "schedule \<Rightarrow> bool" where
  "is_one_off_schedule s = (sc_owner_type s = Owner_Module \<and> is_one_off_key (sc_owner_key s))"

definition creator_name :: "sched_env \<Rightarrow> schedule \<Rightarrow> string" where
  "creator_name env s = (let stored = strip (sc_created_by_username s) in
     if stored \<noteq> [] then stored
     else (case sc_created_by s of None \<Rightarrow> [] | Some u \<Rightarrow>
       (case en_person env u of None \<Rightarrow> [] | Some p \<Rightarrow> strip (pe_username p))))"

definition scheduled_person_action :: "sched_env \<Rightarrow> schedule \<Rightarrow> string \<Rightarrow> bool" where
  "scheduled_person_action env s action_id =
     (sc_owner_type s = Owner_Module \<and> \<not> is_one_off_schedule s \<and>
      (case get_scheduled_action (en_actions env) (if action_id = [] then sc_action_id s else action_id) of
         Inl _ \<Rightarrow> False
       | Inr act \<Rightarrow> ac_module_id act = sc_owner_module s \<and>
           (case en_person_actions env (ac_module_id act) of None \<Rightarrow> False | Some ids \<Rightarrow> ac_id act \<in> set ids) \<and>
           creator_name env s \<noteq> []))"

definition is_unattended_scheduled_run :: "sched_env \<Rightarrow> schedule \<Rightarrow> bool" where
  "is_unattended_scheduled_run env s =
     (\<not> (sc_owner_type s = Owner_Module \<and> is_one_off_key (sc_owner_key s)) \<and>
      (case get_scheduled_action (en_actions env) (sc_action_id s) of
         Inl _ \<Rightarrow> False
       | Inr act \<Rightarrow> (sc_owner_type s = Owner_Module \<longrightarrow> en_system_action env (ac_module_id act) (sc_action_id s)) \<and>
                    creator_name env s \<noteq> []))"

text \<open>The same question about a run: a delegated one-off counts, a manual run or one without a schedule does not.\<close>

definition run_is_unattended :: "sched_env \<Rightarrow> sched_run \<Rightarrow> schedule option \<Rightarrow> bool" where
  "run_is_unattended env r sched =
     (en_delegated env (rn_id r) \<or>
      (case sched of None \<Rightarrow> False | Some s \<Rightarrow>
        \<not> rn_manual r \<and>
        \<not> (rn_owner_type r = Owner_Module \<and> (is_one_off_key (rn_owner_key r) \<or> is_one_off_schedule s)) \<and>
        (let action_id = (if rn_action_id r = [] then sc_action_id s else rn_action_id r) in
         case get_scheduled_action (en_actions env) action_id of
           Inl _ \<Rightarrow> False
         | Inr act \<Rightarrow> (rn_owner_type r = Owner_Module \<longrightarrow> en_system_action env (ac_module_id act) action_id) \<and>
                      creator_name env s \<noteq> [])))"

definition owner_missing_text :: string where "owner_missing_text = ''Schedule owner is missing or inactive.''"

definition person_missing_text :: string where "person_missing_text = ''The person who started this run is missing or inactive.''"

definition scope_text :: string where "scope_text = ''Schedule targets are no longer within the owner's Tactical scope.''"

definition unverified_text :: string where "unverified_text = ''Schedule authorization could not be verified at run time.''"

definition actor_check :: "sched_env \<Rightarrow> schedule \<Rightarrow> nat \<Rightarrow> string option" where
  "actor_check env s u = (case get_scheduled_action (en_actions env) (sc_action_id s) of
     Inl _ \<Rightarrow> Some unverified_text
   | Inr act \<Rightarrow> (case en_can_use_action env u act of
       None \<Rightarrow> Some unverified_text
     | Some False \<Rightarrow> Some ''Schedule owner no longer has permission to run this action.''
     | Some True \<Rightarrow> (let targets = py_or (sc_targets s) (PDict []) in
         case en_resolver_scope env u (ac_module_id act) targets of
           None \<Rightarrow> Some unverified_text
         | Some (Some True) \<Rightarrow> None
         | Some (Some False) \<Rightarrow> Some scope_text
         | Some None \<Rightarrow> (case en_target_scope env u targets of
             None \<Rightarrow> Some unverified_text | Some True \<Rightarrow> None | Some False \<Rightarrow> Some scope_text))))"

text \<open>\<open>actor\<close> is the person who pressed Run now; without one the schedule's creator answers, where the schedule needs a person at all.\<close>

definition runtime_authorization_error :: "sched_env \<Rightarrow> schedule \<Rightarrow> nat option \<Rightarrow> string option" where
  "runtime_authorization_error env s actor =
     (let one_off = is_one_off_schedule s in
      if actor = None \<and> sc_owner_type s \<noteq> Owner_User \<and> \<not> one_off \<and> \<not> scheduled_person_action env s [] then None
      else (let who = (case actor of None \<Rightarrow> sc_created_by s | Some u \<Rightarrow> Some u);
                missing = Some (if who = sc_created_by s then owner_missing_text else person_missing_text) in
        case who of None \<Rightarrow> missing | Some u \<Rightarrow>
          (case en_person env u of None \<Rightarrow> missing | Some p \<Rightarrow>
             if \<not> pe_active p \<or> (one_off \<and> pe_installer p) then missing else actor_check env s u)))"

section \<open>Stale runs\<close>

definition seconds :: "int \<Rightarrow> int" where "seconds n = n * sec"

definition queued_stale_deadline :: "moment \<Rightarrow> int \<Rightarrow> int \<Rightarrow> int \<Rightarrow> moment" where
  "queued_stale_deadline queued_at queued_stale_minutes attempt retry_delay_seconds =
     (let queued_minutes = max 1 (if queued_stale_minutes = 0 then 1 else queued_stale_minutes);
          retry_wait = (if attempt > 0 then max 0 retry_delay_seconds else 0)
      in queued_at + seconds retry_wait + minutes queued_minutes)"

definition clamp :: "int \<Rightarrow> int \<Rightarrow> int \<Rightarrow> int \<Rightarrow> int" where
  "clamp lo hi default_value v = max lo (min (if v = 0 then default_value else v) hi)"

definition stale_queued :: "sched_env \<Rightarrow> sched_world \<Rightarrow> sched_run \<Rightarrow> bool" where
  "stale_queued env w r = (let queued_minutes = clamp 1 1440 10 (cf_queued_stale_minutes (sw_config w));
       cutoff = en_now env - minutes queued_minutes;
       queued_at = (case rn_last_queued_at r of None \<Rightarrow> rn_created_at r | Some q \<Rightarrow> q) in
     rn_status r = Run_Queued \<and> queued_at < cutoff \<and>
     queued_stale_deadline queued_at queued_minutes (rn_attempt r) (effective_retry_delay_seconds (rn_retry_delay r)) < en_now env)"

definition fail_run :: "sched_env \<Rightarrow> string \<Rightarrow> string \<Rightarrow> sched_run \<Rightarrow> sched_run" where
  "fail_run env error_type error r = r\<lparr>rn_status := Run_Failed, rn_error_type := error_type, rn_error := error, rn_finished_at := Some (en_now env)\<rparr>"

definition stale_queued_text :: "sched_world \<Rightarrow> sched_run \<Rightarrow> string" where
  "stale_queued_text w r = ''Stale queued run exceeded '' @ show_int (clamp 1 1440 10 (cf_queued_stale_minutes (sw_config w))) @ '' minute dispatch window'' @
     (if rn_attempt r > 0 then '' after '' @ show_int (effective_retry_delay_seconds (rn_retry_delay r)) @ '' second retry countdown.'' else ''.'')"

definition action_timeout :: "sched_env \<Rightarrow> string \<Rightarrow> int" where
  "action_timeout env a = (case dget (en_actions env) a of None \<Rightarrow> 3600 | Some act \<Rightarrow> ac_timeout_seconds act)"

definition stale_running :: "sched_env \<Rightarrow> sched_run \<Rightarrow> bool" where
  "stale_running env r = (rn_status r = Run_Running \<and> (case rn_started_at r of None \<Rightarrow> False | Some t \<Rightarrow>
     en_now env - t > seconds (action_timeout env (rn_action_id r)) + minutes 5))"

text \<open>A run that waits for a late completion has no worker to revoke; a worker that cannot be revoked keeps its run.\<close>

definition recover_running :: "sched_env \<Rightarrow> sched_run \<Rightarrow> sched_run" where
  "recover_running env r =
     (let waiting = (rn_completion_state r = Comp_Pending); task = strip (rn_task_id r);
          timeout = show_int (action_timeout env (rn_action_id r)) in
      if \<not> stale_running env r then r
      else if task \<noteq> [] \<and> \<not> waiting \<and> \<not> en_revoke env task then r
      else if waiting then
        (fail_run env ''CompletionTimeout'' (''No result arrived within the action timeout of '' @ timeout @ '' seconds.'') r)\<lparr>rn_completion_state := Comp_Expired\<rparr>
      else fail_run env ''Stale'' (''Stale running run exceeded action timeout of '' @ timeout @ '' seconds.'') r)"

definition recover_stale_runs :: "sched_env \<Rightarrow> sched_world \<Rightarrow> sched_world" where
  "recover_stale_runs env w =
     (let w1 = w\<lparr>sw_runs := map (\<lambda>r. if stale_queued env w r then fail_run env ''Stale'' (stale_queued_text w r) r else r) (sw_runs w)\<rparr>
      in w1\<lparr>sw_runs := map (recover_running env) (sw_runs w1)\<rparr>)"

section \<open>Cleanup\<close>

definition cleanup_run_history :: "sched_env \<Rightarrow> sched_world \<Rightarrow> sched_world \<times> nat" where
  "cleanup_run_history env w =
     (let cutoff = en_now env - clamp 1 3650 90 (cf_run_retention_days (sw_config w)) * day_us;
          old = (\<lambda>r. rn_created_at r < cutoff \<and> finished_run r) in
      (w\<lparr>sw_runs := filter (\<lambda>r. \<not> old r) (sw_runs w)\<rparr>, length (filter old (sw_runs w))))"

text \<open>\<open>order_by("-finished_at", "-created_at").first()\<close>: PostgreSQL sorts nulls first in descending order.\<close>

definition finish_order :: "sched_run \<Rightarrow> bool \<times> moment \<times> moment" where
  "finish_order r = (rn_finished_at r = None, case rn_finished_at r of None \<Rightarrow> 0 | Some t \<Rightarrow> t, rn_created_at r)"

fun latest_run :: "sched_run list \<Rightarrow> sched_run option" where
  "latest_run [] = None"
| "latest_run (r # rs) = (case latest_run rs of None \<Rightarrow> Some r | Some q \<Rightarrow> Some (if finish_order r \<ge> finish_order q then r else q))"

definition runs_of :: "sched_world \<Rightarrow> nat \<Rightarrow> sched_run list" where
  "runs_of w i = filter (\<lambda>r. rn_schedule r = Some i) (sw_runs w)"

definition or_else :: "'a option \<Rightarrow> 'a option \<Rightarrow> 'a option" where
  "or_else a b = (case a of None \<Rightarrow> b | Some _ \<Rightarrow> a)"

definition once_expired :: "sched_env \<Rightarrow> sched_world \<Rightarrow> schedule \<Rightarrow> bool" where
  "once_expired env w s =
     (let cutoff = en_now env - clamp 1 720 48 (cf_once_retention_hours (sw_config w)) * minutes 60;
          runs = runs_of w (sc_id s);
          finished = (case latest_run runs of None \<Rightarrow> None | Some r \<Rightarrow> rn_finished_at r);
          terminal_at = or_else finished (or_else (sc_last_run_at s) (or_else (sc_run_at s) (Some (sc_updated_at s)))) in
      sc_type s = Once \<and> \<not> sc_enabled s \<and> \<not> list_ex active_run runs \<and> (case terminal_at of None \<Rightarrow> False | Some t \<Rightarrow> t \<le> cutoff))"

text \<open>Deleting a schedule keeps its runs and clears their reference (\<open>on_delete=SET_NULL\<close>).\<close>

definition delete_schedule :: "nat \<Rightarrow> sched_world \<Rightarrow> sched_world" where
  "delete_schedule i w = w\<lparr>sw_schedules := filter (\<lambda>s. sc_id s \<noteq> i) (sw_schedules w),
     sw_runs := map (\<lambda>r. if rn_schedule r = Some i then r\<lparr>rn_schedule := None\<rparr> else r) (sw_runs w)\<rparr>"

fun cleanup_once_schedules :: "sched_env \<Rightarrow> schedule list \<Rightarrow> sched_world \<times> nat \<Rightarrow> sched_world \<times> nat" where
  "cleanup_once_schedules env [] wn = wn"
| "cleanup_once_schedules env (s # ss) (w, n) =
     (if once_expired env w s then cleanup_once_schedules env ss (delete_schedule (sc_id s) w, Suc n)
      else cleanup_once_schedules env ss (w, n))"

section \<open>The tick\<close>

text \<open>\<open>_queue_run\<close>: the message is sent and the worker's task id kept, or the run fails and the exception goes on.\<close>

definition queue_run :: "sched_env \<Rightarrow> nat \<Rightarrow> sched_world \<Rightarrow> bool \<times> sched_world" where
  "queue_run env i w = (case get_run w i of None \<Rightarrow> (False, w) | Some r \<Rightarrow>
     (case en_broker env i of
        Inr task \<Rightarrow> (True, (put_run (r\<lparr>rn_task_id := task\<rparr>) w)
          \<lparr>sw_state := (sw_state w)\<lparr>tk_last_dispatch_at := Some (en_now env), tk_last_dispatch_error := []\<rparr>\<rparr>)
      | Inl error \<Rightarrow> (False, (put_run (fail_run env ''DispatchError'' error r) w)
          \<lparr>sw_state := (sw_state w)\<lparr>tk_last_dispatch_at := Some (en_now env), tk_last_dispatch_error := error\<rparr>\<rparr>)))"

datatype tick_result = Tick_Nothing | Tick_Skipped nat | Tick_Created nat

definition mark_due :: "sched_env \<Rightarrow> moment \<Rightarrow> bool \<Rightarrow> schedule \<Rightarrow> schedule" where
  "mark_due env key disable_once s = s\<lparr>sc_last_due_key := Some key,
     sc_enabled := (if disable_once \<and> sc_type s = Once then False else sc_enabled s), sc_updated_at := en_now env\<rparr>"

definition skip_occurrence ::
    "sched_env \<Rightarrow> schedule \<Rightarrow> moment \<Rightarrow> moment \<Rightarrow> bool \<Rightarrow> string \<Rightarrow> string \<Rightarrow> sched_world \<Rightarrow> sched_world \<times> tick_result" where
  "skip_occurrence env s occurrence key disable_once error_type error w =
     (put_schedule (mark_due env key disable_once s) (skip_run env s occurrence error_type error w), Tick_Skipped (sw_next_run w))"

definition missed_reason :: "schedule \<Rightarrow> string \<times> string" where
  "missed_reason s = (case sc_missed_policy s of
     Missed_Expire \<Rightarrow> (''MissedExpired'', ''Occurrence expired after the scheduler lateness window.'')
   | Run_On_Recovery \<Rightarrow> (''MissedRecoveryWindowExpired'', ''Occurrence was outside the configured recovery grace window.'')
   | Missed_Skip \<Rightarrow> (''MissedSkip'', ''Occurrence was missed and the schedule policy is skip.''))"

text \<open>The decision about one occurrence of an authorized schedule.\<close>

definition dispatch_occurrence :: "sched_env \<Rightarrow> schedule \<Rightarrow> moment \<Rightarrow> sched_world \<Rightarrow> sched_world \<times> tick_result" where
  "dispatch_occurrence env s occurrence w =
     (let key = due_key occurrence (sc_type s = Interval) in
      if sc_last_due_key s = Some key then (w, Tick_Nothing)
      else (case consume_revision_baseline (en_now env) s occurrence key of
        Some s' \<Rightarrow> (put_schedule s' w, Tick_Nothing)
      | None \<Rightarrow>
          if \<not> should_run_occurrence s occurrence (en_now env) then
            (let (error_type, message) = missed_reason s in skip_occurrence env s occurrence key True error_type message w)
          else (case get_scheduled_action (en_actions env) (sc_action_id s) of
            Inl e \<Rightarrow> skip_occurrence env s occurrence key True ''ActionUnavailable''
                (case e of SchedulerError text \<Rightarrow> text | _ \<Rightarrow> []) w
          | Inr _ \<Rightarrow>
              if list_ex active_run (runs_of w (sc_id s)) \<and> sc_concurrency_policy s = Overlap_Skip then
                skip_occurrence env s occurrence key False ''ConcurrencySkip'' ''Skipped because a previous run is still active.'' w
              else (put_schedule (mark_due env key True s) (add_run (new_run (en_now env) s occurrence 0) w),
                    Tick_Created (sw_next_run w)))))"

text \<open>An occurrence of a schedule whose owner no longer may run it.\<close>

definition revoke_occurrence :: "sched_env \<Rightarrow> schedule \<Rightarrow> string \<Rightarrow> moment \<Rightarrow> sched_world \<Rightarrow> sched_world \<times> tick_result" where
  "revoke_occurrence env s error occurrence w =
     (let key = due_key occurrence (sc_type s = Interval) in
      if sc_last_due_key s = Some key then (w, Tick_Nothing)
      else (case consume_revision_baseline (en_now env) s occurrence key of
        Some s' \<Rightarrow> (put_schedule s' w, Tick_Nothing)
      | None \<Rightarrow> skip_occurrence env s occurrence key False ''AuthorizationRevoked'' error w))"

definition refuse_targets :: "sched_env \<Rightarrow> schedule \<Rightarrow> string \<Rightarrow> sched_world \<Rightarrow> sched_world \<times> tick_result" where
  "refuse_targets env s error w =
     (let s' = s\<lparr>sc_enabled := False, sc_target_state := ''invalid'', sc_target_state_detail := take 500 error, sc_updated_at := en_now env\<rparr> in
      (skip_run env s' (en_now env) ''InvalidTargetShape'' error (put_schedule s' w), Tick_Skipped (sw_next_run w)))"

definition adopt_targets :: "sched_env \<Rightarrow> pydict \<Rightarrow> schedule \<Rightarrow> schedule" where
  "adopt_targets env t s = (if py_eq (PDict t) (py_or (sc_targets s) (PDict [])) then s
     else s\<lparr>sc_targets := PDict t, sc_target_state := ''valid'', sc_target_state_detail := [], sc_updated_at := en_now env\<rparr>)"

text \<open>The transaction of the tick for one schedule. An exception rolls all of it back.\<close>

definition dispatch_schedule :: "sched_env \<Rightarrow> visibility \<Rightarrow> schedule \<Rightarrow> sched_world \<Rightarrow> sched_exn + sched_world \<times> tick_result" where
  "dispatch_schedule env vis s w =
     (let (stop, s1) = apply_module_pause vis s; w1 = put_schedule s1 w in
      if stop then Inr (w1, Tick_Nothing)
      else rbind (canonical_targets env s1) (\<lambda>ct. case ct of
        Inl error \<Rightarrow> Inr (refuse_targets env s1 error w1)
      | Inr t \<Rightarrow>
          (let s2 = adopt_targets env t s1; w2 = put_schedule s2 w1;
               refused = (if is_unattended_scheduled_run env s2 then None else runtime_authorization_error env s2 None) in
           rbind (latest_occurrence (en_tz env) s2 (en_now env)) (\<lambda>found. case found of
             None \<Rightarrow> Inr (w2, Tick_Nothing)
           | Some occurrence \<Rightarrow> Inr (case refused of
               Some error \<Rightarrow> revoke_occurrence env s2 error occurrence w2
             | None \<Rightarrow> dispatch_occurrence env s2 occurrence w2)))))"

record tick_lists =
  tl_queued :: "nat list"
  tl_skipped :: "nat list"
  tl_failed :: nat

definition note_dispatch_error :: "sched_env \<Rightarrow> nat \<Rightarrow> sched_exn \<Rightarrow> sched_world \<Rightarrow> sched_world" where
  "note_dispatch_error env i e w = w\<lparr>sw_state := (sw_state w)\<lparr>tk_last_dispatch_at := Some (en_now env),
     tk_last_dispatch_error := take 1000 (''schedule '' @ show_nat i @ '': '' @
       (case e of SchedulerError text \<Rightarrow> ''SchedulerError: '' @ text | Sched_Uncaught _ \<Rightarrow> ''error''))\<rparr>\<rparr>"

definition dispatch_one :: "sched_env \<Rightarrow> visibility \<Rightarrow> nat \<Rightarrow> sched_world \<times> tick_lists \<Rightarrow> sched_world \<times> tick_lists" where
  "dispatch_one env vis i wl = (let (w, l) = wl in
     case get_schedule w i of None \<Rightarrow> (w, l) | Some s \<Rightarrow>
       if \<not> sc_enabled s then (w, l)
       else (case dispatch_schedule env vis s w of
         Inl e \<Rightarrow> (note_dispatch_error env i e w, l\<lparr>tl_failed := Suc (tl_failed l)\<rparr>)
       | Inr (w', Tick_Nothing) \<Rightarrow> (w', l)
       | Inr (w', Tick_Skipped r) \<Rightarrow> (w', l\<lparr>tl_skipped := tl_skipped l @ [r]\<rparr>)
       | Inr (w', Tick_Created r) \<Rightarrow>
           (let (ok, w'') = queue_run env r w' in
            (w'', if ok then l\<lparr>tl_queued := tl_queued l @ [r]\<rparr> else l\<lparr>tl_failed := Suc (tl_failed l)\<rparr>))))"

definition enabled_ids :: "sched_world \<Rightarrow> nat list" where
  "enabled_ids w = map sc_id (filter sc_enabled (sw_schedules w))"

definition sync_schedules :: "visibility \<Rightarrow> sched_world \<Rightarrow> sched_world" where
  "sync_schedules vis w = w\<lparr>sw_schedules := fst (sync_module_schedule_state vis (sw_schedules w))\<rparr>"

definition dispatch_due_schedules :: "sched_env \<Rightarrow> sched_world \<Rightarrow> sched_world \<times> tick_lists" where
  "dispatch_due_schedules env w0 =
     (let w1 = recover_stale_runs env (w0\<lparr>sw_state := (sw_state w0)\<lparr>tk_last_tick_at := Some (en_now env), tk_last_tick_error := []\<rparr>\<rparr>);
          ids = enabled_ids w1;
          vis = schedule_visibility (en_modules env) (en_plugins env);
          (w3, l) = fold (dispatch_one env vis) ids (sync_schedules vis w1, \<lparr>tl_queued = [], tl_skipped = [], tl_failed = 0\<rparr>);
          (w4, cleaned_once) = cleanup_once_schedules env (sw_schedules w3) (w3, 0);
          (w5, cleaned_runs) = cleanup_run_history env w4 in
      (w5\<lparr>sw_state := (sw_state w5)\<lparr>tk_last_tick_completed_at := Some (en_now env), tk_last_checked := length ids,
          tk_last_queued := length (tl_queued l), tk_last_skipped := length (tl_skipped l),
          tk_last_cleaned := cleaned_once + cleaned_runs, tk_last_tick_error := []\<rparr>\<rparr>, l))"

text \<open>Run now.\<close>

definition queue_manual_run :: "sched_env \<Rightarrow> nat \<Rightarrow> nat option \<Rightarrow> sched_world \<Rightarrow> sched_exn + bool \<times> sched_world" where
  "queue_manual_run env i started_by w = (case get_schedule w i of
     None \<Rightarrow> Inl (Sched_Uncaught KeyError)
   | Some s \<Rightarrow>
       (let vis = schedule_visibility (en_modules env) (en_plugins env);
            blocked = run_blocked_reason vis (sc_module_id s) (sc_owner_module s) (sc_owner_type s) in
        if blocked \<noteq> [] \<or> sc_paused_reason s \<in> set core_reasons
        then Inl (SchedulerError (if blocked \<noteq> [] then blocked else ''This schedule is paused by Core, so it cannot be run now.''))
        else Inr (queue_run env (sw_next_run w)
          (add_run ((new_run (en_now env) s (en_now env) 0)\<lparr>rn_manual := True, rn_started_by := started_by\<rparr>) w))))"

section \<open>The worker task\<close>

definition last_run_now :: "sched_env \<Rightarrow> sched_run \<Rightarrow> sched_world \<Rightarrow> sched_world" where
  "last_run_now env r w = (case rn_schedule r of None \<Rightarrow> w | Some i \<Rightarrow>
     w\<lparr>sw_schedules := map (\<lambda>s. if sc_id s = i then s\<lparr>sc_last_run_at := Some (en_now env), sc_updated_at := en_now env\<rparr> else s) (sw_schedules w)\<rparr>)"

datatype claim_answer = Claim_Missing | Claim_Already run_status | Claim_Blocked string | Claim_Started

definition text_or :: "string \<Rightarrow> string \<Rightarrow> string" where
  "text_or a b = (if a = [] then b else a)"

text \<open>The first transaction of \<open>execute_schedule_run\<close>: claim a queued run. \<open>retries\<close> is Celery's retry counter.\<close>

definition claim_run :: "sched_env \<Rightarrow> int \<Rightarrow> nat \<Rightarrow> sched_world \<Rightarrow> claim_answer \<times> sched_world" where
  "claim_run env retries i w = (case get_run w i of
     None \<Rightarrow> (Claim_Missing, w)
   | Some r \<Rightarrow>
       if rn_status r \<noteq> Run_Queued then (Claim_Already (rn_status r), w)
       else (let sched = (case rn_schedule r of None \<Rightarrow> None | Some j \<Rightarrow> get_schedule w j);
                 md = text_or (rn_module_id r) (case sched of None \<Rightarrow> [] | Some s \<Rightarrow> sc_module_id s);
                 ow = text_or (rn_owner_module r) (case sched of None \<Rightarrow> [] | Some s \<Rightarrow> sc_owner_module s);
                 blocked = run_blocked_reason (schedule_visibility (en_modules env) (en_plugins env)) md ow (rn_owner_type r) in
         if blocked \<noteq> [] then
           (Claim_Blocked blocked, put_run (r\<lparr>rn_status := Run_Skipped, rn_error := blocked, rn_error_type := ''ModuleUnavailable'',
              rn_finished_at := Some (en_now env)\<rparr>) w)
         else (Claim_Started, put_run (r\<lparr>rn_status := Run_Running, rn_started_at := Some (en_now env), rn_finished_at := None,
              rn_attempt := retries + 1, rn_error := [], rn_error_type := []\<rparr>) w)))"

text \<open>A later transaction of the worker changes the run only while it is still running.\<close>

definition when_running :: "nat \<Rightarrow> (sched_run \<Rightarrow> sched_world \<Rightarrow> sched_world) \<Rightarrow> sched_world \<Rightarrow> sched_world" where
  "when_running i f w = (case get_run w i of None \<Rightarrow> w | Some r \<Rightarrow> if rn_status r = Run_Running then f r w else w)"

definition is_one_off_run :: "sched_run \<Rightarrow> bool" where
  "is_one_off_run r = (rn_owner_type r = Owner_Module \<and> is_one_off_key (rn_owner_key r))"

definition one_off_refusal :: "sched_env \<Rightarrow> sched_run \<Rightarrow> sched_world \<Rightarrow> string option" where
  "one_off_refusal env r w = (let sched = (case rn_schedule r of None \<Rightarrow> None | Some j \<Rightarrow> get_schedule w j) in
     if run_is_unattended env r sched then None
     else (case sched of None \<Rightarrow> Some ''The one-off schedule no longer exists.'' | Some s \<Rightarrow> runtime_authorization_error env s None))"

definition skip_unauthorized_one_off :: "sched_env \<Rightarrow> nat \<Rightarrow> sched_world \<Rightarrow> sched_world" where
  "skip_unauthorized_one_off env i w = (case get_run w i of None \<Rightarrow> w | Some r \<Rightarrow>
     if \<not> is_one_off_run r then w
     else (case one_off_refusal env r w of None \<Rightarrow> w | Some reason \<Rightarrow>
       when_running i (\<lambda>r. put_run (r\<lparr>rn_status := Run_Skipped, rn_error := reason, rn_error_type := ''AuthorizationRevoked'',
         rn_finished_at := Some (en_now env)\<rparr>)) w))"

definition json_result :: "pyval \<Rightarrow> pyval" where
  "json_result v = (case v of PNone \<Rightarrow> PDict [] | PDict d \<Rightarrow> v | _ \<Rightarrow> PDict [(''value'', PStr (py_str v))])"

definition handler_returned :: "sched_env \<Rightarrow> nat \<Rightarrow> pyval \<Rightarrow> sched_world \<Rightarrow> sched_world" where
  "handler_returned env i v = when_running i (\<lambda>r w. last_run_now env r
     (put_run (r\<lparr>rn_status := Run_Succeeded, rn_result := json_result v, rn_finished_at := Some (en_now env)\<rparr>) w))"

text \<open>The exceptions \<open>_retryable\<close> tells apart; every other class is retried.\<close>

datatype run_exn = Exn_Transient | Exn_Capability_Unhealthy | Exn_Scheduler | Exn_Capability_Refused | Exn_Value_Or_Type | Exn_Other

definition retryable :: "run_exn \<Rightarrow> bool" where
  "retryable e = (e \<in> {Exn_Transient, Exn_Capability_Unhealthy, Exn_Other})"

definition handler_raised :: "sched_env \<Rightarrow> int \<Rightarrow> nat \<Rightarrow> run_exn \<Rightarrow> string \<Rightarrow> string \<Rightarrow> sched_world \<Rightarrow> sched_world" where
  "handler_raised env retries i e class_name text = when_running i (\<lambda>r w.
     (let retry = (retryable e \<and> retries < rn_retry_count r);
          r' = r\<lparr>rn_error := text_or text class_name, rn_error_type := class_name\<rparr> in
      if retry then put_run (r'\<lparr>rn_status := Run_Queued, rn_finished_at := None, rn_last_queued_at := Some (en_now env)\<rparr>) w
      else last_run_now env r (put_run (r'\<lparr>rn_status := Run_Failed, rn_finished_at := Some (en_now env)\<rparr>) w)))"

section \<open>Late completions\<close>

definition ext_id_char :: "char \<Rightarrow> bool" where
  "ext_id_char c = (is_alnum_ascii c \<or> c \<in> {CHR ''.'', CHR ''_'', CHR '':'', CHR ''-''})"

definition external_id_re :: "string \<Rightarrow> bool" where
  "external_id_re s = (1 \<le> length s \<and> length s \<le> 128 \<and> list_all ext_id_char s)"

text \<open>\<open>_clean_ref\<close> on the three fields a handler gives. Whether \<open>uuid.UUID\<close> prints the text back is the environment's.\<close>

definition clean_ref :: "sched_env \<Rightarrow> pyval \<Rightarrow> pyval \<Rightarrow> pyval \<Rightarrow> sched_exn + completion_ref" where
  "clean_ref env k job note_value =
     rbind (if k = PStr ''module'' then Inr Kind_Module else if k = PStr ''server_maintenance_job'' then Inr Kind_Server_Job
            else Inl (SchedulerError ''A pending completion kind must be one of module, server_maintenance_job.'')) (\<lambda>pk.
     rbind (case job of PStr j \<Rightarrow> if external_id_re j then Inr j
                else Inl (SchedulerError ''A pending completion external_job_id must be 1 to 128 characters: letters, digits and . _ : -'')
            | _ \<Rightarrow> Inl (SchedulerError ''A pending completion external_job_id must be 1 to 128 characters: letters, digits and . _ : -'')) (\<lambda>j.
     rcheck (pk = Kind_Server_Job \<and> \<not> en_job_id_canonical env j)
       (SchedulerError ''A server_maintenance_job pending completion needs the job id exactly as Core wrote it (a lowercase UUID).'')
     (rbind (case note_value of PNone \<Rightarrow> Inr None
            | PStr t \<Rightarrow> if length t \<le> 200 \<and> list_all is_printable t then Inr (Some t)
                else Inl (SchedulerError ''A pending completion note must be printable text of at most 200 characters.'')
            | _ \<Rightarrow> Inl (SchedulerError ''A pending completion note must be printable text of at most 200 characters.'')) (\<lambda>n.
      Inr \<lparr>cr_kind = pk, cr_job = j, cr_note = n, cr_outcome = None\<rparr>))))"

definition job_names :: "pydict \<Rightarrow> string \<Rightarrow> string \<Rightarrow> bool" where
  "job_names job md run = (case dget job ''context'' of
     Some (PDict c) \<Rightarrow> text_or_empty (get_or c ''source_module'' PNone) = md \<and> text_or_empty (get_or c ''source_run_id'' PNone) = run
   | _ \<Rightarrow> False)"

definition server_job_binding_error :: "sched_env \<Rightarrow> string \<Rightarrow> string \<Rightarrow> string \<Rightarrow> string option" where
  "server_job_binding_error env job md run = (case en_job env job of
     Job_Not_Found \<Rightarrow> Some ''The server job does not exist.''
   | Job_Unreadable \<Rightarrow> Some ''The server job could not be read.''
   | Job_Record d \<Rightarrow> if job_names d md run then None else Some ''The server job was not started by this module for this run.'')"

definition park_refusal :: "sched_env \<Rightarrow> string \<Rightarrow> nat \<Rightarrow> sched_exn + completion_ref \<Rightarrow> string option" where
  "park_refusal env md i ref = (case ref of
     Inl (SchedulerError t) \<Rightarrow> Some (text_or t ''The pending completion is not valid.'')
   | Inl _ \<Rightarrow> Some ''The pending completion is not valid.''
   | Inr c \<Rightarrow> if cr_kind c = Kind_Server_Job then server_job_binding_error env (cr_job c) md (show_nat i) else None)"

definition park_pending_run :: "sched_env \<Rightarrow> nat \<Rightarrow> string \<Rightarrow> pyval \<Rightarrow> pyval \<Rightarrow> pyval \<Rightarrow> sched_world \<Rightarrow> sched_world" where
  "park_pending_run env i md k job note_value =
     (let ref = clean_ref env k job note_value in
      when_running i (\<lambda>r w. (case park_refusal env md i ref of
        Some refusal \<Rightarrow> last_run_now env r (put_run (fail_run env ''PendingRefused'' (take 500 refusal) r) w)
      | None \<Rightarrow> put_run (r\<lparr>rn_completion_state := Comp_Pending, rn_completion_ref := Some (projr ref), rn_completion_started_at := Some (en_now env)\<rparr>) w)))"

datatype settle_code = Settle_Applied | Settle_Duplicate | Settle_Unknown_Run | Settle_Wrong_Kind | Settle_Conflict | Settle_Late
  | Settle_Not_Pending | Settle_Wrong_Job

fun outcome_error_type :: "run_outcome \<Rightarrow> string" where
  "outcome_error_type Out_Succeeded = []"
| "outcome_error_type Out_Failed = ''ExternalFailed''"
| "outcome_error_type Out_Cancelled = ''ExternalCancelled''"
| "outcome_error_type Out_Timed_Out = ''ExternalTimedOut''"

definition settle_check :: "sched_run \<Rightarrow> pending_kind \<Rightarrow> string \<Rightarrow> run_outcome \<Rightarrow> settle_code" where
  "settle_check r allowed_kind job out =
     (let ref = rn_completion_ref r in
      if (case ref of None \<Rightarrow> False | Some c \<Rightarrow> cr_kind c \<noteq> allowed_kind) then Settle_Wrong_Kind
      else if rn_completion_state r = Comp_Completed then
        (if (case ref of None \<Rightarrow> False | Some c \<Rightarrow> cr_job c = job \<and> cr_outcome c = Some out) then Settle_Duplicate else Settle_Conflict)
      else if rn_completion_state r = Comp_Expired then Settle_Late
      else if rn_completion_state r \<noteq> Comp_Pending then Settle_Not_Pending
      else if rn_status r \<noteq> Run_Running then Settle_Late
      else if (case ref of None \<Rightarrow> True | Some c \<Rightarrow> cr_job c \<noteq> job) then Settle_Wrong_Job
      else Settle_Applied)"

definition apply_outcome ::
    "sched_env \<Rightarrow> nat \<Rightarrow> pending_kind \<Rightarrow> string \<Rightarrow> run_outcome \<Rightarrow> pyval \<Rightarrow> string \<Rightarrow> string option \<Rightarrow> sched_world \<Rightarrow> settle_code \<times> sched_world" where
  "apply_outcome env i allowed_kind job out result error error_type w = (case get_run w i of
     None \<Rightarrow> (Settle_Unknown_Run, w)
   | Some r \<Rightarrow>
       (let code = settle_check r allowed_kind job out in
        if code \<noteq> Settle_Applied then (code, w)
        else (code, last_run_now env r (put_run (r\<lparr>
            rn_completion_ref := map_option (\<lambda>c. c\<lparr>cr_outcome := Some out\<rparr>) (rn_completion_ref r),
            rn_completion_state := Comp_Completed,
            rn_status := (if out = Out_Succeeded then Run_Succeeded else Run_Failed),
            rn_result := result, rn_error := error,
            rn_error_type := (if out = Out_Succeeded then [] else case error_type of None \<Rightarrow> outcome_error_type out | Some t \<Rightarrow> text_or t (outcome_error_type out)),
            rn_finished_at := Some (en_now env)\<rparr>) w))))"

text \<open>\<open>_clean_result\<close> and \<open>_clean_error\<close>. \<open>json.dumps\<close> writes every character above 126 as an escape of six bytes, so the byte count is
  that of the escaped text; the separators are a comma or a colon with a space.\<close>

definition ascii_json_bytes :: "pyval \<Rightarrow> nat" where
  "ascii_json_bytes v = (\<Sum>c \<leftarrow> json_dumps v. if code c < 127 then 1 else 6)"

fun json_separators :: "pyval \<Rightarrow> nat" where
  "json_separators (PList xs) = (length xs - 1) + (\<Sum>x \<leftarrow> xs. json_separators x)"
| "json_separators (PDict d) = (length d - 1) + length d + (\<Sum>kv \<leftarrow> d. json_separators (snd kv))"
| "json_separators _ = 0"

definition printable_texts :: "pyval \<Rightarrow> bool" where
  "printable_texts v = (case v of PList ws \<Rightarrow> length ws \<le> 10 \<and>
     list_all (\<lambda>w. case w of PStr t \<Rightarrow> length t \<le> 200 \<and> list_all is_printable t | _ \<Rightarrow> False) ws | _ \<Rightarrow> False)"

definition clean_result :: "pyval \<Rightarrow> pyval \<Rightarrow> sched_exn + pyval" where
  "clean_result result warnings =
     (let value = (case result of PNone \<Rightarrow> [] | PDict d \<Rightarrow> d | _ \<Rightarrow> [(''value'', result)]) in
      rcheck (\<not> json_finite (PDict value) \<or> \<not> ints_printable (PDict value)) (SchedulerError ''complete_pending_run result must be JSON data.'')
      (rcheck (ascii_json_bytes (PDict value) + json_separators (PDict value) > 16 * 1024)
        (SchedulerError ''complete_pending_run result may be at most 16 KiB of JSON.'')
      (rcheck (warnings \<noteq> PNone \<and> \<not> printable_texts warnings)
        (SchedulerError ''complete_pending_run warnings must be a list of at most 10 printable texts of at most 200 characters.'')
        (Inr (PDict (if warnings \<noteq> PNone \<and> truthy warnings then dset ''warnings'' warnings value else value))))))"

definition clean_error :: "pyval \<Rightarrow> sched_exn + string" where
  "clean_error e = (case e of PNone \<Rightarrow> Inr []
     | PStr t \<Rightarrow> if length t \<le> 500 \<and> list_all is_printable t then Inr t
         else Inl (SchedulerError ''complete_pending_run error must be printable text of at most 500 characters.'')
     | _ \<Rightarrow> Inl (SchedulerError ''complete_pending_run error must be printable text of at most 500 characters.''))"

definition outcome_of :: "pyval \<Rightarrow> run_outcome option" where
  "outcome_of v = (if v = PStr ''succeeded'' then Some Out_Succeeded else if v = PStr ''failed'' then Some Out_Failed
     else if v = PStr ''cancelled'' then Some Out_Cancelled else if v = PStr ''timed_out'' then Some Out_Timed_Out else None)"

fun outcome_text :: "run_outcome \<Rightarrow> string" where
  "outcome_text Out_Succeeded = []"
| "outcome_text Out_Failed = ''The module reported that the work failed.''"
| "outcome_text Out_Cancelled = ''The module reported that the work was cancelled.''"
| "outcome_text Out_Timed_Out = ''The module reported that the work timed out.''"

datatype completion_error = Completion_Refused string | Completion_Invalid sched_exn

fun settle_reason :: "settle_code \<Rightarrow> string" where
  "settle_reason Settle_Applied = []"
| "settle_reason Settle_Duplicate = []"
| "settle_reason Settle_Unknown_Run = ''unknown_run''"
| "settle_reason Settle_Wrong_Kind = ''wrong_kind''"
| "settle_reason Settle_Conflict = ''conflict''"
| "settle_reason Settle_Late = ''late''"
| "settle_reason Settle_Not_Pending = ''not_pending''"
| "settle_reason Settle_Wrong_Job = ''wrong_job''"

definition completion_caller_refusal :: "sched_env \<Rightarrow> sched_run \<Rightarrow> string option" where
  "completion_caller_refusal env r = (case en_caller env of
     None \<Rightarrow> Some ''caller_unverified''
   | Some m \<Rightarrow> (case get_scheduled_action (en_actions env) (rn_action_id r) of
       Inl _ \<Rightarrow> Some ''action_unavailable''
     | Inr act \<Rightarrow> if m \<noteq> ac_module_id act \<or> m \<noteq> text_or (rn_module_id r) (ac_module_id act) then Some ''wrong_module'' else None))"

text \<open>\<open>complete_pending_run\<close>: whether the completion was a repetition, and the new tables.\<close>

definition complete_pending_run ::
    "sched_env \<Rightarrow> nat \<Rightarrow> pyval \<Rightarrow> pyval \<Rightarrow> pyval \<Rightarrow> pyval \<Rightarrow> pyval \<Rightarrow> sched_world \<Rightarrow> completion_error + bool \<times> sched_world" where
  "complete_pending_run env i job outcome_value result error warnings w =
     (case outcome_of outcome_value of
        None \<Rightarrow> Inl (Completion_Invalid (SchedulerError ''complete_pending_run outcome must be one of succeeded, failed, cancelled, timed_out.''))
      | Some out \<Rightarrow> (case job of
          PStr j \<Rightarrow>
            if \<not> external_id_re j then Inl (Completion_Invalid (SchedulerError ''complete_pending_run external_job_id must be the id the handler returned.''))
            else (case get_run w i of
              None \<Rightarrow> Inl (Completion_Refused ''unknown_run'')
            | Some r \<Rightarrow> (case completion_caller_refusal env r of
                Some why \<Rightarrow> Inl (Completion_Refused why)
              | None \<Rightarrow> (case clean_result result (if out = Out_Succeeded then warnings else PNone) of
                  Inl e \<Rightarrow> Inl (Completion_Invalid e)
                | Inr clean \<Rightarrow> (case clean_error error of
                    Inl e \<Rightarrow> Inl (Completion_Invalid e)
                  | Inr text \<Rightarrow>
                      (let (code, w') = apply_outcome env i Kind_Module j out clean
                             (if out \<noteq> Out_Succeeded \<and> text = [] then outcome_text out else text) None w in
                       if code = Settle_Applied then Inr (False, w')
                       else if code = Settle_Duplicate then Inr (True, w')
                       else Inl (Completion_Refused (settle_reason code)))))))
        | _ \<Rightarrow> Inl (Completion_Invalid (SchedulerError ''complete_pending_run external_job_id must be the id the handler returned.''))))"

section \<open>The tick's settlement of server jobs\<close>

definition job_outcome :: "string \<Rightarrow> run_outcome option" where
  "job_outcome status = (if status = ''succeeded'' then Some Out_Succeeded
     else if status = ''failed'' \<or> status = ''dispatch_failed'' then Some Out_Failed
     else if status = ''cancelled'' then Some Out_Cancelled else None)"

definition classification_re :: "string \<Rightarrow> bool" where
  "classification_re s = (s \<noteq> [] \<and> is_lower_ascii (hd s) \<and> length s \<le> 40 \<and> list_all flag_char (tl s))"

definition job_result :: "pydict \<Rightarrow> string \<Rightarrow> pyval" where
  "job_result job status =
     (let exit_code = get_or (dict_of (get_or job ''exit_result'' PNone)) ''exit_code'' PNone;
          classification = get_or (dict_of (get_or job ''failure'' PNone)) ''classification'' PNone in
      PDict ([(''job_id'', PStr (text_or_empty (get_or job ''id'' PNone))), (''status'', PStr status),
              (''exit_code'', case exit_code of PInt i \<Rightarrow> PInt i | _ \<Rightarrow> PNone)] @
             (case classification of PStr c \<Rightarrow> if classification_re c then [(''classification'', PStr c)] else [] | _ \<Rightarrow> [])))"

definition settle_one :: "sched_env \<Rightarrow> sched_run \<Rightarrow> sched_world \<Rightarrow> sched_world" where
  "settle_one env r w =
     (let job_id = (case rn_completion_ref r of None \<Rightarrow> [] | Some c \<Rightarrow> cr_job c) in
      case en_job env job_id of
        Job_Not_Found \<Rightarrow> (case or_else (rn_completion_started_at r) (rn_started_at r) of
            None \<Rightarrow> w
          | Some t \<Rightarrow> if en_now env - t > minutes 10
              then snd (apply_outcome env (rn_id r) Kind_Server_Job job_id Out_Failed
                (PDict [(''job_id'', PStr job_id), (''status'', PStr ''missing'')]) ''The server job record is gone.'' None w)
              else w)
      | Job_Unreadable \<Rightarrow> w
      | Job_Record job \<Rightarrow>
          if \<not> job_names job (rn_module_id r) (show_nat (rn_id r)) then
            snd (apply_outcome env (rn_id r) Kind_Server_Job job_id Out_Failed (PDict [(''job_id'', PStr job_id)])
              ''The server job was not started by this module for this run.'' (Some ''PendingRefused'') w)
          else (let status = text_or_empty (get_or job ''status'' PNone) in
            case job_outcome status of
              None \<Rightarrow> w
            | Some out \<Rightarrow> snd (apply_outcome env (rn_id r) Kind_Server_Job job_id out (job_result job status)
                (case out of Out_Failed \<Rightarrow> ''The server job failed.'' | Out_Cancelled \<Rightarrow> ''The server job was cancelled.'' | _ \<Rightarrow> []) None w)))"

definition awaits_server_job :: "sched_run \<Rightarrow> bool" where
  "awaits_server_job r = (rn_status r = Run_Running \<and> rn_completion_state r = Comp_Pending \<and>
     (case rn_completion_ref r of None \<Rightarrow> False | Some c \<Rightarrow> cr_kind c = Kind_Server_Job))"

definition settle_server_job_runs :: "sched_env \<Rightarrow> int \<Rightarrow> sched_world \<Rightarrow> sched_world" where
  "settle_server_job_runs env limit w =
     fold (settle_one env) (take (nat (max 1 (min limit 50)))
       (sort_key (\<lambda>r. case rn_completion_started_at r of None \<Rightarrow> (1::nat, 0) | Some t \<Rightarrow> (0, t)) (filter awaits_server_job (sw_runs w)))) w"

end
