(* ===== verification/Rbac.thy ===== *)
theory Rbac
  imports Py_Value
begin

text \<open>
  Role permissions (\<open>rbac.py\<close> and the table \<open>ExtensionRolePermission\<close>): which permission codes the installed extensions
  declare, what a user effectively holds, Tactical's own role flags, and granting and revoking. The permission table
  is keyed by role id and code. Tactical's user object is a record; \<open>get_and_set_role_cache\<close> may raise, which is
  \<open>Role_Raises\<close>. The fields of Tactical's \<open>Role\<close> model (name and whether it is a boolean column) are a parameter.
\<close>

section \<open>Plugins and users\<close>

record rbac_plugin =
  rp_id :: string
  rp_type :: string
  rp_version :: string
  rp_groups :: "(string \<times> string list) list"
  rp_audit_events :: "(string \<times> string list) list"

record role =
  ro_id :: nat
  ro_superuser :: bool
  ro_flags :: "(string, bool) dict"

datatype role_lookup = Role_Raises | Role_Is "role option"

record user =
  u_authenticated :: bool
  u_superuser :: bool
  u_installer :: bool
  u_role_cache :: role_lookup
  u_role :: "role option"

type_synonym perm_table = "(nat \<times> string, bool) dict"

datatype rbac_error = Unknown_Permission | Unknown_Extension | Unknown_Group | Unknown_Flag | Not_A_Flag | Not_A_Role | Lookup_Failed

section \<open>The catalogue\<close>

definition core_permission_groups :: "(string \<times> string list) list" where
  "core_permission_groups =
     [(''Privileged operations'', [''core.privileged_operations'']),
      (''Runtime settings'', [''core.runtime_settings.manage'']),
      (''Client resource management'', [''core.resources.clients.manage'']),
      (''Site resource management'', [''core.resources.sites.manage''])]"

definition extension_plugins :: "rbac_plugin list \<Rightarrow> rbac_plugin list" where
  "extension_plugins ps = filter (\<lambda>p. rp_type p = ''extension'') ps"

definition group_codes :: "(string \<times> string list) list \<Rightarrow> string list" where
  "group_codes gs = concat (map snd gs)"

definition registered_permissions :: "rbac_plugin list \<Rightarrow> string list" where
  "registered_permissions ps =
     remdups (group_codes core_permission_groups @ concat (map (\<lambda>p. group_codes (rp_groups p)) (extension_plugins ps)))"

record catalog_entry =
  ce_id :: string
  ce_version :: string
  ce_groups :: "(string \<times> string list) list"
  ce_permissions :: "string list"
  ce_audit_events :: "(string \<times> string list) list"

definition permission_catalog :: "rbac_plugin list \<Rightarrow> catalog_entry list" where
  "permission_catalog ps =
     \<lparr>ce_id = ''core'', ce_version = ''1'', ce_groups = core_permission_groups,
      ce_permissions = sort (remdups (group_codes core_permission_groups)), ce_audit_events = []\<rparr> #
     map (\<lambda>p. \<lparr>ce_id = rp_id p, ce_version = rp_version p, ce_groups = rp_groups p,
               ce_permissions = sort (remdups (group_codes (rp_groups p))), ce_audit_events = rp_audit_events p\<rparr>)
         (extension_plugins ps)"

text \<open>\<open>permission_groups\<close>: a dictionary, so a group name that appears twice keeps its last permissions.\<close>

definition permission_groups :: "rbac_plugin list \<Rightarrow> string \<Rightarrow> rbac_error + (string, string list) dict" where
  "permission_groups ps plugin_id =
     (if plugin_id = ''core'' then Inr core_permission_groups
      else case find (\<lambda>p. rp_id p = plugin_id) (extension_plugins ps) of
             None \<Rightarrow> Inl Unknown_Extension
           | Some p \<Rightarrow> Inr (fold (\<lambda>(k, v) d. dset k v d) (rp_groups p) []))"

definition validate_codename :: "rbac_plugin list \<Rightarrow> string \<Rightarrow> rbac_error + unit" where
  "validate_codename ps cn = (if cn \<notin> set (registered_permissions ps) then Inl Unknown_Permission else Inr ())"

section \<open>What a user holds\<close>

definition granted_in :: "perm_table \<Rightarrow> nat \<Rightarrow> string \<Rightarrow> bool" where
  "granted_in t rid cn = (dget t (rid, cn) = Some True)"

definition has_extension_permission ::
  "rbac_plugin list \<Rightarrow> perm_table \<Rightarrow> user \<Rightarrow> string \<Rightarrow> rbac_error + bool" where
  "has_extension_permission ps t u cn =
     rbind (validate_codename ps cn) (\<lambda>_.
       if \<not> u_authenticated u then Inr False
       else if u_superuser u then Inr True
       else (case u_role_cache u of
          Role_Raises \<Rightarrow> Inl Lookup_Failed
        | Role_Is None \<Rightarrow> Inr False
        | Role_Is (Some r) \<Rightarrow> if ro_superuser r then Inr True else Inr (granted_in t (ro_id r) cn)))"

definition effective_permissions ::
  "rbac_plugin list \<Rightarrow> perm_table \<Rightarrow> user \<Rightarrow> role option \<Rightarrow> rbac_error + string list" where
  "effective_permissions ps t u given =
     (let known = registered_permissions ps in
      if \<not> u_authenticated u then Inr []
      else if u_superuser u then Inr known
      else rbind (case given of Some r \<Rightarrow> Inr (Some r)
                  | None \<Rightarrow> (case u_role_cache u of Role_Raises \<Rightarrow> Inl Lookup_Failed | Role_Is r \<Rightarrow> Inr r)) (\<lambda>ro.
        case ro of None \<Rightarrow> Inr []
        | Some r \<Rightarrow> if ro_superuser r then Inr known else Inr (filter (granted_in t (ro_id r)) known)))"

definition is_effective_superuser :: "user \<Rightarrow> bool" where
  "is_effective_superuser u =
     (if \<not> u_authenticated u then False
      else if u_superuser u then True
      else (case (case u_role_cache u of Role_Raises \<Rightarrow> u_role u | Role_Is r \<Rightarrow> r) of
              None \<Rightarrow> False | Some r \<Rightarrow> ro_superuser r))"

definition false_on_error :: "'e + bool \<Rightarrow> bool" where
  "false_on_error r = (case r of Inl _ \<Rightarrow> False | Inr b \<Rightarrow> b)"

definition can_manage_privileged_operations :: "rbac_plugin list \<Rightarrow> perm_table \<Rightarrow> user \<Rightarrow> bool" where
  "can_manage_privileged_operations ps t u =
     (is_effective_superuser u \<or> false_on_error (has_extension_permission ps t u ''core.privileged_operations''))"

definition can_manage_runtime_settings :: "rbac_plugin list \<Rightarrow> perm_table \<Rightarrow> user \<Rightarrow> bool" where
  "can_manage_runtime_settings ps t u =
     (is_effective_superuser u \<or>
      false_on_error
        (rbind (has_extension_permission ps t u ''core.runtime_settings.manage'') (\<lambda>a.
           if a then Inr True else has_extension_permission ps t u ''core.privileged_operations'')))"

section \<open>Tactical's role flags\<close>

type_synonym role_fields = "(string \<times> bool) list"

definition validate_tactical_flag :: "role_fields \<Rightarrow> pyval \<Rightarrow> rbac_error + string" where
  "validate_tactical_flag flds flag =
     (case flag of
        PStr name \<Rightarrow>
          if \<not> startswith name ''can_'' then Inl Unknown_Flag
          else (case map_of flds name of
                  None \<Rightarrow> Inl Unknown_Flag
                | Some boolean \<Rightarrow> if boolean then Inr name else Inl Not_A_Flag)
      | _ \<Rightarrow> Inl Unknown_Flag)"

definition flag_answer :: "user \<Rightarrow> string \<Rightarrow> bool" where
  "flag_answer u name =
     (if \<not> u_authenticated u then False
      else if u_installer u then False
      else if u_superuser u then True
      else (case u_role_cache u of
              Role_Raises \<Rightarrow> False
            | Role_Is None \<Rightarrow> False
            | Role_Is (Some r) \<Rightarrow> if ro_superuser r then True else get_or (ro_flags r) name False))"

definition tactical_permission_flags :: "role_fields \<Rightarrow> user \<Rightarrow> pyval list \<Rightarrow> rbac_error + (string, bool) dict" where
  "tactical_permission_flags flds u flags =
     rbind (rmap (validate_tactical_flag flds) flags) (\<lambda>names.
       Inr (fold (\<lambda>n d. dset n (flag_answer u n) d) names []))"

definition has_tactical_permission :: "role_fields \<Rightarrow> user \<Rightarrow> string \<Rightarrow> rbac_error + bool" where
  "has_tactical_permission flds u flag =
     rbind (tactical_permission_flags flds u [PStr flag]) (\<lambda>d. Inr (get_or d flag False))"

definition tactical_permission_catalog :: "role_fields \<Rightarrow> user \<Rightarrow> rbac_error + (string, bool) dict" where
  "tactical_permission_catalog flds u =
     tactical_permission_flags flds u
       (map (\<lambda>f. PStr (fst f)) (filter (\<lambda>f. startswith (fst f) ''can_'' \<and> snd f) flds))"

section \<open>Granting and revoking\<close>

text \<open>\<open>update_or_create\<close> on the unique pair of role id and code.\<close>

definition set_extension_permission ::
  "rbac_plugin list \<Rightarrow> role option \<Rightarrow> string \<Rightarrow> bool \<Rightarrow> perm_table \<Rightarrow> rbac_error + perm_table" where
  "set_extension_permission ps ro cn granted t =
     rbind (validate_codename ps cn) (\<lambda>_.
       case ro of None \<Rightarrow> Inl Not_A_Role | Some r \<Rightarrow> Inr (dset (ro_id r, cn) granted t))"

definition grant_extension_permission ::
  "rbac_plugin list \<Rightarrow> role option \<Rightarrow> string \<Rightarrow> perm_table \<Rightarrow> rbac_error + perm_table" where
  "grant_extension_permission ps ro cn t = set_extension_permission ps ro cn True t"

definition revoke_extension_permission ::
  "rbac_plugin list \<Rightarrow> role option \<Rightarrow> string \<Rightarrow> perm_table \<Rightarrow> rbac_error + perm_table" where
  "revoke_extension_permission ps ro cn t = set_extension_permission ps ro cn False t"

text \<open>The grants run one after the other; the first that raises leaves the earlier ones in the table.\<close>

fun grant_all :: "rbac_plugin list \<Rightarrow> role option \<Rightarrow> string list \<Rightarrow> perm_table \<Rightarrow> (rbac_error + unit) \<times> perm_table" where
  "grant_all ps ro [] t = (Inr (), t)"
| "grant_all ps ro (c # cs) t =
     (case grant_extension_permission ps ro c t of Inl x \<Rightarrow> (Inl x, t) | Inr t' \<Rightarrow> grant_all ps ro cs t')"

definition grant_permission_group ::
  "rbac_plugin list \<Rightarrow> role option \<Rightarrow> string \<Rightarrow> string \<Rightarrow> perm_table \<Rightarrow> (rbac_error + unit) \<times> perm_table" where
  "grant_permission_group ps ro plugin_id group_name t =
     (case permission_groups ps plugin_id of
        Inl x \<Rightarrow> (Inl x, t)
      | Inr gs \<Rightarrow> (case dget gs group_name of None \<Rightarrow> (Inl Unknown_Group, t) | Some cs \<Rightarrow> grant_all ps ro cs t))"

definition stored_permissions :: "perm_table \<Rightarrow> nat \<Rightarrow> string list \<Rightarrow> (string, bool) dict" where
  "stored_permissions t rid codes = map (\<lambda>c. (c, get_or t (rid, c) False)) codes"

definition get_role_permissions ::
  "rbac_plugin list \<Rightarrow> role option \<Rightarrow> string \<Rightarrow> perm_table \<Rightarrow> rbac_error + (string, bool) dict" where
  "get_role_permissions ps ro plugin_id t =
     (case ro of None \<Rightarrow> Inl Not_A_Role
      | Some r \<Rightarrow> rbind (permission_groups ps plugin_id) (\<lambda>gs.
          Inr (stored_permissions t (ro_id r) (sort (remdups (group_codes gs))))))"

definition get_all_role_permissions :: "rbac_plugin list \<Rightarrow> role option \<Rightarrow> perm_table \<Rightarrow> rbac_error + (string, bool) dict" where
  "get_all_role_permissions ps ro t =
     (case ro of None \<Rightarrow> Inl Not_A_Role
      | Some r \<Rightarrow>
          (let codes = sort (registered_permissions ps) in
           if ro_superuser r then Inr (map (\<lambda>c. (c, True)) codes) else Inr (stored_permissions t (ro_id r) codes)))"

section \<open>The permission table as a keyed table\<close>

text \<open>The unique constraint on role and code is the table's invariant \<open>dict_ok\<close>; the laws of the keyed table interpreted in the
  prelude give what a grant changes.\<close>

lemma granted_after_set:
  assumes "set_extension_permission ps (Some r) cn g t = Inr t'" and "dict_ok t"
  shows "granted_in t' rid c = (if rid = ro_id r \<and> c = cn then g else granted_in t rid c) \<and> dict_ok t'"
proof -
  have t': "t' = AList.update (ro_id r, cn) g t" using assms(1) by (auto simp: set_extension_permission_def)
  show ?thesis
    using dict_table.lookup_upsert [OF assms(2), of "(ro_id r, cn)" g] dict_table.invar_upsert [OF assms(2)]
    by (auto simp: granted_in_def t')
qed

text \<open>Granting or revoking a permission changes exactly that permission of exactly that role: afterwards an authenticated,
  non-superuser member of the role holds it if and only if it was granted; members of other roles, and every other
  permission, are as before; an unknown code is refused and changes nothing.\<close>

theorem set_extension_permission_exact:
  assumes "dict_ok t" and "set_extension_permission ps (Some r) cn g t = Inr t'"
    and "u_authenticated u" and "\<not> u_superuser u" and "u_role_cache u = Role_Is (Some q)" and "\<not> ro_superuser q"
  shows "dict_ok t' \<and> cn \<in> set (registered_permissions ps) \<and>
    (ro_id q = ro_id r \<longrightarrow> has_extension_permission ps t' u cn = Inr g) \<and>
    (\<forall>c. ro_id q \<noteq> ro_id r \<or> c \<noteq> cn \<longrightarrow> has_extension_permission ps t' u c = has_extension_permission ps t u c)"
proof -
  have known: "cn \<in> set (registered_permissions ps)"
    using assms(2) by (auto simp: set_extension_permission_def validate_codename_def split: if_splits)
  have "has_extension_permission ps s u c = rbind (validate_codename ps c) (\<lambda>_. Inr (granted_in s (ro_id q) c))" for s c
    using assms(3-6) by (simp add: has_extension_permission_def)
  then show ?thesis
    using granted_after_set [OF assms(2,1)] known by (auto simp: validate_codename_def)
qed

definition sample_role :: role where
  "sample_role = \<lparr>ro_id = 4, ro_superuser = False, ro_flags = [(''can_reboot'', True)]\<rparr>"

definition sample_user :: user where
  "sample_user = \<lparr>u_authenticated = True, u_superuser = False, u_installer = False,
     u_role_cache = Role_Is (Some sample_role), u_role = Some sample_role\<rparr>"

lemma sample_grant: "set_extension_permission [] (Some sample_role) ''core.privileged_operations'' True [] =
    Inr [((4, ''core.privileged_operations''), True)]"
  by code_simp

theorem set_extension_permission_exact_witness:
  "has_extension_permission [] [((4, ''core.privileged_operations''), True)] sample_user ''core.privileged_operations'' = Inr True"
  using set_extension_permission_exact [OF _ sample_grant, of sample_user sample_role]
  by (simp add: sample_user_def) (simp add: sample_role_def)

section \<open>Consistency of the readers\<close>

lemma known_code_valid: "c \<in> set (registered_permissions ps) \<Longrightarrow> validate_codename ps c = Inr ()"
  by (simp add: validate_codename_def)

text \<open>The permission list and the permission check agree: whenever the list can be read, a registered code is in it if and
  only if the check of that code says yes; nothing unregistered is ever in it; a signed-out user holds nothing and an effective superuser
  holds everything registered.\<close>

theorem effective_permissions_agree:
  assumes "effective_permissions ps t u None = Inr held"
  shows "set held \<subseteq> set (registered_permissions ps) \<and>
    (\<forall>c \<in> set (registered_permissions ps). has_extension_permission ps t u c = Inr (c \<in> set held)) \<and>
    (\<not> u_authenticated u \<longrightarrow> held = []) \<and>
    (is_effective_superuser u \<longrightarrow> set held = set (registered_permissions ps))"
  using assms
  by (auto simp: effective_permissions_def has_extension_permission_def is_effective_superuser_def known_code_valid Let_def
      split: if_splits role_lookup.splits option.splits)

theorem effective_permissions_agree_witness:
  "has_extension_permission [] [((4, ''core.privileged_operations''), True)] sample_user ''core.privileged_operations'' = Inr True"
proof -
  have e: "effective_permissions [] [((4, ''core.privileged_operations''), True)] sample_user None =
      Inr [''core.privileged_operations'']" by code_simp
  have "''core.privileged_operations'' \<in> set (registered_permissions [])" by code_simp
  then show ?thesis using effective_permissions_agree [OF e] by auto
qed

lemma dget_fold_flags:
  "map_of (fold (\<lambda>n d. AList.update n (f n) d) names d) k =
     (if k \<in> set names then Some (f k) else map_of d k)"
  by (induction names arbitrary: d) (auto simp: AList.update_conv')

lemma rmap_validate:
  "rmap (validate_tactical_flag flds) (map PStr names) = Inr names \<longleftrightarrow>
     (\<forall>n \<in> set names. validate_tactical_flag flds (PStr n) = Inr n)"
  by (induction names) auto

text \<open>Tactical role flags fail closed: an installer user, a signed-out user, a user without a role and a failed role lookup are denied
  every flag; the catalogue lists exactly the boolean \<open>can_\<close> fields and gives each the same answer as asking for it alone.\<close>

theorem tactical_flags_fail_closed:
  assumes "distinct (map fst flds)" and "tactical_permission_catalog flds u = Inr d"
  shows "(\<forall>n. (dget d n \<noteq> None) = (startswith n ''can_'' \<and> map_of flds n = Some True)) \<and>
    (\<forall>n b. dget d n = Some b \<longrightarrow> has_tactical_permission flds u n = Inr b) \<and>
    (\<not> u_authenticated u \<or> u_installer u \<or> (\<not> u_superuser u \<and> u_role_cache u \<in> {Role_Raises, Role_Is None}) \<longrightarrow>
       (\<forall>n. dget d n \<noteq> Some True))"
proof -
  let ?names = "map fst (filter (\<lambda>f. startswith (fst f) ''can_'' \<and> snd f) flds)"
  have mem: "n \<in> set ?names \<longleftrightarrow> startswith n ''can_'' \<and> map_of flds n = Some True" for n
    using assms(1) by (auto simp: map_of_eq_Some_iff image_iff)
  have v: "validate_tactical_flag flds (PStr n) = Inr n" if "n \<in> set ?names" for n
    using that mem [of n] by (simp add: validate_tactical_flag_def)
  have r: "rmap (validate_tactical_flag flds) (map PStr ?names) = Inr ?names"
    unfolding rmap_validate using v by blast
  then have d: "d = fold (\<lambda>n d. AList.update n (flag_answer u n) d) ?names []"
    using assms(2) by (simp add: tactical_permission_catalog_def tactical_permission_flags_def comp_def)
  have dg: "dget d n = (if n \<in> set ?names then Some (flag_answer u n) else None)" for n
    unfolding d dget_fold_flags by simp
  have one: "has_tactical_permission flds u n = Inr (flag_answer u n)" if "n \<in> set ?names" for n
    using v [OF that] by (simp add: has_tactical_permission_def tactical_permission_flags_def get_or_def)
  have deny: "\<not> flag_answer u n"
    if "\<not> u_authenticated u \<or> u_installer u \<or> (\<not> u_superuser u \<and> u_role_cache u \<in> {Role_Raises, Role_Is None})" for n
    using that by (auto simp: flag_answer_def)
  show ?thesis
  proof (intro conjI allI impI)
    fix n
    show "(dget d n \<noteq> None) = (startswith n ''can_'' \<and> map_of flds n = Some True)"
      using mem [of n] by (simp only: dg) simp
  next
    fix n b
    assume "dget d n = Some b"
    then show "has_tactical_permission flds u n = Inr b" using one [of n] dg [of n] by (auto split: if_splits)
  next
    fix n
    assume "\<not> u_authenticated u \<or> u_installer u \<or> (\<not> u_superuser u \<and> u_role_cache u \<in> {Role_Raises, Role_Is None})"
    from deny [OF this, of n] show "dget d n \<noteq> Some True" by (simp only: dg) simp
  qed
qed

theorem tactical_flags_fail_closed_witness:
  "has_tactical_permission [(''name'', False), (''can_reboot'', True)] sample_user ''can_reboot'' = Inr True"
proof -
  have c: "tactical_permission_catalog [(''name'', False), (''can_reboot'', True)] sample_user = Inr [(''can_reboot'', True)]"
    by code_simp
  show ?thesis using tactical_flags_fail_closed [OF _ c] by simp
qed

end
