(* ===== verification/Creation_Scope.thy ===== *)
theory Creation_Scope
  imports Rbac
begin

text \<open>
  The scope a schedule keeps from the person who saved it: \<open>role_scope_descriptor\<close> of \<open>resources_adapter.py\<close> and all of
  \<open>scheduler_creation_scope.py\<close>. Tactical's role relations \<open>can_view_clients\<close> and \<open>can_view_sites\<close> are a table by role id whose read may
  raise (\<open>None\<close>). A snapshot is a record with the fields of the stored dictionary; \<open>snapshot_val\<close> is that dictionary.
\<close>

section \<open>The scope of a person\<close>

type_synonym role_views = "nat \<Rightarrow> (int list \<times> int list) option"

record scope_descriptor =
  sd_mode :: string
  sd_unrestricted :: bool
  sd_whole_client_ids :: "int list"
  sd_site_ids :: "int list"
  sd_whole_client_count :: nat
  sd_site_count :: nat

definition scope_none :: scope_descriptor where
  "scope_none = \<lparr>sd_mode = ''none'', sd_unrestricted = False, sd_whole_client_ids = [], sd_site_ids = [], sd_whole_client_count = 0, sd_site_count = 0\<rparr>"

definition role_for_user :: "user \<Rightarrow> role option" where
  "role_for_user u = (case u_role_cache u of Role_Raises \<Rightarrow> u_role u | Role_Is r \<Rightarrow> r)"

definition relation_pks :: "int list \<Rightarrow> int list" where
  "relation_pks ids = sort (dedup ids)"

definition role_scope_unrestricted :: "role_views \<Rightarrow> user \<Rightarrow> bool option" where
  "role_scope_unrestricted views u =
     (if u_superuser u then Some True
      else (case role_for_user u of
          None \<Rightarrow> Some False
        | Some r \<Rightarrow> if ro_superuser r then Some True else map_option (\<lambda>(clients, sites). clients = [] \<and> sites = []) (views (ro_id r))))"

definition role_scope_descriptor :: "role_views \<Rightarrow> user option \<Rightarrow> scope_descriptor" where
  "role_scope_descriptor views person = (case person of
     None \<Rightarrow> scope_none
   | Some u \<Rightarrow>
       if \<not> u_authenticated u \<or> u_installer u then scope_none
       else (case role_for_user u of
           None \<Rightarrow> if u_superuser u then scope_none\<lparr>sd_mode := ''unrestricted'', sd_unrestricted := True\<rparr> else scope_none
         | Some r \<Rightarrow>
             if u_superuser u \<or> ro_superuser r then scope_none\<lparr>sd_mode := ''unrestricted'', sd_unrestricted := True\<rparr>
             else (case views (ro_id r) of
                 None \<Rightarrow> scope_none
               | Some (c, s) \<Rightarrow>
                   (let clients = relation_pks c; sites = relation_pks s in
                    if clients = [] \<and> sites = [] then scope_none\<lparr>sd_mode := ''unrestricted'', sd_unrestricted := True\<rparr>
                    else \<lparr>sd_mode = (if clients \<noteq> [] \<and> sites \<noteq> [] then ''mixed'' else if clients \<noteq> [] then ''clients'' else ''sites''),
                          sd_unrestricted = False, sd_whole_client_ids = clients, sd_site_ids = sites,
                          sd_whole_client_count = length clients, sd_site_count = length sites\<rparr>))))"

section \<open>Snapshots\<close>

record scope_snapshot =
  ss_captured_for :: string
  ss_captured_at :: string
  ss_unrestricted :: bool
  ss_whole_client_ids :: "int list"
  ss_site_ids :: "int list"
  ss_flags :: "string list"

definition snapshot_val :: "scope_snapshot \<Rightarrow> pyval" where
  "snapshot_val s = PDict [(''v'', PInt 1), (''captured_for'', PStr (ss_captured_for s)), (''captured_at'', PStr (ss_captured_at s)),
     (''scope'', PDict [(''unrestricted'', PBool (ss_unrestricted s)), (''whole_client_ids'', PList (map PInt (ss_whole_client_ids s))),
        (''site_ids'', PList (map PInt (ss_site_ids s)))]),
     (''flags'', PList (map PStr (ss_flags s)))]"

definition scope_flag :: "string \<Rightarrow> bool" where
  "scope_flag f = (startswith f ''can_'' \<and> 5 \<le> length f \<and> length f \<le> 84 \<and>
     list_all (\<lambda>c. is_lower_ascii c \<or> is_digit c \<or> c = CHR ''_'') (drop 4 f))"

fun positive_int :: "pyval \<Rightarrow> int option" where
  "positive_int (PInt i) = (if 0 < i then Some i else None)"
| "positive_int _ = None"

definition scope_ids :: "pyval \<Rightarrow> int list option" where
  "scope_ids v = (if \<not> truthy v then Some []
     else (case v of
         PList xs \<Rightarrow> if list_all (\<lambda>x. positive_int x \<noteq> None) xs then Some (sort (dedup (List.map_filter positive_int xs))) else None
       | _ \<Rightarrow> None))"

text \<open>\<open>capture\<close>: a fault of a read, or an id that is no positive number, gives the snapshot that reaches nothing.\<close>

definition capture :: "role_views \<Rightarrow> role_fields \<Rightarrow> string \<Rightarrow> string \<Rightarrow> user option \<Rightarrow> scope_snapshot" where
  "capture views flds now username person =
     (let name = take 150 username;
          empty = \<lparr>ss_captured_for = name, ss_captured_at = now, ss_unrestricted = False, ss_whole_client_ids = [], ss_site_ids = [], ss_flags = []\<rparr>;
          d = role_scope_descriptor views person in
      case (scope_ids (PList (map PInt (sd_whole_client_ids d))), scope_ids (PList (map PInt (sd_site_ids d))),
            (case person of None \<Rightarrow> Inr [] | Some u \<Rightarrow> tactical_permission_catalog flds u)) of
        (Some clients, Some sites, Inr held) \<Rightarrow>
          \<lparr>ss_captured_for = name, ss_captured_at = now, ss_unrestricted = sd_unrestricted d, ss_whole_client_ids = clients, ss_site_ids = sites,
           ss_flags = sort (map fst (filter (\<lambda>e. snd e \<and> scope_flag (fst e)) held))\<rparr>
      | _ \<Rightarrow> empty)"

definition is_version_one :: "pyval \<Rightarrow> bool" where
  "is_version_one v = (case v of PInt i \<Rightarrow> i = 1 | PBool b \<Rightarrow> b | PFloat f \<Rightarrow> float_text f = ''1.0'' | _ \<Rightarrow> False)"

fun flag_text :: "pyval \<Rightarrow> string option" where
  "flag_text (PStr f) = (if scope_flag f then Some f else None)"
| "flag_text _ = None"

definition normalize :: "pyval \<Rightarrow> scope_snapshot option" where
  "normalize v = (case v of
     PDict d \<Rightarrow>
       if \<not> is_version_one (get_or d ''v'' PNone) then None
       else (case (get_or d ''scope'' PNone, get_or d ''flags'' PNone) of
           (PDict s, PList fs) \<Rightarrow>
             (case get_or s ''unrestricted'' PNone of
                PBool b \<Rightarrow>
                  if list_ex (\<lambda>f. flag_text f = None) fs then None
                  else (case (scope_ids (get_or s ''whole_client_ids'' PNone), scope_ids (get_or s ''site_ids'' PNone)) of
                      (Some clients, Some sites) \<Rightarrow>
                        Some \<lparr>ss_captured_for = take 150 (text_or_empty (get_or d ''captured_for'' PNone)),
                              ss_captured_at = take 40 (text_or_empty (get_or d ''captured_at'' PNone)),
                              ss_unrestricted = b, ss_whole_client_ids = clients, ss_site_ids = sites,
                              ss_flags = sort (dedup (List.map_filter flag_text fs))\<rparr>
                    | _ \<Rightarrow> None)
              | _ \<Rightarrow> None)
         | _ \<Rightarrow> None)
   | _ \<Rightarrow> None)"

definition holds :: "scope_snapshot \<Rightarrow> string \<Rightarrow> bool" where
  "holds s flag = (flag \<in> set (ss_flags s))"

definition snapshot_covers :: "scope_snapshot \<Rightarrow> int \<Rightarrow> int \<Rightarrow> bool" where
  "snapshot_covers s client_id site_id = (ss_unrestricted s \<or> client_id \<in> set (ss_whole_client_ids s) \<or> site_id \<in> set (ss_site_ids s))"

section \<open>What a stored scope is\<close>

lemma positive_ints: "list_all (\<lambda>x. positive_int x \<noteq> None) (map PInt xs) \<longleftrightarrow> list_all (\<lambda>i. 0 < i) xs" "list_all (\<lambda>i. 0 < i) xs \<Longrightarrow> List.map_filter positive_int (map PInt xs) = xs"
  by (induction xs) (auto simp: List.map_filter_simps split: if_splits)

lemma scope_ids_ints: "scope_ids (PList (map PInt xs)) = (if list_all (\<lambda>i. 0 < i) xs then Some (sort (dedup xs)) else None)"
  using positive_ints [of xs] by (auto simp: scope_ids_def dedup_def)

lemma flag_texts: "list_ex (\<lambda>f. flag_text f = None) (map PStr fs) \<longleftrightarrow> \<not> list_all scope_flag fs" "list_all scope_flag fs \<Longrightarrow> List.map_filter flag_text (map PStr fs) = fs"
  by (induction fs) (auto simp: List.map_filter_simps split: if_splits)

definition canonical_snapshot :: "scope_snapshot \<Rightarrow> bool" where
  "canonical_snapshot s \<longleftrightarrow> length (ss_captured_for s) \<le> 150 \<and> length (ss_captured_at s) \<le> 40 \<and>
     sorted (ss_whole_client_ids s) \<and> distinct (ss_whole_client_ids s) \<and> list_all (\<lambda>i. 0 < i) (ss_whole_client_ids s) \<and>
     sorted (ss_site_ids s) \<and> distinct (ss_site_ids s) \<and> list_all (\<lambda>i. 0 < i) (ss_site_ids s) \<and>
     sorted (ss_flags s) \<and> distinct (ss_flags s) \<and> list_all scope_flag (ss_flags s)"

lemma canonical_reads_back:
  assumes "canonical_snapshot s"
  shows "normalize (snapshot_val s) = Some s"
  using assms flag_texts [of "ss_flags s"]
  by (cases s) (simp add: canonical_snapshot_def normalize_def snapshot_val_def get_or_def is_version_one_def scope_ids_ints sorted_sort_id text_or_empty_def py_or_def split: if_splits)

lemma fold_dset_keys: "distinct (map fst d) \<Longrightarrow> distinct (map fst (fold (\<lambda>n d. dset n (f n) d) ns d))"
  by (induction ns arbitrary: d) (simp_all add: distinct_update)

lemma fold_dset_values: "(n, b) \<in> set (fold (\<lambda>n d. dset n (f n) d) ns d) \<Longrightarrow> b = f n \<or> (n, b) \<in> set d"
proof (induction ns arbitrary: d)
  case (Cons m ns)
  then have "b = f n \<or> (n, b) \<in> set (dset m (f m) d)" by simp
  then show ?case using set_dset [of m "f m" d] by auto
qed simp

lemma catalog_facts:
  assumes "tactical_permission_catalog flds u = Inr held"
  shows "distinct (map fst held)" and "(f, b) \<in> set held \<Longrightarrow> b = flag_answer u f"
  using assms fold_dset_keys [of "[]" "flag_answer u"] fold_dset_values [of f b "flag_answer u" _ "[]"]
  by (auto simp: tactical_permission_catalog_def tactical_permission_flags_def rbind_Inr_iff)

lemma capture_cases:
  obtains (empty) "capture views flds now name person = \<lparr>ss_captured_for = take 150 name, ss_captured_at = now, ss_unrestricted = False, ss_whole_client_ids = [], ss_site_ids = [], ss_flags = []\<rparr>"
  | (full) d held where "d = role_scope_descriptor views person" and "list_all (\<lambda>i. 0 < i) (sd_whole_client_ids d)" and "list_all (\<lambda>i. 0 < i) (sd_site_ids d)"
      and "person = None \<and> held = [] \<or> (\<exists>u. person = Some u \<and> tactical_permission_catalog flds u = Inr held)"
      and "capture views flds now name person = \<lparr>ss_captured_for = take 150 name, ss_captured_at = now, ss_unrestricted = sd_unrestricted d,
        ss_whole_client_ids = sort (dedup (sd_whole_client_ids d)), ss_site_ids = sort (dedup (sd_site_ids d)),
        ss_flags = sort (map fst (filter (\<lambda>e. snd e \<and> scope_flag (fst e)) held))\<rparr>"
proof -
  let ?d = "role_scope_descriptor views person" and ?h = "case person of None \<Rightarrow> Inr [] | Some u \<Rightarrow> tactical_permission_catalog flds u"
  show ?thesis
  proof (cases "list_all (\<lambda>i. 0 < i) (sd_whole_client_ids ?d) \<and> list_all (\<lambda>i. 0 < i) (sd_site_ids ?d) \<and> is_ok ?h")
    case True
    then obtain held where h: "?h = Inr held" by (auto simp: is_ok_iff)
    then have "person = None \<and> held = [] \<or> (\<exists>u. person = Some u \<and> tactical_permission_catalog flds u = Inr held)" by (cases person) auto
    then show ?thesis using True h by (intro full [OF refl]) (simp_all add: capture_def scope_ids_ints Let_def)
  next
    case False
    then show ?thesis by (intro empty) (cases ?h; auto simp: capture_def scope_ids_ints Let_def)
  qed
qed

lemma capture_canonical: "length now \<le> 40 \<Longrightarrow> canonical_snapshot (capture views flds now name person)"
proof (cases rule: capture_cases [of views flds now name person])
  case (full d held)
  assume "length now \<le> 40"
  moreover have "distinct (map fst held)" using full(4) catalog_facts(1) by auto
  ultimately show ?thesis using full by (simp add: canonical_snapshot_def list_all_iff distinct_map_filter)
qed (simp add: canonical_snapshot_def)

lemma fold_dset_all: "set (map fst (fold (\<lambda>n d. dset n (f n) d) ns d)) = set (map fst d) \<union> set ns"
proof (induction ns arbitrary: d)
  case (Cons m ns)
  have "set (map fst (dset m v d)) = insert m (set (map fst d))" for v by (induction d) auto
  then show ?case using Cons by simp
qed simp

lemma rmap_names: "rmap (validate_tactical_flag flds) (map (\<lambda>f. PStr (fst f)) fs) = Inr names \<Longrightarrow> names = map fst fs"
  by (induction fs arbitrary: names) (auto simp: rbind_Inr_iff validate_tactical_flag_def split: if_splits option.splits)

lemma sort_empty_iff: "sort xs = [] \<longleftrightarrow> xs = []"
  by (metis length_0_conv length_sort)

lemma catalog_exact:
  assumes "tactical_permission_catalog flds u = Inr held"
  shows "(f, True) \<in> set held \<longleftrightarrow> flag_answer u f \<and> startswith f ''can_'' \<and> (f, True) \<in> set flds"
proof -
  obtain names where n: "rmap (validate_tactical_flag flds) (map (\<lambda>f. PStr (fst f)) (filter (\<lambda>f. startswith (fst f) ''can_'' \<and> snd f) flds)) = Inr names"
    and held: "held = fold (\<lambda>n d. dset n (flag_answer u n) d) names []"
    using assms by (auto simp: tactical_permission_catalog_def tactical_permission_flags_def rbind_Inr_iff)
  have "names = map fst (filter (\<lambda>f. startswith (fst f) ''can_'' \<and> snd f) flds)"
    using n by (intro rmap_names) auto
  then have "set (map fst held) = set (map fst (filter (\<lambda>f. startswith (fst f) ''can_'' \<and> snd f) flds))" unfolding held using fold_dset_all [of "flag_answer u" names "[]"] by simp
  then have "f \<in> set (map fst held) \<longleftrightarrow> startswith f ''can_'' \<and> (f, True) \<in> set flds" by (auto intro!: image_eqI [of f fst "(f, True)"])
  moreover have "(f, True) \<in> set held \<longleftrightarrow> f \<in> set (map fst held) \<and> flag_answer u f"
    using catalog_facts(2) [OF assms, of f] by (auto intro: image_eqI [of f fst "(f, True)"])
  ultimately show ?thesis by blast
qed

text \<open>What Tactical's own rule lets a person see: everything for a superuser and for a role without client and site grants, else the granted
  clients and sites; nothing without a role and nothing for an installer.\<close>

definition sees :: "role_views \<Rightarrow> user \<Rightarrow> int \<Rightarrow> int \<Rightarrow> bool" where
  "sees views u c t \<longleftrightarrow> u_authenticated u \<and> \<not> u_installer u \<and>
     (u_superuser u \<or> (case role_for_user u of None \<Rightarrow> False | Some r \<Rightarrow> ro_superuser r \<or>
       (case views (ro_id r) of None \<Rightarrow> False | Some (cs, ts) \<Rightarrow> cs = [] \<and> ts = [] \<or> c \<in> set cs \<or> t \<in> set ts)))"

lemma descriptor_sees:
  assumes "d = role_scope_descriptor views (Some u)"
  shows "sd_unrestricted d \<or> c \<in> set (sd_whole_client_ids d) \<or> t \<in> set (sd_site_ids d) \<longleftrightarrow> sees views u c t"
  using assms by (auto simp: role_scope_descriptor_def sees_def scope_none_def relation_pks_def Let_def sort_empty_iff split: option.split)

text \<open>The scope a schedule keeps is stored in the form Core reads back: for every person and every outcome of the reads, the captured
  snapshot survives the store unchanged, so a run never meets a scope of another shape (a time text has at most forty characters).\<close>

theorem stored_scope_reads_back:
  assumes "length now \<le> 40"
  shows "normalize (snapshot_val (capture views flds now name person)) = Some (capture views flds now name person)"
  using capture_canonical [OF assms] by (rule canonical_reads_back)

definition site_engineer :: user where
  "site_engineer = \<lparr>u_authenticated = True, u_superuser = False, u_installer = False,
     u_role_cache = Role_Is (Some \<lparr>ro_id = 4, ro_superuser = False, ro_flags = [(''can_run_bulk'', True), (''can_send_cmd'', False)]\<rparr>), u_role = None\<rparr>"

definition engineer_views :: role_views where
  "engineer_views r = (if r = 4 then Some ([], [9, 7]) else Some ([], []))"

definition engineer_fields :: role_fields where
  "engineer_fields = [(''can_run_bulk'', True), (''can_send_cmd'', True), (''can_view_clients'', False)]"

theorem stored_scope_reads_back_witness:
  "normalize (snapshot_val (capture engineer_views engineer_fields ''2026-10-21T08:00:00+00:00'' ''sam'' (Some site_engineer))) =
     Some \<lparr>ss_captured_for = ''sam'', ss_captured_at = ''2026-10-21T08:00:00+00:00'', ss_unrestricted = False, ss_whole_client_ids = [], ss_site_ids = [7, 9], ss_flags = [''can_run_bulk'']\<rparr>"
proof -
  have "capture engineer_views engineer_fields ''2026-10-21T08:00:00+00:00'' ''sam'' (Some site_engineer) =
     \<lparr>ss_captured_for = ''sam'', ss_captured_at = ''2026-10-21T08:00:00+00:00'', ss_unrestricted = False, ss_whole_client_ids = [], ss_site_ids = [7, 9], ss_flags = [''can_run_bulk'']\<rparr>"
    by code_simp
  then show ?thesis using stored_scope_reads_back [of "''2026-10-21T08:00:00+00:00''" engineer_views engineer_fields "''sam''" "Some site_engineer"] by simp
qed

lemma capture_full:
  assumes "\<forall>r cs ts. views r = Some (cs, ts) \<longrightarrow> (\<forall>i \<in> set (cs @ ts). 0 < i)" and "tactical_permission_catalog flds u = Inr held"
  shows "capture views flds now name (Some u) = (let d = role_scope_descriptor views (Some u) in \<lparr>ss_captured_for = take 150 name, ss_captured_at = now,
    ss_unrestricted = sd_unrestricted d, ss_whole_client_ids = sort (dedup (sd_whole_client_ids d)), ss_site_ids = sort (dedup (sd_site_ids d)),
    ss_flags = sort (map fst (filter (\<lambda>e. snd e \<and> scope_flag (fst e)) held))\<rparr>)"
proof -
  let ?d = "role_scope_descriptor views (Some u)"
  have "list_all (\<lambda>i. 0 < i) (sd_whole_client_ids ?d) \<and> list_all (\<lambda>i. 0 < i) (sd_site_ids ?d)"
    using assms(1) by (auto simp: role_scope_descriptor_def scope_none_def relation_pks_def Let_def list_all_iff split: option.split)
  then show ?thesis using assms(2) by (simp add: capture_def scope_ids_ints Let_def)
qed

text \<open>(C19) The stored scope is the person's scope at that moment, no more and no less: an endpoint is covered exactly when Tactical's rule lets the
  person see it, and a flag is held exactly when the person's role holds it (for ids that are positive and role fields that are well-formed).\<close>

theorem stored_scope_is_the_persons:
  assumes "\<forall>r cs ts. views r = Some (cs, ts) \<longrightarrow> (\<forall>i \<in> set (cs @ ts). 0 < i)" and "is_ok (tactical_permission_catalog flds u)"
    and "s = capture views flds now name (Some u)"
  shows "(snapshot_covers s c t \<longleftrightarrow> sees views u c t) \<and> (holds s f \<longleftrightarrow> flag_answer u f \<and> scope_flag f \<and> (f, True) \<in> set flds)"
proof -
  obtain held where held: "tactical_permission_catalog flds u = Inr held" using assms(2) by (auto simp: is_ok_iff)
  note full = capture_full [OF assms(1) held, of now name]
  have "scope_flag f \<Longrightarrow> startswith f ''can_''" by (simp add: scope_flag_def)
  then have "holds s f \<longleftrightarrow> flag_answer u f \<and> scope_flag f \<and> (f, True) \<in> set flds"
    using catalog_exact [OF held, of f] unfolding assms(3) full by (force simp: holds_def Let_def)
  moreover have "snapshot_covers s c t \<longleftrightarrow> sees views u c t"
    using descriptor_sees [OF refl, of views u c t] unfolding assms(3) full by (simp add: snapshot_covers_def Let_def)
  ultimately show ?thesis by simp
qed

theorem stored_scope_is_the_persons_witness:
  "snapshot_covers (capture engineer_views engineer_fields ''2026-10-21T08:00:00+00:00'' ''sam'' (Some site_engineer)) 3 7 \<and>
   \<not> snapshot_covers (capture engineer_views engineer_fields ''2026-10-21T08:00:00+00:00'' ''sam'' (Some site_engineer)) 3 8"
proof -
  have views: "\<forall>r cs ts. engineer_views r = Some (cs, ts) \<longrightarrow> (\<forall>i \<in> set (cs @ ts). 0 < i)" by (auto simp: engineer_views_def)
  have ok: "is_ok (tactical_permission_catalog engineer_fields site_engineer)" by code_simp
  have "sees engineer_views site_engineer 3 7" "\<not> sees engineer_views site_engineer 3 8" by code_simp+
  then show ?thesis using stored_scope_is_the_persons [OF views ok refl, of "''2026-10-21T08:00:00+00:00''" "''sam''" 3 7]
      stored_scope_is_the_persons [OF views ok refl, of "''2026-10-21T08:00:00+00:00''" "''sam''" 3 8] by blast
qed

end
