(* ===== verification/System_Marks.thy ===== *)
theory System_Marks
  imports Py_Value
begin

text \<open>
  The at-most-once sends of \<open>system_actions.py\<close>: the endpoint numbers of a call, their ranges and groups, the marks a run
  carries (one plan for each call, one mark for each group) and the loop that claims a group, writes its audit row and hands
  it to Tactical. The truncated SHA-256 of a text is the parameter \<open>sha\<close>. What the world does to a group (a stop of the process, a
  failed audit row, an exception of the task) is its \<open>group_fate\<close>; every call of Tactical's task, or of the writer of update decisions, is
  logged in \<open>sw_sent\<close>, also one that raised, because it may have been carried out.
\<close>

section \<open>Endpoint numbers\<close>

definition max_agents_per_group :: int where
  "max_agents_per_group = 2000"

definition max_groups :: int where
  "max_groups = 20"

definition max_agents :: int where
  "max_agents = max_agents_per_group * max_groups"

definition max_marks_per_run :: int where
  "max_marks_per_run = 105"

fun agent_number :: "pyval \<Rightarrow> int option" where
  "agent_number (PInt i) = (if 0 < i \<and> i < 2 ^ 63 then Some i else None)"
| "agent_number _ = None"

definition agent_ids :: "pyval \<Rightarrow> string + int list" where
  "agent_ids v = (case v of
     PList vs \<Rightarrow>
       if vs = [] \<or> max_agents < int (length vs) then Inl ''agent_count''
       else if list_ex (\<lambda>x. agent_number x = None) vs then Inl ''bad_agents''
       else Inr (sort (dedup (List.map_filter agent_number vs)))
   | _ \<Rightarrow> Inl ''bad_agents'')"

fun ranges_from :: "int \<times> int \<Rightarrow> int list \<Rightarrow> (int \<times> int) list" where
  "ranges_from r [] = [r]"
| "ranges_from (a, b) (v # vs) = (if v = b + 1 then ranges_from (a, v) vs else (a, b) # ranges_from (v, v) vs)"

fun ranges_of :: "int list \<Rightarrow> (int \<times> int) list" where
  "ranges_of [] = []"
| "ranges_of (v # vs) = ranges_from (v, v) vs"

fun ranges_overlap :: "(int \<times> int) list \<Rightarrow> (int \<times> int) list \<Rightarrow> bool" where
  "ranges_overlap [] bs = False"
| "ranges_overlap as [] = False"
| "ranges_overlap ((a0, a1) # as) ((b0, b1) # bs) =
     (if a1 < b0 then ranges_overlap as ((b0, b1) # bs)
      else if b1 < a0 then ranges_overlap ((a0, a1) # as) bs
      else True)"

text \<open>\<open>[ids[i:i + n] for i in range(0, len(ids), n)]\<close>\<close>

fun chunk :: "int \<Rightarrow> 'a list \<Rightarrow> 'a list \<times> 'a list" where
  "chunk n [] = ([], [])"
| "chunk n (x # xs) = (if n \<le> 0 then ([], x # xs) else (case chunk (n - 1) xs of (first, rest) \<Rightarrow> (x # first, rest)))"

lemma chunk_append: "chunk n xs = (first, rest) \<Longrightarrow> first @ rest = xs \<and> int (length first) \<le> max n 0 \<and> (0 < n \<and> xs \<noteq> [] \<longrightarrow> first \<noteq> [])"
  by (induction n xs arbitrary: first rest rule: chunk.induct) (auto split: if_splits prod.splits)

lemma chunk_shorter: "(first, rest) = chunk n xs \<Longrightarrow> 0 < n \<Longrightarrow> xs \<noteq> [] \<Longrightarrow> length rest < length xs"
  using chunk_append [of n xs first rest] by (auto simp: neq_Nil_conv)

function cut :: "int \<Rightarrow> 'a list \<Rightarrow> 'a list list" where
  "cut n xs = (if n \<le> 0 \<or> xs = [] then [] else (case chunk n xs of (first, rest) \<Rightarrow> first # cut n rest))"
  by pat_completeness auto
termination by (relation "measure (\<lambda>(n, xs). length xs)") (auto dest: chunk_shorter)

declare cut.simps [simp del]

lemma cut_facts: "0 < n \<Longrightarrow> concat (cut n xs) = xs \<and> (\<forall>g \<in> set (cut n xs). g \<noteq> [] \<and> int (length g) \<le> n)"
proof (induction n xs rule: cut.induct)
  case (1 n xs)
  show ?case
  proof (cases "xs = []")
    case True
    then show ?thesis by (simp add: cut.simps)
  next
    case False
    obtain first rest where c: "chunk n xs = (first, rest)" by (cases "chunk n xs")
    then have "concat (cut n rest) = rest \<and> (\<forall>g \<in> set (cut n rest). g \<noteq> [] \<and> int (length g) \<le> n)" using 1 False by simp
    then show ?thesis using False 1(2) c chunk_append [OF c] by (simp add: cut.simps [of n xs])
  qed
qed

definition groups_of :: "int list \<Rightarrow> int list list" where
  "groups_of ids = cut max_agents_per_group ids"

section \<open>Update decisions\<close>

type_synonym decisions = "(int, string) dict"

definition change_item :: "pyval \<Rightarrow> (int \<times> string) option" where
  "change_item v = (case v of
     PDict d \<Rightarrow>
       if set (keys d) \<noteq> {''update_id'', ''action''} then None
       else (case (dget d ''update_id'', dget d ''action'') of
           (Some n, Some (PStr action)) \<Rightarrow> map_option (\<lambda>i. (i, action)) (agent_number n)
         | _ \<Rightarrow> None)
   | _ \<Rightarrow> None)"

fun collect_changes :: "decisions \<Rightarrow> pyval list \<Rightarrow> decisions option" where
  "collect_changes d [] = Some d"
| "collect_changes d (v # vs) = (case change_item v of None \<Rightarrow> None
     | Some (i, action) \<Rightarrow> if has_key d i then None else collect_changes (d @ [(i, action)]) vs)"

text \<open>\<open>update_agents\<close> is what \<open>_read_update_agents\<close> finds: the endpoint of each update it knows; \<open>None\<close> is an exception of the read.\<close>

definition resolve_changes :: "string list \<Rightarrow> (int list \<Rightarrow> (int, int) dict option) \<Rightarrow> pyval \<Rightarrow> string + decisions \<times> int list" where
  "resolve_changes allowed update_agents v = (case v of
     PList vs \<Rightarrow>
       if vs = [] \<or> max_agents < int (length vs) then Inl ''bad_changes''
       else (case collect_changes [] vs of None \<Rightarrow> Inl ''bad_changes''
         | Some d \<Rightarrow>
             if list_ex (\<lambda>e. snd e \<notin> set allowed) d then Inl ''action_not_allowed''
             else (case update_agents (sort (keys d)) of None \<Rightarrow> Inl ''function_unavailable''
               | Some agents \<Rightarrow> if set (keys agents) \<noteq> set (keys d) then Inl ''unknown_update'' else Inr (d, sort (dedup (map snd agents)))))
   | _ \<Rightarrow> Inl ''bad_changes'')"

section \<open>Digests\<close>

definition id_list :: "int list \<Rightarrow> string" where
  "id_list ids = join '','' (map show_int ids)"

definition decision_pairs :: "int list \<Rightarrow> decisions \<Rightarrow> string" where
  "decision_pairs ids d = join '','' (map (\<lambda>i. show_int i @ '':'' @ get_or d i []) (sort ids))"

definition decisions_part :: "int list \<Rightarrow> decisions option \<Rightarrow> string" where
  "decisions_part ids dec = (case dec of None \<Rightarrow> [] | Some d \<Rightarrow> ''|decisions|'' @ decision_pairs ids d)"

definition group_text :: "string \<Rightarrow> string \<Rightarrow> int list \<Rightarrow> decisions option \<Rightarrow> string" where
  "group_text run a ids dec = run @ ''|'' @ a @ ''|'' @ id_list ids @ decisions_part ids dec"

definition plan_text :: "string \<Rightarrow> string \<Rightarrow> int list \<Rightarrow> decisions option \<Rightarrow> string" where
  "plan_text run a ids dec = run @ ''|'' @ a @ ''|plan|'' @ id_list ids @ decisions_part ids dec"

section \<open>Marks\<close>

record sa_mark =
  mk_action :: string
  mk_plan :: bool
  mk_digest :: string
  mk_state :: string
  mk_ids :: "(int \<times> int) list"
  mk_groups :: "string list"
  mk_size :: int
  mk_ids_key :: "string option"
  mk_agents :: nat
  mk_task :: string

record send_world =
  sw_status :: string
  sw_marks :: "sa_mark list"
  sw_sent :: "(string \<times> int list) list"

datatype plan_state = Plan_New | Plan_Same | Plan_Changed | Plan_Gone | Plan_Full | Plan_Changed_Decisions | Plan_Decisions_Changed

datatype mark_state = Mark_Claimed | Mark_Sent | Mark_Unknown | Mark_Gone | Mark_Full

definition group_mark_of :: "string \<Rightarrow> string list \<Rightarrow> sa_mark \<Rightarrow> bool" where
  "group_mark_of a digests m = (\<not> mk_plan m \<and> mk_action m = a \<and> mk_digest m \<in> set digests)"

definition plan_touched :: "string \<Rightarrow> sa_mark list \<Rightarrow> sa_mark \<Rightarrow> bool" where
  "plan_touched a marks p = list_ex (\<lambda>m. group_mark_of a (mk_groups p) m \<and> mk_state m \<noteq> ''aborted'') marks"

definition plans_of :: "string \<Rightarrow> sa_mark list \<Rightarrow> sa_mark list" where
  "plans_of a marks = filter (\<lambda>m. mk_plan m \<and> mk_action m = a) marks"

definition drop_plans :: "string \<Rightarrow> sa_mark list \<Rightarrow> sa_mark list \<Rightarrow> sa_mark list" where
  "drop_plans a stale marks = (let gone = concat (map mk_groups stale) @ map mk_digest stale in
     filter (\<lambda>m. \<not> (mk_action m = a \<and> mk_digest m \<in> set gone)) marks)"

definition new_plan :: "string \<Rightarrow> string \<Rightarrow> int list \<Rightarrow> string list \<Rightarrow> string option \<Rightarrow> sa_mark" where
  "new_plan a digest ids digests ids_key = \<lparr>mk_action = a, mk_plan = True, mk_digest = digest, mk_state = ''plan'', mk_ids = ranges_of ids, mk_groups = digests,
     mk_size = max_agents_per_group, mk_ids_key = ids_key, mk_agents = 0, mk_task = []\<rparr>"

definition ids_key_of :: "sa_mark \<Rightarrow> string" where
  "ids_key_of p = (case mk_ids_key p of None \<Rightarrow> mk_digest p | Some k \<Rightarrow> if k = [] then mk_digest p else k)"

definition claim_plan :: "(string \<Rightarrow> string) \<Rightarrow> string \<Rightarrow> string \<Rightarrow> int list \<Rightarrow> string list \<Rightarrow> decisions option \<Rightarrow> send_world \<Rightarrow>
    (plan_state \<times> sa_mark option) \<times> send_world" where
  "claim_plan sha run a ids digests dec w =
     (let digest = sha (plan_text run a ids dec);
          ids_digest = map_option (\<lambda>_. sha (plan_text run a ids None)) dec;
          marks = sw_marks w; plans = plans_of a marks in
      if sw_status w \<noteq> ''running'' then ((Plan_Gone, None), w)
      else (case find (\<lambda>p. mk_digest p = digest) plans of Some p \<Rightarrow> ((Plan_Same, Some p), w)
      | None \<Rightarrow> (case Option.bind ids_digest (\<lambda>d. find (\<lambda>p. ids_key_of p = d) plans) of
          Some p \<Rightarrow> ((if plan_touched a marks p then Plan_Changed_Decisions else Plan_Decisions_Changed, Some p), w)
      | None \<Rightarrow> let overlapping = filter (\<lambda>p. ranges_overlap (ranges_of ids) (mk_ids p)) plans in
          (case find (plan_touched a marks) overlapping of Some p \<Rightarrow> ((Plan_Changed, Some p), w)
          | None \<Rightarrow>
              let marks' = (if overlapping = [] then marks else drop_plans a overlapping marks); plan = new_plan a digest ids digests ids_digest in
              if max_marks_per_run \<le> int (length marks') then ((Plan_Full, None), w)
              else ((Plan_New, Some plan), w\<lparr>sw_marks := marks' @ [plan]\<rparr>)))))"

definition same_mark :: "string \<Rightarrow> string \<Rightarrow> sa_mark \<Rightarrow> bool" where
  "same_mark a digest m = (mk_action m = a \<and> mk_digest m = digest)"

text \<open>Changing the first mark of an action and a digest.\<close>

fun update_mark :: "string \<Rightarrow> string \<Rightarrow> (sa_mark \<Rightarrow> sa_mark) \<Rightarrow> sa_mark list \<Rightarrow> sa_mark list" where
  "update_mark a digest f [] = []"
| "update_mark a digest f (m # ms) = (if same_mark a digest m then f m # ms else m # update_mark a digest f ms)"

definition new_group_mark :: "string \<Rightarrow> string \<Rightarrow> nat \<Rightarrow> sa_mark" where
  "new_group_mark a digest agents = \<lparr>mk_action = a, mk_plan = False, mk_digest = digest, mk_state = ''claiming'', mk_ids = [], mk_groups = [], mk_size = 0,
     mk_ids_key = None, mk_agents = agents, mk_task = []\<rparr>"

definition claim_mark :: "string \<Rightarrow> string \<Rightarrow> nat \<Rightarrow> send_world \<Rightarrow> mark_state \<times> send_world" where
  "claim_mark a digest agents w =
     (if sw_status w \<noteq> ''running'' then (Mark_Gone, w)
      else (case find (same_mark a digest) (sw_marks w) of
          Some m \<Rightarrow>
            if mk_state m = ''sent'' then (Mark_Sent, w)
            else if mk_state m \<noteq> ''aborted'' then (Mark_Unknown, w)
            else (Mark_Claimed, w\<lparr>sw_marks := update_mark a digest (mk_state_update (\<lambda>_. ''claiming'')) (sw_marks w)\<rparr>)
        | None \<Rightarrow>
            if max_marks_per_run \<le> int (length (sw_marks w)) then (Mark_Full, w)
            else (Mark_Claimed, w\<lparr>sw_marks := sw_marks w @ [new_group_mark a digest agents]\<rparr>)))"

definition set_mark :: "bool \<Rightarrow> string \<Rightarrow> string \<Rightarrow> string \<Rightarrow> string \<Rightarrow> send_world \<Rightarrow> bool \<times> send_world" where
  "set_mark written a digest state task w =
     (if \<not> written \<or> find (same_mark a digest) (sw_marks w) = None then (False, w)
      else (True, w\<lparr>sw_marks := update_mark a digest (\<lambda>m. m\<lparr>mk_state := state, mk_task := (if task = [] then mk_task m else task)\<rparr>) (sw_marks w)\<rparr>))"

definition end_run :: "string \<Rightarrow> send_world \<Rightarrow> send_world" where
  "end_run status w = (if sw_status w = ''running'' then w\<lparr>sw_status := status\<rparr> else w)"

section \<open>The loop over the groups\<close>

datatype group_fate =
    Stops_Before_Claim | Stops_After_Claim | Audit_Fails bool | Send_Raises | Stops_After_Send | Goes_Out bool string

datatype send_result =
    Queued nat nat nat | Run_Gone | Outcome_Unknown | Try_Again | Process_Stopped | Action_Refused string

definition log_send :: "string \<Rightarrow> int list \<Rightarrow> send_world \<Rightarrow> send_world" where
  "log_send a grp w = w\<lparr>sw_sent := sw_sent w @ [(a, grp)]\<rparr>"

fun send_groups :: "string \<Rightarrow> (nat \<Rightarrow> group_fate) \<Rightarrow> nat \<Rightarrow> nat \<Rightarrow> nat \<Rightarrow> (int list \<times> string) list \<Rightarrow> send_world \<Rightarrow> send_result \<times> send_world" where
  "send_groups a fates i now before [] w = (Queued i now before, w)"
| "send_groups a fates i now before ((grp, digest) # rest) w =
     (if fates i = Stops_Before_Claim then (Process_Stopped, w)
      else (case claim_mark a digest (length grp) w of
        (Mark_Gone, w1) \<Rightarrow> (Run_Gone, w1)
      | (Mark_Full, w1) \<Rightarrow> (Outcome_Unknown, end_run ''failed'' w1)
      | (Mark_Sent, w1) \<Rightarrow> send_groups a fates (Suc i) now (Suc before) rest w1
      | (Mark_Unknown, w1) \<Rightarrow> (Outcome_Unknown, end_run ''failed'' w1)
      | (Mark_Claimed, w1) \<Rightarrow> (case fates i of
            Audit_Fails written \<Rightarrow> (Try_Again, snd (set_mark written a digest ''aborted'' [] w1))
          | Send_Raises \<Rightarrow> (Outcome_Unknown, end_run ''failed'' (log_send a grp w1))
          | Stops_After_Send \<Rightarrow> (Process_Stopped, log_send a grp w1)
          | Goes_Out written task \<Rightarrow>
              send_groups a fates (Suc i) (Suc now) before rest (snd (set_mark written a digest ''sent'' (take 80 task) (log_send a grp w1)))
          | _ \<Rightarrow> (Process_Stopped, w1))))"

definition send_items :: "(string \<Rightarrow> string) \<Rightarrow> string \<Rightarrow> string \<Rightarrow> int list \<Rightarrow> decisions option \<Rightarrow> (nat \<Rightarrow> group_fate) \<Rightarrow> send_world \<Rightarrow> send_result \<times> send_world" where
  "send_items sha run a items dec fates w =
     (let digests = map (\<lambda>g. sha (group_text run a g dec)) (groups_of items);
          plan_digest = sha (plan_text run a items dec);
          ours = length (filter (\<lambda>m. mk_action m = a \<and> mk_digest m \<in> set (plan_digest # digests)) (sw_marks w)) in
      if max_marks_per_run < int (length (sw_marks w)) - int ours + int (length (groups_of items)) + 1 then (Action_Refused ''mark_limit'', end_run ''skipped'' w)
      else (case claim_plan sha run a items digests dec w of
          ((Plan_Gone, _), w1) \<Rightarrow> (Run_Gone, w1)
        | ((Plan_Full, _), w1) \<Rightarrow> (Action_Refused ''mark_limit'', end_run ''skipped'' w1)
        | ((Plan_Decisions_Changed, _), w1) \<Rightarrow> (Action_Refused ''decisions_changed'', end_run ''skipped'' w1)
        | ((Plan_Changed_Decisions, _), w1) \<Rightarrow> (Outcome_Unknown, end_run ''failed'' w1)
        | ((Plan_Changed, _), w1) \<Rightarrow> (Outcome_Unknown, end_run ''failed'' w1)
        | ((_, None), w1) \<Rightarrow> (Process_Stopped, w1)
        | ((_, Some plan), w1) \<Rightarrow>
            (let groups = cut (if mk_size plan = 0 then max_agents_per_group else mk_size plan) items;
                 stored = (if mk_groups plan = [] then digests else mk_groups plan) in
             if length stored \<noteq> length groups then (Outcome_Unknown, end_run ''failed'' w1)
             else send_groups a fates 0 0 0 (zip groups stored) w1)))"

text \<open>The two ways into the loop: \<open>run_system_action\<close> with endpoint numbers, \<open>run_system_write\<close> with the decisions of the updates.\<close>

definition send_task :: "(string \<Rightarrow> string) \<Rightarrow> string \<Rightarrow> string \<Rightarrow> pyval \<Rightarrow> (nat \<Rightarrow> group_fate) \<Rightarrow> send_world \<Rightarrow> send_result \<times> send_world" where
  "send_task sha run a agents fates w = (case agent_ids agents of
     Inl reason \<Rightarrow> (Action_Refused reason, end_run ''skipped'' w)
   | Inr ids \<Rightarrow> send_items sha run a ids None fates w)"

definition send_write :: "(string \<Rightarrow> string) \<Rightarrow> string \<Rightarrow> string \<Rightarrow> string list \<Rightarrow> (int list \<Rightarrow> (int, int) dict option) \<Rightarrow> pyval \<Rightarrow> (nat \<Rightarrow> group_fate) \<Rightarrow> send_world \<Rightarrow>
    send_result \<times> send_world" where
  "send_write sha run a allowed update_agents changes fates w = (case resolve_changes allowed update_agents changes of
     Inl reason \<Rightarrow> (Action_Refused reason, end_run ''skipped'' w)
   | Inr (d, _) \<Rightarrow> send_items sha run a (sort (keys d)) (Some d) fates w)"

end
