(* ===== verification/Endpoint_Scope.thy ===== *)
theory Endpoint_Scope
  imports Creation_Scope Scheduler_Targets Schedule_Payload System_Marks
begin

text \<open>
  Which endpoints a schedule's targets name and which of them a scope reaches: the identity and scope reads of \<open>resources_adapter.py\<close> and
  all of \<open>scheduler_target_resolvers.py\<close>. Tactical's client, site and agent tables are a record; \<open>td_visible\<close> is Tactical's own
  \<open>filter_by_role\<close> on the agent table (\<open>None\<close> is an exception). A module's resolver is a function of the targets; \<open>None\<close> is an exception.
\<close>

section \<open>Tables\<close>

record agent_row =
  ag_pk :: int
  ag_agent_id :: string
  ag_hostname :: string
  ag_plat :: string
  ag_site :: int

record directory =
  td_clients :: "int list"
  td_sites :: "(int, int) dict"
  td_agents :: "agent_row list"
  td_visible :: "user \<Rightarrow> int list option"

datatype adapter_error = Bad_Target target_error | Ambiguous_Endpoint string | Unknown_Reference | Unknown_Number | Scope_Or_Person | Read_Fault

definition client_of :: "directory \<Rightarrow> agent_row \<Rightarrow> int" where
  "client_of d a = get_or (td_sites d) (ag_site a) 0"

definition scope_queryset :: "directory \<Rightarrow> user option \<Rightarrow> adapter_error + agent_row list" where
  "scope_queryset d person = (case person of
     None \<Rightarrow> Inr []
   | Some u \<Rightarrow> (case td_visible d u of None \<Rightarrow> Inl Read_Fault | Some pks \<Rightarrow> Inr (filter (\<lambda>a. ag_pk a \<in> set pks) (td_agents d))))"

section \<open>Endpoint identity\<close>

text \<open>\<open>isdigit\<close> also holds for the superscripts of Latin-1, on which \<open>int\<close> raises.\<close>

definition superscript_digit :: "char \<Rightarrow> bool" where
  "superscript_digit c = (code c \<in> {178, 179, 185})"

definition isdigit_text :: "string \<Rightarrow> bool" where
  "isdigit_text s = (s \<noteq> [] \<and> list_all (\<lambda>c. is_digit c \<or> superscript_digit c) s)"

definition numeric_ids :: "string list \<Rightarrow> adapter_error + int list" where
  "numeric_ids tokens = (if list_ex (\<lambda>t. isdigit_text t \<and> list_ex superscript_digit t) tokens then Inl Read_Fault
     else Inr (filter (\<lambda>i. 0 < i) (map (\<lambda>t. int (read_nat t)) (filter isdigit_text tokens))))"

definition token_matches :: "agent_row list \<Rightarrow> string \<Rightarrow> (int \<times> string) list" where
  "token_matches rows token = dedup (map (\<lambda>a. (ag_pk a, ag_agent_id a)) (filter (\<lambda>a. ag_agent_id a = token \<or> show_int (ag_pk a) = token) rows))"

definition one_match :: "agent_row list \<Rightarrow> string \<Rightarrow> adapter_error + (int \<times> string) option" where
  "one_match rows token = (case token_matches rows token of [] \<Rightarrow> Inr None | [m] \<Rightarrow> Inr (Some m) | _ \<Rightarrow> Inl (Ambiguous_Endpoint token))"

definition identity_rows :: "agent_row list \<Rightarrow> string list \<Rightarrow> adapter_error + agent_row list" where
  "identity_rows rows requested = rbind (numeric_ids requested) (\<lambda>numeric.
     Inr (filter (\<lambda>a. ag_agent_id a \<in> set requested \<or> ag_pk a \<in> set numeric) rows))"

definition canonical_ids_among :: "agent_row list \<Rightarrow> pyval list \<Rightarrow> adapter_error + string list" where
  "canonical_ids_among base identifiers =
     (let requested = map (\<lambda>v. strip (py_str v)) identifiers in
      if requested = [] then Inr []
      else rbind (identity_rows base requested) (\<lambda>rows.
           rbind (rmap (one_match rows) requested) (\<lambda>ms. Inr (dedup (map snd (List.map_filter id ms))))))"

definition canonical_agent_target_ids :: "directory \<Rightarrow> pyval list \<Rightarrow> adapter_error + string list" where
  "canonical_agent_target_ids d identifiers = canonical_ids_among (td_agents d) identifiers"

definition canonical_agent_target_ids_in_scope :: "directory \<Rightarrow> user option \<Rightarrow> pyval list \<Rightarrow> adapter_error + string list" where
  "canonical_agent_target_ids_in_scope d person identifiers =
     (if identifiers = [] then Inr [] else rbind (scope_queryset d person) (\<lambda>base. canonical_ids_among base identifiers))"

definition agent_pks_in_role_scope :: "directory \<Rightarrow> user option \<Rightarrow> int list \<Rightarrow> bool" where
  "agent_pks_in_role_scope d person pks =
     (pks \<noteq> [] \<and> list_all (\<lambda>i. 0 < i \<and> i < 2 ^ 63) pks \<and>
      (case scope_queryset d person of Inl _ \<Rightarrow> False | Inr base \<Rightarrow> list_all (\<lambda>i. i \<in> set (map ag_pk base)) pks))"

fun number_of :: "pyval \<Rightarrow> int option" where
  "number_of (PInt i) = Some i"
| "number_of _ = None"

fun text_of :: "pyval \<Rightarrow> string option" where
  "text_of (PStr s) = Some s"
| "text_of _ = None"

text \<open>The texts are resolved in parts of five thousand, each against the rows its own query finds.\<close>

fun texts_in_parts :: "agent_row list \<Rightarrow> string list list \<Rightarrow> adapter_error + int list" where
  "texts_in_parts agents [] = Inr []"
| "texts_in_parts agents (part # parts) =
     rbind (identity_rows agents part) (\<lambda>rows.
     rbind (rmap (\<lambda>token. case token_matches rows token of [m] \<Rightarrow> Inr (fst m) | _ \<Rightarrow> Inl Unknown_Reference) part) (\<lambda>pks.
     rbind (texts_in_parts agents parts) (\<lambda>more. Inr (pks @ more))))"

definition agent_pks_for_identifiers :: "directory \<Rightarrow> pyval list \<Rightarrow> adapter_error + int list" where
  "agent_pks_for_identifiers d identifiers =
     (let numbers = dedup (List.map_filter number_of identifiers); texts = dedup (map strip (List.map_filter text_of identifiers));
          by_number = filter (\<lambda>pk. pk \<in> set numbers) (map ag_pk (td_agents d)) in
      rbind (texts_in_parts (td_agents d) (cut 5000 (sort texts))) (\<lambda>by_text.
        let found = dedup (by_number @ by_text) in
        if list_all (\<lambda>i. i \<in> set found) numbers then Inr found else Inl Unknown_Number))"

section \<open>Resolvers of module-owned target types\<close>

record target_resolver =
  rv_module :: string
  rv_qualname :: string
  rv_answer :: "pyval \<Rightarrow> pyval option"

type_synonym resolvers = "(string \<times> string, target_resolver) dict"

datatype resolver_error = Not_The_Module | Bad_Target_Type | Resolver_Not_Callable | Actions_Unreadable | Type_Not_Listed | Other_Resolver

definition native_target_types :: "string list" where
  "native_target_types = ['''', ''none'', ''client'', ''clients'', ''site'', ''sites'', ''endpoint'', ''endpoints'', ''agent'', ''agents'', ''dynamic'']"

definition type_word :: "string \<Rightarrow> bool" where
  "type_word t = (t \<noteq> [] \<and> is_lower_ascii (hd t) \<and> length t \<le> 64 \<and> list_all (\<lambda>c. is_lower_ascii c \<or> is_digit c \<or> c = CHR ''_'' \<or> c = CHR ''-'') t)"

definition target_type_of :: "pyval \<Rightarrow> string option" where
  "target_type_of v = (case v of
     PDict d \<Rightarrow> (let kind = lower (strip (text_or_empty (get_or d ''type'' PNone))) in if kind \<in> set native_target_types then None else Some kind)
   | _ \<Rightarrow> None)"

definition actions_of :: "action_registry \<Rightarrow> string \<Rightarrow> scheduled_action list" where
  "actions_of acts m = filter (\<lambda>a. ac_module_id a = m) (map snd acts)"

definition type_declared :: "action_registry \<Rightarrow> string \<Rightarrow> string \<Rightarrow> bool" where
  "type_declared acts m t = list_ex (\<lambda>a. t \<in> set (ac_target_types a)) (actions_of acts m)"

definition register_target_resolver :: "string option \<Rightarrow> action_registry option \<Rightarrow> pyval \<Rightarrow> pyval \<Rightarrow> target_resolver option \<Rightarrow> resolvers \<Rightarrow> resolver_error + resolvers" where
  "register_target_resolver caller acts module_id type_arg resolver rs =
     (case (caller, module_id) of
        (Some c, PStr m) \<Rightarrow>
          if c \<noteq> m then Inl Not_The_Module
          else (let kind = (case type_arg of PStr t \<Rightarrow> strip t | _ \<Rightarrow> []) in
            if kind \<in> set native_target_types \<or> \<not> type_word kind then Inl Bad_Target_Type
            else (case resolver of None \<Rightarrow> Inl Resolver_Not_Callable
              | Some r \<Rightarrow> (case acts of None \<Rightarrow> Inl Actions_Unreadable
                | Some registry \<Rightarrow>
                    if actions_of registry m \<noteq> [] \<and> \<not> type_declared registry m kind then Inl Type_Not_Listed
                    else (case dget rs (m, kind) of
                        None \<Rightarrow> Inr (dset (m, kind) r rs)
                      | Some previous \<Rightarrow>
                          if rv_module previous \<noteq> rv_module r \<or> rv_qualname previous \<noteq> rv_qualname r then Inl Other_Resolver
                          else Inr (dset (m, kind) r rs)))))
      | _ \<Rightarrow> Inl Not_The_Module)"

definition has_resolver :: "action_registry \<Rightarrow> resolvers \<Rightarrow> string \<Rightarrow> string \<Rightarrow> bool" where
  "has_resolver acts rs m type_arg = (let kind = lower (strip type_arg) in has_key rs (m, kind) \<and> type_declared acts m kind)"

fun clean_token :: "pyval \<Rightarrow> pyval option" where
  "clean_token (PInt i) = (if 0 < i \<and> i < 2 ^ 63 then Some (PInt i) else None)"
| "clean_token (PStr s) = (let t = strip s in if t = [] \<or> 64 < length t \<or> \<not> list_all is_printable t then None else Some (PStr t))"
| "clean_token _ = None"

definition resolve_agent_pks :: "directory \<Rightarrow> action_registry \<Rightarrow> resolvers \<Rightarrow> string \<Rightarrow> pyval \<Rightarrow> int list option" where
  "resolve_agent_pks d acts rs m targets = (case target_type_of targets of
     None \<Rightarrow> None
   | Some kind \<Rightarrow>
       if \<not> has_resolver acts rs m kind then None
       else (case dget rs (m, kind) of None \<Rightarrow> None
         | Some r \<Rightarrow> (case rv_answer r targets of
             Some (PList tokens) \<Rightarrow>
               if max_agents < int (length tokens) \<or> list_ex (\<lambda>t. clean_token t = None) tokens then None
               else if tokens = [] then Some []
               else (case agent_pks_for_identifiers d (dedup (List.map_filter clean_token tokens)) of Inl _ \<Rightarrow> None | Inr pks \<Rightarrow> Some pks)
           | _ \<Rightarrow> None)))"

section \<open>The endpoints of the targets\<close>

definition agent_pks_for_scheduler_targets ::
  "directory \<Rightarrow> action_registry \<Rightarrow> resolvers \<Rightarrow> string option \<Rightarrow> pyval \<Rightarrow> adapter_error + (int list \<times> nat) option" where
  "agent_pks_for_scheduler_targets d acts rs module_id targets = (case tactical_scope_ref targets of
     Inl e \<Rightarrow> Inl (Bad_Target e)
   | Inr (kind, values) \<Rightarrow>
       if kind = ''module'' then
         (case module_id of None \<Rightarrow> Inr None
          | Some m \<Rightarrow> Inr (if m = [] then None else map_option (\<lambda>pks. (pks, 0)) (resolve_agent_pks d acts rs m targets)))
       else if kind = ''none'' then Inr (Some ([], 0))
       else if kind = ''client'' then
         (let ids = List.map_filter number_of values; found = filter (\<lambda>c. c \<in> set ids) (td_clients d) in
          Inr (Some (map ag_pk (filter (\<lambda>a. client_of d a \<in> set found) (td_agents d)), length (dedup ids) - length (dedup found))))
       else if kind = ''site'' then
         (let ids = List.map_filter number_of values; found = filter (\<lambda>s. s \<in> set ids) (keys (td_sites d)) in
          Inr (Some (map ag_pk (filter (\<lambda>a. ag_site a \<in> set found) (td_agents d)), length (dedup ids) - length (dedup found))))
       else
         (let requested = map (\<lambda>v. strip (py_str v)) values in
          rbind (identity_rows (td_agents d) requested) (\<lambda>rows.
          rbind (rmap (one_match rows) (dedup requested)) (\<lambda>ms.
            Inr (Some (dedup (map fst (List.map_filter id ms)), length (filter (\<lambda>m. m = None) ms)))))))"

record endpoint_row =
  er_pk :: int
  er_agent_id :: string
  er_hostname :: string
  er_platform :: string
  er_client_id :: int
  er_site_id :: int

definition endpoint_of :: "directory \<Rightarrow> agent_row \<Rightarrow> endpoint_row" where
  "endpoint_of d a = \<lparr>er_pk = ag_pk a, er_agent_id = ag_agent_id a, er_hostname = ag_hostname a, er_platform = ag_plat a, er_client_id = client_of d a, er_site_id = ag_site a\<rparr>"

fun read_sources :: "nat \<Rightarrow> agent_row list \<Rightarrow> agent_row list list \<Rightarrow> agent_row list" where
  "read_sources limit rows [] = rows"
| "read_sources limit rows (source # sources) =
     (let rows' = rows @ take (limit + 1 - length rows) (sort_key ag_pk source) in
      if limit < length rows' then rows' else read_sources limit rows' sources)"

definition scope_base :: "directory \<Rightarrow> scope_snapshot option \<Rightarrow> user option \<Rightarrow> adapter_error + agent_row list" where
  "scope_base d stored person = (case (stored, person) of
     (Some s, None) \<Rightarrow> Inr (if ss_unrestricted s then td_agents d
        else filter (\<lambda>a. client_of d a \<in> set (ss_whole_client_ids s) \<or> ag_site a \<in> set (ss_site_ids s)) (td_agents d))
   | (None, Some u) \<Rightarrow> scope_queryset d (Some u)
   | _ \<Rightarrow> Inl Scope_Or_Person)"

definition agent_rows_in_scope :: "directory \<Rightarrow> int list option \<Rightarrow> scope_snapshot option \<Rightarrow> user option \<Rightarrow> nat \<Rightarrow> adapter_error + endpoint_row list" where
  "agent_rows_in_scope d pks stored person limit =
     rbind (scope_base d stored person) (\<lambda>base.
       let sources = (case pks of None \<Rightarrow> [base] | Some ps \<Rightarrow> map (\<lambda>part. filter (\<lambda>a. ag_pk a \<in> set part) base) (cut 5000 (sort ps))) in
       Inr (map (endpoint_of d) (sort_key ag_pk (read_sources limit [] sources))))"

section \<open>Reading in parts is reading at once\<close>

lemma read_sources_take: "length rows \<le> limit \<Longrightarrow> read_sources limit rows sources = take (Suc limit) (rows @ concat (map (sort_key ag_pk) sources))"
proof (induction sources arbitrary: rows)
  case (Cons s ss)
  let ?rows' = "rows @ take (limit + 1 - length rows) (sort_key ag_pk s)"
  show ?case
  proof (cases "limit < length ?rows'")
    case True
    then have "limit - length rows < length s" using Cons.prems by simp
    then show ?thesis using True Cons.prems by (simp add: Let_def)
  next
    case False
    then have "?rows' = rows @ sort_key ag_pk s" using Cons.prems by auto
    then show ?thesis using False Cons.IH [of ?rows'] by (simp add: Let_def)
  qed
qed simp

lemma sorted_by_pk_unique:
  assumes "sorted (map ag_pk xs)" "sorted (map ag_pk ys)" "distinct (map ag_pk xs)" "distinct (map ag_pk ys)" "set xs = set ys"
  shows "xs = ys"
  using map_sorted_distinct_set_unique [of ag_pk xs ys] assms by (auto simp: distinct_map)

lemma parts_sorted:
  assumes "distinct (map ag_pk base)" and "sorted_wrt (<) (concat parts)"
  shows "concat (map (sort_key ag_pk) (map (\<lambda>part. filter (\<lambda>a. ag_pk a \<in> set part) base) parts)) = sort_key ag_pk (filter (\<lambda>a. ag_pk a \<in> set (concat parts)) base)"
  using assms(2)
proof (induction parts)
  case (Cons p ps)
  let ?f = "\<lambda>part. filter (\<lambda>a. ag_pk a \<in> set part) base"
  have d: "distinct (map ag_pk (?f part))" for part using assms(1) by (simp add: distinct_map inj_on_def)
  have IH: "concat (map (sort_key ag_pk) (map ?f ps)) = sort_key ag_pk (?f (concat ps))" using Cons by (simp add: sorted_wrt_append)
  have less: "\<forall>x \<in> set p. \<forall>y \<in> set (concat ps). x < y" using Cons.prems by (simp add: sorted_wrt_append)
  have "sort_key ag_pk (?f p) @ sort_key ag_pk (?f (concat ps)) = sort_key ag_pk (?f (concat (p # ps)))"
  proof (rule sorted_by_pk_unique)
    show "sorted (map ag_pk (sort_key ag_pk (?f p) @ sort_key ag_pk (?f (concat ps))))" using less by (force simp: sorted_append)
    show "distinct (map ag_pk (sort_key ag_pk (?f p) @ sort_key ag_pk (?f (concat ps))))" using less d [of p] d [of "concat ps"]
      by (force simp: distinct_map)
    show "distinct (map ag_pk (sort_key ag_pk (?f (concat (p # ps)))))" using d [of "concat (p # ps)"] by (simp add: distinct_map)
  qed auto
  then show ?case using IH by simp
qed simp

lemma base_pks:
  assumes "scope_base d stored person = Inr base" and "distinct (map ag_pk (td_agents d))"
  shows "distinct (map ag_pk base)" and "set base \<subseteq> set (td_agents d)"
proof -
  obtain P where "base = filter P (td_agents d)"
    using assms(1) by (auto simp: scope_base_def scope_queryset_def split: option.splits if_splits intro: filter_True [symmetric])
  then show "distinct (map ag_pk base)" "set base \<subseteq> set (td_agents d)" using assms(2) by (auto simp: distinct_map inj_on_def)
qed

lemma set_read_sources: "set (read_sources limit rows sources) \<subseteq> set rows \<union> set (concat sources)"
proof (induction sources arbitrary: rows)
  case (Cons s ss)
  then show ?case by (auto simp: Let_def dest: in_set_takeD) (use in_set_takeD in fastforce)
qed simp

lemma rows_in_scope:
  assumes "agent_rows_in_scope d pks stored person limit = Inr rows" and "row \<in> set rows"
  obtains base a where "scope_base d stored person = Inr base" and "a \<in> set base" and "row = endpoint_of d a" and "\<And>ps. pks = Some ps \<Longrightarrow> ag_pk a \<in> set ps"
proof -
  obtain base where b: "scope_base d stored person = Inr base" using assms(1) by (auto simp: agent_rows_in_scope_def rbind_Inr_iff)
  let ?sources = "case pks of None \<Rightarrow> [base] | Some ps \<Rightarrow> map (\<lambda>part. filter (\<lambda>a. ag_pk a \<in> set part) base) (cut 5000 (sort ps))"
  obtain a where a: "a \<in> set (read_sources limit [] ?sources)" "row = endpoint_of d a"
    using assms b by (auto simp: agent_rows_in_scope_def rbind_Inr_iff Let_def)
  then have in_sources: "a \<in> set (concat ?sources)" using set_read_sources [of limit "[]" ?sources] by auto
  show ?thesis
  proof (rule that [OF b _ a(2)])
    show "a \<in> set base" using in_sources by (auto split: option.splits)
    show "ag_pk a \<in> set ps" if "pks = Some ps" for ps
    proof -
      have "set (concat (cut 5000 (sort ps))) = set ps" using cut_facts [of 5000 "sort ps"] by simp
      then show ?thesis using in_sources that by auto
    qed
  qed
qed

definition small_directory :: directory where
  "small_directory = \<lparr>td_clients = [1, 2], td_sites = [(7, 1), (8, 2)],
     td_agents = [\<lparr>ag_pk = 12, ag_agent_id = ''bb'', ag_hostname = ''b'', ag_plat = ''windows'', ag_site = 7\<rparr>,
       \<lparr>ag_pk = 11, ag_agent_id = ''aa'', ag_hostname = ''a'', ag_plat = ''windows'', ag_site = 7\<rparr>,
       \<lparr>ag_pk = 13, ag_agent_id = ''cc'', ag_hostname = ''c'', ag_plat = ''linux'', ag_site = 8\<rparr>], td_visible = (\<lambda>u. None)\<rparr>"

definition site_snapshot :: scope_snapshot where
  "site_snapshot = \<lparr>ss_captured_for = ''sam'', ss_captured_at = [], ss_unrestricted = False, ss_whole_client_ids = [], ss_site_ids = [7], ss_flags = []\<rparr>"

text \<open>Reading endpoints in parts of five thousand with a running limit gives what one query over all of them would: the endpoints of the
  scope among the given numbers, in ascending order, cut after one more than the limit.\<close>

theorem chunked_read_is_direct:
  assumes "distinct (map ag_pk (td_agents d))" and "distinct pks" and "scope_base d stored person = Inr base"
  shows "agent_rows_in_scope d (Some pks) stored person limit =
    Inr (map (endpoint_of d) (take (Suc limit) (sort_key ag_pk (filter (\<lambda>a. ag_pk a \<in> set pks) base))))"
proof -
  let ?parts = "cut 5000 (sort pks)"
  have c: "concat ?parts = sort pks" using cut_facts [of 5000 "sort pks"] by simp
  then have "sorted_wrt (<) (concat ?parts)" using assms(2) by (simp add: strict_sorted_iff)
  from parts_sorted [OF base_pks(1) [OF assms(3,1)] this] read_sources_take [of "[]" limit] c
  have "read_sources limit [] (map (\<lambda>part. filter (\<lambda>a. ag_pk a \<in> set part) base) ?parts) = take (Suc limit) (sort_key ag_pk (filter (\<lambda>a. ag_pk a \<in> set pks) base))"
    by simp
  moreover have "sort_key ag_pk (take n (sort_key ag_pk xs)) = take n (sort_key ag_pk xs)" for n and xs :: "agent_row list"
    by (rule sort_key_id_if_sorted) (simp flip: take_map add: sorted_wrt_take)
  ultimately show ?thesis using assms(3) by (simp add: agent_rows_in_scope_def Let_def)
qed

theorem chunked_read_is_direct_witness:
  "agent_rows_in_scope small_directory (Some [13, 12, 11]) (Some site_snapshot) None 40000 =
     Inr [\<lparr>er_pk = 11, er_agent_id = ''aa'', er_hostname = ''a'', er_platform = ''windows'', er_client_id = 1, er_site_id = 7\<rparr>,
       \<lparr>er_pk = 12, er_agent_id = ''bb'', er_hostname = ''b'', er_platform = ''windows'', er_client_id = 1, er_site_id = 7\<rparr>]"
proof -
  let ?base = "[\<lparr>ag_pk = 12, ag_agent_id = ''bb'', ag_hostname = ''b'', ag_plat = ''windows'', ag_site = 7\<rparr>,
       \<lparr>ag_pk = 11, ag_agent_id = ''aa'', ag_hostname = ''a'', ag_plat = ''windows'', ag_site = 7\<rparr>]"
  have b: "scope_base small_directory (Some site_snapshot) None = Inr ?base" by (simp add: scope_base_def site_snapshot_def small_directory_def client_of_def get_or_def)
  have "distinct (map ag_pk (td_agents small_directory))" by (simp add: small_directory_def)
  from chunked_read_is_direct [OF this _ b, of "[13, 12, 11]" 40000]
  show ?thesis by (simp add: endpoint_of_def client_of_def get_or_def small_directory_def)
qed

end
