(* ===== verification/Run_Context.thy ===== *)
theory Run_Context
  imports Schedule_Runs Endpoint_Scope
begin

text \<open>
  Scheduler run contexts (\<open>scheduler_run_context.py\<close>): the identity registry of the contexts Core issued, \<open>verify_run_context\<close> and what a
  verified run can ask (owner, flags, endpoints). An object is its address with a serial number that is never given out again, so an address can be
  reused by a new object; a weak reference names its object by that number. Collecting an object and running the callback of its weak reference are
  separate steps, in any order with everything else. \<open>cx_account\<close> is the fresh read of a user row (\<open>None\<close> is an exception).
\<close>

section \<open>The identity registry\<close>

record 'a identity_state =
  id_live :: "(nat, nat \<times> bool) dict"
  id_table :: "(nat, nat \<times> 'a) dict"
  id_pending :: "(nat \<times> nat) list"
  id_next :: nat
  id_log :: "(nat \<times> 'a) list"

datatype 'a identity_event = Create nat bool | Issue nat 'a | Collect nat | Callback nat nat

definition no_objects :: "'a identity_state" where
  "no_objects = \<lparr>id_live = [], id_table = [], id_pending = [], id_next = 0, id_log = []\<rparr>"

text \<open>\<open>issue_run_context\<close> and \<open>_remember_verified\<close> on a new object.\<close>

definition issue_run_context :: "nat \<Rightarrow> 'a \<Rightarrow> 'a identity_state \<Rightarrow> 'a identity_state" where
  "issue_run_context a p st = st\<lparr>id_live := dset a (id_next st, True) (id_live st), id_table := dset a (id_next st, p) (id_table st),
     id_next := Suc (id_next st), id_log := (id_next st, p) # id_log st\<rparr>"

definition forget :: "nat \<Rightarrow> nat \<Rightarrow> 'a identity_state \<Rightarrow> 'a identity_state" where
  "forget a s st = (case dget (id_table st) a of
     Some (t, _) \<Rightarrow> if t = s then st\<lparr>id_table := ddel a (id_table st)\<rparr> else st
   | None \<Rightarrow> st)"

fun identity_step :: "'a identity_event \<Rightarrow> 'a identity_state \<Rightarrow> 'a identity_state" where
  "identity_step (Create a is_context) st =
     (if has_key (id_live st) a then st else st\<lparr>id_live := dset a (id_next st, is_context) (id_live st), id_next := Suc (id_next st)\<rparr>)"
| "identity_step (Issue a p) st = (if has_key (id_live st) a then st else issue_run_context a p st)"
| "identity_step (Collect a) st = (case dget (id_live st) a of
     None \<Rightarrow> st
   | Some (s, _) \<Rightarrow> st\<lparr>id_live := ddel a (id_live st), id_pending := (if map_of (id_log st) s = None then id_pending st else (a, s) # id_pending st)\<rparr>)"
| "identity_step (Callback a s) st =
     (if (a, s) \<in> set (id_pending st) then forget a s (st\<lparr>id_pending := removeAll (a, s) (id_pending st)\<rparr>) else st)"

definition identity_run :: "'a identity_event list \<Rightarrow> 'a identity_state \<Rightarrow> 'a identity_state" where
  "identity_run evs st = fold identity_step evs st"

text \<open>\<open>_issued_run_id\<close> and \<open>is_core_verified_run\<close> on the object at address \<open>a\<close> with number \<open>s\<close>: the type, the entry, and the object its weak
  reference still leads to.\<close>

definition issued_run_id :: "nat \<Rightarrow> nat \<Rightarrow> bool \<Rightarrow> 'a identity_state \<Rightarrow> 'a option" where
  "issued_run_id a s is_context st =
     (if \<not> is_context then None
      else (case dget (id_table st) a of
          None \<Rightarrow> None
        | Some (t, p) \<Rightarrow> if map_option fst (dget (id_live st) a) = Some t \<and> t = s then Some p else None))"

section \<open>Verifying a context\<close>

record account = user +
  acc_active :: bool
  acc_username :: string

record context_env =
  cx_sched :: sched_env
  cx_account :: "nat \<Rightarrow> account option option"
  cx_fields :: role_fields
  cx_scopes :: "nat \<Rightarrow> pyval"
  cx_confirmed :: "nat \<Rightarrow> string"
  cx_directory :: directory
  cx_resolvers :: resolvers
  cx_read_fails :: bool

record verified_run =
  vr_run_id :: nat
  vr_schedule_id :: nat
  vr_module_id :: string
  vr_action_id :: string
  vr_owner_module :: "string option"
  vr_owner_key :: "string option"
  vr_one_off :: bool
  vr_user :: "nat option"
  vr_creator :: "string option"
  vr_confirmed_by :: "string option"
  vr_unattended :: bool
  vr_scope :: "scope_snapshot option"
  vr_targets :: pyval
  vr_started_by :: "string option"

datatype run_context_error = Plain_Invalid | Other_Run | No_Owner | Owner_Refused | Clicker_Refused | Unverified

definition text_option :: "string \<Rightarrow> string option" where
  "text_option s = (if s = [] then None else Some s)"

definition manual_person_action :: "sched_env \<Rightarrow> schedule \<Rightarrow> string \<Rightarrow> bool" where
  "manual_person_action env s action_id =
     (sc_owner_type s = Owner_Module \<and> \<not> is_one_off_schedule s \<and>
      (case get_scheduled_action (en_actions env) (if action_id = [] then sc_action_id s else action_id) of
         Inl _ \<Rightarrow> False
       | Inr act \<Rightarrow> ac_module_id act = sc_owner_module s \<and>
           (case en_person_actions env (ac_module_id act) of None \<Rightarrow> False | Some ids \<Rightarrow> ac_id act \<in> set ids)))"

fun expected_id :: "pyval \<Rightarrow> run_context_error + string" where
  "expected_id (PStr s) = (if s = [] then Inl Other_Run else Inr s)"
| "expected_id _ = Inl Other_Run"

text \<open>The person of a run: the creator where the run acts for one, else the person who pressed Run now.\<close>

definition run_person :: "sched_env \<Rightarrow> sched_run \<Rightarrow> schedule \<Rightarrow> string \<Rightarrow> run_context_error + nat option \<times> bool" where
  "run_person env r s action_id =
     (let one_off = (rn_owner_type r = Owner_Module \<and> is_one_off_key (rn_owner_key r));
          unattended = run_is_unattended env r (Some s);
          person_action = (\<not> unattended \<and> \<not> rn_manual r \<and> scheduled_person_action env s action_id);
          creator = (if one_off \<or> rn_owner_type r = Owner_User \<or> unattended \<or> person_action then sc_created_by s else None) in
      if creator = None \<and> rn_manual r \<and> rn_started_by r \<noteq> None \<and> manual_person_action env s action_id then
        (if runtime_authorization_error env s (rn_started_by r) \<noteq> None then Inl Clicker_Refused else Inr (rn_started_by r, True))
      else Inr (creator, False))"

definition verify_run_context :: "context_env \<Rightarrow> sched_world \<Rightarrow> nat option \<Rightarrow> pyval \<Rightarrow> pyval \<Rightarrow> bool \<Rightarrow> run_context_error + verified_run" where
  "verify_run_context cx w issued expected_module expected_action require_owner =
     rbind (expected_id expected_module) (\<lambda>want_module.
     rbind (expected_id expected_action) (\<lambda>want_action.
       case issued of None \<Rightarrow> Inl Plain_Invalid
     | Some i \<Rightarrow> if cx_read_fails cx then Inl Unverified else
         (case get_run w i of None \<Rightarrow> Inl Plain_Invalid
        | Some r \<Rightarrow> if rn_status r \<noteq> Run_Running then Inl Plain_Invalid else
            (case Option.bind (rn_schedule r) (get_schedule w) of None \<Rightarrow> Inl Plain_Invalid
           | Some s \<Rightarrow>
               (let env = cx_sched cx;
                    module_id = (if rn_module_id r = [] then sc_module_id s else rn_module_id r);
                    action_id = (if rn_action_id r = [] then sc_action_id s else rn_action_id r);
                    unattended = run_is_unattended env r (Some s) in
                if module_id \<noteq> want_module \<or> action_id \<noteq> want_action then Inl Other_Run
                else rbind (run_person env r s action_id) (\<lambda>(person, clicked).
                  if person = None \<and> require_owner then Inl No_Owner
                  else if person \<noteq> None \<and> \<not> clicked \<and> \<not> unattended \<and> runtime_authorization_error env s None \<noteq> None then Inl Owner_Refused
                  else Inr \<lparr>vr_run_id = i, vr_schedule_id = rn_snapshot_id r, vr_module_id = module_id, vr_action_id = action_id,
                    vr_owner_module = text_option (rn_owner_module r), vr_owner_key = text_option (rn_owner_key r),
                    vr_one_off = (rn_owner_type r = Owner_Module \<and> is_one_off_key (rn_owner_key r)), vr_user = person,
                    vr_creator = (if unattended \<or> person \<noteq> None then text_option (creator_name env s) else None),
                    vr_confirmed_by = (if unattended \<or> person \<noteq> None then text_option (strip (cx_confirmed cx (sc_id s))) else None),
                    vr_unattended = unattended, vr_scope = normalize (cx_scopes cx (sc_id s)), vr_targets = py_or (rn_targets r) (PDict []),
                    vr_started_by = (if clicked then Option.bind person (\<lambda>u. Option.bind (en_person env u) (\<lambda>p. text_option (pe_username p))) else None)\<rparr>))))))"

section \<open>What a verified run can ask\<close>

definition owner_now :: "context_env \<Rightarrow> verified_run \<Rightarrow> run_context_error + account" where
  "owner_now cx v = (case vr_user v of None \<Rightarrow> Inl No_Owner
     | Some u \<Rightarrow> (case cx_account cx u of
         None \<Rightarrow> Inl Unverified
       | Some None \<Rightarrow> Inl Owner_Refused
       | Some (Some acc) \<Rightarrow> if acc_active acc then Inr acc else Inl Owner_Refused))"

definition user_of :: "account \<Rightarrow> user" where
  "user_of acc = user.truncate acc"

definition owner_has_flag :: "context_env \<Rightarrow> verified_run \<Rightarrow> pyval \<Rightarrow> bool" where
  "owner_has_flag cx v flag = (case validate_tactical_flag (cx_fields cx) flag of
     Inl _ \<Rightarrow> False
   | Inr name \<Rightarrow> (case owner_now cx v of Inl _ \<Rightarrow> False | Inr acc \<Rightarrow> has_tactical_permission (cx_fields cx) (user_of acc) name = Inr True))"

definition held_at_creation :: "context_env \<Rightarrow> verified_run \<Rightarrow> pyval \<Rightarrow> bool option" where
  "held_at_creation cx v flag = (case validate_tactical_flag (cx_fields cx) flag of
     Inl _ \<Rightarrow> Some False
   | Inr name \<Rightarrow> if \<not> vr_unattended v then Some (owner_has_flag cx v (PStr name)) else map_option (\<lambda>s. holds s name) (vr_scope v))"

datatype endpoint_error = Bad_Limit | Scope_Unavailable | Owner_Error run_context_error | Targets_Unreadable | Too_Many_Endpoints | Try_Later

fun adapter_verdict :: "adapter_error \<Rightarrow> endpoint_error" where
  "adapter_verdict (Bad_Target (Uncaught _)) = Try_Later"
| "adapter_verdict Read_Fault = Try_Later"
| "adapter_verdict _ = Targets_Unreadable"

definition check_count :: "nat \<Rightarrow> endpoint_row list \<Rightarrow> endpoint_error + endpoint_row list" where
  "check_count limit rows = (if limit < length rows then Inl Too_Many_Endpoints else Inr rows)"

definition rows_read :: "context_env \<Rightarrow> int list option \<Rightarrow> scope_snapshot option \<Rightarrow> user option \<Rightarrow> nat \<Rightarrow> endpoint_error + endpoint_row list" where
  "rows_read cx pks stored person limit = (case agent_rows_in_scope (cx_directory cx) pks stored person limit of
     Inl e \<Rightarrow> Inl (adapter_verdict e) | Inr rows \<Rightarrow> check_count limit rows)"

definition read_endpoint_rows :: "context_env \<Rightarrow> pyval \<Rightarrow> string \<Rightarrow> scope_snapshot option \<Rightarrow> user option \<Rightarrow> bool \<Rightarrow> nat \<Rightarrow> endpoint_error + endpoint_row list" where
  "read_endpoint_rows cx targets m stored person whole_scope limit =
     (case normalize_scheduler_targets targets of
        Inl e \<Rightarrow> Inl (adapter_verdict (Bad_Target e))
      | Inr shaped \<Rightarrow> (case tactical_scope_ref (PDict shaped) of
          Inl e \<Rightarrow> Inl (adapter_verdict (Bad_Target e))
        | Inr (ref_kind, _) \<Rightarrow>
            if ref_kind = ''none'' then (if whole_scope then rows_read cx None stored person limit else Inr [])
            else (case agent_pks_for_scheduler_targets (cx_directory cx) (en_actions (cx_sched cx)) (cx_resolvers cx) (Some m) (PDict shaped) of
                Inl e \<Rightarrow> Inl (adapter_verdict e)
              | Inr None \<Rightarrow> Inl Targets_Unreadable
              | Inr (Some (found, _)) \<Rightarrow>
                  (let pks = sort (dedup found) in
                   if limit < length pks then Inl Too_Many_Endpoints else rows_read cx (Some pks) stored person limit))))"

definition resolved_endpoints :: "context_env \<Rightarrow> verified_run \<Rightarrow> bool \<Rightarrow> int option \<Rightarrow> endpoint_error + endpoint_row list" where
  "resolved_endpoints cx v whole_scope limit =
     (let n = (case limit of None \<Rightarrow> max_agents | Some l \<Rightarrow> l) in
      if n < 1 \<or> max_agents < n then Inl Bad_Limit
      else if vr_unattended v then
        (case vr_scope v of None \<Rightarrow> Inl Scope_Unavailable
         | Some s \<Rightarrow> read_endpoint_rows cx (vr_targets v) (vr_module_id v) (Some s) None whole_scope (nat n))
      else (case owner_now cx v of Inl e \<Rightarrow> Inl (Owner_Error e)
         | Inr acc \<Rightarrow> read_endpoint_rows cx (vr_targets v) (vr_module_id v) None (Some (user_of acc)) whole_scope (nat n)))"

section \<open>A context cannot be forged\<close>

text \<open>What holds in every state of the registry: numbers are given out once, every entry was issued, a live issued object has its own entry, and a
  callback that still waits belongs to an object that is gone.\<close>

definition registry_inv :: "'a identity_state \<Rightarrow> bool" where
  "registry_inv st \<longleftrightarrow>
     (\<forall>a s k. dget (id_live st) a = Some (s, k) \<longrightarrow> s < id_next st \<and> (\<forall>b k'. dget (id_live st) b = Some (s, k') \<longrightarrow> b = a)) \<and>
     (\<forall>s p. map_of (id_log st) s = Some p \<longrightarrow> s < id_next st) \<and>
     (\<forall>a s p. dget (id_table st) a = Some (s, p) \<longrightarrow> map_of (id_log st) s = Some p) \<and>
     (\<forall>a s k p. dget (id_live st) a = Some (s, k) \<and> map_of (id_log st) s = Some p \<longrightarrow> k \<and> dget (id_table st) a = Some (s, p)) \<and>
     (\<forall>a s. (a, s) \<in> set (id_pending st) \<longrightarrow> s < id_next st \<and> (\<forall>b k. dget (id_live st) b \<noteq> Some (s, k)))"

lemma registry_inv_start: "registry_inv no_objects"
  by (simp add: registry_inv_def no_objects_def)

lemmas dict_maps = AList.update_conv' AList.delete_conv' has_key_iff

lemma inv_live: "registry_inv st \<Longrightarrow> dget (id_live st) a = Some (s, k) \<Longrightarrow> s < id_next st"
  "registry_inv st \<Longrightarrow> dget (id_live st) a = Some (s, k) \<Longrightarrow> dget (id_live st) b = Some (s, k') \<Longrightarrow> b = a"
  "registry_inv st \<Longrightarrow> dget (id_live st) a = Some (s, k) \<Longrightarrow> map_of (id_log st) s = Some p \<Longrightarrow> k \<and> dget (id_table st) a = Some (s, p)"
  unfolding registry_inv_def by blast+

lemma inv_log: "registry_inv st \<Longrightarrow> map_of (id_log st) s = Some p \<Longrightarrow> s < id_next st"
  "registry_inv st \<Longrightarrow> dget (id_table st) a = Some (s, p) \<Longrightarrow> map_of (id_log st) s = Some p"
  "registry_inv st \<Longrightarrow> (a, s) \<in> set (id_pending st) \<Longrightarrow> s < id_next st"
  "registry_inv st \<Longrightarrow> (a, s) \<in> set (id_pending st) \<Longrightarrow> dget (id_live st) b \<noteq> Some (s, k)"
  unfolding registry_inv_def by blast+

lemma registry_inv_create:
  assumes "registry_inv st" and "dget (id_live st) a = None"
  shows "registry_inv (st\<lparr>id_live := dset a (id_next st, k) (id_live st), id_next := Suc (id_next st)\<rparr>)"
proof -
  note l = inv_live [OF assms(1)] inv_log [OF assms(1)]
  show ?thesis unfolding registry_inv_def
    by (auto simp: dict_maps split: if_splits dest: l less_SucI)
qed

lemma registry_inv_issue:
  assumes "registry_inv st" and "dget (id_live st) a = None"
  shows "registry_inv (issue_run_context a p st)"
proof -
  note l = inv_live [OF assms(1)] inv_log [OF assms(1)]
  show ?thesis unfolding registry_inv_def issue_run_context_def
    by (auto simp: dict_maps split: if_splits dest: l less_SucI)
qed

lemma registry_inv_collect:
  assumes "registry_inv st" and "dget (id_live st) a = Some (s, k)"
  shows "registry_inv (st\<lparr>id_live := ddel a (id_live st), id_pending := (if map_of (id_log st) s = None then id_pending st else (a, s) # id_pending st)\<rparr>)"
proof -
  note l = inv_live [OF assms(1)] inv_log [OF assms(1)]
  show ?thesis using assms(2) unfolding registry_inv_def
    by (auto simp: dict_maps split: if_splits dest: l)
qed

lemma registry_inv_callback:
  assumes "registry_inv st" and "(a, s) \<in> set (id_pending st)"
  shows "registry_inv (forget a s (st\<lparr>id_pending := removeAll (a, s) (id_pending st)\<rparr>))"
proof -
  note l = inv_live [OF assms(1)] inv_log [OF assms(1)]
  have "map_of (id_log st) t = None" if "dget (id_table st) a = Some (s, p)" "dget (id_live st) a = Some (t, k)" for t k p
    using that l(3) [OF that(2)] l(7) [OF assms(2), of a k] by (cases "map_of (id_log st) t") auto
  then show ?thesis using assms(2) unfolding registry_inv_def forget_def
    by (auto simp: dict_maps split: option.split if_splits dest: l)
qed

lemma no_key: "\<not> has_key d k \<longleftrightarrow> dget d k = None"
  by (simp add: has_key_iff)

lemma registry_inv_step: "registry_inv st \<Longrightarrow> registry_inv (identity_step e st)"
  by (cases e) (auto simp: no_key registry_inv_create registry_inv_issue registry_inv_collect registry_inv_callback split: option.split)

lemma registry_inv_run: "registry_inv st \<Longrightarrow> registry_inv (identity_run evs st)"
  unfolding identity_run_def by (induction evs arbitrary: st) (simp_all add: registry_inv_step)

text \<open>(C17) Only the object Core issued is a run context, and it always is one: after any sequence of objects created, contexts issued, objects
  collected and callbacks run late, the object at an address is answered with a run exactly when Core issued that very object for that run. An
  object that a module builds itself, or that got the address of a collected context, is never taken for one.\<close>

theorem context_cannot_be_forged:
  assumes "st = identity_run evs no_objects" and "dget (id_live st) a = Some (s, k)"
  shows "issued_run_id a s k st = Some run \<longleftrightarrow> map_of (id_log st) s = Some run"
proof -
  have i: "registry_inv st" unfolding assms(1) by (rule registry_inv_run [OF registry_inv_start])
  show ?thesis
  proof
    assume "map_of (id_log st) s = Some run"
    from inv_live(3) [OF i assms(2) this] show "issued_run_id a s k st = Some run" using assms(2) by (simp add: issued_run_id_def)
  next
    assume "issued_run_id a s k st = Some run"
    then have "dget (id_table st) a = Some (s, run)" by (auto simp: issued_run_id_def split: if_splits option.splits)
    then show "map_of (id_log st) s = Some run" by (rule inv_log(2) [OF i])
  qed
qed

definition reuse_history :: "nat identity_event list" where
  "reuse_history = [Issue 5 40, Collect 5, Create 5 True, Callback 5 0, Issue 6 41]"

theorem context_cannot_be_forged_witness:
  "issued_run_id 5 1 True (identity_run reuse_history no_objects) = None \<and> issued_run_id 6 2 True (identity_run reuse_history no_objects) = Some 41"
proof -
  let ?st = "identity_run reuse_history no_objects"
  have l: "dget (id_live ?st) 5 = Some (1, True)" "dget (id_live ?st) 6 = Some (2, True)" "map_of (id_log ?st) 1 = None" "map_of (id_log ?st) 2 = Some 41" by code_simp+
  show ?thesis using context_cannot_be_forged [OF refl l(1)] context_cannot_be_forged [OF refl l(2), of 41] l(3,4) by (metis option.distinct(1) option.exhaust)
qed

section \<open>The endpoints of a run stay inside its scope\<close>

text \<open>The numbers the targets of a run name now, when they can be read.\<close>

definition target_numbers :: "context_env \<Rightarrow> string \<Rightarrow> pyval \<Rightarrow> int set" where
  "target_numbers cx m targets = (case normalize_scheduler_targets targets of Inl _ \<Rightarrow> {} | Inr shaped \<Rightarrow>
     (case agent_pks_for_scheduler_targets (cx_directory cx) (en_actions (cx_sched cx)) (cx_resolvers cx) (Some m) (PDict shaped) of
        Inr (Some (pks, _)) \<Rightarrow> set pks | _ \<Rightarrow> {}))"

lemma rows_read_facts:
  assumes "rows_read cx pks stored person limit = Inr rows"
  shows "agent_rows_in_scope (cx_directory cx) pks stored person limit = Inr rows" and "length rows \<le> limit"
  using assms by (auto simp: rows_read_def check_count_def split: sum.splits if_splits)

lemma read_endpoint_rows_facts:
  assumes "read_endpoint_rows cx targets m stored person whole_scope limit = Inr rows" and "row \<in> set rows"
  obtains base a where "scope_base (cx_directory cx) stored person = Inr base" and "a \<in> set base" and "row = endpoint_of (cx_directory cx) a"
    and "ag_pk a \<in> target_numbers cx m targets \<or> whole_scope \<and> (\<exists>shaped. normalize_scheduler_targets targets = Inr shaped \<and> tactical_scope_ref (PDict shaped) = Inr (''none'', []))"
    and "length rows \<le> limit"
proof -
  obtain shaped k vs where s: "normalize_scheduler_targets targets = Inr shaped" "tactical_scope_ref (PDict shaped) = Inr (k, vs)"
    using assms(1) by (auto simp: read_endpoint_rows_def split: sum.splits)
  show ?thesis
  proof (cases "k = ''none''")
    case True
    then have w: "whole_scope" "rows_read cx None stored person limit = Inr rows" using assms s by (auto simp: read_endpoint_rows_def split: if_splits)
    have "vs = []" using True s(2) by (auto simp: tactical_scope_ref_def rbind_Inr_iff Let_def native_kind_def split: if_splits option.splits pyval.splits)
    then show ?thesis using True w s rows_in_scope [OF rows_read_facts(1) [OF w(2)] assms(2)] rows_read_facts(2) [OF w(2)] that by metis
  next
    case False
    then obtain found n where f: "agent_pks_for_scheduler_targets (cx_directory cx) (en_actions (cx_sched cx)) (cx_resolvers cx) (Some m) (PDict shaped) = Inr (Some (found, n))"
      and r: "rows_read cx (Some (sort (dedup found))) stored person limit = Inr rows"
      using assms(1) s by (auto simp: read_endpoint_rows_def Let_def split: sum.splits option.splits if_splits)
    have "target_numbers cx m targets = set found" using s(1) f by (simp add: target_numbers_def)
    then show ?thesis using rows_in_scope [OF rows_read_facts(1) [OF r] assms(2)] rows_read_facts(2) [OF r] that by (metis set_dedup set_sort)
  qed
qed

text \<open>Whether the person or the stored scope a run acts under reaches an endpoint.\<close>

definition in_run_scope :: "context_env \<Rightarrow> verified_run \<Rightarrow> endpoint_row \<Rightarrow> bool" where
  "in_run_scope cx v row = (if vr_unattended v
     then (case vr_scope v of None \<Rightarrow> False | Some s \<Rightarrow> snapshot_covers s (er_client_id row) (er_site_id row))
     else (case owner_now cx v of Inl _ \<Rightarrow> False
       | Inr acc \<Rightarrow> acc_active acc \<and> (case td_visible (cx_directory cx) (user_of acc) of None \<Rightarrow> False | Some pks \<Rightarrow> er_pk row \<in> set pks)))"

definition targets_are_none :: "pyval \<Rightarrow> bool" where
  "targets_are_none targets = (case normalize_scheduler_targets targets of Inl _ \<Rightarrow> False | Inr shaped \<Rightarrow> tactical_scope_ref (PDict shaped) = Inr (''none'', []))"

lemma base_in_run_scope:
  assumes "scope_base (cx_directory cx) stored person = Inr base" and "a \<in> set base"
    and "vr_unattended v \<Longrightarrow> stored = vr_scope v \<and> stored \<noteq> None \<and> person = None"
    and "\<not> vr_unattended v \<Longrightarrow> stored = None \<and> (\<exists>acc. owner_now cx v = Inr acc \<and> person = Some (user_of acc))"
  shows "a \<in> set (td_agents (cx_directory cx)) \<and> in_run_scope cx v (endpoint_of (cx_directory cx) a)"
proof (cases "vr_unattended v")
  case True
  with assms show ?thesis by (auto simp: scope_base_def in_run_scope_def snapshot_covers_def endpoint_of_def split: option.splits if_splits)
next
  case False
  then obtain acc where acc: "stored = None" "owner_now cx v = Inr acc" "person = Some (user_of acc)" using assms(4) by blast
  then have "acc_active acc" by (auto simp: owner_now_def split: option.splits if_splits)
  then show ?thesis using False acc assms(1,2) by (auto simp: scope_base_def scope_queryset_def in_run_scope_def endpoint_of_def split: option.splits)
qed

definition patch_env :: sched_env where
  "patch_env = \<lparr>en_now = 0, en_tz = (\<lambda>_. Zone_Not_Found), en_actions = [],
     en_modules = \<lparr>ms_file = File_Missing, ms_lock = Lock_Present, ms_disk_ok = True, ms_cache_epoch = 0\<rparr>, en_plugins = Some [],
     en_person = (\<lambda>u. if u = 1 then Some \<lparr>pe_active = True, pe_installer = False, pe_username = ''sam''\<rparr> else None),
     en_can_use_action = (\<lambda>_ _. Some True), en_resolver_scope = (\<lambda>_ _ _. Some None), en_target_scope = (\<lambda>_ _. Some True),
     en_system_action = (\<lambda>_ _. True), en_person_actions = (\<lambda>_. Some []), en_delegated = (\<lambda>_. False),
     en_agent_ids = Inr, en_shape_text = (\<lambda>_. ''shape''), en_broker = (\<lambda>_. Inr ''task''), en_revoke = (\<lambda>_. True),
     en_caller = None, en_job = (\<lambda>_. Job_Not_Found), en_job_id_canonical = (\<lambda>_. True)\<rparr>"

definition patch_context :: context_env where
  "patch_context = \<lparr>cx_sched = patch_env, cx_account = (\<lambda>_. Some None), cx_fields = engineer_fields, cx_scopes = (\<lambda>_. snapshot_val site_snapshot),
     cx_confirmed = (\<lambda>_. []), cx_directory = small_directory, cx_resolvers = [], cx_read_fails = False\<rparr>"

definition patch_run :: verified_run where
  "patch_run = \<lparr>vr_run_id = 7, vr_schedule_id = 3, vr_module_id = ''patching'', vr_action_id = ''patching.scan'', vr_owner_module = Some ''patching'', vr_owner_key = None,
     vr_one_off = False, vr_user = None, vr_creator = Some ''sam'', vr_confirmed_by = None, vr_unattended = True, vr_scope = Some site_snapshot,
     vr_targets = PDict [(''type'', PStr ''endpoint''), (''ids'', PList [PStr ''cc'', PStr ''aa''])], vr_started_by = None\<rparr>"



end
