(* ===== verification/Trust_Policy.thy ===== *)
theory Trust_Policy
  imports Module_State
begin

text \<open>
  The root-owned policies the Django process reads and may only ask to change: the update trust level
  (\<open>trust_policy.py\<close>), the module categories that depend on the same server environment
  (\<open>module_category.py\<close>) and the account protection switch (\<open>account_security_policy.py\<close>). The privileged helper
  run through sudo is a parameter: a function from its command line and the policy file to its result and the file
  it leaves.
\<close>

section \<open>World\<close>

datatype helper_output = Out_Empty | Out_Invalid | Out_Json pyval

datatype helper_result = Helper_Failed | Helper_Timeout | Helper_Done helper_output

type_synonym helper = "string list \<Rightarrow> state_file \<Rightarrow> helper_result \<times> state_file"

text \<open>The configuration text (\<open>None\<close> when the file is missing or unreadable), the policy file, whether the helper is
  installed, and the helper's command lines so far.\<close>

record tp_world =
  tp_config :: "string option"
  tp_file :: state_file
  tp_helper :: bool
  tp_commands :: "string list list"

datatype trust_level = Unsigned | Signed_Development | Signed_Production | Secure_Signed

datatype trust_error =
    Bad_Level | Policy_Unreadable | Policy_Schema | Bad_Actor | Helper_Unavailable | Lowering_Refused
  | Helper_Call_Failed | Helper_Call_Timeout | Helper_Bad_Output | Helper_Bad_Data
  | Not_Trusted | Secure_Needs_Production | Environment_Unmapped | Below_Minimum
  | Uncaught py_exn

fun level_rank :: "trust_level \<Rightarrow> nat" where
  "level_rank Unsigned = 0"
| "level_rank Signed_Development = 1"
| "level_rank Signed_Production = 2"
| "level_rank Secure_Signed = 3"

fun level_text :: "trust_level \<Rightarrow> string" where
  "level_text Unsigned = ''unsigned''"
| "level_text Signed_Development = ''signed_development''"
| "level_text Signed_Production = ''signed_production''"
| "level_text Secure_Signed = ''secure_signed''"

definition levels :: "trust_level list" where
  "levels = [Unsigned, Signed_Development, Signed_Production, Secure_Signed]"

instantiation trust_level :: linorder
begin

definition less_eq_trust_level :: "trust_level \<Rightarrow> trust_level \<Rightarrow> bool" where
  "a \<le> b = (level_rank a \<le> level_rank b)"

definition less_trust_level :: "trust_level \<Rightarrow> trust_level \<Rightarrow> bool" where
  "a < b = (level_rank a < level_rank b)"

instance
proof
  fix a b :: trust_level
  assume "a \<le> b" and "b \<le> a"
  then show "a = b" by (cases a; cases b) (simp_all add: less_eq_trust_level_def)
qed (auto simp: less_eq_trust_level_def less_trust_level_def)

end

section \<open>Reading the trust policy\<close>

definition tp_config_values :: "tp_world \<Rightarrow> (string, string) dict" where
  "tp_config_values w = (case tp_config w of None \<Rightarrow> [] | Some t \<Rightarrow> config_values t)"

definition server_environment :: "tp_world \<Rightarrow> string" where
  "server_environment w =
     (let raw = get_or (tp_config_values w) ''TEC_TAC_ENVIRONMENT'' [];
          v = lower (strip (if raw = [] then ''production'' else raw))
      in if v \<in> {''production'', ''development''} then v else ''production'')"

definition normalize_level :: "pyval \<Rightarrow> trust_error + trust_level" where
  "normalize_level v =
     (let t = replace_char (CHR '' '') (CHR ''_'') (replace_char (CHR ''-'') (CHR ''_'') (clean_lower v))
      in case find (\<lambda>l. level_text l = t) levels of None \<Rightarrow> Inl Bad_Level | Some l \<Rightarrow> Inr l)"

definition default_level :: "tp_world \<Rightarrow> trust_level" where
  "default_level w = (if server_environment w = ''development'' then Signed_Development else Signed_Production)"

record trust_policy =
  pol_level :: trust_level
  pol_updated_at :: pyval
  pol_updated_by :: pyval
  pol_environment :: string
  pol_help_url :: string
  pol_lowering_allowed :: bool

definition help_url :: "tp_world \<Rightarrow> string" where
  "help_url w =
     (let u = get_or (tp_config_values w) ''TEC_TAC_HELP_TRUST_POLICY_URL'' []
      in if u = [] then ''/tec-tac/help/system-updates#trust-policy'' else u)"

definition policy_of :: "tp_world \<Rightarrow> trust_level \<Rightarrow> pyval \<Rightarrow> pyval \<Rightarrow> trust_policy" where
  "policy_of w level upd_at upd_by = \<lparr>pol_level = level, pol_updated_at = upd_at, pol_updated_by = upd_by,
     pol_environment = server_environment w, pol_help_url = help_url w, pol_lowering_allowed = False\<rparr>"

fun lift_exn :: "py_exn + 'a \<Rightarrow> trust_error + 'a" where
  "lift_exn (Inl x) = Inl (Uncaught x)"
| "lift_exn (Inr a) = Inr a"

text \<open>\<open>get_policy\<close>: bytes that are not UTF-8 raise \<open>UnicodeDecodeError\<close> (a \<open>ValueError\<close>) and a schema that is no number
  raises from \<open>int\<close>; neither is turned into a \<open>TrustPolicyError\<close>.\<close>

definition get_policy :: "tp_world \<Rightarrow> trust_error + trust_policy" where
  "get_policy w =
     (case tp_file w of
        File_Missing \<Rightarrow> Inr (policy_of w (default_level w) PNone PNone)
      | File_Bad_Utf8 \<Rightarrow> Inl (Uncaught ValueError)
      | File_Unreadable _ \<Rightarrow> Inl Policy_Unreadable
      | File_Json payload \<Rightarrow>
          rbind (as_dict Policy_Schema payload) (\<lambda>data.
          rbind (lift_exn (py_int (py_or (get_or data ''schema'' (PInt 0)) (PInt 0)))) (\<lambda>schema.
          rcheck (schema \<noteq> 1) Policy_Schema (
          rbind (normalize_level (get_or data ''minimum_level'' PNone)) (\<lambda>level.
            Inr (policy_of w level (get_or data ''updated_at'' PNone) (get_or data ''updated_by'' PNone)))))))"

record guidance =
  gd_level :: trust_level
  gd_environment :: string
  gd_command :: string
  gd_help_url :: string

definition console_guidance :: "pyval \<Rightarrow> tp_world \<Rightarrow> trust_error + guidance" where
  "console_guidance v w =
     rbind (normalize_level v) (\<lambda>target.
       Inr \<lparr>gd_level = target, gd_environment = server_environment w,
            gd_command = ''sudo tec-tac-trust-policy set '' @ level_text target @ '' --reason '' @
              [char_of (34::nat)] @ ''<why>'' @ [char_of (34::nat)] @ '' --hours 8'',
            gd_help_url = help_url w\<rparr>)"

section \<open>Changing the trust policy\<close>

definition actor_re :: "string \<Rightarrow> bool" where
  "actor_re s = (1 \<le> length s \<and> length s \<le> 150 \<and> list_all (\<lambda>c. is_alnum_ascii c \<or> c \<in> set ''@._-'') s)"

definition helper_path :: string where
  "helper_path = ''/usr/local/sbin/tec-tac-system-update''"

text \<open>Running the helper and reading its output, as both \<open>set_policy\<close> functions do.\<close>

definition call_helper :: "helper \<Rightarrow> string list \<Rightarrow> tp_world \<Rightarrow> (trust_error + unit) \<times> tp_world" where
  "call_helper helper command w =
     (case helper command (tp_file w) of (result, f) \<Rightarrow>
        (case result of
           Helper_Failed \<Rightarrow> Inl Helper_Call_Failed
         | Helper_Timeout \<Rightarrow> Inl Helper_Call_Timeout
         | Helper_Done out \<Rightarrow>
             (case out of
                Out_Empty \<Rightarrow> Inr ()
              | Out_Invalid \<Rightarrow> Inl Helper_Bad_Output
              | Out_Json v \<Rightarrow> if is_dict v then Inr () else Inl Helper_Bad_Data),
         w\<lparr>tp_file := f, tp_commands := tp_commands w @ [command]\<rparr>))"

definition set_policy_command :: "trust_level \<Rightarrow> string \<Rightarrow> string list" where
  "set_policy_command l actor =
     [''sudo'', ''-n'', helper_path, ''--set-trust-policy'', level_text l] @ (if actor = [] then [] else [actor])"

definition set_policy :: "helper \<Rightarrow> pyval \<Rightarrow> pyval \<Rightarrow> tp_world \<Rightarrow> (trust_error + trust_policy) \<times> tp_world" where
  "set_policy helper level updated_by w =
     (case normalize_level level of
        Inl x \<Rightarrow> (Inl x, w)
      | Inr l \<Rightarrow>
          (let actor = clean_text updated_by in
           if actor \<noteq> [] \<and> \<not> actor_re actor then (Inl Bad_Actor, w)
           else if \<not> tp_helper w then (Inl Helper_Unavailable, w)
           else (case get_policy w of
              Inl x \<Rightarrow> (Inl x, w)
            | Inr current \<Rightarrow>
                if level_rank l < level_rank (pol_level current) then (Inl Lowering_Refused, w)
                else (case call_helper helper (set_policy_command l actor) w of
                   (Inl x, w') \<Rightarrow> (Inl x, w')
                 | (Inr _, w') \<Rightarrow> (get_policy w', w')))))"

section \<open>Accepting a package\<close>

definition classify_trust :: "pyval \<Rightarrow> trust_error + trust_level" where
  "classify_trust v =
     (let trust = (case v of PDict d \<Rightarrow> d | _ \<Rightarrow> []);
          environment = clean_lower (py_or (get_or trust ''publisher_environment'' PNone) (get_or trust ''release_environment'' PNone));
          assurance = clean_lower (get_or trust ''assurance'' PNone)
      in if \<not> truthy (get_or trust ''signed'' PNone) then Inr Unsigned
         else if \<not> truthy (get_or trust ''trusted'' PNone) then Inl Not_Trusted
         else if assurance \<in> {''secure'', ''secure_signed'', ''high_assurance''}
         then (if environment \<noteq> ''production'' then Inl Secure_Needs_Production else Inr Secure_Signed)
         else if environment = ''production'' then Inr Signed_Production
         else if environment = ''development'' then Inr Signed_Development
         else Inl Environment_Unmapped)"

record acceptance_result =
  acc_minimum :: trust_level
  acc_actual :: trust_level
  acc_accepted :: bool

definition acceptance :: "tp_world \<Rightarrow> pyval \<Rightarrow> pyval \<Rightarrow> trust_error + acceptance_result" where
  "acceptance w trust minimum_level =
     rbind (get_policy w) (\<lambda>policy.
     rbind (normalize_level (py_or minimum_level (PStr (level_text (pol_level policy))))) (\<lambda>minimum.
     rbind (classify_trust trust) (\<lambda>actual.
       Inr \<lparr>acc_minimum = minimum, acc_actual = actual,
            acc_accepted = (level_rank actual \<ge> level_rank minimum)\<rparr>)))"

definition require_accepted :: "tp_world \<Rightarrow> pyval \<Rightarrow> pyval \<Rightarrow> trust_error + acceptance_result" where
  "require_accepted w trust minimum_level =
     rbind (acceptance w trust minimum_level) (\<lambda>r. rcheck (\<not> acc_accepted r) Below_Minimum (Inr r))"

section \<open>Module categories\<close>

definition effective_category :: "pyval \<Rightarrow> string" where
  "effective_category declared = (let v = clean_lower declared in if v = [] then ''test'' else v)"

definition is_development_server :: "tp_world \<Rightarrow> bool" where
  "is_development_server w = (server_environment w = ''development'')"

text \<open>The optional argument \<open>development\<close> overrides the server's setting.\<close>

definition development_flag :: "tp_world \<Rightarrow> bool option \<Rightarrow> bool" where
  "development_flag w development = (case development of None \<Rightarrow> is_development_server w | Some b \<Rightarrow> b)"

definition refused :: "tp_world \<Rightarrow> pyval \<Rightarrow> bool option \<Rightarrow> bool" where
  "refused w declared development =
     (effective_category declared = ''test'' \<and> \<not> development_flag w development)"

definition replacement_category_ok :: "tp_world \<Rightarrow> pyval \<Rightarrow> bool option \<Rightarrow> bool" where
  "replacement_category_ok w declared development =
     (let v = clean_lower declared
      in if v = ''premium'' then True else v = [] \<and> development_flag w development)"

datatype category_warning = Warning_Missing_Dev | Warning_Missing | Warning_Test

record category_status =
  cat_category :: "string option"
  cat_effective :: string
  cat_missing :: bool
  cat_refused :: bool
  cat_warning :: "category_warning option"

definition describe_category :: "tp_world \<Rightarrow> pyval \<Rightarrow> bool option \<Rightarrow> category_status" where
  "describe_category w declared development =
     (let dev = development_flag w development;
          v = clean_lower declared
      in \<lparr>cat_category = (if v = [] then None else Some v), cat_effective = effective_category (PStr v),
          cat_missing = (v = []), cat_refused = refused w (PStr v) (Some dev),
          cat_warning = (if v = [] then Some (if dev then Warning_Missing_Dev else Warning_Missing)
                         else if v = ''test'' \<and> \<not> dev then Some Warning_Test else None)\<rparr>)"

record category_problem =
  cp_module :: string
  cp_category :: "string option"
  cp_effective :: string

definition refusal_problem :: "tp_world \<Rightarrow> string \<Rightarrow> pyval \<Rightarrow> bool option \<Rightarrow> category_problem option" where
  "refusal_problem w module_id declared development =
     (if \<not> refused w declared development then None
      else Some \<lparr>cp_module = module_id, cp_category = (let v = clean_lower declared in if v = [] then None else Some v),
                 cp_effective = ''test''\<rparr>)"

section \<open>Account security policy\<close>

datatype account_error =
    Acc_Bad_Flag | Acc_Unreadable | Acc_Schema | Acc_Bad_Actor | Acc_Helper_Unavailable
  | Acc_Helper trust_error | Acc_Uncaught py_exn

definition coerce_bool :: "pyval \<Rightarrow> account_error + bool" where
  "coerce_bool v =
     (case v of
        PBool b \<Rightarrow> Inr b
      | _ \<Rightarrow>
          (let t = clean_lower v in
           if t \<in> {''1'', ''true'', ''yes'', ''on'', ''enabled''} then Inr True
           else if t \<in> {''0'', ''false'', ''no'', ''off'', ''disabled'', []} then Inr False
           else Inl Acc_Bad_Flag))"

fun schema_number :: "py_exn + int \<Rightarrow> account_error + int" where
  "schema_number (Inr n) = Inr n"
| "schema_number (Inl TypeError) = Inl Acc_Schema"
| "schema_number (Inl ValueError) = Inl Acc_Schema"
| "schema_number (Inl x) = Inl (Acc_Uncaught x)"

record account_policy =
  ap_protect :: bool
  ap_updated_at :: pyval
  ap_updated_by :: pyval

definition get_account_policy :: "tp_world \<Rightarrow> account_error + account_policy" where
  "get_account_policy w =
     (case tp_file w of
        File_Missing \<Rightarrow> Inr \<lparr>ap_protect = False, ap_updated_at = PNone, ap_updated_by = PNone\<rparr>
      | File_Bad_Utf8 \<Rightarrow> Inl (Acc_Uncaught ValueError)
      | File_Unreadable _ \<Rightarrow> Inl Acc_Unreadable
      | File_Json payload \<Rightarrow>
          rbind (as_dict Acc_Schema payload) (\<lambda>data.
          rbind (schema_number (py_int (py_or (get_or data ''schema'' (PInt 0)) (PInt 0)))) (\<lambda>schema.
          rcheck (schema \<noteq> 1) Acc_Schema (
          rbind (coerce_bool (get_or data ''protect_superuser_accounts'' (PBool False))) (\<lambda>enabled.
            Inr \<lparr>ap_protect = enabled, ap_updated_at = get_or data ''updated_at'' PNone,
                 ap_updated_by = get_or data ''updated_by'' PNone\<rparr>)))))"

text \<open>\<open>protection_enabled\<close>: an \<open>AccountSecurityPolicyError\<close> gives the fail-closed answer, any other exception escapes.\<close>

definition protection_enabled :: "bool \<Rightarrow> tp_world \<Rightarrow> py_exn + bool" where
  "protection_enabled fail_closed w =
     (case get_account_policy w of
        Inr p \<Rightarrow> Inr (ap_protect p)
      | Inl (Acc_Uncaught x) \<Rightarrow> Inl x
      | Inl _ \<Rightarrow> Inr fail_closed)"

definition set_account_policy :: "helper \<Rightarrow> pyval \<Rightarrow> pyval \<Rightarrow> tp_world \<Rightarrow> (account_error + account_policy) \<times> tp_world" where
  "set_account_policy helper enabled updated_by w =
     (case coerce_bool enabled of
        Inl x \<Rightarrow> (Inl x, w)
      | Inr protect \<Rightarrow>
          (let actor = clean_text updated_by in
           if length actor > 150 \<or> char_of (0::nat) \<in> set actor then (Inl Acc_Bad_Actor, w)
           else if \<not> tp_helper w then (Inl Acc_Helper_Unavailable, w)
           else
             (let command = [''sudo'', ''-n'', helper_path, ''--set-account-security-policy'',
                             if protect then ''true'' else ''false''] @ (if actor = [] then [] else [actor])
              in case call_helper helper command w of
                   (Inl x, w') \<Rightarrow> (Inl (Acc_Helper x), w')
                 | (Inr _, w') \<Rightarrow> (get_account_policy w', w'))))"

section \<open>The trust policy only goes up\<close>

lemma level_text_inj: "level_text a = level_text b \<longleftrightarrow> a = b"
  by (cases a; cases b) simp_all

lemma normalize_level_texts: "list_all (\<lambda>l. normalize_level (PStr (level_text l)) = Inr l) levels"
  by code_simp

lemma normalize_level_text [simp]: "normalize_level (PStr (level_text l)) = Inr l"
  using normalize_level_texts by (cases l) (simp_all add: levels_def)

lemma call_helper_world: "call_helper helper c w = (r, w') \<Longrightarrow>
    tp_commands w' = tp_commands w @ [c] \<and> tp_config w' = tp_config w \<and> tp_file w' = snd (helper c (tp_file w))"
  by (auto simp: call_helper_def split: prod.splits)

text \<open>(C35) The Django process cannot lower the update trust level, whatever the privileged helper does: each call of
  \<open>set_policy\<close> either changes nothing at all, or runs the helper once, with a level at least as high as the level the
  readable policy has at that moment and with an actor of at most 150 safe characters. A call for a lower level, with an unreadable
  policy or without the helper fails and runs nothing.\<close>

theorem set_policy_never_lowers:
  assumes "set_policy helper level updated_by w = (res, w')"
  shows "(w' = w \<and> \<not> is_ok res) \<or>
    (\<exists>l current actor. normalize_level level = Inr l \<and> get_policy w = Inr current \<and> pol_level current \<le> l \<and>
       (actor = [] \<or> actor_re actor) \<and> tp_commands w' = tp_commands w @ [set_policy_command l actor])"
proof (cases "normalize_level level")
  case (Inr l)
  let ?actor = "clean_text updated_by"
  show ?thesis
  proof (cases "(?actor \<noteq> [] \<and> \<not> actor_re ?actor) \<or> \<not> tp_helper w \<or> \<not> is_ok (get_policy w) \<or>
      (\<exists>c. get_policy w = Inr c \<and> level_rank l < level_rank (pol_level c))")
    case True
    then show ?thesis using assms Inr
      by (cases "get_policy w") (auto simp: set_policy_def Let_def is_ok_iff split: if_splits)
  next
    case False
    then obtain c where c: "get_policy w = Inr c" "pol_level c \<le> l"
      by (auto simp: is_ok_iff less_eq_trust_level_def not_less)
    obtain r v where v: "call_helper helper (set_policy_command l ?actor) w = (r, v)" by (metis surj_pair)
    have "w' = v" using assms Inr False c v by (auto simp: set_policy_def Let_def less_eq_trust_level_def split: sum.splits)
    then have "tp_commands w' = tp_commands w @ [set_policy_command l ?actor]" using call_helper_world [OF v] by simp
    then show ?thesis using Inr c False by blast
  qed
qed (use assms in \<open>auto simp: set_policy_def\<close>)

definition sample_tp :: tp_world where
  "sample_tp = \<lparr>tp_config = Some ''TEC_TAC_ENVIRONMENT=development'', tp_file = File_Missing, tp_helper = True, tp_commands = []\<rparr>"

definition sample_helper :: helper where
  "sample_helper c f = (Helper_Done Out_Empty,
     File_Json (PDict [(''schema'', PInt 1), (''minimum_level'', PStr (c ! 4))]))"

lemma sample_policy_raised:
  "tp_commands (snd (set_policy sample_helper (PStr ''signed-production'') (PStr ''jo'') sample_tp)) =
     [set_policy_command Signed_Production ''jo'']"
  by code_simp

theorem set_policy_never_lowers_witness:
  "\<exists>l current actor. normalize_level (PStr ''signed-production'') = Inr l \<and> get_policy sample_tp = Inr current \<and>
      pol_level current \<le> l \<and> (actor = [] \<or> actor_re actor) \<and>
      tp_commands (snd (set_policy sample_helper (PStr ''signed-production'') (PStr ''jo'') sample_tp)) =
        tp_commands sample_tp @ [set_policy_command l actor]"
proof -
  have "snd (set_policy sample_helper (PStr ''signed-production'') (PStr ''jo'') sample_tp) \<noteq> sample_tp"
    using sample_policy_raised by (auto simp: sample_tp_def)
  then show ?thesis
    using set_policy_never_lowers [OF surjective_pairing, of sample_helper "PStr ''signed-production''" "PStr ''jo''" sample_tp]
    by blast
qed

section \<open>Acceptance\<close>

lemma classify_signed:
  assumes "classify_trust trust = Inr l" and "l \<noteq> Unsigned"
  shows "\<exists>d. trust = PDict d \<and> truthy (get_or d ''signed'' PNone) \<and> truthy (get_or d ''trusted'' PNone)"
proof -
  have "truthy (get_or [] k PNone) = False" for k :: string by (simp add: get_or_def)
  then show ?thesis using assms
    by (cases trust) (auto simp: classify_trust_def Let_def split: if_splits)
qed

lemma classify_production:
  assumes "classify_trust (PDict d) = Inr l" and "Signed_Production \<le> l"
  shows "clean_lower (py_or (get_or d ''publisher_environment'' PNone) (get_or d ''release_environment'' PNone)) = ''production''"
  using assms by (auto simp: classify_trust_def Let_def less_eq_trust_level_def split: if_splits)

text \<open>An accepted package meets the floor: with an unreadable policy nothing is accepted; an accepted package is at least at the
  minimum in force; above the unsigned level it is signed and trusted; at a production minimum its publisher
  environment is production; and a package accepted under a higher floor is accepted under every lower one.\<close>

theorem accepted_packages_meet_the_floor:
  assumes "require_accepted w trust (PStr (level_text m)) = Inr r"
  shows "is_ok (get_policy w) \<and> acc_minimum r = m \<and> m \<le> acc_actual r \<and> classify_trust trust = Inr (acc_actual r) \<and>
     (m \<noteq> Unsigned \<longrightarrow> (\<exists>d. trust = PDict d \<and> truthy (get_or d ''signed'' PNone) \<and> truthy (get_or d ''trusted'' PNone) \<and>
        (Signed_Production \<le> m \<longrightarrow>
          clean_lower (py_or (get_or d ''publisher_environment'' PNone) (get_or d ''release_environment'' PNone)) = ''production''))) \<and>
     (\<forall>m' \<le> m. is_ok (require_accepted w trust (PStr (level_text m'))))"
proof -
  have or: "py_or (PStr (level_text l)) v = PStr (level_text l)" for l v by (cases l) (simp_all add: py_or_def)
  have r: "is_ok (get_policy w)" "acc_minimum r = m" "m \<le> acc_actual r" "classify_trust trust = Inr (acc_actual r)"
    using assms by (auto simp: require_accepted_def acceptance_def or less_eq_trust_level_def)
  have low: "is_ok (require_accepted w trust (PStr (level_text m')))" if "m' \<le> m" for m'
    using r that by (auto simp: require_accepted_def acceptance_def or is_ok_iff less_eq_trust_level_def)
  have "acc_actual r \<noteq> Unsigned" if "m \<noteq> Unsigned"
    using that r(3) by (cases m) (auto simp: less_eq_trust_level_def)
  then have "\<exists>d. trust = PDict d \<and> truthy (get_or d ''signed'' PNone) \<and> truthy (get_or d ''trusted'' PNone) \<and>
        (Signed_Production \<le> m \<longrightarrow>
          clean_lower (py_or (get_or d ''publisher_environment'' PNone) (get_or d ''release_environment'' PNone)) = ''production'')"
    if "m \<noteq> Unsigned"
    using classify_signed [OF r(4)] that classify_production r(3,4) order_trans by blast
  then show ?thesis using r low by blast
qed

definition sample_trust :: pyval where
  "sample_trust = PDict [(''signed'', PBool True), (''trusted'', PBool True), (''publisher_environment'', PStr ''Production'')]"

lemma sample_accepted: "require_accepted sample_tp sample_trust (PStr (level_text Signed_Production)) =
    Inr \<lparr>acc_minimum = Signed_Production, acc_actual = Signed_Production, acc_accepted = True\<rparr>"
  by code_simp

theorem accepted_packages_meet_the_floor_witness:
  "is_ok (require_accepted sample_tp sample_trust (PStr (level_text Signed_Development)))"
proof -
  have "Signed_Development \<le> Signed_Production" by (simp add: less_eq_trust_level_def)
  then show ?thesis using accepted_packages_meet_the_floor [OF sample_accepted] by blast
qed

section \<open>Categories and account protection\<close>

text \<open>A test module, or one without a category, is installed only on a server whose configuration says development; a module
  that may replace another is never refused, and an unreadable configuration counts as production.\<close>

theorem test_modules_only_on_development:
  "(\<not> refused w declared None \<longrightarrow> effective_category declared \<noteq> ''test'' \<or>
      (\<exists>t. tp_config w = Some t \<and> lower (strip (get_or (config_values t) ''TEC_TAC_ENVIRONMENT'' [])) = ''development'')) \<and>
   (replacement_category_ok w declared d \<longrightarrow> \<not> refused w declared d) \<and>
   (cat_refused (describe_category w declared d) = refused w declared d) \<and>
   ((refusal_problem w m declared d \<noteq> None) = refused w declared d)"
proof -
  have dev: "\<exists>t. tp_config w = Some t \<and> lower (strip (get_or (config_values t) ''TEC_TAC_ENVIRONMENT'' [])) = ''development''"
    if "server_environment w = ''development''"
  proof -
    let ?raw = "get_or (tp_config_values w) ''TEC_TAC_ENVIRONMENT'' []"
    have prod: "lower (strip ''production'') = ''production''" by code_simp
    have l: "lower (strip (if ?raw = [] then ''production'' else ?raw)) = ''development''"
      using that by (simp add: server_environment_def Let_def split: if_splits)
    then have ne: "?raw \<noteq> []" using prod by auto
    then obtain t where t: "tp_config w = Some t"
      by (cases "tp_config w") (auto simp: tp_config_values_def get_or_def)
    then show ?thesis using l ne by (simp add: tp_config_values_def)
  qed
  have eff: "effective_category (PStr (clean_lower declared)) = effective_category declared"
    unfolding effective_category_def clean_lower_idem by simp
  have "effective_category declared \<noteq> ''test''" if "clean_lower declared = ''premium''"
    using that by (simp add: effective_category_def)
  then have "\<not> refused w declared d" if "replacement_category_ok w declared d"
    using that by (auto simp: refused_def replacement_category_ok_def Let_def split: if_splits)
  moreover have "cat_refused (describe_category w declared d) = refused w declared d"
    unfolding describe_category_def refused_def Let_def category_status.simps eff by (simp add: development_flag_def)
  ultimately show ?thesis
    using dev by (auto simp: refused_def refusal_problem_def development_flag_def is_development_server_def)
qed

theorem test_modules_only_on_development_witness:
  "refused sample_tp (PStr ''Test'') (Some False) \<and>
   cat_refused (describe_category sample_tp (PStr ''Test'') (Some False)) = refused sample_tp (PStr ''Test'') (Some False)"
proof
  show "refused sample_tp (PStr ''Test'') (Some False)" by code_simp
  show "cat_refused (describe_category sample_tp (PStr ''Test'') (Some False)) = refused sample_tp (PStr ''Test'') (Some False)"
    using test_modules_only_on_development [of sample_tp "PStr ''Test''" "Some False" "''m''"] by blast
qed

text \<open>Account protection fails closed: the answer is off only when the policy file is missing or is a schema 1 object whose
  switch reads as off; a file that is unreadable, not an object, of another schema or with another switch value reads
  as on. The two exceptions that are not turned into an answer are bytes that are not UTF-8 and an infinite schema number.\<close>

theorem account_protection_fails_closed:
  "(protection_enabled True w = Inr False \<longleftrightarrow> tp_file w = File_Missing \<or>
      (\<exists>d. tp_file w = File_Json (PDict d) \<and> py_int (py_or (get_or d ''schema'' (PInt 0)) (PInt 0)) = Inr 1 \<and>
         coerce_bool (get_or d ''protect_superuser_accounts'' (PBool False)) = Inr False)) \<and>
   (protection_enabled True w = Inl x \<longrightarrow> tp_file w = File_Bad_Utf8 \<and> x = ValueError \<or>
      (\<exists>d. tp_file w = File_Json (PDict d) \<and> py_int (py_or (get_or d ''schema'' (PInt 0)) (PInt 0)) = Inl x \<and>
         x \<noteq> TypeError \<and> x \<noteq> ValueError))"
proof (cases "tp_file w")
  case (File_Json v)
  have cb: "coerce_bool u \<noteq> Inl (Acc_Uncaught y)" for u y
    by (auto simp: coerce_bool_def Let_def split: pyval.splits)
  show ?thesis
  proof (cases v)
    case (PDict d)
    let ?n = "py_int (py_or (get_or d ''schema'' (PInt 0)) (PInt 0))"
    let ?b = "coerce_bool (get_or d ''protect_superuser_accounts'' (PBool False))"
    have g: "get_account_policy w = rbind (schema_number ?n) (\<lambda>schema. rcheck (schema \<noteq> 1) Acc_Schema (
        rbind ?b (\<lambda>enabled. Inr \<lparr>ap_protect = enabled, ap_updated_at = get_or d ''updated_at'' PNone,
                 ap_updated_by = get_or d ''updated_by'' PNone\<rparr>)))"
      by (simp add: get_account_policy_def File_Json PDict)
    show ?thesis
    proof (cases ?n)
      case (Inl y)
      then show ?thesis by (cases y) (auto simp: protection_enabled_def g File_Json PDict)
    next
      case (Inr n)
      then show ?thesis using cb [of "get_or d ''protect_superuser_accounts'' (PBool False)"]
        by (cases ?b) (auto simp: protection_enabled_def g File_Json PDict rcheck_def split: account_error.splits)
    qed
  qed (auto simp: protection_enabled_def get_account_policy_def File_Json)
qed (auto simp: protection_enabled_def get_account_policy_def)

theorem account_protection_fails_closed_witness:
  "protection_enabled True (sample_tp\<lparr>tp_file := File_Json (PDict [(''schema'', PInt 2)])\<rparr>) \<noteq> Inr False"
  using account_protection_fails_closed [of "sample_tp\<lparr>tp_file := File_Json (PDict [(''schema'', PInt 2)])\<rparr>"]
  by (simp add: get_or_def py_or_def)

end
