(* ===== verification/Module_Replacement.thy ===== *)
theory Module_Replacement
  imports Trust_Policy
begin

text \<open>
  The rules of \<open>module_replacement.py\<close>: when a module that declares \<open>replaces\<close> stands in for a core or server
  module, what enabling, installing and disabling it switches, and which pairs are in conflict. A model is the
  dictionary of installed modules in its order, the node of a module under its own id. An unreadable declared version
  raises; \<open>Inl\<close> is that exception. The category rule reads the server's environment, \<open>tp_world\<close>.
  Log lines are left out.
\<close>

datatype rp_reason =
    Replacement_Disabled | Target_Missing | Target_Not_Core | Target_Enabled | Competing
  | Caps_Undeclared | Cap_Missing | Cap_Major | Cap_Lower | Replacement_Category

definition replaceable_categories :: "string list" where
  "replaceable_categories = [''core'', ''server'']"

definition conflict_reasons :: "rp_reason list" where
  "conflict_reasons = [Target_Enabled, Competing]"

record rp_node =
  nd_id :: string
  nd_category :: string
  nd_enabled :: bool
  nd_replaces :: string
  nd_capabilities :: "(string, string) dict option"

type_synonym rp_model = "(string, rp_node) dict"

section \<open>Versions of capabilities\<close>

definition version_within_declared :: "string \<Rightarrow> string \<Rightarrow> version_error + rp_reason option" where
  "version_within_declared declared registered = (case parse_version registered of
     Inl Int_Too_Long \<Rightarrow> Inl Int_Too_Long
   | Inl _ \<Rightarrow> Inr (Some Cap_Major)
   | Inr got \<Rightarrow> rbind (parse_version declared) (\<lambda>want.
       Inr (if major got \<noteq> major want then Some Cap_Major
            else if (minor got, patch got) < (minor want, patch want) then Some Cap_Lower
            else None)))"

record rp_mismatch =
  mm_capability :: string
  mm_declared :: string
  mm_registered :: string
  mm_reason :: rp_reason

type_synonym rp_mismatches = "(string \<times> string, rp_mismatch) dict"

definition record_registered_mismatch :: "string \<Rightarrow> string \<Rightarrow> string \<Rightarrow> string \<Rightarrow> rp_reason \<Rightarrow> rp_mismatches \<Rightarrow> rp_mismatches" where
  "record_registered_mismatch m c declared registered reason ms =
     dset (m, c) \<lparr>mm_capability = c, mm_declared = declared, mm_registered = registered, mm_reason = reason\<rparr> ms"

definition clear_registered_mismatch :: "string \<Rightarrow> string \<Rightarrow> rp_mismatches \<Rightarrow> rp_mismatches" where
  "clear_registered_mismatch m c ms = ddel (m, c) ms"

definition registered_mismatches :: "string \<Rightarrow> rp_mismatches \<Rightarrow> rp_mismatch list" where
  "registered_mismatches m ms = map snd (filter (\<lambda>e. fst (fst e) = m) (sort_key fst ms))"

section \<open>The model\<close>

record rp_plugin =
  pl_id :: string
  pl_extension :: bool
  pl_legacy :: bool
  pl_name :: string
  pl_category :: string
  pl_replaces :: string
  pl_capabilities_declared :: bool
  pl_capabilities :: "(string, string) dict"

definition plugin_node :: "pydict \<Rightarrow> rp_plugin \<Rightarrow> rp_node" where
  "plugin_node state p = \<lparr>nd_id = pl_id p, nd_category = pl_category p, nd_enabled = is_enabled (pl_id p) state, nd_replaces = pl_replaces p,
     nd_capabilities = (if pl_capabilities_declared p \<or> pl_capabilities p \<noteq> [] then Some (pl_capabilities p) else None)\<rparr>"

definition live_model :: "rp_plugin list \<Rightarrow> pydict \<Rightarrow> rp_model" where
  "live_model plugins state = fold (\<lambda>p m. if \<not> pl_extension p \<or> pl_legacy p then m else dset (pl_id p) (plugin_node state p) m) plugins []"

definition caps_of :: "rp_node \<Rightarrow> (string, string) dict" where
  "caps_of n = (case nd_capabilities n of None \<Rightarrow> [] | Some c \<Rightarrow> c)"

record cap_failure =
  cf_capability :: string
  cf_required :: string
  cf_declared :: "string option"
  cf_reason :: rp_reason

definition parity_row :: "rp_node \<Rightarrow> rp_node \<Rightarrow> string \<Rightarrow> version_error + cap_failure option" where
  "parity_row replaced replacement c = (let want = get_or (caps_of replaced) c [] in
     case dget (caps_of replacement) c of
       None \<Rightarrow> Inr (Some \<lparr>cf_capability = c, cf_required = want, cf_declared = None, cf_reason = Cap_Missing\<rparr>)
     | Some offered \<Rightarrow> rbind (version_within_declared want offered) (\<lambda>bad. Inr (map_option (\<lambda>r.
         \<lparr>cf_capability = c, cf_required = want, cf_declared = Some offered, cf_reason = r\<rparr>) bad)))"

definition parity :: "rp_node \<Rightarrow> rp_node \<Rightarrow> version_error + rp_reason option \<times> cap_failure list" where
  "parity replaced replacement = rbind (rmap (parity_row replaced replacement) (sort (keys (caps_of replaced)))) (\<lambda>rows.
     let failures = List.map_filter id rows in
     Inr (case failures of [] \<Rightarrow> None | f # _ \<Rightarrow> Some (cf_reason f), failures))"

definition other_claims :: "rp_model \<Rightarrow> rp_node \<Rightarrow> string \<Rightarrow> bool" where
  "other_claims model node r = list_ex (\<lambda>other. nd_id other \<noteq> r \<and> nd_enabled other \<and> nd_replaces other = nd_replaces node) (map snd model)"

definition check :: "tp_world \<Rightarrow> rp_model \<Rightarrow> string \<Rightarrow> bool \<Rightarrow> version_error + rp_reason option \<times> cap_failure list" where
  "check w model r assume_enabled = (case dget model r of
     None \<Rightarrow> Inr (Some Target_Missing, [])
   | Some node \<Rightarrow>
       if nd_replaces node = [] then Inr (Some Target_Missing, [])
       else if \<not> nd_enabled node \<and> \<not> assume_enabled then Inr (Some Replacement_Disabled, [])
       else if \<not> replacement_category_ok w (PStr (nd_category node)) None then Inr (Some Replacement_Category, [])
       else (case dget model (nd_replaces node) of
         None \<Rightarrow> Inr (Some Target_Missing, [])
       | Some target \<Rightarrow>
           if nd_category target \<notin> set replaceable_categories then Inr (Some Target_Not_Core, [])
           else if nd_enabled target then Inr (Some Target_Enabled, [])
           else if other_claims model node r then Inr (Some Competing, [])
           else if nd_capabilities target = None then Inr (Some Caps_Undeclared, [])
           else parity target node))"

section \<open>What a switch changes\<close>

definition set_node :: "string \<Rightarrow> bool \<Rightarrow> rp_model \<Rightarrow> rp_model" where
  "set_node i enabled model = (case dget model i of None \<Rightarrow> model
     | Some n \<Rightarrow> if nd_enabled n \<noteq> enabled then dset i (n\<lparr>nd_enabled := enabled\<rparr>) model else model)"

definition with_enabled :: "rp_model \<Rightarrow> (string, bool) dict \<Rightarrow> rp_model" where
  "with_enabled model changes = fold (\<lambda>(i, e). set_node i e) changes model"

definition hypothetical :: "rp_model \<Rightarrow> rp_node \<Rightarrow> bool \<Rightarrow> string list \<Rightarrow> rp_model \<times> string list" where
  "hypothetical model node will_enable blocked = (case dget model (nd_replaces node) of
     None \<Rightarrow> (model, [])
   | Some target \<Rightarrow>
       if \<not> will_enable \<or> nd_category target \<notin> set replaceable_categories \<or> \<not> nd_enabled target \<or> nd_id target \<in> set blocked then (model, [])
       else (with_enabled model [(nd_id target, False)], [nd_id target]))"

definition replacements_of :: "rp_model \<Rightarrow> string \<Rightarrow> string list" where
  "replacements_of model m = (case dget model m of None \<Rightarrow> []
     | Some target \<Rightarrow> if nd_category target \<notin> set replaceable_categories then []
         else sort (map nd_id (filter (\<lambda>other. nd_enabled other \<and> nd_replaces other = m \<and> nd_id other \<noteq> m) (map snd model))))"

definition switches_replacement :: "rp_model \<Rightarrow> string \<Rightarrow> bool" where
  "switches_replacement model m = (case dget model m of None \<Rightarrow> False | Some n \<Rightarrow> \<not> nd_enabled n \<and> replacements_of model m \<noteq> [])"

definition hand_back_plan :: "rp_model \<Rightarrow> string \<Rightarrow> string list" where
  "hand_back_plan model r = (case dget model r of None \<Rightarrow> []
     | Some node \<Rightarrow>
         if nd_replaces node = [] \<or> \<not> nd_enabled node then []
         else (case dget model (nd_replaces node) of None \<Rightarrow> []
           | Some target \<Rightarrow>
               if nd_category target \<notin> set replaceable_categories \<or> nd_enabled target then []
               else if other_claims model node r then []
               else [nd_id target]))"

definition disable_plan :: "tp_world \<Rightarrow> rp_model \<Rightarrow> string \<Rightarrow> version_error + string list" where
  "disable_plan w model m = (case dget model m of None \<Rightarrow> Inr []
     | Some node \<Rightarrow>
         if nd_enabled node then Inr []
         else if nd_replaces node = [] then Inr (replacements_of model m)
         else (case hypothetical model node True [] of (future, disables) \<Rightarrow>
           if disables = [] then Inr []
           else rbind (check w future m True) (\<lambda>(reason, _). Inr (if reason = None then disables else []))))"

fun install_disables_from :: "tp_world \<Rightarrow> rp_model \<Rightarrow> string list \<Rightarrow> string list \<Rightarrow> version_error + (string, string list) dict" where
  "install_disables_from w model wanted [] = Inr []"
| "install_disables_from w model wanted (m # ms) = (case dget model m of
     None \<Rightarrow> install_disables_from w model wanted ms
   | Some node \<Rightarrow>
       if nd_replaces node = [] then install_disables_from w model wanted ms
       else (case hypothetical model node True wanted of (future, disables) \<Rightarrow>
         if disables = [] then install_disables_from w model wanted ms
         else rbind (check w future m True) (\<lambda>(reason, _). rbind (install_disables_from w model wanted ms) (\<lambda>rest.
           Inr (if reason = None then (m, disables) # rest else rest)))))"

definition install_disables :: "tp_world \<Rightarrow> rp_model \<Rightarrow> string list \<Rightarrow> string list \<Rightarrow> version_error + (string, string list) dict" where
  "install_disables w model candidates installed =
     install_disables_from w model candidates (sort (filter (\<lambda>m. m \<notin> set installed) (dedup candidates)))"

text \<open>\<open>satisfies_dependency\<close> swallows an exception of any node on its way and answers nothing then.\<close>

fun first_honoured :: "tp_world \<Rightarrow> rp_model \<Rightarrow> string \<Rightarrow> rp_node list \<Rightarrow> string option" where
  "first_honoured w model dep [] = None"
| "first_honoured w model dep (n # ns) =
     (if nd_replaces n = dep \<and> nd_enabled n
      then (case check w model (nd_id n) False of
          Inl _ \<Rightarrow> None
        | Inr (reason, _) \<Rightarrow> if reason = None then Some (nd_id n) else first_honoured w model dep ns)
      else first_honoured w model dep ns)"

definition by_id :: "rp_model \<Rightarrow> rp_node list" where
  "by_id model = sort_key nd_id (map snd model)"

definition satisfies_dependency :: "tp_world \<Rightarrow> rp_model \<Rightarrow> string \<Rightarrow> string option" where
  "satisfies_dependency w model dep = first_honoured w model dep (by_id model)"

definition conflict_of :: "rp_model \<Rightarrow> rp_node \<Rightarrow> (string \<times> string) option" where
  "conflict_of model node = (if nd_replaces node = [] \<or> \<not> nd_enabled node then None
     else (case dget model (nd_replaces node) of None \<Rightarrow> None
       | Some target \<Rightarrow> if nd_enabled target \<and> nd_category target \<in> set replaceable_categories then Some (nd_id node, nd_id target) else None))"

definition conflicted_replacements :: "rp_model \<Rightarrow> (string \<times> string) list" where
  "conflicted_replacements model = List.map_filter (conflict_of model) (by_id model)"

definition honoured_replacement :: "tp_world \<Rightarrow> rp_model \<Rightarrow> string \<Rightarrow> string option" where
  "honoured_replacement w model m = (case dget model m of None \<Rightarrow> None
     | Some node \<Rightarrow> if nd_replaces node = [] then None
         else (case check w model (nd_id node) False of Inl _ \<Rightarrow> None | Inr (reason, _) \<Rightarrow> if reason = None then Some (nd_replaces node) else None))"

definition replaced_by :: "tp_world \<Rightarrow> rp_model \<Rightarrow> string \<Rightarrow> string option" where
  "replaced_by w model core_id =
     map_option nd_id (find (\<lambda>n. nd_replaces n = core_id \<and> honoured_replacement w model (nd_id n) = Some core_id) (map snd model))"

section \<open>Problems\<close>

datatype rp_kind = Replacement_Conflict | Replacement_Incomplete

record rp_problem =
  pb_kind :: rp_kind
  pb_module :: string
  pb_replaces :: string
  pb_reason :: rp_reason
  pb_failures :: "cap_failure list"

definition problem_of :: "rp_node \<Rightarrow> rp_reason option \<times> cap_failure list \<Rightarrow> rp_problem list" where
  "problem_of node answer = (case answer of (None, _) \<Rightarrow> []
     | (Some reason, failures) \<Rightarrow> [\<lparr>pb_kind = (if reason \<in> set conflict_reasons then Replacement_Conflict else Replacement_Incomplete),
         pb_module = nd_id node, pb_replaces = nd_replaces node, pb_reason = reason, pb_failures = failures\<rparr>])"

definition rp_enable_problems :: "tp_world \<Rightarrow> rp_model \<Rightarrow> string \<Rightarrow> version_error + rp_problem list" where
  "rp_enable_problems w model m = (case dget model m of None \<Rightarrow> Inr []
     | Some node \<Rightarrow> if nd_replaces node = [] then Inr []
         else rbind (check w (fst (hypothetical model node (\<not> nd_enabled node) [])) m True) (\<lambda>answer. Inr (problem_of node answer)))"

definition install_problem :: "tp_world \<Rightarrow> rp_model \<Rightarrow> string list \<Rightarrow> string list \<Rightarrow> rp_node \<Rightarrow> version_error + rp_problem list" where
  "install_problem w model wanted installed node =
     (if nd_replaces node = [] then Inr []
      else if nd_id node \<in> set wanted then
        rbind (if nd_id node \<in> set installed then check w model (nd_id node) True
               else check w (fst (hypothetical model node True wanted)) (nd_id node) True) (\<lambda>answer. Inr (problem_of node answer))
      else if nd_replaces node \<in> set wanted \<and> nd_enabled node then
        rbind (check w model (nd_id node) False) (\<lambda>answer.
          Inr (if fst answer \<in> Some ` set conflict_reasons \<and> nd_replaces node \<in> set installed then [] else problem_of node answer))
      else Inr [])"

definition install_problems :: "tp_world \<Rightarrow> rp_model \<Rightarrow> string list \<Rightarrow> string list \<Rightarrow> version_error + rp_problem list" where
  "install_problems w model wanted installed = rbind (rmap (install_problem w model wanted installed) (by_id model)) (\<lambda>ps. Inr (concat ps))"

section \<open>Status\<close>

record rp_status =
  rs_module :: string
  rs_replaces :: string
  rs_enabled :: bool
  rs_honoured :: bool
  rs_reason :: "rp_reason option"
  rs_expected :: "string list"
  rs_declared :: "string list"
  rs_failed :: "cap_failure list"
  rs_conflict :: bool
  rs_degraded :: bool
  rs_unregistered :: "string list"
  rs_mismatch :: "rp_mismatch list"

definition status_for :: "tp_world \<Rightarrow> rp_model \<Rightarrow> string list \<Rightarrow> rp_mismatches \<Rightarrow> bool \<Rightarrow> rp_node \<Rightarrow> version_error + rp_status" where
  "status_for w model registered ms check_registered node = rbind (check w model (nd_id node) False) (\<lambda>(reason, failures).
     let expected = (case dget model (nd_replaces node) of None \<Rightarrow> [] | Some t \<Rightarrow> sort (keys (caps_of t)));
         looked = (reason = None \<and> check_registered);
         missing = (if looked then filter (\<lambda>c. c \<notin> set registered) expected else []);
         mismatch = (if looked then registered_mismatches (nd_id node) ms else []) in
     Inr \<lparr>rs_module = nd_id node, rs_replaces = nd_replaces node, rs_enabled = nd_enabled node, rs_honoured = (reason = None), rs_reason = reason,
       rs_expected = expected, rs_declared = sort (keys (caps_of node)), rs_failed = failures,
       rs_conflict = (nd_enabled node \<and> (case dget model (nd_replaces node) of None \<Rightarrow> False
          | Some t \<Rightarrow> nd_enabled t \<and> nd_category t \<in> set replaceable_categories)),
       rs_degraded = (missing \<noteq> [] \<or> mismatch \<noteq> []), rs_unregistered = missing, rs_mismatch = mismatch\<rparr>)"

definition replacement_status :: "tp_world \<Rightarrow> rp_model \<Rightarrow> string list \<Rightarrow> rp_mismatches \<Rightarrow> bool \<Rightarrow> version_error + rp_status list" where
  "replacement_status w model registered ms check_registered =
     rmap (status_for w model registered ms check_registered) (filter (\<lambda>n. nd_replaces n \<noteq> []) (by_id model))"

section \<open>Installing a disabled module\<close>

text \<open>\<open>" ".join(text.split())\<close>\<close>

fun words_from :: "string \<Rightarrow> string \<Rightarrow> string list" where
  "words_from cur [] = (if cur = [] then [] else [rev cur])"
| "words_from cur (c # cs) = (if is_space c then (if cur = [] then words_from [] cs else rev cur # words_from [] cs) else words_from (c # cur) cs)"

definition one_line :: "string \<Rightarrow> string" where
  "one_line s = join '' '' (words_from [] s)"

definition manifest_name :: "rp_plugin list \<Rightarrow> string \<Rightarrow> string" where
  "manifest_name plugins m = (case find (\<lambda>p. pl_id p = m \<and> pl_extension p \<and> one_line (pl_name p) \<noteq> []) plugins of
     None \<Rightarrow> m | Some p \<Rightarrow> one_line (pl_name p))"

definition disabled_install_refusal :: "tp_world \<Rightarrow> rp_plugin list \<Rightarrow> pydict \<Rightarrow> string \<Rightarrow> string \<Rightarrow> string option" where
  "disabled_install_refusal w plugins state module_id name = (let target = strip module_id in
     if target = [] \<or> truthy (get_or state ''_corrupt'' PNone) then None
     else (case dget state ''modules'' of
       Some (PDict modules) \<Rightarrow>
         if dget modules target = None \<or> is_enabled target state then None
         else (let shown = (if one_line name \<noteq> [] then one_line name else manifest_name plugins target) in
           case replaced_by w (live_model plugins state) target of
             None \<Rightarrow> Some (shown @ '' is disabled. Enable it, then install again.'')
           | Some r \<Rightarrow> (let other = manifest_name plugins r in
               Some (shown @ '' is disabled because '' @ other @ '' replaces it. Disable '' @ other @ '' and enable '' @ shown @ '', then install again.'')))
     | _ \<Rightarrow> None))"

end
