(* ===== verification/System_Actions.thy ===== *)
theory System_Actions
  imports Run_Context Module_Replacement
begin

text \<open>
  System actions (\<open>system_actions.py\<close>): the fixed table of Tactical functions with the parameters each takes, the registration of actions by
  modules, and the checks a call passes before anything is sent. The sending itself is in \<open>System_Marks\<close>. Which module calls is an input (\<open>caller_identity.py\<close>
  reads it from the interpreter's stack), and so is whether Tactical's task can be imported. A refusal ends the run, except where the caller is
  not the run's module, and leaves one deny row; a call without a run leaves at most one row in five minutes for each reason and caller. Single commands
  (\<open>system_commands.py\<close>) are left out: a command row is refused here as the wrong kind.
\<close>

section \<open>Parameters\<close>

definition no_parameters :: "pyval \<Rightarrow> pydict option" where
  "no_parameters v = (if truthy v then None else Some [])"

definition plain_item :: "pyval \<Rightarrow> bool" where
  "plain_item v = (case v of PStr s \<Rightarrow> length s \<le> 1000 \<and> list_all (\<lambda>c. 32 \<le> code c \<or> code c = 9) s | _ \<Rightarrow> False)"

definition bounded_text_list :: "pyval \<Rightarrow> pyval list option" where
  "bounded_text_list v = (case v of
     PNone \<Rightarrow> Some []
   | PList xs \<Rightarrow> if length xs \<le> 50 \<and> list_all plain_item xs then Some xs else None
   | _ \<Rightarrow> None)"

definition script_keys :: "string list" where
  "script_keys = [''script_pk'', ''args'', ''env_vars'', ''timeout'', ''run_as_user'', ''collector_all_output'', ''save_to_agent_note'']"

definition script_parameters :: "pyval \<Rightarrow> pydict option" where
  "script_parameters v = (case v of
     PDict d \<Rightarrow>
       if \<not> set (keys d) \<subseteq> set script_keys then None
       else (case (agent_number (get_or d ''script_pk'' PNone), get_or d ''timeout'' (PInt 90)) of
           (Some pk, PInt timeout) \<Rightarrow>
             if timeout < 1 \<or> 86400 < timeout then None
             else (case (get_or d ''run_as_user'' (PBool False), get_or d ''collector_all_output'' (PBool False), get_or d ''save_to_agent_note'' (PBool False)) of
                 (PBool as_user, PBool all_output, PBool to_note) \<Rightarrow>
                   (case (bounded_text_list (get_or d ''args'' PNone), bounded_text_list (get_or d ''env_vars'' PNone)) of
                      (Some args, Some env_vars) \<Rightarrow>
                        Some [(''script_pk'', PInt pk), (''args'', PList args), (''env_vars'', PList env_vars), (''timeout'', PInt timeout),
                          (''run_as_user'', PBool as_user), (''collector_all_output'', PBool all_output), (''save_to_agent_note'', PBool to_note)]
                    | _ \<Rightarrow> None)
               | _ \<Rightarrow> None)
         | _ \<Rightarrow> None)
   | _ \<Rightarrow> None)"

definition write_actions :: "string list" where
  "write_actions = [''approve'', ''ignore'', ''nothing'']"

definition winupdate_parameters :: "pyval \<Rightarrow> pydict option" where
  "winupdate_parameters v = (case v of
     PDict d \<Rightarrow>
       if \<not> set (keys d) \<subseteq> {''allowed_actions''} then None
       else (case get_or d ''allowed_actions'' PNone of
           PList xs \<Rightarrow>
             if xs = [] \<or> length write_actions < length xs \<or> \<not> list_all (\<lambda>x. x \<in> set (map PStr write_actions)) xs \<or> \<not> distinct xs then None
             else Some [(''allowed_actions'', PList (filter (\<lambda>x. x \<in> set xs) (map PStr write_actions)))]
         | _ \<Rightarrow> None)
   | _ \<Rightarrow> None)"

section \<open>The table of functions\<close>

datatype action_kind = Kind_Task | Kind_Write | Kind_Command

record system_function =
  sf_key :: string
  sf_module_path :: string
  sf_function_name :: string
  sf_owner_module :: string
  sf_min_flags :: "string list"
  sf_takes_username :: bool
  sf_reapproves_by_policy :: bool
  sf_parameters :: "string list"
  sf_kind :: action_kind
  sf_replacement_only :: bool
  sf_callers :: "string list"

definition system_functions :: "(string, system_function) dict" where
  "system_functions =
     [(''winupdate.scan'', \<lparr>sf_key = ''winupdate.scan'', sf_module_path = ''winupdate.tasks'', sf_function_name = ''bulk_check_for_updates_task'',
         sf_owner_module = ''patching'', sf_min_flags = [''can_manage_winupdates'', ''can_run_bulk''], sf_takes_username = False, sf_reapproves_by_policy = False,
         sf_parameters = [], sf_kind = Kind_Task, sf_replacement_only = False, sf_callers = []\<rparr>),
      (''winupdate.install'', \<lparr>sf_key = ''winupdate.install'', sf_module_path = ''winupdate.tasks'', sf_function_name = ''bulk_install_updates_task'',
         sf_owner_module = ''patching'', sf_min_flags = [''can_manage_winupdates'', ''can_run_bulk''], sf_takes_username = False, sf_reapproves_by_policy = True,
         sf_parameters = [], sf_kind = Kind_Task, sf_replacement_only = False, sf_callers = []\<rparr>),
      (''scripts.run'', \<lparr>sf_key = ''scripts.run'', sf_module_path = ''scripts.tasks'', sf_function_name = ''bulk_script_task'',
         sf_owner_module = ''scriptexecution'', sf_min_flags = [''can_run_bulk'', ''can_run_scripts''], sf_takes_username = True, sf_reapproves_by_policy = False,
         sf_parameters = script_keys, sf_kind = Kind_Task, sf_replacement_only = False, sf_callers = []\<rparr>),
      (''winupdate.set_action'', \<lparr>sf_key = ''winupdate.set_action'', sf_module_path = ''winupdate.serializers'', sf_function_name = ''WinUpdateSerializer'',
         sf_owner_module = ''patching'', sf_min_flags = [''can_manage_winupdates''], sf_takes_username = False, sf_reapproves_by_policy = False,
         sf_parameters = [''allowed_actions''], sf_kind = Kind_Write, sf_replacement_only = True, sf_callers = []\<rparr>),
      (''agent.command'', \<lparr>sf_key = ''agent.command'', sf_module_path = ''agents.models'', sf_function_name = ''Agent'',
         sf_owner_module = ''remote-background'', sf_min_flags = [], sf_takes_username = False, sf_reapproves_by_policy = False,
         sf_parameters = [''allowed_templates'', ''template_hashes'', ''max_timeout''], sf_kind = Kind_Command, sf_replacement_only = False, sf_callers = [''communicator'']\<rparr>)]"

definition validate_parameters :: "system_function \<Rightarrow> pyval \<Rightarrow> pydict option" where
  "validate_parameters entry v =
     (if sf_key entry = ''scripts.run'' then script_parameters v
      else if sf_key entry = ''winupdate.set_action'' then winupdate_parameters v
      else no_parameters v)"

text \<open>The positional and keyword arguments of \<open>.delay\<close>.\<close>

definition build_call :: "system_function \<Rightarrow> int list \<Rightarrow> pydict \<Rightarrow> string \<Rightarrow> pyval list \<times> pydict" where
  "build_call entry ids cleaned username =
     (if sf_key entry = ''scripts.run'' then
        ([], [(''script_pk'', get_or cleaned ''script_pk'' PNone), (''agent_pks'', PList (map PInt ids)), (''args'', get_or cleaned ''args'' PNone),
          (''timeout'', get_or cleaned ''timeout'' PNone), (''username'', PStr (take 50 username)), (''run_as_user'', get_or cleaned ''run_as_user'' PNone),
          (''env_vars'', get_or cleaned ''env_vars'' PNone), (''custom_field_pk'', PNone), (''collector_all_output'', get_or cleaned ''collector_all_output'' PNone),
          (''save_to_agent_note'', get_or cleaned ''save_to_agent_note'' PNone)])
      else ([PList (map PInt ids)], []))"

section \<open>Registering an action\<close>

record sa_plugin = rp_plugin +
  sap_system_actions :: "string list"

record action_env =
  ax_context :: context_env
  ax_plugins :: "sa_plugin list option"
  ax_modules :: ms_world
  ax_tp :: tp_world
  ax_task_available :: "system_function \<Rightarrow> bool"
  ax_writer_available :: bool
  ax_update_agents :: "int list \<Rightarrow> (int, int) dict option"
  ax_now :: moment

record sa_definition =
  df_id :: string
  df_module_id :: string
  df_label :: string
  df_function :: string
  df_permissions :: "string list"
  df_dangerous :: bool
  df_username_param :: "string option"
  df_via_replacement :: bool
  df_delegable_to :: "string list"

type_synonym sa_registry = "(string, sa_definition) dict"

record sa_request =
  rq_id :: pyval
  rq_module_id :: pyval
  rq_label :: pyval
  rq_function :: pyval
  rq_permissions :: pyval
  rq_scope_kind :: pyval
  rq_dangerous :: pyval
  rq_username_param :: pyval
  rq_delegable_to :: pyval

datatype action_reg_error =
    Unknown_Function | Module_Required | Bad_Action_Id | Bad_Label | Bad_Scope_Kind | Bad_Dangerous | Bad_Username_Param | Takes_No_Username
  | Bad_Permissions | Too_Many_Permissions | Flags_Missing | Plugins_Unreadable | Not_Installed | Must_Be_Dangerous | Not_Delegable
  | Bad_Delegable_To | Replacement_Only | Not_Honoured | Not_The_Owner | Not_Core | Not_In_Manifest | State_Unknown | Module_Off | Other_Definition

definition id_word :: "string \<Rightarrow> bool" where
  "id_word s = (s \<noteq> [] \<and> length s \<le> 64 \<and> (is_lower_ascii (hd s) \<or> is_digit (hd s)) \<and>
     list_all (\<lambda>c. is_lower_ascii c \<or> is_digit c \<or> c = CHR ''_'' \<or> c = CHR ''-'') s)"

definition action_id_re :: "string \<Rightarrow> bool" where
  "action_id_re s = (case partition_on CHR ''.'' s of None \<Rightarrow> False | Some (a, b) \<Rightarrow> id_word a \<and> id_word b)"

definition param_re :: "string \<Rightarrow> bool" where
  "param_re s = (s \<noteq> [] \<and> length s \<le> 40 \<and> is_lower_ascii (hd s) \<and> list_all flag_char s)"

definition permission_flag :: "role_fields \<Rightarrow> pyval \<Rightarrow> string option" where
  "permission_flag flds v = (case v of
     PStr f \<Rightarrow> if tactical_entry_re f \<and> is_ok (validate_tactical_flag flds v) then Some f else None
   | _ \<Rightarrow> None)"

definition clean_permissions :: "role_fields \<Rightarrow> pyval \<Rightarrow> action_reg_error + string list" where
  "clean_permissions flds v = (case v of
     PList xs \<Rightarrow>
       if list_ex (\<lambda>x. permission_flag flds x = None) xs then Inl Bad_Permissions
       else (let flags = sort (dedup (List.map_filter (permission_flag flds) xs)) in if 8 < length flags then Inl Too_Many_Permissions else Inr flags)
   | _ \<Rightarrow> Inl Bad_Permissions)"

definition other_module :: "string \<Rightarrow> pyval \<Rightarrow> string option" where
  "other_module m v = (case v of PStr s \<Rightarrow> if id_word s \<and> s \<noteq> m then Some s else None | _ \<Rightarrow> None)"

definition clean_delegable_to :: "pyval \<Rightarrow> string \<Rightarrow> action_reg_error + string list" where
  "clean_delegable_to v m = (case v of
     PNone \<Rightarrow> Inr []
   | PList xs \<Rightarrow>
       if list_ex (\<lambda>x. other_module m x = None) xs then Inl Bad_Delegable_To
       else (let out = sort (dedup (List.map_filter (other_module m) xs)) in if 5 < length out then Inl Bad_Delegable_To else Inr out)
   | _ \<Rightarrow> Inl Bad_Delegable_To)"

definition registered_plugin :: "action_env \<Rightarrow> string \<Rightarrow> action_reg_error + sa_plugin" where
  "registered_plugin ax m = (case ax_plugins ax of None \<Rightarrow> Inl Plugins_Unreadable
     | Some ps \<Rightarrow> (case find (\<lambda>p. pl_id p = m) ps of None \<Rightarrow> Inl Not_Installed
         | Some p \<Rightarrow> if \<not> pl_extension p \<or> pl_legacy p then Inl Not_Installed else Inr p))"

definition action_module_enabled :: "action_env \<Rightarrow> string \<Rightarrow> bool option" where
  "action_module_enabled ax m = (case load_state (ax_modules ax) of Inl _ \<Rightarrow> None | Inr state \<Rightarrow> Some (is_enabled m state))"

definition honoured_now :: "action_env \<Rightarrow> string \<Rightarrow> string option" where
  "honoured_now ax m = (case (ax_plugins ax, load_state (ax_modules ax)) of
     (Some ps, Inr state) \<Rightarrow> honoured_replacement (ax_tp ax) (live_model (map rp_plugin.truncate ps) state) m
   | _ \<Rightarrow> None)"

text \<open>Who may register a row: the module that owns it, when it is a core module, or the module that honourably replaces the owner.\<close>

definition registrar_check :: "action_env \<Rightarrow> system_function \<Rightarrow> string \<Rightarrow> sa_plugin \<Rightarrow> action_reg_error + bool" where
  "registrar_check ax entry m plugin =
     (if sf_replacement_only entry \<and> m = sf_owner_module entry then Inl Replacement_Only
      else if m \<noteq> sf_owner_module entry then
        (if honoured_now ax m = Some (sf_owner_module entry) then Inr True
         else if pl_replaces plugin = sf_owner_module entry then Inl Not_Honoured else Inl Not_The_Owner)
      else if effective_category (PStr (pl_category plugin)) \<noteq> ''core'' then Inl Not_Core
      else Inr False)"

definition username_check :: "system_function \<Rightarrow> pyval \<Rightarrow> action_reg_error + string option" where
  "username_check entry v = (case v of
     PNone \<Rightarrow> Inr None
   | PStr s \<Rightarrow> if \<not> param_re s then Inl Bad_Username_Param else if \<not> sf_takes_username entry then Inl Takes_No_Username else Inr (Some s)
   | _ \<Rightarrow> Inl Bad_Username_Param)"

definition strict_kind_check :: "system_function \<Rightarrow> bool \<Rightarrow> pyval \<Rightarrow> string \<Rightarrow> action_reg_error + unit" where
  "strict_kind_check entry dangerous delegable_to m =
     (if sf_kind entry \<in> {Kind_Write, Kind_Command} then
        rcheck (\<not> dangerous) Must_Be_Dangerous (rbind (clean_delegable_to delegable_to m) (\<lambda>out. rcheck (out \<noteq> []) Not_Delegable (Inr ())))
      else Inr ())"

fun str_arg :: "pyval \<Rightarrow> string" where
  "str_arg (PStr s) = s"
| "str_arg _ = []"

definition label_ok :: "pyval \<Rightarrow> bool" where
  "label_ok v = (case v of PStr s \<Rightarrow> strip s \<noteq> [] \<and> length s \<le> 100 \<and> list_all is_printable s | _ \<Rightarrow> False)"

definition build_definition :: "action_env \<Rightarrow> sa_request \<Rightarrow> action_reg_error + sa_definition" where
  "build_definition ax rq =
     (let action_id = str_arg (rq_id rq); m = str_arg (rq_module_id rq) in
      case dget system_functions (str_arg (rq_function rq)) of None \<Rightarrow> Inl Unknown_Function
    | Some entry \<Rightarrow>
        rcheck (m = []) Module_Required
       (rcheck (\<not> action_id_re action_id \<or> \<not> startswith action_id (m @ ''.'')) Bad_Action_Id
       (rcheck (\<not> label_ok (rq_label rq)) Bad_Label
       (rcheck (rq_scope_kind rq \<noteq> PStr ''agents'') Bad_Scope_Kind
       (rcheck (\<not> is_bool (rq_dangerous rq)) Bad_Dangerous
       (rbind (username_check entry (rq_username_param rq)) (\<lambda>username_param.
        rbind (clean_permissions (cx_fields (ax_context ax)) (rq_permissions rq)) (\<lambda>flags.
        rcheck (\<not> set (sf_min_flags entry) \<subseteq> set flags) Flags_Missing
       (rbind (registered_plugin ax m) (\<lambda>plugin.
        rbind (strict_kind_check entry (truthy (rq_dangerous rq)) (rq_delegable_to rq) m) (\<lambda>_.
        rbind (registrar_check ax entry m plugin) (\<lambda>via.
        rcheck (action_id \<notin> set (sap_system_actions plugin)) Not_In_Manifest
       (case action_module_enabled ax m of None \<Rightarrow> Inl State_Unknown
        | Some False \<Rightarrow> Inl Module_Off
        | Some True \<Rightarrow> rbind (clean_delegable_to (rq_delegable_to rq) m) (\<lambda>delegable.
            Inr \<lparr>df_id = action_id, df_module_id = m, df_label = strip (str_arg (rq_label rq)), df_function = sf_key entry, df_permissions = flags,
              df_dangerous = truthy (rq_dangerous rq), df_username_param = username_param, df_via_replacement = via, df_delegable_to = delegable\<rparr>))))))))))))))"

datatype reg_result = Not_Registered | Action_Registered sa_definition

definition register_system_action :: "action_env \<Rightarrow> sa_request \<Rightarrow> sa_registry \<Rightarrow> action_reg_error + reg_result \<times> sa_registry" where
  "register_system_action ax rq rg = (case build_definition ax rq of
     Inl Not_Honoured \<Rightarrow> Inr (Not_Registered, rg)
   | Inl e \<Rightarrow> Inl e
   | Inr d \<Rightarrow> (case dget rg (df_id d) of
       Some previous \<Rightarrow> if previous = d then Inr (Action_Registered previous, rg) else Inl Other_Definition
     | None \<Rightarrow> Inr (Action_Registered d, dset (df_id d) d rg)))"

definition is_registered_system_action :: "sa_registry \<Rightarrow> string \<Rightarrow> string \<Rightarrow> bool" where
  "is_registered_system_action rg m action_id = (case dget rg action_id of None \<Rightarrow> False
     | Some d \<Rightarrow> (case dget system_functions (df_function d) of
         Some entry \<Rightarrow> if sf_kind entry = Kind_Command then m \<in> set (sf_callers entry) \<and> df_module_id d = sf_owner_module entry else df_module_id d = m
       | None \<Rightarrow> df_module_id d = m))"

definition declaring_module :: "string \<Rightarrow> string \<Rightarrow> string" where
  "declaring_module m action_id = (case dget system_functions ''agent.command'' of
     Some entry \<Rightarrow> if m \<in> set (sf_callers entry) \<and> action_id = sf_owner_module entry @ ''.command'' then sf_owner_module entry else m
   | None \<Rightarrow> m)"

end
