(* ===== verification/System_Calls.thy ===== *)
theory System_Calls
  imports System_Actions
begin

text \<open>
  A call of a system action (\<open>_run\<close> of \<open>system_actions.py\<close>, entered by \<open>run_system_action\<close> and \<open>run_system_write\<close>): every check in the order of the code,
  then the sending loop of \<open>System_Marks\<close>. The state of a call is the run's marks, status and sends with the deny rows and the throttle of unmatched
  refusals. What the checks read (the run and its schedule, accounts, plugins, the module state) is the state at the time of the call; the marks and the status
  are read again under the row lock by the loop.
\<close>

section \<open>Refusals\<close>

record deny_row =
  dn_reason :: string
  dn_run :: "nat option"
  dn_module :: "string option"
  dn_owner :: "nat option"
  dn_action :: "string option"

record call_state =
  cs_sends :: send_world
  cs_denied :: "deny_row list"
  cs_unmatched :: "(string \<times> string, moment) dict"

datatype call_result = Call_Refused string | Call_Sent send_result

definition unmatched_due :: "moment \<Rightarrow> string \<Rightarrow> string \<Rightarrow> (string \<times> string, moment) dict \<Rightarrow> bool \<times> (string \<times> string, moment) dict" where
  "unmatched_due now reason caller seen =
     (case dget seen (reason, caller) of
        Some seen_at \<Rightarrow> if 0 \<le> now - seen_at \<and> now - seen_at < seconds 300 then (False, seen)
          else (True, dset (reason, caller) now (if 128 \<le> length seen then [] else seen))
      | None \<Rightarrow> (True, dset (reason, caller) now (if 128 \<le> length seen then [] else seen)))"

definition safe_action_id :: "pyval \<Rightarrow> string option" where
  "safe_action_id v = (case v of PStr s \<Rightarrow> if action_id_re s then Some s else None | _ \<Rightarrow> None)"

definition keep_run_reasons :: "string list" where
  "keep_run_reasons = [''caller_unverified'', ''wrong_module'']"

text \<open>A refusal is its reason with the run it belongs to (its number, its module and the person behind it), if there is one.\<close>

type_synonym refusal = "string \<times> (nat \<times> string \<times> nat option) option"

definition refuse :: "action_env \<Rightarrow> string option \<Rightarrow> pyval \<Rightarrow> refusal \<Rightarrow> call_state \<Rightarrow> call_result \<times> call_state" where
  "refuse ax caller action_id r cs = (case r of
     (reason, Some (i, m, owner)) \<Rightarrow>
       (Call_Refused reason, cs\<lparr>cs_sends := (if reason \<in> set keep_run_reasons then cs_sends cs else end_run ''skipped'' (cs_sends cs)),
          cs_denied := cs_denied cs @ [\<lparr>dn_reason = reason, dn_run = Some i, dn_module = text_option (take 100 m), dn_owner = owner, dn_action = safe_action_id action_id\<rparr>]\<rparr>)
   | (reason, None) \<Rightarrow>
       (case unmatched_due (ax_now ax) reason (case caller of None \<Rightarrow> [] | Some c \<Rightarrow> c) (cs_unmatched cs) of
          (False, seen) \<Rightarrow> (Call_Refused reason, cs\<lparr>cs_unmatched := seen\<rparr>)
        | (True, seen) \<Rightarrow> (Call_Refused reason, cs\<lparr>cs_unmatched := seen,
            cs_denied := cs_denied cs @ [\<lparr>dn_reason = reason, dn_run = None, dn_module = None, dn_owner = None, dn_action = safe_action_id action_id\<rparr>]\<rparr>)))"

section \<open>The checks\<close>

definition declared_now :: "action_env \<Rightarrow> string \<Rightarrow> string \<Rightarrow> bool" where
  "declared_now ax m action_id = (case ax_plugins ax of None \<Rightarrow> False
     | Some ps \<Rightarrow> (case find (\<lambda>p. pl_id p = m) ps of None \<Rightarrow> False | Some p \<Rightarrow> action_id \<in> set (sap_system_actions p)))"

definition is_module_target :: "pyval \<Rightarrow> bool" where
  "is_module_target targets = (case tactical_scope_ref targets of Inl _ \<Rightarrow> True | Inr (k, _) \<Rightarrow> k = ''module'')"

text \<open>(1) a context of a run that is still going. The run's module and action are what the context must be for.\<close>

definition matched_run :: "action_env \<Rightarrow> sched_world \<Rightarrow> nat option \<Rightarrow> refusal + sched_run \<times> verified_run" where
  "matched_run ax w issued = (case Option.bind issued (get_run w) of
     None \<Rightarrow> Inl (''context_invalid'', None)
   | Some r \<Rightarrow> if cx_read_fails (ax_context ax) then Inl (''context_invalid'', None) else
       (case verify_run_context (ax_context ax) w issued (PStr (rn_module_id r)) (PStr (rn_action_id r)) False of
          Inl e \<Rightarrow> Inl (if e = Owner_Refused then ''owner_refused'' else ''context_invalid'', Some (rn_id r, rn_module_id r, None))
        | Inr v \<Rightarrow> Inr (r, v)))"

text \<open>(3) the action: registered by the calling module, declared in its manifest, of the kind of the call, its module on and, for a replacement, honoured.\<close>

definition action_check :: "action_env \<Rightarrow> sa_registry \<Rightarrow> sched_run \<Rightarrow> string \<Rightarrow> pyval \<Rightarrow> bool \<Rightarrow> string + sa_definition \<times> system_function" where
  "action_check ax rg r caller action_id writing =
     (case (case action_id of PStr a \<Rightarrow> dget rg a | _ \<Rightarrow> None) of
        None \<Rightarrow> Inl ''unknown_action''
      | Some d \<Rightarrow>
          (let called = dget system_functions (df_function d);
               command = (case called of Some e \<Rightarrow> sf_kind e = Kind_Command | None \<Rightarrow> False);
               callers = (case called of Some e \<Rightarrow> sf_callers e | None \<Rightarrow> []) in
           if command \<and> (action_id \<noteq> PStr (rn_action_id r) \<or> caller \<notin> set callers \<or> \<not> is_registered_system_action rg caller (str_arg action_id)) then Inl ''wrong_module''
           else if \<not> command \<and> df_module_id d \<noteq> caller then Inl ''wrong_module''
           else if \<not> declared_now ax (df_module_id d) (df_id d) then Inl ''action_not_declared''
           else (case called of
               None \<Rightarrow> Inl ''function_unavailable''
             | Some entry \<Rightarrow>
                 if sf_kind entry \<noteq> (if writing then Kind_Write else Kind_Task) then Inl ''wrong_kind''
                 else if action_module_enabled ax (df_module_id d) \<noteq> Some True then Inl ''module_disabled''
                 else if df_via_replacement d \<and> honoured_now ax (df_module_id d) \<noteq> Some (sf_owner_module entry) then Inl ''replacement_not_honoured''
                 else Inr (d, entry))))"

text \<open>(4) the person, read again unless the run is unattended.\<close>

definition owner_check :: "context_env \<Rightarrow> verified_run \<Rightarrow> sa_definition \<Rightarrow> system_function \<Rightarrow> string + account option" where
  "owner_check cx v d entry =
     (if vr_unattended v then Inr None
      else (case owner_now cx v of
          Inl _ \<Rightarrow> Inl ''owner_inactive''
        | Inr acc \<Rightarrow>
            if u_installer acc then Inl ''owner_inactive''
            else if list_all (\<lambda>flag. owner_has_flag cx v (PStr flag)) (sf_min_flags entry @ df_permissions d) then Inr (Some acc)
            else Inl ''permission_lost''))"

text \<open>(5) only the parameters the person confirmed.\<close>

definition confirmed_parameters :: "sched_run \<Rightarrow> pyval" where
  "confirmed_parameters r = get_or (dict_of (rn_parameters r)) ''system_action_parameters'' PNone"

definition parameter_check :: "sched_run \<Rightarrow> system_function \<Rightarrow> pyval \<Rightarrow> string + pydict" where
  "parameter_check r entry given =
     (let confirmed = confirmed_parameters r; nothing = (\<lambda>v. v = PNone \<or> v = PDict []) in
      if sf_parameters entry = [] then (if nothing given \<and> nothing confirmed then Inr [] else Inl ''bad_parameters'')
      else if \<not> nothing given \<and> \<not> py_eq given confirmed then Inl ''parameters_changed''
      else (case validate_parameters entry (if confirmed = PNone then PDict [] else confirmed) of None \<Rightarrow> Inl ''bad_parameters'' | Some cleaned \<Rightarrow> Inr cleaned))"

definition username_for :: "context_env \<Rightarrow> sched_world \<Rightarrow> sched_run \<Rightarrow> verified_run \<Rightarrow> account option \<Rightarrow> string" where
  "username_for cx w r v owner =
     (let creator = (case Option.bind (rn_schedule r) (get_schedule w) of None \<Rightarrow> [] | Some s \<Rightarrow> creator_name (cx_sched cx) s);
          own = (case owner of Some acc \<Rightarrow> acc_username acc
            | None \<Rightarrow> (case Option.bind (vr_user v) (en_person (cx_sched cx)) of None \<Rightarrow> [] | Some p \<Rightarrow> pe_username p)) in
      take 50 (if creator \<noteq> [] then creator else own))"

datatype call_items = Task_Call pyval pyval | Write_Call pyval

definition is_write :: "call_items \<Rightarrow> bool" where
  "is_write c = (case c of Task_Call _ _ \<Rightarrow> False | Write_Call _ \<Rightarrow> True)"

definition given_parameters :: "call_items \<Rightarrow> pyval" where
  "given_parameters c = (case c of Task_Call _ p \<Rightarrow> p | Write_Call _ \<Rightarrow> PNone)"

text \<open>(6) the endpoints: the numbers of the call, or the endpoints of the updates it names. The items are what is sent.\<close>

definition call_endpoints :: "action_env \<Rightarrow> pydict \<Rightarrow> call_items \<Rightarrow> string + int list \<times> int list \<times> decisions option" where
  "call_endpoints ax cleaned c = (case c of
     Task_Call agents _ \<Rightarrow> rbind (agent_ids agents) (\<lambda>ids. Inr (ids, ids, None))
   | Write_Call changes \<Rightarrow>
       rbind (resolve_changes (List.map_filter text_of (list_of (get_or cleaned ''allowed_actions'' PNone))) (ax_update_agents ax) changes)
         (\<lambda>(d, ids). Inr (ids, sort (keys d), Some d)))"

definition scope_check :: "action_env \<Rightarrow> sched_run \<Rightarrow> verified_run \<Rightarrow> account option \<Rightarrow> int list \<Rightarrow> string + unit" where
  "scope_check ax r v owner ids =
     (let cx = ax_context ax; targets = py_or (rn_targets r) (PDict []) in
      if \<not> vr_unattended v \<and> \<not> agent_pks_in_role_scope (cx_directory cx) (map_option user_of owner) ids then Inl ''out_of_scope''
      else (case agent_pks_for_scheduler_targets (cx_directory cx) (en_actions (cx_sched cx)) (cx_resolvers cx) (Some (rn_module_id r)) targets of
          Inr (Some (pks, _)) \<Rightarrow>
            if \<not> set ids \<subseteq> set pks then Inl ''outside_targets''
            else if vr_unattended v \<and> is_module_target targets then
              (case vr_scope v of
                 None \<Rightarrow> Inl ''creation_scope_unavailable''
               | Some s \<Rightarrow> (case agent_rows_in_scope (cx_directory cx) (Some ids) (Some s) None (nat max_agents) of
                   Inl _ \<Rightarrow> Inl ''out_of_scope''
                 | Inr rows \<Rightarrow> if set (map er_pk rows) = set ids then Inr () else Inl ''out_of_scope''))
            else Inr ()
        | _ \<Rightarrow> Inl ''targets_unresolved''))"

record cleared_call =
  cc_definition :: sa_definition
  cc_entry :: system_function
  cc_verified :: verified_run
  cc_owner :: "account option"
  cc_cleaned :: pydict
  cc_username :: string
  cc_endpoints :: "int list"
  cc_items :: "int list"
  cc_decisions :: "decisions option"

definition with_run :: "sched_run \<Rightarrow> verified_run \<Rightarrow> string + 'a \<Rightarrow> refusal + 'a" where
  "with_run r v x = (case x of Inl reason \<Rightarrow> Inl (reason, Some (rn_id r, rn_module_id r, vr_user v)) | Inr a \<Rightarrow> Inr a)"

definition clear_call :: "action_env \<Rightarrow> sched_world \<Rightarrow> sa_registry \<Rightarrow> nat option \<Rightarrow> string option \<Rightarrow> pyval \<Rightarrow> call_items \<Rightarrow> refusal + cleared_call" where
  "clear_call ax w rg issued caller action_id c =
     rbind (matched_run ax w issued) (\<lambda>(r, v). with_run r v (
       rcheck (vr_user v = None \<and> \<not> (vr_unattended v \<and> vr_creator v \<noteq> None)) ''no_owner''
      (case caller of None \<Rightarrow> Inl ''caller_unverified''
       | Some m \<Rightarrow> rcheck (m \<noteq> vr_module_id v) ''wrong_module''
      (rbind (action_check ax rg r m action_id (is_write c)) (\<lambda>(d, entry).
       rbind (owner_check (ax_context ax) v d entry) (\<lambda>owner.
       rbind (parameter_check r entry (given_parameters c)) (\<lambda>cleaned.
       let username = username_for (ax_context ax) w r v owner in
       rcheck (sf_takes_username entry \<and> username = []) ''no_owner''
      (rbind (call_endpoints ax cleaned c) (\<lambda>(ids, items, dec).
       rbind (scope_check ax r v owner ids) (\<lambda>_.
       rcheck (\<not> (if is_write c then ax_writer_available ax else ax_task_available ax entry)) ''function_unavailable''
      (Inr \<lparr>cc_definition = d, cc_entry = entry, cc_verified = v, cc_owner = owner, cc_cleaned = cleaned,
          cc_username = (if sf_takes_username entry then username else []), cc_endpoints = ids, cc_items = items, cc_decisions = dec\<rparr>)))))))))))"

text \<open>The whole call. A refusal of the loop (the limit of marks, changed decisions) leaves a deny row like every other.\<close>

definition run_call :: "(string \<Rightarrow> string) \<Rightarrow> action_env \<Rightarrow> sched_world \<Rightarrow> sa_registry \<Rightarrow> nat option \<Rightarrow> string option \<Rightarrow> pyval \<Rightarrow> call_items \<Rightarrow>
    (nat \<Rightarrow> group_fate) \<Rightarrow> call_state \<Rightarrow> call_result \<times> call_state" where
  "run_call sha ax w rg issued caller action_id c fates cs = (case clear_call ax w rg issued caller action_id c of
     Inl r \<Rightarrow> refuse ax caller action_id r cs
   | Inr k \<Rightarrow>
       (case send_items sha (show_nat (vr_run_id (cc_verified k))) (df_id (cc_definition k)) (cc_items k) (cc_decisions k) fates (cs_sends cs) of
          (Action_Refused reason, s) \<Rightarrow>
            (Call_Refused reason, cs\<lparr>cs_sends := s, cs_denied := cs_denied cs @ [\<lparr>dn_reason = reason, dn_run = Some (vr_run_id (cc_verified k)),
               dn_module = text_option (take 100 (vr_module_id (cc_verified k))), dn_owner = vr_user (cc_verified k), dn_action = safe_action_id action_id\<rparr>]\<rparr>)
        | (res, s) \<Rightarrow> (Call_Sent res, cs\<lparr>cs_sends := s\<rparr>)))"

definition run_system_action :: "(string \<Rightarrow> string) \<Rightarrow> action_env \<Rightarrow> sched_world \<Rightarrow> sa_registry \<Rightarrow> nat option \<Rightarrow> string option \<Rightarrow> pyval \<Rightarrow> pyval \<Rightarrow> pyval \<Rightarrow>
    (nat \<Rightarrow> group_fate) \<Rightarrow> call_state \<Rightarrow> call_result \<times> call_state" where
  "run_system_action sha ax w rg issued caller action_id agents parameters fates cs = run_call sha ax w rg issued caller action_id (Task_Call agents parameters) fates cs"

definition run_system_write :: "(string \<Rightarrow> string) \<Rightarrow> action_env \<Rightarrow> sched_world \<Rightarrow> sa_registry \<Rightarrow> nat option \<Rightarrow> string option \<Rightarrow> pyval \<Rightarrow> pyval \<Rightarrow>
    (nat \<Rightarrow> group_fate) \<Rightarrow> call_state \<Rightarrow> call_result \<times> call_state" where
  "run_system_write sha ax w rg issued caller action_id changes fates cs = run_call sha ax w rg issued caller action_id (Write_Call changes) fates cs"

end
