(* ===== verification/System_Guarantees.thy ===== *)
theory System_Guarantees
  imports System_Calls
begin

text \<open>
  What the checks of system actions guarantee: a call that sends anything was allowed in every respect, a refused call sends nothing and says so once, and
  every registered action keeps the rules of its row.
\<close>

section \<open>What a call adds to the sends\<close>

lemma marks_keep_sends:
  "sw_sent (snd (claim_mark a d n w)) = sw_sent w" "sw_sent (snd (set_mark written a d state task w)) = sw_sent w" "sw_sent (end_run status w) = sw_sent w"
  "sw_sent (snd (claim_plan sha run a ids ds dec w)) = sw_sent w"
  by (auto simp: claim_mark_def set_mark_def end_run_def claim_plan_def Let_def split: option.split)

lemma send_groups_appends:
  "send_groups a fates i now before todo w = (res, w') \<Longrightarrow> \<exists>gs. sw_sent w' = sw_sent w @ map (Pair a) gs \<and> set gs \<subseteq> fst ` set todo"
proof (induction todo arbitrary: i now before w)
  case (Cons e todo)
  obtain g d where e: "e = (g, d)" by (cases e)
  obtain st w1 where c: "claim_mark a d (length g) w = (st, w1)" by (cases "claim_mark a d (length g) w")
  have s1: "sw_sent w1 = sw_sent w" using marks_keep_sends(1) [of a d "length g" w] c by simp
  have again: "\<exists>gs. sw_sent w' = sw_sent w @ map (Pair a) gs \<and> set gs \<subseteq> fst ` set (e # todo)"
    if s: "send_groups a fates j n b todo v = (res, w')" and v: "sw_sent v = sw_sent w \<or> sw_sent v = sw_sent w @ [(a, g)]" for j n b v
  proof -
    obtain gs where gs: "sw_sent w' = sw_sent v @ map (Pair a) gs" "set gs \<subseteq> fst ` set todo" using Cons.IH [OF s] by blast
    from v show ?thesis
    proof
      assume "sw_sent v = sw_sent w"
      then show ?thesis using gs by (intro exI [of _ gs]) auto
    next
      assume "sw_sent v = sw_sent w @ [(a, g)]"
      then show ?thesis using gs e by (intro exI [of _ "g # gs"]) auto
    qed
  qed
  have none: ?case if "sw_sent w' = sw_sent w" using that by (intro exI [of _ "[]"]) simp
  have one: ?case if "sw_sent w' = sw_sent w @ [(a, g)]" using that e by (intro exI [of _ "[g]"]) simp
  show ?case
  proof (cases "fates i = Stops_Before_Claim")
    case True
    then show ?thesis using Cons.prems e none by simp
  next
    case False
    note p = Cons.prems [unfolded e send_groups.simps c] False
    show ?thesis
    proof (cases st)
      case Mark_Sent
      then show ?thesis using p again [OF _ disjI1 [OF s1]] by auto
    next
      case Mark_Claimed
      show ?thesis
      proof (cases "fates i")
        case (Goes_Out written task)
        let ?v = "snd (set_mark written a d ''sent'' (take 80 task) (log_send a g w1))"
        have "sw_sent ?v = sw_sent w @ [(a, g)]" using s1 by (simp add: marks_keep_sends log_send_def)
        then show ?thesis using p Mark_Claimed Goes_Out again by auto
      qed (use p Mark_Claimed s1 none one in \<open>auto simp: marks_keep_sends log_send_def\<close>)
    qed (use p s1 none in \<open>auto simp: marks_keep_sends\<close>)
  qed
qed auto

lemma cut_members: "g \<in> set (cut n xs) \<Longrightarrow> set g \<subseteq> set xs"
proof -
  assume g: "g \<in> set (cut n xs)"
  then have n: "0 < n" by (subst (asm) cut.simps) (auto split: if_splits)
  have "set (concat (cut n xs)) = set xs" using cut_facts [OF n, of xs] by simp
  then show ?thesis using g by auto
qed

lemma send_items_appends:
  assumes "send_items sha run a items dec fates w = (res, w')"
  shows "\<exists>gs. sw_sent w' = sw_sent w @ map (Pair a) gs \<and> (\<forall>g \<in> set gs. set g \<subseteq> set items)"
proof -
  let ?digests = "map (\<lambda>g. sha (group_text run a g dec)) (groups_of items)"
  obtain st p w1 where c: "claim_plan sha run a items ?digests dec w = ((st, p), w1)" by (metis prod.exhaust)
  have s1: "sw_sent w1 = sw_sent w" using marks_keep_sends(4) [of sha run a items ?digests dec w] c by simp
  have none: ?thesis if "sw_sent w' = sw_sent w" using that by (intro exI [of _ "[]"]) simp
  consider (still) "sw_sent w' = sw_sent w" | (groups) n stored where "send_groups a fates 0 0 0 (zip (cut n items) stored) w1 = (res, w')"
    using assms c s1 by (cases st; cases p) (auto simp: send_items_def Let_def marks_keep_sends split: if_splits)
  then show ?thesis
  proof cases
    case groups
    obtain gs where gs: "sw_sent w' = sw_sent w1 @ map (Pair a) gs" "set gs \<subseteq> fst ` set (zip (cut n items) stored)" using send_groups_appends [OF groups] by blast
    have "set g \<subseteq> set items" if "g \<in> set gs" for g using that gs(2) by (auto dest!: subsetD set_zip_leftD dest: cut_members)
    then show ?thesis using gs(1) s1 by auto
  qed (rule none)
qed

section \<open>What a cleared call has shown\<close>

lemma with_run_Inr: "with_run r v x = Inr a \<longleftrightarrow> x = Inr a"
  by (simp add: with_run_def split: sum.split)

lemma verify_facts:
  assumes "verify_run_context cx w issued (PStr m) (PStr a) req = Inr v"
  obtains i r s where "issued = Some i" "get_run w i = Some r" "rn_status r = Run_Running" "Option.bind (rn_schedule r) (get_schedule w) = Some s"
    "vr_module_id v = m" "vr_action_id v = a" "vr_scope v = normalize (cx_scopes cx (sc_id s))" "vr_run_id v = i"
proof -
  have ids: "m \<noteq> []" "a \<noteq> []" using assms by (auto simp: verify_run_context_def split: if_splits)
  obtain i where i: "issued = Some i" using assms ids by (cases issued) (simp_all add: verify_run_context_def)
  have ok: "\<not> cx_read_fails cx" using assms ids i by (cases "cx_read_fails cx") (simp_all add: verify_run_context_def)
  obtain r where r: "get_run w i = Some r" using assms ids i ok by (cases "get_run w i") (simp_all add: verify_run_context_def)
  have st: "rn_status r = Run_Running" using assms ids i ok r by (cases "rn_status r = Run_Running") (simp_all add: verify_run_context_def)
  obtain s where s: "Option.bind (rn_schedule r) (get_schedule w) = Some s"
    using assms ids i ok r st by (cases "Option.bind (rn_schedule r) (get_schedule w)") (simp_all add: verify_run_context_def)
  have "vr_module_id v = m \<and> vr_action_id v = a \<and> vr_scope v = normalize (cx_scopes cx (sc_id s)) \<and> vr_run_id v = i"
    using assms ids i ok r st s by (auto simp: verify_run_context_def Let_def rbind_Inr_iff split: if_splits prod.splits)
  then show ?thesis using i r st s that by blast
qed

lemma matched_run_facts:
  assumes "matched_run ax w issued = Inr (r, v)"
  shows "Option.bind issued (get_run w) = Some r \<and> rn_status r = Run_Running \<and> vr_module_id v = rn_module_id r \<and> vr_action_id v = rn_action_id r \<and>
    vr_scope v = Option.bind (Option.bind (rn_schedule r) (get_schedule w)) (\<lambda>s. normalize (cx_scopes (ax_context ax) (sc_id s)))"
proof -
  have r: "Option.bind issued (get_run w) = Some r" and v: "verify_run_context (ax_context ax) w issued (PStr (rn_module_id r)) (PStr (rn_action_id r)) False = Inr v"
    using assms by (auto simp: matched_run_def split: option.splits sum.splits if_splits)
  from v show ?thesis by (rule verify_facts) (use r in auto)
qed

lemma clear_call_steps:
  assumes "clear_call ax w rg issued caller action_id c = Inr k"
  obtains r where "matched_run ax w issued = Inr (r, cc_verified k)" and "caller = Some (vr_module_id (cc_verified k))"
    and "action_check ax rg r (vr_module_id (cc_verified k)) action_id (is_write c) = Inr (cc_definition k, cc_entry k)"
    and "owner_check (ax_context ax) (cc_verified k) (cc_definition k) (cc_entry k) = Inr (cc_owner k)"
    and "parameter_check r (cc_entry k) (given_parameters c) = Inr (cc_cleaned k)"
    and "call_endpoints ax (cc_cleaned k) c = Inr (cc_endpoints k, cc_items k, cc_decisions k)"
    and "scope_check ax r (cc_verified k) (cc_owner k) (cc_endpoints k) = Inr ()"
proof -
  from assms obtain r v where m: "matched_run ax w issued = Inr (r, v)" by (auto simp: clear_call_def rbind_Inr_iff)
  then show ?thesis using assms that [of r]
    by (auto simp: clear_call_def with_run_Inr rbind_Inr_iff rcheck_Inr_iff Let_def split: option.splits prod.splits)
qed

lemma flag_held: "owner_has_flag cx v (PStr f) \<Longrightarrow> owner_now cx v = Inr acc \<Longrightarrow> flag_answer (user_of acc) f"
  by (auto simp: owner_has_flag_def has_tactical_permission_def tactical_permission_flags_def rbind_Inr_iff get_or_def validate_tactical_flag_def
      split: sum.splits if_splits option.splits)

text \<open>The person behind a call that is not unattended: active, no installer, with every flag of the row and of the registration, and able to see every endpoint.\<close>

definition person_allows :: "action_env \<Rightarrow> verified_run \<Rightarrow> sa_definition \<Rightarrow> system_function \<Rightarrow> int list \<Rightarrow> bool" where
  "person_allows ax v d entry ids \<longleftrightarrow> (\<exists>acc pks. owner_now (ax_context ax) v = Inr acc \<and> acc_active acc \<and> \<not> u_installer acc \<and>
     (\<forall>f \<in> set (sf_min_flags entry) \<union> set (df_permissions d). flag_answer (user_of acc) f) \<and>
     td_visible (cx_directory (ax_context ax)) (user_of acc) = Some pks \<and> set ids \<subseteq> set pks)"

definition action_allowed :: "action_env \<Rightarrow> sa_registry \<Rightarrow> string \<Rightarrow> string \<Rightarrow> sa_definition \<Rightarrow> system_function \<Rightarrow> bool" where
  "action_allowed ax rg a caller d entry \<longleftrightarrow> dget rg a = Some d \<and> df_module_id d = caller \<and> dget system_functions (df_function d) = Some entry \<and>
     declared_now ax caller (df_id d) \<and> action_module_enabled ax caller = Some True \<and> (df_via_replacement d \<longrightarrow> honoured_now ax caller = Some (sf_owner_module entry))"

definition targets_allow :: "action_env \<Rightarrow> sched_run \<Rightarrow> verified_run \<Rightarrow> int list \<Rightarrow> bool" where
  "targets_allow ax r v ids \<longleftrightarrow> (let cx = ax_context ax; targets = py_or (rn_targets r) (PDict []) in
     (\<exists>pks n. agent_pks_for_scheduler_targets (cx_directory cx) (en_actions (cx_sched cx)) (cx_resolvers cx) (Some (rn_module_id r)) targets = Inr (Some (pks, n)) \<and> set ids \<subseteq> set pks) \<and>
     (vr_unattended v \<and> is_module_target targets \<longrightarrow>
       (\<exists>s. vr_scope v = Some s \<and> (\<forall>i \<in> set ids. \<exists>a \<in> set (td_agents (cx_directory cx)). ag_pk a = i \<and> snapshot_covers s (client_of (cx_directory cx) a) (ag_site a)))))"

lemma action_check_allowed:
  assumes "action_check ax rg r caller action_id writing = Inr (d, entry)"
  shows "\<exists>a. action_id = PStr a \<and> action_allowed ax rg a caller d entry \<and> sf_kind entry = (if writing then Kind_Write else Kind_Task)"
proof -
  obtain a where a: "action_id = PStr a" "dget rg a = Some d" using assms
    by (cases action_id) (auto simp: action_check_def Let_def split: option.splits if_splits)
  then obtain e where e: "dget system_functions (df_function d) = Some e" using assms
    by (cases "dget system_functions (df_function d)") (auto simp: action_check_def Let_def split: if_splits)
  show ?thesis using assms unfolding action_check_def a e
    by (auto simp: a e action_allowed_def Let_def split: if_splits)
qed

lemma owner_check_allows:
  assumes "owner_check (ax_context ax) v d entry = Inr owner" and "scope_check ax r v owner ids = Inr ()" and "\<not> vr_unattended v"
  shows "person_allows ax v d entry ids"
proof -
  obtain acc where acc: "owner_now (ax_context ax) v = Inr acc" "owner = Some acc" "\<not> u_installer acc"
    "list_all (\<lambda>flag. owner_has_flag (ax_context ax) v (PStr flag)) (sf_min_flags entry @ df_permissions d)"
    using assms(1,3) by (auto simp: owner_check_def split: sum.splits if_splits)
  have "acc_active acc" using acc(1) by (auto simp: owner_now_def split: option.splits if_splits)
  moreover have "agent_pks_in_role_scope (cx_directory (ax_context ax)) (Some (user_of acc)) ids"
    using assms(2,3) acc(2) by (auto simp: scope_check_def Let_def split: if_splits)
  then have "\<exists>pks. td_visible (cx_directory (ax_context ax)) (user_of acc) = Some pks \<and> set ids \<subseteq> set pks"
    by (auto simp: agent_pks_in_role_scope_def scope_queryset_def list_all_iff split: option.splits sum.splits)
  ultimately show ?thesis using acc flag_held [OF _ acc(1)] by (auto simp: person_allows_def list_all_iff)
qed

lemma scope_check_allows:
  assumes "scope_check ax r v owner ids = Inr ()"
  shows "targets_allow ax r v ids"
proof -
  let ?d = "cx_directory (ax_context ax)" and ?targets = "py_or (rn_targets r) (PDict [])"
  obtain pks n where pks: "agent_pks_for_scheduler_targets ?d (en_actions (cx_sched (ax_context ax))) (cx_resolvers (ax_context ax)) (Some (rn_module_id r)) ?targets = Inr (Some (pks, n))"
    "set ids \<subseteq> set pks"
    using assms by (auto simp: scope_check_def Let_def split: if_splits sum.splits option.splits)
  have "\<exists>s. vr_scope v = Some s \<and> (\<forall>i \<in> set ids. \<exists>a \<in> set (td_agents ?d). ag_pk a = i \<and> snapshot_covers s (client_of ?d a) (ag_site a))"
    if m: "vr_unattended v \<and> is_module_target ?targets"
  proof -
    obtain s rows where s: "vr_scope v = Some s" "agent_rows_in_scope ?d (Some ids) (Some s) None (nat max_agents) = Inr rows" "set (map er_pk rows) = set ids"
      using assms pks m by (auto simp: scope_check_def Let_def split: if_splits sum.splits option.splits)
    have "\<exists>a \<in> set (td_agents ?d). ag_pk a = i \<and> snapshot_covers s (client_of ?d a) (ag_site a)" if i: "i \<in> set ids" for i
    proof -
      obtain row where row: "row \<in> set rows" "er_pk row = i" using i s(3) by (metis imageE set_map)
      from s(2) row(1) obtain base a where a: "scope_base ?d (Some s) None = Inr base" "a \<in> set base" "row = endpoint_of ?d a" by (rule rows_in_scope)
      then have "a \<in> set (td_agents ?d) \<and> snapshot_covers s (client_of ?d a) (ag_site a)" by (auto simp: scope_base_def snapshot_covers_def split: if_splits)
      then show ?thesis using a(3) row(2) by (auto simp: endpoint_of_def)
    qed
    then show ?thesis using s(1) by blast
  qed
  then show ?thesis using pks by (auto simp: targets_allow_def Let_def)
qed

text \<open>The endpoint an item of a call stands for: the number itself, or the endpoint of the update.\<close>

definition endpoint_for :: "action_env \<Rightarrow> call_items \<Rightarrow> int list \<Rightarrow> int \<Rightarrow> int option" where
  "endpoint_for ax c items i = (case c of Task_Call _ _ \<Rightarrow> Some i | Write_Call _ \<Rightarrow> Option.bind (ax_update_agents ax items) (\<lambda>agents. dget agents i))"

lemma items_have_endpoints:
  assumes "call_endpoints ax cleaned c = Inr (ids, items, dec)" and "i \<in> set items"
  shows "\<exists>e \<in> set ids. endpoint_for ax c items i = Some e"
proof (cases c)
  case (Task_Call agents given)
  then show ?thesis using assms by (auto simp: call_endpoints_def rbind_Inr_iff endpoint_for_def)
next
  case (Write_Call changes)
  let ?allowed = "List.map_filter text_of (list_of (get_or cleaned ''allowed_actions'' PNone))"
  obtain d where d: "resolve_changes ?allowed (ax_update_agents ax) changes = Inr (d, ids)" "items = sort (keys d)"
    using assms(1) Write_Call by (auto simp: call_endpoints_def rbind_Inr_iff)
  then obtain agents where a: "ax_update_agents ax items = Some agents" "set (keys agents) = set (keys d)" "ids = sort (dedup (map snd agents))"
    by (auto simp: resolve_changes_def split: pyval.splits if_splits option.splits)
  have "i \<in> set (keys agents)" using assms(2) d(2) a(2) by simp
  then obtain e where e: "dget agents i = Some e" by (auto simp: keys_def map_of_eq_None_iff dest: weak_map_of_SomeI) 
  then have "e \<in> set ids" using a(3) by (force dest: map_of_SomeD)
  then show ?thesis using Write_Call a(1) e by (simp add: endpoint_for_def)
qed

lemma refuse_facts:
  assumes "refuse ax caller action_id q cs = (res, cs')"
  shows "sw_sent (cs_sends cs') = sw_sent (cs_sends cs) \<and> sw_marks (cs_sends cs') = sw_marks (cs_sends cs) \<and> res = Call_Refused (fst q) \<and>
    (fst q \<in> set keep_run_reasons \<longrightarrow> cs_sends cs' = cs_sends cs) \<and>
    (\<exists>rows. cs_denied cs' = cs_denied cs @ rows \<and> length rows \<le> 1 \<and> (\<forall>row \<in> set rows. dn_reason row = fst q) \<and>
      (snd q \<noteq> None \<longrightarrow> length rows = 1 \<and> (fst q \<notin> set keep_run_reasons \<longrightarrow> sw_status (cs_sends cs') \<noteq> ''running'')))"
  using assms by (auto simp: refuse_def end_run_def split: prod.splits option.splits bool.splits if_splits)

lemma run_call_sends:
  assumes "run_call sha ax w rg issued caller action_id c fates cs = (res, cs')"
  shows "sw_sent (cs_sends cs') = sw_sent (cs_sends cs) \<or>
    (\<exists>k gs. clear_call ax w rg issued caller action_id c = Inr k \<and> sw_sent (cs_sends cs') = sw_sent (cs_sends cs) @ map (Pair (df_id (cc_definition k))) gs \<and>
       (\<forall>g \<in> set gs. set g \<subseteq> set (cc_items k)))"
proof (cases "clear_call ax w rg issued caller action_id c")
  case (Inl q)
  then show ?thesis using assms refuse_facts [of ax caller action_id q cs res cs'] by (simp add: run_call_def)
next
  case (Inr k)
  obtain out s where s: "send_items sha (show_nat (vr_run_id (cc_verified k))) (df_id (cc_definition k)) (cc_items k) (cc_decisions k) fates (cs_sends cs) = (out, s)"
    by (metis prod.exhaust)
  then have "cs_sends cs' = s" using assms Inr by (auto simp: run_call_def split: send_result.splits)
  then show ?thesis using send_items_appends [OF s] Inr by auto
qed

text \<open>(C3) Nothing leaves Core without authority. Whenever a call hands a group to Tactical, the context was issued for a run that is still running, the
  calling module is the run's module and registered the action, its signed manifest still lists it, it is on and, as a replacement, honoured now; every
  endpoint of the group is one of the run's targets; and either the run is unattended, where a set of a module's own kind must lie in the scope
  stored with the schedule, or its owner is active, holds every flag and sees every endpoint now.\<close>

theorem sent_endpoints_were_authorized:
  assumes "run_call sha ax w rg issued caller action_id c fates cs = (res, cs')" and "(a, grp) \<in> set (drop (length (sw_sent (cs_sends cs))) (sw_sent (cs_sends cs')))"
  shows "\<exists>r v d entry ids items. matched_run ax w issued = Inr (r, v) \<and> Option.bind issued (get_run w) = Some r \<and> rn_status r = Run_Running \<and> caller = Some (rn_module_id r) \<and>
    (\<exists>name. action_id = PStr name \<and> action_allowed ax rg name (rn_module_id r) d entry) \<and> a = df_id d \<and>
    set grp \<subseteq> set items \<and> (\<forall>i \<in> set items. \<exists>e \<in> set ids. endpoint_for ax c items i = Some e) \<and>
    targets_allow ax r v ids \<and> (vr_unattended v \<or> person_allows ax v d entry ids)"
proof -
  from run_call_sends [OF assms(1)] assms(2) obtain k where k: "clear_call ax w rg issued caller action_id c = Inr k"
    and g: "a = df_id (cc_definition k)" "set grp \<subseteq> set (cc_items k)" by auto
  from k obtain r where r: "matched_run ax w issued = Inr (r, cc_verified k)" "caller = Some (vr_module_id (cc_verified k))"
    "action_check ax rg r (vr_module_id (cc_verified k)) action_id (is_write c) = Inr (cc_definition k, cc_entry k)"
    "owner_check (ax_context ax) (cc_verified k) (cc_definition k) (cc_entry k) = Inr (cc_owner k)"
    "call_endpoints ax (cc_cleaned k) c = Inr (cc_endpoints k, cc_items k, cc_decisions k)"
    "scope_check ax r (cc_verified k) (cc_owner k) (cc_endpoints k) = Inr ()" by (rule clear_call_steps) blast
  note m = matched_run_facts [OF r(1)]
  from action_check_allowed [OF r(3)] obtain name where n: "action_id = PStr name" "action_allowed ax rg name (rn_module_id r) (cc_definition k) (cc_entry k)" using m by auto
  show ?thesis
    using m r(1,2) n g items_have_endpoints [OF r(5)] scope_check_allows [OF r(6)] owner_check_allows [OF r(4,6)] by (intro exI [of _ r] exI [of _ "cc_verified k"]) blast
qed

lemma off_module_sends_nothing:
  assumes "action_module_enabled ax m \<noteq> Some True"
  shows "sw_sent (cs_sends (snd (run_call sha ax w rg issued (Some m) action_id c fates cs))) = sw_sent (cs_sends cs)"
proof -
  obtain res cs' where r: "run_call sha ax w rg issued (Some m) action_id c fates cs = (res, cs')" by (metis prod.exhaust)
  have "\<nexists>k. clear_call ax w rg issued (Some m) action_id c = Inr k"
  proof
    assume "\<exists>k. clear_call ax w rg issued (Some m) action_id c = Inr k"
    then obtain k where "clear_call ax w rg issued (Some m) action_id c = Inr k" by blast
    then show False by (rule clear_call_steps) (use assms in \<open>auto dest!: action_check_allowed simp: action_allowed_def\<close>)
  qed
  then show ?thesis using run_call_sends [OF r] r by auto
qed

lemma send_groups_no_refusal: "send_groups a fates i now before todo v \<noteq> (Action_Refused reason, v')"
  by (induction a fates i now before todo v rule: send_groups.induct) (auto simp: Let_def split: prod.split mark_state.split group_fate.split)

lemma send_items_refused:
  assumes "send_items sha run a items dec fates w = (Action_Refused reason, w')"
  shows "w' = end_run ''skipped'' w \<and> reason \<in> {''mark_limit'', ''decisions_changed''}"
proof -
  let ?digests = "map (\<lambda>g. sha (group_text run a g dec)) (groups_of items)"
  obtain st p w1 where c: "claim_plan sha run a items ?digests dec w = ((st, p), w1)" by (metis prod.exhaust)
  have "st \<noteq> Plan_New \<Longrightarrow> w1 = w" using c by (auto simp: claim_plan_def Let_def split: option.splits if_splits)
  then show ?thesis using assms c by (cases st; cases p) (auto simp: send_items_def Let_def send_groups_no_refusal split: if_splits)
qed

lemma refusal_has_run:
  assumes "clear_call ax w rg issued caller action_id c = Inl q" and "Option.bind issued (get_run w) \<noteq> None" and "\<not> cx_read_fails (ax_context ax)"
  shows "snd q \<noteq> None"
proof (cases "matched_run ax w issued")
  case (Inl q')
  then show ?thesis using assms by (auto simp: clear_call_def matched_run_def split: option.splits sum.splits if_splits)
next
  case (Inr rv)
  obtain r v where "rv = (r, v)" by (cases rv)
  then obtain x :: "string + cleared_call" where "with_run r v x = Inl q" using assms(1) Inr unfolding clear_call_def by (simp only: rbind.simps prod.case)
  then show ?thesis by (auto simp: with_run_def split: sum.splits)
qed


section \<open>Registered actions\<close>

definition sa_rules :: "sa_definition \<Rightarrow> bool" where
  "sa_rules d \<longleftrightarrow> (case dget system_functions (df_function d) of None \<Rightarrow> False
     | Some entry \<Rightarrow> action_id_re (df_id d) \<and> startswith (df_id d) (df_module_id d @ ''.'') \<and>
         set (sf_min_flags entry) \<subseteq> set (df_permissions d) \<and> length (df_permissions d) \<le> 8 \<and>
         (sf_kind entry \<noteq> Kind_Task \<longrightarrow> df_dangerous d \<and> df_delegable_to d = []) \<and>
         length (df_delegable_to d) \<le> 5 \<and> df_module_id d \<notin> set (df_delegable_to d) \<and>
         (df_via_replacement d \<longleftrightarrow> df_module_id d \<noteq> sf_owner_module entry) \<and> (sf_replacement_only entry \<longrightarrow> df_via_replacement d) \<and>
         (df_username_param d \<noteq> None \<longrightarrow> sf_takes_username entry))"

definition sa_registry_ok :: "sa_registry \<Rightarrow> bool" where
  "sa_registry_ok rg \<longleftrightarrow> (\<forall>a d. dget rg a = Some d \<longrightarrow> df_id d = a \<and> sa_rules d)"

definition sa_step :: "action_env \<times> sa_request \<Rightarrow> sa_registry \<Rightarrow> action_reg_error + sa_registry" where
  "sa_step i rg = rbind (register_system_action (fst i) (snd i) rg) (\<lambda>(_, rg'). Inr rg')"

fun register_all :: "(action_env \<times> sa_request) list \<Rightarrow> sa_registry \<Rightarrow> sa_registry" where
  "register_all [] rg = rg"
| "register_all (i # is) rg = (case sa_step i rg of Inl _ \<Rightarrow> register_all is rg | Inr rg' \<Rightarrow> register_all is rg')"

lemma table_keys: "dget system_functions k = Some entry \<Longrightarrow> sf_key entry = k"
  by (auto simp: system_functions_def split: if_splits)

lemma delegable_facts: "clean_delegable_to v m = Inr out \<Longrightarrow> length out \<le> 5 \<and> m \<notin> set out"
proof -
  assume c: "clean_delegable_to v m = Inr out"
  have "other_module m x \<noteq> Some m" for x by (auto simp: other_module_def split: pyval.splits)
  then show ?thesis using c by (auto simp: clean_delegable_to_def Let_def set_map_filter split: pyval.splits if_splits)
qed

lemma permission_facts: "clean_permissions flds v = Inr flags \<Longrightarrow> length flags \<le> 8"
  by (auto simp: clean_permissions_def Let_def split: pyval.splits if_splits)

lemma registrar_facts:
  "registrar_check ax entry m plugin = Inr via \<Longrightarrow> (via \<longleftrightarrow> m \<noteq> sf_owner_module entry) \<and> (sf_replacement_only entry \<longrightarrow> via)"
  by (auto simp: registrar_check_def split: if_splits)

lemma strict_facts: "strict_kind_check entry dangerous v m = Inr () \<Longrightarrow> sf_kind entry \<noteq> Kind_Task \<Longrightarrow> dangerous \<and> clean_delegable_to v m = Inr []"
  by (cases "sf_kind entry") (auto simp: strict_kind_check_def rcheck_Inr_iff rbind_Inr_iff)

lemma username_facts: "username_check entry v = Inr (Some s) \<Longrightarrow> sf_takes_username entry"
  by (auto simp: username_check_def split: pyval.splits if_splits)

lemma built_keeps_rules:
  assumes "build_definition ax rq = Inr d"
  shows "sa_rules d"
proof -
  obtain entry where e: "dget system_functions (str_arg (rq_function rq)) = Some entry" using assms by (auto simp: build_definition_def Let_def split: option.splits)
  let ?m = "str_arg (rq_module_id rq)"
  obtain flags plugin via name delegable where f: "action_id_re (str_arg (rq_id rq))" "startswith (str_arg (rq_id rq)) (?m @ ''.'')"
      "username_check entry (rq_username_param rq) = Inr name" "clean_permissions (cx_fields (ax_context ax)) (rq_permissions rq) = Inr flags"
      "set (sf_min_flags entry) \<subseteq> set flags" "strict_kind_check entry (truthy (rq_dangerous rq)) (rq_delegable_to rq) ?m = Inr ()"
      "registrar_check ax entry ?m plugin = Inr via" "clean_delegable_to (rq_delegable_to rq) ?m = Inr delegable"
    and d: "d = \<lparr>df_id = str_arg (rq_id rq), df_module_id = ?m, df_label = strip (str_arg (rq_label rq)), df_function = sf_key entry, df_permissions = flags,
       df_dangerous = truthy (rq_dangerous rq), df_username_param = name, df_via_replacement = via, df_delegable_to = delegable\<rparr>"
    using assms unfolding build_definition_def Let_def e by (auto simp: rcheck_Inr_iff rbind_Inr_iff split: option.splits bool.splits)
  then show ?thesis using table_keys [OF e] e delegable_facts [OF f(8)] permission_facts [OF f(4)] registrar_facts [OF f(7)] strict_facts [OF f(6)] username_facts
    by (cases name) (auto simp: sa_rules_def)
qed

lemma register_action_cases:
  assumes "register_system_action ax rq rg = Inr (res, rg')"
  shows "rg' = rg \<or> (\<exists>d. build_definition ax rq = Inr d \<and> dget rg (df_id d) = None \<and> rg' = dset (df_id d) d rg)"
  using assms by (auto simp: register_system_action_def split: sum.splits option.splits if_splits action_reg_error.splits)

interpretation action_table: guarded_machine sa_step sa_registry_ok
proof
  fix rg i rg'
  assume ok: "sa_registry_ok rg" and "sa_step i rg = Inr rg'"
  then obtain res where "register_system_action (fst i) (snd i) rg = Inr (res, rg')" by (auto simp: sa_step_def rbind_Inr_iff)
  from register_action_cases [OF this] show "sa_registry_ok rg'"
    using ok built_keeps_rules by (auto simp: sa_registry_ok_def AList.update_conv' split: if_splits)
qed

lemma register_all_run: "register_all is rg = action_table.run is rg"
  by (induction "is" arbitrary: rg) (simp_all split: sum.split)

lemma register_all_keeps: "dget rg a = Some d \<Longrightarrow> dget (register_all is rg) a = Some d"
proof (induction "is" arbitrary: rg)
  case (Cons i "is")
  have "dget rg' a = Some d" if s: "sa_step i rg = Inr rg'" for rg'
  proof -
    from s obtain res where "register_system_action (fst i) (snd i) rg = Inr (res, rg')" by (auto simp: sa_step_def rbind_Inr_iff)
    from register_action_cases [OF this] show ?thesis using Cons.prems by (auto simp: AList.update_conv')
  qed
  then show ?case using Cons by (auto split: sum.split)
qed simp

text \<open>Whatever modules try to register, every registered action keeps the rules of its row: its id lies under its module, it lists every flag the
  Tactical function needs, a write or a command is marked dangerous and delegated to nobody, only an honoured replacement holds what is reserved for one,
  and an action once registered is never replaced by another definition.\<close>

theorem registered_actions_keep_rules:
  "(dget (register_all reqs []) a = Some d \<longrightarrow> df_id d = a \<and> sa_rules d \<and> dget (register_all later (register_all reqs [])) a = Some d)"
proof -
  have "sa_registry_ok (register_all reqs [])" unfolding register_all_run by (rule action_table.run_inv) (simp add: sa_registry_ok_def)
  then show ?thesis using register_all_keeps by (auto simp: sa_registry_ok_def)
qed

definition patching_plugin :: sa_plugin where
  "patching_plugin = \<lparr>pl_id = ''patching'', pl_extension = True, pl_legacy = False, pl_name = ''Patching'', pl_category = ''core'', pl_replaces = [],
     pl_capabilities_declared = True, pl_capabilities = [], sap_system_actions = [''patching.scan'']\<rparr>"

definition patching_env :: action_env where
  "patching_env = \<lparr>ax_context = patch_context\<lparr>cx_fields := [(''can_manage_winupdates'', True), (''can_run_bulk'', True)]\<rparr>, ax_plugins = Some [patching_plugin],
     ax_modules = \<lparr>ms_file = File_Missing, ms_lock = Lock_Present, ms_disk_ok = True, ms_cache_epoch = 0\<rparr>,
     ax_tp = \<lparr>tp_config = None, tp_file = File_Missing, tp_helper = False, tp_commands = []\<rparr>, ax_task_available = (\<lambda>_. True), ax_writer_available = True,
     ax_update_agents = (\<lambda>_. None), ax_now = 0\<rparr>"

definition scan_request :: sa_request where
  "scan_request = \<lparr>rq_id = PStr ''patching.scan'', rq_module_id = PStr ''patching'', rq_label = PStr ''Scan'', rq_function = PStr ''winupdate.scan'',
     rq_permissions = PList [PStr ''can_run_bulk'', PStr ''can_manage_winupdates''], rq_scope_kind = PStr ''agents'', rq_dangerous = PBool False,
     rq_username_param = PNone, rq_delegable_to = PNone\<rparr>"

definition scan_definition :: sa_definition where
  "scan_definition = \<lparr>df_id = ''patching.scan'', df_module_id = ''patching'', df_label = ''Scan'', df_function = ''winupdate.scan'',
     df_permissions = [''can_manage_winupdates'', ''can_run_bulk''], df_dangerous = False, df_username_param = None, df_via_replacement = False, df_delegable_to = []\<rparr>"

lemma scan_registered: "register_all [(patching_env, scan_request)] [] = [(''patching.scan'', scan_definition)]"
  by code_simp

theorem registered_actions_keep_rules_witness: "sa_rules scan_definition \<and> dget (register_all [(patching_env, scan_request\<lparr>rq_label := PStr ''Other''\<rparr>)] [(''patching.scan'', scan_definition)]) ''patching.scan'' = Some scan_definition"
  using registered_actions_keep_rules [of "[(patching_env, scan_request)]" "''patching.scan''" scan_definition "[(patching_env, scan_request\<lparr>rq_label := PStr ''Other''\<rparr>)]"]
  unfolding scan_registered by simp

definition scan_action :: scheduled_action where
  "scan_action = \<lparr>ac_id = ''patching.scan'', ac_module_id = ''patching'', ac_label = ''Scan'', ac_handler = 0, ac_description = [], ac_target_types = [''endpoint''],
     ac_permission = None, ac_dangerous = False, ac_timeout_seconds = 900, ac_permission_any = [], ac_unattended = False\<rparr>"

definition scan_schedule :: schedule where
  "scan_schedule = \<lparr>sc_id = 3, sc_name = ''Scan'', sc_module_id = ''patching'', sc_action_id = ''patching.scan'', sc_target_mode = ''static'',
     sc_targets = PDict [], sc_target_state = [], sc_target_state_detail = [], sc_parameters = PDict [], sc_type = Daily, sc_timezone = ''UTC'', sc_run_at = None,
     sc_run_time = Some (7, 0), sc_weekdays = [], sc_day_of_month = None, sc_month_week = None, sc_month_weekday = None, sc_interval_seconds = None,
     sc_interval_anchor_at = None, sc_owner_type = Owner_Module, sc_owner_module = ''patching'', sc_owner_key = ''nightly'', sc_enabled = True, sc_paused_reason = [],
     sc_missed_policy = Missed_Skip, sc_missed_grace_minutes = 15, sc_concurrency_policy = Overlap_Skip, sc_retry_count = 0, sc_retry_delay_seconds = 0,
     sc_last_due_key = None, sc_last_run_at = None, sc_created_by = Some 1, sc_created_by_username = ''sam'', sc_updated_at = 0\<rparr>"

definition scan_run :: sched_run where
  "scan_run = (new_run 0 scan_schedule 0 7)\<lparr>rn_status := Run_Running, rn_targets := PDict [(''type'', PStr ''endpoint''), (''ids'', PList [PStr ''aa'', PStr ''cc''])]\<rparr>"

definition scan_world :: sched_world where
  "scan_world = \<lparr>sw_schedules = [scan_schedule], sw_runs = [scan_run], sw_next_run = 8,
     sw_state = \<lparr>tk_last_tick_at = None, tk_last_tick_completed_at = None, tk_last_tick_error = [], tk_last_checked = 0, tk_last_queued = 0,
       tk_last_skipped = 0, tk_last_cleaned = 0, tk_last_dispatch_at = None, tk_last_dispatch_error = []\<rparr>,
     sw_config = \<lparr>cf_once_retention_hours = 48, cf_run_retention_days = 90, cf_queued_stale_minutes = 10\<rparr>\<rparr>"

definition scan_env :: action_env where
  "scan_env = patching_env\<lparr>ax_context := patch_context\<lparr>cx_sched := patch_env\<lparr>en_actions := [(''patching.scan'', scan_action)]\<rparr>\<rparr>\<rparr>"

definition quiet_state :: call_state where
  "quiet_state = \<lparr>cs_sends = \<lparr>sw_status = ''running'', sw_marks = [], sw_sent = []\<rparr>, cs_denied = [], cs_unmatched = []\<rparr>"

definition scan_call :: "string \<Rightarrow> int list \<Rightarrow> call_result \<times> call_state" where
  "scan_call caller agents = run_call id scan_env scan_world [(''patching.scan'', scan_definition)] (Some 7) (Some caller) (PStr ''patching.scan'')
     (Task_Call (PList (map PInt agents)) PNone) (\<lambda>_. Goes_Out True ''t'') quiet_state"

lemma scan_call_demo:
  "case scan_call ''patching'' [13, 11] of (res, cs) \<Rightarrow> sw_sent (cs_sends cs) = [(''patching.scan'', [11, 13])]"
  "case scan_call ''patching'' [12] of (res, cs) \<Rightarrow> res = Call_Refused ''outside_targets''"
  by code_simp+

theorem sent_endpoints_were_authorized_witness: "\<exists>v ids. targets_allow scan_env scan_run v ids \<and> {11, 13} \<subseteq> set ids"
proof -
  obtain res cs where c: "scan_call ''patching'' [13, 11] = (res, cs)" by (cases "scan_call ''patching'' [13, 11]")
  then have "sw_sent (cs_sends cs) = [(''patching.scan'', [11, 13])]" using scan_call_demo(1) by simp
  then have sent: "(''patching.scan'', [11, 13]) \<in> set (drop (length (sw_sent (cs_sends quiet_state))) (sw_sent (cs_sends cs)))" by (simp add: quiet_state_def)
  from sent_endpoints_were_authorized [OF c [unfolded scan_call_def] sent]
  obtain r v ids items where r: "Option.bind (Some 7) (get_run scan_world) = Some r" "targets_allow scan_env r v ids" "set [11, 13] \<subseteq> set items"
    "\<forall>i \<in> set items. \<exists>e \<in> set ids. endpoint_for scan_env (Task_Call (PList (map PInt [13, 11])) PNone) items i = Some e" by blast
  have "get_run scan_world 7 = Some scan_run" by (simp add: get_run_def scan_world_def scan_run_def new_run_def)
  then have "r = scan_run" using r(1) by simp
  moreover have "{11, 13} \<subseteq> set ids" using r(3,4) by (auto simp: endpoint_for_def)
  ultimately show ?thesis using r(2) by blast
qed


end
