(* ===== verification/Person_Scope.thy ===== *)
theory Person_Scope
  imports System_Guarantees
begin

text \<open>
  What a person may schedule: the permission and scope checks of \<open>scheduler_views.py\<close> that \<open>scheduler.py\<close>, the confirmation and the delegation share, and
  the reads of \<open>resources_adapter.py\<close> behind them. Tactical's \<open>filter_by_role\<close> on the site table is \<open>px_visible_sites\<close>, as \<open>td_visible\<close> is on agents
  (\<open>None\<close> is an exception); the parameter check of single commands (\<open>system_commands.py\<close>) is \<open>px_command_parameters\<close>. A person is the number of the user row with the account read from it.
\<close>

record person_env =
  px_action :: action_env
  px_plugins :: "rbac_plugin list"
  px_perms :: perm_table
  px_views :: role_views
  px_visible_sites :: "user \<Rightarrow> int list option"
  px_command_parameters :: "pyval \<Rightarrow> pydict option"

abbreviation px_context :: "person_env \<Rightarrow> context_env" where
  "px_context px \<equiv> ax_context (px_action px)"

abbreviation px_directory :: "person_env \<Rightarrow> directory" where
  "px_directory px \<equiv> cx_directory (px_context px)"

abbreviation px_actions :: "person_env \<Rightarrow> action_registry" where
  "px_actions px \<equiv> en_actions (cx_sched (px_context px))"

section \<open>Permission\<close>

definition native_scheduler_manager :: "user \<Rightarrow> bool" where
  "native_scheduler_manager u = (u_superuser u \<or> (case role_for_user u of None \<Rightarrow> False | Some r \<Rightarrow> ro_superuser r \<or> get_or (ro_flags r) ''can_do_server_maint'' False))"

definition entry_held :: "person_env \<Rightarrow> user \<Rightarrow> string \<Rightarrow> bool" where
  "entry_held px u entry =
     (if is_tactical_permission_entry entry then has_tactical_permission (cx_fields (px_context px)) u (drop (length tactical_permission_prefix) entry) = Inr True
      else has_extension_permission (px_plugins px) (px_perms px) u entry = Inr True)"

definition can_use_action :: "person_env \<Rightarrow> user \<Rightarrow> scheduled_action \<Rightarrow> bool" where
  "can_use_action px u act = (native_scheduler_manager u \<or> list_ex (entry_held px u) (permission_entries act))"

section \<open>The person's own names of endpoints\<close>

datatype canon_error = Canon_Denied | Canon_Adapter adapter_error

definition ids_for_user :: "directory \<Rightarrow> user \<Rightarrow> pyval list \<Rightarrow> canon_error + pyval list" where
  "ids_for_user d u vs = (case canonical_agent_target_ids_in_scope d (Some u) vs of
     Inl e \<Rightarrow> Inl (Canon_Adapter e)
   | Inr resolved \<Rightarrow> if length resolved \<noteq> length (distinct_texts vs) then Inl Canon_Denied else Inr (map PStr resolved))"

definition canonicalize_endpoint_targets_for_user :: "directory \<Rightarrow> user \<Rightarrow> pydict \<Rightarrow> canon_error + pydict" where
  "canonicalize_endpoint_targets_for_user d u canonical =
     (let target_type = lower (strip (py_str (py_or (get_or canonical ''type'' PNone) (PStr ''none'')))) in
      if target_type \<in> {''endpoint'', ''endpoints'', ''agent'', ''agents''} then
        rbind (ids_for_user d u (list_of (get_or canonical ''ids'' PNone))) (\<lambda>vs. Inr (dset ''ids'' (PList vs) canonical))
      else if target_type = ''dynamic'' then
        (let scope = dict_of (get_or canonical ''scope'' PNone) in
         if lower (strip (text_or_empty (get_or scope ''type'' PNone))) \<in> {''endpoint'', ''agent''} then
           rbind (ids_for_user d u (list_of (get_or scope ''ids'' PNone))) (\<lambda>vs.
             Inr (dset ''scope'' (PDict (dset ''ids'' (PList vs) (dset ''type'' (PStr ''endpoint'') scope))) canonical))
         else Inr canonical)
      else Inr canonical)"

section \<open>Scope\<close>

definition explicit_client_target_ids_in_scope :: "person_env \<Rightarrow> user \<Rightarrow> int list \<Rightarrow> int list option" where
  "explicit_client_target_ids_in_scope px u ids =
     (let requested = filter (\<lambda>i. 0 < i) ids in
      if requested = [] then Some []
      else (case role_scope_unrestricted (px_views px) u of
          None \<Rightarrow> None
        | Some True \<Rightarrow> Some (filter (\<lambda>c. c \<in> set requested) (td_clients (px_directory px)))
        | Some False \<Rightarrow> (case role_for_user u of None \<Rightarrow> Some []
            | Some r \<Rightarrow> map_option (\<lambda>(clients, _). filter (\<lambda>c. c \<in> set requested) clients) (px_views px (ro_id r)))))"

definition site_target_ids_in_scope :: "person_env \<Rightarrow> user \<Rightarrow> int list \<Rightarrow> int list option" where
  "site_target_ids_in_scope px u ids =
     (let requested = filter (\<lambda>i. 0 < i) ids in
      if requested = [] then Some []
      else map_option (\<lambda>visible. filter (\<lambda>s. s \<in> set requested \<and> s \<in> set visible) (keys (td_sites (px_directory px)))) (px_visible_sites px u))"

definition agent_target_identifiers_in_scope :: "directory \<Rightarrow> user \<Rightarrow> pyval list \<Rightarrow> adapter_error + string list" where
  "agent_target_identifiers_in_scope d u identifiers =
     (let requested = map (\<lambda>v. strip (py_str v)) identifiers in
      if requested = [] then Inr []
      else rbind (scope_queryset d (Some u)) (\<lambda>base. rbind (identity_rows base requested) (\<lambda>rows.
           rbind (rmap (one_match rows) requested) (\<lambda>ms. Inr (map fst (filter (\<lambda>(_, m). m \<noteq> None) (zip requested ms)))))))"

text \<open>For a target kind of a module's own: \<open>None\<close> when no resolver applies. A manager passes unless \<open>strict\<close>; a set without endpoints passes only
  where nothing is created or taken over.\<close>

definition resolver_scope_check :: "person_env \<Rightarrow> user \<Rightarrow> string \<Rightarrow> pyval \<Rightarrow> bool \<Rightarrow> bool \<Rightarrow> bool option" where
  "resolver_scope_check px u m targets strict refuse_empty =
     (let cx = px_context px in
      case target_type_of targets of
        None \<Rightarrow> None
      | Some t \<Rightarrow>
          if m = [] \<or> \<not> has_resolver (px_actions px) (cx_resolvers cx) m t then None
          else if \<not> strict \<and> native_scheduler_manager u then Some True
          else (case resolve_agent_pks (px_directory px) (px_actions px) (cx_resolvers cx) m targets of
              None \<Rightarrow> Some False
            | Some pks \<Rightarrow>
                if pks = [] then Some (if strict then False else if refuse_empty then role_scope_unrestricted (px_views px) u = Some True else True)
                else Some (agent_pks_in_role_scope (px_directory px) (Some u) (sort pks))))"

text \<open>\<open>_require_target_scope\<close> on a stored target (\<open>payload\<close> is false): \<open>None\<close> is an exception that is neither a refusal nor a scheduler error. No target reads as
  \<open>dynamic_unscoped\<close>, which the code still names.\<close>

definition require_target_scope :: "person_env \<Rightarrow> user \<Rightarrow> pyval \<Rightarrow> string \<Rightarrow> bool \<Rightarrow> bool option" where
  "require_target_scope px u targets m strict =
     (if \<not> strict \<and> native_scheduler_manager u then Some True
      else (case tactical_scope_ref targets of
          Inl (target_error.Uncaught _) \<Rightarrow> None
        | Inl _ \<Rightarrow> Some False
        | Inr (ref_kind, values) \<Rightarrow>
            if ref_kind \<in> {''none'', ''module''} then
              (case (if ref_kind = ''module'' \<and> m \<noteq> [] then resolver_scope_check px u m targets strict False else None) of
                 Some decided \<Rightarrow> Some decided
               | None \<Rightarrow> role_scope_unrestricted (px_views px) u)
            else if values = [] then Some False
            else if ref_kind = ''client'' then
              (let ids = List.map_filter number_of values in
               Some (case explicit_client_target_ids_in_scope px u ids of None \<Rightarrow> False | Some allowed \<Rightarrow> set ids \<subseteq> set allowed))
            else if ref_kind = ''site'' then
              (let ids = List.map_filter number_of values in
               Some (case site_target_ids_in_scope px u ids of None \<Rightarrow> False | Some allowed \<Rightarrow> set ids \<subseteq> set allowed))
            else Some (case agent_target_identifiers_in_scope (px_directory px) u values of
                Inl _ \<Rightarrow> False | Inr allowed \<Rightarrow> set (map py_str values) \<subseteq> set allowed)))"

definition can_access_target_scope :: "person_env \<Rightarrow> user \<Rightarrow> pyval \<Rightarrow> string \<Rightarrow> bool \<Rightarrow> bool option" where
  "can_access_target_scope px u targets m strict = (if \<not> strict \<and> native_scheduler_manager u then Some True else require_target_scope px u targets m strict)"

definition person_covers_targets :: "person_env \<Rightarrow> user \<Rightarrow> scheduled_action \<Rightarrow> pyval \<Rightarrow> bool option" where
  "person_covers_targets px u act targets = (case resolver_scope_check px u (ac_module_id act) targets True False of
     Some decided \<Rightarrow> Some decided | None \<Rightarrow> can_access_target_scope px u targets [] True)"

section \<open>The person behind a request\<close>

record web_request =
  wq_real :: bool
  wq_session :: bool
  wq_user :: "(nat \<times> account) option"

definition one_off_user_refusal :: "account \<Rightarrow> bool" where
  "one_off_user_refusal acc = (\<not> acc_active acc \<or> u_installer acc)"

definition verified_person :: "web_request \<Rightarrow> (nat \<times> account) option" where
  "verified_person q = (if \<not> wq_real q \<or> \<not> wq_session q then None
     else (case wq_user q of None \<Rightarrow> None
       | Some (i, acc) \<Rightarrow> if \<not> u_authenticated acc \<or> one_off_user_refusal acc then None else Some (i, acc)))"

section \<open>Facts\<close>

lemma person_is_active: "verified_person q = Some (i, acc) \<Longrightarrow> acc_active acc \<and> \<not> u_installer acc \<and> u_authenticated acc \<and> wq_real q \<and> wq_session q \<and> wq_user q = Some (i, acc)"
  by (auto simp: verified_person_def one_off_user_refusal_def split: if_splits option.splits prod.splits)

lemma in_role_scope_sees:
  "agent_pks_in_role_scope d (Some u) pks \<Longrightarrow> \<exists>seen. td_visible d u = Some seen \<and> set pks \<subseteq> set seen \<inter> ag_pk ` set (td_agents d)"
  by (auto simp: agent_pks_in_role_scope_def scope_queryset_def list_all_iff split: option.splits sum.splits)

text \<open>Covering a module's own targets without the manager's bypass means seeing every endpoint they name, and there is one.\<close>

lemma strict_cover_sees:
  assumes "resolver_scope_check px u m targets True e = Some True"
  shows "\<exists>pks seen. resolve_agent_pks (px_directory px) (px_actions px) (cx_resolvers (px_context px)) m targets = Some pks \<and> pks \<noteq> [] \<and>
    td_visible (px_directory px) u = Some seen \<and> set pks \<subseteq> set seen"
  using assms in_role_scope_sees [of "px_directory px" u] by (fastforce simp: resolver_scope_check_def Let_def split: option.splits if_splits)

end
