(* ===== verification/Confirmation.thy ===== *)
theory Confirmation
  imports Person_Scope
begin

text \<open>
  The Yes or No of a person before a schedule of a system action is saved (\<open>system_action_confirmation.py\<close>): every creation-time control, the confirmation id bound
  to the request, and the deny row of a refusal. A signed token is its payload with the signature; the keyed hash (\<open>mac\<close>) and the digest (\<open>sha\<close>, cut to
  32 characters) are inputs, and base64 and the limit on the length of a token are not written out. The canonical timing of a schedule (\<open>when_key\<close>) is given as a dictionary, the parameter
  check of single commands as \<open>px_command_parameters\<close>.
\<close>

section \<open>Texts that are signed\<close>

text \<open>\<open>json.dumps(value, sort_keys=True, separators=(",", ":"))\<close>: keys in order, characters beyond ASCII escaped.\<close>

definition ascii_char :: "char \<Rightarrow> string" where
  "ascii_char c = (if 126 < code c then [char_of (92::nat), CHR ''u'', CHR ''0'', CHR ''0'', hex_digit (code c div 16), hex_digit (code c mod 16)] else json_char c)"

definition ascii_str :: "string \<Rightarrow> string" where
  "ascii_str s = [char_of (34::nat)] @ concat (map ascii_char s) @ [char_of (34::nat)]"

fun json_sorted :: "pyval \<Rightarrow> string" where
  "json_sorted (PStr s) = ascii_str s"
| "json_sorted (PList xs) = ''['' @ join '','' (map json_sorted xs) @ '']''"
| "json_sorted (PDict d) = ''{'' @ join '','' (map (\<lambda>(k, t). ascii_str k @ '':'' @ t) (sort_key fst (map (\<lambda>kv. (fst kv, json_sorted (snd kv))) d))) @ ''}''"
| "json_sorted v = json_dumps v"

definition value_digest :: "(string \<Rightarrow> string) \<Rightarrow> pyval \<Rightarrow> string" where
  "value_digest sha v = sha (json_sorted v)"

record signed_token =
  tk_body :: pydict
  tk_signature :: string

definition sign_body :: "(string \<Rightarrow> string) \<Rightarrow> string \<Rightarrow> pydict \<Rightarrow> signed_token" where
  "sign_body mac label body = \<lparr>tk_body = body, tk_signature = mac (label @ json_sorted (PDict body))\<rparr>"

definition signature_ok :: "(string \<Rightarrow> string) \<Rightarrow> string \<Rightarrow> signed_token \<Rightarrow> bool" where
  "signature_ok mac label t = (tk_signature t = mac (label @ json_sorted (PDict (tk_body t))))"

text \<open>Every key of \<open>wanted\<close> has its value in the body, and the time in \<open>x\<close> has not passed. The clock counts seconds.\<close>

definition body_fits :: "pydict \<Rightarrow> pydict \<Rightarrow> int \<Rightarrow> bool" where
  "body_fits body wanted clock = (list_all (\<lambda>(k, v). get_or body k PNone = v) wanted \<and>
     (case py_int (get_or body ''x'' (PInt 0)) of Inl _ \<Rightarrow> False | Inr x \<Rightarrow> clock \<le> x))"

lemma signed_is_ok: "signature_ok mac label (sign_body mac label body)"
  by (simp add: signature_ok_def sign_body_def)

section \<open>The id\<close>

definition confirmation_prefix :: string where
  "confirmation_prefix = ''tec-tac-system-action-confirmation-v1|''"

definition confirmation_ttl :: int where
  "confirmation_ttl = 600"

definition id_fields :: "nat \<Rightarrow> string \<Rightarrow> string \<Rightarrow> string \<Rightarrow> string \<Rightarrow> pydict" where
  "id_fields person action_id targets_key params_key when_digest =
     [(''u'', PStr (show_nat person)), (''a'', PStr action_id), (''t'', PStr targets_key), (''p'', PStr params_key), (''w'', PStr when_digest)]"

definition issue_id :: "(string \<Rightarrow> string) \<Rightarrow> int \<Rightarrow> nat \<Rightarrow> string \<Rightarrow> string \<Rightarrow> string \<Rightarrow> string \<Rightarrow> signed_token" where
  "issue_id mac clock person action_id targets_key params_key when_digest =
     sign_body mac confirmation_prefix (id_fields person action_id targets_key params_key when_digest @ [(''x'', PInt (clock + confirmation_ttl))])"

definition valid_id :: "(string \<Rightarrow> string) \<Rightarrow> int \<Rightarrow> signed_token option \<Rightarrow> nat \<Rightarrow> string \<Rightarrow> string \<Rightarrow> string \<Rightarrow> string \<Rightarrow> bool" where
  "valid_id mac clock token person action_id targets_key params_key when_digest = (case token of
     None \<Rightarrow> False
   | Some t \<Rightarrow> signature_ok mac confirmation_prefix t \<and> body_fits (tk_body t) (id_fields person action_id targets_key params_key when_digest) clock)"

definition targets_key :: "(string \<Rightarrow> string) \<Rightarrow> pyval \<Rightarrow> string option" where
  "targets_key sha targets = (case normalize_scheduler_targets targets of Inl _ \<Rightarrow> None | Inr d \<Rightarrow> Some (value_digest sha (PDict d)))"

definition parameters_of :: "pyval \<Rightarrow> pyval" where
  "parameters_of v = (case v of PDict d \<Rightarrow> get_or d ''system_action_parameters'' PNone | _ \<Rightarrow> PNone)"

section \<open>The controls\<close>

record creation_info =
  ci_definition :: sa_definition
  ci_entry :: system_function
  ci_cleaned :: pydict
  ci_ids :: "int list"
  ci_groups :: nat
  ci_vanished :: nat

definition creation_parameters :: "person_env \<Rightarrow> system_function \<Rightarrow> pyval \<Rightarrow> string + pydict" where
  "creation_parameters px entry parameters =
     (let confirmed = parameters_of parameters in
      if sf_parameters entry = [] then (if confirmed = PNone \<or> confirmed = PDict [] then Inr [] else Inl ''bad_parameters'')
      else (let given = (if confirmed = PNone then PDict [] else confirmed) in
        case (if sf_kind entry = Kind_Command then px_command_parameters px given else validate_parameters entry given) of
          None \<Rightarrow> Inl ''bad_parameters'' | Some cleaned \<Rightarrow> Inr cleaned))"

definition creation_targets :: "person_env \<Rightarrow> user \<Rightarrow> string \<Rightarrow> pyval \<Rightarrow> string + int list \<times> nat" where
  "creation_targets px u resolver_module targets = (case normalize_scheduler_targets targets of
     Inl _ \<Rightarrow> Inl ''targets_unresolved''
   | Inr shaped \<Rightarrow> (case canonicalize_endpoint_targets_for_user (px_directory px) u shaped of
       Inl Canon_Denied \<Rightarrow> Inl ''out_of_scope''
     | Inl _ \<Rightarrow> Inl ''targets_unresolved''
     | Inr canonical \<Rightarrow>
         (let cx = ax_context (px_action px) in
          case agent_pks_for_scheduler_targets (cx_directory cx) (en_actions (cx_sched cx)) (cx_resolvers cx) (Some resolver_module) (PDict canonical) of
            Inr (Some (pks, vanished)) \<Rightarrow>
              if pks = [] \<or> max_agents < int (length pks) then Inl ''agent_count'' else Inr (sort pks, vanished)
          | _ \<Rightarrow> Inl ''targets_unresolved'')))"

definition controls :: "person_env \<Rightarrow> sa_registry \<Rightarrow> account \<Rightarrow> scheduled_action \<Rightarrow> pyval \<Rightarrow> pyval \<Rightarrow> string option \<Rightarrow> string + creation_info" where
  "controls px rg acc act targets parameters resolver_module =
     (let ax = px_action px; u = user_of acc in
      case dget rg (ac_id act) of
        None \<Rightarrow> Inl ''unknown_action''
      | Some d \<Rightarrow>
          rcheck (\<not> is_registered_system_action rg (ac_module_id act) (ac_id act)) ''unknown_action''
          (case dget system_functions (df_function d) of
             None \<Rightarrow> Inl ''function_unavailable''
           | Some entry \<Rightarrow>
               rcheck (\<not> acc_active acc \<or> u_installer acc) ''owner_inactive''
              (rcheck (action_module_enabled ax (df_module_id d) \<noteq> Some True) ''module_disabled''
              (rcheck (df_via_replacement d \<and> honoured_now ax (df_module_id d) \<noteq> Some (sf_owner_module entry)) ''replacement_not_honoured''
              (rcheck (\<not> can_use_action (px) u act) ''not_permitted''
              (rcheck (\<not> list_all (\<lambda>flag. has_tactical_permission (cx_fields (ax_context ax)) u flag = Inr True) (sf_min_flags entry @ df_permissions d)) ''not_permitted''
              (rbind (creation_parameters px entry parameters) (\<lambda>cleaned.
               rbind (creation_targets px u (case resolver_module of None \<Rightarrow> ac_module_id act | Some m \<Rightarrow> m) targets) (\<lambda>(ids, vanished).
               rcheck (\<not> agent_pks_in_role_scope (cx_directory (ax_context ax)) (Some u) ids) ''out_of_scope''
              (Inr \<lparr>ci_definition = d, ci_entry = entry, ci_cleaned = cleaned, ci_ids = ids, ci_groups = length (groups_of ids), ci_vanished = vanished\<rparr>))))))))))"

section \<open>Describing and requiring a confirmation\<close>

datatype declaration_state = Declared | Not_Declared | Declaration_Unknown

definition system_action_state :: "action_env \<Rightarrow> sa_registry \<Rightarrow> string \<Rightarrow> string \<Rightarrow> declaration_state" where
  "system_action_state ax rg m action_id =
     (if \<not> is_registered_system_action rg m action_id then Not_Declared
      else (case ax_plugins ax of None \<Rightarrow> Declaration_Unknown
        | Some ps \<Rightarrow> if declared_now ax (declaring_module m action_id) action_id then Declared else Not_Declared))"

record creation_deny =
  nd_reason :: string
  nd_person :: nat
  nd_action :: "string option"
  nd_owner_module :: string

definition deny_of :: "nat \<Rightarrow> scheduled_action \<Rightarrow> string \<Rightarrow> creation_deny" where
  "deny_of person act reason = \<lparr>nd_reason = reason, nd_person = person, nd_action = safe_action_id (PStr (ac_id act)), nd_owner_module = take 100 (ac_module_id act)\<rparr>"

record description =
  dc_token :: signed_token
  dc_total :: nat
  dc_groups :: nat
  dc_expires_in :: int

text \<open>What \<open>describe_confirmation\<close> answers for an action: \<open>Inr None\<close> when it needs no confirmation. A refusal writes one deny row.\<close>

definition describe_action ::
  "(string \<Rightarrow> string) \<Rightarrow> (string \<Rightarrow> string) \<Rightarrow> int \<Rightarrow> person_env \<Rightarrow> sa_registry \<Rightarrow> nat \<times> account \<Rightarrow> scheduled_action \<Rightarrow> pyval \<Rightarrow> pyval \<Rightarrow> pydict \<Rightarrow>
   creation_deny list \<Rightarrow> (string + description option) \<times> creation_deny list" where
  "describe_action mac sha clock px rg person act targets parameters when rows =
     (let (i, acc) = person; refuse_with = (\<lambda>reason. (Inl reason, rows @ [deny_of i act reason])) in
      case system_action_state (px_action px) rg (ac_module_id act) (ac_id act) of
        Declaration_Unknown \<Rightarrow> refuse_with ''declaration_unreadable''
      | Not_Declared \<Rightarrow> (Inr None, rows)
      | Declared \<Rightarrow> (case controls px rg acc act targets parameters None of
          Inl reason \<Rightarrow> refuse_with reason
        | Inr info \<Rightarrow> (case targets_key sha targets of
            None \<Rightarrow> (Inl ''targets_unresolved'', rows)
          | Some key \<Rightarrow> (Inr (Some \<lparr>dc_token = issue_id mac clock i (ac_id act) key (value_digest sha (parameters_of parameters)) (value_digest sha (PDict when)),
              dc_total = length (ci_ids info), dc_groups = ci_groups info, dc_expires_in = confirmation_ttl\<rparr>), rows))))"

datatype describe_error = Describe_Refused string | Describe_Failed sched_exn | No_Person

definition describe_confirmation ::
  "(string \<Rightarrow> string) \<Rightarrow> (string \<Rightarrow> string) \<Rightarrow> int \<Rightarrow> person_env \<Rightarrow> sa_registry \<Rightarrow> nat \<times> account \<Rightarrow> pyval \<Rightarrow> pyval \<Rightarrow> pyval \<Rightarrow> pydict \<Rightarrow>
   creation_deny list \<Rightarrow> (describe_error + description option) \<times> creation_deny list" where
  "describe_confirmation mac sha clock px rg person action_id targets parameters when rows =
     (case get_scheduled_action (px_actions px) (strip (text_or_empty action_id)) of
        Inl e \<Rightarrow> (Inl (Describe_Failed e), rows)
      | Inr act \<Rightarrow> map_prod (map_sum Describe_Refused id) id (describe_action mac sha clock px rg person act targets parameters when rows))"

definition describe_confirmation_for_request ::
  "(string \<Rightarrow> string) \<Rightarrow> (string \<Rightarrow> string) \<Rightarrow> int \<Rightarrow> person_env \<Rightarrow> sa_registry \<Rightarrow> web_request \<Rightarrow> pyval \<Rightarrow> pyval \<Rightarrow> pyval \<Rightarrow> pydict \<Rightarrow>
   creation_deny list \<Rightarrow> (describe_error + description option) \<times> creation_deny list" where
  "describe_confirmation_for_request mac sha clock px rg request action_id targets parameters when rows = (case verified_person request of
     None \<Rightarrow> (Inl No_Person, rows)
   | Some person \<Rightarrow> describe_confirmation mac sha clock px rg person action_id targets parameters when rows)"

text \<open>\<open>require_creation\<close>. A caller inside a transaction defers the deny row: it comes with the refusal and is written when the transaction is over. The
  outer option of the id tells a missing id from one that is not a token.\<close>

definition require_creation ::
  "(string \<Rightarrow> string) \<Rightarrow> (string \<Rightarrow> string) \<Rightarrow> int \<Rightarrow> person_env \<Rightarrow> sa_registry \<Rightarrow> nat \<times> account \<Rightarrow> scheduled_action \<Rightarrow> pyval \<Rightarrow> pyval \<Rightarrow> pydict \<Rightarrow>
   signed_token option option \<Rightarrow> bool \<Rightarrow> creation_deny list \<Rightarrow> (string \<times> creation_deny option + creation_info option) \<times> creation_deny list" where
  "require_creation mac sha clock px rg person act targets parameters when confirmation_id defer rows =
     (let (i, acc) = person;
          refuse_with = (\<lambda>reason. if defer then (Inl (reason, Some (deny_of i act reason)), rows) else (Inl (reason, None), rows @ [deny_of i act reason])) in
      case system_action_state (px_action px) rg (ac_module_id act) (ac_id act) of
        Declaration_Unknown \<Rightarrow> refuse_with ''declaration_unreadable''
      | Not_Declared \<Rightarrow> (Inr None, rows)
      | Declared \<Rightarrow> (case controls px rg acc act targets parameters None of
          Inl reason \<Rightarrow> refuse_with reason
        | Inr info \<Rightarrow> (case confirmation_id of
            None \<Rightarrow> refuse_with ''confirmation_required''
          | Some token \<Rightarrow> (case targets_key sha targets of
              None \<Rightarrow> (Inl (''targets_unresolved'', None), rows)
            | Some key \<Rightarrow>
                if valid_id mac clock token i (ac_id act) key (value_digest sha (parameters_of parameters)) (value_digest sha (PDict when)) then (Inr (Some info), rows)
                else refuse_with ''confirmation_invalid''))))"

definition record_refusal :: "string \<times> creation_deny option \<Rightarrow> creation_deny list \<Rightarrow> creation_deny list" where
  "record_refusal refusal rows = (case snd refusal of None \<Rightarrow> rows | Some row \<Rightarrow> rows @ [row])"

section \<open>What an accepted creation has shown\<close>

lemma held_flag: "has_tactical_permission flds u f = Inr True \<Longrightarrow> flag_answer u f"
  by (auto simp: has_tactical_permission_def tactical_permission_flags_def rbind_Inr_iff get_or_def validate_tactical_flag_def
      split: sum.splits if_splits option.splits)

definition creation_allowed :: "person_env \<Rightarrow> sa_registry \<Rightarrow> account \<Rightarrow> scheduled_action \<Rightarrow> creation_info \<Rightarrow> bool" where
  "creation_allowed px rg acc act info \<longleftrightarrow> (let d = ci_definition info; entry = ci_entry info; u = user_of acc; ax = px_action px in
     dget rg (ac_id act) = Some d \<and> dget system_functions (df_function d) = Some entry \<and> acc_active acc \<and> \<not> u_installer acc \<and>
     action_module_enabled ax (df_module_id d) = Some True \<and> (df_via_replacement d \<longrightarrow> honoured_now ax (df_module_id d) = Some (sf_owner_module entry)) \<and>
     can_use_action px u act \<and> (\<forall>f \<in> set (sf_min_flags entry) \<union> set (df_permissions d). flag_answer u f) \<and>
     ci_ids info \<noteq> [] \<and> int (length (ci_ids info)) \<le> max_agents \<and>
     (\<exists>seen. td_visible (px_directory px) u = Some seen \<and> set (ci_ids info) \<subseteq> set seen))"

text \<open>The endpoints of a creation are those its targets name, in the person's own spelling.\<close>

definition names_endpoints :: "person_env \<Rightarrow> user \<Rightarrow> string \<Rightarrow> pyval \<Rightarrow> int list \<Rightarrow> bool" where
  "names_endpoints px u m targets ids \<longleftrightarrow> (\<exists>shaped canonical pks v. normalize_scheduler_targets targets = Inr shaped \<and>
     canonicalize_endpoint_targets_for_user (px_directory px) u shaped = Inr canonical \<and>
     agent_pks_for_scheduler_targets (px_directory px) (px_actions px) (cx_resolvers (px_context px)) (Some m) (PDict canonical) = Inr (Some (pks, v)) \<and> ids = sort pks)"

lemma creation_targets_facts:
  assumes "creation_targets px u m targets = Inr (ids, v)"
  shows "names_endpoints px u m targets ids \<and> ids \<noteq> [] \<and> int (length ids) \<le> max_agents"
  using assms by (auto simp: creation_targets_def names_endpoints_def Let_def sort_empty_iff split: sum.splits canon_error.splits option.splits if_splits)

lemma controls_allow:
  assumes "controls px rg acc act targets parameters rm = Inr info"
  shows "creation_allowed px rg acc act info \<and> names_endpoints px (user_of acc) (case rm of None \<Rightarrow> ac_module_id act | Some m \<Rightarrow> m) targets (ci_ids info)"
proof -
  let ?m = "case rm of None \<Rightarrow> ac_module_id act | Some m \<Rightarrow> m"
  obtain d where d: "dget rg (ac_id act) = Some d" using assms by (cases "dget rg (ac_id act)") (auto simp: controls_def Let_def)
  obtain entry where e: "dget system_functions (df_function d) = Some entry"
    using assms d by (cases "dget system_functions (df_function d)") (auto simp: controls_def Let_def rcheck_Inr_iff)
  obtain cleaned ids v where c: "creation_targets px (user_of acc) ?m targets = Inr (ids, v)" "acc_active acc" "\<not> u_installer acc"
      "action_module_enabled (px_action px) (df_module_id d) = Some True"
      "df_via_replacement d \<longrightarrow> honoured_now (px_action px) (df_module_id d) = Some (sf_owner_module entry)" "can_use_action px (user_of acc) act"
      "list_all (\<lambda>flag. has_tactical_permission (cx_fields (px_context px)) (user_of acc) flag = Inr True) (sf_min_flags entry @ df_permissions d)"
      "agent_pks_in_role_scope (px_directory px) (Some (user_of acc)) ids" "ci_definition info = d" "ci_entry info = entry" "ci_ids info = ids"
    using assms d e by (auto simp: controls_def Let_def rcheck_Inr_iff rbind_Inr_iff)
  then show ?thesis using d e creation_targets_facts [OF c(1)] in_role_scope_sees [OF c(8)] held_flag
    by (auto simp: creation_allowed_def Let_def list_all_iff)
qed

lemma require_creation_facts:
  assumes "require_creation mac sha clock px rg (i, acc) act targets parameters when cid defer rows = (Inr (Some info), rows')"
  obtains t key where "cid = Some (Some t)" "controls px rg acc act targets parameters None = Inr info" "targets_key sha targets = Some key"
    "valid_id mac clock (Some t) i (ac_id act) key (value_digest sha (parameters_of parameters)) (value_digest sha (PDict when))" "rows' = rows"
proof -
  have d: "system_action_state (px_action px) rg (ac_module_id act) (ac_id act) = Declared"
    using assms by (cases "system_action_state (px_action px) rg (ac_module_id act) (ac_id act)") (auto simp: require_creation_def Let_def split: if_splits)
  have c: "controls px rg acc act targets parameters None = Inr info"
    using assms d by (auto simp: require_creation_def Let_def split: sum.splits if_splits option.splits)
  obtain token where k: "cid = Some token" using assms d c by (cases cid) (auto simp: require_creation_def Let_def split: if_splits)
  obtain key where key: "targets_key sha targets = Some key" using assms d c k by (cases "targets_key sha targets") (auto simp: require_creation_def Let_def split: if_splits)
  have v: "valid_id mac clock token i (ac_id act) key (value_digest sha (parameters_of parameters)) (value_digest sha (PDict when)) \<and> rows' = rows"
    using assms d c k key by (auto simp: require_creation_def Let_def split: if_splits)
  then obtain t where "token = Some t" by (cases token) (auto simp: valid_id_def)
  then show ?thesis using that c k key v by blast
qed

lemma issued_body_fits:
  "body_fits (id_fields j a tk pk wk @ [(''x'', PInt x)]) (id_fields i b tk' pk' wk') clock \<longleftrightarrow> i = j \<and> a = b \<and> tk = tk' \<and> pk = pk' \<and> wk = wk' \<and> clock \<le> x"
  by (auto simp: body_fits_def id_fields_def get_or_def show_nat_inj)

text \<open>A request for a confirmation that Core answered: when, by whom, for which action, targets, parameters and timing.\<close>

record confirm_request =
  cf_clock :: int
  cf_person :: nat
  cf_action :: string
  cf_targets :: pyval
  cf_parameters :: pyval
  cf_when :: pydict

definition answered_with :: "(string \<Rightarrow> string) \<Rightarrow> (string \<Rightarrow> string) \<Rightarrow> confirm_request \<Rightarrow> signed_token \<Rightarrow> bool" where
  "answered_with mac sha q t \<longleftrightarrow> (\<exists>key. targets_key sha (cf_targets q) = Some key \<and>
     t = issue_id mac (cf_clock q) (cf_person q) (cf_action q) key (value_digest sha (parameters_of (cf_parameters q))) (value_digest sha (PDict (cf_when q))))"

lemma map_sum_Inr_iff: "map_sum f g x = Inr y \<longleftrightarrow> (\<exists>z. x = Inr z \<and> y = g z)"
  by (cases x) auto

text \<open>(C7) A schedule of a system action is saved only with the authority and the Yes of the person. The person is active, may use the action, holds every Tactical flag and
  sees every endpoint the targets name; the module is on and honoured; and the id stands for a question Core put to this very person, about this action and
  about targets, parameters and timing of the same digest, not more than ten minutes ago. Nobody but Core can sign, so an id whose signature fits was
  issued by Core.\<close>

theorem creation_was_confirmed:
  assumes "require_creation mac sha clock px rg (i, acc) act targets parameters when cid defer rows = (Inr (Some info), rows')"
    and "\<And>t. cid = Some (Some t) \<Longrightarrow> signature_ok mac confirmation_prefix t \<Longrightarrow> \<exists>q \<in> set log. answered_with mac sha q t"
  shows "creation_allowed px rg acc act info \<and> names_endpoints px (user_of acc) (ac_module_id act) targets (ci_ids info) \<and>
    (\<exists>q \<in> set log. cf_person q = i \<and> cf_action q = ac_id act \<and> clock \<le> cf_clock q + 600 \<and> targets_key sha (cf_targets q) = targets_key sha targets \<and>
      value_digest sha (parameters_of (cf_parameters q)) = value_digest sha (parameters_of parameters) \<and> value_digest sha (PDict (cf_when q)) = value_digest sha (PDict when))"
proof -
  from assms(1) obtain t key where t: "cid = Some (Some t)" "controls px rg acc act targets parameters None = Inr info" "targets_key sha targets = Some key"
    "valid_id mac clock (Some t) i (ac_id act) key (value_digest sha (parameters_of parameters)) (value_digest sha (PDict when))" by (rule require_creation_facts)
  have s: "signature_ok mac confirmation_prefix t" using t(4) by (simp add: valid_id_def)
  from assms(2) [OF t(1) s] obtain q where q: "q \<in> set log" "answered_with mac sha q t" by blast
  then have "cf_person q = i \<and> cf_action q = ac_id act \<and> clock \<le> cf_clock q + 600 \<and> targets_key sha (cf_targets q) = targets_key sha targets \<and>
      value_digest sha (parameters_of (cf_parameters q)) = value_digest sha (parameters_of parameters) \<and> value_digest sha (PDict (cf_when q)) = value_digest sha (PDict when)"
    using t(3,4) by (auto simp: answered_with_def valid_id_def issue_id_def sign_body_def issued_body_fits confirmation_ttl_def)
  then show ?thesis using q(1) controls_allow [OF t(2)] by auto
qed

definition scan_person_env :: person_env where
  "scan_person_env = \<lparr>px_action = patching_env\<lparr>ax_context := (ax_context patching_env)\<lparr>cx_sched := patch_env\<lparr>en_actions := [(''patching.scan'', scan_action)]\<rparr>,
       cx_directory := small_directory\<lparr>td_visible := (\<lambda>_. Some [11, 12, 13])\<rparr>\<rparr>\<rparr>, px_plugins = [], px_perms = [], px_views = (\<lambda>_. Some ([], [])), px_visible_sites = (\<lambda>_. Some [7, 8]),
     px_command_parameters = (\<lambda>_. None)\<rparr>"

definition sam :: account where
  "sam = \<lparr>u_authenticated = True, u_superuser = True, u_installer = False, u_role_cache = Role_Is None, u_role = None, acc_active = True, acc_username = ''sam''\<rparr>"

definition two_endpoints :: pyval where
  "two_endpoints = PDict [(''type'', PStr ''endpoint''), (''ids'', PList [PStr ''aa'', PStr ''cc''])]"

definition scan_question :: confirm_request where
  "scan_question = \<lparr>cf_clock = 100, cf_person = 1, cf_action = ''patching.scan'', cf_targets = two_endpoints, cf_parameters = PDict [], cf_when = [(''schedule_type'', PStr ''daily'')]\<rparr>"

definition sam_request :: web_request where
  "sam_request = \<lparr>wq_real = True, wq_session = True, wq_user = Some (1, sam)\<rparr>"

definition scan_answer :: "(describe_error + description option) \<times> creation_deny list" where
  "scan_answer = describe_confirmation_for_request id id 100 scan_person_env [(''patching.scan'', scan_definition)] sam_request (PStr ''patching.scan'') two_endpoints (PDict []) [(''schedule_type'', PStr ''daily'')] []"

definition scan_creation :: "int \<Rightarrow> signed_token \<Rightarrow> (string \<times> creation_deny option + creation_info option) \<times> creation_deny list" where
  "scan_creation clock t = require_creation id id clock scan_person_env [(''patching.scan'', scan_definition)] (1, sam) scan_action two_endpoints (PDict [])
     [(''schedule_type'', PStr ''daily'')] (Some (Some t)) False []"

definition scan_token :: signed_token where
  "scan_token = issue_id id 100 1 ''patching.scan'' (the (targets_key id two_endpoints)) (value_digest id PNone) (value_digest id (PDict [(''schedule_type'', PStr ''daily'')]))"

lemma scan_controls:
  obtains info key where "controls scan_person_env [(''patching.scan'', scan_definition)] sam scan_action two_endpoints (PDict []) None = Inr info" "ci_ids info = [11, 13]"
    "targets_key id two_endpoints = Some key"
proof -
  have "map_sum id ci_ids (controls scan_person_env [(''patching.scan'', scan_definition)] sam scan_action two_endpoints (PDict []) None) = Inr [11, 13]" by code_simp
  moreover have "is_ok (normalize_scheduler_targets two_endpoints)" by code_simp
  ultimately show ?thesis using that
    by (cases "controls scan_person_env [(''patching.scan'', scan_definition)] sam scan_action two_endpoints (PDict []) None") (auto simp: targets_key_def is_ok_iff)
qed

lemma scan_declared: "system_action_state (px_action scan_person_env) [(''patching.scan'', scan_definition)] (ac_module_id scan_action) (ac_id scan_action) = Declared"
  by code_simp

lemma scan_parameters: "parameters_of (PDict []) = PNone"
  by (simp add: parameters_of_def get_or_def)

lemma scan_creation_accepted:
  obtains info where "scan_creation 700 scan_token = (Inr (Some info), [])" "ci_ids info = [11, 13]"
proof -
  obtain info key where c: "controls scan_person_env [(''patching.scan'', scan_definition)] sam scan_action two_endpoints (PDict []) None = Inr info" "ci_ids info = [11, 13]"
    "targets_key id two_endpoints = Some key" by (rule scan_controls)
  have "ac_id scan_action = ''patching.scan''" by (simp add: scan_action_def)
  then have "scan_creation 700 scan_token = (Inr (Some info), [])" using c scan_declared
    by (simp add: scan_creation_def require_creation_def scan_token_def scan_parameters valid_id_def issue_id_def sign_body_def signature_ok_def issued_body_fits confirmation_ttl_def)
  then show ?thesis using that c(2) by blast
qed

theorem creation_was_confirmed_witness: "\<exists>info. creation_allowed scan_person_env [(''patching.scan'', scan_definition)] sam scan_action info \<and> ci_ids info = [11, 13]"
proof -
  obtain info where r: "scan_creation 700 scan_token = (Inr (Some info), [])" "ci_ids info = [11, 13]" by (rule scan_creation_accepted)
  obtain key where "targets_key id two_endpoints = Some key" by (rule scan_controls)
  then have "\<exists>q \<in> set [scan_question]. answered_with id id q scan_token"
    by (simp add: answered_with_def scan_question_def scan_token_def scan_parameters)
  from creation_was_confirmed [OF r(1) [unfolded scan_creation_def], of "[scan_question]"] this r(2) show ?thesis by auto
qed

text \<open>(C18) The Yes is enough: an id Core issued for a person's request is accepted for the same person and the same request in the next ten minutes, while the person and the
  targets pass the same controls, and no deny row is written.\<close>

theorem described_creation_is_accepted:
  assumes "describe_confirmation_for_request mac sha clock px rg request action_id targets parameters when rows = (Inr (Some dc), rows1)" and "later \<le> clock + 600"
    and "wq_user request = Some (i, acc)" and "get_scheduled_action (px_actions px) (strip (text_or_empty action_id)) = Inr act"
    and "controls px' rg acc act targets parameters None = Inr info" and "system_action_state (px_action px') rg (ac_module_id act) (ac_id act) = Declared"
  shows "require_creation mac sha later px' rg (i, acc) act targets parameters when (Some (Some (dc_token dc))) defer rows' = (Inr (Some info), rows') \<and> rows1 = rows"
proof -
  obtain person where p: "verified_person request = Some person" using assms(1) by (cases "verified_person request") (auto simp: describe_confirmation_for_request_def)
  then have "person = (i, acc)" using assms(3) by (cases person) (auto dest: person_is_active)
  then have d: "describe_action mac sha clock px rg (i, acc) act targets parameters when rows = (Inr (Some dc), rows1)" using assms(1,4) p
    by (cases "describe_action mac sha clock px rg (i, acc) act targets parameters when rows")
      (auto simp: describe_confirmation_for_request_def describe_confirmation_def map_sum_Inr_iff)
  obtain key where k: "targets_key sha targets = Some key"
      "dc_token dc = issue_id mac clock i (ac_id act) key (value_digest sha (parameters_of parameters)) (value_digest sha (PDict when))" "rows1 = rows"
    using d by (auto simp: describe_action_def Let_def split: declaration_state.splits sum.splits option.splits)
  have "valid_id mac later (Some (dc_token dc)) i (ac_id act) key (value_digest sha (parameters_of parameters)) (value_digest sha (PDict when))"
    using assms(2) k(2) by (simp add: valid_id_def issue_id_def sign_body_def signature_ok_def issued_body_fits confirmation_ttl_def)
  then show ?thesis using assms(5,6) k by (simp add: require_creation_def)
qed

theorem described_creation_is_accepted_witness: "case scan_creation 700 scan_token of (res, rows) \<Rightarrow> (\<exists>info. res = Inr (Some info)) \<and> rows = []"
proof -
  obtain info key where c: "controls scan_person_env [(''patching.scan'', scan_definition)] sam scan_action two_endpoints (PDict []) None = Inr info"
    "targets_key id two_endpoints = Some key" by (rule scan_controls)
  have a: "get_scheduled_action (px_actions scan_person_env) (strip (text_or_empty (PStr ''patching.scan''))) = Inr scan_action"
    and v: "verified_person sam_request = Some (1, sam)" by code_simp+
  then obtain dc where d: "scan_answer = (Inr (Some dc), [])" "dc_token dc = scan_token" using scan_declared c
    by (simp add: scan_answer_def describe_confirmation_for_request_def describe_confirmation_def describe_action_def scan_token_def scan_parameters scan_action_def)
  have u: "wq_user sam_request = Some (1, sam)" by (simp add: sam_request_def)
  from described_creation_is_accepted [OF d(1) [unfolded scan_answer_def] _ u a c(1) scan_declared, of 700 False "[]"] show ?thesis by (simp add: scan_creation_def d(2))
qed

end
