(* ===== verification/Throttles.thy ===== *)
theory Throttles
  imports Py_Value Complex_Main
begin

text \<open>
  The attempt buckets of the recovery-code login (\<open>throttles.py\<close>): counters with a time window in Django's shared cache. The cache is
  an association list of values with an expiry time; an entry is there as long as the clock is before its expiry,
  \<open>add\<close> writes only an absent key, \<open>incr\<close> keeps the expiry. The SHA-256 digest is a parameter. The DRF throttle classes only set
  a rate for third-party code and are not modelled.
\<close>

section \<open>Cache\<close>

type_synonym cache = "(string, rat \<times> rat) dict"

definition cache_get :: "rat \<Rightarrow> string \<Rightarrow> cache \<Rightarrow> rat option" where
  "cache_get now k c = (case dget c k of None \<Rightarrow> None | Some (v, ex) \<Rightarrow> if now < ex then Some v else None)"

definition cache_set :: "rat \<Rightarrow> string \<Rightarrow> rat \<Rightarrow> rat \<Rightarrow> cache \<Rightarrow> cache" where
  "cache_set now k v timeout c = dset k (v, now + timeout) c"

definition cache_add :: "rat \<Rightarrow> string \<Rightarrow> rat \<Rightarrow> rat \<Rightarrow> cache \<Rightarrow> bool \<times> cache" where
  "cache_add now k v timeout c =
     (case cache_get now k c of None \<Rightarrow> (True, cache_set now k v timeout c) | Some _ \<Rightarrow> (False, c))"

definition cache_incr :: "rat \<Rightarrow> string \<Rightarrow> cache \<Rightarrow> (rat \<times> cache) option" where
  "cache_incr now k c =
     (case dget c k of None \<Rightarrow> None
      | Some (v, ex) \<Rightarrow> if now < ex then Some (v + 1, dset k (v + 1, ex) c) else None)"

definition cache_delete_many :: "string list \<Rightarrow> cache \<Rightarrow> cache" where
  "cache_delete_many ks c = fold ddel ks c"

section \<open>Tokens\<close>

definition casefold :: "string \<Rightarrow> string" where
  "casefold s = concat (map (\<lambda>c. if code c = 223 then ''ss'' else [lower_char c]) s)"

definition account_token :: "(string \<Rightarrow> string) \<Rightarrow> string \<Rightarrow> string" where
  "account_token sha v = sha (casefold (strip v))"

text \<open>A user with a primary key is told apart by it, any other by the name.\<close>

definition user_token :: "(string \<Rightarrow> string) \<Rightarrow> int option \<Rightarrow> string \<Rightarrow> string" where
  "user_token sha pk name =
     (case pk of Some i \<Rightarrow> account_token sha (''pk:'' @ show_int i) | None \<Rightarrow> account_token sha (''username:'' @ name))"

definition username_token :: "(string \<Rightarrow> string) \<Rightarrow> pyval \<Rightarrow> string" where
  "username_token sha v = account_token sha (''username:'' @ casefold (clean_text v))"

section \<open>Buckets\<close>

definition count_key :: "string \<Rightarrow> string \<Rightarrow> string" where
  "count_key kind token = ''tec-tac:mfa-backup:'' @ kind @ '':'' @ token @ '':count''"

definition reset_key :: "string \<Rightarrow> string \<Rightarrow> string" where
  "reset_key kind token = ''tec-tac:mfa-backup:'' @ kind @ '':'' @ token @ '':reset''"

definition or_zero :: "rat option \<Rightarrow> rat" where
  "or_zero v = (case v of None \<Rightarrow> 0 | Some x \<Rightarrow> x)"

definition bucket_retry_after :: "rat \<Rightarrow> string \<Rightarrow> string \<Rightarrow> int \<Rightarrow> cache \<Rightarrow> int option \<times> cache" where
  "bucket_retry_after now kind token limit c =
     (let n = or_zero (cache_get now (count_key kind token) c) in
      if n < rat_of_int limit then (None, c)
      else
        (let reset_at = or_zero (cache_get now (reset_key kind token) c) in
         if reset_at \<le> now then (None, cache_delete_many [count_key kind token, reset_key kind token] c)
         else (Some (max 1 \<lceil>reset_at - now\<rceil>), c)))"

definition open_bucket :: "rat \<Rightarrow> string \<Rightarrow> string \<Rightarrow> rat \<Rightarrow> cache \<Rightarrow> cache" where
  "open_bucket now kind token window c =
     cache_set now (reset_key kind token) (now + window) window (cache_set now (count_key kind token) 1 window c)"

definition ensure_reset :: "rat \<Rightarrow> string \<Rightarrow> string \<Rightarrow> rat \<Rightarrow> cache \<Rightarrow> cache" where
  "ensure_reset now kind token window c =
     (if cache_get now (reset_key kind token) c = None
      then cache_set now (reset_key kind token) (now + window) window c else c)"

definition bucket_claim :: "rat \<Rightarrow> string \<Rightarrow> string \<Rightarrow> int \<Rightarrow> rat \<Rightarrow> cache \<Rightarrow> int option \<times> cache" where
  "bucket_claim now kind token limit window c =
     (case cache_add now (count_key kind token) 1 window c of
        (True, c1) \<Rightarrow> (None, cache_set now (reset_key kind token) (now + window) window c1)
      | (False, c1) \<Rightarrow>
          (case cache_incr now (count_key kind token) c1 of
             None \<Rightarrow> (None, open_bucket now kind token window c1)
           | Some (n, c2) \<Rightarrow>
               (let c3 = ensure_reset now kind token window c2 in
                if n \<le> rat_of_int limit then (None, c3)
                else
                  (let reset_at = or_zero (cache_get now (reset_key kind token) c3)
                   in (Some (if reset_at > now then max 1 \<lceil>reset_at - now\<rceil> else \<lfloor>window\<rfloor>), c3)))))"

definition bucket_record :: "rat \<Rightarrow> string \<Rightarrow> string \<Rightarrow> rat \<Rightarrow> cache \<Rightarrow> cache" where
  "bucket_record now kind token window c =
     (case cache_add now (count_key kind token) 1 window c of
        (True, c1) \<Rightarrow> cache_set now (reset_key kind token) (now + window) window c1
      | (False, c1) \<Rightarrow>
          ensure_reset now kind token window
            (case cache_incr now (count_key kind token) c1 of
               None \<Rightarrow> open_bucket now kind token window c1
             | Some (n, c2) \<Rightarrow> c2))"

definition bucket_clear :: "string \<Rightarrow> string \<Rightarrow> cache \<Rightarrow> cache" where
  "bucket_clear kind token c = cache_delete_many [count_key kind token, reset_key kind token] c"

section \<open>The limits of the login\<close>

definition failure_limit :: int where "failure_limit = 5"
definition failure_window :: rat where "failure_window = 900"
definition password_failure_limit :: int where "password_failure_limit = 20"
definition success_limit :: int where "success_limit = 20"
definition success_window :: rat where "success_window = 86400"

definition proof_failure_retry_after :: "(string \<Rightarrow> string) \<Rightarrow> rat \<Rightarrow> int option \<Rightarrow> string \<Rightarrow> cache \<Rightarrow> int option \<times> cache" where
  "proof_failure_retry_after sha now pk name c = bucket_retry_after now ''proof-failure'' (user_token sha pk name) failure_limit c"

definition record_proof_failure :: "(string \<Rightarrow> string) \<Rightarrow> rat \<Rightarrow> int option \<Rightarrow> string \<Rightarrow> cache \<Rightarrow> cache" where
  "record_proof_failure sha now pk name c = bucket_record now ''proof-failure'' (user_token sha pk name) failure_window c"

definition reset_proof_failures :: "(string \<Rightarrow> string) \<Rightarrow> int option \<Rightarrow> string \<Rightarrow> cache \<Rightarrow> cache" where
  "reset_proof_failures sha pk name c = bucket_clear ''proof-failure'' (user_token sha pk name) c"

definition proof_success_retry_after :: "(string \<Rightarrow> string) \<Rightarrow> rat \<Rightarrow> int option \<Rightarrow> string \<Rightarrow> cache \<Rightarrow> int option \<times> cache" where
  "proof_success_retry_after sha now pk name c = bucket_retry_after now ''proof-success'' (user_token sha pk name) success_limit c"

definition record_proof_success :: "(string \<Rightarrow> string) \<Rightarrow> rat \<Rightarrow> int option \<Rightarrow> string \<Rightarrow> cache \<Rightarrow> cache" where
  "record_proof_success sha now pk name c = bucket_record now ''proof-success'' (user_token sha pk name) success_window c"

definition login_failure_retry_after :: "(string \<Rightarrow> string) \<Rightarrow> rat \<Rightarrow> pyval \<Rightarrow> cache \<Rightarrow> int option \<times> cache" where
  "login_failure_retry_after sha now name c = bucket_retry_after now ''login-code-failure'' (username_token sha name) failure_limit c"

definition claim_login_attempt :: "(string \<Rightarrow> string) \<Rightarrow> rat \<Rightarrow> pyval \<Rightarrow> cache \<Rightarrow> int option \<times> cache" where
  "claim_login_attempt sha now name c = bucket_claim now ''login-code-failure'' (username_token sha name) failure_limit failure_window c"

definition record_login_failure :: "(string \<Rightarrow> string) \<Rightarrow> rat \<Rightarrow> pyval \<Rightarrow> cache \<Rightarrow> cache" where
  "record_login_failure sha now name c = bucket_record now ''login-code-failure'' (username_token sha name) failure_window c"

definition reset_login_failures :: "(string \<Rightarrow> string) \<Rightarrow> pyval \<Rightarrow> cache \<Rightarrow> cache" where
  "reset_login_failures sha name c = bucket_clear ''login-code-failure'' (username_token sha name) c"

definition password_failure_retry_after :: "(string \<Rightarrow> string) \<Rightarrow> rat \<Rightarrow> pyval \<Rightarrow> cache \<Rightarrow> int option \<times> cache" where
  "password_failure_retry_after sha now name c =
     bucket_retry_after now ''login-password-failure'' (username_token sha name) password_failure_limit c"

definition record_password_failure :: "(string \<Rightarrow> string) \<Rightarrow> rat \<Rightarrow> pyval \<Rightarrow> cache \<Rightarrow> cache" where
  "record_password_failure sha now name c = bucket_record now ''login-password-failure'' (username_token sha name) failure_window c"

definition reset_password_failures :: "(string \<Rightarrow> string) \<Rightarrow> pyval \<Rightarrow> cache \<Rightarrow> cache" where
  "reset_password_failures sha name c = bucket_clear ''login-password-failure'' (username_token sha name) c"

section \<open>Facts\<close>

lemma bucket_keys_differ [simp]:
  "count_key kind token \<noteq> reset_key kind token" "reset_key kind token \<noteq> count_key kind token"
  by (simp_all add: count_key_def reset_key_def)

text \<open>The bucket opened at \<open>t\<close> with \<open>n\<close> attempts so far.\<close>

definition bucket_at :: "rat \<Rightarrow> rat \<Rightarrow> nat \<Rightarrow> string \<Rightarrow> string \<Rightarrow> cache \<Rightarrow> bool" where
  "bucket_at t window n kind token c =
     (dget c (count_key kind token) = Some (rat_of_nat n, t + window) \<and>
      dget c (reset_key kind token) = Some (t + window, t + window))"

lemma claim_fresh:
  assumes "cache_get now (count_key kind token) c = None"
  shows "fst (bucket_claim now kind token limit window c) = None \<and>
     bucket_at now window 1 kind token (snd (bucket_claim now kind token limit window c))"
  using assms by (simp add: bucket_claim_def cache_add_def cache_set_def bucket_at_def AList.update_conv')

lemma claim_open:
  assumes "bucket_at t window n kind token c" and "now < t + window"
  shows "(fst (bucket_claim now kind token limit window c) = None \<longleftrightarrow> int (Suc n) \<le> limit) \<and>
     bucket_at t window (Suc n) kind token (snd (bucket_claim now kind token limit window c)) \<and>
     (\<forall>r. fst (bucket_claim now kind token limit window c) = Some r \<longrightarrow> 1 \<le> r \<and> rat_of_int r < t + window - now + 1 \<or> r = 1)"
proof -
  let ?c2 = "AList.update (count_key kind token) (rat_of_nat n + 1, t + window) c"
  have cnt: "cache_get now (count_key kind token) c = Some (rat_of_nat n)"
    and inc: "cache_incr now (count_key kind token) c = Some (rat_of_nat n + 1, ?c2)"
    using assms by (simp_all add: bucket_at_def cache_get_def cache_incr_def)
  have res: "cache_get now (reset_key kind token) ?c2 = Some (t + window)"
    using assms by (simp add: bucket_at_def cache_get_def AList.update_conv')
  have b: "bucket_claim now kind token limit window c =
     (if rat_of_nat n + 1 \<le> rat_of_int limit then (None, ?c2) else (Some (max 1 \<lceil>t + window - now\<rceil>), ?c2))"
    using assms(2) by (simp add: bucket_claim_def cache_add_def cnt inc ensure_reset_def res Let_def or_zero_def)
  have "rat_of_nat n + 1 \<le> rat_of_int limit \<longleftrightarrow> int (Suc n) \<le> limit"
    by (metis of_int_le_iff of_int_of_nat_eq of_nat_Suc add.commute)
  moreover have "bucket_at t window (Suc n) kind token ?c2"
    using assms(1) by (simp add: bucket_at_def AList.update_conv' add.commute)
  moreover have "rat_of_int (max 1 \<lceil>t + window - now\<rceil>) < t + window - now + 1 \<or> max 1 \<lceil>t + window - now\<rceil> = 1"
    using ceiling_correct [of "t + window - now"] by (auto simp: max_def)
  ultimately show ?thesis by (auto simp: b)
qed

fun claims :: "string \<Rightarrow> string \<Rightarrow> int \<Rightarrow> rat \<Rightarrow> rat list \<Rightarrow> cache \<Rightarrow> int option list" where
  "claims kind token limit window [] c = []"
| "claims kind token limit window (t # ts) c =
     (case bucket_claim t kind token limit window c of (r, c1) \<Rightarrow> r # claims kind token limit window ts c1)"

lemma claims_open:
  assumes "bucket_at t window n kind token c" and "\<forall>x \<in> set ts. x < t + window"
  shows "\<forall>i < length ts. claims kind token limit window ts c ! i = None \<longleftrightarrow> int (n + i) < limit"
  using assms
proof (induction ts arbitrary: c n)
  case (Cons x ts)
  obtain r c1 where b: "bucket_claim x kind token limit window c = (r, c1)" by (metis surj_pair)
  have st: "r = None \<longleftrightarrow> int (Suc n) \<le> limit" "bucket_at t window (Suc n) kind token c1"
    using claim_open [OF Cons.prems(1), of x limit] Cons.prems(2) b by auto
  have IH: "\<forall>i < length ts. claims kind token limit window ts c1 ! i = None \<longleftrightarrow> int (Suc n + i) < limit"
    using Cons.IH [OF st(2)] Cons.prems(2) by simp
  show ?case
  proof (intro allI impI)
    fix i assume "i < length (x # ts)"
    then show "claims kind token limit window (x # ts) c ! i = None \<longleftrightarrow> int (n + i) < limit"
      using st(1) IH b by (cases i) auto
  qed
qed simp

lemma length_claims [simp]: "length (claims kind token limit window ts c) = length ts"
  by (induction ts arbitrary: c) (auto split: prod.splits)



text \<open>Clearing a bucket lets the next attempt in.\<close>

lemma clear_opens: "cache_get now (count_key kind token) (bucket_clear kind token c) = None"
proof -
  have "map_of (AList.delete (reset_key kind token) (AList.delete (count_key kind token) c)) (count_key kind token) = None"
    by (simp add: AList.delete_conv')
  then show ?thesis by (simp add: bucket_clear_def cache_delete_many_def cache_get_def)
qed

end
