(* ===== verification/Delegation.thy ===== *)
theory Delegation
  imports Confirmation Throttles
begin

text \<open>
  Delegation (\<open>delegation.py\<close>): a person confirms once that one module may start another module's system action later. Grants, tickets, the start of the provider's
  one-off run and the question which endpoints a ticket covers. The calling module is an input (empty when it cannot be told), and so is whether a strict audit
  row can be written. The text \<open>isoformat\<close> prints for a moment determines the moment, so a digest holds the number. \<open>dw_scopes\<close> and
  \<open>dw_confirmed\<close> are the columns \<open>creation_scope\<close> and \<open>confirmed_by_username\<close> of the schedules started here.
\<close>

section \<open>State\<close>

record delegation_grant =
  gr_id :: nat
  gr_owner_module :: string
  gr_key :: string
  gr_provider :: string
  gr_action_id :: string
  gr_targets :: pydict
  gr_parameters :: pydict
  gr_parameters_digest :: string
  gr_created_by :: "nat option"
  gr_created_by_username :: string
  gr_confirmed_by :: string
  gr_scope :: pyval
  gr_enabled :: bool
  gr_updated_at :: moment

record delegation_deny =
  dd_reason :: string
  dd_cause :: string
  dd_person :: "nat option"
  dd_owner_module :: string
  dd_provider_module :: string
  dd_grant_key :: "string option"

datatype delegation_audit = Grant_Added nat | Grant_Changed nat bool | Grant_Removed nat | Run_Started nat nat

record delegation_world =
  dw_sched :: sched_world
  dw_grants :: "delegation_grant list"
  dw_next_grant :: nat
  dw_next_schedule :: nat
  dw_scopes :: "(nat, pyval) dict"
  dw_confirmed :: "(nat, string) dict"
  dw_denied :: "delegation_deny list"
  dw_creation_denied :: "creation_deny list"
  dw_unmatched :: "(string \<times> string, moment) dict"
  dw_audit :: "delegation_audit list"

record delegation_env =
  dx_person_env :: person_env
  dx_registry :: sa_registry
  dx_mac :: "string \<Rightarrow> string"
  dx_sha :: "string \<Rightarrow> string"
  dx_clock :: int
  dx_time_text :: string
  dx_audit_ok :: bool

abbreviation dx_action :: "delegation_env \<Rightarrow> action_env" where
  "dx_action dx \<equiv> px_action (dx_person_env dx)"

abbreviation dx_context :: "delegation_env \<Rightarrow> context_env" where
  "dx_context dx \<equiv> ax_context (dx_action dx)"

abbreviation dx_now :: "delegation_env \<Rightarrow> moment" where
  "dx_now dx \<equiv> en_now (cx_sched (dx_context dx))"

datatype delegation_error = Refused string | Try_Again | Fault

definition ticket_ttl :: int where "ticket_ttl = 24 * 3600"

definition max_grants_per_owner :: nat where "max_grants_per_owner = 20"

definition marker_key :: string where "marker_key = ''system_action_delegation''"

definition delegation_confirmation_prefix :: string where "delegation_confirmation_prefix = ''tec-tac-delegation-confirmation-v1|''"

definition ticket_prefix :: string where "ticket_prefix = ''tec-tac-delegation-ticket-v1|''"

definition marker_prefix :: string where "marker_prefix = ''tec-tac-delegated-run-v1|''"

definition grant_key_re :: "string \<Rightarrow> bool" where
  "grant_key_re k = (k \<noteq> [] \<and> length k \<le> 120 \<and> (is_lower_ascii (hd k) \<or> is_digit (hd k)) \<and>
     list_all (\<lambda>c. is_lower_ascii c \<or> is_digit c \<or> c \<in> set '':_.-'') k)"

section \<open>Tokens and digests\<close>

text \<open>\<open>_open\<close>: the body of a token signed with the prefix. \<open>None\<close> is a value that is no token.\<close>

definition open_token :: "(string \<Rightarrow> string) \<Rightarrow> string \<Rightarrow> signed_token option \<Rightarrow> pydict option" where
  "open_token mac label token = (case token of None \<Rightarrow> None | Some t \<Rightarrow> if signature_ok mac label t then Some (tk_body t) else None)"

definition grant_fields :: "delegation_grant \<Rightarrow> pydict" where
  "grant_fields g = [(''a'', PStr (gr_action_id g)), (''e'', PBool (gr_enabled g)), (''g'', PStr (show_nat (gr_id g))), (''k'', PStr (gr_key g)),
     (''n'', PStr (gr_created_by_username g)), (''o'', PStr (gr_owner_module g)), (''p'', PStr (gr_provider g)), (''q'', PStr (gr_parameters_digest g)),
     (''t'', PDict (gr_targets g)), (''u'', PStr (case gr_created_by g of None \<Rightarrow> [] | Some i \<Rightarrow> show_nat i)), (''w'', PStr (show_int (gr_updated_at g)))]"

definition grant_digest :: "(string \<Rightarrow> string) \<Rightarrow> delegation_grant \<Rightarrow> string" where
  "grant_digest sha g = value_digest sha (PDict (grant_fields g))"

definition str_is :: "pydict \<Rightarrow> string \<Rightarrow> string \<Rightarrow> bool" where
  "str_is body k s = (dget body k = Some (PStr s))"

definition grant_of_body :: "delegation_world \<Rightarrow> pydict \<Rightarrow> delegation_grant option" where
  "grant_of_body w body = find (\<lambda>g. str_is body ''g'' (show_nat (gr_id g))) (dw_grants w)"

definition find_grant :: "delegation_world \<Rightarrow> string \<Rightarrow> string \<Rightarrow> delegation_grant option" where
  "find_grant w m k = find (\<lambda>g. gr_owner_module g = m \<and> gr_key g = k) (dw_grants w)"

section \<open>Refusals\<close>

text \<open>\<open>_deny\<close>: one row for each refusal, except that a caller Core cannot place leaves at most one in five minutes.\<close>

record deny_meta =
  me_person :: "nat option"
  me_owner :: string
  me_provider :: string
  me_grant :: "delegation_grant option"
  me_cause :: string

definition plain_meta :: "string \<Rightarrow> string \<Rightarrow> deny_meta" where
  "plain_meta owner provider = \<lparr>me_person = None, me_owner = owner, me_provider = provider, me_grant = None, me_cause = []\<rparr>"

definition deny_delegation :: "delegation_env \<Rightarrow> string \<Rightarrow> deny_meta \<Rightarrow> delegation_world \<Rightarrow> (delegation_error + 'a) \<times> delegation_world" where
  "deny_delegation dx reason m w =
     (let row = \<lparr>dd_reason = reason, dd_cause = take 60 (me_cause m), dd_person = me_person m, dd_owner_module = take 100 (me_owner m),
            dd_provider_module = take 100 (me_provider m), dd_grant_key = map_option gr_key (me_grant m)\<rparr>;
          w1 = w\<lparr>dw_denied := dw_denied w @ [row]\<rparr> in
      if reason \<noteq> ''caller_unverified'' then (Inl (Refused reason), w1)
      else (case unmatched_due (ax_now (dx_action dx)) reason [] (dw_unmatched w) of
          (due, seen) \<Rightarrow> (Inl (Refused reason), (if due then w1 else w)\<lparr>dw_unmatched := seen\<rparr>)))"

definition caller_problem :: "string \<Rightarrow> string \<Rightarrow> string option" where
  "caller_problem caller expected = (if caller = [] then Some ''caller_unverified'' else if caller \<noteq> expected then Some ''wrong_module'' else None)"

section \<open>The provider's action\<close>

definition provider_action :: "delegation_env \<Rightarrow> string \<Rightarrow> string \<Rightarrow> pyval \<Rightarrow> string + scheduled_action \<times> sa_definition \<times> system_function" where
  "provider_action dx owner provider action_id =
     (let ax = dx_action dx; name = str_arg action_id in
      case (if is_str action_id then dget (dx_registry dx) name else None) of
        None \<Rightarrow> Inl ''unknown_action''
      | Some d \<Rightarrow>
          rcheck (df_module_id d \<noteq> provider) ''unknown_action''
          (case get_scheduled_action (en_actions (cx_sched (dx_context dx))) name of
             Inl _ \<Rightarrow> Inl ''unknown_action''
           | Inr act \<Rightarrow>
               rcheck (ac_module_id act \<noteq> provider) ''unknown_action''
              (rcheck (owner \<notin> set (df_delegable_to d)) ''not_delegable''
              (case dget system_functions (df_function d) of
                 None \<Rightarrow> Inl ''unknown_action''
               | Some entry \<Rightarrow>
                   rcheck (sf_kind entry \<noteq> Kind_Task) ''not_delegable''
                  (rcheck (\<not> declared_now ax provider name) ''action_not_declared''
                  (rcheck (action_module_enabled ax provider \<noteq> Some True \<or> action_module_enabled ax owner \<noteq> Some True) ''module_disabled''
                  (rcheck (df_via_replacement d \<and> honoured_now ax provider \<noteq> Some (sf_owner_module entry)) ''replacement_not_honoured''
                  (Inr (act, d, entry)))))))))"

section \<open>Describing and registering a grant\<close>

record grant_request =
  gq_owner_module :: pyval
  gq_provider_module :: pyval
  gq_action_id :: pyval
  gq_targets :: pyval
  gq_parameters :: pyval

definition module_id_ok :: "pyval \<Rightarrow> bool" where
  "module_id_ok v = (case v of PStr s \<Rightarrow> id_word s | _ \<Rightarrow> False)"

definition confirmation_fields :: "delegation_env \<Rightarrow> nat \<Rightarrow> grant_request \<Rightarrow> pydict option" where
  "confirmation_fields dx person q = map_option (\<lambda>key. [(''u'', PStr (show_nat person)), (''o'', gq_owner_module q), (''p'', gq_provider_module q),
     (''a'', gq_action_id q), (''t'', PStr key), (''q'', PStr (value_digest (dx_sha dx) (parameters_of (gq_parameters q))))]) (targets_key (dx_sha dx) (gq_targets q))"

text \<open>What describe and register check first, in this order: the module ids, the caller, the grant key (register only), the person, the action and the creation-time
  controls, which leave a row of their own.\<close>

datatype request_problem = Denied string "nat option" | Control_Refused string nat scheduled_action

definition check_request :: "delegation_env \<Rightarrow> string \<Rightarrow> web_request \<Rightarrow> grant_request \<Rightarrow> pyval option \<Rightarrow>
    request_problem + nat \<times> account \<times> scheduled_action \<times> creation_info" where
  "check_request dx caller request q grant_key =
     (let owner = str_arg (gq_owner_module q); provider = str_arg (gq_provider_module q) in
      rcheck (\<not> module_id_ok (gq_owner_module q) \<or> \<not> module_id_ok (gq_provider_module q)) (Denied ''bad_module'' None)
     (case caller_problem caller owner of Some reason \<Rightarrow> Inl (Denied reason None)
      | None \<Rightarrow>
          rcheck (case grant_key of None \<Rightarrow> False | Some k \<Rightarrow> \<not> (is_str k \<and> grant_key_re (str_arg k))) (Denied ''bad_grant_key'' None)
         (case verified_person request of None \<Rightarrow> Inl (Denied ''no_person'' None)
          | Some (i, acc) \<Rightarrow> (case provider_action dx owner provider (gq_action_id q) of
              Inl reason \<Rightarrow> Inl (Denied reason (Some i))
            | Inr (act, _, _) \<Rightarrow> (case controls (dx_person_env dx) (dx_registry dx) acc act (gq_targets q) (gq_parameters q) (Some owner) of
                Inl reason \<Rightarrow> Inl (Control_Refused reason i act)
              | Inr info \<Rightarrow> Inr (i, acc, act, info))))))"

definition refuse_request :: "delegation_env \<Rightarrow> grant_request \<Rightarrow> request_problem \<Rightarrow> delegation_world \<Rightarrow> (delegation_error + 'a) \<times> delegation_world" where
  "refuse_request dx q p w = (case p of
     Denied reason person \<Rightarrow> deny_delegation dx reason ((plain_meta (text_or_empty (gq_owner_module q)) (text_or_empty (gq_provider_module q)))\<lparr>me_person := person\<rparr>) w
   | Control_Refused reason i act \<Rightarrow> (Inl (Refused reason), w\<lparr>dw_creation_denied := dw_creation_denied w @ [deny_of i act reason]\<rparr>))"

definition describe_delegation :: "delegation_env \<Rightarrow> string \<Rightarrow> web_request \<Rightarrow> grant_request \<Rightarrow> delegation_world \<Rightarrow> (delegation_error + signed_token) \<times> delegation_world" where
  "describe_delegation dx caller request q w = (case check_request dx caller request q None of
     Inl p \<Rightarrow> refuse_request dx q p w
   | Inr (i, _, _, _) \<Rightarrow> (case confirmation_fields dx i q of
       None \<Rightarrow> (Inl (Refused ''targets_unresolved''), w)
     | Some flds \<Rightarrow> (Inr (sign_body (dx_mac dx) delegation_confirmation_prefix (flds @ [(''x'', PInt (dx_clock dx + confirmation_ttl))])), w)))"

definition confirmation_ok :: "delegation_env \<Rightarrow> signed_token option \<Rightarrow> nat \<Rightarrow> grant_request \<Rightarrow> bool" where
  "confirmation_ok dx token person q = (case (open_token (dx_mac dx) delegation_confirmation_prefix token, confirmation_fields dx person q) of
     (Some body, Some wanted) \<Rightarrow> body_fits body wanted (dx_clock dx) | _ \<Rightarrow> False)"

definition account_name :: "account \<Rightarrow> string" where
  "account_name acc = take 150 (acc_username acc)"

definition grant_owner_differs :: "delegation_grant \<Rightarrow> nat \<Rightarrow> account \<Rightarrow> bool" where
  "grant_owner_differs g i acc = (case gr_created_by g of Some j \<Rightarrow> j \<noteq> i | None \<Rightarrow> casefold (gr_created_by_username g) \<noteq> casefold (account_name acc))"

definition takeover_covered :: "delegation_env \<Rightarrow> user \<Rightarrow> string \<Rightarrow> scheduled_action \<Rightarrow> pydict \<Rightarrow> bool option" where
  "takeover_covered dx u owner act canonical = (case resolver_scope_check (dx_person_env dx) u owner (PDict canonical) True False of
     Some covered \<Rightarrow> Some covered | None \<Rightarrow> person_covers_targets (dx_person_env dx) u act (PDict canonical))"

definition confirmed_grant :: "delegation_env \<Rightarrow> nat \<times> account \<Rightarrow> grant_request \<Rightarrow> pydict \<Rightarrow> bool \<Rightarrow> delegation_grant \<Rightarrow> delegation_grant" where
  "confirmed_grant dx person q canonical take_over g =
     (let (i, acc) = person; name = account_name acc in
      g\<lparr>gr_created_by := (if take_over then Some i else gr_created_by g), gr_created_by_username := (if take_over then name else gr_created_by_username g),
        gr_provider := str_arg (gq_provider_module q), gr_action_id := str_arg (gq_action_id q), gr_targets := canonical, gr_parameters := dict_of (gq_parameters q),
        gr_parameters_digest := value_digest (dx_sha dx) (parameters_of (gq_parameters q)), gr_confirmed_by := name,
        gr_scope := snapshot_val (capture (px_views (dx_person_env dx)) (cx_fields (dx_context dx)) (dx_time_text dx) (acc_username acc) (Some (user_of acc))),
        gr_enabled := True, gr_updated_at := dx_now dx\<rparr>)"

definition empty_grant :: "nat \<Rightarrow> string \<Rightarrow> string \<Rightarrow> delegation_grant" where
  "empty_grant i owner key = \<lparr>gr_id = i, gr_owner_module = owner, gr_key = key, gr_provider = [], gr_action_id = [], gr_targets = [], gr_parameters = [],
     gr_parameters_digest = [], gr_created_by = None, gr_created_by_username = [], gr_confirmed_by = [], gr_scope = PDict [], gr_enabled = True, gr_updated_at = 0\<rparr>"

record grant_answer =
  ga_key :: string
  ga_created :: bool
  ga_owner_changed :: bool

text \<open>The transaction of \<open>register\<close>: \<open>Inl\<close> is a refusal found inside, after which everything is rolled back.\<close>

definition store_grant :: "delegation_env \<Rightarrow> nat \<times> account \<Rightarrow> scheduled_action \<Rightarrow> grant_request \<Rightarrow> string \<Rightarrow> pydict \<Rightarrow> delegation_world \<Rightarrow>
    (delegation_error \<times> delegation_grant option) + grant_answer \<times> delegation_world" where
  "store_grant dx person act q key canonical w =
     (let owner = str_arg (gq_owner_module q); (i, acc) = person in
      case find_grant w owner key of
        None \<Rightarrow>
          if max_grants_per_owner \<le> length (filter (\<lambda>g. gr_owner_module g = owner) (dw_grants w)) then Inl (Refused ''grant_limit'', None)
          else if \<not> dx_audit_ok dx then Inl (Try_Again, None)
          else Inr (\<lparr>ga_key = key, ga_created = True, ga_owner_changed = False\<rparr>,
            w\<lparr>dw_grants := dw_grants w @ [confirmed_grant dx person q canonical True (empty_grant (dw_next_grant w) owner key)], dw_next_grant := Suc (dw_next_grant w),
              dw_audit := dw_audit w @ [Grant_Added (dw_next_grant w)]\<rparr>)
      | Some g \<Rightarrow>
          (let differs = grant_owner_differs g i acc;
               stored = (\<lambda>w. if \<not> dx_audit_ok dx then Inl (Try_Again, None)
                  else Inr (\<lparr>ga_key = key, ga_created = False, ga_owner_changed = differs\<rparr>,
                    w\<lparr>dw_grants := map (\<lambda>h. if gr_id h = gr_id g then confirmed_grant dx person q canonical differs g else h) (dw_grants w),
                      dw_audit := dw_audit w @ [Grant_Changed (gr_id g) differs]\<rparr>)) in
           if \<not> differs then stored w
           else (case takeover_covered dx (user_of acc) owner act canonical of
               None \<Rightarrow> Inl (Fault, None)
             | Some False \<Rightarrow> Inl (Refused ''takeover_out_of_scope'', Some g)
             | Some True \<Rightarrow> stored w)))"

definition register_grant :: "delegation_env \<Rightarrow> string \<Rightarrow> web_request \<Rightarrow> grant_request \<Rightarrow> pyval \<Rightarrow> signed_token option option \<Rightarrow> delegation_world \<Rightarrow>
    (delegation_error + grant_answer) \<times> delegation_world" where
  "register_grant dx caller request q grant_key confirmation_id w = (case check_request dx caller request q (Some grant_key) of
     Inl p \<Rightarrow> refuse_request dx q p w
   | Inr (i, acc, act, _) \<Rightarrow>
       (let m = (plain_meta (str_arg (gq_owner_module q)) (str_arg (gq_provider_module q)))\<lparr>me_person := Some i\<rparr> in
        case confirmation_id of
          None \<Rightarrow> deny_delegation dx ''confirmation_required'' m w
        | Some token \<Rightarrow>
            if \<not> confirmation_ok dx token i q then deny_delegation dx ''confirmation_invalid'' m w
            else (case normalize_scheduler_targets (gq_targets q) of
                Inl _ \<Rightarrow> (Inl Fault, w)
              | Inr shaped \<Rightarrow> (case canonicalize_endpoint_targets_for_user (cx_directory (dx_context dx)) (user_of acc) shaped of
                  Inl _ \<Rightarrow> (Inl Fault, w)
                | Inr canonical \<Rightarrow> (case store_grant dx (i, acc) act q (str_arg grant_key) canonical w of
                    Inr (answer, w1) \<Rightarrow> (Inr answer, w1)
                  | Inl (Refused reason, g) \<Rightarrow> deny_delegation dx reason (m\<lparr>me_grant := g\<rparr>) w
                  | Inl (e, _) \<Rightarrow> (Inl e, w))))))"

definition remove_grant :: "delegation_env \<Rightarrow> string \<Rightarrow> pyval \<Rightarrow> pyval \<Rightarrow> delegation_world \<Rightarrow> (delegation_error + bool) \<times> delegation_world" where
  "remove_grant dx caller owner_module grant_key w =
     (let owner = str_arg owner_module; deny = (\<lambda>reason. deny_delegation dx reason (plain_meta owner []) w) in
      if \<not> module_id_ok owner_module then deny ''bad_module''
      else (case caller_problem caller owner of Some reason \<Rightarrow> deny reason
        | None \<Rightarrow>
            if \<not> (is_str grant_key \<and> grant_key_re (str_arg grant_key)) then deny ''bad_grant_key''
            else (case find_grant w owner (str_arg grant_key) of
                None \<Rightarrow> (Inr False, w)
              | Some g \<Rightarrow> if \<not> dx_audit_ok dx then (Inl Try_Again, w)
                  else (Inr True, w\<lparr>dw_grants := filter (\<lambda>h. gr_id h \<noteq> gr_id g) (dw_grants w), dw_audit := dw_audit w @ [Grant_Removed (gr_id g)]\<rparr>))))"

section \<open>The ticket\<close>

definition ticket_fields :: "delegation_env \<Rightarrow> nat \<Rightarrow> delegation_grant \<Rightarrow> pydict" where
  "ticket_fields dx run_id g = [(''r'', PStr (show_nat run_id)), (''g'', PStr (show_nat (gr_id g))), (''d'', PStr (grant_digest (dx_sha dx) g)),
     (''o'', PStr (gr_owner_module g)), (''p'', PStr (gr_provider g)), (''x'', PInt (dx_clock dx + ticket_ttl))]"

definition issue_ticket :: "delegation_env \<Rightarrow> string \<Rightarrow> nat option \<Rightarrow> pyval \<Rightarrow> delegation_world \<Rightarrow> (delegation_error + signed_token) \<times> delegation_world" where
  "issue_ticket dx caller issued grant_key w =
     (case (if cx_read_fails (dx_context dx) then None else Option.bind issued (get_run (dw_sched w))) of
        None \<Rightarrow> deny_delegation dx ''context_invalid'' (plain_meta [] []) w
      | Some r \<Rightarrow>
          (let m = rn_module_id r; meta = plain_meta m []; deny = (\<lambda>reason. deny_delegation dx reason meta w) in
           case verify_run_context (dx_context dx) (dw_sched w) issued (PStr m) (PStr (rn_action_id r)) False of
             Inl _ \<Rightarrow> deny ''context_invalid''
           | Inr _ \<Rightarrow> (case caller_problem caller m of Some reason \<Rightarrow> deny reason
             | None \<Rightarrow>
                 if \<not> (is_str grant_key \<and> grant_key_re (str_arg grant_key)) then deny ''bad_grant_key''
                 else (case find_grant w m (str_arg grant_key) of
                     None \<Rightarrow> deny ''grant_missing''
                   | Some g \<Rightarrow>
                       if \<not> gr_enabled g then deny_delegation dx ''grant_disabled'' (meta\<lparr>me_grant := Some g\<rparr>) w
                       else (Inr (sign_body (dx_mac dx) ticket_prefix (ticket_fields dx (rn_id r) g)), w)))))"

section \<open>The start\<close>

definition run_marker :: "delegation_env \<Rightarrow> nat \<Rightarrow> delegation_grant \<Rightarrow> signed_token" where
  "run_marker dx schedule_id g = sign_body (dx_mac dx) marker_prefix
     [(''s'', PStr (show_nat schedule_id)), (''g'', PStr (show_nat (gr_id g))), (''d'', PStr (grant_digest (dx_sha dx) g))]"

text \<open>A token inside the parameters of a schedule is the value that holds its body and signature.\<close>

definition token_val :: "signed_token \<Rightarrow> pyval" where
  "token_val t = PList [PDict (tk_body t), PStr (tk_signature t)]"

definition val_token :: "pyval \<Rightarrow> signed_token option" where
  "val_token v = (case v of PList [PDict body, PStr s] \<Rightarrow> Some \<lparr>tk_body = body, tk_signature = s\<rparr> | _ \<Rightarrow> None)"

definition run_is_validly_delegated :: "delegation_env \<Rightarrow> delegation_world \<Rightarrow> sched_run \<Rightarrow> bool" where
  "run_is_validly_delegated dx w r =
     (case open_token (dx_mac dx) marker_prefix (val_token (get_or (dict_of (rn_parameters r)) marker_key PNone)) of
        None \<Rightarrow> False
      | Some body \<Rightarrow>
          str_is body ''s'' (show_nat (rn_snapshot_id r)) \<and> rn_owner_type r = Owner_Module \<and> is_one_off_key (rn_owner_key r) \<and>
          (case grant_of_body w body of
             None \<Rightarrow> False
           | Some g \<Rightarrow> gr_enabled g \<and> gr_provider g = rn_owner_module r \<and> str_is body ''d'' (grant_digest (dx_sha dx) g)))"

text \<open>\<open>_checked_ticket\<close>: a refusal names its reason, the owner module the ticket told and the grant once they are known.\<close>

type_synonym ticket_problem = "string \<times> string \<times> delegation_grant option"

definition checked_ticket :: "delegation_env \<Rightarrow> string \<Rightarrow> signed_token option \<Rightarrow> pyval \<Rightarrow> delegation_world \<Rightarrow>
    ticket_problem + pydict \<times> delegation_grant \<times> scheduled_action" where
  "checked_ticket dx caller token action_id w = (case open_token (dx_mac dx) ticket_prefix token of
     None \<Rightarrow> Inl (''ticket_invalid'', [], None)
   | Some body \<Rightarrow>
       (let owner = text_or_empty (get_or body ''o'' PNone) in
        case py_int (get_or body ''x'' (PInt 0)) of
          Inl _ \<Rightarrow> Inl (''ticket_invalid'', owner, None)
        | Inr x \<Rightarrow>
            rcheck (x < dx_clock dx) (''ticket_expired'', owner, None)
           (case grant_of_body w body of
              None \<Rightarrow> Inl (''grant_missing'', owner, None)
            | Some g \<Rightarrow>
                rcheck (\<not> gr_enabled g) (''grant_disabled'', owner, Some g)
               (rcheck (\<not> (str_is body ''d'' (grant_digest (dx_sha dx) g) \<and> str_is body ''o'' (gr_owner_module g) \<and> str_is body ''p'' (gr_provider g))) (''grant_changed'', owner, Some g)
               (rcheck (gr_provider g \<noteq> caller) (''wrong_module'', owner, Some g)
               (rcheck (action_id \<noteq> PStr (gr_action_id g)) (''unknown_action'', owner, Some g)
               (case provider_action dx (gr_owner_module g) caller action_id of
                  Inl reason \<Rightarrow> Inl (reason, owner, Some g)
                | Inr (act, _, _) \<Rightarrow> Inr (body, g, act))))))))"

text \<open>The endpoints a grant covers: inside its targets, read by the owner module's resolver, and inside the stored scope.\<close>

datatype coverage = Not_Covered string | Cover_Fault | Covers "endpoint_row list"

definition grant_numbers :: "delegation_env \<Rightarrow> delegation_grant \<Rightarrow> int list option" where
  "grant_numbers dx g = (let cx = dx_context dx in
     case agent_pks_for_scheduler_targets (cx_directory cx) (en_actions (cx_sched cx)) (cx_resolvers cx) (Some (gr_owner_module g)) (PDict (gr_targets g)) of
       Inr (Some (pks, _)) \<Rightarrow> Some pks | _ \<Rightarrow> None)"

definition covered_rows :: "delegation_env \<Rightarrow> delegation_grant \<Rightarrow> int list \<Rightarrow> coverage" where
  "covered_rows dx g ids = (case normalize (gr_scope g) of
     None \<Rightarrow> Not_Covered ''creation_scope_unavailable''
   | Some s \<Rightarrow> (case grant_numbers dx g of
       None \<Rightarrow> Not_Covered ''targets_unresolved''
     | Some pks \<Rightarrow>
         if \<not> set ids \<subseteq> set pks then Not_Covered ''outside_grant''
         else (case agent_rows_in_scope (cx_directory (dx_context dx)) (Some ids) (Some s) None (nat max_agents) of
             Inl _ \<Rightarrow> Cover_Fault
           | Inr rows \<Rightarrow> if set (map er_pk rows) = set ids then Covers rows else Not_Covered ''outside_grant'')))"

text \<open>\<open>str(uuid.UUID(hex))\<close> of 32 digits.\<close>

definition uuid_text :: "string \<Rightarrow> string" where
  "uuid_text h = join ''-'' [take 8 h, take 4 (drop 8 h), take 4 (drop 12 h), take 4 (drop 16 h), drop 20 h]"

definition call_key :: "delegation_env \<Rightarrow> pydict \<Rightarrow> delegation_grant \<Rightarrow> string" where
  "call_key dx body g = one_off_prefix @ uuid_text (value_digest (dx_sha dx) (PDict [(''r'', get_or body ''r'' PNone), (''g'', PStr (show_nat (gr_id g))),
     (''d'', PStr (grant_digest (dx_sha dx) g)), (''a'', PStr (gr_action_id g))]))"

definition owned_schedule :: "sched_world \<Rightarrow> string \<Rightarrow> string \<Rightarrow> schedule option" where
  "owned_schedule w m k = find (\<lambda>s. sc_owner_module s = m \<and> sc_owner_key s = k) (sw_schedules w)"

definition newest_run :: "sched_run list \<Rightarrow> sched_run option" where
  "newest_run rs = (if rs = [] then None else Some (last (sort_key rn_created_at rs)))"

definition earlier_ids :: "schedule \<Rightarrow> string list option" where
  "earlier_ids s = (case get_or (dict_of (sc_targets s)) ''ids'' PNone of PList vs \<Rightarrow> Some (map py_str vs) | _ \<Rightarrow> None)"

definition one_off_schedule :: "delegation_env \<Rightarrow> string \<Rightarrow> delegation_grant \<Rightarrow> scheduled_action \<Rightarrow> string \<Rightarrow> string \<Rightarrow> endpoint_row list \<Rightarrow> nat \<Rightarrow> schedule" where
  "one_off_schedule dx caller g act key label rows i =
     \<lparr>sc_id = i, sc_name = label, sc_module_id = ac_module_id act, sc_action_id = ac_id act, sc_target_mode = ''snapshot'',
      sc_targets = PDict [(''type'', PStr ''endpoint''), (''ids'', PList (map (\<lambda>r. PStr (er_agent_id r)) rows))], sc_target_state = ''valid'', sc_target_state_detail = [],
      sc_parameters = PDict (dset marker_key (token_val (run_marker dx i g)) (gr_parameters g)), sc_type = Once, sc_timezone = ''UTC'', sc_run_at = Some (dx_now dx),
      sc_run_time = None, sc_weekdays = [], sc_day_of_month = None, sc_month_week = None, sc_month_weekday = None, sc_interval_seconds = None, sc_interval_anchor_at = None,
      sc_owner_type = Owner_Module, sc_owner_module = caller, sc_owner_key = key, sc_enabled = False, sc_paused_reason = [], sc_missed_policy = Missed_Skip,
      sc_missed_grace_minutes = 60, sc_concurrency_policy = Overlap_Skip, sc_retry_count = 0, sc_retry_delay_seconds = 60, sc_last_due_key = None, sc_last_run_at = None,
      sc_created_by = gr_created_by g, sc_created_by_username = gr_created_by_username g, sc_updated_at = dx_now dx\<rparr>"

definition delegated_label :: "scheduled_action \<Rightarrow> pyval \<Rightarrow> string" where
  "delegated_label act name = take 255 (strip (if truthy name then py_str name else ac_label act @ '' '' @ [char_of (183 :: nat)] @ '' delegated''))"

text \<open>A new one-off schedule with its run, the strict row and the hand-over. A run that cannot be handed over stays as failed history without its schedule.\<close>

definition create_delegated :: "delegation_env \<Rightarrow> string \<Rightarrow> delegation_grant \<Rightarrow> scheduled_action \<Rightarrow> string \<Rightarrow> string \<Rightarrow> endpoint_row list \<Rightarrow> delegation_world \<Rightarrow>
    (delegation_error + nat) \<times> delegation_world" where
  "create_delegated dx caller g act key label rows w =
     (let i = dw_next_schedule w; s = one_off_schedule dx caller g act key label rows i; j = sw_next_run (dw_sched w);
          added = add_run ((new_run (dx_now dx) s (dx_now dx) 0)\<lparr>rn_manual := True\<rparr>) ((dw_sched w)\<lparr>sw_schedules := sw_schedules (dw_sched w) @ [s]\<rparr>);
          w1 = w\<lparr>dw_sched := added, dw_next_schedule := Suc i, dw_scopes := dset i (gr_scope g) (dw_scopes w), dw_confirmed := dset i (gr_confirmed_by g) (dw_confirmed w),
            dw_audit := dw_audit w @ [Run_Started j (gr_id g)]\<rparr> in
      if owned_schedule (dw_sched w) caller key \<noteq> None then (Inl Fault, w)
      else if \<not> dx_audit_ok dx then (Inl Try_Again, w)
      else (case queue_run (cx_sched (dx_context dx)) j added of
          (True, queued) \<Rightarrow> (Inr j, w1\<lparr>dw_sched := queued\<rparr>)
        | (False, failed) \<Rightarrow> (Inl Try_Again, w1\<lparr>dw_sched := delete_schedule i failed\<rparr>)))"

definition start_delegated :: "delegation_env \<Rightarrow> string \<Rightarrow> signed_token option \<Rightarrow> pyval \<Rightarrow> pyval \<Rightarrow> pyval \<Rightarrow> delegation_world \<Rightarrow> (delegation_error + nat) \<times> delegation_world" where
  "start_delegated dx caller token action_id agents name w =
     (if caller = [] then deny_delegation dx ''caller_unverified'' (plain_meta [] []) w
      else (case checked_ticket dx caller token action_id w of
          Inl (reason, owner, g) \<Rightarrow> deny_delegation dx reason ((plain_meta owner caller)\<lparr>me_grant := g\<rparr>) w
        | Inr (body, g, act) \<Rightarrow>
            (let deny = (\<lambda>reason. deny_delegation dx reason ((plain_meta (gr_owner_module g) caller)\<lparr>me_grant := Some g\<rparr>) w) in
             case agent_ids agents of Inl reason \<Rightarrow> deny reason
             | Inr ids \<Rightarrow> (case covered_rows dx g ids of
                 Not_Covered reason \<Rightarrow> deny reason
               | Cover_Fault \<Rightarrow> (Inl Try_Again, w)
               | Covers rows \<Rightarrow>
                   (let key = call_key dx body g; create = create_delegated dx caller g act key (delegated_label act name) rows w in
                    case owned_schedule (dw_sched w) caller key of
                      None \<Rightarrow> create
                    | Some s \<Rightarrow>
                        if map_option set (earlier_ids s) \<noteq> Some (set (map er_agent_id rows)) then deny ''ticket_used''
                        else (case newest_run (runs_of (dw_sched w) (sc_id s)) of
                            None \<Rightarrow> create
                          | Some r \<Rightarrow>
                              if rn_status r = Run_Queued \<and> rn_task_id r = [] then
                                (case queue_run (cx_sched (dx_context dx)) (rn_id r) (dw_sched w) of
                                   (True, queued) \<Rightarrow> (Inr (rn_id r), w\<lparr>dw_sched := queued\<rparr>)
                                 | (False, failed) \<Rightarrow> (Inl Try_Again, w\<lparr>dw_sched := failed\<rparr>))
                              else (Inr (rn_id r), w)))))))"

section \<open>Which endpoints a ticket covers\<close>

definition endpoint_ref :: "pyval \<Rightarrow> bool" where
  "endpoint_ref v = (case v of PInt i \<Rightarrow> 0 < i \<and> i < 2 ^ 63 | PStr s \<Rightarrow> s \<noteq> [] \<and> length s \<le> 100 \<and> list_all is_printable s | _ \<Rightarrow> False)"

definition endpoint_refs :: "pyval \<Rightarrow> string + int list \<times> string list" where
  "endpoint_refs v = (case v of
     PList vs \<Rightarrow>
       if vs = [] \<or> max_agents < int (length vs) then Inl ''agent_count''
       else if list_all endpoint_ref vs then Inr (sort (dedup (List.map_filter number_of vs)), sort (dedup (List.map_filter text_of vs)))
       else Inl ''bad_agents''
   | _ \<Rightarrow> Inl ''bad_agents'')"

record covered_answer =
  ca_agents :: "(string \<times> int) list"
  ca_not_covered :: nat

definition resolve_delegated :: "delegation_env \<Rightarrow> string \<Rightarrow> signed_token option \<Rightarrow> pyval \<Rightarrow> pyval \<Rightarrow> delegation_world \<Rightarrow>
    (delegation_error + covered_answer) \<times> delegation_world" where
  "resolve_delegated dx caller token action_id endpoints w =
     (if caller = [] then deny_delegation dx ''caller_unverified'' (plain_meta [] []) w
      else (let generic = (\<lambda>reason owner g. deny_delegation dx ''ticket_invalid'' ((plain_meta owner caller)\<lparr>me_grant := g, me_cause := reason\<rparr>) w) in
        case checked_ticket dx caller token action_id w of
          Inl (reason, owner, g) \<Rightarrow> generic reason owner g
        | Inr (_, g, _) \<Rightarrow> (case endpoint_refs endpoints of
            Inl reason \<Rightarrow> deny_delegation dx reason ((plain_meta (gr_owner_module g) caller)\<lparr>me_grant := Some g\<rparr>) w
          | Inr (numbers, texts) \<Rightarrow> (case normalize (gr_scope g) of
              None \<Rightarrow> generic ''creation_scope_unavailable'' (gr_owner_module g) (Some g)
            | Some s \<Rightarrow> (case grant_numbers dx g of
                None \<Rightarrow> generic ''targets_unresolved'' (gr_owner_module g) (Some g)
              | Some pks \<Rightarrow> (case agent_rows_in_scope (cx_directory (dx_context dx)) (Some (sort (dedup pks))) (Some s) None (nat max_agents) of
                  Inl _ \<Rightarrow> (Inl Try_Again, w)
                | Inr rows \<Rightarrow>
                    if max_agents < int (length rows) then generic ''targets_unresolved'' (gr_owner_module g) (Some g)
                    else (let hits = filter (\<lambda>r. er_pk r \<in> set numbers) rows; named = filter (\<lambda>r. er_agent_id r \<in> set texts) rows;
                              matched = length (filter (\<lambda>n. n \<in> er_pk ` set rows) numbers) + length (filter (\<lambda>t. t \<in> er_agent_id ` set rows) texts);
                              covered = sort_key er_pk (remdups (hits @ named)) in
                      (Inr \<lparr>ca_agents = map (\<lambda>r. (er_agent_id r, er_pk r)) covered, ca_not_covered = length numbers + length texts - matched\<rparr>, w))))))))"

end
