(* ===== verification/Schedule_Safety.thy ===== *)
theory Schedule_Safety
  imports Schedule_Runs
begin

text \<open>
  The scheduler as a machine over histories of its events (ticks, Run now, worker claims, handler returns and
  failures, pending completions, settlements), in any order: the run table keeps its invariant, and a
  finished run is never rewritten. All operations are compositions of four primitive changes of the run
  table, each shown to be an evolution once.
\<close>

section \<open>Evolution of runs\<close>

definition run_ok :: "sched_run \<Rightarrow> bool" where
  "run_ok r = ((rn_status r = Run_Queued \<longrightarrow> rn_finished_at r = None) \<and>
     (rn_status r = Run_Running \<longrightarrow> rn_finished_at r = None \<and> rn_started_at r \<noteq> None) \<and>
     (finished_run r \<longrightarrow> rn_finished_at r \<noteq> None) \<and>
     (rn_completion_state r \<in> {Comp_Completed, Comp_Expired} \<longrightarrow> finished_run r))"

text \<open>Deleting a schedule clears the reference of its runs; nothing else of a finished run may change.\<close>

definition run_evolves :: "sched_run \<Rightarrow> sched_run \<Rightarrow> bool" where
  "run_evolves r r' = (rn_id r' = rn_id r \<and> (finished_run r \<longrightarrow> r' = r\<lparr>rn_schedule := rn_schedule r'\<rparr>) \<and> (run_ok r \<longrightarrow> run_ok r'))"

definition runs_inv :: "sched_world \<Rightarrow> bool" where
  "runs_inv w = (distinct (map rn_id (sw_runs w)) \<and> (\<forall>r \<in> set (sw_runs w). rn_id r < sw_next_run w \<and> run_ok r))"

definition runs_evolve :: "sched_world \<Rightarrow> sched_world \<Rightarrow> bool" where
  "runs_evolve w w' = (runs_inv w \<longrightarrow> runs_inv w' \<and> sw_next_run w \<le> sw_next_run w' \<and>
     (\<forall>r' \<in> set (sw_runs w'). rn_id r' < sw_next_run w \<longrightarrow> (\<exists>r \<in> set (sw_runs w). run_evolves r r')))"

lemma run_evolves_refl [simp]: "run_evolves r r"
  by (simp add: run_evolves_def)

lemma run_evolves_self [intro]: "r \<in> set rs \<Longrightarrow> \<exists>q \<in> set rs. run_evolves q r"
  using run_evolves_refl by blast

lemma same_finished: "r' = r\<lparr>rn_schedule := k\<rparr> \<Longrightarrow> finished_run r' = finished_run r"
  by (simp add: finished_run_def)

lemma run_evolves_trans:
  assumes "run_evolves r r'" and "run_evolves r' r''"
  shows "run_evolves r r''"
proof -
  have "r'' = r\<lparr>rn_schedule := rn_schedule r''\<rparr>" if f: "finished_run r"
  proof -
    obtain k where k: "r' = r\<lparr>rn_schedule := k\<rparr>" using assms(1) f unfolding run_evolves_def by blast
    obtain l where l: "r'' = r'\<lparr>rn_schedule := l\<rparr>" using assms(2) same_finished [OF k] f unfolding run_evolves_def by blast
    show ?thesis unfolding l k by simp
  qed
  then show ?thesis using assms by (auto simp: run_evolves_def)
qed

lemma runs_evolve_refl [simp]: "runs_evolve w w"
  by (auto simp: runs_evolve_def)

lemma runs_evolve_trans [trans]:
  assumes "runs_evolve a b" and "runs_evolve b c"
  shows "runs_evolve a c"
  unfolding runs_evolve_def
proof
  assume a: "runs_inv a"
  then have ab: "runs_inv b" "sw_next_run a \<le> sw_next_run b"
    "\<forall>r' \<in> set (sw_runs b). rn_id r' < sw_next_run a \<longrightarrow> (\<exists>r \<in> set (sw_runs a). run_evolves r r')"
    using assms(1) by (auto simp: runs_evolve_def)
  then have bc: "runs_inv c" "sw_next_run b \<le> sw_next_run c"
    "\<forall>r' \<in> set (sw_runs c). rn_id r' < sw_next_run b \<longrightarrow> (\<exists>r \<in> set (sw_runs b). run_evolves r r')"
    using assms(2) by (auto simp: runs_evolve_def)
  have "\<exists>r \<in> set (sw_runs a). run_evolves r r''" if r'': "r'' \<in> set (sw_runs c)" "rn_id r'' < sw_next_run a" for r''
  proof -
    obtain r' where r': "r' \<in> set (sw_runs b)" "run_evolves r' r''" using bc(3) r'' ab(2) by fastforce
    then have "rn_id r' < sw_next_run a" using r''(2) by (simp add: run_evolves_def)
    then show ?thesis using ab(3) r' run_evolves_trans by blast
  qed
  then show "runs_inv c \<and> sw_next_run a \<le> sw_next_run c \<and>
      (\<forall>r' \<in> set (sw_runs c). rn_id r' < sw_next_run a \<longrightarrow> (\<exists>r \<in> set (sw_runs a). run_evolves r r'))"
    using ab bc by auto
qed

section \<open>The primitive changes\<close>

lemma evolves_other: "sw_runs w' = sw_runs w \<Longrightarrow> sw_next_run w' = sw_next_run w \<Longrightarrow> runs_evolve w w'"
  by (auto simp: runs_evolve_def runs_inv_def)

lemma evolves_map:
  assumes "\<And>r. run_evolves r (f r)" and "sw_runs w' = map f (sw_runs w)" and "sw_next_run w' = sw_next_run w"
  shows "runs_evolve w w'"
proof -
  have "rn_id \<circ> f = rn_id" using assms(1) by (auto simp: run_evolves_def)
  then show ?thesis using assms by (auto simp: runs_evolve_def runs_inv_def run_evolves_def)
qed

lemma get_run_Some: "get_run w i = Some r \<Longrightarrow> r \<in> set (sw_runs w) \<and> rn_id r = i"
  unfolding get_run_def by (metis (mono_tags, lifting) find_Some_iff nth_mem)

lemma put_runs: "sw_runs (put_run r w) = map (\<lambda>t. if rn_id t = rn_id r then r else t) (sw_runs w)"
  by (simp add: put_run_def)

lemma evolves_put:
  assumes "get_run w i = Some r" and "run_evolves r r'"
  shows "runs_evolve w (put_run r' w)"
  unfolding runs_evolve_def
proof
  assume inv: "runs_inv w"
  let ?f = "\<lambda>t. if rn_id t = rn_id r' then r' else t"
  have r: "r \<in> set (sw_runs w)" "rn_id r' = rn_id r" using get_run_Some [OF assms(1)] assms(2) by (auto simp: run_evolves_def)
  have same: "t = r" if "t \<in> set (sw_runs w)" "rn_id t = rn_id r'" for t
    using inv that r by (auto simp: runs_inv_def dest: inj_onD [OF distinct_map [THEN iffD1, THEN conjunct2]])
  then have each: "run_evolves t (?f t)" if "t \<in> set (sw_runs w)" for t using that assms(2) by auto
  have "map rn_id (map ?f (sw_runs w)) = map rn_id (sw_runs w)" using each by (auto simp: run_evolves_def)
  then have "distinct (map rn_id (sw_runs (put_run r' w)))" using inv unfolding put_runs by (simp only: runs_inv_def)
  moreover have "\<forall>t \<in> set (sw_runs w). rn_id (?f t) < sw_next_run w \<and> run_ok (?f t)"
    using each inv unfolding runs_inv_def run_evolves_def by (metis (no_types, lifting))
  ultimately have "runs_inv (put_run r' w)" unfolding runs_inv_def by (auto simp: put_run_def)
  then show "runs_inv (put_run r' w) \<and> sw_next_run w \<le> sw_next_run (put_run r' w) \<and>
      (\<forall>t \<in> set (sw_runs (put_run r' w)). rn_id t < sw_next_run w \<longrightarrow> (\<exists>r \<in> set (sw_runs w). run_evolves r t))"
    using each r(1) assms(2) by (auto simp: put_run_def)
qed

lemma evolves_add:
  assumes "run_ok r"
  shows "runs_evolve w (add_run r w)"
proof -
  have "run_ok (r\<lparr>rn_id := k\<rparr>)" for k using assms by (simp add: run_ok_def finished_run_def)
  then show ?thesis by (auto simp: runs_evolve_def runs_inv_def add_run_def less_Suc_eq)
qed

lemma evolves_filter:
  assumes "sw_runs w' = filter p (sw_runs w)" and "sw_next_run w' = sw_next_run w"
  shows "runs_evolve w w'"
  using assms by (auto simp: runs_evolve_def runs_inv_def distinct_map_filter)

lemma evolves_fold: "(\<And>x w. runs_evolve (g w) (g (f x w))) \<Longrightarrow> runs_evolve (g w) (g (fold f xs w))"
  by (induction xs arbitrary: w) (auto intro: runs_evolve_trans)

section \<open>Every operation is an evolution\<close>

lemma run_evolves_active:
  "rn_id r' = rn_id r \<Longrightarrow> active_run r \<Longrightarrow> (run_ok r \<Longrightarrow> run_ok r') \<Longrightarrow> run_evolves r r'"
  by (auto simp: run_evolves_def active_run_def finished_run_def)

lemma new_run_ok: "run_ok (new_run clock s t i)"
  by (simp add: new_run_def run_ok_def finished_run_def)

lemma evolves_put_schedule: "runs_evolve w (put_schedule s w)"
  by (rule evolves_other) (simp_all add: put_schedule_def)

lemma evolves_skip_run: "runs_evolve w (skip_run env s t et e w)"
  unfolding skip_run_def by (rule evolves_add) (simp add: new_run_def run_ok_def finished_run_def)

lemma evolves_last_run: "runs_evolve w (last_run_now env r w)"
  by (rule evolves_other) (simp_all add: last_run_now_def split: option.split)

lemma fail_evolves: "active_run r \<Longrightarrow> run_evolves r (fail_run env et e r)"
  by (rule run_evolves_active) (auto simp: fail_run_def run_ok_def finished_run_def)

lemma evolves_recover: "runs_evolve w (recover_stale_runs env w)"
proof -
  define w1 where "w1 = w\<lparr>sw_runs := map (\<lambda>r. if stale_queued env w r then fail_run env ''Stale'' (stale_queued_text w r) r else r) (sw_runs w)\<rparr>"
  have a: "runs_evolve w w1"
    by (rule evolves_map [where f = "\<lambda>r. if stale_queued env w r then fail_run env ''Stale'' (stale_queued_text w r) r else r"])
      (auto simp: w1_def stale_queued_def active_run_def Let_def intro!: fail_evolves)
  have r: "run_evolves r (recover_running env r)" for r
  proof (cases "stale_running env r")
    case True
    then have "active_run r" by (simp add: stale_running_def active_run_def)
    then show ?thesis
      by (rule run_evolves_active [rotated]) (auto simp: recover_running_def Let_def fail_run_def run_ok_def finished_run_def)
  qed (simp add: recover_running_def)
  have "runs_evolve w1 (w1\<lparr>sw_runs := map (recover_running env) (sw_runs w1)\<rparr>)" by (rule evolves_map [OF r]) simp_all
  then show ?thesis using a runs_evolve_trans unfolding recover_stale_runs_def w1_def [symmetric] Let_def by blast
qed

lemma evolvesI: "(runs_inv w \<Longrightarrow> runs_evolve w w') \<Longrightarrow> runs_evolve w w'"
  by (simp add: runs_evolve_def)

lemma evolves_put_queued:
  assumes "get_run w i = Some r" and "active_run r" and "rn_id r' = rn_id r" and "run_ok r \<Longrightarrow> run_ok r'"
  shows "runs_evolve w (put_run r' w)"
  by (rule evolves_put [OF assms(1)]) (rule run_evolves_active, use assms in auto)

lemma evolves_queue_run:
  assumes "queue_run env i w = (ok, w')" and "\<And>r. get_run w i = Some r \<Longrightarrow> rn_status r = Run_Queued"
  shows "runs_evolve w w'"
proof (cases "get_run w i")
  case (Some r)
  then have active: "active_run r" using assms(2) by (simp add: active_run_def)
  have put: "runs_evolve w (put_run r' w)" if "rn_id r' = rn_id r" "run_ok r \<Longrightarrow> run_ok r'" for r'
    using evolves_put_queued [OF Some active] that by blast
  have rest: "runs_evolve (put_run r' w) ((put_run r' w)\<lparr>sw_state := st\<rparr>)" for r' st by (rule evolves_other) simp_all
  show ?thesis
  proof (cases "en_broker env i")
    case (Inl e)
    have "runs_evolve w (put_run (fail_run env ''DispatchError'' e r) w)"
      by (rule put) (simp_all add: fail_run_def run_ok_def finished_run_def)
    then show ?thesis using assms(1) Some Inl runs_evolve_trans [OF _ rest] by (auto simp: queue_run_def)
  next
    case (Inr task)
    have "runs_evolve w (put_run (r\<lparr>rn_task_id := task\<rparr>) w)"
      by (rule put) (simp_all add: run_ok_def finished_run_def)
    then show ?thesis using assms(1) Some Inr runs_evolve_trans [OF _ rest] by (auto simp: queue_run_def)
  qed
qed (use assms in \<open>simp add: queue_run_def\<close>)

lemma find_append: "find P (xs @ ys) = (case find P xs of None \<Rightarrow> find P ys | Some x \<Rightarrow> Some x)"
  by (induction xs) auto

lemma get_added:
  assumes "runs_inv w"
  shows "get_run (add_run r w) (sw_next_run w) = Some (r\<lparr>rn_id := sw_next_run w\<rparr>)"
proof -
  have "find (\<lambda>t. rn_id t = sw_next_run w) (sw_runs w) = None"
    using assms by (auto simp: find_None_iff runs_inv_def)
  then show ?thesis by (simp add: get_run_def add_run_def find_append)
qed

lemma get_run_put_schedule [simp]: "get_run (put_schedule s w) i = get_run w i" "sw_next_run (put_schedule s w) = sw_next_run w"
  by (simp_all add: get_run_def put_schedule_def)

definition fresh_ok :: "sched_world \<Rightarrow> sched_world \<times> tick_result \<Rightarrow> bool" where
  "fresh_ok w out = (runs_evolve w (fst out) \<and>
     (case snd out of Tick_Created i \<Rightarrow> runs_inv w \<longrightarrow> (\<exists>r. get_run (fst out) i = Some r \<and> rn_status r = Run_Queued) | _ \<Rightarrow> True))"

lemma fresh_nothing: "runs_evolve w w' \<Longrightarrow> fresh_ok w (w', Tick_Nothing)"
  by (simp add: fresh_ok_def)

lemma fresh_trans: "runs_evolve w w1 \<Longrightarrow> fresh_ok w1 out \<Longrightarrow> fresh_ok w out"
  unfolding fresh_ok_def using runs_evolve_trans [of w w1 "fst out"] by (auto simp: runs_evolve_def split: tick_result.split)

lemma fresh_skip: "fresh_ok w (skip_occurrence env s t key d et e w)"
  unfolding skip_occurrence_def fresh_ok_def using runs_evolve_trans [OF evolves_skip_run evolves_put_schedule] by simp

lemma fresh_create: "fresh_ok w (put_schedule s' (add_run (new_run clock s t 0) w), Tick_Created (sw_next_run w))"
  unfolding fresh_ok_def
  using runs_evolve_trans [OF evolves_add [OF new_run_ok] evolves_put_schedule] get_added by (auto simp: new_run_def)

lemma fresh_dispatch: "fresh_ok w (dispatch_occurrence env s t w)"
  unfolding dispatch_occurrence_def Let_def
  by (auto intro: fresh_nothing fresh_skip fresh_create evolves_put_schedule split: option.split sum.split prod.split)

lemma fresh_revoke: "fresh_ok w (revoke_occurrence env s e t w)"
  unfolding revoke_occurrence_def Let_def
  by (auto intro: fresh_nothing fresh_skip evolves_put_schedule split: option.split)

lemma fresh_refuse: "fresh_ok w (refuse_targets env s e w)"
  unfolding refuse_targets_def Let_def fresh_ok_def using runs_evolve_trans [OF evolves_put_schedule evolves_skip_run] by simp

lemma fresh_schedule:
  assumes "dispatch_schedule env vis s w = Inr out"
  shows "fresh_ok w out"
proof -
  obtain stop s1 where p: "apply_module_pause vis s = (stop, s1)" by fastforce
  have e1: "runs_evolve w (put_schedule s1 w)" by (rule evolves_put_schedule)
  show ?thesis
  proof (cases stop)
    case True
    then show ?thesis using assms p e1 by (auto simp: dispatch_schedule_def Let_def intro: fresh_nothing)
  next
    case False
    then obtain ct where ct: "canonical_targets env s1 = Inr ct" using assms p by (auto simp: dispatch_schedule_def Let_def)
    show ?thesis
    proof (cases ct)
      case (Inl e)
      then have "out = refuse_targets env s1 e (put_schedule s1 w)" using assms p False ct by (simp add: dispatch_schedule_def Let_def)
      then show ?thesis using fresh_trans [OF e1 fresh_refuse] by simp
    next
      case (Inr t)
      let ?s2 = "adopt_targets env t s1"
      let ?w2 = "put_schedule ?s2 (put_schedule s1 w)"
      have e2: "runs_evolve w ?w2" using runs_evolve_trans [OF e1 evolves_put_schedule] .
      have d: "dispatch_schedule env vis s w = rbind (latest_occurrence (en_tz env) ?s2 (en_now env)) (\<lambda>found. case found of
             None \<Rightarrow> Inr (?w2, Tick_Nothing)
           | Some t \<Rightarrow> Inr (case (if is_unattended_scheduled_run env ?s2 then None else runtime_authorization_error env ?s2 None) of
               Some e \<Rightarrow> revoke_occurrence env ?s2 e t ?w2 | None \<Rightarrow> dispatch_occurrence env ?s2 t ?w2))"
        using p False ct Inr by (simp add: dispatch_schedule_def Let_def)
      obtain found where "latest_occurrence (en_tz env) ?s2 (en_now env) = Inr found" using assms unfolding d by auto
      then have "out = (?w2, Tick_Nothing) \<or> (\<exists>e t. out = revoke_occurrence env ?s2 e t ?w2) \<or> (\<exists>t. out = dispatch_occurrence env ?s2 t ?w2)"
        using assms unfolding d
        by (cases found; cases "if is_unattended_scheduled_run env ?s2 then None else runtime_authorization_error env ?s2 None") auto
      then show ?thesis using fresh_trans [OF e2] fresh_nothing [OF e2] fresh_revoke fresh_dispatch by blast
    qed
  qed
qed

lemma evolves_dispatch_one: "runs_evolve (fst wl) (fst (dispatch_one env vis i wl))"
proof -
  obtain w l where wl: "wl = (w, l)" by fastforce
  show ?thesis
  proof (cases "get_schedule w i")
    case (Some s)
    show ?thesis
    proof (cases "sc_enabled s")
      case True
      show ?thesis
      proof (cases "dispatch_schedule env vis s w")
        case (Inl e)
        have "runs_evolve w (note_dispatch_error env i e w)" by (rule evolves_other) (simp_all add: note_dispatch_error_def)
        then show ?thesis using wl Some True Inl by (simp add: dispatch_one_def)
      next
        case (Inr out)
        obtain w' res where out: "out = (w', res)" by fastforce
        have f: "fresh_ok w (w', res)" using fresh_schedule [OF Inr] out by simp
        then have e: "runs_evolve w w'" by (simp add: fresh_ok_def)
        show ?thesis
        proof (cases res)
          case (Tick_Created r)
          obtain ok w'' where q: "queue_run env r w' = (ok, w'')" by fastforce
          have "runs_evolve w w''"
          proof (rule evolvesI)
            assume "runs_inv w"
            then show "runs_evolve w w''"
              using runs_evolve_trans [OF e evolves_queue_run [OF q]] f Tick_Created by (auto simp: fresh_ok_def)
          qed
          then show ?thesis using wl Some True Inr out Tick_Created q by (simp add: dispatch_one_def)
        qed (use wl Some True Inr out e in \<open>simp_all add: dispatch_one_def\<close>)
      qed
    qed (use wl Some in \<open>simp add: dispatch_one_def\<close>)
  qed (use wl in \<open>simp add: dispatch_one_def\<close>)
qed

lemma evolves_delete_schedule: "runs_evolve w (delete_schedule i w)"
proof (rule evolves_map [where f = "\<lambda>r. if rn_schedule r = Some i then r\<lparr>rn_schedule := None\<rparr> else r"])
  show "run_evolves r (if rn_schedule r = Some i then r\<lparr>rn_schedule := None\<rparr> else r)" for r
    by (simp add: run_evolves_def run_ok_def finished_run_def)
qed (simp_all add: delete_schedule_def)

lemma evolves_cleanup_once: "runs_evolve (fst wn) (fst (cleanup_once_schedules env ss wn))"
proof (induction env ss wn rule: cleanup_once_schedules.induct)
  case (2 env s ss w n)
  then show ?case using runs_evolve_trans [OF evolves_delete_schedule] by (cases "once_expired env w s") auto
qed simp

lemma evolves_cleanup_runs: "runs_evolve w (fst (cleanup_run_history env w))"
  by (rule evolves_filter) (simp_all add: cleanup_run_history_def Let_def)

lemma evolves_after_recovery:
  fixes env w
  defines "st \<equiv> w\<lparr>sw_state := (sw_state w)\<lparr>tk_last_tick_at := Some (en_now env), tk_last_tick_error := []\<rparr>\<rparr>"
  shows "runs_evolve (recover_stale_runs env st) (fst (dispatch_due_schedules env w))"
proof -
  let ?w1 = "recover_stale_runs env st"
  let ?vis = "schedule_visibility (en_modules env) (en_plugins env)"
  let ?start = "(sync_schedules ?vis ?w1, \<lparr>tl_queued = [], tl_skipped = [], tl_failed = 0\<rparr>)"
  obtain w3 l where w3: "fold (dispatch_one env ?vis) (enabled_ids ?w1) ?start = (w3, l)" by fastforce
  obtain w4 n where w4: "cleanup_once_schedules env (sw_schedules w3) (w3, 0) = (w4, n)" by fastforce
  obtain w5 m where w5: "cleanup_run_history env w4 = (w5, m)" by fastforce
  have "runs_evolve ?w1 (sync_schedules ?vis ?w1)" by (rule evolves_other) (simp_all add: sync_schedules_def)
  also have "runs_evolve (sync_schedules ?vis ?w1) w3"
    using evolves_fold [of fst "dispatch_one env ?vis" ?start "enabled_ids ?w1"] evolves_dispatch_one w3 by simp
  also have "runs_evolve w3 w4" using evolves_cleanup_once [of "(w3, 0)" env "sw_schedules w3"] w4 by simp
  also have "runs_evolve w4 w5" using evolves_cleanup_runs [of w4 env] w5 by simp
  finally have "runs_evolve ?w1 w5" .
  then have "runs_evolve ?w1 (w5\<lparr>sw_state := x\<rparr>)" for x by (rule runs_evolve_trans) (rule evolves_other, simp_all)
  then show ?thesis using w3 w4 w5 unfolding dispatch_due_schedules_def st_def Let_def by simp
qed

lemma evolves_tick: "runs_evolve w (fst (dispatch_due_schedules env w))"
proof -
  let ?st = "w\<lparr>sw_state := (sw_state w)\<lparr>tk_last_tick_at := Some (en_now env), tk_last_tick_error := []\<rparr>\<rparr>"
  have "runs_evolve w ?st" by (rule evolves_other) simp_all
  also have "runs_evolve ?st (recover_stale_runs env ?st)" by (rule evolves_recover)
  also have "runs_evolve (recover_stale_runs env ?st) (fst (dispatch_due_schedules env w))" by (rule evolves_after_recovery)
  finally show ?thesis .
qed

lemma evolves_manual:
  assumes "queue_manual_run env i u w = Inr (ok, w')"
  shows "runs_evolve w w'"
proof (rule evolvesI)
  assume inv: "runs_inv w"
  let ?r = "\<lambda>s. (new_run (en_now env) s (en_now env) 0)\<lparr>rn_manual := True, rn_started_by := u\<rparr>"
  obtain s where q: "queue_run env (sw_next_run w) (add_run (?r s) w) = (ok, w')"
    using assms by (auto simp: queue_manual_run_def Let_def split: option.splits if_splits)
  have "run_ok (?r s)" by (simp add: new_run_def run_ok_def finished_run_def)
  then show "runs_evolve w w'"
    using runs_evolve_trans [OF evolves_add evolves_queue_run [OF q]] get_added [OF inv, of "?r s"] by (auto simp: new_run_def)
qed

lemma evolves_when_running:
  assumes "\<And>r. get_run w i = Some r \<Longrightarrow> rn_status r = Run_Running \<Longrightarrow> runs_evolve w (f r w)"
  shows "runs_evolve w (when_running i f w)"
  using assms by (auto simp: when_running_def split: option.split)

lemma evolves_put_running:
  assumes "get_run w i = Some r" and "rn_status r = Run_Running" and "rn_id r' = rn_id r" and "run_ok r \<Longrightarrow> run_ok r'"
  shows "runs_evolve w (put_run r' w)"
  using evolves_put_queued [OF assms(1) _ assms(3,4)] assms(2) by (simp add: active_run_def)

lemma evolves_put_last:
  assumes "get_run w i = Some r" and "rn_status r = Run_Running" and "rn_id r' = rn_id r" and "run_ok r \<Longrightarrow> run_ok r'"
  shows "runs_evolve w (last_run_now env q (put_run r' w))"
  using runs_evolve_trans [OF evolves_put_running [OF assms] evolves_last_run] .

lemma evolves_claim: "runs_evolve w (snd (claim_run env retries i w))"
proof (cases "get_run w i")
  case (Some r)
  show ?thesis
  proof (cases "rn_status r = Run_Queued")
    case True
    then have "runs_evolve w (put_run r' w)" if "rn_id r' = rn_id r" "run_ok r \<Longrightarrow> run_ok r'" for r'
      using evolves_put_queued [OF Some _ that] by (simp add: active_run_def)
    then show ?thesis using Some True
      by (auto simp: claim_run_def Let_def run_ok_def finished_run_def)
  qed (use Some in \<open>simp add: claim_run_def\<close>)
qed (simp add: claim_run_def)

lemma evolves_one_off: "runs_evolve w (skip_unauthorized_one_off env i w)"
  unfolding skip_unauthorized_one_off_def
  by (auto split: option.split intro!: evolves_when_running evolves_put_running simp: run_ok_def finished_run_def)

lemma evolves_returned: "runs_evolve w (handler_returned env i v w)"
  unfolding handler_returned_def
  by (rule evolves_when_running) (erule evolves_put_last; simp add: run_ok_def finished_run_def)

lemma evolves_raised: "runs_evolve w (handler_raised env retries i e c t w)"
  unfolding handler_raised_def Let_def
  by (rule evolves_when_running)
    (auto intro!: evolves_put_last evolves_put_running simp: run_ok_def finished_run_def split: if_split)

lemma evolves_park: "runs_evolve w (park_pending_run env i md k job nt w)"
  unfolding park_pending_run_def Let_def
  by (rule evolves_when_running)
    (auto intro!: evolves_put_last evolves_put_running simp: run_ok_def finished_run_def fail_run_def split: option.split)

lemma settle_applied:
  assumes "settle_check r k job out = Settle_Applied"
  shows "rn_status r = Run_Running" "rn_completion_state r = Comp_Pending"
  using assms by (auto simp: settle_check_def Let_def split: if_splits)

lemma evolves_apply: "runs_evolve w (snd (apply_outcome env i k job out res e et w))"
proof (cases "get_run w i")
  case (Some r)
  show ?thesis
  proof (cases "settle_check r k job out = Settle_Applied")
    case True
    then show ?thesis using Some settle_applied(1) [OF True]
      by (auto simp: apply_outcome_def Let_def run_ok_def finished_run_def intro!: evolves_put_last)
  qed (use Some in \<open>simp add: apply_outcome_def Let_def\<close>)
qed (simp add: apply_outcome_def)

lemma complete_Inr:
  assumes "complete_pending_run env i job ov res e ws w = Inr (dup, w')"
  obtains r out j clean msg where "get_run w i = Some r" "completion_caller_refusal env r = None" "outcome_of ov = Some out" "job = PStr j"
    "apply_outcome env i Kind_Module j out clean msg None w = (if dup then Settle_Duplicate else Settle_Applied, w')"
proof -
  obtain out where out: "outcome_of ov = Some out" using assms by (cases "outcome_of ov") (auto simp: complete_pending_run_def)
  obtain j where j: "job = PStr j" "external_id_re j"
    using assms out by (cases job) (auto simp: complete_pending_run_def split: if_splits)
  obtain r where r: "get_run w i = Some r" using assms out j by (cases "get_run w i") (auto simp: complete_pending_run_def)
  have c: "completion_caller_refusal env r = None"
    using assms out j r by (cases "completion_caller_refusal env r") (auto simp: complete_pending_run_def)
  obtain clean where cl: "clean_result res (if out = Out_Succeeded then ws else PNone) = Inr clean"
    using assms out j r c by (cases "clean_result res (if out = Out_Succeeded then ws else PNone)") (auto simp: complete_pending_run_def)
  obtain msg where m: "clean_error e = Inr msg" using assms out j r c cl by (cases "clean_error e") (auto simp: complete_pending_run_def)
  let ?msg = "if out \<noteq> Out_Succeeded \<and> msg = [] then outcome_text out else msg"
  have "apply_outcome env i Kind_Module j out clean ?msg None w = (if dup then Settle_Duplicate else Settle_Applied, w')"
    using assms out j r c cl m
    by (cases "apply_outcome env i Kind_Module j out clean ?msg None w") (auto simp: complete_pending_run_def split: if_splits)
  then show ?thesis using that r c out j by blast
qed

lemma evolves_complete: "complete_pending_run env i job ov res e ws w = Inr (dup, w') \<Longrightarrow> runs_evolve w w'"
  by (erule complete_Inr) (metis evolves_apply snd_conv)

lemma evolves_settle: "runs_evolve w (settle_server_job_runs env limit w)"
proof -
  have "runs_evolve w (settle_one env r w)" for r w
    unfolding settle_one_def Let_def using evolves_apply
    by (auto split: server_job.split option.split)
  then show ?thesis unfolding settle_server_job_runs_def by (rule evolves_fold [of "\<lambda>w. w" "settle_one env"])
qed

section \<open>Histories\<close>

datatype sched_event =
    Sched_Tick sched_env
  | Sched_Run_Now sched_env nat "nat option"
  | Sched_Claim sched_env int nat
  | Sched_One_Off_Check sched_env nat
  | Sched_Returned sched_env nat pyval
  | Sched_Raised sched_env int nat run_exn string string
  | Sched_Park sched_env nat string pyval pyval pyval
  | Sched_Complete sched_env nat pyval pyval pyval pyval pyval
  | Sched_Settle sched_env int

fun sched_step :: "sched_event \<Rightarrow> sched_world \<Rightarrow> unit + sched_world" where
  "sched_step (Sched_Tick env) w = Inr (fst (dispatch_due_schedules env w))"
| "sched_step (Sched_Run_Now env i u) w = (case queue_manual_run env i u w of Inl _ \<Rightarrow> Inl () | Inr (_, w') \<Rightarrow> Inr w')"
| "sched_step (Sched_Claim env retries i) w = Inr (snd (claim_run env retries i w))"
| "sched_step (Sched_One_Off_Check env i) w = Inr (skip_unauthorized_one_off env i w)"
| "sched_step (Sched_Returned env i v) w = Inr (handler_returned env i v w)"
| "sched_step (Sched_Raised env retries i e c t) w = Inr (handler_raised env retries i e c t w)"
| "sched_step (Sched_Park env i md k job nt) w = Inr (park_pending_run env i md k job nt w)"
| "sched_step (Sched_Complete env i job ov res e ws) w =
     (case complete_pending_run env i job ov res e ws w of Inl _ \<Rightarrow> Inl () | Inr (_, w') \<Rightarrow> Inr w')"
| "sched_step (Sched_Settle env limit) w = Inr (settle_server_job_runs env limit w)"

fun sched_history :: "sched_event list \<Rightarrow> sched_world \<Rightarrow> sched_world" where
  "sched_history [] w = w"
| "sched_history (x # xs) w = (case sched_step x w of Inl _ \<Rightarrow> sched_history xs w | Inr w' \<Rightarrow> sched_history xs w')"

lemma sched_step_evolves: "sched_step x w = Inr w' \<Longrightarrow> runs_evolve w w'"
  by (cases x)
    (auto simp: evolves_tick evolves_claim evolves_one_off evolves_returned evolves_raised evolves_park evolves_settle
      split: sum.splits dest: evolves_manual evolves_complete)

interpretation scheduler: guarded_machine sched_step runs_inv
proof
  fix x w w'
  assume "runs_inv w" "sched_step x w = Inr w'"
  then show "runs_inv w'" using sched_step_evolves by (auto simp: runs_evolve_def)
qed

lemma sched_history_machine: "sched_history xs w = scheduler.run xs w"
  by (induction xs arbitrary: w) (auto split: sum.split)

lemma history_evolves: "runs_evolve w (sched_history xs w)"
proof (induction xs arbitrary: w)
  case (Cons x xs)
  show ?case
  proof (cases "sched_step x w")
    case (Inr w')
    then show ?thesis using runs_evolve_trans [OF sched_step_evolves [OF Inr] Cons] by simp
  qed (use Cons in simp)
qed simp

text \<open>In every history of the scheduler the run table is sound: run ids are unique and never reused, a queued run has no end, a
  running run has a start and no end, a finished run has an end, and a run whose late completion was
  settled or has expired is finished.\<close>

theorem run_table_invariant:
  assumes "sw_runs w = []"
  shows "distinct (map rn_id (sw_runs (sched_history xs w))) \<and>
    (\<forall>r \<in> set (sw_runs (sched_history xs w)). rn_id r < sw_next_run (sched_history xs w) \<and>
       (rn_status r = Run_Queued \<longrightarrow> rn_finished_at r = None) \<and>
       (rn_status r = Run_Running \<longrightarrow> rn_finished_at r = None \<and> rn_started_at r \<noteq> None) \<and>
       (finished_run r \<longrightarrow> rn_finished_at r \<noteq> None) \<and>
       (rn_completion_state r \<in> {Comp_Completed, Comp_Expired} \<longrightarrow> finished_run r))"
proof -
  have "runs_inv w" using assms by (simp add: runs_inv_def)
  then have "runs_inv (sched_history xs w)" by (simp add: sched_history_machine scheduler.run_inv)
  then show ?thesis by (simp add: runs_inv_def run_ok_def)
qed


section \<open>An example history\<close>

definition demo_env :: "moment \<Rightarrow> sched_env" where
  "demo_env t = \<lparr>en_now = t, en_tz = demo_tz, en_actions = demo_actions,
     en_modules = \<lparr>ms_file = File_Missing, ms_lock = Lock_Present, ms_disk_ok = True, ms_cache_epoch = 0\<rparr>,
     en_plugins = Some [\<lparr>ref_id = ''alerts'', ref_legacy = False\<rparr>],
     en_person = (\<lambda>u. if u = 1 then Some \<lparr>pe_active = True, pe_installer = False, pe_username = ''jo''\<rparr> else None),
     en_can_use_action = (\<lambda>_ _. Some True), en_resolver_scope = (\<lambda>_ _ _. Some None), en_target_scope = (\<lambda>_ _. Some True),
     en_system_action = (\<lambda>_ _. False), en_person_actions = (\<lambda>_. Some []), en_delegated = (\<lambda>_. False),
     en_agent_ids = Inr, en_shape_text = (\<lambda>_. ''shape''), en_broker = (\<lambda>_. Inr ''task''), en_revoke = (\<lambda>_. True),
     en_caller = Some ''alerts'', en_job = (\<lambda>_. Job_Not_Found), en_job_id_canonical = (\<lambda>_. True)\<rparr>"

definition sched_demo :: sched_world where
  "sched_demo = \<lparr>sw_schedules = [demo_schedule\<lparr>sc_updated_at := at_time 0 (ordinal 2026 10 1)\<rparr>], sw_runs = [], sw_next_run = 1,
     sw_state = \<lparr>tk_last_tick_at = None, tk_last_tick_completed_at = None, tk_last_tick_error = [], tk_last_checked = 0, tk_last_queued = 0,
       tk_last_skipped = 0, tk_last_cleaned = 0, tk_last_dispatch_at = None, tk_last_dispatch_error = []\<rparr>,
     sw_config = \<lparr>cf_once_retention_hours = 48, cf_run_retention_days = 90, cf_queued_stale_minutes = 10\<rparr>\<rparr>"

definition at_utc :: "int \<Rightarrow> int \<Rightarrow> int \<Rightarrow> moment" where
  "at_utc day hour minute = at_time (time_of_day hour minute) (ordinal 2026 10 day)"

definition demo_events :: "sched_event list" where
  "demo_events = [Sched_Tick (demo_env (at_utc 24 7 1)), Sched_Claim (demo_env (at_utc 24 7 2)) 0 1,
     Sched_Returned (demo_env (at_utc 24 7 3)) 1 PNone]"

definition run_columns :: "sched_run \<Rightarrow> nat \<times> run_status \<times> moment" where
  "run_columns r = (rn_id r, rn_status r, rn_scheduled_for r)"

lemma demo_history: "map run_columns (sw_runs (sched_history demo_events sched_demo)) = [(1, Run_Succeeded, at_utc 24 7 0)]"
  by code_simp

lemma demo_history_later:
  "map run_columns (sw_runs (sched_history (demo_events @ [Sched_Claim (demo_env (at_utc 24 8 0)) 0 1]) sched_demo)) = [(1, Run_Succeeded, at_utc 24 7 0)]"
  by code_simp

theorem run_table_invariant_witness:
  "\<exists>r. sw_runs (sched_history demo_events sched_demo) = [r] \<and> rn_status r = Run_Succeeded \<and> rn_finished_at r \<noteq> None"
proof -
  obtain r where r: "sw_runs (sched_history demo_events sched_demo) = [r]" "run_columns r = (1, Run_Succeeded, at_utc 24 7 0)"
    using demo_history by (auto simp: map_eq_Cons_conv)
  have "sw_runs sched_demo = []" by (simp add: sched_demo_def)
  then show ?thesis using run_table_invariant [of sched_demo demo_events] r by (simp add: run_columns_def finished_run_def)
qed


end
