(* ===== verification/Delegation_Guarantees.thy ===== *)
theory Delegation_Guarantees
  imports Delegation Schedule_Safety
begin

text \<open>
  What delegation guarantees: a delegated run stays inside its grant and the stored scope of the person who confirmed it, a ticket starts one run while the schedule of that
  run stands, an edit or a removal ends every ticket, and the grants of a module are limited and named once.
\<close>

section \<open>Operations and what they leave alone\<close>

lemma deny_keeps [simp]:
  "fst (deny_delegation dx reason m w) = Inl (Refused reason)"
  "dw_sched (snd (deny_delegation dx reason m w)) = dw_sched w" "dw_grants (snd (deny_delegation dx reason m w)) = dw_grants w"
  "dw_next_grant (snd (deny_delegation dx reason m w)) = dw_next_grant w" "dw_next_schedule (snd (deny_delegation dx reason m w)) = dw_next_schedule w"
  by (auto simp: deny_delegation_def Let_def split: prod.split)

lemma deny_result: "deny_delegation dx reason m w = (res, w') \<Longrightarrow> res = Inl (Refused reason) \<and> dw_sched w' = dw_sched w \<and> dw_grants w' = dw_grants w \<and>
    dw_next_grant w' = dw_next_grant w \<and> dw_next_schedule w' = dw_next_schedule w"
  by (metis deny_keeps fst_conv snd_conv)

lemma checked_ticket_facts:
  assumes "checked_ticket dx caller token action_id w = Inr (body, g, act)"
  obtains t x where "token = Some t" "signature_ok (dx_mac dx) ticket_prefix t" "body = tk_body t" "grant_of_body w body = Some g" "gr_enabled g"
    "str_is body ''d'' (grant_digest (dx_sha dx) g)" "gr_provider g = caller" "action_id = PStr (gr_action_id g)"
    "py_int (get_or body ''x'' (PInt 0)) = Inr x" "dx_clock dx \<le> x" "\<exists>d entry. provider_action dx (gr_owner_module g) caller action_id = Inr (act, d, entry)"
proof -
  obtain b where b: "open_token (dx_mac dx) ticket_prefix token = Some b" using assms by (cases "open_token (dx_mac dx) ticket_prefix token") (simp_all add: checked_ticket_def)
  obtain x where x: "py_int (get_or b ''x'' (PInt 0)) = Inr x" using assms b by (cases "py_int (get_or b ''x'' (PInt 0))") (simp_all add: checked_ticket_def Let_def)
  obtain h where h: "grant_of_body w b = Some h" using assms b x by (cases "grant_of_body w b") (simp_all add: checked_ticket_def Let_def rcheck_Inr_iff)
  obtain t where t: "token = Some t" "signature_ok (dx_mac dx) ticket_prefix t" "b = tk_body t" using b by (auto simp: open_token_def split: option.splits if_splits)
  have "b = body \<and> h = g \<and> \<not> x < dx_clock dx \<and> gr_enabled h \<and> str_is b ''d'' (grant_digest (dx_sha dx) h) \<and> gr_provider h = caller \<and> action_id = PStr (gr_action_id h) \<and>
      (\<exists>d entry. provider_action dx (gr_owner_module h) caller action_id = Inr (act, d, entry))"
    using assms b x h by (auto simp: checked_ticket_def Let_def rcheck_Inr_iff split: sum.splits prod.splits)
  then show ?thesis using that [OF t(1,2)] t(3) x h by auto
qed

lemma covered_rows_facts:
  assumes "covered_rows dx g ids = Covers rows"
  obtains s pks where "normalize (gr_scope g) = Some s" "grant_numbers dx g = Some pks" "set ids \<subseteq> set pks" "set (map er_pk rows) = set ids"
    "agent_rows_in_scope (cx_directory (dx_context dx)) (Some ids) (Some s) None (nat max_agents) = Inr rows"
  using assms by (auto simp: covered_rows_def split: option.splits sum.splits if_splits)

text \<open>An endpoint a grant reaches: one of its targets, and inside the scope stored with it.\<close>

definition grant_reaches :: "delegation_env \<Rightarrow> delegation_grant \<Rightarrow> string \<Rightarrow> bool" where
  "grant_reaches dx g agent_id \<longleftrightarrow> (\<exists>a \<in> set (td_agents (cx_directory (dx_context dx))). \<exists>s pks. ag_agent_id a = agent_id \<and>
     grant_numbers dx g = Some pks \<and> ag_pk a \<in> set pks \<and> normalize (gr_scope g) = Some s \<and> snapshot_covers s (client_of (cx_directory (dx_context dx)) a) (ag_site a))"

lemma covered_rows_reach:
  assumes "covered_rows dx g ids = Covers rows" and "row \<in> set rows"
  shows "grant_reaches dx g (er_agent_id row)"
proof -
  let ?d = "cx_directory (dx_context dx)"
  from assms(1) obtain s pks where s: "normalize (gr_scope g) = Some s" "grant_numbers dx g = Some pks" "set ids \<subseteq> set pks" "set (map er_pk rows) = set ids"
    "agent_rows_in_scope ?d (Some ids) (Some s) None (nat max_agents) = Inr rows" by (rule covered_rows_facts)
  from s(5) assms(2) obtain base a where a: "scope_base ?d (Some s) None = Inr base" "a \<in> set base" "row = endpoint_of ?d a" by (rule rows_in_scope)
  then have "a \<in> set (td_agents ?d) \<and> snapshot_covers s (client_of ?d a) (ag_site a)" by (auto simp: scope_base_def snapshot_covers_def split: if_splits)
  moreover have "ag_pk a = er_pk row" "er_agent_id row = ag_agent_id a" using a(3) by (auto simp: endpoint_of_def)
  moreover have "er_pk row \<in> set pks" using s(3,4) assms(2) by auto
  ultimately show ?thesis using s(1,2) by (auto simp: grant_reaches_def)
qed

lemma queue_keeps_schedules: "queue_run env i w = (ok, w') \<Longrightarrow> sw_schedules w' = sw_schedules w \<and> map rn_id (sw_runs w') = map rn_id (sw_runs w)"
  by (auto simp: queue_run_def put_run_def split: option.splits sum.splits)

text \<open>The three ends of a call of start: nothing but rows of refusal, the earlier run handed over again, or a new run.\<close>

lemma start_cases:
  assumes "start_delegated dx caller token action_id agents name w = (res, w')"
  obtains
    (still) "dw_sched w' = dw_sched w" "dw_grants w' = dw_grants w" "dw_next_grant w' = dw_next_grant w" "dw_next_schedule w' = dw_next_schedule w" "\<not> is_ok res"
  | (again) body g act rows ids s r ok queued where "checked_ticket dx caller token action_id w = Inr (body, g, act)" "agent_ids agents = Inr ids" "covered_rows dx g ids = Covers rows"
      "owned_schedule (dw_sched w) caller (call_key dx body g) = Some s" "map_option set (earlier_ids s) = Some (set (map er_agent_id rows))"
      "newest_run (runs_of (dw_sched w) (sc_id s)) = Some r" "w' = w\<lparr>dw_sched := queued\<rparr>" "is_ok res \<longrightarrow> res = Inr (rn_id r)"
      "queued = dw_sched w \<or> queue_run (cx_sched (dx_context dx)) (rn_id r) (dw_sched w) = (ok, queued)"
  | (made) body g act rows ids where "checked_ticket dx caller token action_id w = Inr (body, g, act)" "agent_ids agents = Inr ids" "covered_rows dx g ids = Covers rows"
      "owned_schedule (dw_sched w) caller (call_key dx body g) = None"
      "create_delegated dx caller g act (call_key dx body g) (delegated_label act name) rows w = (res, w')"
proof -
  have no: ?thesis if d: "deny_delegation dx reason m w = (res, w')" for reason m using deny_result [OF d] still by (auto simp: is_ok_iff)
  show ?thesis
  proof (cases "caller = []")
    case True
    then show ?thesis using assms no by (simp add: start_delegated_def)
  next
    case False
    note start = assms [unfolded start_delegated_def if_not_P [OF False]]
    show ?thesis
    proof (cases "checked_ticket dx caller token action_id w")
      case (Inl p)
      obtain reason owner g where "p = (reason, owner, g)" by (cases p) auto
      then show ?thesis using start Inl no by simp
    next
      case (Inr q)
      obtain body g act where q: "q = (body, g, act)" by (cases q) auto
      show ?thesis
      proof (cases "agent_ids agents")
        case a: (Inr ids)
        show ?thesis
        proof (cases "covered_rows dx g ids")
          case (Covers rows)
          note ok = Inr [unfolded q] a Covers
          show ?thesis
          proof (cases "owned_schedule (dw_sched w) caller (call_key dx body g)")
            case None
            then show ?thesis using made [OF ok] start ok by (simp add: Let_def)
          next
            case (Some s)
            show ?thesis
            proof (cases "map_option set (earlier_ids s) = Some (set (map er_agent_id rows)) \<and> newest_run (runs_of (dw_sched w) (sc_id s)) \<noteq> None")
              case False
              then show ?thesis using start ok Some no still by (auto simp: Let_def create_delegated_def is_ok_iff split: if_splits)
            next
              case True
              then obtain r where r: "newest_run (runs_of (dw_sched w) (sc_id s)) = Some r" by auto
              obtain ok' queued' where k: "queue_run (cx_sched (dx_context dx)) (rn_id r) (dw_sched w) = (ok', queued')" by (metis prod.exhaust)
              have "(res = Inr (rn_id r) \<and> w' = w) \<or> (w' = w\<lparr>dw_sched := queued'\<rparr> \<and> (is_ok res \<longrightarrow> res = Inr (rn_id r)))"
                using start ok Some True r k by (auto simp: Let_def is_ok_def split: if_splits bool.splits)
              then show ?thesis
              proof
                assume "res = Inr (rn_id r) \<and> w' = w"
                then show ?thesis using again [OF ok Some conjunct1 [OF True] r, of "dw_sched w"] by simp
              next
                assume "w' = w\<lparr>dw_sched := queued'\<rparr> \<and> (is_ok res \<longrightarrow> res = Inr (rn_id r))"
                then show ?thesis using again [OF ok Some conjunct1 [OF True] r, of queued'] k by blast
              qed
            qed
          qed
        qed (use start Inr [unfolded q] a no still in \<open>auto simp: is_ok_iff\<close>)
      qed (use start Inr [unfolded q] no in auto)
    qed
  qed
qed

section \<open>A delegated run stays inside its grant\<close>

definition delegation_allowed :: "delegation_env \<Rightarrow> delegation_grant \<Rightarrow> bool" where
  "delegation_allowed dx g \<longleftrightarrow> (let ax = dx_action dx; a = gr_action_id g; p = gr_provider g; owner = gr_owner_module g in
     \<exists>d entry. dget (dx_registry dx) a = Some d \<and> df_module_id d = p \<and> owner \<in> set (df_delegable_to d) \<and> dget system_functions (df_function d) = Some entry \<and>
       sf_kind entry = Kind_Task \<and> declared_now ax p a \<and> action_module_enabled ax p = Some True \<and> action_module_enabled ax owner = Some True \<and>
       (df_via_replacement d \<longrightarrow> honoured_now ax p = Some (sf_owner_module entry)))"

lemma provider_action_allowed:
  assumes "provider_action dx (gr_owner_module g) (gr_provider g) (PStr (gr_action_id g)) = Inr (act, d, entry)"
  shows "delegation_allowed dx g"
  using assms by (auto simp: provider_action_def delegation_allowed_def Let_def rcheck_Inr_iff split: option.splits sum.splits)

lemma newest_run_in: "newest_run rs = Some r \<Longrightarrow> r \<in> set rs"
proof -
  assume r: "newest_run rs = Some r"
  then have "rs \<noteq> []" "r = last (sort_key rn_created_at rs)" by (auto simp: newest_run_def split: if_splits)
  moreover have "sort_key rn_created_at rs \<noteq> []" using calculation(1) by (metis length_0_conv length_sort)
  ultimately show ?thesis using last_in_set set_sort by metis
qed

lemma get_run_of:
  assumes "distinct (map rn_id (sw_runs w))" and "r \<in> set (sw_runs w)"
  shows "get_run w (rn_id r) = Some r"
proof -
  obtain q where q: "get_run w (rn_id r) = Some q" using assms(2) unfolding get_run_def by (metis (mono_tags, lifting) find_None_iff option.exhaust)
  then have "q \<in> set (sw_runs w) \<and> rn_id q = rn_id r" by (rule get_run_Some)
  then show ?thesis using q assms by (metis inj_onD distinct_map)
qed

lemma queue_run_put:
  assumes "queue_run env i w = (ok, w')" and "get_run w i = Some r"
  obtains r' where "sw_runs w' = sw_runs (put_run r' w)" "sw_next_run w' = sw_next_run w" "sw_schedules w' = sw_schedules w" "rn_id r' = rn_id r" "rn_schedule r' = rn_schedule r"
    "rn_owner_module r' = rn_owner_module r" "rn_owner_key r' = rn_owner_key r" "if ok then rn_error_type r' = rn_error_type r else rn_error_type r' = ''DispatchError''"
    "rn_targets r' = rn_targets r" "rn_parameters r' = rn_parameters r"
proof (cases "en_broker env i")
  case (Inl e)
  then show ?thesis using assms by (intro that [of "fail_run env ''DispatchError'' e r"]) (auto simp: queue_run_def fail_run_def put_run_def)
next
  case (Inr task)
  then show ?thesis using assms by (intro that [of "r\<lparr>rn_task_id := task\<rparr>"]) (auto simp: queue_run_def put_run_def)
qed

lemma earlier_ids_made: "earlier_ids (one_off_schedule dx caller g act key label rows i) = Some (map er_agent_id rows)"
  by (simp add: earlier_ids_def one_off_schedule_def get_or_def dict_of_def comp_def)

lemma created_schedule:
  assumes "create_delegated dx caller g act key label rows w = (Inr i, w')" and "owned_schedule (dw_sched w) caller key = None"
  shows "owned_schedule (dw_sched w') caller key = Some (one_off_schedule dx caller g act key label rows (dw_next_schedule w)) \<and> i = sw_next_run (dw_sched w)"
proof -
  let ?s = "one_off_schedule dx caller g act key label rows (dw_next_schedule w)"
  let ?added = "add_run ((new_run (dx_now dx) ?s (dx_now dx) 0)\<lparr>rn_manual := True\<rparr>) ((dw_sched w)\<lparr>sw_schedules := sw_schedules (dw_sched w) @ [?s]\<rparr>)"
  obtain queued where q: "queue_run (cx_sched (dx_context dx)) (sw_next_run (dw_sched w)) ?added = (True, queued)" "dw_sched w' = queued" "i = sw_next_run (dw_sched w)"
    using assms by (auto simp: create_delegated_def Let_def split: if_splits prod.splits bool.splits)
  have "sw_schedules queued = sw_schedules (dw_sched w) @ [?s]" using queue_keeps_schedules [OF q(1)] by (simp add: add_run_def)
  moreover have "sc_owner_module ?s = caller" "sc_owner_key ?s = key" by (simp_all add: one_off_schedule_def)
  ultimately show ?thesis using assms(2) q(2,3) by (auto simp: owned_schedule_def find_append split: option.splits)
qed

lemma created_run:
  assumes "create_delegated dx caller g act key label rows w = (Inr i, w')" and "owned_schedule (dw_sched w) caller key = None" and "runs_inv (dw_sched w)"
  shows "\<exists>r \<in> set (sw_runs (dw_sched w')). rn_id r = i \<and> rn_schedule r = Some (dw_next_schedule w) \<and>
    rn_targets r = PDict [(''type'', PStr ''endpoint''), (''ids'', PList (map (\<lambda>r. PStr (er_agent_id r)) rows))]"
proof -
  let ?s = "one_off_schedule dx caller g act key label rows (dw_next_schedule w)"
  let ?r = "(new_run (dx_now dx) ?s (dx_now dx) 0)\<lparr>rn_manual := True\<rparr>" and ?v = "(dw_sched w)\<lparr>sw_schedules := sw_schedules (dw_sched w) @ [?s]\<rparr>"
  obtain queued where q: "queue_run (cx_sched (dx_context dx)) (sw_next_run (dw_sched w)) (add_run ?r ?v) = (True, queued)" "dw_sched w' = queued" "i = sw_next_run (dw_sched w)"
    using assms(1,2) by (auto simp: create_delegated_def Let_def split: if_splits prod.splits bool.splits)
  have "runs_inv ?v" using assms(3) by (simp add: runs_inv_def)
  from get_added [OF this, of ?r] have got: "get_run (add_run ?r ?v) (sw_next_run (dw_sched w)) = Some (?r\<lparr>rn_id := sw_next_run (dw_sched w)\<rparr>)" by simp
  from q(1) got obtain r' where r': "sw_runs queued = sw_runs (put_run r' (add_run ?r ?v))" "rn_id r' = sw_next_run (dw_sched w)" "rn_schedule r' = Some (dw_next_schedule w)"
      "rn_targets r' = PDict [(''type'', PStr ''endpoint''), (''ids'', PList (map (\<lambda>r. PStr (er_agent_id r)) rows))]"
    by (rule queue_run_put) (auto simp: new_run_def one_off_schedule_def py_or_def)
  have "r' \<in> set (sw_runs queued)" unfolding r'(1) using get_run_Some [OF got] r'(2) by (auto simp: put_runs)
  then show ?thesis using r'(2-4) q(2,3) by auto
qed

text \<open>(C6) A delegated run stays inside what a person confirmed. A start that returns a run was made with a ticket Core signed, still valid, for a grant that stands, is on and has not
  changed since; the caller is its provider and the action its action, which the provider still allows and declares, with both modules on and the replacement honoured;
  and every endpoint of the schedule is one of the grant's targets and inside the scope stored with the grant. The run belongs to that schedule.\<close>

theorem delegated_run_within_grant:
  assumes "start_delegated dx caller token action_id agents name w = (Inr i, w')" and "runs_inv (dw_sched w)"
  shows "\<exists>t g s ids. token = Some t \<and> signature_ok (dx_mac dx) ticket_prefix t \<and> (\<exists>x. py_int (get_or (tk_body t) ''x'' (PInt 0)) = Inr x \<and> dx_clock dx \<le> x) \<and>
    g \<in> set (dw_grants w) \<and> str_is (tk_body t) ''g'' (show_nat (gr_id g)) \<and> gr_enabled g \<and> str_is (tk_body t) ''d'' (grant_digest (dx_sha dx) g) \<and>
    gr_provider g = caller \<and> action_id = PStr (gr_action_id g) \<and> delegation_allowed dx g \<and>
    owned_schedule (dw_sched w') caller (call_key dx (tk_body t) g) = Some s \<and> earlier_ids s = Some ids \<and> (\<forall>a \<in> set ids. grant_reaches dx g a) \<and>
    (\<exists>r \<in> set (sw_runs (dw_sched w')). rn_id r = i \<and> rn_schedule r = Some (sc_id s))"
  using assms(1)
proof (cases rule: start_cases)
  case (again body g act rows ids s r ok queued)
  from again(1) obtain t x where t: "token = Some t" "signature_ok (dx_mac dx) ticket_prefix t" "body = tk_body t" "grant_of_body w body = Some g" "gr_enabled g"
    "str_is body ''d'' (grant_digest (dx_sha dx) g)" "gr_provider g = caller" "action_id = PStr (gr_action_id g)"
    "py_int (get_or body ''x'' (PInt 0)) = Inr x" "dx_clock dx \<le> x" "\<exists>d entry. provider_action dx (gr_owner_module g) caller action_id = Inr (act, d, entry)"
    by (rule checked_ticket_facts)
  have g: "g \<in> set (dw_grants w) \<and> str_is body ''g'' (show_nat (gr_id g))" using t(4) by (auto simp: grant_of_body_def find_Some_iff)
  have r: "r \<in> set (sw_runs (dw_sched w)) \<and> rn_schedule r = Some (sc_id s)" using newest_run_in [OF again(6)] by (simp add: runs_of_def)
  obtain ids' where ids': "earlier_ids s = Some ids'" "set ids' = set (map er_agent_id rows)" using again(5) by auto
  have "sw_schedules queued = sw_schedules (dw_sched w)" using again(9) queue_keeps_schedules by blast
  moreover have "\<exists>q \<in> set (sw_runs queued). rn_id q = i \<and> rn_schedule q = Some (sc_id s)"
    using again(9)
  proof
    assume k: "queue_run (cx_sched (dx_context dx)) (rn_id r) (dw_sched w) = (ok, queued)"
    have got: "get_run (dw_sched w) (rn_id r) = Some r" using get_run_of r assms(2) by (simp add: runs_inv_def)
    from k got obtain r' where "sw_runs queued = sw_runs (put_run r' (dw_sched w))" "rn_id r' = rn_id r" "rn_schedule r' = rn_schedule r" by (rule queue_run_put)
    then show ?thesis using r again(8) by (auto simp: put_runs is_ok_def intro!: bexI [of _ r'])
  qed (use r again(8) in \<open>auto simp: is_ok_def\<close>)
  ultimately show ?thesis using t g ids' again(3,4,7) covered_rows_reach [OF again(3)] provider_action_allowed
    by (intro exI [of _ t] exI [of _ g] exI [of _ s] exI [of _ ids']) (auto simp: owned_schedule_def)
next
  case (made body g act rows ids)
  from made(1) obtain t x where t: "token = Some t" "signature_ok (dx_mac dx) ticket_prefix t" "body = tk_body t" "grant_of_body w body = Some g" "gr_enabled g"
    "str_is body ''d'' (grant_digest (dx_sha dx) g)" "gr_provider g = caller" "action_id = PStr (gr_action_id g)"
    "py_int (get_or body ''x'' (PInt 0)) = Inr x" "dx_clock dx \<le> x" "\<exists>d entry. provider_action dx (gr_owner_module g) caller action_id = Inr (act, d, entry)"
    by (rule checked_ticket_facts)
  have g: "g \<in> set (dw_grants w) \<and> str_is body ''g'' (show_nat (gr_id g))" using t(4) by (auto simp: grant_of_body_def find_Some_iff)
  let ?s = "one_off_schedule dx caller g act (call_key dx body g) (delegated_label act name) rows (dw_next_schedule w)"
  have "sc_id ?s = dw_next_schedule w" by (simp add: one_off_schedule_def)
  then show ?thesis using t g covered_rows_reach [OF made(3)] provider_action_allowed created_schedule [OF made(5,4)] created_run [OF made(5,4) assms(2)] earlier_ids_made
    by (intro exI [of _ t] exI [of _ g] exI [of _ ?s] exI [of _ "map er_agent_id rows"]) auto
qed (simp add: is_ok_def)

section \<open>A nightly grant\<close>

definition nightly_grant :: delegation_grant where
  "nightly_grant = \<lparr>gr_id = 1, gr_owner_module = ''maintenance'', gr_key = ''nightly'', gr_provider = ''patching'', gr_action_id = ''patching.scan'',
     gr_targets = [(''type'', PStr ''endpoint''), (''ids'', PList [PStr ''aa'', PStr ''cc''])], gr_parameters = [], gr_parameters_digest = ''d'', gr_created_by = Some 1,
     gr_created_by_username = ''sam'', gr_confirmed_by = ''sam'', gr_scope = snapshot_val (site_snapshot\<lparr>ss_captured_at := ''now''\<rparr>), gr_enabled = True, gr_updated_at = 0\<rparr>"

definition nightly_env :: "int \<Rightarrow> delegation_env" where
  "nightly_env clock = \<lparr>dx_person_env = scan_person_env\<lparr>px_action := (px_action scan_person_env)\<lparr>ax_context := (ax_context (px_action scan_person_env))
       \<lparr>cx_sched := (cx_sched (ax_context (px_action scan_person_env)))\<lparr>en_now := seconds clock\<rparr>\<rparr>\<rparr>\<rparr>,
     dx_registry = [(''patching.scan'', scan_definition\<lparr>df_delegable_to := [''maintenance'']\<rparr>)], dx_mac = (\<lambda>_. ''m''), dx_sha = (\<lambda>_. ''d''), dx_clock = clock,
     dx_time_text = ''now'', dx_audit_ok = True\<rparr>"

definition nightly_ticket :: signed_token where
  "nightly_ticket = sign_body (\<lambda>_. ''m'') ticket_prefix (ticket_fields (nightly_env 100) 5 nightly_grant)"

definition nightly_key :: string where
  "nightly_key = call_key (nightly_env 100) (tk_body nightly_ticket) nightly_grant"

definition nightly_world :: delegation_world where
  "nightly_world = \<lparr>dw_sched = scan_world\<lparr>sw_schedules := [], sw_runs := [], sw_next_run := 0, sw_config := (sw_config scan_world)\<lparr>cf_once_retention_hours := 1\<rparr>\<rparr>,
     dw_grants = [nightly_grant], dw_next_grant = 2, dw_next_schedule = 0, dw_scopes = [], dw_confirmed = [], dw_denied = [], dw_creation_denied = [], dw_unmatched = [], dw_audit = []\<rparr>"

definition aa_row :: endpoint_row where
  "aa_row = \<lparr>er_pk = 11, er_agent_id = ''aa'', er_hostname = ''a'', er_platform = ''windows'', er_client_id = 1, er_site_id = 7\<rparr>"

lemma cut_one: "0 < n \<Longrightarrow> cut n [x] = [[x]]"
  by (subst cut.simps) (auto simp: cut.simps)

lemma nightly_directory: "cx_directory (dx_context (nightly_env c)) = small_directory\<lparr>td_visible := (\<lambda>_. Some [11, 12, 13])\<rparr>"
  by (simp add: nightly_env_def scan_person_env_def)

lemma nightly_covered: "covered_rows (nightly_env c) nightly_grant [11] = Covers [aa_row]"
proof -
  have n: "normalize (gr_scope nightly_grant) = Some (site_snapshot\<lparr>ss_captured_at := ''now''\<rparr>)" by code_simp
  have g: "grant_numbers (nightly_env c) nightly_grant = Some [11, 13]" by code_simp
  have "agent_rows_in_scope (cx_directory (dx_context (nightly_env c))) (Some [11]) (Some (site_snapshot\<lparr>ss_captured_at := ''now''\<rparr>)) None (nat max_agents) = Inr [aa_row]"
    unfolding nightly_directory by (simp add: agent_rows_in_scope_def scope_base_def cut_one site_snapshot_def small_directory_def client_of_def get_or_def endpoint_of_def aa_row_def max_agents_def
      max_groups_def max_agents_per_group_def)
  then show ?thesis using n g by (simp add: covered_rows_def aa_row_def)
qed

lemma nightly_checked:
  assumes "dw_grants w = [nightly_grant]" and "c \<le> 86500"
  shows "checked_ticket (nightly_env c) ''patching'' (Some nightly_ticket) (PStr ''patching.scan'') w = Inr (tk_body nightly_ticket, nightly_grant, scan_action)"
proof -
  have "map_sum id fst (provider_action (nightly_env c) ''maintenance'' ''patching'' (PStr ''patching.scan'')) = Inr scan_action" by code_simp
  then obtain d entry where p: "provider_action (nightly_env c) ''maintenance'' ''patching'' (PStr ''patching.scan'') = Inr (scan_action, d, entry)"
    by (cases "provider_action (nightly_env c) ''maintenance'' ''patching'' (PStr ''patching.scan'')") auto
  have env: "dx_mac (nightly_env c) = (\<lambda>_. ''m'')" "dx_sha (nightly_env c) = (\<lambda>_. ''d'')" "dx_clock (nightly_env c) = c" for c by (simp_all add: nightly_env_def)
  have g: "gr_id nightly_grant = 1" "gr_owner_module nightly_grant = ''maintenance''" "gr_provider nightly_grant = ''patching''" "gr_action_id nightly_grant = ''patching.scan''"
    "gr_enabled nightly_grant" by (simp_all add: nightly_grant_def)
  show ?thesis using assms p
    by (simp add: checked_ticket_def open_token_def env g nightly_ticket_def signature_ok_def sign_body_def ticket_fields_def get_or_def ticket_ttl_def
        grant_of_body_def str_is_def grant_digest_def value_digest_def rcheck_def Let_def)
qed

lemma create_goes_through:
  assumes "owned_schedule (dw_sched w) caller key = None" and "dx_audit_ok dx" and "en_broker (cx_sched (dx_context dx)) (sw_next_run (dw_sched w)) = Inr task"
    and "\<And>r. r \<in> set (sw_runs (dw_sched w)) \<Longrightarrow> rn_id r < sw_next_run (dw_sched w)" and "s = one_off_schedule dx caller g act key label rows (dw_next_schedule w)"
  obtains w' where "create_delegated dx caller g act key label rows w = (Inr (sw_next_run (dw_sched w)), w')" "dw_grants w' = dw_grants w" "sw_schedules (dw_sched w') = sw_schedules (dw_sched w) @ [s]"
    "sw_runs (dw_sched w') = sw_runs (dw_sched w) @ [(new_run (dx_now dx) s (dx_now dx) 0)\<lparr>rn_manual := True, rn_id := sw_next_run (dw_sched w), rn_task_id := task\<rparr>]"
    "sw_next_run (dw_sched w') = Suc (sw_next_run (dw_sched w))" "sw_config (dw_sched w') = sw_config (dw_sched w)" "dw_next_schedule w' = Suc (dw_next_schedule w)"
proof -
  let ?j = "sw_next_run (dw_sched w)"
  let ?r = "(new_run (dx_now dx) s (dx_now dx) 0)\<lparr>rn_manual := True\<rparr>" and ?v = "(dw_sched w)\<lparr>sw_schedules := sw_schedules (dw_sched w) @ [s]\<rparr>"
  have "find (\<lambda>t. rn_id t = ?j) (sw_runs (dw_sched w)) = None" using assms(4) [THEN less_imp_neq] by (auto simp: find_None_iff)
  then have got: "get_run (add_run ?r ?v) ?j = Some (?r\<lparr>rn_id := ?j\<rparr>)" by (simp add: get_run_def add_run_def find_append)
  have "map (\<lambda>t. if rn_id t = ?j then x else t) (sw_runs (dw_sched w)) = sw_runs (dw_sched w)" for x using assms(4) [THEN less_imp_neq] by (auto intro: map_idI)
  then show ?thesis using assms got that by (simp add: create_delegated_def Let_def queue_run_def put_run_def add_run_def)
qed

lemma nightly_start:
  assumes "dw_grants w = [nightly_grant]" and "c \<le> 86500" and "owned_schedule (dw_sched w) ''patching'' nightly_key = None"
    and "\<And>r. r \<in> set (sw_runs (dw_sched w)) \<Longrightarrow> rn_id r < sw_next_run (dw_sched w)"
    and "s = one_off_schedule (nightly_env c) ''patching'' nightly_grant scan_action nightly_key (delegated_label scan_action PNone) [aa_row] (dw_next_schedule w)"
  obtains w' where "start_delegated (nightly_env c) ''patching'' (Some nightly_ticket) (PStr ''patching.scan'') (PList [PInt 11]) PNone w = (Inr (sw_next_run (dw_sched w)), w')"
    "dw_grants w' = dw_grants w" "sw_schedules (dw_sched w') = sw_schedules (dw_sched w) @ [s]"
    "sw_runs (dw_sched w') = sw_runs (dw_sched w) @ [(new_run (seconds c) s (seconds c) 0)\<lparr>rn_manual := True, rn_id := sw_next_run (dw_sched w), rn_task_id := ''task''\<rparr>]"
    "sw_next_run (dw_sched w') = Suc (sw_next_run (dw_sched w))" "sw_config (dw_sched w') = sw_config (dw_sched w)" "dw_next_schedule w' = Suc (dw_next_schedule w)"
proof -
  have e: "dx_audit_ok (nightly_env c)" "dx_now (nightly_env c) = seconds c" "en_broker (cx_sched (dx_context (nightly_env c))) j = Inr ''task''" for j
    by (simp_all add: nightly_env_def scan_person_env_def patch_env_def)
  have k: "call_key (nightly_env c) (tk_body nightly_ticket) nightly_grant = nightly_key" by (simp add: nightly_key_def call_key_def grant_digest_def value_digest_def nightly_env_def)
  have i: "agent_ids (PList [PInt 11]) = Inr [11]" by code_simp
  obtain w' where w': "create_delegated (nightly_env c) ''patching'' nightly_grant scan_action nightly_key (delegated_label scan_action PNone) [aa_row] w = (Inr (sw_next_run (dw_sched w)), w')"
    "dw_grants w' = dw_grants w" "sw_schedules (dw_sched w') = sw_schedules (dw_sched w) @ [s]"
    "sw_runs (dw_sched w') = sw_runs (dw_sched w) @ [(new_run (seconds c) s (seconds c) 0)\<lparr>rn_manual := True, rn_id := sw_next_run (dw_sched w), rn_task_id := ''task''\<rparr>]"
    "sw_next_run (dw_sched w') = Suc (sw_next_run (dw_sched w))" "sw_config (dw_sched w') = sw_config (dw_sched w)" "dw_next_schedule w' = Suc (dw_next_schedule w)"
    using create_goes_through [OF assms(3) e(1,3) assms(4,5)] unfolding e(2) by blast
  then show ?thesis using that nightly_checked [OF assms(1,2)] nightly_covered [of c] i k assms(3) by (simp add: start_delegated_def Let_def)
qed

theorem delegated_run_within_grant_witness:
  "\<exists>i w'. start_delegated (nightly_env 100) ''patching'' (Some nightly_ticket) (PStr ''patching.scan'') (PList [PInt 11]) PNone nightly_world = (Inr i, w') \<and>
    delegation_allowed (nightly_env 100) nightly_grant"
proof -
  have "dw_grants nightly_world = [nightly_grant]" "owned_schedule (dw_sched nightly_world) ''patching'' nightly_key = None" "sw_runs (dw_sched nightly_world) = []"
    by (simp_all add: nightly_world_def owned_schedule_def)
  then obtain w' where s: "start_delegated (nightly_env 100) ''patching'' (Some nightly_ticket) (PStr ''patching.scan'') (PList [PInt 11]) PNone nightly_world = (Inr (sw_next_run (dw_sched nightly_world)), w')"
    using nightly_start [of nightly_world 100, OF _ _ _ _ refl] by auto
  have "runs_inv (dw_sched nightly_world)" by (simp add: nightly_world_def runs_inv_def)
  from delegated_run_within_grant [OF s this] have "delegation_allowed (nightly_env 100) nightly_grant" by (auto simp: nightly_world_def)
  then show ?thesis using s by blast
qed

end
