(* ===== verification/Delegation_History.thy ===== *)
theory Delegation_History
  imports Delegation_Guarantees
begin

text \<open>
  Histories of delegation: grants registered and removed, runs started with tickets, and the worker's changes to runs in between. The grants of a module stay limited and named
  once, and a ticket has at most one run that was handed to a worker.
\<close>

section \<open>Events\<close>

datatype delegation_event =
    Register_Grant delegation_env string web_request grant_request pyval "signed_token option option"
  | Remove_Grant delegation_env string pyval pyval
  | Start_Run delegation_env string "signed_token option" pyval pyval pyval
  | Run_Changes sched_run

text \<open>What the worker and the recovery do to a run: its owner and its schedule stay, and a run that could not be handed over stays that way.\<close>

definition worker_change :: "sched_run \<Rightarrow> sched_run \<Rightarrow> bool" where
  "worker_change r r' = (rn_id r' = rn_id r \<and> rn_schedule r' = rn_schedule r \<and> rn_owner_module r' = rn_owner_module r \<and> rn_owner_key r' = rn_owner_key r \<and>
     (rn_error_type r = ''DispatchError'' \<longrightarrow> rn_error_type r' = ''DispatchError''))"

definition delegation_step :: "delegation_event \<Rightarrow> delegation_world \<Rightarrow> delegation_error + delegation_world" where
  "delegation_step e w = (case e of
     Register_Grant dx caller request q key cid \<Rightarrow> Inr (snd (register_grant dx caller request q key cid w))
   | Remove_Grant dx caller owner key \<Rightarrow> Inr (snd (remove_grant dx caller owner key w))
   | Start_Run dx caller token action_id agents name \<Rightarrow> Inr (snd (start_delegated dx caller token action_id agents name w))
   | Run_Changes r' \<Rightarrow> (case get_run (dw_sched w) (rn_id r') of
       None \<Rightarrow> Inl Fault | Some r \<Rightarrow> if worker_change r r' then Inr (w\<lparr>dw_sched := put_run r' (dw_sched w)\<rparr>) else Inl Fault))"

section \<open>Grants\<close>

definition grants_ok :: "delegation_world \<Rightarrow> bool" where
  "grants_ok w = (distinct (map gr_id (dw_grants w)) \<and> (\<forall>g \<in> set (dw_grants w). gr_id g < dw_next_grant w) \<and>
     distinct (map (\<lambda>g. (gr_owner_module g, gr_key g)) (dw_grants w)) \<and>
     (\<forall>m. length (filter (\<lambda>g. gr_owner_module g = m) (dw_grants w)) \<le> max_grants_per_owner))"

lemma confirmed_keeps [simp]:
  "gr_id (confirmed_grant dx p q c b g) = gr_id g" "gr_owner_module (confirmed_grant dx p q c b g) = gr_owner_module g" "gr_key (confirmed_grant dx p q c b g) = gr_key g"
  "gr_updated_at (confirmed_grant dx p q c b g) = dx_now dx" "gr_enabled (confirmed_grant dx p q c b g)"
  by (auto simp: confirmed_grant_def Let_def split: prod.split)

lemma find_grant_Some: "find_grant w m k = Some g \<Longrightarrow> g \<in> set (dw_grants w) \<and> gr_owner_module g = m \<and> gr_key g = k"
  by (auto simp: find_grant_def find_Some_iff)

lemma find_grant_None: "find_grant w m k = None \<Longrightarrow> (m, k) \<notin> (\<lambda>g. (gr_owner_module g, gr_key g)) ` set (dw_grants w)"
  by (auto simp: find_grant_def find_None_iff)

lemma register_grant_cases:
  assumes "register_grant dx caller request q key cid w = (res, w')"
  obtains (refused) "dw_grants w' = dw_grants w" "dw_next_grant w' = dw_next_grant w" "dw_sched w' = dw_sched w" "dw_next_schedule w' = dw_next_schedule w" "\<not> is_ok res"
  | (stored) i acc act canonical answer where "store_grant dx (i, acc) act q (str_arg key) canonical w = Inr (answer, w')" "res = Inr answer" "caller = str_arg (gq_owner_module q)"
proof -
  have no: ?thesis if d: "deny_delegation dx reason m w = (res, w')" for reason m using deny_result [OF d] refused by (auto simp: is_ok_def)
  show ?thesis
  proof (cases "check_request dx caller request q (Some key)")
    case (Inl p)
    then show ?thesis using assms no refused by (cases p) (auto simp: register_grant_def refuse_request_def is_ok_def)
  next
    case (Inr k)
    obtain i acc act info where k: "k = (i, acc, act, info)" by (cases k) auto
    have c: "caller = str_arg (gq_owner_module q)" using Inr by (auto simp: check_request_def caller_problem_def Let_def rcheck_Inr_iff split: if_splits)
    show ?thesis
    proof (cases "\<exists>token. cid = Some token \<and> confirmation_ok dx token i q")
      case False
      then show ?thesis using assms Inr k no by (cases cid) (auto simp: register_grant_def Let_def)
    next
      case True
      then obtain token where t: "cid = Some token" "confirmation_ok dx token i q" by blast
      show ?thesis
      proof (cases "rbind (map_sum (\<lambda>_. ()) id (normalize_scheduler_targets (gq_targets q))) (\<lambda>shaped. map_sum (\<lambda>_. ()) id (canonicalize_endpoint_targets_for_user (cx_directory (dx_context dx)) (user_of acc) shaped))")
        case n: (Inl u)
        then show ?thesis using assms Inr k t refused
          by (auto simp: register_grant_def Let_def is_ok_def map_sum_def split: sum.splits)
      next
        case n: (Inr canonical)
        then have start: "(case store_grant dx (i, acc) act q (str_arg key) canonical w of
            Inr (answer, w1) \<Rightarrow> (Inr answer, w1)
          | Inl (Refused reason, g) \<Rightarrow> deny_delegation dx reason (((plain_meta (str_arg (gq_owner_module q)) (str_arg (gq_provider_module q)))\<lparr>me_person := Some i\<rparr>)\<lparr>me_grant := g\<rparr>) w
          | Inl (e, _) \<Rightarrow> (Inl e, w)) = (res, w')"
          using assms Inr k t by (auto simp: register_grant_def Let_def map_sum_def split: sum.splits)
        show ?thesis
        proof (cases "store_grant dx (i, acc) act q (str_arg key) canonical w")
          case s: (Inl p)
          obtain e g where "p = (e, g)" by (cases p)
          then show ?thesis using start s no refused by (cases e) (auto simp: is_ok_def)
        next
          case s: (Inr p)
          then show ?thesis using start stored c by (cases p) auto
        qed
      qed
    qed
  qed
qed

lemma store_grant_cases:
  assumes "store_grant dx (i, acc) act q key canonical w = Inr (answer, w')"
  obtains (new) "find_grant w (str_arg (gq_owner_module q)) key = None" "length (filter (\<lambda>g. gr_owner_module g = str_arg (gq_owner_module q)) (dw_grants w)) < max_grants_per_owner"
      "dw_grants w' = dw_grants w @ [confirmed_grant dx (i, acc) q canonical True (empty_grant (dw_next_grant w) (str_arg (gq_owner_module q)) key)]"
      "dw_next_grant w' = Suc (dw_next_grant w)" "dw_sched w' = dw_sched w" "dw_next_schedule w' = dw_next_schedule w"
  | (changed) g b where "find_grant w (str_arg (gq_owner_module q)) key = Some g" "b = grant_owner_differs g i acc" "b \<longrightarrow> takeover_covered dx (user_of acc) (str_arg (gq_owner_module q)) act canonical = Some True"
      "dw_grants w' = map (\<lambda>h. if gr_id h = gr_id g then confirmed_grant dx (i, acc) q canonical b g else h) (dw_grants w)"
      "dw_next_grant w' = dw_next_grant w" "dw_sched w' = dw_sched w" "dw_next_schedule w' = dw_next_schedule w"
proof (cases "find_grant w (str_arg (gq_owner_module q)) key")
  case None
  then show ?thesis using assms new by (auto simp: store_grant_def Let_def split: if_splits)
next
  case (Some g)
  then show ?thesis using assms changed [OF Some refl] by (auto simp: store_grant_def Let_def split: if_splits option.splits bool.splits)
qed

lemma grants_ok_map:
  assumes "grants_ok w" and "\<And>h. gr_id (f h) = gr_id h \<and> (h \<in> set (dw_grants w) \<longrightarrow> gr_owner_module (f h) = gr_owner_module h \<and> gr_key (f h) = gr_key h)"
    and "dw_grants w' = map f (dw_grants w)" and "dw_next_grant w' = dw_next_grant w"
  shows "grants_ok w'"
proof -
  have "map gr_id (dw_grants w') = map gr_id (dw_grants w)" "map (\<lambda>g. (gr_owner_module g, gr_key g)) (dw_grants w') = map (\<lambda>g. (gr_owner_module g, gr_key g)) (dw_grants w)"
    using assms(2,3) by auto
  moreover have "length (filter (\<lambda>g. gr_owner_module g = m) (dw_grants w')) = length (filter (\<lambda>g. gr_owner_module g = m) (dw_grants w))" for m
  proof -
    have "filter ((\<lambda>g. gr_owner_module g = m) \<circ> f) (dw_grants w) = filter (\<lambda>g. gr_owner_module g = m) (dw_grants w)" by (rule filter_cong) (use assms(2) in auto)
    then show ?thesis using assms(3) by (simp add: filter_map)
  qed
  moreover have "\<forall>g \<in> set (dw_grants w'). gr_id g < dw_next_grant w'" using assms by (auto simp: grants_ok_def)
  ultimately show ?thesis using assms(1) by (simp add: grants_ok_def)
qed

lemma store_keeps_grants:
  assumes "grants_ok w" and "store_grant dx (i, acc) act q key canonical w = Inr (answer, w')"
  shows "grants_ok w'"
  using assms(2)
proof (cases rule: store_grant_cases)
  case new
  let ?g = "confirmed_grant dx (i, acc) q canonical True (empty_grant (dw_next_grant w) (str_arg (gq_owner_module q)) key)"
  have "gr_owner_module ?g = str_arg (gq_owner_module q)" "gr_key ?g = key" "gr_id ?g = dw_next_grant w" by (simp_all add: empty_grant_def)
  then show ?thesis using assms(1) new find_grant_None [OF new(1)] by (auto simp: grants_ok_def less_Suc_eq)
next
  case (changed g b)
  have "h = g" if "h \<in> set (dw_grants w)" "gr_id h = gr_id g" for h
    using that assms(1) find_grant_Some [OF changed(1)] by (auto simp: grants_ok_def distinct_map dest: inj_onD)
  then show ?thesis by (intro grants_ok_map [OF assms(1) _ changed(4,5)]) auto
qed

lemma remove_cases:
  assumes "remove_grant dx caller owner key w = (res, w')"
  obtains (still) "dw_grants w' = dw_grants w" "dw_next_grant w' = dw_next_grant w" "dw_sched w' = dw_sched w" "dw_next_schedule w' = dw_next_schedule w" "res \<noteq> Inr True"
  | (removed) g where "find_grant w (str_arg owner) (str_arg key) = Some g" "dw_grants w' = filter (\<lambda>h. gr_id h \<noteq> gr_id g) (dw_grants w)" "dw_next_grant w' = dw_next_grant w"
      "dw_sched w' = dw_sched w" "dw_next_schedule w' = dw_next_schedule w" "caller = str_arg owner"
proof -
  have no: ?thesis if d: "deny_delegation dx reason m w = (res, w')" for reason m using deny_result [OF d] still by auto
  show ?thesis
  proof (cases "module_id_ok owner \<and> caller_problem caller (str_arg owner) = None \<and> is_str key \<and> grant_key_re (str_arg key)")
    case False
    then show ?thesis using assms no by (auto simp: remove_grant_def Let_def split: if_splits option.splits)
  next
    case True
    then have "caller = str_arg owner" by (auto simp: caller_problem_def split: if_splits)
    then show ?thesis using assms True removed still by (auto simp: remove_grant_def Let_def split: if_splits option.splits)
  qed
qed

lemma remove_keeps_grants:
  assumes "grants_ok w" and "remove_grant dx caller owner key w = (res, w')"
  shows "grants_ok w'"
  using assms(2)
proof (cases rule: remove_cases)
  case still
  then show ?thesis using assms(1) by (simp add: grants_ok_def)
next
  case (removed g)
  have f: "length (filter P (filter Q xs)) \<le> length (filter P xs)" for P Q and xs :: "delegation_grant list" by (induction xs) auto
  have "length (filter (\<lambda>h. gr_owner_module h = m) (dw_grants w')) \<le> max_grants_per_owner" for m
    using order_trans [OF f] assms(1) unfolding removed(2) grants_ok_def by blast
  then show ?thesis using assms(1) removed(2,3) by (auto simp: grants_ok_def distinct_map_filter)
qed

section \<open>Runs\<close>

text \<open>The runs of an owner's key that were handed to a worker: a run that could not be handed over counts for nothing.\<close>

definition live_runs :: "string \<Rightarrow> string \<Rightarrow> sched_world \<Rightarrow> sched_run list" where
  "live_runs m k w = filter (\<lambda>r. rn_owner_module r = m \<and> rn_owner_key r = k \<and> rn_error_type r \<noteq> ''DispatchError'') (sw_runs w)"

definition one_live_run :: "nat \<Rightarrow> sched_world \<Rightarrow> bool" where
  "one_live_run n w = (distinct (map rn_id (sw_runs w)) \<and> (\<forall>r \<in> set (sw_runs w). rn_id r < sw_next_run w) \<and>
     distinct (map sc_id (sw_schedules w)) \<and> (\<forall>s \<in> set (sw_schedules w). sc_id s < n) \<and>
     (\<forall>m k. is_one_off_key k \<longrightarrow> length (live_runs m k w) \<le> 1 \<and>
       (\<forall>r \<in> set (live_runs m k w). \<exists>s \<in> set (sw_schedules w). sc_owner_module s = m \<and> sc_owner_key s = k \<and> rn_schedule r = Some (sc_id s))))"

lemma live_runs_iff: "r \<in> set (live_runs m k w) \<longleftrightarrow> r \<in> set (sw_runs w) \<and> rn_owner_module r = m \<and> rn_owner_key r = k \<and> rn_error_type r \<noteq> ''DispatchError''"
  by (auto simp: live_runs_def)

lemma one_live_runI:
  assumes "distinct (map rn_id (sw_runs w))" and "\<And>r. r \<in> set (sw_runs w) \<Longrightarrow> rn_id r < sw_next_run w"
    and "distinct (map sc_id (sw_schedules w))" and "\<And>s. s \<in> set (sw_schedules w) \<Longrightarrow> sc_id s < n"
    and "\<And>m k. is_one_off_key k \<Longrightarrow> length (live_runs m k w) \<le> 1"
    and "\<And>m k r. is_one_off_key k \<Longrightarrow> r \<in> set (live_runs m k w) \<Longrightarrow> \<exists>s \<in> set (sw_schedules w). sc_owner_module s = m \<and> sc_owner_key s = k \<and> rn_schedule r = Some (sc_id s)"
  shows "one_live_run n w"
  using assms by (simp add: one_live_run_def)

lemma one_live_runD:
  assumes "one_live_run n w"
  shows "distinct (map rn_id (sw_runs w))" "r \<in> set (sw_runs w) \<Longrightarrow> rn_id r < sw_next_run w" "distinct (map sc_id (sw_schedules w))" "s \<in> set (sw_schedules w) \<Longrightarrow> sc_id s < n"
    "is_one_off_key k \<Longrightarrow> length (live_runs m k w) \<le> 1"
    "is_one_off_key k \<Longrightarrow> r \<in> set (live_runs m k w) \<Longrightarrow> \<exists>s \<in> set (sw_schedules w). sc_owner_module s = m \<and> sc_owner_key s = k \<and> rn_schedule r = Some (sc_id s)"
  using assms by (simp_all add: one_live_run_def)

lemma filter_map_le: "(\<And>x. x \<in> set xs \<Longrightarrow> P (f x) \<Longrightarrow> P x) \<Longrightarrow> length (filter P (map f xs)) \<le> length (filter P xs)"
  by (induction xs) auto

lemma one_live_put:
  assumes "one_live_run n w" and "get_run w (rn_id r') = Some r" and "worker_change r r'"
    and "sw_runs w' = sw_runs (put_run r' w)" and "sw_next_run w' = sw_next_run w" and "sw_schedules w' = sw_schedules w"
  shows "one_live_run n w'"
proof -
  let ?f = "\<lambda>t. if rn_id t = rn_id r' then r' else t"
  have runs: "sw_runs w' = map ?f (sw_runs w)" using assms(4) by (simp add: put_runs)
  have each: "worker_change t (?f t)" if t: "t \<in> set (sw_runs w)" for t
  proof (cases "rn_id t = rn_id r'")
    case True
    then have "t = r" using get_run_of [OF _ t] assms(1,2) by (simp add: one_live_run_def)
    then show ?thesis using assms(3) True by simp
  qed (simp add: worker_change_def)
  have ids: "map rn_id (sw_runs w') = map rn_id (sw_runs w)" unfolding runs using each by (auto simp: worker_change_def)
  have less: "length (live_runs m k w') \<le> length (live_runs m k w)" for m k
    unfolding live_runs_def runs by (rule filter_map_le) (drule each, auto simp: worker_change_def split: if_splits)
  have old: "\<exists>t \<in> set (live_runs m k w). rn_schedule q = rn_schedule t" if q: "q \<in> set (live_runs m k w')" for m k q
  proof -
    obtain t where t: "t \<in> set (sw_runs w)" "q = ?f t" using q runs by (auto simp: live_runs_def)
    show ?thesis using each [OF t(1)] t q by (auto simp: live_runs_iff worker_change_def intro!: bexI [of _ t])
  qed
  show ?thesis
  proof (rule one_live_runI, goal_cases)
    case (2 q)
    then have "rn_id q \<in> set (map rn_id (sw_runs w))" unfolding ids [symmetric] by simp
    then show ?case using one_live_runD(2) [OF assms(1)] assms(5) by auto
  next
    case (5 m k)
    then show ?case using less [of m k] one_live_runD(5) [OF assms(1)] order_trans by blast
  next
    case (6 m k q)
    then show ?case using old [OF 6(2)] one_live_runD(6) [OF assms(1) 6(1)] assms(6) by metis
  qed (use assms(6) ids one_live_runD [OF assms(1)] in auto)
qed

lemma one_live_delete:
  assumes "one_live_run n w" and "\<And>m k r. is_one_off_key k \<Longrightarrow> r \<in> set (live_runs m k w) \<Longrightarrow> rn_schedule r \<noteq> Some i"
  shows "one_live_run n (delete_schedule i w)"
proof -
  let ?f = "\<lambda>r. if rn_schedule r = Some i then r\<lparr>rn_schedule := None\<rparr> else r"
  have runs: "sw_runs (delete_schedule i w) = map ?f (sw_runs w)" by (simp add: delete_schedule_def)
  have live: "live_runs m k (delete_schedule i w) = map ?f (live_runs m k w)" for m k
    unfolding live_runs_def runs filter_map by (intro arg_cong [where f = "map ?f"] filter_cong) auto
  have same: "live_runs m k (delete_schedule i w) = live_runs m k w" if "is_one_off_key k" for m k
    unfolding live using assms(2) [OF that] by (auto intro: map_idI)
  have ids: "map rn_id (sw_runs (delete_schedule i w)) = map rn_id (sw_runs w)" unfolding runs by auto
  show ?thesis
  proof (rule one_live_runI, goal_cases)
    case 1
    then show ?case unfolding ids by (rule one_live_runD(1) [OF assms(1)])
  next
    case (2 q)
    then have "rn_id q \<in> set (map rn_id (sw_runs w))" unfolding ids [symmetric] by simp
    then show ?case using one_live_runD(2) [OF assms(1)] by (auto simp: delete_schedule_def)
  next
    case (6 m k r)
    then have r: "r \<in> set (live_runs m k w)" using same by simp
    then obtain s where "s \<in> set (sw_schedules w)" "sc_owner_module s = m" "sc_owner_key s = k" "rn_schedule r = Some (sc_id s)" using one_live_runD(6) [OF assms(1) 6(1)] by blast
    then show ?case using assms(2) [OF 6(1) r] by (auto simp: delete_schedule_def)
  qed (use ids same one_live_runD [OF assms(1)] in \<open>auto simp: delete_schedule_def distinct_map_filter\<close>)
qed

text \<open>Adding the schedule and the run of a start: before, no run of the key was live.\<close>

lemma one_live_add:
  assumes "one_live_run n w" and "owned_schedule w m k = None" and "sc_id s = n" "sc_owner_module s = m" "sc_owner_key s = k" and "is_one_off_key k"
    and "rn_schedule r = Some n" "rn_owner_module r = m" "rn_owner_key r = k"
  shows "one_live_run (Suc n) (add_run r (w\<lparr>sw_schedules := sw_schedules w @ [s]\<rparr>)) \<and>
    (\<forall>m' k' q. is_one_off_key k' \<and> q \<in> set (live_runs m' k' (add_run r (w\<lparr>sw_schedules := sw_schedules w @ [s]\<rparr>))) \<and> rn_schedule q = Some n \<longrightarrow> rn_id q = sw_next_run w)"
proof -
  let ?w = "add_run r (w\<lparr>sw_schedules := sw_schedules w @ [s]\<rparr>)" and ?r = "r\<lparr>rn_id := sw_next_run w\<rparr>"
  note inv = one_live_runD [OF assms(1)]
  have none: "live_runs m k w = []"
  proof (rule ccontr)
    assume "live_runs m k w \<noteq> []"
    then obtain q where "q \<in> set (live_runs m k w)" by (meson last_in_set)
    then obtain t where "t \<in> set (sw_schedules w)" "sc_owner_module t = m" "sc_owner_key t = k" using inv(6) [OF assms(6)] by blast
    then show False using assms(2) by (auto simp: owned_schedule_def find_None_iff)
  qed
  have live: "live_runs m' k' ?w = live_runs m' k' w @ (if m' = m \<and> k' = k \<and> rn_error_type r \<noteq> ''DispatchError'' then [?r] else [])" for m' k'
    using assms(8,9) by (auto simp: live_runs_def add_run_def)
  have old: "rn_schedule q \<noteq> Some n" if k': "is_one_off_key k'" and q: "q \<in> set (live_runs m' k' w)" for m' k' q
    using inv(6) [OF k' q] inv(4) by fastforce
  have "one_live_run (Suc n) ?w"
  proof (rule one_live_runI, goal_cases)
    case 1
    then show ?case using inv(1,2) by (force simp: add_run_def)
  next
    case (2 q)
    then show ?case using inv(2) by (fastforce simp: add_run_def)
  next
    case 3
    then show ?case using inv(3,4) assms(3) by (force simp: add_run_def)
  next
    case (4 t)
    then show ?case using inv(4) assms(3) by (fastforce simp: add_run_def)
  next
    case (5 m' k')
    then show ?case using inv(5) none unfolding live by auto
  next
    case (6 m' k' q)
    then consider "q \<in> set (live_runs m' k' w)" | "q = ?r" "m' = m" "k' = k" unfolding live by (auto split: if_splits)
    then show ?case
    proof cases
      case 1
      then show ?thesis using inv(6) [OF 6(1)] by (auto simp: add_run_def)
    qed (use assms in \<open>auto simp: add_run_def\<close>)
  qed
  then show ?thesis using old unfolding live by (auto split: if_splits)
qed

lemma call_key_one_off: "is_one_off_key (call_key dx body g)"
  by (simp add: is_one_off_key_def call_key_def startswith_def)

lemma create_one_live:
  assumes "one_live_run (dw_next_schedule w) (dw_sched w)" and "owned_schedule (dw_sched w) caller key = None" and "is_one_off_key key"
    and "create_delegated dx caller g act key label rows w = (res, w')"
  shows "one_live_run (dw_next_schedule w') (dw_sched w')"
proof (cases "dx_audit_ok dx")
  case False
  then show ?thesis using assms by (auto simp: create_delegated_def Let_def)
next
  case True
  let ?n = "dw_next_schedule w" and ?j = "sw_next_run (dw_sched w)"
  let ?s = "one_off_schedule dx caller g act key label rows ?n"
  let ?r = "(new_run (dx_now dx) ?s (dx_now dx) 0)\<lparr>rn_manual := True\<rparr>" and ?v = "(dw_sched w)\<lparr>sw_schedules := sw_schedules (dw_sched w) @ [?s]\<rparr>"
  obtain ok queued where q: "queue_run (cx_sched (dx_context dx)) ?j (add_run ?r ?v) = (ok, queued)" by (metis prod.exhaust)
  have w': "dw_next_schedule w' = Suc ?n" "dw_sched w' = (if ok then queued else delete_schedule ?n queued)"
    using assms(2,4) True q by (auto simp: create_delegated_def Let_def split: bool.splits)
  have s: "sc_id ?s = ?n" "sc_owner_module ?s = caller" "sc_owner_key ?s = key" by (simp_all add: one_off_schedule_def)
  have r: "rn_schedule ?r = Some ?n" "rn_owner_module ?r = caller" "rn_owner_key ?r = key" by (simp_all add: new_run_def s)
  note added = one_live_add [OF assms(1,2) s assms(3) r]
  have got: "get_run (add_run ?r ?v) ?j = Some (?r\<lparr>rn_id := ?j\<rparr>)"
    using get_run_of [OF one_live_runD(1) [OF conjunct1 [OF added]], of "?r\<lparr>rn_id := ?j\<rparr>"] by (simp add: add_run_def)
  from q got obtain r' where r': "sw_runs queued = sw_runs (put_run r' (add_run ?r ?v))" "sw_next_run queued = sw_next_run (add_run ?r ?v)"
    "sw_schedules queued = sw_schedules (add_run ?r ?v)" "rn_id r' = rn_id (?r\<lparr>rn_id := ?j\<rparr>)" "rn_schedule r' = rn_schedule (?r\<lparr>rn_id := ?j\<rparr>)"
    "rn_owner_module r' = rn_owner_module (?r\<lparr>rn_id := ?j\<rparr>)" "rn_owner_key r' = rn_owner_key (?r\<lparr>rn_id := ?j\<rparr>)"
    "if ok then rn_error_type r' = rn_error_type (?r\<lparr>rn_id := ?j\<rparr>) else rn_error_type r' = ''DispatchError''" by (rule queue_run_put)
  have "worker_change (?r\<lparr>rn_id := ?j\<rparr>) r'" using r' by (auto simp: worker_change_def split: if_splits)
  then have queued: "one_live_run (Suc ?n) queued" using r'(1-3) got r'(4) by (intro one_live_put [OF conjunct1 [OF added], of r']) auto
  show ?thesis
  proof (cases ok)
    case True
    then show ?thesis using queued w' by simp
  next
    case False
    have "rn_schedule x \<noteq> Some ?n" if k: "is_one_off_key k" and x: "x \<in> set (live_runs m k queued)" for m k x
    proof
      assume n: "rn_schedule x = Some ?n"
      have "x \<noteq> r'" using x r'(8) False by (auto simp: live_runs_iff)
      then have "x \<in> set (live_runs m k (add_run ?r ?v))" "rn_id x \<noteq> rn_id r'" using x r'(1) by (auto simp: live_runs_iff put_runs split: if_splits)
      then show False using added k n r'(4) by auto
    qed
    then show ?thesis using one_live_delete [OF queued] w' False by simp
  qed
qed

lemma start_one_live:
  assumes "one_live_run (dw_next_schedule w) (dw_sched w)" and "start_delegated dx caller token action_id agents name w = (res, w')"
  shows "one_live_run (dw_next_schedule w') (dw_sched w')"
  using assms(2)
proof (cases rule: start_cases)
  case still
  then show ?thesis using assms(1) by simp
next
  case (again body g act rows ids s r ok queued)
  have r: "r \<in> set (sw_runs (dw_sched w))" using newest_run_in [OF again(6)] by (simp add: runs_of_def)
  show ?thesis using again(9)
  proof
    assume k: "queue_run (cx_sched (dx_context dx)) (rn_id r) (dw_sched w) = (ok, queued)"
    have got: "get_run (dw_sched w) (rn_id r) = Some r" by (rule get_run_of [OF one_live_runD(1) [OF assms(1)] r])
    from k got obtain r' where r': "sw_runs queued = sw_runs (put_run r' (dw_sched w))" "sw_next_run queued = sw_next_run (dw_sched w)" "sw_schedules queued = sw_schedules (dw_sched w)"
      "rn_id r' = rn_id r" "rn_schedule r' = rn_schedule r" "rn_owner_module r' = rn_owner_module r" "rn_owner_key r' = rn_owner_key r"
      "if ok then rn_error_type r' = rn_error_type r else rn_error_type r' = ''DispatchError''" by (rule queue_run_put)
    have "worker_change r r'" using r' by (auto simp: worker_change_def split: if_splits)
    then show ?thesis using again(7) got r'(1-4) one_live_put [OF assms(1), of r' r queued] by simp
  qed (use assms(1) again(7) in simp)
next
  case (made body g act rows ids)
  then show ?thesis using create_one_live [OF assms(1) made(4) call_key_one_off made(5)] by simp
qed

section \<open>Every history\<close>

definition delegation_ok :: "delegation_world \<Rightarrow> bool" where
  "delegation_ok w = (grants_ok w \<and> one_live_run (dw_next_schedule w) (dw_sched w))"

lemma delegation_step_ok:
  assumes "delegation_ok w" and "delegation_step e w = Inr w'"
  shows "delegation_ok w'"
proof (cases e)
  case (Register_Grant dx caller request q key cid)
  obtain res where r: "register_grant dx caller request q key cid w = (res, w')" using assms(2) Register_Grant by (simp add: delegation_step_def) (metis prod.collapse)
  then show ?thesis
  proof (cases rule: register_grant_cases)
    case refused
    then show ?thesis using assms(1) by (simp add: delegation_ok_def grants_ok_def)
  next
    case (stored i acc act canonical answer)
    then have "dw_sched w' = dw_sched w \<and> dw_next_schedule w' = dw_next_schedule w" by (elim store_grant_cases) auto
    then show ?thesis using assms(1) store_keeps_grants [OF _ stored(1)] by (simp add: delegation_ok_def)
  qed
next
  case (Remove_Grant dx caller owner key)
  obtain res where r: "remove_grant dx caller owner key w = (res, w')" using assms(2) Remove_Grant by (simp add: delegation_step_def) (metis prod.collapse)
  then have "dw_sched w' = dw_sched w \<and> dw_next_schedule w' = dw_next_schedule w" by (cases rule: remove_cases) auto
  then show ?thesis using assms(1) remove_keeps_grants [OF _ r] by (simp add: delegation_ok_def)
next
  case (Start_Run dx caller token action_id agents name)
  obtain res where r: "start_delegated dx caller token action_id agents name w = (res, w')" using assms(2) Start_Run by (simp add: delegation_step_def) (metis prod.collapse)
  then have "dw_grants w' = dw_grants w \<and> dw_next_grant w' = dw_next_grant w"
    by (cases rule: start_cases) (auto simp: create_delegated_def Let_def split: if_splits prod.splits bool.splits)
  then show ?thesis using assms(1) start_one_live [OF _ r] by (simp add: delegation_ok_def grants_ok_def)
next
  case (Run_Changes r')
  then obtain r where r: "get_run (dw_sched w) (rn_id r') = Some r" "worker_change r r'" "w' = w\<lparr>dw_sched := put_run r' (dw_sched w)\<rparr>"
    using assms(2) by (auto simp: delegation_step_def split: option.splits if_splits)
  then show ?thesis using assms(1) one_live_put [OF _ r(1,2), of "dw_next_schedule w" "put_run r' (dw_sched w)"] by (simp add: delegation_ok_def grants_ok_def put_run_def)
qed

interpretation grant_machine: guarded_machine delegation_step delegation_ok
  by unfold_locales (rule delegation_step_ok)

end
