(* ===== verification/System_Sends.thy ===== *)
theory System_Sends
  imports System_Marks
begin

text \<open>
  What the marks of \<open>system_actions.py\<close> promise: ranges overlap exactly when the number sets do, the groups of a call are
  its numbers cut in order, and over every history of attempts on a run no endpoint is handed to Tactical twice for one action.
\<close>

section \<open>Ranges\<close>

definition covered :: "(int \<times> int) list \<Rightarrow> int set" where
  "covered rs = (\<Union>(a, b) \<in> set rs. {a..b})"

definition separated :: "(int \<times> int) list \<Rightarrow> bool" where
  "separated rs = (sorted_wrt (\<lambda>(a, b) (c, d). b < c) rs \<and> (\<forall>(a, b) \<in> set rs. a \<le> b))"

lemma covered_simps [simp]: "covered [] = {}" "covered ((a, b) # rs) = {a..b} \<union> covered rs"
  by (auto simp: covered_def)

lemma separated_Nil [simp]: "separated []"
  by (simp add: separated_def)

lemma separated_Cons: "separated ((a, b) # rs) \<longleftrightarrow> a \<le> b \<and> (\<forall>(c, d) \<in> set rs. b < c) \<and> separated rs"
  by (auto simp: separated_def)

lemma separated_after: "separated ((a, b) # rs) \<Longrightarrow> x \<in> covered rs \<Longrightarrow> b < x"
  by (fastforce simp: separated_Cons covered_def)

lemma ranges_from_spec:
  "a \<le> b \<Longrightarrow> sorted_wrt (<) (b # vs) \<Longrightarrow> covered (ranges_from (a, b) vs) = {a..b} \<union> set vs \<and> separated (ranges_from (a, b) vs) \<and>
    (\<forall>(c, d) \<in> set (ranges_from (a, b) vs). a \<le> c)"
proof (induction vs arbitrary: a b)
  case Nil
  then show ?case by (simp add: separated_def)
next
  case (Cons v vs)
  show ?case
  proof (cases "v = b + 1")
    case True
    then have "covered (ranges_from (a, v) vs) = {a..v} \<union> set vs \<and> separated (ranges_from (a, v) vs) \<and> (\<forall>(c, d) \<in> set (ranges_from (a, v) vs). a \<le> c)"
      using Cons.prems by (intro Cons.IH) auto
    then show ?thesis using True Cons.prems(1) by auto
  next
    case False
    have "covered (ranges_from (v, v) vs) = {v..v} \<union> set vs \<and> separated (ranges_from (v, v) vs) \<and> (\<forall>(c, d) \<in> set (ranges_from (v, v) vs). v \<le> c)"
      using Cons.prems by (intro Cons.IH) auto
    then show ?thesis using False Cons.prems by (fastforce simp: separated_Cons)
  qed
qed

lemma ranges_of_spec: "sorted_wrt (<) ids \<Longrightarrow> covered (ranges_of ids) = set ids \<and> separated (ranges_of ids)"
  using ranges_from_spec by (cases ids) auto

lemma overlap_iff: "separated as \<Longrightarrow> separated bs \<Longrightarrow> ranges_overlap as bs \<longleftrightarrow> covered as \<inter> covered bs \<noteq> {}"
proof (induction as bs rule: ranges_overlap.induct)
  case (3 a0 a1 as b0 b1 bs)
  consider "a1 < b0" | "b1 < a0" "\<not> a1 < b0" | "\<not> a1 < b0" "\<not> b1 < a0" by blast
  then show ?case
  proof cases
    case 1
    then have "{a0..a1} \<inter> covered ((b0, b1) # bs) = {}" using separated_after [OF 3(4)] 3(4) by (fastforce simp: separated_Cons)
    then show ?thesis using 1 "3.IH"(1) 3(3,4) by (auto simp: separated_Cons)
  next
    case 2
    then have "covered ((a0, a1) # as) \<inter> {b0..b1} = {}" using separated_after [OF 3(3)] 3(3) by (fastforce simp: separated_Cons)
    then show ?thesis using 2 "3.IH"(2) 3(3,4) by (auto simp: separated_Cons)
  next
    case 3
    then have "max a0 b0 \<in> covered ((a0, a1) # as) \<inter> covered ((b0, b1) # bs)"
      using \<open>separated ((a0, a1) # as)\<close> \<open>separated ((b0, b1) # bs)\<close> by (auto simp: separated_Cons)
    moreover have "ranges_overlap ((a0, a1) # as) ((b0, b1) # bs)" using 3 by simp
    ultimately show ?thesis by blast
  qed
qed auto

section \<open>Groups\<close>

lemma groups_facts: "concat (groups_of ids) = ids" "g \<in> set (groups_of ids) \<Longrightarrow> g \<noteq> []" "g \<in> set (groups_of ids) \<Longrightarrow> set g \<subseteq> set ids"
proof -
  note f = cut_facts [of max_agents_per_group ids]
  show c: "concat (groups_of ids) = ids" using f by (simp add: groups_of_def max_agents_per_group_def)
  show "g \<in> set (groups_of ids) \<Longrightarrow> g \<noteq> []" using f by (simp add: groups_of_def max_agents_per_group_def)
  show "g \<in> set (groups_of ids) \<Longrightarrow> set g \<subseteq> set ids" using c by (metis UN_upper set_concat)
qed

lemma agent_ids_sorted: "agent_ids v = Inr ids \<Longrightarrow> sorted_wrt (<) ids \<and> ids \<noteq> []"
proof -
  assume "agent_ids v = Inr ids"
  then obtain vs where vs: "v = PList vs" "vs \<noteq> []" "\<not> list_ex (\<lambda>x. agent_number x = None) vs" "ids = sort (dedup (List.map_filter agent_number vs))"
    by (auto simp: agent_ids_def split: pyval.splits if_splits)
  obtain x i where "x \<in> set vs" "agent_number x = Some i" using vs(2,3) by (cases vs) (auto simp: list_ex_iff)
  then have "ids \<noteq> []" using vs(4) set_map_filter [of agent_number vs] by (metis (mono_tags, lifting) empty_iff list.set(1) mem_Collect_eq set_dedup set_sort)
  then show ?thesis using vs(4) by (simp add: strict_sorted_iff)
qed

section \<open>The texts that are digested\<close>

lemma show_int_chars: "c \<in> set (show_int i) \<Longrightarrow> is_digit c \<or> c = CHR ''-''"
  by (auto simp: show_int_def dest: show_nat_digits split: if_splits)

lemma digit_differs: "is_digit c \<Longrightarrow> c \<noteq> CHR '','' \<and> c \<noteq> CHR ''|'' \<and> c \<noteq> CHR ''-'' \<and> c \<noteq> CHR ''p''"
  by (auto simp: is_digit_def code_def)

lemma show_int_nonempty [simp]: "show_int i \<noteq> []"
  by (simp add: show_int_def)

lemma show_int_inj: "show_int i = show_int j \<longleftrightarrow> i = j"
proof -
  have "CHR ''-'' \<notin> set (show_nat n)" for n using show_nat_digits digit_differs by blast
  then have "show_nat n \<noteq> CHR ''-'' # s" for n s by (metis list.set_intros(1))
  then show ?thesis by (auto simp: show_int_def show_nat_inj) (metis)
qed

lemma show_int_plain: "CHR '','' \<notin> set (show_int i)" "CHR ''|'' \<notin> set (show_int i)" "CHR ''p'' \<notin> set (show_int i)"
  using show_int_chars digit_differs by fastforce+

lemma join_split:
  assumes "c \<notin> set s" "c \<notin> set t" "s @ c # x = t @ c # y"
  shows "s = t \<and> x = y"
  using assms
proof (induction s arbitrary: t)
  case Nil
  then show ?case by (cases t) auto
next
  case (Cons a s)
  then show ?case by (cases t) auto
qed

lemma id_list_Nil_iff [simp]: "id_list ids = [] \<longleftrightarrow> ids = []"
  by (cases ids rule: remdups_adj.cases) (auto simp: id_list_def)

lemma id_list_Cons: "id_list (i # j # ids) = show_int i @ CHR '','' # id_list (j # ids)"
  by (simp add: id_list_def)

lemma id_list_inj: "id_list ids = id_list ids' \<Longrightarrow> ids = ids'"
proof (induction ids arbitrary: ids' rule: remdups_adj.induct)
  case 1
  then show ?case using id_list_Nil_iff [of ids'] by (simp add: id_list_def)
next
  case (2 i)
  then show ?case using show_int_plain(1) [of i]
    by (cases ids' rule: remdups_adj.cases) (auto simp: id_list_def show_int_inj)
next
  case (3 i j ids)
  show ?case
  proof (cases ids' rule: remdups_adj.cases)
    case 1
    then show ?thesis using "3.prems" by (simp add: id_list_def)
  next
    case (2 k)
    then have "CHR '','' \<in> set (show_int k)" using "3.prems" by (metis id_list_Cons id_list_def in_set_conv_decomp join.simps(2) list.map(1,2))
    then show ?thesis using show_int_plain by blast
  next
    case (3 k l ks)
    then have "show_int i = show_int k \<and> id_list (j # ids) = id_list (l # ks)"
      using "3.prems" by (intro join_split [of "CHR '',''"]) (simp_all add: id_list_Cons show_int_plain)
    then show ?thesis using "3.IH" 3 by (auto simp: show_int_inj)
  qed
qed

lemma id_list_plain: "CHR ''|'' \<notin> set (id_list ids)" "CHR ''p'' \<notin> set (id_list ids)"
  by (induction ids rule: remdups_adj.induct) (auto simp: id_list_Cons show_int_plain id_list_def)

lemma tail_inj:
  assumes "id_list ids @ decisions_part ids dec = id_list ids' @ decisions_part ids' dec'"
  shows "ids = ids'"
proof -
  have tw: "takeWhile (\<lambda>c. c \<noteq> CHR ''|'') (id_list xs @ decisions_part xs d) = id_list xs" for xs d
    using id_list_plain(1) [of xs] by (subst takeWhile_append2) (auto simp: decisions_part_def split: option.split)
  have "id_list ids = id_list ids'" using tw [of ids dec] tw [of ids' dec'] assms by simp
  then show ?thesis by (rule id_list_inj)
qed

lemma text_inj:
  "plan_text run a ids dec = plan_text run a ids' dec' \<Longrightarrow> ids = ids'" "group_text run a ids dec = group_text run a ids' dec' \<Longrightarrow> ids = ids'"
  using tail_inj by (auto simp: plan_text_def group_text_def)

lemma text_kinds: "ids \<noteq> [] \<Longrightarrow> plan_text run a ids' dec' \<noteq> group_text run a ids dec"
proof
  assume "ids \<noteq> []" and "plan_text run a ids' dec' = group_text run a ids dec"
  then have "''plan|'' @ id_list ids' @ decisions_part ids' dec' = id_list ids @ decisions_part ids dec" by (simp add: plan_text_def group_text_def)
  moreover obtain c cs where "id_list ids = c # cs" using \<open>ids \<noteq> []\<close> id_list_Nil_iff by (cases "id_list ids") auto
  ultimately show False using id_list_plain(2) [of ids] by auto
qed

section \<open>The invariant of the marks of one action\<close>

text \<open>The marks of an action and the groups that were handed to Tactical for it.\<close>

definition marks_for :: "string \<Rightarrow> send_world \<Rightarrow> sa_mark list" where
  "marks_for a w = filter (\<lambda>m. mk_action m = a) (sw_marks w)"

definition handed_for :: "string \<Rightarrow> send_world \<Rightarrow> int list list" where
  "handed_for a w = map snd (filter (\<lambda>e. fst e = a) (sw_sent w))"

definition call_texts :: "string \<Rightarrow> string \<Rightarrow> int list \<Rightarrow> decisions option \<Rightarrow> string set" where
  "call_texts run a ids dec = {plan_text run a ids dec, plan_text run a ids None} \<union> (\<lambda>g. group_text run a g dec) ` set (groups_of ids)"

definition group_digests :: "(string \<Rightarrow> string) \<Rightarrow> string \<Rightarrow> string \<Rightarrow> int list \<Rightarrow> decisions option \<Rightarrow> string list" where
  "group_digests sha run a ids dec = map (\<lambda>g. sha (group_text run a g dec)) (groups_of ids)"

definition plan_for :: "(string \<Rightarrow> string) \<Rightarrow> string \<Rightarrow> string set \<Rightarrow> string \<Rightarrow> sa_mark \<Rightarrow> int list \<Rightarrow> decisions option \<Rightarrow> bool" where
  "plan_for sha run T a p ids dec = (sorted_wrt (<) ids \<and> ids \<noteq> [] \<and> call_texts run a ids dec \<subseteq> T \<and> mk_digest p = sha (plan_text run a ids dec) \<and>
     mk_ids p = ranges_of ids \<and> mk_groups p = group_digests sha run a ids dec \<and> mk_size p = max_agents_per_group)"

definition live_mark :: "sa_mark list \<Rightarrow> string \<Rightarrow> bool" where
  "live_mark ms d = (\<exists>m \<in> set ms. \<not> mk_plan m \<and> mk_digest m = d \<and> mk_state m \<noteq> ''aborted'')"

definition marks_ok :: "(string \<Rightarrow> string) \<Rightarrow> string \<Rightarrow> string set \<Rightarrow> string \<Rightarrow> sa_mark list \<Rightarrow> int list list \<Rightarrow> bool" where
  "marks_ok sha run T a ms gs =
     ((\<forall>p \<in> set ms. mk_plan p \<longrightarrow> (\<exists>ids dec. plan_for sha run T a p ids dec)) \<and>
      sorted_wrt (\<lambda>p q. covered (mk_ids p) \<inter> covered (mk_ids q) = {}) (filter mk_plan ms) \<and>
      (\<forall>m \<in> set ms. \<not> mk_plan m \<longrightarrow> (\<exists>p \<in> set ms. mk_plan p \<and> mk_digest m \<in> set (mk_groups p))) \<and>
      distinct (map mk_digest (filter (\<lambda>m. \<not> mk_plan m) ms)) \<and>
      (\<forall>g \<in> set gs. \<exists>p ids dec. p \<in> set ms \<and> mk_plan p \<and> plan_for sha run T a p ids dec \<and> g \<in> set (groups_of ids) \<and> live_mark ms (sha (group_text run a g dec))) \<and>
      distinct gs)"

lemma plan_for_covered: "plan_for sha run T a p ids dec \<Longrightarrow> covered (mk_ids p) = set ids \<and> separated (mk_ids p)"
  by (simp add: plan_for_def ranges_of_spec)

lemma plan_for_group:
  assumes "plan_for sha run T a p ids dec" and "d \<in> set (mk_groups p)"
  obtains g where "g \<in> set (groups_of ids)" "d = sha (group_text run a g dec)" "group_text run a g dec \<in> T"
  using assms by (auto simp: plan_for_def group_digests_def call_texts_def)

lemma group_in_plan:
  assumes "plan_for sha run T a p ids dec" and "g \<in> set (groups_of ids)"
  shows "sha (group_text run a g dec) \<in> set (mk_groups p)" "group_text run a g dec \<in> T" "g \<noteq> []" "set g \<subseteq> covered (mk_ids p)"
  using assms groups_facts(2,3) [of g ids] plan_for_covered [OF assms(1)] by (auto simp: plan_for_def group_digests_def call_texts_def)

text \<open>One digest names one group, whatever plan it is in.\<close>

lemma digest_group:
  assumes "inj_on sha T" and "plan_for sha run T a p ids dec" "g \<in> set (groups_of ids)" and "plan_for sha run T a p' ids' dec'" "g' \<in> set (groups_of ids')"
    and "sha (group_text run a g dec) = sha (group_text run a g' dec')"
  shows "g = g'"
proof -
  have "group_text run a g dec = group_text run a g' dec'"
    using assms(1,6) group_in_plan(2) [OF assms(2,3)] group_in_plan(2) [OF assms(4,5)] by (auto dest: inj_onD)
  then show ?thesis by (rule text_inj(2))
qed

lemma plan_digest_not_group:
  assumes "inj_on sha T" and "plan_for sha run T a p ids dec" and "plan_for sha run T a p' ids' dec'" "d \<in> set (mk_groups p')"
  shows "mk_digest p \<noteq> d"
proof
  assume eq: "mk_digest p = d"
  obtain g where g: "g \<in> set (groups_of ids')" "d = sha (group_text run a g dec')" "group_text run a g dec' \<in> T" using plan_for_group [OF assms(3,4)] .
  have "plan_text run a ids dec \<in> T" "mk_digest p = sha (plan_text run a ids dec)" using assms(2) by (auto simp: plan_for_def call_texts_def)
  then have "plan_text run a ids dec = group_text run a g dec'" using assms(1) g(2,3) eq by (auto dest: inj_onD)
  then show False using text_kinds groups_facts(2) [OF g(1)] by blast
qed

lemma disjoint_plans:
  assumes "sorted_wrt (\<lambda>p q. covered (mk_ids p) \<inter> covered (mk_ids q) = {}) ps" and "p \<in> set ps" "q \<in> set ps" and "covered (mk_ids p) \<inter> covered (mk_ids q) \<noteq> {}"
  shows "p = q"
  using assms by (induction ps) auto

text \<open>A group that has gone out has a live mark under the digest its own plan gives it.\<close>

lemma sent_live:
  assumes ok: "marks_ok sha run T a ms gs" and "g \<in> set gs" and p: "p \<in> set ms" "mk_plan p" "plan_for sha run T a p ids dec" "g \<in> set (groups_of ids)"
  shows "live_mark ms (sha (group_text run a g dec))"
proof -
  obtain q ids' dec' where q: "q \<in> set ms" "mk_plan q" "plan_for sha run T a q ids' dec'" "g \<in> set (groups_of ids')" "live_mark ms (sha (group_text run a g dec'))"
    using ok assms(2) unfolding marks_ok_def by blast
  have "covered (mk_ids p) \<inter> covered (mk_ids q) \<noteq> {}"
    using group_in_plan(3,4) [OF p(3,4)] group_in_plan(4) [OF q(3,4)] by (metis Int_greatest set_empty2 subset_empty)
  then have "p = q" using ok p(1,2) q(1,2) disjoint_plans [of "filter mk_plan ms" p q] unfolding marks_ok_def by auto
  then have "ids = ids'" using plan_for_covered [OF p(3)] plan_for_covered [OF q(3)] p(3) q(3)
    by (metis plan_for_def sorted_list_of_set.idem_if_sorted_distinct strict_sorted_iff)
  moreover have "group_digests sha run a ids dec = group_digests sha run a ids' dec'" using p(3) q(3) \<open>p = q\<close> by (simp add: plan_for_def)
  ultimately have "sha (group_text run a g dec) = sha (group_text run a g dec')" using p(4) by (simp add: group_digests_def)
  then show ?thesis using q(5) by simp
qed

text \<open>The groups of a well-marked action never share an endpoint.\<close>

lemma concat_distinct: "distinct gs \<Longrightarrow> (\<And>g. g \<in> set gs \<Longrightarrow> distinct g) \<Longrightarrow> (\<And>g h. g \<in> set gs \<Longrightarrow> h \<in> set gs \<Longrightarrow> g \<noteq> h \<Longrightarrow> set g \<inter> set h = {}) \<Longrightarrow> distinct (concat gs)"
  by (auto simp: distinct_concat_iff intro: distinct_filter) (metis distinct_removeAll removeAll_id)

lemma groups_disjoint:
  assumes "distinct ids" and "g \<in> set (groups_of ids)" "h \<in> set (groups_of ids)"
  shows "distinct g" "g \<noteq> h \<Longrightarrow> set g \<inter> set h = {}"
  using assms groups_facts(1) [of ids] by (metis distinct_concat_iff)+

lemma marks_ok_distinct:
  assumes ok: "marks_ok sha run T a ms gs"
  shows "distinct (concat gs)"
proof (rule concat_distinct)
  show "distinct gs" using ok by (simp add: marks_ok_def)
  have found: "\<exists>p ids dec. p \<in> set ms \<and> mk_plan p \<and> plan_for sha run T a p ids dec \<and> g \<in> set (groups_of ids)" if "g \<in> set gs" for g
    using ok that unfolding marks_ok_def by blast
  show "distinct g" if "g \<in> set gs" for g
    using found [OF that] groups_disjoint(1) by (auto simp: plan_for_def strict_sorted_iff)
  show "set g \<inter> set h = {}" if gh: "g \<in> set gs" "h \<in> set gs" "g \<noteq> h" for g h
  proof -
    obtain p ids dec where p: "p \<in> set ms" "mk_plan p" "plan_for sha run T a p ids dec" "g \<in> set (groups_of ids)" using found [OF gh(1)] by blast
    obtain q ids' dec' where q: "q \<in> set ms" "mk_plan q" "plan_for sha run T a q ids' dec'" "h \<in> set (groups_of ids')" using found [OF gh(2)] by blast
    show ?thesis
    proof (cases "p = q")
      case True
      then have "ids = ids'" using plan_for_covered [OF p(3)] plan_for_covered [OF q(3)] p(3) q(3)
        by (metis plan_for_def sorted_list_of_set.idem_if_sorted_distinct strict_sorted_iff)
      then show ?thesis using groups_disjoint(2) [OF _ p(4), of h] q(4) p(3) gh(3) by (auto simp: plan_for_def strict_sorted_iff)
    next
      case False
      then have "covered (mk_ids p) \<inter> covered (mk_ids q) = {}" using ok p(1,2) q(1,2) disjoint_plans [of "filter mk_plan ms" p q] unfolding marks_ok_def by auto
      then show ?thesis using group_in_plan(4) [OF p(3,4)] group_in_plan(4) [OF q(3,4)] by blast
    qed
  qed
qed

section \<open>Changing the state of a mark\<close>

definition shape :: "sa_mark \<Rightarrow> bool \<times> string \<times> (int \<times> int) list \<times> string list \<times> int" where
  "shape m = (mk_plan m, mk_digest m, mk_ids m, mk_groups m, mk_size m)"

lemma shape_eqD: "shape m = shape m' \<Longrightarrow> mk_plan m = mk_plan m' \<and> mk_digest m = mk_digest m' \<and> mk_ids m = mk_ids m' \<and> mk_groups m = mk_groups m' \<and> mk_size m = mk_size m'"
  by (simp add: shape_def)

lemma shape_set:
  assumes "map shape ms = map shape ms'" and "m \<in> set ms"
  shows "\<exists>m' \<in> set ms'. shape m' = shape m"
proof -
  have "shape m \<in> set (map shape ms')" unfolding assms(1) [symmetric] using assms(2) by simp
  then show ?thesis by auto
qed

lemma plan_for_shape: "shape p = shape p' \<Longrightarrow> plan_for sha run T a p ids dec = plan_for sha run T a p' ids dec"
  by (drule shape_eqD) (simp add: plan_for_def)

lemma shape_lists:
  assumes "map shape ms = map shape ms'"
  shows "map mk_ids (filter mk_plan ms) = map mk_ids (filter mk_plan ms')" "map mk_digest (filter (\<lambda>m. \<not> mk_plan m) ms) = map mk_digest (filter (\<lambda>m. \<not> mk_plan m) ms')"
proof -
  have e: "map mk_ids (filter mk_plan xs) = map (\<lambda>s. fst (snd (snd s))) (filter fst (map shape xs))" "map mk_digest (filter (\<lambda>m. \<not> mk_plan m) xs) = map (\<lambda>s. fst (snd s)) (filter (\<lambda>s. \<not> fst s) (map shape xs))" for xs
    by (induction xs) (auto simp: shape_def)
  show "map mk_ids (filter mk_plan ms) = map mk_ids (filter mk_plan ms')" unfolding e assms ..
  show "map mk_digest (filter (\<lambda>m. \<not> mk_plan m) ms) = map mk_digest (filter (\<lambda>m. \<not> mk_plan m) ms')" unfolding e assms ..
qed

lemma marks_ok_shape:
  assumes same: "map shape ms = map shape ms'" and ok: "marks_ok sha run T a ms gs"
    and live: "\<And>g p ids dec. g \<in> set gs \<Longrightarrow> p \<in> set ms \<Longrightarrow> mk_plan p \<Longrightarrow> plan_for sha run T a p ids dec \<Longrightarrow> g \<in> set (groups_of ids) \<Longrightarrow>
       live_mark ms (sha (group_text run a g dec)) \<Longrightarrow> live_mark ms' (sha (group_text run a g dec))"
  shows "marks_ok sha run T a ms' gs"
  unfolding marks_ok_def
proof (intro conjI ballI impI)
  fix p assume p: "p \<in> set ms'" "mk_plan p"
  then obtain q where q: "q \<in> set ms" "shape q = shape p" using shape_set [OF same [symmetric]] by blast
  then show "\<exists>ids dec. plan_for sha run T a p ids dec" using ok p(2) shape_eqD [OF q(2)] plan_for_shape [OF q(2)] unfolding marks_ok_def by blast
next
  have "sorted_wrt (\<lambda>p q. covered p \<inter> covered q = {}) (map mk_ids (filter mk_plan ms))" using ok by (simp add: marks_ok_def sorted_wrt_map)
  then show "sorted_wrt (\<lambda>p q. covered (mk_ids p) \<inter> covered (mk_ids q) = {}) (filter mk_plan ms')" unfolding shape_lists(1) [OF same] by (simp add: sorted_wrt_map)
next
  fix m assume m: "m \<in> set ms'" "\<not> mk_plan m"
  then obtain n where n: "n \<in> set ms" "shape n = shape m" using shape_set [OF same [symmetric]] by blast
  then obtain p where p: "p \<in> set ms" "mk_plan p" "mk_digest m \<in> set (mk_groups p)" using ok m(2) shape_eqD [OF n(2)] unfolding marks_ok_def by metis
  obtain q where q: "q \<in> set ms'" "shape q = shape p" using shape_set [OF same p(1)] by blast
  show "\<exists>p \<in> set ms'. mk_plan p \<and> mk_digest m \<in> set (mk_groups p)" using p q shape_eqD [OF q(2)] by (intro bexI [of _ q]) simp_all
next
  show "distinct (map mk_digest (filter (\<lambda>m. \<not> mk_plan m) ms'))" using ok unfolding shape_lists(2) [OF same, symmetric] by (simp add: marks_ok_def)
  show "distinct gs" using ok by (simp add: marks_ok_def)
next
  fix g assume g: "g \<in> set gs"
  then obtain p ids dec where p: "p \<in> set ms" "mk_plan p" "plan_for sha run T a p ids dec" "g \<in> set (groups_of ids)" "live_mark ms (sha (group_text run a g dec))"
    using ok unfolding marks_ok_def by blast
  obtain q where q: "q \<in> set ms'" "shape q = shape p" using shape_set [OF same p(1)] by blast
  show "\<exists>p ids dec. p \<in> set ms' \<and> mk_plan p \<and> plan_for sha run T a p ids dec \<and> g \<in> set (groups_of ids) \<and> live_mark ms' (sha (group_text run a g dec))"
    using p q shape_eqD [OF q(2)] plan_for_shape [OF q(2)] live [OF g p] by (intro exI [of _ q] exI [of _ ids] exI [of _ dec]) simp
qed

definition restates :: "(sa_mark \<Rightarrow> sa_mark) \<Rightarrow> string \<Rightarrow> bool" where
  "restates f state = (\<forall>m. shape (f m) = shape m \<and> mk_action (f m) = mk_action m \<and> mk_state (f m) = state)"

lemma update_shape: "restates f state \<Longrightarrow> map shape (update_mark a d f ms) = map shape ms"
  by (induction ms) (auto simp: restates_def)

lemma update_in: "m \<in> set (update_mark a d f ms) \<Longrightarrow> m \<in> set ms \<or> (\<exists>n \<in> set ms. same_mark a d n \<and> m = f n)"
  by (induction ms) (auto split: if_splits)

lemma update_live_other:
  assumes "restates f state" and "live_mark ms d'" and "d' \<noteq> d"
  shows "live_mark (update_mark a d f ms) d'"
proof -
  have "m \<in> set ms \<Longrightarrow> mk_digest m \<noteq> d \<Longrightarrow> m \<in> set (update_mark a d f ms)" for m by (induction ms) (auto simp: same_mark_def)
  then show ?thesis using assms(2,3) unfolding live_mark_def by blast
qed

lemma update_live_kept:
  assumes "restates f state" and "live_mark ms d'" and "state \<noteq> ''aborted''"
  shows "live_mark (update_mark a d f ms) d'"
  using assms unfolding live_mark_def
proof (induction ms)
  case (Cons m ms)
  then show ?case using shape_eqD [of "f m" m] by (auto simp: restates_def)
qed simp

lemma update_claims:
  assumes "restates f state" and "find (same_mark a d) ms = Some m" and "\<not> mk_plan m" and "state \<noteq> ''aborted''"
  shows "live_mark (update_mark a d f ms) d"
  using assms
proof (induction ms)
  case (Cons n ms)
  then show ?case using shape_eqD [of "f n" n] by (auto simp: restates_def live_mark_def same_mark_def split: if_splits)
qed simp

section \<open>One group\<close>

text \<open>\<open>ms\<close> holds marks of the action only.\<close>

lemma found_group_mark:
  assumes "inj_on sha T" and ok: "marks_ok sha run T a ms gs" and p: "p \<in> set ms" "mk_plan p" "plan_for sha run T a p ids dec" "g \<in> set (groups_of ids)"
    and f: "find (same_mark a (sha (group_text run a g dec))) ms = Some m"
  shows "m \<in> set ms \<and> \<not> mk_plan m \<and> mk_digest m = sha (group_text run a g dec)"
proof -
  have m: "m \<in> set ms" "mk_digest m = sha (group_text run a g dec)" using f by (auto simp: find_Some_iff same_mark_def)
  moreover have "\<not> mk_plan m"
  proof
    assume "mk_plan m"
    then obtain ids' dec' where "plan_for sha run T a m ids' dec'" using ok m(1) unfolding marks_ok_def by blast
    then show False using plan_digest_not_group [OF assms(1) _ p(3) group_in_plan(1) [OF p(3,4)]] m(2) by blast
  qed
  ultimately show ?thesis by simp
qed

lemma not_sent_yet:
  assumes "inj_on sha T" and ok: "marks_ok sha run T a ms gs" and p: "p \<in> set ms" "mk_plan p" "plan_for sha run T a p ids dec" "g \<in> set (groups_of ids)"
    and f: "\<And>m. find (same_mark a (sha (group_text run a g dec))) ms = Some m \<Longrightarrow> mk_state m = ''aborted''" and act: "\<forall>m \<in> set ms. mk_action m = a"
  shows "g \<notin> set gs"
proof
  assume "g \<in> set gs"
  then obtain m where m: "m \<in> set ms" "\<not> mk_plan m" "mk_digest m = sha (group_text run a g dec)" "mk_state m \<noteq> ''aborted''"
    using sent_live [OF ok _ p] unfolding live_mark_def by blast
  then obtain n where n: "find (same_mark a (sha (group_text run a g dec))) ms = Some n" using act by (cases "find (same_mark a (sha (group_text run a g dec))) ms") (auto simp: find_None_iff same_mark_def)
  note fn = found_group_mark [OF assms(1) ok p n]
  have "inj_on mk_digest (set (filter (\<lambda>m. \<not> mk_plan m) ms))" using ok by (simp add: marks_ok_def distinct_map)
  then have "n = m" by (rule inj_onD) (use fn m in simp_all)
  then show False using f [OF n] m(4) by simp
qed

lemma marks_ok_log:
  assumes ok: "marks_ok sha run T a ms gs" and p: "p \<in> set ms" "mk_plan p" "plan_for sha run T a p ids dec" "g \<in> set (groups_of ids)"
    and "live_mark ms (sha (group_text run a g dec))" and "g \<notin> set gs"
  shows "marks_ok sha run T a ms (gs @ [g])"
proof -
  have "\<exists>p ids dec. p \<in> set ms \<and> mk_plan p \<and> plan_for sha run T a p ids dec \<and> g \<in> set (groups_of ids) \<and> live_mark ms (sha (group_text run a g dec))"
    using p assms(6) by blast
  then show ?thesis using ok assms(7) unfolding marks_ok_def by auto
qed

lemma marks_ok_new_mark:
  assumes ok: "marks_ok sha run T a ms gs" and p: "p \<in> set ms" "mk_plan p" "d \<in> set (mk_groups p)" and new: "\<forall>m \<in> set ms. mk_digest m \<noteq> d"
  shows "marks_ok sha run T a (ms @ [new_group_mark a d n]) gs"
proof -
  let ?m = "new_group_mark a d n"
  have m: "\<not> mk_plan ?m" "mk_digest ?m = d" by (simp_all add: new_group_mark_def)
  have live: "live_mark (ms @ [?m]) d'" if "live_mark ms d'" for d' using that by (auto simp: live_mark_def)
  have sent: "\<forall>g \<in> set gs. \<exists>p ids dec. p \<in> set (ms @ [?m]) \<and> mk_plan p \<and> plan_for sha run T a p ids dec \<and> g \<in> set (groups_of ids) \<and> live_mark (ms @ [?m]) (sha (group_text run a g dec))"
  proof
    fix g assume "g \<in> set gs"
    then obtain p ids dec where "p \<in> set ms" "mk_plan p" "plan_for sha run T a p ids dec" "g \<in> set (groups_of ids)" "live_mark ms (sha (group_text run a g dec))"
      using ok unfolding marks_ok_def by blast
    then show "\<exists>p ids dec. p \<in> set (ms @ [?m]) \<and> mk_plan p \<and> plan_for sha run T a p ids dec \<and> g \<in> set (groups_of ids) \<and> live_mark (ms @ [?m]) (sha (group_text run a g dec))"
      using live by (intro exI [of _ p] exI [of _ ids] exI [of _ dec]) simp
  qed
  have home: "\<forall>m \<in> set (ms @ [?m]). \<not> mk_plan m \<longrightarrow> (\<exists>p \<in> set (ms @ [?m]). mk_plan p \<and> mk_digest m \<in> set (mk_groups p))"
    using ok p m unfolding marks_ok_def by auto
  have "distinct (map mk_digest (filter (\<lambda>m. \<not> mk_plan m) (ms @ [?m])))" using ok new m unfolding marks_ok_def by auto
  then show ?thesis using sent home ok m(1) unfolding marks_ok_def by auto
qed

section \<open>The loop\<close>

definition has_plan :: "(string \<Rightarrow> string) \<Rightarrow> string \<Rightarrow> string set \<Rightarrow> string \<Rightarrow> sa_mark list \<Rightarrow> int list \<Rightarrow> decisions option \<Rightarrow> bool" where
  "has_plan sha run T a ms ids dec = (\<exists>p \<in> set ms. mk_plan p \<and> plan_for sha run T a p ids dec)"

definition well_marked :: "(string \<Rightarrow> string) \<Rightarrow> string \<Rightarrow> string set \<Rightarrow> string \<Rightarrow> send_world \<Rightarrow> bool" where
  "well_marked sha run T a w = marks_ok sha run T a (marks_for a w) (handed_for a w)"

lemma marks_for_action: "\<forall>m \<in> set (marks_for a w). mk_action m = a"
  by (simp add: marks_for_def)

lemma find_marks_for: "find (same_mark a d) ms = find (same_mark a d) (filter (\<lambda>m. mk_action m = a) ms)"
  by (induction ms) (auto simp: same_mark_def)

lemma update_marks_for:
  assumes "restates f state"
  shows "filter (\<lambda>m. mk_action m = a) (update_mark b d f ms) = (if a = b then update_mark a d f (filter (\<lambda>m. mk_action m = a) ms) else filter (\<lambda>m. mk_action m = a) ms)"
  using assms by (induction ms) (auto simp: same_mark_def restates_def)

lemma restates_claim: "restates (mk_state_update (\<lambda>_. state)) state"
  by (simp add: restates_def shape_def)

lemma restates_set: "restates (\<lambda>m. m\<lparr>mk_state := state, mk_task := t m\<rparr>) state"
  by (simp add: restates_def shape_def)

lemma has_plan_shape:
  assumes "map shape ms = map shape ms'" and "has_plan sha run T a ms ids dec"
  shows "has_plan sha run T a ms' ids dec"
proof -
  obtain p where p: "p \<in> set ms" "mk_plan p" "plan_for sha run T a p ids dec" using assms(2) unfolding has_plan_def by blast
  obtain q where q: "q \<in> set ms'" "shape q = shape p" using shape_set [OF assms(1) p(1)] by blast
  show ?thesis unfolding has_plan_def using p q shape_eqD [OF q(2)] plan_for_shape [OF q(2)] by (intro bexI [of _ q]) simp_all
qed

lemma claimed:
  assumes inj: "inj_on sha T" and ok: "well_marked sha run T a w" and plan: "has_plan sha run T a (marks_for a w) ids dec" and g: "g \<in> set (groups_of ids)"
    and c: "claim_mark a (sha (group_text run a g dec)) n w = (Mark_Claimed, w')"
  shows "well_marked sha run T a w' \<and> has_plan sha run T a (marks_for a w') ids dec \<and> handed_for a w' = handed_for a w \<and> g \<notin> set (handed_for a w) \<and>
    live_mark (marks_for a w') (sha (group_text run a g dec))"
proof -
  let ?d = "sha (group_text run a g dec)"
  obtain p where p: "p \<in> set (marks_for a w)" "mk_plan p" "plan_for sha run T a p ids dec" using plan unfolding has_plan_def by blast
  note ok' = ok [unfolded well_marked_def]
  show ?thesis
  proof (cases "find (same_mark a ?d) (marks_for a w)")
    case None
    then have w': "w' = w\<lparr>sw_marks := sw_marks w @ [new_group_mark a ?d n]\<rparr>" using c find_marks_for [of a ?d "sw_marks w"]
      by (auto simp: claim_mark_def marks_for_def split: if_splits)
    then have m': "marks_for a w' = marks_for a w @ [new_group_mark a ?d n]" by (simp add: marks_for_def new_group_mark_def)
    have new: "\<forall>m \<in> set (marks_for a w). mk_digest m \<noteq> ?d" using None marks_for_action [of a w] by (auto simp: find_None_iff same_mark_def)
    have s': "handed_for a w' = handed_for a w" using w' by (simp add: handed_for_def)
    have "marks_ok sha run T a (marks_for a w') (handed_for a w)" unfolding m' by (rule marks_ok_new_mark [OF ok' p(1,2) group_in_plan(1) [OF p(3) g] new])
    moreover have "has_plan sha run T a (marks_for a w') ids dec" using plan unfolding m' has_plan_def by auto
    moreover have "live_mark (marks_for a w') ?d" unfolding m' by (simp add: live_mark_def new_group_mark_def)
    moreover have "g \<notin> set (handed_for a w)" using not_sent_yet [OF inj ok' p g _ marks_for_action] None by simp
    ultimately show ?thesis by (simp add: s' well_marked_def)
  next
    case (Some m)
    note fm = found_group_mark [OF inj ok' p g Some]
    let ?f = "mk_state_update (\<lambda>_. ''claiming'')"
    have f: "find (same_mark a ?d) (sw_marks w) = Some m" using Some find_marks_for [of a ?d "sw_marks w"] by (simp add: marks_for_def)
    have ab: "mk_state m = ''aborted''" and w': "w' = w\<lparr>sw_marks := update_mark a ?d ?f (sw_marks w)\<rparr>"
      using c f by (auto simp: claim_mark_def split: if_splits)
    have m': "marks_for a w' = update_mark a ?d ?f (marks_for a w)" using w' update_marks_for [OF restates_claim [of "''claiming''"], of a a] by (simp add: marks_for_def)
    have s': "handed_for a w' = handed_for a w" using w' by (simp add: handed_for_def)
    have sh: "map shape (marks_for a w) = map shape (marks_for a w')" unfolding m' by (rule update_shape [OF restates_claim, symmetric])
    have "marks_ok sha run T a (marks_for a w') (handed_for a w)"
      by (rule marks_ok_shape [OF sh ok']) (unfold m', rule update_live_kept [OF restates_claim], simp_all)
    moreover have "live_mark (marks_for a w') ?d" unfolding m' by (rule update_claims [OF restates_claim Some]) (use fm in simp_all)
    moreover have "g \<notin> set (handed_for a w)" using not_sent_yet [OF inj ok' p g _ marks_for_action] Some ab by simp
    ultimately show ?thesis using has_plan_shape [OF sh plan] by (simp add: s' well_marked_def)
  qed
qed

lemma marked_sent:
  assumes ok: "well_marked sha run T a w" and plan: "has_plan sha run T a (marks_for a w) ids dec"
  shows "well_marked sha run T a (snd (set_mark written a d ''sent'' task w)) \<and> has_plan sha run T a (marks_for a (snd (set_mark written a d ''sent'' task w))) ids dec"
proof (cases "\<not> written \<or> find (same_mark a d) (sw_marks w) = None")
  case True
  then show ?thesis using assms by (simp add: set_mark_def)
next
  case False
  let ?w = "snd (set_mark written a d ''sent'' task w)" and ?f = "\<lambda>m. m\<lparr>mk_state := ''sent'', mk_task := (if task = [] then mk_task m else task)\<rparr>"
  have r: "restates ?f ''sent''" by (rule restates_set)
  have m': "marks_for a ?w = update_mark a d ?f (marks_for a w)" using False update_marks_for [OF r, of a a d "sw_marks w"] by (auto simp: set_mark_def marks_for_def)
  have s': "handed_for a ?w = handed_for a w" using False by (auto simp: set_mark_def handed_for_def)
  have sh: "map shape (marks_for a w) = map shape (marks_for a ?w)" unfolding m' by (rule update_shape [OF r, symmetric])
  have "marks_ok sha run T a (marks_for a ?w) (handed_for a w)"
    by (rule marks_ok_shape [OF sh ok [unfolded well_marked_def]]) (unfold m', rule update_live_kept [OF r], simp_all)
  then show ?thesis using has_plan_shape [OF sh plan] by (simp add: s' well_marked_def)
qed

lemma marked_aborted:
  assumes inj: "inj_on sha T" and ok: "well_marked sha run T a w" and plan: "has_plan sha run T a (marks_for a w) ids dec" and g: "g \<in> set (groups_of ids)" "g \<notin> set (handed_for a w)"
  shows "well_marked sha run T a (snd (set_mark written a (sha (group_text run a g dec)) ''aborted'' task w))"
proof (cases "\<not> written \<or> find (same_mark a (sha (group_text run a g dec))) (sw_marks w) = None")
  case True
  then show ?thesis using assms by (simp add: set_mark_def)
next
  case False
  let ?d = "sha (group_text run a g dec)"
  let ?w = "snd (set_mark written a ?d ''aborted'' task w)" and ?f = "\<lambda>m. m\<lparr>mk_state := ''aborted'', mk_task := (if task = [] then mk_task m else task)\<rparr>"
  obtain p where p: "p \<in> set (marks_for a w)" "mk_plan p" "plan_for sha run T a p ids dec" using plan unfolding has_plan_def by blast
  have r: "restates ?f ''aborted''" by (rule restates_set)
  have m': "marks_for a ?w = update_mark a ?d ?f (marks_for a w)" using False update_marks_for [OF r, of a a ?d "sw_marks w"] by (auto simp: set_mark_def marks_for_def)
  have s': "handed_for a ?w = handed_for a w" using False by (auto simp: set_mark_def handed_for_def)
  have sh: "map shape (marks_for a w) = map shape (marks_for a ?w)" unfolding m' by (rule update_shape [OF r, symmetric])
  have "marks_ok sha run T a (marks_for a ?w) (handed_for a w)"
  proof (rule marks_ok_shape [OF sh ok [unfolded well_marked_def]])
    fix h q ids' dec' assume h: "h \<in> set (handed_for a w)" and q: "plan_for sha run T a q ids' dec'" "h \<in> set (groups_of ids')" and l: "live_mark (marks_for a w) (sha (group_text run a h dec'))"
    have "sha (group_text run a h dec') \<noteq> ?d" using digest_group [OF inj q p(3) g(1)] h g(2) by blast
    then show "live_mark (marks_for a ?w) (sha (group_text run a h dec'))" unfolding m' using update_live_other [OF r l] by simp
  qed
  then show ?thesis by (simp add: s' well_marked_def)
qed

lemma logged:
  assumes ok: "well_marked sha run T a w" and plan: "has_plan sha run T a (marks_for a w) ids dec" and g: "g \<in> set (groups_of ids)" "g \<notin> set (handed_for a w)"
    and live: "live_mark (marks_for a w) (sha (group_text run a g dec))"
  shows "well_marked sha run T a (log_send a g w) \<and> has_plan sha run T a (marks_for a (log_send a g w)) ids dec"
proof -
  obtain p where p: "p \<in> set (marks_for a w)" "mk_plan p" "plan_for sha run T a p ids dec" using plan unfolding has_plan_def by blast
  have e: "marks_for a (log_send a g w) = marks_for a w" "handed_for a (log_send a g w) = handed_for a w @ [g]" by (simp_all add: log_send_def marks_for_def handed_for_def)
  show ?thesis using marks_ok_log [OF ok [unfolded well_marked_def] p g(1) live g(2)] plan by (simp add: well_marked_def e)
qed

lemma end_run_same [simp]: "marks_for a (end_run s w) = marks_for a w" "handed_for a (end_run s w) = handed_for a w"
  by (simp_all add: end_run_def marks_for_def handed_for_def)

lemma end_run_well [simp]: "well_marked sha run T a (end_run s w) = well_marked sha run T a w"
  by (simp add: well_marked_def)

lemma not_claimed: "claim_mark a d n w = (st, w') \<Longrightarrow> st \<noteq> Mark_Claimed \<Longrightarrow> w' = w"
  by (auto simp: claim_mark_def split: if_splits option.splits)

lemma send_groups_ok:
  assumes inj: "inj_on sha T" and "well_marked sha run T a w" and "has_plan sha run T a (marks_for a w) ids dec"
    and "\<forall>(g, d) \<in> set todo. g \<in> set (groups_of ids) \<and> d = sha (group_text run a g dec)"
  shows "well_marked sha run T a (snd (send_groups a fates i now before todo w))"
  using assms(2-)
proof (induction todo arbitrary: i now before w)
  case (Cons e todo)
  obtain g d where e: "e = (g, d)" by (cases e)
  have g: "g \<in> set (groups_of ids)" "d = sha (group_text run a g dec)" using Cons.prems(3) e by auto
  obtain st w1 where c: "claim_mark a d (length g) w = (st, w1)" by (cases "claim_mark a d (length g) w")
  show ?case
  proof (cases "fates i = Stops_Before_Claim \<or> st \<noteq> Mark_Claimed")
    case True
    then have "fates i = Stops_Before_Claim \<or> w1 = w" using not_claimed [OF c] by blast
    then show ?thesis using c e True Cons.prems Cons.IH [of w] by (cases st) auto
  next
    case False
    have cl: "well_marked sha run T a w1" "has_plan sha run T a (marks_for a w1) ids dec" "g \<notin> set (handed_for a w1)" "live_mark (marks_for a w1) (sha (group_text run a g dec))"
      using claimed [OF inj Cons.prems(1,2) g(1), of "length g" w1] c g(2) False by simp_all
    note lg = logged [OF cl(1,2) g(1) cl(3,4)]
    show ?thesis
    proof (cases "fates i")
      case (Audit_Fails written)
      then show ?thesis using c e False marked_aborted [OF inj cl(1,2) g(1) cl(3)] by (simp add: g(2))
    next
      case (Goes_Out written task)
      let ?w = "snd (set_mark written a d ''sent'' (take 80 task) (log_send a g w1))"
      have "well_marked sha run T a ?w" "has_plan sha run T a (marks_for a ?w) ids dec" using marked_sent [of sha run T a "log_send a g w1" ids dec] lg by simp_all
      then show ?thesis using c e False Goes_Out Cons.prems(3) Cons.IH [of ?w] by simp
    qed (use c e False cl lg in simp_all)
  qed
qed simp

section \<open>A new plan\<close>

lemma same_digest_same_ids:
  assumes "inj_on sha T" and "plan_for sha run T a p ids dec" and "plan_for sha run T a q ids' dec'" and "mk_digest p = mk_digest q"
  shows "ids = ids' \<and> mk_ids p = mk_ids q"
proof -
  have "plan_text run a ids dec \<in> T" "plan_text run a ids' dec' \<in> T" "sha (plan_text run a ids dec) = sha (plan_text run a ids' dec')"
    using assms(2-4) by (auto simp: plan_for_def call_texts_def)
  then have "ids = ids'" using assms(1) text_inj(1) by (metis inj_onD)
  then show ?thesis using assms(2,3) by (simp add: plan_for_def)
qed

lemma kept_marks:
  assumes inj: "inj_on sha T" and ok: "marks_ok sha run T a ms gs" and stale: "stale = filter (\<lambda>p. R (mk_ids p)) (filter mk_plan ms)"
    and gone: "gone = concat (map mk_groups stale) @ map mk_digest stale" and p: "p \<in> set ms" "mk_plan p" "\<not> R (mk_ids p)"
  shows "mk_digest p \<notin> set gone" and "\<And>m. m \<in> set ms \<Longrightarrow> \<not> mk_plan m \<Longrightarrow> mk_digest m \<in> set (mk_groups p) \<Longrightarrow> mk_digest m \<notin> set gone"
proof -
  obtain ids dec where pf: "plan_for sha run T a p ids dec" using ok p unfolding marks_ok_def by blast
  have st: "\<exists>ids' dec'. plan_for sha run T a q ids' dec' \<and> q \<in> set ms \<and> mk_plan q \<and> R (mk_ids q)" if "q \<in> set stale" for q
    using ok that unfolding marks_ok_def stale by auto
  show "mk_digest p \<notin> set gone"
  proof
    assume "mk_digest p \<in> set gone"
    then obtain q where q: "q \<in> set stale" "mk_digest p \<in> set (mk_groups q) \<or> mk_digest p = mk_digest q" unfolding gone by auto
    obtain ids' dec' where qf: "plan_for sha run T a q ids' dec'" "R (mk_ids q)" using st [OF q(1)] by blast
    show False using q(2) plan_digest_not_group [OF inj pf qf(1)] same_digest_same_ids [OF inj pf qf(1)] qf(2) p(3) by auto
  qed
  fix m assume m: "m \<in> set ms" "\<not> mk_plan m" "mk_digest m \<in> set (mk_groups p)"
  obtain g where g: "g \<in> set (groups_of ids)" "mk_digest m = sha (group_text run a g dec)" using plan_for_group [OF pf m(3)] by blast
  show "mk_digest m \<notin> set gone"
  proof
    assume "mk_digest m \<in> set gone"
    then obtain q where q: "q \<in> set stale" "mk_digest m \<in> set (mk_groups q) \<or> mk_digest m = mk_digest q" unfolding gone by auto
    obtain ids' dec' where qf: "plan_for sha run T a q ids' dec'" "q \<in> set ms" "mk_plan q" "R (mk_ids q)" using st [OF q(1)] by blast
    have "mk_digest m \<in> set (mk_groups q)" using q(2) plan_digest_not_group [OF inj qf(1) pf m(3)] by auto
    then obtain h where h: "h \<in> set (groups_of ids')" "mk_digest m = sha (group_text run a h dec')" using plan_for_group [OF qf(1)] by blast
    have "g = h" by (rule digest_group [OF inj pf g(1) qf(1) h(1)]) (use g h in simp)
    then have "covered (mk_ids p) \<inter> covered (mk_ids q) \<noteq> {}" using group_in_plan(3,4) [OF pf g(1)] group_in_plan(4) [OF qf(1) h(1)]
      by (metis Int_greatest set_empty2 subset_empty)
    then have "p = q" using ok p qf(2,3) disjoint_plans [of "filter mk_plan ms" p q] unfolding marks_ok_def by auto
    then show False using p(3) qf(4) by simp
  qed
qed

lemma marks_ok_new_plan:
  assumes inj: "inj_on sha T" and ok: "marks_ok sha run T a ms gs" and stale: "stale = filter (\<lambda>p. ranges_overlap (ranges_of ids) (mk_ids p)) (filter mk_plan ms)"
    and untouched: "\<And>p m. p \<in> set stale \<Longrightarrow> m \<in> set ms \<Longrightarrow> \<not> mk_plan m \<Longrightarrow> mk_digest m \<in> set (mk_groups p) \<Longrightarrow> mk_state m = ''aborted''"
    and gone: "gone = concat (map mk_groups stale) @ map mk_digest stale" and np: "mk_plan np" "plan_for sha run T a np ids dec"
  shows "marks_ok sha run T a (filter (\<lambda>m. mk_digest m \<notin> set gone) ms @ [np]) gs"
proof -
  let ?R = "ranges_overlap (ranges_of ids)" and ?ms = "filter (\<lambda>m. mk_digest m \<notin> set gone) ms"
  note kept = kept_marks [OF inj ok stale gone]
  have left: "\<not> ?R (mk_ids p)" if "p \<in> set ?ms" "mk_plan p" for p using that unfolding stale gone by auto
  have c1: "\<forall>p \<in> set (?ms @ [np]). mk_plan p \<longrightarrow> (\<exists>ids dec. plan_for sha run T a p ids dec)" using ok np unfolding marks_ok_def by auto
  have apart: "covered (mk_ids p) \<inter> covered (mk_ids np) = {}" if pq: "p \<in> set ?ms" "mk_plan p" for p
  proof -
    obtain ids' dec' where pf: "plan_for sha run T a p ids' dec'" using ok pq unfolding marks_ok_def by auto
    have "separated (ranges_of ids)" "mk_ids np = ranges_of ids" using np(2) ranges_of_spec by (auto simp: plan_for_def)
    then show ?thesis using left [OF pq] overlap_iff [of "ranges_of ids" "mk_ids p"] plan_for_covered [OF pf] by (simp add: Int_commute)
  qed
  have "sorted_wrt (\<lambda>p q. covered (mk_ids p) \<inter> covered (mk_ids q) = {}) (filter (\<lambda>m. mk_digest m \<notin> set gone) (filter mk_plan ms))"
    by (rule sorted_wrt_filter) (use ok in \<open>simp add: marks_ok_def\<close>)
  then have c2: "sorted_wrt (\<lambda>p q. covered (mk_ids p) \<inter> covered (mk_ids q) = {}) (filter mk_plan (?ms @ [np]))"
    using apart np(1) by (simp add: sorted_wrt_append filter_filter conj_commute)
  have stays: "p \<in> set ?ms \<and> mk_digest m \<notin> set gone" if "p \<in> set ms" "mk_plan p" "\<not> ?R (mk_ids p)" "m \<in> set ms" "\<not> mk_plan m" "mk_digest m \<in> set (mk_groups p)" for p m
    using kept [OF that(1-3)] that by simp
  have c3: "\<forall>m \<in> set (?ms @ [np]). \<not> mk_plan m \<longrightarrow> (\<exists>p \<in> set (?ms @ [np]). mk_plan p \<and> mk_digest m \<in> set (mk_groups p))"
  proof (intro ballI impI)
    fix m assume m: "m \<in> set (?ms @ [np])" "\<not> mk_plan m"
    then have m': "m \<in> set ms" "mk_digest m \<notin> set gone" using np(1) by auto
    then obtain p where p: "p \<in> set ms" "mk_plan p" "mk_digest m \<in> set (mk_groups p)" using ok m(2) unfolding marks_ok_def by blast
    have "\<not> ?R (mk_ids p)" using m'(2) p unfolding stale gone by auto
    then show "\<exists>p \<in> set (?ms @ [np]). mk_plan p \<and> mk_digest m \<in> set (mk_groups p)" using stays [OF p(1,2) _ m'(1) m(2) p(3)] p by (intro bexI [of _ p]) simp_all
  qed
  have "distinct (map mk_digest (filter (\<lambda>m. mk_digest m \<notin> set gone) (filter (\<lambda>m. \<not> mk_plan m) ms)))"
    by (rule distinct_map_filter) (use ok in \<open>simp add: marks_ok_def\<close>)
  then have c4: "distinct (map mk_digest (filter (\<lambda>m. \<not> mk_plan m) (?ms @ [np])))" using np(1) by (simp add: filter_filter conj_commute)
  have c5: "\<forall>g \<in> set gs. \<exists>p ids dec. p \<in> set (?ms @ [np]) \<and> mk_plan p \<and> plan_for sha run T a p ids dec \<and> g \<in> set (groups_of ids) \<and> live_mark (?ms @ [np]) (sha (group_text run a g dec))"
  proof
    fix g assume "g \<in> set gs"
    then obtain p ids' dec' where p: "p \<in> set ms" "mk_plan p" "plan_for sha run T a p ids' dec'" "g \<in> set (groups_of ids')" "live_mark ms (sha (group_text run a g dec'))"
      using ok unfolding marks_ok_def by blast
    obtain m where m: "m \<in> set ms" "\<not> mk_plan m" "mk_digest m = sha (group_text run a g dec')" "mk_state m \<noteq> ''aborted''" using p(5) unfolding live_mark_def by blast
    have d: "mk_digest m \<in> set (mk_groups p)" using group_in_plan(1) [OF p(3,4)] m(3) by simp
    then have "\<not> ?R (mk_ids p)" using untouched [of p m] m p unfolding stale by auto
    then have "p \<in> set ?ms" "m \<in> set ?ms" using stays [OF p(1,2) _ m(1,2) d] m(1) by auto
    then have "p \<in> set (?ms @ [np])" "live_mark (?ms @ [np]) (sha (group_text run a g dec'))" using m unfolding live_mark_def by auto
    then show "\<exists>p ids dec. p \<in> set (?ms @ [np]) \<and> mk_plan p \<and> plan_for sha run T a p ids dec \<and> g \<in> set (groups_of ids) \<and> live_mark (?ms @ [np]) (sha (group_text run a g dec))"
      using p by (intro exI [of _ p] exI [of _ ids'] exI [of _ dec']) simp
  qed
  have "distinct gs" using ok by (simp add: marks_ok_def)
  then show ?thesis unfolding marks_ok_def using c1 c2 c3 c4 c5 by (intro conjI)
qed

lemma plans_for: "plans_of a (sw_marks w) = filter mk_plan (marks_for a w)"
  by (simp add: plans_of_def marks_for_def conj_commute)

lemma touched_for: "plan_touched a (sw_marks w) p \<longleftrightarrow> (\<exists>m \<in> set (marks_for a w). \<not> mk_plan m \<and> mk_digest m \<in> set (mk_groups p) \<and> mk_state m \<noteq> ''aborted'')"
  by (auto simp: plan_touched_def group_mark_of_def marks_for_def list_ex_iff)

lemma claim_plan_cases:
  assumes "claim_plan sha run a ids digests dec w = ((st, q), w')"
  obtains (same) p where "st = Plan_Same" "q = Some p" "w' = w" "p \<in> set (plans_of a (sw_marks w))" "mk_digest p = sha (plan_text run a ids dec)"
  | (new) stale where "st = Plan_New" "stale = filter (\<lambda>p. ranges_overlap (ranges_of ids) (mk_ids p)) (plans_of a (sw_marks w))"
      "\<forall>p \<in> set stale. \<not> plan_touched a (sw_marks w) p"
      "q = Some (new_plan a (sha (plan_text run a ids dec)) ids digests (map_option (\<lambda>_. sha (plan_text run a ids None)) dec))"
      "w' = w\<lparr>sw_marks := drop_plans a stale (sw_marks w) @ [the q]\<rparr>"
  | (stop) "st \<notin> {Plan_Same, Plan_New}" "w' = w"
proof -
  let ?plans = "plans_of a (sw_marks w)"
  let ?over = "filter (\<lambda>p. ranges_overlap (ranges_of ids) (mk_ids p)) ?plans"
  let ?np = "new_plan a (sha (plan_text run a ids dec)) ids digests (map_option (\<lambda>_. sha (plan_text run a ids None)) dec)"
  have none: "drop_plans a [] ms = ms" for ms by (simp add: drop_plans_def)
  show ?thesis
  proof (cases "sw_status w \<noteq> ''running''")
    case True
    then have "((st, q), w') = ((Plan_Gone, None), w)" using assms by (simp add: claim_plan_def Let_def)
    then show ?thesis by (intro stop) simp_all
  next
    case running: False
    show ?thesis
    proof (cases "find (\<lambda>p. mk_digest p = sha (plan_text run a ids dec)) ?plans")
      case (Some p)
      then have "((st, q), w') = ((Plan_Same, Some p), w)" using assms running by (simp add: claim_plan_def Let_def)
      moreover have "p \<in> set ?plans" "mk_digest p = sha (plan_text run a ids dec)" using Some by (auto simp: find_Some_iff)
      ultimately show ?thesis by (intro same [of p]) simp_all
    next
      case fn: None
      show ?thesis
      proof (cases "Option.bind (map_option (\<lambda>_. sha (plan_text run a ids None)) dec) (\<lambda>d. find (\<lambda>p. ids_key_of p = d) ?plans)")
        case (Some p)
        then have "((st, q), w') = ((if plan_touched a (sw_marks w) p then Plan_Changed_Decisions else Plan_Decisions_Changed, Some p), w)"
          using assms running fn unfolding claim_plan_def Let_def by (simp del: prod.inject)
        then show ?thesis by (intro stop) simp_all
      next
        case bn: None
        show ?thesis
        proof (cases "find (plan_touched a (sw_marks w)) ?over")
          case (Some p)
          then have "((st, q), w') = ((Plan_Changed, Some p), w)" using assms running fn bn by (simp add: claim_plan_def Let_def)
          then show ?thesis by (intro stop) simp_all
        next
          case tn: None
          let ?marks = "if ?over = [] then sw_marks w else drop_plans a ?over (sw_marks w)"
          have m: "?marks = drop_plans a ?over (sw_marks w)" by (simp add: none)
          have r: "((st, q), w') = (if max_marks_per_run \<le> int (length ?marks) then ((Plan_Full, None), w) else ((Plan_New, Some ?np), w\<lparr>sw_marks := ?marks @ [?np]\<rparr>))"
            using assms running fn bn tn by (simp add: claim_plan_def Let_def)
          show ?thesis
          proof (cases "max_marks_per_run \<le> int (length ?marks)")
            case True
            then show ?thesis using r by (intro stop) simp_all
          next
            case False
            then show ?thesis using r m tn by (intro new [of ?over]) (simp_all add: find_None_iff)
          qed
        qed
      qed
    qed
  qed
qed

lemma drop_plans_for:
  assumes "gone = concat (map mk_groups stale) @ map mk_digest stale"
  shows "filter (\<lambda>m. mk_action m = b) (drop_plans a stale ms) =
    (if b = a then filter (\<lambda>m. mk_digest m \<notin> set gone) (filter (\<lambda>m. mk_action m = b) ms) else filter (\<lambda>m. mk_action m = b) ms)"
  unfolding drop_plans_def Let_def assms [symmetric] by (induction ms) auto

lemma claim_plan_ok:
  assumes inj: "inj_on sha T" and ok: "well_marked sha run T a w" and ids: "sorted_wrt (<) ids" "ids \<noteq> []" "call_texts run a ids dec \<subseteq> T"
    and c: "claim_plan sha run a ids (group_digests sha run a ids dec) dec w = ((st, q), w')" and st: "st \<in> {Plan_Same, Plan_New}"
  shows "well_marked sha run T a w' \<and> (\<exists>p dec'. q = Some p \<and> p \<in> set (marks_for a w') \<and> mk_plan p \<and> plan_for sha run T a p ids dec')"
  using c
proof (cases rule: claim_plan_cases)
  case (same p)
  then have p: "p \<in> set (marks_for a w)" "mk_plan p" unfolding plans_for by auto
  then obtain ids' dec' where pf: "plan_for sha run T a p ids' dec'" using ok unfolding well_marked_def marks_ok_def by blast
  have "plan_text run a ids dec = plan_text run a ids' dec'"
  proof (rule inj_onD [OF inj])
    show "sha (plan_text run a ids dec) = sha (plan_text run a ids' dec')" using pf same(5) by (simp add: plan_for_def)
    show "plan_text run a ids dec \<in> T" using ids(3) by (simp add: call_texts_def)
    show "plan_text run a ids' dec' \<in> T" using pf by (simp add: plan_for_def call_texts_def)
  qed
  then have "ids = ids'" by (rule text_inj(1))
  then have "plan_for sha run T a p ids dec'" using pf by simp
  then show ?thesis using same(2,3) ok p by (intro conjI exI [of _ p] exI [of _ dec']) simp_all
next
  case (new stale)
  let ?np = "new_plan a (sha (plan_text run a ids dec)) ids (group_digests sha run a ids dec) (map_option (\<lambda>_. sha (plan_text run a ids None)) dec)"
  let ?gone = "concat (map mk_groups stale) @ map mk_digest stale"
  have np: "mk_plan ?np" "plan_for sha run T a ?np ids dec" "mk_action ?np = a" using ids by (simp_all add: new_plan_def plan_for_def)
  have w': "w' = w\<lparr>sw_marks := drop_plans a stale (sw_marks w) @ [?np]\<rparr>" using new(4,5) by simp
  have "filter (\<lambda>m. mk_action m = a) (drop_plans a stale (sw_marks w)) = filter (\<lambda>m. mk_digest m \<notin> set ?gone) (marks_for a w)"
    unfolding marks_for_def drop_plans_for [OF refl, of a a stale "sw_marks w"] by (rule if_P) (rule refl)
  moreover have "marks_for a w' = filter (\<lambda>m. mk_action m = a) (drop_plans a stale (sw_marks w)) @ [?np]" using w' np(3) by (simp add: marks_for_def)
  ultimately have m': "marks_for a w' = filter (\<lambda>m. mk_digest m \<notin> set ?gone) (marks_for a w) @ [?np]" by (simp only:)
  have s': "handed_for a w' = handed_for a w" using new(5) by (simp add: handed_for_def)
  have "marks_ok sha run T a (marks_for a w') (handed_for a w)" unfolding m'
  proof (rule marks_ok_new_plan [OF inj ok [unfolded well_marked_def] new(2) [unfolded plans_for] _ refl np(1,2)])
    fix p m assume "p \<in> set stale" "m \<in> set (marks_for a w)" "\<not> mk_plan m" "mk_digest m \<in> set (mk_groups p)"
    then show "mk_state m = ''aborted''" using new(3) touched_for by blast
  qed
  moreover have "?np \<in> set (marks_for a w')" unfolding m' by simp
  ultimately show ?thesis using new(4) np s' unfolding well_marked_def by auto
qed (use st in simp)

lemma send_items_ok:
  assumes inj: "inj_on sha T" and ok: "well_marked sha run T a w" and ids: "sorted_wrt (<) ids" "ids \<noteq> []" "call_texts run a ids dec \<subseteq> T"
  shows "well_marked sha run T a (snd (send_items sha run a ids dec fates w))"
proof -
  obtain st q w1 where c: "claim_plan sha run a ids (group_digests sha run a ids dec) dec w = ((st, q), w1)" by (metis prod.exhaust)
  have e: "map (\<lambda>g. sha (group_text run a g dec)) (groups_of ids) = group_digests sha run a ids dec" by (simp add: group_digests_def)
  show ?thesis
  proof (cases "st \<in> {Plan_Same, Plan_New}")
    case False
    from c have "w1 = w" by (cases rule: claim_plan_cases) (use False in auto)
    then show ?thesis using False c ok unfolding send_items_def Let_def e by (cases st; cases q) auto
  next
    case True
    obtain p dec' where p: "q = Some p" "p \<in> set (marks_for a w1)" "mk_plan p" "plan_for sha run T a p ids dec'" and w1: "well_marked sha run T a w1"
      using claim_plan_ok [OF inj ok ids c True] by blast
    have size: "mk_size p = max_agents_per_group" "mk_groups p = group_digests sha run a ids dec'" using p(4) by (simp_all add: plan_for_def)
    have todo: "\<forall>(g, d) \<in> set (zip (groups_of ids) (mk_groups p)). g \<in> set (groups_of ids) \<and> d = sha (group_text run a g dec')"
      unfolding size(2) group_digests_def by (auto simp: zip_map2 in_set_zip)
    have len: "length (mk_groups p) = length (groups_of ids)" "groups_of ids \<noteq> []" using groups_facts(1) [of ids] ids(2) by (auto simp: size(2) group_digests_def)
    have gs: "cut (if mk_size p = 0 then max_agents_per_group else mk_size p) ids = groups_of ids" by (simp add: size groups_of_def)
    have stored: "(if mk_groups p = [] then ds else mk_groups p) = mk_groups p" for ds using len by auto
    have plan: "has_plan sha run T a (marks_for a w1) ids dec'" using p unfolding has_plan_def by blast
    note loop = send_groups_ok [OF inj w1 plan todo]
    have "snd (send_items sha run a ids dec fates w) \<in> {end_run ''skipped'' w, snd (send_groups a fates 0 0 0 (zip (groups_of ids) (mk_groups p)) w1)}"
      using True c unfolding send_items_def Let_def e by (cases st) (auto simp: p(1) gs stored len)
    then show ?thesis using ok loop by auto
  qed
qed

section \<open>Other actions of the same run\<close>

lemma claim_mark_other: "a \<noteq> b \<Longrightarrow> claim_mark b d n w = (st, w') \<Longrightarrow> marks_for a w' = marks_for a w \<and> handed_for a w' = handed_for a w"
  using update_marks_for [OF restates_claim [of "''claiming''"], of a b d "sw_marks w"]
  by (auto simp: claim_mark_def marks_for_def handed_for_def new_group_mark_def split: if_splits option.splits)

lemma set_mark_other: "a \<noteq> b \<Longrightarrow> marks_for a (snd (set_mark written b d state task w)) = marks_for a w \<and> handed_for a (snd (set_mark written b d state task w)) = handed_for a w"
  using update_marks_for [OF restates_set, of a b d _ state "sw_marks w"] by (simp add: set_mark_def marks_for_def handed_for_def)

lemma log_other: "a \<noteq> b \<Longrightarrow> marks_for a (log_send b g w) = marks_for a w \<and> handed_for a (log_send b g w) = handed_for a w"
  by (simp add: log_send_def marks_for_def handed_for_def)

lemma send_groups_other:
  assumes "a \<noteq> b"
  shows "marks_for a (snd (send_groups b fates i now before todo w)) = marks_for a w \<and> handed_for a (snd (send_groups b fates i now before todo w)) = handed_for a w"
proof (induction todo arbitrary: i now before w)
  case (Cons e todo)
  obtain g d where e: "e = (g, d)" by (cases e)
  obtain st w1 where c: "claim_mark b d (length g) w = (st, w1)" by (cases "claim_mark b d (length g) w")
  note o = claim_mark_other [OF assms c] set_mark_other [OF assms] log_other [OF assms]
  show ?case
  proof (cases "fates i = Stops_Before_Claim")
    case False
    show ?thesis using e c o Cons.IH False by (cases st; cases "fates i") simp_all
  qed (simp add: e)
qed simp

lemma claim_plan_other:
  assumes "a \<noteq> b" and "claim_plan sha run b ids digests dec w = (r, w')"
  shows "marks_for a w' = marks_for a w \<and> handed_for a w' = handed_for a w"
proof -
  obtain st q where "r = (st, q)" by (cases r)
  with assms(2) have "claim_plan sha run b ids digests dec w = ((st, q), w')" by simp
  then show ?thesis
  proof (cases rule: claim_plan_cases)
    case (new stale)
    then show ?thesis using assms(1) drop_plans_for [OF refl, of a b stale "sw_marks w"] by (simp add: marks_for_def handed_for_def new_plan_def)
  qed auto
qed

lemma send_items_other:
  assumes "a \<noteq> b"
  shows "marks_for a (snd (send_items sha run b ids dec fates w)) = marks_for a w \<and> handed_for a (snd (send_items sha run b ids dec fates w)) = handed_for a w"
proof -
  let ?ds = "map (\<lambda>g. sha (group_text run b g dec)) (groups_of ids)"
  obtain st q w1 where c: "claim_plan sha run b ids ?ds dec w = ((st, q), w1)" by (metis prod.exhaust)
  note o = claim_plan_other [OF assms c] send_groups_other [OF assms]
  show ?thesis unfolding send_items_def Let_def c using o by (cases st; cases q) (simp_all add: Let_def)
qed

section \<open>Every history of attempts\<close>

text \<open>What can happen to a run, in order: a call of \<open>run_system_action\<close> or \<open>run_system_write\<close> for any action with whatever list and
  whatever the world does to its groups, or another change of the run's status (a retry, a recovery, an end).\<close>

datatype send_step =
    Call_Task string pyval "nat \<Rightarrow> group_fate"
  | Call_Write string "string list" "int list \<Rightarrow> (int, int) dict option" pyval "nat \<Rightarrow> group_fate"
  | Set_Status string

fun do_step :: "(string \<Rightarrow> string) \<Rightarrow> string \<Rightarrow> send_step \<Rightarrow> send_world \<Rightarrow> send_world" where
  "do_step sha run (Call_Task a agents fates) w = snd (send_task sha run a agents fates w)"
| "do_step sha run (Call_Write a allowed update_agents changes fates) w = snd (send_write sha run a allowed update_agents changes fates w)"
| "do_step sha run (Set_Status s) w = w\<lparr>sw_status := s\<rparr>"

definition send_history :: "(string \<Rightarrow> string) \<Rightarrow> string \<Rightarrow> send_step list \<Rightarrow> send_world \<Rightarrow> send_world" where
  "send_history sha run steps w = fold (do_step sha run) steps w"

text \<open>The texts whose digests a step computes.\<close>

fun step_texts :: "string \<Rightarrow> send_step \<Rightarrow> string set" where
  "step_texts run (Call_Task a agents fates) = (case agent_ids agents of Inl _ \<Rightarrow> {} | Inr ids \<Rightarrow> call_texts run a ids None)"
| "step_texts run (Call_Write a allowed update_agents changes fates) = (case resolve_changes allowed update_agents changes of
     Inl _ \<Rightarrow> {} | Inr (d, _) \<Rightarrow> call_texts run a (sort (keys d)) (Some d))"
| "step_texts run (Set_Status s) = {}"

definition fresh_run :: send_world where
  "fresh_run = \<lparr>sw_status = ''running'', sw_marks = [], sw_sent = []\<rparr>"

lemma send_items_kept:
  assumes "inj_on sha T" and "well_marked sha run T a w" and "sorted_wrt (<) ids" and "ids \<noteq> []" and "call_texts run b ids dec \<subseteq> T"
  shows "well_marked sha run T a (snd (send_items sha run b ids dec fates w))"
proof (cases "a = b")
  case True
  then show ?thesis using send_items_ok assms by blast
next
  case False
  then show ?thesis using send_items_other [OF False] assms(2) unfolding well_marked_def by simp
qed

lemma collect_changes_keys: "collect_changes d vs = Some e \<Longrightarrow> distinct (keys d) \<Longrightarrow> distinct (keys e) \<and> length e = length d + length vs"
proof (induction vs arbitrary: d)
  case (Cons v vs)
  then obtain i action where v: "change_item v = Some (i, action)" "\<not> has_key d i" "collect_changes (d @ [(i, action)]) vs = Some e"
    by (auto split: option.splits if_splits)
  have "i \<notin> fst ` set d" using v(2) by (simp add: has_key_iff map_of_eq_None_iff)
  then show ?case using Cons.IH [OF v(3)] Cons.prems(2) by (auto simp: keys_def)
qed simp

lemma resolve_changes_keys:
  assumes "resolve_changes allowed update_agents changes = Inr (d, agents)"
  shows "sorted_wrt (<) (sort (keys d)) \<and> sort (keys d) \<noteq> []"
proof -
  obtain vs where vs: "vs \<noteq> []" "collect_changes [] vs = Some d" using assms by (auto simp: resolve_changes_def split: pyval.splits if_splits option.splits)
  then have "distinct (keys d)" "d \<noteq> []" using collect_changes_keys [OF vs(2)] by (auto simp: keys_def)
  moreover have "sort (keys d) \<noteq> []" using \<open>d \<noteq> []\<close> by (metis keys_def length_0_conv length_map length_sort)
  ultimately show ?thesis by (simp add: strict_sorted_iff)
qed

lemma send_step_kept:
  assumes inj: "inj_on sha T" and ok: "well_marked sha run T a w" and "step_texts run st \<subseteq> T"
  shows "well_marked sha run T a (do_step sha run st w)"
proof (cases st)
  case (Call_Task b agents fates)
  show ?thesis
  proof (cases "agent_ids agents")
    case (Inl e)
    then show ?thesis using ok Call_Task by (simp add: send_task_def)
  next
    case (Inr ids)
    then show ?thesis using send_items_kept [OF inj ok _ _ , of ids b None] agent_ids_sorted [OF Inr] assms(3) Call_Task by (simp add: send_task_def)
  qed
next
  case (Call_Write b allowed update_agents changes fates)
  show ?thesis
  proof (cases "resolve_changes allowed update_agents changes")
    case (Inl e)
    then show ?thesis using ok Call_Write by (simp add: send_write_def)
  next
    case (Inr r)
    obtain d agents where r: "r = (d, agents)" by (cases r)
    then show ?thesis using send_items_kept [OF inj ok, of "sort (keys d)" b "Some d"] resolve_changes_keys [OF Inr [unfolded r]] assms(3) Call_Write Inr
      by (simp add: send_write_def)
  qed
next
  case (Set_Status s)
  then show ?thesis using ok by (simp add: well_marked_def marks_for_def handed_for_def)
qed

lemma send_history_kept: "inj_on sha T \<Longrightarrow> well_marked sha run T a w \<Longrightarrow> (\<Union>st \<in> set steps. step_texts run st) \<subseteq> T \<Longrightarrow> well_marked sha run T a (send_history sha run steps w)"
proof (induction steps arbitrary: w)
  case (Cons st steps)
  then show ?case using Cons.IH [OF Cons.prems(1) send_step_kept [OF Cons.prems(1,2)]] by (simp add: send_history_def)
qed (simp add: send_history_def)

lemma fresh_well_marked: "well_marked sha run T a fresh_run"
  by (simp add: well_marked_def marks_ok_def fresh_run_def marks_for_def handed_for_def)

section \<open>A call nothing disturbs\<close>

lemma chunk_length: "0 \<le> n \<Longrightarrow> chunk n xs = (first, rest) \<Longrightarrow> int (length first) = min n (int (length xs))"
  by (induction n xs arbitrary: first rest rule: chunk.induct) (auto split: if_splits prod.splits)

lemma cut_length: "0 < n \<Longrightarrow> int (length xs) \<le> int k * n \<Longrightarrow> length (cut n xs) \<le> k"
proof (induction n xs arbitrary: k rule: cut.induct)
  case (1 n xs)
  show ?case
  proof (cases "xs = []")
    case True
    then show ?thesis by (simp add: cut.simps)
  next
    case False
    obtain first rest where c: "chunk n xs = (first, rest)" by (cases "chunk n xs")
    obtain j where k: "k = Suc j" using False "1.prems"(2) by (cases k) auto
    have "int (length first) + int (length rest) = int (length xs)" using chunk_append [OF c] by (metis length_append of_nat_add)
    moreover have "int (length first) = min n (int (length xs))" using chunk_length [OF _ c] "1.prems"(1) by simp
    ultimately have "int (length rest) \<le> int j * n" using "1.prems" k by (auto simp: algebra_simps min_def split: if_splits)
    then have "length (cut n rest) \<le> j" using "1.IH" "1.prems"(1) False c by simp
    then show ?thesis using False "1.prems"(1) c k by (simp add: cut.simps [of n xs])
  qed
qed

lemma update_same_mark: "restates f state \<Longrightarrow> m \<in> set (update_mark a d f ms) \<Longrightarrow> same_mark b e m \<Longrightarrow> \<exists>n \<in> set ms. same_mark b e n"
  using update_in [of m a d f ms] by (auto simp: restates_def same_mark_def shape_def)

lemma update_length: "length (update_mark a d f ms) = length ms"
  by (induction ms) auto

lemma set_mark_facts:
  "sw_status (snd (set_mark written a d state task w)) = sw_status w" "sw_sent (snd (set_mark written a d state task w)) = sw_sent w"
  "length (sw_marks (snd (set_mark written a d state task w))) = length (sw_marks w)"
  "m \<in> set (sw_marks (snd (set_mark written a d state task w))) \<Longrightarrow> same_mark b e m \<Longrightarrow> \<exists>n \<in> set (sw_marks w). same_mark b e n"
  using update_same_mark [OF restates_set] by (auto simp: set_mark_def update_length split: if_splits)

lemma send_groups_all:
  assumes "sw_status w = ''running''" and "\<And>i. \<exists>written task. fates i = Goes_Out written task" and "distinct (map snd todo)"
    and "\<And>g d m. (g, d) \<in> set todo \<Longrightarrow> m \<in> set (sw_marks w) \<Longrightarrow> \<not> same_mark a d m" and "int (length (sw_marks w)) + int (length todo) \<le> max_marks_per_run"
  shows "\<exists>w'. send_groups a fates i now before todo w = (Queued (i + length todo) (now + length todo) before, w') \<and> sw_sent w' = sw_sent w @ map (\<lambda>e. (a, fst e)) todo"
  using assms
proof (induction todo arbitrary: i now w)
  case (Cons e todo)
  obtain g d where e: "e = (g, d)" by (cases e)
  obtain written task where fate: "fates i = Goes_Out written task" using Cons.prems(2) by blast
  have "find (same_mark a d) (sw_marks w) = None" using Cons.prems(4) e by (auto simp: find_None_iff)
  then have c: "claim_mark a d (length g) w = (Mark_Claimed, w\<lparr>sw_marks := sw_marks w @ [new_group_mark a d (length g)]\<rparr>)"
    using Cons.prems(1,5) by (simp add: claim_mark_def)
  let ?w1 = "log_send a g (w\<lparr>sw_marks := sw_marks w @ [new_group_mark a d (length g)]\<rparr>)"
  let ?w2 = "snd (set_mark written a d ''sent'' (take 80 task) ?w1)"
  note f = set_mark_facts [where written = written and a = a and d = d and state = "''sent''" and task = "take 80 task" and w = ?w1]
  have fresh: "\<not> same_mark a d' m" if gd: "(g', d') \<in> set todo" and m: "m \<in> set (sw_marks ?w2)" for g' d' m
  proof
    assume "same_mark a d' m"
    then obtain n where n: "n \<in> set (sw_marks ?w1)" "same_mark a d' n" using f(4) [OF m] by blast
    then consider "n \<in> set (sw_marks w)" | "n = new_group_mark a d (length g)" by (auto simp: log_send_def)
    then show False
    proof cases
      case 1
      then show False using Cons.prems(4) [of g' d' n] gd n(2) by simp
    next
      case 2
      then have "d' = d" using n(2) by (simp add: same_mark_def new_group_mark_def)
      then show False using Cons.prems(3) gd e by force
    qed
  qed
  have "\<exists>w'. send_groups a fates (Suc i) (Suc now) before todo ?w2 = (Queued (Suc i + length todo) (Suc now + length todo) before, w') \<and> sw_sent w' = sw_sent ?w2 @ map (\<lambda>e. (a, fst e)) todo"
    by (rule Cons.IH [OF _ Cons.prems(2)]) (use Cons.prems(1,3,5) f(1,3) fresh in \<open>auto simp: log_send_def\<close>)
  then show ?case using e fate c f(2) by (auto simp: log_send_def)
qed simp

lemma agent_ids_bounds: "agent_ids v = Inr ids \<Longrightarrow> int (length ids) \<le> max_agents"
proof -
  assume "agent_ids v = Inr ids"
  then obtain vs where vs: "int (length vs) \<le> max_agents" "ids = sort (dedup (List.map_filter agent_number vs))"
    by (auto simp: agent_ids_def not_less split: pyval.splits if_splits)
  have "length (List.map_filter agent_number vs) \<le> length vs" by (simp add: List.map_filter_def)
  then have "length ids \<le> length vs" using vs(2) length_dedup le_trans by (metis length_sort)
  then show ?thesis using vs(1) by simp
qed

lemma distinct_parts: "distinct (concat gs) \<Longrightarrow> (\<And>g. g \<in> set gs \<Longrightarrow> g \<noteq> []) \<Longrightarrow> distinct gs"
proof (induction gs)
  case (Cons g gs)
  obtain x where "x \<in> set g" using Cons.prems(2) [of g] by (cases g) auto
  then have "g \<notin> set gs" using Cons.prems(1) by auto
  then show ?case using Cons by simp
qed simp

lemma fresh_texts:
  assumes "inj_on sha (call_texts run a ids dec)" and "distinct ids"
  shows "distinct (group_digests sha run a ids dec)" "sha (plan_text run a ids dec) \<notin> set (group_digests sha run a ids dec)"
proof -
  have g: "group_text run a g dec \<in> call_texts run a ids dec" if "g \<in> set (groups_of ids)" for g using that by (simp add: call_texts_def)
  have "distinct (groups_of ids)" by (rule distinct_parts) (use groups_facts(1,2) assms(2) in auto)
  moreover have "inj_on (\<lambda>g. sha (group_text run a g dec)) (set (groups_of ids))"
    by (rule inj_onI) (use assms(1) g text_inj(2) in \<open>auto dest!: inj_onD\<close>)
  ultimately show "distinct (group_digests sha run a ids dec)" by (simp add: group_digests_def distinct_map)
  show "sha (plan_text run a ids dec) \<notin> set (group_digests sha run a ids dec)"
  proof
    assume "sha (plan_text run a ids dec) \<in> set (group_digests sha run a ids dec)"
    then obtain h where h: "h \<in> set (groups_of ids)" "sha (plan_text run a ids dec) = sha (group_text run a h dec)" by (auto simp: group_digests_def)
    have "plan_text run a ids dec = group_text run a h dec" by (rule inj_onD [OF assms(1) h(2)]) (use g [OF h(1)] in \<open>simp_all add: call_texts_def\<close>)
    then show False using text_kinds groups_facts(2) [OF h(1)] by blast
  qed
qed

section \<open>Guarantees\<close>

definition scan_steps :: "send_step list" where
  "scan_steps = [Call_Task ''patching.scan'' (PList [PInt 3, PInt 1]) (\<lambda>_. Audit_Fails True), Call_Task ''patching.scan'' (PList [PInt 1, PInt 2]) (\<lambda>_. Stops_After_Send),
     Call_Task ''patching.scan'' (PList [PInt 1, PInt 2]) (\<lambda>_. Goes_Out True ''t''), Set_Status ''running'',
     Call_Task ''patching.scan'' (PList [PInt 2, PInt 3]) (\<lambda>_. Goes_Out True ''t''), Set_Status ''running'',
     Call_Task ''patching.scan'' (PList [PInt 4]) (\<lambda>_. Goes_Out True ''t'')]"

text \<open>(C4) Over every history of a run, calls with any lists for any actions, processes that stop at any point, failed audit rows,
  exceptions of Tactical's task, lost mark updates and changes of the status in between, no endpoint (or update) is handed over
  twice for the same action, as long as no two of the texts digested in that history have the same digest.\<close>

theorem endpoint_sent_at_most_once:
  assumes "inj_on sha (\<Union>st \<in> set steps. step_texts run st)"
  shows "distinct (concat (handed_for a (send_history sha run steps fresh_run)))"
  using send_history_kept [OF assms fresh_well_marked order_refl, where ?a = a] unfolding well_marked_def by (rule marks_ok_distinct)

theorem endpoint_sent_at_most_once_witness:
  "distinct (concat (handed_for ''patching.scan'' (send_history id ''7'' scan_steps fresh_run))) \<and>
   handed_for ''patching.scan'' (send_history id ''7'' scan_steps fresh_run) = [[1, 2], [4]]"
proof
  show "distinct (concat (handed_for ''patching.scan'' (send_history id ''7'' scan_steps fresh_run)))" by (rule endpoint_sent_at_most_once) simp
  show "handed_for ''patching.scan'' (send_history id ''7'' scan_steps fresh_run) = [[1, 2], [4]]" by code_simp
qed

text \<open>A call that nothing disturbs reaches everything: on a fresh run every given endpoint is handed over exactly once, in
  ascending order, in at most twenty groups of at most 2000, whether or not the later mark updates are written.\<close>

theorem undisturbed_call_sends_all:
  assumes "agent_ids agents = Inr ids" and "inj_on sha (call_texts run a ids None)" and "\<forall>i. \<exists>written task. fates i = Goes_Out written task"
  shows "\<exists>w. send_task sha run a agents fates fresh_run = (Queued (length (groups_of ids)) (length (groups_of ids)) 0, w) \<and>
    handed_for a w = groups_of ids \<and> concat (groups_of ids) = ids \<and> length (groups_of ids) \<le> 20 \<and> (\<forall>g \<in> set (groups_of ids). length g \<le> 2000)"
proof -
  have sorted: "sorted_wrt (<) ids" "ids \<noteq> []" using agent_ids_sorted [OF assms(1)] by simp_all
  then have distinct: "distinct ids" by (simp add: strict_sorted_iff)
  let ?ds = "group_digests sha run a ids None" and ?gs = "groups_of ids"
  have gd: "map (\<lambda>g. sha (group_text run a g None)) ?gs = ?ds" by (simp add: group_digests_def)
  have len: "length ?gs \<le> 20"
    using cut_length [of max_agents_per_group ids 20] agent_ids_bounds [OF assms(1)] by (simp add: groups_of_def max_agents_def max_groups_def max_agents_per_group_def)
  have small: "\<forall>g \<in> set ?gs. length g \<le> 2000" using cut_facts [of max_agents_per_group ids] by (simp add: groups_of_def max_agents_per_group_def)
  let ?np = "new_plan a (sha (plan_text run a ids None)) ids ?ds None" and ?w1 = "fresh_run\<lparr>sw_marks := [new_plan a (sha (plan_text run a ids None)) ids ?ds None]\<rparr>"
  have c: "claim_plan sha run a ids ?ds None fresh_run = ((Plan_New, Some ?np), ?w1)" by (simp add: claim_plan_def fresh_run_def plans_of_def max_marks_per_run_def Let_def)
  have "?ds \<noteq> []" "length ?ds = length ?gs" using sorted(2) groups_facts(1) [of ids] by (auto simp: group_digests_def)
  then have e: "send_items sha run a ids None fates fresh_run = send_groups a fates 0 0 0 (zip ?gs ?ds) ?w1"
    using len unfolding send_items_def Let_def gd c by (simp add: fresh_run_def new_plan_def groups_of_def max_marks_per_run_def max_agents_per_group_def)
  have "\<exists>w'. send_groups a fates 0 0 0 (zip ?gs ?ds) ?w1 = (Queued (0 + length (zip ?gs ?ds)) (0 + length (zip ?gs ?ds)) 0, w') \<and> sw_sent w' = sw_sent ?w1 @ map (\<lambda>e. (a, fst e)) (zip ?gs ?ds)"
  proof (rule send_groups_all)
    show "sw_status ?w1 = ''running''" by (simp add: fresh_run_def)
    show "distinct (map snd (zip ?gs ?ds))" using fresh_texts(1) [OF assms(2) distinct] \<open>length ?ds = length ?gs\<close> by simp
    show "int (length (sw_marks ?w1)) + int (length (zip ?gs ?ds)) \<le> max_marks_per_run" using len \<open>length ?ds = length ?gs\<close> by (simp add: max_marks_per_run_def)
    show "\<not> same_mark a d m" if "(g, d) \<in> set (zip ?gs ?ds)" "m \<in> set (sw_marks ?w1)" for g d m
      using that fresh_texts(2) [OF assms(2) distinct] by (auto simp: same_mark_def new_plan_def dest: set_zip_rightD)
  qed (use assms(3) in blast)
  then obtain w where w: "send_groups a fates 0 0 0 (zip ?gs ?ds) ?w1 = (Queued (length ?gs) (length ?gs) 0, w)" "sw_sent w = map (\<lambda>e. (a, fst e)) (zip ?gs ?ds)"
    using \<open>length ?ds = length ?gs\<close> by (auto simp: fresh_run_def)
  have "handed_for a w = ?gs" using w(2) \<open>length ?ds = length ?gs\<close> by (simp add: handed_for_def filter_map comp_def)
  then show ?thesis using w(1) e len small groups_facts(1) assms(1) by (simp add: send_task_def)
qed

theorem undisturbed_call_sends_all_witness:
  "\<exists>w. send_task id ''7'' ''patching.scan'' (PList [PInt 3, PInt 1]) (\<lambda>_. Goes_Out True ''t'') fresh_run = (Queued 1 1 0, w) \<and>
    handed_for ''patching.scan'' w = [[1, 3]]"
proof -
  have i: "agent_ids (PList [PInt 3, PInt 1]) = Inr [1, 3]" "groups_of [1, 3 :: int] = [[1, 3]]" by code_simp+
  have inj: "inj_on id (call_texts ''7'' ''patching.scan'' [1, 3] None)" by simp
  have out: "\<forall>i. \<exists>written task. (\<lambda>_. Goes_Out True ''t'') (i :: nat) = Goes_Out written task" by blast
  show ?thesis using undisturbed_call_sends_all [OF i(1) inj out] unfolding i(2) by simp
qed

text \<open>The overlap test on the compact ranges of two calls is exact: it holds if and only if the calls share a number.\<close>

theorem ranges_overlap_exact:
  assumes "sorted_wrt (<) as" and "sorted_wrt (<) bs"
  shows "ranges_overlap (ranges_of as) (ranges_of bs) \<longleftrightarrow> set as \<inter> set bs \<noteq> {}"
  using overlap_iff [of "ranges_of as" "ranges_of bs"] ranges_of_spec [OF assms(1)] ranges_of_spec [OF assms(2)] by simp

theorem ranges_overlap_exact_witness: "\<not> ranges_overlap (ranges_of [1, 2, 3, 7]) (ranges_of [4, 5, 6, 9])"
  using ranges_overlap_exact [of "[1, 2, 3, 7]" "[4, 5, 6, 9]"] by simp


end
