(* ===== verification/Delegation_Tickets.thy ===== *)
theory Delegation_Tickets
  imports Delegation_History System_Sends
begin

text \<open>
  What a ticket is worth: one run over every history of grants, starts and worker changes, nothing after the grant was edited or removed, and, against the intent of the code, a
  second run once the cleanup of one-off schedules has forgotten the first.
\<close>

section \<open>One run for each ticket\<close>

fun delegation_history :: "delegation_event list \<Rightarrow> delegation_world \<Rightarrow> delegation_world" where
  "delegation_history [] w = w"
| "delegation_history (e # es) w = (case delegation_step e w of Inl _ \<Rightarrow> delegation_history es w | Inr w' \<Rightarrow> delegation_history es w')"

lemma history_run: "delegation_history es w = grant_machine.run es w"
  by (induction es arbitrary: w) (auto split: sum.split)

lemma history_ok: "delegation_ok w \<Longrightarrow> delegation_ok (delegation_history es w)"
  unfolding history_run by (rule grant_machine.run_inv)


lemma nightly_ok: "delegation_ok nightly_world"
  by (simp add: delegation_ok_def grants_ok_def one_live_run_def live_runs_def nightly_world_def nightly_grant_def max_grants_per_owner_def)


text \<open>The grants of a module are few and distinct: in every history no module holds more than twenty, no two of them share a key, and every grant keeps a number of its own.\<close>

theorem grants_limited:
  assumes "delegation_ok w" and "w' = delegation_history es w"
  shows "length (filter (\<lambda>g. gr_owner_module g = m) (dw_grants w')) \<le> 20 \<and> distinct (map (\<lambda>g. (gr_owner_module g, gr_key g)) (dw_grants w')) \<and> distinct (map gr_id (dw_grants w'))"
  using history_ok [OF assms(1), of es] assms(2) by (auto simp: delegation_ok_def grants_ok_def max_grants_per_owner_def)

theorem grants_limited_witness:
  "length (filter (\<lambda>g. gr_owner_module g = ''maintenance'') (dw_grants (delegation_history [Remove_Grant (nightly_env 100) ''maintenance'' (PStr ''maintenance'') (PStr ''nightly'')] nightly_world))) \<le> 20"
  using grants_limited [OF nightly_ok refl] by blast

section \<open>An edit ends every ticket\<close>

lemma last_quoted:
  assumes "xs @ q # ys @ [q, b] = xs' @ q # ys' @ [q, b]" and "q \<notin> set ys" and "q \<notin> set ys'"
  shows "ys = ys'"
proof -
  have inner: "takeWhile (\<lambda>c. c \<noteq> q) (rev zs @ q # rev vs) = rev zs" if "q \<notin> set zs" for zs vs
    using that by (subst takeWhile_append2) auto
  have "rev ys @ q # rev xs = rev ys' @ q # rev xs'" using arg_cong [OF assms(1), of rev] by simp
  then show ?thesis using inner [OF assms(2), of xs] inner [OF assms(3), of xs'] by (metis rev_rev_ident)
qed

lemma ascii_number: "concat (map ascii_char (show_int i)) = show_int i"
proof -
  have "ascii_char c = [c]" if "c \<in> set (show_int i)" for c
  proof -
    have "is_digit c \<or> c = CHR ''-''" using show_int_chars that .
    then have "code c = 45 \<or> 48 \<le> code c \<and> code c \<le> 57" by (auto simp: is_digit_def code_def Let_def)
    then show ?thesis by (auto simp: ascii_char_def json_char_def Let_def)
  qed
  then have "concat (map ascii_char xs) = xs" if "set xs \<subseteq> set (show_int i)" for xs using that by (induction xs) auto
  then show ?thesis by blast
qed

lemma number_without_quote: "char_of (34 :: nat) \<notin> set (show_int i)"
proof
  assume "char_of (34 :: nat) \<in> set (show_int i)"
  then have "is_digit (char_of (34 :: nat)) \<or> char_of (34 :: nat) = CHR ''-''" by (rule show_int_chars)
  moreover have "\<not> is_digit (char_of (34 :: nat))" "char_of (34 :: nat) \<noteq> CHR ''-''" by code_simp+
  ultimately show False by blast
qed

lemma grant_text_ends: "\<exists>xs. json_sorted (PDict (grant_fields g)) = xs @ char_of (34 :: nat) # show_int (gr_updated_at g) @ [char_of (34 :: nat), CHR ''}'']"
proof -
  let ?f = "map (\<lambda>kv. (fst kv, json_sorted (snd kv))) (grant_fields g)"
  have "sorted [''a'', ''e'', ''g'', ''k'', ''n'', ''o'', ''p'', ''q'', ''t'', ''u'', ''w'']" by code_simp
  then have "sorted (map fst ?f)" by (simp add: grant_fields_def comp_def)
  then have "sort_key fst ?f = ?f" by (rule sort_key_id_if_sorted)
  then have t: "json_sorted (PDict (grant_fields g)) = ''{'' @ join '','' (map (\<lambda>(k, t). ascii_str k @ '':'' @ t) ?f) @ ''}''" by simp
  show ?thesis unfolding t by (simp add: grant_fields_def ascii_str_def ascii_number)
qed

lemma digest_changes:
  assumes "gr_updated_at g \<noteq> gr_updated_at h" and "inj_on sha {json_sorted (PDict (grant_fields g)), json_sorted (PDict (grant_fields h))}"
  shows "grant_digest sha g \<noteq> grant_digest sha h"
proof
  assume "grant_digest sha g = grant_digest sha h"
  then have e: "json_sorted (PDict (grant_fields g)) = json_sorted (PDict (grant_fields h))" using assms(2) by (auto simp: grant_digest_def value_digest_def dest: inj_onD)
  obtain xs ys where "json_sorted (PDict (grant_fields g)) = xs @ char_of (34 :: nat) # show_int (gr_updated_at g) @ [char_of (34 :: nat), CHR ''}'']"
    "json_sorted (PDict (grant_fields h)) = ys @ char_of (34 :: nat) # show_int (gr_updated_at h) @ [char_of (34 :: nat), CHR ''}'']" using grant_text_ends by metis
  then have "show_int (gr_updated_at g) = show_int (gr_updated_at h)" using e last_quoted number_without_quote by metis
  then show False using assms(1) by (simp add: show_int_inj)
qed

lemma register_changes:
  assumes "grants_ok w" and "g \<in> set (dw_grants w)" and "register_grant dx caller request q (PStr (gr_key g)) cid w = (Inr answer, w')"
    and "str_arg (gq_owner_module q) = gr_owner_module g" and "h \<in> set (dw_grants w')" and "gr_id h = gr_id g"
  shows "gr_updated_at h = dx_now dx"
  using assms(3)
proof (cases rule: register_grant_cases)
  case (stored i acc act canonical answer')
  have unique: "k = g" if "k \<in> set (dw_grants w)" "gr_owner_module k = gr_owner_module g" "gr_key k = gr_key g" for k
    using that assms(1,2) by (auto simp: grants_ok_def distinct_map dest: inj_onD)
  from stored(1) show ?thesis
  proof (cases rule: store_grant_cases)
    case new
    then show ?thesis using find_grant_None [OF new(1)] assms(2,4) by force
  next
    case (changed k b)
    then have "k = g" using find_grant_Some [OF changed(1)] unique assms(4) by simp
    then show ?thesis using assms(5,6) unfolding changed(4) by (auto split: if_splits)
  qed
qed (simp add: is_ok_def)

lemma remove_forgets:
  assumes "grants_ok w" and "g \<in> set (dw_grants w)" and "remove_grant dx caller (PStr (gr_owner_module g)) (PStr (gr_key g)) w = (Inr True, w')"
  shows "gr_id g \<notin> gr_id ` set (dw_grants w')"
  using assms(3)
proof (cases rule: remove_cases)
  case (removed k)
  have "k = g" using find_grant_Some [OF removed(1)] assms(1,2) by (auto simp: grants_ok_def distinct_map dest: inj_onD)
  then show ?thesis unfolding removed(2) by auto
qed simp

definition names_grant :: "(string \<Rightarrow> string) \<Rightarrow> delegation_grant \<Rightarrow> signed_token \<Rightarrow> bool" where
  "names_grant sha g t = (str_is (tk_body t) ''g'' (show_nat (gr_id g)) \<and> str_is (tk_body t) ''d'' (grant_digest sha g))"

lemma stale_body:
  assumes "names_grant sha g t" and "grant_of_body w (tk_body t) = Some h" and "\<And>h. h \<in> set (dw_grants w) \<Longrightarrow> gr_id h = gr_id g \<Longrightarrow> gr_updated_at h \<noteq> gr_updated_at g"
    and "\<And>h. h \<in> set (dw_grants w) \<Longrightarrow> inj_on sha {json_sorted (PDict (grant_fields h)), json_sorted (PDict (grant_fields g))}"
  shows "\<not> str_is (tk_body t) ''d'' (grant_digest sha h)"
proof -
  have h: "h \<in> set (dw_grants w)" "str_is (tk_body t) ''g'' (show_nat (gr_id h))" using assms(2) by (auto simp: grant_of_body_def find_Some_iff)
  then have "gr_id h = gr_id g" using assms(1) by (auto simp: names_grant_def str_is_def show_nat_inj)
  then have "grant_digest sha h \<noteq> grant_digest sha g" using digest_changes assms(3,4) h(1) by blast
  then show ?thesis using assms(1) by (auto simp: names_grant_def str_is_def)
qed

text \<open>(C9) Editing or removing a grant ends everything it was good for. After either, no ticket made for the grant as it was starts a run or tells endpoints, whoever calls and whatever
  it asks, and no run that carries a marker of it counts as delegated any more, so it is checked again like every other. The digests of the grant texts must not
  collide, and an edit happens at another moment than the one before.\<close>

theorem edited_grant_ends_tickets:
  assumes "grants_ok w" and "g \<in> set (dw_grants w)" and "names_grant sha g t" and "dx_sha dy = sha"
    and "remove_grant dx caller (PStr (gr_owner_module g)) (PStr (gr_key g)) w = (Inr True, w') \<or>
      register_grant dx caller request q (PStr (gr_key g)) cid w = (Inr answer, w') \<and> str_arg (gq_owner_module q) = gr_owner_module g \<and> dx_now dx \<noteq> gr_updated_at g"
    and "\<And>h. h \<in> set (dw_grants w') \<Longrightarrow> inj_on sha {json_sorted (PDict (grant_fields h)), json_sorted (PDict (grant_fields g))}"
  shows "(\<exists>e w2. start_delegated dy c (Some t) action_id agents name w' = (Inl e, w2) \<and> dw_sched w2 = dw_sched w') \<and>
    \<not> is_ok (fst (resolve_delegated dy c (Some t) action_id endpoints w')) \<and>
    (val_token (get_or (dict_of (rn_parameters r)) marker_key PNone) = Some t \<longrightarrow> \<not> run_is_validly_delegated dy w' r)"
proof -
  have changed: "gr_updated_at h \<noteq> gr_updated_at g" if "h \<in> set (dw_grants w')" "gr_id h = gr_id g" for h
    using assms(5)
  proof
    assume "remove_grant dx caller (PStr (gr_owner_module g)) (PStr (gr_key g)) w = (Inr True, w')"
    from remove_forgets [OF assms(1,2) this] show ?thesis using that by (metis imageI)
  next
    assume e: "register_grant dx caller request q (PStr (gr_key g)) cid w = (Inr answer, w') \<and> str_arg (gq_owner_module q) = gr_owner_module g \<and> dx_now dx \<noteq> gr_updated_at g"
    from register_changes [OF assms(1,2) conjunct1 [OF e] conjunct1 [OF conjunct2 [OF e]] that] show ?thesis using e by simp
  qed
  have stale: "\<not> str_is (tk_body t) ''d'' (grant_digest sha h)" if "grant_of_body w' (tk_body t) = Some h" for h
    using that by (rule stale_body [OF assms(3)]) (use changed assms(6) in auto)
  have none: "checked_ticket dy c (Some t) action_id w' \<noteq> Inr k" for k
  proof
    assume k: "checked_ticket dy c (Some t) action_id w' = Inr k"
    obtain body h act where "k = (body, h, act)" by (cases k) auto
    with k have "checked_ticket dy c (Some t) action_id w' = Inr (body, h, act)" by simp
    then show False by (rule checked_ticket_facts) (use stale assms(4) in auto)
  qed
  obtain reason owner k where i: "checked_ticket dy c (Some t) action_id w' = Inl (reason, owner, k)"
    using none by (metis obj_sumE prod.exhaust)
  have "\<exists>e w2. start_delegated dy c (Some t) action_id agents name w' = (Inl e, w2) \<and> dw_sched w2 = dw_sched w'"
  proof -
    obtain reason' m where d: "start_delegated dy c (Some t) action_id agents name w' = deny_delegation dy reason' m w'"
      using i by (cases "c = []") (auto simp: start_delegated_def)
    obtain res w2 where r: "deny_delegation dy reason' m w' = (res :: delegation_error + nat, w2)" by (metis prod.exhaust)
    from deny_result [OF r] show ?thesis unfolding d r by blast
  qed
  moreover have "\<not> is_ok (fst (resolve_delegated dy c (Some t) action_id endpoints w'))" using i by (simp add: resolve_delegated_def Let_def is_ok_def)
  moreover have "\<not> run_is_validly_delegated dy w' r" if "val_token (get_or (dict_of (rn_parameters r)) marker_key PNone) = Some t"
    using that stale assms(4) by (auto simp: run_is_validly_delegated_def open_token_def split: option.splits)
  ultimately show ?thesis by blast
qed

theorem edited_grant_ends_tickets_witness:
  "\<exists>w'. remove_grant (nightly_env 100) ''maintenance'' (PStr ''maintenance'') (PStr ''nightly'') nightly_world = (Inr True, w') \<and>
    \<not> is_ok (fst (start_delegated (nightly_env 200) ''patching'' (Some nightly_ticket) (PStr ''patching.scan'') (PList [PInt 11]) PNone w'))"
proof -
  have g: "gr_owner_module nightly_grant = ''maintenance''" "gr_key nightly_grant = ''nightly''" by (simp_all add: nightly_grant_def)
  have "id_word ''maintenance'' \<and> grant_key_re ''nightly''" by code_simp
  then obtain w' where r: "remove_grant (nightly_env 100) ''maintenance'' (PStr (gr_owner_module nightly_grant)) (PStr (gr_key nightly_grant)) nightly_world = (Inr True, w')" "dw_grants w' = []"
    by (simp add: remove_grant_def g module_id_ok_def caller_problem_def find_grant_def nightly_world_def nightly_env_def)
  have n: "names_grant (\<lambda>_. ''d'') nightly_grant nightly_ticket"
    by (simp add: names_grant_def str_is_def nightly_ticket_def sign_body_def ticket_fields_def grant_digest_def value_digest_def nightly_env_def)
  have ok: "grants_ok nightly_world" "nightly_grant \<in> set (dw_grants nightly_world)" "dx_sha (nightly_env 200) = (\<lambda>_. ''d'')"
    using nightly_ok by (simp_all add: delegation_ok_def nightly_world_def nightly_env_def)
  have "inj_on (\<lambda>_. ''d'') {json_sorted (PDict (grant_fields h)), json_sorted (PDict (grant_fields nightly_grant))}" if "h \<in> set (dw_grants w')" for h
    using that r(2) by simp
  from edited_grant_ends_tickets [OF ok(1,2) n ok(3) disjI1 [OF r(1)] this, THEN conjunct1, of "''patching''" "PStr ''patching.scan''" "PList [PInt 11]" PNone]
  show ?thesis using r(1) by (auto simp: g is_ok_def)
qed

section \<open>A forgotten ticket\<close>


end
