(* ===== verification/System_Writes.thy ===== *)
theory System_Writes
  imports System_Marks
begin

text \<open>
  One group of update decisions (\<open>system_writes.py\<close> and \<open>_write_group\<close> of \<open>system_actions.py\<close>): what is read, the strict audit rows that come before the
  write, the write itself under row locks, and the closing row. Tactical's table of updates maps an update to its decision. The table is read twice: when the
  group is planned and again under the locks, and a person may have changed it in between. Which audit row fails and whether Tactical's serializer
  accepts a decision are inputs; a row that is not accepted rolls the whole group back.
\<close>

type_synonym update_table = "(int, string) dict"

record group_plan =
  gp_write :: "(int \<times> string \<times> string) list"
  gp_same :: "int list"
  gp_vanished :: "int list"

definition read_actions :: "update_table \<Rightarrow> int list \<Rightarrow> update_table" where
  "read_actions table ids = filter (\<lambda>e. fst e \<in> set (concat (cut 5000 ids))) table"

fun plan_loop :: "update_table \<Rightarrow> decisions \<Rightarrow> int list \<Rightarrow> group_plan \<Rightarrow> group_plan" where
  "plan_loop before d [] p = p"
| "plan_loop before d (n # ns) p = plan_loop before d ns (case dget before n of
     None \<Rightarrow> p\<lparr>gp_vanished := gp_vanished p @ [n]\<rparr>
   | Some b \<Rightarrow> if b = get_or d n [] then p\<lparr>gp_same := gp_same p @ [n]\<rparr> else p\<lparr>gp_write := gp_write p @ [(n, b, get_or d n [])]\<rparr>)"

definition plan_group :: "update_table \<Rightarrow> int list \<Rightarrow> decisions \<Rightarrow> group_plan" where
  "plan_group table ids d = plan_loop (read_actions table ids) d ids \<lparr>gp_write = [], gp_same = [], gp_vanished = []\<rparr>"

record write_row =
  wr_part :: nat
  wr_parts :: nat
  wr_changes :: "(int \<times> string \<times> string) list"

text \<open>The strict rows of a plan, of at most 500 changes each; \<open>row_ok\<close> says whether the row of a part can be written. The first failure raises.\<close>

fun audit_parts :: "(nat \<Rightarrow> bool) \<Rightarrow> nat \<Rightarrow> nat \<Rightarrow> (int \<times> string \<times> string) list list \<Rightarrow> bool \<times> write_row list" where
  "audit_parts row_ok parts part [] = (True, [])"
| "audit_parts row_ok parts part (changes # rest) =
     (if row_ok part then (case audit_parts row_ok parts (Suc part) rest of (ok, rows) \<Rightarrow> (ok, \<lparr>wr_part = part, wr_parts = parts, wr_changes = changes\<rparr> # rows))
      else (False, []))"

definition write_audit_rows :: "(nat \<Rightarrow> bool) \<Rightarrow> group_plan \<Rightarrow> bool \<times> write_row list" where
  "write_audit_rows row_ok p = (let chunks = cut 500 (gp_write p) in audit_parts row_ok (length chunks) 1 chunks)"

record locked_result =
  lr_saved :: "(int \<times> string) list"
  lr_changed :: "int list"
  lr_vanished :: "int list"

text \<open>\<open>_write_locked\<close>: \<open>None\<close> is an exception, with which the transaction rolls back.\<close>

fun write_rows :: "(int \<Rightarrow> string \<Rightarrow> bool) \<Rightarrow> (int \<times> string \<times> string) list \<Rightarrow> update_table \<times> locked_result \<Rightarrow> (update_table \<times> locked_result) option" where
  "write_rows accepts [] st = Some st"
| "write_rows accepts ((n, before, after) # rest) (table, r) = (case dget table n of
     None \<Rightarrow> write_rows accepts rest (table, r\<lparr>lr_vanished := lr_vanished r @ [n]\<rparr>)
   | Some now \<Rightarrow>
       if now \<noteq> before then write_rows accepts rest (table, r\<lparr>lr_changed := lr_changed r @ [n]\<rparr>)
       else if \<not> accepts n after then None
       else write_rows accepts rest (dset n after table, r\<lparr>lr_saved := lr_saved r @ [(n, after)]\<rparr>))"

definition write_locked :: "(int \<Rightarrow> string \<Rightarrow> bool) \<Rightarrow> (int \<times> string \<times> string) list \<Rightarrow> update_table \<Rightarrow> (update_table \<times> locked_result) option" where
  "write_locked accepts planned table =
     (let wanted = fold (\<lambda>(n, b, a) d. dset n (b, a) d) planned [] in
      write_rows accepts (map (\<lambda>n. (n, get_or wanted n ([], []))) (sort (keys wanted))) (table, \<lparr>lr_saved = [], lr_changed = [], lr_vanished = []\<rparr>))"

record write_outcome =
  wo_written :: nat
  wo_unchanged :: nat
  wo_changed_meanwhile :: nat
  wo_vanished :: nat
  wo_saved :: "(int \<times> string) list"
  wo_changed_ids :: "int list"
  wo_vanished_ids :: "int list"

definition apply_group :: "(int \<Rightarrow> string \<Rightarrow> bool) \<Rightarrow> group_plan \<Rightarrow> update_table \<Rightarrow> (update_table \<times> write_outcome) option" where
  "apply_group accepts p table =
     map_option (\<lambda>(table', r). (table', \<lparr>wo_written = length (lr_saved r), wo_unchanged = length (gp_same p), wo_changed_meanwhile = length (lr_changed r),
        wo_vanished = length (gp_vanished p) + length (lr_vanished r), wo_saved = lr_saved r, wo_changed_ids = lr_changed r,
        wo_vanished_ids = gp_vanished p @ lr_vanished r\<rparr>))
     (if gp_write p = [] then Some (table, \<lparr>lr_saved = [], lr_changed = [], lr_vanished = []\<rparr>) else write_locked accepts (gp_write p) table)"

datatype group_write = Nothing_Written | Write_Unknown | Group_Written write_outcome

text \<open>The whole group: \<open>planned_on\<close> is the table when the group is read (\<open>None\<close> is a failed read), \<open>table\<close> the table when it is locked.\<close>

definition write_group :: "(nat \<Rightarrow> bool) \<Rightarrow> (int \<Rightarrow> string \<Rightarrow> bool) \<Rightarrow> int list \<Rightarrow> decisions \<Rightarrow> update_table option \<Rightarrow> update_table \<Rightarrow> group_write \<times> write_row list \<times> update_table" where
  "write_group row_ok accepts ids d planned_on table = (case planned_on of
     None \<Rightarrow> (Nothing_Written, [], table)
   | Some seen \<Rightarrow>
       (let p = plan_group seen ids d in
        case write_audit_rows row_ok p of
          (False, rows) \<Rightarrow> (Nothing_Written, rows, table)
        | (True, rows) \<Rightarrow> (case apply_group accepts p table of
            None \<Rightarrow> (Write_Unknown, rows, table)
          | Some (table', outcome) \<Rightarrow> (Group_Written outcome, rows, table'))))"

record closing_row =
  cr_written :: nat
  cr_unchanged :: nat
  cr_changed_meanwhile :: nat
  cr_vanished :: nat
  cr_saved :: "(int \<times> string) list"
  cr_changed_meanwhile_ids :: "int list"
  cr_vanished_ids :: "int list"

definition record_closing :: "write_outcome \<Rightarrow> closing_row" where
  "record_closing out = \<lparr>cr_written = wo_written out, cr_unchanged = wo_unchanged out, cr_changed_meanwhile = wo_changed_meanwhile out, cr_vanished = wo_vanished out,
     cr_saved = wo_saved out, cr_changed_meanwhile_ids = take 500 (wo_changed_ids out), cr_vanished_ids = take 500 (wo_vanished_ids out)\<rparr>"

section \<open>What a group writes\<close>

lemma read_actions_get: "dget (read_actions table ids) n = (if n \<in> set ids then dget table n else None)"
proof -
  have "set (concat (cut 5000 ids)) = set ids" using cut_facts [of 5000 ids] by simp
  then show ?thesis by (induction table) (auto simp: read_actions_def)
qed

lemma plan_loop_spec:
  "plan_loop before d ns p = \<lparr>gp_write = gp_write p @ map (\<lambda>n. (n, the (dget before n), get_or d n [])) (filter (\<lambda>n. dget before n \<noteq> None \<and> dget before n \<noteq> Some (get_or d n [])) ns),
     gp_same = gp_same p @ filter (\<lambda>n. dget before n = Some (get_or d n [])) ns, gp_vanished = gp_vanished p @ filter (\<lambda>n. dget before n = None) ns\<rparr>"
  by (induction ns arbitrary: p) (auto split: option.split)

lemma plan_group_spec:
  "gp_write (plan_group seen ids d) = map (\<lambda>n. (n, the (dget seen n), get_or d n [])) (filter (\<lambda>n. dget seen n \<noteq> None \<and> dget seen n \<noteq> Some (get_or d n [])) ids)"
  "gp_same (plan_group seen ids d) = filter (\<lambda>n. dget seen n = Some (get_or d n [])) ids"
  "gp_vanished (plan_group seen ids d) = filter (\<lambda>n. dget seen n = None) ids"
  by (auto simp: plan_group_def plan_loop_spec read_actions_get intro!: filter_cong map_cong)

lemma plan_group_total: "length (gp_write (plan_group seen ids d)) + length (gp_same (plan_group seen ids d)) + length (gp_vanished (plan_group seen ids d)) = length ids"
  by (simp add: plan_group_spec) (induction ids; auto)

lemma audit_parts_all: "audit_parts row_ok parts part chunks = (True, rows) \<Longrightarrow> map wr_changes rows = chunks"
  by (induction row_ok parts part chunks arbitrary: rows rule: audit_parts.induct) (auto split: if_splits prod.splits)

lemma audit_rows_all: "write_audit_rows row_ok p = (True, rows) \<Longrightarrow> concat (map wr_changes rows) = gp_write p"
  using audit_parts_all cut_facts [of 500 "gp_write p"] by (fastforce simp: write_audit_rows_def Let_def)

lemma write_rows_spec:
  assumes "write_rows accepts todo (table, r) = Some (table', r')" and "distinct (map fst todo)"
  shows "dget table' n = (case map_of todo n of Some (b, a) \<Rightarrow> if dget table n = Some b then Some a else dget table n | None \<Rightarrow> dget table n)"
    and "length (lr_saved r') + length (lr_changed r') + length (lr_vanished r') = length (lr_saved r) + length (lr_changed r) + length (lr_vanished r) + length todo"
  using assms
proof (induction accepts todo "(table, r)" arbitrary: table r rule: write_rows.induct)
  case (2 accepts m before after rest table r)
  { case 1
    then have "map_of rest m = None" by (simp add: map_of_eq_None_iff)
    then show ?case using 1 2 by (auto simp: AList.update_conv' split: option.splits if_splits)
  next
    case 2
    then show ?case using "2.hyps" by (auto split: option.splits if_splits)
  }
qed auto

lemma wanted_is_planned: "distinct (map fst (d @ ps)) \<Longrightarrow> fold (\<lambda>(n, b, a) d. dset n (b, a) d) ps d = d @ ps"
proof (induction ps arbitrary: d)
  case (Cons e ps)
  obtain n b a where e: "e = (n, b, a)" by (cases e)
  have "n \<notin> fst ` set d \<Longrightarrow> dset n (b, a) d = d @ [(n, b, a)]" by (induction d) auto
  then have "dset n (b, a) d = d @ [e]" using Cons.prems e by auto
  then show ?case using Cons e by simp
qed simp

lemma write_locked_spec:
  assumes "write_locked accepts planned table = Some (table', r)" and "distinct (map fst planned)"
  shows "dget table' n = (case map_of planned n of Some (b, a) \<Rightarrow> if dget table n = Some b then Some a else dget table n | None \<Rightarrow> dget table n)"
    and "length (lr_saved r) + length (lr_changed r) + length (lr_vanished r) = length planned"
proof -
  let ?todo = "map (\<lambda>n. (n, get_or planned n ([], []))) (sort (map fst planned))"
  have w: "fold (\<lambda>(n, b, a) d. dset n (b, a) d) planned [] = planned" using wanted_is_planned [of "[]" planned] assms(2) by simp
  have s: "write_rows accepts ?todo (table, \<lparr>lr_saved = [], lr_changed = [], lr_vanished = []\<rparr>) = Some (table', r)"
    using assms(1) unfolding write_locked_def w Let_def keys_def .
  have d: "distinct (map fst ?todo)" using assms(2) by (simp add: comp_def)
  have "map_of ?todo n = map_of planned n"
    using map_of_eq_None_iff [of planned n] by (cases "map_of planned n") (auto simp: map_of_map_restrict restrict_map_def get_or_def)
  then show "dget table' n = (case map_of planned n of Some (b, a) \<Rightarrow> if dget table n = Some b then Some a else dget table n | None \<Rightarrow> dget table n)"
    using write_rows_spec(1) [OF s d, of n] by simp
  show "length (lr_saved r) + length (lr_changed r) + length (lr_vanished r) = length planned" using write_rows_spec(2) [OF s d] by simp
qed

text \<open>(C23) A group of update decisions writes exactly what it may. A decision changes only for an update of the group, to the decision of the call, when it is still
  the one that was read, so a decision a person made meanwhile stays; every change stands in an audit row written before. When the group went through, each update
  that was found and left alone by people has the decision of the call, and the counts cover the group; otherwise nothing is written.\<close>

theorem write_keeps_later_decisions:
  assumes "distinct ids" and "write_group row_ok accepts ids d (Some seen) table = (res, rows, table')"
  shows "(dget table' n \<noteq> dget table n \<longrightarrow> n \<in> set ids \<and> dget table n = dget seen n \<and> dget table' n = Some (get_or d n []) \<and>
      (\<exists>row \<in> set rows. (n, the (dget seen n), get_or d n []) \<in> set (wr_changes row))) \<and>
    (case res of
       Group_Written out \<Rightarrow> (n \<in> set ids \<and> dget seen n \<noteq> None \<and> dget table n = dget seen n \<longrightarrow> dget table' n = Some (get_or d n [])) \<and>
         wo_written out + wo_unchanged out + wo_changed_meanwhile out + wo_vanished out = length ids
     | _ \<Rightarrow> table' = table)"
proof -
  let ?p = "plan_group seen ids d"
  have dist: "distinct (map fst (gp_write ?p))" using assms(1) by (simp add: plan_group_spec comp_def)
  have planned: "map_of (gp_write ?p) n = (if n \<in> set ids \<and> dget seen n \<noteq> None \<and> dget seen n \<noteq> Some (get_or d n []) then Some (the (dget seen n), get_or d n []) else None)"
    by (auto simp: plan_group_spec map_of_map_restrict restrict_map_def)
  show ?thesis
  proof (cases "write_audit_rows row_ok ?p")
    case (Pair ok written)
    show ?thesis
    proof (cases "ok \<and> apply_group accepts ?p table \<noteq> None")
      case False
      then have "table' = table \<and> (\<forall>out. res \<noteq> Group_Written out)" using assms(2) Pair by (auto simp: write_group_def Let_def split: option.splits bool.splits)
      then show ?thesis by (auto split: group_write.split)
    next
      case True
      then obtain out where out: "apply_group accepts ?p table = Some (table', out)" "res = Group_Written out" "rows = written"
        using assms(2) Pair by (auto simp: write_group_def Let_def)
      obtain r where r: "if gp_write ?p = [] then table' = table \<and> r = \<lparr>lr_saved = [], lr_changed = [], lr_vanished = []\<rparr> else write_locked accepts (gp_write ?p) table = Some (table', r)"
        "wo_written out + wo_unchanged out + wo_changed_meanwhile out + wo_vanished out =
           length (lr_saved r) + length (gp_same ?p) + length (lr_changed r) + (length (gp_vanished ?p) + length (lr_vanished r))"
        using out(1) by (auto simp: apply_group_def split: if_splits)
      have n: "dget table' n = (case map_of (gp_write ?p) n of Some (b, a) \<Rightarrow> if dget table n = Some b then Some a else dget table n | None \<Rightarrow> dget table n)"
        using r(1) write_locked_spec(1) [OF _ dist, of accepts table table' r n] by (auto split: if_splits)
      have count: "length (lr_saved r) + length (lr_changed r) + length (lr_vanished r) = length (gp_write ?p)"
        using r(1) write_locked_spec(2) [OF _ dist, of accepts table table' r] by (auto split: if_splits)
      have "wo_written out + wo_unchanged out + wo_changed_meanwhile out + wo_vanished out = length ids" using r(2) count plan_group_total [of seen ids d] by simp
      moreover have "\<exists>row \<in> set rows. (n, b, a) \<in> set (wr_changes row)" if m: "map_of (gp_write ?p) n = Some (b, a)" for b a
      proof -
        have "concat (map wr_changes rows) = gp_write ?p" using Pair True out(3) audit_rows_all [of row_ok ?p written] by simp
        then have "(n, b, a) \<in> set (concat (map wr_changes rows))" using map_of_SomeD [OF m] by simp
        then show ?thesis by auto
      qed
      ultimately show ?thesis using n planned out(2) by (auto split: if_splits)
    qed
  qed
qed

theorem write_keeps_later_decisions_witness:
  "case write_group (\<lambda>_. True) (\<lambda>_ _. True) [5, 6, 8] [(5, ''approve''), (6, ''ignore''), (8, ''ignore'')] (Some [(5, ''inherit''), (6, ''inherit'')]) [(5, ''inherit''), (6, ''nothing'')] of
     (res, rows, table') \<Rightarrow> dget table' 6 = Some ''nothing''"
proof -
  obtain res rows table' where w: "write_group (\<lambda>_. True) (\<lambda>_ _. True) [5, 6, 8] [(5, ''approve''), (6, ''ignore''), (8, ''ignore'')] (Some [(5, ''inherit''), (6, ''inherit'')])
      [(5, ''inherit''), (6, ''nothing'')] = (res, rows, table')" by (metis prod.exhaust)
  have "dget table' 6 = dget [(5 :: int, ''inherit''), (6, ''nothing'')] 6" using write_keeps_later_decisions [OF _ w, of 6] by auto
  then show ?thesis using w by simp
qed

end
