(* ===== verification/Schedule_Guarantees.thy ===== *)
theory Schedule_Guarantees
  imports Schedule_Safety
begin

text \<open>
  What the scheduler promises about starting and ending runs: the tick starts a run only for a due, authorized
  occurrence of an unpaused schedule and moves the due key on; stale runs are released; a late completion is
  settled once and by its owner; and, as the code is written, a daily schedule runs twice on a day the clock
  goes back.
\<close>

section \<open>Starting a run\<close>

lemma dispatch_created:
  assumes "dispatch_occurrence env s t w = (w', Tick_Created i)"
  shows "sc_last_due_key s \<noteq> Some (due_key t (sc_type s = Interval))" "\<not> occurrence_predates_revision s t"
    "should_run_occurrence s t (en_now env)" "is_ok (get_scheduled_action (en_actions env) (sc_action_id s))"
    "sc_concurrency_policy s = Overlap_Skip \<Longrightarrow> \<not> list_ex active_run (runs_of w (sc_id s))"
    "w' = put_schedule (mark_due env (due_key t (sc_type s = Interval)) True s) (add_run (new_run (en_now env) s t 0) w)"
proof -
  let ?key = "due_key t (sc_type s = Interval)"
  have k: "sc_last_due_key s \<noteq> Some ?key" using assms by (auto simp: dispatch_occurrence_def Let_def split: if_splits)
  have b: "consume_revision_baseline (en_now env) s t ?key = None"
    using assms k by (cases "consume_revision_baseline (en_now env) s t ?key") (auto simp: dispatch_occurrence_def Let_def)
  have r: "should_run_occurrence s t (en_now env)"
    using assms k b by (auto simp: dispatch_occurrence_def Let_def skip_occurrence_def split: if_splits prod.splits)
  obtain act where a: "get_scheduled_action (en_actions env) (sc_action_id s) = Inr act"
    using assms k b r by (cases "get_scheduled_action (en_actions env) (sc_action_id s)")
      (auto simp: dispatch_occurrence_def Let_def skip_occurrence_def)
  have o: "\<not> (list_ex active_run (runs_of w (sc_id s)) \<and> sc_concurrency_policy s = Overlap_Skip)"
    using assms k b r a by (auto simp: dispatch_occurrence_def Let_def skip_occurrence_def split: if_splits)
  show "sc_last_due_key s \<noteq> Some ?key" "should_run_occurrence s t (en_now env)" by (rule k, rule r)
  show "\<not> occurrence_predates_revision s t" using b by (auto simp: consume_revision_baseline_def split: if_splits)
  show "is_ok (get_scheduled_action (en_actions env) (sc_action_id s))" using a by simp
  show "sc_concurrency_policy s = Overlap_Skip \<Longrightarrow> \<not> list_ex active_run (runs_of w (sc_id s))" using o by blast
  show "w' = put_schedule (mark_due env ?key True s) (add_run (new_run (en_now env) s t 0) w)"
    using assms k b r a o by (auto simp: dispatch_occurrence_def Let_def)
qed

lemma revoke_creates_nothing: "revoke_occurrence env s e t w \<noteq> (w', Tick_Created i)"
  by (auto simp: revoke_occurrence_def Let_def skip_occurrence_def split: option.split)

lemma refuse_creates_nothing: "refuse_targets env s e w \<noteq> (w', Tick_Created i)"
  by (simp add: refuse_targets_def Let_def)

text \<open>The schedule the tick works with: the pause reason cleared and the targets in canonical form.\<close>

definition prepared :: "schedule \<Rightarrow> schedule \<Rightarrow> bool" where
  "prepared s s2 = (sc_id s2 = sc_id s \<and> sc_action_id s2 = sc_action_id s \<and> sc_module_id s2 = sc_module_id s \<and> sc_type s2 = sc_type s \<and>
     sc_timezone s2 = sc_timezone s \<and> sc_last_due_key s2 = sc_last_due_key s \<and> sc_concurrency_policy s2 = sc_concurrency_policy s \<and>
     sc_missed_policy s2 = sc_missed_policy s \<and> sc_created_by s2 = sc_created_by s)"

lemma pause_prepared: "apply_module_pause vis s = (stop, s1) \<Longrightarrow> prepared s s1"
  by (auto simp: apply_module_pause_def Let_def prepared_def split: if_splits)

lemma adopt_prepared: "prepared s s1 \<Longrightarrow> prepared s (adopt_targets env t s1)"
  by (simp add: adopt_targets_def prepared_def)

lemma runs_of_put_schedule [simp]: "runs_of (put_schedule s w) i = runs_of w i" "sw_runs (put_schedule s w) = sw_runs w"
  by (simp_all add: runs_of_def put_schedule_def)


definition demo_vis :: visibility where
  "demo_vis = schedule_visibility (en_modules (demo_env 0)) (en_plugins (demo_env 0))"

definition created :: "sched_exn + sched_world \<times> tick_result \<Rightarrow> bool" where
  "created out = (case out of Inr (_, Tick_Created _) \<Rightarrow> True | _ \<Rightarrow> False)"

lemma createdE: "created out \<Longrightarrow> \<exists>w' i. out = Inr (w', Tick_Created i)"
  unfolding created_def by (cases out) (auto split: prod.splits tick_result.splits)


lemma get_put_schedule:
  assumes "get_schedule w (sc_id s) \<noteq> None"
  shows "get_schedule (put_schedule s w) (sc_id s) = Some s"
proof -
  have "find (\<lambda>t. sc_id t = sc_id s) (map (\<lambda>t. if sc_id t = sc_id s then s else t) ss) = Some s"
    if "find (\<lambda>t. sc_id t = sc_id s) ss \<noteq> None" for ss
    using that by (induction ss) auto
  then show ?thesis using assms by (simp add: get_schedule_def put_schedule_def)
qed

text \<open>An occurrence is started once: when the tick has started a run of a schedule, the row it leaves holds the occurrence's due key,
  and any later tick over that row (whatever its environment, and whatever else happened to the tables) that
  starts a run again does so for an occurrence with another due key.\<close>

theorem occurrence_started_once:
  assumes "dispatch_occurrence env s t w = (w', Tick_Created i)" and "get_schedule w (sc_id s) \<noteq> None"
    and "get_schedule w' (sc_id s) = Some s'" and "dispatch_occurrence env' s' t' v = (v', Tick_Created j)"
  shows "due_key t' (sc_type s = Interval) \<noteq> due_key t (sc_type s = Interval) \<and> sc_last_due_key s' = Some (due_key t (sc_type s = Interval)) \<and>
    (sc_type s = Once \<longrightarrow> \<not> sc_enabled s')"
proof -
  let ?s = "mark_due env (due_key t (sc_type s = Interval)) True s"
  have "w' = put_schedule ?s (add_run (new_run (en_now env) s t 0) w)" by (rule dispatch_created(6) [OF assms(1)])
  moreover have "sc_id ?s = sc_id s" by (simp add: mark_due_def)
  moreover have "get_schedule (add_run r w) j = get_schedule w j" for r j by (simp add: get_schedule_def add_run_def)
  ultimately have "s' = ?s" using get_put_schedule [of "add_run (new_run (en_now env) s t 0) w" ?s] assms(2,3) by simp
  then show ?thesis using dispatch_created(1) [OF assms(4)] by (auto simp: mark_due_def)
qed

theorem occurrence_started_once_witness:
  "\<exists>s'. get_schedule (fst (dispatch_occurrence (demo_env (at_utc 24 7 1)) (hd (sw_schedules sched_demo)) (at_utc 24 7 0) sched_demo)) 1 = Some s' \<and>
     sc_last_due_key s' = Some (at_utc 24 7 0) \<and>
     at_utc 25 8 0 \<noteq> at_utc 24 7 0"
proof -
  let ?s = "hd (sw_schedules sched_demo)"
  let ?out = "dispatch_occurrence (demo_env (at_utc 24 7 1)) ?s (at_utc 24 7 0) sched_demo"
  have id: "sc_id ?s = 1" by (simp add: sched_demo_def demo_schedule_def)
  have c: "created (Inr ?out)" by code_simp
  then obtain w' i where out: "?out = (w', Tick_Created i)" using createdE by blast
  have ex: "get_schedule sched_demo (sc_id ?s) \<noteq> None" by (simp add: sched_demo_def get_schedule_def)
  have "is_ok (case get_schedule (fst ?out) 1 of None \<Rightarrow> Inl () | Some s' \<Rightarrow>
      if created (Inr (dispatch_occurrence (demo_env (at_utc 25 8 1)) s' (at_utc 25 8 0) sched_demo)) then Inr s' else Inl ())" by code_simp
  then obtain s' where s': "get_schedule w' (sc_id ?s) = Some s'"
    and again: "created (Inr (dispatch_occurrence (demo_env (at_utc 25 8 1)) s' (at_utc 25 8 0) sched_demo))"
    using out id by (auto split: option.splits if_splits)
  then obtain v' j where "dispatch_occurrence (demo_env (at_utc 25 8 1)) s' (at_utc 25 8 0) sched_demo = (v', Tick_Created j)" using createdE by blast
  note once = occurrence_started_once [OF out ex s' this]
  have k: "due_key (at_utc 25 8 0) (sc_type ?s = Interval) = at_utc 25 8 0" "due_key (at_utc 24 7 0) (sc_type ?s = Interval) = at_utc 24 7 0"
    by code_simp+
  show ?thesis using once s' out id unfolding k by simp
qed

section \<open>Releasing stale runs\<close>

lemma evolves_finished:
  assumes "runs_inv w" and "runs_evolve w w'" and "r \<in> set (sw_runs w)" and "finished_run r" and "r' \<in> set (sw_runs w')" and "rn_id r' = rn_id r"
  shows "finished_run r'"
proof -
  have "rn_id r' < sw_next_run w" using assms(1,3,6) by (simp add: runs_inv_def)
  then obtain q where q: "q \<in> set (sw_runs w)" "run_evolves q r'" using assms(1,2,5) by (auto simp: runs_evolve_def)
  then have "q = r" using assms(1,3,6) by (auto simp: runs_inv_def run_evolves_def dest: inj_onD [OF distinct_map [THEN iffD1, THEN conjunct2]])
  then show ?thesis using q(2) assms(4) same_finished by (metis run_evolves_def)
qed

text \<open>Nothing blocks a schedule forever: after a tick no run is active any more that was queued when the tick began and whose dispatch
  window (and retry countdown) had passed, or that was running past its action's timeout and five minutes,
  waiting for a completion or with a worker that could be revoked.\<close>

theorem stale_runs_are_released:
  assumes "runs_inv w" and "r \<in> set (sw_runs w)"
    and "stale_queued env w r \<or> (stale_running env r \<and> (rn_completion_state r = Comp_Pending \<or> strip (rn_task_id r) = [] \<or> en_revoke env (strip (rn_task_id r))))"
    and "r' \<in> set (sw_runs (fst (dispatch_due_schedules env w)))" and "rn_id r' = rn_id r"
  shows "\<not> active_run r'"
proof -
  let ?st = "w\<lparr>sw_state := (sw_state w)\<lparr>tk_last_tick_at := Some (en_now env), tk_last_tick_error := []\<rparr>\<rparr>"
  let ?w1 = "recover_stale_runs env ?st"
  let ?q = "if stale_queued env w r then fail_run env ''Stale'' (stale_queued_text w r) r else r"
  have inv1: "runs_inv ?w1" using evolves_recover [of ?st env] assms(1) by (simp add: runs_evolve_def runs_inv_def)
  have same: "stale_queued env ?st = stale_queued env w" "stale_queued_text ?st = stale_queued_text w"
    by (simp_all add: stale_queued_def stale_queued_text_def fun_eq_iff)
  have in1: "recover_running env ?q \<in> set (sw_runs ?w1)"
    using assms(2) by (auto simp: recover_stale_runs_def Let_def same image_iff)
  have fin: "finished_run (recover_running env ?q)"
  proof (cases "stale_queued env w r")
    case True
    then show ?thesis by (simp add: recover_running_def stale_running_def fail_run_def finished_run_def)
  next
    case False
    then show ?thesis using assms(3) by (auto simp: recover_running_def fail_run_def finished_run_def Let_def)
  qed
  have id: "rn_id (recover_running env ?q) = rn_id r"
    by (simp add: recover_running_def fail_run_def Let_def)
  have "runs_evolve ?w1 (fst (dispatch_due_schedules env w))" by (rule evolves_after_recovery)
  then have "finished_run r'" using evolves_finished [OF inv1 _ in1 fin assms(4)] assms(5) id by simp
  then show ?thesis by (auto simp: active_run_def finished_run_def)
qed

definition lost_world :: sched_world where
  "lost_world = sched_history [Sched_Tick (demo_env (at_utc 24 7 1))] sched_demo"

lemma lost_world_run: "map (\<lambda>r. (rn_id r, stale_queued (demo_env (at_utc 24 7 30)) lost_world r)) (sw_runs lost_world) = [(1, True)]"
  by code_simp

theorem stale_runs_are_released_witness:
  "\<exists>r r'. sw_runs lost_world = [r] \<and> sw_runs (fst (dispatch_due_schedules (demo_env (at_utc 24 7 30)) lost_world)) = [r'] \<and> \<not> active_run r'"
proof -
  obtain r where r: "sw_runs lost_world = [r]" "rn_id r = 1" "stale_queued (demo_env (at_utc 24 7 30)) lost_world r"
    using lost_world_run by (auto simp: map_eq_Cons_conv)
  have "map rn_id (sw_runs (fst (dispatch_due_schedules (demo_env (at_utc 24 7 30)) lost_world))) = [1]" by code_simp
  then obtain r' where r': "sw_runs (fst (dispatch_due_schedules (demo_env (at_utc 24 7 30)) lost_world)) = [r']" "rn_id r' = 1"
    by (auto simp: map_eq_Cons_conv)
  have "runs_inv sched_demo" by (simp add: runs_inv_def sched_demo_def)
  then have inv: "runs_inv lost_world" unfolding lost_world_def by (simp only: sched_history_machine scheduler.run_inv)
  have "\<not> active_run r'"
    by (rule stale_runs_are_released [OF inv, of r "demo_env (at_utc 24 7 30)"]) (use r r' in simp_all)
  then show ?thesis using r r' by blast
qed

section \<open>Late completions\<close>

lemma get_put_run: "get_run w i = Some r \<Longrightarrow> rn_id r' = i \<Longrightarrow> get_run (put_run r' w) i = Some r'"
proof -
  assume r: "get_run w i = Some r" and i: "rn_id r' = i"
  have "find (\<lambda>t. rn_id t = i) (map (\<lambda>t. if rn_id t = rn_id r' then r' else t) rs) = Some r'"
    if "find (\<lambda>t. rn_id t = i) rs = Some q" for rs q
    using that i by (induction rs) (auto split: if_splits)
  then show ?thesis using r by (simp add: get_run_def put_run_def)
qed

lemma get_run_last_run [simp]: "get_run (last_run_now env r w) i = get_run w i"
  by (simp add: get_run_def last_run_now_def split: option.split)

lemma apply_outcome_applied:
  assumes "apply_outcome env i k j out res e et w = (Settle_Applied, w')"
  shows "\<exists>r r'. get_run w i = Some r \<and> settle_check r k j out = Settle_Applied \<and> get_run w' i = Some r' \<and>
    rn_completion_ref r' = map_option (\<lambda>c. c\<lparr>cr_outcome := Some out\<rparr>) (rn_completion_ref r) \<and> rn_completion_state r' = Comp_Completed \<and>
    rn_status r' = (if out = Out_Succeeded then Run_Succeeded else Run_Failed) \<and> rn_action_id r' = rn_action_id r \<and> rn_module_id r' = rn_module_id r"
proof -
  obtain r where r: "get_run w i = Some r" using assms by (cases "get_run w i") (auto simp: apply_outcome_def)
  then have c: "settle_check r k j out = Settle_Applied" using assms by (auto simp: apply_outcome_def Let_def split: if_splits)
  have "rn_id r = i" using get_run_Some [OF r] by simp
  then show ?thesis using assms r c get_put_run [OF r] by (auto simp: apply_outcome_def Let_def)
qed

lemma apply_outcome_other:
  "apply_outcome env i k j out res e et w = (Settle_Duplicate, w') \<Longrightarrow> w' = w \<and> (\<exists>r. get_run w i = Some r \<and> settle_check r k j out = Settle_Duplicate)"
  by (auto simp: apply_outcome_def Let_def split: option.splits if_splits)

lemma settled_run_stays:
  assumes "rn_completion_state r = Comp_Completed" and "rn_completion_ref r = Some c" and "settle_check r k j out \<in> {Settle_Applied, Settle_Duplicate}"
  shows "settle_check r k j out = Settle_Duplicate \<and> cr_job c = j \<and> cr_outcome c = Some out"
  using assms by (auto simp: settle_check_def Let_def split: if_splits)

text \<open>(C33) A late completion is settled once, by the module that owns the run's action: an accepted completion ends a run that was running
  and waiting for exactly that job; after it every completion anyone sends for the run changes nothing, and is
  accepted only as a repetition of the same job and outcome; and the repetition of the call is so accepted.\<close>

theorem completion_settles_once:
  assumes "complete_pending_run env i job ov res e ws w = Inr (False, w')"
  shows "\<exists>r act out j. get_run w i = Some r \<and> outcome_of ov = Some out \<and> job = PStr j \<and>
      get_scheduled_action (en_actions env) (rn_action_id r) = Inr act \<and> en_caller env = Some (ac_module_id act) \<and>
      rn_status r = Run_Running \<and> rn_completion_state r = Comp_Pending \<and> map_option cr_job (rn_completion_ref r) = Some j \<and>
      (\<exists>r'. get_run w' i = Some r' \<and> rn_status r' = (if out = Out_Succeeded then Run_Succeeded else Run_Failed)) \<and>
      complete_pending_run env i job ov res e ws w' = Inr (True, w') \<and>
      (\<forall>env' job' ov' res' e' ws' d w''. complete_pending_run env' i job' ov' res' e' ws' w' = Inr (d, w'') \<longrightarrow>
         d \<and> w'' = w' \<and> job' = job \<and> outcome_of ov' = Some out)"
proof -
  obtain r out j clean msg where c: "get_run w i = Some r" "completion_caller_refusal env r = None" "outcome_of ov = Some out" "job = PStr j"
    and a: "apply_outcome env i Kind_Module j out clean msg None w = (Settle_Applied, w')"
    by (rule complete_Inr [OF assms]) (use that in simp)
  obtain act where act: "get_scheduled_action (en_actions env) (rn_action_id r) = Inr act" "en_caller env = Some (ac_module_id act)"
    using c(2) by (auto simp: completion_caller_refusal_def split: option.splits sum.splits if_splits)
  obtain r' where r': "settle_check r Kind_Module j out = Settle_Applied" "get_run w' i = Some r'"
    "rn_completion_ref r' = map_option (\<lambda>c. c\<lparr>cr_outcome := Some out\<rparr>) (rn_completion_ref r)" "rn_completion_state r' = Comp_Completed"
    "rn_status r' = (if out = Out_Succeeded then Run_Succeeded else Run_Failed)" "rn_action_id r' = rn_action_id r" "rn_module_id r' = rn_module_id r"
    using apply_outcome_applied [OF a] c(1) by auto
  obtain ref where ref: "rn_completion_ref r = Some ref" "cr_job ref = j" "cr_kind ref = Kind_Module"
    using r'(1) by (auto simp: settle_check_def Let_def split: if_splits option.splits)
  let ?ref = "ref\<lparr>cr_outcome := Some out\<rparr>"
  have ref': "rn_completion_ref r' = Some ?ref" using r'(3) ref by simp
  have later: "d \<and> w'' = w' \<and> job' = job \<and> outcome_of ov' = Some out"
    if again: "complete_pending_run env' i job' ov' res' e' ws' w' = Inr (d, w'')" for env' job' ov' res' e' ws' d w''
  proof -
    obtain q out' j' clean' msg' where q: "get_run w' i = Some q" "outcome_of ov' = Some out'" "job' = PStr j'"
      and a': "apply_outcome env' i Kind_Module j' out' clean' msg' None w' = (if d then Settle_Duplicate else Settle_Applied, w'')"
      by (rule complete_Inr [OF again]) (use that in blast)
    have "q = r'" using q r' by simp
    then have "settle_check r' Kind_Module j' out' \<in> {Settle_Applied, Settle_Duplicate}"
      using a' apply_outcome_applied apply_outcome_other q(1) by (cases d) fastforce+
    from settled_run_stays [OF r'(4) ref' this]
    have s: "settle_check r' Kind_Module j' out' = Settle_Duplicate" "j' = j" "out' = out" using ref by auto
    then have "apply_outcome env' i Kind_Module j' out' clean' msg' None w' = (Settle_Duplicate, w')"
      using r' by (simp add: apply_outcome_def)
    then show ?thesis using a' s q c(4) by (auto split: if_splits)
  qed
  have "settle_check r' Kind_Module j out = Settle_Duplicate" using ref ref' r'(4) by (simp add: settle_check_def)
  then have "apply_outcome env i Kind_Module j out cl ms None w' = (Settle_Duplicate, w')" for cl ms using r' by (simp add: apply_outcome_def)
  moreover have "completion_caller_refusal env r' = None" unfolding completion_caller_refusal_def r'(6,7) by (rule c(2) [unfolded completion_caller_refusal_def])
  ultimately have "complete_pending_run env i job ov res e ws w' = Inr (True, w')"
    using assms c r'(2) by (auto simp: complete_pending_run_def split: if_splits sum.splits)
  then show ?thesis using c act r' ref settle_applied [OF r'(1)] by (intro exI conjI allI impI) (auto dest: later)
qed

definition parked_world :: sched_world where
  "parked_world = sched_history [Sched_Tick (demo_env (at_utc 24 7 1)), Sched_Claim (demo_env (at_utc 24 7 2)) 0 1,
     Sched_Park (demo_env (at_utc 24 7 3)) 1 ''alerts'' (PStr ''module'') (PStr ''job-1'') PNone] sched_demo"

definition demo_completion :: "sched_world \<Rightarrow> completion_error + bool \<times> sched_world" where
  "demo_completion w = complete_pending_run (demo_env (at_utc 24 7 9)) 1 (PStr ''job-1'') (PStr ''succeeded'') PNone (PStr []) PNone w"

lemma demo_completion_applied: "(case demo_completion parked_world of Inr (d, _) \<Rightarrow> d = False | Inl _ \<Rightarrow> False)"
  by code_simp

theorem completion_settles_once_witness:
  "\<exists>w r. demo_completion parked_world = Inr (False, w) \<and> get_run w 1 = Some r \<and> rn_status r = Run_Succeeded \<and> demo_completion w = Inr (True, w)"
proof -
  obtain w where w: "demo_completion parked_world = Inr (False, w)"
    using demo_completion_applied by (auto split: sum.splits)
  then have c: "complete_pending_run (demo_env (at_utc 24 7 9)) 1 (PStr ''job-1'') (PStr ''succeeded'') PNone (PStr []) PNone parked_world = Inr (False, w)"
    by (simp add: demo_completion_def)
  have "outcome_of (PStr ''succeeded'') = Some Out_Succeeded" by code_simp
  then show ?thesis using completion_settles_once [OF c] w by (auto simp: demo_completion_def)
qed

section \<open>A clock change\<close>

definition clock_change_day :: "sched_event list" where
  "clock_change_day = demo_events @ [Sched_Tick (demo_env (at_utc 24 22 30))]"

lemma clock_change_runs:
  "map run_columns (sw_runs (sched_history clock_change_day sched_demo)) = [(1, Run_Succeeded, at_utc 24 7 0), (2, Run_Queued, at_utc 24 8 0)]"
  by code_simp

text \<open>On the night the clock goes back a daily schedule runs twice for the same day: after its 09:00 run of the 24th has
  succeeded, the tick half an hour into the 25th sees an occurrence at 10:00 of the 24th, which is no
  moment of the schedule, and queues a second run for it.\<close>

theorem daily_run_twice_on_clock_change:
  "map run_columns (sw_runs (sched_history clock_change_day sched_demo)) =
     [(1, Run_Succeeded, at_utc 24 7 0), (2, Run_Queued, at_utc 24 8 0)] \<and>
   at_utc 24 8 0 \<notin> occurrences amsterdam demo_schedule"
  using clock_change_runs ten_is_no_occurrence by (simp add: at_utc_def time_of_day_def)

end
