(* ===== verification/Py_Ip.thy ===== *)
theory Py_Ip
  imports Py_Value
begin

text \<open>
  What the session code uses of Python's \<open>ipaddress\<close>: addresses of both versions as the integers the library keeps, with
  the parser of \<open>ip_address\<close>, the printer of \<open>str\<close>, and networks with the parser of \<open>ip_network(..., strict=False)\<close>
  and the membership test. Which networks count as private is a table of the interpreter and not part of this theory.
\<close>

datatype ip_addr = V4 int | V6 int "string option"

datatype ip_net = Net4 int nat | Net6 int "string option" nat

section \<open>Reading addresses\<close>

definition parse_octet :: "string \<Rightarrow> nat option" where
  "parse_octet s = (if s \<noteq> [] \<and> list_all is_digit s \<and> length s \<le> 3 \<and> \<not> (s \<noteq> ''0'' \<and> hd s = CHR ''0'') \<and> read_nat s \<le> 255
     then Some (read_nat s) else None)"

definition ipv4_of :: "string \<Rightarrow> int option" where
  "ipv4_of s = (case those (map parse_octet (split_on CHR ''.'' s)) of
     Some [a, b, c, d] \<Rightarrow> Some (((int a * 256 + int b) * 256 + int c) * 256 + int d)
   | _ \<Rightarrow> None)"

definition hex_val :: "char \<Rightarrow> int option" where
  "hex_val c = (let n = int (code c) in if 48 \<le> n \<and> n \<le> 57 then Some (n - 48) else if 65 \<le> n \<and> n \<le> 70 then Some (n - 55)
     else if 97 \<le> n \<and> n \<le> 102 then Some (n - 87) else None)"

definition parse_hextet :: "string \<Rightarrow> int option" where
  "parse_hextet s = (if s = [] \<or> 4 < length s then None
     else (case those (map hex_val s) of None \<Rightarrow> None | Some ds \<Rightarrow> Some (foldl (\<lambda>n d. 16 * n + d) 0 ds)))"

definition hextet_word :: "int list \<Rightarrow> int" where
  "hextet_word hs = foldl (\<lambda>w h. w * 65536 + h) 0 hs"

text \<open>The groups of an address in text form: a dotted tail counts as two groups.\<close>

definition ipv6_parts :: "string \<Rightarrow> (int option \<times> bool) list option" where
  "ipv6_parts s = (let parts = split_on CHR '':'' s; group = (\<lambda>p. (parse_hextet p, p = [])) in
     if length parts < 3 then None
     else if CHR ''.'' \<in> set (last parts)
     then (case ipv4_of (last parts) of None \<Rightarrow> None
       | Some w \<Rightarrow> Some (map group (butlast parts) @ [(Some (w div 65536), False), (Some (w mod 65536), False)]))
     else Some (map group parts))"

definition ipv6_of :: "string \<Rightarrow> int option" where
  "ipv6_of s = (case ipv6_parts s of None \<Rightarrow> None | Some ps \<Rightarrow>
     if 9 < length ps then None
     else (case filter (\<lambda>i. snd (ps ! i)) [1 ..< length ps - 1] of
       [] \<Rightarrow> if length ps \<noteq> 8 then None else map_option hextet_word (those (map fst ps))
     | [skip] \<Rightarrow>
         (let first_blank = snd (hd ps); last_blank = snd (last ps);
              hi = (if first_blank then skip - 1 else skip); lo = length ps - skip - 1 - (if last_blank then 1 else 0) in
          if (first_blank \<and> hi \<noteq> 0) \<or> (last_blank \<and> lo \<noteq> 0) \<or> 8 \<le> hi + lo then None
          else map_option hextet_word
            (those (map fst (take hi ps) @ replicate (8 - (hi + lo)) (Some 0) @ map fst (drop (length ps - lo) ps))))
     | _ \<Rightarrow> None))"

definition split_scope :: "string \<Rightarrow> (string \<times> string option) option" where
  "split_scope s = (case partition_on CHR ''%'' s of None \<Rightarrow> Some (s, None)
     | Some (a, z) \<Rightarrow> if z = [] \<or> CHR ''%'' \<in> set z then None else Some (a, Some z))"

definition ipv6_address :: "string \<Rightarrow> (int \<times> string option) option" where
  "ipv6_address s = (if CHR ''/'' \<in> set s then None else case split_scope s of None \<Rightarrow> None
     | Some (a, z) \<Rightarrow> map_option (\<lambda>w. (w, z)) (ipv6_of a))"

definition ip_address :: "string \<Rightarrow> ip_addr option" where
  "ip_address s = (case ipv4_of s of Some w \<Rightarrow> Some (V4 w) | None \<Rightarrow> map_option (\<lambda>(w, z). V6 w z) (ipv6_address s))"

section \<open>Printing addresses\<close>

definition show_ipv4 :: "int \<Rightarrow> string" where
  "show_ipv4 w = join ''.'' (map (\<lambda>k. show_nat (nat (w div 2 ^ k mod 256))) [24, 16, 8, 0])"

text \<open>\<open>"%x"\<close> of a group: at most four digits.\<close>

definition show_hex :: "int \<Rightarrow> string" where
  "show_hex n = (let ds = map (\<lambda>k. nat (n div k mod 16)) [4096, 256, 16] in
     map hex_digit (dropWhile (\<lambda>d. d = 0) ds @ [nat (n mod 16)]))"

text \<open>The longest run of zero groups, the first one of that length: its start and length.\<close>

definition zero_run :: "int list \<Rightarrow> nat \<Rightarrow> nat" where
  "zero_run hs i = length (takeWhile (\<lambda>h. h = 0) (drop i hs))"

definition longest_zeros :: "int list \<Rightarrow> nat \<times> nat" where
  "longest_zeros hs = fold (\<lambda>i best. if snd best < zero_run hs i then (i, zero_run hs i) else best) [0 ..< length hs] (0, 0)"

definition show_ipv6 :: "int \<Rightarrow> string" where
  "show_ipv6 w = (let hs = map (\<lambda>k. w div 2 ^ k mod 65536) [112, 96, 80, 64, 48, 32, 16, 0];
       texts = map show_hex hs; (start, len) = longest_zeros hs in
     join '':'' (if len \<le> 1 then texts
       else (if start = 0 then [[]] else []) @ take start texts @ [[]] @ drop (start + len) texts @ (if start + len = 8 then [[]] else [])))"

fun show_ip :: "ip_addr \<Rightarrow> string" where
  "show_ip (V4 w) = show_ipv4 w"
| "show_ip (V6 w z) = show_ipv6 w @ (case z of None \<Rightarrow> [] | Some t \<Rightarrow> ''%'' @ t)"

section \<open>Networks\<close>

text \<open>\<open>low\<close> is the number of the bits behind the prefix: \<open>ip & netmask\<close> clears them.\<close>

definition clear_bits :: "nat \<Rightarrow> int \<Rightarrow> int" where
  "clear_bits low a = a - a mod 2 ^ low"

definition mask4 :: "nat \<Rightarrow> int" where
  "mask4 p = 2 ^ 32 - 2 ^ (32 - p)"

definition prefix_of :: "nat \<Rightarrow> string \<Rightarrow> nat option" where
  "prefix_of width s = (if s \<noteq> [] \<and> list_all is_digit s \<and> read_nat s \<le> width then Some (read_nat s) else None)"

text \<open>A net mask, else a host mask.\<close>

definition prefix_of_mask :: "int \<Rightarrow> nat option" where
  "prefix_of_mask w = (case find (\<lambda>p. mask4 p = w) [0 ..< 33] of Some p \<Rightarrow> Some p | None \<Rightarrow> find (\<lambda>p. mask4 p = 2 ^ 32 - 1 - w) [0 ..< 33])"

definition netmask4 :: "string option \<Rightarrow> nat option" where
  "netmask4 m = (case m of None \<Rightarrow> Some 32 | Some t \<Rightarrow> (case prefix_of 32 t of Some p \<Rightarrow> Some p
     | None \<Rightarrow> (case ipv4_of t of None \<Rightarrow> None | Some w \<Rightarrow> prefix_of_mask w)))"

definition ip_network :: "string \<Rightarrow> ip_net option" where
  "ip_network s = (let parts = split_on CHR ''/'' s; addr = hd parts; m = (case tl parts of [] \<Rightarrow> None | t # _ \<Rightarrow> Some t) in
     if 2 < length parts then None
     else (case (ipv4_of addr, netmask4 m) of
       (Some w, Some p) \<Rightarrow> Some (Net4 (clear_bits (32 - p) w) p)
     | _ \<Rightarrow> (case (ipv6_address addr, (case m of None \<Rightarrow> Some 128 | Some t \<Rightarrow> prefix_of 128 t)) of
         (Some (w, z), Some p) \<Rightarrow> Some (Net6 (clear_bits (128 - p) w) (if clear_bits (128 - p) w = w then z else None) p)
       | _ \<Rightarrow> None)))"

fun show_network :: "ip_net \<Rightarrow> string" where
  "show_network (Net4 w p) = show_ipv4 w @ ''/'' @ show_nat p"
| "show_network (Net6 w z p) = show_ip (V6 w z) @ ''/'' @ show_nat p"

fun prefixlen :: "ip_net \<Rightarrow> nat" where
  "prefixlen (Net4 w p) = p"
| "prefixlen (Net6 w z p) = p"

fun in_network :: "ip_addr \<Rightarrow> ip_net \<Rightarrow> bool" where
  "in_network (V4 a) (Net4 w p) = (clear_bits (32 - p) a = w)"
| "in_network (V6 a _) (Net6 w _ p) = (clear_bits (128 - p) a = w)"
| "in_network _ _ = False"

lemma ip_examples:
  "ip_address ''10.0.0.7'' = Some (V4 0x0A000007)" "ip_address ''010.0.0.7'' = None"
  "ip_address ''::1'' = Some (V6 1 None)" "map_option show_ip (ip_address ''2001:DB8:0:0:1::7'') = Some ''2001:db8::1:0:0:7''"
  "map_option show_ip (ip_address ''::ffff:1.2.3.4'') = Some ''::ffff:102:304''" "ip_address ''1::2::3'' = None" "ip_address '':1:2:3:4:5:6:7'' = None"
  "map_option show_network (ip_network ''10.1.2.3/8'') = Some ''10.0.0.0/8''" "map_option show_network (ip_network ''10.1.2.3/255.255.0.0'') = Some ''10.1.0.0/16''"
  "map_option show_network (ip_network ''::1'') = Some ''::1/128''"
  by code_simp+

end
