(* ===== verification/Session_Policy.thy ===== *)
theory Session_Policy
  imports Py_Ip Py_Dates
begin

text \<open>
  The policy half of \<open>session_security.py\<close>: who may administer sessions, the global session policy with its
  validation, and the resolution of the client address behind trusted proxies. Tactical's user rows, and the
  interpreter's table of private networks, are inputs.
\<close>

datatype session_exn = Session_Denied string | Session_Error string | Session_Forbidden | Session_Uncaught py_exn

section \<open>Users\<close>

record session_role =
  ro_superuser :: bool
  ro_manage_accounts :: bool

record session_user =
  us_pk :: nat
  us_username :: string
  us_authenticated :: bool
  us_superuser :: bool
  us_role :: "session_role option"
  us_sso :: bool
  us_provider :: string
  us_totp :: bool

definition role_superuser :: "session_user \<Rightarrow> bool" where
  "role_superuser u = (case us_role u of None \<Rightarrow> False | Some r \<Rightarrow> ro_superuser r)"

definition can_manage_session_security :: "session_user \<Rightarrow> bool" where
  "can_manage_session_security u = (us_authenticated u \<and> (us_superuser u \<or> role_superuser u))"

definition effective_superuser :: "string \<Rightarrow> session_user option \<Rightarrow> bool" where
  "effective_superuser root_user user = (case user of None \<Rightarrow> False | Some u \<Rightarrow>
     us_authenticated u \<and> (us_superuser u \<or> us_username u = root_user \<or> role_superuser u))"

definition protected_login_account :: "string \<Rightarrow> session_user option \<Rightarrow> bool" where
  "protected_login_account root_user user = (case user of None \<Rightarrow> False | Some u \<Rightarrow>
     us_superuser u \<or> us_username u = root_user \<or> role_superuser u)"

definition can_administer_login_target :: "string \<Rightarrow> session_user option \<Rightarrow> session_user option \<Rightarrow> bool" where
  "can_administer_login_target root_user requester target =
     (\<not> (protected_login_account root_user target \<and> \<not> effective_superuser root_user requester))"

definition can_manage_account_security :: "string \<Rightarrow> session_user \<Rightarrow> bool" where
  "can_manage_account_security root_user u = (us_authenticated u \<and>
     (effective_superuser root_user (Some u) \<or> (case us_role u of None \<Rightarrow> False | Some r \<Rightarrow> ro_manage_accounts r)))"

section \<open>The policy\<close>

record session_config =
  sg_idle :: int
  sg_absolute :: int
  sg_ip_change :: string
  sg_audit :: bool
  sg_heartbeat :: int
  sg_retention :: int
  sg_last_cleanup :: "moment option"
  sg_proxies :: pyval
  sg_updated_by :: string

record session_policy =
  po_idle :: int
  po_absolute :: int
  po_ip_change :: string
  po_audit :: bool
  po_heartbeat :: int
  po_retention :: int
  po_proxies :: "string list"

definition min_prefix :: "ip_net \<Rightarrow> nat" where
  "min_prefix n = (case n of Net4 _ _ \<Rightarrow> 8 | Net6 _ _ _ \<Rightarrow> 32)"

text \<open>One entry of the list: nothing for a blank one, else the network in normal form or why it is refused.
  \<open>local\<close> answers \<open>is_private or is_loopback or is_link_local\<close>.\<close>

definition proxy_entry :: "(ip_net \<Rightarrow> bool) \<Rightarrow> pyval \<Rightarrow> (string + string) option" where
  "proxy_entry local item = (let t = clean_text item in
     if t = [] then None
     else Some (case ip_network t of
       None \<Rightarrow> Inl (''Invalid trusted proxy network: '' @ t)
     | Some n \<Rightarrow>
         if prefixlen n < min_prefix n then Inl (''trusted_proxies network is too broad: '' @ show_network n)
         else if \<not> local n then Inl (''trusted_proxies must use private/local address space: '' @ show_network n)
         else Inr (show_network n)))"

fun collect_proxies :: "(ip_net \<Rightarrow> bool) \<Rightarrow> bool \<Rightarrow> pyval list \<Rightarrow> session_exn + string list" where
  "collect_proxies local strict [] = Inr []"
| "collect_proxies local strict (x # xs) = (case proxy_entry local x of
     None \<Rightarrow> collect_proxies local strict xs
   | Some (Inl why) \<Rightarrow> if strict then Inl (Session_Error why) else collect_proxies local strict xs
   | Some (Inr n) \<Rightarrow> rbind (collect_proxies local strict xs) (\<lambda>ns. Inr (n # ns)))"

definition normalized_trusted_proxies :: "(ip_net \<Rightarrow> bool) \<Rightarrow> bool \<Rightarrow> pyval \<Rightarrow> session_exn + string list" where
  "normalized_trusted_proxies local strict raw = (case raw of
     PList xs \<Rightarrow> rbind (collect_proxies local strict xs) (\<lambda>ns. Inr (sort (dedup ns)))
   | _ \<Rightarrow> if strict then Inl (Session_Error ''trusted_proxies must be a list of IP addresses or CIDR networks.'') else Inr [])"

definition policy_dict :: "(ip_net \<Rightarrow> bool) \<Rightarrow> session_config \<Rightarrow> session_policy" where
  "policy_dict local c = \<lparr>po_idle = sg_idle c, po_absolute = sg_absolute c, po_ip_change = sg_ip_change c, po_audit = sg_audit c,
     po_heartbeat = sg_heartbeat c, po_retention = sg_retention c,
     po_proxies = (case normalized_trusted_proxies local False (sg_proxies c) of Inl _ \<Rightarrow> [] | Inr ns \<Rightarrow> ns)\<rparr>"

definition allowed_ip_change_policies :: "string list" where
  "allowed_ip_change_policies = [''off'', ''audit'', ''reauthenticate'', ''terminate'']"

text \<open>The fields of \<open>_update_global_policy\<close> in its order. Each step reads one key of the payload, writes one column
  and notes its name. \<open>int()\<close> is not guarded, so its exceptions leave the function.\<close>

definition number_field :: "string \<Rightarrow> int \<Rightarrow> int \<Rightarrow> (int \<Rightarrow> session_config \<Rightarrow> session_config) \<Rightarrow> pydict \<Rightarrow>
    session_config \<times> string list \<Rightarrow> session_exn + session_config \<times> string list" where
  "number_field key lo hi put policy cf = (case dget policy key of None \<Rightarrow> Inr cf | Some v \<Rightarrow>
     (case py_int v of Inl e \<Rightarrow> Inl (Session_Uncaught e)
      | Inr n \<Rightarrow> rcheck (n < lo \<or> hi < n) (Session_Error (key @ '' must be between '' @ show_int lo @ '' and '' @ show_int hi @ ''.''))
          (Inr (put n (fst cf), snd cf @ [key]))))"

definition ip_change_field :: "pydict \<Rightarrow> session_config \<times> string list \<Rightarrow> session_exn + session_config \<times> string list" where
  "ip_change_field policy cf = (case dget policy ''ip_change_policy'' of None \<Rightarrow> Inr cf | Some v \<Rightarrow>
     rcheck (clean_lower v \<notin> set allowed_ip_change_policies) (Session_Error ''ip_change_policy must be off, audit, reauthenticate, or terminate.'')
       (Inr ((fst cf)\<lparr>sg_ip_change := clean_lower v\<rparr>, snd cf @ [''ip_change_policy''])))"

definition proxies_field :: "(ip_net \<Rightarrow> bool) \<Rightarrow> pydict \<Rightarrow> session_config \<times> string list \<Rightarrow> session_exn + session_config \<times> string list" where
  "proxies_field local policy cf = (case dget policy ''trusted_proxies'' of None \<Rightarrow> Inr cf | Some v \<Rightarrow>
     rbind (normalized_trusted_proxies local True v) (\<lambda>ns.
       Inr ((fst cf)\<lparr>sg_proxies := PList (map PStr ns)\<rparr>, snd cf @ [''trusted_proxies''])))"

definition policy_fields :: "(ip_net \<Rightarrow> bool) \<Rightarrow> pydict \<Rightarrow> session_config \<Rightarrow> session_exn + session_config \<times> string list" where
  "policy_fields local p c =
     rbind (number_field ''idle_timeout_minutes'' 1 1440 (\<lambda>n c. c\<lparr>sg_idle := n\<rparr>) p (c, [])) (\<lambda>s.
     rbind (number_field ''absolute_lifetime_minutes'' 1 10080 (\<lambda>n c. c\<lparr>sg_absolute := n\<rparr>) p s) (\<lambda>s.
     rbind (number_field ''activity_heartbeat_seconds'' 30 3600 (\<lambda>n c. c\<lparr>sg_heartbeat := n\<rparr>) p s) (\<lambda>s.
     rbind (number_field ''history_retention_days'' 1 3650 (\<lambda>n c. c\<lparr>sg_retention := n\<rparr>) p s) (\<lambda>s.
     rbind (ip_change_field p s) (\<lambda>s.
     proxies_field local p (case dget p ''session_audit_enabled'' of None \<Rightarrow> s
       | Some v \<Rightarrow> ((fst s)\<lparr>sg_audit := truthy v\<rparr>, snd s @ [''session_audit_enabled''])))))))"

section \<open>The client address\<close>

record request_headers =
  hd_remote_addr :: string
  hd_x_forwarded_for :: string
  hd_forwarded :: string
  hd_x_real_ip :: string

definition is_digit_text :: "string \<Rightarrow> bool" where
  "is_digit_text s = (s \<noteq> [] \<and> list_all (\<lambda>c. is_digit c \<or> code c \<in> {178, 179, 185}) s)"

definition quote :: char where "quote = char_of (34::nat)"

text \<open>\<open>_ip\<close>: quotes, brackets and a port around the address are dropped.\<close>

definition ip_of :: "string \<Rightarrow> ip_addr option" where
  "ip_of value = (if value = [] then None else
     (let t = strip_by (\<lambda>c. c = quote) (strip value) in
      ip_address
        (if startswith t ''['' \<and> CHR '']'' \<in> set t then takeWhile (\<lambda>c. c \<noteq> CHR '']'') (tl t)
         else if count_list t CHR '':'' = 1 \<and> CHR ''.'' \<in> set t then
           (case partition_on CHR '':'' t of Some (host, port) \<Rightarrow> if is_digit_text port then host else t | None \<Rightarrow> t)
         else t)))"

definition trusted_networks :: "session_policy \<Rightarrow> ip_net list" where
  "trusted_networks p = List.map_filter ip_network (po_proxies p)"

definition is_trusted :: "ip_net list \<Rightarrow> ip_addr \<Rightarrow> bool" where
  "is_trusted nets a = list_ex (in_network a) nets"

definition forwarded_param :: "string \<Rightarrow> string option" where
  "forwarded_param param = (case partition_on CHR ''='' (strip param) of None \<Rightarrow> None
     | Some (key, value) \<Rightarrow> if lower key = ''for'' then Some (strip_by (\<lambda>c. c = quote) (strip value)) else None)"

definition parse_forwarded_for :: "string \<Rightarrow> string list" where
  "parse_forwarded_for header = List.map_filter (\<lambda>part. case List.map_filter forwarded_param (split_on CHR '';'' part) of
     [] \<Rightarrow> None | v # _ \<Rightarrow> Some v) (split_on CHR '','' header)"

definition forwarding_chain :: "request_headers \<Rightarrow> string list" where
  "forwarding_chain h =
     (let xff = map show_ip (List.map_filter (ip_of \<circ> strip) (split_on CHR '','' (hd_x_forwarded_for h)));
          forwarded = map show_ip (List.map_filter ip_of (parse_forwarded_for (hd_forwarded h))) in
      if xff \<noteq> [] then xff else if forwarded \<noteq> [] then forwarded
      else (case ip_of (hd_x_real_ip h) of None \<Rightarrow> [] | Some a \<Rightarrow> [show_ip a]))"

text \<open>The walk from the nearest proxy towards the client; the chain is given nearest first.\<close>

fun walk_chain :: "ip_net list \<Rightarrow> ip_addr \<Rightarrow> string list \<Rightarrow> ip_addr" where
  "walk_chain nets current [] = current"
| "walk_chain nets current (raw # rest) =
     (if \<not> is_trusted nets current then current
      else case ip_of raw of None \<Rightarrow> current | Some candidate \<Rightarrow> walk_chain nets candidate rest)"

definition effective_client_ip :: "session_policy \<Rightarrow> request_headers \<Rightarrow> string" where
  "effective_client_ip p h = (case ip_of (hd_remote_addr h) of None \<Rightarrow> []
     | Some peer \<Rightarrow> (let nets = trusted_networks p in
         if \<not> is_trusted nets peer then show_ip peer
         else if forwarding_chain h = [] then show_ip peer
         else show_ip (walk_chain nets peer (rev (forwarding_chain h)))))"

end
