(* ===== verification/Session_Trust.thy ===== *)
theory Session_Trust
  imports Session_Policy
begin

text \<open>
  The session half of \<open>session_security.py\<close>: the trust rows, Tactical's Knox tokens and the audit rows as tables,
  and every operation on them. An operation answers a result or an exception together with the tables it leaves;
  \<open>atomic\<close> is Django's transaction block, which throws the changes of its body away when the body raises.
  Keyed hashes, Tactical's API keys and Django's session store are inputs. The time of an operation is one moment.
  A lookup of a missing row (\<open>DoesNotExist\<close>) is the uncaught \<open>KeyError\<close>. Of the sweep and the cleanup the tables
  are modelled, not the counters they report. Trust ids are numbers given out in order instead of random UUIDs.
\<close>

section \<open>Tables and inputs\<close>

record session_trust =
  tr_id :: nat
  tr_fingerprint :: string
  tr_digest :: string
  tr_user :: nat
  tr_username :: string
  tr_created :: moment
  tr_updated :: moment
  tr_activity :: moment
  tr_seen :: moment
  tr_initial_ip :: string
  tr_last_ip :: string
  tr_agent_hash :: string
  tr_absolute :: moment
  tr_idle :: moment
  tr_revoked :: bool
  tr_revoked_at :: "moment option"
  tr_revoked_by :: string
  tr_reason :: string
  tr_theme :: string

record knox_token =
  kt_digest :: string
  kt_user :: nat
  kt_expiry :: "moment option"
  kt_created :: moment

record session_audit =
  au_event :: string
  au_session :: "nat option"
  au_username :: string
  au_previous_ip :: string
  au_new_ip :: string
  au_reason :: string
  au_by :: string
  au_meta :: pydict
  au_created :: moment

record session_world =
  sn_rows :: "session_trust list"
  sn_next :: nat
  sn_tokens :: "knox_token list"
  sn_config :: session_config
  sn_audit :: "session_audit list"

datatype auth_value = Auth_Nothing | Auth_Key string | Auth_Token string

record session_request =
  rq_user :: "session_user option"
  rq_authenticator :: "(string \<times> string) option"
  rq_auth :: auth_value
  rq_authorization :: string
  rq_api_key :: string
  rq_session_key :: string
  rq_headers :: request_headers
  rq_user_agent :: string

record session_env =
  se_now :: moment
  se_local :: "ip_net \<Rightarrow> bool"
  se_root_user :: string
  se_user :: "nat \<Rightarrow> session_user option"
  se_hmac :: "string \<Rightarrow> string"
  se_login_ref :: "string \<Rightarrow> string"
  se_hash_token :: "string \<Rightarrow> string option"
  se_agent_hash :: "string \<Rightarrow> string"
  se_api_key :: "string \<Rightarrow> nat \<Rightarrow> nat option"
  se_api_keys :: "nat list option"
  se_django_sessions :: "string list option"
  se_locked :: "nat \<Rightarrow> bool"
  se_audit_ok :: bool

type_synonym 'a session_result = "(session_exn + 'a) \<times> session_world"

definition atomic :: "(session_world \<Rightarrow> 'a session_result) \<Rightarrow> session_world \<Rightarrow> 'a session_result" where
  "atomic body w = (case body w of (Inl e, _) \<Rightarrow> (Inl e, w) | (Inr x, w') \<Rightarrow> (Inr x, w'))"

definition mins :: "int \<Rightarrow> moment" where
  "mins n = n * 60 * sec"

definition current_policy :: "session_env \<Rightarrow> session_world \<Rightarrow> session_policy" where
  "current_policy env w = policy_dict (se_local env) (sn_config w)"

definition get_trust :: "session_world \<Rightarrow> nat \<Rightarrow> session_trust option" where
  "get_trust w pk = find (\<lambda>r. tr_id r = pk) (sn_rows w)"

text \<open>\<open>save(update_fields=[...])\<close>: the named columns of the stored row.\<close>

definition upd_trust :: "nat \<Rightarrow> (session_trust \<Rightarrow> session_trust) \<Rightarrow> session_world \<Rightarrow> session_world" where
  "upd_trust pk f w = w\<lparr>sn_rows := map (\<lambda>r. if tr_id r = pk then f r else r) (sn_rows w)\<rparr>"

definition delete_tokens :: "(knox_token \<Rightarrow> bool) \<Rightarrow> session_world \<Rightarrow> session_world" where
  "delete_tokens p w = w\<lparr>sn_tokens := filter (\<lambda>t. \<not> p t) (sn_tokens w)\<rparr>"

definition token_username :: "session_env \<Rightarrow> knox_token \<Rightarrow> string option" where
  "token_username env t = map_option us_username (se_user env (kt_user t))"

definition add_audit :: "session_env \<Rightarrow> session_audit \<Rightarrow> session_policy \<Rightarrow> bool \<Rightarrow> session_world \<Rightarrow> session_world" where
  "add_audit env row policy force w = (if \<not> force \<and> \<not> po_audit policy then w else w\<lparr>sn_audit := sn_audit w @ [row]\<rparr>)"

definition session_audit_row :: "session_env \<Rightarrow> string \<Rightarrow> session_trust option \<Rightarrow> string \<Rightarrow> string \<Rightarrow> string \<Rightarrow> pydict \<Rightarrow> session_audit" where
  "session_audit_row env event session username reason requested_by meta =
     \<lparr>au_event = take 64 event, au_session = map_option tr_id session,
      au_username = take 150 (if username \<noteq> [] then username else case session of None \<Rightarrow> [] | Some s \<Rightarrow> tr_username s),
      au_previous_ip = [], au_new_ip = [], au_reason = take 255 reason, au_by = take 150 requested_by, au_meta = meta, au_created = se_now env\<rparr>"

section \<open>The credential of a request\<close>

definition compare_digest :: "string \<Rightarrow> string \<Rightarrow> session_exn + bool" where
  "compare_digest a b = (if list_all (\<lambda>c. code c < 128) (a @ b) then Inr (a = b) else Inl (Session_Uncaught TypeError))"

text \<open>\<open>authorization.split(None, 1)[1].strip()\<close>, when there is one.\<close>

definition bearer_of :: "string \<Rightarrow> string option" where
  "bearer_of authorization = (let rest = dropWhile is_space (dropWhile (\<lambda>c. \<not> is_space c) (strip authorization)) in
     if strip rest = [] then None else Some (strip rest))"

definition invalid_state :: "session_exn" where
  "invalid_state = Session_Denied ''session_invalid_state''"

definition auth_digest :: "session_request \<Rightarrow> string" where
  "auth_digest rq = (case rq_auth rq of Auth_Token d \<Rightarrow> d | _ \<Rightarrow> [])"

definition api_key_identity :: "session_env \<Rightarrow> session_request \<Rightarrow> session_exn + string" where
  "api_key_identity env rq = (let header = strip (rq_api_key rq) in
     if strip (rq_authorization rq) \<noteq> [] then Inl invalid_state
     else (case rq_auth rq of
       Auth_Key key \<Rightarrow>
         if key = [] \<or> header = [] then Inl invalid_state
         else rbind (compare_digest key header) (\<lambda>same.
           if \<not> same then Inl invalid_state
           else (case rq_user rq of None \<Rightarrow> Inl invalid_state | Some u \<Rightarrow>
             (case se_api_key env key (us_pk u) of None \<Rightarrow> Inl invalid_state | Some pk \<Rightarrow> Inr (''api-key:'' @ show_nat pk))))
     | _ \<Rightarrow> Inl invalid_state))"

definition knox_identity :: "session_env \<Rightarrow> session_request \<Rightarrow> session_exn + string" where
  "knox_identity env rq = (if strip (rq_api_key rq) \<noteq> [] then Inl invalid_state
     else (case bearer_of (rq_authorization rq) of None \<Rightarrow> Inl invalid_state | Some token \<Rightarrow>
       (case se_hash_token env token of None \<Rightarrow> Inl invalid_state | Some digest \<Rightarrow>
         rbind (compare_digest digest (auth_digest rq)) (\<lambda>same.
           if same then Inr (''knox:'' @ auth_digest rq) else Inl invalid_state))))"

definition credential_identity :: "session_env \<Rightarrow> session_request \<Rightarrow> session_exn + string" where
  "credential_identity env rq =
     (if (case rq_authenticator rq of None \<Rightarrow> False | Some (name, md) \<Rightarrow> name = ''APIAuthentication'' \<or> endswith md ''tacticalrmm.auth'')
      then api_key_identity env rq
      else if auth_digest rq \<noteq> [] then knox_identity env rq
      else if rq_authenticator rq = None \<and> rq_session_key rq \<noteq> [] \<and> strip (rq_authorization rq) = [] \<and> strip (rq_api_key rq) = []
      then Inr (''django-session:'' @ rq_session_key rq)
      else Inl invalid_state)"

definition token_fingerprint :: "session_env \<Rightarrow> session_request \<Rightarrow> session_exn + string" where
  "token_fingerprint env rq = rbind (credential_identity env rq) (\<lambda>i. Inr (se_hmac env i))"

definition request_knox_digest :: "session_request \<Rightarrow> string" where
  "request_knox_digest rq = take 128 (auth_digest rq)"

definition legacy_knox_fingerprint :: "session_env \<Rightarrow> session_request \<Rightarrow> string" where
  "legacy_knox_fingerprint env rq = (let digest = request_knox_digest rq in
     if digest = [] \<or> credential_identity env rq \<noteq> Inr (''knox:'' @ digest) then []
     else (case bearer_of (rq_authorization rq) of None \<Rightarrow> [] | Some raw \<Rightarrow> se_hmac env raw))"

section \<open>Revoking and expiring\<close>

definition refresh_expiry :: "session_policy \<Rightarrow> session_trust \<Rightarrow> session_trust" where
  "refresh_expiry p r = r\<lparr>tr_absolute := tr_created r + mins (po_absolute p), tr_idle := tr_activity r + mins (po_idle p)\<rparr>"

definition invalidate_knox_for_session :: "session_env \<Rightarrow> session_trust \<Rightarrow> session_world \<Rightarrow> session_world" where
  "invalidate_knox_for_session env r w =
     (if tr_digest r \<noteq> [] then delete_tokens (\<lambda>t. kt_digest t = tr_digest r) w
      else if strip (tr_username r) \<noteq> [] then delete_tokens (\<lambda>t. token_username env t = Some (strip (tr_username r))) w
      else w)"

definition revoke_locked :: "session_env \<Rightarrow> session_trust \<Rightarrow> string \<Rightarrow> string \<Rightarrow> string \<Rightarrow> bool \<Rightarrow> session_world \<Rightarrow> session_world" where
  "revoke_locked env r reason requested_by event invalidate w =
     (if tr_revoked r then w
      else (let w1 = upd_trust (tr_id r) (\<lambda>q. q\<lparr>tr_revoked := True, tr_revoked_at := Some (se_now env), tr_revoked_by := take 150 requested_by,
                  tr_reason := take 255 (if reason = [] then ''revoked'' else reason), tr_updated := se_now env\<rparr>) w;
                w2 = (if invalidate then invalidate_knox_for_session env r w1 else w1) in
            add_audit env (session_audit_row env event (Some r) [] reason requested_by []) (current_policy env w) False w2))"

text \<open>\<open>_bind_knox_digest\<close>: the digest to store, if one is.\<close>

definition bind_knox_digest :: "session_trust \<Rightarrow> string \<Rightarrow> session_exn + string option" where
  "bind_knox_digest r digest = (if digest = [] then Inr None
     else if tr_digest r \<noteq> [] then rbind (compare_digest (tr_digest r) digest) (\<lambda>same. if same then Inr None else Inl invalid_state)
     else Inr (Some digest))"

section \<open>Requests\<close>

text \<open>\<open>order_by("-revoked", "-last_seen_at", "-created_at")\<close>\<close>

definition digest_rows :: "session_world \<Rightarrow> string \<Rightarrow> session_trust list" where
  "digest_rows w d = sort_key (\<lambda>r. \<not> tr_revoked r) (sort_key (\<lambda>r. - tr_seen r) (sort_key (\<lambda>r. - tr_created r)
     (filter (\<lambda>r. tr_digest r = d) (sn_rows w))))"

definition fingerprint_row :: "session_world \<Rightarrow> string \<Rightarrow> session_trust option" where
  "fingerprint_row w f = find (\<lambda>r. tr_fingerprint r = f) (sn_rows w)"

definition existing_session_for_credential :: "session_env \<Rightarrow> session_request \<Rightarrow> string \<Rightarrow> session_world \<Rightarrow> session_trust option session_result" where
  "existing_session_for_credential env rq fingerprint w =
     (let digest = request_knox_digest rq; rows = (if digest = [] then [] else digest_rows w digest) in
      case find tr_revoked rows of Some r \<Rightarrow> (Inr (Some r), w)
      | None \<Rightarrow> (case fingerprint_row w fingerprint of Some r \<Rightarrow> (Inr (Some r), w)
        | None \<Rightarrow> (case rows of r # _ \<Rightarrow> (Inr (Some r), w)
          | [] \<Rightarrow> (let legacy = legacy_knox_fingerprint env rq in
              if legacy = [] \<or> legacy = fingerprint then (Inr None, w)
              else (case fingerprint_row w legacy of None \<Rightarrow> (Inr None, w)
                | Some r \<Rightarrow> (case bind_knox_digest r digest of
                    Inl e \<Rightarrow> (Inl e, w)
                  | Inr None \<Rightarrow> (Inr (Some r), w)
                  | Inr (Some d) \<Rightarrow> (Inr (Some (r\<lparr>tr_digest := d, tr_updated := se_now env\<rparr>)),
                      upd_trust (tr_id r) (\<lambda>q. q\<lparr>tr_digest := d, tr_updated := se_now env\<rparr>) w)))))))"

definition new_trust :: "session_env \<Rightarrow> session_request \<Rightarrow> session_user \<Rightarrow> string \<Rightarrow> string \<Rightarrow> session_policy \<Rightarrow> nat \<Rightarrow> session_trust" where
  "new_trust env rq u fingerprint client_ip p pk =
     \<lparr>tr_id = pk, tr_fingerprint = fingerprint, tr_digest = request_knox_digest rq, tr_user = us_pk u, tr_username = us_username u,
      tr_created = se_now env, tr_updated = se_now env, tr_activity = se_now env, tr_seen = se_now env, tr_initial_ip = client_ip,
      tr_last_ip = client_ip, tr_agent_hash = (if rq_user_agent rq = [] then [] else se_agent_hash env (rq_user_agent rq)),
      tr_absolute = se_now env + mins (po_absolute p), tr_idle = se_now env + mins (po_idle p), tr_revoked = False, tr_revoked_at = None,
      tr_revoked_by = [], tr_reason = [], tr_theme = []\<rparr>"

definition auth_metadata :: "session_user \<Rightarrow> pydict" where
  "auth_metadata u = (if us_sso u then [(''auth_method'', PStr ''sso''), (''provider'', PStr (us_provider u))] else [(''auth_method'', PStr ''password'')])"

definition create_session :: "session_env \<Rightarrow> session_request \<Rightarrow> session_user \<Rightarrow> string \<Rightarrow> string \<Rightarrow> session_policy \<Rightarrow> session_world \<Rightarrow> session_trust \<times> session_world" where
  "create_session env rq u fingerprint client_ip p w =
     (let r = new_trust env rq u fingerprint client_ip p (sn_next w) in
      (r, add_audit env ((session_audit_row env ''session_created'' (Some r) [] [] [] (auth_metadata u))\<lparr>au_new_ip := take 64 client_ip\<rparr>) p False
            (w\<lparr>sn_rows := sn_rows w @ [r], sn_next := Suc (sn_next w)\<rparr>)))"

text \<open>The checks on the row of a request and what an accepted request writes. A refusal is raised after the revocation was
  written; the caller's transaction decides what remains of it.\<close>

definition ip_change_event :: "session_env \<Rightarrow> session_trust \<Rightarrow> string \<Rightarrow> session_policy \<Rightarrow> session_world \<Rightarrow> session_world" where
  "ip_change_event env r client_ip p w = (if po_ip_change p = ''off'' then w
     else add_audit env ((session_audit_row env ''session_ip_changed'' (Some r) [] (po_ip_change p) [] [])\<lparr>au_previous_ip := take 64 (tr_last_ip r), au_new_ip := take 64 client_ip\<rparr>) p False w)"

definition expiry_refusal :: "session_policy \<Rightarrow> moment \<Rightarrow> session_trust \<Rightarrow> (string \<times> string) option" where
  "expiry_refusal p now r =
     (if tr_absolute (refresh_expiry p r) \<le> now then Some (''absolute-timeout'', ''session_absolute_timeout'')
      else if tr_idle (refresh_expiry p r) \<le> now then Some (''idle-timeout'', ''session_idle_timeout'')
      else None)"

definition touch_session :: "session_env \<Rightarrow> session_request \<Rightarrow> string \<Rightarrow> session_policy \<Rightarrow> session_trust \<Rightarrow> session_world \<Rightarrow> session_trust session_result" where
  "touch_session env rq last_ip p r w = (case bind_knox_digest r (request_knox_digest rq) of
     Inl e \<Rightarrow> (Inl e, w)
   | Inr bound \<Rightarrow>
       (let put = (\<lambda>q. let q' = q\<lparr>tr_seen := se_now env, tr_last_ip := last_ip, tr_absolute := tr_created r + mins (po_absolute p),
                tr_idle := tr_activity r + mins (po_idle p), tr_updated := se_now env\<rparr> in
              case bound of None \<Rightarrow> q' | Some d \<Rightarrow> q'\<lparr>tr_digest := d\<rparr>) in
        (Inr (put r), upd_trust (tr_id r) put w)))"

definition check_session :: "session_env \<Rightarrow> session_request \<Rightarrow> session_user \<Rightarrow> string \<Rightarrow> session_policy \<Rightarrow> session_trust \<Rightarrow> session_world \<Rightarrow> session_trust session_result" where
  "check_session env rq u client_ip p r w =
     (if tr_revoked r then (Inl (Session_Denied ''session_revoked''), w)
      else if tr_user r \<noteq> us_pk u \<or> tr_username r \<noteq> us_username u
      then (Inl invalid_state, revoke_locked env r ''credential-user-mismatch'' [] ''session_revoked'' True w)
      else (case expiry_refusal p (se_now env) r of
        Some (reason, event) \<Rightarrow> (Inl (Session_Denied event), revoke_locked env r reason [] event True w)
      | None \<Rightarrow>
          if client_ip \<noteq> [] \<and> tr_last_ip r \<noteq> [] \<and> client_ip \<noteq> tr_last_ip r
          then (let w1 = ip_change_event env r client_ip p w in
                if po_ip_change p = ''reauthenticate''
                then (Inl (Session_Denied ''session_ip_change''), revoke_locked env r ''ip-change-reauthenticate'' [] ''session_reauthentication_required'' True w1)
                else if po_ip_change p = ''terminate''
                then (Inl (Session_Denied ''session_ip_change''), revoke_locked env r ''ip-change-terminate'' [] ''session_revoked'' True w1)
                else touch_session env rq client_ip p r w1)
          else touch_session env rq (tr_last_ip r) p r w))"

text \<open>The body of the transaction of \<open>ensure_request_session\<close>. The row a first request creates goes through the same checks.\<close>

definition ensure_body :: "session_env \<Rightarrow> bool \<Rightarrow> session_request \<Rightarrow> session_user \<Rightarrow> string \<Rightarrow> session_world \<Rightarrow> session_trust session_result" where
  "ensure_body env create rq u fingerprint w =
     (let p = current_policy env w; client_ip = effective_client_ip p (rq_headers rq) in
      case existing_session_for_credential env rq fingerprint w of
        (Inl e, w1) \<Rightarrow> (Inl e, w1)
      | (Inr (Some r), w1) \<Rightarrow> check_session env rq u client_ip p r w1
      | (Inr None, w1) \<Rightarrow>
          if \<not> create then (Inl invalid_state, w1)
          else (let (r, w2) = create_session env rq u fingerprint client_ip p w1 in check_session env rq u client_ip p r w2))"

definition ensure_request_session :: "session_env \<Rightarrow> bool \<Rightarrow> session_request \<Rightarrow> session_world \<Rightarrow> session_trust session_result" where
  "ensure_request_session env create rq w = (case rq_user rq of
     None \<Rightarrow> (Inl (Session_Denied ''session_authentication_required''), w)
   | Some u \<Rightarrow>
       if \<not> us_authenticated u then (Inl (Session_Denied ''session_authentication_required''), w)
       else (case token_fingerprint env rq of
         Inl e \<Rightarrow> (Inl e, w)
       | Inr fingerprint \<Rightarrow> atomic (ensure_body env create rq u fingerprint) w))"

text \<open>\<open>SessionAuthenticated.has_permission\<close>, for a request Tactical has authenticated.\<close>

definition session_authenticated :: "session_env \<Rightarrow> session_request \<Rightarrow> session_world \<Rightarrow> bool session_result" where
  "session_authenticated env rq w = (case rq_user rq of
     None \<Rightarrow> (Inr False, w)
   | Some u \<Rightarrow>
       if \<not> us_authenticated u then (Inr False, w)
       else if request_knox_digest rq \<noteq> [] \<and> \<not> us_sso u \<and> \<not> us_totp u then (Inl (Session_Denied ''mfa_enrollment_required''), w)
       else (case ensure_request_session env True rq w of (Inl e, w') \<Rightarrow> (Inl e, w') | (Inr _, w') \<Rightarrow> (Inr True, w')))"

definition activity_body :: "session_env \<Rightarrow> nat \<Rightarrow> session_world \<Rightarrow> session_trust session_result" where
  "activity_body env pk w = (case get_trust w pk of
     None \<Rightarrow> (Inl (Session_Uncaught KeyError), w)
   | Some r \<Rightarrow>
       (let p = current_policy env w in
        if tr_revoked r then (Inl (Session_Denied ''session_revoked''), w)
        else (case expiry_refusal p (se_now env) r of
          Some (reason, event) \<Rightarrow> (Inl (Session_Denied event), revoke_locked env r reason [] event True w)
        | None \<Rightarrow>
            (let put = (\<lambda>q. q\<lparr>tr_activity := se_now env, tr_seen := se_now env, tr_absolute := tr_created r + mins (po_absolute p),
                  tr_idle := se_now env + mins (po_idle p), tr_updated := se_now env\<rparr>) in
             (Inr (put r), upd_trust pk put w)))))"

definition record_activity :: "session_env \<Rightarrow> session_request \<Rightarrow> session_world \<Rightarrow> session_trust session_result" where
  "record_activity env rq w = (case ensure_request_session env True rq w of
     (Inl e, w') \<Rightarrow> (Inl e, w')
   | (Inr r, w') \<Rightarrow> atomic (activity_body env (tr_id r)) w')"

text \<open>\<open>record_terminal_activity\<close>: the reason the sign-in does not hold, or none. It returns instead of raising, so what it
  writes stays.\<close>

definition terminal_checks :: "session_env \<Rightarrow> moment option \<Rightarrow> session_trust \<Rightarrow> session_world \<Rightarrow> string option \<times> session_world" where
  "terminal_checks env activity_at r w =
     (let p = current_policy env w; now = se_now env; idle_of = (\<lambda>t. t + mins (po_idle p));
          idle_out = (\<lambda>v. (Some ''session_idle_timeout'', revoke_locked env r ''idle-timeout'' [] ''session_idle_timeout'' True v)) in
      if tr_created r + mins (po_absolute p) \<le> now
      then (Some ''session_expired'', revoke_locked env r ''absolute-timeout'' [] ''session_absolute_timeout'' True w)
      else (case activity_at of
        None \<Rightarrow> if idle_of (tr_activity r) \<le> now then idle_out w else (None, w)
      | Some typed \<Rightarrow>
          (let input_at = min typed now in
           if idle_of (tr_activity r) \<le> input_at then idle_out w
           else if tr_activity r < input_at
           then (let w1 = upd_trust (tr_id r) (\<lambda>q. q\<lparr>tr_activity := input_at, tr_seen := max input_at (tr_seen r),
                      tr_absolute := tr_created r + mins (po_absolute p), tr_idle := idle_of input_at, tr_updated := now\<rparr>) w in
                 if idle_of input_at \<le> now then idle_out w1 else (None, w1))
           else if idle_of (tr_activity r) \<le> now then idle_out w else (None, w))))"

definition terminal_body :: "session_env \<Rightarrow> nat \<Rightarrow> nat \<Rightarrow> string \<Rightarrow> moment option \<Rightarrow> session_world \<Rightarrow> string option session_result" where
  "terminal_body env pk user_id digest activity_at w = (case get_trust w pk of
     None \<Rightarrow> (Inr (Some ''session_revoked''), w)
   | Some r \<Rightarrow>
       if tr_revoked r \<or> tr_user r \<noteq> user_id then (Inr (Some ''session_revoked''), w)
       else if tr_digest r = [] \<or> digest = [] then (Inr (Some ''credential_unavailable''), w)
       else (case compare_digest (tr_digest r) digest of
         Inl e \<Rightarrow> (Inl e, w)
       | Inr same \<Rightarrow> if \<not> same then (Inr (Some ''credential_unavailable''), w)
           else (case terminal_checks env activity_at r w of (answer, w') \<Rightarrow> (Inr answer, w'))))"

definition record_terminal_activity :: "session_env \<Rightarrow> nat \<Rightarrow> nat \<Rightarrow> string \<Rightarrow> moment option \<Rightarrow> session_world \<Rightarrow> string option session_result" where
  "record_terminal_activity env pk user_id digest activity_at w = atomic (terminal_body env pk user_id digest activity_at) w"

section \<open>Administration\<close>

definition revoke_session :: "session_env \<Rightarrow> nat \<Rightarrow> string \<Rightarrow> string \<Rightarrow> session_world \<Rightarrow> unit session_result" where
  "revoke_session env pk reason requested_by w = (case get_trust w pk of
     None \<Rightarrow> (Inl (Session_Uncaught KeyError), w)
   | Some r \<Rightarrow> (Inr (), revoke_locked env r reason requested_by ''session_revoked'' True w))"

definition revoke_rows :: "session_env \<Rightarrow> string \<Rightarrow> string \<Rightarrow> bool \<Rightarrow> session_trust list \<Rightarrow> session_world \<Rightarrow> session_world" where
  "revoke_rows env reason requested_by invalidate rows w =
     fold (\<lambda>r. revoke_locked env r reason requested_by ''session_revoked'' invalidate) rows w"

definition revoke_user_sessions :: "session_env \<Rightarrow> string \<Rightarrow> nat option \<Rightarrow> string \<Rightarrow> string \<Rightarrow> session_world \<Rightarrow> nat session_result" where
  "revoke_user_sessions env name except_id reason requested_by w =
     (let username = strip name in
      if username = [] then (Inl (Session_Error ''username is required.''), w)
      else (let open_rows = filter (\<lambda>r. tr_username r = username \<and> \<not> tr_revoked r) (sn_rows w);
                keep = (case except_id of None \<Rightarrow> [] | Some pk \<Rightarrow> (case find (\<lambda>r. tr_id r = pk) open_rows of None \<Rightarrow> [] | Some r \<Rightarrow> tr_digest r));
                rows = filter (\<lambda>r. except_id \<noteq> Some (tr_id r)) open_rows;
                w1 = revoke_rows env reason requested_by False rows w;
                w2 = delete_tokens (\<lambda>t. token_username env t = Some username \<and> (keep = [] \<or> kt_digest t \<noteq> keep)) w1;
                w3 = (if rows = [] then w2 else add_audit env (session_audit_row env ''user_sessions_revoked'' None username reason requested_by
                        [(''count'', PInt (int (length rows))), (''session_ids'', PList (map (PStr \<circ> show_nat \<circ> tr_id) rows))]) (current_policy env w2) False w2) in
            (Inr (length rows), w3)))"

definition active_knox_tokens :: "session_env \<Rightarrow> session_world \<Rightarrow> knox_token list" where
  "active_knox_tokens env w = sort_key (\<lambda>t. - kt_created t)
     (filter (\<lambda>t. case kt_expiry t of None \<Rightarrow> False | Some e \<Rightarrow> se_now env < e) (sn_tokens w))"

definition find_active_knox_token :: "session_env \<Rightarrow> string \<Rightarrow> session_world \<Rightarrow> knox_token option" where
  "find_active_knox_token env session_ref w = (let target = lower (strip session_ref) in
     if length target \<noteq> 64 then None else find (\<lambda>t. se_login_ref env (kt_digest t) = target) (active_knox_tokens env w))"

definition username_or_blank :: "session_env \<Rightarrow> knox_token \<Rightarrow> string" where
  "username_or_blank env t = (case token_username env t of None \<Rightarrow> [] | Some n \<Rightarrow> n)"

definition revoke_active_login_session :: "session_env \<Rightarrow> string \<Rightarrow> string \<Rightarrow> string \<Rightarrow> session_user option \<Rightarrow> session_world \<Rightarrow> string session_result" where
  "revoke_active_login_session env session_ref reason requested_by requester w = (case find_active_knox_token env session_ref w of
     None \<Rightarrow> (Inl (Session_Error ''Active login session was not found.''), w)
   | Some t \<Rightarrow>
       if \<not> can_administer_login_target (se_root_user env) requester (se_user env (kt_user t)) then (Inl Session_Forbidden, w)
       else (let rows = filter (\<lambda>r. tr_digest r = kt_digest t \<and> \<not> tr_revoked r) (sn_rows w);
                 w1 = delete_tokens (\<lambda>q. kt_digest q = kt_digest t) (revoke_rows env reason requested_by True rows w) in
             (Inr (username_or_blank env t), add_audit env (session_audit_row env ''tactical_login_session_revoked'' None (username_or_blank env t) reason requested_by
                [(''session_ref'', PStr session_ref), (''tec_tac_sessions'', PInt (int (length rows)))]) (current_policy env w1) False w1)))"

definition revoke_user_login_sessions :: "session_env \<Rightarrow> nat \<Rightarrow> string \<Rightarrow> string \<Rightarrow> session_user option \<Rightarrow> session_world \<Rightarrow> nat session_result" where
  "revoke_user_login_sessions env user_id reason requested_by requester w =
     (if \<not> can_administer_login_target (se_root_user env) requester (se_user env user_id) then (Inl Session_Forbidden, w)
      else (case filter (\<lambda>t. kt_user t = user_id) (active_knox_tokens env w) of
        [] \<Rightarrow> (Inr 0, w)
      | t # ts \<Rightarrow>
          (let digests = map kt_digest (t # ts); rows = filter (\<lambda>r. tr_digest r \<in> set digests \<and> \<not> tr_revoked r) (sn_rows w);
               w1 = delete_tokens (\<lambda>q. kt_digest q \<in> set digests) (revoke_rows env reason requested_by True rows w) in
           (Inr (length (t # ts)), add_audit env (session_audit_row env ''tactical_user_sessions_revoked'' None (username_or_blank env t) reason requested_by
              [(''user_id'', PInt (int user_id)), (''count'', PInt (int (length (t # ts))))]) (current_policy env w1) False w1))))"

record revoke_all_counts =
  ra_tokens :: nat
  ra_sessions :: nat
  ra_users :: nat
  ra_current_kept :: bool

definition spared :: "string \<Rightarrow> nat option \<Rightarrow> session_trust \<Rightarrow> bool" where
  "spared keep keep_pk r = (keep \<noteq> [] \<and> (tr_digest r = keep \<or> keep_pk = Some (tr_id r)))"

text \<open>The transaction of \<open>revoke_all_login_sessions\<close>; the Core audit row is written last and strictly.\<close>

definition revoke_all_body :: "session_env \<Rightarrow> string \<Rightarrow> string \<Rightarrow> bool \<Rightarrow> string \<Rightarrow> nat option \<Rightarrow> session_world \<Rightarrow> revoke_all_counts session_result" where
  "revoke_all_body env reason requested_by include_current keep keep_pk w =
     (let open_rows = filter (\<lambda>r. \<not> tr_revoked r) (sn_rows w);
          rows = filter (\<lambda>r. \<not> spared keep keep_pk r) open_rows;
          w1 = revoke_rows env reason requested_by False rows w;
          ended = filter (\<lambda>t. keep = [] \<or> kt_digest t \<noteq> keep) (sn_tokens w1);
          w2 = delete_tokens (\<lambda>t. keep = [] \<or> kt_digest t \<noteq> keep) w1;
          counts = \<lparr>ra_tokens = length ended, ra_sessions = length rows, ra_users = length (dedup (map kt_user ended)),
            ra_current_kept = (keep \<noteq> [] \<and> list_ex (\<lambda>t. kt_digest t = keep) (sn_tokens w2) \<and> list_ex (spared keep keep_pk) open_rows)\<rparr>;
          w3 = add_audit env (session_audit_row env ''all_login_sessions_revoked'' None [] reason requested_by
            [(''tokens'', PInt (int (ra_tokens counts))), (''users'', PInt (int (ra_users counts))), (''tec_tac_sessions'', PInt (int (length rows))),
             (''include_current'', PBool include_current), (''current_kept'', PBool (ra_current_kept counts))]) (current_policy env w2) True w2 in
      if se_audit_ok env then (Inr counts, w3) else (Inl (Session_Error ''audit''), w3))"

definition revoke_all_login_sessions ::
    "session_env \<Rightarrow> string \<Rightarrow> string \<Rightarrow> session_user option \<Rightarrow> bool \<Rightarrow> string \<Rightarrow> nat option \<Rightarrow> session_world \<Rightarrow> revoke_all_counts session_result" where
  "revoke_all_login_sessions env reason requested_by requester include_current current_digest current_pk w =
     (if \<not> effective_superuser (se_root_user env) requester then (Inl Session_Forbidden, w)
      else (let keep = (if include_current then [] else current_digest); keep_pk = (if keep = [] then None else current_pk) in
            atomic (revoke_all_body env (take 255 (if reason = [] then ''administrator-request'' else reason)) requested_by include_current keep keep_pk) w))"

section \<open>The tick: expiry sweep and history cleanup\<close>

definition expiry_verdict :: "session_policy \<Rightarrow> moment \<Rightarrow> session_trust \<Rightarrow> (string \<times> string) option" where
  "expiry_verdict p now r =
     (if tr_created r + mins (po_absolute p) \<le> now then Some (''absolute-timeout'', ''session_absolute_timeout'')
      else if tr_activity r + mins (po_idle p) \<le> now then Some (''idle-timeout'', ''session_idle_timeout'')
      else None)"

definition past_cutoff :: "session_policy \<Rightarrow> moment \<Rightarrow> session_trust \<Rightarrow> bool" where
  "past_cutoff p now r = (tr_created r \<le> now - mins (po_absolute p) \<or> tr_activity r \<le> now - mins (po_idle p))"

definition sweep_one :: "session_env \<Rightarrow> session_policy \<Rightarrow> nat \<Rightarrow> session_world \<Rightarrow> session_world" where
  "sweep_one env p pk w = (case find (\<lambda>r. tr_id r = pk \<and> \<not> tr_revoked r) (sn_rows w) of
     None \<Rightarrow> w
   | Some r \<Rightarrow>
       if se_locked env pk \<or> tr_digest r = [] then w
       else (case expiry_verdict p (se_now env) r of
         None \<Rightarrow> w
       | Some (reason, event) \<Rightarrow> revoke_locked env r reason ''tec-tac-scheduler'' event True w))"

definition sweep_candidates :: "session_env \<Rightarrow> session_policy \<Rightarrow> session_world \<Rightarrow> session_trust list" where
  "sweep_candidates env p w = sort_key tr_created (filter (\<lambda>r. \<not> tr_revoked r \<and> tr_digest r \<noteq> [] \<and> past_cutoff p (se_now env) r) (sn_rows w))"

definition orphan_digests :: "nat \<Rightarrow> session_world \<Rightarrow> string list" where
  "orphan_digests limit w = take limit (map kt_digest (filter (\<lambda>t. list_ex (\<lambda>r. tr_revoked r \<and> tr_digest r \<noteq> [] \<and> tr_digest r = kt_digest t) (sn_rows w)) (sn_tokens w)))"

definition sweep_expired_sessions :: "session_env \<Rightarrow> int \<Rightarrow> session_world \<Rightarrow> session_world" where
  "sweep_expired_sessions env limit w =
     (let n = nat (max 1 limit); p = current_policy env w;
          w1 = fold (sweep_one env p) (map tr_id (take n (sweep_candidates env p w))) w in
      delete_tokens (\<lambda>t. kt_digest t \<in> set (orphan_digests n w1)) w1)"

definition live_token :: "moment \<Rightarrow> knox_token \<Rightarrow> bool" where
  "live_token now t = (case kt_expiry t of None \<Rightarrow> True | Some e \<Rightarrow> now < e)"

definition active_non_knox_credential_fingerprints :: "session_env \<Rightarrow> string list option" where
  "active_non_knox_credential_fingerprints env = (case (se_api_keys env, se_django_sessions env) of
     (Some ks, Some ss) \<Rightarrow> Some (map (\<lambda>k. se_hmac env (''api-key:'' @ show_nat k)) ks @ map (\<lambda>s. se_hmac env (''django-session:'' @ s)) ss)
   | _ \<Rightarrow> None)"

definition revoked_tombstone_is_live :: "session_env \<Rightarrow> session_world \<Rightarrow> session_trust \<Rightarrow> bool" where
  "revoked_tombstone_is_live env w r =
     (if tr_digest r \<noteq> [] then list_ex (\<lambda>t. kt_digest t = tr_digest r \<and> live_token (se_now env) t) (sn_tokens w)
      else if strip (tr_username r) \<noteq> [] \<and> list_ex (\<lambda>t. token_username env t = Some (strip (tr_username r)) \<and> live_token (se_now env) t) (sn_tokens w)
      then True
      else (case active_non_knox_credential_fingerprints env of None \<Rightarrow> True | Some fs \<Rightarrow> tr_fingerprint r \<in> set fs))"

text \<open>Deleting a trust row clears the reference of its audit rows.\<close>

definition delete_trusts :: "(session_trust \<Rightarrow> bool) \<Rightarrow> session_world \<Rightarrow> session_world" where
  "delete_trusts p w = (let gone = map tr_id (filter p (sn_rows w)) in
     w\<lparr>sn_rows := filter (\<lambda>r. \<not> p r) (sn_rows w),
       sn_audit := map (\<lambda>a. if (case au_session a of None \<Rightarrow> False | Some i \<Rightarrow> i \<in> set gone) then a\<lparr>au_session := None\<rparr> else a) (sn_audit w)\<rparr>)"

definition days :: "int \<Rightarrow> moment" where
  "days n = n * day_us"

definition stale_unrevoked :: "moment \<Rightarrow> session_trust \<Rightarrow> bool" where
  "stale_unrevoked cutoff r = (\<not> tr_revoked r \<and> (tr_absolute r < cutoff \<or> tr_idle r < cutoff))"

definition old_tombstone :: "moment \<Rightarrow> session_trust \<Rightarrow> bool" where
  "old_tombstone cutoff r = (tr_revoked r \<and> (case tr_revoked_at r of Some t \<Rightarrow> t < cutoff | None \<Rightarrow> tr_updated r < cutoff))"

definition cleanup_session_history :: "session_env \<Rightarrow> int option \<Rightarrow> session_world \<Rightarrow> unit session_result" where
  "cleanup_session_history env retention_days w =
     (let n = (case retention_days of None \<Rightarrow> sg_retention (sn_config w) | Some d \<Rightarrow> d) in
      if n < 1 \<or> 3650 < n then (Inl (Session_Error ''retention_days must be between 1 and 3650.''), w)
      else (let cutoff = se_now env - days n;
                digests = filter (\<lambda>d. d \<noteq> []) (map tr_digest (filter (stale_unrevoked cutoff) (sn_rows w)));
                w1 = delete_trusts (stale_unrevoked cutoff) (delete_tokens (\<lambda>t. kt_digest t \<in> set digests) w);
                w2 = delete_trusts (\<lambda>r. old_tombstone cutoff r \<and> \<not> revoked_tombstone_is_live env w1 r) w1 in
            (Inr (), w2\<lparr>sn_audit := filter (\<lambda>a. \<not> au_created a < cutoff) (sn_audit w2)\<rparr>)))"

definition cleanup_session_history_if_due :: "session_env \<Rightarrow> session_world \<Rightarrow> bool session_result" where
  "cleanup_session_history_if_due env w =
     (if (case sg_last_cleanup (sn_config w) of None \<Rightarrow> False | Some last_run \<Rightarrow> se_now env - days 1 < last_run) then (Inr False, w)
      else (case cleanup_session_history env None w of
        (Inl e, w') \<Rightarrow> (Inl e, w')
      | (Inr _, w') \<Rightarrow> (Inr True, w'\<lparr>sn_config := (sn_config w')\<lparr>sg_last_cleanup := Some (se_now env)\<rparr>\<rparr>)))"

section \<open>Policy changes and the theme\<close>

definition policy_json :: "session_policy \<Rightarrow> pyval" where
  "policy_json p = PDict [(''idle_timeout_minutes'', PInt (po_idle p)), (''absolute_lifetime_minutes'', PInt (po_absolute p)),
     (''ip_change_policy'', PStr (po_ip_change p)), (''session_audit_enabled'', PBool (po_audit p)), (''activity_heartbeat_seconds'', PInt (po_heartbeat p)),
     (''history_retention_days'', PInt (po_retention p)), (''trusted_proxies'', PList (map PStr (po_proxies p)))]"

definition update_global_policy :: "session_env \<Rightarrow> pyval \<Rightarrow> string \<Rightarrow> session_world \<Rightarrow> session_policy session_result" where
  "update_global_policy env policy requested_by w = (case policy of
     PDict d \<Rightarrow> (case policy_fields (se_local env) d (sn_config w) of
         Inl e \<Rightarrow> (Inl e, w)
       | Inr (c, touched) \<Rightarrow>
           if touched = [] then (Inr (current_policy env w), w)
           else (let w1 = w\<lparr>sn_config := c\<lparr>sg_updated_by := take 150 requested_by\<rparr>\<rparr>; after = current_policy env w1 in
             (Inr after, add_audit env (session_audit_row env ''session_policy_changed'' None [] ''global-session-policy-update'' requested_by
                [(''before'', policy_json (current_policy env w)), (''after'', policy_json after), (''fields'', PList (map PStr (sort (dedup touched))))]) after True w1)))
   | _ \<Rightarrow> (Inl (Session_Error ''policy must be an object.''), w))"

definition session_themes :: "string list" where
  "session_themes = [''dark'', ''light'', ''high-contrast'']"

definition session_theme_of :: "session_trust \<Rightarrow> string option" where
  "session_theme_of r = (if tr_theme r \<in> set session_themes then Some (tr_theme r) else None)"

definition set_session_theme :: "nat \<Rightarrow> pyval \<Rightarrow> session_world \<Rightarrow> unit session_result" where
  "set_session_theme pk theme w =
     (let put = (\<lambda>t. upd_trust pk (\<lambda>r. if tr_revoked r then r else r\<lparr>tr_theme := t\<rparr>) w);
          refused = (Inl (Session_Error ''theme must be one of: dark, high-contrast, light.''), w) in
      case theme of PNone \<Rightarrow> (Inr (), put []) | PStr t \<Rightarrow> if t \<in> set session_themes then (Inr (), put t) else refused | _ \<Rightarrow> refused)"

end
