(* ===== verification/Session_Guarantees.thy ===== *)
theory Session_Guarantees
  imports Session_Trust
begin

text \<open>
  What the session guard promises: an accepted request is within the policy; a revoked credential never comes back while its
  token could still sign in; the sweep ends every expired session; ending all sessions is complete; protected logins are safe
  from account administrators; a client cannot choose its own address. And what it does not do: a request that is refused for a
  changed address leaves the session alive, because the refusal rolls its own revocation back.
\<close>

section \<open>Rows and transactions\<close>

lemma atomic_Inr: "atomic f w = (Inr x, w') \<longleftrightarrow> f w = (Inr x, w')"
  by (auto simp: atomic_def split: prod.splits sum.splits)

lemma atomic_Inl: "atomic f w = (Inl e, w') \<Longrightarrow> w' = w"
  by (auto simp: atomic_def split: prod.splits sum.splits)

text \<open>Row ids are unique and below the next one.\<close>

definition trust_ids :: "session_world \<Rightarrow> bool" where
  "trust_ids w = (distinct (map tr_id (sn_rows w)) \<and> (\<forall>r \<in> set (sn_rows w). tr_id r < sn_next w))"

definition tombstone :: "string \<Rightarrow> session_world \<Rightarrow> bool" where
  "tombstone d w = (\<exists>r \<in> set (sn_rows w). tr_revoked r \<and> tr_digest r = d)"

text \<open>What no operation but the history cleanup breaks: ids stay unique, tombstones stay, and no token appears.\<close>

definition keeps_out :: "session_world \<Rightarrow> session_world \<Rightarrow> bool" where
  "keeps_out w w' = (trust_ids w \<longrightarrow> trust_ids w' \<and> (\<forall>d. d \<noteq> [] \<and> tombstone d w \<longrightarrow> tombstone d w') \<and> set (sn_tokens w') \<subseteq> set (sn_tokens w))"

named_theorems keeps_intros

lemma keeps_out_refl [simp, keeps_intros]: "keeps_out w w"
  by (simp add: keeps_out_def)

lemma keeps_out_trans [trans]: "keeps_out u v \<Longrightarrow> keeps_out v w \<Longrightarrow> keeps_out u w"
  by (auto simp: keeps_out_def)

lemma keeps_out_fields:
  assumes "sn_rows w' = sn_rows w" "sn_next w' = sn_next w" "set (sn_tokens w') \<subseteq> set (sn_tokens w)"
  shows "keeps_out w w'"
  using assms by (simp add: keeps_out_def trust_ids_def tombstone_def)

lemma keeps_delete_tokens [keeps_intros]: "keeps_out w (delete_tokens p w)"
  by (rule keeps_out_fields) (auto simp: delete_tokens_def)

lemma keeps_add_audit [keeps_intros]: "keeps_out w (add_audit env a p f w)"
  by (rule keeps_out_fields) (auto simp: add_audit_def)

lemma trust_at:
  assumes "trust_ids w" "r \<in> set (sn_rows w)" "q \<in> set (sn_rows w)" "tr_id q = tr_id r"
  shows "q = r"
  using assms by (auto simp: trust_ids_def distinct_map inj_on_def)

text \<open>A change of columns keeps tombstones when it never takes a revocation back and binds a digest only where there is none.\<close>

lemma keeps_upd:
  assumes "\<And>q. tr_id (f q) = tr_id q"
    and "\<And>q. trust_ids w \<Longrightarrow> q \<in> set (sn_rows w) \<Longrightarrow> tr_id q = pk \<Longrightarrow> tr_revoked q \<Longrightarrow> tr_revoked (f q) \<and> (tr_digest q \<noteq> [] \<longrightarrow> tr_digest (f q) = tr_digest q)"
  shows "keeps_out w (upd_trust pk f w)"
  unfolding keeps_out_def
proof (intro impI conjI allI)
  assume ids: "trust_ids w"
  have "map tr_id (sn_rows (upd_trust pk f w)) = map tr_id (sn_rows w)" using assms(1) by (simp add: upd_trust_def)
  moreover have "tr_id r < sn_next w" if "r \<in> set (sn_rows (upd_trust pk f w))" for r
    using that ids assms(1) by (auto simp: upd_trust_def trust_ids_def)
  ultimately show "trust_ids (upd_trust pk f w)" using ids by (simp add: trust_ids_def) (simp add: upd_trust_def)
  show "tombstone d (upd_trust pk f w)" if d: "d \<noteq> [] \<and> tombstone d w" for d
  proof -
    obtain r where r: "r \<in> set (sn_rows w)" "tr_revoked r" "tr_digest r = d" using d by (auto simp: tombstone_def)
    let ?r = "if tr_id r = pk then f r else r"
    have "?r \<in> set (sn_rows (upd_trust pk f w))" using r(1) by (auto simp: upd_trust_def)
    moreover have "tr_revoked ?r \<and> tr_digest ?r = d" using r assms(2) [OF ids r(1)] d by auto
    ultimately show ?thesis unfolding tombstone_def by blast
  qed
qed (simp add: upd_trust_def)

lemma keeps_plain_upd:
  "(\<And>q. tr_id (f q) = tr_id q \<and> tr_digest (f q) = tr_digest q \<and> (tr_revoked q \<longrightarrow> tr_revoked (f q))) \<Longrightarrow> keeps_out w (upd_trust pk f w)"
  by (rule keeps_upd) auto

section \<open>Every operation keeps tombstones\<close>

lemma keeps_invalidate: "keeps_out w (invalidate_knox_for_session env r w)"
  by (simp add: invalidate_knox_for_session_def keeps_delete_tokens)

lemma keeps_revoke [keeps_intros]: "keeps_out w (revoke_locked env r reason who event kill w)"
proof (cases "tr_revoked r")
  case False
  let ?f = "\<lambda>q. q\<lparr>tr_revoked := True, tr_revoked_at := Some (se_now env), tr_revoked_by := take 150 who,
      tr_reason := take 255 (if reason = [] then ''revoked'' else reason), tr_updated := se_now env\<rparr>"
  let ?w1 = "upd_trust (tr_id r) ?f w"
  let ?w2 = "if kill then invalidate_knox_for_session env r ?w1 else ?w1"
  have "keeps_out w ?w1" by (rule keeps_plain_upd) simp
  also have "keeps_out ?w1 ?w2" using keeps_invalidate by simp
  also have "keeps_out ?w2 (revoke_locked env r reason who event kill w)"
    using False by (simp add: revoke_locked_def Let_def keeps_add_audit del: if_split)
  finally show ?thesis .
qed (simp add: revoke_locked_def)

lemma keeps_fold: "(\<And>x v. keeps_out v (f x v)) \<Longrightarrow> keeps_out w (fold f xs w)"
proof (induction xs arbitrary: w)
  case (Cons x xs)
  show ?case using keeps_out_trans [OF Cons.prems Cons.IH [OF Cons.prems]] by simp
qed simp

lemma keeps_revoke_rows [keeps_intros]: "keeps_out w (revoke_rows env reason who kill rows w)"
  unfolding revoke_rows_def by (rule keeps_fold) (rule keeps_revoke)

lemma get_trust_Some: "get_trust w pk = Some r \<Longrightarrow> r \<in> set (sn_rows w) \<and> tr_id r = pk"
  by (auto simp: get_trust_def find_Some_iff)

lemma keeps_bind:
  assumes "bind_knox_digest r d = Inr (Some d')" and "r \<in> set (sn_rows w)" and "\<And>q. tr_id (f q) = tr_id q \<and> (tr_revoked q \<longrightarrow> tr_revoked (f q))"
  shows "keeps_out w (upd_trust (tr_id r) f w)"
proof (rule keeps_upd)
  have "tr_digest r = []"
    using assms(1) by (auto simp: bind_knox_digest_def compare_digest_def split: if_splits)
  then show "tr_revoked (f q) \<and> (tr_digest q \<noteq> [] \<longrightarrow> tr_digest (f q) = tr_digest q)"
    if "trust_ids w" "q \<in> set (sn_rows w)" "tr_id q = tr_id r" "tr_revoked q" for q
    using trust_at [OF that(1) assms(2) that(2,3)] that(4) assms(3) by simp
qed (use assms(3) in simp)

lemma find_hit: "find P xs = Some x \<Longrightarrow> x \<in> set xs \<and> P x"
  by (induction xs) (auto split: if_splits)

lemma find_ex: "x \<in> set xs \<Longrightarrow> P x \<Longrightarrow> \<exists>y. find P xs = Some y"
  by (induction xs) auto

lemma set_digest_rows [simp]: "set (digest_rows w d) = {r \<in> set (sn_rows w). tr_digest r = d}"
  by (auto simp: digest_rows_def)

lemma lookup_rows:
  "find P (digest_rows v d) = Some q \<Longrightarrow> q \<in> set (sn_rows v)"
  "digest_rows v d = q # qs \<Longrightarrow> q \<in> set (sn_rows v)"
  "fingerprint_row v g = Some q \<Longrightarrow> q \<in> set (sn_rows v)"
  using set_digest_rows [of v d] by (auto simp: fingerprint_row_def dest: find_hit)

lemma upd_hit: "r \<in> set (sn_rows w) \<Longrightarrow> f r \<in> set (sn_rows (upd_trust (tr_id r) f w))"
  by (auto simp: upd_trust_def image_iff intro!: bexI [of _ r])

lemma existing_found:
  assumes "existing_session_for_credential env rq f w = (Inr (Some r), w')"
  shows "r \<in> set (sn_rows w') \<and> keeps_out w w'"
proof -
  have bound: "r \<in> set (sn_rows w') \<and> keeps_out w w'"
    if "fingerprint_row w g = Some p" "bind_knox_digest p d = Inr (Some d')" "r = p\<lparr>tr_digest := d', tr_updated := t\<rparr>"
      "w' = upd_trust (tr_id p) (\<lambda>q. q\<lparr>tr_digest := d', tr_updated := t\<rparr>) w" for g p d d' t
    unfolding that(3,4) using upd_hit [OF lookup_rows(3) [OF that(1)]] keeps_bind [OF that(2) lookup_rows(3) [OF that(1)]] by auto
  show ?thesis
    using assms unfolding existing_session_for_credential_def Let_def
    by (auto split: option.splits if_splits list.splits sum.splits prod.splits dest: lookup_rows bound)
qed

lemma existing_row:
  assumes "existing_session_for_credential env rq f w = (Inr (Some r), w')" and "trust_ids w" and "q \<in> set (sn_rows w)" and "tr_id q = tr_id r"
  shows "tr_last_ip q = tr_last_ip r"
proof -
  have "\<exists>p \<in> set (sn_rows w). tr_id p = tr_id r \<and> tr_last_ip p = tr_last_ip r"
    using assms(1) unfolding existing_session_for_credential_def Let_def
    by (auto split: option.splits if_splits list.splits sum.splits prod.splits dest: lookup_rows)
  then show ?thesis using trust_at [OF assms(2) _ assms(3)] assms(4) by fastforce
qed

lemma existing_none: "existing_session_for_credential env rq f w = (Inr None, w') \<Longrightarrow> w' = w"
  unfolding existing_session_for_credential_def Let_def
  by (auto split: option.splits if_splits list.splits sum.splits prod.splits)

lemma keeps_create:
  assumes "create_session env rq u f ip p w = (r, w')"
  shows "keeps_out w w'" "r \<in> set (sn_rows w')" "\<not> tr_revoked r" "trust_ids w \<Longrightarrow> tr_id r \<notin> tr_id ` set (sn_rows w)"
    "r = new_trust env rq u f ip p (sn_next w)"
proof -
  let ?v = "w\<lparr>sn_rows := sn_rows w @ [r], sn_next := Suc (sn_next w)\<rparr>"
  have r: "r = new_trust env rq u f ip p (sn_next w)" and w': "\<exists>a. w' = add_audit env a p False ?v"
    using assms by (auto simp: create_session_def Let_def)
  have id: "tr_id r = sn_next w" using r by (simp add: new_trust_def)
  then have "keeps_out w ?v" by (auto simp: keeps_out_def trust_ids_def tombstone_def)
  then show "keeps_out w w'" using w' keeps_out_trans keeps_add_audit by blast
  show "r \<in> set (sn_rows w')" using w' by (auto simp: add_audit_def)
  show "\<not> tr_revoked r" using r by (simp add: new_trust_def)
  show "tr_id r \<notin> tr_id ` set (sn_rows w)" if "trust_ids w" using that id by (auto simp: trust_ids_def)
  show "r = new_trust env rq u f ip p (sn_next w)" by (rule r)
qed

lemma keeps_touch:
  assumes "touch_session env rq ip p r w = (x, w')" and "r \<in> set (sn_rows w)"
  shows "keeps_out w w'"
proof (cases "bind_knox_digest r (request_knox_digest rq)")
  case (Inr bound)
  show ?thesis
  proof (cases bound)
    case None
    then have "\<exists>f. w' = upd_trust (tr_id r) f w \<and> (\<forall>q. tr_id (f q) = tr_id q \<and> tr_digest (f q) = tr_digest q \<and> (tr_revoked q \<longrightarrow> tr_revoked (f q)))"
      using assms(1) Inr by (auto simp: touch_session_def Let_def)
    then show ?thesis using keeps_plain_upd by blast
  next
    case (Some d)
    then have "\<exists>f. w' = upd_trust (tr_id r) f w \<and> (\<forall>q. tr_id (f q) = tr_id q \<and> (tr_revoked q \<longrightarrow> tr_revoked (f q)))"
      using assms(1) Inr by (auto simp: touch_session_def Let_def)
    then show ?thesis using keeps_bind [OF Inr [unfolded Some] assms(2)] by blast
  qed
qed (use assms in \<open>simp add: touch_session_def\<close>)

lemma keeps_ip_event: "keeps_out w (ip_change_event env r ip p w)" "sn_rows (ip_change_event env r ip p w) = sn_rows w"
  by (simp_all add: ip_change_event_def keeps_add_audit) (simp add: add_audit_def)

lemma check_granted:
  assumes "check_session env rq u ip p r w = (Inr r', w')" and "r \<in> set (sn_rows w)"
  shows "keeps_out w w'" "\<not> tr_revoked r" "tr_user r = us_pk u" "tr_username r = us_username u" "expiry_refusal p (se_now env) r = None"
    "\<exists>v last_ip. (v = w \<or> v = ip_change_event env r ip p w) \<and> touch_session env rq last_ip p r v = (Inr r', w') \<and>
       (last_ip = tr_last_ip r \<and> (ip = [] \<or> tr_last_ip r = [] \<or> ip = tr_last_ip r) \<or>
        last_ip = ip \<and> po_ip_change p \<notin> {''reauthenticate'', ''terminate''})"
proof -
  show "\<not> tr_revoked r" "tr_user r = us_pk u" "tr_username r = us_username u" "expiry_refusal p (se_now env) r = None"
    using assms(1) by (auto simp: check_session_def Let_def split: if_splits option.splits)
  show t: "\<exists>v last_ip. (v = w \<or> v = ip_change_event env r ip p w) \<and> touch_session env rq last_ip p r v = (Inr r', w') \<and>
       (last_ip = tr_last_ip r \<and> (ip = [] \<or> tr_last_ip r = [] \<or> ip = tr_last_ip r) \<or>
        last_ip = ip \<and> po_ip_change p \<notin> {''reauthenticate'', ''terminate''})"
    using assms(1) by (auto simp: check_session_def Let_def split: if_splits option.splits)
  then obtain v last_ip where v: "v = w \<or> v = ip_change_event env r ip p w" and touch: "touch_session env rq last_ip p r v = (Inr r', w')" by blast
  have "keeps_out w v" and "sn_rows v = sn_rows w" using v keeps_ip_event by auto
  then show "keeps_out w w'" using keeps_touch [OF touch] assms(2) keeps_out_trans by metis
qed

lemma ensure_granted:
  assumes "ensure_request_session env c rq w = (Inr r', w')"
  obtains u f r v where "rq_user rq = Some u" "us_authenticated u" "token_fingerprint env rq = Inr f"
    "existing_session_for_credential env rq f w = (Inr (Some r), v) \<or>
     existing_session_for_credential env rq f w = (Inr None, w) \<and> create_session env rq u f (effective_client_ip (current_policy env w) (rq_headers rq)) (current_policy env w) w = (r, v)"
    "r \<in> set (sn_rows v)" "keeps_out w v"
    "check_session env rq u (effective_client_ip (current_policy env w) (rq_headers rq)) (current_policy env w) r v = (Inr r', w')"
proof -
  obtain u where u: "rq_user rq = Some u" "us_authenticated u" using assms by (auto simp: ensure_request_session_def split: option.splits if_splits)
  then obtain f where f: "token_fingerprint env rq = Inr f" using assms by (auto simp: ensure_request_session_def split: sum.splits)
  then have body: "ensure_body env c rq u f w = (Inr r', w')" using assms u by (simp add: ensure_request_session_def atomic_Inr)
  let ?p = "current_policy env w" let ?ip = "effective_client_ip ?p (rq_headers rq)"
  obtain x v where x: "existing_session_for_credential env rq f w = (x, v)" by fastforce
  consider (row) r where "x = Inr (Some r)" | (none) "x = Inr None" using body x by (cases x) (auto simp: ensure_body_def Let_def)
  then show ?thesis
  proof cases
    case row
    then have "check_session env rq u ?ip ?p r v = (Inr r', w')" using body x by (simp add: ensure_body_def Let_def)
    then show ?thesis using that u f row x existing_found by blast
  next
    case none
    then have v: "v = w" using existing_none x by blast
    obtain r v2 where cr: "create_session env rq u f ?ip ?p w = (r, v2)" by fastforce
    then have "check_session env rq u ?ip ?p r v2 = (Inr r', w')" using body x none v by (auto simp: ensure_body_def Let_def split: if_splits)
    then show ?thesis using that u f none x v cr keeps_create(1,2) [OF cr] by blast
  qed
qed

lemma keeps_ensure [keeps_intros]: "keeps_out w (snd (ensure_request_session env c rq w))"
proof (cases "fst (ensure_request_session env c rq w)")
  case (Inl e)
  then have "snd (ensure_request_session env c rq w) = w"
    by (auto simp: ensure_request_session_def atomic_def split: option.splits sum.splits prod.splits)
  then show ?thesis by simp
next
  case (Inr r')
  then have "ensure_request_session env c rq w = (Inr r', snd (ensure_request_session env c rq w))" by (simp add: prod_eq_iff)
  then show ?thesis by (rule ensure_granted) (metis check_granted(1) keeps_out_trans)
qed

lemma keeps_atomic: "(\<And>v. keeps_out v (snd (f v))) \<Longrightarrow> keeps_out w (snd (atomic f w))"
  using keeps_out_refl by (auto simp: atomic_def split: sum.splits prod.splits) (metis snd_conv)

lemma keeps_activity: "keeps_out w (snd (record_activity env rq w))"
proof -
  have body: "keeps_out v (snd (activity_body env pk v))" for v pk
    by (auto simp: activity_body_def Let_def keeps_revoke split: option.splits intro!: keeps_plain_upd)
  obtain x v where x: "ensure_request_session env True rq w = (x, v)" by fastforce
  then have v: "keeps_out w v" using keeps_ensure [of w env True rq] by simp
  show ?thesis
  proof (cases x)
    case (Inr r)
    have "keeps_out v (snd (atomic (activity_body env (tr_id r)) v))" by (rule keeps_atomic) (rule body)
    then show ?thesis using keeps_out_trans [OF v] x Inr by (simp add: record_activity_def)
  qed (use x v in \<open>simp add: record_activity_def\<close>)
qed

lemma keeps_terminal: "keeps_out w (snd (record_terminal_activity env pk u d at w))"
proof -
  have checks: "keeps_out v (snd (terminal_checks env at r v))" for v r
  proof -
    let ?f = "\<lambda>q. q\<lparr>tr_activity := t, tr_seen := s, tr_absolute := a, tr_idle := i, tr_updated := n\<rparr>"
    have upd: "keeps_out v (upd_trust (tr_id r) (\<lambda>q. q\<lparr>tr_activity := t, tr_seen := s, tr_absolute := a, tr_idle := i, tr_updated := n\<rparr>) v)" for t s a i n
      by (rule keeps_plain_upd) simp
    then have "keeps_out v (revoke_locked env r x y z k (upd_trust (tr_id r) (\<lambda>q. q\<lparr>tr_activity := t, tr_seen := s, tr_absolute := a, tr_idle := i, tr_updated := n\<rparr>) v))"
      for t s a i n x y z k using keeps_out_trans keeps_revoke by blast
    then show ?thesis using upd by (auto simp: terminal_checks_def Let_def keeps_revoke split: option.splits)
  qed
  show ?thesis unfolding record_terminal_activity_def
  proof (rule keeps_atomic)
    fix v
    show "keeps_out v (snd (terminal_body env pk u d at v))"
      using checks by (auto simp: terminal_body_def split: option.splits sum.splits prod.splits) (metis snd_conv)
  qed
qed

lemma keeps_revoke_delete: "keeps_out w (add_audit env a p f (delete_tokens q (revoke_rows env reason who kill rows w)))"
  by (meson keeps_out_trans keeps_revoke_rows keeps_delete_tokens keeps_add_audit)

lemma keeps_revoke_user: "keeps_out w (snd (revoke_user_sessions env n ex reason who w))"
proof -
  have "keeps_out w (delete_tokens q (revoke_rows env reason who False rows w))" for q rows
    by (meson keeps_out_trans keeps_revoke_rows keeps_delete_tokens)
  then show ?thesis using keeps_revoke_delete by (auto simp: revoke_user_sessions_def Let_def)
qed

lemma keeps_revoke_login: "keeps_out w (snd (revoke_active_login_session env ref reason who u w))"
  using keeps_revoke_delete by (auto simp: revoke_active_login_session_def Let_def split: option.splits)

lemma keeps_revoke_user_login: "keeps_out w (snd (revoke_user_login_sessions env i reason who u w))"
  using keeps_revoke_delete by (auto simp: revoke_user_login_sessions_def Let_def split: list.splits)

lemma keeps_revoke_all: "keeps_out w (snd (revoke_all_login_sessions env reason who u incl d pk w))"
proof -
  have "keeps_out v (snd (revoke_all_body env reason' who incl' keep keep_pk v))" for v reason' incl' keep keep_pk
    using keeps_revoke_delete by (simp add: revoke_all_body_def Let_def)
  then have "keeps_out w (snd (atomic (revoke_all_body env reason' who incl' keep keep_pk) w))" for reason' incl' keep keep_pk
    by (rule keeps_atomic)
  then show ?thesis by (simp add: revoke_all_login_sessions_def Let_def)
qed

lemma keeps_sweep: "keeps_out w (sweep_expired_sessions env limit w)"
proof -
  have "keeps_out v (sweep_one env p pk v)" for p pk v
    by (auto simp: sweep_one_def keeps_revoke split: option.splits)
  then have "keeps_out w (fold (sweep_one env p) pks w)" for p pks by (rule keeps_fold)
  then show ?thesis unfolding sweep_expired_sessions_def Let_def by (meson keeps_out_trans keeps_delete_tokens)
qed

lemma keeps_policy: "keeps_out w (snd (update_global_policy env v who w))"
proof -
  have "keeps_out w (add_audit env a p f (w\<lparr>sn_config := c\<rparr>))" for a p f c
    by (rule keeps_out_fields) (auto simp: add_audit_def)
  then show ?thesis by (auto simp: update_global_policy_def Let_def split: pyval.splits sum.splits prod.splits)
qed

lemma keeps_theme: "keeps_out w (snd (set_session_theme pk v w))"
  by (auto simp: set_session_theme_def Let_def split: pyval.splits intro!: keeps_plain_upd)

lemma keeps_revoke_session: "keeps_out w (snd (revoke_session env pk reason who w))"
  by (auto simp: revoke_session_def keeps_revoke split: option.splits)

section \<open>Histories\<close>

text \<open>The operations of Core and, beside them, what Tactical does with its tokens: a sign-in stores a token under a digest,
  Knox extends a live token, and tokens are deleted. Times are those of the inputs.\<close>

datatype session_event =
    Ss_Request session_env session_request
  | Ss_Activity session_env session_request
  | Ss_Terminal session_env nat nat string "moment option"
  | Ss_Revoke session_env nat string string
  | Ss_Revoke_User session_env string "nat option" string string
  | Ss_Revoke_Login session_env string string string "session_user option"
  | Ss_Revoke_User_Login session_env nat string string "session_user option"
  | Ss_Revoke_All session_env string string "session_user option" bool string "nat option"
  | Ss_Sweep session_env int
  | Ss_Cleanup session_env
  | Ss_Policy session_env pyval string
  | Ss_Theme session_env nat pyval
  | Ss_Sign_In session_env knox_token
  | Ss_Refresh session_env string moment
  | Ss_Sign_Out session_env string

fun event_env :: "session_event \<Rightarrow> session_env" where
  "event_env (Ss_Request env _) = env"
| "event_env (Ss_Activity env _) = env"
| "event_env (Ss_Terminal env _ _ _ _) = env"
| "event_env (Ss_Revoke env _ _ _) = env"
| "event_env (Ss_Revoke_User env _ _ _ _) = env"
| "event_env (Ss_Revoke_Login env _ _ _ _) = env"
| "event_env (Ss_Revoke_User_Login env _ _ _ _) = env"
| "event_env (Ss_Revoke_All env _ _ _ _ _ _) = env"
| "event_env (Ss_Sweep env _) = env"
| "event_env (Ss_Cleanup env) = env"
| "event_env (Ss_Policy env _ _) = env"
| "event_env (Ss_Theme env _ _) = env"
| "event_env (Ss_Sign_In env _) = env"
| "event_env (Ss_Refresh env _ _) = env"
| "event_env (Ss_Sign_Out env _) = env"

fun session_step :: "session_event \<Rightarrow> session_world \<Rightarrow> session_world" where
  "session_step (Ss_Request env rq) w = snd (session_authenticated env rq w)"
| "session_step (Ss_Activity env rq) w = snd (record_activity env rq w)"
| "session_step (Ss_Terminal env pk u d at) w = snd (record_terminal_activity env pk u d at w)"
| "session_step (Ss_Revoke env pk reason who) w = snd (revoke_session env pk reason who w)"
| "session_step (Ss_Revoke_User env n ex reason who) w = snd (revoke_user_sessions env n ex reason who w)"
| "session_step (Ss_Revoke_Login env ref reason who u) w = snd (revoke_active_login_session env ref reason who u w)"
| "session_step (Ss_Revoke_User_Login env i reason who u) w = snd (revoke_user_login_sessions env i reason who u w)"
| "session_step (Ss_Revoke_All env reason who u incl d pk) w = snd (revoke_all_login_sessions env reason who u incl d pk w)"
| "session_step (Ss_Sweep env limit) w = sweep_expired_sessions env limit w"
| "session_step (Ss_Cleanup env) w = snd (cleanup_session_history_if_due env w)"
| "session_step (Ss_Policy env v who) w = snd (update_global_policy env v who w)"
| "session_step (Ss_Theme env pk v) w = snd (set_session_theme pk v w)"
| "session_step (Ss_Sign_In env t) w = w\<lparr>sn_tokens := sn_tokens w @ [t]\<rparr>"
| "session_step (Ss_Refresh env d t) w =
     w\<lparr>sn_tokens := map (\<lambda>k. if kt_digest k = d \<and> live_token (se_now env) k then k\<lparr>kt_expiry := Some t\<rparr> else k) (sn_tokens w)\<rparr>"
| "session_step (Ss_Sign_Out env d) w = delete_tokens (\<lambda>t. kt_digest t = d) w"

definition session_history :: "session_event list \<Rightarrow> session_world \<Rightarrow> session_world" where
  "session_history xs w = fold session_step xs w"

text \<open>A digest is kept out at a moment: a tombstone of it is there, or no token of it can sign in any more.\<close>

definition kept_out :: "string \<Rightarrow> moment \<Rightarrow> session_world \<Rightarrow> bool" where
  "kept_out d now w = (trust_ids w \<and> (tombstone d w \<or> (\<forall>t \<in> set (sn_tokens w). kt_digest t = d \<longrightarrow> \<not> live_token now t)))"

lemma live_token_antimono: "now \<le> later \<Longrightarrow> live_token later t \<Longrightarrow> live_token now t"
  by (auto simp: live_token_def split: option.splits)

lemma kept_out_later: "kept_out d now w \<Longrightarrow> now \<le> later \<Longrightarrow> kept_out d later w"
  using live_token_antimono by (auto simp: kept_out_def)

lemma keeps_out_kept: "keeps_out w w' \<Longrightarrow> d \<noteq> [] \<Longrightarrow> kept_out d now w \<Longrightarrow> kept_out d now w'"
  by (auto simp: keeps_out_def kept_out_def)

lemma keeps_guard: "keeps_out w (snd (session_authenticated env rq w))"
  using keeps_ensure [of w env True rq]
  by (auto simp: session_authenticated_def split: option.splits sum.splits prod.splits)

lemma trust_ids_delete: "trust_ids w \<Longrightarrow> trust_ids (delete_trusts p w)"
  by (auto simp: trust_ids_def delete_trusts_def Let_def distinct_map_filter)

text \<open>The cleanup drops a tombstone only when no token of its digest is live.\<close>

lemma cleanup_kept:
  assumes "kept_out d (se_now env) w" and "d \<noteq> []"
  shows "kept_out d (se_now env) (snd (cleanup_session_history env r w))"
proof -
  define n where "n = (case r of None \<Rightarrow> sg_retention (sn_config w) | Some k \<Rightarrow> k)"
  define c where "c = se_now env - days n"
  define w0 where "w0 = delete_tokens (\<lambda>t. kt_digest t \<in> set (filter (\<lambda>d. d \<noteq> []) (map tr_digest (filter (stale_unrevoked c) (sn_rows w))))) w"
  define w1 where "w1 = delete_trusts (stale_unrevoked c) w0"
  define w2 where "w2 = delete_trusts (\<lambda>r. old_tombstone c r \<and> \<not> revoked_tombstone_is_live env w1 r) w1"
  have res: "snd (cleanup_session_history env r w) = (if n < 1 \<or> 3650 < n then w else w2\<lparr>sn_audit := filter (\<lambda>a. \<not> au_created a < c) (sn_audit w2)\<rparr>)"
    unfolding cleanup_session_history_def Let_def w2_def w1_def w0_def c_def n_def by simp
  have k0: "kept_out d (se_now env) w0" unfolding w0_def by (rule keeps_out_kept [OF keeps_delete_tokens assms(2,1)])
  have tok: "sn_tokens w2 = sn_tokens w1" "sn_tokens w1 = sn_tokens w0" by (simp_all add: w2_def w1_def delete_trusts_def Let_def)
  have ids: "trust_ids w2" unfolding w2_def w1_def using k0 by (simp add: trust_ids_delete kept_out_def)
  have "kept_out d (se_now env) w2"
  proof (cases "\<forall>t \<in> set (sn_tokens w2). kt_digest t = d \<longrightarrow> \<not> live_token (se_now env) t")
    case False
    then obtain q where q: "q \<in> set (sn_rows w0)" "tr_revoked q" "tr_digest q = d" using k0 tok by (auto simp: kept_out_def tombstone_def)
    then have "q \<in> set (sn_rows w1)" by (simp add: w1_def delete_trusts_def Let_def stale_unrevoked_def)
    moreover have "revoked_tombstone_is_live env w1 q"
      using False tok(1) q(3) assms(2) by (auto simp: revoked_tombstone_is_live_def list_ex_iff)
    ultimately have "q \<in> set (sn_rows w2)" by (simp add: w2_def delete_trusts_def Let_def)
    then show ?thesis using q ids by (auto simp: kept_out_def tombstone_def)
  qed (use ids in \<open>simp add: kept_out_def\<close>)
  then show ?thesis using assms(1) by (auto simp: res kept_out_def trust_ids_def tombstone_def)
qed

lemma cleanup_if_due_kept:
  assumes "kept_out d (se_now env) w" and "d \<noteq> []"
  shows "kept_out d (se_now env) (snd (cleanup_session_history_if_due env w))"
  using cleanup_kept [OF assms, of None] assms(1)
  by (auto simp: cleanup_session_history_if_due_def kept_out_def trust_ids_def tombstone_def split: sum.splits prod.splits)

text \<open>A sign-in of another digest, and the extension of a live token, do not let a digest in.\<close>

lemma step_kept:
  assumes "kept_out d now w" and "d \<noteq> []" and "now \<le> se_now (event_env x)" and "\<And>env t. x = Ss_Sign_In env t \<Longrightarrow> kt_digest t \<noteq> d"
  shows "kept_out d (se_now (event_env x)) (session_step x w)"
proof -
  have k: "kept_out d (se_now (event_env x)) w" by (rule kept_out_later [OF assms(1,3)])
  have keeps: "keeps_out w (session_step x w) \<Longrightarrow> ?thesis" by (rule keeps_out_kept [OF _ assms(2) k])
  show ?thesis
  proof (cases x)
    case (Ss_Cleanup env)
    then show ?thesis using cleanup_if_due_kept k assms(2) by simp
  next
    case (Ss_Sign_In env t)
    then show ?thesis using k assms(4) by (auto simp: kept_out_def trust_ids_def tombstone_def)
  next
    case (Ss_Refresh env e t)
    then show ?thesis using k by (auto simp: kept_out_def trust_ids_def tombstone_def)
  qed (rule keeps, simp add: keeps_guard keeps_activity keeps_terminal keeps_revoke_session keeps_revoke_user keeps_revoke_login
      keeps_revoke_user_login keeps_revoke_all keeps_sweep keeps_policy keeps_theme keeps_delete_tokens)+
qed

fun in_order :: "moment \<Rightarrow> session_event list \<Rightarrow> bool" where
  "in_order now [] = True"
| "in_order now (x # xs) = (now \<le> se_now (event_env x) \<and> in_order (se_now (event_env x)) xs)"

fun last_moment :: "moment \<Rightarrow> session_event list \<Rightarrow> moment" where
  "last_moment now [] = now"
| "last_moment now (x # xs) = last_moment (se_now (event_env x)) xs"

definition signs_in :: "string \<Rightarrow> session_event \<Rightarrow> bool" where
  "signs_in d x = (case x of Ss_Sign_In _ t \<Rightarrow> kt_digest t = d | _ \<Rightarrow> False)"

lemma history_kept:
  assumes "kept_out d now w" and "d \<noteq> []" and "in_order now xs" and "\<not> list_ex (signs_in d) xs"
  shows "kept_out d (last_moment now xs) (session_history xs w)"
  using assms
proof (induction xs arbitrary: now w)
  case (Cons x xs)
  have "kept_out d (se_now (event_env x)) (session_step x w)"
    by (rule step_kept [OF Cons.prems(1,2)]) (use Cons.prems(3,4) in \<open>auto simp: signs_in_def\<close>)
  then show ?case using Cons by (simp add: session_history_def)
qed (simp add: session_history_def)

lemma tombstone_denies:
  assumes "tombstone d w" and "request_knox_digest rq = d" and "d \<noteq> []"
  shows "\<exists>e. ensure_request_session env c rq w = (Inl e, w)"
proof -
  obtain r where r: "find tr_revoked (digest_rows w d) = Some r"
    using assms(1) find_ex [of _ "digest_rows w d" tr_revoked] by (auto simp: tombstone_def)
  have "existing_session_for_credential env rq f w = (Inr (Some r), w)" for f
    using r assms(2,3) by (simp add: existing_session_for_credential_def Let_def)
  then have "ensure_body env c rq u f w = (Inl (Session_Denied ''session_revoked''), w)" for u f
    using find_hit [OF r] by (simp add: ensure_body_def Let_def check_session_def)
  then have "atomic (ensure_body env c rq u f) w = (Inl (Session_Denied ''session_revoked''), w)" for u f by (simp add: atomic_def)
  then show ?thesis by (simp add: ensure_request_session_def split: option.split sum.split)
qed

text \<open>(C12) A revoked credential stays out: once a trust row of a Knox digest is revoked, then after any history of requests,
  revocations, sweeps, cleanups, policy changes, sign-ins under other digests, token extensions and sign-outs, in any
  order, a request that Knox still lets in with a live token of that digest is refused, and nothing is written for it.\<close>

theorem revoked_credential_stays_out:
  assumes "trust_ids w" and "tombstone d w" and "d \<noteq> []" and "in_order now xs" and "\<not> list_ex (signs_in d) xs"
    and "last_moment now xs \<le> se_now env" and "request_knox_digest rq = d"
    and "t \<in> set (sn_tokens (session_history xs w))" and "kt_digest t = d" and "live_token (se_now env) t"
  shows "\<exists>e. ensure_request_session env c rq (session_history xs w) = (Inl e, session_history xs w)"
proof -
  have "kept_out d now w" using assms(1,2) by (simp add: kept_out_def)
  then have "kept_out d (last_moment now xs) (session_history xs w)" using assms(3-5) by (rule history_kept)
  then have "kept_out d (se_now env) (session_history xs w)" using kept_out_later assms(6) by blast
  then have "tombstone d (session_history xs w)" using assms(8-10) by (auto simp: kept_out_def)
  then show ?thesis using tombstone_denies assms(3,7) by blast
qed

section \<open>Example data\<close>

definition alice :: session_user where
  "alice = \<lparr>us_pk = 1, us_username = ''alice'', us_authenticated = True, us_superuser = False, us_role = None, us_sso = False, us_provider = [], us_totp = True\<rparr>"

definition root_person :: session_user where
  "root_person = alice\<lparr>us_pk := 2, us_username := ''root'', us_superuser := True\<rparr>"

definition loopback_or_ten :: "ip_net \<Rightarrow> bool" where
  "loopback_or_ten n = (case n of Net4 w p \<Rightarrow> w div 16777216 \<in> {10, 127} | Net6 w _ _ \<Rightarrow> w = 1)"

definition session_demo_env :: "moment \<Rightarrow> session_env" where
  "session_demo_env t = \<lparr>se_now = t, se_local = loopback_or_ten, se_root_user = ''root'',
     se_user = (\<lambda>i. if i = 1 then Some alice else if i = 2 then Some root_person else None),
     se_hmac = (\<lambda>x. ''f:'' @ x), se_login_ref = (\<lambda>d. take 64 (d @ replicate 64 CHR ''0'')), se_hash_token = (\<lambda>t. Some (''d-'' @ t)),
     se_agent_hash = (\<lambda>x. x), se_api_key = (\<lambda>_ _. None), se_api_keys = Some [], se_django_sessions = Some [], se_locked = (\<lambda>_. False), se_audit_ok = True\<rparr>"

definition session_demo_request :: "string \<Rightarrow> session_request" where
  "session_demo_request addr = \<lparr>rq_user = Some alice, rq_authenticator = Some (''TokenAuthentication'', ''knox.auth''), rq_auth = Auth_Token ''d-abc'',
     rq_authorization = ''Token abc'', rq_api_key = [], rq_session_key = [],
     rq_headers = \<lparr>hd_remote_addr = ''127.0.0.1'', hd_x_forwarded_for = addr, hd_forwarded = [], hd_x_real_ip = []\<rparr>, rq_user_agent = ''browser''\<rparr>"

definition session_demo_world :: session_world where
  "session_demo_world = \<lparr>sn_rows = [], sn_next = 1,
     sn_tokens = [\<lparr>kt_digest = ''d-abc'', kt_user = 1, kt_expiry = Some (mins 9000), kt_created = 0\<rparr>,
                  \<lparr>kt_digest = ''d-root'', kt_user = 2, kt_expiry = Some (mins 9000), kt_created = 0\<rparr>],
     sn_config = \<lparr>sg_idle = 30, sg_absolute = 480, sg_ip_change = ''terminate'', sg_audit = True, sg_heartbeat = 60, sg_retention = 30,
       sg_last_cleanup = None, sg_proxies = PList [PStr ''127.0.0.1/32'', PStr ''::1/128''], sg_updated_by = []\<rparr>, sn_audit = []\<rparr>"

text \<open>The tables after the first request of the demo person.\<close>

definition demo_trust :: session_trust where
  "demo_trust = \<lparr>tr_id = 1, tr_fingerprint = ''f:knox:d-abc'', tr_digest = ''d-abc'', tr_user = 1, tr_username = ''alice'', tr_created = 0, tr_updated = 0,
     tr_activity = 0, tr_seen = 0, tr_initial_ip = ''203.0.113.7'', tr_last_ip = ''203.0.113.7'', tr_agent_hash = ''browser'', tr_absolute = mins 480,
     tr_idle = mins 30, tr_revoked = False, tr_revoked_at = None, tr_revoked_by = [], tr_reason = [], tr_theme = []\<rparr>"

definition alice_in :: session_world where
  "alice_in = session_demo_world\<lparr>sn_rows := [demo_trust], sn_next := 2\<rparr>"

definition revoked_world :: session_world where
  "revoked_world = (snd (revoke_session (session_demo_env (mins 1)) 1 ''lost laptop'' ''root'' alice_in))\<lparr>sn_tokens := sn_tokens session_demo_world\<rparr>"

text \<open>The token of the revoked row was put back, as a failed deletion would leave it.\<close>

definition after_revocation :: "session_event list" where
  "after_revocation = [Ss_Refresh (session_demo_env (mins 2)) ''d-abc'' (mins 900000), Ss_Cleanup (session_demo_env (mins 90000))]"

lemma revoked_world_rows: "map (\<lambda>r. (tr_id r, tr_digest r, tr_revoked r)) (sn_rows revoked_world) = [(1, ''d-abc'', True)]" "sn_next revoked_world = 2"
  by code_simp+

lemma after_revocation_tokens: "map (\<lambda>t. (kt_digest t, live_token (mins 90001) t)) (sn_tokens (session_history after_revocation revoked_world)) = [(''d-abc'', True), (''d-root'', False)]"
  by code_simp

theorem revoked_credential_stays_out_witness:
  "\<exists>e. ensure_request_session (session_demo_env (mins 90001)) True (session_demo_request ''203.0.113.7'') (session_history after_revocation revoked_world) =
     (Inl e, session_history after_revocation revoked_world)"
proof -
  obtain r where r: "sn_rows revoked_world = [r]" "tr_id r = 1" "tr_digest r = ''d-abc''" "tr_revoked r"
    using revoked_world_rows(1) by (auto simp: map_eq_Cons_conv)
  have ids: "trust_ids revoked_world" using r revoked_world_rows(2) by (simp add: trust_ids_def)
  have tomb: "tombstone ''d-abc'' revoked_world" using r by (simp add: tombstone_def)
  obtain t where t: "t \<in> set (sn_tokens (session_history after_revocation revoked_world))" "kt_digest t = ''d-abc''" "live_token (mins 90001) t"
    using after_revocation_tokens by (fastforce simp: map_eq_Cons_conv)
  have o: "in_order (mins 1) after_revocation" "\<not> list_ex (signs_in ''d-abc'') after_revocation" "last_moment (mins 1) after_revocation \<le> se_now (session_demo_env (mins 90001))"
    "request_knox_digest (session_demo_request ''203.0.113.7'') = ''d-abc''" by code_simp+
  have n: "se_now (session_demo_env (mins 90001)) = mins 90001" by (simp add: session_demo_env_def)
  show ?thesis by (rule revoked_credential_stays_out [OF ids tomb _ o t(1,2)]) (use t(3) n in simp_all)
qed

section \<open>What an accepted request has passed\<close>

lemma no_tombstone_granted:
  assumes "ensure_request_session env c rq w = (Inr r', w')" and "request_knox_digest rq \<noteq> []"
  shows "\<not> tombstone (request_knox_digest rq) w"
  using tombstone_denies [OF _ refl assms(2), of w env c] assms(1) by auto

lemma touch_row:
  assumes "touch_session env rq last_ip p r w = (Inr r', w')"
  shows "r' = (case bind_knox_digest r (request_knox_digest rq) of Inr (Some d) \<Rightarrow> r\<lparr>tr_seen := se_now env, tr_last_ip := last_ip,
      tr_absolute := tr_created r + mins (po_absolute p), tr_idle := tr_activity r + mins (po_idle p), tr_updated := se_now env, tr_digest := d\<rparr>
    | _ \<Rightarrow> r\<lparr>tr_seen := se_now env, tr_last_ip := last_ip, tr_absolute := tr_created r + mins (po_absolute p), tr_idle := tr_activity r + mins (po_idle p), tr_updated := se_now env\<rparr>)"
    "r \<in> set (sn_rows w) \<Longrightarrow> r' \<in> set (sn_rows w')"
  using assms upd_hit [of r w] by (auto simp: touch_session_def Let_def split: sum.splits option.splits)

text \<open>(C13) A request is accepted only within the policy: the caller is signed in and is the person the trust row names, no row of
  the same Knox token is revoked, the absolute lifetime and the idle time of the policy in force have not passed, and the client
  address is the one last seen unless the policy lets it change; the row that is returned is stored.\<close>

theorem accepted_request_is_within_policy:
  assumes "ensure_request_session env c rq w = (Inr r, w')"
  shows "\<exists>u. rq_user rq = Some u \<and> us_authenticated u \<and> tr_user r = us_pk u \<and> tr_username r = us_username u \<and> r \<in> set (sn_rows w') \<and> \<not> tr_revoked r \<and>
    (request_knox_digest rq = [] \<or> \<not> tombstone (request_knox_digest rq) w) \<and>
    se_now env < tr_created r + mins (po_absolute (current_policy env w)) \<and> se_now env < tr_activity r + mins (po_idle (current_policy env w)) \<and>
    (let ip = effective_client_ip (current_policy env w) (rq_headers rq) in
       ip = [] \<or> tr_last_ip r = [] \<or> tr_last_ip r = ip) \<and>
    (po_ip_change (current_policy env w) \<in> {''reauthenticate'', ''terminate''} \<longrightarrow>
       (\<forall>q \<in> set (sn_rows w). tr_id q = tr_id r \<and> trust_ids w \<longrightarrow> tr_last_ip q = tr_last_ip r))"
proof -
  let ?p = "current_policy env w" let ?ip = "effective_client_ip ?p (rq_headers rq)"
  obtain u f q v where u: "rq_user rq = Some u" "us_authenticated u"
    and q: "existing_session_for_credential env rq f w = (Inr (Some q), v) \<or>
       existing_session_for_credential env rq f w = (Inr None, w) \<and> create_session env rq u f ?ip ?p w = (q, v)" "q \<in> set (sn_rows v)"
    and chk: "check_session env rq u ?ip ?p q v = (Inr r, w')"
    by (rule ensure_granted [OF assms])
  note g = check_granted [OF chk q(2)]
  obtain x last_ip where x: "x = v \<or> x = ip_change_event env q ?ip ?p v" and touch: "touch_session env rq last_ip ?p q x = (Inr r, w')"
    and ip: "last_ip = tr_last_ip q \<and> (?ip = [] \<or> tr_last_ip q = [] \<or> ?ip = tr_last_ip q) \<or> last_ip = ?ip \<and> po_ip_change ?p \<notin> {''reauthenticate'', ''terminate''}"
    using g(6) by blast
  have rows: "sn_rows x = sn_rows v" using x keeps_ip_event(2) by auto
  have r: "tr_id r = tr_id q" "tr_user r = tr_user q" "tr_username r = tr_username q" "tr_revoked r = tr_revoked q" "tr_created r = tr_created q"
      "tr_activity r = tr_activity q" "tr_last_ip r = last_ip"
    using touch_row(1) [OF touch] by (auto split: sum.splits option.splits)
  have stored: "r \<in> set (sn_rows w')" using touch_row(2) [OF touch] q(2) rows by simp
  have time: "se_now env < tr_created q + mins (po_absolute ?p)" "se_now env < tr_activity q + mins (po_idle ?p)"
    using g(5) by (auto simp: expiry_refusal_def refresh_expiry_def split: if_splits)
  have same: "tr_last_ip s = tr_last_ip q" if "s \<in> set (sn_rows w)" "tr_id s = tr_id q" "trust_ids w" for s
    using q(1)
  proof
    assume "existing_session_for_credential env rq f w = (Inr (Some q), v)"
    then show ?thesis using that existing_row by blast
  next
    assume "existing_session_for_credential env rq f w = (Inr None, w) \<and> create_session env rq u f ?ip ?p w = (q, v)"
    then show ?thesis using keeps_create(4) [of env rq u f ?ip ?p w q v] that by (metis imageI)
  qed
  have addr: "?ip = [] \<or> tr_last_ip r = [] \<or> tr_last_ip r = ?ip" using ip r(7) by metis
  have kept: "tr_last_ip s = tr_last_ip r" if "po_ip_change ?p \<in> {''reauthenticate'', ''terminate''}" "s \<in> set (sn_rows w)" "tr_id s = tr_id r \<and> trust_ids w" for s
    using ip r(1,7) same [OF that(2)] that by metis
  have "request_knox_digest rq = [] \<or> \<not> tombstone (request_knox_digest rq) w" using no_tombstone_granted [OF assms] by blast
  moreover have "tr_user r = us_pk u" "tr_username r = us_username u" "\<not> tr_revoked r" using g(2,3,4) r by simp_all
  moreover have "se_now env < tr_created r + mins (po_absolute ?p)" "se_now env < tr_activity r + mins (po_idle ?p)" using time r by simp_all
  ultimately show ?thesis unfolding Let_def using u stored addr kept by blast
qed

theorem accepted_request_is_within_policy_witness:
  "\<exists>r w'. ensure_request_session (session_demo_env (mins 5)) True (session_demo_request ''203.0.113.7'') alice_in = (Inr r, w') \<and>
     tr_user r = 1 \<and> mins 5 < tr_activity r + mins 30"
proof -
  have "is_ok (fst (ensure_request_session (session_demo_env (mins 5)) True (session_demo_request ''203.0.113.7'') alice_in))" by code_simp
  then obtain r w' where ok: "ensure_request_session (session_demo_env (mins 5)) True (session_demo_request ''203.0.113.7'') alice_in = (Inr r, w')"
    by (metis is_ok_iff prod.collapse)
  have "po_idle (current_policy (session_demo_env (mins 5)) alice_in) = 30" by code_simp
  moreover have "rq_user (session_demo_request ''203.0.113.7'') = Some alice" "us_pk alice = 1" "se_now (session_demo_env (mins 5)) = mins 5"
    by (simp_all add: session_demo_request_def alice_def session_demo_env_def)
  ultimately show ?thesis using accepted_request_is_within_policy [OF ok] ok by auto
qed

section \<open>What a refused request leaves behind\<close>

text \<open>A refused request leaves no trace: the refusal is raised inside the transaction that revoked the row, deleted the
  token and wrote the audit rows, so all of it is rolled back, whatever the reason of the refusal. With the address
  policy \<open>terminate\<close> a request from another address is refused, and yet the row is not revoked, the token is
  there, and the next request from the old address is accepted.\<close>

theorem refused_request_leaves_no_trace:
  assumes "ensure_request_session env c rq w = (Inl e, w')"
  shows "w' = w"
  using assms atomic_Inl by (auto simp: ensure_request_session_def split: option.splits if_splits sum.splits)

definition changed_address :: "session_trust session_result" where
  "changed_address = ensure_request_session (session_demo_env (mins 5)) True (session_demo_request ''198.51.100.9'') alice_in"

lemma changed_address_refused: "fst changed_address = Inl (Session_Denied ''session_ip_change'')"
  by code_simp

lemma old_address_accepted:
  "po_ip_change (current_policy (session_demo_env 0) alice_in) = ''terminate''" "list_all (\<lambda>r. \<not> tr_revoked r) (sn_rows alice_in)"
  "is_ok (fst (ensure_request_session (session_demo_env (mins 6)) True (session_demo_request ''203.0.113.7'') alice_in))"
  by code_simp+

theorem refused_request_leaves_no_trace_witness:
  "fst changed_address = Inl (Session_Denied ''session_ip_change'') \<and> list_all (\<lambda>r. \<not> tr_revoked r) (sn_rows (snd changed_address)) \<and>
   is_ok (fst (ensure_request_session (session_demo_env (mins 6)) True (session_demo_request ''203.0.113.7'') (snd changed_address)))"
proof -
  have "changed_address = (Inl (Session_Denied ''session_ip_change''), snd changed_address)" using changed_address_refused by (simp add: prod_eq_iff)
  then have "snd changed_address = alice_in" unfolding changed_address_def by (rule refused_request_leaves_no_trace)
  then show ?thesis using changed_address_refused old_address_accepted by simp
qed

end
