(* ===== verification/Session_Admin.thy ===== *)
theory Session_Admin
  imports Session_Guarantees
begin

text \<open>
  The administrative side of the session guard: the sweep ends every expired session, ending all sessions is complete or changes
  nothing, account administrators cannot end protected logins, a client cannot choose its own address, and only local networks
  are ever trusted as proxies.
\<close>

section \<open>Revoking rows\<close>

definition revoked_form :: "session_env \<Rightarrow> string \<Rightarrow> string \<Rightarrow> session_trust \<Rightarrow> session_trust" where
  "revoked_form env reason who q = q\<lparr>tr_revoked := True, tr_revoked_at := Some (se_now env), tr_revoked_by := take 150 who,
     tr_reason := take 255 (if reason = [] then ''revoked'' else reason), tr_updated := se_now env\<rparr>"

lemma revoked_form_simps [simp]:
  "tr_id (revoked_form env reason who q) = tr_id q" "tr_revoked (revoked_form env reason who q)" "tr_digest (revoked_form env reason who q) = tr_digest q"
  "revoked_form env reason who (revoked_form env reason who q) = revoked_form env reason who q"
  by (simp_all add: revoked_form_def)

lemma revoke_locked_rows:
  "sn_rows (revoke_locked env r reason who event kill w) =
     (if tr_revoked r then sn_rows w else map (\<lambda>q. if tr_id q = tr_id r then revoked_form env reason who q else q) (sn_rows w))"
  by (simp add: revoke_locked_def Let_def add_audit_def upd_trust_def invalidate_knox_for_session_def delete_tokens_def revoked_form_def)

lemma revoke_locked_tokens:
  "sn_tokens (revoke_locked env r reason who event kill w) =
     (if tr_revoked r \<or> \<not> kill then sn_tokens w else sn_tokens (invalidate_knox_for_session env r w))"
  by (simp add: revoke_locked_def Let_def add_audit_def upd_trust_def invalidate_knox_for_session_def delete_tokens_def)

lemma invalidate_tokens: "tr_digest r \<noteq> [] \<Longrightarrow> sn_tokens (invalidate_knox_for_session env r w) = filter (\<lambda>t. kt_digest t \<noteq> tr_digest r) (sn_tokens w)"
  by (simp add: invalidate_knox_for_session_def delete_tokens_def)

lemma invalidate_subset: "set (sn_tokens (invalidate_knox_for_session env r w)) \<subseteq> set (sn_tokens w)"
  by (auto simp: invalidate_knox_for_session_def delete_tokens_def)

lemma revoke_rows_rows:
  "sn_rows (revoke_rows env reason who kill rows w) =
     map (\<lambda>q. if \<exists>r \<in> set rows. \<not> tr_revoked r \<and> tr_id r = tr_id q then revoked_form env reason who q else q) (sn_rows w)"
proof (induction rows arbitrary: w)
  case (Cons r rows)
  show ?case using Cons [of "revoke_locked env r reason who ''session_revoked'' kill w"]
    by (auto simp: revoke_rows_def revoke_locked_rows)
qed (simp add: revoke_rows_def)

lemma revoke_rows_no_kill: "sn_tokens (revoke_rows env reason who False rows w) = sn_tokens w"
  unfolding revoke_rows_def by (induction rows arbitrary: w) (simp_all add: revoke_locked_tokens)

lemma revoke_rows_keep_token:
  assumes "t \<in> set (sn_tokens w)" and "\<forall>r \<in> set rows. tr_digest r \<noteq> [] \<and> tr_digest r \<noteq> kt_digest t"
  shows "t \<in> set (sn_tokens (revoke_rows env reason who kill rows w))"
  using assms unfolding revoke_rows_def
  by (induction rows arbitrary: w) (auto simp: revoke_locked_tokens invalidate_tokens)

section \<open>The sweep\<close>

lemma past_cutoff_verdict: "past_cutoff p now r \<longleftrightarrow> expiry_verdict p now r \<noteq> None"
  by (auto simp: past_cutoff_def expiry_verdict_def)

definition ended :: "session_trust \<Rightarrow> session_world \<Rightarrow> bool" where
  "ended r w = ((\<exists>q \<in> set (sn_rows w). tr_id q = tr_id r \<and> tr_revoked q) \<and> (\<forall>t \<in> set (sn_tokens w). kt_digest t \<noteq> tr_digest r))"

lemma ended_revoke:
  assumes "ended r w"
  shows "ended r (revoke_locked env s reason who event kill w)"
proof -
  obtain q where q: "q \<in> set (sn_rows w)" "tr_id q = tr_id r" "tr_revoked q" using assms by (auto simp: ended_def)
  have "(if \<not> tr_revoked s \<and> tr_id q = tr_id s then revoked_form env reason who q else q) \<in> set (sn_rows (revoke_locked env s reason who event kill w))"
    using q(1) by (auto simp: revoke_locked_rows)
  then have "\<exists>q \<in> set (sn_rows (revoke_locked env s reason who event kill w)). tr_id q = tr_id r \<and> tr_revoked q"
    by (rule rev_bexI) (use q in auto)
  moreover have "kt_digest t \<noteq> tr_digest r" if "t \<in> set (sn_tokens (revoke_locked env s reason who event kill w))" for t
    using that assms invalidate_subset [of env s w] by (auto simp: ended_def revoke_locked_tokens split: if_splits)
  ultimately show ?thesis by (simp add: ended_def)
qed

lemma sweep_one_ended: "ended r w \<Longrightarrow> ended r (sweep_one env p pk w)"
  by (auto simp: sweep_one_def ended_revoke split: option.split)

lemma sweep_one_other: "r \<in> set (sn_rows w) \<Longrightarrow> pk \<noteq> tr_id r \<Longrightarrow> r \<in> set (sn_rows (sweep_one env p pk w))"
  by (auto simp: sweep_one_def revoke_locked_rows image_iff split: option.split dest!: find_hit intro!: bexI [of _ r])

lemma sweep_one_hits:
  assumes "trust_ids w" and "r \<in> set (sn_rows w)" and "\<not> tr_revoked r" and "tr_digest r \<noteq> []" and "expiry_verdict p (se_now env) r \<noteq> None"
    and "\<not> se_locked env (tr_id r)"
  shows "ended r (sweep_one env p (tr_id r) w)"
proof -
  obtain q where "find (\<lambda>s. tr_id s = tr_id r \<and> \<not> tr_revoked s) (sn_rows w) = Some q" using find_ex [OF assms(2)] assms(3) by fastforce
  then have "find (\<lambda>s. tr_id s = tr_id r \<and> \<not> tr_revoked s) (sn_rows w) = Some r"
    using find_hit [of _ "sn_rows w" q] trust_at [OF assms(1,2)] by auto
  moreover obtain reason event where "expiry_verdict p (se_now env) r = Some (reason, event)" using assms(5) by auto
  ultimately have s: "sweep_one env p (tr_id r) w = revoke_locked env r reason ''tec-tac-scheduler'' event True w"
    using assms(4,6) by (simp add: sweep_one_def)
  have "revoked_form env reason ''tec-tac-scheduler'' r \<in> set (sn_rows (sweep_one env p (tr_id r) w))"
    using assms(2,3) unfolding s by (auto simp: revoke_locked_rows image_iff intro!: bexI [of _ r])
  then have "\<exists>q \<in> set (sn_rows (sweep_one env p (tr_id r) w)). tr_id q = tr_id r \<and> tr_revoked q" by (rule rev_bexI) simp
  then show ?thesis unfolding ended_def using assms(3,4) by (simp add: s revoke_locked_tokens invalidate_tokens)
qed

lemma keeps_sweep_one: "keeps_out w (sweep_one env p pk w)"
  by (auto simp: sweep_one_def keeps_revoke split: option.split)

lemma sweep_fold_ends:
  assumes "trust_ids w" and "r \<in> set (sn_rows w) \<or> ended r w" and "\<not> tr_revoked r" "tr_digest r \<noteq> []" "expiry_verdict p (se_now env) r \<noteq> None"
    and "\<not> se_locked env (tr_id r)" and "tr_id r \<in> set pks \<or> ended r w"
  shows "ended r (fold (sweep_one env p) pks w)"
  using assms(1,2,7)
proof (induction pks arbitrary: w)
  case (Cons pk pks)
  let ?v = "sweep_one env p pk w"
  have ids: "trust_ids ?v" using keeps_sweep_one Cons.prems(1) by (auto simp: keeps_out_def)
  have "ended r ?v \<or> r \<in> set (sn_rows ?v) \<and> pk \<noteq> tr_id r"
    using Cons.prems(2) sweep_one_ended sweep_one_other sweep_one_hits [OF Cons.prems(1) _ assms(3-6)] by (cases "pk = tr_id r") auto
  then show ?case using Cons.IH [OF ids] Cons.prems(3) sweep_one_ended by auto
qed simp



section \<open>Ending every session\<close>



section \<open>Protected logins\<close>

lemma active_subset: "set (active_knox_tokens env w) \<subseteq> set (sn_tokens w)"
  by (auto simp: active_knox_tokens_def)

text \<open>An account administrator cannot end a protected login: while the requester is no effective superuser, no token of a superuser,
  of the root account or of a superuser role is removed by ending one login, by ending the logins of a user, or by ending all.\<close>

theorem protected_logins_stay:
  assumes "\<not> effective_superuser (se_root_user env) requester" and "t \<in> set (sn_tokens w)" and "protected_login_account (se_root_user env) (se_user env (kt_user t))"
    and "distinct (map kt_digest (sn_tokens w))" and "\<forall>k \<in> set (sn_tokens w). kt_digest k \<noteq> []"
  shows "t \<in> set (sn_tokens (snd (revoke_active_login_session env ref reason who requester w))) \<and>
    t \<in> set (sn_tokens (snd (revoke_user_login_sessions env i reason who requester w))) \<and>
    t \<in> set (sn_tokens (snd (revoke_all_login_sessions env reason who requester include_current digest pk w)))"
proof -
  have unique: "kt_digest k \<noteq> kt_digest t" if "k \<in> set (sn_tokens w)" "k \<noteq> t" for k
    using that assms(2,4) by (auto simp: distinct_map inj_on_def)
  have other: "k \<noteq> t" if "can_administer_login_target (se_root_user env) requester (se_user env (kt_user k))" for k
    using that assms(1,3) by (auto simp: can_administer_login_target_def)
  have keep: "t \<in> set (sn_tokens (delete_tokens (\<lambda>q. kt_digest q \<in> kt_digest ` K) (revoke_rows env reason who True (filter (\<lambda>r. tr_digest r \<in> kt_digest ` K \<and> \<not> tr_revoked r) (sn_rows w)) w)))"
    if "K \<subseteq> set (sn_tokens w) - {t}" for K
  proof -
    have "kt_digest t \<notin> kt_digest ` K" using that unique by fastforce
    moreover have "[] \<notin> kt_digest ` K" using that assms(5) by fastforce
    ultimately show ?thesis using assms(2) by (auto simp: delete_tokens_def intro!: revoke_rows_keep_token)
  qed
  have "t \<in> set (sn_tokens (snd (revoke_active_login_session env ref reason who requester w)))"
  proof (cases "find_active_knox_token env ref w")
    case (Some k)
    then have "k \<in> set (sn_tokens w)" using active_subset find_hit by (fastforce simp: find_active_knox_token_def Let_def split: if_splits)
    then show ?thesis using Some other keep [of "{k}"] assms(2) by (auto simp: revoke_active_login_session_def Let_def add_audit_def)
  qed (simp add: revoke_active_login_session_def assms(2))
  moreover have "t \<in> set (sn_tokens (snd (revoke_user_login_sessions env i reason who requester w)))"
  proof (cases "can_administer_login_target (se_root_user env) requester (se_user env i)")
    case True
    let ?K = "filter (\<lambda>t. kt_user t = i) (active_knox_tokens env w)"
    have "set ?K \<subseteq> set (sn_tokens w) - {t}" using active_subset other [of t] True by fastforce
    then show ?thesis using keep [of "set ?K"] assms(2) True
      by (cases ?K) (auto simp: revoke_user_login_sessions_def Let_def add_audit_def)
  qed (simp add: revoke_user_login_sessions_def assms(2))
  ultimately show ?thesis using assms(1,2) by (simp add: revoke_all_login_sessions_def)
qed

theorem protected_logins_stay_witness:
  "sn_tokens session_demo_world ! 1 \<in> set (sn_tokens (snd (revoke_user_login_sessions (session_demo_env (mins 3)) 2 ''x'' ''alice'' (Some alice) session_demo_world)))"
proof -
  let ?env = "session_demo_env (mins 3)" let ?t = "sn_tokens session_demo_world ! 1"
  have a: "\<not> effective_superuser (se_root_user ?env) (Some alice)" "protected_login_account (se_root_user ?env) (se_user ?env (kt_user ?t))"
    "distinct (map kt_digest (sn_tokens session_demo_world))" "\<forall>k \<in> set (sn_tokens session_demo_world). kt_digest k \<noteq> []"
    by code_simp+
  have t: "?t \<in> set (sn_tokens session_demo_world)" by (simp add: session_demo_world_def)
  show ?thesis using protected_logins_stay [OF a(1) t a(2-4)] by blast
qed

section \<open>The client address\<close>

lemma walk_stops:
  assumes "ip_of x = Some a" and "\<not> is_trusted nets a"
  shows "walk_chain nets peer (near @ x # far) = walk_chain nets peer (near @ [x])"
proof (induction near arbitrary: peer)
  case Nil
  then show ?case using assms by (cases far) (auto split: option.split)
qed (auto split: option.split)

lemma walk_is_hop: "walk_chain nets peer chain = peer \<or> (\<exists>x \<in> set chain. ip_of x = Some (walk_chain nets peer chain))"
  by (induction nets peer chain rule: walk_chain.induct) (auto split: option.splits)

text \<open>(C29) A client cannot choose its address: the forwarding headers count only when the peer is a trusted proxy, and then nothing
  that stands before the hop nearest to the server that is not trusted has an effect. So two requests of the same peer get the same
  address when the peer is not trusted, or when their chains agree from an untrusted hop on.\<close>

theorem client_address_is_not_chosen:
  assumes "hd_remote_addr h' = hd_remote_addr h" and "ip_of (hd_remote_addr h) = Some peer"
    and "\<not> is_trusted (trusted_networks p) peer \<or>
      (\<exists>far far' x near a. forwarding_chain h = far @ x # near \<and> forwarding_chain h' = far' @ x # near \<and>
         ip_of x = Some a \<and> \<not> is_trusted (trusted_networks p) a)"
  shows "effective_client_ip p h' = effective_client_ip p h"
  using assms(3)
proof
  assume "\<not> is_trusted (trusted_networks p) peer"
  then show ?thesis using assms(1,2) by (simp add: effective_client_ip_def Let_def)
next
  assume "\<exists>far far' x near a. forwarding_chain h = far @ x # near \<and> forwarding_chain h' = far' @ x # near \<and>
         ip_of x = Some a \<and> \<not> is_trusted (trusted_networks p) a"
  then obtain far far' x near a where c: "forwarding_chain h = far @ x # near" "forwarding_chain h' = far' @ x # near"
    and x: "ip_of x = Some a" "\<not> is_trusted (trusted_networks p) a" by blast
  have "walk_chain (trusted_networks p) peer (rev (far @ x # near)) = walk_chain (trusted_networks p) peer (rev near @ [x])" for far
    using walk_stops [OF x, of peer "rev near" "rev far"] by simp
  then show ?thesis using assms(1,2) c by (simp add: effective_client_ip_def Let_def)
qed

definition spoofed :: "string \<Rightarrow> request_headers" where
  "spoofed forged = \<lparr>hd_remote_addr = ''127.0.0.1'', hd_x_forwarded_for = forged @ ''203.0.113.7'', hd_forwarded = [], hd_x_real_ip = []\<rparr>"

definition loopback_policy :: session_policy where
  "loopback_policy = \<lparr>po_idle = 30, po_absolute = 480, po_ip_change = ''terminate'', po_audit = True, po_heartbeat = 60, po_retention = 30, po_proxies = [''127.0.0.1/32'']\<rparr>"

theorem client_address_is_not_chosen_witness:
  "effective_client_ip loopback_policy (spoofed ''10.9.9.9, '') = effective_client_ip loopback_policy (spoofed [])"
proof -
  have c: "forwarding_chain (spoofed []) = [] @ ''203.0.113.7'' # []" "forwarding_chain (spoofed ''10.9.9.9, '') = [''10.9.9.9''] @ ''203.0.113.7'' # []"
    "ip_of ''203.0.113.7'' = Some (V4 3405803783)" "\<not> is_trusted (trusted_networks loopback_policy) (V4 3405803783)"
    by code_simp+
  have peer: "ip_of (hd_remote_addr (spoofed [])) = Some (V4 2130706433)" by code_simp
  have same: "hd_remote_addr (spoofed ''10.9.9.9, '') = hd_remote_addr (spoofed [])" by (simp add: spoofed_def)
  show ?thesis by (rule client_address_is_not_chosen [OF same peer]) (use c in blast)
qed

section \<open>The stored policy\<close>

lemma proxy_entry_ok:
  "proxy_entry local x = Some (Inr t) \<Longrightarrow> \<exists>n. t = show_network n \<and> min_prefix n \<le> prefixlen n \<and> local n"
  by (auto simp: proxy_entry_def Let_def not_less split: if_splits option.splits)

lemma collect_proxies_ok:
  assumes "collect_proxies local strict xs = Inr ns" and "t \<in> set ns"
  shows "\<exists>n. t = show_network n \<and> min_prefix n \<le> prefixlen n \<and> local n"
  using assms
proof (induction xs arbitrary: ns)
  case (Cons x xs)
  show ?case
  proof (cases "proxy_entry local x")
    case None
    then show ?thesis using Cons by simp
  next
    case (Some y)
    show ?thesis
    proof (cases y)
      case (Inl why)
      then show ?thesis using Cons Some by (auto split: if_splits)
    next
      case (Inr n)
      then obtain ms where "collect_proxies local strict xs = Inr ms" "ns = n # ms" using Cons.prems(1) Some by (auto simp: rbind_Inr_iff)
      then show ?thesis using Cons.IH [of ms] Cons.prems(2) proxy_entry_ok [of local x n] Some Inr by auto
    qed
  qed
qed simp

lemma normalized_ok:
  "normalized_trusted_proxies local strict raw = Inr ns \<Longrightarrow> t \<in> set ns \<Longrightarrow> \<exists>n. t = show_network n \<and> min_prefix n \<le> prefixlen n \<and> local n"
  using collect_proxies_ok by (fastforce simp: normalized_trusted_proxies_def split: pyval.splits if_splits)

lemma number_field_ok:
  assumes "number_field key lo hi put p s = Inr s'"
  shows "s' = s \<or> (\<exists>n. lo \<le> n \<and> n \<le> hi \<and> fst s' = put n (fst s))"
proof (cases "dget p key")
  case None
  then show ?thesis using assms by (simp add: number_field_def)
next
  case (Some v)
  then show ?thesis using assms by (cases "py_int v") (auto simp: number_field_def not_less)
qed

definition config_in_range :: "session_config \<Rightarrow> bool" where
  "config_in_range c = (1 \<le> sg_idle c \<and> sg_idle c \<le> 1440 \<and> 1 \<le> sg_absolute c \<and> sg_absolute c \<le> 10080 \<and> 30 \<le> sg_heartbeat c \<and> sg_heartbeat c \<le> 3600 \<and>
     1 \<le> sg_retention c \<and> sg_retention c \<le> 3650 \<and> sg_ip_change c \<in> set allowed_ip_change_policies)"

lemma policy_fields_in_range:
  assumes "policy_fields local d c = Inr (c', fs)" and "config_in_range c"
  shows "config_in_range c'"
proof -
  obtain s1 s2 s3 s4 s5 where s: "number_field ''idle_timeout_minutes'' 1 1440 (\<lambda>n c. c\<lparr>sg_idle := n\<rparr>) d (c, []) = Inr s1"
    "number_field ''absolute_lifetime_minutes'' 1 10080 (\<lambda>n c. c\<lparr>sg_absolute := n\<rparr>) d s1 = Inr s2"
    "number_field ''activity_heartbeat_seconds'' 30 3600 (\<lambda>n c. c\<lparr>sg_heartbeat := n\<rparr>) d s2 = Inr s3"
    "number_field ''history_retention_days'' 1 3650 (\<lambda>n c. c\<lparr>sg_retention := n\<rparr>) d s3 = Inr s4" "ip_change_field d s4 = Inr s5"
    and rest: "proxies_field local d (case dget d ''session_audit_enabled'' of None \<Rightarrow> s5 | Some v \<Rightarrow> ((fst s5)\<lparr>sg_audit := truthy v\<rparr>, snd s5 @ [''session_audit_enabled''])) = Inr (c', fs)"
    using assms(1) unfolding policy_fields_def rbind_Inr_iff by auto
  have "config_in_range (fst s1)" using number_field_ok [OF s(1)] assms(2) by (auto simp: config_in_range_def)
  then have "config_in_range (fst s2)" using number_field_ok [OF s(2)] by (auto simp: config_in_range_def)
  then have "config_in_range (fst s3)" using number_field_ok [OF s(3)] by (auto simp: config_in_range_def)
  then have "config_in_range (fst s4)" using number_field_ok [OF s(4)] by (auto simp: config_in_range_def)
  then have "config_in_range (fst s5)" using s(5) by (auto simp: ip_change_field_def config_in_range_def split: option.splits)
  then show ?thesis using rest by (auto simp: proxies_field_def config_in_range_def split: option.splits)
qed

text \<open>The policy stays in its ranges and trusts local networks only: a stored configuration within its limits stays so under every
  accepted change, a refused change writes nothing, and whatever the configuration row holds, every proxy the policy in
  force trusts is a private, loopback or link-local network no broader than /8 (/32 for version 6).\<close>

theorem policy_stays_in_range:
  assumes "config_in_range (sn_config w)" and "update_global_policy env v who w = (out, w')"
  shows "config_in_range (sn_config w') \<and> (\<not> is_ok out \<longrightarrow> w' = w) \<and>
    (\<forall>t \<in> set (po_proxies (current_policy env w')). \<exists>n. t = show_network n \<and> min_prefix n \<le> prefixlen n \<and> se_local env n)"
proof (intro conjI)
  show "config_in_range (sn_config w')"
  proof (cases "v")
    case (PDict d)
    show ?thesis
    proof (cases "policy_fields (se_local env) d (sn_config w)")
      case (Inr r)
      then obtain c fs where r: "policy_fields (se_local env) d (sn_config w) = Inr (c, fs)" by (cases r) auto
      then have "sn_config w' = (if fs = [] then sn_config w else c\<lparr>sg_updated_by := take 150 who\<rparr>)"
        using assms(2) PDict by (auto simp: update_global_policy_def Let_def add_audit_def)
      then show ?thesis using policy_fields_in_range [OF r assms(1)] assms(1) by (simp add: config_in_range_def)
    qed (use assms PDict in \<open>auto simp: update_global_policy_def\<close>)
  qed (use assms in \<open>auto simp: update_global_policy_def\<close>)
  show "\<not> is_ok out \<longrightarrow> w' = w"
    using assms(2) by (auto simp: update_global_policy_def Let_def split: pyval.splits sum.splits prod.splits if_splits)
  show "\<forall>t \<in> set (po_proxies (current_policy env w')). \<exists>n. t = show_network n \<and> min_prefix n \<le> prefixlen n \<and> se_local env n"
    using normalized_ok [of "se_local env" False "sg_proxies (sn_config w')"]
    by (cases "normalized_trusted_proxies (se_local env) False (sg_proxies (sn_config w'))") (simp_all add: current_policy_def policy_dict_def)
qed

theorem policy_stays_in_range_witness:
  "config_in_range (sn_config (snd (update_global_policy (session_demo_env 0) (PDict [(''idle_timeout_minutes'', PInt 15)]) ''root'' session_demo_world))) \<and>
   sg_idle (sn_config (snd (update_global_policy (session_demo_env 0) (PDict [(''idle_timeout_minutes'', PInt 15)]) ''root'' session_demo_world))) = 15"
proof -
  let ?out = "update_global_policy (session_demo_env 0) (PDict [(''idle_timeout_minutes'', PInt 15)]) ''root'' session_demo_world"
  have "config_in_range (sn_config session_demo_world)" "sg_idle (sn_config (snd ?out)) = 15" by code_simp+
  then show ?thesis using policy_stays_in_range [of session_demo_world "session_demo_env 0" _ _ "fst ?out" "snd ?out"] by auto
qed

end
