(* ===== verification/Module_Plans.thy ===== *)
theory Module_Plans
  imports Module_Replacement
begin

text \<open>
  The decisions of \<open>module_manager_v2.py\<close>: the catalogue of installed modules, the install plan of a batch with its
  order, the order an operator may ask for, and the jobs that enable and disable modules with their cascade and
  hand-back. The manifests on disk (the base rows), the registry's answer, the module state file, the job files and
  the server's environment make up \<open>module_world\<close>. Unpacking packages, signature checks and the root helper that
  carries a job out are not part of it; the identity migration preflight is an input. A job carries the moment its
  \<open>created_at\<close> text stands for, nothing when the text is not a time; these texts sort as the moments do.
\<close>

datatype mm_error =
    Plan_Empty | Plan_Duplicate_Ids | Multiple_Previous string "string list" | Bad_Version version_error | State_Failed | Key_Error
  | Order_Not_Ids | Order_Blank_Or_Duplicate | Order_Incomplete | Order_Breaks string string
  | Not_Installed string | Protected_Module | Cannot_Enable | Required_By "string list"
  | Confirmation_Required "string list" | Second_Confirmation "string list" "(string \<times> string list) list"
  | Hand_Back_Confirmation "string list" "string list" | Dispatch_Failed | Recursion_Error

fun versioned :: "version_error + 'a \<Rightarrow> mm_error + 'a" where
  "versioned (Inl e) = Inl (Bad_Version e)"
| "versioned (Inr x) = Inr x"

section \<open>The catalogue\<close>

record runtime_check =
  rc_component :: string
  rc_constraint :: string
  rc_current :: "string option"
  rc_satisfied :: bool

record base_row =
  br_id :: string
  br_version :: string
  br_legacy :: bool
  br_protected :: bool
  br_managed :: bool
  br_dependencies :: "(string, string) dict"
  br_requires :: "(string, string) dict"

record cat_row =
  ct_id :: string
  ct_version :: string
  ct_enabled :: bool
  ct_legacy :: bool
  ct_protected :: bool
  ct_managed :: bool
  ct_dependencies :: "(string, string) dict"
  ct_runtime :: "runtime_check list"

record module_job =
  jb_action :: string
  jb_status :: string
  jb_created :: "int option"
  jb_plugin :: string
  jb_affected :: "string list"
  jb_disable :: "string list"
  jb_enable :: "string list"
  jb_skipped :: "string list"
  jb_confirmed :: bool
  jb_reason :: string
  jb_visible :: "bool option"

record module_world =
  mw_base :: "base_row list"
  mw_plugins :: "rp_plugin list option"
  mw_modules :: ms_world
  mw_framework :: "string option"
  mw_ui :: "string option"
  mw_tp :: tp_world
  mw_jobs :: "module_job list"
  mw_now :: int
  mw_dispatch_ok :: bool

definition check_runtime_requirement :: "module_world \<Rightarrow> string \<times> string \<Rightarrow> mm_error + runtime_check" where
  "check_runtime_requirement mw req = (case req of (component, constraint) \<Rightarrow>
     let row = (\<lambda>cur ok. \<lparr>rc_component = component, rc_constraint = constraint, rc_current = cur, rc_satisfied = ok\<rparr>);
         current = (if component = ''framework'' then mw_framework mw else if component = ''ui'' then mw_ui mw else None) in
     case current of None \<Rightarrow> Inr (row None False)
     | Some v \<Rightarrow> if v = [] then Inr (row None False) else rbind (versioned (version_satisfies v constraint)) (\<lambda>ok. Inr (row (Some v) ok)))"

definition check_runtime_requirements :: "module_world \<Rightarrow> (string, string) dict \<Rightarrow> mm_error + runtime_check list" where
  "check_runtime_requirements mw requires = rmap (check_runtime_requirement mw) requires"

definition catalog_row :: "module_world \<Rightarrow> pydict \<Rightarrow> base_row \<Rightarrow> mm_error + cat_row" where
  "catalog_row mw state b =
     (let row = (\<lambda>on deps rt. \<lparr>ct_id = br_id b, ct_version = br_version b, ct_enabled = on, ct_legacy = br_legacy b, ct_protected = br_protected b,
            ct_managed = br_managed b, ct_dependencies = deps, ct_runtime = rt\<rparr>) in
      if br_legacy b then Inr (row True [] [])
      else rbind (check_runtime_requirements mw (br_requires b)) (\<lambda>rt. Inr (row (is_enabled (br_id b) state) (br_dependencies b) rt)))"

definition installed_catalog_v2 :: "module_world \<Rightarrow> mm_error + cat_row list" where
  "installed_catalog_v2 mw = (case load_state (mw_modules mw) of Inl _ \<Rightarrow> Inl State_Failed | Inr state \<Rightarrow> rmap (catalog_row mw state) (mw_base mw))"

definition rows_by_id :: "cat_row list \<Rightarrow> (string, cat_row) dict" where
  "rows_by_id rows = fold (\<lambda>r. dset (ct_id r) r) rows []"

definition live :: "module_world \<Rightarrow> rp_model option" where
  "live mw = (case (mw_plugins mw, load_state (mw_modules mw)) of (Some ps, Inr state) \<Rightarrow> Some (live_model ps state) | _ \<Rightarrow> None)"

definition version_or_zero :: "string \<Rightarrow> string" where
  "version_or_zero v = (if v = [] then ''0.0.0'' else v)"

section \<open>The install plan\<close>

record candidate =
  cd_id :: string
  cd_version :: string
  cd_category :: string
  cd_replaces :: string
  cd_capabilities :: "(string, string) dict option"
  cd_dependencies :: "(string, string) dict"
  cd_optional :: "(string, string) dict"
  cd_runtime :: "runtime_check list"
  cd_previous :: "string list"

datatype plan_problem =
    Rename_Exists string string
  | Rename_Breaks string string string string
  | Identity_Preflight string string string
  | Runtime_Unmet string runtime_check
  | Missing_Dependency string string string
  | Disabled_Dependency string string string
  | Dependency_Version string string string string
  | Category_Refused category_problem
  | Replacement_Problem rp_problem
  | Replacement_State_Unreadable
  | Breaks_Dependant string string string string
  | Dependency_Cycle "string list"
  | Not_Manageable string

record optional_row =
  op_module :: string
  op_dependency :: string
  op_constraint :: string
  op_installed :: bool
  op_satisfied :: bool

record plan_action =
  pa_id :: string
  pa_version :: string
  pa_action :: string
  pa_previous :: "string option"
  pa_current_version :: "string option"
  pa_dependencies :: "(string, string) dict"
  pa_will_disable :: "string list"

record install_plan =
  ip_problems :: "plan_problem list"
  ip_optional :: "optional_row list"
  ip_order :: "string list"
  ip_actions :: "plan_action list"
  ip_will_disable :: "string list"

definition plan_valid :: "install_plan \<Rightarrow> bool" where
  "plan_valid p = (ip_problems p = [])"

definition installed_rename_source :: "candidate \<Rightarrow> (string, cat_row) dict \<Rightarrow> mm_error + string option" where
  "installed_rename_source c installed = (case filter (has_key installed) (cd_previous c) of
     [] \<Rightarrow> Inr None | [m] \<Rightarrow> Inr (Some m) | ms \<Rightarrow> Inl (Multiple_Previous (cd_id c) ms))"

definition future_row :: "candidate \<Rightarrow> cat_row" where
  "future_row c = \<lparr>ct_id = cd_id c, ct_version = cd_version c, ct_enabled = True, ct_legacy = False, ct_protected = False, ct_managed = True,
     ct_dependencies = cd_dependencies c, ct_runtime = []\<rparr>"

fun future_catalog :: "(string, cat_row) dict \<Rightarrow> (string, cat_row) dict \<Rightarrow> candidate list \<Rightarrow> mm_error + (string, cat_row) dict" where
  "future_catalog installed current [] = Inr current"
| "future_catalog installed current (c # cs) = rbind (installed_rename_source c installed) (\<lambda>source.
     if source \<noteq> None \<and> has_key installed (cd_id c) then future_catalog installed current cs
     else future_catalog installed (dset (cd_id c) (future_row c) (case source of None \<Rightarrow> current | Some old \<Rightarrow> ddel old current)) cs)"

definition candidate_node :: "rp_model \<Rightarrow> candidate \<Rightarrow> rp_node" where
  "candidate_node model c = \<lparr>nd_id = cd_id c, nd_category = cd_category c,
     nd_enabled = (case dget model (cd_id c) of None \<Rightarrow> True | Some was \<Rightarrow> nd_enabled was), nd_replaces = cd_replaces c, nd_capabilities = cd_capabilities c\<rparr>"

definition replacement_install_model :: "rp_model \<Rightarrow> candidate list \<Rightarrow> rp_model" where
  "replacement_install_model model cs = fold (\<lambda>c m. dset (cd_id c) (candidate_node m c) m) cs model"

fun rename_scan :: "(string, cat_row) dict \<Rightarrow> candidate list \<Rightarrow> mm_error + plan_problem list \<times> (string, string) dict" where
  "rename_scan installed [] = Inr ([], [])"
| "rename_scan installed (c # cs) = rbind (installed_rename_source c installed) (\<lambda>source.
     rbind (rename_scan installed cs) (\<lambda>(problems, sources).
       Inr (case source of None \<Rightarrow> (problems, sources)
         | Some old \<Rightarrow> if has_key installed (cd_id c) then (Rename_Exists (cd_id c) old # problems, sources) else (problems, (cd_id c, old) # sources))))"

definition rename_breaks :: "(string, cat_row) dict \<Rightarrow> string list \<Rightarrow> string \<times> string \<Rightarrow> plan_problem list" where
  "rename_breaks installed ids renaming = (case renaming of (new_id, old_id) \<Rightarrow>
     List.map_filter (\<lambda>(m, item). if m \<in> set ids \<or> \<not> ct_enabled item then None
       else map_option (\<lambda>constraint. Rename_Breaks m old_id new_id constraint) (dget (ct_dependencies item) old_id)) installed)"

definition preflight_problems :: "(string \<Rightarrow> string \<Rightarrow> string option) \<Rightarrow> (string, string) dict \<Rightarrow> plan_problem list" where
  "preflight_problems preflight sources = List.map_filter (\<lambda>(new_id, old_id). map_option (Identity_Preflight new_id old_id) (preflight old_id new_id)) sources"

definition dependency_problem :: "tp_world \<Rightarrow> (string, cat_row) dict \<Rightarrow> rp_model \<Rightarrow> string \<Rightarrow> string \<times> string \<Rightarrow> mm_error + plan_problem list" where
  "dependency_problem w future model m dep = (case dep of (dep_id, constraint) \<Rightarrow>
     (case dget future dep_id of
       None \<Rightarrow> Inr [Missing_Dependency m dep_id constraint]
     | Some row \<Rightarrow>
         if \<not> ct_enabled row \<and> satisfies_dependency w model dep_id = None then Inr [Disabled_Dependency m dep_id constraint]
         else rbind (versioned (version_satisfies (version_or_zero (ct_version row)) constraint)) (\<lambda>ok.
           Inr (if ok then [] else [Dependency_Version m dep_id constraint (version_or_zero (ct_version row))]))))"

definition candidate_problems :: "tp_world \<Rightarrow> (string, cat_row) dict \<Rightarrow> rp_model \<Rightarrow> candidate \<Rightarrow> mm_error + plan_problem list" where
  "candidate_problems w future model c = rbind (rmap (dependency_problem w future model (cd_id c)) (cd_dependencies c)) (\<lambda>ps.
     Inr (map (Runtime_Unmet (cd_id c)) (filter (\<lambda>r. \<not> rc_satisfied r) (cd_runtime c)) @ concat ps))"

definition optional_one :: "(string, cat_row) dict \<Rightarrow> candidate \<Rightarrow> string \<times> string \<Rightarrow> mm_error + optional_row" where
  "optional_one future c dep = (case dep of (dep_id, constraint) \<Rightarrow>
     let row = (\<lambda>here ok. \<lparr>op_module = cd_id c, op_dependency = dep_id, op_constraint = constraint, op_installed = here, op_satisfied = ok\<rparr>) in
     case dget future dep_id of None \<Rightarrow> Inr (row False False)
     | Some d \<Rightarrow> rbind (versioned (version_satisfies (version_or_zero (ct_version d)) constraint)) (\<lambda>ok. Inr (row True ok)))"

definition candidate_checks :: "tp_world \<Rightarrow> (string, cat_row) dict \<Rightarrow> rp_model \<Rightarrow> candidate \<Rightarrow> mm_error + plan_problem list \<times> optional_row list" where
  "candidate_checks w future model c = rbind (candidate_problems w future model c) (\<lambda>ps.
     rbind (rmap (optional_one future c) (cd_optional c)) (\<lambda>os. Inr (ps, os)))"

definition breaks_one :: "(string, cat_row) dict \<Rightarrow> string \<Rightarrow> string \<times> string \<Rightarrow> mm_error + plan_problem list" where
  "breaks_one future m dep = (case dep of (dep_id, constraint) \<Rightarrow>
     (case dget future dep_id of None \<Rightarrow> Inl Key_Error
     | Some d \<Rightarrow> rbind (versioned (version_satisfies (version_or_zero (ct_version d)) constraint)) (\<lambda>ok.
         Inr (if ok then [] else [Breaks_Dependant m dep_id constraint (version_or_zero (ct_version d))]))))"

definition breaks_dependants :: "(string, cat_row) dict \<Rightarrow> string list \<Rightarrow> string \<times> cat_row \<Rightarrow> mm_error + plan_problem list" where
  "breaks_dependants future ids entry = (case entry of (m, item) \<Rightarrow>
     if m \<in> set ids \<or> \<not> ct_enabled item then Inr []
     else rbind (rmap (breaks_one future m) (filter (\<lambda>(d, _). d \<in> set ids) (ct_dependencies item))) (\<lambda>ps. Inr (concat ps)))"

subsection \<open>The order\<close>

definition drop_ready :: "string list \<Rightarrow> (string, string list) dict \<Rightarrow> (string, string list) dict" where
  "drop_ready ready remaining = map (\<lambda>(k, deps). (k, filter (\<lambda>d. d \<notin> set ready) deps)) (filter (\<lambda>(k, _). k \<notin> set ready) remaining)"

definition ready_of :: "(string \<Rightarrow> nat) \<Rightarrow> (string, string list) dict \<Rightarrow> string list" where
  "ready_of pos remaining = sort_key pos (map fst (filter (\<lambda>(_, deps). deps = []) remaining))"

lemma ready_subset: "set (ready_of pos remaining) \<subseteq> set (map fst remaining)"
  by (auto simp: ready_of_def)

lemma drop_ready_shorter:
  assumes "ready_of pos remaining \<noteq> []"
  shows "length (drop_ready (ready_of pos remaining) remaining) < length remaining"
proof -
  obtain k where k: "k \<in> set (ready_of pos remaining)" using assms by (cases "ready_of pos remaining") auto
  then obtain d where "(k, d) \<in> set remaining" using ready_subset by fastforce
  then show ?thesis using k by (auto simp: drop_ready_def intro!: length_filter_less)
qed

text \<open>The \<open>while remaining\<close> loop: the order, and the modules left on a cycle.\<close>

function order_loop :: "(string \<Rightarrow> nat) \<Rightarrow> (string, string list) dict \<Rightarrow> string list \<times> string list" where
  "order_loop pos remaining =
     (if remaining = [] then ([], [])
      else (let ready = ready_of pos remaining in
        if ready = [] then ([], sort (map fst remaining))
        else (case order_loop pos (drop_ready ready remaining) of (order, cycle) \<Rightarrow> (ready @ order, cycle))))"
  by pat_completeness auto
termination
  by (relation "measure (\<lambda>(_, remaining). length remaining)") (auto simp: drop_ready_shorter)

declare order_loop.simps [simp del]

fun index_in :: "string list \<Rightarrow> string \<Rightarrow> nat" where
  "index_in [] x = 0"
| "index_in (y # ys) x = (if y = x then 0 else Suc (index_in ys x))"

definition batch_graph :: "candidate list \<Rightarrow> (string, string list) dict" where
  "batch_graph cs = map (\<lambda>c. (cd_id c, filter (\<lambda>d. d \<in> set (map cd_id cs)) (keys (cd_dependencies c)))) cs"

definition plan_order :: "candidate list \<Rightarrow> string list \<times> string list" where
  "plan_order cs = order_loop (index_in (map cd_id cs)) (batch_graph cs)"

subsection \<open>Putting the plan together\<close>

definition candidate_of :: "candidate list \<Rightarrow> string \<Rightarrow> candidate option" where
  "candidate_of cs m = find (\<lambda>c. cd_id c = m) cs"

definition plan_action_of :: "(string, cat_row) dict \<Rightarrow> (string, string) dict \<Rightarrow> (string, string list) dict \<Rightarrow> candidate \<Rightarrow> plan_action" where
  "plan_action_of installed sources disables c =
     (let source = dget sources (cd_id c); current = dget installed (case source of None \<Rightarrow> cd_id c | Some old \<Rightarrow> old) in
      \<lparr>pa_id = cd_id c, pa_version = cd_version c,
       pa_action = (if source \<noteq> None then ''rename'' else if has_key installed (cd_id c) then ''replace'' else ''install''),
       pa_previous = source, pa_current_version = map_option ct_version current, pa_dependencies = cd_dependencies c,
       pa_will_disable = get_or disables (cd_id c) []\<rparr>)"

text \<open>The replacement model after the install and what fresh replacements disable; nothing when the live model cannot be
  read or a version in it cannot be parsed.\<close>

definition replacement_view :: "module_world \<Rightarrow> candidate list \<Rightarrow> string list \<Rightarrow> (rp_model \<times> (string, string list) dict \<times> rp_model) option" where
  "replacement_view mw cs installed = (case live mw of None \<Rightarrow> None
     | Some m \<Rightarrow> (let model = replacement_install_model m cs in
         case install_disables (mw_tp mw) model (map cd_id cs) installed of Inl _ \<Rightarrow> None
         | Inr disables \<Rightarrow> Some (model, disables, with_enabled model (map (\<lambda>m. (m, False)) (concat (map snd disables))))))"

definition replacement_problems :: "module_world \<Rightarrow> candidate list \<Rightarrow> string list \<Rightarrow> mm_error + plan_problem list" where
  "replacement_problems mw cs installed = (case live mw of None \<Rightarrow> Inr [Replacement_State_Unreadable]
     | Some m \<Rightarrow> rbind (versioned (install_problems (mw_tp mw) (replacement_install_model m cs) (map cd_id cs) installed)) (\<lambda>ps. Inr (map Replacement_Problem ps)))"

definition category_problems :: "module_world \<Rightarrow> candidate list \<Rightarrow> plan_problem list" where
  "category_problems mw cs = (let dev = is_development_server (mw_tp mw) in
     List.map_filter (\<lambda>c. map_option Category_Refused (refusal_problem (mw_tp mw) (cd_id c) (PStr (cd_category c)) (Some dev))) cs)"

definition cycle_problems :: "string list \<Rightarrow> plan_problem list" where
  "cycle_problems cycle = (if cycle = [] then [] else [Dependency_Cycle cycle])"

definition resolve_install_plan :: "module_world \<Rightarrow> (string \<Rightarrow> string \<Rightarrow> string option) \<Rightarrow> candidate list \<Rightarrow> mm_error + install_plan" where
  "resolve_install_plan mw preflight cs =
     (let ids = map cd_id cs in
      if cs = [] then Inl Plan_Empty
      else if \<not> distinct ids then Inl Plan_Duplicate_Ids
      else rbind (installed_catalog_v2 mw) (\<lambda>rows.
        let installed = rows_by_id (filter (\<lambda>r. \<not> ct_legacy r) rows) in
        rbind (future_catalog installed installed cs) (\<lambda>future.
        let view = replacement_view mw cs (keys installed);
            disables = (case view of None \<Rightarrow> [] | Some (_, d, _) \<Rightarrow> d);
            model = (case view of None \<Rightarrow> [] | Some (_, _, m) \<Rightarrow> m) in
        rbind (rename_scan installed cs) (\<lambda>(renames, sources).
        rbind (rmap (candidate_checks (mw_tp mw) future model) cs) (\<lambda>checks.
        rbind (replacement_problems mw cs (keys installed)) (\<lambda>replacement.
        rbind (rmap (breaks_dependants future ids) future) (\<lambda>breaks.
        case plan_order cs of (order, cycle) \<Rightarrow>
          Inr \<lparr>ip_problems = renames @ concat (map (rename_breaks installed ids) sources) @ preflight_problems preflight sources @ concat (map fst checks)
                 @ category_problems mw cs @ replacement @ concat breaks @ cycle_problems cycle,
               ip_optional = concat (map snd checks), ip_order = order,
               ip_actions = map (plan_action_of installed sources disables) (List.map_filter (candidate_of cs) order),
               ip_will_disable = sort (dedup (concat (map snd disables)))\<rparr>)))))))"

subsection \<open>The order the operator asks for\<close>

definition strip_ids :: "pyval list \<Rightarrow> mm_error + string list" where
  "strip_ids vs = rmap (\<lambda>v. case v of PStr s \<Rightarrow> Inr (strip s) | _ \<Rightarrow> Inl Order_Not_Ids) vs"

definition order_break :: "string list \<Rightarrow> (string, plan_action) dict \<Rightarrow> (string \<times> string) option" where
  "order_break order actions = List.find (\<lambda>(m, d). d \<in> set order \<and> index_in order m < index_in order d)
     (concat (map (\<lambda>m. map (\<lambda>d. (m, d)) (case dget actions m of None \<Rightarrow> [] | Some a \<Rightarrow> keys (pa_dependencies a))) order))"

definition actions_by_id :: "install_plan \<Rightarrow> (string, plan_action) dict" where
  "actions_by_id p = fold (\<lambda>a. dset (pa_id a) a) (ip_actions p) []"

definition plan_with_requested_order :: "install_plan \<Rightarrow> pyval \<Rightarrow> mm_error + install_plan" where
  "plan_with_requested_order p requested = (case requested of
     PNone \<Rightarrow> Inr p
   | PList [] \<Rightarrow> Inr p
   | PList vs \<Rightarrow> rbind (strip_ids vs) (\<lambda>order.
       rcheck ([] \<in> set order \<or> \<not> distinct order) Order_Blank_Or_Duplicate
       (rcheck (length order \<noteq> length (ip_order p) \<or> set order \<noteq> set (ip_order p)) Order_Incomplete
       (let actions = actions_by_id p in case order_break order actions of
          Some (m, d) \<Rightarrow> Inl (Order_Breaks m d)
        | None \<Rightarrow> if list_all (has_key actions) order
            then Inr (p\<lparr>ip_order := order, ip_actions := List.map_filter (dget actions) order\<rparr>) else Inl Key_Error)))
   | _ \<Rightarrow> Inl Order_Not_Ids)"

end
