(* ===== verification/Module_Jobs.thy ===== *)
theory Module_Jobs
  imports Module_Plans
begin

text \<open>
  The jobs of \<open>module_manager_v2.py\<close> that switch modules: what stops a module from being enabled, the cascade of a
  disable, the hand-back of a replaced module, the confirmations an operator has to give, and the reconcile jobs of
  \<open>module_replacement.py\<close>. Queueing writes a job file and asks the root helper to start it; what the helper does later
  is seen here only as the status of the job.
\<close>

section \<open>Pending jobs\<close>

definition job_order :: "module_job \<Rightarrow> nat \<times> int" where
  "job_order j = (case jb_created j of None \<Rightarrow> (0, 0) | Some t \<Rightarrow> (1, t))"

definition pending_job :: "module_job \<Rightarrow> bool" where
  "pending_job j = (jb_action j \<in> {''enable'', ''disable'', ''batch_install'', ''bundle_install''} \<and> jb_status j \<in> {''queued'', ''dispatched'', ''running''})"

definition apply_job :: "module_job \<Rightarrow> rp_model \<Rightarrow> rp_model" where
  "apply_job j model =
     (let m1 = (if jb_action j \<in> {''enable'', ''disable''}
           then fold (\<lambda>i. set_node i (jb_action j = ''enable'')) (if jb_affected j = [] then [jb_plugin j] else jb_affected j) model else model);
          m2 = fold (\<lambda>i. set_node i False) (jb_disable j) m1 in
      fold (\<lambda>i. set_node i True) (jb_enable j) m2)"

definition model_with_pending_jobs :: "module_world \<Rightarrow> rp_model \<Rightarrow> rp_model" where
  "model_with_pending_jobs mw model = fold apply_job (sort_key job_order (filter pending_job (mw_jobs mw))) model"

definition planning_model :: "module_world \<Rightarrow> mm_error + rp_model" where
  "planning_model mw = (case live mw of None \<Rightarrow> Inl State_Failed | Some m \<Rightarrow> Inr (model_with_pending_jobs mw m))"

section \<open>Enabling\<close>

definition enable_dependency :: "tp_world \<Rightarrow> (string, cat_row) dict \<Rightarrow> rp_model \<Rightarrow> string \<Rightarrow> bool \<Rightarrow> string \<times> string \<Rightarrow> mm_error + plan_problem list" where
  "enable_dependency w catalog model m hypo dep = (case dep of (dep_id, constraint) \<Rightarrow>
     (case dget catalog dep_id of
       None \<Rightarrow> Inr [Missing_Dependency m dep_id constraint]
     | Some row \<Rightarrow>
         (let on = (case dget model dep_id of None \<Rightarrow> ct_enabled row | Some n \<Rightarrow> if hypo then nd_enabled n else ct_enabled row);
              off = (if \<not> on \<and> satisfies_dependency w model dep_id = None then [Disabled_Dependency m dep_id constraint] else []) in
          rbind (versioned (version_satisfies (version_or_zero (ct_version row)) constraint)) (\<lambda>ok.
            Inr (off @ (if ok then [] else [Dependency_Version m dep_id constraint (ct_version row)]))))))"

definition enable_problems :: "tp_world \<Rightarrow> (string, cat_row) dict \<Rightarrow> rp_model \<Rightarrow> cat_row \<Rightarrow> bool \<Rightarrow> mm_error + plan_problem list" where
  "enable_problems w catalog model target hypo = (let m = ct_id target in
     rbind (rmap (enable_dependency w catalog model m hypo) (ct_dependencies target)) (\<lambda>deps.
     rbind (versioned (rp_enable_problems w model m)) (\<lambda>rp.
       Inr (concat deps @ map (Runtime_Unmet m) (filter (\<lambda>r. \<not> rc_satisfied r) (ct_runtime target)) @ map Replacement_Problem rp))))"

definition replacement_dependants :: "(string, cat_row) dict \<Rightarrow> rp_model \<Rightarrow> string \<Rightarrow> string list \<Rightarrow> (string \<times> string list) list" where
  "replacement_dependants catalog model m replacements = List.map_filter (\<lambda>r.
     let names = map ct_id (filter (\<lambda>item. \<not> (ct_legacy item \<or> ct_id item \<in> {m, r} \<or> \<not> has_key (ct_dependencies item) r) \<and>
           (case dget model (ct_id item) of None \<Rightarrow> ct_enabled item | Some n \<Rightarrow> nd_enabled n)) (sort_key ct_id (map snd catalog))) in
     if names = [] then None else Some (r, names)) replacements"

record enable_answer =
  ea_problems :: "plan_problem list"
  ea_will_disable :: "string list"
  ea_dependants :: "(string \<times> string list) list"

definition validate_enable :: "module_world \<Rightarrow> string \<Rightarrow> mm_error + enable_answer" where
  "validate_enable mw m = rbind (installed_catalog_v2 mw) (\<lambda>rows. let catalog = rows_by_id rows in
     (case dget catalog m of None \<Rightarrow> Inl (Not_Installed m)
     | Some target \<Rightarrow>
         if ct_protected target then Inl Protected_Module
         else rbind (planning_model mw) (\<lambda>model.
           rbind (enable_problems (mw_tp mw) catalog model target False) (\<lambda>problems.
           rbind (if problems = [] then versioned (disable_plan (mw_tp mw) model m) else Inr []) (\<lambda>will_disable.
             Inr \<lparr>ea_problems = problems, ea_will_disable = will_disable,
               ea_dependants = (if will_disable \<noteq> [] \<and> switches_replacement model m then replacement_dependants catalog model m will_disable else [])\<rparr>)))))"

definition confirmed_disables :: "string list \<Rightarrow> pyval \<Rightarrow> mm_error + string list" where
  "confirmed_disables will_disable given = (let needed = sort (dedup will_disable) in
     if needed = [] then Inr []
     else if (case given of PList vs \<Rightarrow> sort (dedup (map py_str vs)) | _ \<Rightarrow> []) \<noteq> needed then Inl (Confirmation_Required needed)
     else Inr needed)"

section \<open>Disabling\<close>

text \<open>An enabled dependant of a module, and whether it depends only on the module that one replaces (\<open>via\<close>).\<close>

definition watched :: "string option \<Rightarrow> string \<Rightarrow> (string, bool) dict" where
  "watched replaced m = (case replaced of None \<Rightarrow> [(m, False)] | Some t \<Rightarrow> dset t True [(m, False)])"

definition depends_on :: "cat_row \<Rightarrow> string \<Rightarrow> bool" where
  "depends_on r m = (get_or (ct_dependencies r) m [] \<noteq> [])"

definition dependant_of :: "pydict \<Rightarrow> string option \<Rightarrow> string \<Rightarrow> cat_row \<Rightarrow> (string \<times> bool) option" where
  "dependant_of state replaced m r =
     (if ct_legacy r \<or> \<not> is_enabled (ct_id r) state \<or> ct_id r = m then None
      else map_option (\<lambda>(_, via). (ct_id r, via)) (find (\<lambda>(x, _). depends_on r x) (watched replaced m)))"

definition enabled_dependants :: "tp_world \<Rightarrow> cat_row list \<Rightarrow> pydict \<Rightarrow> rp_model option \<Rightarrow> string \<Rightarrow> (string \<times> bool) list" where
  "enabled_dependants w rows state model m =
     (let replaced = (case model of None \<Rightarrow> None | Some mo \<Rightarrow> honoured_replacement w mo m) in List.map_filter (dependant_of state replaced m) rows)"

definition split_one :: "tp_world \<Rightarrow> (string, cat_row) dict \<Rightarrow> rp_model \<Rightarrow> string \<Rightarrow> mm_error + string \<times> plan_problem list" where
  "split_one w catalog future back = (case dget catalog back of
     None \<Rightarrow> Inr (back, [Not_Manageable back])
   | Some item \<Rightarrow> if ct_protected item \<or> \<not> ct_managed item then Inr (back, [Not_Manageable back])
       else rbind (enable_problems w catalog future item True) (\<lambda>ps. Inr (back, ps)))"

definition hand_back_split :: "tp_world \<Rightarrow> (string, cat_row) dict \<Rightarrow> rp_model \<Rightarrow> string list \<Rightarrow> string list \<Rightarrow> mm_error + string list \<times> (string \<times> plan_problem list) list" where
  "hand_back_split w catalog model will_enable off =
     (let future = with_enabled model (map (\<lambda>m. (m, False)) off) in
      rbind (rmap (split_one w catalog future) will_enable) (\<lambda>rows.
        Inr (map fst (filter (\<lambda>r. snd r = []) rows), filter (\<lambda>r. snd r \<noteq> []) rows)))"

definition hand_back_wanted :: "rp_model \<Rightarrow> string list \<Rightarrow> string list" where
  "hand_back_wanted model affected =
     (let off = dedup affected in
      fold (\<lambda>m wanted. fold (\<lambda>back out. if back \<notin> set out \<and> back \<notin> set off then out @ [back] else out)
          (hand_back_plan (with_enabled model (map (\<lambda>x. (x, False)) (filter (\<lambda>x. x \<noteq> m) off))) m) wanted) off [])"

text \<open>The recursive \<open>visit\<close> of a cascade, over the set of seen modules and the list of affected ones. \<open>None\<close> is running out
  of depth.\<close>

type_synonym visit_state = "string list \<times> string list"

fun visit_list :: "(string \<Rightarrow> visit_state \<Rightarrow> visit_state option) \<Rightarrow> string list \<Rightarrow> visit_state \<Rightarrow> visit_state option" where
  "visit_list go [] st = Some st"
| "visit_list go (d # ds) st = (if d \<in> set (fst st) then visit_list go ds st
     else (case go d (d # fst st, snd st) of None \<Rightarrow> None | Some (seen, affected) \<Rightarrow> visit_list go ds (seen, affected @ [d])))"

primrec visit :: "nat \<Rightarrow> (string \<Rightarrow> string list) \<Rightarrow> string \<Rightarrow> visit_state \<Rightarrow> visit_state option" where
  "visit 0 deps m st = None"
| "visit (Suc n) deps m st = visit_list (visit n deps) (deps m) st"

definition cascade :: "(string \<Rightarrow> string list) \<Rightarrow> nat \<Rightarrow> string \<Rightarrow> mm_error + string list" where
  "cascade deps depth m = (case visit depth deps m ([], [m]) of None \<Rightarrow> Inl Recursion_Error
     | Some (_, affected) \<Rightarrow> Inr (filter (\<lambda>x. x \<noteq> m) affected @ [m]))"

text \<open>\<open>dependants_of\<close>: while the replaced module comes back, its own dependants do not count against the replacement.\<close>

definition dependants_of :: "tp_world \<Rightarrow> cat_row list \<Rightarrow> pydict \<Rightarrow> rp_model option \<Rightarrow> string \<Rightarrow> string list \<Rightarrow> string \<Rightarrow> string list" where
  "dependants_of w rows state model m coming_back x =
     map fst (filter (\<lambda>(_, via). \<not> (coming_back \<noteq> [] \<and> x = m \<and> via)) (enabled_dependants w rows state model x))"

definition new_job :: "module_world \<Rightarrow> string \<Rightarrow> string \<Rightarrow> string list \<Rightarrow> module_job" where
  "new_job mw action m affected = \<lparr>jb_action = action, jb_status = ''queued'', jb_created = Some (mw_now mw), jb_plugin = m, jb_affected = affected,
     jb_disable = [], jb_enable = [], jb_skipped = [], jb_confirmed = False, jb_reason = [], jb_visible = None\<rparr>"

definition queue_v2 :: "module_job \<Rightarrow> module_world \<Rightarrow> (mm_error + module_job) \<times> module_world" where
  "queue_v2 job mw =
     (if mw_dispatch_ok mw then (Inr job, mw\<lparr>mw_jobs := mw_jobs mw @ [job]\<rparr>)
      else (Inl Dispatch_Failed, mw\<lparr>mw_jobs := mw_jobs mw @ [job\<lparr>jb_status := ''dispatch_failed''\<rparr>]\<rparr>))"

definition plan_enable :: "module_world \<Rightarrow> (string, cat_row) dict \<Rightarrow> string \<Rightarrow> pyval \<Rightarrow> bool \<Rightarrow> mm_error + module_job" where
  "plan_enable mw catalog m disable_replaced confirm_switch = rbind (validate_enable mw m) (\<lambda>answer.
     rcheck (ea_problems answer \<noteq> []) Cannot_Enable
     (rbind (confirmed_disables (ea_will_disable answer) disable_replaced) (\<lambda>disables.
      rbind (planning_model mw) (\<lambda>model.
        let switching = (disables \<noteq> [] \<and> switches_replacement model m) in
        rcheck (switching \<and> \<not> confirm_switch) (Second_Confirmation disables (replacement_dependants catalog model m disables))
        (Inr ((new_job mw ''enable'' m [m])\<lparr>jb_disable := disables, jb_confirmed := switching\<rparr>))))))"

definition plan_disable :: "module_world \<Rightarrow> cat_row list \<Rightarrow> pydict \<Rightarrow> string \<Rightarrow> bool \<Rightarrow> bool \<Rightarrow> mm_error + module_job" where
  "plan_disable mw rows state m cascade_on confirm_without =
     (let catalog = rows_by_id rows; w = mw_tp mw in
      rbind (planning_model mw) (\<lambda>model.
      let first_plan = hand_back_plan model m in
      rbind (if first_plan = [] then Inr ([], []) else hand_back_split w catalog model first_plan [m]) (\<lambda>(coming_back, _).
      let deps = dependants_of w rows state (live mw) m coming_back in
      rcheck (deps m \<noteq> [] \<and> \<not> cascade_on) (Required_By (deps m))
      (rbind (if cascade_on then cascade deps (Suc (length rows)) m else Inr [m]) (\<lambda>affected.
       let wanted = hand_back_wanted model affected in
       rbind (if wanted = [] then Inr ([], []) else hand_back_split w catalog model wanted affected) (\<lambda>(back, cannot).
         rcheck (cannot \<noteq> [] \<and> \<not> confirm_without) (Hand_Back_Confirmation back (map fst cannot))
         (Inr ((new_job mw ''disable'' m affected)\<lparr>jb_enable := back, jb_skipped := sort (map fst cannot)\<rparr>))))))))"

definition queue_set_enabled ::
    "string \<Rightarrow> bool \<Rightarrow> bool \<Rightarrow> pyval \<Rightarrow> bool \<Rightarrow> bool \<Rightarrow> module_world \<Rightarrow> (mm_error + module_job) \<times> module_world" where
  "queue_set_enabled m enabled cascade_on disable_replaced confirm_switch confirm_without mw = (case installed_catalog_v2 mw of
     Inl e \<Rightarrow> (Inl e, mw)
   | Inr rows \<Rightarrow> (case dget (rows_by_id rows) m of
       None \<Rightarrow> (Inl (Not_Installed m), mw)
     | Some target \<Rightarrow>
         if \<not> ct_managed target then (Inl Protected_Module, mw)
         else (case load_state (mw_modules mw) of Inl _ \<Rightarrow> (Inl State_Failed, mw)
           | Inr state \<Rightarrow> (case (if enabled then plan_enable mw (rows_by_id rows) m disable_replaced confirm_switch
                else plan_disable mw rows state m cascade_on confirm_without) of
               Inl e \<Rightarrow> (Inl e, mw)
             | Inr job \<Rightarrow> queue_v2 job mw))))"

section \<open>Validation without a job\<close>

record disable_answer =
  da_will_enable :: "string list"
  da_unavailable :: "(string \<times> plan_problem list) list"

definition validate_disable :: "module_world \<Rightarrow> string \<Rightarrow> string list \<Rightarrow> mm_error + disable_answer" where
  "validate_disable mw m affected = rbind (installed_catalog_v2 mw) (\<lambda>rows. let catalog = rows_by_id rows in
     (case dget catalog m of None \<Rightarrow> Inl (Not_Installed m)
     | Some target \<Rightarrow>
         if ct_protected target then Inl Protected_Module
         else rbind (planning_model mw) (\<lambda>model.
           let off = dedup (affected @ [m]); wanted = hand_back_wanted model off in
           rbind (if wanted = [] then Inr ([], []) else hand_back_split (mw_tp mw) catalog model wanted off) (\<lambda>(can, cannot).
             Inr \<lparr>da_will_enable = can, da_unavailable = cannot\<rparr>))))"

definition validate_remove :: "module_world \<Rightarrow> string \<Rightarrow> mm_error + (string \<times> bool) list" where
  "validate_remove mw m = rbind (installed_catalog_v2 mw) (\<lambda>rows. case load_state (mw_modules mw) of
     Inl _ \<Rightarrow> Inl State_Failed | Inr state \<Rightarrow> Inr (enabled_dependants (mw_tp mw) rows state (live mw) m))"

definition queue_set_visibility :: "string \<Rightarrow> bool \<Rightarrow> module_world \<Rightarrow> (mm_error + module_job) \<times> module_world" where
  "queue_set_visibility m visible mw = (case installed_catalog_v2 mw of
     Inl e \<Rightarrow> (Inl e, mw)
   | Inr rows \<Rightarrow> (case dget (rows_by_id rows) m of
       None \<Rightarrow> (Inl (Not_Installed m), mw)
     | Some target \<Rightarrow> if \<not> ct_managed target then (Inl Protected_Module, mw) else queue_v2 ((new_job mw ''visibility'' m [])\<lparr>jb_visible := Some visible\<rparr>) mw))"

section \<open>Reconcile jobs\<close>

definition recent_reconcile :: "module_world \<Rightarrow> string \<Rightarrow> int option" where
  "recent_reconcile mw m = (let times = List.map_filter jb_created (filter (\<lambda>j. jb_reason j = ''replacement_conflict'' \<and> jb_plugin j = m) (mw_jobs mw)) in
     if m = [] \<or> times = [] then None else Some (Max (set times)))"

definition queue_replacement_conflict_disable :: "string \<Rightarrow> module_world \<Rightarrow> (mm_error + module_job) \<times> module_world" where
  "queue_replacement_conflict_disable r mw = queue_v2 ((new_job mw ''disable'' r [r])\<lparr>jb_reason := ''replacement_conflict''\<rparr>) mw"

definition reconcile_interval :: int where
  "reconcile_interval = 3600 * 1000000"

definition reconcile_due :: "module_world \<Rightarrow> (string \<times> string) list \<Rightarrow> string \<times> string \<Rightarrow> bool" where
  "reconcile_due mw unresolved pair = (pair \<in> set unresolved \<and>
     (case recent_reconcile mw (fst pair) of None \<Rightarrow> True | Some last_job \<Rightarrow> reconcile_interval \<le> mw_now mw - last_job))"

definition reconcile_conflicts :: "module_world \<Rightarrow> module_world" where
  "reconcile_conflicts mw = (case live mw of None \<Rightarrow> mw
     | Some model \<Rightarrow> (let unresolved = conflicted_replacements (model_with_pending_jobs mw model) in
         fold (\<lambda>pair v. snd (queue_replacement_conflict_disable (fst pair) v)) (filter (reconcile_due mw unresolved) (conflicted_replacements model)) mw))"

end
