(* ===== verification/Module_Switching.thy ===== *)
theory Module_Switching
  imports Module_Jobs
begin

text \<open>
  What the switching jobs keep: a replacement and the module it replaces are never both planned to be on, a replacement
  that is enabled is honoured and alone, a cascade ends and leaves nothing behind, and conflicts that are found are
  resolved.
\<close>

section \<open>Models\<close>

definition model_ok :: "rp_model \<Rightarrow> bool" where
  "model_ok model = (distinct (map fst model) \<and> (\<forall>(k, n) \<in> set model. nd_id n = k))"

lemma model_node: "model_ok model \<Longrightarrow> dget model k = Some n \<Longrightarrow> nd_id n = k"
  by (auto simp: model_ok_def dest: map_of_SomeD)

lemma model_values:
  assumes "model_ok model"
  shows "n \<in> set (map snd model) \<longleftrightarrow> dget model (nd_id n) = Some n"
proof
  assume "n \<in> set (map snd model)"
  then obtain k where k: "(k, n) \<in> set model" by auto
  then have "nd_id n = k" using assms by (auto simp: model_ok_def)
  then show "dget model (nd_id n) = Some n" using k assms by (simp add: model_ok_def)
next
  assume "dget model (nd_id n) = Some n"
  then show "n \<in> set (map snd model)" by (force dest: map_of_SomeD)
qed

lemma model_ok_dset: "model_ok model \<Longrightarrow> nd_id n = k \<Longrightarrow> model_ok (dset k n model)"
  using set_dset [of k n model] by (auto simp: model_ok_def distinct_update)

lemma set_node_get: "dget (set_node i e model) k = (if k = i then map_option (nd_enabled_update (\<lambda>_. e)) (dget model i) else dget model k)"
  by (cases "dget model i") (auto simp: set_node_def AList.update_conv)

lemma set_node_ok: "model_ok model \<Longrightarrow> model_ok (set_node i e model)"
  by (auto simp: set_node_def model_ok_dset model_node split: option.splits)

lemma fold_set_node_ok: "model_ok model \<Longrightarrow> model_ok (fold (\<lambda>i. set_node i e) xs model)"
  by (induction xs arbitrary: model) (simp_all add: set_node_ok)

lemma fold_set_node_get:
  "dget (fold (\<lambda>i. set_node i e) xs model) k = map_option (\<lambda>n. if k \<in> set xs then n\<lparr>nd_enabled := e\<rparr> else n) (dget model k)"
proof (induction xs arbitrary: model)
  case Nil
  show ?case by (cases "dget model k") simp_all
next
  case (Cons x xs)
  show ?case by (cases "dget model k") (auto simp: Cons set_node_get)
qed

lemma with_enabled_const: "with_enabled model (map (\<lambda>i. (i, e)) xs) = fold (\<lambda>i. set_node i e) xs model"
  by (simp add: with_enabled_def fold_map comp_def)

lemma with_enabled_one: "with_enabled model [(i, e)] = set_node i e model"
  by (simp add: with_enabled_def)

lemma live_model_ok: "model_ok (live_model plugins state)"
proof -
  have "model_ok (fold (\<lambda>p m. if \<not> pl_extension p \<or> pl_legacy p then m else dset (pl_id p) (plugin_node state p) m) plugins m)" if "model_ok m" for m
    using that
  proof (induction plugins arbitrary: m)
    case (Cons p ps)
    have "model_ok (dset (pl_id p) (plugin_node state p) m)"
      using Cons.prems by (intro model_ok_dset) (simp_all add: plugin_node_def)
    then show ?case using Cons by simp
  qed simp
  moreover have "model_ok []" by (simp add: model_ok_def)
  ultimately show ?thesis unfolding live_model_def by blast
qed

lemma live_model_nodes:
  assumes "dget (live_model plugins state) k = Some n"
  shows "\<exists>p \<in> set plugins. pl_id p = k \<and> n = plugin_node state p"
proof -
  have "dget (fold (\<lambda>p m. if \<not> pl_extension p \<or> pl_legacy p then m else dset (pl_id p) (plugin_node state p) m) ps d) k = Some n \<Longrightarrow>
      dget d k = Some n \<or> (\<exists>p \<in> set ps. pl_id p = k \<and> n = plugin_node state p)" for ps d
  proof (induction ps arbitrary: d)
    case (Cons p ps)
    let ?d = "if \<not> pl_extension p \<or> pl_legacy p then d else dset (pl_id p) (plugin_node state p) d"
    have "dget ?d k = Some n \<or> (\<exists>p \<in> set ps. pl_id p = k \<and> n = plugin_node state p)" using Cons.IH [of ?d] Cons.prems by simp
    then show ?case by (cases "k = pl_id p") (auto simp: AList.update_conv split: if_splits)
  qed simp
  from this [of plugins "[]"] show ?thesis using assms by (simp add: live_model_def)
qed

lemma apply_job_ok: "model_ok model \<Longrightarrow> model_ok (apply_job j model)"
  by (simp add: apply_job_def Let_def fold_set_node_ok)

lemma pending_ok: "model_ok model \<Longrightarrow> model_ok (model_with_pending_jobs mw model)"
proof -
  have "model_ok (fold apply_job js m)" if "model_ok m" for js m using that by (induction js arbitrary: m) (simp_all add: apply_job_ok)
  then show "model_ok model \<Longrightarrow> ?thesis" by (simp add: model_with_pending_jobs_def)
qed

lemma planning_model_ok: "planning_model mw = Inr model \<Longrightarrow> model_ok model"
  by (auto simp: planning_model_def live_def live_model_ok pending_ok split: option.splits sum.splits)

section \<open>Honoured replacements\<close>

lemma other_claims_iff:
  assumes "model_ok model"
  shows "other_claims model node r \<longleftrightarrow> (\<exists>k n. dget model k = Some n \<and> k \<noteq> r \<and> nd_enabled n \<and> nd_replaces n = nd_replaces node)"
proof
  assume "other_claims model node r"
  then obtain n where "n \<in> set (map snd model)" "nd_id n \<noteq> r" "nd_enabled n" "nd_replaces n = nd_replaces node"
    by (auto simp: other_claims_def list_ex_iff)
  then show "\<exists>k n. dget model k = Some n \<and> k \<noteq> r \<and> nd_enabled n \<and> nd_replaces n = nd_replaces node" using model_values [OF assms] by blast
next
  assume "\<exists>k n. dget model k = Some n \<and> k \<noteq> r \<and> nd_enabled n \<and> nd_replaces n = nd_replaces node"
  then obtain k n where n: "dget model k = Some n" "k \<noteq> r" "nd_enabled n" "nd_replaces n = nd_replaces node" by blast
  then have "nd_id n = k" "n \<in> set (map snd model)" using model_node [OF assms] model_values [OF assms] by auto
  then show "other_claims model node r" using n by (auto simp: other_claims_def list_ex_iff simp del: set_map)
qed

text \<open>The conditions under which a replacement is honoured, as the check reads them.\<close>

lemma check_none:
  assumes "check w model r assumed = Inr (None, fs)"
  obtains node target where "dget model r = Some node" "nd_replaces node \<noteq> []" "nd_enabled node \<or> assumed"
    "replacement_category_ok w (PStr (nd_category node)) None" "dget model (nd_replaces node) = Some target"
    "nd_category target \<in> set replaceable_categories" "\<not> nd_enabled target" "\<not> other_claims model node r"
    "nd_capabilities target \<noteq> None" "parity target node = Inr (None, fs)"
  using assms by (auto simp: check_def split: option.splits if_splits)

lemma category_apart:
  assumes "replacement_category_ok w (PStr c) d"
  shows "c \<notin> set replaceable_categories"
proof
  assume "c \<in> set replaceable_categories"
  moreover have "clean_lower (PStr ''core'') = ''core''" "clean_lower (PStr ''server'') = ''server''" by code_simp+
  ultimately have "clean_lower (PStr c) = c \<and> c \<noteq> [] \<and> c \<noteq> ''premium''" unfolding replaceable_categories_def by (elim set_ConsD [THEN disjE]) simp_all
  then show False using assms unfolding replacement_category_ok_def Let_def by auto
qed

lemma honoured_check: "model_ok model \<Longrightarrow> honoured_replacement w model m = Some t \<Longrightarrow>
    \<exists>fs node. dget model m = Some node \<and> nd_replaces node = t \<and> check w model m False = Inr (None, fs)"
  by (auto simp: honoured_replacement_def model_node split: option.splits if_splits sum.splits)

definition covers :: "(string, string) dict \<Rightarrow> (string, string) dict \<Rightarrow> bool" where
  "covers offered expected = (\<forall>(c, want) \<in> set expected. \<exists>got a b. dget offered c = Some got \<and> parse_version want = Inr a \<and> parse_version got = Inr b \<and>
     major b = major a \<and> (minor a, patch a) \<le> (minor b, patch b))"

lemma within_declared: "version_within_declared want got = Inr None \<Longrightarrow>
    \<exists>a b. parse_version want = Inr a \<and> parse_version got = Inr b \<and> major b = major a \<and> (minor a, patch a) \<le> (minor b, patch b)"
  by (auto simp: version_within_declared_def not_less split: sum.splits version_error.splits if_splits)

lemma map_filter_none: "List.map_filter id xs = [] \<longleftrightarrow> set xs \<subseteq> {None}"
  by (induction xs) (auto simp: map_filter_simps split: option.splits)

lemma parity_covers:
  assumes "parity target node = Inr (None, fs)" and "distinct (map fst (caps_of target))"
  shows "covers (caps_of node) (caps_of target)"
proof -
  obtain rows where r: "rmap (parity_row target node) (sort (keys (caps_of target))) = Inr rows" using assms(1) by (auto simp: parity_def)
  then have rows: "rmap (parity_row target node) (sort (keys (caps_of target))) = Inr rows" "List.map_filter id rows = []"
    using assms(1) by (cases "List.map_filter id rows"; simp add: parity_def Let_def)+
  have "\<exists>got a b. dget (caps_of node) c = Some got \<and> parse_version want = Inr a \<and> parse_version got = Inr b \<and> major b = major a \<and> (minor a, patch a) \<le> (minor b, patch b)"
    if c: "(c, want) \<in> set (caps_of target)" for c want
  proof -
    have "c \<in> set (sort (keys (caps_of target)))" using c by (force simp: keys_def)
    then obtain i where i: "i < length (sort (keys (caps_of target)))" "sort (keys (caps_of target)) ! i = c" unfolding in_set_conv_nth by blast
    have all: "list_all2 (\<lambda>x y. parity_row target node x = Inr y) (sort (keys (caps_of target))) rows" using rows(1) by (simp only: rmap_Inr_iff)
    then have "rows ! i \<in> set rows" using i(1) by (intro nth_mem) (simp only: list_all2_lengthD)
    then have row: "parity_row target node c = Inr (rows ! i)" "rows ! i = None"
      using list_all2_nthD [OF all i(1)] i(2) rows(2) by (auto simp: map_filter_none)
    have "get_or (caps_of target) c [] = want" using c assms(2) by (simp add: get_or_def)
    then show ?thesis using row within_declared by (auto simp: parity_row_def Let_def split: option.splits)
  qed
  then show ?thesis by (auto simp: covers_def)
qed

section \<open>Conflicts\<close>

definition in_conflict :: "rp_model \<Rightarrow> string \<Rightarrow> string \<Rightarrow> bool" where
  "in_conflict model r t = (\<exists>n target. dget model r = Some n \<and> nd_enabled n \<and> nd_replaces n = t \<and> t \<noteq> [] \<and> dget model t = Some target \<and>
     nd_enabled target \<and> nd_category target \<in> set replaceable_categories)"

lemma conflicted_iff:
  assumes "model_ok model"
  shows "(r, t) \<in> set (conflicted_replacements model) \<longleftrightarrow> in_conflict model r t"
proof
  assume "(r, t) \<in> set (conflicted_replacements model)"
  then obtain n where n: "n \<in> set (map snd model)" "conflict_of model n = Some (r, t)"
    by (auto simp: conflicted_replacements_def set_map_filter by_id_def)
  then have "dget model (nd_id n) = Some n" using model_values [OF assms] by blast
  moreover obtain target where "dget model (nd_replaces n) = Some target" "nd_replaces n \<noteq> []" "nd_enabled n" "nd_enabled target"
    "nd_category target \<in> set replaceable_categories" "r = nd_id n" "t = nd_id target"
    using n(2) unfolding conflict_of_def by (simp split: if_splits option.splits)
  moreover have "nd_id target = nd_replaces n" using model_node [OF assms] calculation by blast
  ultimately show "in_conflict model r t" unfolding in_conflict_def by (intro exI [of _ n] exI [of _ target]) simp
next
  assume "in_conflict model r t"
  then obtain n target where n: "dget model r = Some n" "nd_enabled n" "nd_replaces n = t" "t \<noteq> []" "dget model t = Some target"
    "nd_enabled target" "nd_category target \<in> set replaceable_categories" by (auto simp: in_conflict_def)
  have ids: "nd_id n = r" "nd_id target = t" using n model_node [OF assms] by blast+
  have "conflict_of model n = Some (r, t)" using n ids by (simp add: conflict_of_def)
  moreover have "n \<in> set (by_id model)" using n(1) ids model_values [OF assms, of n] by (simp add: by_id_def)
  ultimately show "(r, t) \<in> set (conflicted_replacements model)" by (auto simp: conflicted_replacements_def set_map_filter)
qed

lemma no_conflicts_iff: "model_ok model \<Longrightarrow> conflicted_replacements model = [] \<longleftrightarrow> (\<forall>r t. \<not> in_conflict model r t)"
  using conflicted_iff [of model] by (metis list.set_intros(1) neq_Nil_conv empty_iff list.set(1) surj_pair)

section \<open>Enabling\<close>

lemma problem_of_none: "problem_of node answer = [] \<longleftrightarrow> fst answer = None"
  by (auto simp: problem_of_def split: prod.splits option.splits)

text \<open>What an enable job does to the model it was planned on.\<close>

lemma enable_job_get:
  assumes "jb_action j = ''enable''" and "jb_affected j = [m]" and "jb_enable j = []"
  shows "dget (apply_job j model) k = map_option (\<lambda>n. if k \<in> set (jb_disable j) then n\<lparr>nd_enabled := False\<rparr> else if k = m then n\<lparr>nd_enabled := True\<rparr> else n) (dget model k)"
  using assms by (cases "dget model k") (auto simp: apply_job_def fold_set_node_get set_node_get)

lemma hypothetical_get:
  assumes "model_ok model" and "hypothetical model node will blocked = (future, disables)"
  shows "dget future k = map_option (\<lambda>n. if k \<in> set disables then n\<lparr>nd_enabled := False\<rparr> else n) (dget model k)"
    and "set disables \<subseteq> {nd_replaces node}" and "model_ok future"
proof -
  have cases: "future = model \<and> disables = [] \<or> (\<exists>t. dget model (nd_replaces node) = Some t \<and> nd_id t = nd_replaces node \<and> future = set_node (nd_id t) False model \<and> disables = [nd_id t])"
    using assms model_node [OF assms(1)] by (auto simp: hypothetical_def with_enabled_one split: option.splits if_splits)
  show "dget future k = map_option (\<lambda>n. if k \<in> set disables then n\<lparr>nd_enabled := False\<rparr> else n) (dget model k)"
    using cases by (cases "dget model k") (auto simp: set_node_get)
  show "set disables \<subseteq> {nd_replaces node}" using cases by auto
  show "model_ok future" using cases assms(1) set_node_ok by auto
qed

lemma replacements_of_iff:
  assumes "model_ok model"
  shows "r \<in> set (replacements_of model m) \<longleftrightarrow> (\<exists>t n. dget model m = Some t \<and> nd_category t \<in> set replaceable_categories \<and>
    dget model r = Some n \<and> nd_enabled n \<and> nd_replaces n = m \<and> r \<noteq> m)"
proof -
  have "(\<exists>n \<in> set (map snd model). nd_id n = r \<and> P n) \<longleftrightarrow> (\<exists>n. dget model r = Some n \<and> P n)" for P
    using model_values [OF assms] model_node [OF assms] by metis
  from this [of "\<lambda>n. nd_enabled n \<and> nd_replaces n = m \<and> r \<noteq> m"]
  show ?thesis by (cases "dget model m") (auto simp: replacements_of_def image_iff Bex_def)
qed

lemma core_replaces_nothing:
  assumes ok: "model_ok model" and node: "dget model m = Some node" and rp: "rp_enable_problems w model m = Inr []"
    and cat: "nd_category node \<in> set replaceable_categories"
  shows "nd_replaces node = []"
proof (rule ccontr)
  assume "nd_replaces node \<noteq> []"
  then obtain fs where "check w (fst (hypothetical model node (\<not> nd_enabled node) [])) m True = Inr (None, fs)"
    using node rp by (auto simp: rp_enable_problems_def problem_of_none)
  then obtain node' where "dget (fst (hypothetical model node (\<not> nd_enabled node) [])) m = Some node'" "replacement_category_ok w (PStr (nd_category node')) None"
    by (elim check_none)
  then show False using hypothetical_get(1) [OF ok, of node "\<not> nd_enabled node" "[]" _ _ m] node cat category_apart
    by (cases "hypothetical model node (\<not> nd_enabled node) []") (auto split: if_splits)
qed

lemma disable_plan_replaces:
  assumes "model_ok model" and "dget model m = Some node" and "nd_replaces node \<noteq> []"
    and "rp_enable_problems w model m = Inr []" and "disable_plan w model m = Inr will"
  obtains fs where "check w (fst (hypothetical model node (\<not> nd_enabled node) [])) m True = Inr (None, fs)"
    and "snd (hypothetical model node (\<not> nd_enabled node) []) = will"
proof -
  obtain future disables where h: "hypothetical model node (\<not> nd_enabled node) [] = (future, disables)" by (cases "hypothetical model node (\<not> nd_enabled node) []")
  obtain fs where c: "check w future m True = Inr (None, fs)"
    using assms(2-4) h by (auto simp: rp_enable_problems_def problem_of_none)
  have "disables = will"
  proof (cases "nd_enabled node")
    case True
    then have "disables = []" using h by (auto simp: hypothetical_def split: option.splits)
    then show ?thesis using True assms(2,5) by (simp add: disable_plan_def)
  next
    case False
    then show ?thesis using assms(2,3,5) h c by (auto simp: disable_plan_def split: if_splits)
  qed
  then show ?thesis using that c h by simp
qed

text \<open>Enabling leaves no conflict, and a replacement it enables is honoured.\<close>

lemma enable_effect:
  assumes ok: "model_ok model" and rp: "rp_enable_problems w model m = Inr []" and plan: "disable_plan w model m = Inr will"
    and job: "jb_action j = ''enable''" "jb_affected j = [m]" "jb_enable j = []" "set (jb_disable j) = set will"
    and calm: "\<And>r t. \<not> in_conflict model r t"
  shows "\<not> in_conflict (apply_job j model) r t"
proof
  note get = enable_job_get [OF job(1-3), of model, unfolded job(4)]
  assume "in_conflict (apply_job j model) r t"
  then obtain n target where c: "dget (apply_job j model) r = Some n" "nd_enabled n" "nd_replaces n = t" "t \<noteq> []"
    "dget (apply_job j model) t = Some target" "nd_enabled target" "nd_category target \<in> set replaceable_categories" by (auto simp: in_conflict_def)
  obtain n0 where n: "dget model r = Some n0" "n = (if r \<in> set will then n0\<lparr>nd_enabled := False\<rparr> else if r = m then n0\<lparr>nd_enabled := True\<rparr> else n0)"
    using c(1) get [of r] by auto
  then have n0: "dget model r = Some n0" "r \<notin> set will" "r \<noteq> m \<Longrightarrow> n0 = n" "nd_replaces n0 = t"
    using c(2,3) by (cases "r \<in> set will"; cases "r = m"; simp)+
  obtain t0 where t: "dget model t = Some t0" "target = (if t \<in> set will then t0\<lparr>nd_enabled := False\<rparr> else if t = m then t0\<lparr>nd_enabled := True\<rparr> else t0)"
    using c(5) get [of t] by auto
  then have t0: "dget model t = Some t0" "t \<notin> set will" "t \<noteq> m \<Longrightarrow> t0 = target" "nd_category t0 \<in> set replaceable_categories"
    using c(6,7) by (cases "t \<in> set will"; cases "t = m"; simp)+
  show False
  proof (cases "t = m")
    case True
    then have plain: "nd_replaces t0 = []" using core_replaces_nothing [OF ok _ rp, of t0] t0 by simp
    then have "r \<noteq> m" using n0(1,4) t0(1) True c(4) by auto
    have "r \<in> set will" if "\<not> nd_enabled t0"
      using plan that t0 plain True n0 c \<open>r \<noteq> m\<close> by (auto simp: disable_plan_def replacements_of_iff [OF ok])
    then have "nd_enabled t0" using n0(2) by blast
    then have "in_conflict model r t" using n0 t0 c \<open>r \<noteq> m\<close> by (auto simp: in_conflict_def)
    then show False using calm by blast
  next
    case False
    then have t1: "t0 = target" using t0(3) by blast
    show False
    proof (cases "r = m")
      case True
      then obtain fs where f: "check w (fst (hypothetical model n0 (\<not> nd_enabled n0) [])) m True = Inr (None, fs)" "snd (hypothetical model n0 (\<not> nd_enabled n0) []) = will"
        using disable_plan_replaces [OF ok _ _ rp plan, of n0] n0(1,4) c(4) by metis
      let ?future = "fst (hypothetical model n0 (\<not> nd_enabled n0) [])"
      have fget: "dget ?future k = map_option (\<lambda>n. if k \<in> set will then n\<lparr>nd_enabled := False\<rparr> else n) (dget model k)" for k
        using hypothetical_get(1) [OF ok, of n0 "\<not> nd_enabled n0" "[]" ?future will k] f(2) by (metis prod.collapse)
      obtain nd tg where "dget ?future m = Some nd" "dget ?future (nd_replaces nd) = Some tg" "\<not> nd_enabled tg" using f(1) by (elim check_none)
      then show False using fget n0 t0 True t1 c(6) by (auto split: if_splits)
    next
      case False
      then have "in_conflict model r t" using n0 t0 t1 c by (auto simp: in_conflict_def)
      then show False using calm by blast
    qed
  qed
qed

lemma enable_honours:
  assumes ok: "model_ok model" and rp: "rp_enable_problems w model m = Inr []" and plan: "disable_plan w model m = Inr will"
    and job: "jb_action j = ''enable''" "jb_affected j = [m]" "jb_enable j = []" "set (jb_disable j) = set will"
    and node: "dget model m = Some node" "nd_replaces node \<noteq> []"
  shows "honoured_replacement w (apply_job j model) m = Some (nd_replaces node)"
proof -
  note get = enable_job_get [OF job(1-3), of model, unfolded job(4)]
  let ?future = "fst (hypothetical model node (\<not> nd_enabled node) [])"
  obtain fs where f: "check w ?future m True = Inr (None, fs)" "snd (hypothetical model node (\<not> nd_enabled node) []) = will"
    using disable_plan_replaces [OF ok node rp plan] by metis
  have h: "hypothetical model node (\<not> nd_enabled node) [] = (?future, will)" using f(2) by (metis prod.collapse)
  note fget = hypothetical_get [OF ok h]
  obtain nd tg where c: "dget ?future m = Some nd" "nd_replaces nd \<noteq> []" "replacement_category_ok w (PStr (nd_category nd)) None"
    "dget ?future (nd_replaces nd) = Some tg" "nd_category tg \<in> set replaceable_categories" "\<not> nd_enabled tg" "\<not> other_claims ?future nd m"
    "nd_capabilities tg \<noteq> None" "parity tg nd = Inr (None, fs)" using f(1) by (elim check_none)
  have apart: "nd_replaces nd \<noteq> m" using c category_apart by fastforce
  have same: "nd_replaces nd = nd_replaces node" "nd_category nd = nd_category node" "nd_capabilities nd = nd_capabilities node" using c(1) fget(1) [of m] node(1) by auto
  have m_out: "m \<notin> set will" using fget(2) apart same(1) by auto
  have m1: "dget (apply_job j model) m = Some (node\<lparr>nd_enabled := True\<rparr>)" using get [of m] node(1) m_out by simp
  have t1: "dget (apply_job j model) (nd_replaces nd) = Some tg" using get [of "nd_replaces nd"] fget(1) [of "nd_replaces nd"] c(4) apart
    by (cases "dget model (nd_replaces nd)") auto
  have alone: "\<not> other_claims (apply_job j model) (node\<lparr>nd_enabled := True\<rparr>) m"
  proof
    assume "other_claims (apply_job j model) (node\<lparr>nd_enabled := True\<rparr>) m"
    then obtain k n where k: "dget (apply_job j model) k = Some n" "k \<noteq> m" "nd_enabled n" "nd_replaces n = nd_replaces node"
      using other_claims_iff [OF apply_job_ok [OF ok]] by auto
    then have "dget ?future k = Some n" using get [of k] fget(1) [of k] by (cases "dget model k") auto
    then have "other_claims ?future nd m" using k same(1) other_claims_iff [OF fget(3)] by auto
    then show False using c(7) by simp
  qed
  have "parity tg (node\<lparr>nd_enabled := True\<rparr>) = parity tg nd" using same by (simp add: parity_def parity_row_def[abs_def] caps_of_def)
  then have "check w (apply_job j model) m False = Inr (None, fs)"
    using m1 t1 c same alone node(2) by (simp add: check_def)
  then show ?thesis using m1 node(2) model_node [OF ok node(1)] by (simp add: honoured_replacement_def)
qed

section \<open>Disabling\<close>

lemma disable_job_get:
  assumes "jb_action j = ''disable''" and "jb_affected j \<noteq> []" and "jb_disable j = []"
  shows "dget (apply_job j model) k = map_option (\<lambda>n. if k \<in> set (jb_enable j) then n\<lparr>nd_enabled := True\<rparr> else if k \<in> set (jb_affected j) then n\<lparr>nd_enabled := False\<rparr> else n) (dget model k)"
  using assms by (cases "dget model k") (auto simp: apply_job_def fold_set_node_get)

lemma hand_back_plan_facts:
  assumes "model_ok model" and "t \<in> set (hand_back_plan model m)"
  obtains node target where "dget model m = Some node" "nd_replaces node = t" "t \<noteq> []" "nd_enabled node" "dget model t = Some target"
    "nd_category target \<in> set replaceable_categories" "\<not> nd_enabled target" "\<not> other_claims model node m"
proof -
  obtain node where m: "dget model m = Some node" using assms(2) by (cases "dget model m") (simp_all add: hand_back_plan_def)
  obtain target where t: "dget model (nd_replaces node) = Some target"
    using assms(2) m by (cases "dget model (nd_replaces node)") (simp_all add: hand_back_plan_def split: if_splits)
  have "nd_id target = nd_replaces node" using t model_node [OF assms(1)] by blast
  then show thesis using that [of node target] assms(2) m t by (auto simp: hand_back_plan_def split: if_splits)
qed

lemma add_backs: "set (fold (\<lambda>back out. if back \<notin> set out \<and> back \<notin> set off then out @ [back] else out) plan out) \<subseteq> set out \<union> (set plan - set off)"
proof (induction plan arbitrary: out)
  case (Cons b bs)
  show ?case using Cons [of "if b \<notin> set out \<and> b \<notin> set off then out @ [b] else out"] by (auto split: if_splits)
qed simp

lemma collect_backs:
  "set (fold (\<lambda>m out. fold (\<lambda>back out. if back \<notin> set out \<and> back \<notin> set off then out @ [back] else out) (plan m) out) ms out) \<subseteq> set out \<union> {t. \<exists>m \<in> set ms. t \<in> set (plan m) \<and> t \<notin> set off}"
proof (induction ms arbitrary: out)
  case (Cons m ms)
  let ?out = "fold (\<lambda>back out. if back \<notin> set out \<and> back \<notin> set off then out @ [back] else out) (plan m) out"
  show ?case using Cons [of ?out] add_backs [of off "plan m" out] by auto
qed simp

lemma hand_back_wanted_facts:
  assumes "t \<in> set (hand_back_wanted model affected)"
  obtains m where "m \<in> set affected" "t \<notin> set affected" "t \<in> set (hand_back_plan (with_enabled model (map (\<lambda>x. (x, False)) (filter (\<lambda>x. x \<noteq> m) (dedup affected)))) m)"
proof -
  let ?plan = "\<lambda>m. hand_back_plan (with_enabled model (map (\<lambda>x. (x, False)) (filter (\<lambda>x. x \<noteq> m) (dedup affected)))) m"
  have "\<exists>m \<in> set (dedup affected). t \<in> set (?plan m) \<and> t \<notin> set (dedup affected)"
    using subsetD [OF collect_backs [of "dedup affected" ?plan "dedup affected" "[]"] assms [unfolded hand_back_wanted_def Let_def]]
    unfolding list.set(1) Un_empty_left mem_Collect_eq .
  then obtain m where "m \<in> set (dedup affected)" "t \<in> set (?plan m)" "t \<notin> set (dedup affected)" by blast
  then show thesis using that [of m] by simp
qed

lemma rows_by_id_id: "dget (rows_by_id rows) m = Some r \<Longrightarrow> ct_id r = m \<and> r \<in> set rows"
  unfolding rows_by_id_def by (drule fold_dset_get) simp

lemma enable_problems_rp: "enable_problems w catalog model target hypo = Inr [] \<Longrightarrow> rp_enable_problems w model (ct_id target) = Inr []"
  by (cases "rp_enable_problems w model (ct_id target)") (auto simp: enable_problems_def Let_def)

lemma hand_back_split_facts:
  assumes "hand_back_split w (rows_by_id rows) model wanted off = Inr (back, cannot)" and "b \<in> set back"
  shows "b \<in> set wanted" and "rp_enable_problems w (fold (\<lambda>i. set_node i False) off model) b = Inr []"
proof -
  let ?future = "fold (\<lambda>i. set_node i False) off model"
  obtain answers where a: "rmap (split_one w (rows_by_id rows) ?future) wanted = Inr answers" "back = map fst (filter (\<lambda>r. snd r = []) answers)"
    using assms(1) by (auto simp: hand_back_split_def Let_def with_enabled_const)
  then have "(b, []) \<in> set answers" using assms(2) by auto
  then obtain x where x: "x \<in> set wanted" "split_one w (rows_by_id rows) ?future x = Inr (b, [])" using rmap_Inr_set [OF a(1)] by blast
  then obtain item where i: "dget (rows_by_id rows) x = Some item" "enable_problems w (rows_by_id rows) ?future item True = Inr []" "x = b"
    by (auto simp: split_one_def split: option.splits if_splits)
  show "b \<in> set wanted" using x(1) i(3) by simp
  show "rp_enable_problems w ?future b = Inr []" using enable_problems_rp [OF i(2)] rows_by_id_id [OF i(1)] i(3) by simp
qed

text \<open>Disabling, with what it hands back, leaves no conflict either.\<close>

lemma disable_effect:
  assumes ok: "model_ok model" and job: "jb_action j = ''disable''" "jb_affected j \<noteq> []" "jb_disable j = []"
    and wanted: "set (jb_enable j) \<subseteq> set (hand_back_wanted model (jb_affected j))"
    and rp: "\<And>b. b \<in> set (jb_enable j) \<Longrightarrow> rp_enable_problems w (fold (\<lambda>i. set_node i False) (jb_affected j) model) b = Inr []"
    and calm: "\<And>r t. \<not> in_conflict model r t"
  shows "\<not> in_conflict (apply_job j model) r t"
proof
  note get = disable_job_get [OF job, of model]
  let ?off = "\<lambda>m. fold (\<lambda>i. set_node i False) (filter (\<lambda>x. x \<noteq> m) (dedup (jb_affected j))) model"
  assume "in_conflict (apply_job j model) r t"
  then obtain n target where c: "dget (apply_job j model) r = Some n" "nd_enabled n" "nd_replaces n = t" "t \<noteq> []"
    "dget (apply_job j model) t = Some target" "nd_enabled target" "nd_category target \<in> set replaceable_categories" by (auto simp: in_conflict_def)
  have handed: "\<exists>m node target. m \<in> set (jb_affected j) \<and> b \<notin> set (jb_affected j) \<and> dget model m = Some node \<and> nd_replaces node = b \<and> dget model b = Some target \<and>
      nd_category target \<in> set replaceable_categories \<and> \<not> other_claims (?off m) node m" if b: "b \<in> set (jb_enable j)" for b
  proof -
    obtain m where m: "m \<in> set (jb_affected j)" "b \<notin> set (jb_affected j)" "b \<in> set (hand_back_plan (?off m) m)"
      using hand_back_wanted_facts [of b model "jb_affected j"] wanted b unfolding with_enabled_const by blast
    have okm: "model_ok (?off m)" using fold_set_node_ok [OF ok] .
    obtain node target where h: "dget (?off m) m = Some node" "nd_replaces node = b" "dget (?off m) b = Some target" "nd_category target \<in> set replaceable_categories"
      "\<not> other_claims (?off m) node m" using hand_back_plan_facts [OF okm m(3)] by metis
    have "dget model m = Some node" using h(1) by (auto simp: fold_set_node_get)
    moreover have "dget model b = Some target" using h(3) m(2) by (auto simp: fold_set_node_get)
    ultimately show ?thesis using m h by blast
  qed
  have r_stays: "r \<notin> set (jb_enable j)"
  proof
    assume rb: "r \<in> set (jb_enable j)"
    obtain tr where tr: "r \<notin> set (jb_affected j)" "dget model r = Some tr" "nd_category tr \<in> set replaceable_categories" using handed [OF rb] by blast
    have "dget (fold (\<lambda>i. set_node i False) (jb_affected j) model) r = Some tr" using tr by (simp add: fold_set_node_get)
    then have "nd_replaces tr = []" using core_replaces_nothing [OF fold_set_node_ok [OF ok] _ rp [OF rb]] tr(3) by blast
    moreover have "nd_replaces tr = t" using get [of r] tr(2) rb c(1,3) by auto
    ultimately show False using c(4) by simp
  qed
  then have r0: "dget model r = Some n" "r \<notin> set (jb_affected j)" using get [of r] c(1,2) by (cases "dget model r"; auto split: if_splits)+
  show False
  proof (cases "t \<in> set (jb_enable j)")
    case True
    obtain m node where m: "m \<in> set (jb_affected j)" "dget model m = Some node" "nd_replaces node = t" "\<not> other_claims (?off m) node m" using handed [OF True] by metis
    have "dget (?off m) r = Some n" using r0 by (simp add: fold_set_node_get)
    moreover have "r \<noteq> m" using r0(2) m(1) by blast
    ultimately have "\<exists>k n. dget (?off m) k = Some n \<and> k \<noteq> m \<and> nd_enabled n \<and> nd_replaces n = nd_replaces node" using c(2,3) m(3) by (intro exI [of _ r] exI [of _ n]) simp
    then have "other_claims (?off m) node m" unfolding other_claims_iff [OF fold_set_node_ok [OF ok]] .
    then show False using m(4) by blast
  next
    case False
    then have "dget model t = Some target" using get [of t] c(5,6) by (cases "dget model t") (auto split: if_splits)
    then have "in_conflict model r t" using r0(1) c by (auto simp: in_conflict_def)
    then show False using calm by blast
  qed
qed

section \<open>Queueing\<close>

definition jobs_before :: "module_world \<Rightarrow> bool" where
  "jobs_before mw = (\<forall>j \<in> set (mw_jobs mw). case jb_created j of None \<Rightarrow> True | Some t \<Rightarrow> t \<le> mw_now mw)"

lemma queue_planning:
  assumes "queue_v2 job mw = (Inr job', mw')" and "pending_job job" and "jb_created job = Some (mw_now mw)" and "jobs_before mw"
    and "planning_model mw = Inr model"
  shows "job' = job \<and> planning_model mw' = Inr (apply_job job model)"
proof -
  have q: "job' = job" "mw' = mw\<lparr>mw_jobs := mw_jobs mw @ [job]\<rparr>" using assms(1) by (auto simp: queue_v2_def split: if_splits)
  have "sort_key job_order (filter pending_job (mw_jobs mw) @ [job]) = sort_key job_order (filter pending_job (mw_jobs mw)) @ [job]"
    by (rule sort_key_snoc) (use assms(3,4) in \<open>auto simp: job_order_def jobs_before_def split: option.splits\<close>)
  then show ?thesis using assms(2,5) q by (auto simp: planning_model_def live_def model_with_pending_jobs_def split: option.splits)
qed

lemma plan_enable_facts:
  assumes "plan_enable mw catalog m given confirm = Inr job" and "planning_model mw = Inr model"
  obtains will where "jb_action job = ''enable''" "jb_affected job = [m]" "jb_enable job = []" "set (jb_disable job) = set will"
    "jb_created job = Some (mw_now mw)" "pending_job job" "rp_enable_problems (mw_tp mw) model m = Inr []" "disable_plan (mw_tp mw) model m = Inr will"
proof -
  obtain answer disables where a: "validate_enable mw m = Inr answer" "ea_problems answer = []" "confirmed_disables (ea_will_disable answer) given = Inr disables"
    and j: "\<exists>b. job = (new_job mw ''enable'' m [m])\<lparr>jb_disable := disables, jb_confirmed := b\<rparr>"
    using assms(1) by (auto simp: plan_enable_def Let_def)
  have "disables = sort (dedup (ea_will_disable answer))" using a(3) unfolding confirmed_disables_def Let_def by (simp split: if_split_asm)
  then have d: "set disables = set (ea_will_disable answer)" by simp
  obtain rows target where v: "dget (rows_by_id rows) m = Some target" "enable_problems (mw_tp mw) (rows_by_id rows) model target False = Inr []"
    "disable_plan (mw_tp mw) model m = Inr (ea_will_disable answer)"
  proof -
    obtain rows where r: "installed_catalog_v2 mw = Inr rows" using a(1) by (auto simp: validate_enable_def)
    obtain target where t: "dget (rows_by_id rows) m = Some target" using a(1) r by (cases "dget (rows_by_id rows) m") (simp_all add: validate_enable_def)
    obtain ps will where "enable_problems (mw_tp mw) (rows_by_id rows) model target False = Inr ps" "(if ps = [] then versioned (disable_plan (mw_tp mw) model m) else Inr []) = Inr will"
      "ea_problems answer = ps" "ea_will_disable answer = will"
      using a(1) r t assms(2) by (auto simp: validate_enable_def Let_def split: if_splits)
    then show thesis using that [OF t] a(2) by (cases "disable_plan (mw_tp mw) model m") auto
  qed
  have "rp_enable_problems (mw_tp mw) model m = Inr []" using enable_problems_rp [OF v(2)] rows_by_id_id [OF v(1)] by simp
  then show thesis using that [of "ea_will_disable answer"] j d v(3) by (auto simp: new_job_def pending_job_def)
qed

lemma cascade_last: "cascade deps depth m = Inr affected \<Longrightarrow> affected \<noteq> [] \<and> last affected = m"
  by (auto simp: cascade_def split: option.splits prod.splits)

lemma plan_disable_facts:
  assumes "plan_disable mw rows state m cascade_on confirm = Inr job" and "planning_model mw = Inr model"
  shows "jb_action job = ''disable''" "jb_affected job \<noteq> []" "jb_disable job = []" "jb_created job = Some (mw_now mw)" "pending_job job"
    "set (jb_enable job) \<subseteq> set (hand_back_wanted model (jb_affected job))"
    "b \<in> set (jb_enable job) \<Longrightarrow> rp_enable_problems (mw_tp mw) (fold (\<lambda>i. set_node i False) (jb_affected job) model) b = Inr []"
proof -
  obtain deps affected where c: "(if cascade_on then cascade deps (Suc (length rows)) m else Inr [m]) = Inr affected"
    and s: "\<exists>handed cannot. (if hand_back_wanted model affected = [] then Inr ([], []) else hand_back_split (mw_tp mw) (rows_by_id rows) model (hand_back_wanted model affected) affected) = Inr (handed, cannot) \<and>
      job = (new_job mw ''disable'' m affected)\<lparr>jb_enable := handed, jb_skipped := sort (map fst cannot)\<rparr>"
    using assms unfolding plan_disable_def Let_def by (fastforce split: prod.splits)
  then obtain handed cannot where h: "(if hand_back_wanted model affected = [] then Inr ([], []) else hand_back_split (mw_tp mw) (rows_by_id rows) model (hand_back_wanted model affected) affected) = Inr (handed, cannot)"
    and j: "job = (new_job mw ''disable'' m affected)\<lparr>jb_enable := handed, jb_skipped := sort (map fst cannot)\<rparr>" by blast
  show "jb_action job = ''disable''" "jb_disable job = []" "jb_created job = Some (mw_now mw)" "pending_job job" using j by (simp_all add: new_job_def pending_job_def)
  show "jb_affected job \<noteq> []" using c j cascade_last by (auto simp: new_job_def split: if_splits)
  show "set (jb_enable job) \<subseteq> set (hand_back_wanted model (jb_affected job))"
    using h j hand_back_split_facts(1) by (fastforce simp: new_job_def split: if_splits)
  show "rp_enable_problems (mw_tp mw) (fold (\<lambda>i. set_node i False) (jb_affected job) model) b = Inr []" if "b \<in> set (jb_enable job)"
    using that h j hand_back_split_facts(2) by (fastforce simp: new_job_def split: if_splits)
qed

section \<open>The cascade\<close>

text \<open>The interface of a cascade: every module has dependants within a finite set of installed ids.\<close>

locale dependant_graph =
  fixes deps :: "string \<Rightarrow> string list" and ids :: "string set"
  assumes finite_ids: "finite ids" and deps_ids: "set (deps m) \<subseteq> ids"
begin

definition edges :: "(string \<times> string) set" where
  "edges = {(a, b). b \<in> set (deps a)}"

definition grown :: "string \<Rightarrow> visit_state \<Rightarrow> visit_state \<Rightarrow> bool" where
  "grown m st st' = (set (fst st) \<subseteq> set (fst st') \<and> set (snd st') = set (snd st) \<union> (set (fst st') - set (fst st)) \<and>
     (\<forall>x \<in> set (fst st') - set (fst st). set (deps x) \<subseteq> set (fst st') \<and> (m, x) \<in> edges\<^sup>+))"

lemma visit_list_grows:
  assumes go: "\<And>d st. card (ids - set (fst st)) < n \<Longrightarrow> \<exists>st'. go d st = Some st' \<and> grown d st st' \<and> set (deps d) \<subseteq> set (fst st')"
    and "card (ids - set (fst st)) < Suc n" and "set ds \<subseteq> set (deps m)"
  shows "\<exists>st'. visit_list go ds st = Some st' \<and> grown m st st' \<and> set ds \<subseteq> set (fst st')"
  using assms(2,3)
proof (induction ds arbitrary: st)
  case Nil
  then show ?case by (simp add: grown_def)
next
  case (Cons d ds)
  show ?case
  proof (cases "d \<in> set (fst st)")
    case True
    then obtain st' where "visit_list go ds st = Some st'" "grown m st st'" "set ds \<subseteq> set (fst st')" using Cons.IH [of st] Cons.prems by auto
    then show ?thesis using True by (auto simp: grown_def)
  next
    case False
    have d: "d \<in> ids" "(m, d) \<in> edges" using Cons.prems(2) deps_ids by (auto simp: edges_def)
    have "card (ids - set (d # fst st)) < card (ids - set (fst st))" using d(1) False finite_ids by (intro psubset_card_mono) auto
    then have "card (ids - set (fst (d # fst st, snd st))) < n" using Cons.prems(1) by simp
    from go [OF this, of d] obtain s1 a1 where s1: "go d (d # fst st, snd st) = Some (s1, a1)" "grown d (d # fst st, snd st) (s1, a1)" "set (deps d) \<subseteq> set s1" by auto
    have "card (ids - set s1) \<le> card (ids - set (fst st))" using s1(2) finite_ids by (intro card_mono) (auto simp: grown_def)
    then have "card (ids - set (fst (s1, a1 @ [d]))) < Suc n" using Cons.prems(1) by simp
    from Cons.IH [OF this] Cons.prems(2) obtain st' where st': "visit_list go ds (s1, a1 @ [d]) = Some st'" "grown m (s1, a1 @ [d]) st'" "set ds \<subseteq> set (fst st')" by auto
    have seen: "set (fst st) \<subseteq> set (fst st')" "d \<in> set (fst st')" using s1(2) st'(2) by (auto simp: grown_def)
    have "set (snd st') = set (snd st) \<union> (set (fst st') - set (fst st))" using s1(2) st'(2) False by (auto simp: grown_def)
    moreover have "set (deps x) \<subseteq> set (fst st') \<and> (m, x) \<in> edges\<^sup>+" if x: "x \<in> set (fst st') - set (fst st)" for x
    proof -
      consider "x = d" | "x \<in> set s1 - set (d # fst st)" | "x \<in> set (fst st') - set s1" using x by auto
      then show ?thesis
      proof cases
        case 1
        then show ?thesis using s1(3) st'(2) d(2) by (auto simp: grown_def)
      next
        case 2
        then have "set (deps x) \<subseteq> set s1" "(d, x) \<in> edges\<^sup>+" using s1(2) by (auto simp: grown_def)
        then show ?thesis using st'(2) d(2) by (auto simp: grown_def intro: trancl_into_trancl2)
      next
        case 3
        then show ?thesis using st'(2) by (auto simp: grown_def)
      qed
    qed
    ultimately have "grown m st st'" using seen by (simp add: grown_def)
    then show ?thesis using False s1(1) st' seen by auto
  qed
qed

lemma visit_grows: "card (ids - set (fst st)) < n \<Longrightarrow> \<exists>st'. visit n deps m st = Some st' \<and> grown m st st' \<and> set (deps m) \<subseteq> set (fst st')"
proof (induction n arbitrary: m st)
  case (Suc n)
  show ?case using visit_list_grows [of n "visit n deps" st "deps m" m] Suc by simp
qed simp

lemma visit_more: "visit n deps m st = Some st' \<Longrightarrow> visit (n + k) deps m st = Some st'"
proof (induction n arbitrary: m st st')
  case (Suc n)
  have "visit_list (visit n deps) ds s = Some s' \<Longrightarrow> visit_list (visit (n + k) deps) ds s = Some s'" for ds s s'
    by (induction ds arbitrary: s) (auto split: option.splits prod.splits if_splits dest: Suc.IH)
  then show ?case using Suc.prems by simp
qed simp

text \<open>A cascade with one level for each module ends, more depth changes nothing, and it takes exactly the modules that depend on the first one, directly or
  over others.\<close>

lemma cascade_complete:
  assumes "card ids < depth"
  obtains affected where "cascade deps (depth + k) m = Inr affected" and "set affected = insert m {x. (m, x) \<in> edges\<^sup>+}"
proof -
  have "card (ids - set (fst ([], [m]))) < depth" using assms by simp
  from visit_grows [OF this, of m] obtain seen aff where v: "visit depth deps m ([], [m]) = Some (seen, aff)" "grown m ([], [m]) (seen, aff)" "set (deps m) \<subseteq> set seen" by auto
  have "x \<in> set seen" if "(m, x) \<in> edges\<^sup>+" for x using that
  proof induction
    case (base y)
    then show ?case using v(3) by (auto simp: edges_def)
  next
    case (step y z)
    then show ?case using v(2) by (auto simp: edges_def grown_def)
  qed
  then have "set aff = insert m {x. (m, x) \<in> edges\<^sup>+}" using v(2) by (auto simp: grown_def)
  then have "set (filter (\<lambda>x. x \<noteq> m) aff @ [m]) = insert m {x. (m, x) \<in> edges\<^sup>+}" by auto
  then show thesis using that [of "filter (\<lambda>x. x \<noteq> m) aff @ [m]"] visit_more [OF v(1), of k] by (simp add: cascade_def)
qed

end

lemma dependants_ids: "set (dependants_of w rows state model m coming x) \<subseteq> set (map ct_id rows)"
  by (auto simp: dependants_of_def enabled_dependants_def Let_def set_map_filter dependant_of_def split: if_splits)

interpretation dg: dependant_graph "dependants_of w rows state model m coming" "set (map ct_id rows)" for w rows state model m coming
  by unfold_locales (simp, rule dependants_ids)

lemma ids_bound: "card (set (map ct_id rows)) < Suc (length rows)"
  by (metis card_length length_map less_Suc_eq_le)

lemma cascade_closed:
  assumes "cascade (dependants_of w rows state model m coming) (Suc (length rows)) m = Inr affected"
    and "x \<in> set affected" and "y \<in> set (dependants_of w rows state model m coming x)"
  shows "y \<in> set affected"
proof -
  obtain aff where a: "cascade (dependants_of w rows state model m coming) (Suc (length rows) + 0) m = Inr aff" "set aff = insert m {x. (m, x) \<in> (dg.edges w rows state model m coming)\<^sup>+}"
    using dg.cascade_complete [OF ids_bound] by metis
  then have "affected = aff" using assms(1) by simp
  moreover have "(x, y) \<in> dg.edges w rows state model m coming" using assms(3) by (simp add: dg.edges_def)
  ultimately show ?thesis using assms(2) a(2) by (auto intro: trancl_into_trancl)
qed

text \<open>What counts as a dependant.\<close>

lemma direct_dependant:
  assumes "r \<in> set rows" and "\<not> ct_legacy r" and "is_enabled (ct_id r) state" and "ct_id r \<noteq> x" and "depends_on r x"
    and "(case model of None \<Rightarrow> None | Some mo \<Rightarrow> honoured_replacement w mo x) \<noteq> Some x"
  shows "ct_id r \<in> set (dependants_of w rows state model m coming x)"
proof -
  let ?rep = "case model of None \<Rightarrow> None | Some mo \<Rightarrow> honoured_replacement w mo x"
  have "dependant_of state ?rep x r = Some (ct_id r, False)"
    using assms by (cases ?rep) (simp_all add: dependant_of_def watched_def)
  then have "(ct_id r, False) \<in> set (enabled_dependants w rows state model x)" using assms(1) unfolding enabled_dependants_def Let_def set_map_filter by blast
  then show ?thesis unfolding dependants_of_def by force
qed

lemma via_dependant:
  assumes "r \<in> set rows" and "\<not> ct_legacy r" and "is_enabled (ct_id r) state" and "ct_id r \<noteq> x"
    and "honoured_replacement w mo x = Some t" and "depends_on r t" and "coming = [] \<or> x \<noteq> m"
  shows "ct_id r \<in> set (dependants_of w rows state (Some mo) m coming x)"
proof -
  obtain b where "dependant_of state (Some t) x r = Some (ct_id r, b)"
    using assms by (cases "depends_on r x"; cases "t = x") (auto simp: dependant_of_def watched_def)
  then have "(ct_id r, b) \<in> set (enabled_dependants w rows state (Some mo) x)" using assms(1,5) unfolding enabled_dependants_def Let_def set_map_filter by auto
  then show ?thesis using assms(7) unfolding dependants_of_def by force
qed

lemma honoured_not_self: "model_ok mo \<Longrightarrow> honoured_replacement w mo x = Some t \<Longrightarrow> t \<noteq> x"
proof
  assume "model_ok mo" "honoured_replacement w mo x = Some t" "t = x"
  then obtain fs node where n: "dget mo x = Some node" "nd_replaces node = x" "check w mo x False = Inr (None, fs)" using honoured_check by blast
  then show False using category_apart by (elim check_none) fastforce
qed

text \<open>Everything \<open>hand_back_plan\<close> names is wanted, unless it is switched off itself.\<close>

lemma add_backs_all: "set out \<union> (set plan - set off) \<subseteq> set (fold (\<lambda>back out. if back \<notin> set out \<and> back \<notin> set off then out @ [back] else out) plan out)"
proof (induction plan arbitrary: out)
  case (Cons b bs)
  show ?case using Cons [of "if b \<notin> set out \<and> b \<notin> set off then out @ [b] else out"] by (auto split: if_splits)
qed simp

lemma collect_backs_all:
  "set out \<union> {t. \<exists>m \<in> set ms. t \<in> set (plan m) \<and> t \<notin> set off} \<subseteq> set (fold (\<lambda>m out. fold (\<lambda>back out. if back \<notin> set out \<and> back \<notin> set off then out @ [back] else out) (plan m) out) ms out)"
proof (induction ms arbitrary: out)
  case (Cons m ms)
  let ?out = "fold (\<lambda>back out. if back \<notin> set out \<and> back \<notin> set off then out @ [back] else out) (plan m) out"
  show ?case using Cons [of ?out] add_backs_all [of out "plan m" off] by auto
qed simp

lemma hand_back_wanted_all:
  assumes ok: "model_ok model" and m: "m \<in> set affected" and plan: "t \<in> set (hand_back_plan model m)" and out: "t \<notin> set affected"
  shows "t \<in> set (hand_back_wanted model affected)"
proof -
  let ?plan = "\<lambda>m. hand_back_plan (with_enabled model (map (\<lambda>x. (x, False)) (filter (\<lambda>x. x \<noteq> m) (dedup affected)))) m"
  let ?off = "fold (\<lambda>i. set_node i False) (filter (\<lambda>x. x \<noteq> m) (dedup affected)) model"
  obtain node target where h: "dget model m = Some node" "nd_replaces node = t" "t \<noteq> []" "nd_enabled node" "dget model t = Some target"
    "nd_category target \<in> set replaceable_categories" "\<not> nd_enabled target" "\<not> other_claims model node m" using hand_back_plan_facts [OF ok plan] by metis
  have m1: "dget ?off m = Some node" using h(1) by (simp add: fold_set_node_get)
  have t1: "dget ?off t = Some target" using h(5) out by (simp add: fold_set_node_get)
  have "\<not> other_claims ?off node m"
  proof
    assume "other_claims ?off node m"
    then obtain k n where k: "dget ?off k = Some n" "k \<noteq> m" "nd_enabled n" "nd_replaces n = nd_replaces node"
      unfolding other_claims_iff [OF fold_set_node_ok [OF ok]] by blast
    then have "dget model k = Some n" by (cases "dget model k") (auto simp: fold_set_node_get split: if_splits)
    then show False using k h(8) unfolding other_claims_iff [OF ok] by blast
  qed
  then have "t \<in> set (?plan m)" using h m1 t1 model_node [OF ok h(5)] by (simp add: hand_back_plan_def with_enabled_const)
  then have "t \<in> {t. \<exists>m \<in> set (dedup affected). t \<in> set (?plan m) \<and> t \<notin> set (dedup affected)}" using m out unfolding set_dedup by blast
  then show ?thesis using collect_backs_all [of "[]" "dedup affected" ?plan "dedup affected"] unfolding hand_back_wanted_def Let_def by blast
qed

lemma pending_replaces: "dget (model_with_pending_jobs mw model) k = Some n \<Longrightarrow> \<exists>n0. dget model k = Some n0 \<and> nd_replaces n = nd_replaces n0"
proof -
  have "dget (fold apply_job js m) k = Some n \<Longrightarrow> \<exists>n0. dget m k = Some n0 \<and> nd_replaces n = nd_replaces n0" for js m
  proof (induction js arbitrary: m)
    case (Cons j js)
    have one: "dget (apply_job j m) k = Some a \<Longrightarrow> \<exists>b. dget m k = Some b \<and> nd_replaces a = nd_replaces b" for a
      by (cases "dget m k") (auto simp: apply_job_def Let_def fold_set_node_get split: if_splits)
    obtain a where "dget (apply_job j m) k = Some a" "nd_replaces n = nd_replaces a" using Cons.IH [of "apply_job j m"] Cons.prems by auto
    then show ?case using one [of a] by auto
  qed simp
  then show "dget (model_with_pending_jobs mw model) k = Some n \<Longrightarrow> ?thesis" by (simp add: model_with_pending_jobs_def)
qed

end
