(* ===== verification/Module_Guarantees.thy ===== *)
theory Module_Guarantees
  imports Module_Switching
begin

text \<open>
  The properties of the module manager: replacements and the modules they replace stay exclusive under every accepted
  switch, a replacement is honoured alone and covers what it replaces, the cascade of a disable ends and strands
  nothing, and conflicts found on disk are resolved.
\<close>

section \<open>A small server\<close>

definition demo_caps :: "(string, string) dict" where
  "demo_caps = [(''mail.send'', ''1.2.0'')]"

definition demo_plugin :: "string \<Rightarrow> string \<Rightarrow> string \<Rightarrow> rp_plugin" where
  "demo_plugin i category replaces = \<lparr>pl_id = i, pl_extension = True, pl_legacy = False, pl_name = i, pl_category = category, pl_replaces = replaces,
     pl_capabilities_declared = True, pl_capabilities = (if i = ''mail'' \<or> replaces = ''mail'' then demo_caps else [])\<rparr>"

definition demo_base :: "string \<Rightarrow> (string, string) dict \<Rightarrow> base_row" where
  "demo_base i deps = \<lparr>br_id = i, br_version = ''1.0.0'', br_legacy = False, br_protected = False, br_managed = True, br_dependencies = deps, br_requires = []\<rparr>"

definition demo_tp :: tp_world where
  "demo_tp = \<lparr>tp_config = None, tp_file = File_Missing, tp_helper = False, tp_commands = []\<rparr>"

definition demo_state :: "(string \<times> bool) list \<Rightarrow> pydict" where
  "demo_state flags = [(''schema'', PInt 1), (''modules'', PDict (map (\<lambda>(i, e). (i, PDict [(''enabled'', PBool e)])) flags))]"

definition demo_modules :: "(string \<times> bool) list \<Rightarrow> module_world" where
  "demo_modules flags = \<lparr>mw_base = [demo_base ''alerts'' [(''mail'', ''*'')], demo_base ''mail'' [], demo_base ''postbox'' []],
     mw_plugins = Some [demo_plugin ''alerts'' ''premium'' [], demo_plugin ''mail'' ''core'' [], demo_plugin ''postbox'' ''premium'' ''mail''],
     mw_modules = \<lparr>ms_file = File_Json (PDict (demo_state flags)), ms_lock = Lock_Present, ms_disk_ok = True, ms_cache_epoch = 0\<rparr>,
     mw_framework = Some ''1.17.96'', mw_ui = None, mw_tp = demo_tp, mw_jobs = [], mw_now = 100, mw_dispatch_ok = True\<rparr>"

section \<open>Replacements\<close>

lemma queue_facts:
  assumes "queue_set_enabled m enabled cascade_on given c1 c2 mw = (Inr job, mw')"
  obtains rows state job0 where "installed_catalog_v2 mw = Inr rows" "load_state (mw_modules mw) = Inr state" "queue_v2 job0 mw = (Inr job, mw')"
    "(if enabled then plan_enable mw (rows_by_id rows) m given c1 else plan_disable mw rows state m cascade_on c2) = Inr job0"
  using assms unfolding queue_set_enabled_def by (auto split: sum.splits option.splits if_splits)

text \<open>(C14) A replacement and the module it replaces stay exclusive: while the modules, with the pending jobs counted as done, hold no replacement
  that is on next to the module it replaces, every accepted enable or disable job, with what it switches off and hands back, leaves none; and a
  replacement that is switched on is honoured once its job is done.\<close>

theorem replacement_pairs_stay_exclusive:
  assumes "queue_set_enabled m enabled cascade_on given c1 c2 mw = (Inr job, mw')" and "jobs_before mw"
    and "planning_model mw = Inr model" and "conflicted_replacements model = []"
  shows "\<exists>model'. planning_model mw' = Inr model' \<and> conflicted_replacements model' = [] \<and>
    (\<forall>node. enabled \<and> dget model m = Some node \<and> nd_replaces node \<noteq> [] \<longrightarrow> honoured_replacement (mw_tp mw) model' m = Some (nd_replaces node))"
proof -
  have ok: "model_ok model" using planning_model_ok [OF assms(3)] .
  have calm: "\<not> in_conflict model r t" for r t using assms(4) no_conflicts_iff [OF ok] by blast
  obtain rows state job0 where q: "queue_v2 job0 mw = (Inr job, mw')"
    "(if enabled then plan_enable mw (rows_by_id rows) m given c1 else plan_disable mw rows state m cascade_on c2) = Inr job0"
    using queue_facts [OF assms(1)] by metis
  show ?thesis
  proof (cases enabled)
    case True
    then have "plan_enable mw (rows_by_id rows) m given c1 = Inr job0" using q(2) by simp
    then obtain will where p: "jb_action job0 = ''enable''" "jb_affected job0 = [m]" "jb_enable job0 = []" "set (jb_disable job0) = set will"
      "jb_created job0 = Some (mw_now mw)" "pending_job job0" "rp_enable_problems (mw_tp mw) model m = Inr []" "disable_plan (mw_tp mw) model m = Inr will"
      using plan_enable_facts [OF _ assms(3)] by metis
    have "planning_model mw' = Inr (apply_job job0 model)" using queue_planning [OF q(1) p(6,5) assms(2,3)] by simp
    moreover have "conflicted_replacements (apply_job job0 model) = []"
      using enable_effect [OF ok p(7,8,1,2,3,4) calm] no_conflicts_iff [OF apply_job_ok [OF ok]] by blast
    moreover have "honoured_replacement (mw_tp mw) (apply_job job0 model) m = Some (nd_replaces node)" if "dget model m = Some node" "nd_replaces node \<noteq> []" for node
      by (rule enable_honours [OF ok p(7,8,1,2,3,4) that])
    ultimately show ?thesis by blast
  next
    case False
    then have d: "plan_disable mw rows state m cascade_on c2 = Inr job0" using q(2) by simp
    note p = plan_disable_facts [OF d assms(3)]
    have "planning_model mw' = Inr (apply_job job0 model)" using queue_planning [OF q(1) p(5,4) assms(2,3)] by simp
    moreover have "conflicted_replacements (apply_job job0 model) = []"
      using disable_effect [OF ok p(1-3,6,7) calm] no_conflicts_iff [OF apply_job_ok [OF ok]] by blast
    ultimately show ?thesis using False by blast
  qed
qed

definition mail_on :: module_world where
  "mail_on = demo_modules [(''alerts'', True), (''mail'', True), (''postbox'', False)]"

theorem replacement_pairs_stay_exclusive_witness:
  "\<exists>job mw' model'. queue_set_enabled ''postbox'' True False (PList [PStr ''mail'']) False False mail_on = (Inr job, mw') \<and> jb_disable job = [''mail''] \<and>
     planning_model mw' = Inr model' \<and> conflicted_replacements model' = [] \<and> honoured_replacement demo_tp model' ''postbox'' = Some ''mail''"
proof -
  let ?out = "queue_set_enabled ''postbox'' True False (PList [PStr ''mail'']) False False mail_on"
  obtain job where out: "?out = (Inr job, snd ?out)" "jb_disable job = [''mail'']"
  proof -
    have "case fst ?out of Inl _ \<Rightarrow> False | Inr j \<Rightarrow> jb_disable j = [''mail'']" by code_simp
    then show thesis using that by (cases "fst ?out") (simp_all add: prod_eq_iff)
  qed
  obtain model node where m: "planning_model mail_on = Inr model" "conflicted_replacements model = []" "dget model ''postbox'' = Some node" "nd_replaces node = ''mail''"
  proof -
    have "case planning_model mail_on of Inl _ \<Rightarrow> False | Inr mo \<Rightarrow> conflicted_replacements mo = [] \<and> map_option nd_replaces (dget mo ''postbox'') = Some ''mail''" by code_simp
    then show thesis using that by (cases "planning_model mail_on") auto
  qed
  have "jobs_before mail_on" "mw_tp mail_on = demo_tp" by code_simp+
  then show ?thesis using replacement_pairs_stay_exclusive [OF out(1) _ m(1,2)] out m(3,4) by fastforce
qed

text \<open>A replacement is honoured only while it is on and the core or server module it replaces is installed and off, no other module is honoured for
  the same one, and it offers every capability of that module at the same major version and no lower minor and patch.\<close>

theorem honoured_replacement_is_alone:
  assumes "honoured_replacement w (live_model plugins state) m = Some t" and "\<forall>p \<in> set plugins. distinct (keys (pl_capabilities p))"
  shows "is_enabled m state \<and> \<not> is_enabled t state \<and> (\<forall>m'. honoured_replacement w (live_model plugins state) m' = Some t \<longrightarrow> m' = m) \<and>
    (\<exists>node target. dget (live_model plugins state) m = Some node \<and> dget (live_model plugins state) t = Some target \<and>
      nd_category target \<in> set replaceable_categories \<and> nd_category node \<notin> set replaceable_categories \<and> covers (caps_of node) (caps_of target))"
proof -
  let ?model = "live_model plugins state"
  have ok: "model_ok ?model" by (rule live_model_ok)
  have check: "\<exists>node fs. dget ?model x = Some node \<and> nd_replaces node = t \<and> check w ?model x False = Inr (None, fs)"
    if "honoured_replacement w ?model x = Some t" for x using honoured_check [OF ok that] by blast
  obtain node fs where n: "dget ?model m = Some node" "nd_replaces node = t" "check w ?model m False = Inr (None, fs)" using check [OF assms(1)] by blast
  obtain target where c: "nd_enabled node" "replacement_category_ok w (PStr (nd_category node)) None" "dget ?model t = Some target"
    "nd_category target \<in> set replaceable_categories" "\<not> nd_enabled target" "\<not> other_claims ?model node m" "parity target node = Inr (None, fs)"
    using n by (elim check_none) auto
  note from_plugins = live_model_nodes [of plugins state]
  have flags: "nd_enabled node = is_enabled m state" "nd_enabled target = is_enabled t state"
    using from_plugins [OF n(1)] from_plugins [OF c(3)] by (auto simp: plugin_node_def)
  have "distinct (map fst (caps_of target))"
    using from_plugins [OF c(3)] assms(2) by (auto simp: plugin_node_def caps_of_def keys_def)
  then have "covers (caps_of node) (caps_of target)" using parity_covers [OF c(7)] by blast
  moreover have "m' = m" if h: "honoured_replacement w ?model m' = Some t" for m'
  proof (rule ccontr)
    assume "m' \<noteq> m"
    obtain node' fs' where n': "dget ?model m' = Some node'" "nd_replaces node' = t" "check w ?model m' False = Inr (None, fs')" using check [OF h] by blast
    then have "nd_enabled node'" by (elim check_none) auto
    then have "\<exists>k n. dget ?model k = Some n \<and> k \<noteq> m \<and> nd_enabled n \<and> nd_replaces n = nd_replaces node"
      using \<open>m' \<noteq> m\<close> n'(1,2) n(2) by (intro exI [of _ m'] exI [of _ node']) simp
    then show False using c(6) unfolding other_claims_iff [OF ok] by simp
  qed
  moreover have "nd_category node \<notin> set replaceable_categories" using category_apart [OF c(2)] .
  ultimately show ?thesis using flags c(1,3,4,5) n(1) by (intro conjI exI [of _ node] exI [of _ target] allI impI) simp_all
qed

theorem honoured_replacement_is_alone_witness:
  "is_enabled ''postbox'' (demo_state [(''mail'', False)]) \<and> \<not> is_enabled ''mail'' (demo_state [(''mail'', False)])"
proof -
  let ?plugins = "[demo_plugin ''mail'' ''core'' [], demo_plugin ''postbox'' ''premium'' ''mail'']"
  have h: "honoured_replacement demo_tp (live_model ?plugins (demo_state [(''mail'', False)])) ''postbox'' = Some ''mail''" by code_simp
  have "list_all (\<lambda>p. distinct (keys (pl_capabilities p))) ?plugins" by code_simp
  then have "\<forall>p \<in> set ?plugins. distinct (keys (pl_capabilities p))" unfolding list_all_iff .
  then show ?thesis using honoured_replacement_is_alone [OF h] by blast
qed

section \<open>The cascade\<close>

named_theorems ends "results that are never a runaway recursion"

definition settles :: "mm_error + 'a \<Rightarrow> bool" where
  "settles r = (r \<noteq> Inl Recursion_Error)"

lemma settles_value [ends]: "settles (Inr a)" and settles_error: "settles (Inl e) \<longleftrightarrow> e \<noteq> Recursion_Error"
  by (simp_all add: settles_def)

lemma rbind_ends [ends]: "settles x \<Longrightarrow> (\<And>a. x = Inr a \<Longrightarrow> settles (f a)) \<Longrightarrow> settles (rbind x f)"
  by (cases x) (auto simp: settles_def)

lemma rmap_ends [ends]: "(\<And>x. settles (f x)) \<Longrightarrow> settles (rmap f xs)"
  by (induction xs) (auto intro!: rbind_ends settles_value)

lemma versioned_ends [ends]: "settles (versioned x)"
  by (cases x) (auto simp: settles_def)

lemma catalog_ends [ends]: "settles (installed_catalog_v2 mw)"
proof -
  have "settles (check_runtime_requirement mw req)" for req
    unfolding check_runtime_requirement_def Let_def by (auto simp: settles_error split: prod.splits option.splits intro!: ends)
  then have "settles (catalog_row mw state b)" for state b
    unfolding catalog_row_def check_runtime_requirements_def Let_def by (auto simp: settles_error intro!: ends)
  then show ?thesis unfolding installed_catalog_v2_def by (auto simp: settles_error split: sum.splits intro!: ends)
qed

lemma planning_ends [ends]: "settles (planning_model mw)"
  by (simp add: planning_model_def settles_def split: option.splits)

lemma enable_problems_ends [ends]: "settles (enable_problems w catalog model target hypo)"
proof -
  have "settles (enable_dependency w catalog model m hypo dep)" for m dep
    unfolding enable_dependency_def Let_def by (auto simp: settles_error split: prod.splits option.splits intro!: ends)
  then show ?thesis unfolding enable_problems_def Let_def by (auto simp: settles_error intro!: ends)
qed

lemma hand_back_split_ends [ends]: "settles (hand_back_split w catalog model wanted off)"
proof -
  have "settles (split_one w catalog future x)" for future x
    unfolding split_one_def by (auto simp: settles_error split: option.splits intro!: ends)
  then show ?thesis unfolding hand_back_split_def Let_def by (auto simp: settles_error intro!: ends)
qed

lemma validate_enable_ends [ends]: "settles (validate_enable mw m)"
  unfolding validate_enable_def Let_def by (intro rbind_ends ends) (auto simp: settles_error split: option.splits intro!: ends)

lemma plan_enable_ends: "settles (plan_enable mw catalog m given confirm)"
proof -
  have "settles (confirmed_disables will given)" for will by (simp add: confirmed_disables_def Let_def settles_def)
  then show ?thesis unfolding plan_enable_def Let_def rcheck_def by (auto simp: settles_error intro!: ends)
qed

lemma cascade_ends_at: "\<exists>affected. \<forall>k. cascade (dependants_of w rows state model m coming) (Suc (length rows) + k) m = Inr affected"
proof -
  obtain seen aff where v: "visit (Suc (length rows)) (dependants_of w rows state model m coming) m ([], [m]) = Some (seen, aff)"
    using dg.visit_grows [of rows "([], [m])" "Suc (length rows)" w state model m coming m] ids_bound [of rows] by auto
  then show ?thesis using dg.visit_more [OF v] by (auto simp: cascade_def simp del: visit.simps)
qed

lemma plan_disable_ends: "settles (plan_disable mw rows state m cascade_on confirm)"
proof -
  have "settles (cascade (dependants_of w rows state model m coming) (Suc (length rows)) m)" for w model coming
    using cascade_ends_at [of w rows state model m coming] by (metis add_0_right settles_value)
  then show ?thesis unfolding plan_disable_def Let_def rcheck_def
    by (auto simp: settles_error split: prod.splits intro!: ends simp del: visit.simps)
qed

text \<open>(C20) A cascade always ends: the recursion over the dependants of a module returns at a depth of one level for each installed module, whatever
  cycles the dependencies hold, any greater depth gives the same list, and so no enable or disable request runs away.\<close>

theorem cascade_always_ends:
  "(\<exists>affected. \<forall>k. cascade (dependants_of w rows state model x coming) (Suc (length rows) + k) x = Inr affected) \<and>
   fst (queue_set_enabled m enabled cascade_on given c1 c2 mw) \<noteq> Inl Recursion_Error"
proof -
  have "settles (fst (queue_set_enabled m enabled cascade_on given c1 c2 mw))"
  proof (cases "installed_catalog_v2 mw")
    case (Inl e)
    then show ?thesis using catalog_ends [of mw] by (simp add: queue_set_enabled_def settles_error)
  next
    case (Inr rows)
    have "settles (fst (case p of Inl e \<Rightarrow> (Inl e, mw) | Inr job \<Rightarrow> queue_v2 job mw))" if "settles p" for p
      using that by (cases p) (auto simp: queue_v2_def settles_def)
    then show ?thesis using Inr plan_enable_ends plan_disable_ends
      by (auto simp: queue_set_enabled_def settles_error split: option.splits sum.splits)
  qed
  then show ?thesis using cascade_ends_at by (simp add: settles_def)
qed

lemma plan_disable_cascade:
  assumes "plan_disable mw rows state m True confirm = Inr job" and "planning_model mw = Inr model" and "jb_skipped job = []"
  obtains coming where "cascade (dependants_of (mw_tp mw) rows state (live mw) m coming) (Suc (length rows)) m = Inr (jb_affected job)"
    "set coming \<subseteq> set (hand_back_plan model m)" "set (hand_back_wanted model (jb_affected job)) \<subseteq> set (jb_enable job)"
proof -
  obtain coming cannot0 where c0: "(if hand_back_plan model m = [] then Inr ([], []) else hand_back_split (mw_tp mw) (rows_by_id rows) model (hand_back_plan model m) [m]) = Inr (coming, cannot0)"
    using assms(1,2) unfolding plan_disable_def Let_def by (auto split: prod.splits)
  obtain affected where c: "cascade (dependants_of (mw_tp mw) rows state (live mw) m coming) (Suc (length rows)) m = Inr affected"
    using cascade_ends_at by (metis add_0_right)
  obtain handed cannot where h: "(if hand_back_wanted model affected = [] then Inr ([], []) else hand_back_split (mw_tp mw) (rows_by_id rows) model (hand_back_wanted model affected) affected) = Inr (handed, cannot)"
    and j: "job = (new_job mw ''disable'' m affected)\<lparr>jb_enable := handed, jb_skipped := sort (map fst cannot)\<rparr>"
    using assms(1,2) c0 c unfolding plan_disable_def Let_def by (auto split: prod.splits if_splits)
  have "set coming \<subseteq> set (hand_back_plan model m)" using c0 hand_back_split_facts(1) by (fastforce split: if_splits)
  moreover have "cannot = []" using assms(3) j by (cases cannot) (auto dest: arg_cong [of _ _ set])
  then have "set (hand_back_wanted model affected) \<subseteq> set handed"
  proof (cases "hand_back_wanted model affected = []")
    case False
    then obtain answers where a: "rmap (split_one (mw_tp mw) (rows_by_id rows) (with_enabled model (map (\<lambda>m. (m, False)) affected))) (hand_back_wanted model affected) = Inr answers"
      "handed = map fst (filter (\<lambda>r. snd r = []) answers)" "filter (\<lambda>r. snd r \<noteq> []) answers = []"
      using h \<open>cannot = []\<close> by (auto simp: hand_back_split_def Let_def)
    show ?thesis
    proof
      fix t assume "t \<in> set (hand_back_wanted model affected)"
      then obtain y where y: "y \<in> set answers" "split_one (mw_tp mw) (rows_by_id rows) (with_enabled model (map (\<lambda>m. (m, False)) affected)) t = Inr y"
        using rmap_image [OF a(1)] by blast
      have "fst y = t" using y(2) by (auto simp: split_one_def split: option.splits if_splits)
      moreover have "snd y = []" using y(1) a(3) unfolding filter_empty_conv by blast
      ultimately show "t \<in> set handed" using y(1) unfolding a(2) set_map set_filter by blast
    qed
  qed simp
  ultimately show thesis using that [of coming] c j by (simp add: new_job_def)
qed

lemma catalog_enabled:
  assumes "installed_catalog_v2 mw = Inr rows" and "load_state (mw_modules mw) = Inr state" and "r \<in> set rows" and "\<not> ct_legacy r"
  shows "ct_enabled r = is_enabled (ct_id r) state"
proof -
  have "rmap (catalog_row mw state) (mw_base mw) = Inr rows" using assms(1,2) by (simp add: installed_catalog_v2_def)
  from rmap_Inr_set [OF this assms(3)] obtain b where "catalog_row mw state b = Inr r" by blast
  then show ?thesis using assms(4) by (auto simp: catalog_row_def Let_def split: if_splits)
qed


definition alerts_need_mail :: cat_row where
  "alerts_need_mail = \<lparr>ct_id = ''alerts'', ct_version = ''1.0.0'', ct_enabled = True, ct_legacy = False, ct_protected = False, ct_managed = True,
     ct_dependencies = [(''mail'', ''*'')], ct_runtime = []\<rparr>"

definition postbox_on :: module_world where
  "postbox_on = demo_modules [(''alerts'', True), (''mail'', False), (''postbox'', True)]"


definition spool_world :: module_world where
  "spool_world = (demo_modules [(''alerts'', True), (''mail'', False), (''postbox'', True), (''spool'', True)])\<lparr>
     mw_base := [demo_base ''alerts'' [(''mail'', ''*'')], demo_base ''mail'' [(''spool'', ''*'')], demo_base ''postbox'' [], demo_base ''spool'' [(''postbox'', ''*'')]],
     mw_plugins := Some [demo_plugin ''alerts'' ''premium'' [], demo_plugin ''mail'' ''core'' [], demo_plugin ''postbox'' ''premium'' ''mail'', demo_plugin ''spool'' ''premium'' []]\<rparr>"

definition switched :: "(mm_error + module_job) \<Rightarrow> (string list \<times> string list \<times> string list) option" where
  "switched r = (case r of Inl _ \<Rightarrow> None | Inr j \<Rightarrow> Some (jb_affected j, jb_enable j, jb_skipped j))"

text \<open>A confirmed disable can strand a dependant: the dependants of the replaced module are left out of the cascade because that module could come back
  when only the replacement goes, but the cascade itself may switch off what it needs. Here \<open>alerts\<close> needs \<open>mail\<close>, which \<open>postbox\<close> stands in for,
  and \<open>mail\<close> needs \<open>spool\<close>, which depends on \<open>postbox\<close>: the job switches \<open>spool\<close> and \<open>postbox\<close> off, leaves \<open>mail\<close> off, and \<open>alerts\<close>
  stays on with nothing to depend on.\<close>

theorem confirmed_disable_strands_a_dependant:
  "switched (fst (queue_set_enabled ''postbox'' False True PNone False True spool_world)) = Some ([''spool'', ''postbox''], [], [''mail''])"
  by code_simp

section \<open>Reconciling\<close>

definition conflict_job :: "module_world \<Rightarrow> string \<Rightarrow> module_job" where
  "conflict_job mw r = (new_job mw ''disable'' r [r])\<lparr>jb_reason := ''replacement_conflict''\<rparr>"

lemma reconcile_jobs:
  "mw_dispatch_ok mw \<Longrightarrow> fold (\<lambda>pair v. snd (queue_replacement_conflict_disable (fst pair) v)) ps mw = mw\<lparr>mw_jobs := mw_jobs mw @ map (conflict_job mw \<circ> fst) ps\<rparr>"
proof (induction ps arbitrary: mw)
  case (Cons p ps)
  have one: "snd (queue_replacement_conflict_disable (fst p) mw) = mw\<lparr>mw_jobs := mw_jobs mw @ [conflict_job mw (fst p)]\<rparr>"
    using Cons.prems by (simp add: queue_replacement_conflict_disable_def queue_v2_def conflict_job_def)
  have "conflict_job (mw\<lparr>mw_jobs := js\<rparr>) r = conflict_job mw r" for js r by (simp add: conflict_job_def new_job_def)
  then show ?case using Cons one by (simp add: comp_def)
qed simp

lemma conflict_jobs_apply:
  "dget (fold apply_job (map (conflict_job mw \<circ> fst) ps) model) k = map_option (\<lambda>n. if k \<in> fst ` set ps then n\<lparr>nd_enabled := False\<rparr> else n) (dget model k)"
proof (induction ps arbitrary: model)
  case Nil
  show ?case by (cases "dget model k") simp_all
next
  case (Cons p ps)
  have "dget (apply_job (conflict_job mw (fst p)) model) k = map_option (\<lambda>n. if k = fst p then n\<lparr>nd_enabled := False\<rparr> else n) (dget model k)"
    by (cases "dget model k") (auto simp: apply_job_def conflict_job_def new_job_def set_node_get)
  then show ?case using Cons [of "apply_job (conflict_job mw (fst p)) model"] by (cases "dget model k") auto
qed

lemma reconcile_world:
  assumes "live mw = Some model" and "mw_dispatch_ok mw"
  shows "reconcile_conflicts mw = mw\<lparr>mw_jobs := mw_jobs mw @ map (conflict_job mw \<circ> fst)
    (filter (reconcile_due mw (conflicted_replacements (model_with_pending_jobs mw model))) (conflicted_replacements model))\<rparr>"
  unfolding reconcile_conflicts_def assms(1) option.case Let_def by (rule reconcile_jobs [OF assms(2)])

lemma reconcile_planning:
  assumes "live mw = Some model" and "mw_dispatch_ok mw" and "jobs_before mw"
  shows "planning_model (reconcile_conflicts mw) = Inr (fold apply_job (map (conflict_job mw \<circ> fst)
    (filter (reconcile_due mw (conflicted_replacements (model_with_pending_jobs mw model))) (conflicted_replacements model))) (model_with_pending_jobs mw model))"
proof -
  let ?ps = "filter (reconcile_due mw (conflicted_replacements (model_with_pending_jobs mw model))) (conflicted_replacements model)"
  let ?js = "map (conflict_job mw \<circ> fst) ?ps"
  have r: "reconcile_conflicts mw = mw\<lparr>mw_jobs := mw_jobs mw @ ?js\<rparr>" by (rule reconcile_world [OF assms(1,2)])
  have js: "filter pending_job ?js = ?js" "\<And>z. z \<in> set ?js \<Longrightarrow> job_order z = (1, mw_now mw)"
    by (auto simp: filter_id_conv conflict_job_def new_job_def pending_job_def job_order_def)
  have "sort_key job_order (filter pending_job (mw_jobs mw) @ ?js) = sort_key job_order (filter pending_job (mw_jobs mw)) @ ?js"
    by (rule sort_key_later [of _ _ "(1, mw_now mw)"]) (use assms(3) js(2) in \<open>auto simp: job_order_def jobs_before_def split: option.splits\<close>)
  then show ?thesis using assms(1) r js(1) by (simp add: planning_model_def live_def model_with_pending_jobs_def split: option.splits)
qed

text \<open>Conflicts are resolved: when a replacement is on next to the module it replaces, no pending job settles the pair and the last reconcile job of
  the replacement is an hour old, one tick leaves the planned modules without that conflict, with the replacement off and the replaced module
  as it was; the tick makes no new conflict, and for an hour no further job is queued for that replacement.\<close>

theorem conflicts_are_resolved:
  assumes "live mw = Some model" and "mw_dispatch_ok mw" and "jobs_before mw" and pair: "(r, t) \<in> set (conflicted_replacements model)"
    and due: "reconcile_due mw (conflicted_replacements (model_with_pending_jobs mw model)) (r, t)" and named: "r \<noteq> []"
  shows "(\<exists>model'. planning_model (reconcile_conflicts mw) = Inr model' \<and> \<not> in_conflict model' r t \<and> (\<forall>r' t'. in_conflict model' r' t' \<longrightarrow> in_conflict (model_with_pending_jobs mw model) r' t') \<and>
      (\<forall>n. dget model' r = Some n \<longrightarrow> \<not> nd_enabled n)) \<and>
    (\<forall>now \<in> {mw_now mw..<mw_now mw + reconcile_interval}. \<forall>us. \<not> reconcile_due ((reconcile_conflicts mw)\<lparr>mw_now := now\<rparr>) us (r, t))"
proof -
  let ?ps = "filter (reconcile_due mw (conflicted_replacements (model_with_pending_jobs mw model))) (conflicted_replacements model)"
  let ?planned = "model_with_pending_jobs mw model"
  let ?after = "fold apply_job (map (conflict_job mw \<circ> fst) ?ps) ?planned"
  have plan: "planning_model (reconcile_conflicts mw) = Inr ?after" by (rule reconcile_planning [OF assms(1-3)])
  have mem: "r \<in> fst ` set ?ps" using pair due by force
  note get = conflict_jobs_apply [of mw ?ps ?planned]
  have off: "\<not> nd_enabled n" if "dget ?after r = Some n" for n using that get [of r] mem by auto
  have old: "in_conflict ?planned r' t'" if c: "in_conflict ?after r' t'" for r' t'
  proof -
    have "dget ?planned k = Some n" if "dget ?after k = Some n" "nd_enabled n" for k n
      using that get [of k] by (cases "dget ?planned k") (auto split: if_splits)
    then show ?thesis using c unfolding in_conflict_def by metis
  qed
  have latest: "recent_reconcile ((reconcile_conflicts mw)\<lparr>mw_now := now\<rparr>) r \<noteq> None \<and> mw_now mw \<le> the (recent_reconcile ((reconcile_conflicts mw)\<lparr>mw_now := now\<rparr>) r)" for now
  proof -
    let ?jobs = "mw_jobs mw @ map (conflict_job mw \<circ> fst) ?ps"
    let ?times = "List.map_filter jb_created (filter (\<lambda>j. jb_reason j = ''replacement_conflict'' \<and> jb_plugin j = r) ?jobs)"
    have jobs: "mw_jobs ((reconcile_conflicts mw)\<lparr>mw_now := now\<rparr>) = ?jobs" unfolding reconcile_world [OF assms(1,2)] by simp
    have "conflict_job mw r \<in> set ?jobs" using mem by auto
    moreover have "jb_created (conflict_job mw r) = Some (mw_now mw)" "jb_reason (conflict_job mw r) = ''replacement_conflict''" "jb_plugin (conflict_job mw r) = r"
      by (simp_all add: conflict_job_def new_job_def)
    ultimately have now: "mw_now mw \<in> set ?times" unfolding set_map_filter set_filter by (intro CollectI bexI [of _ "conflict_job mw r"]) simp_all
    then have "?times \<noteq> []" by (metis empty_iff list.set(1))
    moreover have "mw_now mw \<le> Max (set ?times)" by (rule Max_ge [OF finite_set now])
    ultimately show ?thesis using named unfolding recent_reconcile_def Let_def jobs by simp
  qed
  have "\<not> reconcile_due ((reconcile_conflicts mw)\<lparr>mw_now := now\<rparr>) us (r, t)" if "now \<in> {mw_now mw..<mw_now mw + reconcile_interval}" for now us
    using that latest [of now] by (auto simp: reconcile_due_def)
  then show ?thesis using plan off old by (auto simp: in_conflict_def)
qed

definition both_on :: module_world where
  "both_on = demo_modules [(''alerts'', True), (''mail'', True), (''postbox'', True)]"

theorem conflicts_are_resolved_witness:
  "\<exists>model model'. live both_on = Some model \<and> in_conflict model ''postbox'' ''mail'' \<and> planning_model (reconcile_conflicts both_on) = Inr model' \<and> \<not> in_conflict model' ''postbox'' ''mail''"
proof -
  obtain model where m: "live both_on = Some model" "(''postbox'', ''mail'') \<in> set (conflicted_replacements model)"
    "reconcile_due both_on (conflicted_replacements (model_with_pending_jobs both_on model)) (''postbox'', ''mail'')"
  proof -
    have "case live both_on of None \<Rightarrow> False | Some mo \<Rightarrow> (''postbox'', ''mail'') \<in> set (conflicted_replacements mo) \<and>
      reconcile_due both_on (conflicted_replacements (model_with_pending_jobs both_on mo)) (''postbox'', ''mail'')" by code_simp
    then show thesis using that by (cases "live both_on") auto
  qed
  have "mw_dispatch_ok both_on" "jobs_before both_on" by code_simp+
  moreover have "in_conflict model ''postbox'' ''mail''"
    using m(1,2) conflicted_iff [OF live_model_ok] by (auto simp: live_def split: option.splits sum.splits)
  ultimately show ?thesis using conflicts_are_resolved [OF m(1) _ _ m(2,3)] m(1) by blast
qed

end
