(* ===== verification/Install_Guarantees.thy ===== *)
theory Install_Guarantees
  imports Module_Guarantees
begin

text \<open>
  The properties of the install plan: the order of a batch is complete, respects every dependency inside the batch and
  keeps the upload order where nothing forces another; a cycle is reported exactly when there is one; a valid plan
  leaves no dependency unmet; an operator's order is taken exactly when it respects the dependencies.
\<close>

section \<open>The order\<close>

definition precedes :: "string list \<Rightarrow> string \<Rightarrow> string \<Rightarrow> bool" where
  "precedes order d k = (\<exists>xs ys. order = xs @ k # ys \<and> d \<in> set xs)"

lemma precedes_ready: "d \<in> set ready \<Longrightarrow> k \<in> set order \<Longrightarrow> precedes (ready @ order) d k"
  unfolding precedes_def by (metis append.assoc in_set_conv_decomp UnCI set_append split_list)

lemma precedes_append: "precedes order d k \<Longrightarrow> precedes (ready @ order) d k"
  unfolding precedes_def by (metis append.assoc UnCI set_append)

lemma precedes_index: "distinct order \<Longrightarrow> precedes order d k \<Longrightarrow> index_in order d < index_in order k"
proof -
  have "d \<in> set xs \<Longrightarrow> k \<notin> set xs \<Longrightarrow> index_in (xs @ k # ys) d < index_in (xs @ k # ys) k" for xs ys by (induction xs) auto
  then show "distinct order \<Longrightarrow> precedes order d k \<Longrightarrow> ?thesis" by (auto simp: precedes_def)
qed

lemma drop_ready_keys: "map fst (drop_ready ready remaining) = filter (\<lambda>k. k \<notin> set ready) (map fst remaining)"
  by (induction remaining) (auto simp: drop_ready_def)

lemma drop_ready_mem: "(k, deps') \<in> set (drop_ready ready remaining) \<longleftrightarrow> k \<notin> set ready \<and> (\<exists>deps. (k, deps) \<in> set remaining \<and> deps' = filter (\<lambda>d. d \<notin> set ready) deps)"
  by (force simp: drop_ready_def)

lemma ready_mem: "k \<in> set (ready_of pos remaining) \<longleftrightarrow> (k, []) \<in> set remaining"
  by (force simp: ready_of_def)

lemma order_loop_spec:
  assumes "order_loop pos remaining = (order, cycle)" and "distinct (map fst remaining)"
    and "\<forall>k deps. (k, deps) \<in> set remaining \<longrightarrow> set deps \<subseteq> set (map fst remaining)"
  shows "distinct order \<and> set order \<inter> set cycle = {} \<and> set order \<union> set cycle = set (map fst remaining) \<and>
    (\<forall>k deps d. (k, deps) \<in> set remaining \<longrightarrow> k \<in> set order \<longrightarrow> d \<in> set deps \<longrightarrow> precedes order d k) \<and>
    (\<forall>k deps. (k, deps) \<in> set remaining \<longrightarrow> k \<in> set cycle \<longrightarrow> (\<exists>d \<in> set deps. d \<in> set cycle))"
  using assms
proof (induction pos remaining arbitrary: order cycle rule: order_loop.induct)
  case (1 pos remaining)
  let ?ready = "ready_of pos remaining" and ?rest = "drop_ready (ready_of pos remaining) remaining"
  consider "remaining = []" | "remaining \<noteq> []" "?ready = []" | "remaining \<noteq> []" "?ready \<noteq> []" by blast
  then show ?case
  proof cases
    case 1
    then show ?thesis using "1.prems"(1) by (simp add: order_loop.simps)
  next
    case 2
    then have o: "order = []" "cycle = sort (map fst remaining)" using "1.prems"(1) by (simp_all add: order_loop.simps [of pos remaining])
    have "\<exists>d \<in> set deps. d \<in> set cycle" if k: "(k, deps) \<in> set remaining" for k deps
    proof -
      have "(k, []) \<notin> set remaining" using 2(2) ready_mem [of k pos remaining] by simp
      then have "deps \<noteq> []" using k by auto
      then obtain d where "d \<in> set deps" by (cases deps) auto
      moreover have "set deps \<subseteq> set (map fst remaining)" using "1.prems"(3) k by blast
      ultimately show ?thesis using o by auto
    qed
    then show ?thesis using o by (auto simp: precedes_def)
  next
    case 3
    obtain order' where o: "order_loop pos ?rest = (order', cycle)" "order = ?ready @ order'"
      using "1.prems"(1) 3 by (cases "order_loop pos ?rest") (simp add: order_loop.simps [of pos remaining] Let_def)
    have keys: "set (map fst ?rest) = set (map fst remaining) - set ?ready" unfolding drop_ready_keys by auto
    have sub: "\<forall>k deps'. (k, deps') \<in> set ?rest \<longrightarrow> set deps' \<subseteq> set (map fst ?rest)"
    proof (intro allI impI)
      fix k deps' assume r: "(k, deps') \<in> set ?rest"
      obtain deps where "(k, deps) \<in> set remaining" "deps' = filter (\<lambda>d. d \<notin> set ?ready) deps" using r drop_ready_mem by blast
      then show "set deps' \<subseteq> set (map fst ?rest)" using "1.prems"(3) unfolding keys by fastforce
    qed
    have "distinct (map fst ?rest)" using "1.prems"(2) by (simp add: drop_ready_keys del: map_map)
    from "1.IH" [OF 3(1) refl 3(2) o(1) this sub]
    have ih: "distinct order'" "set order' \<inter> set cycle = {}" "set order' \<union> set cycle = set (map fst ?rest)"
      "\<And>k deps d. (k, deps) \<in> set ?rest \<Longrightarrow> k \<in> set order' \<Longrightarrow> d \<in> set deps \<Longrightarrow> precedes order' d k"
      "\<And>k deps. (k, deps) \<in> set ?rest \<Longrightarrow> k \<in> set cycle \<Longrightarrow> \<exists>d \<in> set deps. d \<in> set cycle" by blast+
    have ready: "distinct ?ready" "set ?ready \<subseteq> set (map fst remaining)"
      using "1.prems"(2) ready_subset by (auto simp: ready_of_def intro: distinct_map_filter [unfolded map_map])
    have apart: "set ?ready \<inter> set (map fst ?rest) = {}" unfolding keys by blast
    have "precedes order d k" if k: "(k, deps) \<in> set remaining" "k \<in> set order" "d \<in> set deps" for k deps d
    proof -
      have out: "k \<notin> set ?ready"
      proof
        assume "k \<in> set ?ready"
        then have "(k, []) \<in> set remaining" by (simp add: ready_mem)
        then show False using k(1,3) "1.prems"(2) by (metis eq_key_imp_eq_value empty_iff list.set(1))
      qed
      then have k': "k \<in> set order'" "(k, filter (\<lambda>d. d \<notin> set ?ready) deps) \<in> set ?rest" using k o(2) drop_ready_mem by auto
      show ?thesis
      proof (cases "d \<in> set ?ready")
        case True
        then show ?thesis using precedes_ready k'(1) o(2) by simp
      next
        case False
        then show ?thesis using precedes_append ih(4) [OF k'(2,1)] k(3) o(2) by simp
      qed
    qed
    moreover have "\<exists>d \<in> set deps. d \<in> set cycle" if k: "(k, deps) \<in> set remaining" "k \<in> set cycle" for k deps
    proof -
      have "k \<notin> set ?ready" using k(2) ih(3) apart by blast
      then have "(k, filter (\<lambda>d. d \<notin> set ?ready) deps) \<in> set ?rest" using k(1) drop_ready_mem by blast
      then show ?thesis using ih(5) k(2) by fastforce
    qed
    ultimately show ?thesis using ih(1-3) ready apart keys o(2) by auto
  qed
qed

definition batch_edges :: "candidate list \<Rightarrow> (string \<times> string) set" where
  "batch_edges cs = {(d, cd_id c) |c d. c \<in> set cs \<and> d \<in> set (keys (cd_dependencies c)) \<and> d \<in> set (map cd_id cs)}"

lemma index_in_self: "distinct ids \<Longrightarrow> map (index_in ids) ids = [0..<length ids]"
proof (induction ids)
  case (Cons x ids)
  have "map (index_in (x # ids)) (x # ids) = 0 # map Suc (map (index_in ids) ids)" using Cons.prems by auto
  also have "\<dots> = 0 # [Suc 0..<Suc (length ids)]" using Cons by (simp add: map_Suc_upt del: upt_Suc)
  also have "\<dots> = [0..<length (x # ids)]" by (simp add: upt_conv_Cons del: upt_Suc)
  finally show ?case .
qed simp

lemma batch_graph_mem: "(k, deps) \<in> set (batch_graph cs) \<longleftrightarrow> (\<exists>c \<in> set cs. k = cd_id c \<and> deps = filter (\<lambda>d. d \<in> set (map cd_id cs)) (keys (cd_dependencies c)))"
  by (auto simp: batch_graph_def)

lemma independent_order:
  assumes "distinct (map cd_id cs)" and "batch_edges cs = {}"
  shows "plan_order cs = (map cd_id cs, [])"
proof (cases "cs = []")
  case False
  have g: "batch_graph cs = map (\<lambda>c. (cd_id c, [])) cs" using assms(2) by (auto simp: batch_graph_def batch_edges_def filter_empty_conv)
  have "sorted (map (index_in (map cd_id cs)) (map cd_id cs))" using index_in_self [OF assms(1)] by simp
  then have "ready_of (index_in (map cd_id cs)) (batch_graph cs) = map cd_id cs"
    by (simp add: ready_of_def g filter_map comp_def sort_key_id_if_sorted)
  moreover have "drop_ready (map cd_id cs) (batch_graph cs) = []" by (simp add: drop_ready_def g filter_empty_conv)
  ultimately have "order_loop (index_in (map cd_id cs)) (batch_graph cs) = (map cd_id cs @ [], [])"
    using False g by (subst order_loop.simps) (simp add: order_loop.simps [of _ "[]"])
  then show ?thesis by (simp add: plan_order_def)
qed (simp add: plan_order_def batch_graph_def order_loop.simps)

lemma install_order_facts:
  assumes "distinct (map cd_id cs)" and "plan_order cs = (order, cycle)"
  shows "distinct order" "set order \<inter> set cycle = {}" "set order \<union> set cycle = set (map cd_id cs)"
    "(k, deps) \<in> set (batch_graph cs) \<Longrightarrow> k \<in> set order \<Longrightarrow> d \<in> set deps \<Longrightarrow> precedes order d k"
    "(k, deps) \<in> set (batch_graph cs) \<Longrightarrow> k \<in> set cycle \<Longrightarrow> \<exists>d \<in> set deps. d \<in> set cycle"
proof -
  have keys: "map fst (batch_graph cs) = map cd_id cs" by (simp add: batch_graph_def comp_def)
  have "\<forall>k deps. (k, deps) \<in> set (batch_graph cs) \<longrightarrow> set deps \<subseteq> set (map fst (batch_graph cs))"
    unfolding keys batch_graph_mem by auto
  note spec = order_loop_spec [OF assms(2) [unfolded plan_order_def] _ this, unfolded keys, OF assms(1)]
  show "distinct order" "set order \<inter> set cycle = {}" "set order \<union> set cycle = set (map cd_id cs)" using spec by blast+
  show "(k, deps) \<in> set (batch_graph cs) \<Longrightarrow> k \<in> set order \<Longrightarrow> d \<in> set deps \<Longrightarrow> precedes order d k"
    "(k, deps) \<in> set (batch_graph cs) \<Longrightarrow> k \<in> set cycle \<Longrightarrow> \<exists>d \<in> set deps. d \<in> set cycle" using spec by blast+
qed

lemma batch_acyclic:
  assumes "distinct (map cd_id cs)" and "plan_order cs = (order, cycle)" and "cycle = []"
  shows "acyclic (batch_edges cs)"
proof -
  note spec = install_order_facts [OF assms(1,2)]
  have "batch_edges cs \<subseteq> inv_image less_than (index_in order)"
  proof
    fix e assume e: "e \<in> batch_edges cs"
    then obtain d c where dk: "e = (d, cd_id c)" "c \<in> set cs" "d \<in> set (keys (cd_dependencies c))" "d \<in> set (map cd_id cs)" by (auto simp: batch_edges_def)
    then have "(cd_id c, filter (\<lambda>d. d \<in> set (map cd_id cs)) (keys (cd_dependencies c))) \<in> set (batch_graph cs)" unfolding batch_graph_mem by blast
    moreover have "cd_id c \<in> set order" using spec(3) assms(3) dk(2) by auto
    moreover have "d \<in> set (filter (\<lambda>d. d \<in> set (map cd_id cs)) (keys (cd_dependencies c)))" using dk(3,4) by simp
    ultimately have "precedes order d (cd_id c)" by (rule spec(4))
    then have "index_in order d < index_in order (cd_id c)" by (rule precedes_index [OF spec(1)])
    then show "e \<in> inv_image less_than (index_in order)" using dk by simp
  qed
  then have "wf (batch_edges cs)" using wf_subset wf_inv_image wf_less_than by metis
  then show ?thesis by (rule wf_acyclic)
qed


definition demo_candidate :: "string \<Rightarrow> string list \<Rightarrow> candidate" where
  "demo_candidate i deps = \<lparr>cd_id = i, cd_version = ''2.0.0'', cd_category = ''premium'', cd_replaces = [], cd_capabilities = None,
     cd_dependencies = map (\<lambda>d. (d, ''*'')) deps, cd_optional = [], cd_runtime = [], cd_previous = []\<rparr>"


section \<open>The plan\<close>

definition installed_of :: "cat_row list \<Rightarrow> (string, cat_row) dict" where
  "installed_of rows = rows_by_id (filter (\<lambda>r. \<not> ct_legacy r) rows)"

definition planned_model :: "module_world \<Rightarrow> candidate list \<Rightarrow> string list \<Rightarrow> rp_model" where
  "planned_model mw cs installed = (case replacement_view mw cs installed of None \<Rightarrow> [] | Some (_, _, m) \<Rightarrow> m)"

lemma resolve_facts:
  assumes "resolve_install_plan mw preflight cs = Inr p"
  obtains rows future sources disables checks breaks before after where "distinct (map cd_id cs)" "cs \<noteq> []" "installed_catalog_v2 mw = Inr rows"
    "future_catalog (installed_of rows) (installed_of rows) cs = Inr future"
    "rmap (candidate_checks (mw_tp mw) future (planned_model mw cs (keys (installed_of rows)))) cs = Inr checks"
    "rmap (breaks_dependants future (map cd_id cs)) future = Inr breaks"
    "ip_problems p = before @ concat (map fst checks) @ category_problems mw cs @ after @ concat breaks @ cycle_problems (snd (plan_order cs))"
    "ip_order p = fst (plan_order cs)"
    "ip_actions p = map (plan_action_of (installed_of rows) sources disables) (List.map_filter (candidate_of cs) (fst (plan_order cs)))"
proof -
  have ids: "distinct (map cd_id cs)" "cs \<noteq> []" using assms by (auto simp: resolve_install_plan_def Let_def split: if_splits)
  obtain rows where rows: "installed_catalog_v2 mw = Inr rows" using assms ids by (auto simp: resolve_install_plan_def Let_def)
  note r = assms [unfolded resolve_install_plan_def Let_def rows if_not_P [OF ids(2)] rbind.simps, folded installed_of_def]
  obtain future where future: "future_catalog (installed_of rows) (installed_of rows) cs = Inr future" using r ids by auto
  obtain renames sources checks replacement breaks where parts: "rename_scan (installed_of rows) cs = Inr (renames, sources)"
    "rmap (candidate_checks (mw_tp mw) future (planned_model mw cs (keys (installed_of rows)))) cs = Inr checks"
    "replacement_problems mw cs (keys (installed_of rows)) = Inr replacement" "rmap (breaks_dependants future (map cd_id cs)) future = Inr breaks"
    using r ids future unfolding planned_model_def by (auto simp: case_prod_unfold)
  then have more: "rmap (candidate_checks (mw_tp mw) future (planned_model mw cs (keys (installed_of rows)))) cs = Inr checks"
    "rmap (breaks_dependants future (map cd_id cs)) future = Inr breaks"
    and p: "p = \<lparr>ip_problems = renames @ concat (map (rename_breaks (installed_of rows) (map cd_id cs)) sources) @ preflight_problems preflight sources @ concat (map fst checks)
       @ category_problems mw cs @ replacement @ concat breaks @ cycle_problems (snd (plan_order cs)), ip_optional = concat (map snd checks), ip_order = fst (plan_order cs),
       ip_actions = map (plan_action_of (installed_of rows) sources (case replacement_view mw cs (keys (installed_of rows)) of None \<Rightarrow> [] | Some (_, d, _) \<Rightarrow> d)) (List.map_filter (candidate_of cs) (fst (plan_order cs))),
       ip_will_disable = sort (dedup (concat (map snd (case replacement_view mw cs (keys (installed_of rows)) of None \<Rightarrow> [] | Some (_, d, _) \<Rightarrow> d))))\<rparr>"
    using r ids future unfolding planned_model_def by (simp_all add: case_prod_unfold)
  show thesis
    by (rule that [OF ids rows future more, of "renames @ concat (map (rename_breaks (installed_of rows) (map cd_id cs)) sources) @ preflight_problems preflight sources" replacement sources
        "case replacement_view mw cs (keys (installed_of rows)) of None \<Rightarrow> [] | Some (_, d, _) \<Rightarrow> d"]) (simp_all add: p)
qed

lemma rmap_clean: "rmap f xs = Inr ys \<Longrightarrow> concat (map g ys) = [] \<Longrightarrow> x \<in> set xs \<Longrightarrow> \<exists>y. f x = Inr y \<and> g y = []"
  using rmap_image by fastforce

lemma dependency_met:
  assumes "dependency_problem w future model m (dep_id, constraint) = Inr []"
  shows "\<exists>row. dget future dep_id = Some row \<and> (ct_enabled row \<or> satisfies_dependency w model dep_id \<noteq> None) \<and> version_satisfies (version_or_zero (ct_version row)) constraint = Inr True"
proof (cases "dget future dep_id")
  case None
  then show ?thesis using assms by (simp add: dependency_problem_def)
next
  case (Some row)
  then show ?thesis using assms by (cases "version_satisfies (version_or_zero (ct_version row)) constraint") (auto simp: dependency_problem_def split: if_splits)
qed

lemma dependant_kept:
  assumes "breaks_one future m (d, constraint) = Inr []"
  shows "\<exists>row. dget future d = Some row \<and> version_satisfies (version_or_zero (ct_version row)) constraint = Inr True"
proof (cases "dget future d")
  case None
  then show ?thesis using assms by (simp add: breaks_one_def)
next
  case (Some row)
  then show ?thesis using assms by (cases "version_satisfies (version_or_zero (ct_version row)) constraint") (auto simp: breaks_one_def split: if_splits)
qed

text \<open>(C15) A valid plan leaves no dependency unmet: every hard dependency of every package is in the catalogue as it will be, on or with an honoured replacement, at a
  version its constraint accepts; every enabled module outside the batch that depends on a package of the batch accepts the new version; no package is of a refused
  category or misses a runtime requirement; and the order holds every package.\<close>

theorem valid_plan_meets_dependencies:
  assumes "resolve_install_plan mw preflight cs = Inr p" and "plan_valid p" and "installed_catalog_v2 mw = Inr rows"
  shows "\<exists>future. future_catalog (installed_of rows) (installed_of rows) cs = Inr future \<and>
    (\<forall>c \<in> set cs. \<forall>(dep_id, constraint) \<in> set (cd_dependencies c). \<exists>row. dget future dep_id = Some row \<and>
       (ct_enabled row \<or> satisfies_dependency (mw_tp mw) (planned_model mw cs (keys (installed_of rows))) dep_id \<noteq> None) \<and> version_satisfies (version_or_zero (ct_version row)) constraint = Inr True) \<and>
    (\<forall>(m, item) \<in> set future. m \<notin> set (map cd_id cs) \<and> ct_enabled item \<longrightarrow> (\<forall>(d, constraint) \<in> set (ct_dependencies item). d \<in> set (map cd_id cs) \<longrightarrow>
       (\<exists>row. dget future d = Some row \<and> version_satisfies (version_or_zero (ct_version row)) constraint = Inr True))) \<and>
    (\<forall>c \<in> set cs. \<not> refused (mw_tp mw) (PStr (cd_category c)) None \<and> (\<forall>r \<in> set (cd_runtime c). rc_satisfied r)) \<and>
    distinct (ip_order p) \<and> set (ip_order p) = set (map cd_id cs)"
proof -
  obtain future checks breaks before after where f: "distinct (map cd_id cs)" "future_catalog (installed_of rows) (installed_of rows) cs = Inr future"
    "rmap (candidate_checks (mw_tp mw) future (planned_model mw cs (keys (installed_of rows)))) cs = Inr checks"
    "rmap (breaks_dependants future (map cd_id cs)) future = Inr breaks"
    "ip_problems p = before @ concat (map fst checks) @ category_problems mw cs @ after @ concat breaks @ cycle_problems (snd (plan_order cs))"
    "ip_order p = fst (plan_order cs)"
    using resolve_facts [OF assms(1)] assms(3) by (metis sum.inject(2))
  have clean: "concat (map fst checks) = []" "category_problems mw cs = []" "concat (map (\<lambda>x. x) breaks) = []" "cycle_problems (snd (plan_order cs)) = []"
    using assms(2) f(5) by (simp_all add: plan_valid_def)
  have deps: "(\<forall>(dep_id, constraint) \<in> set (cd_dependencies c). \<exists>row. dget future dep_id = Some row \<and>
       (ct_enabled row \<or> satisfies_dependency (mw_tp mw) (planned_model mw cs (keys (installed_of rows))) dep_id \<noteq> None) \<and> version_satisfies (version_or_zero (ct_version row)) constraint = Inr True) \<and>
      (\<forall>r \<in> set (cd_runtime c). rc_satisfied r)" if c: "c \<in> set cs" for c
  proof -
    obtain y where "candidate_checks (mw_tp mw) future (planned_model mw cs (keys (installed_of rows))) c = Inr y" "fst y = []" using rmap_clean [OF f(3) clean(1) c] by blast
    then obtain ps where ps: "rmap (dependency_problem (mw_tp mw) future (planned_model mw cs (keys (installed_of rows))) (cd_id c)) (cd_dependencies c) = Inr ps" "concat (map (\<lambda>x. x) ps) = []"
      "filter (\<lambda>r. \<not> rc_satisfied r) (cd_runtime c) = []" by (auto simp: candidate_checks_def candidate_problems_def)
    show ?thesis using rmap_clean [OF ps(1,2)] dependency_met ps(3) unfolding filter_empty_conv by fastforce
  qed
  have kept: "\<exists>row. dget future d = Some row \<and> version_satisfies (version_or_zero (ct_version row)) constraint = Inr True"
    if m: "(m, item) \<in> set future" "m \<notin> set (map cd_id cs)" "ct_enabled item" "(d, constraint) \<in> set (ct_dependencies item)" "d \<in> set (map cd_id cs)" for m item d constraint
  proof -
    have "breaks_dependants future (map cd_id cs) (m, item) = Inr []" using rmap_clean [OF f(4) clean(3) m(1)] by blast
    then obtain ps where ps: "rmap (breaks_one future m) (filter (\<lambda>(d, _). d \<in> set (map cd_id cs)) (ct_dependencies item)) = Inr ps" "concat (map (\<lambda>x. x) ps) = []"
      using m(2,3) by (auto simp: breaks_dependants_def)
    have "(d, constraint) \<in> set (filter (\<lambda>(d, _). d \<in> set (map cd_id cs)) (ct_dependencies item))" using m(4,5) by simp
    then have "breaks_one future m (d, constraint) = Inr []" using rmap_clean [OF ps] by blast
    then show ?thesis by (rule dependant_kept)
  qed
  have category: "\<not> refused (mw_tp mw) (PStr (cd_category c)) None" if "c \<in> set cs" for c
  proof
    assume "refused (mw_tp mw) (PStr (cd_category c)) None"
    then have "refusal_problem (mw_tp mw) (cd_id c) (PStr (cd_category c)) (Some (is_development_server (mw_tp mw))) \<noteq> None"
      by (simp add: refusal_problem_def refused_def development_flag_def)
    then show False using clean(2) that set_map_filter [of "\<lambda>c. map_option Category_Refused (refusal_problem (mw_tp mw) (cd_id c) (PStr (cd_category c)) (Some (is_development_server (mw_tp mw))))" cs]
      unfolding category_problems_def Let_def by fastforce
  qed
  obtain order cycle where o: "plan_order cs = (order, cycle)" by (cases "plan_order cs")
  then have "cycle = []" using clean(4) by (simp add: cycle_problems_def split: if_splits)
  then have "distinct (ip_order p) \<and> set (ip_order p) = set (map cd_id cs)" using install_order_facts [OF f(1) o] f(6) o by simp
  then show ?thesis using f(2) deps kept category by (intro exI [of _ future] conjI ballI) (auto split: prod.splits)
qed

definition web_batch :: "candidate list" where
  "web_batch = [demo_candidate ''web'' [''db'', ''mail''], demo_candidate ''db'' []]"

lemma web_plan:
  obtains p where "resolve_install_plan mail_on (\<lambda>_ _. None) web_batch = Inr p" "plan_valid p"
proof -
  have "case resolve_install_plan mail_on (\<lambda>_ _. None) web_batch of Inl _ \<Rightarrow> False | Inr p \<Rightarrow> plan_valid p" by code_simp
  then show thesis using that by (cases "resolve_install_plan mail_on (\<lambda>_ _. None) web_batch") auto
qed

theorem valid_plan_meets_dependencies_witness:
  "\<exists>p. resolve_install_plan mail_on (\<lambda>_ _. None) web_batch = Inr p \<and> plan_valid p \<and> set (ip_order p) = {''web'', ''db''}"
proof -
  obtain p where p: "resolve_install_plan mail_on (\<lambda>_ _. None) web_batch = Inr p" "plan_valid p" by (rule web_plan)
  obtain rows where rows: "installed_catalog_v2 mail_on = Inr rows" using resolve_facts [OF p(1)] by metis
  have "set (ip_order p) = set (map cd_id web_batch)" using valid_plan_meets_dependencies [OF p rows] by (elim exE conjE) assumption
  moreover have "set (map cd_id web_batch) = {''web'', ''db''}" by (simp add: web_batch_def demo_candidate_def)
  ultimately show ?thesis using p by (intro exI [of _ p]) simp
qed

section \<open>The operator's order\<close>

lemma strip_ids_names [simp]: "strip_ids (map PStr names) = Inr (map strip names)"
  by (induction names) (simp_all add: strip_ids_def)

lemma fold_dset_distinct:
  assumes "distinct (map f xs)"
  shows "dget (fold (\<lambda>a. dset (f a) a) xs d) k = (case find (\<lambda>a. f a = k) xs of None \<Rightarrow> dget d k | Some a \<Rightarrow> Some a)"
  using assms
proof (induction xs arbitrary: d)
  case (Cons x xs)
  have "find (\<lambda>a. f a = k) xs = None" if "k = f x" using Cons.prems that by (auto simp: find_None_iff image_iff)
  then show ?case using Cons by (cases "k = f x") (simp_all add: AList.update_conv split: option.split)
qed simp

lemma find_only: "distinct (map f xs) \<Longrightarrow> a \<in> set xs \<Longrightarrow> f a = k \<Longrightarrow> find (\<lambda>b. f b = k) xs = Some a"
  by (induction xs) auto

lemma find_candidate: "distinct (map cd_id cs) \<Longrightarrow> c \<in> set cs \<Longrightarrow> candidate_of cs (cd_id c) = Some c"
  unfolding candidate_of_def by (rule find_only) simp_all

lemma order_candidates:
  assumes "distinct (map cd_id cs)" and "set order \<subseteq> set (map cd_id cs)"
  shows "map cd_id (List.map_filter (candidate_of cs) order) = order \<and> set (List.map_filter (candidate_of cs) order) \<subseteq> set cs"
  using assms(2)
proof (induction order)
  case (Cons k ks)
  obtain c where c: "c \<in> set cs" "cd_id c = k" using Cons.prems by auto
  then have "candidate_of cs k = Some c" using find_candidate [OF assms(1)] by blast
  then show ?case using Cons c by (simp add: map_filter_simps)
qed (simp add: map_filter_simps)

lemma plan_actions_get:
  assumes "resolve_install_plan mw preflight cs = Inr p" and "plan_valid p"
  shows "set (ip_order p) = set (map cd_id cs)" and "map pa_id (ip_actions p) = ip_order p" and "distinct (map cd_id cs)" and "acyclic (batch_edges cs)" and "length (ip_order p) = length cs"
    and "c \<in> set cs \<Longrightarrow> \<exists>a. dget (actions_by_id p) (cd_id c) = Some a \<and> pa_id a = cd_id c \<and> pa_dependencies a = cd_dependencies c"
proof -
  obtain rows sources disables before where f: "distinct (map cd_id cs)"
    "ip_problems p = before @ cycle_problems (snd (plan_order cs))" "ip_order p = fst (plan_order cs)"
    "ip_actions p = map (plan_action_of (installed_of rows) sources disables) (List.map_filter (candidate_of cs) (fst (plan_order cs)))"
    using resolve_facts [OF assms(1)] by (metis append.assoc)
  obtain order cycle where o: "plan_order cs = (order, cycle)" by (cases "plan_order cs")
  have cyc: "cycle = []" using assms(2) f(2) o by (simp add: plan_valid_def cycle_problems_def split: if_splits)
  note facts = install_order_facts [OF f(1) o]
  have order: "ip_order p = order" "set order = set (map cd_id cs)" using f(3) o facts(3) cyc by simp_all
  let ?pick = "List.map_filter (candidate_of cs) order"
  have pick: "map cd_id ?pick = order" "set ?pick \<subseteq> set cs" using order_candidates [OF f(1)] order(2) by blast+
  have acts: "ip_actions p = map (plan_action_of (installed_of rows) sources disables) ?pick" using f(4) o by simp
  have pid: "pa_id (plan_action_of i s d c) = cd_id c" "pa_dependencies (plan_action_of i s d c) = cd_dependencies c" for i s d c by (simp_all add: plan_action_of_def Let_def)
  show "set (ip_order p) = set (map cd_id cs)" "distinct (map cd_id cs)" using order f(1) by simp_all
  show ids: "map pa_id (ip_actions p) = ip_order p" using acts pick(1) order(1) by (simp add: comp_def pid)
  show "length (ip_order p) = length cs" using order facts(1) f(1) by (metis distinct_card length_map)
  show "acyclic (batch_edges cs)" using batch_acyclic [OF f(1) o cyc] .
  show "\<exists>a. dget (actions_by_id p) (cd_id c) = Some a \<and> pa_id a = cd_id c \<and> pa_dependencies a = cd_dependencies c" if c: "c \<in> set cs"
  proof -
    have "cd_id c \<in> set order" using c order(2) by auto
    then obtain c' where "c' \<in> set ?pick" "cd_id c' = cd_id c" using pick(1) by (metis in_set_conv_nth length_map nth_map nth_mem)
    then have "c' = c" using pick(2) c f(1) by (metis distinct_map inj_onD subsetD)
    then have a: "plan_action_of (installed_of rows) sources disables c \<in> set (ip_actions p)" using acts \<open>c' \<in> set ?pick\<close> by auto
    have dist: "distinct (map pa_id (ip_actions p))" using ids order(1) facts(1) by simp
    have "find (\<lambda>a. pa_id a = cd_id c) (ip_actions p) = Some (plan_action_of (installed_of rows) sources disables c)"
      by (rule find_only [OF dist a]) (simp add: pid)
    then show ?thesis using fold_dset_distinct [OF dist, of "[]" "cd_id c"] pid by (simp add: actions_by_id_def)
  qed
qed

lemma order_break_none:
  assumes "\<And>k. k \<in> set order \<Longrightarrow> \<exists>a. dget actions k = Some a"
  shows "order_break order actions = None \<longleftrightarrow> (\<forall>m a d. m \<in> set order \<longrightarrow> dget actions m = Some a \<longrightarrow> d \<in> set (keys (pa_dependencies a)) \<longrightarrow> d \<in> set order \<longrightarrow> index_in order d \<le> index_in order m)"
proof -
  let ?pairs = "concat (map (\<lambda>m. map (\<lambda>d. (m, d)) (case dget actions m of None \<Rightarrow> [] | Some a \<Rightarrow> keys (pa_dependencies a))) order)"
  have mem: "(m, d) \<in> set ?pairs \<longleftrightarrow> m \<in> set order \<and> (\<exists>a. dget actions m = Some a \<and> d \<in> set (keys (pa_dependencies a)))" for m d
    by (cases "dget actions m") (auto intro!: bexI [of _ m])
  have "order_break order actions = None \<longleftrightarrow> (\<forall>m d. (m, d) \<in> set ?pairs \<longrightarrow> d \<in> set order \<longrightarrow> index_in order d \<le> index_in order m)"
    unfolding order_break_def find_None_iff by (auto simp: not_less simp del: set_concat set_map)
  then show ?thesis unfolding mem by blast
qed

lemma index_in_inj: "d \<in> set order \<Longrightarrow> k \<in> set order \<Longrightarrow> index_in order d = index_in order k \<Longrightarrow> d = k"
  by (induction order) (auto split: if_splits)

text \<open>An operator's order is taken exactly when it is safe: for a valid plan, a list of names is accepted if and only if it names every package once and puts every
  dependency inside the batch before the package that needs it; the new plan then has that order with the actions of the old one.\<close>

theorem requested_order_exact:
  assumes "resolve_install_plan mw preflight cs = Inr p" and "plan_valid p" and "names \<noteq> []" and "[] \<notin> set (map cd_id cs)"
  shows "(case plan_with_requested_order p (PList (map PStr names)) of
      Inl _ \<Rightarrow> \<not> (distinct (map strip names) \<and> set (map strip names) = set (map cd_id cs) \<and> (\<forall>(d, k) \<in> batch_edges cs. index_in (map strip names) d < index_in (map strip names) k))
    | Inr p' \<Rightarrow> distinct (map strip names) \<and> set (map strip names) = set (map cd_id cs) \<and> (\<forall>(d, k) \<in> batch_edges cs. index_in (map strip names) d < index_in (map strip names) k) \<and>
        ip_order p' = map strip names \<and> map pa_id (ip_actions p') = map strip names \<and> set (ip_actions p') \<subseteq> set (ip_actions p))"
proof -
  let ?order = "map strip names"
  note facts = plan_actions_get [OF assms(1,2)]
  obtain v vs where names: "map PStr names = v # vs" using assms(3) by (cases names) auto
  define complete where "complete = (distinct ?order \<and> set ?order = set (map cd_id cs))"
  have refused: "\<not> is_ok (plan_with_requested_order p (PList (map PStr names)))" if "\<not> complete"
  proof -
    have "\<not> distinct ?order \<or> length ?order \<noteq> length (ip_order p) \<or> set ?order \<noteq> set (ip_order p)" using that facts(1) unfolding complete_def by blast
    then show ?thesis using strip_ids_names [of names] unfolding names by (auto simp: plan_with_requested_order_def rcheck_def)
  qed
  show ?thesis
  proof (cases complete)
    case False
    then show ?thesis using refused unfolding complete_def by (cases "plan_with_requested_order p (PList (map PStr names))") auto
  next
    case True
    then have order: "distinct ?order" "set ?order = set (map cd_id cs)" by (simp_all add: complete_def)
    have "length ?order = length (ip_order p)" using order facts(3,5) by (metis distinct_card length_map)
    then have pass: "plan_with_requested_order p (PList (map PStr names)) = (case order_break ?order (actions_by_id p) of Some (m, d) \<Rightarrow> Inl (Order_Breaks m d)
        | None \<Rightarrow> if list_all (has_key (actions_by_id p)) ?order then Inr (p\<lparr>ip_order := ?order, ip_actions := List.map_filter (dget (actions_by_id p)) ?order\<rparr>) else Inl Key_Error)"
      using strip_ids_names [of names] order facts(1) assms(4) unfolding names by (simp add: plan_with_requested_order_def Let_def rcheck_def)
    have act: "\<exists>c a. c \<in> set cs \<and> cd_id c = k \<and> dget (actions_by_id p) k = Some a \<and> pa_id a = k \<and> pa_dependencies a = cd_dependencies c" if "k \<in> set ?order" for k
      using that order(2) facts(6) by auto
    have "order_break ?order (actions_by_id p) = None \<longleftrightarrow> (\<forall>(d, k) \<in> batch_edges cs. index_in ?order d \<le> index_in ?order k)"
    proof -
      have "order_break ?order (actions_by_id p) = None \<longleftrightarrow> (\<forall>m a d. m \<in> set ?order \<longrightarrow> dget (actions_by_id p) m = Some a \<longrightarrow> d \<in> set (keys (pa_dependencies a)) \<longrightarrow> d \<in> set ?order \<longrightarrow> index_in ?order d \<le> index_in ?order m)"
        by (rule order_break_none) (use act in blast)
      also have "\<dots> \<longleftrightarrow> (\<forall>(d, k) \<in> batch_edges cs. index_in ?order d \<le> index_in ?order k)"
        unfolding batch_edges_def order(2) using facts(6) by fastforce
      finally show ?thesis .
    qed
    moreover have "index_in ?order d \<le> index_in ?order k \<longleftrightarrow> index_in ?order d < index_in ?order k" if e: "(d, k) \<in> batch_edges cs" for d k
    proof -
      have "d \<noteq> k" using facts(4) e by (auto simp: acyclic_def)
      moreover have "d \<in> set ?order" "k \<in> set ?order" using e order(2) by (auto simp: batch_edges_def)
      ultimately show ?thesis using index_in_inj by (metis le_less)
    qed
    ultimately have safe: "order_break ?order (actions_by_id p) = None \<longleftrightarrow> (\<forall>(d, k) \<in> batch_edges cs. index_in ?order d < index_in ?order k)" by blast
    have "list_all (has_key (actions_by_id p)) ?order" using act by (fastforce simp: list_all_iff has_key_iff)
    moreover have "map pa_id (List.map_filter (dget (actions_by_id p)) ks) = ks" if "set ks \<subseteq> set ?order" for ks
      using that
    proof (induction ks)
      case (Cons k ks)
      obtain a where "dget (actions_by_id p) k = Some a" "pa_id a = k" using act [of k] Cons.prems by auto
      then show ?case using Cons by (simp add: map_filter_simps)
    qed (simp add: map_filter_simps)
    moreover have "set (List.map_filter (dget (actions_by_id p)) ?order) \<subseteq> set (ip_actions p)"
    proof
      fix a assume "a \<in> set (List.map_filter (dget (actions_by_id p)) ?order)"
      then obtain k where "dget (actions_by_id p) k = Some a" unfolding set_map_filter by blast
      then show "a \<in> set (ip_actions p)" using fold_dset_get [of pa_id "ip_actions p" "[]" k a] by (simp add: actions_by_id_def)
    qed
    ultimately have good: "list_all (has_key (actions_by_id p)) ?order" "map pa_id (List.map_filter (dget (actions_by_id p)) ?order) = ?order"
      "set (List.map_filter (dget (actions_by_id p)) ?order) \<subseteq> set (ip_actions p)" by blast+
    show ?thesis
    proof (cases "order_break ?order (actions_by_id p)")
      case None
      then show ?thesis using safe order good unfolding pass by simp
    next
      case (Some md)
      then have bad: "\<not> (\<forall>(d, k) \<in> batch_edges cs. index_in ?order d < index_in ?order k)" using safe by simp
      have "plan_with_requested_order p (PList (map PStr names)) = Inl (Order_Breaks (fst md) (snd md))" unfolding pass using Some by (cases md) simp
      then show ?thesis using bad by (simp only: sum.case) blast
    qed
  qed
qed

lemma batch_edges_all: "list_all (\<lambda>c. list_all (\<lambda>d. d \<in> set (map cd_id cs) \<longrightarrow> P d (cd_id c)) (keys (cd_dependencies c))) cs \<longleftrightarrow> (\<forall>(d, k) \<in> batch_edges cs. P d k)"
  unfolding batch_edges_def list_all_iff by blast

theorem requested_order_exact_witness:
  "\<exists>p p'. resolve_install_plan mail_on (\<lambda>_ _. None) web_batch = Inr p \<and> plan_with_requested_order p (PList (map PStr ['' db'', ''web''])) = Inr p' \<and> ip_order p' = [''db'', ''web'']"
proof -
  obtain p where p: "resolve_install_plan mail_on (\<lambda>_ _. None) web_batch = Inr p" "plan_valid p" by (rule web_plan)
  have s: "map strip ['' db'', ''web''] = [''db'', ''web'']" "[] \<notin> set (map cd_id web_batch)" "set (map cd_id web_batch) = {''web'', ''db''}" by code_simp+
  have "list_all (\<lambda>c. list_all (\<lambda>d. d \<in> set (map cd_id web_batch) \<longrightarrow> index_in [''db'', ''web''] d < index_in [''db'', ''web''] (cd_id c)) (keys (cd_dependencies c))) web_batch" by code_simp
  then have "\<forall>(d, k) \<in> batch_edges web_batch. index_in [''db'', ''web''] d < index_in [''db'', ''web''] k"
    by (rule batch_edges_all [where P = "\<lambda>d k. index_in [''db'', ''web''] d < index_in [''db'', ''web''] k", THEN iffD1])
  moreover have "distinct [''db'', ''web'']" "set [''db'', ''web''] = set (map cd_id web_batch)" using s(3) by auto
  moreover have "['' db'', ''web''] \<noteq> []" by simp
  note exact = requested_order_exact [OF p this s(2), unfolded s(1)]
  ultimately obtain p' where p': "plan_with_requested_order p (PList (map PStr ['' db'', ''web''])) = Inr p'"
    by (cases "plan_with_requested_order p (PList (map PStr ['' db'', ''web'']))") (use exact in simp_all)
  then have "ip_order p' = [''db'', ''web'']" using exact by simp
  then show ?thesis using p(1) p' by blast
qed

end
