(* ===== verification/Capabilities.thy ===== *)
theory Capabilities
  imports Module_Switching
begin

text \<open>
  The capability registry of \<open>capabilities.py\<close>. A registration belongs to one process. Which module may register which name
  and whether a registered name may be used is decided from the installed plugins and the module state at that moment, the
  world \<open>cap_world\<close>; an unreadable plugin registry is \<open>None\<close>. A health callback is code of a module: it is the tree of
  the questions it asks the registry and of its answer after each reply, so that a callback which looks at other
  capabilities, or at its own, is covered. Callbacks come to an end and do not change the registry. An object is known by
  its identity, a number. Log lines are left out.
\<close>

section \<open>Registrations\<close>

datatype cap_reason =
    Provider_Missing string | Provider_State_Unreadable state_error | Provider_Disabled string
  | Replaced_Unregistered string string string | No_Longer_Replaces string string string | Not_Registered string string
  | Bad_Range version_error | Range_Unmet string string string | Reentered "string list" | Health_Raised string string
  | Health_Reported string | Health_Unhealthy | Provider_Unhealthy | Health_Unchecked

record cap_status =
  st_id :: string
  st_module :: string
  st_available :: bool
  st_state :: string
  st_required :: "string option"
  st_installed :: "string option"
  st_version :: "string option"
  st_description :: string
  st_operations :: "string list"
  st_metadata :: pydict
  st_reason :: "cap_reason option"
  st_health :: pydict
  st_health_checked :: bool
  st_replaces :: "string option"

datatype cap_error =
    Identifier_Required | Identifier_Unsupported string | Not_Namespaced | Wrong_Prefix string string | Version_Required
  | Version_Invalid string | Number_Too_Long | Provider_Required | Health_Not_Callable | Duplicate_Operations | Metadata_Not_Json
  | Already_Registered string string | Cap_Unavailable string cap_status | Cap_Disabled string cap_status
  | Cap_Version_Mismatch string cap_status | Cap_Unhealthy string cap_status | Registration_Disappeared string cap_status

datatype health_value = Health_Value pyval | Health_Pair pyval pyval | Health_Raises string string

datatype health_call = Health_Answers health_value
  | Health_Asks string "string option" "string option" bool "cap_error + cap_status \<Rightarrow> health_call"

record registration =
  cr_id :: string
  cr_module :: string
  cr_version :: string
  cr_provider :: nat
  cr_description :: string
  cr_health :: "(nat \<times> health_call) option"
  cr_operations :: "string list"
  cr_metadata :: pydict

record cap_registry =
  rg_table :: "(string, registration) dict"
  rg_mismatches :: rp_mismatches
  rg_warned :: "(string \<times> string) list"

record cap_plugin = rp_plugin +
  cp_version :: string

record cap_world =
  cw_plugins :: "cap_plugin list option"
  cw_modules :: ms_world
  cw_tp :: tp_world

definition cap_live :: "cap_world \<Rightarrow> rp_model option" where
  "cap_live w = (case cw_plugins w of None \<Rightarrow> None
     | Some ps \<Rightarrow> (case load_state (cw_modules w) of Inl _ \<Rightarrow> None | Inr state \<Rightarrow> Some (live_model (map rp_plugin.truncate ps) state)))"

section \<open>Names and versions\<close>

definition identifier_char :: "char \<Rightarrow> bool" where
  "identifier_char c = (is_alnum_ascii c \<or> c \<in> set ''-_.'')"

definition clean_identifier :: "string \<Rightarrow> cap_error + string" where
  "clean_identifier value = (let v = strip value in
     if v = [] then Inl Identifier_Required
     else if \<not> list_all identifier_char v then Inl (Identifier_Unsupported v)
     else Inr v)"

definition validate_capability_version :: "string \<Rightarrow> cap_error + string" where
  "validate_capability_version value = (let v = strip value in
     if v = [] then Inl Version_Required
     else (case version_satisfies v (''=='' @ v) of
         Inl Int_Too_Long \<Rightarrow> Inl Number_Too_Long
       | Inl _ \<Rightarrow> Inl (Version_Invalid v)
       | Inr _ \<Rightarrow> Inr v))"

definition under_prefix :: "string \<Rightarrow> string \<Rightarrow> bool" where
  "under_prefix owner capability_id = startswith capability_id (owner @ ''.'')"

definition first_part :: "string \<Rightarrow> string" where
  "first_part capability_id = takeWhile (\<lambda>c. c \<noteq> CHR ''.'') capability_id"

section \<open>Who may register\<close>

definition declared_capabilities :: "rp_model \<Rightarrow> string \<Rightarrow> (string, string) dict" where
  "declared_capabilities model m = (case dget model m of None \<Rightarrow> [] | Some n \<Rightarrow> caps_of n)"

definition replacement_may_register :: "cap_world \<Rightarrow> string \<Rightarrow> string \<Rightarrow> bool" where
  "replacement_may_register w owner capability_id = (case cap_live w of None \<Rightarrow> False
     | Some model \<Rightarrow> (case honoured_replacement (cw_tp w) model owner of None \<Rightarrow> False
         | Some replaced \<Rightarrow> replaced \<noteq> [] \<and> under_prefix replaced capability_id \<and> has_key (declared_capabilities model owner) capability_id))"

definition core_module_may_register :: "cap_world \<Rightarrow> string \<Rightarrow> string \<Rightarrow> bool" where
  "core_module_may_register w owner capability_id = (case cap_live w of None \<Rightarrow> True
     | Some model \<Rightarrow> (case dget model owner of None \<Rightarrow> True
         | Some node \<Rightarrow> (case nd_capabilities node of None \<Rightarrow> True
             | Some caps \<Rightarrow> nd_category node \<notin> set replaceable_categories \<or> has_key caps capability_id)))"

definition replacement_version_refusal :: "cap_world \<Rightarrow> string \<Rightarrow> string \<Rightarrow> string \<Rightarrow> (string \<times> string \<times> rp_reason) option" where
  "replacement_version_refusal w owner capability_id version = (case cap_live w of None \<Rightarrow> None
     | Some model \<Rightarrow> (case dget (declared_capabilities model owner) capability_id of None \<Rightarrow> None
         | Some declared \<Rightarrow> (case version_within_declared declared version of Inl _ \<Rightarrow> None
             | Inr reason \<Rightarrow> map_option (\<lambda>r. (declared, version, r)) reason)))"

definition is_unhonoured_replacement_name :: "cap_world \<Rightarrow> string \<Rightarrow> string \<Rightarrow> bool" where
  "is_unhonoured_replacement_name w owner capability_id = (case cap_live w of None \<Rightarrow> False
     | Some model \<Rightarrow> (case dget model owner of None \<Rightarrow> False
         | Some node \<Rightarrow> nd_replaces node \<noteq> [] \<and> under_prefix (nd_replaces node) capability_id \<and>
             has_key (declared_capabilities model owner) capability_id))"

definition registered_by_replacement :: "registration option \<Rightarrow> string \<Rightarrow> string option" where
  "registered_by_replacement reg capability_id = (case reg of None \<Rightarrow> None
     | Some r \<Rightarrow> if cr_module r \<in> {''tec-tac'', ''core''} \<or> under_prefix (cr_module r) capability_id then None
         else Some (first_part capability_id))"

definition honoured_replacement_of :: "cap_world \<Rightarrow> string \<Rightarrow> string option" where
  "honoured_replacement_of w m = (case cap_live w of None \<Rightarrow> None | Some model \<Rightarrow> replaced_by (cw_tp w) model m)"

section \<open>Registering\<close>

datatype health_arg = No_Health | Not_Callable | Health_Callback nat health_call

datatype metadata_arg = No_Metadata | Metadata pydict | Metadata_Opaque

record cap_request =
  rq_id :: string
  rq_module :: string
  rq_version :: string
  rq_provider :: "nat option"
  rq_description :: string
  rq_health :: health_arg
  rq_operations :: "pyval list"
  rq_metadata :: metadata_arg

text \<open>What \<open>_unregistered\<close> returns carries whatever provider was given; \<open>answer\<close> is a registration in the table, or one that
  stays out of it.\<close>

datatype reg_answer = Registered registration | Unregistered string string string "nat option" string

definition unregistered :: "string \<Rightarrow> string \<Rightarrow> string \<Rightarrow> nat option \<Rightarrow> string \<Rightarrow> reg_answer" where
  "unregistered capability_id owner version provider description = Unregistered capability_id owner version provider (strip description)"

definition drop_own_registration :: "string \<Rightarrow> string \<Rightarrow> cap_registry \<Rightarrow> cap_registry" where
  "drop_own_registration capability_id owner rg = (case dget (rg_table rg) capability_id of
     None \<Rightarrow> rg
   | Some existing \<Rightarrow> if cr_module existing = owner then rg\<lparr>rg_table := ddel capability_id (rg_table rg)\<rparr> else rg)"

definition warn_once :: "string \<Rightarrow> string \<Rightarrow> cap_registry \<Rightarrow> cap_registry" where
  "warn_once owner capability_id rg =
     (if (owner, capability_id) \<in> set (rg_warned rg) then rg else rg\<lparr>rg_warned := rg_warned rg @ [(owner, capability_id)]\<rparr>)"

definition clean_operations :: "pyval list \<Rightarrow> string list" where
  "clean_operations ops = filter (\<lambda>s. s \<noteq> []) (map (\<lambda>v. strip (py_str v)) ops)"

fun health_arg_error :: "health_arg \<Rightarrow> cap_error + (nat \<times> health_call) option" where
  "health_arg_error No_Health = Inr None"
| "health_arg_error Not_Callable = Inl Health_Not_Callable"
| "health_arg_error (Health_Callback i h) = Inr (Some (i, h))"

fun clean_metadata :: "metadata_arg \<Rightarrow> cap_error + pydict" where
  "clean_metadata No_Metadata = Inr []"
| "clean_metadata (Metadata d) = (if ints_printable (PDict d) then Inr d else Inl Number_Too_Long)"
| "clean_metadata Metadata_Opaque = Inl Metadata_Not_Json"

definition build_registration :: "string \<Rightarrow> string \<Rightarrow> string \<Rightarrow> cap_request \<Rightarrow> cap_error + registration" where
  "build_registration capability_id owner version rq = (case rq_provider rq of
     None \<Rightarrow> Inl Provider_Required
   | Some provider \<Rightarrow> rbind (health_arg_error (rq_health rq)) (\<lambda>health.
       let ops = clean_operations (rq_operations rq) in
       rcheck (\<not> list_all ints_printable (rq_operations rq)) Number_Too_Long (rcheck (\<not> distinct ops) Duplicate_Operations
         (rbind (clean_metadata (rq_metadata rq)) (\<lambda>meta.
           Inr \<lparr>cr_id = capability_id, cr_module = owner, cr_version = version, cr_provider = provider, cr_description = strip (rq_description rq),
             cr_health = health, cr_operations = ops, cr_metadata = meta\<rparr>)))))"

definition same_contract :: "registration \<Rightarrow> registration \<Rightarrow> bool" where
  "same_contract a b = (cr_module a = cr_module b \<and> cr_version a = cr_version b \<and> cr_description a = cr_description b \<and>
     cr_operations a = cr_operations b \<and> cr_provider a = cr_provider b \<and> map_option fst (cr_health a) = map_option fst (cr_health b))"

definition store_registration :: "registration \<Rightarrow> cap_registry \<Rightarrow> cap_registry \<times> (cap_error + reg_answer)" where
  "store_registration r rg = (case dget (rg_table rg) (cr_id r) of
     Some previous \<Rightarrow> (rg, if same_contract previous r then Inr (Registered previous) else Inl (Already_Registered (cr_id r) (cr_module previous)))
   | None \<Rightarrow> (rg\<lparr>rg_table := dset (cr_id r) r (rg_table rg)\<rparr>, Inr (Registered r)))"

definition finish_registration :: "string \<Rightarrow> string \<Rightarrow> string \<Rightarrow> cap_request \<Rightarrow> cap_registry \<Rightarrow> cap_registry \<times> (cap_error + reg_answer)" where
  "finish_registration capability_id owner version rq rg = (case build_registration capability_id owner version rq of
     Inl e \<Rightarrow> (rg, Inl e) | Inr r \<Rightarrow> store_registration r rg)"

definition register_accepted :: "cap_world \<Rightarrow> bool \<Rightarrow> string \<Rightarrow> string \<Rightarrow> cap_request \<Rightarrow> cap_registry \<Rightarrow> cap_registry \<times> (cap_error + reg_answer)" where
  "register_accepted w via capability_id owner rq rg = (case validate_capability_version (rq_version rq) of
     Inl e \<Rightarrow> (rg, Inl e)
   | Inr version \<Rightarrow>
       if \<not> via then finish_registration capability_id owner version rq rg
       else (case replacement_version_refusal w owner capability_id version of
           Some (declared, registered, reason) \<Rightarrow>
             (drop_own_registration capability_id owner (warn_once owner capability_id
                (rg\<lparr>rg_mismatches := record_registered_mismatch owner capability_id declared registered reason (rg_mismatches rg)\<rparr>)),
              Inr (unregistered capability_id owner version (rq_provider rq) (rq_description rq)))
         | None \<Rightarrow> finish_registration capability_id owner version rq
             (rg\<lparr>rg_mismatches := clear_registered_mismatch owner capability_id (rg_mismatches rg)\<rparr>)))"

definition register_capability :: "cap_world \<Rightarrow> cap_request \<Rightarrow> cap_registry \<Rightarrow> cap_registry \<times> (cap_error + reg_answer)" where
  "register_capability w rq rg = (case clean_identifier (rq_id rq) of Inl e \<Rightarrow> (rg, Inl e)
   | Inr capability_id \<Rightarrow> (case clean_identifier (rq_module rq) of Inl e \<Rightarrow> (rg, Inl e)
   | Inr owner \<Rightarrow>
       let refused = (\<lambda>rg. (drop_own_registration capability_id owner rg,
              Inr (unregistered capability_id owner (rq_version rq) (rq_provider rq) (rq_description rq)))) in
       if CHR ''.'' \<notin> set capability_id then (rg, Inl Not_Namespaced)
       else if owner \<noteq> ''tec-tac'' \<and> \<not> under_prefix owner capability_id then
         (if replacement_may_register w owner capability_id then register_accepted w True capability_id owner rq rg
          else if is_unhonoured_replacement_name w owner capability_id then refused rg
          else (rg, Inl (Wrong_Prefix capability_id owner)))
       else if owner \<notin> {''tec-tac'', ''core''} \<and> \<not> core_module_may_register w owner capability_id then refused (warn_once owner capability_id rg)
       else register_accepted w False capability_id owner rq rg))"

section \<open>Status of a capability\<close>

definition find_plugin :: "cap_plugin list \<Rightarrow> string \<Rightarrow> cap_plugin option" where
  "find_plugin plugins m = (case filter (\<lambda>p. pl_id p = m \<and> pl_extension p) plugins of [p] \<Rightarrow> Some p | _ \<Rightarrow> None)"

definition provider_module_status :: "cap_world \<Rightarrow> string \<Rightarrow> string \<times> string option \<times> cap_reason option" where
  "provider_module_status w m =
     (if m \<in> {''tec-tac'', ''core''} then (''available'', None, None)
      else (case Option.bind (cw_plugins w) (\<lambda>ps. find_plugin ps m) of
          None \<Rightarrow> (''missing'', None, Some (Provider_Missing m))
        | Some p \<Rightarrow> (case load_state (cw_modules w) of
              Inl e \<Rightarrow> (''unhealthy'', Some (cp_version p), Some (Provider_State_Unreadable e))
            | Inr state \<Rightarrow> if is_enabled m state then (''available'', Some (cp_version p), None)
                else (''disabled'', Some (cp_version p), Some (Provider_Disabled m)))))"

definition reported :: "pyval \<Rightarrow> cap_reason option" where
  "reported reason = (if truthy reason then Some (Health_Reported (py_str reason)) else None)"

definition health_verdict :: "pydict \<Rightarrow> bool" where
  "health_verdict details = (case dget details ''healthy'' of Some v \<Rightarrow> truthy v
     | None \<Rightarrow> (case dget details ''available'' of Some v \<Rightarrow> truthy v | None \<Rightarrow> True))"

fun read_health :: "health_value \<Rightarrow> cap_error + bool \<times> cap_reason option \<times> pydict" where
  "read_health (Health_Raises cls message) = Inr (False, Some (Health_Raised cls message), [(''error_type'', PStr cls)])"
| "read_health (Health_Pair healthy reason) =
     (if truthy reason \<and> \<not> ints_printable reason then Inl Number_Too_Long else Inr (truthy healthy, reported reason, []))"
| "read_health (Health_Value (PDict details)) =
     (if \<not> ints_printable (PDict details) then Inl Number_Too_Long
      else Inr (health_verdict details, reported (py_or (get_or details ''reason'' PNone) (get_or details ''message'' PNone)), details))"
| "read_health (Health_Value value) = Inr (truthy value, if truthy value then None else Some Health_Unhealthy, [])"

primrec run_health :: "(string \<Rightarrow> string option \<Rightarrow> string option \<Rightarrow> bool \<Rightarrow> cap_error + cap_status) \<Rightarrow> health_call \<Rightarrow> health_value" where
  "run_health ask (Health_Answers v) = v"
| "run_health ask (Health_Asks i version m check_health next) = run_health ask (next (ask i version m check_health))"

definition health_status :: "(string \<Rightarrow> string option \<Rightarrow> string option \<Rightarrow> bool \<Rightarrow> cap_error + cap_status) \<Rightarrow> registration \<Rightarrow>
    cap_error + bool \<times> cap_reason option \<times> pydict" where
  "health_status ask r = (case cr_health r of None \<Rightarrow> Inr (True, None, []) | Some (_, h) \<Rightarrow> read_health (run_health ask h))"

definition max_health_depth :: nat where
  "max_health_depth = 8"

definition given :: "string option \<Rightarrow> string option" where
  "given v = (case v of None \<Rightarrow> None | Some t \<Rightarrow> if t = [] then None else Some t)"

definition owner_of :: "cap_registry \<Rightarrow> string \<Rightarrow> string option \<Rightarrow> string" where
  "owner_of rg capability_id m = (case dget (rg_table rg) capability_id of Some r \<Rightarrow> cr_module r
     | None \<Rightarrow> strip (case given m of Some t \<Rightarrow> t | None \<Rightarrow> first_part capability_id))"

definition base_status :: "cap_world \<Rightarrow> cap_registry \<Rightarrow> string \<Rightarrow> string option \<Rightarrow> string option \<Rightarrow> bool \<Rightarrow> cap_status" where
  "base_status w rg capability_id version m check_health =
     (let reg = dget (rg_table rg) capability_id; owner = owner_of rg capability_id m in
      case provider_module_status w owner of (state, installed, why) \<Rightarrow>
        \<lparr>st_id = capability_id, st_module = owner, st_available = False, st_state = state,
         st_required = given (map_option strip version), st_installed = installed, st_version = map_option cr_version reg,
         st_description = (case reg of None \<Rightarrow> [] | Some r \<Rightarrow> cr_description r),
         st_operations = (case reg of None \<Rightarrow> [] | Some r \<Rightarrow> cr_operations r),
         st_metadata = (case reg of None \<Rightarrow> [] | Some r \<Rightarrow> cr_metadata r), st_reason = why, st_health = [],
         st_health_checked = check_health, st_replaces = registered_by_replacement reg capability_id\<rparr>)"

abbreviation with_state :: "cap_status \<Rightarrow> string \<Rightarrow> cap_reason \<Rightarrow> cap_status" where
  "with_state base state why \<equiv> base\<lparr>st_state := state, st_reason := Some why\<rparr>"

text \<open>The status before the health of the provider is looked at: the final one, or with the registration that is left to check.\<close>

definition checked_version :: "registration \<Rightarrow> string option \<Rightarrow> cap_status \<Rightarrow> cap_error + cap_status \<times> registration option" where
  "checked_version r version base = (case given version of None \<Rightarrow> Inr (base, Some r)
     | Some v \<Rightarrow> (case version_satisfies (cr_version r) v of
           Inl Int_Too_Long \<Rightarrow> Inl Number_Too_Long
         | Inl e \<Rightarrow> Inr (with_state base ''version-incompatible'' (Bad_Range e), None)
         | Inr ok \<Rightarrow> if ok then Inr (base, Some r)
             else Inr (with_state base ''version-incompatible'' (Range_Unmet (st_id base) (cr_version r) v), None)))"

definition resolve_status :: "cap_world \<Rightarrow> cap_registry \<Rightarrow> string \<Rightarrow> string option \<Rightarrow> string option \<Rightarrow> bool \<Rightarrow> cap_error + cap_status \<times> registration option" where
  "resolve_status w rg capability_id version m check_health =
     (let reg = dget (rg_table rg) capability_id; base = base_status w rg capability_id version m check_health in
      if st_state base \<noteq> ''available'' then
        (case (if \<not> has_key (rg_table rg) capability_id \<and> st_state base = ''disabled'' then honoured_replacement_of w (st_module base) else None) of
           None \<Rightarrow> Inr (base, None)
         | Some by_module \<Rightarrow> Inr (if by_module = [] then base
             else with_state base ''capability-unavailable'' (Replaced_Unregistered (st_module base) by_module capability_id), None))
      else (case reg of
          None \<Rightarrow> Inr (with_state base ''capability-unavailable'' (Not_Registered (st_module base) capability_id), None)
        | Some r \<Rightarrow> (case st_replaces base of
              None \<Rightarrow> checked_version r version base
            | Some replaced \<Rightarrow> if replaced \<noteq> [] \<and> honoured_replacement_of w replaced \<noteq> Some (cr_module r)
                then Inr (with_state base ''capability-unavailable'' (No_Longer_Replaces (cr_module r) replaced capability_id), None)
                else checked_version r version base)))"

definition reentered :: "string list \<Rightarrow> string \<Rightarrow> bool" where
  "reentered stack capability_id = (capability_id \<in> set stack \<or> max_health_depth \<le> length stack)"

definition judged :: "cap_status \<Rightarrow> bool \<times> cap_reason option \<times> pydict \<Rightarrow> cap_status" where
  "judged base verdict = (case verdict of (healthy, why, details) \<Rightarrow>
     if healthy then base\<lparr>st_health := details, st_available := True, st_state := ''available'', st_reason := None\<rparr>
     else with_state (base\<lparr>st_health := details\<rparr>) ''unhealthy'' (case why of None \<Rightarrow> Provider_Unhealthy | Some r \<Rightarrow> r))"

function capability_status :: "cap_world \<Rightarrow> cap_registry \<Rightarrow> string list \<Rightarrow> string \<Rightarrow> string option \<Rightarrow> string option \<Rightarrow> bool \<Rightarrow> cap_error + cap_status" where
  "capability_status w rg stack i version m check_health = rbind (clean_identifier i) (\<lambda>capability_id.
     rbind (resolve_status w rg capability_id version m check_health) (\<lambda>(base, todo).
       case todo of None \<Rightarrow> Inr base
       | Some r \<Rightarrow>
           if \<not> check_health then Inr (with_state (base\<lparr>st_health := [(''checked'', PBool False)]\<rparr>) ''health-unchecked'' Health_Unchecked)
           else if reentered stack capability_id then Inr (with_state base ''health-reentrant'' (Reentered (stack @ [capability_id])))
           else rbind (health_status (\<lambda>i' version' m' check'. capability_status w rg (stack @ [capability_id]) i' version' m' check') r)
             (\<lambda>verdict. Inr (judged base verdict))))"
  by pat_completeness auto
termination
  by (relation "measure (\<lambda>(w, rg, stack, _). max_health_depth - length stack)") (auto simp: reentered_def)

declare capability_status.simps [simp del]

section \<open>Looking up and listing\<close>

definition exception_for_status :: "cap_status \<Rightarrow> cap_error" where
  "exception_for_status s = (let capability_id = (if st_id s = [] then ''unknown'' else st_id s) in
     if st_state s = ''disabled'' then Cap_Disabled capability_id s
     else if st_state s = ''version-incompatible'' then Cap_Version_Mismatch capability_id s
     else if st_state s \<in> {''unhealthy'', ''health-reentrant''} then Cap_Unhealthy capability_id s
     else Cap_Unavailable capability_id s)"

definition get_capability :: "cap_world \<Rightarrow> cap_registry \<Rightarrow> string list \<Rightarrow> string \<Rightarrow> string option \<Rightarrow> bool \<Rightarrow> string option \<Rightarrow> cap_error + nat option" where
  "get_capability w rg stack i version required m = rbind (capability_status w rg stack i version m True) (\<lambda>s.
     if \<not> st_available s then (if required then Inl (exception_for_status s) else Inr None)
     else (case dget (rg_table rg) i of
         None \<Rightarrow> if required then Inl (Registration_Disappeared i s) else Inr None
       | Some r \<Rightarrow> Inr (Some (cr_provider r))))"

definition has_capability :: "cap_world \<Rightarrow> cap_registry \<Rightarrow> string list \<Rightarrow> string \<Rightarrow> string option \<Rightarrow> string option \<Rightarrow> cap_error + bool" where
  "has_capability w rg stack i version m = rbind (capability_status w rg stack i version m True) (\<lambda>s. Inr (st_available s))"

definition list_capabilities :: "cap_world \<Rightarrow> cap_registry \<Rightarrow> string list \<Rightarrow> bool \<Rightarrow> bool \<Rightarrow> cap_error + cap_status list" where
  "list_capabilities w rg stack include_unavailable check_health =
     rbind (rmap (\<lambda>i. capability_status w rg stack i None None check_health) (sort (keys (rg_table rg)))) (\<lambda>rows.
       Inr (if include_unavailable then rows else filter st_available rows))"

fun caller_names :: "pyval list \<Rightarrow> string list" where
  "caller_names [] = []"
| "caller_names (PStr s # vs) = (if strip s = [] then caller_names vs else strip s # caller_names vs)"
| "caller_names (_ # vs) = caller_names vs"

definition registration_callers :: "string \<Rightarrow> registration \<Rightarrow> string list" where
  "registration_callers wanted r =
     (if cr_module r \<noteq> wanted \<or> dget (cr_metadata r) ''audit_person_for_allowed_callers'' \<noteq> Some (PBool True) then []
      else (case dget (cr_metadata r) ''allowed_callers'' of Some (PList vs) \<Rightarrow> caller_names vs | _ \<Rightarrow> []))"

definition provider_audit_callers :: "cap_registry \<Rightarrow> string \<Rightarrow> string list" where
  "provider_audit_callers rg m = (let wanted = strip m in
     if wanted = [] then [] else dedup (concat (map (\<lambda>e. registration_callers wanted (snd e)) (rg_table rg))))"

definition text_or_none :: "pyval \<Rightarrow> pyval" where
  "text_or_none v = (if v = PNone \<or> v = PStr [] then PNone else PStr (py_str v))"

definition build_operation_context :: "string \<Rightarrow> string \<Rightarrow> pyval \<Rightarrow> pyval \<Rightarrow> pydict \<Rightarrow> pydict" where
  "build_operation_context source_module source_action source_run_id requested_by extra = fold (\<lambda>(k, v). dset k v) extra
     [(''source_module'', PStr (strip source_module)), (''source_action'', PStr (strip source_action)),
      (''source_run_id'', text_or_none source_run_id), (''requested_by'', text_or_none requested_by)]"

end
