(* ===== verification/Capability_Guarantees.thy ===== *)
theory Capability_Guarantees
  imports Capabilities Module_Guarantees
begin

text \<open>
  What the capability registry promises: a name is served only by the module it belongs to or by the module that replaces
  that one now, registering never takes a name from another module, the table stays well-formed, and health callbacks run
  only when a caller asks for health and never deeper than the limit.
\<close>

section \<open>Status\<close>

lemma checked_version_left:
  assumes "checked_version r version base = Inr (b, Some r')"
  shows "b = base \<and> r' = r \<and> (\<forall>t. given version = Some t \<longrightarrow> version_satisfies (cr_version r) t = Inr True)"
  using assms by (auto simp: checked_version_def split: option.splits sum.splits version_error.splits if_splits)

lemma checked_version_done:
  "checked_version r version base = Inr (b, None) \<Longrightarrow> st_available b = st_available base"
  by (auto simp: checked_version_def split: option.splits sum.splits version_error.splits if_splits)

lemma base_status_facts [simp]:
  "\<not> st_available (base_status w rg c version m h)" "st_module (base_status w rg c version m h) = owner_of rg c m"
  "st_id (base_status w rg c version m h) = c" "st_state (base_status w rg c version m h) = fst (provider_module_status w (owner_of rg c m))"
  "st_replaces (base_status w rg c version m h) = registered_by_replacement (dget (rg_table rg) c) c"
  by (auto simp: base_status_def Let_def split: prod.split)

lemma resolve_done: "resolve_status w rg c version m h = Inr (b, None) \<Longrightarrow> \<not> st_available b"
  by (auto simp: resolve_status_def Let_def dest!: checked_version_done split: option.splits if_splits)

lemma resolve_left:
  assumes "resolve_status w rg c version m h = Inr (b, Some r)"
  shows "dget (rg_table rg) c = Some r \<and> b = base_status w rg c version m h \<and> fst (provider_module_status w (cr_module r)) = ''available'' \<and>
    (\<forall>t. given version = Some t \<longrightarrow> version_satisfies (cr_version r) t = Inr True) \<and>
    (\<forall>replaced. registered_by_replacement (Some r) c = Some replaced \<and> replaced \<noteq> [] \<longrightarrow> honoured_replacement_of w replaced = Some (cr_module r))"
  using assms by (auto simp: resolve_status_def Let_def owner_of_def dest!: checked_version_left split: option.splits if_splits)

lemma status_available:
  assumes "capability_status w rg stack i version m h = Inr s" and "st_available s"
  shows "\<exists>c r why details. clean_identifier i = Inr c \<and> h \<and> resolve_status w rg c version m h = Inr (base_status w rg c version m h, Some r) \<and>
    \<not> reentered stack c \<and> health_status (capability_status w rg (stack @ [c])) r = Inr (True, why, details) \<and> st_module s = owner_of rg c m"
proof -
  obtain c b todo where c: "clean_identifier i = Inr c" and res: "resolve_status w rg c version m h = Inr (b, todo)"
    and rest: "(case todo of None \<Rightarrow> Inr b
       | Some r \<Rightarrow>
           if \<not> h then Inr (with_state (b\<lparr>st_health := [(''checked'', PBool False)]\<rparr>) ''health-unchecked'' Health_Unchecked)
           else if reentered stack c then Inr (with_state b ''health-reentrant'' (Reentered (stack @ [c])))
           else rbind (health_status (\<lambda>i' version' m' check'. capability_status w rg (stack @ [c]) i' version' m' check') r)
             (\<lambda>verdict. Inr (judged b verdict))) = Inr s"
    using assms(1) by (subst (asm) capability_status.simps) auto
  show ?thesis
  proof (cases todo)
    case None
    then show ?thesis using rest resolve_done res assms(2) by auto
  next
    case (Some r)
    have b: "b = base_status w rg c version m h" using resolve_left [OF res [unfolded Some]] by simp
    then have h: "h" and nr: "\<not> reentered stack c" using rest Some assms(2) by (auto split: if_splits)
    then obtain verdict where v: "health_status (\<lambda>i' version' m' check'. capability_status w rg (stack @ [c]) i' version' m' check') r = Inr verdict"
      and s: "s = judged b verdict" using rest Some by auto
    obtain healthy why details where vd: "verdict = (healthy, why, details)" by (cases verdict) auto
    have "healthy" using assms(2) s vd b by (auto simp: judged_def split: if_splits)
    then have "st_module s = owner_of rg c m" using s vd b by (simp add: judged_def)
    then show ?thesis using c h nr v vd b res Some \<open>healthy\<close> by auto
  qed
qed

definition provider_runs :: "cap_world \<Rightarrow> string \<Rightarrow> bool" where
  "provider_runs w m = (m \<in> {''tec-tac'', ''core''} \<or> (case cw_plugins w of None \<Rightarrow> False
     | Some ps \<Rightarrow> find_plugin ps m \<noteq> None \<and> (case load_state (cw_modules w) of Inl _ \<Rightarrow> False | Inr state \<Rightarrow> is_enabled m state)))"

lemma provider_available: "fst (provider_module_status w m) = ''available'' \<longleftrightarrow> provider_runs w m"
  by (auto simp: provider_module_status_def provider_runs_def split: option.splits sum.splits)

lemma provider_of_available:
  assumes "capability_status w rg stack i version m h = Inr s" and "st_available s"
  shows "provider_runs w (st_module s)"
  using status_available [OF assms] by (auto dest!: resolve_left simp: owner_of_def provider_available)

lemma replaced_by_honoured: "replaced_by w model m = Some r \<Longrightarrow> honoured_replacement w model r = Some m"
  by (auto simp: replaced_by_def find_Some_iff)

lemma honoured_of_live:
  assumes "honoured_replacement_of w m = Some r"
  obtains model where "cap_live w = Some model" "honoured_replacement (cw_tp w) model r = Some m"
  using assms by (auto simp: honoured_replacement_of_def dest: replaced_by_honoured split: option.splits)

lemma live_enabled: "cap_live w = Some model \<Longrightarrow> dget model k = Some n \<Longrightarrow> load_state (cw_modules w) = Inr state \<Longrightarrow> nd_enabled n = is_enabled k state"
  by (auto simp: cap_live_def plugin_node_def dest!: live_model_nodes split: option.splits sum.splits)

lemma cap_live_ok: "cap_live w = Some model \<Longrightarrow> model_ok model"
  by (auto simp: cap_live_def live_model_ok split: option.splits sum.splits)

lemma honoured_is_off:
  assumes "honoured_replacement_of w m = Some r"
  obtains state where "load_state (cw_modules w) = Inr state" "\<not> is_enabled m state" "is_enabled r state"
proof -
  obtain model where model: "cap_live w = Some model" and hon: "honoured_replacement (cw_tp w) model r = Some m"
    using honoured_of_live [OF assms] by blast
  obtain fs node where node: "dget model r = Some node" "nd_replaces node = m" and ck: "check (cw_tp w) model r False = Inr (None, fs)"
    using honoured_check [OF cap_live_ok [OF model] hon] by auto
  obtain target where target: "dget model m = Some target" "\<not> nd_enabled target" "nd_enabled node"
    using check_none [OF ck] node by auto
  obtain state where state: "load_state (cw_modules w) = Inr state" using model by (auto simp: cap_live_def split: option.splits sum.splits)
  show ?thesis using that [OF state] live_enabled [OF model _ state] target node(1) by auto
qed

text \<open>The framework's own names, the provider's own prefix, or the names of a module that is off and replaced by the provider.\<close>

definition entitled :: "cap_world \<Rightarrow> string \<Rightarrow> string \<Rightarrow> bool" where
  "entitled w owner c = (owner \<in> {''tec-tac'', ''core''} \<or> under_prefix owner c \<or> first_part c = [] \<or>
     honoured_replacement_of w (first_part c) = Some owner \<and>
     (case load_state (cw_modules w) of Inl _ \<Rightarrow> False | Inr state \<Rightarrow> \<not> is_enabled (first_part c) state \<and> is_enabled owner state))"

lemma entitledI:
  assumes "\<And>replaced. registered_by_replacement (Some r) c = Some replaced \<Longrightarrow> replaced \<noteq> [] \<Longrightarrow> honoured_replacement_of w replaced = Some (cr_module r)"
  shows "entitled w (cr_module r) c"
proof (cases "cr_module r \<in> {''tec-tac'', ''core''} \<or> under_prefix (cr_module r) c \<or> first_part c = []")
  case False
  then have hon: "honoured_replacement_of w (first_part c) = Some (cr_module r)" using assms [of "first_part c"] by (simp add: registered_by_replacement_def)
  obtain state where "load_state (cw_modules w) = Inr state" "\<not> is_enabled (first_part c) state" "is_enabled (cr_module r) state"
    using honoured_is_off [OF hon] by blast
  then show ?thesis using hon by (simp add: entitled_def)
qed (auto simp: entitled_def)

definition mail_registration :: registration where
  "mail_registration = \<lparr>cr_id = ''mail.send'', cr_module = ''postbox'', cr_version = ''1.2.0'', cr_provider = 7, cr_description = [],
     cr_health = Some (1, Health_Answers (Health_Value (PBool True))),
     cr_operations = [''send''], cr_metadata = []\<rparr>"

definition mail_world :: "bool \<Rightarrow> cap_world" where
  "mail_world mail = \<lparr>cw_plugins = Some (map (\<lambda>p. rp_plugin.extend p (cap_plugin.fields ''1.0.0'')) [demo_plugin ''mail'' ''core'' [], demo_plugin ''postbox'' ''premium'' ''mail'']),
     cw_modules = \<lparr>ms_file = File_Json (PDict (demo_state [(''mail'', mail)])), ms_lock = Lock_Present, ms_disk_ok = True, ms_cache_epoch = 0\<rparr>, cw_tp = demo_tp\<rparr>"

definition mail_registry :: cap_registry where
  "mail_registry = \<lparr>rg_table = [(''mail.send'', mail_registration)], rg_mismatches = [], rg_warned = []\<rparr>"

lemma mail_demo: "case capability_status (mail_world False) mail_registry [] ''mail.send'' (Some ''>=1.0'') None True of Inl _ \<Rightarrow> False | Inr s \<Rightarrow> st_available s"
  by code_simp

text \<open>(C24) A capability is reported available only when it is registered under the cleaned name by the module the status names,
  that module is part of the framework or installed and on, the registered version meets the one asked for, the name is under the
  module's own prefix or belongs to a module that is off and is honourably replaced by it at this moment, the check is no
  re-entry, and the health callback, run one level deeper, said healthy.\<close>

theorem available_capability_is_provided:
  assumes "capability_status w rg stack i version m check_health = Inr s" and "st_available s"
  shows "\<exists>c r. clean_identifier i = Inr c \<and> dget (rg_table rg) c = Some r \<and> st_module s = cr_module r \<and> provider_runs w (cr_module r) \<and>
    entitled w (cr_module r) c \<and> (\<forall>t. given version = Some t \<longrightarrow> version_satisfies (cr_version r) t = Inr True) \<and>
    check_health \<and> c \<notin> set stack \<and> length stack < max_health_depth \<and>
    (\<exists>why details. health_status (capability_status w rg (stack @ [c])) r = Inr (True, why, details))"
proof -
  obtain c r why details where c: "clean_identifier i = Inr c" and h: "check_health" and res: "resolve_status w rg c version m check_health = Inr (base_status w rg c version m check_health, Some r)"
    and nr: "\<not> reentered stack c" and health: "health_status (capability_status w rg (stack @ [c])) r = Inr (True, why, details)" and s: "st_module s = owner_of rg c m"
    using status_available [OF assms] by blast
  note left = resolve_left [OF res]
  have "st_module s = cr_module r" using left s by (simp add: owner_of_def)
  moreover have "provider_runs w (cr_module r)" using left provider_available by simp
  moreover have "entitled w (cr_module r) c" using left by (intro entitledI) simp
  moreover have "c \<notin> set stack" "length stack < max_health_depth" using nr by (auto simp: reentered_def)
  ultimately show ?thesis using c h health left by (intro exI [of _ c] exI [of _ r]) auto
qed

theorem available_capability_is_provided_witness: "entitled (mail_world False) ''postbox'' ''mail.send'' \<and> provider_runs (mail_world False) ''postbox''"
proof -
  obtain s where s: "capability_status (mail_world False) mail_registry [] ''mail.send'' (Some ''>=1.0'') None True = Inr s" "st_available s"
    using mail_demo by (auto split: sum.splits)
  obtain c r where "clean_identifier ''mail.send'' = Inr c" "dget (rg_table mail_registry) c = Some r" "provider_runs (mail_world False) (cr_module r)" "entitled (mail_world False) (cr_module r) c"
    using available_capability_is_provided [OF s] by blast
  moreover have "clean_identifier ''mail.send'' = Inr ''mail.send''" by code_simp
  ultimately show ?thesis by (auto simp: mail_registry_def mail_registration_def)
qed

section \<open>Registering\<close>

lemma clean_identifier_facts:
  assumes "clean_identifier i = Inr c"
  shows "clean_identifier c = Inr c \<and> c \<noteq> [] \<and> list_all identifier_char c"
  using assms by (auto simp: clean_identifier_def Let_def split: if_splits)

lemma valid_version_facts:
  assumes "validate_capability_version v = Inr t"
  shows "validate_capability_version t = Inr t"
  using assms by (auto simp: validate_capability_version_def Let_def split: if_splits sum.splits version_error.splits)

lemma drop_own_table: "dget (rg_table (drop_own_registration c owner rg)) k =
    (if k = c \<and> (\<exists>r. dget (rg_table rg) c = Some r \<and> cr_module r = owner) then None else dget (rg_table rg) k)"
  by (auto simp: drop_own_registration_def delete_conv' split: option.splits)

lemma drop_own_rest [simp]: "rg_mismatches (drop_own_registration c owner rg) = rg_mismatches rg"
  by (auto simp: drop_own_registration_def split: option.splits)

lemma warn_once_rest [simp]: "rg_table (warn_once owner c rg) = rg_table rg" "rg_mismatches (warn_once owner c rg) = rg_mismatches rg"
  by (auto simp: warn_once_def)

lemma build_registration_facts:
  assumes "build_registration c owner version rq = Inr r"
  shows "cr_id r = c \<and> cr_module r = owner \<and> cr_version r = version \<and> distinct (cr_operations r) \<and> [] \<notin> set (cr_operations r)"
  using assms by (auto simp: build_registration_def Let_def clean_operations_def split: option.splits)

lemma drop_own_cong: "rg_table a = rg_table b \<Longrightarrow> rg_table (drop_own_registration c owner a) = rg_table (drop_own_registration c owner b)"
  by (auto simp: drop_own_registration_def split: option.splits)

definition own_name :: "string \<Rightarrow> string \<Rightarrow> bool" where
  "own_name owner c = (owner = ''tec-tac'' \<or> under_prefix owner c)"

text \<open>The ways a registration can go: an error before anything is touched, a refusal that drops the caller's own registration, or
  the end of \<open>register_capability\<close>, reached under the caller's own name or through an honoured replacement.\<close>

lemma accepted_cases:
  assumes "register_accepted w via c owner rq rg = (rg', ans)"
  obtains (gone) e where "ans = Inl e" "rg' = rg"
  | (dropped) v x where "via" "ans = Inr (unregistered c owner v (rq_provider rq) (rq_description rq))"
      "rg_table rg' = rg_table (drop_own_registration c owner rg)" "rg_mismatches rg' = dset (owner, c) x (rg_mismatches rg)"
  | (ended) version rg1 where "validate_capability_version (rq_version rq) = Inr version" "finish_registration c owner version rq rg1 = (rg', ans)"
      "rg1 = (if via then rg\<lparr>rg_mismatches := clear_registered_mismatch owner c (rg_mismatches rg)\<rparr> else rg)"
proof (cases "validate_capability_version (rq_version rq)")
  case (Inl e)
  then show ?thesis using assms by (intro gone [of e]) (simp_all add: register_accepted_def)
next
  case (Inr version)
  note v = this
  show ?thesis
  proof (cases "via \<and> replacement_version_refusal w owner c version \<noteq> None")
    case True
    then obtain d g r where r: "via" "replacement_version_refusal w owner c version = Some (d, g, r)" by (cases "the (replacement_version_refusal w owner c version)") auto
    let ?rg = "rg\<lparr>rg_mismatches := record_registered_mismatch owner c d g r (rg_mismatches rg)\<rparr>"
    have e: "rg' = drop_own_registration c owner (warn_once owner c ?rg)" "ans = Inr (unregistered c owner version (rq_provider rq) (rq_description rq))"
      using assms v r by (simp_all add: register_accepted_def)
    have "rg_table rg' = rg_table (drop_own_registration c owner rg)" unfolding e(1) by (rule drop_own_cong) simp
    moreover have "\<exists>x. rg_mismatches rg' = dset (owner, c) x (rg_mismatches rg)" unfolding e(1) by (auto simp: record_registered_mismatch_def)
    ultimately show ?thesis using dropped [OF r(1) e(2)] by blast
  next
    case False
    then have "finish_registration c owner version rq (if via then rg\<lparr>rg_mismatches := clear_registered_mismatch owner c (rg_mismatches rg)\<rparr> else rg) = (rg', ans)"
      using assms v by (cases "replacement_version_refusal w owner c version") (auto simp: register_accepted_def split: if_splits)
    then show ?thesis by (rule ended [OF v]) simp
  qed
qed

lemma register_cases:
  assumes "register_capability w rq rg = (rg', ans)"
  obtains (failed) e where "ans = Inl e" "rg' = rg"
  | (refused) c owner v where "clean_identifier (rq_id rq) = Inr c" "clean_identifier (rq_module rq) = Inr owner"
      "ans = Inr (unregistered c owner v (rq_provider rq) (rq_description rq))" "rg_table rg' = rg_table (drop_own_registration c owner rg)"
      "rg_mismatches rg' = rg_mismatches rg \<or> \<not> own_name owner c \<and> (\<exists>x. rg_mismatches rg' = dset (owner, c) x (rg_mismatches rg))"
  | (finished) c owner version rg1 where "clean_identifier (rq_id rq) = Inr c" "clean_identifier (rq_module rq) = Inr owner" "CHR ''.'' \<in> set c"
      "validate_capability_version (rq_version rq) = Inr version" "finish_registration c owner version rq rg1 = (rg', ans)"
      "own_name owner c \<and> rg1 = rg \<or> \<not> own_name owner c \<and> replacement_may_register w owner c \<and>
         rg1 = rg\<lparr>rg_mismatches := clear_registered_mismatch owner c (rg_mismatches rg)\<rparr>"
proof (cases "clean_identifier (rq_id rq)")
  case (Inl e)
  then show ?thesis using assms by (intro failed [of e]) (simp_all add: register_capability_def)
next
  case c: (Inr c)
  show ?thesis
  proof (cases "clean_identifier (rq_module rq)")
    case (Inl e)
    then show ?thesis using assms c by (intro failed [of e]) (simp_all add: register_capability_def)
  next
    case o: (Inr owner)
    note def = assms [unfolded register_capability_def c o sum.case Let_def]
    consider (plain) "CHR ''.'' \<notin> set c" | (wrong) "CHR ''.'' \<in> set c" "\<not> own_name owner c" "\<not> replacement_may_register w owner c" "\<not> is_unhonoured_replacement_name w owner c"
      | (unhonoured) "CHR ''.'' \<in> set c" "\<not> own_name owner c" "\<not> replacement_may_register w owner c" "is_unhonoured_replacement_name w owner c"
      | (via) "CHR ''.'' \<in> set c" "\<not> own_name owner c" "replacement_may_register w owner c"
      | (undeclared) "CHR ''.'' \<in> set c" "own_name owner c" "owner \<notin> {''tec-tac'', ''core''} \<and> \<not> core_module_may_register w owner c"
      | (own) "CHR ''.'' \<in> set c" "own_name owner c" "\<not> (owner \<notin> {''tec-tac'', ''core''} \<and> \<not> core_module_may_register w owner c)" by blast
    then show ?thesis
    proof cases
      case plain
      then show ?thesis using def by (intro failed) auto
    next
      case wrong
      then show ?thesis using def by (intro failed) (auto simp: own_name_def)
    next
      case unhonoured
      then show ?thesis using def by (intro refused [OF c o]) (auto simp: own_name_def)
    next
      case via
      then have "register_accepted w True c owner rq rg = (rg', ans)" using def by (simp add: own_name_def)
      then show ?thesis
      proof (cases rule: accepted_cases)
        case (dropped v x)
        then show ?thesis using via by (intro refused [OF c o]) auto
      next
        case (ended version rg1)
        then show ?thesis using via by (intro finished [OF c o via(1)]) auto
      qed (auto intro: failed)
    next
      case undeclared
      have "rg' = drop_own_registration c owner (warn_once owner c rg)" "ans = Inr (unregistered c owner (rq_version rq) (rq_provider rq) (rq_description rq))"
        using def undeclared by (auto simp: own_name_def)
      then show ?thesis by (intro refused [OF c o]) (auto intro: drop_own_cong)
    next
      case own
      then have "register_accepted w False c owner rq rg = (rg', ans)" using def by (auto simp: own_name_def)
      then show ?thesis
      proof (cases rule: accepted_cases)
        case (ended version rg1)
        then show ?thesis using own by (intro finished [OF c o own(1)]) auto
      qed (auto intro: failed)
    qed
  qed
qed

lemma finish_cases:
  assumes "finish_registration c owner version rq rg = (rg', ans)"
  obtains (error) e where "ans = Inl e" "rg' = rg"
  | (kept) r r' where "ans = Inr (Registered r)" "rg' = rg" "dget (rg_table rg) c = Some r" "same_contract r r'" "cr_module r' = owner"
  | (stored) r where "ans = Inr (Registered r)" "dget (rg_table rg) c = None" "rg' = rg\<lparr>rg_table := dset c r (rg_table rg)\<rparr>"
      "build_registration c owner version rq = Inr r"
proof (cases "build_registration c owner version rq")
  case (Inl e)
  then show ?thesis using assms by (intro error [of e]) (simp_all add: finish_registration_def)
next
  case (Inr r)
  note facts = build_registration_facts [OF Inr]
  show ?thesis
  proof (cases "dget (rg_table rg) c")
    case None
    then show ?thesis using assms Inr facts by (intro stored [of r]) (simp_all add: finish_registration_def store_registration_def)
  next
    case (Some previous)
    then have e: "rg' = rg" "ans = (if same_contract previous r then Inr (Registered previous) else Inl (Already_Registered c (cr_module previous)))"
      using assms Inr facts by (auto simp: finish_registration_def store_registration_def)
    show ?thesis
    proof (cases "same_contract previous r")
      case True
      then show ?thesis using e Some facts by (intro kept [of previous r]) simp_all
    next
      case False
      then show ?thesis using e by (intro error [of "Already_Registered c (cr_module previous)"]) simp_all
    qed
  qed
qed

lemma same_contract_refl [simp]: "same_contract r r"
  by (simp add: same_contract_def)

lemma clear_again [simp]: "clear_registered_mismatch m c (clear_registered_mismatch m c ms) = clear_registered_mismatch m c ms"
  by (simp add: clear_registered_mismatch_def delete_idem)

lemma finish_again:
  assumes "finish_registration c owner version rq rg = (rg', Inr (Registered r))"
  shows "finish_registration c owner version rq rg' = (rg', Inr (Registered r))"
  using assms by (auto simp: finish_registration_def store_registration_def AList.update_conv' dest: build_registration_facts split: sum.splits option.splits if_splits)

lemma finish_mismatches: "finish_registration c owner version rq rg = (rg', ans) \<Longrightarrow> rg_mismatches rg' = rg_mismatches rg"
  by (auto simp: finish_registration_def store_registration_def split: sum.splits option.splits if_splits)

lemma accepted_again:
  assumes "register_accepted w via c owner rq rg = (rg', Inr (Registered r))"
  shows "register_accepted w via c owner rq rg' = (rg', Inr (Registered r))"
proof -
  obtain version where v: "validate_capability_version (rq_version rq) = Inr version" using assms by (auto simp: register_accepted_def split: sum.splits)
  show ?thesis
  proof (cases via)
    case False
    then show ?thesis using assms v finish_again by (simp add: register_accepted_def)
  next
    case True
    let ?rg = "rg\<lparr>rg_mismatches := clear_registered_mismatch owner c (rg_mismatches rg)\<rparr>"
    have n: "replacement_version_refusal w owner c version = None" and f: "finish_registration c owner version rq ?rg = (rg', Inr (Registered r))"
      using assms v True by (auto simp: register_accepted_def unregistered_def split: option.splits)
    have "rg'\<lparr>rg_mismatches := clear_registered_mismatch owner c (rg_mismatches rg')\<rparr> = rg'"
      using finish_mismatches [OF f] by simp
    then show ?thesis using True v n finish_again [OF f] by (simp add: register_accepted_def)
  qed
qed

lemma register_again:
  assumes "register_capability w rq rg = (rg', Inr (Registered r))"
  shows "register_capability w rq rg' = (rg', Inr (Registered r))"
proof -
  obtain c owner where c: "clean_identifier (rq_id rq) = Inr c" "clean_identifier (rq_module rq) = Inr owner"
    using assms by (auto simp: register_capability_def split: sum.splits)
  note def = register_capability_def [of w rq, unfolded c sum.case Let_def unregistered_def]
  have dot: "CHR ''.'' \<in> set c" by (rule ccontr) (use assms def [of rg] in simp)
  show ?thesis
  proof (cases "owner \<noteq> ''tec-tac'' \<and> \<not> under_prefix owner c")
    case True
    have may: "replacement_may_register w owner c"
      by (rule ccontr) (cases "is_unhonoured_replacement_name w owner c"; use assms def [of rg] True dot in simp)
    then show ?thesis using assms True dot accepted_again by (simp add: def)
  next
    case False
    have "\<not> (owner \<notin> {''tec-tac'', ''core''} \<and> \<not> core_module_may_register w owner c)" by (rule notI) (use assms def [of rg] False dot in simp)
    then show ?thesis using assms False dot accepted_again unfolding def by (simp only: if_False if_True not_True_eq_False)
  qed
qed

definition mail_request :: cap_request where
  "mail_request = \<lparr>rq_id = '' mail.send'', rq_module = ''postbox'', rq_version = ''1.2.0'', rq_provider = Some 7, rq_description = [], rq_health = No_Health,
     rq_operations = [PStr ''send''], rq_metadata = No_Metadata\<rparr>"

definition empty_registry :: cap_registry where
  "empty_registry = \<lparr>rg_table = [], rg_mismatches = [], rg_warned = []\<rparr>"

lemma mail_registers_eval: "case register_capability (mail_world False) mail_request empty_registry of (rg, Inr (Registered r)) \<Rightarrow> rg_table rg \<noteq> [] | _ \<Rightarrow> False"
  by code_simp

lemma mail_registers:
  obtains rg r where "register_capability (mail_world False) mail_request empty_registry = (rg, Inr (Registered r))" "rg_table rg \<noteq> []"
  using mail_registers_eval by (auto split: prod.splits sum.splits reg_answer.splits)

text \<open>(C26) A registration never takes a name from another module: an entry of the table stays as it is, or is dropped by a
  refused registration of its own module under its own name; a new entry is exactly the one the call returned, under the
  cleaned name and module; and a registration that succeeded is idempotent: repeating it changes nothing and answers the same.\<close>

theorem registration_is_exclusive:
  assumes "register_capability w rq rg = (rg', ans)"
  shows "(\<forall>k r. dget (rg_table rg) k = Some r \<longrightarrow> dget (rg_table rg') k = Some r \<or> dget (rg_table rg') k = None \<and> clean_identifier (rq_id rq) = Inr k \<and>
        clean_identifier (rq_module rq) = Inr (cr_module r) \<and> (\<exists>v. ans = Inr (unregistered k (cr_module r) v (rq_provider rq) (rq_description rq)))) \<and>
    (\<forall>k r. dget (rg_table rg) k = None \<and> dget (rg_table rg') k = Some r \<longrightarrow>
        ans = Inr (Registered r) \<and> cr_id r = k \<and> clean_identifier (rq_id rq) = Inr k \<and> clean_identifier (rq_module rq) = Inr (cr_module r)) \<and>
    (\<forall>r. ans = Inr (Registered r) \<longrightarrow> register_capability w rq rg' = (rg', ans) \<and>
        (\<exists>c. clean_identifier (rq_id rq) = Inr c \<and> clean_identifier (rq_module rq) = Inr (cr_module r) \<and> dget (rg_table rg') c = Some r))"
  (is "?keep \<and> ?new \<and> ?again")
proof (intro conjI)
  have again: "register_capability w rq rg' = (rg', ans)" if "ans = Inr (Registered r)" for r using register_again assms that by simp
  from assms show ?keep
  proof (cases rule: register_cases)
    case (finished c owner version rg1)
    then have "rg_table rg1 = rg_table rg" by auto
    with finished(5) show ?thesis by (cases rule: finish_cases) (auto simp: AList.update_conv')
  qed (auto simp: drop_own_table)
  from assms show ?new
  proof (cases rule: register_cases)
    case (finished c owner version rg1)
    then have "rg_table rg1 = rg_table rg" by auto
    with finished(5,1,2) show ?thesis by (cases rule: finish_cases) (auto simp: AList.update_conv' dest: build_registration_facts split: if_splits)
  qed (auto simp: drop_own_table split: if_splits)
  from assms show ?again
  proof (cases rule: register_cases)
    case (finished c owner version rg1)
    from finished(5) show ?thesis by (cases rule: finish_cases) (use finished(1,2) again in \<open>auto simp: same_contract_def AList.update_conv' dest: build_registration_facts\<close>)
  qed (auto simp: unregistered_def)
qed

theorem registration_is_exclusive_witness:
  "\<exists>rg r. register_capability (mail_world False) mail_request empty_registry = (rg, Inr (Registered r)) \<and> register_capability (mail_world False) mail_request rg = (rg, Inr (Registered r))"
proof -
  obtain rg r where r: "register_capability (mail_world False) mail_request empty_registry = (rg, Inr (Registered r))" and t: "rg_table rg \<noteq> []"
    using mail_registers by blast
  then show ?thesis using registration_is_exclusive [OF r] by blast
qed

section \<open>Every history of registrations\<close>

inductive registry_reach :: "cap_world set \<Rightarrow> cap_registry \<Rightarrow> bool" for W where
  start: "registry_reach W empty_registry"
| register: "registry_reach W rg \<Longrightarrow> w \<in> W \<Longrightarrow> register_capability w rq rg = (rg', ans) \<Longrightarrow> registry_reach W rg'"

definition registration_ok :: "cap_world set \<Rightarrow> string \<Rightarrow> registration \<Rightarrow> bool" where
  "registration_ok W k r = (cr_id r = k \<and> clean_identifier k = Inr k \<and> CHR ''.'' \<in> set k \<and> clean_identifier (cr_module r) = Inr (cr_module r) \<and>
     validate_capability_version (cr_version r) = Inr (cr_version r) \<and> distinct (cr_operations r) \<and> [] \<notin> set (cr_operations r) \<and>
     (own_name (cr_module r) k \<or> (\<exists>w \<in> W. replacement_may_register w (cr_module r) k)))"

definition cap_registry_ok :: "cap_world set \<Rightarrow> cap_registry \<Rightarrow> bool" where
  "cap_registry_ok W rg = (distinct (map fst (rg_table rg)) \<and> (\<forall>k r. dget (rg_table rg) k = Some r \<longrightarrow> registration_ok W k r) \<and>
     (\<forall>owner c. dget (rg_mismatches rg) (owner, c) \<noteq> None \<longrightarrow> \<not> own_name owner c \<and> (\<forall>r. dget (rg_table rg) c = Some r \<longrightarrow> cr_module r \<noteq> owner)))"

lemma drop_own_distinct: "distinct (map fst (rg_table rg)) \<Longrightarrow> distinct (map fst (rg_table (drop_own_registration c owner rg)))"
  by (auto simp: drop_own_registration_def distinct_delete split: option.splits)

lemma register_distinct:
  assumes "register_capability w rq rg = (rg', ans)" and "distinct (map fst (rg_table rg))"
  shows "distinct (map fst (rg_table rg'))"
  using assms(1)
proof (cases rule: register_cases)
  case (finished c owner version rg1)
  then have "rg_table rg1 = rg_table rg" by auto
  with finished(5) assms(2) show ?thesis by (cases rule: finish_cases) (auto simp: distinct_update)
qed (use assms(2) drop_own_distinct in auto)

lemma register_entries:
  assumes "register_capability w rq rg = (rg', ans)" and "w \<in> W" and "\<And>k r. dget (rg_table rg) k = Some r \<Longrightarrow> registration_ok W k r"
    and "dget (rg_table rg') k = Some r"
  shows "registration_ok W k r"
  using assms(1)
proof (cases rule: register_cases)
  case (refused c owner v)
  then show ?thesis using assms(3,4) by (auto simp: drop_own_table split: if_splits)
next
  case (finished c owner version rg1)
  have "rg_table rg1 = rg_table rg" using finished(6) by auto
  with finished(5) show ?thesis
  proof (cases rule: finish_cases)
    case (stored r')
    note f = build_registration_facts [OF stored(4)]
    have "registration_ok W c r'" using f finished(3,6) clean_identifier_facts [OF finished(1)] clean_identifier_facts [OF finished(2)] valid_version_facts [OF finished(4)] assms(2)
      by (auto simp: registration_ok_def)
    then show ?thesis using assms(3,4) stored \<open>rg_table rg1 = rg_table rg\<close> by (auto simp: AList.update_conv' split: if_splits)
  qed (use assms(3,4) in auto)
qed (use assms(3,4) in auto)

lemma register_mismatches:
  assumes "register_capability w rq rg = (rg', ans)"
    and "\<And>o' c'. dget (rg_mismatches rg) (o', c') \<noteq> None \<Longrightarrow> \<not> own_name o' c' \<and> (\<forall>r. dget (rg_table rg) c' = Some r \<longrightarrow> cr_module r \<noteq> o')"
    and "dget (rg_mismatches rg') (o', c') \<noteq> None"
  shows "\<not> own_name o' c' \<and> (\<forall>r. dget (rg_table rg') c' = Some r \<longrightarrow> cr_module r \<noteq> o')"
  using assms(1)
proof (cases rule: register_cases)
  case (refused c owner v)
  show ?thesis
  proof (cases "(o', c') = (owner, c) \<and> \<not> own_name owner c")
    case True
    then show ?thesis using refused(4) by (auto simp: drop_own_table)
  next
    case False
    then have "dget (rg_mismatches rg) (o', c') \<noteq> None" using refused(5) assms(3) by (auto simp: AList.update_conv' split: if_splits)
    then show ?thesis using assms(2) refused(4) by (auto simp: drop_own_table split: if_splits)
  qed
next
  case (finished c owner version rg1)
  have t: "rg_table rg1 = rg_table rg" using finished(6) by auto
  have m: "rg_mismatches rg' = rg_mismatches rg1" by (rule finish_mismatches [OF finished(5)])
  have old: "dget (rg_mismatches rg) (o', c') \<noteq> None" and other: "(o', c') \<noteq> (owner, c)"
    using finished(6) assms(3) m assms(2) [of owner c] by (auto simp: clear_registered_mismatch_def delete_conv' split: if_splits)
  from finished(5) show ?thesis
    by (cases rule: finish_cases) (use assms(2) [OF old] other t in \<open>auto simp: AList.update_conv' dest: build_registration_facts split: if_splits\<close>)
qed (use assms(2,3) in auto)

text \<open>(C25) In every history of registrations, whatever modules are installed, on or replaced at each of them: every entry stands
  under its own, allowed and namespaced name, belongs to a module of an allowed name, has a readable version and distinct,
  non-empty operations, and its module owns the name's prefix or was the honoured replacement when it registered; and a module with
  a recorded version mismatch for a name does not provide that name.\<close>

theorem capability_registry_invariant:
  assumes "registry_reach W rg"
  shows "cap_registry_ok W rg"
  using assms
proof induction
  case start
  show ?case by (simp add: cap_registry_ok_def empty_registry_def)
next
  case (register rg w rq rg' ans)
  note ok = register.IH [unfolded cap_registry_ok_def]
  show ?case unfolding cap_registry_ok_def
  proof (intro conjI allI impI)
    show "distinct (map fst (rg_table rg'))" using register_distinct [OF register.hyps(3)] ok by simp
    show "registration_ok W k r" if "dget (rg_table rg') k = Some r" for k r
      by (rule register_entries [OF register.hyps(3,2) _ that]) (use ok in simp)
    fix owner c assume n: "dget (rg_mismatches rg') (owner, c) \<noteq> None"
    have "\<not> own_name owner c \<and> (\<forall>r. dget (rg_table rg') c = Some r \<longrightarrow> cr_module r \<noteq> owner)"
      by (rule register_mismatches [OF register.hyps(3) _ n]) (use ok in simp)
    then show "\<not> own_name owner c" "dget (rg_table rg') c = Some r \<Longrightarrow> cr_module r \<noteq> owner" for r by auto
  qed
qed

theorem capability_registry_invariant_witness: "\<exists>rg. cap_registry_ok (range mail_world) rg \<and> rg_table rg \<noteq> []"
proof -
  obtain rg r where r: "register_capability (mail_world False) mail_request empty_registry = (rg, Inr (Registered r))" and t: "rg_table rg \<noteq> []"
    using mail_registers by blast
  have "cap_registry_ok (range mail_world) rg"
    by (rule capability_registry_invariant, rule registry_reach.register [OF registry_reach.start _ r]) simp
  then show ?thesis using t by auto
qed

section \<open>Health callbacks\<close>

definition contract :: "registration \<Rightarrow> registration" where
  "contract r = r\<lparr>cr_health := None\<rparr>"

definition same_contracts :: "cap_registry \<Rightarrow> cap_registry \<Rightarrow> bool" where
  "same_contracts rg rg' = (map (map_prod id contract) (rg_table rg) = map (map_prod id contract) (rg_table rg'))"

lemma dget_contract: "dget (map (map_prod id contract) t) k = map_option contract (dget t k)"
  by (induction t) auto

lemma same_contracts_get: "same_contracts rg rg' \<Longrightarrow> map_option contract (dget (rg_table rg) k) = map_option contract (dget (rg_table rg') k)"
  unfolding same_contracts_def dget_contract [symmetric] by simp

lemma contract_fields [simp]:
  "cr_id (contract r) = cr_id r" "cr_module (contract r) = cr_module r" "cr_version (contract r) = cr_version r" "cr_provider (contract r) = cr_provider r"
  "cr_description (contract r) = cr_description r" "cr_operations (contract r) = cr_operations r" "cr_metadata (contract r) = cr_metadata r"
  by (simp_all add: contract_def)

lemma contract_eqD:
  assumes "contract r = contract r'"
  shows "cr_module r = cr_module r'" "cr_version r = cr_version r'" "cr_description r = cr_description r'" "cr_operations r = cr_operations r'"
    "cr_metadata r = cr_metadata r'"
  by (metis assms contract_fields)+

lemma checked_version_contract:
  assumes "contract r = contract r'"
  shows "map_sum id (map_prod id (map_option contract)) (checked_version r version base) = map_sum id (map_prod id (map_option contract)) (checked_version r' version base)"
  using assms contract_eqD(2) [OF assms] by (simp add: checked_version_def split: option.split sum.split version_error.split)

lemma resolve_contract:
  assumes "same_contracts rg rg'"
  shows "map_sum id (map_prod id (map_option contract)) (resolve_status w rg c version m h) = map_sum id (map_prod id (map_option contract)) (resolve_status w rg' c version m h)"
proof (cases "dget (rg_table rg) c")
  case None
  then have n: "dget (rg_table rg') c = None" using same_contracts_get [OF assms, of c] by simp
  have "base_status w rg c version m h = base_status w rg' c version m h" using None n by (simp add: base_status_def owner_of_def Let_def)
  then show ?thesis using None n by (simp add: resolve_status_def Let_def has_key_iff)
next
  case (Some r)
  then obtain r' where r': "dget (rg_table rg') c = Some r'" "contract r = contract r'" using same_contracts_get [OF assms, of c] by (cases "dget (rg_table rg') c") auto
  note eqs = contract_eqD [OF r'(2)]
  have reg: "registered_by_replacement (Some r) c = registered_by_replacement (Some r') c" using eqs by (simp add: registered_by_replacement_def)
  have "base_status w rg c version m h = base_status w rg' c version m h"
    using Some r' eqs reg by (simp add: base_status_def owner_of_def Let_def)
  then show ?thesis using Some r' eqs reg checked_version_contract [OF r'(2)]
    by (simp add: resolve_status_def Let_def has_key_iff split: option.split)
qed

lemma status_without_health:
  assumes "clean_identifier i = Inr c" and "\<not> h \<or> reentered stack c"
  shows "capability_status w rg stack i version m h = rbind (map_sum id (map_prod id (map_option contract)) (resolve_status w rg c version m h)) (\<lambda>(base, todo).
     if todo = None then Inr base
     else if \<not> h then Inr (with_state (base\<lparr>st_health := [(''checked'', PBool False)]\<rparr>) ''health-unchecked'' Health_Unchecked)
     else Inr (with_state base ''health-reentrant'' (Reentered (stack @ [c]))))"
  using assms by (subst capability_status.simps) (auto split: prod.split option.split simp: map_sum_def split: sum.split)

text \<open>Discovery runs no code of a module: with the health check off, or when the capability is already being checked on this
  thread or eight checks are under way, the status is the same whatever the registered callbacks are, and is never available. So a
  callback that asks about itself or about a cycle is answered without another callback being run.\<close>

theorem discovery_runs_no_callback:
  assumes "same_contracts rg rg'" and "clean_identifier i = Inr c" and "check_health \<longrightarrow> c \<in> set stack \<or> max_health_depth \<le> length stack"
  shows "capability_status w rg stack i version m check_health = capability_status w rg' stack i version m check_health \<and>
    (case capability_status w rg stack i version m check_health of Inl _ \<Rightarrow> True | Inr s \<Rightarrow> \<not> st_available s)"
proof -
  have r: "\<not> check_health \<or> reentered stack c" using assms(3) by (auto simp: reentered_def)
  have "capability_status w rg stack i version m check_health = capability_status w rg' stack i version m check_health"
    unfolding status_without_health [OF assms(2) r] resolve_contract [OF assms(1)] ..
  moreover have "\<not> st_available s" if "capability_status w rg stack i version m check_health = Inr s" for s
    using status_available [OF that] r assms(2) by auto
  ultimately show ?thesis by (auto split: sum.split)
qed

theorem discovery_runs_no_callback_witness:
  "capability_status (mail_world False) mail_registry [''mail.send''] ''mail.send'' None None True =
   capability_status (mail_world False) (mail_registry\<lparr>rg_table := [(''mail.send'', contract mail_registration)]\<rparr>) [''mail.send''] ''mail.send'' None None True"
proof -
  have "same_contracts mail_registry (mail_registry\<lparr>rg_table := [(''mail.send'', contract mail_registration)]\<rparr>)"
    by (simp add: same_contracts_def mail_registry_def contract_def)
  moreover have "clean_identifier ''mail.send'' = Inr ''mail.send''" by code_simp
  ultimately show ?thesis using discovery_runs_no_callback [of mail_registry _ "''mail.send''" "''mail.send''" True "[''mail.send'']"] by simp
qed

section \<open>Looking up\<close>

text \<open>For a name without surrounding white space a lookup agrees with the status: it returns the provider of the registration
  exactly when the capability is available, and otherwise the exception of the status, or nothing when it is not required.\<close>

theorem lookup_agrees_with_status:
  assumes "clean_identifier i = Inr i" and "capability_status w rg stack i version m True = Inr s"
  shows "(if st_available s then \<exists>r. dget (rg_table rg) i = Some r \<and> get_capability w rg stack i version required m = Inr (Some (cr_provider r))
      else get_capability w rg stack i version required m = (if required then Inl (exception_for_status s) else Inr None)) \<and>
    has_capability w rg stack i version m = Inr (st_available s)"
proof (cases "st_available s")
  case True
  obtain r where "dget (rg_table rg) i = Some r"
    using status_available [OF assms(2) True] resolve_left assms(1) by (metis Inr_inject)
  then show ?thesis using True assms(2) by (simp add: get_capability_def has_capability_def)
qed (simp add: get_capability_def has_capability_def assms(2))

theorem lookup_agrees_with_status_witness: "get_capability (mail_world False) mail_registry [] ''mail.send'' (Some ''>=1.0'') True None = Inr (Some 7)"
proof -
  obtain s where s: "capability_status (mail_world False) mail_registry [] ''mail.send'' (Some ''>=1.0'') None True = Inr s" "st_available s"
    using mail_demo by (auto split: sum.splits)
  have "clean_identifier ''mail.send'' = Inr ''mail.send''" by code_simp
  from lookup_agrees_with_status [OF this s(1), of True] s(2) show ?thesis by (auto simp: mail_registry_def mail_registration_def)
qed

lemma status_cleaned:
  assumes "clean_identifier i = clean_identifier j"
  shows "capability_status w rg stack i version m h = capability_status w rg stack j version m h"
  unfolding capability_status.simps [of w rg stack i] capability_status.simps [of w rg stack j] assms ..

text \<open>\<open>get_capability\<close> looks up the name as it was given, not as \<open>capability_status\<close> cleaned it: for a name with a space
  around it \<open>has_capability\<close> says yes and the lookup raises that the registration disappeared.\<close>

theorem padded_name_is_lost:
  "has_capability (mail_world False) mail_registry [] ''mail.send '' (Some ''>=1.0'') None = Inr True \<and>
   (\<exists>s. get_capability (mail_world False) mail_registry [] ''mail.send '' (Some ''>=1.0'') True None = Inl (Registration_Disappeared ''mail.send '' s))"
proof -
  have "clean_identifier ''mail.send '' = clean_identifier ''mail.send''" by code_simp
  note same = status_cleaned [OF this, of "mail_world False" mail_registry "[]" "Some ''>=1.0''" None True]
  obtain s where "capability_status (mail_world False) mail_registry [] ''mail.send '' (Some ''>=1.0'') None True = Inr s" "st_available s"
    using mail_demo unfolding same [symmetric] by (auto split: sum.splits)
  moreover have "dget (rg_table mail_registry) ''mail.send '' = None" by (simp add: mail_registry_def)
  ultimately show ?thesis by (simp add: has_capability_def get_capability_def)
qed

end
