(* ===== verification/Event_Jobs_Policy.thy ===== *)
theory Event_Jobs_Policy
  imports Py_Value Complex_Main
begin

text \<open>
  The decisions behind event jobs (\<open>event_jobs_policy.py\<close>): the key, payload and registration checks, the
  retry delay, the expiry and recovery tests, and the four in-memory helpers of the publish path (rate
  window, recent keys, circuit breaker, timed values). A moment of the database (\<open>datetime\<close>) is an
  integer number of microseconds; the monotonic clock and the random source are rationals, so float
  rounding in \<open>backoff_delay\<close> is not modelled.
\<close>

section \<open>Constants\<close>

definition payload_max_bytes :: nat where "payload_max_bytes = 2048"
definition payload_max_depth :: nat where "payload_max_depth = 4"
definition result_max_bytes :: nat where "result_max_bytes = 2048"
definition error_max_chars :: nat where "error_max_chars = 200"
definition label_max_chars :: nat where "label_max_chars = 120"

datatype limit_name = Soft_Time_Limit | Max_Attempts | Backoff | Max_Backoff | Expires | Max_Backlog | Dedupe

text \<open>\<open>LIMITS\<close>: minimum, default and maximum of every registration limit.\<close>

fun limits :: "limit_name \<Rightarrow> int \<times> int \<times> int" where
  "limits Soft_Time_Limit = (5, 30, 600)"
| "limits Max_Attempts = (1, 3, 10)"
| "limits Backoff = (5, 60, 3600)"
| "limits Max_Backoff = (5, 3600, 3600)"
| "limits Expires = (60, 1800, 86400)"
| "limits Max_Backlog = (1, 500, 5000)"
| "limits Dedupe = (0, 0, 3600)"

definition limit_default :: "limit_name \<Rightarrow> int" where
  "limit_default n = fst (snd (limits n))"

definition hard_limit_extra_seconds :: int where "hard_limit_extra_seconds = 15"
definition stale_running_grace_seconds :: int where "stale_running_grace_seconds = 300"
definition overdue_seconds :: int where "overdue_seconds = 60"
definition rate_per_minute :: nat where "rate_per_minute = 600"

type_synonym moment = int

definition secs :: "int \<Rightarrow> moment" where
  "secs n = n * 1000000"

datatype job_status = Pending | Running | Succeeded | Failed | Skipped | Expired

definition active_status :: "job_status \<Rightarrow> bool" where
  "active_status s = (s = Pending \<or> s = Running)"

definition finished_status :: "job_status \<Rightarrow> bool" where
  "finished_status s = (s = Succeeded \<or> s = Failed \<or> s = Skipped \<or> s = Expired)"

datatype policy_error =
    Bad_Key | Payload_Not_Object | Payload_Not_Plain | Payload_Not_Json | Payload_Too_Large
  | Bad_Module_Id | Bad_Job_Id | Foreign_Job_Id | Bad_Label | Bad_Audit_Flag
  | Not_Whole_Number limit_name | Out_Of_Range limit_name | Cap_Below_Backoff

section \<open>Key and payload\<close>

definition key_char :: "char \<Rightarrow> bool" where
  "key_char c = (is_alnum_ascii c \<or> c \<in> set ''._:@/-'')"

text \<open>\<open>KEY_RE.match\<close>: the closing dollar sign also accepts one trailing newline.\<close>

definition key_body :: "string \<Rightarrow> bool" where
  "key_body s = (1 \<le> length s \<and> length s \<le> 128 \<and> list_all key_char s)"

definition key_re :: "string \<Rightarrow> bool" where
  "key_re s = (key_body s \<or> (s \<noteq> [] \<and> code (last s) = 10 \<and> key_body (butlast s)))"

fun clean_key :: "pyval \<Rightarrow> policy_error + string" where
  "clean_key (PStr s) = (if key_re s then Inr s else Inl Bad_Key)"
| "clean_key _ = Inl Bad_Key"

fun json_safe :: "nat \<Rightarrow> pyval \<Rightarrow> bool" where
  "json_safe depth (PFloat (Float_Fin _ _)) = True"
| "json_safe depth (PFloat _) = False"
| "json_safe depth (PList xs) = (depth < payload_max_depth \<and> list_all (json_safe (Suc depth)) xs)"
| "json_safe depth (PDict d) =
     (depth < payload_max_depth \<and> list_all (\<lambda>kv. json_safe (Suc depth) (snd kv)) d)"
| "json_safe depth _ = True"

text \<open>\<open>json.dumps\<close> with its default ASCII output: every character outside the printable ASCII range is an escape.\<close>

definition json_ascii_char :: "char \<Rightarrow> string" where
  "json_ascii_char c = (let n = code c in
     if n < 127 then json_char c
     else [char_of (92::nat), CHR ''u'', CHR ''0'', CHR ''0'', hex_digit (n div 16), hex_digit (n mod 16)])"

definition json_ascii_str :: "string \<Rightarrow> string" where
  "json_ascii_str s = [char_of (34::nat)] @ concat (map json_ascii_char s) @ [char_of (34::nat)]"

fun json_dumps_ascii :: "pyval \<Rightarrow> string" where
  "json_dumps_ascii (PStr s) = json_ascii_str s"
| "json_dumps_ascii (PList xs) = ''['' @ join '','' (map json_dumps_ascii xs) @ '']''"
| "json_dumps_ascii (PDict d) =
     ''{'' @ join '','' (map (\<lambda>kv. json_ascii_str (fst kv) @ '':'' @ json_dumps_ascii (snd kv)) d) @ ''}''"
| "json_dumps_ascii v = json_dumps v"

text \<open>The result is the payload itself: \<open>json.loads(json.dumps(payload))\<close> copies a JSON-safe value.\<close>

fun clean_payload :: "pyval \<Rightarrow> policy_error + pydict" where
  "clean_payload PNone = Inr []"
| "clean_payload (PDict d) =
     rcheck (\<not> json_safe 0 (PDict d)) Payload_Not_Plain
      (rcheck (\<not> ints_printable (PDict d)) Payload_Not_Json
        (rcheck (payload_max_bytes < utf8_length (json_dumps_ascii (PDict d))) Payload_Too_Large
          (Inr d)))"
| "clean_payload _ = Inl Payload_Not_Object"

section \<open>Handler errors and results\<close>

definition is_control :: "char \<Rightarrow> bool" where
  "is_control c = (code c < 32 \<or> code c = 127)"

text \<open>\<open>_CONTROL_RE.sub(" ", text)\<close>: every run of control characters becomes one space.\<close>

fun squash_controls :: "bool \<Rightarrow> string \<Rightarrow> string" where
  "squash_controls inrun [] = []"
| "squash_controls inrun (c # cs) =
     (if is_control c then (if inrun then squash_controls True cs else CHR '' '' # squash_controls True cs)
      else c # squash_controls False cs)"

text \<open>An exception: its class name, the names of the classes it derives from (itself included), whether
  it is a \<open>ValueError\<close> or \<open>TypeError\<close>, and its text.\<close>

record handler_exn =
  x_name :: string
  x_mro :: "string list"
  x_value_or_type :: bool
  x_text :: string

definition short_error :: "handler_exn \<Rightarrow> string" where
  "short_error x =
     (let t = strip (squash_controls False (x_text x));
          line = (if t \<noteq> [] then x_name x @ '': '' @ t else x_name x)
      in take error_max_chars line)"

definition cap_result :: "pyval \<Rightarrow> py_exn + pydict" where
  "cap_result v =
     (if v = PNone then Inr []
      else if is_dict v \<and> json_safe 0 v then
        (if \<not> ints_printable v then Inl ValueError
         else if utf8_length (json_dumps_ascii v) \<le> result_max_bytes then as_dict TypeError v
         else Inr [(''truncated'', PBool True)])
      else if \<not> ints_printable v then Inl ValueError
      else Inr [(''value'', PStr (take error_max_chars (squash_controls False (py_str v))))])"

section \<open>Registration\<close>

record event_job_spec =
  sp_id :: string
  sp_module_id :: string
  sp_label :: string
  sp_soft :: int
  sp_hard :: int
  sp_max_attempts :: int
  sp_backoff :: int
  sp_max_backoff :: int
  sp_expires :: int
  sp_max_backlog :: int
  sp_dedupe :: int
  sp_audit_success :: bool

definition bounded_int :: "limit_name \<Rightarrow> pyval \<Rightarrow> policy_error + int" where
  "bounded_int n v =
     (case v of
        PInt i \<Rightarrow> (let low = fst (limits n); high = snd (snd (limits n)) in
          if i < low \<or> i > high then Inl (Out_Of_Range n) else Inr i)
      | _ \<Rightarrow> Inl (Not_Whole_Number n))"

definition pick :: "limit_name \<Rightarrow> pyval \<Rightarrow> policy_error + int" where
  "pick n v = (if v = PNone then Inr (limit_default n) else bounded_int n v)"

definition id_char :: "char \<Rightarrow> bool" where
  "id_char c = (is_alnum_ascii c \<or> c = CHR ''_'' \<or> c = CHR ''-'')"

definition module_id_re :: "string \<Rightarrow> bool" where
  "module_id_re s = (s \<noteq> [] \<and> length s \<le> 64 \<and> is_alnum_ascii (hd s) \<and> list_all id_char (tl s))"

definition job_part_re :: "string \<Rightarrow> bool" where
  "job_part_re s = (s \<noteq> [] \<and> length s \<le> 80 \<and> (is_lower_ascii (hd s) \<or> is_digit (hd s)) \<and>
     list_all (\<lambda>c. is_lower_ascii c \<or> is_digit c \<or> c \<in> set ''._-'') (tl s))"

text \<open>\<open>JOB_ID_RE.fullmatch\<close>: the module part holds no dot, so it ends at the first one. The result is
  the first group.\<close>

definition job_id_re :: "string \<Rightarrow> string option" where
  "job_id_re s = (case partition_on (CHR ''.'') s of
      None \<Rightarrow> None
    | Some (m, j) \<Rightarrow> if module_id_re m \<and> job_part_re j then Some m else None)"

record spec_args =
  a_id :: pyval
  a_module_id :: pyval
  a_label :: pyval
  a_soft :: pyval
  a_max_attempts :: pyval
  a_backoff :: pyval
  a_max_backoff :: pyval
  a_expires :: pyval
  a_max_backlog :: pyval
  a_dedupe :: pyval
  a_audit_success :: pyval

fun as_module_id :: "pyval \<Rightarrow> policy_error + string" where
  "as_module_id (PStr m) = (if module_id_re m then Inr m else Inl Bad_Module_Id)"
| "as_module_id _ = Inl Bad_Module_Id"

fun as_job_id :: "string \<Rightarrow> pyval \<Rightarrow> policy_error + string" where
  "as_job_id m (PStr s) = (case job_id_re s of None \<Rightarrow> Inl Bad_Job_Id
     | Some g \<Rightarrow> if g \<noteq> m then Inl Foreign_Job_Id else Inr s)"
| "as_job_id m _ = Inl Bad_Job_Id"

fun as_label :: "pyval \<Rightarrow> policy_error + string" where
  "as_label (PStr s) =
     (if strip s = [] \<or> label_max_chars < length (strip s) \<or> list_ex is_control s then Inl Bad_Label
      else Inr (strip s))"
| "as_label _ = Inl Bad_Label"

fun as_flag :: "pyval \<Rightarrow> policy_error + bool" where
  "as_flag (PBool b) = Inr b"
| "as_flag _ = Inl Bad_Audit_Flag"

definition clean_spec :: "spec_args \<Rightarrow> policy_error + event_job_spec" where
  "clean_spec a =
     rbind (as_module_id (a_module_id a)) (\<lambda>m.
     rbind (as_job_id m (a_id a)) (\<lambda>i.
     rbind (as_label (a_label a)) (\<lambda>l.
     rbind (as_flag (a_audit_success a)) (\<lambda>f.
     rbind (pick Soft_Time_Limit (a_soft a)) (\<lambda>soft.
     rbind (pick Backoff (a_backoff a)) (\<lambda>backoff.
     rbind (pick Max_Backoff (a_max_backoff a)) (\<lambda>cap.
     rcheck (cap < backoff) Cap_Below_Backoff (
     rbind (pick Max_Attempts (a_max_attempts a)) (\<lambda>att.
     rbind (pick Expires (a_expires a)) (\<lambda>expires.
     rbind (pick Max_Backlog (a_max_backlog a)) (\<lambda>backlog.
     rbind (pick Dedupe (a_dedupe a)) (\<lambda>dedupe.
       Inr \<lparr>sp_id = i, sp_module_id = m, sp_label = l, sp_soft = soft,
            sp_hard = soft + hard_limit_extra_seconds, sp_max_attempts = att, sp_backoff = backoff,
            sp_max_backoff = cap, sp_expires = expires, sp_max_backlog = backlog, sp_dedupe = dedupe,
            sp_audit_success = f\<rparr>))))))))))))"

section \<open>Retry, expiry, recovery\<close>

definition backoff_delay :: "int \<Rightarrow> int \<Rightarrow> int \<Rightarrow> rat \<Rightarrow> rat" where
  "backoff_delay attempt base cap r =
     (let k = max 1 attempt;
          delay = min (rat_of_int cap) (rat_of_int base * 2 ^ nat (min (k - 1) 30))
      in delay + delay * (1 / 5) * min (max r 0) 1)"

definition failure_is_permanent :: "handler_exn \<Rightarrow> bool" where
  "failure_is_permanent x = (x_value_or_type x \<or> ''SchedulerPermanentError'' \<in> set (x_mro x))"

datatype decision = Retry | Give_Up

definition after_failure :: "handler_exn \<Rightarrow> int \<Rightarrow> int \<Rightarrow> decision" where
  "after_failure x attempt max_att =
     (if failure_is_permanent x \<or> attempt \<ge> max_att then Give_Up else Retry)"

definition is_expired :: "moment \<Rightarrow> moment option \<Rightarrow> bool" where
  "is_expired now e = (case e of None \<Rightarrow> False | Some t \<Rightarrow> now \<ge> t)"

definition is_stale_running :: "moment \<Rightarrow> moment option \<Rightarrow> int \<Rightarrow> bool" where
  "is_stale_running now started hard =
     (case started of None \<Rightarrow> True
      | Some s \<Rightarrow> now - s > secs (hard + stale_running_grace_seconds))"

definition is_overdue_pending :: "moment \<Rightarrow> moment option \<Rightarrow> moment option \<Rightarrow> bool" where
  "is_overdue_pending now last_enq next_att =
     (case last_enq of None \<Rightarrow> True
      | Some l \<Rightarrow> (let due = (case next_att of None \<Rightarrow> l | Some t \<Rightarrow> t)
                   in now - due > secs overdue_seconds \<and> now - l > secs overdue_seconds))"

definition backlog_full :: "int option \<Rightarrow> int \<Rightarrow> bool" where
  "backlog_full pending max_bl = (case pending of None \<Rightarrow> False | Some p \<Rightarrow> p \<ge> max_bl)"

definition over_backlog :: "int \<Rightarrow> int \<Rightarrow> int" where
  "over_backlog pending max_bl = max 0 (pending - max_bl)"

section \<open>Memory of the publish path\<close>

text \<open>\<open>RateWindow\<close>: per name the minute and the number accepted in it.\<close>

type_synonym 'n rate_window = "('n, int \<times> nat) dict"

definition rate_allow :: "nat \<Rightarrow> rat \<Rightarrow> 'n \<Rightarrow> 'n rate_window \<Rightarrow> bool \<times> 'n rate_window" where
  "rate_allow limit clock n w =
     (let minute = \<lfloor>clock / 60\<rfloor>;
          cur = (case dget w n of
                   None \<Rightarrow> (minute, 0)
                 | Some (m, k) \<Rightarrow> if m \<noteq> minute then (minute, 0) else (m, k))
      in if snd cur \<ge> limit then (False, dset n cur w)
         else (True, dset n (fst cur, Suc (snd cur)) w))"

type_synonym 'n recent_keys = "('n, rat) dict"

definition recent_seen :: "rat \<Rightarrow> nat \<Rightarrow> rat \<Rightarrow> 'n \<Rightarrow> 'n recent_keys \<Rightarrow> bool \<times> 'n recent_keys" where
  "recent_seen seconds maximum now n seen =
     (if (case dget seen n of None \<Rightarrow> False | Some st \<Rightarrow> now - st < seconds) then (True, seen)
      else
        (let pruned = (if length seen \<ge> maximum then filter (\<lambda>kv. \<not> (now - snd kv \<ge> seconds)) seen else seen);
             kept = (if length seen \<ge> maximum \<and> length pruned \<ge> maximum then [] else pruned)
         in (False, dset n now kept)))"

type_synonym breaker = "rat option"

definition breaker_open_seconds :: rat where "breaker_open_seconds = 30"

definition breaker_allow :: "rat \<Rightarrow> breaker \<Rightarrow> bool \<times> breaker" where
  "breaker_allow clock b =
     (case b of None \<Rightarrow> (True, None)
      | Some t \<Rightarrow> if clock - t \<ge> breaker_open_seconds then (True, None) else (False, b))"

definition breaker_failure :: "rat \<Rightarrow> breaker \<Rightarrow> breaker" where
  "breaker_failure clock b = Some clock"

definition breaker_success :: "breaker \<Rightarrow> breaker" where
  "breaker_success b = None"

type_synonym ('n, 'v) timed = "('n, rat \<times> 'v) dict"

definition timed_set :: "rat \<Rightarrow> 'n \<Rightarrow> 'v \<Rightarrow> ('n, 'v) timed \<Rightarrow> ('n, 'v) timed" where
  "timed_set clock n v t = dset n (clock, v) t"

definition timed_get :: "rat \<Rightarrow> rat \<Rightarrow> 'n \<Rightarrow> ('n, 'v) timed \<Rightarrow> 'v option" where
  "timed_get seconds clock n t =
     (case dget t n of None \<Rightarrow> None
      | Some (t0, v) \<Rightarrow> if clock - t0 \<ge> seconds then None else Some v)"

definition timed_adjust :: "rat \<Rightarrow> rat \<Rightarrow> 'n \<Rightarrow> int \<Rightarrow> ('n, int) timed \<Rightarrow> ('n, int) timed" where
  "timed_adjust seconds clock n delta t =
     (case dget t n of None \<Rightarrow> t
      | Some (t0, v) \<Rightarrow> if clock - t0 < seconds then dset n (t0, max 0 (v + delta)) t else t)"

definition timed_age :: "rat \<Rightarrow> 'n \<Rightarrow> ('n, 'v) timed \<Rightarrow> rat option" where
  "timed_age clock n t = map_option (\<lambda>e. clock - fst e) (dget t n)"

section \<open>Facts\<close>

text \<open>What a registered specification may ask for: every number inside Core's ceilings.\<close>

definition in_limits :: "limit_name \<Rightarrow> int \<Rightarrow> bool" where
  "in_limits n i = (fst (limits n) \<le> i \<and> i \<le> snd (snd (limits n)))"

definition spec_ok :: "event_job_spec \<Rightarrow> bool" where
  "spec_ok s = (in_limits Soft_Time_Limit (sp_soft s) \<and> sp_hard s = sp_soft s + 15 \<and>
     in_limits Max_Attempts (sp_max_attempts s) \<and> in_limits Backoff (sp_backoff s) \<and>
     in_limits Max_Backoff (sp_max_backoff s) \<and> sp_backoff s \<le> sp_max_backoff s \<and>
     in_limits Expires (sp_expires s) \<and> in_limits Max_Backlog (sp_max_backlog s) \<and>
     in_limits Dedupe (sp_dedupe s) \<and>
     sp_label s \<noteq> [] \<and> length (sp_label s) \<le> 120 \<and> \<not> list_ex is_control (sp_label s) \<and>
     module_id_re (sp_module_id s) \<and>
     (\<exists>j. sp_id s = sp_module_id s @ ''.'' @ j \<and> job_part_re j))"

lemma in_limits_default [simp]: "in_limits n (limit_default n)"
  by (cases n) (simp_all add: in_limits_def limit_default_def)

lemma pick_in_limits: "pick n v = Inr i \<Longrightarrow> in_limits n i"
  by (auto simp: pick_def bounded_int_def in_limits_def [of n i] Let_def
      in_limits_default [unfolded in_limits_def] split: if_splits pyval.splits)

lemma partition_on_eq: "partition_on c s = Some (m, j) \<Longrightarrow> s = m @ [c] @ j"
proof -
  assume "partition_on c s = Some (m, j)"
  then have c: "c \<in> set s" and m: "m = takeWhile (\<lambda>x. x \<noteq> c) s"
    and j: "j = tl (dropWhile (\<lambda>x. x \<noteq> c) s)"
    by (auto simp: partition_on_def split: if_splits)
  have ne: "dropWhile (\<lambda>x. x \<noteq> c) s \<noteq> []" using c by auto
  have "hd (dropWhile (\<lambda>x. x \<noteq> c) s) = c" using hd_dropWhile [OF ne] by simp
  then have "dropWhile (\<lambda>x. x \<noteq> c) s = c # j" using ne j by (metis list.collapse)
  then show "s = m @ [c] @ j" using takeWhile_dropWhile_id [of "\<lambda>x. x \<noteq> c" s] m by simp
qed

lemma as_job_id_shape:
  assumes "as_job_id m v = Inr i"
  shows "\<exists>j. i = m @ ''.'' @ j \<and> job_part_re j"
  using assms
  by (cases "(m, v)" rule: as_job_id.cases)
     (auto simp: job_id_re_def dest!: partition_on_eq split: option.splits if_splits prod.splits)

lemma as_module_id_shape: "as_module_id v = Inr m \<Longrightarrow> module_id_re m"
  by (cases v rule: as_module_id.cases) (auto split: if_splits)

lemma as_label_shape:
  assumes "as_label v = Inr l"
  shows "l \<noteq> [] \<and> length l \<le> 120 \<and> \<not> list_ex is_control l"
proof -
  obtain s where s: "v = PStr s" "l = strip s" "strip s \<noteq> []" "length (strip s) \<le> 120" "\<not> list_ex is_control s"
    using assms by (cases v rule: as_label.cases) (auto simp: label_max_chars_def split: if_splits)
  then show ?thesis using set_strip [of s] by (auto simp: list_ex_iff)
qed

lemma clean_spec_ok:
  assumes "clean_spec a = Inr s"
  shows "spec_ok s"
  using assms unfolding clean_spec_def
  by (auto simp: spec_ok_def hard_limit_extra_seconds_def pick_in_limits
      dest: as_module_id_shape as_job_id_shape as_label_shape)

text \<open>A registration is accepted only inside Core's ceilings: every number of the accepted
  specification lies between its limit's minimum and maximum, the hard time limit is the soft one plus
  15 seconds, the back-off never exceeds its cap, the label is one printable line of at most 120
  characters, and the job id is the module's own id, a dot and a lowercase job part.\<close>

theorem clean_spec_within_limits:
  assumes "clean_spec a = Inr s"
  shows "spec_ok s \<and> a_module_id a = PStr (sp_module_id s) \<and> a_id a = PStr (sp_id s)"
proof -
  have "as_module_id (a_module_id a) = Inr (sp_module_id s)"
    and "as_job_id (sp_module_id s) (a_id a) = Inr (sp_id s)"
    using assms by (auto simp: clean_spec_def)
  then have "a_module_id a = PStr (sp_module_id s)" "a_id a = PStr (sp_id s)"
    by (cases "a_module_id a" rule: as_module_id.cases, auto split: if_splits)
       (cases "(sp_module_id s, a_id a)" rule: as_job_id.cases, auto split: if_splits option.splits)
  then show ?thesis using clean_spec_ok [OF assms] by simp
qed

definition sample_args :: spec_args where
  "sample_args = \<lparr>a_id = PStr ''alerts.deliver'', a_module_id = PStr ''alerts'', a_label = PStr '' Send a notice'',
     a_soft = PInt 60, a_max_attempts = PNone, a_backoff = PNone, a_max_backoff = PNone, a_expires = PNone,
     a_max_backlog = PInt 50, a_dedupe = PNone, a_audit_success = PBool False\<rparr>"

definition sample_spec :: event_job_spec where
  "sample_spec = \<lparr>sp_id = ''alerts.deliver'', sp_module_id = ''alerts'', sp_label = ''Send a notice'',
     sp_soft = 60, sp_hard = 75, sp_max_attempts = 3, sp_backoff = 60, sp_max_backoff = 3600,
     sp_expires = 1800, sp_max_backlog = 50, sp_dedupe = 0, sp_audit_success = False\<rparr>"

lemma sample_spec_clean: "clean_spec sample_args = Inr sample_spec"
  by code_simp

theorem clean_spec_within_limits_witness:
  "spec_ok sample_spec \<and> a_module_id sample_args = PStr ''alerts''"
  using clean_spec_within_limits [OF sample_spec_clean] by (simp add: sample_spec_def)

subsection \<open>Retry delay\<close>

lemma backoff_base_mono:
  fixes base cap :: int
  assumes "0 \<le> base" and "a \<le> b"
  shows "min (rat_of_int cap) (rat_of_int base * 2 ^ nat (min (max 1 a - 1) 30))
       \<le> min (rat_of_int cap) (rat_of_int base * 2 ^ nat (min (max 1 b - 1) 30))"
proof -
  have "nat (min (max 1 a - 1) 30) \<le> nat (min (max 1 b - 1) 30)" using assms by (intro nat_mono) auto
  then have "(2::rat) ^ nat (min (max 1 a - 1) 30) \<le> 2 ^ nat (min (max 1 b - 1) 30)"
    by (intro power_increasing) auto
  then have "rat_of_int base * 2 ^ nat (min (max 1 a - 1) 30) \<le> rat_of_int base * 2 ^ nat (min (max 1 b - 1) 30)"
    using assms by (intro mult_left_mono) auto
  then show ?thesis by (rule min.mono [OF order_refl])
qed

lemma jitter_bounds:
  fixes d :: rat
  assumes "0 \<le> d"
  shows "d \<le> d + d * (1 / 5) * min (max r 0) 1 \<and> d + d * (1 / 5) * min (max r 0) 1 \<le> d * 6 / 5"
proof -
  have "0 \<le> min (max r 0) 1" "min (max r 0) 1 \<le> 1" by auto
  then have "0 \<le> d * (1 / 5) * min (max r 0) 1" "d * (1 / 5) * min (max r 0) 1 \<le> d * (1 / 5) * 1"
    using assms by (auto intro!: mult_nonneg_nonneg mult_left_mono mult_left_le)
  then show ?thesis by simp
qed

text \<open>The retry delay of a registered job is never shorter than the job's back-off and never longer
  than its cap plus 20 percent, whatever the random source answers; the first delay is at most 1.2 times
  the back-off.\<close>

theorem backoff_delay_bounds:
  assumes "spec_ok s"
  shows "rat_of_int (sp_backoff s) \<le> backoff_delay n (sp_backoff s) (sp_max_backoff s) r
       \<and> backoff_delay n (sp_backoff s) (sp_max_backoff s) r \<le> rat_of_int (sp_max_backoff s) * 6 / 5
       \<and> backoff_delay 1 (sp_backoff s) (sp_max_backoff s) r \<le> rat_of_int (sp_backoff s) * 6 / 5"
proof -
  let ?b = "sp_backoff s" and ?c = "sp_max_backoff s"
  let ?d = "\<lambda>n. min (rat_of_int ?c) (rat_of_int ?b * 2 ^ nat (min (max 1 n - 1) 30))"
  have b: "0 \<le> ?b" and bc: "rat_of_int ?b \<le> rat_of_int ?c"
    using assms by (auto simp: spec_ok_def in_limits_def)
  have d1: "?d 1 = rat_of_int ?b" using bc by simp
  have "?d 1 = ?d (min 1 n)" by (simp add: min_def max_def)
  also have "\<dots> \<le> ?d n" by (rule backoff_base_mono [OF b]) simp
  finally have low: "rat_of_int ?b \<le> ?d n" using d1 by simp
  have 0: "0 \<le> rat_of_int ?b" using b by simp
  then have dn: "0 \<le> ?d n" using low by linarith
  have cap: "?d n \<le> rat_of_int ?c" by simp
  show ?thesis
    unfolding backoff_delay_def Let_def d1
    using jitter_bounds [OF dn, of r] jitter_bounds [OF 0, of r] low cap by linarith
qed

theorem backoff_delay_bounds_witness:
  "rat_of_int 60 \<le> backoff_delay 4 60 3600 (1 / 2) \<and> backoff_delay 4 60 3600 (1 / 2) \<le> rat_of_int 3600 * 6 / 5"
proof -
  have "spec_ok sample_spec" by (rule clean_spec_ok [OF sample_spec_clean])
  from backoff_delay_bounds [OF this, of 4 "1 / 2"] show ?thesis by (simp add: sample_spec_def)
qed

subsection \<open>Rate window\<close>

text \<open>A sequence of publishes of one process: the answers in order.\<close>

fun rate_run :: "nat \<Rightarrow> (rat \<times> 'n) list \<Rightarrow> 'n rate_window \<Rightarrow> bool list" where
  "rate_run limit [] w = []"
| "rate_run limit ((t, n) # cs) w =
     (let (ok, w') = rate_allow limit t n w in ok # rate_run limit cs w')"

definition accepted :: "'n \<Rightarrow> int \<Rightarrow> (rat \<times> 'n) list \<Rightarrow> bool list \<Rightarrow> nat" where
  "accepted n m cs oks =
     length (filter (\<lambda>((t, k), ok). ok \<and> k = n \<and> \<lfloor>t / 60\<rfloor> = m) (zip cs oks))"

definition used :: "'n \<Rightarrow> int \<Rightarrow> 'n rate_window \<Rightarrow> nat" where
  "used n m w = (case dget w n of Some (m', k) \<Rightarrow> if m' = m then k else 0 | None \<Rightarrow> 0)"

lemma rate_allow_other:
  "rate_allow limit t n w = (ok, w') \<Longrightarrow> k \<noteq> n \<Longrightarrow> dget w' k = dget w k"
  by (auto simp: rate_allow_def Let_def AList.update_conv' split: if_splits option.splits)

lemma rate_allow_used:
  "rate_allow limit t n w = (ok, w') \<Longrightarrow> \<lfloor>t / 60\<rfloor> = m \<Longrightarrow>
    used n m w' = used n m w + (if ok then 1 else 0) \<and> (ok \<longrightarrow> used n m w < limit)"
  by (auto simp: rate_allow_def used_def Let_def AList.update_conv' split: if_splits option.splits)

lemma rate_allow_minute:
  "rate_allow limit t n w = (ok, w') \<Longrightarrow> \<exists>k. dget w' n = Some (\<lfloor>t / 60\<rfloor>, k)"
  by (auto simp: rate_allow_def Let_def AList.update_conv' split: if_splits option.splits)

text \<open>Once the clock has passed a minute, that minute's count is never read again.\<close>

lemma accepted_Cons:
  "accepted n m ((t, k) # cs) (ok # oks) =
     (if ok \<and> k = n \<and> \<lfloor>t / 60\<rfloor> = m then 1 else 0) + accepted n m cs oks"
  by (simp add: accepted_def)

lemma accepted_past:
  assumes "\<forall>c \<in> set cs. m < \<lfloor>fst c / 60\<rfloor>"
  shows "accepted n m cs oks = 0"
proof -
  have "\<not> (\<lambda>((t, k), ok). ok \<and> k = n \<and> \<lfloor>t / 60\<rfloor> = m) x" if "x \<in> set (zip cs oks)" for x
    using assms set_zip_leftD [of "fst x" "snd x" cs oks] that by (cases x) fastforce
  then show ?thesis unfolding accepted_def by (metis (no_types, lifting) filter_False list.size(3))
qed

definition behind :: "'n rate_window \<Rightarrow> (rat \<times> 'n) list \<Rightarrow> bool" where
  "behind w cs = (\<forall>n m k. dget w n = Some (m, k) \<longrightarrow> (\<forall>c \<in> set cs. m \<le> \<lfloor>fst c / 60\<rfloor>))"

lemma minute_mono: "t \<le> t' \<Longrightarrow> \<lfloor>t / 60\<rfloor> \<le> \<lfloor>(t'::rat) / 60\<rfloor>"
  by (intro floor_mono) (auto intro: divide_right_mono)

lemma behind_step:
  assumes "behind w ((t, k) # cs)" and "sorted (map fst ((t, k) # cs))"
    and a: "rate_allow limit t k w = (ok, w')"
  shows "behind w' cs"
  unfolding behind_def
proof (intro allI impI ballI)
  fix n m j c
  assume d: "dget w' n = Some (m, j)" and c: "c \<in> set cs"
  show "m \<le> \<lfloor>fst c / 60\<rfloor>"
  proof (cases "n = k")
    case True
    then have "m = \<lfloor>t / 60\<rfloor>" using rate_allow_minute [OF a] d by auto
    moreover have "t \<le> fst c" using assms(2) c by auto
    ultimately show ?thesis using minute_mono by simp
  next
    case False
    then have "dget w n = Some (m, j)" using rate_allow_other [OF a] d by simp
    then show ?thesis using assms(1) c by (auto simp: behind_def)
  qed
qed

lemma rate_run_bound:
  assumes "sorted (map fst cs)" and "behind w cs" and "used n m w \<le> limit"
  shows "accepted n m cs (rate_run limit cs w) + used n m w \<le> limit"
  using assms
proof (induction cs arbitrary: w)
  case Nil
  then show ?case by (simp add: accepted_def)
next
  case (Cons c cs)
  obtain t k where c: "c = (t, k)" by (cases c)
  obtain ok w' where a: "rate_allow limit t k w = (ok, w')" by (cases "rate_allow limit t k w")
  have srt: "sorted (map fst cs)" and later: "\<forall>d \<in> set cs. t \<le> fst d" using Cons.prems c by auto
  have bh: "behind w' cs" using behind_step [OF _ _ a] Cons.prems c by simp
  have IH: "accepted n m cs (rate_run limit cs w') + used n m w' \<le> limit" if "used n m w' \<le> limit"
    by (rule Cons.IH [OF srt bh that])
  consider (hit) "k = n" "\<lfloor>t / 60\<rfloor> = m" | (past) "k = n" "m < \<lfloor>t / 60\<rfloor>"
    | (early) "k = n" "\<lfloor>t / 60\<rfloor> < m" | (other) "k \<noteq> n" by linarith
  then show ?case
  proof cases
    case hit
    then have u: "used n m w' = used n m w + (if ok then 1 else 0)" "ok \<longrightarrow> used n m w < limit"
      using rate_allow_used [OF a, of m] by auto
    then have "used n m w' \<le> limit" using Cons.prems by auto
    from IH [OF this] u hit c a show ?thesis by (simp add: accepted_Cons split: if_splits)
  next
    case past
    have "\<forall>d \<in> set cs. m < \<lfloor>fst d / 60\<rfloor>" using later past minute_mono by force
    then have "accepted n m cs (rate_run limit cs w') = 0" by (rule accepted_past)
    then show ?thesis using past c a Cons.prems by (simp add: accepted_Cons)
  next
    case early
    then have "used n m w' = 0" using rate_allow_minute [OF a] by (auto simp: used_def)
    moreover have "used n m w = 0"
      using Cons.prems(2) early c by (force simp: used_def behind_def split: option.splits)
    ultimately show ?thesis using IH early c a by (simp add: accepted_Cons)
  next
    case other
    then have "used n m w' = used n m w" using rate_allow_other [OF a, of n] by (simp add: used_def)
    then show ?thesis using IH Cons.prems other c a by (simp add: accepted_Cons)
  qed
qed

text \<open>However many publishes one process receives, and however they interleave between jobs, at most
  the limit of one job's publishes are accepted within any clock minute (the clock is monotonic).\<close>

theorem rate_window_limits_each_minute:
  assumes "sorted (map fst cs)"
  shows "accepted n m cs (rate_run limit cs []) \<le> limit"
  using rate_run_bound [OF assms, of "[]" n m limit] by (simp add: behind_def used_def)

theorem rate_window_limits_each_minute_witness:
  "accepted ''a'' 0 [(0, ''a''), (1, ''b''), (5, ''a''), (30, ''a''), (61, ''a'')]
     (rate_run 2 [(0, ''a''), (1, ''b''), (5, ''a''), (30, ''a''), (61, ''a'')] []) \<le> 2"
  by (rule rate_window_limits_each_minute) simp

subsection \<open>Recent keys, circuit breaker, timed values\<close>

lemma recent_seen_remembers:
  assumes "recent_seen seconds maximum t n seen = (False, seen')" and "t' - t < seconds"
  shows "recent_seen seconds maximum t' n seen' = (True, seen')"
  using assms by (auto simp: recent_seen_def Let_def AList.update_conv' split: if_splits option.splits)

lemma length_update_le: "length (AList.update k v d) \<le> Suc (length d)"
  by (induction d) auto

lemma recent_seen_bounded:
  assumes "length seen \<le> maximum" and "0 < maximum"
  shows "length (snd (recent_seen seconds maximum t n seen)) \<le> maximum"
proof -
  have f: "length (filter P seen) \<le> length seen" for P by simp
  have u: "length (AList.update n t xs) \<le> maximum" if "length xs < maximum" for xs
    using length_update_le [of n t xs] that by linarith
  show ?thesis using assms f u
    by (auto simp: recent_seen_def Let_def not_le split: if_splits option.splits intro!: u)
qed

lemma breaker_blocks: "clock - t < breaker_open_seconds \<Longrightarrow> fst (breaker_allow clock (breaker_failure t b)) = False"
  by (simp add: breaker_allow_def breaker_failure_def)

lemma breaker_recovers: "clock - t \<ge> breaker_open_seconds \<Longrightarrow> breaker_allow clock (Some t) = (True, None)"
  by (simp add: breaker_allow_def)

lemma timed_get_fresh: "clock' - clock < seconds \<Longrightarrow> timed_get seconds clock' n (timed_set clock n v t) = Some v"
  by (simp add: timed_get_def timed_set_def AList.update_conv')

lemma timed_get_old: "clock' - clock \<ge> seconds \<Longrightarrow> timed_get seconds clock' n (timed_set clock n v t) = None"
  by (simp add: timed_get_def timed_set_def AList.update_conv')

subsection \<open>Keys and payloads\<close>

lemma clean_key_length: "clean_key v = Inr k \<Longrightarrow> 1 \<le> length k \<and> length k \<le> 129 \<and> v = PStr k"
proof -
  assume a: "clean_key v = Inr k"
  then have v: "v = PStr k" and r: "key_re k" by (cases v; auto split: if_splits)+
  have "length k = Suc (length (butlast k))" if "k \<noteq> []" using that by (cases k) auto
  with v r show ?thesis by (auto simp: key_re_def key_body_def)
qed

lemma newline_no_key_char: "\<not> key_char (char_of (10::nat))"
  by code_simp

text \<open>The idempotency key check is not anchored at the end of the text: a key of 128 allowed characters
  followed by a newline is accepted, one character longer than the documented maximum and outside the
  documented alphabet.\<close>

theorem clean_key_accepts_trailing_newline:
  assumes "key_body s"
  shows "clean_key (PStr (s @ [char_of (10::nat)])) = Inr (s @ [char_of (10::nat)]) \<and> \<not> key_char (char_of (10::nat))"
  using assms newline_no_key_char by (simp add: key_re_def)

theorem clean_key_accepts_trailing_newline_witness:
  "clean_key (PStr (''alert:1'' @ [char_of (10::nat)])) = Inr (''alert:1'' @ [char_of (10::nat)])"
  using clean_key_accepts_trailing_newline [of "''alert:1''"]
  by (simp add: key_body_def key_char_def text_defs Let_def)

fun val_depth :: "pyval \<Rightarrow> nat" where
  "val_depth (PList xs) = Suc (fold max (map val_depth xs) 0)"
| "val_depth (PDict d) = Suc (fold max (map (\<lambda>kv. val_depth (snd kv)) d) 0)"
| "val_depth _ = 0"

lemma fold_max_le: "(\<And>x. x \<in> set xs \<Longrightarrow> x \<le> b) \<Longrightarrow> a \<le> b \<Longrightarrow> fold max xs a \<le> (b::nat)"
  by (induction xs arbitrary: a) auto

lemma json_safe_depth: "json_safe depth v \<Longrightarrow> val_depth v + depth \<le> max depth payload_max_depth"
proof (induction depth v rule: json_safe.induct)
  case (3 depth xs)
  then have "val_depth x + Suc depth \<le> payload_max_depth" if "x \<in> set xs" for x
    using that by (fastforce simp: list_all_iff max_def)
  then have "val_depth x \<le> payload_max_depth - Suc depth" if "x \<in> set xs" for x
    using that add_le_imp_le_diff by blast
  then have "fold max (map val_depth xs) 0 \<le> payload_max_depth - Suc depth"
    by (intro fold_max_le) auto
  with 3 show ?case by auto
next
  case (4 depth d)
  then have "val_depth (snd x) + Suc depth \<le> payload_max_depth" if "x \<in> set d" for x
    using that by (fastforce simp: list_all_iff max_def)
  then have "val_depth (snd x) \<le> payload_max_depth - Suc depth" if "x \<in> set d" for x
    using that add_le_imp_le_diff by blast
  then have "fold max (map (\<lambda>kv. val_depth (snd kv)) d) 0 \<le> payload_max_depth - Suc depth"
    by (intro fold_max_le) auto
  with 4 show ?case by auto
qed auto

lemma json_safe_finite: "json_safe depth v \<Longrightarrow> json_finite v"
proof (induction depth v rule: json_safe.induct)
  case (3 depth xs)
  then show ?case by (auto simp: list_all_iff)
next
  case (4 depth d)
  then show ?case by (force simp: list_all_iff)
qed auto

text \<open>A stored payload is bounded: accepted payloads are JSON objects of finite numbers, at most four
  levels deep and at most 2048 bytes as JSON; a missing payload is the empty object, and checking an
  accepted payload again accepts it unchanged.\<close>

theorem clean_payload_bounded:
  assumes "clean_payload v = Inr d"
  shows "json_finite (PDict d) \<and> val_depth (PDict d) \<le> 4 \<and> utf8_length (json_dumps_ascii (PDict d)) \<le> 2048
     \<and> clean_payload (PDict d) = Inr d \<and> (v = PDict d \<or> v = PNone \<and> d = [])"
proof -
  have "json_safe 0 (PDict d)" "ints_printable (PDict d)" "utf8_length (json_dumps_ascii (PDict d)) \<le> 2048"
    "v = PDict d \<or> v = PNone \<and> d = []"
    using assms by (cases v; auto simp: payload_max_bytes_def payload_max_depth_def utf8_length_def)+
  then show ?thesis
    using json_safe_depth [of 0 "PDict d"] json_safe_finite [of 0 "PDict d"]
    by (simp add: payload_max_bytes_def payload_max_depth_def del: json_safe.simps ints_printable.simps
        val_depth.simps json_finite.simps json_dumps_ascii.simps)
qed

theorem clean_payload_bounded_witness:
  "clean_payload (PDict [(''ids'', PList [PInt 4, PInt 9])]) = Inr [(''ids'', PList [PInt 4, PInt 9])]
   \<and> val_depth (PDict [(''ids'', PList [PInt 4, PInt 9])]) \<le> 4"
proof -
  have "clean_payload (PDict [(''ids'', PList [PInt 4, PInt 9])]) = Inr [(''ids'', PList [PInt 4, PInt 9])]"
    by code_simp
  with clean_payload_bounded [OF this] show ?thesis by blast
qed

end
