(* ===== verification/Event_Jobs.thy ===== *)
theory Event_Jobs
  imports Module_State Event_Jobs_Policy
begin

text \<open>
  Event-started jobs (\<open>event_jobs.py\<close> and the two tables of \<open>models.py\<close>): registration, publish, the
  deferred store after a commit, the worker's claim and finish transactions, and the nine steps of the
  Scheduler tick. The world holds the database tables, the process memory, the broker's messages, the
  audit rows and the shared cache. What the code reads from outside is the environment of one call: the
  clocks, the installed plugins, the module state file, the caller check, the broker, the audit log, the cache,
  the random source and whether a transaction is open. Database faults (a statement timeout) are not modelled; a text
  longer than its column is the error PostgreSQL raises. Log lines and audit message texts are left out.
\<close>

section \<open>Tables and memory\<close>

record snapshot =
  sn_soft :: int
  sn_hard :: int
  sn_backoff :: int
  sn_max_backoff :: int
  sn_audit_success :: bool
  sn_dedupe :: int

record ev_row =
  r_pk :: nat
  r_module :: string
  r_job :: string
  r_key :: string
  r_payload :: pydict
  r_policy :: "snapshot option"
  r_status :: job_status
  r_attempt :: int
  r_max_attempts :: int
  r_next_attempt :: "moment option"
  r_expires :: moment
  r_created :: moment
  r_last_enqueued :: "moment option"
  r_started :: "moment option"
  r_finished :: "moment option"
  r_error_type :: string
  r_error :: string
  r_result :: pydict
  r_task_id :: string

datatype counter = N_Published | N_Duplicate | N_Dropped | N_Succeeded | N_Failed | N_Expired | N_Skipped

record ev_stat =
  st_count :: "counter \<Rightarrow> int"
  st_dropped_reported :: int
  st_dropped_day :: int
  st_dropped_day_started :: "moment option"
  st_last_failure :: "moment option"
  st_last_error :: string

record handler_ref =
  h_id :: nat
  h_callable :: bool
  h_code_file :: "string option"

record job_def =
  d_spec :: event_job_spec
  d_handler :: handler_ref

record message =
  m_pk :: nat
  m_countdown :: rat
  m_expires :: moment
  m_soft :: int
  m_hard :: int

datatype audit_action = A_Failed | A_Skipped | A_Expired | A_Dropped | A_Refused | A_Run

record audit_row =
  au_action :: audit_action
  au_module :: string
  au_job :: string
  au_key :: string
  au_attempt :: int
  au_error_type :: string
  au_error :: string
  au_count :: "int option"

type_synonym job_key = "string \<times> string"

record ev_world =
  w_rows :: "ev_row list"
  w_stats :: "(job_key, ev_stat) dict"
  w_jobs :: "(string, job_def) dict"
  w_handles :: "(string, nat) dict"
  w_next :: nat
  w_recent :: "job_key recent_keys"
  w_rate :: "string rate_window"
  w_breaker :: breaker
  w_gauges :: "(string, int) timed"
  w_enabled :: "(string, bool) timed"
  w_counters :: "(job_key, (counter, int) dict) dict"
  w_last_flush :: rat
  w_refusals :: "(string \<times> string \<times> int, int) dict"
  w_last_refusal_flush :: "rat option"
  w_on_commit :: "(job_def \<times> string \<times> pydict) list"
  w_sent :: "message list"
  w_refusal_sent :: "(string \<times> string \<times> int \<times> int) list list"
  w_audit :: "audit_row list"
  w_cache :: "(string, int) dict"

record plugin =
  pl_id :: string
  pl_type :: string
  pl_legacy :: bool
  pl_root :: string

datatype caller_answer = Caller_Raised | Caller_Is "string option" bool

record ev_env =
  e_now :: moment
  e_mono :: rat
  e_wall :: rat
  e_plugins :: "plugin list option"
  e_state :: ms_world
  e_caller :: caller_answer
  e_broker :: bool
  e_atomic :: bool
  e_rand :: rat
  e_audit :: bool
  e_cache :: bool
  e_retention :: int
  e_norm :: "string \<Rightarrow> string"

section \<open>Module status\<close>

text \<open>\<open>_enabled_now\<close>: \<open>None\<close> when the read raises or the state file is damaged.\<close>

definition enabled_now :: "ev_env \<Rightarrow> string \<Rightarrow> bool option" where
  "enabled_now e m =
     (case load_state (e_state e) of
        Inl _ \<Rightarrow> None
      | Inr state \<Rightarrow> if is_corrupt state then None else Some (is_enabled m state))"

datatype module_status = Runnable | Unavailable | Unknown

definition module_status_now :: "ev_env \<Rightarrow> string \<Rightarrow> module_status" where
  "module_status_now e m =
     (case e_plugins e of
        None \<Rightarrow> Unknown
      | Some ps \<Rightarrow>
          (case find (\<lambda>p. pl_id p = m) ps of
             None \<Rightarrow> Unavailable
           | Some p \<Rightarrow>
               if pl_type p \<noteq> ''extension'' \<or> pl_legacy p then Unavailable
               else (case enabled_now e m of
                       None \<Rightarrow> Unknown
                     | Some b \<Rightarrow> if b then Runnable else Unavailable)))"

definition enabled_cache_seconds :: rat where "enabled_cache_seconds = 5"

definition module_enabled_cached :: "ev_env \<Rightarrow> string \<Rightarrow> ev_world \<Rightarrow> bool \<times> ev_world" where
  "module_enabled_cached e m w =
     (case timed_get enabled_cache_seconds (e_mono e) m (w_enabled w) of
        Some b \<Rightarrow> (b, w)
      | None \<Rightarrow>
          (let v = (case enabled_now e m of None \<Rightarrow> False | Some b \<Rightarrow> b)
           in (v, w\<lparr>w_enabled := timed_set (e_mono e) m v (w_enabled w)\<rparr>)))"

section \<open>Registration\<close>

datatype reg_error =
    Reg_Policy policy_error | Not_Callable | Other_Definition | Modules_Unreadable | Not_Extension
  | Enabled_Unreadable | Not_Enabled | Handler_Not_Code | Handler_Outside

definition path_under :: "string \<Rightarrow> string \<Rightarrow> bool" where
  "path_under p base = (p = base \<or>
     startswith p (rstrip_by (\<lambda>c. c = CHR ''/'') base @ ''/''))"

definition verify_owner :: "ev_env \<Rightarrow> string \<Rightarrow> handler_ref \<Rightarrow> reg_error + unit" where
  "verify_owner e m h =
     (case e_plugins e of
        None \<Rightarrow> Inl Modules_Unreadable
      | Some ps \<Rightarrow>
          (case find (\<lambda>p. pl_id p = m) ps of
             None \<Rightarrow> Inl Not_Extension
           | Some p \<Rightarrow>
               if pl_type p \<noteq> ''extension'' \<or> pl_legacy p then Inl Not_Extension
               else (case enabled_now e m of
                       None \<Rightarrow> Inl Enabled_Unreadable
                     | Some False \<Rightarrow> Inl Not_Enabled
                     | Some True \<Rightarrow>
                         (case h_code_file h of
                            None \<Rightarrow> Inl Handler_Not_Code
                          | Some f \<Rightarrow>
                              if f = [] \<or> startswith f ''<'' then Inl Handler_Not_Code
                              else if \<not> path_under (e_norm e f) (e_norm e (pl_root p)) then Inl Handler_Outside
                              else Inr ()))))"

definition registered_before :: "job_def \<Rightarrow> ev_world \<Rightarrow> (reg_error + nat) option" where
  "registered_before d w =
     (case dget (w_jobs w) (sp_id (d_spec d)) of
        None \<Rightarrow> None
      | Some prev \<Rightarrow>
          if prev = d then Some (Inr (get_or (w_handles w) (sp_id (d_spec d)) 0))
          else Some (Inl Other_Definition))"

text \<open>The result is the handle object (its identity).\<close>

definition register_event_job ::
  "ev_env \<Rightarrow> spec_args \<Rightarrow> handler_ref \<Rightarrow> ev_world \<Rightarrow> reg_error + nat \<times> ev_world" where
  "register_event_job e args h w =
     (case clean_spec args of
        Inl x \<Rightarrow> Inl (Reg_Policy x)
      | Inr spec \<Rightarrow>
          rcheck (\<not> h_callable h) Not_Callable
           (let d = \<lparr>d_spec = spec, d_handler = h\<rparr> in
            case registered_before d w of
              Some r \<Rightarrow> rbind r (\<lambda>hnd. Inr (hnd, w))
            | None \<Rightarrow>
                rbind (verify_owner e (sp_module_id spec) h) (\<lambda>_.
                  Inr (w_next w,
                       w\<lparr>w_jobs := dset (sp_id spec) d (w_jobs w),
                         w_handles := dset (sp_id spec) (w_next w) (w_handles w),
                         w_next := Suc (w_next w)\<rparr>))))"

text \<open>A handle as the caller presents it: the job id it carries and the object's identity.\<close>

definition definition_for :: "string \<Rightarrow> nat \<Rightarrow> ev_world \<Rightarrow> job_def option" where
  "definition_for job hnd w =
     (if dget (w_handles w) job \<noteq> Some hnd then None else dget (w_jobs w) job)"

definition has_registered_event_job :: "string \<Rightarrow> string \<Rightarrow> ev_world \<Rightarrow> bool" where
  "has_registered_event_job job m w =
     (case dget (w_jobs w) job of None \<Rightarrow> False | Some d \<Rightarrow> sp_module_id (d_spec d) = m)"

section \<open>Counters\<close>

definition def_key :: "job_def \<Rightarrow> job_key" where
  "def_key d = (sp_module_id (d_spec d), sp_id (d_spec d))"

definition add_count :: "counter \<Rightarrow> int \<Rightarrow> (counter, int) dict \<Rightarrow> (counter, int) dict" where
  "add_count c n row = dset c (get_or row c 0 + n) row"

definition count_job :: "job_def \<Rightarrow> counter \<Rightarrow> ev_world \<Rightarrow> ev_world" where
  "count_job d c w =
     w\<lparr>w_counters := dset (def_key d) (add_count c 1 (get_or (w_counters w) (def_key d) [])) (w_counters w)\<rparr>"

definition new_stat :: ev_stat where
  "new_stat = \<lparr>st_count = (\<lambda>_. 0), st_dropped_reported = 0, st_dropped_day = 0,
     st_dropped_day_started = None, st_last_failure = None, st_last_error = []\<rparr>"

definition locked_stat :: "job_key \<Rightarrow> (job_key, ev_stat) dict \<Rightarrow> ev_stat" where
  "locked_stat k stats = get_or stats k new_stat"

definition bump_counts :: "(counter, int) dict \<Rightarrow> ev_stat \<Rightarrow> ev_stat" where
  "bump_counts counts st =
     fold (\<lambda>(c, n) s. s\<lparr>st_count := (st_count s)(c := st_count s c + n)\<rparr>) counts st"

definition bump_dropped :: "moment \<Rightarrow> int \<Rightarrow> ev_stat \<Rightarrow> ev_stat" where
  "bump_dropped now n st =
     (if n = 0 then st
      else if (case st_dropped_day_started st of None \<Rightarrow> True | Some t \<Rightarrow> now - t > secs (24 * 3600))
      then st\<lparr>st_dropped_day := n, st_dropped_day_started := Some now\<rparr>
      else st\<lparr>st_dropped_day := st_dropped_day st + n\<rparr>)"

definition bump_stat ::
  "job_key \<Rightarrow> moment \<Rightarrow> (counter, int) dict \<Rightarrow> (moment \<times> string) option \<Rightarrow> ev_world \<Rightarrow> ev_world" where
  "bump_stat k now counts failure w =
     (let st = bump_counts counts (locked_stat k (w_stats w));
          st' = (case failure of None \<Rightarrow> st
                 | Some (t, text) \<Rightarrow> st\<lparr>st_last_failure := Some t, st_last_error := text\<rparr>)
      in w\<lparr>w_stats := dset k (bump_dropped now (get_or counts N_Dropped 0) st') (w_stats w)\<rparr>)"

section \<open>Refused publishes\<close>

definition refusal_window_seconds :: rat where "refusal_window_seconds = 3600"
definition refusal_flush_seconds :: rat where "refusal_flush_seconds = 60"
definition refusal_max_entries :: nat where "refusal_max_entries = 64"
definition refusal_buffer_keys :: nat where "refusal_buffer_keys = 256"
definition refusal_count_max :: int where "refusal_count_max = 100000"
definition refusal_bucket_age_hours :: int where "refusal_bucket_age_hours = 3"

definition refusal_key :: "string \<Rightarrow> string \<Rightarrow> int \<Rightarrow> string \<Rightarrow> string" where
  "refusal_key m j bucket part =
     join '':'' [''tectac:eventjob-refused'', part, m, j, show_int bucket]"

definition buffer_refusal ::
  "string \<times> string \<times> int \<Rightarrow> int \<Rightarrow> (string \<times> string \<times> int, int) dict \<Rightarrow> (string \<times> string \<times> int, int) dict" where
  "buffer_refusal k n buf =
     (let b = (if length buf \<ge> refusal_buffer_keys \<and> \<not> has_key buf k then [] else buf)
      in dset k (get_or b k 0 + n) b)"

definition send_refusals ::
  "ev_env \<Rightarrow> (string \<times> string \<times> int \<times> int) list \<Rightarrow> ev_world \<Rightarrow> bool \<times> ev_world" where
  "send_refusals e entries w =
     (case breaker_allow (e_mono e) (w_breaker w) of (ok, b) \<Rightarrow>
        if \<not> ok then (False, w\<lparr>w_breaker := b\<rparr>)
        else if e_broker e
        then (True, w\<lparr>w_breaker := breaker_success b, w_refusal_sent := w_refusal_sent w @ [entries]\<rparr>)
        else (False, w\<lparr>w_breaker := breaker_failure (e_mono e) b\<rparr>))"

definition flush_refusals :: "ev_env \<Rightarrow> ev_world \<Rightarrow> bool \<times> ev_world" where
  "flush_refusals e w =
     (if w_refusals w = [] \<or>
         (case w_last_refusal_flush w of None \<Rightarrow> False
          | Some l \<Rightarrow> 0 \<le> e_mono e - l \<and> e_mono e - l < refusal_flush_seconds)
      then (False, w)
      else
        (let taken = take refusal_max_entries (w_refusals w);
             w1 = w\<lparr>w_last_refusal_flush := Some (e_mono e),
                    w_refusals := drop refusal_max_entries (w_refusals w)\<rparr>
         in case send_refusals e (map (\<lambda>((m, j, b), n). (m, j, b, n)) taken) w1 of
              (True, w2) \<Rightarrow> (True, w2)
            | (False, w2) \<Rightarrow>
                (False, w2\<lparr>w_refusals := fold (\<lambda>(k, n). buffer_refusal k n) taken (w_refusals w2)\<rparr>)))"

definition note_refusal :: "ev_env \<Rightarrow> job_def \<Rightarrow> ev_world \<Rightarrow> ev_world" where
  "note_refusal e d w =
     (let bucket = \<lfloor>e_wall e / refusal_window_seconds\<rfloor>;
          k = (sp_module_id (d_spec d), sp_id (d_spec d), bucket)
      in snd (flush_refusals e (w\<lparr>w_refusals := buffer_refusal k 1 (w_refusals w)\<rparr>)))"

datatype caller_verdict = Caller_Ok | Caller_Foreign | Caller_Unverifiable

definition verified_caller_ok :: "ev_env \<Rightarrow> job_def \<Rightarrow> ev_world \<Rightarrow> caller_verdict \<times> ev_world" where
  "verified_caller_ok e d w =
     (case e_caller e of
        Caller_Raised \<Rightarrow> (Caller_Unverifiable, w)
      | Caller_Is who unverifiable \<Rightarrow>
          if who = Some (sp_module_id (d_spec d)) then (Caller_Ok, w)
          else if unverifiable then (Caller_Unverifiable, w)
          else (Caller_Foreign, note_refusal e d w))"

section \<open>Flushing the counters\<close>

definition drop_flush_seconds :: rat where "drop_flush_seconds = 60"

definition flush_counters :: "ev_env \<Rightarrow> bool \<Rightarrow> ev_world \<Rightarrow> ev_world" where
  "flush_counters e force w =
     (if \<not> force \<and> (e_atomic e \<or> e_mono e - w_last_flush w < drop_flush_seconds) then w
      else
        (let w1 = snd (flush_refusals e w);
             pending = filter (\<lambda>kv. list_ex (\<lambda>cn. snd cn \<noteq> 0) (snd kv)) (w_counters w1);
             w2 = w1\<lparr>w_counters := [], w_last_flush := e_mono e\<rparr>
         in fold (\<lambda>(k, counts). bump_stat k (e_now e) counts None) pending w2))"

definition maybe_flush_drops :: "ev_env \<Rightarrow> ev_world \<Rightarrow> ev_world" where
  "maybe_flush_drops e w = (if e_atomic e then w else flush_counters e False w)"

section \<open>Storing and sending a row\<close>

definition snapshot_of :: "event_job_spec \<Rightarrow> snapshot" where
  "snapshot_of s = \<lparr>sn_soft = sp_soft s, sn_hard = sp_hard s, sn_backoff = sp_backoff s,
     sn_max_backoff = sp_max_backoff s, sn_audit_success = sp_audit_success s, sn_dedupe = sp_dedupe s\<rparr>"

definition row_key :: "ev_row \<Rightarrow> string \<times> string \<times> string" where
  "row_key r = (r_module r, r_job r, r_key r)"

definition active_row :: "ev_row \<Rightarrow> bool" where
  "active_row r = active_status (r_status r)"

text \<open>\<open>tectac_evjob_active_key\<close>: the partial unique constraint of the table.\<close>

definition active_key_taken :: "string \<times> string \<times> string \<Rightarrow> ev_row list \<Rightarrow> bool" where
  "active_key_taken k rows = list_ex (\<lambda>r. active_row r \<and> row_key r = k) rows"

text \<open>The lengths the columns take (PostgreSQL refuses a longer text).\<close>

definition columns_fit :: "event_job_spec \<Rightarrow> string \<Rightarrow> bool" where
  "columns_fit s key = (length (sp_module_id s) \<le> 100 \<and> length (sp_id s) \<le> 160 \<and> length key \<le> 128)"

definition new_row :: "nat \<Rightarrow> event_job_spec \<Rightarrow> string \<Rightarrow> pydict \<Rightarrow> moment \<Rightarrow> ev_row" where
  "new_row pk s key payload now =
     \<lparr>r_pk = pk, r_module = sp_module_id s, r_job = sp_id s, r_key = key, r_payload = payload,
      r_policy = Some (snapshot_of s), r_status = Pending, r_attempt = 0, r_max_attempts = sp_max_attempts s,
      r_next_attempt = Some now, r_expires = now + secs (sp_expires s), r_created = now,
      r_last_enqueued = Some now, r_started = None, r_finished = None, r_error_type = [], r_error = [],
      r_result = [], r_task_id = []\<rparr>"

datatype stored = Stored_Row ev_row | Stored_Duplicate | Stored_Error

definition recent_success :: "event_job_spec \<Rightarrow> string \<Rightarrow> moment \<Rightarrow> ev_row list \<Rightarrow> bool" where
  "recent_success s key now rows =
     list_ex (\<lambda>r. row_key r = (sp_module_id s, sp_id s, key) \<and> r_status r = Succeeded \<and>
        (case r_finished r of None \<Rightarrow> False | Some t \<Rightarrow> t \<ge> now - secs (sp_dedupe s))) rows"

definition persist :: "ev_env \<Rightarrow> job_def \<Rightarrow> string \<Rightarrow> pydict \<Rightarrow> ev_world \<Rightarrow> stored \<times> ev_world" where
  "persist e d key payload w =
     (let s = d_spec d in
      if sp_dedupe s > 0 \<and> recent_success s key (e_now e) (w_rows w) then (Stored_Duplicate, w)
      else if \<not> columns_fit s key then (Stored_Error, w)
      else if active_key_taken (sp_module_id s, sp_id s, key) (w_rows w) then (Stored_Duplicate, w)
      else (let r = new_row (w_next w) s key payload (e_now e)
            in (Stored_Row r, w\<lparr>w_rows := w_rows w @ [r], w_next := Suc (w_next w)\<rparr>)))"

definition or_default :: "int \<Rightarrow> int \<Rightarrow> int" where
  "or_default v d = (if v = 0 then d else v)"

definition policy_num :: "(snapshot \<Rightarrow> int) \<Rightarrow> snapshot option \<Rightarrow> int \<Rightarrow> int" where
  "policy_num f p d = (case p of None \<Rightarrow> d | Some s \<Rightarrow> or_default (f s) d)"

definition enqueue_row :: "ev_env \<Rightarrow> ev_row \<Rightarrow> rat \<Rightarrow> moment \<Rightarrow> ev_world \<Rightarrow> bool \<times> ev_world" where
  "enqueue_row e r countdown now w =
     (case breaker_allow (e_mono e) (w_breaker w) of (ok, b) \<Rightarrow>
        let w1 = w\<lparr>w_breaker := b\<rparr>; remaining = r_expires r - now in
        if \<not> ok then (False, w1)
        else if remaining \<le> secs 1 then (False, w1)
        else if e_broker e
        then (let soft = policy_num sn_soft (r_policy r) (limit_default Soft_Time_Limit);
                  hard = policy_num sn_hard (r_policy r) (soft + hard_limit_extra_seconds)
              in (True, w1\<lparr>w_breaker := breaker_success b,
                    w_sent := w_sent w1 @ [\<lparr>m_pk = r_pk r, m_countdown = max 0 countdown,
                       m_expires = max (secs 1) remaining, m_soft = soft, m_hard = hard\<rparr>]\<rparr>))
        else (False, w1\<lparr>w_breaker := breaker_failure (e_mono e) b\<rparr>))"

definition upd_row :: "nat \<Rightarrow> (ev_row \<Rightarrow> ev_row) \<Rightarrow> ev_world \<Rightarrow> ev_world" where
  "upd_row pk f w = w\<lparr>w_rows := map (\<lambda>r. if r_pk r = pk then f r else r) (w_rows w)\<rparr>"

definition find_row :: "nat \<Rightarrow> ev_world \<Rightarrow> ev_row option" where
  "find_row pk w = find (\<lambda>r. r_pk r = pk) (w_rows w)"

definition mark_not_enqueued :: "nat \<Rightarrow> ev_world \<Rightarrow> ev_world" where
  "mark_not_enqueued pk w =
     upd_row pk (\<lambda>r. if r_status r = Pending then r\<lparr>r_last_enqueued := None\<rparr> else r) w"

definition backlog_gauge_seconds :: rat where "backlog_gauge_seconds = 120"
definition backlog_refresh_seconds :: rat where "backlog_refresh_seconds = 30"

definition pending_rows :: "job_key \<Rightarrow> ev_world \<Rightarrow> ev_row list" where
  "pending_rows k w = filter (\<lambda>r. (r_module r, r_job r) = k \<and> r_status r = Pending) (w_rows w)"

definition refresh_gauge :: "ev_env \<Rightarrow> job_key \<Rightarrow> ev_world \<Rightarrow> ev_world" where
  "refresh_gauge e k w =
     w\<lparr>w_gauges := timed_set (e_mono e) (snd k) (int (length (pending_rows k w))) (w_gauges w)\<rparr>"

datatype outcome = Queued | Duplicate | Dropped | Disabled | Publish_Error

definition persist_safely :: "ev_env \<Rightarrow> job_def \<Rightarrow> string \<Rightarrow> pydict \<Rightarrow> ev_world \<Rightarrow> outcome \<times> ev_world" where
  "persist_safely e d key payload w =
     (case persist e d key payload w of
        (Stored_Error, w1) \<Rightarrow> (Publish_Error, w1)
      | (Stored_Duplicate, w1) \<Rightarrow> (Duplicate, count_job d N_Duplicate w1)
      | (Stored_Row r, w1) \<Rightarrow>
          (let w2 = count_job d N_Published w1;
               j = sp_id (d_spec d);
               w3 = w2\<lparr>w_gauges := timed_adjust backlog_gauge_seconds (e_mono e) j 1 (w_gauges w2)\<rparr>;
               w4 = (case timed_age (e_mono e) j (w_gauges w3) of
                       None \<Rightarrow> refresh_gauge e (def_key d) w3
                     | Some a \<Rightarrow> if a > backlog_refresh_seconds then refresh_gauge e (def_key d) w3 else w3)
           in case enqueue_row e r 0 (e_now e) w4 of
                (True, w5) \<Rightarrow> (Queued, flush_counters e False w5)
              | (False, w5) \<Rightarrow> (Queued, flush_counters e False (mark_not_enqueued (r_pk r) w5))))"

section \<open>Publish\<close>

datatype reason = No_Reason | Reason string | Policy_Reason policy_error

definition recent_maximum :: nat where "recent_maximum = 4096"
definition in_process_dedupe_seconds :: rat where "in_process_dedupe_seconds = 3"

text \<open>The tail of both publish paths: rate, backlog, then store now or after the commit.\<close>

definition admit :: "ev_env \<Rightarrow> job_def \<Rightarrow> string \<Rightarrow> pydict \<Rightarrow> ev_world \<Rightarrow> (outcome \<times> reason) \<times> ev_world" where
  "admit e d key payload w =
     (let j = sp_id (d_spec d) in
      case rate_allow rate_per_minute (e_mono e) j (w_rate w) of (ok, rt) \<Rightarrow>
        let w1 = w\<lparr>w_rate := rt\<rparr> in
        if \<not> ok then ((Dropped, Reason ''rate''), maybe_flush_drops e (count_job d N_Dropped w1))
        else if backlog_full (timed_get backlog_gauge_seconds (e_mono e) j (w_gauges w1)) (sp_max_backlog (d_spec d))
        then ((Dropped, Reason ''backlog''), maybe_flush_drops e (count_job d N_Dropped w1))
        else if e_atomic e
        then ((Queued, No_Reason), w1\<lparr>w_on_commit := w_on_commit w1 @ [(d, key, payload)]\<rparr>)
        else (case persist_safely e d key payload w1 of (out, w2) \<Rightarrow> ((out, No_Reason), w2)))"

definition clean_event :: "pyval \<Rightarrow> pyval \<Rightarrow> policy_error + string \<times> pydict" where
  "clean_event key payload =
     rbind (clean_key key) (\<lambda>k. rbind (clean_payload payload) (\<lambda>p. Inr (k, p)))"

definition publish :: "ev_env \<Rightarrow> string \<Rightarrow> nat \<Rightarrow> pyval \<Rightarrow> pyval \<Rightarrow> ev_world \<Rightarrow> (outcome \<times> reason) \<times> ev_world" where
  "publish e job hnd key payload w =
     (case definition_for job hnd w of
        None \<Rightarrow> ((Publish_Error, Reason ''not a registered publisher''), w)
      | Some d \<Rightarrow>
          (case module_enabled_cached e (sp_module_id (d_spec d)) w of (en, w1) \<Rightarrow>
             if \<not> en then ((Disabled, No_Reason), w1)
             else (case verified_caller_ok e d w1 of
                (Caller_Unverifiable, w2) \<Rightarrow> ((Publish_Error, Reason ''the caller could not be verified''), w2)
              | (Caller_Foreign, w2) \<Rightarrow>
                  ((Publish_Error, Reason ''the caller is not the module that owns this job''), w2)
              | (Caller_Ok, w2) \<Rightarrow>
                  (case clean_event key payload of
                     Inl x \<Rightarrow> ((Publish_Error, Policy_Reason x), w2)
                   | Inr (k, p) \<Rightarrow>
                       (case recent_seen in_process_dedupe_seconds recent_maximum (e_mono e)
                               (sp_id (d_spec d), k) (w_recent w2) of
                          (True, rc) \<Rightarrow> ((Duplicate, No_Reason), count_job d N_Duplicate (w2\<lparr>w_recent := rc\<rparr>))
                        | (False, rc) \<Rightarrow> admit e d k p (w2\<lparr>w_recent := rc\<rparr>))))))"

text \<open>\<open>publish_for_core\<close>: no caller frame and no in-process duplicate memory; the flag says whether the
  calling file is \<open>server_job_hooks.py\<close>.\<close>

definition publish_for_core ::
  "ev_env \<Rightarrow> bool \<Rightarrow> string \<Rightarrow> string \<Rightarrow> pyval \<Rightarrow> pyval \<Rightarrow> ev_world \<Rightarrow> (outcome \<times> reason) \<times> ev_world" where
  "publish_for_core e core_caller job m key payload w =
     (if \<not> core_caller then ((Publish_Error, Reason ''not Core's own caller''), w)
      else case dget (w_jobs w) job of
        None \<Rightarrow> ((Publish_Error, Reason ''not a registered event job of this module''), w)
      | Some d \<Rightarrow>
          if sp_module_id (d_spec d) \<noteq> m
          then ((Publish_Error, Reason ''not a registered event job of this module''), w)
          else (case module_status_now e m of
                  Unknown \<Rightarrow> ((Publish_Error, Reason ''the module state could not be read''), w)
                | Unavailable \<Rightarrow> ((Disabled, No_Reason), w)
                | Runnable \<Rightarrow>
                    (case clean_event key payload of
                       Inl x \<Rightarrow> ((Publish_Error, Policy_Reason x), w)
                     | Inr (k, p) \<Rightarrow> admit e d k p w)))"

text \<open>The caller's transaction commits (its callbacks run in order) or rolls back (they are dropped).\<close>

definition commit :: "ev_env \<Rightarrow> ev_world \<Rightarrow> ev_world" where
  "commit e w =
     fold (\<lambda>(d, key, payload) v. snd (persist_safely e d key payload v)) (w_on_commit w) (w\<lparr>w_on_commit := []\<rparr>)"

definition rollback :: "ev_world \<Rightarrow> ev_world" where
  "rollback w = w\<lparr>w_on_commit := []\<rparr>"

section \<open>The worker\<close>

definition audit :: "audit_action \<Rightarrow> job_key \<Rightarrow> string \<Rightarrow> int \<Rightarrow> string \<Rightarrow> string \<Rightarrow> int option \<Rightarrow> ev_env \<Rightarrow> ev_world \<Rightarrow> bool \<times> ev_world" where
  "audit action k key attempt error_type error cnt e w =
     (if e_audit e
      then (True, w\<lparr>w_audit := w_audit w @ [\<lparr>au_action = action, au_module = fst k, au_job = snd k, au_key = key,
              au_attempt = attempt, au_error_type = error_type, au_error = take error_max_chars error,
              au_count = cnt\<rparr>]\<rparr>)
      else (False, w))"

definition audit_for_row :: "audit_action \<Rightarrow> ev_row \<Rightarrow> ev_env \<Rightarrow> ev_world \<Rightarrow> ev_world" where
  "audit_for_row action r e w =
     snd (audit action (r_module r, r_job r) (r_key r) (r_attempt r) (r_error_type r) (r_error r) None e w)"

datatype claim_result =
    Job_Missing | Job_Already job_status | Job_Not_Due | Job_Deferred
  | Job_Ended job_status | Job_Claimed ev_row job_def

record verdict =
  v_status :: job_status
  v_error_type :: string
  v_text :: string
  v_action :: audit_action
  v_counter :: counter

definition verdict_for :: "ev_env \<Rightarrow> ev_row \<Rightarrow> ev_world \<Rightarrow> verdict option" where
  "verdict_for e r w =
     (if is_expired (e_now e) (Some (r_expires r))
      then Some \<lparr>v_status = Expired, v_error_type = ''Expired'', v_text = ''The job was not started in time.'',
                 v_action = A_Expired, v_counter = N_Expired\<rparr>
      else case module_status_now e (r_module r) of
        Unknown \<Rightarrow> None
      | Unavailable \<Rightarrow> Some \<lparr>v_status = Skipped, v_error_type = ''ModuleUnavailable'',
                 v_text = ''The module is disabled or no longer installed.'', v_action = A_Skipped, v_counter = N_Skipped\<rparr>
      | Runnable \<Rightarrow>
          if \<not> has_registered_event_job (r_job r) (r_module r) w
          then Some \<lparr>v_status = Skipped, v_error_type = ''HandlerNotRegistered'',
                 v_text = ''The handler is not registered in this worker.'', v_action = A_Skipped, v_counter = N_Skipped\<rparr>
          else None)"

definition end_row :: "job_status \<Rightarrow> string \<Rightarrow> string \<Rightarrow> moment \<Rightarrow> ev_row \<Rightarrow> ev_row" where
  "end_row st error_type text now r =
     r\<lparr>r_status := st, r_error_type := error_type, r_error := text, r_finished := Some now\<rparr>"

definition start_row :: "moment \<Rightarrow> string \<Rightarrow> ev_row \<Rightarrow> ev_row" where
  "start_row now task r =
     r\<lparr>r_status := Running, r_attempt := r_attempt r + 1, r_started := Some now, r_finished := None,
       r_task_id := take 80 task, r_error := [], r_error_type := []\<rparr>"

text \<open>The first transaction of \<open>run_event_job\<close>, with the audit row written after it. The last \<open>Job_Missing\<close>
  is never reached: without a verdict the job is registered (\<open>claim_cases\<close> below).\<close>

definition claim :: "ev_env \<Rightarrow> string \<Rightarrow> nat \<Rightarrow> ev_world \<Rightarrow> claim_result \<times> ev_world" where
  "claim e task pk w =
     (case find_row pk w of
        None \<Rightarrow> (Job_Missing, w)
      | Some r \<Rightarrow>
          if r_status r \<noteq> Pending then (Job_Already (r_status r), w)
          else if (case r_next_attempt r of None \<Rightarrow> False | Some t \<Rightarrow> t > e_now e + secs 5) then (Job_Not_Due, w)
          else (case verdict_for e r w of
             Some v \<Rightarrow>
               (let r' = end_row (v_status v) (v_error_type v) (v_text v) (e_now e) r;
                    w1 = bump_stat (r_module r, r_job r) (e_now e) [(v_counter v, 1)] None (upd_row pk (\<lambda>_. r') w)
                in (Job_Ended (v_status v), audit_for_row (v_action v) r' e w1))
           | None \<Rightarrow>
               if module_status_now e (r_module r) = Unknown
               then (Job_Deferred,
                     upd_row pk (\<lambda>_. r\<lparr>r_next_attempt := Some (e_now e), r_last_enqueued := Some (e_now e)\<rparr>) w)
               else (let r' = start_row (e_now e) task r
                     in case dget (w_jobs w) (r_job r) of
                          None \<Rightarrow> (Job_Missing, w)
                        | Some d \<Rightarrow> (Job_Claimed r' d, upd_row pk (\<lambda>_. r') w))))"

datatype finish_result = Fin_Missing | Fin_Inactive job_status | Fin_Succeeded | Fin_Failed | Fin_Retry

text \<open>\<open>_finish_success\<close>: \<open>cap_result\<close> may raise inside the transaction, which rolls it back.\<close>

definition finish_success :: "ev_env \<Rightarrow> nat \<Rightarrow> pyval \<Rightarrow> bool \<Rightarrow> ev_world \<Rightarrow> py_exn + finish_result \<times> ev_world" where
  "finish_success e pk result audit_success w =
     (case find_row pk w of
        None \<Rightarrow> Inr (Fin_Missing, w)
      | Some r \<Rightarrow>
          if r_status r \<noteq> Running then Inr (Fin_Inactive (r_status r), w)
          else rbind (cap_result result) (\<lambda>res.
            (let r' = r\<lparr>r_status := Succeeded, r_result := res, r_finished := Some (e_now e), r_error := [],
                        r_error_type := []\<rparr>;
                 w1 = bump_stat (r_module r, r_job r) (e_now e) [(N_Succeeded, 1)] None (upd_row pk (\<lambda>_. r') w)
             in Inr (Fin_Succeeded, if audit_success then audit_for_row A_Run r' e w1 else w1))))"

text \<open>\<open>timedelta(seconds=...)\<close> rounds to the nearest microsecond, ties to even.\<close>

definition micros :: "rat \<Rightarrow> moment" where
  "micros s = (let x = s * 1000000; f = \<lfloor>x\<rfloor>; d = x - rat_of_int f in
     if d < 1 / 2 then f else if d > 1 / 2 then f + 1 else if even f then f else f + 1)"

definition merged_policy :: "snapshot option \<Rightarrow> snapshot option \<Rightarrow> snapshot option" where
  "merged_policy own given = (case given of Some g \<Rightarrow> Some g | None \<Rightarrow> own)"

definition failure_decision :: "ev_env \<Rightarrow> handler_exn \<Rightarrow> ev_row \<Rightarrow> decision" where
  "failure_decision e x r =
     (let d = after_failure x (r_attempt r) (r_max_attempts r)
      in if is_expired (e_now e) (Some (r_expires r)) \<and> d = Retry then Give_Up else d)"

definition finish_failure ::
  "ev_env \<Rightarrow> nat \<Rightarrow> handler_exn \<Rightarrow> snapshot option \<Rightarrow> ev_world \<Rightarrow> finish_result \<times> ev_world" where
  "finish_failure e pk x spec_policy w =
     (case find_row pk w of
        None \<Rightarrow> (Fin_Missing, w)
      | Some r \<Rightarrow>
          if r_status r \<noteq> Running then (Fin_Inactive (r_status r), w)
          else
            (let info = merged_policy (r_policy r) spec_policy;
                 text = short_error x;
                 r1 = r\<lparr>r_error := text, r_error_type := take 120 (x_name x)\<rparr>;
                 k = (r_module r, r_job r)
             in case failure_decision e x r of
                  Give_Up \<Rightarrow>
                    (let r2 = r1\<lparr>r_status := Failed, r_finished := Some (e_now e)\<rparr>;
                         w1 = bump_stat k (e_now e) [(N_Failed, 1)] (Some (e_now e, text)) (upd_row pk (\<lambda>_. r2) w)
                     in (Fin_Failed, audit_for_row A_Failed r2 e w1))
                | Retry \<Rightarrow>
                    (let delay = backoff_delay (r_attempt r)
                           (policy_num sn_backoff info (limit_default Backoff))
                           (policy_num sn_max_backoff info (limit_default Max_Backoff)) (e_rand e);
                         r2 = r1\<lparr>r_status := Pending, r_next_attempt := Some (e_now e + micros delay),
                                r_last_enqueued := Some (e_now e)\<rparr>;
                         w1 = bump_stat k (e_now e) [] (Some (e_now e, text)) (upd_row pk (\<lambda>_. r2) w)
                     in (Fin_Retry, snd (enqueue_row e r2 delay (e_now e) w1)))))"

text \<open>The context a handler receives, and the whole worker task with the handler as a parameter.\<close>

record job_context =
  c_job :: string
  c_module :: string
  c_key :: string
  c_payload :: pydict
  c_attempt :: int
  c_max_attempts :: int
  c_final :: bool
  c_enqueued :: moment
  c_run :: nat

definition context_of :: "ev_row \<Rightarrow> job_context" where
  "context_of r = \<lparr>c_job = r_job r, c_module = r_module r, c_key = r_key r, c_payload = r_payload r,
     c_attempt = r_attempt r, c_max_attempts = r_max_attempts r, c_final = (r_attempt r \<ge> r_max_attempts r),
     c_enqueued = r_created r, c_run = r_pk r\<rparr>"

datatype run_result = Not_Run claim_result | Ran finish_result

definition run_event_job ::
  "(nat \<Rightarrow> job_context \<Rightarrow> handler_exn + pyval) \<Rightarrow> ev_env \<Rightarrow> ev_env \<Rightarrow> string \<Rightarrow> nat \<Rightarrow> ev_world \<Rightarrow> py_exn + run_result \<times> ev_world" where
  "run_event_job handler e e' task pk w =
     (case claim e task pk w of
        (Job_Claimed r d, w1) \<Rightarrow>
          (case handler (h_id (d_handler d)) (context_of r) of
             Inl x \<Rightarrow>
               (case finish_failure e' pk x (Some (snapshot_of (d_spec d))) w1 of
                  (res, w2) \<Rightarrow> Inr (Ran res, refresh_gauge e' (r_module r, r_job r) w2))
           | Inr v \<Rightarrow>
               rbind (finish_success e' pk v (sp_audit_success (d_spec d)) w1) (\<lambda>(res, w2).
                 Inr (Ran res, refresh_gauge e' (r_module r, r_job r) w2)))
      | (c, w1) \<Rightarrow> Inr (Not_Run c, w1))"

text \<open>\<open>verify_event_job_context\<close>: the registry of issued contexts gives the run, module and job of a context
  object Core issued (\<open>None\<close> for any other object).\<close>

datatype context_error = Ctx_Ids_Required | Ctx_Not_Issued | Ctx_Other_Job | Ctx_Not_Running

record verified_job =
  vj_run :: nat
  vj_module :: string
  vj_job :: string
  vj_key :: string
  vj_attempt :: int
  vj_final :: bool

fun nonempty_text :: "pyval \<Rightarrow> string option" where
  "nonempty_text (PStr s) = (if s = [] then None else Some s)"
| "nonempty_text _ = None"

definition verify_event_job_context ::
  "(nat \<times> string \<times> string) option \<Rightarrow> pyval \<Rightarrow> pyval \<Rightarrow> ev_world \<Rightarrow> context_error + verified_job" where
  "verify_event_job_context issued expected_module expected_job w =
     (case (nonempty_text expected_module, nonempty_text expected_job) of
        (Some em, Some ej) \<Rightarrow>
          (case issued of
             None \<Rightarrow> Inl Ctx_Not_Issued
           | Some (run, m, j) \<Rightarrow>
               if m \<noteq> em \<or> j \<noteq> ej then Inl Ctx_Other_Job
               else (case find_row run w of
                       None \<Rightarrow> Inl Ctx_Not_Running
                     | Some r \<Rightarrow>
                         if r_status r \<noteq> Running \<or> r_module r \<noteq> m \<or> r_job r \<noteq> j then Inl Ctx_Not_Running
                         else Inr \<lparr>vj_run = r_pk r, vj_module = m, vj_job = j, vj_key = r_key r,
                                   vj_attempt = r_attempt r, vj_final = (r_attempt r \<ge> r_max_attempts r)\<rparr>))
      | _ \<Rightarrow> Inl Ctx_Ids_Required)"

section \<open>The Scheduler tick\<close>

type_synonym tick_out = "(string, int) dict"

definition tick_row_limit :: nat where "tick_row_limit = 200"
definition finished_row_cap :: nat where "finished_row_cap = 20000"
definition prune_batch :: nat where "prune_batch = 1000"

definition out_add :: "string \<Rightarrow> int \<Rightarrow> tick_out \<Rightarrow> tick_out" where
  "out_add k n out = dset k (get_or out k 0 + n) out"

definition expire_one ::
  "ev_env \<Rightarrow> string \<Rightarrow> string \<Rightarrow> counter \<Rightarrow> string \<Rightarrow> ev_row \<Rightarrow>
   ev_world \<times> (job_key, int) dict \<times> tick_out \<Rightarrow> ev_world \<times> (job_key, int) dict \<times> tick_out" where
  "expire_one e error_type text cnt out_key candidate s =
     (case s of (w, per_job, out) \<Rightarrow>
        (case find_row (r_pk candidate) w of
           None \<Rightarrow> s
         | Some r \<Rightarrow>
             if r_status r \<noteq> Pending then s
             else
               (let k = (r_module r, r_job r);
                    r' = end_row Expired error_type text (e_now e) r;
                    w1 = bump_stat k (e_now e) [(cnt, 1)] None (upd_row (r_pk r) (\<lambda>_. r') w)
                in (w1, dset k (get_or per_job k 0 + 1) per_job, out_add out_key 1 out))))"

definition expire_rows ::
  "ev_env \<Rightarrow> ev_row list \<Rightarrow> string \<Rightarrow> string \<Rightarrow> audit_action \<Rightarrow> counter \<Rightarrow> string \<Rightarrow> ev_world \<times> tick_out \<Rightarrow> ev_world \<times> tick_out" where
  "expire_rows e rows error_type text action cnt out_key s =
     (case fold (expire_one e error_type text cnt out_key) rows (fst s, [], snd s) of
        (w, per_job, out) \<Rightarrow>
          if action = A_Dropped then (w, out)
          else (fold (\<lambda>(k, n) v. snd (audit action k [] 0 error_type text (Some n) e v)) per_job w, out))"

definition tick_expire :: "ev_env \<Rightarrow> ev_world \<times> tick_out \<Rightarrow> ev_world \<times> tick_out" where
  "tick_expire e s =
     (let rows = take tick_row_limit (sort_key r_created
                   (filter (\<lambda>r. r_status r = Pending \<and> r_expires r \<le> e_now e) (w_rows (fst s))))
      in expire_rows e rows ''Expired'' ''The job was not started in time.'' A_Expired N_Expired ''expired'' s)"

definition gate_module :: "ev_env \<Rightarrow> string \<Rightarrow> nat \<times> ev_world \<times> tick_out \<Rightarrow> nat \<times> ev_world \<times> tick_out" where
  "gate_module e m s =
     (case s of (budget, w, out) \<Rightarrow>
        if budget = 0 then s
        else (case module_status_now e m of
            Runnable \<Rightarrow> s
          | Unknown \<Rightarrow> (budget, w, out_add ''module_state_unread'' 1 out)
          | Unavailable \<Rightarrow>
              (let rows = take budget (sort_key r_created
                            (filter (\<lambda>r. r_module r = m \<and> r_status r = Pending) (w_rows w)))
               in (budget - length rows,
                   expire_rows e rows ''ModuleUnavailable'' ''The module is disabled or no longer installed.''
                     A_Skipped N_Expired ''module_unavailable'' (w, out)))))"

definition tick_module_gate :: "ev_env \<Rightarrow> ev_world \<times> tick_out \<Rightarrow> ev_world \<times> tick_out" where
  "tick_module_gate e s =
     (let modules = sort (remdups (map r_module (filter (\<lambda>r. r_status r = Pending) (w_rows (fst s)))))
      in snd (fold (gate_module e) modules (tick_row_limit, s)))"

definition event_job_lost :: handler_exn where
  "event_job_lost = \<lparr>x_name = ''EventJobLost'',
     x_mro = [''EventJobLost'', ''RuntimeError'', ''Exception'', ''BaseException'', ''object''],
     x_value_or_type = False, x_text = ''The worker did not finish this attempt (it was stopped or lost).''\<rparr>"

definition default_hard_limit :: int where
  "default_hard_limit = snd (snd (limits Soft_Time_Limit)) + hard_limit_extra_seconds"

definition recover_one :: "ev_env \<Rightarrow> ev_row \<Rightarrow> ev_world \<times> tick_out \<Rightarrow> ev_world \<times> tick_out" where
  "recover_one e r s =
     (if \<not> is_stale_running (e_now e) (r_started r) (policy_num sn_hard (r_policy r) default_hard_limit) then s
      else (snd (finish_failure e (r_pk r) event_job_lost None (fst s)), out_add ''stale_recovered'' 1 (snd s)))"

text \<open>Ordering by a nullable column: PostgreSQL puts the nulls last.\<close>

definition nulls_last :: "moment option \<Rightarrow> bool \<times> moment" where
  "nulls_last t = (case t of None \<Rightarrow> (True, 0) | Some x \<Rightarrow> (False, x))"

definition tick_recover_running :: "ev_env \<Rightarrow> ev_world \<times> tick_out \<Rightarrow> ev_world \<times> tick_out" where
  "tick_recover_running e s =
     fold (recover_one e)
       (take tick_row_limit (sort_key (\<lambda>r. nulls_last (r_started r))
          (filter (\<lambda>r. r_status r = Running) (w_rows (fst s))))) s"

definition before :: "moment option \<Rightarrow> moment \<Rightarrow> bool" where
  "before t cutoff = (case t of None \<Rightarrow> False | Some x \<Rightarrow> x < cutoff)"

definition overdue_candidates :: "ev_env \<Rightarrow> ev_world \<Rightarrow> ev_row list" where
  "overdue_candidates e w =
     (let cutoff = e_now e - secs overdue_seconds;
          never = take tick_row_limit (sort_key r_created
                    (filter (\<lambda>r. r_status r = Pending \<and> r_last_enqueued r = None) (w_rows w)));
          late = sort_key (\<lambda>r. nulls_last (r_next_attempt r))
                    (filter (\<lambda>r. r_status r = Pending \<and> before (r_next_attempt r) cutoff \<and>
                       before (r_last_enqueued r) cutoff) (w_rows w))
      in never @ take (tick_row_limit - length never) late)"

fun enqueue_overdue :: "ev_env \<Rightarrow> ev_row list \<Rightarrow> ev_world \<times> tick_out \<Rightarrow> ev_world \<times> tick_out" where
  "enqueue_overdue e [] s = s"
| "enqueue_overdue e (r # rs) s =
     (if \<not> is_overdue_pending (e_now e) (r_last_enqueued r) (r_next_attempt r) then enqueue_overdue e rs s
      else (case enqueue_row e r 0 (e_now e) (fst s) of
         (False, w) \<Rightarrow> (w, snd s)
       | (True, w) \<Rightarrow>
           enqueue_overdue e rs
             (upd_row (r_pk r) (\<lambda>x. if r_status x = Pending then x\<lparr>r_last_enqueued := Some (e_now e)\<rparr> else x) w,
              out_add ''enqueued'' 1 (snd s))))"

definition tick_enqueue_overdue :: "ev_env \<Rightarrow> ev_world \<times> tick_out \<Rightarrow> ev_world \<times> tick_out" where
  "tick_enqueue_overdue e s = enqueue_overdue e (overdue_candidates e (fst s)) s"

definition known_jobs :: "ev_world \<Rightarrow> job_key list" where
  "known_jobs w = sort (remdups (keys (take 500 (w_stats w)) @ map (\<lambda>kd. def_key (snd kd)) (w_jobs w)))"

definition trim_job :: "ev_env \<Rightarrow> job_key \<Rightarrow> nat \<times> ev_world \<times> tick_out \<Rightarrow> nat \<times> ev_world \<times> tick_out" where
  "trim_job e k s =
     (case s of (budget, w, out) \<Rightarrow>
        (case dget (w_jobs w) (snd k) of
           None \<Rightarrow> s
         | Some d \<Rightarrow>
             if budget = 0 then s
             else
               (let pending = pending_rows k w;
                    excess = min (nat (over_backlog (int (length pending)) (sp_max_backlog (d_spec d)))) budget;
                    rows = take excess (sort_key r_created pending)
                in if excess = 0 then s
                   else (budget - length rows,
                         expire_rows e rows ''Dropped'' ''The backlog was over its limit; the oldest job was dropped.''
                           A_Dropped N_Dropped ''trimmed'' (w, out)))))"

definition tick_trim :: "ev_env \<Rightarrow> ev_world \<times> tick_out \<Rightarrow> ev_world \<times> tick_out" where
  "tick_trim e s = snd (fold (trim_job e) (known_jobs (fst s)) (tick_row_limit, s))"

definition tick_gauges :: "ev_env \<Rightarrow> ev_world \<times> tick_out \<Rightarrow> ev_world \<times> tick_out" where
  "tick_gauges e s = (fold (\<lambda>kd. refresh_gauge e (def_key (snd kd))) (w_jobs (fst s)) (fst s), snd s)"

definition report_drop :: "ev_env \<Rightarrow> job_key \<Rightarrow> ev_world \<times> tick_out \<Rightarrow> ev_world \<times> tick_out" where
  "report_drop e k s =
     (case dget (w_stats (fst s)) k of
        None \<Rightarrow> s
      | Some st \<Rightarrow>
          (let n = st_count st N_Dropped - st_dropped_reported st
           in if n \<le> 0 then s
              else (snd (audit A_Dropped k [] 0 ''Dropped'' [] (Some n) e
                     ((fst s)\<lparr>w_stats := dset k (st\<lparr>st_dropped_reported := st_count st N_Dropped\<rparr>) (w_stats (fst s))\<rparr>)),
                    out_add ''dropped_reported'' 1 (snd s))))"

definition tick_report_drops :: "ev_env \<Rightarrow> ev_world \<times> tick_out \<Rightarrow> ev_world \<times> tick_out" where
  "tick_report_drops e s =
     (let w = flush_counters e True (fst s)
      in fold (report_drop e) (keys (take 500 (w_stats w))) (w, snd s))"

text \<open>The shared cache: \<open>add\<close> writes only an absent key, \<open>incr\<close> adds; expiry of entries is not modelled.\<close>

definition refusal_count :: "ev_env \<Rightarrow> string \<Rightarrow> string \<Rightarrow> int \<Rightarrow> ev_world \<Rightarrow> int" where
  "refusal_count e m j bucket w =
     (if e_cache e then get_or (w_cache w) (refusal_key m j bucket ''count'') 0 else 0)"

definition claim_refusal_report :: "ev_env \<Rightarrow> string \<Rightarrow> string \<Rightarrow> int \<Rightarrow> ev_world \<Rightarrow> bool \<times> ev_world" where
  "claim_refusal_report e m j bucket w =
     (let k = refusal_key m j bucket ''reported'' in
      if \<not> e_cache e \<or> has_key (w_cache w) k then (False, w)
      else (True, w\<lparr>w_cache := dset k 1 (w_cache w)\<rparr>))"

definition release_refusal_claim :: "ev_env \<Rightarrow> string \<Rightarrow> string \<Rightarrow> int \<Rightarrow> ev_world \<Rightarrow> ev_world" where
  "release_refusal_claim e m j bucket w =
     (if e_cache e then w\<lparr>w_cache := ddel (refusal_key m j bucket ''reported'') (w_cache w)\<rparr> else w)"

definition report_refusal ::
  "ev_env \<Rightarrow> job_key \<times> int \<Rightarrow> ev_world \<times> tick_out \<Rightarrow> ev_world \<times> tick_out" where
  "report_refusal e kb s =
     (case (kb, s) of (((m, j), bucket), (w, out)) \<Rightarrow>
        (let n = refusal_count e m j bucket w in
         if n \<le> 0 then s
         else (case claim_refusal_report e m j bucket w of
            (False, w1) \<Rightarrow> (w1, out)
          | (True, w1) \<Rightarrow>
              (case audit A_Refused (m, j) [] 0 ''CallerRefused'' [] (Some n) e w1 of
                 (False, w2) \<Rightarrow> (release_refusal_claim e m j bucket w2, out)
               | (True, w2) \<Rightarrow> (w2, out_add ''refused_reported'' 1 out)))))"

definition tick_report_refusals :: "ev_env \<Rightarrow> ev_world \<times> tick_out \<Rightarrow> ev_world \<times> tick_out" where
  "tick_report_refusals e s =
     (let current = e_now e div secs 3600
      in fold (report_refusal e)
           (concat (map (\<lambda>k. [(k, current - 2), (k, current - 1)]) (known_jobs (fst s)))) s)"

definition apply_refusal_entry :: "ev_env \<Rightarrow> job_key list \<Rightarrow> pyval \<Rightarrow> ev_world \<times> int \<Rightarrow> ev_world \<times> int" where
  "apply_refusal_entry e known entry s =
     (case entry of
        PList [PStr m, PStr j, PInt bucket, PInt n] \<Rightarrow>
          (let current = \<lfloor>e_wall e / refusal_window_seconds\<rfloor>;
               key = refusal_key m j bucket ''count'' in
           if (m, j) \<notin> set known \<or> \<not> (current - refusal_bucket_age_hours < bucket \<and> bucket \<le> current) \<or> \<not> e_cache e then s
           else ((fst s)\<lparr>w_cache := dset key (get_or (w_cache (fst s)) key 0 + max 1 (min n refusal_count_max))
                   (w_cache (fst s))\<rparr>, snd s + 1))
      | _ \<Rightarrow> s)"

definition apply_refusal_counts :: "ev_env \<Rightarrow> pyval \<Rightarrow> ev_world \<Rightarrow> int \<times> ev_world" where
  "apply_refusal_counts e entries w =
     (case entries of
        PList es \<Rightarrow>
          if length es > refusal_max_entries then (0, w)
          else (case fold (apply_refusal_entry e (known_jobs w)) es (w, 0) of (w', n) \<Rightarrow> (n, w'))
      | _ \<Rightarrow> (0, w))"

definition finished_rows :: "ev_world \<Rightarrow> ev_row list" where
  "finished_rows w =
     sort_key (\<lambda>r. nulls_last (r_finished r)) (filter (\<lambda>r. finished_status (r_status r)) (w_rows w))"

definition delete_rows :: "nat list \<Rightarrow> ev_world \<Rightarrow> ev_world" where
  "delete_rows pks w = w\<lparr>w_rows := filter (\<lambda>r. r_pk r \<notin> set pks) (w_rows w)\<rparr>"

definition retention_days :: "ev_env \<Rightarrow> int" where
  "retention_days e = max 1 (min (or_default (e_retention e) 90) 3650)"

definition tick_prune :: "ev_env \<Rightarrow> ev_world \<times> tick_out \<Rightarrow> ev_world \<times> tick_out" where
  "tick_prune e s =
     (let cutoff = e_now e - secs (86400 * retention_days e);
          old = map r_pk (take prune_batch (filter (\<lambda>r. before (r_finished r) cutoff) (finished_rows (fst s))));
          w1 = delete_rows old (fst s);
          out1 = (if old = [] then snd s else out_add ''pruned'' (int (length old)) (snd s));
          total = length (finished_rows w1)
      in if total > finished_row_cap
         then (let extra = map r_pk (take (min (total - finished_row_cap) prune_batch) (finished_rows w1))
               in (delete_rows extra w1, out_add ''pruned'' (int (length extra)) out1))
         else (w1, out1))"

definition tick_out_zero :: tick_out where
  "tick_out_zero = map (\<lambda>k. (k, 0)) [''expired'', ''module_unavailable'', ''stale_recovered'', ''enqueued'', ''trimmed'',
     ''dropped_reported'', ''refused_reported'', ''pruned'', ''errors'', ''module_state_unread'']"

definition recover_event_jobs :: "ev_env \<Rightarrow> ev_world \<Rightarrow> ev_world \<times> tick_out" where
  "recover_event_jobs e w =
     (tick_prune e \<circ> tick_report_refusals e \<circ> tick_report_drops e \<circ> tick_gauges e \<circ> tick_trim e \<circ>
      tick_enqueue_overdue e \<circ> tick_recover_running e \<circ> tick_module_gate e \<circ> tick_expire e) (w, tick_out_zero)"

end
