(* ===== verification/Event_Jobs_Safety.thy ===== *)
theory Event_Jobs_Safety
  imports Event_Jobs
begin

text \<open>
  Safety of event jobs: the invariant of the job table, what every operation may do to a stored row,
  the machine of all operations in any order, and what that gives for whole histories.
\<close>

section \<open>The invariant\<close>

definition row_ok :: "ev_row \<Rightarrow> bool" where
  "row_ok r = (0 \<le> r_attempt r \<and> r_attempt r \<le> r_max_attempts r \<and> r_max_attempts r \<le> 10 \<and>
     (r_status r = Pending \<longrightarrow> r_attempt r < r_max_attempts r) \<and>
     (r_status r = Running \<longrightarrow> 1 \<le> r_attempt r \<and> r_started r \<noteq> None) \<and>
     (finished_status (r_status r) \<longrightarrow> r_finished r \<noteq> None))"

text \<open>The part of the world the invariant is about.\<close>

definition ev_core :: "ev_world \<Rightarrow> ev_row list \<times> nat \<times> (string, job_def) dict \<times> (job_def \<times> string \<times> pydict) list" where
  "ev_core w = (w_rows w, w_next w, w_jobs w, w_on_commit w)"

definition ev_inv :: "ev_world \<Rightarrow> bool" where
  "ev_inv w = (distinct (map r_pk (w_rows w)) \<and>
     (\<forall>r \<in> set (w_rows w). r_pk r < w_next w \<and> row_ok r) \<and>
     distinct (map row_key (filter active_row (w_rows w))) \<and>
     (\<forall>kd \<in> set (w_jobs w). spec_ok (d_spec (snd kd)) \<and> fst kd = sp_id (d_spec (snd kd))) \<and>
     (\<forall>x \<in> set (w_on_commit w). spec_ok (d_spec (fst x))))"

lemma ev_inv_core: "ev_core w = ev_core w' \<Longrightarrow> ev_inv w \<longleftrightarrow> ev_inv w'"
  by (simp add: ev_inv_def ev_core_def)

section \<open>What may happen to a stored row\<close>

definition evolves :: "ev_row \<Rightarrow> ev_row \<Rightarrow> bool" where
  "evolves r r' = (r_pk r' = r_pk r \<and> row_key r' = row_key r \<and> r_max_attempts r' = r_max_attempts r \<and>
     r_payload r' = r_payload r \<and> r_expires r' = r_expires r \<and> r_created r' = r_created r \<and>
     r_policy r' = r_policy r \<and>
     r_attempt r \<le> r_attempt r' \<and> (finished_status (r_status r) \<longrightarrow> r' = r) \<and>
     (active_row r' \<longrightarrow> active_row r) \<and> (row_ok r \<longrightarrow> row_ok r'))"

lemma evolves_refl [simp]: "evolves r r"
  by (simp add: evolves_def)

lemma evolves_trans: "evolves r s \<Longrightarrow> evolves s t \<Longrightarrow> evolves r t"
  unfolding evolves_def by (auto intro: order_trans)

definition evolve :: "ev_world \<Rightarrow> ev_world \<Rightarrow> bool" where
  "evolve w w' = (list_all2 evolves (w_rows w) (w_rows w') \<and> w_next w' = w_next w \<and>
     w_jobs w' = w_jobs w \<and> w_on_commit w' = w_on_commit w)"

lemma evolve_core: "ev_core w' = ev_core w \<Longrightarrow> evolve w w'"
  by (simp add: evolve_def ev_core_def list.rel_refl)

lemma evolve_core_left: "ev_core v = ev_core w \<Longrightarrow> evolve v w' = evolve w w'"
  by (simp add: evolve_def ev_core_def)

lemma evolve_core_right: "ev_core v = ev_core w' \<Longrightarrow> evolve w v = evolve w w'"
  by (simp add: evolve_def ev_core_def)

lemma evolve_refl [simp]: "evolve w w"
  by (simp add: evolve_core)

lemma evolve_trans: "evolve u v \<Longrightarrow> evolve v w \<Longrightarrow> evolve u w"
  unfolding evolve_def using list_all2_trans [of evolves evolves evolves] evolves_trans by fastforce

lemma evolves_active_keys:
  "list_all2 evolves rs rs' \<Longrightarrow> distinct (map row_key (filter active_row rs)) \<Longrightarrow>
     distinct (map row_key (filter active_row rs')) \<and>
     set (map row_key (filter active_row rs')) \<subseteq> set (map row_key (filter active_row rs))"
proof (induction rule: list_all2_induct)
  case (Cons x xs y ys)
  then have k: "row_key y = row_key x" "active_row y \<longrightarrow> active_row x" by (simp_all add: evolves_def)
  let ?S = "set (map row_key (filter active_row xs))" and ?S' = "set (map row_key (filter active_row ys))"
  have d: "distinct (map row_key (filter active_row xs))" and x: "active_row x \<longrightarrow> row_key x \<notin> ?S"
    using Cons.prems by (auto split: if_splits)
  have IH: "distinct (map row_key (filter active_row ys))" "?S' \<subseteq> ?S" using Cons.IH [OF d] by blast+
  then have "active_row y \<longrightarrow> row_key y \<notin> ?S'" using k x by auto
  moreover have "set (map row_key (filter active_row (y # ys))) \<subseteq> set (map row_key (filter active_row (x # xs)))"
    using k IH(2) by auto
  ultimately show ?case using IH(1) by simp
qed simp

lemma evolves_map_pk: "list_all2 evolves rs rs' \<Longrightarrow> map r_pk rs' = map r_pk rs"
  by (induction rule: list_all2_induct) (auto simp: evolves_def)

lemma evolves_member:
  "list_all2 evolves rs rs' \<Longrightarrow> r' \<in> set rs' \<Longrightarrow> \<exists>r \<in> set rs. evolves r r'"
  by (induction rule: list_all2_induct) auto

lemma evolves_frozen:
  "list_all2 evolves rs rs' \<Longrightarrow> r \<in> set rs \<Longrightarrow> finished_status (r_status r) \<Longrightarrow> r \<in> set rs'"
  by (induction rule: list_all2_induct) (auto simp: evolves_def)

lemma ev_inv_evolve:
  assumes "ev_inv w" and "evolve w w'"
  shows "ev_inv w'"
proof -
  have l: "list_all2 evolves (w_rows w) (w_rows w')" using assms by (simp add: evolve_def)
  have "r_pk r' < w_next w' \<and> row_ok r'" if "r' \<in> set (w_rows w')" for r'
    using evolves_member [OF l that] assms by (auto simp: evolves_def ev_inv_def evolve_def)
  then show ?thesis
    using assms evolves_active_keys [OF l] evolves_map_pk [OF l] by (simp add: ev_inv_def evolve_def)
qed

lemma fold_evolve:
  assumes "\<And>x s. ev_inv (p s) \<Longrightarrow> evolve (p s) (p (f x s))" and "ev_inv (p s)"
  shows "evolve (p s) (p (fold f xs s))"
  using assms(2)
proof (induction xs arbitrary: s)
  case (Cons x xs)
  have "evolve (p s) (p (f x s))" by (rule assms(1) [OF Cons.prems])
  moreover from this have "ev_inv (p (f x s))" by (rule ev_inv_evolve [OF Cons.prems])
  ultimately show ?case using Cons.IH [of "f x s"] by (auto intro: evolve_trans)
qed simp

section \<open>Operations that leave the table alone\<close>

lemma core_bump_stat [simp]: "ev_core (bump_stat k now c f w) = ev_core w"
  by (simp add: bump_stat_def ev_core_def Let_def)

lemma core_count_job [simp]: "ev_core (count_job d c w) = ev_core w"
  by (simp add: count_job_def ev_core_def)

lemma core_fold: "(\<And>x w. ev_core (f x w) = ev_core w) \<Longrightarrow> ev_core (fold f xs w) = ev_core w"
  by (induction xs arbitrary: w) auto

lemma core_update:
  "ev_core (w\<lparr>w_recent := a\<rparr>) = ev_core w" "ev_core (w\<lparr>w_rate := b\<rparr>) = ev_core w"
  "ev_core (w\<lparr>w_breaker := c\<rparr>) = ev_core w" "ev_core (w\<lparr>w_gauges := d\<rparr>) = ev_core w"
  "ev_core (w\<lparr>w_enabled := en\<rparr>) = ev_core w" "ev_core (w\<lparr>w_counters := f\<rparr>) = ev_core w"
  "ev_core (w\<lparr>w_last_flush := g\<rparr>) = ev_core w" "ev_core (w\<lparr>w_refusals := h\<rparr>) = ev_core w"
  "ev_core (w\<lparr>w_last_refusal_flush := i\<rparr>) = ev_core w" "ev_core (w\<lparr>w_sent := j\<rparr>) = ev_core w"
  "ev_core (w\<lparr>w_refusal_sent := k\<rparr>) = ev_core w" "ev_core (w\<lparr>w_audit := l\<rparr>) = ev_core w"
  "ev_core (w\<lparr>w_cache := m\<rparr>) = ev_core w" "ev_core (w\<lparr>w_stats := n\<rparr>) = ev_core w"
  by (simp_all add: ev_core_def)

lemmas core_updates [simp] = core_update

lemma core_send_refusals [simp]: "ev_core (snd (send_refusals e es w)) = ev_core w"
  by (simp add: send_refusals_def split: prod.splits)

lemma core_flush_refusals [simp]: "ev_core (snd (flush_refusals e w)) = ev_core w"
proof -
  have "ev_core w2 = ev_core w" if "send_refusals e es (w\<lparr>w_last_refusal_flush := a, w_refusals := b\<rparr>) = (ok, w2)"
    for es a b ok w2
    using core_send_refusals [of e es "w\<lparr>w_last_refusal_flush := a, w_refusals := b\<rparr>"] that by simp
  then show ?thesis by (auto simp: flush_refusals_def Let_def split: prod.splits bool.splits)
qed

lemma core_note_refusal [simp]: "ev_core (note_refusal e d w) = ev_core w"
  by (simp add: note_refusal_def Let_def)

lemma core_flush_counters [simp]: "ev_core (flush_counters e force w) = ev_core w"
  by (auto simp: flush_counters_def Let_def intro!: core_fold [THEN trans] split: prod.splits)

lemma core_maybe_flush [simp]: "ev_core (maybe_flush_drops e w) = ev_core w"
  by (simp add: maybe_flush_drops_def)

lemma core_verified_caller [simp]: "ev_core (snd (verified_caller_ok e d w)) = ev_core w"
  by (auto simp: verified_caller_ok_def split: caller_answer.splits)

lemma core_enabled_cached [simp]: "ev_core (snd (module_enabled_cached e m w)) = ev_core w"
  by (auto simp: module_enabled_cached_def Let_def split: option.splits)

lemma core_refresh_gauge [simp]: "ev_core (refresh_gauge e k w) = ev_core w"
  by (simp add: refresh_gauge_def)

lemma core_enqueue_row [simp]: "ev_core (snd (enqueue_row e r c now w)) = ev_core w"
  by (auto simp: enqueue_row_def Let_def split: prod.splits)

lemma core_audit [simp]: "ev_core (snd (audit a k key att et er c e w)) = ev_core w"
  by (simp add: audit_def)

lemma core_audit_for_row [simp]: "ev_core (audit_for_row a r e w) = ev_core w"
  by (simp add: audit_for_row_def)

lemma core_report_drop [simp]: "ev_core (fst (report_drop e k s)) = ev_core (fst s)"
  by (auto simp: report_drop_def Let_def split: option.splits)

lemma core_claim_refusal [simp]: "ev_core (snd (claim_refusal_report e m j b w)) = ev_core w"
  by (simp add: claim_refusal_report_def Let_def)

lemma core_release_refusal [simp]: "ev_core (release_refusal_claim e m j b w) = ev_core w"
  by (simp add: release_refusal_claim_def)

lemma core_report_refusal [simp]: "ev_core (fst (report_refusal e kb s)) = ev_core (fst s)"
proof -
  obtain m j b w out where kb: "kb = ((m, j), b)" "s = (w, out)" by (metis surj_pair)
  have c: "ev_core w1 = ev_core w" if "claim_refusal_report e m j b w = (x, w1)" for x w1
    using core_claim_refusal [of e m j b w] that by simp
  have a: "ev_core w2 = ev_core w1" if "audit A_Refused (m, j) [] 0 ''CallerRefused'' [] n e w1 = (y, w2)" for y w1 w2 n
    using core_audit [of A_Refused "(m, j)" "[]" 0 "''CallerRefused''" "[]" n e w1] that by simp
  show ?thesis unfolding kb
    by (auto simp: report_refusal_def Let_def dest!: c a split: prod.splits bool.splits)
qed

lemma core_apply_refusal_entry: "ev_core (fst (apply_refusal_entry e known entry s)) = ev_core (fst s)"
  by (auto simp: apply_refusal_entry_def Let_def split: pyval.splits list.splits)

lemma evolve_right [simp]:
  "evolve w (bump_stat k now c f v) = evolve w v"
  "evolve w (audit_for_row a r e v) = evolve w v"
  "evolve w (refresh_gauge e k v) = evolve w v"
  "evolve w (snd (enqueue_row e r cd now v)) = evolve w v"
  "evolve w (count_job d cn v) = evolve w v"
  "evolve w (flush_counters e force v) = evolve w v"
  "evolve w (snd (audit a k key att et er ct e v)) = evolve w v"
  by (rule evolve_core_right, simp)+

section \<open>Operations on stored rows\<close>

lemma find_row_Some: "find_row pk w = Some r \<Longrightarrow> r \<in> set (w_rows w) \<and> r_pk r = pk"
  by (auto simp: find_row_def find_Some_iff)

lemma pk_unique:
  "ev_inv w \<Longrightarrow> r \<in> set (w_rows w) \<Longrightarrow> s \<in> set (w_rows w) \<Longrightarrow> r_pk r = r_pk s \<Longrightarrow> r = s"
  by (auto simp: ev_inv_def distinct_map dest: inj_onD)

lemma evolve_upd_row:
  assumes "\<And>r. r \<in> set (w_rows w) \<Longrightarrow> r_pk r = pk \<Longrightarrow> evolves r (f r)"
  shows "evolve w (upd_row pk f w)"
  using assms by (auto simp: evolve_def upd_row_def list_all2_map2 intro!: list_all2_same [THEN iffD2])

text \<open>A transaction on one locked row.\<close>

lemma evolve_set_row:
  assumes "ev_inv w" and "find_row pk w = Some r" and "evolves r r'"
  shows "evolve w (upd_row pk (\<lambda>_. r') w)"
proof (rule evolve_upd_row)
  fix s assume "s \<in> set (w_rows w)" "r_pk s = pk"
  then have "s = r" using find_row_Some [OF assms(2)] pk_unique [OF assms(1)] by blast
  then show "evolves s r'" using assms(3) by simp
qed

lemma found_row_ok: "ev_inv w \<Longrightarrow> find_row pk w = Some r \<Longrightarrow> row_ok r"
  using find_row_Some by (fastforce simp: ev_inv_def)

lemmas status_defs = finished_status_def active_status_def active_row_def row_key_def

lemma evolves_end_row: "r_status r = Pending \<Longrightarrow> finished_status st \<Longrightarrow> evolves r (end_row st et text now r)"
  by (auto simp: evolves_def end_row_def row_ok_def status_defs)

lemma evolves_start_row: "r_status r = Pending \<Longrightarrow> evolves r (start_row now task r)"
  by (auto simp: evolves_def start_row_def row_ok_def status_defs)

lemma verdict_finished: "verdict_for e r w = Some v \<Longrightarrow> finished_status (v_status v)"
  by (auto simp: verdict_for_def finished_status_def split: if_splits module_status.splits)

lemma evolve_mark_not_enqueued: "evolve w (mark_not_enqueued pk w)"
  unfolding mark_not_enqueued_def
  by (rule evolve_upd_row) (auto simp: evolves_def row_ok_def status_defs)

lemma evolve_claim:
  assumes "ev_inv w"
  shows "evolve w (snd (claim e task pk w))"
proof (cases "find_row pk w")
  case (Some r)
  have "evolve w (upd_row pk (\<lambda>_. end_row (v_status v) a b c r) w)"
    if "r_status r = Pending" "verdict_for e r w = Some v" for v a b c
    by (rule evolve_set_row [OF assms Some evolves_end_row [OF that(1) verdict_finished [OF that(2)]]])
  moreover have "evolve w (upd_row pk (\<lambda>_. start_row now task r) w)" if "r_status r = Pending" for now
    by (rule evolve_set_row [OF assms Some evolves_start_row [OF that]])
  moreover have "evolve w (upd_row pk (\<lambda>_. r\<lparr>r_next_attempt := x, r_last_enqueued := y\<rparr>) w)"
    if "r_status r = Pending" for x y
    by (rule evolve_set_row [OF assms Some]) (use that in \<open>auto simp: evolves_def row_ok_def status_defs\<close>)
  ultimately show ?thesis
    by (auto simp: claim_def Some Let_def split: option.splits)
qed (simp add: claim_def)

lemma evolve_finish_success:
  assumes "ev_inv w" and "finish_success e pk v a w = Inr (res, w')"
  shows "evolve w w'"
proof (cases "find_row pk w")
  case (Some r)
  have "evolve w (upd_row pk (\<lambda>_. r\<lparr>r_status := Succeeded, r_result := x, r_finished := Some t, r_error := [], r_error_type := []\<rparr>) w)"
    if "r_status r = Running" for x t
    by (rule evolve_set_row [OF assms(1) Some]) (use that in \<open>auto simp: evolves_def row_ok_def status_defs\<close>)
  then show ?thesis using assms(2)
    by (auto simp: finish_success_def Some Let_def split: if_splits)
qed (use assms in \<open>simp add: finish_success_def\<close>)

lemma retry_has_attempts: "failure_decision e x r = Retry \<Longrightarrow> r_attempt r < r_max_attempts r"
  by (auto simp: failure_decision_def after_failure_def Let_def split: if_splits)

lemma evolve_finish_failure:
  assumes "ev_inv w"
  shows "evolve w (snd (finish_failure e pk x sp w))"
proof (cases "find_row pk w")
  case (Some r)
  have "evolve w (upd_row pk (\<lambda>_. r\<lparr>r_error := a, r_error_type := b, r_status := Failed, r_finished := Some t\<rparr>) w)"
    if "r_status r = Running" for a b t
    by (rule evolve_set_row [OF assms Some]) (use that in \<open>auto simp: evolves_def row_ok_def status_defs\<close>)
  moreover have "evolve w (upd_row pk (\<lambda>_. r\<lparr>r_error := a, r_error_type := b, r_status := Pending,
        r_next_attempt := Some t, r_last_enqueued := Some u\<rparr>) w)"
    if "r_status r = Running" "failure_decision e x r = Retry" for a b t u
    by (rule evolve_set_row [OF assms Some])
       (use that retry_has_attempts [OF that(2)] in \<open>auto simp: evolves_def row_ok_def status_defs\<close>)
  ultimately show ?thesis
    by (auto simp: finish_failure_def Some Let_def split: decision.splits)
qed (simp add: finish_failure_def)

section \<open>The tick\<close>

lemma evolve_expire_one:
  assumes "ev_inv (fst s)"
  shows "evolve (fst s) (fst (expire_one e et text c ok cand s))"
proof -
  obtain w pj out where s: "s = (w, pj, out)" by (metis surj_pair)
  have "evolve w (upd_row (r_pk r) (\<lambda>_. end_row Expired et text (e_now e) r) w)"
    if "find_row (r_pk cand) w = Some r" "r_status r = Pending" for r
  proof -
    have "find_row (r_pk r) w = Some r" using that(1) find_row_Some [OF that(1)] by simp
    from evolve_set_row [OF _ this evolves_end_row [OF that(2)]] assms s show ?thesis
      by (simp add: finished_status_def)
  qed
  then show ?thesis by (auto simp: s expire_one_def Let_def split: option.splits)
qed

lemma evolve_expire_rows:
  assumes "ev_inv (fst s)"
  shows "evolve (fst s) (fst (expire_rows e rows et text a c ok s))"
proof -
  obtain w pj out where f: "fold (expire_one e et text c ok) rows (fst s, [], snd s) = (w, pj, out)"
    by (metis surj_pair)
  have "evolve (fst (fst s, [] :: (job_key, int) dict, snd s)) (fst (fold (expire_one e et text c ok) rows (fst s, [], snd s)))"
    by (rule fold_evolve [of fst "expire_one e et text c ok", OF evolve_expire_one]) (simp_all add: assms)
  then have "evolve (fst s) w" by (simp add: f)
  moreover have "ev_core (fold (\<lambda>(k, n) v. snd (audit a k [] 0 et text (Some n) e v)) pj w) = ev_core w"
    by (rule core_fold) (simp add: case_prod_unfold)
  then have "evolve (fst s) (fold (\<lambda>(k, n) v. snd (audit a k [] 0 et text (Some n) e v)) pj w) = evolve (fst s) w"
    by (rule evolve_core_right)
  ultimately show ?thesis by (simp add: expire_rows_def f)
qed

lemma evolve_tick_expire: "ev_inv (fst s) \<Longrightarrow> evolve (fst s) (fst (tick_expire e s))"
  by (simp add: tick_expire_def Let_def evolve_expire_rows)

lemma evolve_gate_module: "ev_inv (fst (snd s)) \<Longrightarrow> evolve (fst (snd s)) (fst (snd (gate_module e m s)))"
  using evolve_expire_rows [of "(fst (snd s), snd (snd s))"]
  by (auto simp: gate_module_def Let_def split: prod.splits module_status.splits)

lemma evolve_tick_module_gate: "ev_inv (fst s) \<Longrightarrow> evolve (fst s) (fst (tick_module_gate e s))"
  using fold_evolve [of "\<lambda>s. fst (snd s)", OF evolve_gate_module, of "(tick_row_limit, s)"]
  by (simp add: tick_module_gate_def Let_def)

lemma evolve_recover_one: "ev_inv (fst s) \<Longrightarrow> evolve (fst s) (fst (recover_one e r s))"
  by (simp add: recover_one_def evolve_finish_failure)

lemma evolve_tick_recover: "ev_inv (fst s) \<Longrightarrow> evolve (fst s) (fst (tick_recover_running e s))"
  unfolding tick_recover_running_def by (rule fold_evolve [of fst, OF evolve_recover_one])

lemma evolve_stamp:
  "evolve w (upd_row pk (\<lambda>x. if r_status x = Pending then x\<lparr>r_last_enqueued := t\<rparr> else x) w)"
  by (rule evolve_upd_row) (auto simp: evolves_def row_ok_def status_defs)

lemma evolve_enqueue_overdue: "evolve (fst s) (fst (enqueue_overdue e rs s))"
proof (induction rs arbitrary: s)
  case (Cons r rs)
  obtain ok w where q: "enqueue_row e r 0 (e_now e) (fst s) = (ok, w)" by (metis surj_pair)
  have w: "evolve (fst s) w" using evolve_right(4) [of "fst s" e r 0 "e_now e" "fst s"] q by simp
  show ?case
  proof (cases ok)
    case True
    let ?w = "upd_row (r_pk r) (\<lambda>x. if r_status x = Pending then x\<lparr>r_last_enqueued := Some (e_now e)\<rparr> else x) w"
    have "evolve (fst s) ?w" using w evolve_stamp evolve_trans by blast
    then show ?thesis
      using Cons.IH [of s] Cons.IH [of "(?w, out_add ''enqueued'' 1 (snd s))"] q True
      by (auto intro: evolve_trans)
  qed (use Cons.IH [of s] q w in auto)
qed simp

lemma evolve_tick_enqueue: "evolve (fst s) (fst (tick_enqueue_overdue e s))"
  by (simp add: tick_enqueue_overdue_def evolve_enqueue_overdue)

lemma evolve_trim_job: "ev_inv (fst (snd s)) \<Longrightarrow> evolve (fst (snd s)) (fst (snd (trim_job e k s)))"
  using evolve_expire_rows [of "(fst (snd s), snd (snd s))"]
  by (auto simp: trim_job_def Let_def split: prod.splits option.splits)

lemma evolve_tick_trim: "ev_inv (fst s) \<Longrightarrow> evolve (fst s) (fst (tick_trim e s))"
  using fold_evolve [of "\<lambda>s. fst (snd s)", OF evolve_trim_job, of "(tick_row_limit, s)"]
  by (simp add: tick_trim_def)

lemma core_tick_gauges [simp]: "ev_core (fst (tick_gauges e s)) = ev_core (fst s)"
  by (simp add: tick_gauges_def core_fold)

lemma core_fold_fst: "(\<And>x s. ev_core (fst (f x s)) = ev_core (fst s)) \<Longrightarrow> ev_core (fst (fold f xs s)) = ev_core (fst s)"
  by (induction xs arbitrary: s) auto

lemma core_tick_report_drops [simp]: "ev_core (fst (tick_report_drops e s)) = ev_core (fst s)"
  by (simp add: tick_report_drops_def Let_def core_fold_fst)

lemma core_tick_report_refusals [simp]: "ev_core (fst (tick_report_refusals e s)) = ev_core (fst s)"
  by (simp add: tick_report_refusals_def Let_def core_fold_fst)

lemma core_apply_refusal_counts [simp]: "ev_core (snd (apply_refusal_counts e entries w)) = ev_core w"
  using core_fold_fst [of "apply_refusal_entry e (known_jobs w)", OF core_apply_refusal_entry]
  by (auto simp: apply_refusal_counts_def split: pyval.splits prod.splits) (metis fst_conv)

text \<open>Pruning deletes finished rows only.\<close>

lemma distinct_map_key_filter: "distinct (map f (filter P xs)) \<Longrightarrow> distinct (map f (filter (\<lambda>x. Q x \<and> P x) xs))"
  by (induction xs) (auto split: if_splits)

lemma ev_inv_delete: "ev_inv w \<Longrightarrow> ev_inv (delete_rows pks w)"
  by (auto simp: ev_inv_def delete_rows_def distinct_map_filter distinct_map_key_filter)

lemma ev_inv_tick_prune: "ev_inv (fst s) \<Longrightarrow> ev_inv (fst (tick_prune e s))"
  by (simp add: tick_prune_def Let_def ev_inv_delete)

section \<open>Publishing\<close>

lemma ev_inv_persist:
  assumes "ev_inv w" and "spec_ok (d_spec d)"
  shows "ev_inv (snd (persist e d key payload w))"
proof -
  have ok: "row_ok (new_row n (d_spec d) key payload t)" for n t
    using assms(2) by (simp add: row_ok_def new_row_def spec_ok_def in_limits_def finished_status_def)
  have "row_key (new_row n (d_spec d) key payload t) = (sp_module_id (d_spec d), sp_id (d_spec d), key)" for n t
    by (simp add: row_key_def new_row_def)
  moreover have "r_pk (new_row n s key payload t) = n" for n s t by (simp add: new_row_def)
  ultimately show ?thesis using assms(1) ok
    by (fastforce simp: persist_def Let_def ev_inv_def active_key_taken_def list_ex_iff)
qed

lemma core_persist_next: "ev_inv w \<Longrightarrow> evolve w w' \<Longrightarrow> ev_inv w'"
  by (rule ev_inv_evolve)

lemma ev_inv_same_core: "ev_core w' = ev_core w \<Longrightarrow> ev_inv w \<Longrightarrow> ev_inv w'"
  using ev_inv_core by blast

lemma evolve_after_persist:
  assumes "persist e d key payload w = (res, w1)"
  shows "evolve w1 (snd (persist_safely e d key payload w))"
proof (cases res)
  case (Stored_Row r)
  define v where "v = (let w2 = count_job d N_Published w1; j = sp_id (d_spec d);
      w3 = w2\<lparr>w_gauges := timed_adjust backlog_gauge_seconds (e_mono e) j 1 (w_gauges w2)\<rparr>
    in case timed_age (e_mono e) j (w_gauges w3) of
         None \<Rightarrow> refresh_gauge e (def_key d) w3
       | Some a \<Rightarrow> if a > backlog_refresh_seconds then refresh_gauge e (def_key d) w3 else w3)"
  have v: "ev_core v = ev_core w1" by (auto simp: v_def Let_def split: option.splits)
  obtain ok w5 where q: "enqueue_row e r 0 (e_now e) v = (ok, w5)" by (metis surj_pair)
  have w5: "evolve w1 w5"
    using core_enqueue_row [of e r 0 "e_now e" v] q v by (intro evolve_core) simp
  have "snd (persist_safely e d key payload w) =
      flush_counters e False (if ok then w5 else mark_not_enqueued (r_pk r) w5)"
    using q assms Stored_Row by (cases ok) (auto simp: persist_safely_def v_def Let_def)
  then show ?thesis using w5 evolve_mark_not_enqueued evolve_trans by (cases ok) auto
qed (use assms in \<open>auto simp: persist_safely_def intro: evolve_core\<close>)

lemma ev_inv_persist_safely:
  assumes "ev_inv w" and "spec_ok (d_spec d)"
  shows "ev_inv (snd (persist_safely e d key payload w))"
proof -
  obtain res w1 where p: "persist e d key payload w = (res, w1)" by (metis surj_pair)
  have "ev_inv w1" using ev_inv_persist [OF assms] p by (metis snd_conv)
  then show ?thesis using evolve_after_persist [OF p] ev_inv_evolve by blast
qed

lemma ev_inv_admit:
  assumes "ev_inv w" and "spec_ok (d_spec d)"
  shows "ev_inv (snd (admit e d key payload w))"
proof -
  obtain ok rt where r: "rate_allow rate_per_minute (e_mono e) (sp_id (d_spec d)) (w_rate w) = (ok, rt)"
    by (metis surj_pair)
  define w1 where "w1 = w\<lparr>w_rate := rt\<rparr>"
  have w1: "ev_inv w1" by (rule ev_inv_same_core [OF _ assms(1)]) (simp add: w1_def)
  have "ev_inv (maybe_flush_drops e (count_job d N_Dropped w1))" by (rule ev_inv_same_core [OF _ w1]) simp
  moreover have "ev_inv (w1\<lparr>w_on_commit := w_on_commit w1 @ [(d, key, payload)]\<rparr>)"
    using w1 assms(2) by (auto simp: ev_inv_def)
  moreover have "ev_inv (snd (persist_safely e d key payload w1))" by (rule ev_inv_persist_safely [OF w1 assms(2)])
  ultimately show ?thesis by (auto simp: admit_def Let_def r w1_def split: prod.splits)
qed

lemma registered_spec_ok: "ev_inv w \<Longrightarrow> dget (w_jobs w) j = Some d \<Longrightarrow> spec_ok (d_spec d) \<and> sp_id (d_spec d) = j"
  by (force simp: ev_inv_def dest: map_of_SomeD)

lemma definition_for_ok: "ev_inv w \<Longrightarrow> definition_for j h w = Some d \<Longrightarrow> spec_ok (d_spec d)"
  using registered_spec_ok by (auto simp: definition_for_def split: if_splits)

lemma ev_inv_publish:
  assumes "ev_inv w"
  shows "ev_inv (snd (publish e job h key payload w))"
proof (cases "definition_for job h w")
  case (Some d)
  have sp: "spec_ok (d_spec d)" by (rule definition_for_ok [OF assms Some])
  obtain en w1 where m: "module_enabled_cached e (sp_module_id (d_spec d)) w = (en, w1)" by (metis surj_pair)
  obtain cv w2 where c: "verified_caller_ok e d w1 = (cv, w2)" by (metis surj_pair)
  have w1: "ev_inv w1"
    using core_enabled_cached [of e "sp_module_id (d_spec d)" w] m by (auto intro: ev_inv_same_core [OF _ assms])
  have w2: "ev_inv w2"
    using core_verified_caller [of e d w1] c by (auto intro: ev_inv_same_core [OF _ w1])
  have adm: "ev_inv (snd (admit e d k p (w2\<lparr>w_recent := rc\<rparr>)))" for k p rc
    by (rule ev_inv_admit [OF ev_inv_same_core [OF _ w2] sp]) simp
  have cnt: "ev_inv (count_job d N_Duplicate (w2\<lparr>w_recent := rc\<rparr>))" for rc
    by (rule ev_inv_same_core [OF _ w2]) simp
  show ?thesis
    using w1 w2 adm cnt
    by (auto simp: publish_def Some m c split: caller_verdict.splits sum.splits prod.splits bool.splits)
qed (simp add: publish_def assms)

lemma ev_inv_publish_for_core:
  "ev_inv w \<Longrightarrow> ev_inv (snd (publish_for_core e cc job m key payload w))"
  using ev_inv_admit registered_spec_ok
  by (auto simp: publish_for_core_def split: option.splits module_status.splits sum.splits)

lemma ev_inv_commit:
  assumes "ev_inv w"
  shows "ev_inv (commit e w)"
proof -
  have "ev_inv (fold (\<lambda>(d, key, payload) v. snd (persist_safely e d key payload v)) xs v)"
    if "ev_inv v" "\<forall>x \<in> set xs. spec_ok (d_spec (fst x))" for xs v
    using that by (induction xs arbitrary: v) (auto simp: ev_inv_persist_safely)
  moreover have "ev_inv (w\<lparr>w_on_commit := []\<rparr>)" "\<forall>x \<in> set (w_on_commit w). spec_ok (d_spec (fst x))"
    using assms by (auto simp: ev_inv_def)
  ultimately show ?thesis by (simp add: commit_def)
qed

lemma in_update: "x \<in> set (AList.update k v d) \<Longrightarrow> x = (k, v) \<or> x \<in> set d"
  by (induction d) (auto split: if_splits)

lemma ev_inv_add_job:
  assumes "ev_inv w" and "spec_ok (d_spec d)"
  shows "ev_inv (w\<lparr>w_jobs := AList.update (sp_id (d_spec d)) d (w_jobs w), w_handles := hs, w_next := Suc (w_next w)\<rparr>)"
  using assms by (auto simp: ev_inv_def less_Suc_eq dest!: in_update)

lemma ev_inv_register:
  assumes "ev_inv w" and "register_event_job e args h w = Inr (hnd, w')"
  shows "ev_inv w'"
proof -
  obtain spec where c: "clean_spec args = Inr spec" using assms(2)
    by (auto simp: register_event_job_def split: sum.splits)
  let ?d = "\<lparr>d_spec = spec, d_handler = h\<rparr>"
  show ?thesis
  proof (cases "registered_before ?d w")
    case None
    then show ?thesis
      using assms(2) ev_inv_add_job [OF assms(1), of ?d] clean_spec_ok [OF c]
      by (auto simp: register_event_job_def c Let_def)
  next
    case (Some r)
    then show ?thesis using assms by (auto simp: register_event_job_def c Let_def)
  qed
qed

section \<open>The machine of all operations\<close>

datatype tick_step = T_Expire | T_Module_Gate | T_Recover | T_Enqueue | T_Trim | T_Gauges | T_Drops | T_Refusals | T_Prune

fun tick_step_of :: "tick_step \<Rightarrow> ev_env \<Rightarrow> ev_world \<times> tick_out \<Rightarrow> ev_world \<times> tick_out" where
  "tick_step_of T_Expire = tick_expire"
| "tick_step_of T_Module_Gate = tick_module_gate"
| "tick_step_of T_Recover = tick_recover_running"
| "tick_step_of T_Enqueue = tick_enqueue_overdue"
| "tick_step_of T_Trim = tick_trim"
| "tick_step_of T_Gauges = tick_gauges"
| "tick_step_of T_Drops = tick_report_drops"
| "tick_step_of T_Refusals = tick_report_refusals"
| "tick_step_of T_Prune = tick_prune"

text \<open>The transactions the processes interleave: a worker's task is its claim and, after any other steps, one of
  its finishes; the steps of a tick may be separated; a process may restart and lose its memory.\<close>

datatype ev_event =
    Ev_Register ev_env spec_args handler_ref
  | Ev_Publish ev_env string nat pyval pyval
  | Ev_Core_Publish ev_env bool string string pyval pyval
  | Ev_Commit ev_env
  | Ev_Rollback
  | Ev_Claim ev_env string nat
  | Ev_Success ev_env nat pyval bool
  | Ev_Failure ev_env nat handler_exn "snapshot option"
  | Ev_Gauge ev_env job_key
  | Ev_Refusals ev_env pyval
  | Ev_Tick ev_env tick_step
  | Ev_Restart

datatype ev_error = Refused reg_error | Raised py_exn

definition restart :: "ev_world \<Rightarrow> ev_world" where
  "restart w = w\<lparr>w_jobs := [], w_handles := [], w_recent := [], w_rate := [], w_breaker := None, w_gauges := [],
     w_enabled := [], w_counters := [], w_last_flush := 0, w_refusals := [], w_last_refusal_flush := None,
     w_on_commit := []\<rparr>"

fun ev_step :: "ev_event \<Rightarrow> ev_world \<Rightarrow> ev_error + ev_world" where
  "ev_step (Ev_Register e a h) w =
     (case register_event_job e a h w of Inl x \<Rightarrow> Inl (Refused x) | Inr (hnd, w') \<Rightarrow> Inr w')"
| "ev_step (Ev_Publish e j h k p) w = Inr (snd (publish e j h k p w))"
| "ev_step (Ev_Core_Publish e cc j m k p) w = Inr (snd (publish_for_core e cc j m k p w))"
| "ev_step (Ev_Commit e) w = Inr (commit e w)"
| "ev_step Ev_Rollback w = Inr (rollback w)"
| "ev_step (Ev_Claim e t pk) w = Inr (snd (claim e t pk w))"
| "ev_step (Ev_Success e pk v a) w =
     (case finish_success e pk v a w of Inl x \<Rightarrow> Inl (Raised x) | Inr (res, w') \<Rightarrow> Inr w')"
| "ev_step (Ev_Failure e pk x sp) w = Inr (snd (finish_failure e pk x sp w))"
| "ev_step (Ev_Gauge e k) w = Inr (refresh_gauge e k w)"
| "ev_step (Ev_Refusals e es) w = Inr (snd (apply_refusal_counts e es w))"
| "ev_step (Ev_Tick e t) w = Inr (fst (tick_step_of t e (w, tick_out_zero)))"
| "ev_step Ev_Restart w = Inr (restart w)"

fun ev_run :: "ev_event list \<Rightarrow> ev_world \<Rightarrow> ev_world" where
  "ev_run [] w = w"
| "ev_run (i # is) w = (case ev_step i w of Inl _ \<Rightarrow> ev_run is w | Inr w' \<Rightarrow> ev_run is w')"

definition ev_world0 :: ev_world where
  "ev_world0 = \<lparr>w_rows = [], w_stats = [], w_jobs = [], w_handles = [], w_next = 0, w_recent = [], w_rate = [],
     w_breaker = None, w_gauges = [], w_enabled = [], w_counters = [], w_last_flush = 0, w_refusals = [],
     w_last_refusal_flush = None, w_on_commit = [], w_sent = [], w_refusal_sent = [], w_audit = [], w_cache = []\<rparr>"

lemma evolve_tick_step:
  assumes "ev_inv (fst s)" and "t \<noteq> T_Prune"
  shows "evolve (fst s) (fst (tick_step_of t e s))"
  using assms
  by (cases t) (simp_all add: evolve_tick_expire evolve_tick_module_gate evolve_tick_recover evolve_tick_enqueue
      evolve_tick_trim evolve_core)

lemma ev_inv_tick_step: "ev_inv (fst s) \<Longrightarrow> ev_inv (fst (tick_step_of t e s))"
  using evolve_tick_step [of s t e] ev_inv_evolve ev_inv_tick_prune by (cases "t = T_Prune") auto

lemma ev_inv_step:
  assumes "ev_inv w" and "ev_step i w = Inr w'"
  shows "ev_inv w'"
proof (cases i)
  case (Ev_Register e a h)
  then show ?thesis using assms ev_inv_register by (auto split: sum.splits)
next
  case (Ev_Success e pk v a)
  then show ?thesis using assms evolve_finish_success ev_inv_evolve by (fastforce split: sum.splits)
next
  case (Ev_Tick e t)
  then show ?thesis using assms ev_inv_tick_step [of "(w, tick_out_zero)"] by auto
next
  case (Ev_Refusals e es)
  then show ?thesis using assms ev_inv_same_core [OF core_apply_refusal_counts] by auto
next
  case (Ev_Gauge e k)
  then show ?thesis using assms ev_inv_same_core [OF core_refresh_gauge, of w e k] by auto
next
  case Ev_Restart
  then show ?thesis using assms by (auto simp: restart_def ev_inv_def)
next
  case Ev_Rollback
  then show ?thesis using assms by (auto simp: rollback_def ev_inv_def)
next
  case (Ev_Claim e t pk)
  then show ?thesis using assms evolve_claim ev_inv_evolve by auto
next
  case (Ev_Failure e pk x sp)
  then show ?thesis using assms evolve_finish_failure ev_inv_evolve by auto
qed (use assms ev_inv_publish ev_inv_publish_for_core ev_inv_commit in auto)

interpretation evm: guarded_machine ev_step ev_inv
  by unfold_locales (rule ev_inv_step)

lemma ev_run_machine: "ev_run is w = evm.run is w"
  by (induction "is" arbitrary: w) (auto split: sum.splits)

lemma ev_inv_world0: "ev_inv ev_world0"
  by (simp add: ev_world0_def ev_inv_def)

lemma ev_inv_run: "ev_inv w \<Longrightarrow> ev_inv (ev_run is w)"
  by (simp add: ev_run_machine evm.run_inv)

text \<open>(C1) Whatever sequence of registrations, publishes, commits, roll backs, worker claims and finishes, tick
  steps and restarts runs, in any order: one (module, job, key) is pending or running at most once, no row
  ever uses more attempts than its registered maximum (at most 10), a pending row always has an attempt left, a
  running row has started, and a finished row has its finish time.\<close>

theorem event_job_table_invariant:
  "distinct (map r_pk (w_rows (ev_run steps ev_world0))) \<and>
   distinct (map row_key (filter active_row (w_rows (ev_run steps ev_world0)))) \<and>
   (\<forall>r \<in> set (w_rows (ev_run steps ev_world0)). r_attempt r \<le> r_max_attempts r \<and> r_max_attempts r \<le> 10 \<and>
      (r_status r = Pending \<longrightarrow> r_attempt r < r_max_attempts r) \<and>
      (r_status r = Running \<longrightarrow> 1 \<le> r_attempt r \<and> r_started r \<noteq> None) \<and>
      (finished_status (r_status r) \<longrightarrow> r_finished r \<noteq> None))"
  using ev_inv_run [OF ev_inv_world0, of steps] by (auto simp: ev_inv_def row_ok_def)

text \<open>A small installation: one enabled extension, its registration, a publish and the worker's claim.\<close>

definition sample_env :: "moment \<Rightarrow> rat \<Rightarrow> ev_env" where
  "sample_env now clk = \<lparr>e_now = now, e_mono = clk, e_wall = 7200,
     e_plugins = Some [\<lparr>pl_id = ''alerts'', pl_type = ''extension'', pl_legacy = False, pl_root = ''/m/alerts''\<rparr>],
     e_state = \<lparr>ms_file = File_Missing, ms_lock = Lock_Present, ms_disk_ok = True, ms_cache_epoch = 0\<rparr>,
     e_caller = Caller_Is (Some ''alerts'') False, e_broker = True, e_atomic = False, e_rand = 1 / 2,
     e_audit = True, e_cache = True, e_retention = 90, e_norm = (\<lambda>p. p)\<rparr>"

definition sample_handler :: handler_ref where
  "sample_handler = \<lparr>h_id = 7, h_callable = True, h_code_file = Some ''/m/alerts/jobs.py''\<rparr>"

definition sample_steps :: "ev_event list" where
  "sample_steps =
     [Ev_Register (sample_env 0 0) sample_args sample_handler,
      Ev_Publish (sample_env 1000000 1) ''alerts.deliver'' 0 (PStr ''alert:1'') (PDict [(''alert_id'', PInt 1)]),
      Ev_Publish (sample_env 9000000 9) ''alerts.deliver'' 0 (PStr ''alert:1'') PNone,
      Ev_Claim (sample_env 10000000 10) ''task'' 1]"

lemma sample_run: "map (\<lambda>r. (r_pk r, r_key r, r_status r, r_attempt r)) (w_rows (ev_run sample_steps ev_world0)) =
   [(1, ''alert:1'', Running, 1)]"
  by code_simp

theorem event_job_table_invariant_witness:
  "\<exists>r. w_rows (ev_run sample_steps ev_world0) = [r] \<and> r_attempt r \<le> r_max_attempts r"
proof -
  have "length (map (\<lambda>r. (r_pk r, r_key r, r_status r, r_attempt r)) (w_rows (ev_run sample_steps ev_world0))) = 1"
    unfolding sample_run by simp
  then obtain r where "w_rows (ev_run sample_steps ev_world0) = [r]" by (auto simp: length_Suc_conv)
  then show ?thesis using event_job_table_invariant [of sample_steps] by simp
qed

end
