(* ===== verification/Event_Jobs_Guarantees.thy ===== *)
theory Event_Jobs_Guarantees
  imports Event_Jobs_Safety
begin

text \<open>
  What event jobs promise their users: a finished job stays as it finished, a duplicate delivery runs nothing,
  a handler runs only for a runnable module and a job that is due, a foreign publisher stores nothing, and a row
  whose broker message was lost is sent again by the next tick.
\<close>

section \<open>Finished rows are frozen\<close>

definition keeps :: "ev_world \<Rightarrow> ev_world \<Rightarrow> bool" where
  "keeps w w' = (w_next w \<le> w_next w' \<and>
     (\<forall>r \<in> set (w_rows w). finished_status (r_status r) \<longrightarrow> r \<in> set (w_rows w') \<or> r_pk r \<notin> r_pk ` set (w_rows w')) \<and>
     (\<forall>pk < w_next w. pk \<in> r_pk ` set (w_rows w') \<longrightarrow> pk \<in> r_pk ` set (w_rows w)))"

lemma keeps_refl [simp]: "keeps w w"
  by (simp add: keeps_def)

lemma keeps_trans:
  assumes "ev_inv u" and "keeps u v" and "keeps v w"
  shows "keeps u w"
proof -
  have lt: "r_pk r < w_next u" if "r \<in> set (w_rows u)" for r using assms(1) that by (simp add: ev_inv_def)
  have "r \<in> set (w_rows w) \<or> r_pk r \<notin> r_pk ` set (w_rows w)"
    if r: "r \<in> set (w_rows u)" "finished_status (r_status r)" for r
  proof (cases "r \<in> set (w_rows v)")
    case True
    then show ?thesis using assms(3) r by (simp add: keeps_def)
  next
    case False
    then have "r_pk r \<notin> r_pk ` set (w_rows v)" using assms(2) r unfolding keeps_def by blast
    moreover have "r_pk r < w_next v" using lt [OF r(1)] assms(2) by (simp add: keeps_def)
    ultimately show ?thesis using assms(3) unfolding keeps_def by blast
  qed
  moreover have "pk \<in> r_pk ` set (w_rows u)" if "pk < w_next u" "pk \<in> r_pk ` set (w_rows w)" for pk
    using that assms(2,3) unfolding keeps_def by (meson order_less_le_trans)
  ultimately show ?thesis using assms(2,3) unfolding keeps_def by (meson order_trans)
qed

lemma evolves_pk_set: "list_all2 evolves rs rs' \<Longrightarrow> r_pk ` set rs' = r_pk ` set rs"
  by (metis evolves_map_pk set_map)

lemma keeps_evolve: "evolve w w' \<Longrightarrow> keeps w w'"
  unfolding evolve_def keeps_def using evolves_frozen evolves_pk_set by (metis order_refl)

lemma keeps_core: "ev_core w' = ev_core w \<Longrightarrow> keeps w w'"
  by (rule keeps_evolve [OF evolve_core])

lemma keeps_rows: "w_rows w' = w_rows w \<Longrightarrow> w_next w \<le> w_next w' \<Longrightarrow> keeps w w'"
  by (simp add: keeps_def)

lemma keeps_delete: "keeps w (delete_rows pks w)"
  by (auto simp: keeps_def delete_rows_def)

lemma keeps_persist: "ev_inv w \<Longrightarrow> keeps w (snd (persist e d key payload w))"
  by (auto simp: persist_def Let_def keeps_def new_row_def)

lemma keeps_persist_safely:
  assumes "ev_inv w"
  shows "keeps w (snd (persist_safely e d key payload w))"
proof -
  obtain res w1 where p: "persist e d key payload w = (res, w1)" by (metis surj_pair)
  then have "keeps w w1" using keeps_persist [OF assms] by (metis snd_conv)
  then show ?thesis using keeps_trans [OF assms] keeps_evolve [OF evolve_after_persist [OF p]] by blast
qed

lemma keeps_admit:
  assumes "ev_inv w"
  shows "keeps w (snd (admit e d key payload w))"
proof -
  have "keeps w (snd (persist_safely e d key payload (w\<lparr>w_rate := rt\<rparr>)))" for rt
  proof -
    have "ev_inv (w\<lparr>w_rate := rt\<rparr>)" by (rule ev_inv_same_core [OF _ assms]) simp
    from keeps_persist_safely [OF this] show ?thesis by (simp add: keeps_def)
  qed
  moreover have "keeps w (maybe_flush_drops e (count_job d N_Dropped (w\<lparr>w_rate := rt\<rparr>)))" for rt
    by (rule keeps_core) simp
  moreover have "keeps w (w\<lparr>w_rate := rt, w_on_commit := oc\<rparr>)" for rt oc by (rule keeps_rows) simp_all
  ultimately show ?thesis by (simp add: admit_def Let_def case_prod_unfold)
qed

lemma keeps_admit_from:
  assumes "ev_inv w" and "ev_core v = ev_core w"
  shows "keeps w (snd (admit e d key payload v))"
proof -
  have "ev_inv v" by (rule ev_inv_same_core [OF assms(2,1)])
  from keeps_admit [OF this] assms(2) show ?thesis by (simp add: keeps_def ev_core_def)
qed

lemma keeps_publish:
  assumes "ev_inv w"
  shows "keeps w (snd (publish e job h key payload w))"
proof (cases "definition_for job h w")
  case (Some d)
  obtain en w1 where m: "module_enabled_cached e (sp_module_id (d_spec d)) w = (en, w1)" by (metis surj_pair)
  obtain cv w2 where c: "verified_caller_ok e d w1 = (cv, w2)" by (metis surj_pair)
  have w1: "ev_core w1 = ev_core w" using core_enabled_cached [of e "sp_module_id (d_spec d)" w] m by simp
  have w2: "ev_core w2 = ev_core w" using core_verified_caller [of e d w1] c w1 by simp
  have adm: "keeps w (snd (admit e d k p (w2\<lparr>w_recent := rc\<rparr>)))" for k p rc
    by (rule keeps_admit_from [OF assms]) (simp add: w2)
  have cnt: "keeps w (count_job d N_Duplicate (w2\<lparr>w_recent := rc\<rparr>))" for rc
    by (rule keeps_core) (simp add: w2)
  show ?thesis
    using keeps_core [OF w1] keeps_core [OF w2] adm cnt
    by (auto simp: publish_def Some m c split: caller_verdict.splits sum.splits prod.splits bool.splits)
qed (simp add: publish_def)

lemma keeps_publish_for_core: "ev_inv w \<Longrightarrow> keeps w (snd (publish_for_core e cc job m key payload w))"
  using keeps_admit by (auto simp: publish_for_core_def split: option.splits module_status.splits sum.splits)

lemma keeps_commit:
  assumes "ev_inv w"
  shows "keeps w (commit e w)"
proof -
  have "keeps v (fold (\<lambda>(d, key, payload) v. snd (persist_safely e d key payload v)) xs v)"
    if "ev_inv v" "\<forall>x \<in> set xs. spec_ok (d_spec (fst x))" for xs v
    using that
  proof (induction xs arbitrary: v)
    case (Cons x xs)
    obtain d k p where x: "x = (d, k, p)" by (metis surj_pair)
    let ?v = "snd (persist_safely e d k p v)"
    have "ev_inv ?v" using Cons.prems x by (simp add: ev_inv_persist_safely)
    then have "keeps ?v (fold (\<lambda>(d, key, payload) v. snd (persist_safely e d key payload v)) xs ?v)"
      using Cons.IH Cons.prems by simp
    then show ?case using keeps_trans [OF Cons.prems(1) keeps_persist_safely [OF Cons.prems(1)]] x by simp
  qed simp
  moreover have "ev_inv (w\<lparr>w_on_commit := []\<rparr>)" "\<forall>x \<in> set (w_on_commit w). spec_ok (d_spec (fst x))"
    using assms by (auto simp: ev_inv_def)
  ultimately have "keeps (w\<lparr>w_on_commit := []\<rparr>) (commit e w)" by (simp add: commit_def)
  then show ?thesis by (simp add: keeps_def)
qed

lemma keeps_register: "register_event_job e a h w = Inr (hnd, w') \<Longrightarrow> keeps w w'"
  by (auto simp: register_event_job_def Let_def intro!: keeps_rows split: sum.splits option.splits)

lemma keeps_tick_prune:
  assumes "ev_inv (fst s)"
  shows "keeps (fst s) (fst (tick_prune e s))"
proof -
  have "keeps (fst s) (delete_rows a (delete_rows b (fst s)))" for a b
    by (rule keeps_trans [OF assms keeps_delete keeps_delete])
  then show ?thesis by (simp add: tick_prune_def Let_def keeps_delete)
qed

lemma keeps_step:
  assumes "ev_inv w" and "ev_step i w = Inr w'"
  shows "keeps w w'"
proof (cases i)
  case (Ev_Register e a h)
  then show ?thesis using assms keeps_register by (auto split: sum.splits)
next
  case (Ev_Success e pk v a)
  then show ?thesis using assms evolve_finish_success keeps_evolve by (fastforce split: sum.splits)
next
  case (Ev_Tick e t)
  then show ?thesis
    using assms keeps_tick_prune [of "(w, tick_out_zero)" e] keeps_evolve evolve_tick_step [of "(w, tick_out_zero)" t e]
    by (cases "t = T_Prune") auto
next
  case (Ev_Refusals e es)
  then show ?thesis using assms keeps_core [OF core_apply_refusal_counts] by auto
next
  case (Ev_Gauge e k)
  then show ?thesis using assms keeps_core [OF core_refresh_gauge, of w e k] by auto
next
  case Ev_Restart
  then show ?thesis using assms by (auto simp: restart_def intro: keeps_rows)
next
  case Ev_Rollback
  then show ?thesis using assms by (auto simp: rollback_def intro: keeps_rows)
next
  case (Ev_Claim e t pk)
  then show ?thesis using assms evolve_claim keeps_evolve by auto
next
  case (Ev_Failure e pk x sp)
  then show ?thesis using assms evolve_finish_failure keeps_evolve by auto
qed (use assms keeps_publish keeps_publish_for_core keeps_commit in auto)

lemma keeps_run: "ev_inv w \<Longrightarrow> keeps w (ev_run is w)"
proof (induction "is" arbitrary: w)
  case (Cons i "is")
  show ?case
  proof (cases "ev_step i w")
    case (Inr w')
    then show ?thesis
      using Cons.IH [OF ev_inv_step [OF Cons.prems Inr]] keeps_trans [OF Cons.prems keeps_step [OF Cons.prems Inr]]
      by simp
  qed (use Cons in simp)
qed simp

lemma ev_run_append: "ev_run (a @ b) w = ev_run b (ev_run a w)"
  by (simp add: ev_run_machine evm.run_append)

text \<open>(C31) A job's outcome is final: once a history has left a row succeeded, failed, skipped or expired, every
  longer history still holds exactly that row, or pruned it; it never comes back under the same id.\<close>

theorem finished_jobs_never_change:
  assumes "r \<in> set (w_rows (ev_run before_steps ev_world0))" and "finished_status (r_status r)"
  shows "r \<in> set (w_rows (ev_run (before_steps @ later_steps) ev_world0))
     \<or> r_pk r \<notin> r_pk ` set (w_rows (ev_run (before_steps @ later_steps) ev_world0))"
  using keeps_run [OF ev_inv_run [OF ev_inv_world0], of before_steps later_steps] assms
  by (simp add: ev_run_append keeps_def)

definition sample_done :: "ev_event list" where
  "sample_done = sample_steps @ [Ev_Success (sample_env 12000000 12) 1 PNone False]"

definition row_summary :: "ev_row \<Rightarrow> nat \<times> job_status \<times> int" where
  "row_summary r = (r_pk r, r_status r, r_attempt r)"

lemma sample_done_rows: "map row_summary (w_rows (ev_run sample_done ev_world0)) = [(1, Succeeded, 1)]"
  by code_simp

theorem finished_jobs_never_change_witness:
  "\<exists>r \<in> set (w_rows (ev_run sample_done ev_world0)). r_status r = Succeeded \<and>
     (r \<in> set (w_rows (ev_run (sample_done @ [Ev_Claim (sample_env 13000000 13) ''again'' 1]) ev_world0)) \<or>
      r_pk r \<notin> r_pk ` set (w_rows (ev_run (sample_done @ [Ev_Claim (sample_env 13000000 13) ''again'' 1]) ev_world0)))"
proof -
  obtain r where r: "r \<in> set (w_rows (ev_run sample_done ev_world0))" "row_summary r = (1, Succeeded, 1)"
    using sample_done_rows by (metis list.set_intros(1) map_eq_Cons_D)
  then have "r_status r = Succeeded" "finished_status (r_status r)" by (simp_all add: row_summary_def finished_status_def)
  then show ?thesis using finished_jobs_never_change [OF r(1)] r(1) by blast
qed

section \<open>The worker's claim\<close>

lemma find_map_set:
  "find (\<lambda>r. r_pk r = pk) rs = Some r \<Longrightarrow> r_pk r' = pk \<Longrightarrow>
     find (\<lambda>r. r_pk r = pk) (map (\<lambda>r. if r_pk r = pk then r' else r) rs) = Some r'"
  by (induction rs) (auto split: if_splits)

lemma find_upd_row:
  assumes "find_row pk w = Some r" and "r_pk r' = pk"
  shows "find_row pk (upd_row pk (\<lambda>_. r') w) = Some r'"
  using assms find_map_set [of pk "w_rows w" r r'] by (simp add: find_row_def upd_row_def)

lemma claim_claimed:
  assumes "claim e task pk w = (Job_Claimed r' d, w')"
  shows "\<exists>r. find_row pk w = Some r \<and> r_status r = Pending \<and> verdict_for e r w = None \<and>
     module_status_now e (r_module r) \<noteq> Unknown \<and> dget (w_jobs w) (r_job r) = Some d \<and>
     r' = start_row (e_now e) task r \<and> w' = upd_row pk (\<lambda>_. r') w \<and>
     (\<forall>t. r_next_attempt r = Some t \<longrightarrow> t \<le> e_now e + secs 5)"
  using assms by (auto simp: claim_def Let_def split: option.splits if_splits)

text \<open>Without a verdict and with a readable module the job is registered, so the claim never ends in the branch
  that has no handler.\<close>

lemma claim_cases:
  assumes "verdict_for e r w = None" and "module_status_now e (r_module r) \<noteq> Unknown"
  shows "module_status_now e (r_module r) = Runnable \<and> e_now e < r_expires r \<and>
     (\<exists>d. dget (w_jobs w) (r_job r) = Some d \<and> sp_module_id (d_spec d) = r_module r)"
  using assms
  by (auto simp: verdict_for_def has_registered_event_job_def is_expired_def split: if_splits module_status.splits option.splits)

text \<open>A handler is called only for a row that was pending, due, not expired, whose module is runnable at that moment
  and whose job that same module registered in this worker; the claim counts one attempt. Any further delivery of
  the same message finds the row running, calls nothing and changes nothing.\<close>

theorem claim_runs_once:
  assumes "claim e task pk w = (Job_Claimed r' d, w')"
  shows "(\<exists>r. find_row pk w = Some r \<and> r_status r = Pending \<and> e_now e < r_expires r \<and>
        module_status_now e (r_module r) = Runnable \<and> sp_module_id (d_spec d) = r_module r \<and>
        r_attempt r' = r_attempt r + 1)
     \<and> r_status r' = Running \<and> find_row pk w' = Some r'
     \<and> claim e2 task2 pk w' = (Job_Already Running, w')"
proof -
  from claim_claimed [OF assms] obtain r where r: "find_row pk w = Some r" "r_status r = Pending"
    "verdict_for e r w = None" "module_status_now e (r_module r) \<noteq> Unknown"
    "dget (w_jobs w) (r_job r) = Some d" "r' = start_row (e_now e) task r" "w' = upd_row pk (\<lambda>_. r') w"
    by blast
  have "r_pk r' = pk" using find_row_Some [OF r(1)] r(6) by (simp add: start_row_def)
  then have f: "find_row pk w' = Some r'" using find_upd_row [OF r(1)] r(7) by simp
  moreover have "r_status r' = Running" "r_attempt r' = r_attempt r + 1" using r(6) by (simp_all add: start_row_def)
  ultimately show ?thesis using r claim_cases [OF r(3,4)] by (auto simp: claim_def)
qed

definition sample_world :: ev_world where
  "sample_world = ev_run (take 2 sample_steps) ev_world0"

fun claimed :: "claim_result \<Rightarrow> bool" where
  "claimed (Job_Claimed r d) = True"
| "claimed _ = False"

lemma sample_claim: "claimed (fst (claim (sample_env 10000000 10) ''task'' 1 sample_world))"
  by code_simp

theorem claim_runs_once_witness:
  "claim (sample_env 11000000 11) ''dup'' 1 (snd (claim (sample_env 10000000 10) ''task'' 1 sample_world)) =
     (Job_Already Running, snd (claim (sample_env 10000000 10) ''task'' 1 sample_world))"
proof -
  obtain r d w' where c: "claim (sample_env 10000000 10) ''task'' 1 sample_world = (Job_Claimed r d, w')"
    using sample_claim by (metis claimed.elims(2) prod.collapse)
  show ?thesis using claim_runs_once [OF c] c by simp
qed

section \<open>Publishing for another module\<close>

text \<open>Only the owning module publishes: when the caller check names another module or nobody, or cannot be
  made, the answer is an error or disabled, and no row is stored, none is scheduled for the commit, and no counter, rate
  window, duplicate memory or statistic changes.\<close>

theorem foreign_publish_stores_nothing:
  assumes "definition_for job h w = Some d"
    and "e_caller e \<noteq> Caller_Is (Some (sp_module_id (d_spec d))) True"
    and "e_caller e \<noteq> Caller_Is (Some (sp_module_id (d_spec d))) False"
    and "publish e job h key payload w = ((out, why), w')"
  shows "out \<in> {Publish_Error, Disabled} \<and> w_rows w' = w_rows w \<and> w_on_commit w' = w_on_commit w \<and>
    w_counters w' = w_counters w \<and> w_rate w' = w_rate w \<and> w_recent w' = w_recent w \<and> w_stats w' = w_stats w \<and>
    w_sent w' = w_sent w"
proof -
  let ?same = "\<lambda>w w'. w_rows w' = w_rows w \<and> w_on_commit w' = w_on_commit w \<and> w_counters w' = w_counters w \<and>
    w_rate w' = w_rate w \<and> w_recent w' = w_recent w \<and> w_stats w' = w_stats w \<and> w_sent w' = w_sent w"
  have send: "?same v (snd (send_refusals e es v))" for es v
    by (simp add: send_refusals_def split: prod.splits)
  have flush: "?same v (snd (flush_refusals e v))" for v
  proof -
    have "?same v w2" if "send_refusals e es (v\<lparr>w_last_refusal_flush := a, w_refusals := b\<rparr>) = (ok, w2)" for es a b ok w2
      using send [of es "v\<lparr>w_last_refusal_flush := a, w_refusals := b\<rparr>"] that by simp
    then show ?thesis by (auto simp: flush_refusals_def Let_def split: prod.splits bool.splits)
  qed
  have noted: "?same v (note_refusal e d v)" for v
    using flush [of "v\<lparr>w_refusals := x\<rparr>" for x] by (simp add: note_refusal_def Let_def)
  have caller: "?same v (snd (verified_caller_ok e d v)) \<and> fst (verified_caller_ok e d v) \<noteq> Caller_Ok" for v
    using assms(2,3) noted [of v] by (auto simp: verified_caller_ok_def split: caller_answer.splits)
  have en: "?same w (snd (module_enabled_cached e (sp_module_id (d_spec d)) w))"
    by (auto simp: module_enabled_cached_def Let_def split: option.splits)
  show ?thesis
    using assms(4) en caller [of "snd (module_enabled_cached e (sp_module_id (d_spec d)) w)"]
    by (auto simp: publish_def assms(1) split: prod.splits if_splits caller_verdict.splits)
qed

definition foreign_env :: ev_env where
  "foreign_env = (sample_env 20000000 20)\<lparr>e_caller := Caller_Is (Some ''other'') False\<rparr>"

lemma sample_definition: "\<exists>d. definition_for ''alerts.deliver'' 0 sample_world = Some d \<and> sp_module_id (d_spec d) = ''alerts''"
proof -
  have "map_option (\<lambda>d. sp_module_id (d_spec d)) (definition_for ''alerts.deliver'' 0 sample_world) = Some ''alerts''"
    by code_simp
  then show ?thesis by auto
qed

theorem foreign_publish_stores_nothing_witness:
  "w_rows (snd (publish foreign_env ''alerts.deliver'' 0 (PStr ''k'') PNone sample_world)) = w_rows sample_world"
proof -
  obtain d where d: "definition_for ''alerts.deliver'' 0 sample_world = Some d" "sp_module_id (d_spec d) = ''alerts''"
    using sample_definition by blast
  obtain out why w' where p: "publish foreign_env ''alerts.deliver'' 0 (PStr ''k'') PNone sample_world = ((out, why), w')"
    by (metis surj_pair)
  have "e_caller foreign_env = Caller_Is (Some ''other'') False" by (simp add: foreign_env_def)
  then show ?thesis using foreign_publish_stores_nothing [OF d(1) _ _ p] by (simp add: d(2) p)
qed

section \<open>Lost messages\<close>

definition has_pending :: "ev_world \<Rightarrow> nat \<Rightarrow> bool" where
  "has_pending w pk = (\<exists>x \<in> set (w_rows w). r_pk x = pk \<and> r_status x = Pending)"

definition stamped :: "moment \<Rightarrow> ev_world \<Rightarrow> nat \<Rightarrow> bool" where
  "stamped now w pk = (\<exists>x \<in> set (w_rows w). r_pk x = pk \<and> r_status x = Pending \<and> r_last_enqueued x = Some now)"

definition sent_for :: "ev_world \<Rightarrow> nat \<Rightarrow> bool" where
  "sent_for w pk = (pk \<in> m_pk ` set (w_sent w))"

definition stamp :: "moment \<Rightarrow> nat \<Rightarrow> ev_world \<Rightarrow> ev_world" where
  "stamp now pk w = upd_row pk (\<lambda>x. if r_status x = Pending then x\<lparr>r_last_enqueued := Some now\<rparr> else x) w"

definition stamp_row :: "moment \<Rightarrow> nat \<Rightarrow> ev_row \<Rightarrow> ev_row" where
  "stamp_row now pk x = (if r_pk x = pk \<and> r_status x = Pending then x\<lparr>r_last_enqueued := Some now\<rparr> else x)"

lemma stamp_row_facts [simp]:
  "r_pk (stamp_row now pk x) = r_pk x" "r_status (stamp_row now pk x) = r_status x"
  "r_last_enqueued (stamp_row now pk x) =
     (if r_pk x = pk \<and> r_status x = Pending then Some now else r_last_enqueued x)"
  by (simp_all add: stamp_row_def)

lemma stamp_rows: "w_rows (stamp now pk w) = map (stamp_row now pk) (w_rows w)"
  by (auto simp: stamp_def upd_row_def stamp_row_def)

lemma stamp_stamped: "stamped now w p \<Longrightarrow> stamped now (stamp now pk w) p"
  by (auto simp: stamped_def stamp_rows)

lemma stamp_has_pending: "has_pending w p \<Longrightarrow> has_pending (stamp now pk w) p"
  by (auto simp: has_pending_def stamp_rows)

lemma stamp_pending: "has_pending w pk \<Longrightarrow> stamped now (stamp now pk w) pk"
  by (auto simp: has_pending_def stamped_def stamp_rows)

lemma stamp_frame: "sent_for (stamp now pk w) p = sent_for w p" "w_breaker (stamp now pk w) = w_breaker w"
  by (simp_all add: stamp_def upd_row_def sent_for_def)

lemmas stamp_facts = stamp_stamped stamp_has_pending stamp_pending stamp_frame

lemma enqueue_row_rows [simp]: "w_rows (snd (enqueue_row e r c now w)) = w_rows w"
  using core_enqueue_row [of e r c now w] by (simp add: ev_core_def)

lemma enqueue_row_sends:
  assumes "e_broker e" and "fst (breaker_allow (e_mono e) (w_breaker w))" and "secs 1 < r_expires r - now"
  shows "fst (enqueue_row e r c now w) \<and> sent_for (snd (enqueue_row e r c now w)) (r_pk r) \<and>
     w_breaker (snd (enqueue_row e r c now w)) = None"
  using assms by (auto simp: enqueue_row_def Let_def sent_for_def breaker_success_def split: prod.splits)

lemma enqueue_row_sent_mono: "sent_for w p \<Longrightarrow> sent_for (snd (enqueue_row e r c now w)) p"
  by (auto simp: enqueue_row_def Let_def sent_for_def split: prod.splits)

lemma enqueue_overdue_Cons:
  "enqueue_overdue e (r # rs) s =
     (if \<not> is_overdue_pending (e_now e) (r_last_enqueued r) (r_next_attempt r) then enqueue_overdue e rs s
      else if fst (enqueue_row e r 0 (e_now e) (fst s))
      then enqueue_overdue e rs (stamp (e_now e) (r_pk r) (snd (enqueue_row e r 0 (e_now e) (fst s))), out_add ''enqueued'' 1 (snd s))
      else (snd (enqueue_row e r 0 (e_now e) (fst s)), snd s))"
  by (simp add: stamp_def split: prod.splits bool.splits)

lemma enqueue_overdue_mono:
  "stamped (e_now e) (fst s) p \<Longrightarrow> sent_for (fst s) p \<Longrightarrow>
     stamped (e_now e) (fst (enqueue_overdue e rs s)) p \<and> sent_for (fst (enqueue_overdue e rs s)) p"
proof (induction rs arbitrary: s)
  case (Cons r rs)
  let ?w = "snd (enqueue_row e r 0 (e_now e) (fst s))"
  have "stamped (e_now e) ?w p" "sent_for ?w p" using Cons.prems by (auto simp: stamped_def enqueue_row_sent_mono)
  then show ?case
    using Cons.IH [of s] Cons.IH [of "(stamp (e_now e) (r_pk r) ?w, out_add ''enqueued'' 1 (snd s))"] Cons.prems
    by (auto simp: enqueue_overdue_Cons stamp_facts simp del: enqueue_overdue.simps)
qed simp

lemma enqueue_overdue_reaches:
  assumes "e_broker e" and "fst (breaker_allow (e_mono e) (w_breaker (fst s)))" and "\<forall>r \<in> set rs. has_pending (fst s) (r_pk r)"
    and "\<forall>r \<in> set rs. r_last_enqueued r = None \<and> secs 1 < r_expires r - e_now e" and "r \<in> set rs"
  shows "stamped (e_now e) (fst (enqueue_overdue e (rs @ ys) s)) (r_pk r) \<and>
     sent_for (fst (enqueue_overdue e (rs @ ys) s)) (r_pk r)"
  using assms
proof (induction rs arbitrary: s)
  case (Cons q rs)
  let ?v = "snd (enqueue_row e q 0 (e_now e) (fst s))"
  let ?s = "(stamp (e_now e) (r_pk q) ?v, out_add ''enqueued'' 1 (snd s))"
  have q: "fst (enqueue_row e q 0 (e_now e) (fst s))" "sent_for ?v (r_pk q)" "w_breaker ?v = None"
    using enqueue_row_sends [of e "fst s" q "e_now e" 0] Cons.prems by auto
  have hp: "has_pending ?v (r_pk x)" if "x \<in> set (q # rs)" for x
    using Cons.prems(3) that by (auto simp: has_pending_def)
  have step: "enqueue_overdue e ((q # rs) @ ys) s = enqueue_overdue e (rs @ ys) ?s"
    using q(1) Cons.prems(4) by (simp add: enqueue_overdue_Cons is_overdue_pending_def del: enqueue_overdue.simps)
  show ?case
  proof (cases "r \<in> set rs")
    case True
    then show ?thesis
      unfolding step using Cons.IH [of ?s] Cons.prems(1,4) q(3) hp stamp_facts(2,5) by (simp add: breaker_allow_def)
  next
    case False
    then have "r = q" using Cons.prems(5) by simp
    then show ?thesis
      unfolding step using enqueue_overdue_mono [of e ?s "r_pk q" "rs @ ys"] q(2) hp [of q] stamp_facts(3,4) by simp
  qed
qed simp

definition never_enqueued :: "ev_row \<Rightarrow> bool" where
  "never_enqueued r = (r_status r = Pending \<and> r_last_enqueued r = None)"

text \<open>Nothing is lost: when the broker did not take a row's message, the row is pending without an enqueue stamp.
  The next enqueue step of the tick that finds the broker up, the circuit breaker closed or past its 30 seconds, at most 200 such rows and none of
  them within a second of its expiry sends a message for that row and stamps it.\<close>

theorem lost_message_sent_again:
  assumes "e_broker e" and "fst (breaker_allow (e_mono e) (w_breaker (fst s)))" and "r \<in> set (w_rows (fst s))" and "never_enqueued r"
    and "length (filter never_enqueued (w_rows (fst s))) \<le> 200"
    and "\<forall>q \<in> set (w_rows (fst s)). never_enqueued q \<longrightarrow> secs 1 < r_expires q - e_now e"
  shows "stamped (e_now e) (fst (tick_enqueue_overdue e s)) (r_pk r) \<and>
     sent_for (fst (tick_enqueue_overdue e s)) (r_pk r)"
proof -
  let ?never = "sort_key r_created (filter never_enqueued (w_rows (fst s)))"
  have take: "take tick_row_limit ?never = ?never" using assms(5) by (simp add: tick_row_limit_def)
  have f: "(\<lambda>r. r_status r = Pending \<and> r_last_enqueued r = None) = never_enqueued"
    by (rule ext) (simp add: never_enqueued_def)
  obtain ys where c: "overdue_candidates e (fst s) = ?never @ ys"
    unfolding overdue_candidates_def Let_def f take by blast
  have m: "r \<in> set ?never" using assms(3,4) by simp
  have p: "\<forall>q \<in> set ?never. has_pending (fst s) (r_pk q)"
    by (auto simp: has_pending_def never_enqueued_def)
  have x: "\<forall>q \<in> set ?never. r_last_enqueued q = None \<and> secs 1 < r_expires q - e_now e"
    using assms(6) by (auto simp: never_enqueued_def)
  show ?thesis
    unfolding tick_enqueue_overdue_def c by (rule enqueue_overdue_reaches [OF assms(1,2) p x m])
qed

definition outage_env :: ev_env where
  "outage_env = (sample_env 1000000 1)\<lparr>e_broker := False\<rparr>"

definition outage_world :: ev_world where
  "outage_world = ev_run [Ev_Register (sample_env 0 0) sample_args sample_handler,
      Ev_Publish outage_env ''alerts.deliver'' 0 (PStr ''alert:1'') PNone] ev_world0"

lemma outage_world_rows:
  "map (\<lambda>r. (r_pk r, r_status r, r_last_enqueued r, r_expires r)) (w_rows outage_world) = [(1, Pending, None, 1801000000)]"
  by code_simp

lemma outage_world_breaker: "w_breaker outage_world = Some 1"
  by code_simp

theorem lost_message_sent_again_witness:
  "sent_for (fst (tick_enqueue_overdue (sample_env 61000000 61) (outage_world, tick_out_zero))) 1"
proof -
  obtain r where r: "w_rows outage_world = [r]" "r_pk r = 1" "never_enqueued r" "r_expires r = 1801000000"
    using outage_world_rows by (auto simp: never_enqueued_def)
  have "e_broker (sample_env 61000000 61)" "e_now (sample_env 61000000 61) = 61000000" "e_mono (sample_env 61000000 61) = 61"
    by (simp_all add: sample_env_def)
  then show ?thesis
    using lost_message_sent_again [of "sample_env 61000000 61" "(outage_world, tick_out_zero)" r] r
    by (simp add: outage_world_breaker breaker_allow_def breaker_open_seconds_def secs_def)
qed

end
