(* ===== verification/Mfa_Backup.thy ===== *)
theory Mfa_Backup
  imports Py_Value
begin

text \<open>
  One-time MFA recovery codes (\<open>mfa_backup.py\<close>, table \<open>TecTacMfaBackupCode\<close>). Django's password hashing, the keyed
  hash of the authenticator key, the random source and the one-time-password check are parameters: \<open>mkhash\<close> and \<open>check\<close> stand for
  \<open>make_password\<close> and \<open>check_password\<close>, \<open>fp\<close> for the fingerprint of a non-empty key, and a list of draws for what
  \<open>_new_code\<close> returns one call after the other. The world counts the expensive hash checks.
\<close>

section \<open>Codes\<close>

definition backup_code_count :: nat where "backup_code_count = 10"
definition backup_code_length :: nat where "backup_code_length = 10"

definition backup_code_alphabet :: string where
  "backup_code_alphabet = ''ABCDEFGHJKLMNPQRSTUVWXYZ23456789''"

definition normalize_code :: "pyval \<Rightarrow> string" where
  "normalize_code v = filter is_alnum (upper (text_or_empty v))"

definition format_code :: "string \<Rightarrow> string" where
  "format_code s = (let raw = normalize_code (PStr s)
     in if length raw > 5 then take 5 raw @ ''-'' @ drop 5 raw else raw)"

section \<open>Rows and accounts\<close>

record mfa_user =
  mu_id :: nat
  mu_totp_key :: string
  mu_sso :: bool

record code_row =
  cr_id :: nat
  cr_user :: nat
  cr_hash :: string
  cr_fp :: string
  cr_used :: "int option"
  cr_created :: int

datatype mfa_event = Ev_Invalidated_Totp nat | Ev_Invalidated nat | Ev_Generated nat | Ev_Code_Used nat | Ev_Proof_Failed

record mfa_world =
  mb_rows :: "code_row list"
  mb_next :: nat
  mb_audit :: "(nat \<times> mfa_event) list"
  mb_checks :: nat

datatype mfa_error = Sso_Account | Totp_Missing | Proof_Rejected

definition totp_fingerprint :: "(string \<Rightarrow> string) \<Rightarrow> mfa_user \<Rightarrow> string" where
  "totp_fingerprint fp u = (if mu_totp_key u = [] then [] else fp (mu_totp_key u))"

definition log_event :: "mfa_user \<Rightarrow> mfa_event \<Rightarrow> mfa_world \<Rightarrow> mfa_world" where
  "log_event u ev w = w\<lparr>mb_audit := mb_audit w @ [(mu_id u, ev)]\<rparr>"

definition stale_row :: "mfa_user \<Rightarrow> string \<Rightarrow> code_row \<Rightarrow> bool" where
  "stale_row u current r = (cr_user r = mu_id u \<and> cr_fp r \<noteq> current)"

definition delete_stale_codes :: "mfa_user \<Rightarrow> string \<Rightarrow> mfa_world \<Rightarrow> mfa_world" where
  "delete_stale_codes u current w =
     (let n = length (filter (stale_row u current) (mb_rows w)) in
      if n = 0 then w
      else log_event u (Ev_Invalidated_Totp n) (w\<lparr>mb_rows := filter (\<lambda>r. \<not> stale_row u current r) (mb_rows w)\<rparr>))"

section \<open>Status\<close>

record code_status =
  cs_totp :: bool
  cs_sso :: bool
  cs_configured :: bool
  cs_total :: nat
  cs_unused :: nat
  cs_used :: nat
  cs_generated :: "int option"

definition current_codes :: "mfa_user \<Rightarrow> string \<Rightarrow> mfa_world \<Rightarrow> code_row list" where
  "current_codes u current w = filter (\<lambda>r. cr_user r = mu_id u \<and> cr_fp r = current) (mb_rows w)"

definition backup_code_status :: "(string \<Rightarrow> string) \<Rightarrow> mfa_user \<Rightarrow> mfa_world \<Rightarrow> code_status" where
  "backup_code_status fp u w =
     (let rows = current_codes u (totp_fingerprint fp u) w;
          total = length rows;
          unused = length (filter (\<lambda>r. cr_used r = None) rows)
      in \<lparr>cs_totp = (mu_totp_key u \<noteq> []), cs_sso = mu_sso u, cs_configured = (total > 0), cs_total = total,
          cs_unused = unused, cs_used = total - unused,
          cs_generated = (if rows = [] then None else Some (Max (set (map cr_created rows))))\<rparr>)"

section \<open>Invalidating and generating\<close>

definition invalidate_backup_codes :: "(string \<Rightarrow> string) \<Rightarrow> mfa_user \<Rightarrow> mfa_world \<Rightarrow> (nat \<times> code_status) \<times> mfa_world" where
  "invalidate_backup_codes fp u w =
     (let n = length (filter (\<lambda>r. cr_user r = mu_id u) (mb_rows w));
          w' = log_event u (Ev_Invalidated n) (w\<lparr>mb_rows := filter (\<lambda>r. cr_user r \<noteq> mu_id u) (mb_rows w)\<rparr>)
      in ((n, backup_code_status fp u w'), w'))"

text \<open>The loop that draws until it has ten different codes; \<open>None\<close> when the draws end first.\<close>

fun draw_codes :: "string list \<Rightarrow> string list \<Rightarrow> string list option" where
  "draw_codes codes draws =
     (if length codes \<ge> backup_code_count then Some codes
      else case draws of
        [] \<Rightarrow> None
      | c # cs \<Rightarrow> if c \<in> set codes then draw_codes codes cs else draw_codes (codes @ [c]) cs)"

declare draw_codes.simps [simp del]

fun new_rows :: "(string \<Rightarrow> string) \<Rightarrow> nat \<Rightarrow> string \<Rightarrow> int \<Rightarrow> nat \<Rightarrow> string list \<Rightarrow> code_row list" where
  "new_rows mkhash uid current now pk [] = []"
| "new_rows mkhash uid current now pk (c # cs) =
     \<lparr>cr_id = pk, cr_user = uid, cr_hash = mkhash c, cr_fp = current, cr_used = None, cr_created = now\<rparr> #
     new_rows mkhash uid current now (Suc pk) cs"

record generated =
  gen_codes :: "string list"
  gen_count :: nat
  gen_status :: code_status

definition generate_backup_codes ::
  "(string \<Rightarrow> string) \<Rightarrow> (string \<Rightarrow> string) \<Rightarrow> string list \<Rightarrow> mfa_user \<Rightarrow> int \<Rightarrow> mfa_world \<Rightarrow> (mfa_error + generated \<times> mfa_world) option" where
  "generate_backup_codes mkhash fp draws u now w =
     (if mu_sso u then Some (Inl Sso_Account)
      else if totp_fingerprint fp u = [] then Some (Inl Totp_Missing)
      else map_option (\<lambda>codes.
        (let kept = filter (\<lambda>r. cr_user r \<noteq> mu_id u) (mb_rows w);
             rows = new_rows mkhash (mu_id u) (totp_fingerprint fp u) now (mb_next w) codes;
             w' = log_event u (Ev_Generated (length codes))
                    (w\<lparr>mb_rows := kept @ rows, mb_next := mb_next w + length codes\<rparr>)
         in Inr (\<lparr>gen_codes = map format_code codes, gen_count = length codes,
                  gen_status = backup_code_status fp u w'\<rparr>, w'))) (draw_codes [] draws))"

text \<open>\<open>verify_generation_proof\<close>: the password and one-time-password checks are parameters.\<close>

definition verify_generation_proof ::
  "(string \<Rightarrow> bool) \<Rightarrow> (string \<Rightarrow> string \<Rightarrow> bool) \<Rightarrow> mfa_user \<Rightarrow> string \<Rightarrow> pyval \<Rightarrow> mfa_error + unit" where
  "verify_generation_proof password_ok totp_ok u password totp_code =
     rcheck (mu_sso u) Sso_Account (
     rcheck (mu_totp_key u = []) Totp_Missing (
     rcheck (password = [] \<or> \<not> password_ok password) Proof_Rejected (
       (let token = normalize_code totp_code in
        rcheck (token = [] \<or> \<not> totp_ok (mu_totp_key u) token) Proof_Rejected (Inr ())))))"

section \<open>Using a code\<close>

definition burn_hash_cost :: "nat \<Rightarrow> mfa_world \<Rightarrow> mfa_world" where
  "burn_hash_cost n w = w\<lparr>mb_checks := mb_checks w + n\<rparr>"

definition candidates :: "mfa_user \<Rightarrow> string \<Rightarrow> mfa_world \<Rightarrow> code_row list" where
  "candidates u current w =
     (if current = [] then []
      else take backup_code_count
        (sort_key (\<lambda>r. (cr_created r, cr_id r))
          (filter (\<lambda>r. cr_user r = mu_id u \<and> cr_used r = None \<and> cr_fp r = current) (mb_rows w))))"

definition set_used :: "nat \<Rightarrow> int \<Rightarrow> mfa_world \<Rightarrow> mfa_world" where
  "set_used pk now w = w\<lparr>mb_rows := map (\<lambda>r. if cr_id r = pk then r\<lparr>cr_used := Some now\<rparr> else r) (mb_rows w)\<rparr>"

definition consume_backup_code ::
  "(string \<Rightarrow> string \<Rightarrow> bool) \<Rightarrow> (string \<Rightarrow> string) \<Rightarrow> mfa_user \<Rightarrow> pyval \<Rightarrow> int \<Rightarrow> mfa_world \<Rightarrow> bool \<times> mfa_world" where
  "consume_backup_code check fp u given now w =
     (let normalized = normalize_code given;
          well_sized = (length normalized = backup_code_length);
          supplied = (if well_sized then normalized else ''TECINVALID'');
          current = totp_fingerprint fp u;
          w1 = delete_stale_codes u current w;
          cands = candidates u current w1;
          matched = (if well_sized then find (\<lambda>r. check supplied (cr_hash r)) cands else None);
          w2 = burn_hash_cost (backup_code_count - length cands) (burn_hash_cost (length cands) w1)
      in case matched of
           None \<Rightarrow> (False, w2)
         | Some r \<Rightarrow> (True, log_event u (Ev_Code_Used (cr_id r)) (set_used (cr_id r) now w2)))"

section \<open>Facts\<close>

text \<open>Ids are unique and below the counter.\<close>

definition mfa_ok :: "mfa_world \<Rightarrow> bool" where
  "mfa_ok w = (distinct (map cr_id (mb_rows w)) \<and> (\<forall>r \<in> set (mb_rows w). cr_id r < mb_next w))"

definition unused :: "mfa_user \<Rightarrow> mfa_world \<Rightarrow> nat" where
  "unused u w = length (filter (\<lambda>r. cr_user r = mu_id u \<and> cr_used r = None) (mb_rows w))"

lemma log_event_simps [simp]:
  "mb_rows (log_event u e w) = mb_rows w" "mb_next (log_event u e w) = mb_next w" "mb_checks (log_event u e w) = mb_checks w"
  by (simp_all add: log_event_def)

lemma burn_simps [simp]:
  "mb_rows (burn_hash_cost n w) = mb_rows w" "mb_next (burn_hash_cost n w) = mb_next w"
  "mb_checks (burn_hash_cost n w) = mb_checks w + n"
  by (simp_all add: burn_hash_cost_def)

lemma delete_stale_rows [simp]:
  "mb_rows (delete_stale_codes u c w) = filter (\<lambda>r. \<not> stale_row u c r) (mb_rows w)"
  "mb_next (delete_stale_codes u c w) = mb_next w" "mb_checks (delete_stale_codes u c w) = mb_checks w"
  by (auto simp: delete_stale_codes_def Let_def filter_empty_conv intro!: filter_True [symmetric])

lemma length_candidates: "length (candidates u c w) \<le> backup_code_count"
  by (simp add: candidates_def)

lemma candidates_set: "set (candidates u c w) \<subseteq> {r \<in> set (mb_rows w). cr_user r = mu_id u \<and> cr_used r = None \<and> cr_fp r = c}"
  by (auto simp: candidates_def dest!: in_set_takeD)

lemma mfa_ok_delete_stale: "mfa_ok w \<Longrightarrow> mfa_ok (delete_stale_codes u c w)"
  by (auto simp: mfa_ok_def distinct_map_filter)

lemma set_used_rows: "mb_rows (set_used pk now w) = map (\<lambda>r. if cr_id r = pk then r\<lparr>cr_used := Some now\<rparr> else r) (mb_rows w)"
  by (simp add: set_used_def)

lemma unused_map:
  assumes "distinct (map cr_id rs)" and "r \<in> set rs" and "cr_user r = n" and "cr_used r = None"
  shows "Suc (length (filter (\<lambda>r. cr_user r = n \<and> cr_used r = None)
      (map (\<lambda>q. if cr_id q = cr_id r then q\<lparr>cr_used := Some now\<rparr> else q) rs)))
    = length (filter (\<lambda>r. cr_user r = n \<and> cr_used r = None) rs)"
  using assms
proof (induction rs)
  case (Cons q rs)
  show ?case
  proof (cases "q = r")
    case True
    have "map (\<lambda>q. if cr_id q = cr_id r then q\<lparr>cr_used := Some now\<rparr> else q) rs = rs"
    proof (intro map_idI)
      fix x assume "x \<in> set rs"
      then have "cr_id x \<noteq> cr_id r" using Cons.prems(1) True by (auto simp: image_iff)
      then show "(if cr_id x = cr_id r then x\<lparr>cr_used := Some now\<rparr> else x) = x" by simp
    qed
    then show ?thesis using True Cons.prems by simp
  next
    case False
    then have "r \<in> set rs" "cr_id q \<noteq> cr_id r" using Cons.prems by auto
    then show ?thesis using Cons by simp
  qed
qed simp

lemma mfa_ok_map_used: "mfa_ok w \<Longrightarrow> mfa_ok (set_used pk now w)"
proof -
  have c: "cr_id \<circ> (\<lambda>r. if cr_id r = pk then r\<lparr>cr_used := Some now\<rparr> else r) = cr_id" by (rule ext) simp
  assume "mfa_ok w"
  then show ?thesis by (auto simp: mfa_ok_def set_used_def c)
qed

lemma unused_delete_stale: "unused u (delete_stale_codes u c w) \<le> unused u w"
proof -
  have "length (filter P (filter Q xs)) \<le> length (filter P xs)" for P Q :: "code_row \<Rightarrow> bool" and xs
    by (induction xs) auto
  then show ?thesis by (simp add: unused_def del: filter_filter)
qed

lemma consume_step:
  assumes "mfa_ok w" and "consume_backup_code check fp u given now w = (b, w')"
  shows "mfa_ok w' \<and> unused u w' + (if b then 1 else 0) \<le> unused u w \<and> mb_checks w' = mb_checks w + 10"
proof -
  let ?c = "totp_fingerprint fp u" and ?n = "normalize_code given"
  define w1 where "w1 = delete_stale_codes u ?c w"
  define cands where "cands = candidates u ?c w1"
  define w2 where "w2 = burn_hash_cost (backup_code_count - length cands) (burn_hash_cost (length cands) w1)"
  have w1: "mfa_ok w1" by (simp add: w1_def mfa_ok_delete_stale assms(1))
  have ck: "mb_checks w2 = mb_checks w + 10"
    using length_candidates [of u ?c w1] by (simp add: w2_def w1_def cands_def backup_code_count_def)
  have w2: "mfa_ok w2" "unused u w2 \<le> unused u w"
    using w1 unused_delete_stale [of u ?c w] by (simp_all add: w2_def mfa_ok_def unused_def w1_def)
  have eq: "consume_backup_code check fp u given now w =
     (case (if length ?n = backup_code_length then find (\<lambda>r. check ?n (cr_hash r)) cands else None) of
        None \<Rightarrow> (False, w2)
      | Some r \<Rightarrow> (True, log_event u (Ev_Code_Used (cr_id r)) (set_used (cr_id r) now w2)))"
    unfolding consume_backup_code_def Let_def w1_def [symmetric] cands_def [symmetric] w2_def [symmetric]
    by (cases "length ?n = backup_code_length") simp_all
  show ?thesis
  proof (cases b)
    case False
    then have "w' = w2" using assms(2) unfolding eq by (auto split: option.splits)
    then show ?thesis using w2 ck False by simp
  next
    case True
    then obtain r where r: "find (\<lambda>r. check ?n (cr_hash r)) cands = Some r"
      and w': "w' = log_event u (Ev_Code_Used (cr_id r)) (set_used (cr_id r) now w2)"
      using assms(2) unfolding eq by (auto split: option.splits if_splits)
    have "r \<in> set cands" using r by (auto simp: find_Some_iff)
    then have m: "r \<in> set (mb_rows w2)" "cr_user r = mu_id u" "cr_used r = None"
      using candidates_set [of u ?c w1] by (auto simp: cands_def w2_def)
    have "Suc (unused u w') = unused u w2"
      using unused_map [OF _ m, of now] w2(1) by (simp add: unused_def w' set_used_rows mfa_ok_def)
    moreover have "mfa_ok w'" using mfa_ok_map_used [OF w2(1)] by (simp add: mfa_ok_def w')
    moreover have "mb_checks w' = mb_checks w2" by (simp add: w' set_used_def)
    ultimately show ?thesis using w2(2) ck True by simp
  qed
qed

text \<open>A sequence of attempts by one user, with what was typed and when.\<close>

fun attempts :: "(string \<Rightarrow> string \<Rightarrow> bool) \<Rightarrow> (string \<Rightarrow> string) \<Rightarrow> mfa_user \<Rightarrow> (pyval \<times> int) list \<Rightarrow> mfa_world \<Rightarrow> bool list \<times> mfa_world" where
  "attempts check fp u [] w = ([], w)"
| "attempts check fp u ((c, now) # cs) w =
     (case consume_backup_code check fp u c now w of (b, w1) \<Rightarrow>
        (case attempts check fp u cs w1 of (bs, w2) \<Rightarrow> (b # bs, w2)))"

text \<open>Recovery codes run out: whatever the hash function does, the number of accepted attempts in any sequence never exceeds the
  number of unused codes the account had, and every attempt, right or wrong, costs exactly ten hash checks.\<close>

theorem backup_codes_run_out:
  assumes "mfa_ok w" and "attempts check fp u cs w = (bs, w')"
  shows "count_list bs True + unused u w' \<le> unused u w \<and> mb_checks w' = mb_checks w + 10 * length cs"
  using assms
proof (induction cs arbitrary: w bs)
  case (Cons x cs)
  obtain c now where x: "x = (c, now)" by (cases x)
  obtain b w1 where s: "consume_backup_code check fp u c now w = (b, w1)" by (metis surj_pair)
  obtain bs1 where a: "attempts check fp u cs w1 = (bs1, w')" "bs = b # bs1"
    using Cons.prems(2) x s by (auto split: prod.splits)
  have st: "mfa_ok w1" "unused u w1 + (if b then 1 else 0) \<le> unused u w" "mb_checks w1 = mb_checks w + 10"
    using consume_step [OF Cons.prems(1) s] by auto
  from Cons.IH [OF st(1) a(1)] st(2,3) a(2) show ?case by (cases b) auto
qed simp

section \<open>A generated code works once\<close>

definition code_text :: "string \<Rightarrow> bool" where
  "code_text c = (length c = 10 \<and> set c \<subseteq> set backup_code_alphabet)"

lemma alphabet_stable: "list_all (\<lambda>c. upper_char c = [c] \<and> is_alnum c) backup_code_alphabet"
  by code_simp

lemma normalize_alphabet: "set c \<subseteq> set backup_code_alphabet \<Longrightarrow> filter is_alnum (upper c) = c"
proof (induction c)
  case (Cons x c)
  then have "upper_char x = [x]" "is_alnum x" using alphabet_stable by (auto simp: list_all_iff)
  then show ?case using Cons by (simp add: upper_def)
qed (simp add: upper_def)

lemma normalize_plain: "code_text c \<Longrightarrow> normalize_code (PStr c) = c"
  by (simp add: code_text_def normalize_code_def normalize_alphabet)

lemma dash_dropped: "filter is_alnum (upper ''-'') = []"
  by code_simp

lemma upper_append: "upper (a @ b) = upper a @ upper b"
  by (simp add: upper_def)

lemma format_code_text: "code_text c \<Longrightarrow> format_code c = take 5 c @ ''-'' @ drop 5 c"
  using normalize_plain [of c] by (simp add: format_code_def Let_def code_text_def)

lemma normalize_format: "code_text c \<Longrightarrow> normalize_code (PStr (format_code c)) = c"
proof -
  assume c: "code_text c"
  then have "set (take 5 c) \<subseteq> set backup_code_alphabet" "set (drop 5 c) \<subseteq> set backup_code_alphabet"
    by (auto simp: code_text_def dest: in_set_takeD in_set_dropD)
  then have "filter is_alnum (upper (take 5 c)) = take 5 c" "filter is_alnum (upper (drop 5 c)) = drop 5 c"
    by (simp_all add: normalize_alphabet)
  then show ?thesis using dash_dropped unfolding format_code_text [OF c] normalize_code_def text_or_empty_simps upper_append filter_append
    by simp
qed

lemma draw_codes_result:
  "draw_codes codes draws = Some out \<Longrightarrow> distinct codes \<Longrightarrow> length codes \<le> 10 \<Longrightarrow>
     distinct out \<and> length out = 10 \<and> set out \<subseteq> set codes \<union> set draws"
proof (induction codes draws rule: draw_codes.induct)
  case (1 codes draws)
  show ?case
  proof (cases "length codes \<ge> backup_code_count")
    case True
    then show ?thesis using 1 by (simp add: draw_codes.simps [of codes draws] backup_code_count_def)
  next
    case False
    then obtain c cs where d: "draws = c # cs" using 1(3) by (cases draws) (simp_all add: draw_codes.simps [of codes "[]"])
    show ?thesis
    proof (cases "c \<in> set codes")
      case True
      then show ?thesis using 1 False d by (auto simp: draw_codes.simps [of codes "c # cs"])
    next
      case new: False
      have "draw_codes (codes @ [c]) cs = Some out" using 1(3) False d new by (simp add: draw_codes.simps [of codes "c # cs"])
      then show ?thesis using 1(2) [OF False d new] 1(4,5) False d new
        by (auto simp: backup_code_count_def)
    qed
  qed
qed

text \<open>The loop ends: once the random source has produced ten different codes it returns ten of them.\<close>

lemma draw_codes_total: "card (set codes \<union> set draws) \<ge> 10 \<Longrightarrow> distinct codes \<Longrightarrow> \<exists>out. draw_codes codes draws = Some out"
proof (induction draws arbitrary: codes)
  case Nil
  then have "length codes \<ge> 10" using card_length [of codes] by simp
  then show ?case by (simp add: draw_codes.simps backup_code_count_def)
next
  case (Cons c cs)
  show ?case
  proof (cases "length codes \<ge> backup_code_count")
    case True
    then show ?thesis by (simp add: draw_codes.simps)
  next
    case False
    show ?thesis
    proof (cases "c \<in> set codes")
      case True
      then have "set codes \<union> set (c # cs) = set codes \<union> set cs" by auto
      then show ?thesis using Cons.IH [of codes] Cons.prems False True by (simp add: draw_codes.simps [of codes])
    next
      case new: False
      then show ?thesis using Cons.IH [of "codes @ [c]"] Cons.prems False by (simp add: draw_codes.simps [of codes])
    qed
  qed
qed

definition fresh_row :: "(string \<Rightarrow> string) \<Rightarrow> nat \<Rightarrow> string \<Rightarrow> int \<Rightarrow> nat \<Rightarrow> string \<Rightarrow> code_row" where
  "fresh_row mkhash uid current now pk c =
     \<lparr>cr_id = pk, cr_user = uid, cr_hash = mkhash c, cr_fp = current, cr_used = None, cr_created = now\<rparr>"

lemma new_rows_set:
  "set (new_rows mkhash uid current now pk cs) = (\<lambda>i. fresh_row mkhash uid current now (pk + i) (cs ! i)) ` {..<length cs}"
proof (induction cs arbitrary: pk)
  case (Cons c cs)
  then show ?case by (simp add: lessThan_Suc_eq_insert_0 image_image fresh_row_def)
qed simp

lemma length_new_rows [simp]: "length (new_rows mkhash uid current now pk cs) = length cs"
  by (induction cs arbitrary: pk) auto

lemma new_rows_ids: "map cr_id (new_rows mkhash uid current now pk cs) = [pk ..< pk + length cs]"
proof (induction cs arbitrary: pk)
  case (Cons c cs)
  then show ?case by (simp add: upt_conv_Cons del: upt_Suc)
qed simp

lemma generated_rows:
  assumes "generate_backup_codes mkhash fp draws u now w = Some (Inr (g, w'))" and "mfa_ok w"
  shows "\<exists>cs. distinct cs \<and> length cs = 10 \<and> set cs \<subseteq> set draws \<and> gen_codes g = map format_code cs \<and>
     mfa_ok w' \<and> totp_fingerprint fp u \<noteq> [] \<and>
     {r \<in> set (mb_rows w'). cr_user r = mu_id u} =
       (\<lambda>i. fresh_row mkhash (mu_id u) (totp_fingerprint fp u) now (mb_next w + i) (cs ! i)) ` {..<10}"
proof -
  obtain cs where d: "draw_codes [] draws = Some cs" and fp: "totp_fingerprint fp u \<noteq> []"
    and g: "gen_codes g = map format_code cs"
    and w': "mb_rows w' = filter (\<lambda>r. cr_user r \<noteq> mu_id u) (mb_rows w) @
       new_rows mkhash (mu_id u) (totp_fingerprint fp u) now (mb_next w) cs" "mb_next w' = mb_next w + length cs"
    using assms(1) by (auto simp: generate_backup_codes_def Let_def split: if_splits)
  have cs: "distinct cs" "length cs = 10" "set cs \<subseteq> set draws" using draw_codes_result [OF d] by auto
  have ids: "cr_id ` set (new_rows mkhash (mu_id u) (totp_fingerprint fp u) now (mb_next w) cs) = {mb_next w ..< mb_next w + length cs}"
    by (metis new_rows_ids set_map set_upt)
  have "mfa_ok w'"
    using assms(2) ids unfolding mfa_ok_def w'
    by (force simp: new_rows_ids distinct_map_filter)
  then show ?thesis using cs fp g by (intro exI [of _ cs]) (auto simp: w' new_rows_set fresh_row_def)
qed

lemma find_unique:
  assumes "x \<in> set xs" and "P x" and "\<And>y. y \<in> set xs \<Longrightarrow> P y \<Longrightarrow> y = x"
  shows "find P xs = Some x"
proof (cases "find P xs")
  case None
  then show ?thesis using assms(1,2) by (auto simp: find_None_iff)
next
  case (Some y)
  then have "y \<in> set xs" "P y" by (auto simp: find_Some_iff)
  then show ?thesis using assms(3) Some by simp
qed

lemma take_all_candidates:
  assumes "card {r \<in> set (mb_rows w). cr_user r = mu_id u} \<le> 10" and "mfa_ok w" and "c \<noteq> []"
  shows "set (candidates u c w) = {r \<in> set (mb_rows w). cr_user r = mu_id u \<and> cr_used r = None \<and> cr_fp r = c}"
proof -
  let ?P = "\<lambda>r. cr_user r = mu_id u \<and> cr_used r = None \<and> cr_fp r = c"
  have "distinct (mb_rows w)" using assms(2) by (auto simp: mfa_ok_def distinct_map)
  then have "length (filter ?P (mb_rows w)) = card (set (filter ?P (mb_rows w)))"
    by (intro distinct_card [symmetric] distinct_filter)
  also have "\<dots> \<le> card {r \<in> set (mb_rows w). cr_user r = mu_id u}" by (rule card_mono) auto
  finally have "length (filter ?P (mb_rows w)) \<le> backup_code_count" using assms(1) by (simp add: backup_code_count_def)
  then show ?thesis using assms(3) by (auto simp: candidates_def)
qed

text \<open>What \<open>consume_backup_code\<close> does when no row is stale.\<close>

lemma consume_current:
  assumes "code_text c" and "normalize_code given = c"
    and "\<forall>r \<in> set (mb_rows w). cr_user r = mu_id u \<longrightarrow> cr_fp r = totp_fingerprint fp u"
  shows "consume_backup_code check fp u given now w =
    (case find (\<lambda>r. check c (cr_hash r)) (candidates u (totp_fingerprint fp u) w) of
       None \<Rightarrow> (False, burn_hash_cost (backup_code_count - length (candidates u (totp_fingerprint fp u) w))
                   (burn_hash_cost (length (candidates u (totp_fingerprint fp u) w)) w))
     | Some r \<Rightarrow> (True, log_event u (Ev_Code_Used (cr_id r)) (set_used (cr_id r) now
          (burn_hash_cost (backup_code_count - length (candidates u (totp_fingerprint fp u) w))
             (burn_hash_cost (length (candidates u (totp_fingerprint fp u) w)) w)))))"
proof -
  have "filter (stale_row u (totp_fingerprint fp u)) (mb_rows w) = []"
    using assms(3) by (auto simp: stale_row_def filter_empty_conv)
  then have del: "delete_stale_codes u (totp_fingerprint fp u) w = w" by (simp add: delete_stale_codes_def)
  have len: "length c = backup_code_length" using assms(1) by (simp add: code_text_def backup_code_length_def)
  show ?thesis unfolding consume_backup_code_def Let_def del assms(2) by (simp add: len)
qed

text \<open>A generated code works exactly once: with a hash that accepts a code only for its own hash, every code shown to the user
  is accepted the first time it is typed, with its dash, and refused every later time; and the generation shows ten different codes.\<close>

theorem generated_code_works_once:
  assumes hash: "\<forall>a b. check a (mkhash b) = (a = b)"
    and gen: "generate_backup_codes mkhash fp draws u t0 w = Some (Inr (g, w1))"
    and ok: "mfa_ok w" and draws: "\<forall>c \<in> set draws. code_text c" and shown: "typed \<in> set (gen_codes g)"
    and first: "consume_backup_code check fp u (PStr typed) t1 w1 = (b1, w2)"
    and second: "consume_backup_code check fp u (PStr typed) t2 w2 = (b2, w3)"
  shows "b1 \<and> \<not> b2 \<and> length (gen_codes g) = 10 \<and> distinct (gen_codes g)"
proof -
  let ?fp = "totp_fingerprint fp u"
  let ?row = "\<lambda>cs i. fresh_row mkhash (mu_id u) ?fp t0 (mb_next w + i) (cs ! i)"
  from generated_rows [OF gen ok] obtain cs where cs: "distinct cs" "length cs = 10" "set cs \<subseteq> set draws"
    "gen_codes g = map format_code cs" "mfa_ok w1" "?fp \<noteq> []"
    and rows: "{r \<in> set (mb_rows w1). cr_user r = mu_id u} = ?row cs ` {..<10}" by blast
  have ct: "code_text c" if "c \<in> set cs" for c using that cs(3) draws by blast
  have fmt: "inj_on format_code (set cs)"
    by (rule inj_on_inverseI [of _ "\<lambda>s. normalize_code (PStr s)"]) (simp add: normalize_format ct)
  obtain k where k: "k < 10" "typed = format_code (cs ! k)" using shown cs(2,4) by (auto simp: in_set_conv_nth)
  let ?c = "cs ! k"
  have ck: "code_text ?c" "normalize_code (PStr typed) = ?c" using k ct cs(2) by (simp_all add: normalize_format)
  have r1: "cr_fp r = ?fp \<and> cr_used r = None" if "r \<in> set (mb_rows w1)" "cr_user r = mu_id u" for r
  proof -
    have "r \<in> ?row cs ` {..<10}" using that rows by blast
    then show ?thesis by (auto simp: fresh_row_def)
  qed
  have "card (?row cs ` {..<10}) \<le> 10" using card_image_le [of "{..<10::nat}" "?row cs"] by simp
  then have "set (candidates u ?fp w1) = {r \<in> set (mb_rows w1). cr_user r = mu_id u \<and> cr_used r = None \<and> cr_fp r = ?fp}"
    by (intro take_all_candidates [OF _ cs(5,6)]) (simp only: rows)
  also have "\<dots> = {r \<in> set (mb_rows w1). cr_user r = mu_id u}" using r1 by blast
  finally have c1: "set (candidates u ?fp w1) = ?row cs ` {..<10}" by (simp only: rows)
  have "find (\<lambda>r. check ?c (cr_hash r)) (candidates u ?fp w1) = Some (?row cs k)"
  proof (rule find_unique)
    fix y assume "y \<in> set (candidates u ?fp w1)" "check ?c (cr_hash y)"
    then obtain i where "i < 10" "y = ?row cs i" "check ?c (mkhash (cs ! i))" using c1 by (auto simp: fresh_row_def)
    then show "y = ?row cs k" using hash cs(1,2) k(1) nth_eq_iff_index_eq by fastforce
  qed (use c1 k hash in \<open>auto simp: fresh_row_def\<close>)
  then have b1: "b1" and w2: "mb_rows w2 = map (\<lambda>r. if cr_id r = mb_next w + k then r\<lparr>cr_used := Some t1\<rparr> else r) (mb_rows w1)"
    using first consume_current [OF ck, of w1 u fp check t1] r1
    by (auto simp: set_used_def fresh_row_def)
  have "find (\<lambda>r. check ?c (cr_hash r)) (candidates u ?fp w2) = None"
    unfolding find_None_iff
  proof (rule notI)
    assume "\<exists>r. r \<in> set (candidates u ?fp w2) \<and> check ?c (cr_hash r)"
    then obtain r where "r \<in> set (candidates u ?fp w2)" and h: "check ?c (cr_hash r)" by blast
    then have r: "r \<in> set (mb_rows w2)" "cr_user r = mu_id u" "cr_used r = None" using candidates_set by blast+
    then obtain q where q: "q \<in> set (mb_rows w1)" "r = q" "cr_id q \<noteq> mb_next w + k"
      unfolding w2 by (auto split: if_splits)
    then obtain i where i: "i < 10" "q = ?row cs i" using rows r(2) by blast
    then have "cs ! i = ?c" using h hash q(2) by (simp add: fresh_row_def)
    then show False using i q(3) cs(1,2) k(1) nth_eq_iff_index_eq by (fastforce simp: fresh_row_def)
  qed
  moreover have "\<forall>r \<in> set (mb_rows w2). cr_user r = mu_id u \<longrightarrow> cr_fp r = ?fp"
    using r1 unfolding w2 by auto
  ultimately have "\<not> b2" using second consume_current [OF ck, of w2 u fp check t2] by simp
  then show ?thesis using b1 cs fmt by (simp add: distinct_map)
qed

text \<open>A stand-in for the hash and the random source, and one generation.\<close>

definition demo_hash :: "string \<Rightarrow> string" where "demo_hash c = ''h'' @ c"

definition demo_check :: "string \<Rightarrow> string \<Rightarrow> bool" where "demo_check c h = (h = ''h'' @ c)"

definition demo_draws :: "string list" where
  "demo_draws = map (\<lambda>c. replicate 9 (CHR ''A'') @ [c]) ''ABCDEFGHJKL''"

definition demo_user :: mfa_user where
  "demo_user = \<lparr>mu_id = 3, mu_totp_key = ''key'', mu_sso = False\<rparr>"

definition demo_world :: mfa_world where
  "demo_world = \<lparr>mb_rows = [], mb_next = 0, mb_audit = [], mb_checks = 0\<rparr>"

definition demo_generated :: "generated \<times> mfa_world" where
  "demo_generated = (case generate_backup_codes demo_hash (\<lambda>k. ''fp'') demo_draws demo_user 0 demo_world of
     Some (Inr gw) \<Rightarrow> gw | _ \<Rightarrow> (undefined, demo_world))"

lemma demo_generate: "generate_backup_codes demo_hash (\<lambda>k. ''fp'') demo_draws demo_user 0 demo_world = Some (Inr demo_generated)"
  by code_simp

lemma demo_codes: "''AAAAA-AAAAC'' \<in> set (gen_codes (fst demo_generated))"
  by code_simp

lemma demo_draws_ok: "list_all (\<lambda>c. length c = 10 \<and> list_all (\<lambda>x. x \<in> set backup_code_alphabet) c) demo_draws"
  by code_simp

theorem generated_code_works_once_witness:
  "fst (consume_backup_code demo_check (\<lambda>k. ''fp'') demo_user (PStr ''AAAAA-AAAAC'') 5 (snd demo_generated))"
proof -
  obtain b1 w2 where f: "consume_backup_code demo_check (\<lambda>k. ''fp'') demo_user (PStr ''AAAAA-AAAAC'') 5 (snd demo_generated) = (b1, w2)"
    by (metis surj_pair)
  obtain b2 w3 where s: "consume_backup_code demo_check (\<lambda>k. ''fp'') demo_user (PStr ''AAAAA-AAAAC'') 6 w2 = (b2, w3)"
    by (metis surj_pair)
  have "\<forall>a b. demo_check a (demo_hash b) = (a = b)" by (auto simp: demo_check_def demo_hash_def)
  moreover have "generate_backup_codes demo_hash (\<lambda>k. ''fp'') demo_draws demo_user 0 demo_world =
      Some (Inr (fst demo_generated, snd demo_generated))" using demo_generate by simp
  moreover have "mfa_ok demo_world" by (simp add: mfa_ok_def demo_world_def)
  moreover have "\<forall>c \<in> set demo_draws. code_text c" using demo_draws_ok by (auto simp: list_all_iff code_text_def)
  ultimately show ?thesis using generated_code_works_once [OF _ _ _ _ demo_codes f s] f by simp
qed

theorem backup_codes_run_out_witness:
  "count_list (fst (attempts demo_check (\<lambda>k. ''fp'') demo_user [(PStr ''AAAAA-AAAAC'', 5), (PStr ''aaaaa aaaac'', 6)] (snd demo_generated))) True \<le> 10"
proof -
  obtain bs w' where a: "attempts demo_check (\<lambda>k. ''fp'') demo_user [(PStr ''AAAAA-AAAAC'', 5), (PStr ''aaaaa aaaac'', 6)] (snd demo_generated) = (bs, w')"
    by (metis surj_pair)
  have "unused demo_user (snd demo_generated) = 10" by code_simp
  moreover have "distinct (map cr_id (mb_rows (snd demo_generated))) \<and> list_all (\<lambda>r. cr_id r < mb_next (snd demo_generated)) (mb_rows (snd demo_generated))"
    by code_simp
  then have "mfa_ok (snd demo_generated)" by (simp add: mfa_ok_def list_all_iff)
  ultimately show ?thesis using backup_codes_run_out [OF _ a] a by simp
qed

end
