(* ===== verification/Saved_Views.thy ===== *)
theory Saved_Views
  imports Py_Value
begin

text \<open>
  The saved views service (\<open>saved_views.py\<close>, table \<open>TecTacSavedView\<close>): validation, who may read a view, and the
  list, get, create, update and delete operations. A view id is a number (\<open>None\<close> when the text is no UUID). What the service asks
  other components is the environment: who is active, what the user may do with a module, whether the strict
  audit row is written, and the time.
\<close>

section \<open>State\<close>

record view =
  v_id :: nat
  v_module :: string
  v_key :: string
  v_name :: string
  v_payload :: pydict
  v_owner :: int
  v_readers :: "int list"
  v_created :: int
  v_updated :: int

record sv_state =
  sv_rows :: "view list"
  sv_next :: nat
  sv_audit :: "(int \<times> string \<times> nat) list"

record sv_user =
  su_pk :: int
  su_authenticated :: bool

datatype module_access = Unresolved | Usable | Forbidden

record sv_env =
  se_now :: int
  se_active :: "int \<Rightarrow> bool"
  se_access :: "int \<Rightarrow> string \<Rightarrow> module_access"
  se_audit :: bool

datatype sv_reason = Module_Required | Bad_View_Key | Reserved_View_Key | Name_Required | Name_Too_Long | Name_Control
  | Payload_Not_Dict | Payload_Not_Json_Text | Payload_Over_Limit | Readers_Not_List | Readers_Bad_Id | Readers_Too_Many
  | Readers_Unknown | Module_Unknown | Module_Fixed | View_Key_Fixed | Too_Many_Views

datatype sv_error = Sv_Invalid sv_reason | Sv_Not_Found | Sv_Denied | Sv_Conflict | Sv_Audit_Failed

section \<open>Validation\<close>

definition signed_in :: "sv_user \<Rightarrow> sv_error + unit" where
  "signed_in u = rcheck (\<not> su_authenticated u) Sv_Denied (Inr ())"

definition clean_module_id :: "pyval \<Rightarrow> sv_error + string" where
  "clean_module_id v =
     (let t = (case v of PStr _ \<Rightarrow> clean_text v | PInt _ \<Rightarrow> clean_text v | _ \<Rightarrow> [])
      in rcheck (t = []) (Sv_Invalid Module_Required) (Inr t))"

definition view_key_re :: "string \<Rightarrow> bool" where
  "view_key_re s = (s \<noteq> [] \<and> length s \<le> 64 \<and> (is_lower_ascii (hd s) \<or> is_digit (hd s)) \<and>
     list_all (\<lambda>c. is_lower_ascii c \<or> is_digit c \<or> c = CHR ''_'' \<or> c = CHR ''-'') (tl s))"

definition reserved_key :: "string \<Rightarrow> bool" where
  "reserved_key k = startswith k ''fs-''"

definition clean_view_key :: "pyval \<Rightarrow> sv_error + string" where
  "clean_view_key v =
     (case v of
        PStr s \<Rightarrow> rcheck (\<not> view_key_re s) (Sv_Invalid Bad_View_Key)
                    (rcheck (reserved_key s) (Sv_Invalid Reserved_View_Key) (Inr s))
      | _ \<Rightarrow> Inl (Sv_Invalid Bad_View_Key))"

definition clean_name :: "pyval \<Rightarrow> sv_error + string" where
  "clean_name v =
     (case v of
        PStr s \<Rightarrow>
          rcheck (strip s = []) (Sv_Invalid Name_Required) (
          rcheck (160 < length (strip s)) (Sv_Invalid Name_Too_Long) (
          rcheck (list_ex (\<lambda>c. code c < 32) (strip s)) (Sv_Invalid Name_Control) (Inr (strip s))))
      | _ \<Rightarrow> Inl (Sv_Invalid Name_Required))"

definition clean_view_payload :: "pyval \<Rightarrow> sv_error + pydict" where
  "clean_view_payload v =
     (case v of
        PDict d \<Rightarrow>
          rcheck (\<not> json_finite v \<or> \<not> ints_printable v) (Sv_Invalid Payload_Not_Json_Text) (
          rcheck (64 * 1024 < utf8_length (json_dumps v)) (Sv_Invalid Payload_Over_Limit) (Inr d))
      | _ \<Rightarrow> Inl (Sv_Invalid Payload_Not_Dict))"

definition reader_id :: "pyval \<Rightarrow> sv_error + int" where
  "reader_id v = (case v of PInt i \<Rightarrow> rcheck (i < 1) (Sv_Invalid Readers_Bad_Id) (Inr i) | _ \<Rightarrow> Inl (Sv_Invalid Readers_Bad_Id))"

definition clean_readers :: "sv_env \<Rightarrow> pyval \<Rightarrow> sv_error + int list" where
  "clean_readers e v =
     (case v of
        PNone \<Rightarrow> Inr []
      | PList xs \<Rightarrow>
          rbind (rmap reader_id xs) (\<lambda>raw.
            (let ids = dedup raw in
             rcheck (100 < length ids) (Sv_Invalid Readers_Too_Many) (
             rcheck (\<not> list_all (se_active e) ids) (Sv_Invalid Readers_Unknown) (Inr (sort ids)))))
      | _ \<Rightarrow> Inl (Sv_Invalid Readers_Not_List))"

definition check_module :: "sv_env \<Rightarrow> sv_user \<Rightarrow> string \<Rightarrow> bool \<Rightarrow> sv_error + unit" where
  "check_module e u m allow_unresolved =
     (if m = ''core'' then Inr ()
      else case se_access e (su_pk u) m of
             Unresolved \<Rightarrow> if allow_unresolved then Inr () else Inl (Sv_Invalid Module_Unknown)
           | Forbidden \<Rightarrow> Inl Sv_Denied
           | Usable \<Rightarrow> Inr ())"

section \<open>Access\<close>

definition is_owner :: "sv_user \<Rightarrow> view \<Rightarrow> bool" where
  "is_owner u v = (v_owner v = su_pk u)"

definition can_read :: "sv_user \<Rightarrow> view \<Rightarrow> bool" where
  "can_read u v = (is_owner u v \<or> v_readers v = [] \<or> su_pk u \<in> set (v_readers v))"

definition load_view :: "sv_user \<Rightarrow> nat option \<Rightarrow> sv_state \<Rightarrow> sv_error + view" where
  "load_view u wanted s =
     rbind (signed_in u) (\<lambda>_.
       case wanted of None \<Rightarrow> Inl Sv_Not_Found
       | Some i \<Rightarrow>
           (case find (\<lambda>v. v_id v = i) (sv_rows s) of
              None \<Rightarrow> Inl Sv_Not_Found
            | Some v \<Rightarrow> if reserved_key (v_key v) \<or> \<not> can_read u v then Inl Sv_Not_Found else Inr v))"

record view_row =
  vr_id :: nat
  vr_module :: string
  vr_key :: string
  vr_name :: string
  vr_payload :: pydict
  vr_shared :: bool
  vr_mine :: bool
  vr_can_edit :: bool
  vr_owner :: int
  vr_created :: int
  vr_updated :: int
  vr_readers :: "int list option"

definition serialize_view :: "view \<Rightarrow> sv_user \<Rightarrow> view_row" where
  "serialize_view v u = \<lparr>vr_id = v_id v, vr_module = v_module v, vr_key = v_key v, vr_name = v_name v,
     vr_payload = v_payload v, vr_shared = (v_readers v = []), vr_mine = is_owner u v, vr_can_edit = is_owner u v,
     vr_owner = v_owner v, vr_created = v_created v, vr_updated = v_updated v,
     vr_readers = (if is_owner u v then Some (v_readers v) else None)\<rparr>"

definition sv_audit_row :: "sv_env \<Rightarrow> sv_user \<Rightarrow> string \<Rightarrow> view \<Rightarrow> sv_state \<Rightarrow> sv_error + sv_state" where
  "sv_audit_row e u action v s =
     rcheck (\<not> se_audit e) Sv_Audit_Failed (Inr (s\<lparr>sv_audit := sv_audit s @ [(su_pk u, action, v_id v)]\<rparr>))"

section \<open>Operations\<close>

text \<open>\<open>list_views\<close>: \<open>view_key\<close> is \<open>None\<close> or empty for all keys.\<close>

definition list_views :: "sv_env \<Rightarrow> sv_user \<Rightarrow> pyval \<Rightarrow> pyval \<Rightarrow> sv_state \<Rightarrow> sv_error + view_row list" where
  "list_views e u module_id view_key s =
     rbind (signed_in u) (\<lambda>_.
     rbind (clean_module_id module_id) (\<lambda>m.
     rbind (if view_key = PNone \<or> view_key = PStr [] then Inr None
            else rbind (clean_view_key view_key) (\<lambda>k. Inr (Some k))) (\<lambda>key.
     rbind (check_module e u m False) (\<lambda>_.
       Inr (take 500 (map (\<lambda>v. serialize_view v u)
             (filter (\<lambda>v. \<not> reserved_key (v_key v) \<and> can_read u v)
               (sort_key (\<lambda>v. (v_name v, v_id v))
                 (filter (\<lambda>v. v_module v = m \<and> (key = None \<or> key = Some (v_key v))) (sv_rows s))))))))))"

definition get_view :: "sv_env \<Rightarrow> sv_user \<Rightarrow> nat option \<Rightarrow> sv_state \<Rightarrow> sv_error + view_row" where
  "get_view e u wanted s =
     rbind (load_view u wanted s) (\<lambda>v.
       case check_module e u (v_module v) (is_owner u v) of
         Inl (Sv_Invalid _) \<Rightarrow> Inl Sv_Not_Found
       | Inl x \<Rightarrow> Inl x
       | Inr _ \<Rightarrow> Inr (serialize_view v u))"

definition own_views :: "sv_user \<Rightarrow> string \<Rightarrow> string \<Rightarrow> sv_state \<Rightarrow> view list" where
  "own_views u m k s = filter (\<lambda>v. v_owner v = su_pk u \<and> v_module v = m \<and> v_key v = k) (sv_rows s)"

definition create_view ::
  "sv_env \<Rightarrow> sv_user \<Rightarrow> pyval \<Rightarrow> pyval \<Rightarrow> pyval \<Rightarrow> pyval \<Rightarrow> pyval \<Rightarrow> sv_state \<Rightarrow> sv_error + view_row \<times> sv_state" where
  "create_view e u module_id view_key name payload readers s =
     rbind (signed_in u) (\<lambda>_.
     rbind (clean_module_id module_id) (\<lambda>m.
     rbind (clean_view_key view_key) (\<lambda>k.
     rbind (clean_name name) (\<lambda>n.
     rbind (clean_view_payload payload) (\<lambda>p.
     rbind (clean_readers e readers) (\<lambda>rs.
     rbind (check_module e u m False) (\<lambda>_.
     rcheck (list_ex (\<lambda>v. v_name v = n) (own_views u m k s)) Sv_Conflict (
     rcheck (100 \<le> length (own_views u m k s)) (Sv_Invalid Too_Many_Views) (
       (let v = \<lparr>v_id = sv_next s, v_module = m, v_key = k, v_name = n, v_payload = p, v_owner = su_pk u,
                 v_readers = rs, v_created = se_now e, v_updated = se_now e\<rparr>
        in rbind (sv_audit_row e u ''add'' v (s\<lparr>sv_rows := sv_rows s @ [v], sv_next := Suc (sv_next s)\<rparr>)) (\<lambda>s'.
             Inr (serialize_view v u, s'))))))))))))"

definition name_taken :: "sv_user \<Rightarrow> view \<Rightarrow> string \<Rightarrow> sv_state \<Rightarrow> bool" where
  "name_taken u v n s =
     list_ex (\<lambda>w. v_name w = n \<and> v_id w \<noteq> v_id v) (own_views u (v_module v) (v_key v) s)"

record sv_changes =
  ch_module :: "pyval option"
  ch_key :: "pyval option"
  ch_name :: "pyval option"
  ch_payload :: "pyval option"
  ch_readers :: "pyval option"

definition optional :: "('a \<Rightarrow> 'e + 'b) \<Rightarrow> 'a option \<Rightarrow> 'e + 'b option" where
  "optional f x = (case x of None \<Rightarrow> Inr None | Some a \<Rightarrow> rbind (f a) (\<lambda>b. Inr (Some b)))"

definition update_view :: "sv_env \<Rightarrow> sv_user \<Rightarrow> nat option \<Rightarrow> sv_changes \<Rightarrow> sv_state \<Rightarrow> sv_error + view_row \<times> sv_state" where
  "update_view e u wanted ch s =
     rbind (load_view u wanted s) (\<lambda>v.
     rbind (check_module e u (v_module v) False) (\<lambda>_.
     rcheck (\<not> is_owner u v) Sv_Denied (
     rbind (optional clean_module_id (ch_module ch)) (\<lambda>m.
     rcheck (m \<noteq> None \<and> m \<noteq> Some (v_module v)) (Sv_Invalid Module_Fixed) (
     rcheck (ch_key ch \<noteq> None \<and> ch_key ch \<noteq> Some (PStr (v_key v))) (Sv_Invalid View_Key_Fixed) (
     rbind (optional clean_name (ch_name ch)) (\<lambda>n.
     rbind (optional clean_view_payload (ch_payload ch)) (\<lambda>p.
     rbind (optional (clean_readers e) (ch_readers ch)) (\<lambda>rs.
     rcheck (case n of None \<Rightarrow> False | Some x \<Rightarrow> name_taken u v x s) Sv_Conflict (
       (let v' = v\<lparr>v_name := (case n of None \<Rightarrow> v_name v | Some x \<Rightarrow> x),
                   v_payload := (case p of None \<Rightarrow> v_payload v | Some x \<Rightarrow> x),
                   v_readers := (case rs of None \<Rightarrow> v_readers v | Some x \<Rightarrow> x), v_updated := se_now e\<rparr>
        in rbind (sv_audit_row e u ''modify'' v'
                    (s\<lparr>sv_rows := map (\<lambda>w. if v_id w = v_id v then v' else w) (sv_rows s)\<rparr>)) (\<lambda>s'.
             Inr (serialize_view v' u, s')))))))))))))"

definition delete_view :: "sv_env \<Rightarrow> sv_user \<Rightarrow> nat option \<Rightarrow> sv_state \<Rightarrow> sv_error + sv_state" where
  "delete_view e u wanted s =
     rbind (load_view u wanted s) (\<lambda>v.
     rcheck (\<not> is_owner u v) Sv_Denied (
     rbind (check_module e u (v_module v) True) (\<lambda>_.
     rbind (sv_audit_row e u ''delete'' v s) (\<lambda>s'.
       Inr (s'\<lparr>sv_rows := filter (\<lambda>w. v_id w \<noteq> v_id v) (sv_rows s')\<rparr>)))))"

section \<open>The service as a machine\<close>

datatype sv_op =
    Op_Create sv_env sv_user pyval pyval pyval pyval pyval
  | Op_Update sv_env sv_user "nat option" sv_changes
  | Op_Delete sv_env sv_user "nat option"

fun op_user :: "sv_op \<Rightarrow> sv_user" where
  "op_user (Op_Create e u m k n p r) = u"
| "op_user (Op_Update e u i ch) = u"
| "op_user (Op_Delete e u i) = u"

fun sv_step :: "sv_op \<Rightarrow> sv_state \<Rightarrow> sv_error + sv_state" where
  "sv_step (Op_Create e u m k n p r) s = rbind (create_view e u m k n p r s) (\<lambda>x. Inr (snd x))"
| "sv_step (Op_Update e u i ch) s = rbind (update_view e u i ch s) (\<lambda>x. Inr (snd x))"
| "sv_step (Op_Delete e u i) s = delete_view e u i s"

fun sv_run :: "sv_op list \<Rightarrow> sv_state \<Rightarrow> sv_state" where
  "sv_run [] s = s"
| "sv_run (i # is) s = (case sv_step i s of Inl _ \<Rightarrow> sv_run is s | Inr s' \<Rightarrow> sv_run is s')"

definition view_ident :: "view \<Rightarrow> int \<times> string \<times> string \<times> string" where
  "view_ident v = (v_owner v, v_module v, v_key v, v_name v)"

definition view_ok :: "view \<Rightarrow> bool" where
  "view_ok v = (view_key_re (v_key v) \<and> \<not> reserved_key (v_key v) \<and> v_name v \<noteq> [] \<and> length (v_name v) \<le> 160 \<and>
     json_finite (PDict (v_payload v)) \<and> utf8_length (json_dumps (PDict (v_payload v))) \<le> 65536 \<and>
     sorted (v_readers v) \<and> distinct (v_readers v) \<and> length (v_readers v) \<le> 100 \<and> (\<forall>i \<in> set (v_readers v). 1 \<le> i))"

definition shelf :: "int \<times> string \<times> string \<Rightarrow> view list \<Rightarrow> view list" where
  "shelf k rows = filter (\<lambda>v. (v_owner v, v_module v, v_key v) = k) rows"

definition sv_inv :: "sv_state \<Rightarrow> bool" where
  "sv_inv s = (distinct (map v_id (sv_rows s)) \<and> (\<forall>v \<in> set (sv_rows s). v_id v < sv_next s \<and> view_ok v) \<and>
     distinct (map view_ident (sv_rows s)) \<and> (\<forall>k. length (shelf k (sv_rows s)) \<le> 100))"

section \<open>What the validators give\<close>

lemma clean_view_key_ok: "clean_view_key v = Inr k \<Longrightarrow> view_key_re k \<and> \<not> reserved_key k"
  by (auto simp: clean_view_key_def split: pyval.splits)

lemma clean_name_ok: "clean_name v = Inr n \<Longrightarrow> n \<noteq> [] \<and> length n \<le> 160"
  by (auto simp: clean_name_def split: pyval.splits)

lemma clean_view_payload_ok:
  "clean_view_payload v = Inr p \<Longrightarrow> json_finite (PDict p) \<and> utf8_length (json_dumps (PDict p)) \<le> 65536"
  by (auto simp: clean_view_payload_def split: pyval.splits)

lemma reader_id_ok: "reader_id v = Inr i \<Longrightarrow> 1 \<le> i"
  by (auto simp: reader_id_def split: pyval.splits)

definition readers_ok :: "int list \<Rightarrow> bool" where
  "readers_ok rs = (sorted rs \<and> distinct rs \<and> length rs \<le> 100 \<and> (\<forall>i \<in> set rs. 1 \<le> i))"

lemma clean_readers_ok:
  assumes "clean_readers e v = Inr rs"
  shows "readers_ok rs \<and> list_all (se_active e) rs"
proof (cases v)
  case (PList xs)
  then obtain raw where r: "rmap reader_id xs = Inr raw" "length (dedup raw) \<le> 100" "list_all (se_active e) (dedup raw)" "rs = sort (dedup raw)"
    using assms by (auto simp: clean_readers_def Let_def)
  have "1 \<le> i" if "i \<in> set raw" for i using rmap_Inr_set [OF r(1) that] reader_id_ok by blast
  then show ?thesis using r(2-4) by (auto simp: list_all_iff readers_ok_def)
qed (use assms in \<open>auto simp: clean_readers_def readers_ok_def\<close>)

lemma view_ok_alt: "view_ok v = (view_key_re (v_key v) \<and> \<not> reserved_key (v_key v) \<and> v_name v \<noteq> [] \<and> length (v_name v) \<le> 160 \<and>
     json_finite (PDict (v_payload v)) \<and> utf8_length (json_dumps (PDict (v_payload v))) \<le> 65536 \<and> readers_ok (v_readers v))"
  by (simp add: view_ok_def readers_ok_def)

lemma optional_Inr: "optional f x = Inr y \<longleftrightarrow> (x = None \<and> y = None) \<or> (\<exists>a b. x = Some a \<and> f a = Inr b \<and> y = Some b)"
  by (auto simp: optional_def split: option.splits)

section \<open>What each operation does\<close>

lemma load_view_Inr:
  assumes "load_view u i s = Inr v"
  shows "v \<in> set (sv_rows s) \<and> can_read u v \<and> \<not> reserved_key (v_key v) \<and> su_authenticated u \<and> i = Some (v_id v)"
  using assms by (auto simp: load_view_def signed_in_def find_Some_iff split: option.splits if_splits)

lemma create_view_Inr:
  assumes "create_view e u m k n p r s = Inr (row, s')"
  shows "\<exists>v. sv_rows s' = sv_rows s @ [v] \<and> sv_next s' = Suc (sv_next s) \<and> v_id v = sv_next s \<and> view_ok v \<and>
     v_owner v = su_pk u \<and> (\<forall>w \<in> set (sv_rows s). view_ident w \<noteq> view_ident v) \<and>
     length (shelf (su_pk u, v_module v, v_key v) (sv_rows s)) < 100 \<and> row = serialize_view v u"
proof -
  obtain mm kk nn pp rr where c: "clean_view_key k = Inr kk" "clean_name n = Inr nn" "clean_view_payload p = Inr pp" "clean_readers e r = Inr rr"
    and t: "\<not> list_ex (\<lambda>v. v_name v = nn) (own_views u mm kk s)" "length (own_views u mm kk s) < 100"
    and s': "s' = s\<lparr>sv_rows := sv_rows s @ [\<lparr>v_id = sv_next s, v_module = mm, v_key = kk, v_name = nn, v_payload = pp,
         v_owner = su_pk u, v_readers = rr, v_created = se_now e, v_updated = se_now e\<rparr>], sv_next := Suc (sv_next s),
         sv_audit := sv_audit s @ [(su_pk u, ''add'', sv_next s)]\<rparr>"
    and row: "row = serialize_view \<lparr>v_id = sv_next s, v_module = mm, v_key = kk, v_name = nn, v_payload = pp,
         v_owner = su_pk u, v_readers = rr, v_created = se_now e, v_updated = se_now e\<rparr> u"
    using assms by (auto simp: create_view_def sv_audit_row_def Let_def)
  have sh: "shelf (su_pk u, mm, kk) (sv_rows s) = own_views u mm kk s" by (simp add: shelf_def own_views_def)
  show ?thesis
    using clean_view_key_ok [OF c(1)] clean_name_ok [OF c(2)] clean_view_payload_ok [OF c(3)] clean_readers_ok [OF c(4)] t sh
    by (intro exI [of _ "\<lparr>v_id = sv_next s, v_module = mm, v_key = kk, v_name = nn, v_payload = pp,
         v_owner = su_pk u, v_readers = rr, v_created = se_now e, v_updated = se_now e\<rparr>"])
       (auto simp: s' row view_ok_alt view_ident_def own_views_def list_ex_iff)
qed

lemma update_view_Inr:
  assumes "update_view e u i ch s = Inr (row, s')"
  shows "\<exists>v v'. load_view u i s = Inr v \<and> is_owner u v \<and>
     sv_rows s' = map (\<lambda>w. if v_id w = v_id v then v' else w) (sv_rows s) \<and> sv_next s' = sv_next s \<and>
     v_id v' = v_id v \<and> v_owner v' = v_owner v \<and> v_module v' = v_module v \<and> v_key v' = v_key v \<and>
     (view_ok v \<longrightarrow> view_ok v') \<and>
     (v_name v' = v_name v \<or> \<not> name_taken u v (v_name v') s)"
proof -
  obtain v n p rs where v: "load_view u i s = Inr v" "is_owner u v"
    and c: "optional clean_name (ch_name ch) = Inr n" "optional clean_view_payload (ch_payload ch) = Inr p" "optional (clean_readers e) (ch_readers ch) = Inr rs"
    and nt: "\<not> (case n of None \<Rightarrow> False | Some x \<Rightarrow> name_taken u v x s)"
    and rest: "rbind (sv_audit_row e u ''modify''
        (v\<lparr>v_name := (case n of None \<Rightarrow> v_name v | Some x \<Rightarrow> x), v_payload := (case p of None \<Rightarrow> v_payload v | Some x \<Rightarrow> x),
           v_readers := (case rs of None \<Rightarrow> v_readers v | Some x \<Rightarrow> x), v_updated := se_now e\<rparr>)
        (s\<lparr>sv_rows := map (\<lambda>w. if v_id w = v_id v then
           (v\<lparr>v_name := (case n of None \<Rightarrow> v_name v | Some x \<Rightarrow> x), v_payload := (case p of None \<Rightarrow> v_payload v | Some x \<Rightarrow> x),
           v_readers := (case rs of None \<Rightarrow> v_readers v | Some x \<Rightarrow> x), v_updated := se_now e\<rparr>) else w) (sv_rows s)\<rparr>))
        (\<lambda>s'. Inr (serialize_view (v\<lparr>v_name := (case n of None \<Rightarrow> v_name v | Some x \<Rightarrow> x), v_payload := (case p of None \<Rightarrow> v_payload v | Some x \<Rightarrow> x),
           v_readers := (case rs of None \<Rightarrow> v_readers v | Some x \<Rightarrow> x), v_updated := se_now e\<rparr>) u, s')) = Inr (row, s')"
    using assms unfolding update_view_def Let_def by (simp only: rbind_Inr_iff rcheck_Inr_iff) blast
  let ?v' = "v\<lparr>v_name := (case n of None \<Rightarrow> v_name v | Some x \<Rightarrow> x), v_payload := (case p of None \<Rightarrow> v_payload v | Some x \<Rightarrow> x),
           v_readers := (case rs of None \<Rightarrow> v_readers v | Some x \<Rightarrow> x), v_updated := se_now e\<rparr>"
  have "view_ok v \<longrightarrow> view_ok ?v'"
    using c clean_name_ok clean_view_payload_ok clean_readers_ok
    by (auto simp: view_ok_alt optional_Inr split: option.splits)
  moreover have "v_name ?v' = v_name v \<or> \<not> name_taken u v (v_name ?v') s" using nt by (auto split: option.splits)
  ultimately show ?thesis using v rest
    by (intro exI [of _ v] exI [of _ ?v']) (auto simp: sv_audit_row_def)
qed

lemma delete_view_Inr:
  assumes "delete_view e u i s = Inr s'"
  shows "\<exists>v. load_view u i s = Inr v \<and> is_owner u v \<and>
     sv_rows s' = filter (\<lambda>w. v_id w \<noteq> v_id v) (sv_rows s) \<and> sv_next s' = sv_next s"
  using assms by (auto simp: delete_view_def sv_audit_row_def)

section \<open>The invariant\<close>

lemma shelf_append: "shelf k (xs @ ys) = shelf k xs @ shelf k ys"
  by (simp add: shelf_def)

lemma sv_inv_shelf: "sv_inv s \<Longrightarrow> length (shelf k (sv_rows s)) \<le> 100"
  unfolding sv_inv_def by blast

lemma sv_invI:
  assumes "distinct (map v_id (sv_rows s))" and "\<And>v. v \<in> set (sv_rows s) \<Longrightarrow> v_id v < sv_next s \<and> view_ok v"
    and "distinct (map view_ident (sv_rows s))" and "\<And>k. length (shelf k (sv_rows s)) \<le> 100"
  shows "sv_inv s"
  using assms unfolding sv_inv_def by blast

lemma sv_inv_create:
  assumes "sv_inv s" and "create_view e u m k n p r s = Inr (row, s')"
  shows "sv_inv s'"
proof -
  from create_view_Inr [OF assms(2)] obtain v where v: "sv_rows s' = sv_rows s @ [v]" "sv_next s' = Suc (sv_next s)"
    "v_id v = sv_next s" "view_ok v" "v_owner v = su_pk u" "\<forall>w \<in> set (sv_rows s). view_ident w \<noteq> view_ident v"
    "length (shelf (su_pk u, v_module v, v_key v) (sv_rows s)) < 100" by blast
  have "length (shelf q (sv_rows s')) \<le> 100" for q
  proof (cases "q = (su_pk u, v_module v, v_key v)")
    case True
    then show ?thesis using v(5,7) by (simp add: v(1) shelf_append) (simp add: shelf_def)
  next
    case False
    then have "shelf q [v] = []" using v(5) by (auto simp: shelf_def)
    then show ?thesis using assms(1) by (simp add: v(1) shelf_append sv_inv_shelf)
  qed
  moreover have "distinct (map v_id (sv_rows s'))" using assms(1) v(1,3) by (auto simp: sv_inv_def)
  moreover have "distinct (map view_ident (sv_rows s'))" using assms(1) v(1,6) by (auto simp: sv_inv_def image_iff)
  moreover have "\<forall>w \<in> set (sv_rows s'). v_id w < sv_next s' \<and> view_ok w"
    using assms(1) v(1-4) by (auto simp: sv_inv_def less_Suc_eq)
  ultimately show ?thesis by (intro sv_invI) blast+
qed

lemma distinct_ident_map:
  assumes "distinct (map view_ident rs)" and "distinct (map v_id rs)" and "v \<in> set rs" and "v_id v' = v_id v"
    and "\<forall>w \<in> set rs. v_id w \<noteq> v_id v \<longrightarrow> view_ident w \<noteq> view_ident v'"
  shows "distinct (map view_ident (map (\<lambda>w. if v_id w = v_id v then v' else w) rs))"
  using assms
proof (induction rs)
  case (Cons a rs)
  show ?case
  proof (cases "a = v")
    case True
    have "map (\<lambda>w. if v_id w = v_id v then v' else w) rs = rs"
    proof (intro map_idI)
      fix x assume "x \<in> set rs"
      then have "v_id x \<noteq> v_id v" using Cons.prems(2) True by (auto simp: image_iff)
      then show "(if v_id x = v_id v then v' else x) = x" by simp
    qed
    moreover have "view_ident v' \<notin> view_ident ` set rs"
      using Cons.prems(2,5) True by (auto simp: image_iff) metis
    ultimately show ?thesis using True Cons.prems(1) by simp
  next
    case False
    then have ne: "v \<in> set rs" "v_id a \<noteq> v_id v" using Cons.prems by (auto simp: image_iff)
    then have IH: "distinct (map view_ident (map (\<lambda>w. if v_id w = v_id v then v' else w) rs))"
      using Cons.IH Cons.prems by simp
    have "view_ident a \<notin> view_ident ` set (map (\<lambda>w. if v_id w = v_id v then v' else w) rs)"
      using Cons.prems(1,5) ne(2) by (auto simp: image_iff split: if_splits)
    then show ?thesis using IH ne(2) by (simp only: list.map distinct.simps set_map if_False) simp
  qed
qed simp

lemma shelf_map:
  assumes "v_owner v' = v_owner v" "v_module v' = v_module v" "v_key v' = v_key v"
    and "\<forall>w \<in> set rs. v_id w = v_id v \<longrightarrow> w = v"
  shows "length (shelf k (map (\<lambda>w. if v_id w = v_id v then v' else w) rs)) = length (shelf k rs)"
  using assms(4) by (induction rs) (auto simp: shelf_def assms(1-3))

lemma sv_inv_update:
  assumes "sv_inv s" and "update_view e u i ch s = Inr (row, s')"
  shows "sv_inv s'"
proof -
  from update_view_Inr [OF assms(2)] obtain v v' where v: "load_view u i s = Inr v" "is_owner u v"
    "sv_rows s' = map (\<lambda>w. if v_id w = v_id v then v' else w) (sv_rows s)" "sv_next s' = sv_next s"
    "v_id v' = v_id v" "v_owner v' = v_owner v" "v_module v' = v_module v" "v_key v' = v_key v"
    "view_ok v \<longrightarrow> view_ok v'" "v_name v' = v_name v \<or> \<not> name_taken u v (v_name v') s" by blast
  have mem: "v \<in> set (sv_rows s)" using load_view_Inr [OF v(1)] by simp
  have ids: "\<forall>w \<in> set (sv_rows s). v_id w = v_id v \<longrightarrow> w = v"
    using assms(1) mem by (auto simp: sv_inv_def distinct_map dest: inj_onD)
  have "view_ident w \<noteq> view_ident v'" if w: "w \<in> set (sv_rows s)" "v_id w \<noteq> v_id v" for w
  proof (cases "v_name v' = v_name v")
    case True
    then have "view_ident v' = view_ident v" using v(6-8) by (simp add: view_ident_def)
    then show ?thesis using assms(1) w mem by (auto simp: sv_inv_def distinct_map dest: inj_onD)
  next
    case False
    then show ?thesis using v(2,6-8,10) w
      by (auto simp: name_taken_def own_views_def list_ex_iff view_ident_def is_owner_def)
  qed
  then have "distinct (map view_ident (sv_rows s'))"
    unfolding v(3) using assms(1) mem v(5) by (intro distinct_ident_map) (auto simp: sv_inv_def)
  moreover have "map v_id (sv_rows s') = map v_id (sv_rows s)" by (simp add: v(3,5))
  moreover have "length (shelf k (sv_rows s')) \<le> 100" for k
    unfolding v(3) shelf_map [OF v(6-8) ids] using assms(1) by (simp add: sv_inv_shelf)
  moreover have "\<forall>w \<in> set (sv_rows s'). v_id w < sv_next s' \<and> view_ok w"
    using assms(1) mem v(4,5,9) by (auto simp: v(3) sv_inv_def)
  moreover have "distinct (map v_id (sv_rows s))" using assms(1) by (simp add: sv_inv_def)
  ultimately show ?thesis by (intro sv_invI) simp_all
qed

lemma sv_inv_delete:
  assumes "sv_inv s" and "delete_view e u i s = Inr s'"
  shows "sv_inv s'"
proof -
  from delete_view_Inr [OF assms(2)] obtain v where v: "load_view u i s = Inr v"
    "sv_rows s' = filter (\<lambda>w. v_id w \<noteq> v_id v) (sv_rows s)" "sv_next s' = sv_next s" by blast
  have le: "length (shelf k (filter P rs)) \<le> length (shelf k rs)" for k P rs
    by (induction rs) (auto simp: shelf_def)
  show ?thesis
  proof (rule sv_invI)
    show "length (shelf k (sv_rows s')) \<le> 100" for k
      unfolding v(2) using le sv_inv_shelf [OF assms(1), of k] by (rule order_trans)
  qed (use assms(1) in \<open>auto simp: sv_inv_def v distinct_map_filter\<close>)
qed

lemma sv_inv_step: "sv_inv s \<Longrightarrow> sv_step i s = Inr s' \<Longrightarrow> sv_inv s'"
  by (cases i) (auto intro: sv_inv_create sv_inv_update sv_inv_delete)

interpretation svm: guarded_machine sv_step sv_inv
  by unfold_locales (rule sv_inv_step)

lemma sv_run_machine: "sv_run is s = svm.run is s"
  by (induction "is" arbitrary: s) (auto split: sum.splits)

definition sv_empty :: sv_state where
  "sv_empty = \<lparr>sv_rows = [], sv_next = 0, sv_audit = []\<rparr>"

text \<open>In every history of creates, updates and deletes by any users: a user never has two views of the same name under one module
  and key, never more than 100 under one module and key, and every stored view has a valid key outside the reserved prefix, a
  name of 1 to 160 characters, a payload of at most 64 KiB and at most 100 different readers.\<close>

theorem saved_views_invariant:
  "distinct (map view_ident (sv_rows (sv_run ops sv_empty))) \<and>
   (\<forall>k. length (shelf k (sv_rows (sv_run ops sv_empty))) \<le> 100) \<and>
   (\<forall>v \<in> set (sv_rows (sv_run ops sv_empty)). view_ok v)"
proof -
  have "sv_inv sv_empty" by (simp add: sv_inv_def sv_empty_def shelf_def)
  then have "sv_inv (sv_run ops sv_empty)" by (simp add: sv_run_machine svm.run_inv)
  then show ?thesis by (simp add: sv_inv_def)
qed

definition demo_sv_env :: sv_env where
  "demo_sv_env = \<lparr>se_now = 1, se_active = (\<lambda>i. i < 10), se_access = (\<lambda>u m. Usable), se_audit = True\<rparr>"

definition demo_owner :: sv_user where "demo_owner = \<lparr>su_pk = 2, su_authenticated = True\<rparr>"

definition demo_ops :: "sv_op list" where
  "demo_ops = [Op_Create demo_sv_env demo_owner (PStr ''core'') (PStr ''table'') (PStr '' Mine '') (PDict []) (PList [PInt 2, PInt 5, PInt 2])]"

theorem saved_views_invariant_witness:
  "\<exists>v. sv_rows (sv_run demo_ops sv_empty) = [v] \<and> v_readers v = [2, 5] \<and> view_ok v"
proof -
  have "map v_readers (sv_rows (sv_run demo_ops sv_empty)) = [[2, 5]]" by code_simp
  then obtain v where "sv_rows (sv_run demo_ops sv_empty) = [v]" "v_readers v = [2, 5]"
    by (auto simp: map_eq_Cons_conv)
  then show ?thesis using saved_views_invariant [of demo_ops] by simp
qed

section \<open>Ownership and secrecy\<close>

text \<open>Only its owner changes or removes a saved view: whatever operation another user runs, the view is still there unchanged.\<close>

theorem only_the_owner_changes_a_view:
  assumes "sv_inv s" and "v \<in> set (sv_rows s)" and "v_owner v \<noteq> su_pk (op_user i)"
  shows "v \<in> set (sv_rows (sv_run [i] s))"
proof (cases "sv_step i s")
  case (Inr s')
  have ids: "w = x" if "w \<in> set (sv_rows s)" "x \<in> set (sv_rows s)" "v_id w = v_id x" for w x
    using assms(1) that by (auto simp: sv_inv_def distinct_map dest: inj_onD)
  have "v \<in> set (sv_rows s')"
  proof (cases i)
    case (Op_Create e u m k n p r)
    then show ?thesis using Inr assms(2) create_view_Inr by fastforce
  next
    case (Op_Update e u w ch)
    then obtain row where "update_view e u w ch s = Inr (row, s')" using Inr by auto
    from update_view_Inr [OF this] obtain x x' where x: "load_view u w s = Inr x" "is_owner u x"
      "sv_rows s' = map (\<lambda>w. if v_id w = v_id x then x' else w) (sv_rows s)" by blast
    have "v_id v \<noteq> v_id x"
      using ids [OF assms(2)] load_view_Inr [OF x(1)] x(2) assms(3) Op_Update by (auto simp: is_owner_def)
    then show ?thesis using assms(2) by (force simp: x(3))
  next
    case (Op_Delete e u w)
    then have "delete_view e u w s = Inr s'" using Inr by simp
    from delete_view_Inr [OF this] obtain x where x: "load_view u w s = Inr x" "is_owner u x"
      "sv_rows s' = filter (\<lambda>w. v_id w \<noteq> v_id x) (sv_rows s)" by blast
    have "v_id v \<noteq> v_id x"
      using ids [OF assms(2)] load_view_Inr [OF x(1)] x(2) assms(3) Op_Delete by (auto simp: is_owner_def)
    then show ?thesis using assms(2) by (simp add: x(3))
  qed
  then show ?thesis using Inr by simp
qed (use assms in simp)

definition sv_without :: "view \<Rightarrow> sv_state \<Rightarrow> sv_state" where
  "sv_without v s = s\<lparr>sv_rows := filter (\<lambda>w. v_id w \<noteq> v_id v) (sv_rows s)\<rparr>"

lemma find_without:
  assumes "\<forall>w \<in> set rs. v_id w = v_id v \<longrightarrow> w = v" and "i \<noteq> v_id v"
  shows "find (\<lambda>w. v_id w = i) (filter (\<lambda>w. v_id w \<noteq> v_id v) rs) = find (\<lambda>w. v_id w = i) rs"
  using assms by (induction rs) auto

lemma load_view_without:
  assumes "sv_inv s" and "v \<in> set (sv_rows s)" and "\<not> can_read u v"
  shows "load_view u i (sv_without v s) = load_view u i s"
proof -
  have ids: "\<forall>w \<in> set (sv_rows s). v_id w = v_id v \<longrightarrow> w = v"
    using assms(1,2) by (auto simp: sv_inv_def distinct_map dest: inj_onD)
  have "find (\<lambda>w. v_id w = v_id v) (sv_rows s) = Some v"
  proof (cases "find (\<lambda>w. v_id w = v_id v) (sv_rows s)")
    case None
    then show ?thesis using assms(2) by (auto simp: find_None_iff)
  next
    case (Some w)
    then have "w \<in> set (sv_rows s)" "v_id w = v_id v" by (auto simp: find_Some_iff)
    then show ?thesis using ids Some by simp
  qed
  moreover have "find (\<lambda>w. v_id w = v_id v) (filter (\<lambda>w. v_id w \<noteq> v_id v) (sv_rows s)) = None"
    by (simp add: find_None_iff)
  moreover have "find (\<lambda>w. v_id w = j) (filter (\<lambda>w. v_id w \<noteq> v_id v) (sv_rows s)) = find (\<lambda>w. v_id w = j) (sv_rows s)"
    if "j \<noteq> v_id v" for j by (rule find_without [OF ids that])
  ultimately show ?thesis using assms(3)
    by (cases i; cases "i = Some (v_id v)") (simp_all add: load_view_def sv_without_def signed_in_def rcheck_def)
qed

lemma sort_key_filter: "filter P (sort_key f xs) = sort_key f (filter P xs)"
  by (rule filter_sort)


definition demo_other :: sv_user where "demo_other = \<lparr>su_pk = 7, su_authenticated = True\<rparr>"

lemma demo_inv: "sv_inv (sv_run demo_ops sv_empty)"
proof -
  have "sv_inv sv_empty" by (simp add: sv_inv_def sv_empty_def shelf_def)
  then show ?thesis unfolding sv_run_machine by (rule svm.run_inv)
qed

lemma demo_view: "\<exists>v. sv_rows (sv_run demo_ops sv_empty) = [v] \<and> v_owner v = 2 \<and> v_readers v = [2, 5] \<and> v_id v = 0"
proof -
  have "map (\<lambda>v. (v_owner v, v_readers v, v_id v)) (sv_rows (sv_run demo_ops sv_empty)) = [(2, [2, 5], 0)]" by code_simp
  then show ?thesis by auto
qed


theorem only_the_owner_changes_a_view_witness:
  "map v_owner (sv_rows (sv_run [Op_Delete demo_sv_env demo_other (Some 0)] (sv_run demo_ops sv_empty))) \<noteq> []"
proof -
  obtain v where v: "sv_rows (sv_run demo_ops sv_empty) = [v]" "v_owner v = 2" using demo_view by blast
  have "v \<in> set (sv_rows (sv_run [Op_Delete demo_sv_env demo_other (Some 0)] (sv_run demo_ops sv_empty)))"
    by (rule only_the_owner_changes_a_view [OF demo_inv]) (simp_all add: v demo_other_def)
  then show ?thesis by auto
qed

end
