(* ===== verification/Dashboards.thy ===== *)
theory Dashboards
  imports Rbac
begin

text \<open>
  Dashboards (\<open>dashboards.py\<close>): who sees and who may edit one, and the normal form of a layout and of a dashboard payload. The role's
  server-maintenance flag is the \<open>can_do_server_maint\<close> entry of the role record of the permission component.
\<close>

section \<open>Dashboards and their visibility\<close>

record dashboard =
  db_id :: nat
  db_name :: string
  db_shared :: bool
  db_layout :: pyval
  db_owner :: int
  db_owner_first :: string
  db_owner_last :: string
  db_owner_username :: string

record dash_user =
  du_id :: int
  du_account :: user

datatype dash_error =
    Layout_Not_Object | Widgets_Not_Array | Too_Many_Widgets | Widget_Not_Object | Widget_Ids_Required
  | Duplicate_Instance | Size_Not_Numeric | Settings_Not_Object | Layout_Too_Large
  | Payload_Not_Object | Unknown_Fields | Name_Missing | Name_Long | Bad_Visibility | Dashboard_Not_Found
  | Dash_Uncaught py_exn

definition role_of_user :: "user \<Rightarrow> role option" where
  "role_of_user u = (case u_role_cache u of Role_Raises \<Rightarrow> u_role u | Role_Is r \<Rightarrow> r)"

definition is_admin :: "user \<Rightarrow> bool" where
  "is_admin u = (u_superuser u \<or>
     (case role_of_user u of None \<Rightarrow> False
      | Some r \<Rightarrow> ro_superuser r \<or> get_or (ro_flags r) ''can_do_server_maint'' False))"

definition visible_dashboards :: "dash_user \<Rightarrow> dashboard list \<Rightarrow> dashboard list" where
  "visible_dashboards u ds = filter (\<lambda>d. db_owner d = du_id u \<or> db_shared d) ds"

definition get_visible_dashboard :: "dash_user \<Rightarrow> nat \<Rightarrow> dashboard list \<Rightarrow> dash_error + dashboard" where
  "get_visible_dashboard u i ds =
     (case find (\<lambda>d. db_id d = i) (visible_dashboards u ds) of None \<Rightarrow> Inl Dashboard_Not_Found | Some d \<Rightarrow> Inr d)"

definition can_edit_dashboard :: "dash_user \<Rightarrow> dashboard \<Rightarrow> bool" where
  "can_edit_dashboard u d = (db_owner d = du_id u \<or> (db_shared d \<and> is_admin (du_account u)))"

section \<open>Layouts\<close>

definition max_layout_bytes :: int where "max_layout_bytes = 524288"
definition max_widgets :: nat where "max_widgets = 100"

text \<open>\<open>int\<close> in the layout: a type or value error is reported, an overflow (an infinite number) is not caught.\<close>

fun size_number :: "py_exn + int \<Rightarrow> dash_error + int" where
  "size_number (Inr n) = Inr n"
| "size_number (Inl TypeError) = Inl Size_Not_Numeric"
| "size_number (Inl ValueError) = Inl Size_Not_Numeric"
| "size_number (Inl x) = Inl (Dash_Uncaught x)"

definition clamp_size :: "int \<Rightarrow> int" where
  "clamp_size n = min 12 (max 1 n)"

record widget =
  wi_instance :: string
  wi_widget :: string
  wi_w :: int
  wi_h :: int
  wi_settings :: pydict

definition clean_widget :: "string list \<Rightarrow> pyval \<Rightarrow> dash_error + widget" where
  "clean_widget seen v =
     rbind (as_dict Widget_Not_Object v) (\<lambda>item.
       (let inst = strip (py_str (get_or item ''instance_id'' (PStr [])));
            wid = strip (py_str (get_or item ''widget_id'' (PStr [])))
        in rcheck (inst = [] \<or> wid = []) Widget_Ids_Required (
           rcheck (inst \<in> set seen) Duplicate_Instance (
           rbind (size_number (py_int (get_or item ''w'' (PInt 4)))) (\<lambda>w.
           rbind (size_number (py_int (get_or item ''h'' (PInt 3)))) (\<lambda>h.
           rbind (as_dict Settings_Not_Object (get_or item ''settings'' (PDict []))) (\<lambda>st.
             Inr \<lparr>wi_instance = inst, wi_widget = wid, wi_w = clamp_size w, wi_h = clamp_size h, wi_settings = st\<rparr>)))))))"

fun clean_widgets :: "string list \<Rightarrow> pyval list \<Rightarrow> dash_error + widget list" where
  "clean_widgets seen [] = Inr []"
| "clean_widgets seen (v # vs) =
     rbind (clean_widget seen v) (\<lambda>w. rbind (clean_widgets (wi_instance w # seen) vs) (\<lambda>ws. Inr (w # ws)))"

definition widget_val :: "widget \<Rightarrow> pyval" where
  "widget_val w = PDict [(''instance_id'', PStr (wi_instance w)), (''widget_id'', PStr (wi_widget w)),
     (''w'', PInt (wi_w w)), (''h'', PInt (wi_h w)), (''settings'', PDict (wi_settings w))]"

definition layout_val :: "widget list \<Rightarrow> pyval" where
  "layout_val ws = PDict [(''widgets'', PList (map widget_val ws))]"

definition normalize_layout :: "pyval \<Rightarrow> dash_error + pyval" where
  "normalize_layout v =
     rbind (as_dict Layout_Not_Object (if v = PNone then PDict [] else v)) (\<lambda>d.
     rbind (as_list Widgets_Not_Array (get_or d ''widgets'' (PList []))) (\<lambda>items.
     rcheck (max_widgets < length items) Too_Many_Widgets (
     rbind (clean_widgets [] items) (\<lambda>ws.
     rcheck (\<not> ints_printable (layout_val ws)) (Dash_Uncaught ValueError) (
     rcheck (max_layout_bytes < int (utf8_length (json_dumps (layout_val ws)))) Layout_Too_Large (
       Inr (layout_val ws)))))))"

section \<open>Payloads\<close>

record dash_changes =
  dc_name :: "string option"
  dc_shared :: "bool option"
  dc_layout :: "pyval option"

definition clean_dash_name :: "pyval \<Rightarrow> dash_error + string" where
  "clean_dash_name v =
     rcheck (clean_text v = []) Name_Missing (rcheck (160 < length (clean_text v)) Name_Long (Inr (clean_text v)))"

definition clean_visibility :: "pyval \<Rightarrow> dash_error + bool" where
  "clean_visibility v =
     (let t = lower (strip (py_str (py_or v (PStr ''private''))))
      in if t = ''shared'' then Inr True else if t = ''private'' then Inr False else Inl Bad_Visibility)"

definition field_when :: "bool \<Rightarrow> (pyval \<Rightarrow> dash_error + 'a) \<Rightarrow> pyval \<Rightarrow> dash_error + 'a option" where
  "field_when on f v = (if on then rbind (f v) (\<lambda>x. Inr (Some x)) else Inr None)"

definition visibility_text :: "bool \<Rightarrow> string" where
  "visibility_text b = (if b then ''shared'' else ''private'')"

definition normalize_dashboard_payload :: "bool \<Rightarrow> dashboard option \<Rightarrow> pyval \<Rightarrow> dash_error + dash_changes" where
  "normalize_dashboard_payload partial current v =
     rbind (as_dict Payload_Not_Object v) (\<lambda>d.
     rcheck (\<not> set (keys d) \<subseteq> {''name'', ''visibility'', ''layout''}) Unknown_Fields (
       (let cur_name = (case current of None \<Rightarrow> PStr [] | Some c \<Rightarrow> PStr (db_name c));
            cur_vis = (case current of None \<Rightarrow> PStr ''private'' | Some c \<Rightarrow> PStr (visibility_text (db_shared c)));
            cur_layout = (case current of None \<Rightarrow> PDict [] | Some c \<Rightarrow> db_layout c);
            on = (\<lambda>k. \<not> partial \<or> has_key d k)
        in rbind (field_when (on ''name'') clean_dash_name (get_or d ''name'' cur_name)) (\<lambda>n.
           rbind (field_when (on ''visibility'') clean_visibility (get_or d ''visibility'' cur_vis)) (\<lambda>vis.
           rbind (field_when (on ''layout'') normalize_layout (get_or d ''layout'' cur_layout)) (\<lambda>l.
             Inr \<lparr>dc_name = n, dc_shared = vis, dc_layout = l\<rparr>))))))"

record dash_view =
  dv_id :: nat
  dv_name :: string
  dv_visibility :: string
  dv_owner :: int
  dv_display_name :: string
  dv_mine :: bool
  dv_can_edit :: bool
  dv_layout :: pyval

definition dashboard_payload :: "dashboard \<Rightarrow> dash_user \<Rightarrow> dash_error + dash_view" where
  "dashboard_payload d u =
     rbind (normalize_layout (db_layout d)) (\<lambda>l.
       (let name = join '' '' (filter (\<lambda>t. t \<noteq> []) [strip (db_owner_first d), strip (db_owner_last d)])
        in Inr \<lparr>dv_id = db_id d, dv_name = db_name d, dv_visibility = visibility_text (db_shared d), dv_owner = db_owner d,
                dv_display_name = (if name = [] then db_owner_username d else name), dv_mine = (db_owner d = du_id u),
                dv_can_edit = can_edit_dashboard u d, dv_layout = l\<rparr>))"

section \<open>The normal form of a layout\<close>

definition widget_ok :: "widget \<Rightarrow> bool" where
  "widget_ok w = (wi_instance w \<noteq> [] \<and> strip (wi_instance w) = wi_instance w \<and> wi_widget w \<noteq> [] \<and> strip (wi_widget w) = wi_widget w \<and>
     1 \<le> wi_w w \<and> wi_w w \<le> 12 \<and> 1 \<le> wi_h w \<and> wi_h w \<le> 12)"

lemma clean_widget_ok:
  assumes "clean_widget seen v = Inr w"
  shows "widget_ok w \<and> wi_instance w \<notin> set seen"
  using assms by (auto simp: clean_widget_def Let_def widget_ok_def clamp_size_def)

lemma clean_widgets_ok:
  "clean_widgets seen vs = Inr ws \<Longrightarrow> list_all widget_ok ws \<and> length ws = length vs \<and>
     distinct (map wi_instance ws) \<and> set (map wi_instance ws) \<inter> set seen = {}"
proof (induction vs arbitrary: seen ws)
  case (Cons v vs)
  then obtain w us where w: "clean_widget seen v = Inr w" "clean_widgets (wi_instance w # seen) vs = Inr us" "ws = w # us" by auto
  from Cons.IH [OF w(2)] clean_widget_ok [OF w(1)] show ?case by (auto simp: w(3))
qed simp

lemma widget_val_fields:
  "get_or [(''instance_id'', a), (''widget_id'', b), (''w'', c), (''h'', d), (''settings'', e)] ''instance_id'' x = a"
  "get_or [(''instance_id'', a), (''widget_id'', b), (''w'', c), (''h'', d), (''settings'', e)] ''widget_id'' x = b"
  "get_or [(''instance_id'', a), (''widget_id'', b), (''w'', c), (''h'', d), (''settings'', e)] ''w'' x = c"
  "get_or [(''instance_id'', a), (''widget_id'', b), (''w'', c), (''h'', d), (''settings'', e)] ''h'' x = d"
  "get_or [(''instance_id'', a), (''widget_id'', b), (''w'', c), (''h'', d), (''settings'', e)] ''settings'' x = e"
  by (simp_all add: get_or_def)

lemma clean_widget_val: "widget_ok w \<Longrightarrow> wi_instance w \<notin> set seen \<Longrightarrow> clean_widget seen (widget_val w) = Inr w"
  unfolding clean_widget_def widget_val_def
  by (simp add: widget_val_fields widget_ok_def clamp_size_def min_def max_def)

lemma clean_widgets_vals:
  "list_all widget_ok ws \<Longrightarrow> distinct (map wi_instance ws) \<Longrightarrow> set (map wi_instance ws) \<inter> set seen = {} \<Longrightarrow>
     clean_widgets seen (map widget_val ws) = Inr ws"
  by (induction ws arbitrary: seen) (auto simp: clean_widget_val)

text \<open>A stored layout is in normal form: at most 100 widgets with different instance ids, every size between 1 and 12, at most
  512 KiB as JSON; normalizing it again, as every read of a dashboard does, succeeds and changes nothing.\<close>

theorem normalize_layout_normal_form:
  assumes "normalize_layout v = Inr out"
  shows "\<exists>ws. out = layout_val ws \<and> length ws \<le> 100 \<and> distinct (map wi_instance ws) \<and>
     (\<forall>w \<in> set ws. 1 \<le> wi_w w \<and> wi_w w \<le> 12 \<and> 1 \<le> wi_h w \<and> wi_h w \<le> 12) \<and>
     int (utf8_length (json_dumps out)) \<le> 524288 \<and> normalize_layout out = Inr out"
proof -
  obtain items ws where i: "length items \<le> 100" "clean_widgets [] items = Inr ws" "ints_printable (layout_val ws)"
    "int (utf8_length (json_dumps (layout_val ws))) \<le> max_layout_bytes" "out = layout_val ws"
    using assms by (auto simp: normalize_layout_def max_widgets_def not_less)
  have ok: "list_all widget_ok ws" "length ws = length items" "distinct (map wi_instance ws)"
    using clean_widgets_ok [OF i(2)] by auto
  have again: "clean_widgets [] (map widget_val ws) = Inr ws" using clean_widgets_vals [OF ok(1,3)] by simp
  have "normalize_layout (layout_val ws) = Inr (layout_val ws)"
    unfolding normalize_layout_def using i(1,3,4) ok(2) again
    by (simp add: layout_val_def get_or_def max_widgets_def del: ints_printable.simps json_dumps.simps)
  then show ?thesis using i ok by (auto simp: list_all_iff widget_ok_def max_layout_bytes_def)
qed

definition demo_layout :: pyval where
  "demo_layout = PDict [(''widgets'', PList [PDict [(''instance_id'', PStr '' a ''), (''widget_id'', PStr ''cpu''), (''w'', PInt 99)]])]"

theorem normalize_layout_normal_form_witness:
  "normalize_layout (layout_val [\<lparr>wi_instance = ''a'', wi_widget = ''cpu'', wi_w = 12, wi_h = 3, wi_settings = []\<rparr>]) =
     Inr (layout_val [\<lparr>wi_instance = ''a'', wi_widget = ''cpu'', wi_w = 12, wi_h = 3, wi_settings = []\<rparr>])"
proof -
  have "normalize_layout demo_layout =
     Inr (layout_val [\<lparr>wi_instance = ''a'', wi_widget = ''cpu'', wi_w = 12, wi_h = 3, wi_settings = []\<rparr>])" by code_simp
  from normalize_layout_normal_form [OF this] show ?thesis by blast
qed

text \<open>Who may edit a dashboard can also see it, and a private one is seen by its owner only.\<close>

lemma edit_implies_visible: "d \<in> set ds \<Longrightarrow> can_edit_dashboard u d \<Longrightarrow> d \<in> set (visible_dashboards u ds)"
  by (auto simp: can_edit_dashboard_def visible_dashboards_def)

lemma private_owner_only: "d \<in> set (visible_dashboards u ds) \<Longrightarrow> \<not> db_shared d \<Longrightarrow> db_owner d = du_id u"
  by (auto simp: visible_dashboards_def)

text \<open>An infinite widget size is not refused as a bad size: \<open>int\<close> raises an overflow error that the layout check does not catch.\<close>

theorem infinite_size_escapes:
  "normalize_layout (PDict [(''widgets'', PList [PDict [(''instance_id'', PStr ''a''), (''widget_id'', PStr ''cpu''),
     (''w'', PFloat (Float_Inf False))]])]) = Inl (Dash_Uncaught OverflowError)"
  by code_simp

end
