(* ===== verification/Module_Dependants.thy ===== *)
theory Module_Dependants
  imports Module_State
begin

text \<open>
  Which installed modules name the calling module in their manifest (\<open>module_dependants.py\<close>), read from the plugin list and the module
  state. The caller check and the plugin discovery are read from outside: the identity found by the frame walk
  (with its unverifiable flag) and the discovered specifications, or nothing when discovery raised.
\<close>

section \<open>Specifications\<close>

record dep_spec =
  ds_id :: string
  ds_type :: string
  ds_legacy :: bool
  ds_name :: string
  ds_version :: string
  ds_incomplete :: bool
  ds_dependencies :: "string list list"
  ds_optional :: "string list list"
  ds_capabilities :: "string list list"

record dep_row =
  dr_id :: string
  dr_name :: string
  dr_version :: string
  dr_relation :: string
  dr_constraint :: string
  dr_enabled :: bool
  dr_capabilities :: "(string \<times> string) list"

record dep_answer =
  da_module :: string
  da_rows :: "dep_row list"
  da_complete :: bool

datatype dep_error = Dependants_Refused | Dependants_Unavailable

section \<open>The answer\<close>

text \<open>\<open>_pairs\<close>: the two-element items as a dictionary, the last one of a key wins.\<close>

definition pairs_of :: "string list list \<Rightarrow> (string, string) dict" where
  "pairs_of items = fold (\<lambda>it d. case it of [k, v] \<Rightarrow> dset k v d | _ \<Rightarrow> d) items []"

definition capabilities_of :: "dep_spec \<Rightarrow> (string \<times> string) list" where
  "capabilities_of s = sort (concat (map (\<lambda>it. case it of [a, b] \<Rightarrow> [(a, b)] | _ \<Rightarrow> []) (ds_capabilities s)))"

definition or_text :: "string \<Rightarrow> string \<Rightarrow> string" where
  "or_text a b = (if a = [] then b else a)"

definition relation_to :: "string \<Rightarrow> dep_spec \<Rightarrow> (string \<times> string) option" where
  "relation_to caller s =
     (case dget (pairs_of (ds_dependencies s)) caller of
        Some c \<Rightarrow> Some (''required'', c)
      | None \<Rightarrow> map_option (Pair ''optional'') (dget (pairs_of (ds_optional s)) caller))"

definition considered :: "string \<Rightarrow> dep_spec \<Rightarrow> bool" where
  "considered caller s = (ds_type s = ''extension'' \<and> \<not> ds_legacy s \<and> ds_id s \<noteq> caller)"

definition dep_row_of :: "pydict \<Rightarrow> string \<Rightarrow> dep_spec \<Rightarrow> dep_row option" where
  "dep_row_of state caller s =
     map_option (\<lambda>(rel, c). \<lparr>dr_id = ds_id s, dr_name = or_text (ds_name s) (ds_id s), dr_version = or_text (ds_version s) ''0.0.0'',
        dr_relation = rel, dr_constraint = c, dr_enabled = is_enabled (ds_id s) state,
        dr_capabilities = capabilities_of s\<rparr>) (relation_to caller s)"

definition max_rows :: nat where "max_rows = 200"

definition dependants ::
  "string option \<Rightarrow> bool \<Rightarrow> ms_world \<Rightarrow> dep_spec list option \<Rightarrow> dep_error + dep_answer" where
  "dependants identity unverifiable w specs =
     (case identity of
        None \<Rightarrow> Inl (if unverifiable then Dependants_Unavailable else Dependants_Refused)
      | Some caller \<Rightarrow>
          (case load_state w of
             Inl _ \<Rightarrow> Inl Dependants_Unavailable
           | Inr state \<Rightarrow>
               if is_corrupt state then Inl Dependants_Unavailable
               else (case specs of
                  None \<Rightarrow> Inl Dependants_Unavailable
                | Some ss \<Rightarrow>
                    (let mine = filter (considered caller) ss;
                         unreadable = filter ds_incomplete mine;
                         rows = sort_key dr_id (List.map_filter (dep_row_of state caller) mine)
                     in Inr \<lparr>da_module = caller, da_rows = take max_rows rows,
                             da_complete = (length rows \<le> max_rows \<and> unreadable = [])\<rparr>))))"

section \<open>Facts\<close>

lemma dep_row_of_None: "dep_row_of state caller s = None \<longleftrightarrow> relation_to caller s = None"
  by (simp add: dep_row_of_def)

lemma pairs_of_from: "dget (fold (\<lambda>it d. case it of [k, v] \<Rightarrow> dset k v d | _ \<Rightarrow> d) items d) k \<noteq> None \<longleftrightarrow>
    dget d k \<noteq> None \<or> (\<exists>v. [k, v] \<in> set items)"
proof (induction items arbitrary: d)
  case (Cons it items)
  have "dget (case it of [k', v] \<Rightarrow> dset k' v d | _ \<Rightarrow> d) k \<noteq> None \<longleftrightarrow> dget d k \<noteq> None \<or> (\<exists>v. it = [k, v])"
    by (auto simp: AList.update_conv' split: list.splits)
  then show ?case using Cons by auto
qed simp

lemma relation_to_iff:
  "relation_to caller s \<noteq> None \<longleftrightarrow> (\<exists>v. [caller, v] \<in> set (ds_dependencies s) \<or> [caller, v] \<in> set (ds_optional s))"
  using pairs_of_from [of "ds_dependencies s" "[]" caller] pairs_of_from [of "ds_optional s" "[]" caller]
  by (auto simp: relation_to_def pairs_of_def split: option.splits)

text \<open>The list of dependants is exact: when the answer says it is complete, an installed non-legacy extension other than the caller is listed
  if and only if its manifest names the caller as a required or optional dependency, with the state the module state file gives; and
  without a verified caller, a readable, undamaged state file and a readable plugin list there is no answer at all.\<close>

theorem dependants_exact:
  assumes "dependants identity unverifiable w specs = Inr a"
  shows "identity = Some (da_module a) \<and>
    (\<exists>state ss. load_state w = Inr state \<and> \<not> is_corrupt state \<and> specs = Some ss \<and>
       (\<forall>row \<in> set (da_rows a). \<exists>s \<in> set ss. considered (da_module a) s \<and> dr_id row = ds_id s \<and>
           dr_enabled row = is_enabled (ds_id s) state \<and> relation_to (da_module a) s = Some (dr_relation row, dr_constraint row)) \<and>
       (da_complete a \<longrightarrow> (\<forall>s \<in> set ss. considered (da_module a) s \<longrightarrow> \<not> ds_incomplete s \<and>
          ((\<exists>v. [da_module a, v] \<in> set (ds_dependencies s) \<or> [da_module a, v] \<in> set (ds_optional s)) \<longrightarrow>
             (\<exists>row \<in> set (da_rows a). dr_id row = ds_id s)))))"
proof -
  obtain caller state ss where i: "identity = Some caller" "load_state w = Inr state" "\<not> is_corrupt state" "specs = Some ss"
    using assms by (auto simp: dependants_def split: option.splits sum.splits if_splits)
  let ?rows = "sort_key dr_id (List.map_filter (dep_row_of state caller) (filter (considered caller) ss))"
  have a: "a = \<lparr>da_module = caller, da_rows = take max_rows ?rows,
      da_complete = (length ?rows \<le> max_rows \<and> filter ds_incomplete (filter (considered caller) ss) = [])\<rparr>"
    using assms i by (simp add: dependants_def Let_def)
  have sound: "\<exists>s \<in> set ss. considered caller s \<and> dr_id row = ds_id s \<and> dr_enabled row = is_enabled (ds_id s) state \<and>
      relation_to caller s = Some (dr_relation row, dr_constraint row)" if "row \<in> set (da_rows a)" for row
  proof -
    have "row \<in> set ?rows" using that by (auto simp: a dest: in_set_takeD)
    then obtain s where "s \<in> set ss" "considered caller s" "dep_row_of state caller s = Some row"
      by (auto simp: set_map_filter)
    then show ?thesis by (auto simp: dep_row_of_def)
  qed
  have complete: "\<not> ds_incomplete s \<and>
      ((\<exists>v. [caller, v] \<in> set (ds_dependencies s) \<or> [caller, v] \<in> set (ds_optional s)) \<longrightarrow> (\<exists>row \<in> set (da_rows a). dr_id row = ds_id s))"
    if "da_complete a" "s \<in> set ss" "considered caller s" for s
  proof -
    have len: "da_rows a = ?rows" and inc: "\<not> ds_incomplete s" using that by (auto simp: a filter_empty_conv)
    have "\<exists>row \<in> set ?rows. dr_id row = ds_id s"
      if named: "\<exists>v. [caller, v] \<in> set (ds_dependencies s) \<or> [caller, v] \<in> set (ds_optional s)"
    proof -
      obtain r where "relation_to caller s = Some r" using named relation_to_iff [of caller s] by auto
      then obtain row where "dep_row_of state caller s = Some row" "dr_id row = ds_id s"
        by (cases r) (simp add: dep_row_of_def)
      then show ?thesis using that \<open>s \<in> set ss\<close> \<open>considered caller s\<close> by (auto simp: set_map_filter)
    qed
    then show ?thesis unfolding len using inc by blast
  qed
  have m: "da_module a = caller" by (simp add: a)
  show ?thesis unfolding m using i sound complete by blast
qed

definition demo_specs :: "dep_spec list" where
  "demo_specs = [\<lparr>ds_id = ''alerts'', ds_type = ''extension'', ds_legacy = False, ds_name = [], ds_version = ''1.2.0'', ds_incomplete = False,
     ds_dependencies = [[''groups'', ''>=1.0.0'']], ds_optional = [], ds_capabilities = []\<rparr>]"

definition demo_ms :: ms_world where
  "demo_ms = \<lparr>ms_file = File_Missing, ms_lock = Lock_Present, ms_disk_ok = True, ms_cache_epoch = 0\<rparr>"

theorem dependants_exact_witness:
  "\<exists>a. dependants (Some ''groups'') False demo_ms (Some demo_specs) = Inr a \<and> (\<exists>row \<in> set (da_rows a). dr_id row = ''alerts'')"
proof -
  have ok: "is_ok (dependants (Some ''groups'') False demo_ms (Some demo_specs))" by code_simp
  then obtain a where a: "dependants (Some ''groups'') False demo_ms (Some demo_specs) = Inr a" by (auto simp: is_ok_iff)
  have "(case dependants (Some ''groups'') False demo_ms (Some demo_specs) of Inr a \<Rightarrow> da_complete a | Inl _ \<Rightarrow> False)" by code_simp
  then have c: "da_complete a" by (simp add: a)
  have "considered ''groups'' (hd demo_specs)" by (simp add: demo_specs_def considered_def)
  then show ?thesis using dependants_exact [OF a] a c by (fastforce simp: demo_specs_def)
qed

end
