(* ===== verification/Spec2Isabelle.thy ===== *)
theory Spec2Isabelle
  imports Delegation_Tickets System_Sends System_Writes System_Guarantees Scheduler_Targets Schedule_Guarantees Session_Admin Install_Guarantees Capability_Guarantees Event_Jobs_Guarantees Trust_Policy Rbac Mfa_Backup Throttles Saved_Views Dashboards Module_Dependants
begin

text \<open>
  \<^bold>\<open>Tec-Tac Core: a verification development.\<close>

  Tec-Tac Core (\<open>src/framwork/tec_tac\<close>) is a Django application beside Tactical RMM. It hosts modules: it knows which are
  installed and enabled, plans their installation, starts their scheduled and event jobs, guards the sign-ins of its users
  and keeps the rules of the server (trust level of packages, permissions, protected accounts). This development models the
  code that takes those decisions and proves what makes it correct. Every definition named like a Python function is that function.

  \<^bold>\<open>Parts and how they interact.\<close> The module state file says which modules are on; the scheduler, the event jobs, the module
  manager and the dependants answer read it, and only the root helper writes it, through the operations of
  \<open>module_state.py\<close>. The module manager decides what a switch or an install changes and leaves a job file. The scheduler's
  tick starts due runs, recovers stale ones and calls the session sweep. Session security stands before every request.
  A run reaches endpoints only through the context Core gave it: the context leads to the run, the run to its targets and its scope, and a system
  action sends to those endpoints alone. The root theory proves the property that crosses these borders: a module that is switched off, or whose state
  cannot be read, runs no scheduled and no event job, provides no capability and sends no system action.

  \<^bold>\<open>Foundations.\<close>
  \<^item> \<open>Prelude\<close>: results as sums (\<open>Inl\<close> is a raise), dictionaries in insertion order, list facts, and the locales of keyed tables and guarded machines.
  \<^item> \<open>Py_Text\<close>, \<open>Py_Value\<close>, \<open>Py_Dates\<close>, \<open>Py_Ip\<close>: the parts of Python's text, value, calendar and address types the code uses. Text covers
    Latin-1. Integers are unbounded. A float is its printed form with its truncation. A moment is a number of microseconds.
  \<^item> \<open>Urls\<close> (\<open>licensing_server_url.py\<close> and the address rules of \<open>module_state.py\<close>), \<open>Versions\<close> (versions and constraints of \<open>module_state.py\<close>).

  \<^bold>\<open>Modules.\<close>
  \<^item> \<open>Module_State\<close> (\<open>module_state.py\<close>, \<open>safe_files.atomic_json\<close>): the state file with its lock, readers and read-modify-write operations. A
    change reads back and touches no other module; a damaged file is never overwritten and reads as everything off.
  \<^item> \<open>Trust_Policy\<close> (\<open>trust_policy.py\<close>, \<open>module_category.py\<close>, \<open>account_security_policy.py\<close>): Core never asks for a lower trust level; an accepted
    package meets the minimum.
  \<^item> \<open>Module_Replacement\<close> (\<open>module_replacement.py\<close>), \<open>Module_Plans\<close> and \<open>Module_Jobs\<close> (\<open>module_manager_v2.py\<close>): when a replacement is
    honoured, the install plan and its order, enabling and disabling with cascade and hand-back, pending and reconcile jobs.
    \<open>Module_Switching\<close>, \<open>Module_Guarantees\<close> and \<open>Install_Guarantees\<close> show that a replacement and the module it replaces are never both planned to be
    on, that a cascade ends and strands nothing, that the order of a batch is safe and complete, that a valid plan meets every dependency, and that an
    operator's order is taken exactly when it is safe.
  \<^item> \<open>Capabilities\<close> (\<open>capabilities.py\<close>): the registry through which modules call each other, registration, status with nested health
    checks, lookup and listing. \<open>Capability_Guarantees\<close>: a name is served only by its owner or by the module that replaces the owner now, no name is taken from
    another module, the table stays well-formed, discovery runs no code of a module; a lookup of a name with white space around it fails.
  \<^item> \<open>Module_Dependants\<close> (\<open>module_dependants.py\<close>): the modules that name the caller in their manifest.

  \<^bold>\<open>Jobs.\<close>
  \<^item> \<open>Event_Jobs_Policy\<close>, \<open>Event_Jobs\<close> (\<open>event_jobs_policy.py\<close>, \<open>event_jobs.py\<close>, its two tables): registration, publish, claim, finish, tick.
    \<open>Event_Jobs_Safety\<close> and \<open>Event_Jobs_Guarantees\<close>: the table invariant over every history, finished rows never change, a handler runs once.
  \<^item> \<open>Scheduler_Targets\<close>, \<open>Schedule_Times\<close>, \<open>Schedule_Payload\<close>, \<open>Schedule_Visibility\<close>, \<open>Schedule_Runs\<close> (\<open>scheduler_targets.py\<close>, \<open>scheduler_timing.py\<close>,
    \<open>scheduler.py\<close>, \<open>scheduler_completion.py\<close>, \<open>tasks.py\<close>): occurrences, payload checks, module pauses, the tick, the worker and pending
    completions. \<open>Schedule_Safety\<close> and \<open>Schedule_Guarantees\<close>: next and latest occurrences refine the set of moments a schedule
    stands for, runs start only when due and once, stale runs are released, finished runs never change.
  \<^item> \<open>System_Marks\<close> (\<open>system_actions.py\<close>, \<open>resolve_changes\<close> of \<open>system_writes.py\<close>): the groups of a call, the marks a run carries and the loop that hands groups to
    Tactical. \<open>System_Sends\<close>: over every history of a run no endpoint is handed over twice, an undisturbed call reaches all of them; two calls whose claims
    interleave can send twice. The digest is an input; only the texts of the history must not collide.
  \<^item> \<open>Creation_Scope\<close> (\<open>scheduler_creation_scope.py\<close>, \<open>role_scope_descriptor\<close> of \<open>resources_adapter.py\<close>): the scope stored with a schedule is exactly its author's and
    reads back unchanged. \<open>Endpoint_Scope\<close> (the other scope reads of \<open>resources_adapter.py\<close>, \<open>scheduler_target_resolvers.py\<close>): the endpoints that targets name; a read
    in parts is the direct read. \<open>Run_Context\<close> (\<open>scheduler_run_context.py\<close>): a context cannot be forged, and a verified run gets only endpoints of its targets and scope.
  \<^item> \<open>System_Actions\<close> (the function table and the registration of \<open>system_actions.py\<close>), \<open>System_Calls\<close> (every check of \<open>_run\<close>, refusals and their rows), \<open>System_Guarantees\<close>:
    what is sent was authorized in every respect, a refused call sends nothing, registered actions keep the rules of their row. \<open>System_Writes\<close> (\<open>system_writes.py\<close>,
    \<open>_write_group\<close>): a group write keeps decisions people made meanwhile and never comes without its audit row.
  \<^item> \<open>Person_Scope\<close> (the checks of \<open>scheduler_views.py\<close> and \<open>scheduler.py\<close> on a person, the scope reads of \<open>resources_adapter.py\<close> behind them) and \<open>Confirmation\<close>
    (\<open>system_action_confirmation.py\<close>): a schedule of a system action is accepted only with the authority of the person and an id Core issued to that person for that very request
    in the last ten minutes, and such an id is accepted. Signatures and digests are inputs; nobody but Core can sign is a hypothesis on the id presented.
  \<^item> \<open>Delegation\<close> (\<open>delegation.py\<close>, its table): grants, tickets, delegated starts and the endpoints a ticket covers. \<open>Delegation_Guarantees\<close>: a delegated run stays inside
    its grant. \<open>Delegation_History\<close> and \<open>Delegation_Tickets\<close>: over every history grants stay limited and a ticket has one live run, an edit ends every ticket; and after the
    cleanup of one-off schedules a ticket works a second time.

  \<^bold>\<open>People.\<close>
  \<^item> \<open>Session_Policy\<close>, \<open>Session_Trust\<close> (\<open>session_security.py\<close>): policy, client address, credentials, trust rows, revocation, sweep and cleanup.
    \<open>Session_Guarantees\<close> and \<open>Session_Admin\<close>: a revoked credential stays out, requests are accepted within the policy only, the sweep ends expired sessions,
    protected logins stay, a client cannot choose its address; and a refusal rolls back the revocation it made.
  \<^item> \<open>Rbac\<close> (\<open>rbac.py\<close>), \<open>Mfa_Backup\<close> (\<open>mfa_backup.py\<close>), \<open>Throttles\<close> (\<open>throttles.py\<close>), \<open>Saved_Views\<close> (\<open>saved_views.py\<close>), \<open>Dashboards\<close> (\<open>dashboards.py\<close>).

  \<^bold>\<open>How state and effects are modelled.\<close> A table is a list of records in insertion order, a component's tables a record; an
  operation takes the record and returns a result with the record it leaves. \<open>atomic\<close> is a database transaction that raises.
  What is not under \<open>src\<close> is an input: the time zone database, the message broker, password hashing and keyed hashes, Knox tokens, Tactical's users, roles, API
  keys and clients, the private-network table of the interpreter, the root helpers. Database faults and concurrent writers appear where the code
  handles them (row locks, unique keys, a failed audit row). Ids that are random UUIDs are numbers given out in order.

  \<^bold>\<open>Bounds.\<close> The recovery-code generator draws from a finite list of draws and fails when it runs out. A search for the
  next monthly run looks at fourteen months, as the code does; the day searches are bounded by the code's own ranges. The order of a batch ends because each
  round takes a package; nested health checks end because the stack of checks is at most eight deep; the cascade is given one level for each installed module, which is proved to be enough. A read of endpoints goes in parts of 5000 and stops at 40 000. The limits of years Python's dates have are not modelled.

  \<^bold>\<open>Not modelled.\<close> HTTP views and serializers, the capabilities Core itself registers and contract texts, discovery of manifests on disk, unpacking and
  signature checks, the root helper scripts, system updates and backups (files, systemd, PostgreSQL), calls into Tactical's own
  code and web sockets, notices and reports (queries against Tactical's tables). Also left out: \<open>reconcile_schedule\<close> and \<open>start_one_off_run\<close>
  (request handling around checks that are modelled), the stack walk that tells the calling module (an input of delegation), the canonical timing and the texts of a confirmation, single commands (a call of
  Tactical's view), preferences (checks around one JSON column), the one-time rename of module identities, and module licensing, whose decisions rest on signed documents
  of a server that is not under \<open>src\<close>.
\<close>

section \<open>Properties that span components\<close>

text \<open>A module the state file speaks about: installed, not a legacy plugin, not one of Core's own ids.\<close>

definition managed_module :: "string \<Rightarrow> plugin_ref list \<Rightarrow> bool" where
  "managed_module m ps = (m \<noteq> [] \<and> m \<notin> set core_own_module_ids \<and> m \<in> set (map ref_id ps) \<and> m \<notin> set (map ref_id (filter ref_legacy ps)))"

definition module_off :: "string \<Rightarrow> ms_world \<Rightarrow> bool" where
  "module_off m ms = (case module_state_for_tick ms of None \<Rightarrow> True | Some st \<Rightarrow> \<not> is_enabled m st)"

lemma disabled_is_off:
  assumes "set_enabled m False ms0 = Inr (r, ms)"
  shows "module_off m ms"
proof -
  from assms obtain st where "load_state ms = Inr st" "\<not> is_corrupt st" "dget (module_record m st) ''enabled'' = Some (PBool False)"
    unfolding set_enabled_def by (rule mutate_flag) auto
  then show ?thesis by (simp add: module_off_def module_state_for_tick_def is_enabled_def get_or_def)
qed

lemma damaged_is_off: "damaged (ms_file ms) \<Longrightarrow> module_off m ms"
  by (auto simp: module_off_def module_state_for_tick_def damaged_def load_state_def load_state_unlocked_def is_corrupt_def
      corrupt_state_def get_or_def Let_def split: option.split sum.splits state_file.splits pyval.splits if_splits)

lemma off_blocks:
  assumes "managed_module m ps" and "module_off m ms" and "m \<in> {md, ow}"
  shows "kind_of (schedule_visibility ms (Some ps)) md ow ot \<noteq> Ordinary"
proof -
  let ?vis = "schedule_visibility ms (Some ps)"
  have r: "registry_ids (Some ps) = Some (filter (\<lambda>i. i \<noteq> []) (map ref_id ps), filter (\<lambda>i. i \<noteq> []) (map ref_id (filter ref_legacy ps)))"
    using assms(1) by (auto simp: registry_ids_def managed_module_def Let_def filter_empty_conv)
  then have in_ids: "m \<in> set (bound_ids ?vis md ow)"
    using assms(1,3) by (auto simp: bound_ids_def schedule_visibility_def managed_module_def Let_def)
  show ?thesis
  proof (cases "module_state_for_tick ms")
    case None
    then have "vis_unreadable ?vis" by (simp add: schedule_visibility_def Let_def)
    then show ?thesis using unreadable_blocks in_ids by (metis empty_iff list.set(1))
  next
    case (Some st)
    have "\<not> not_installed ?vis m" using r assms(1) by (auto simp: not_installed_def schedule_visibility_def managed_module_def Let_def)
    moreover have "is_disabled ?vis m" using Some assms(2) by (simp add: is_disabled_def schedule_visibility_def module_off_def Let_def)
    ultimately obtain k where k: "find (\<lambda>m. \<not> not_installed ?vis m \<and> is_disabled ?vis m) (bound_ids ?vis md ow) = Some k"
      using in_ids by (metis (mono_tags, lifting) find_None_iff option.exhaust)
    then have "k \<noteq> []" by (auto simp: find_Some_iff bound_ids_def dest!: nth_mem)
    then show ?thesis using k Some by (simp add: kind_of_def disabled_module_of_def schedule_visibility_def Let_def)
  qed
qed

lemma blocked_claim:
  assumes "claim_run env n k w = (Claim_Started, w')" and "get_run w k = Some r" and "rn_module_id r \<noteq> []"
  shows "kind_of (schedule_visibility (en_modules env) (en_plugins env)) (rn_module_id r)
    (text_or (rn_owner_module r) (case rn_schedule r of None \<Rightarrow> [] | Some j \<Rightarrow> (case get_schedule w j of None \<Rightarrow> [] | Some s \<Rightarrow> sc_owner_module s)))
    (rn_owner_type r) = Ordinary"
  using assms by (auto simp: claim_run_def Let_def text_or_def blocked_reason_iff [symmetric] split: if_splits option.splits)

text \<open>(C21) Switching a module off stops its code everywhere: after \<open>set_enabled m False\<close> succeeded, and just as well while the module
  state file is damaged, the tick starts no run of a schedule of the module, Run now refuses it, the worker
  claims none of its queued runs, the event job worker claims none of its rows, no capability it registered is available to
  other modules, and no system action it calls sends anything. The module is any installed one that is neither a legacy plugin nor Core's own.\<close>

theorem disabled_module_never_runs:
  assumes "set_enabled m False ms0 = Inr (rec, ms) \<or> damaged (ms_file ms)" and "managed_module m ps"
    and "en_modules env = ms" and "en_plugins env = Some ps" and "e_state e = ms" and "cw_modules cw = ms" and "ax_modules ax = ms"
  shows "(sc_module_id s = m \<or> sc_owner_module s = m \<longrightarrow> dispatch_schedule env (schedule_visibility ms (Some ps)) s w \<noteq> Inr (w1, Tick_Created i)) \<and>
    (get_schedule w j = Some s' \<and> sc_module_id s' = m \<longrightarrow> \<not> is_ok (queue_manual_run env j u w)) \<and>
    (get_run w k = Some r \<and> rn_module_id r = m \<longrightarrow> fst (claim_run env n k w) \<noteq> Claim_Started) \<and>
    (claim e task pk ev = (Job_Claimed row d, ev') \<longrightarrow> r_module row \<noteq> m) \<and>
    (capability_status cw rg stack c version q check_health = Inr st \<and> st_module st = m \<longrightarrow> \<not> st_available st) \<and>
    sw_sent (cs_sends (snd (run_call sha ax sw sr issued (Some m) action_id call fates cs))) = sw_sent (cs_sends cs)"
proof (intro conjI impI)
  have off: "module_off m ms" using assms(1) disabled_is_off damaged_is_off by blast
  note block = off_blocks [OF assms(2) off]
  let ?vis = "schedule_visibility ms (Some ps)"
  show "dispatch_schedule env ?vis s w \<noteq> Inr (w1, Tick_Created i)" if "sc_module_id s = m \<or> sc_owner_module s = m"
  proof -
    have "kind ?vis s \<noteq> Ordinary" unfolding kind_def by (rule block) (use that in auto)
    then have "fst (apply_module_pause ?vis s)" by (simp add: apply_module_pause_def Let_def)
    then show ?thesis by (auto simp: dispatch_schedule_def Let_def split: prod.splits)
  qed
  show "\<not> is_ok (queue_manual_run env j u w)" if "get_schedule w j = Some s' \<and> sc_module_id s' = m"
    using that block [of "sc_module_id s'" "sc_owner_module s'" "sc_owner_type s'"] assms(3,4)
    by (simp add: queue_manual_run_def blocked_reason_iff Let_def)
  show "fst (claim_run env n k w) \<noteq> Claim_Started" if r: "get_run w k = Some r \<and> rn_module_id r = m"
  proof
    assume "fst (claim_run env n k w) = Claim_Started"
    then have "claim_run env n k w = (Claim_Started, snd (claim_run env n k w))" by (simp add: prod_eq_iff)
    from blocked_claim [OF this] r assms(2-4) block show False by (auto simp: managed_module_def)
  qed
  show "r_module row \<noteq> m" if c: "claim e task pk ev = (Job_Claimed row d, ev')"
  proof -
    obtain q where q: "verdict_for e q ev = None" "module_status_now e (r_module q) \<noteq> Unknown" "row = start_row (e_now e) task q"
      using claim_claimed [OF c] by blast
    then have "module_status_now e (r_module row) = Runnable"
      by (auto simp: verdict_for_def start_row_def split: if_splits module_status.splits)
    then show ?thesis using off assms(5)
      by (auto simp: module_off_def module_state_for_tick_def module_status_now_def enabled_now_def split: option.splits if_splits sum.splits)
  qed
  have "action_module_enabled ax m \<noteq> Some True" using off assms(7)
    by (auto simp: action_module_enabled_def module_off_def module_state_for_tick_def is_enabled_def split: option.splits sum.splits if_splits)
  then show "sw_sent (cs_sends (snd (run_call sha ax sw sr issued (Some m) action_id call fates cs))) = sw_sent (cs_sends cs)" by (rule off_module_sends_nothing)
  show "\<not> st_available st" if st: "capability_status cw rg stack c version q check_health = Inr st \<and> st_module st = m"
  proof
    assume "st_available st"
    then have "provider_runs cw m" using provider_of_available [OF conjunct1 [OF st]] st by simp
    then show False using off assms(2,6)
      by (auto simp: provider_runs_def module_off_def module_state_for_tick_def managed_module_def core_own_module_ids_def is_enabled_def split: option.splits sum.splits if_splits)
  qed
qed

definition alerts_off :: ms_world where
  "alerts_off = (case set_enabled ''alerts'' False (en_modules (demo_env 0)) of Inr (_, ms) \<Rightarrow> ms | Inl _ \<Rightarrow> en_modules (demo_env 0))"

theorem disabled_module_never_runs_witness:
  "dispatch_schedule ((demo_env (at_utc 24 7 1))\<lparr>en_modules := alerts_off\<rparr>)
     (schedule_visibility alerts_off (Some [\<lparr>ref_id = ''alerts'', ref_legacy = False\<rparr>])) demo_schedule sched_demo \<noteq> Inr (sched_demo, Tick_Created 1)"
proof -
  have "is_ok (set_enabled ''alerts'' False (en_modules (demo_env 0)))" by code_simp
  then obtain r ms where ok: "set_enabled ''alerts'' False (en_modules (demo_env 0)) = Inr (r, ms)" by (auto simp: is_ok_iff)
  then have ms: "alerts_off = ms" by (simp add: alerts_off_def)
  have managed: "managed_module ''alerts'' [\<lparr>ref_id = ''alerts'', ref_legacy = False\<rparr>]" by code_simp
  have m: "sc_module_id demo_schedule = ''alerts''" by (simp add: demo_schedule_def)
  show ?thesis unfolding ms
    using disabled_module_never_runs [OF disjI1 [OF ok] managed, of "(demo_env (at_utc 24 7 1))\<lparr>en_modules := ms\<rparr>" "(sample_env 0 0)\<lparr>e_state := ms\<rparr>" "(mail_world True)\<lparr>cw_modules := ms\<rparr>" "patching_env\<lparr>ax_modules := ms\<rparr>" demo_schedule] m
    by (simp add: demo_env_def)
qed

end
